(* ===== verification/Prelude.thy ===== *)
theory Prelude
  imports Main "HOL-Library.Word" "HOL-Library.AList" "HOL-Library.Multiset"
begin

text \<open>
  The vocabulary every component theory shares: machine integers at the width the Rust
  code declares them, the result type of fallible functions with the \<open>?\<close> operator,
  the list, map and association-list operations of the Rust standard library the code
  calls, and the contract of a guarded state machine (an operation either fails and
  leaves the caller with an error, or returns a state that still satisfies the
  invariant), from which every run of operations inherits the invariant.

  Rust strings are UTF-8 byte sequences: \<^typ>\<open>string\<close> is the list of those bytes, so
  \<^term>\<open>length\<close> is \<open>str::len\<close>.
\<close>

named_theorems res_simps \<open>case analysis of results built with the question-mark operator\<close>
named_theorems inv_intros \<open>preservation lemmas of the component invariants\<close>

subsection \<open>Integers\<close>

type_synonym u8 = "8 word"
type_synonym u16 = "16 word"
type_synonym u32 = "32 word"
type_synonym u64 = "64 word"
type_synonym f64 = "64 word" \<comment> \<open>the IEEE-754 bit pattern: floats are carried, never computed with\<close>

definition checked_add :: "'a::len word \<Rightarrow> 'a word \<Rightarrow> 'a word option" where
  "checked_add a b = (if unat a + unat b < 2 ^ LENGTH('a) then Some (a + b) else None)"

definition sat_add :: "'a::len word \<Rightarrow> 'a word \<Rightarrow> 'a word" where
  "sat_add a b = (if unat a + unat b < 2 ^ LENGTH('a) then a + b else - 1)"

definition sat_sub :: "'a::len word \<Rightarrow> 'a word \<Rightarrow> 'a word" where
  "sat_sub a b = (if b \<le> a then a - b else 0)"

definition sat_mul :: "'a::len word \<Rightarrow> 'a word \<Rightarrow> 'a word" where
  "sat_mul a b = (if unat a * unat b < 2 ^ LENGTH('a) then a * b else - 1)"

lemma checked_add_Some_iff:
  "checked_add a b = Some c \<longleftrightarrow> unat a + unat b < 2 ^ LENGTH('a) \<and> c = a + (b :: 'a::len word)"
  by (auto simp: checked_add_def)

lemma unat_add_fits:
  "unat a + unat b < 2 ^ LENGTH('a) \<Longrightarrow> unat (a + b) = unat a + unat (b :: 'a::len word)"
  by (simp add: unat_word_ariths)

lemma checked_add_unat:
  "checked_add a b = Some c \<Longrightarrow> unat c = unat a + unat (b :: 'a::len word)"
  by (auto simp: checked_add_Some_iff unat_add_fits)

lemma unat_max_word: "unat (- 1 :: 'a::len word) = 2 ^ LENGTH('a) - 1"
  by transfer (simp add: nat_diff_distrib' nat_power_eq mask_eq_exp_minus_1 flip: mask_eq_take_bit_minus_one)

lemma unat_sat_add:
  "unat (sat_add a b) = min (unat a + unat b) (2 ^ LENGTH('a) - 1)" for a b :: "'a::len word"
  by (auto simp: sat_add_def unat_add_fits unat_max_word min_def)

lemma unat_sat_sub: "unat (sat_sub a b) = unat a - unat b" for a b :: "'a::len word"
  by (auto simp: sat_sub_def unat_sub word_le_nat_alt)

lemma unat_sat_mul:
  "unat (sat_mul a b) = min (unat a * unat b) (2 ^ LENGTH('a) - 1)" for a b :: "'a::len word"
proof (cases "unat a * unat b < 2 ^ LENGTH('a)")
  case True
  then show ?thesis by (simp add: sat_mul_def unat_word_ariths)
next
  case False
  then have "2 ^ LENGTH('a) - 1 \<le> unat a * unat b" by simp
  with False show ?thesis by (simp add: sat_mul_def unat_max_word min_absorb2)
qed

lemma sat_add_mono_le: "a \<le> sat_add a b" for a b :: "'a::len word"
proof -
  have "unat a < 2 ^ LENGTH('a)" by (rule unsigned_less)
  then have "unat a \<le> 2 ^ LENGTH('a) - 1" by linarith
  then show ?thesis by (simp add: word_le_nat_alt unat_sat_add)
qed

subsection \<open>Results\<close>

definition try_bind :: "'e + 'a \<Rightarrow> ('a \<Rightarrow> 'e + 'b) \<Rightarrow> 'e + 'b" where
  "try_bind r f = (case r of Inl e \<Rightarrow> Inl e | Inr a \<Rightarrow> f a)"

definition ensure :: "bool \<Rightarrow> 'e \<Rightarrow> 'e + unit" where
  "ensure b e = (if b then Inr () else Inl e)"

definition ok_or :: "'a option \<Rightarrow> 'e \<Rightarrow> 'e + 'a" where
  "ok_or x e = (case x of None \<Rightarrow> Inl e | Some a \<Rightarrow> Inr a)"

definition is_ok :: "'e + 'a \<Rightarrow> bool" where
  "is_ok r = (case r of Inl _ \<Rightarrow> False | Inr _ \<Rightarrow> True)"

lemma try_bind_simps [simp]:
  "try_bind (Inl e) f = Inl e" "try_bind (Inr a) f = f a"
  by (simp_all add: try_bind_def)

lemma try_bind_Inr_iff [res_simps]:
  "try_bind r f = Inr b \<longleftrightarrow> (\<exists>a. r = Inr a \<and> f a = Inr b)"
  by (cases r) auto

lemma try_bind_Inl_iff [res_simps]:
  "try_bind r f = Inl e \<longleftrightarrow> r = Inl e \<or> (\<exists>a. r = Inr a \<and> f a = Inl e)"
  by (cases r) auto

lemma ensure_iff [res_simps]:
  "ensure b e = Inr u \<longleftrightarrow> b" "ensure b e = Inl e' \<longleftrightarrow> \<not> b \<and> e' = e"
  by (auto simp: ensure_def)

lemma ok_or_iff [res_simps]:
  "ok_or x e = Inr a \<longleftrightarrow> x = Some a" "ok_or x e = Inl e' \<longleftrightarrow> x = None \<and> e' = e"
  by (auto simp: ok_or_def split: option.splits)

lemma is_ok_simps [simp]: "is_ok (Inr a)" "\<not> is_ok (Inl e)"
  by (simp_all add: is_ok_def)

lemma is_ok_iff: "is_ok r \<longleftrightarrow> (\<exists>a. r = Inr a)"
  by (cases r) auto

subsection \<open>Vectors and deques\<close>

fun position :: "('a \<Rightarrow> bool) \<Rightarrow> 'a list \<Rightarrow> nat option" where
  "position P [] = None"
| "position P (x # xs) = (if P x then Some 0 else map_option Suc (position P xs))"

definition remove_at :: "nat \<Rightarrow> 'a list \<Rightarrow> 'a list" where
  "remove_at i xs = take i xs @ drop (Suc i) xs"

fun update_first :: "('a \<Rightarrow> bool) \<Rightarrow> ('a \<Rightarrow> 'a) \<Rightarrow> 'a list \<Rightarrow> 'a list" where
  "update_first P f [] = []"
| "update_first P f (x # xs) = (if P x then f x # xs else x # update_first P f xs)"

fun find_map :: "('a \<Rightarrow> 'b option) \<Rightarrow> 'a list \<Rightarrow> 'b option" where
  "find_map f [] = None"
| "find_map f (x # xs) = (case f x of None \<Rightarrow> find_map f xs | Some y \<Rightarrow> Some y)"

definition filter_map :: "('a \<Rightarrow> 'b option) \<Rightarrow> 'a list \<Rightarrow> 'b list" where
  "filter_map f xs = concat (map (\<lambda>x. case f x of None \<Rightarrow> [] | Some y \<Rightarrow> [y]) xs)"

lemma position_SomeD:
  "position P xs = Some i \<Longrightarrow> i < length xs \<and> P (xs ! i) \<and> (\<forall>j<i. \<not> P (xs ! j))"
proof (induction xs arbitrary: i)
  case (Cons x xs)
  then show ?case by (cases i) (auto split: if_splits simp: less_Suc_eq_0_disj)
qed simp

lemma position_None_iff: "position P xs = None \<longleftrightarrow> (\<forall>x\<in>set xs. \<not> P x)"
  by (induction xs) auto

lemma position_find: "find P xs = map_option ((!) xs) (position P xs)"
  by (induction xs) (auto simp: option.map_comp comp_def)

lemma find_SomeD: "find P xs = Some x \<Longrightarrow> x \<in> set xs \<and> P x"
  by (auto simp: find_Some_iff)

lemma distinct_mset_subset:
  assumes sub: "mset xs \<subseteq># mset ys" and "distinct ys"
  shows "distinct xs"
proof -
  have le: "count (mset xs) a \<le> count (mset ys) a" for a
    using sub by (rule mset_subset_eq_count)
  have "count (mset ys) a \<le> 1" for a
    using \<open>distinct ys\<close> by (simp add: distinct_count_atmost_1)
  then have "count (mset xs) a \<le> 1" for a
    using le order_trans by blast
  moreover have "a \<in> set xs \<Longrightarrow> 1 \<le> count (mset xs) a" for a
    by (simp add: Suc_le_eq)
  ultimately show ?thesis
    by (auto simp: distinct_count_atmost_1 le_antisym count_mset_0_iff)
qed

lemma remove_at_Cons [simp]:
  "remove_at 0 (x # xs) = xs" "remove_at (Suc i) (x # xs) = x # remove_at i xs"
  by (simp_all add: remove_at_def)

lemma map_remove_at: "map f (remove_at i xs) = remove_at i (map f xs)"
  by (simp add: remove_at_def take_map drop_map)

lemma remove_at_position:
  "position P xs = Some i \<Longrightarrow> distinct (map f xs) \<Longrightarrow> (\<forall>x\<in>set xs. P x \<longleftrightarrow> f x = k) \<Longrightarrow>
    remove_at i xs = filter (\<lambda>x. f x \<noteq> k) xs"
proof (induction xs arbitrary: i)
  case (Cons x xs)
  show ?case
  proof (cases "P x")
    case True
    with Cons.prems have "f x = k" "i = 0" by auto
    with Cons.prems(2) have "\<forall>y\<in>set xs. f y \<noteq> k" by (auto simp: image_iff)
    with \<open>f x = k\<close> \<open>i = 0\<close> show ?thesis by (simp add: filter_id_conv)
  next
    case False
    then show ?thesis using Cons by auto
  qed
qed simp

lemma set_remove_at: "set (remove_at i xs) \<subseteq> set xs"
  by (auto simp: remove_at_def dest: in_set_takeD in_set_dropD)

lemma distinct_remove_at: "distinct xs \<Longrightarrow> distinct (remove_at i xs)"
proof (induction xs arbitrary: i)
  case (Cons x xs)
  then show ?case using set_remove_at [of _ xs] by (cases i) auto
qed (simp add: remove_at_def)

lemma map_update_first: "(\<And>x. g (f x) = g x) \<Longrightarrow> map g (update_first P f xs) = map g xs"
  by (induction xs) auto

lemma length_update_first [simp]: "length (update_first P f xs) = length xs"
  by (induction xs) auto

lemma filter_map_Cons [simp]:
  "filter_map f [] = []"
  "filter_map f (x # xs) = (case f x of None \<Rightarrow> filter_map f xs | Some y \<Rightarrow> y # filter_map f xs)"
  by (simp_all add: filter_map_def split: option.splits)

lemma filter_map_append: "filter_map f (xs @ ys) = filter_map f xs @ filter_map f ys"
  by (simp add: filter_map_def)

lemma set_filter_map: "set (filter_map f xs) = {y. \<exists>x\<in>set xs. f x = Some y}"
  by (induction xs) (auto split: option.splits)

subsection \<open>Hash maps\<close>

text \<open>\<open>HashMap::retain\<close>; a map keeps exactly the entries the predicate accepts.\<close>

definition retain :: "('k \<Rightarrow> 'v \<Rightarrow> bool) \<Rightarrow> ('k \<rightharpoonup> 'v) \<Rightarrow> ('k \<rightharpoonup> 'v)" where
  "retain P m = (\<lambda>k. case m k of None \<Rightarrow> None | Some v \<Rightarrow> if P k v then Some v else None)"

lemma retain_Some_iff [simp]: "retain P m k = Some v \<longleftrightarrow> m k = Some v \<and> P k v"
  by (auto simp: retain_def split: option.splits)

lemma dom_retain: "dom (retain P m) \<subseteq> dom m"
  by (auto simp: dom_def)

subsection \<open>Guarded state machines\<close>

fun run_ops :: "('s \<Rightarrow> 'o \<Rightarrow> 'e + 's) \<Rightarrow> 's \<Rightarrow> 'o list \<Rightarrow> 'e + 's" where
  "run_ops step s [] = Inr s"
| "run_ops step s (x # xs) = try_bind (step s x) (\<lambda>s'. run_ops step s' xs)"

lemma run_ops_append:
  "run_ops step s (xs @ ys) = try_bind (run_ops step s xs) (\<lambda>s'. run_ops step s' ys)"
  by (induction xs arbitrary: s) (auto simp: try_bind_def split: sum.splits)

locale guarded_machine =
  fixes step :: "'s \<Rightarrow> 'o \<Rightarrow> 'e + 's"
    and inv :: "'s \<Rightarrow> bool"
  assumes step_inv: "inv s \<Longrightarrow> step s x = Inr s' \<Longrightarrow> inv s'"
begin

lemma run_inv: "inv s \<Longrightarrow> run_ops step s xs = Inr s' \<Longrightarrow> inv s'"
  by (induction xs arbitrary: s) (auto simp: res_simps dest: step_inv)

end

text \<open>
  A machine with an observation that only moves one way (a set of identifiers that are
  never forgotten, a counter that never goes back).
\<close>

locale monotone_machine = guarded_machine step inv
  for step :: "'s \<Rightarrow> 'o \<Rightarrow> 'e + 's" and inv +
  fixes grows :: "'s \<Rightarrow> 's \<Rightarrow> bool"
  assumes grows_refl: "grows s s"
    and grows_trans: "grows s t \<Longrightarrow> grows t u \<Longrightarrow> grows s u"
    and step_grows: "inv s \<Longrightarrow> step s x = Inr s' \<Longrightarrow> grows s s'"
begin

lemma run_grows: "inv s \<Longrightarrow> run_ops step s xs = Inr s' \<Longrightarrow> grows s s'"
proof (induction xs arbitrary: s)
  case Nil
  then show ?case by (simp add: grows_refl)
next
  case (Cons x xs)
  then obtain t where t: "step s x = Inr t" "run_ops step t xs = Inr s'"
    by (auto simp: res_simps)
  with Cons show ?case by (meson grows_trans step_grows step_inv)
qed

end

end
