(* ===== verification/Wire_Types.thy ===== *)
theory Wire_Types
  imports Prelude
begin

text \<open>
  The data the Agent runtime writes to a Session log, declaration for declaration from
  the Rust sources: a struct is a record (each field under a short prefix, because the
  same field name occurs in many structs), an enum is a datatype whose constructors
  carry the fields of the variant in the source's order. Optional fields are options,
  vectors are lists, a \<open>BTreeMap\<close> keyed by strings is its list of entries in key
  order, and a JSON value is the tree \<open>json\<close>.
\<close>

subsection \<open>JSON values\<close>

text \<open>\<open>serde_json::Value\<close>; a number is a non-negative or negative 64-bit integer or a float.\<close>

datatype json_number = PosInt u64 | NegInt u64 | Float f64

datatype json =
    JNull
  | JBool bool
  | JNumber json_number
  | JString string
  | JArray "json list"
  | JObject "(string \<times> json) list"

definition json_as_bool :: "json \<Rightarrow> bool option" where
  "json_as_bool v = (case v of JBool b \<Rightarrow> Some b | _ \<Rightarrow> None)"

definition json_as_str :: "json \<Rightarrow> string option" where
  "json_as_str v = (case v of JString s \<Rightarrow> Some s | _ \<Rightarrow> None)"

definition json_as_u64 :: "json \<Rightarrow> u64 option" where
  "json_as_u64 v = (case v of JNumber (PosInt n) \<Rightarrow> Some n | _ \<Rightarrow> None)"

text \<open>\<open>Value::get\<close> with a string key: the entry of an object, nothing for another value.\<close>

definition json_get :: "string \<Rightarrow> json \<Rightarrow> json option" where
  "json_get k v = (case v of JObject kvs \<Rightarrow> map_of kvs k | _ \<Rightarrow> None)"

subsection \<open>Session and message vocabulary (agent\_runtime/event.rs, images.rs)\<close>

datatype (plugins only: code size) session_status =
    StatusIdle
  | StatusRunning
  | StatusWaiting
  | StatusCancelled
  | StatusCompleted
  | StatusFailed

datatype (plugins only: code size) inbox_lane =
    NextTurn
  | NextStep

datatype (plugins only: code size) inbox_operation =
    Enqueued
  | Claimed
  | Discarded

datatype (plugins only: code size) message_source_kind =
    SourceUser
  | SourceRuntime
  | SourcePlugin
  | SourceSkillCatalog
  | SourceAgentInstructions
  | SourceSkillInvocation
  | SourceSessionReference
  | SourceForm

record message_source =
  src_kind :: message_source_kind
  src_label :: string
  src_producer_id :: string
  src_metadata :: "(string \<times> json) list"

record terminal_context =
  tctx_session_id :: string
  tctx_version :: u64
  tctx_max_lines :: u16
  tctx_max_bytes :: u32
  tctx_content :: string

record image_ref =
  img_version :: u32
  img_sha256 :: string
  img_media_type :: string
  img_bytes :: u64
  img_width :: u32
  img_height :: u32
  img_name :: string

record inbox_message =
  msg_images :: "image_ref list"
  msg_message_id :: string
  msg_client_submission_id :: "string option"
  msg_content :: string
  msg_source :: message_source
  msg_terminal_context :: "terminal_context option"

datatype (plugins only: code size) session_effect =
    EffectNone
  | EffectReadOnly
  | EffectSensitiveRead
  | EffectStateChange
  | EffectDestructive
  | EffectExternalSideEffect
  | EffectUnknown

datatype (plugins only: code size) permission_mode =
    RequestApproval
  | ScopedAutopilot
  | Operator

datatype (plugins only: code size) execution_surface =
    SurfaceDirect
  | SurfaceBoundTerminal

record session_target =
  tgt_kind :: string
  tgt_target_id :: string
  tgt_session_id :: string
  tgt_label :: "string option"
  tgt_profile_id :: "string option"
  tgt_host :: "string option"
  tgt_port :: "u16 option"
  tgt_username :: "string option"
  tgt_cwd :: "string option"
  tgt_root_path :: "string option"
  tgt_local_root :: "string option"

record capability_scope =
  scope_tool_names :: "string list"
  scope_effects :: "session_effect list"
  scope_target_ids :: "string list"

datatype (plugins only: code size) subagent_role =
    RoleGeneral
  | RoleExplorer
  | RoleDiagnostician
  | RoleOperator
  | RoleVerifier
  | RoleReviewer

datatype (plugins only: code size) subagent_inheritance =
    Blank
  | SafePrefix "u64 option"

record subagent_budget =
  sbud_max_steps_per_turn :: "u16 option"
  sbud_max_turns :: u16
  sbud_max_tool_calls :: "u32 option"
  sbud_max_tokens :: "u64 option"
  sbud_timeout_ms :: u64

record subagent_model =
  smod_route_id :: string
  smod_model_id :: string
  smod_reasoning_effort :: "string option"
  smod_route_revision :: "u64 option"

record subagent_session =
  sub_descriptor_id :: string
  sub_parent_task_id :: string
  sub_role :: subagent_role
  sub_continuable :: bool
  sub_depth :: u16
  sub_inheritance :: subagent_inheritance
  sub_capability_scope :: capability_scope
  sub_target_scope :: "session_target list"
  sub_budget :: subagent_budget
  sub_provider :: subagent_model

subsection \<open>Budgets, artifacts and replay envelopes (budget.rs, artifact.rs, llm/replay.rs)\<close>

record input_measurement =
  meas_identity :: string
  meas_heuristic_tokens :: u64
  meas_usage_adjustment_tokens :: u64
  meas_anchor_request_id :: "string option"

record request_budget =
  rbud_output_tokens :: u64
  rbud_safety_tokens :: u64
  rbud_usable_input_tokens :: u64
  rbud_compaction_threshold_tokens :: u64
  rbud_compaction_target_tokens :: u64
  rbud_input_measurement :: "input_measurement option"

datatype (plugins only: code size) artifact_sensitivity =
    ArtifactInternal
  | ArtifactSensitiveRedacted

record artifact_metadata =
  art_artifact_id :: string
  art_kind :: string
  art_title :: string
  art_media_type :: string
  art_sha256 :: string
  art_size_bytes :: u64
  art_sensitivity :: artifact_sensitivity
  art_created_at_unix_ms :: u64

record replay_source =
  rsrc_request_id :: string
  rsrc_request_snapshot_digest :: string
  rsrc_route_id :: string
  rsrc_route_revision :: u64
  rsrc_model_id :: string
  rsrc_replay_domain_id :: string
  rsrc_request_content_hash :: string
  rsrc_preparation_version :: u32
  rsrc_projection_policy :: string
  rsrc_image_projection_refs :: "image_ref list"
  rsrc_image_projection_hash :: string
  rsrc_assistant_content_hash :: string

datatype (plugins only: code size) replay_block_kind =
    BlockText
  | BlockReasoning
  | BlockToolCall

record replay_block =
  rblk_index :: u32
  rblk_kind :: replay_block_kind
  rblk_content_hash :: string
  rblk_metadata :: json

datatype (plugins only: code size) replay_envelope =
    EnvelopePrepared u32 string u32 replay_source json "replay_block list"

datatype (plugins only: code size) replay_storage =
    StorageArtifact

record replay_artifact =
  rart_storage :: replay_storage
  rart_artifact :: artifact_metadata

datatype (plugins only: code size) stored_replay =
    ReplayInline replay_envelope
  | ReplayArtifact replay_artifact

subsection \<open>Assistant output, usage and tool status (event.rs)\<close>

record fleet_target =
  flt_target_id :: string
  flt_task_id :: string
  flt_goal :: string
  flt_wave :: u32
  flt_state :: string
  flt_child_session_ids :: "string list"
  flt_evidence_refs :: "string list"
  flt_recovery :: "string option"

record recorded_tool_call =
  call_call_id :: string
  call_provider_call_id :: "string option"
  call_name :: string
  call_native_name :: "string option"
  call_arguments :: json
  call_title :: "string option"
  call_effect :: "session_effect option"
  call_target :: "session_target option"

record token_usage =
  usage_uncached_input_tokens :: "u64 option"
  usage_cache_read_tokens :: "u64 option"
  usage_cache_write_tokens :: "u64 option"
  usage_output_tokens :: "u64 option"
  usage_reasoning_tokens :: "u64 option"
  usage_total_tokens :: "u64 option"

datatype (plugins only: code size) stop_reason =
    StopStop
  | StopToolCalls
  | StopLength
  | StopContentFilter
  | StopCancelled
  | StopError
  | StopOther

datatype (plugins only: code size) request_reason =
    ReasonInitial
  | ReasonRetry
  | ReasonToolContinuation
  | ReasonRecovery

datatype (plugins only: code size) snapshot_reason =
    SnapshotInitial
  | SnapshotChange
  | SnapshotResume
  | SnapshotSeries

record request_series =
  ser_series_id :: string
  ser_request_index :: u32
  ser_starts_series :: bool

record tool_call_delta =
  tdel_index :: u32
  tdel_call_id :: "string option"
  tdel_name_delta :: "string option"
  tdel_arguments_delta :: "string option"

datatype (plugins only: code size) assistant_block =
    ContentText string
  | ContentReasoning string "json option"
  | ContentToolCall recorded_tool_call

datatype (plugins only: code size) approval_status =
    ApprovalRequested
  | ApprovalApproved
  | ApprovalRejected
  | ApprovalExpired
  | ApprovalCancelled

datatype (plugins only: code size) result_status =
    ResultCompleted
  | ResultRejected
  | ResultFailed
  | ResultTimedOut
  | ResultCancelled
  | ResultUncertain

datatype (plugins only: code size) plan_step_status =
    PlanPending
  | PlanInProgress
  | PlanCompleted
  | PlanBlocked
  | PlanFailed

record plan_step =
  plan_id :: string
  plan_title :: string
  plan_status :: plan_step_status
  plan_detail :: "string option"
  plan_evidence_refs :: "string list"

datatype (plugins only: code size) recovery_status =
    RecoveryNone
  | RecoveryAvailable
  | RecoveryRequired
  | RecoveryReconciling
  | RecoveryCompleted

datatype (plugins only: code size) tool_execution_status =
    Dispatched

record recovery_state =
  rcv_status :: recovery_status
  rcv_summary :: "string option"

record fleet_state =
  fleet_fleet_id :: "string option"
  fleet_status :: "string option"
  fleet_wave :: u32
  fleet_total_waves :: u32
  fleet_targets_completed :: u32
  fleet_targets_total :: u32
  fleet_canary_size :: "u32 option"
  fleet_wave_size :: "u32 option"
  fleet_failure_threshold :: "u32 option"
  fleet_failures :: "u32 option"
  fleet_budget :: "subagent_budget option"
  fleet_targets :: "fleet_target list"

datatype (plugins only: code size) compaction_status =
    CompactionCompleted
  | CompactionFailed
  | CompactionCancelled

subsection \<open>Model requests (llm/types.rs, errors.rs, catalog.rs, routes.rs, runtime.rs, retry.rs)\<close>

record tool_definition =
  tdef_name :: string
  tdef_description :: string
  tdef_input_schema :: json

datatype (plugins only: code size) model_error_kind =
    ErrCancelled
  | ErrRetryable
  | ErrTransport
  | ErrTimeout
  | ErrEmptyResponse
  | ErrProtocol
  | ErrContextTooLarge
  | ErrAuthentication
  | ErrRateLimited
  | ErrTerminal

record model_error =
  merr_kind :: model_error_kind
  merr_message :: string
  merr_status :: "u16 option"
  merr_code :: "string option"
  merr_retry_after_ms :: "u64 option"

record retry_policy =
  pol_max_attempts :: u32
  pol_initial_delay_ms :: u64
  pol_max_delay_ms :: u64
  pol_max_server_delay_ms :: u64
  pol_jitter_ratio :: f64

datatype (plugins only: code size) provider_kind =
    Ollama
  | OpenAi
  | OpenAiCompatible
  | AnthropicMessages

datatype (plugins only: code size) support =
    SupportSupported
  | SupportUnsupported
  | SupportUnknown

datatype (plugins only: code size) reasoning_encoding =
    EncodingNone
  | EncodingResponses
  | EncodingEnableThinking
  | EncodingThinking
  | EncodingAdaptive
  | EncodingThinkingEffort
  | EncodingEffort
  | EncodingOllama
  | EncodingAnthropicAdaptive

record compat =
  compat_protocol :: provider_kind
  compat_cumulative_stream :: bool
  compat_supports_stream_usage :: bool
  compat_native_reasoning :: bool
  compat_split_reasoning :: bool
  compat_replay_reasoning_content :: bool
  compat_think_tag_fallback :: bool
  compat_parallel_tool_calls :: bool
  compat_strict_schema :: bool
  compat_preserves_reasoning_across_turns :: bool
  compat_reasoning_encoding :: reasoning_encoding
  compat_clear_thinking :: bool
  compat_default_thinking :: bool

record reasoning_option =
  ropt_id :: string
  ropt_display_name :: string
  ropt_wire_value :: "json option option"

record vision_budget =
  vis_max_request_images :: u64
  vis_max_request_image_bytes :: u64
  vis_reserved_tokens_per_image :: u64
  vis_image_token_budget_policy :: string

record model_definition =
  mdef_display_name :: "string option"
  mdef_context_window :: u64
  mdef_max_output_tokens :: u64
  mdef_request_output_tokens :: "u64 option"
  mdef_tool_calling :: support
  mdef_text_input :: support
  mdef_image_input :: support
  mdef_reasoning :: "reasoning_option list"
  mdef_compat :: compat
  mdef_vision :: "vision_budget option"

record route_timeouts =
  rto_request_headers_ms :: u64
  rto_first_byte_ms :: u64
  rto_stream_idle_ms :: u64

datatype (plugins only: code size) request_snapshot =
    RequestSnapshotPrepared string u64 string string u32 model_definition string string "string option" u64 retry_policy route_timeouts string u32 string string "image_ref list"

subsection \<open>Skills (agent\_runtime/skills.rs)\<close>

record skill_scope =
  sks_target :: session_target
  sks_root :: string
  sks_root_identity :: string

record skill_diagnostic =
  skd_path :: string
  skd_code :: string
  skd_message :: string

record skill_entry =
  ske_name :: string
  ske_description :: string
  ske_relative_path :: string
  ske_resource_base :: string
  ske_model_invocable :: bool
  ske_user_invocable :: bool
  ske_file_hash :: string
  ske_instruction_hash :: string
  ske_extensions :: "(string \<times> json) list"

datatype (plugins only: code size) skill_observation_status =
    ObservationComplete
  | ObservationIncomplete
  | ObservationUnavailable

record skill_snapshot =
  sksn_protocol_version :: u32
  sksn_scope :: skill_scope
  sksn_entries :: "skill_entry list"
  sksn_snapshot_revision :: string

record skill_observation =
  sko_protocol_version :: u32
  sko_status :: skill_observation_status
  sko_snapshot :: "skill_snapshot option"
  sko_diagnostics :: "skill_diagnostic list"

datatype (plugins only: code size) skill_invocation_kind =
    InvocationModel
  | InvocationUser

record skill_provenance =
  skp_protocol_version :: u32
  skp_renderer_version :: u32
  skp_provider_identity :: string
  skp_scope :: skill_scope
  skp_relative_path :: string
  skp_resource_base :: string
  skp_invocation :: skill_invocation_kind
  skp_catalog_revision :: string
  skp_file_hash :: string
  skp_instruction_hash :: string
  skp_message_ids :: "string list"
  skp_request_id :: "string option"
  skp_call_id :: "string option"

record loaded_skill =
  skl_name :: string
  skl_instructions :: string
  skl_provenance :: skill_provenance
  skl_rendered :: string
  skl_rendered_hash :: string

record skill_catalog_publication =
  skc_scope :: "skill_scope option"
  skc_model_catalog_digest :: string
  skc_content :: string

record skill_slash_outcome =
  skso_name :: string
  skso_message_ids :: "string list"
  skso_loaded :: "loaded_skill option"
  skso_error :: "string option"

record skill_step_prepared =
  sksp_protocol_version :: u32
  sksp_message_ids :: "string list"
  sksp_catalog :: "skill_catalog_publication option"
  sksp_outcomes :: "skill_slash_outcome list"

subsection \<open>Questions (agent\_runtime/user\_questions.rs)\<close>

record question_option =
  qopt_label :: string
  qopt_description :: "string option"

record question =
  qst_id :: string
  qst_question :: string
  qst_header :: "string option"
  qst_options :: "question_option list option"
  qst_multi_select :: bool

record question_arguments =
  qargs_questions :: "question list"

record question_answer =
  qans_id :: string
  qans_selected :: "string list"
  qans_custom :: "string option"

record question_identity =
  qid_session_id :: string
  qid_turn_id :: string
  qid_step_id :: string
  qid_request_id :: string
  qid_call_id :: string
  qid_question_request_id :: string

record answer_question_input =
  aqi_identity :: question_identity
  aqi_client_operation_id :: string
  aqi_answers :: "question_answer list"

end
