(* ===== verification/Events.thy ===== *)
theory Events
  imports Wire_Types
begin

text \<open>
  The event vocabulary of an Agent Session log (agent\_runtime/event.rs): the payload of
  every kind of event, in the source's order with its fields in the source's order, the
  envelope around it, and the small functions of the vocabulary. A Session is the list of
  its events; every other theory of the runtime folds over that list.
\<close>

datatype (plugins only: code size) session_event_payload =
    SessionCreated string string "string option" "string option" "session_target option" "permission_mode option" execution_surface "string list" "capability_scope option" "subagent_session option"
  | AgentCreated string "string option"
  | AgentStatus session_status "string option"
  | SessionEnded session_status "string option"
  | SessionResumed
  | SubagentRecoveryStarted string string inbox_message
  | InboxPaused "string list"
  | InboxItemResumed string u64 string
  | InboxSpliced inbox_operation inbox_lane "inbox_message list"
  | InboxItemUpdated string inbox_lane string "string option" u64 string
  | InboxItemRemoved string inbox_lane u64 string
  | InboxItemSteered string u64 string
  | InboxReordered inbox_lane "string list" u64 string
  | SessionModelSelected subagent_model
  | SessionPermissionChanged permission_mode
  | SessionExecutionSurfaceChanged execution_surface
  | SessionTerminalReconnected string session_target
  | SessionProjectRootBound string
  | SessionRenamed string u64 string
  | StepInputClaim bool "inbox_message list" "inbox_message list"
  | FileReferenceScopeBound skill_scope
  | SkillCatalogObserved skill_observation
  | SkillCatalogPublished skill_catalog_publication
  | SkillStepPrepared skill_step_prepared
  | TurnStart
  | TurnEnd string
  | StepStart
  | StepEnd string
  | UserMessage inbox_message
  | AssistantChunk string "string option" "string option" "tool_call_delta option" "token_usage option"
  | AssistantMessage string "assistant_block list" token_usage stop_reason bool "stored_replay option"
  | RequestHeader string request_snapshot string string string "string option" request_reason request_series snapshot_reason string "tool_definition list" u32
  | RequestStart string string string string "string option" request_reason request_series u32
  | RequestContext string "u64 option" "u64 option" "request_budget option" "u64 option" "u64 option" "u64 option" u64 "bool option" "u64 option"
  | RequestRetry string "string option" u32 string "u64 option" "u64 option" "u64 option" bool "string option" "u16 option" "string option"
  | RequestFailure string u32 u32 u64 bool model_error
  | RequestUsage string token_usage stop_reason
  | ToolCall recorded_tool_call
  | QuestionRequested question_identity question_arguments subagent_model
  | QuestionAnswered answer_question_input string
  | QuestionCancelled question_identity
  | ToolApproval string string "string option" approval_status "session_effect option" "string option" "u64 option" "string option"
  | ToolExecution string tool_execution_status string
  | ToolResult string string result_status string "json option" "u64 option" "string list"
  | ContextArtifact string string string "u64 option" "string option" "string option" "artifact_sensitivity option"
  | CompactionStart string "string option"
  | StepPreparationAbandoned string "string list"
  | CompactionSummary string u64 u64
  | CompactionEnd u64 u64 compaction_status "string option" "u64 option" "string option"
  | SubagentDescriptor string string string string subagent_role bool u16 subagent_inheritance capability_scope "session_target list" subagent_budget
  | SubagentMessage string string string string string
  | SubagentSettled string string string session_status string "string list"
  | SubagentDetached string string string
  | TaskLinked string "string option"
  | TaskPlan u64 "plan_step list"
  | TaskState string "string option" "f64 option" "recovery_state option" "fleet_state option"
  | TaskEvidence string string string

record session_event =
  ev_version :: u8
  ev_session_id :: string
  ev_seq :: u64
  ev_time_unix_ms :: u64
  ev_turn_id :: "string option"
  ev_step_id :: "string option"
  ev_payload :: session_event_payload

definition AGENT_SESSION_EVENT_VERSION :: u8 where
  "AGENT_SESSION_EVENT_VERSION = 5"

definition is_terminal :: "session_status \<Rightarrow> bool" where
  "is_terminal s = (case s of StatusCancelled \<Rightarrow> True | StatusCompleted \<Rightarrow> True
     | StatusFailed \<Rightarrow> True | _ \<Rightarrow> False)"

definition user_source :: message_source where
  "user_source = \<lparr>src_kind = SourceUser, src_label = ''User'',
     src_producer_id = ''shellspan-user'', src_metadata = []\<rparr>"

definition runtime_source :: "string \<Rightarrow> message_source" where
  "runtime_source label = \<lparr>src_kind = SourceRuntime, src_label = label,
     src_producer_id = ''shellspan-runtime'', src_metadata = []\<rparr>"

definition runtime_context_source :: message_source where
  "runtime_context_source = \<lparr>src_kind = SourceRuntime, src_label = ''ShellSpan runtime context'',
     src_producer_id = ''shellspan.runtime-context.v1'',
     src_metadata = [(''form'', JString ''snapshot'')]\<rparr>"

definition agent_instructions_source :: "string \<Rightarrow> message_source" where
  "agent_instructions_source label = \<lparr>src_kind = SourceAgentInstructions, src_label = label,
     src_producer_id = ''shellspan.agent-instructions.v1'',
     src_metadata = [(''form'', JString ''instructions'')]\<rparr>"

definition session_reference_source :: "string \<Rightarrow> message_source" where
  "session_reference_source sid = \<lparr>src_kind = SourceSessionReference, src_label = ''Subagent session'',
     src_producer_id = ''shellspan-subagent'',
     src_metadata = [(''sessionId'', JString sid)]\<rparr>"

definition assistant_content_text :: "assistant_block list \<Rightarrow> string" where
  "assistant_content_text content = concat (filter_map (\<lambda>b. case b of
     ContentText t \<Rightarrow> Some t | ContentReasoning _ _ \<Rightarrow> None | ContentToolCall _ \<Rightarrow> None) content)"

definition assistant_tool_calls :: "assistant_block list \<Rightarrow> recorded_tool_call list" where
  "assistant_tool_calls content = filter_map (\<lambda>b. case b of
     ContentToolCall c \<Rightarrow> Some c | ContentText _ \<Rightarrow> None | ContentReasoning _ _ \<Rightarrow> None) content"

definition inline_envelope :: "stored_replay \<Rightarrow> replay_envelope option" where
  "inline_envelope r = (case r of ReplayInline e \<Rightarrow> Some e | ReplayArtifact _ \<Rightarrow> None)"

definition stored_artifact_metadata :: "stored_replay \<Rightarrow> artifact_metadata option" where
  "stored_artifact_metadata r = (case r of ReplayInline _ \<Rightarrow> None
     | ReplayArtifact a \<Rightarrow> Some (rart_artifact a))"

definition new_event ::
  "string \<Rightarrow> u64 \<Rightarrow> u64 \<Rightarrow> string option \<Rightarrow> string option \<Rightarrow> session_event_payload \<Rightarrow> session_event" where
  "new_event sid seq time turn step payload = \<lparr>ev_version = AGENT_SESSION_EVENT_VERSION,
     ev_session_id = sid, ev_seq = seq, ev_time_unix_ms = time, ev_turn_id = turn,
     ev_step_id = step, ev_payload = payload\<rparr>"

text \<open>The message an event carries its own decision about: tests used by several folds.\<close>

lemma is_terminal_cases:
  "is_terminal s \<longleftrightarrow> s = StatusCancelled \<or> s = StatusCompleted \<or> s = StatusFailed"
  by (cases s) (simp_all add: is_terminal_def)

lemma assistant_tool_calls_iff:
  "c \<in> set (assistant_tool_calls content) \<longleftrightarrow> ContentToolCall c \<in> set content"
proof -
  have "(case b of ContentToolCall c \<Rightarrow> Some c | ContentText _ \<Rightarrow> None
      | ContentReasoning _ _ \<Rightarrow> None) = Some c \<longleftrightarrow> b = ContentToolCall c" for b
    by (cases b) auto
  then show ?thesis by (auto simp: assistant_tool_calls_def set_filter_map)
qed

lemma assistant_tool_calls_append [simp]:
  "assistant_tool_calls (xs @ ys) = assistant_tool_calls xs @ assistant_tool_calls ys"
  by (simp add: assistant_tool_calls_def filter_map_def)

end
