(* ===== verification/Inbox.thy ===== *)
theory Inbox
  imports Events
begin

text \<open>
  The Agent inbox (agent\_runtime/inbox.rs): two FIFO lanes of messages, the identities
  ever used in the Session and the identities on hold, rebuilt on restart by replaying the
  Session log. Each operation returns the new inbox or the reason it refused; the reasons
  stand for the source's error strings, one constructor per string.
\<close>

record agent_inbox =
  inb_next_turn :: "inbox_message list"
  inb_next_step :: "inbox_message list"
  inb_seen_message_ids :: "string set"
  inb_paused_ids :: "string set"

datatype inbox_error =
    EmptySplice
  | MessageIdReused
  | ClaimMismatch
  | DiscardIncomplete
  | ItemNotQueued
  | ReorderIncomplete
  | ReorderDuplicate
  | ReorderMismatch
  | SteerNotQueued
  | SteerNotUser
  | PauseNotQueued
  | ResumeNotPaused

definition empty_inbox :: agent_inbox where
  "empty_inbox = \<lparr>inb_next_turn = [], inb_next_step = [], inb_seen_message_ids = {},
     inb_paused_ids = {}\<rparr>"

fun lane_of :: "agent_inbox \<Rightarrow> inbox_lane \<Rightarrow> inbox_message list" where
  "lane_of b NextTurn = inb_next_turn b"
| "lane_of b NextStep = inb_next_step b"

fun set_lane :: "inbox_lane \<Rightarrow> inbox_message list \<Rightarrow> agent_inbox \<Rightarrow> agent_inbox" where
  "set_lane NextTurn q b = b\<lparr>inb_next_turn := q\<rparr>"
| "set_lane NextStep q b = b\<lparr>inb_next_step := q\<rparr>"

definition inbox_message_at :: "agent_inbox \<Rightarrow> inbox_lane \<Rightarrow> string \<Rightarrow> inbox_message option" where
  "inbox_message_at b l i = find (\<lambda>m. msg_message_id m = i) (lane_of b l)"

definition locate :: "agent_inbox \<Rightarrow> string \<Rightarrow> (inbox_lane \<times> inbox_message) option" where
  "locate b i = find_map (\<lambda>l. map_option (Pair l) (inbox_message_at b l i)) [NextTurn, NextStep]"

definition turn_claim :: "agent_inbox \<Rightarrow> inbox_message list" where
  "turn_claim b = (case find (\<lambda>m. msg_message_id m \<notin> inb_paused_ids b) (inb_next_turn b) of
     None \<Rightarrow> [] | Some m \<Rightarrow> [m])"

definition step_claim :: "agent_inbox \<Rightarrow> inbox_message list" where
  "step_claim b = filter (\<lambda>m. msg_message_id m \<notin> inb_paused_ids b) (inb_next_step b)"

text \<open>\<open>AgentInbox::paused_ids\<close>: the queued identities on hold, in lane order.\<close>

definition paused_ids :: "agent_inbox \<Rightarrow> string list" where
  "paused_ids b = map msg_message_id
     (filter (\<lambda>m. msg_message_id m \<in> inb_paused_ids b) (inb_next_turn b @ inb_next_step b))"

definition inbox_is_empty :: "agent_inbox \<Rightarrow> bool" where
  "inbox_is_empty b \<longleftrightarrow> inb_next_turn b = [] \<and> inb_next_step b = []"

text \<open>A message a failed Session admitted only on hold carries the flag in its metadata.\<close>

definition admission_paused :: "inbox_message \<Rightarrow> bool" where
  "admission_paused m \<longleftrightarrow>
     Option.bind (map_of (src_metadata (msg_source m)) ''admissionPaused'') json_as_bool = Some True"

definition enqueue ::
  "inbox_lane \<Rightarrow> inbox_message list \<Rightarrow> agent_inbox \<Rightarrow> inbox_error + agent_inbox" where
  "enqueue l msgs b =
     (let ids = map msg_message_id msgs in
      if \<not> distinct ids \<or> set ids \<inter> inb_seen_message_ids b \<noteq> {} then Inl MessageIdReused
      else Inr ((set_lane l (lane_of b l @ msgs) b)
             \<lparr>inb_seen_message_ids := inb_seen_message_ids b \<union> set ids,
              inb_paused_ids := inb_paused_ids b \<union>
                set (map msg_message_id (filter admission_paused msgs))\<rparr>))"

definition inbox_remove ::
  "inbox_lane \<Rightarrow> string \<Rightarrow> agent_inbox \<Rightarrow> inbox_error + agent_inbox" where
  "inbox_remove l i b =
     (case position (\<lambda>m. msg_message_id m = i) (lane_of b l) of
        None \<Rightarrow> Inl ItemNotQueued
      | Some k \<Rightarrow> Inr ((set_lane l (remove_at k (lane_of b l)) b)
                    \<lparr>inb_paused_ids := inb_paused_ids b - {i}\<rparr>))"

fun inbox_remove_each ::
  "inbox_lane \<Rightarrow> inbox_message list \<Rightarrow> agent_inbox \<Rightarrow> inbox_error + agent_inbox" where
  "inbox_remove_each l [] b = Inr b"
| "inbox_remove_each l (m # ms) b =
     try_bind (inbox_remove l (msg_message_id m) b) (inbox_remove_each l ms)"

definition remove_claimed ::
  "inbox_lane \<Rightarrow> inbox_message list \<Rightarrow> agent_inbox \<Rightarrow> inbox_error + agent_inbox" where
  "remove_claimed l msgs b =
     (if msgs \<noteq> (case l of NextTurn \<Rightarrow> turn_claim b | NextStep \<Rightarrow> step_claim b)
      then Inl ClaimMismatch else inbox_remove_each l msgs b)"

definition remove_discarded ::
  "inbox_lane \<Rightarrow> inbox_message list \<Rightarrow> agent_inbox \<Rightarrow> inbox_error + agent_inbox" where
  "remove_discarded l msgs b =
     (if msgs \<noteq> lane_of b l then Inl DiscardIncomplete else Inr (set_lane l [] b))"

definition inbox_apply ::
  "inbox_operation \<Rightarrow> inbox_lane \<Rightarrow> inbox_message list \<Rightarrow> agent_inbox \<Rightarrow> inbox_error + agent_inbox" where
  "inbox_apply op l msgs b =
     (if msgs = [] then Inl EmptySplice
      else case op of
        Enqueued \<Rightarrow> enqueue l msgs b
      | Claimed \<Rightarrow> remove_claimed l msgs b
      | Discarded \<Rightarrow> remove_discarded l msgs b)"

definition inbox_update ::
  "inbox_lane \<Rightarrow> string \<Rightarrow> string \<Rightarrow> agent_inbox \<Rightarrow> inbox_error + agent_inbox" where
  "inbox_update l i content b =
     (if \<exists>m\<in>set (lane_of b l). msg_message_id m = i
      then Inr (set_lane l (update_first (\<lambda>m. msg_message_id m = i)
                  (\<lambda>m. m\<lparr>msg_content := content\<rparr>) (lane_of b l)) b)
      else Inl ItemNotQueued)"

definition inbox_reorder ::
  "inbox_lane \<Rightarrow> string list \<Rightarrow> agent_inbox \<Rightarrow> inbox_error + agent_inbox" where
  "inbox_reorder l ids b =
     (let q = lane_of b l in
      if length ids \<noteq> length q then Inl ReorderIncomplete
      else if \<not> distinct ids then Inl ReorderDuplicate
      else if set ids \<noteq> set (map msg_message_id q) then Inl ReorderMismatch
      else Inr (set_lane l (map (\<lambda>i. the (map_of (rev (map (\<lambda>m. (msg_message_id m, m)) q)) i)) ids) b))"

definition steer :: "string \<Rightarrow> agent_inbox \<Rightarrow> inbox_error + agent_inbox" where
  "steer i b =
     (case position (\<lambda>m. msg_message_id m = i) (inb_next_turn b) of
        None \<Rightarrow> Inl SteerNotQueued
      | Some k \<Rightarrow>
          if src_kind (msg_source (inb_next_turn b ! k)) \<noteq> SourceUser then Inl SteerNotUser
          else Inr (b\<lparr>inb_next_turn := remove_at k (inb_next_turn b),
                      inb_next_step := inb_next_step b @ [inb_next_turn b ! k]\<rparr>))"

definition pause :: "string list \<Rightarrow> agent_inbox \<Rightarrow> inbox_error + agent_inbox" where
  "pause ids b =
     (if \<exists>i\<in>set ids. locate b i = None then Inl PauseNotQueued
      else Inr (b\<lparr>inb_paused_ids := inb_paused_ids b \<union> set ids\<rparr>))"

definition resume :: "string \<Rightarrow> agent_inbox \<Rightarrow> inbox_error + agent_inbox" where
  "resume i b =
     (if locate b i = None \<or> i \<notin> inb_paused_ids b then Inl ResumeNotPaused
      else Inr (b\<lparr>inb_paused_ids := inb_paused_ids b - {i}\<rparr>))"

text \<open>
  One event of the replay loop. The flag is the loop's local \<open>failed\<close>: an enqueue after a
  failed \<open>session/ended\<close> is admitted on hold.
\<close>

definition replay_event ::
  "agent_inbox \<times> bool \<Rightarrow> session_event \<Rightarrow> inbox_error + agent_inbox \<times> bool" where
  "replay_event = (\<lambda>(b, failed) e.
     let keep = (\<lambda>r. try_bind r (\<lambda>b'. Inr (b', failed))) in
     case ev_payload e of
       SessionEnded status _ \<Rightarrow> Inr (b, status = StatusFailed)
     | SessionResumed \<Rightarrow> Inr (b, False)
     | SubagentRecoveryStarted _ _ m \<Rightarrow>
         try_bind (inbox_apply Enqueued NextTurn [m] b) (\<lambda>b'. Inr (b', False))
     | InboxPaused ids \<Rightarrow> keep (pause ids b)
     | InboxItemResumed i _ _ \<Rightarrow> keep (resume i b)
     | InboxSpliced op l msgs \<Rightarrow> keep (try_bind (inbox_apply op l msgs b) (\<lambda>b'.
         if failed \<and> op = Enqueued then pause (map msg_message_id msgs) b' else Inr b'))
     | InboxItemUpdated i l content _ _ _ \<Rightarrow> keep (inbox_update l i content b)
     | InboxItemRemoved i l _ _ \<Rightarrow> keep (inbox_remove l i b)
     | InboxItemSteered i _ _ \<Rightarrow> keep (steer i b)
     | InboxReordered l ids _ _ \<Rightarrow> keep (inbox_reorder l ids b)
     | _ \<Rightarrow> Inr (b, failed))"

definition inbox_replay :: "session_event list \<Rightarrow> inbox_error + agent_inbox" where
  "inbox_replay es =
     try_bind (run_ops replay_event (empty_inbox, False) es) (\<lambda>(b, _). Inr b)"


subsection \<open>Identities in the inbox\<close>

definition queued_ids :: "agent_inbox \<Rightarrow> string list" where
  "queued_ids b = map msg_message_id (inb_next_turn b @ inb_next_step b)"

definition lane_ids :: "agent_inbox \<Rightarrow> inbox_lane \<Rightarrow> string list" where
  "lane_ids b l = map msg_message_id (lane_of b l)"

definition inbox_inv :: "agent_inbox \<Rightarrow> bool" where
  "inbox_inv b \<longleftrightarrow> distinct (queued_ids b) \<and> set (queued_ids b) \<subseteq> inb_seen_message_ids b
     \<and> inb_paused_ids b \<subseteq> inb_seen_message_ids b"

text \<open>
  The accounting every operation obeys: \<open>add\<close> enters the queues for the first time,
  \<open>del\<close> leaves them, nothing is lost or duplicated, and no hold appears on an identity
  the Session has not admitted.
\<close>

definition moves :: "agent_inbox \<Rightarrow> string list \<Rightarrow> string list \<Rightarrow> agent_inbox \<Rightarrow> bool" where
  "moves b add del b' \<longleftrightarrow>
     mset (queued_ids b') + mset del = mset (queued_ids b) + mset add
     \<and> inb_seen_message_ids b' = inb_seen_message_ids b \<union> set add
     \<and> distinct add \<and> set add \<inter> inb_seen_message_ids b = {}
     \<and> inb_paused_ids b' \<subseteq> inb_paused_ids b \<union> inb_seen_message_ids b'"

lemma lane_simps [simp]:
  "lane_of (set_lane l q b) l = q"
  "inb_seen_message_ids (set_lane l q b) = inb_seen_message_ids b"
  "inb_paused_ids (set_lane l q b) = inb_paused_ids b"
  "set_lane l (lane_of b l) b = b"
  by (cases l; simp)+

lemma queued_ids_updates [simp]:
  "queued_ids (b\<lparr>inb_seen_message_ids := x\<rparr>) = queued_ids b"
  "queued_ids (b\<lparr>inb_paused_ids := y\<rparr>) = queued_ids b"
  by (simp_all add: queued_ids_def)

lemma mset_queued_set_lane:
  "mset (queued_ids (set_lane l q b)) + mset (lane_ids b l) =
   mset (queued_ids b) + mset (map msg_message_id q)"
  by (cases l) (simp_all add: queued_ids_def lane_ids_def)

lemma set_lane_ids_subset: "set (lane_ids b l) \<subseteq> set (queued_ids b)"
  by (cases l) (auto simp: queued_ids_def lane_ids_def)

lemma distinct_lane_ids: "distinct (queued_ids b) \<Longrightarrow> distinct (lane_ids b l)"
  by (cases l) (auto simp: queued_ids_def lane_ids_def)

lemma moves_inv: "inbox_inv b \<Longrightarrow> moves b add del b' \<Longrightarrow> inbox_inv b'"
proof -
  assume inv: "inbox_inv b" and mv: "moves b add del b'"
  have eq: "mset (queued_ids b') + mset del = mset (queued_ids b @ add)"
    using mv by (simp add: moves_def)
  then have sub: "mset (queued_ids b') \<subseteq># mset (queued_ids b @ add)"
    by (metis mset_subset_eq_add_left)
  have "distinct (queued_ids b @ add)"
    using inv mv by (auto simp: inbox_inv_def moves_def)
  with sub have "distinct (queued_ids b')" by (rule distinct_mset_subset)
  moreover have "set (queued_ids b') \<subseteq> set (queued_ids b @ add)"
    using sub by (metis set_mset_mono set_mset_mset)
  ultimately show ?thesis using inv mv unfolding inbox_inv_def moves_def by (auto 4 3)
qed

lemma moves_refl: "moves b [] [] b"
  by (simp add: moves_def)

lemma locate_None_iff: "locate b i = None \<longleftrightarrow> i \<notin> set (queued_ids b)"
  by (auto simp: locate_def inbox_message_at_def queued_ids_def find_None_iff image_iff
      split: option.splits dest: find_SomeD)


subsection \<open>What each operation moves\<close>

lemma queued_ids_enqueue:
  "mset (queued_ids (set_lane l (lane_of b l @ msgs) b)) =
   mset (queued_ids b) + mset (map msg_message_id msgs)"
  by (cases l) (simp_all add: queued_ids_def)

lemma enqueue_moves:
  "enqueue l msgs b = Inr b' \<Longrightarrow> moves b (map msg_message_id msgs) [] b'"
  by (auto simp: enqueue_def moves_def Let_def queued_ids_enqueue split: if_splits)

lemma inbox_remove_lane:
  assumes "inbox_remove l i b = Inr b'" "distinct (queued_ids b)"
  shows "lane_of b' l = filter (\<lambda>m. msg_message_id m \<noteq> i) (lane_of b l)"
proof -
  from assms(1) obtain k where k: "position (\<lambda>m. msg_message_id m = i) (lane_of b l) = Some k"
    and b': "b' = (set_lane l (remove_at k (lane_of b l)) b)\<lparr>inb_paused_ids := inb_paused_ids b - {i}\<rparr>"
    by (auto simp: inbox_remove_def split: option.splits)
  have "remove_at k (lane_of b l) = filter (\<lambda>m. msg_message_id m \<noteq> i) (lane_of b l)"
    using k distinct_lane_ids [OF assms(2), of l]
    by (intro remove_at_position) (auto simp: lane_ids_def)
  then show ?thesis using b' by (cases l) simp_all
qed

lemma remove_at_mset: "k < length xs \<Longrightarrow> add_mset (xs ! k) (mset (remove_at k xs)) = mset xs"
  by (metis id_take_nth_drop mset.simps(2) mset_append remove_at_def union_mset_add_mset_right)

lemma mset_drop_one: "Q + L = P + R \<Longrightarrow> add_mset i R = L \<Longrightarrow> add_mset i Q = P"
  by (metis add_right_cancel union_mset_add_mset_left union_mset_add_mset_right)

lemma inbox_remove_moves:
  assumes "inbox_remove l i b = Inr b'"
  shows "moves b [] [i] b'"
proof -
  from assms obtain k where k: "position (\<lambda>m. msg_message_id m = i) (lane_of b l) = Some k"
    and b': "b' = (set_lane l (remove_at k (lane_of b l)) b)\<lparr>inb_paused_ids := inb_paused_ids b - {i}\<rparr>"
    by (auto simp: inbox_remove_def split: option.splits)
  from position_SomeD [OF k] have kth: "k < length (lane_of b l)" "msg_message_id (lane_of b l ! k) = i"
    by auto
  have "add_mset i (mset (map msg_message_id (remove_at k (lane_of b l)))) = mset (lane_ids b l)"
    using remove_at_mset [of k "lane_ids b l"] kth by (simp add: lane_ids_def map_remove_at)
  with mset_queued_set_lane [of l "remove_at k (lane_of b l)" b] b'
  have "mset (queued_ids b') + {#i#} = mset (queued_ids b)"
    by (auto simp del: mset_map intro: mset_drop_one)
  then show ?thesis using b' by (auto simp: moves_def)
qed

lemma moves_trans_del:
  "moves b [] del1 b1 \<Longrightarrow> moves b1 [] del2 b2 \<Longrightarrow> moves b [] (del1 @ del2) b2"
proof -
  assume m1: "moves b [] del1 b1" and m2: "moves b1 [] del2 b2"
  have "mset (queued_ids b2) + mset (del1 @ del2) = mset (queued_ids b)"
    using m1 m2 by (simp add: moves_def add_ac)
  then show ?thesis using m1 m2 by (auto simp: moves_def)
qed

lemma inbox_remove_each_moves:
  "inbox_remove_each l ms b = Inr b' \<Longrightarrow> moves b [] (map msg_message_id ms) b'"
proof (induction ms arbitrary: b)
  case Nil
  then show ?case by (simp add: moves_refl)
next
  case (Cons m ms)
  then obtain b1 where "inbox_remove l (msg_message_id m) b = Inr b1"
    and "inbox_remove_each l ms b1 = Inr b'"
    by (auto simp: res_simps)
  then show ?case
    using moves_trans_del [OF inbox_remove_moves Cons.IH, of l "msg_message_id m" b b1] by simp
qed

lemma remove_discarded_moves:
  "remove_discarded l msgs b = Inr b' \<Longrightarrow> moves b [] (map msg_message_id msgs) b'"
  using mset_queued_set_lane [of l "[]" b]
  by (auto simp: remove_discarded_def moves_def lane_ids_def split: if_splits)

text \<open>The identities an operation brings in or takes out.\<close>

definition spliced_in :: "inbox_operation \<Rightarrow> inbox_message list \<Rightarrow> string list" where
  "spliced_in op msgs = (if op = Enqueued then map msg_message_id msgs else [])"

definition spliced_out :: "inbox_operation \<Rightarrow> inbox_message list \<Rightarrow> string list" where
  "spliced_out op msgs = (if op = Enqueued then [] else map msg_message_id msgs)"

lemma inbox_apply_moves:
  "inbox_apply op l msgs b = Inr b' \<Longrightarrow> moves b (spliced_in op msgs) (spliced_out op msgs) b'"
  by (cases op)
     (auto simp: inbox_apply_def remove_claimed_def spliced_in_def spliced_out_def
       intro: enqueue_moves inbox_remove_each_moves remove_discarded_moves split: if_splits)

lemma inbox_update_queued [simp]:
  "inbox_update l i c b = Inr b' \<Longrightarrow> queued_ids b' = queued_ids b"
  by (cases l) (auto simp: inbox_update_def queued_ids_def map_update_first split: if_splits)

lemma inbox_update_moves: "inbox_update l i c b = Inr b' \<Longrightarrow> moves b [] [] b'"
  by (frule inbox_update_queued) (auto simp: moves_def inbox_update_def split: if_splits)

lemma map_of_by_id:
  "distinct (map f q) \<Longrightarrow> m \<in> set q \<Longrightarrow> map_of (rev (map (\<lambda>m. (f m, m)) q)) (f m) = Some m"
  by (intro map_of_is_SomeI) (auto simp: rev_map [symmetric] comp_def)

lemma inbox_reorder_ids:
  assumes "inbox_reorder l ids b = Inr b'" "distinct (queued_ids b)"
  shows "lane_ids b' l = ids" and "mset (lane_of b' l) = mset (lane_of b l)"
proof -
  let ?q = "lane_of b l" and ?pick = "\<lambda>i. the (map_of (rev (map (\<lambda>m. (msg_message_id m, m)) (lane_of b l))) i)"
  from assms(1) have ids: "distinct ids" "set ids = set (map msg_message_id ?q)"
    and b': "b' = set_lane l (map ?pick ids) b"
    by (auto simp: inbox_reorder_def Let_def split: if_splits)
  have d: "distinct (map msg_message_id ?q)"
    using distinct_lane_ids [OF assms(2)] by (simp add: lane_ids_def)
  have pick: "?pick (msg_message_id m) = m" if "m \<in> set ?q" for m
    using map_of_by_id [OF d that] by simp
  have "msg_message_id (?pick i) = i" if "i \<in> set ids" for i
    using that ids(2) by (auto simp: pick)
  then show "lane_ids b' l = ids"
    using b' by (simp add: lane_ids_def comp_def map_idI)
  have perm: "mset ids = mset (map msg_message_id ?q)"
    using set_eq_iff_mset_eq_distinct [OF ids(1) d] ids(2) by simp
  then have "image_mset ?pick (mset ids) = image_mset (\<lambda>m. ?pick (msg_message_id m)) (mset ?q)"
    by (simp add: image_mset.compositionality comp_def)
  also have "\<dots> = mset ?q"
    using image_mset_cong [of "mset ?q" "\<lambda>m. ?pick (msg_message_id m)" id] by (simp add: pick)
  finally show "mset (lane_of b' l) = mset ?q" using b' by simp
qed

lemma inbox_reorder_moves:
  assumes "inbox_reorder l ids b = Inr b'" "distinct (queued_ids b)"
  shows "moves b [] [] b'"
proof -
  obtain q where b': "b' = set_lane l q b"
    using assms(1) by (auto simp: inbox_reorder_def Let_def split: if_splits)
  then have "mset (map msg_message_id q) = mset (lane_ids b l)"
    using inbox_reorder_ids(2) [OF assms] by (simp add: lane_ids_def)
  with mset_queued_set_lane [of l q b] b' show ?thesis by (auto simp: moves_def)
qed

lemma steer_moves:
  assumes "steer i b = Inr b'"
  shows "moves b [] [] b'"
proof -
  from assms obtain k where k: "position (\<lambda>m. msg_message_id m = i) (inb_next_turn b) = Some k"
    and b': "b' = b\<lparr>inb_next_turn := remove_at k (inb_next_turn b),
                    inb_next_step := inb_next_step b @ [inb_next_turn b ! k]\<rparr>"
    by (auto simp: steer_def split: option.splits if_splits)
  have "k < length (map msg_message_id (inb_next_turn b))"
    using position_SomeD [OF k] by simp
  from remove_at_mset [OF this] position_SomeD [OF k] b' show ?thesis
    by (auto simp: moves_def queued_ids_def map_remove_at)
qed

lemma pause_moves: "pause ids b = Inr b' \<Longrightarrow> inbox_inv b \<Longrightarrow> moves b [] [] b'"
  by (clarsimp simp: pause_def moves_def inbox_inv_def locate_None_iff split: if_splits) blast

lemma resume_moves: "resume i b = Inr b' \<Longrightarrow> moves b [] [] b'"
  by (auto simp: resume_def moves_def split: if_splits)

lemmas inbox_op_moves = inbox_apply_moves inbox_remove_moves inbox_update_moves
  inbox_reorder_moves steer_moves pause_moves resume_moves


subsection \<open>The replay of a log\<close>

text \<open>
  What a log says about identities, independently of the inbox: the identities its
  enqueues and child recoveries admit, and those its claims, discards and removals consume.
\<close>

definition event_admits :: "session_event \<Rightarrow> string list" where
  "event_admits e = (case ev_payload e of
     SubagentRecoveryStarted _ _ m \<Rightarrow> [msg_message_id m]
   | InboxSpliced op _ msgs \<Rightarrow> spliced_in op msgs
   | _ \<Rightarrow> [])"

definition event_consumes :: "session_event \<Rightarrow> string list" where
  "event_consumes e = (case ev_payload e of
     InboxSpliced op _ msgs \<Rightarrow> spliced_out op msgs
   | InboxItemRemoved i _ _ _ \<Rightarrow> [i]
   | _ \<Rightarrow> [])"

definition log_admits :: "session_event list \<Rightarrow> string list" where
  "log_admits es = concat (map event_admits es)"

definition log_consumes :: "session_event list \<Rightarrow> string list" where
  "log_consumes es = concat (map event_consumes es)"

lemma moves_trans_keep: "moves b add del b1 \<Longrightarrow> moves b1 [] [] b2 \<Longrightarrow> moves b add del b2"
  by (simp add: moves_def) blast

lemma mset_chain:
  "Q1 + D1 = Q0 + A1 \<Longrightarrow> Q2 + D2 = Q1 + A2 \<Longrightarrow> Q2 + (D1 + D2) = Q0 + (A1 + A2)"
  for Q0 Q1 Q2 :: "'a multiset"
  by (metis add.assoc add.commute)

lemma splice_then_hold_moves:
  assumes "try_bind (inbox_apply op l msgs b) (\<lambda>b'. if h then pause ids b' else Inr b') = Inr b2"
    and "inbox_inv b"
  shows "moves b (spliced_in op msgs) (spliced_out op msgs) b2"
proof -
  from assms(1) obtain b1 where b1: "inbox_apply op l msgs b = Inr b1"
    and b2: "(if h then pause ids b1 else Inr b1) = Inr b2"
    by (auto simp: res_simps)
  note m1 = inbox_apply_moves [OF b1]
  have "moves b1 [] [] b2"
    using b2 moves_inv [OF assms(2) m1] by (cases h) (auto intro: pause_moves moves_refl)
  with m1 show ?thesis by (rule moves_trans_keep)
qed

lemma replay_event_moves:
  assumes "replay_event (b, f) e = Inr (b', f')" "inbox_inv b"
  shows "moves b (event_admits e) (event_consumes e) b'"
proof (cases "ev_payload e")
  case (SubagentRecoveryStarted t r m)
  with assms show ?thesis
    by (auto simp: replay_event_def event_admits_def event_consumes_def res_simps
        spliced_in_def spliced_out_def dest!: inbox_apply_moves)
next
  case (InboxSpliced op l msgs)
  with assms show ?thesis
    by (auto simp: replay_event_def event_admits_def event_consumes_def try_bind_Inr_iff
        intro!: splice_then_hold_moves [of op l msgs b "f \<and> op = Enqueued"] simp del: try_bind_simps)
qed (use assms in \<open>auto simp: replay_event_def event_admits_def event_consumes_def res_simps
       inbox_inv_def Let_def moves_refl
       intro: inbox_remove_moves inbox_update_moves inbox_reorder_moves steer_moves resume_moves
         pause_moves\<close>)

interpretation inbox_machine: guarded_machine replay_event "\<lambda>(b, _). inbox_inv b"
  by unfold_locales (auto dest: replay_event_moves intro: moves_inv)

lemma inbox_inv_empty: "inbox_inv empty_inbox"
  by (simp add: inbox_inv_def empty_inbox_def queued_ids_def)

lemma run_replay_accounts:
  assumes "run_ops replay_event (b, f) es = Inr (b', f')" "inbox_inv b"
  shows "mset (queued_ids b') + mset (log_consumes es) = mset (queued_ids b) + mset (log_admits es)"
    and "distinct (log_admits es)"
    and "set (log_admits es) \<inter> inb_seen_message_ids b = {}"
    and "inb_seen_message_ids b' = inb_seen_message_ids b \<union> set (log_admits es)"
proof -
  have "mset (queued_ids b') + mset (log_consumes es) = mset (queued_ids b) + mset (log_admits es)
    \<and> distinct (log_admits es) \<and> set (log_admits es) \<inter> inb_seen_message_ids b = {}
    \<and> inb_seen_message_ids b' = inb_seen_message_ids b \<union> set (log_admits es)"
    using assms
  proof (induction es arbitrary: b f)
    case Nil
    then show ?case by (simp add: log_admits_def log_consumes_def)
  next
    case (Cons e es)
    then obtain b1 f1 where e: "replay_event (b, f) e = Inr (b1, f1)"
      and rest: "run_ops replay_event (b1, f1) es = Inr (b', f')"
      by (auto simp: res_simps)
    note m = replay_event_moves [OF e Cons.prems(2)]
    note IH = Cons.IH [OF rest moves_inv [OF Cons.prems(2) m]]
    have "mset (queued_ids b') + mset (log_consumes (e # es)) =
        mset (queued_ids b) + mset (log_admits (e # es))"
      using IH m by (auto simp: log_admits_def log_consumes_def moves_def intro: mset_chain)
    moreover have "distinct (log_admits (e # es))"
      using IH m by (auto simp: log_admits_def moves_def)
    ultimately show ?case using IH m by (auto simp: log_admits_def moves_def)
  qed
  then show "mset (queued_ids b') + mset (log_consumes es) = mset (queued_ids b) + mset (log_admits es)"
    and "distinct (log_admits es)"
    and "set (log_admits es) \<inter> inb_seen_message_ids b = {}"
    and "inb_seen_message_ids b' = inb_seen_message_ids b \<union> set (log_admits es)"
    by auto
qed


subsection \<open>Claims\<close>

lemma inbox_remove_ok:
  "i \<in> set (lane_ids b l) \<Longrightarrow> \<exists>b'. inbox_remove l i b = Inr b'"
  using position_None_iff [of "\<lambda>m. msg_message_id m = i" "lane_of b l"]
  by (auto simp: inbox_remove_def lane_ids_def split: option.splits)

lemma inbox_remove_other:
  assumes "inbox_remove l i b = Inr b'"
  shows "l' \<noteq> l \<Longrightarrow> lane_of b' l' = lane_of b l'"
    and "inb_paused_ids b' = inb_paused_ids b - {i}"
  using assms by (cases l; cases l'; auto simp: inbox_remove_def split: option.splits)+

text \<open>
  Removing a set of queued messages one by one succeeds and leaves the others of the lane
  in order.
\<close>

lemma inbox_remove_each_ok:
  assumes "inbox_inv b" "set ms \<subseteq> set (lane_of b l)" "distinct (map msg_message_id ms)"
  shows "\<exists>b'. inbox_remove_each l ms b = Inr b'
     \<and> lane_of b' l = filter (\<lambda>m. msg_message_id m \<notin> msg_message_id ` set ms) (lane_of b l)
     \<and> (\<forall>l'. l' \<noteq> l \<longrightarrow> lane_of b' l' = lane_of b l')
     \<and> inb_paused_ids b' = inb_paused_ids b - msg_message_id ` set ms"
  using assms
proof (induction ms arbitrary: b)
  case Nil
  then show ?case by simp
next
  case (Cons m ms)
  have "msg_message_id m \<in> set (lane_ids b l)"
    using Cons.prems by (auto simp: lane_ids_def)
  then obtain b1 where b1: "inbox_remove l (msg_message_id m) b = Inr b1"
    using inbox_remove_ok by blast
  have lane: "lane_of b1 l = filter (\<lambda>x. msg_message_id x \<noteq> msg_message_id m) (lane_of b l)"
    using inbox_remove_lane [OF b1] Cons.prems(1) by (simp add: inbox_inv_def)
  have inv1: "inbox_inv b1" using moves_inv [OF Cons.prems(1) inbox_remove_moves [OF b1]] .
  have "set ms \<subseteq> set (lane_of b1 l)" using Cons.prems lane by auto (metis imageI)
  from Cons.IH [OF inv1 this] Cons.prems(3) obtain b' where
    "inbox_remove_each l ms b1 = Inr b'"
    "lane_of b' l = filter (\<lambda>x. msg_message_id x \<notin> msg_message_id ` set ms) (lane_of b1 l)"
    "\<forall>l'. l' \<noteq> l \<longrightarrow> lane_of b' l' = lane_of b1 l'"
    "inb_paused_ids b' = inb_paused_ids b1 - msg_message_id ` set ms"
    by auto
  with b1 lane inbox_remove_other [OF b1] show ?case
    by (auto intro!: filter_cong)
qed

lemma turn_claim_cases:
  "turn_claim b = [] \<or> (\<exists>m. turn_claim b = [m] \<and> m \<in> set (inb_next_turn b)
     \<and> msg_message_id m \<notin> inb_paused_ids b)"
  by (auto simp: turn_claim_def split: option.splits dest: find_SomeD)

definition claimable :: "agent_inbox \<Rightarrow> inbox_lane \<Rightarrow> inbox_message list" where
  "claimable b l = (case l of NextTurn \<Rightarrow> turn_claim b | NextStep \<Rightarrow> step_claim b)"

lemma claimable_facts:
  assumes "inbox_inv b"
  shows "set (claimable b l) \<subseteq> set (lane_of b l)"
    and "distinct (map msg_message_id (claimable b l))"
    and "m \<in> set (claimable b l) \<Longrightarrow> msg_message_id m \<notin> inb_paused_ids b"
proof -
  have d: "distinct (map msg_message_id (inb_next_step b))"
    using assms by (auto simp: inbox_inv_def queued_ids_def)
  show "set (claimable b l) \<subseteq> set (lane_of b l)"
    and "m \<in> set (claimable b l) \<Longrightarrow> msg_message_id m \<notin> inb_paused_ids b"
    using turn_claim_cases [of b] by (cases l; auto simp: claimable_def step_claim_def)+
  show "distinct (map msg_message_id (claimable b l))"
    using turn_claim_cases [of b] d by (cases l) (auto simp: claimable_def step_claim_def distinct_map_filter)
qed

lemma late_splice_held:
  assumes "try_bind (inbox_apply Enqueued l msgs b) (pause ids) = Inr b'"
    and "ids = map msg_message_id msgs"
  shows "set ids \<subseteq> inb_paused_ids b'"
  using assms by (auto simp: res_simps pause_def split: if_splits)

subsection \<open>A sample log\<close>

text \<open>A two-message turn lane, its first claim, and a reuse of an identity after it.\<close>

definition sample_message :: "string \<Rightarrow> inbox_message" where
  "sample_message i = \<lparr>msg_images = [], msg_message_id = i, msg_client_submission_id = None,
     msg_content = i, msg_source = user_source, msg_terminal_context = None\<rparr>"

definition sample_splice ::
  "u64 \<Rightarrow> inbox_operation \<Rightarrow> inbox_lane \<Rightarrow> string list \<Rightarrow> session_event" where
  "sample_splice n op l ids = new_event ''s'' n 1 None None (InboxSpliced op l (map sample_message ids))"

definition sample_log :: "session_event list" where
  "sample_log = [sample_splice 0 Enqueued NextTurn [''a'', ''b''],
                 sample_splice 1 Claimed NextTurn [''a'']]"

definition sample_inbox :: agent_inbox where
  "sample_inbox = \<lparr>inb_next_turn = [sample_message ''b''], inb_next_step = [],
     inb_seen_message_ids = {''a'', ''b''}, inb_paused_ids = {}\<rparr>"

lemmas sample_inbox_defs = sample_message_def sample_splice_def sample_log_def sample_inbox_def
  new_event_def user_source_def

lemmas inbox_defs = inbox_replay_def replay_event_def empty_inbox_def inbox_apply_def enqueue_def
  remove_claimed_def remove_discarded_def inbox_remove_def turn_claim_def step_claim_def
  admission_paused_def pause_def locate_def inbox_message_at_def

lemma sample_replay: "inbox_replay sample_log = Inr sample_inbox"
  by (auto simp: inbox_defs sample_inbox_defs Let_def insert_commute)

lemma sample_inbox_inv: "inbox_inv sample_inbox"
  by (simp add: inbox_inv_def queued_ids_def sample_inbox_defs)

lemma sample_message_id [simp]: "msg_message_id (sample_message i) = i"
  by (simp add: sample_message_def)

lemma sample_lane: "inb_next_turn sample_inbox = [sample_message ''b'']"
  by (simp add: sample_inbox_def)

lemma sample_claimable: "claimable sample_inbox NextTurn = [sample_message ''b'']"
  by (simp add: claimable_def turn_claim_def sample_inbox_defs)

subsection \<open>Properties of the inbox\<close>

text \<open>
  C18. Accounting of a replayed log: the identities the log admits are pairwise distinct
  (no identity is ever admitted twice in a Session, even after it was claimed, removed or
  discarded), and every admitted identity is either still queued exactly once or was
  consumed exactly once by a claim, a discard or a removal.
\<close>

theorem inbox_exactly_once:
  assumes "inbox_replay es = Inr b"
  shows "distinct (log_admits es)
    \<and> mset (queued_ids b) + mset (log_consumes es) = mset (log_admits es)"
proof -
  from assms obtain f where run: "run_ops replay_event (empty_inbox, False) es = Inr (b, f)"
    by (auto simp: inbox_replay_def res_simps)
  from run_replay_accounts [OF run inbox_inv_empty] show ?thesis
    by (simp add: empty_inbox_def queued_ids_def)
qed

theorem inbox_exactly_once_witness:
  "inbox_replay sample_log = Inr sample_inbox
    \<and> distinct (log_admits sample_log)
    \<and> mset (queued_ids sample_inbox) + mset (log_consumes sample_log) = mset (log_admits sample_log)"
  using inbox_exactly_once [OF sample_replay] sample_replay by simp

text \<open>
  A claim of the next claimable messages of a lane always succeeds in a well-formed
  inbox, takes exactly those messages, keeps the order of the rest, leaves the other lane
  and every hold alone, and never hands out a message on hold.
\<close>

theorem inbox_claim_total:
  assumes "inbox_inv b" "claimable b l \<noteq> []"
  shows "\<exists>b'. inbox_apply Claimed l (claimable b l) b = Inr b' \<and> inbox_inv b'
    \<and> lane_of b' l = filter (\<lambda>m. msg_message_id m \<notin> msg_message_id ` set (claimable b l)) (lane_of b l)
    \<and> (\<forall>l'. l' \<noteq> l \<longrightarrow> lane_of b' l' = lane_of b l')
    \<and> inb_paused_ids b' = inb_paused_ids b
    \<and> (\<forall>m\<in>set (claimable b l). msg_message_id m \<notin> inb_paused_ids b)"
proof -
  note f = claimable_facts [OF assms(1)]
  obtain b' where b': "inbox_remove_each l (claimable b l) b = Inr b'"
    "lane_of b' l = filter (\<lambda>m. msg_message_id m \<notin> msg_message_id ` set (claimable b l)) (lane_of b l)"
    "\<forall>l'. l' \<noteq> l \<longrightarrow> lane_of b' l' = lane_of b l'"
    "inb_paused_ids b' = inb_paused_ids b - msg_message_id ` set (claimable b l)"
    using inbox_remove_each_ok [OF assms(1) f(1,2), of l] by auto
  have "inbox_apply Claimed l (claimable b l) b = Inr b'"
    using b'(1) assms(2) by (cases l) (simp_all add: inbox_apply_def remove_claimed_def claimable_def)
  moreover have "inb_paused_ids b - msg_message_id ` set (claimable b l) = inb_paused_ids b"
    using f(3) by auto
  ultimately show ?thesis
    using b' f(3) moves_inv [OF assms(1) inbox_remove_each_moves [OF b'(1)]] by auto
qed

theorem inbox_claim_total_witness:
  "\<exists>b'. inbox_apply Claimed NextTurn [sample_message ''b''] sample_inbox = Inr b' \<and> lane_of b' NextTurn = []"
  using inbox_claim_total [OF sample_inbox_inv, of NextTurn]
  by (auto simp: sample_claimable sample_lane)

text \<open>
  A reorder succeeds exactly when the requested identities are a permutation of the
  lane, and then the lane holds the same messages in the requested order.
\<close>

theorem inbox_reorder_permutes:
  assumes "inbox_inv b"
  shows "is_ok (inbox_reorder l ids b) = (mset ids = mset (lane_ids b l))
    \<and> (\<forall>b'. inbox_reorder l ids b = Inr b' \<longrightarrow>
         lane_ids b' l = ids \<and> mset (lane_of b' l) = mset (lane_of b l))"
proof -
  have d: "distinct (lane_ids b l)" "distinct (queued_ids b)"
    using assms distinct_lane_ids by (auto simp: inbox_inv_def)
  have "is_ok (inbox_reorder l ids b) \<longleftrightarrow>
      length ids = length (lane_ids b l) \<and> distinct ids \<and> set ids = set (lane_ids b l)"
    by (auto simp: inbox_reorder_def Let_def lane_ids_def is_ok_def)
  also have "\<dots> \<longleftrightarrow> mset ids = mset (lane_ids b l)"
    using d(1) by (metis mset_eq_imp_distinct_iff mset_eq_length mset_eq_setD set_eq_iff_mset_eq_distinct)
  finally show ?thesis using inbox_reorder_ids d(2) by blast
qed

theorem inbox_reorder_permutes_witness:
  "is_ok (inbox_reorder NextTurn [''b''] sample_inbox)"
  using inbox_reorder_permutes [OF sample_inbox_inv, of NextTurn "[''b'']"]
  by (simp add: lane_ids_def sample_inbox_defs)

text \<open>
  Late admission after a failure: an enqueue replayed after a failed \<open>session/ended\<close>
  leaves every one of its messages on hold, so neither a turn nor a step claim can hand
  one out until it is resumed.
\<close>

theorem late_admission_is_held:
  assumes "replay_event (b, True) e = Inr (b', f')" "ev_payload e = InboxSpliced Enqueued l msgs"
  shows "\<forall>m\<in>set msgs. \<forall>c\<in>set (turn_claim b' @ step_claim b'). msg_message_id c \<noteq> msg_message_id m"
proof -
  from assms have "try_bind (inbox_apply Enqueued l msgs b) (pause (map msg_message_id msgs)) = Inr b'"
    by (auto simp: replay_event_def Let_def res_simps)
  then have "set (map msg_message_id msgs) \<subseteq> inb_paused_ids b'"
    by (rule late_splice_held) simp
  moreover have "c \<in> set (turn_claim b' @ step_claim b') \<Longrightarrow> msg_message_id c \<notin> inb_paused_ids b'" for c
    using turn_claim_cases [of b'] by (auto simp: step_claim_def)
  ultimately show ?thesis by fastforce
qed

theorem late_admission_is_held_witness:
  "\<exists>b'. replay_event (empty_inbox, True) (sample_splice 0 Enqueued NextTurn [''a'']) = Inr (b', True)
    \<and> (\<forall>c\<in>set (turn_claim b' @ step_claim b'). msg_message_id c \<noteq> ''a'')"
proof -
  let ?e = "sample_splice 0 Enqueued NextTurn [''a'']"
  obtain b' where b': "replay_event (empty_inbox, True) ?e = Inr (b', True)"
    by (simp add: inbox_defs sample_inbox_defs Let_def)
  have "ev_payload ?e = InboxSpliced Enqueued NextTurn [sample_message ''a'']"
    by (simp add: sample_inbox_defs)
  from late_admission_is_held [OF b' this] b' show ?thesis
    by (auto simp: sample_message_def)
qed

end
