(* ===== verification/Rust_Text.thy ===== *)
theory Rust_Text
  imports Prelude
begin

text \<open>
  The operations on UTF-8 text the components share: blank text (\<open>str::trim\<close> followed by
  \<open>is_empty\<close>, over the Unicode White\_Space code points in their UTF-8 encodings), the ASCII
  classes of \<open>u8\<close>, and the identifier syntax of the Session store
  (\<open>validate_identifier\<close>, agent\_runtime/session.rs).
\<close>

definition byte_of :: "char \<Rightarrow> nat" where
  "byte_of c = of_char c"

text \<open>
  The UTF-8 encodings of the White\_Space code points: U+0009 to U+000D, U+0020, U+0085,
  U+00A0, U+1680, U+2000 to U+200A, U+2028, U+2029, U+202F, U+205F and U+3000.
\<close>

definition ascii_space :: "nat \<Rightarrow> bool" where
  "ascii_space b \<longleftrightarrow> 9 \<le> b \<and> b \<le> 13 \<or> b = 32"

definition space2 :: "nat \<Rightarrow> nat \<Rightarrow> bool" where
  "space2 b c \<longleftrightarrow> b = 0xC2 \<and> (c = 0x85 \<or> c = 0xA0)"

definition space3 :: "nat \<Rightarrow> nat \<Rightarrow> nat \<Rightarrow> bool" where
  "space3 b c d \<longleftrightarrow> b = 0xE1 \<and> c = 0x9A \<and> d = 0x80
     \<or> b = 0xE2 \<and> c = 0x80 \<and> (0x80 \<le> d \<and> d \<le> 0x8A \<or> d = 0xA8 \<or> d = 0xA9 \<or> d = 0xAF)
     \<or> b = 0xE2 \<and> c = 0x81 \<and> d = 0x9F
     \<or> b = 0xE3 \<and> c = 0x80 \<and> d = 0x80"

fun blank_bytes :: "nat list \<Rightarrow> bool" where
  "blank_bytes [] = True"
| "blank_bytes (b # bs) =
     (if ascii_space b then blank_bytes bs
      else case bs of [] \<Rightarrow> False
      | c # cs \<Rightarrow> if space2 b c then blank_bytes cs
          else (case cs of [] \<Rightarrow> False | d # ds \<Rightarrow> space3 b c d \<and> blank_bytes ds))"

definition is_blank :: "string \<Rightarrow> bool" where
  "is_blank s = blank_bytes (map byte_of s)"

definition is_ascii_digit :: "char \<Rightarrow> bool" where
  "is_ascii_digit c \<longleftrightarrow> 48 \<le> byte_of c \<and> byte_of c \<le> 57"

definition is_ascii_alphabetic :: "char \<Rightarrow> bool" where
  "is_ascii_alphabetic c \<longleftrightarrow> 65 \<le> byte_of c \<and> byte_of c \<le> 90 \<or> 97 \<le> byte_of c \<and> byte_of c \<le> 122"

definition is_ascii_alphanumeric :: "char \<Rightarrow> bool" where
  "is_ascii_alphanumeric c \<longleftrightarrow> is_ascii_digit c \<or> is_ascii_alphabetic c"

definition is_ascii_hexdigit :: "char \<Rightarrow> bool" where
  "is_ascii_hexdigit c \<longleftrightarrow> is_ascii_digit c
     \<or> 65 \<le> byte_of c \<and> byte_of c \<le> 70 \<or> 97 \<le> byte_of c \<and> byte_of c \<le> 102"

definition is_ascii_control :: "char \<Rightarrow> bool" where
  "is_ascii_control c \<longleftrightarrow> byte_of c < 32 \<or> byte_of c = 127"

definition is_ascii_whitespace :: "char \<Rightarrow> bool" where
  "is_ascii_whitespace c \<longleftrightarrow> byte_of c \<in> {9, 10, 12, 13, 32}"

definition starts_with :: "string \<Rightarrow> string \<Rightarrow> bool" where
  "starts_with p s \<longleftrightarrow> take (length p) s = p"

text \<open>\<open>str::contains\<close> with a string pattern.\<close>

fun contains_text :: "string \<Rightarrow> string \<Rightarrow> bool" where
  "contains_text p [] = (p = [])"
| "contains_text p (c # cs) = (starts_with p (c # cs) \<or> contains_text p cs)"

text \<open>\<open>str::split\<close> on one character, and decimal formatting of an unsigned integer.\<close>

fun split_on :: "char \<Rightarrow> string \<Rightarrow> string list" where
  "split_on d [] = [[]]"
| "split_on d (c # cs) =
     (if c = d then [] # split_on d cs
      else case split_on d cs of [] \<Rightarrow> [[c]] | p # ps \<Rightarrow> (c # p) # ps)"

definition digit :: "nat \<Rightarrow> char" where
  "digit n = char_of (48 + n)"

fun decimal :: "nat \<Rightarrow> string" where
  "decimal n = (if n < 10 then [digit n] else decimal (n div 10) @ [digit (n mod 10)])"

declare decimal.simps [simp del]

text \<open>Byte-wise string order and insertion into a \<open>BTreeMap\<close> keyed by strings.\<close>

fun text_less :: "string \<Rightarrow> string \<Rightarrow> bool" where
  "text_less xs [] = False"
| "text_less [] (y # ys) = True"
| "text_less (x # xs) (y # ys) = (byte_of x < byte_of y \<or> x = y \<and> text_less xs ys)"

fun btree_insert :: "string \<Rightarrow> 'v \<Rightarrow> (string \<times> 'v) list \<Rightarrow> (string \<times> 'v) list" where
  "btree_insert k v [] = [(k, v)]"
| "btree_insert k v ((k', v') # xs) =
     (if k' = k then (k, v) # xs
      else if text_less k k' then (k, v) # (k', v') # xs
      else (k', v') # btree_insert k v xs)"

lemma starts_with_iff: "starts_with p s \<longleftrightarrow> (\<exists>t. s = p @ t)"
  by (auto simp: starts_with_def intro: append_take_drop_id [symmetric]) (metis append_take_drop_id)

lemma blank_text_simps [simp]: "is_blank []"
  by (simp add: is_blank_def)

lemmas alphanumeric_defs = is_ascii_alphanumeric_def is_ascii_digit_def is_ascii_alphabetic_def
  byte_of_def

lemma blank_bytes_low: "48 \<le> b \<Longrightarrow> b \<le> 122 \<Longrightarrow> \<not> blank_bytes (b # bs)"
  by (simp add: ascii_space_def space2_def space3_def split: list.split)

lemma alphanumeric_not_blank: "is_ascii_alphanumeric c \<Longrightarrow> \<not> is_blank (c # cs)"
proof -
  assume "is_ascii_alphanumeric c"
  then have "48 \<le> byte_of c \<and> byte_of c \<le> 122"
    unfolding is_ascii_alphanumeric_def is_ascii_digit_def is_ascii_alphabetic_def by linarith
  then show ?thesis using blank_bytes_low unfolding is_blank_def by simp
qed

text \<open>\<open>MAX_IDENTIFIER_BYTES\<close> and \<open>validate_identifier\<close>.\<close>

definition MAX_IDENTIFIER_BYTES :: nat where
  "MAX_IDENTIFIER_BYTES = 128"

definition validate_identifier :: "string \<Rightarrow> bool" where
  "validate_identifier v \<longleftrightarrow> v \<noteq> [] \<and> length v \<le> MAX_IDENTIFIER_BYTES
     \<and> (\<forall>c\<in>set v. is_ascii_alphanumeric c \<or> c = CHR ''-'' \<or> c = CHR ''_'')"

text \<open>
  An identifier names one file of the Session directory: no separator, no dot, so it
  cannot climb out of it.
\<close>

lemma identifier_is_a_file_name:
  "validate_identifier v \<Longrightarrow> CHR ''/'' \<notin> set v \<and> CHR 0x5C \<notin> set v \<and> CHR ''.'' \<notin> set v"
  by (auto simp: validate_identifier_def is_ascii_alphanumeric_def is_ascii_digit_def
      is_ascii_alphabetic_def byte_of_def)

text \<open>\<open>str::trim\<close> at either end; from the end the bytes of a code point are met in reverse.\<close>

fun trim_front :: "(nat \<Rightarrow> nat \<Rightarrow> bool) \<Rightarrow> (nat \<Rightarrow> nat \<Rightarrow> nat \<Rightarrow> bool) \<Rightarrow> string \<Rightarrow> string" where
  "trim_front two three [] = []"
| "trim_front two three (b # bs) =
     (if ascii_space (byte_of b) then trim_front two three bs
      else case bs of [] \<Rightarrow> b # bs
      | c # cs \<Rightarrow> if two (byte_of b) (byte_of c) then trim_front two three cs
          else (case cs of [] \<Rightarrow> b # bs
            | d # ds \<Rightarrow> if three (byte_of b) (byte_of c) (byte_of d) then trim_front two three ds
                else b # bs))"

definition trim_text :: "string \<Rightarrow> string" where
  "trim_text s = rev (trim_front (\<lambda>b c. space2 c b) (\<lambda>b c d. space3 d c b)
     (rev (trim_front space2 space3 s)))"

definition to_ascii_lower :: "char \<Rightarrow> char" where
  "to_ascii_lower c = (if 65 \<le> byte_of c \<and> byte_of c \<le> 90 then char_of (byte_of c + 32) else c)"

definition to_ascii_upper :: "char \<Rightarrow> char" where
  "to_ascii_upper c = (if 97 \<le> byte_of c \<and> byte_of c \<le> 122 then char_of (byte_of c - 32) else c)"

subsection \<open>Character boundaries\<close>

definition is_continuation :: "char \<Rightarrow> bool" where
  "is_continuation c \<longleftrightarrow> 0x80 \<le> byte_of c \<and> byte_of c < 0xC0"

text \<open>\<open>str::is\_char\_boundary\<close>.\<close>

definition is_char_boundary :: "string \<Rightarrow> nat \<Rightarrow> bool" where
  "is_char_boundary s i \<longleftrightarrow> i = 0 \<or> i = length s \<or> i < length s \<and> \<not> is_continuation (s ! i)"

end
