(* ===== verification/Skills.thy ===== *)
theory Skills
  imports Events Rust_Text
begin

text \<open>
  The rendering of a loaded skill (agent\_runtime/skills.rs): its text is data inside a
  fixed frame of tags, so every part of it is escaped, and a stored skill is valid only if
  it is byte for byte the rendering of its parts. The JSON encoder and SHA-256 are
  third-party code: \<open>skill_codec\<close> holds their results.
\<close>

record skill_codec =
  provenance_json :: "skill_provenance \<Rightarrow> string"
  loaded_json_len :: "loaded_skill \<Rightarrow> nat"
  sha256_hex :: "string \<Rightarrow> string"

definition SKILL_PROTOCOL :: u32 where
  "SKILL_PROTOCOL = 1"

definition MAX_SKILL_FILE :: nat where
  "MAX_SKILL_FILE = 128 * 1024"

definition MAX_SKILL_RENDERED :: nat where
  "MAX_SKILL_RENDERED = 96 * 1024"

definition replace_char :: "char \<Rightarrow> string \<Rightarrow> string \<Rightarrow> string" where
  "replace_char c t s = concat (map (\<lambda>x. if x = c then t else [x]) s)"

definition escape :: "string \<Rightarrow> string" where
  "escape v = replace_char (CHR 0x22) ''&quot;'' (replace_char (CHR ''>'') ''&gt;''
     (replace_char (CHR ''<'') ''&lt;'' (replace_char (CHR ''&'') ''&amp;'' v)))"

definition render :: "skill_codec \<Rightarrow> string \<Rightarrow> string \<Rightarrow> skill_provenance \<Rightarrow> string" where
  "render cx name instructions p =
     ''<skill_content name='' @ [CHR 0x22] @ escape name @ [CHR 0x22] @ ''>'' @ [CHR 0x0A] @
     ''<skill_resources>'' @ escape (tgt_kind (sks_target (skp_scope p)) @ '':'' @
       tgt_target_id (sks_target (skp_scope p)) @ '':'' @ sks_root (skp_scope p) @
       ''; resource base '' @ skp_resource_base p @
       ''; resources require existing tool authorization'') @ ''</skill_resources>'' @ [CHR 0x0A] @
     ''<skill_provenance>'' @ escape (provenance_json cx p) @ ''</skill_provenance>'' @ [CHR 0x0A] @
     ''<skill_instructions>'' @ escape instructions @ ''</skill_instructions>'' @ [CHR 0x0A] @
     ''</skill_content>''"

definition is_ascii_lowercase :: "char \<Rightarrow> bool" where
  "is_ascii_lowercase c \<longleftrightarrow> 97 \<le> byte_of c \<and> byte_of c \<le> 122"

definition valid_name :: "string \<Rightarrow> bool" where
  "valid_name name \<longleftrightarrow> name \<noteq> [] \<and> length name \<le> 64
     \<and> list_all (\<lambda>part. part \<noteq> [] \<and> list_all (\<lambda>b. is_ascii_lowercase b \<or> is_ascii_digit b) part)
         (split_on (CHR ''-'') name)"

definition validate_loaded :: "skill_codec \<Rightarrow> loaded_skill \<Rightarrow> bool" where
  "validate_loaded cx l \<longleftrightarrow>
     skp_protocol_version (skl_provenance l) = SKILL_PROTOCOL
     \<and> skp_renderer_version (skl_provenance l) = 1
     \<and> valid_name (skl_name l)
     \<and> length (skl_rendered l) \<le> MAX_SKILL_RENDERED
     \<and> length (skl_instructions l) \<le> MAX_SKILL_FILE
     \<and> loaded_json_len cx l \<le> 240 * 1024
     \<and> skp_instruction_hash (skl_provenance l) = sha256_hex cx (skl_instructions l)
     \<and> skl_rendered l = render cx (skl_name l) (skl_instructions l) (skl_provenance l)
     \<and> skl_rendered_hash l = sha256_hex cx (skl_rendered l)"

definition direct_skill_input :: "inbox_message \<Rightarrow> bool" where
  "direct_skill_input m \<longleftrightarrow> src_kind (msg_source m) = SourceUser
     \<and> src_producer_id (msg_source m) = ''shellspan-user'' \<and> msg_client_submission_id m \<noteq> None"

subsection \<open>Escaping one character at a time\<close>

definition escape_char :: "char \<Rightarrow> string" where
  "escape_char c = (if c = CHR ''&'' then ''&amp;'' else if c = CHR ''<'' then ''&lt;''
     else if c = CHR ''>'' then ''&gt;'' else if c = CHR 0x22 then ''&quot;'' else [c])"

lemma replace_char_simps [simp]:
  "replace_char c t [] = []"
  "replace_char c t (x # xs) = (if x = c then t else [x]) @ replace_char c t xs"
  "replace_char c t (xs @ ys) = replace_char c t xs @ replace_char c t ys"
  by (simp_all add: replace_char_def)

lemma escape_Nil [simp]: "escape [] = []"
  by (simp add: escape_def)

lemma escape_Cons [simp]: "escape (c # cs) = escape_char c @ escape cs"
  by (simp add: escape_def escape_char_def)

fun unescape :: "string \<Rightarrow> string" where
  "unescape [] = []"
| "unescape (c # cs) =
     (if starts_with ''&amp;'' (c # cs) then CHR ''&'' # unescape (drop 4 cs)
      else if starts_with ''&lt;'' (c # cs) then CHR ''<'' # unescape (drop 3 cs)
      else if starts_with ''&gt;'' (c # cs) then CHR ''>'' # unescape (drop 3 cs)
      else if starts_with ''&quot;'' (c # cs) then CHR 0x22 # unescape (drop 5 cs)
      else c # unescape cs)"

lemma unescape_char: "unescape (escape_char c @ s) = c # unescape s"
  by (simp add: escape_char_def starts_with_def)

lemma escape_char_safe: "x \<in> set (escape_char c) \<Longrightarrow> x \<noteq> CHR ''<'' \<and> x \<noteq> CHR ''>'' \<and> x \<noteq> CHR 0x22"
  by (auto simp: escape_char_def split: if_splits)

subsection \<open>Properties of skills\<close>

text \<open>
  Skill text cannot leave its frame: escaped text holds no angle bracket and no quote,
  whatever the skill says, and it loses nothing (reading the entities back gives the text).
\<close>

theorem escape_contains_text:
  "CHR ''<'' \<notin> set (escape s) \<and> CHR ''>'' \<notin> set (escape s) \<and> CHR 0x22 \<notin> set (escape s)
    \<and> unescape (escape s) = s"
proof (induction s)
  case (Cons c cs)
  then show ?case using escape_char_safe [of _ c] by (auto simp: unescape_char)
qed simp

end
