(* ===== verification/Questions.thy ===== *)
theory Questions
  imports Events Rust_Text "HOL-Library.Option_ord"
begin

text \<open>
  Durable user questions (agent\_runtime/user\_questions.rs): the bounds on a question card,
  the canonical form of a submitted answer, the records folded from a Session log, and the
  rules by which a log accepts a question, its answer, its cancellation and the tool result
  that closes it.

  The JSON encoder and decoder are third-party code: \<open>question_codec\<close> holds the lengths of
  \<open>serde_json::to_vec\<close> and the result of \<open>serde_json::from_value\<close> the code looks at.
\<close>

record question_codec =
  len_json :: "json \<Rightarrow> nat"
  len_arguments :: "question_arguments \<Rightarrow> nat"
  len_answers :: "question_answer list \<Rightarrow> nat"
  len_submission :: "answer_question_input \<Rightarrow> nat"
  json_of_answers :: "question_answer list \<Rightarrow> json"
  arguments_of_json :: "json \<Rightarrow> question_arguments option"

datatype question_error =
    TextBounds
  | PayloadTooLarge
  | InvalidJson
  | QuestionCount
  | DuplicateQuestionId
  | OptionCount
  | DuplicateOptionLabel
  | AnswerCount
  | DuplicateAnswerId
  | UnknownAnswerId
  | TooManySelected
  | UnknownOrDuplicateOption
  | SingleSelectMultiple
  | BlankAnswer
  | InvalidModelSelection
  | InvalidFingerprint
  | IdentityScopeMismatch
  | QuestionReusedOrPending
  | NoDurableToolCall
  | DiffersFromToolArguments
  | RequestIdentityMismatch
  | UnknownQuestion
  | StaleAnswer
  | NotCanonical
  | AlreadySettled

definition TOOL_NAME :: string where
  "TOOL_NAME = ''ask_user_question''"

definition MAX_BYTES :: nat where
  "MAX_BYTES = 32 * 1024"

record question_record =
  qrec_identity :: question_identity
  qrec_arguments :: question_arguments
  qrec_provider :: subagent_model
  qrec_answer :: "answer_question_input option"
  qrec_cancelled :: bool
  qrec_has_result :: bool
  qrec_fingerprint :: "string option"

subsection \<open>Bounds and canonical answers\<close>

definition check_text :: "string \<Rightarrow> nat \<Rightarrow> question_error + unit" where
  "check_text v limit = ensure (\<not> is_blank v \<and> length v \<le> limit) TextBounds"

definition bounded :: "nat \<Rightarrow> question_error + unit" where
  "bounded n = ensure (n \<le> MAX_BYTES) PayloadTooLarge"

definition check_optional_text :: "string option \<Rightarrow> nat \<Rightarrow> question_error + unit" where
  "check_optional_text v limit = (case v of None \<Rightarrow> Inr () | Some s \<Rightarrow> check_text s limit)"

fun validate_options :: "string set \<Rightarrow> question_option list \<Rightarrow> question_error + unit" where
  "validate_options labels [] = Inr ()"
| "validate_options labels (p # ps) =
     try_bind (check_text (qopt_label p) 256) (\<lambda>_.
     try_bind (ensure (qopt_label p \<notin> labels) DuplicateOptionLabel) (\<lambda>_.
     try_bind (check_optional_text (qopt_description p) 1024) (\<lambda>_.
       validate_options (insert (qopt_label p) labels) ps)))"

fun validate_questions :: "string set \<Rightarrow> question list \<Rightarrow> question_error + unit" where
  "validate_questions ids [] = Inr ()"
| "validate_questions ids (q # qs) =
     try_bind (check_text (qst_id q) 64) (\<lambda>_.
     try_bind (check_text (qst_question q) 2048) (\<lambda>_.
     try_bind (ensure (qst_id q \<notin> ids) DuplicateQuestionId) (\<lambda>_.
     try_bind (check_optional_text (qst_header q) 128) (\<lambda>_.
     try_bind (case qst_options q of None \<Rightarrow> Inr ()
       | Some opts \<Rightarrow> try_bind (ensure (2 \<le> length opts \<and> length opts \<le> 7) OptionCount)
           (\<lambda>_. validate_options {} opts)) (\<lambda>_.
       validate_questions (insert (qst_id q) ids) qs)))))"

definition validate_arguments ::
  "question_codec \<Rightarrow> question_arguments \<Rightarrow> question_error + unit" where
  "validate_arguments cx a =
     try_bind (bounded (len_arguments cx a)) (\<lambda>_.
     try_bind (ensure (1 \<le> length (qargs_questions a) \<and> length (qargs_questions a) \<le> 3) QuestionCount)
       (\<lambda>_. validate_questions {} (qargs_questions a)))"

definition parse_arguments ::
  "question_codec \<Rightarrow> json \<Rightarrow> question_error + question_arguments" where
  "parse_arguments cx v =
     try_bind (bounded (len_json cx v)) (\<lambda>_.
     try_bind (ok_or (arguments_of_json cx v) InvalidJson) (\<lambda>a.
     try_bind (validate_arguments cx a) (\<lambda>_. Inr a)))"

text \<open>The body of the answer loop: one answer checked against its question, and cleaned.\<close>

definition offers :: "question \<Rightarrow> string \<Rightarrow> bool" where
  "offers q l = (case qst_options q of None \<Rightarrow> False
     | Some opts \<Rightarrow> \<exists>p\<in>set opts. qopt_label p = l)"

definition normalize_answer ::
  "question \<Rightarrow> question_answer \<Rightarrow> question_error + question_answer" where
  "normalize_answer q a =
     try_bind (ensure (length (qans_selected a) \<le> 7) TooManySelected) (\<lambda>_.
     try_bind (ensure (distinct (qans_selected a) \<and> (\<forall>l\<in>set (qans_selected a). offers q l))
       UnknownOrDuplicateOption) (\<lambda>_.
     try_bind (check_optional_text (qans_custom a) 8192) (\<lambda>_.
     try_bind (ensure (\<not> (\<not> qst_multi_select q \<and> qans_custom a = None \<and> 1 < length (qans_selected a)))
       SingleSelectMultiple) (\<lambda>_.
     try_bind (ensure (\<not> (qans_selected a = [] \<and> qans_custom a = None)) BlankAnswer) (\<lambda>_.
       Inr (if \<not> qst_multi_select q \<and> qans_custom a \<noteq> None
            then a\<lparr>qans_selected := []\<rparr> else a))))))"

fun normalize_each ::
  "question list \<Rightarrow> string set \<Rightarrow> question_answer list \<Rightarrow> question_error + question_answer list" where
  "normalize_each qs seen [] = Inr []"
| "normalize_each qs seen (a # as) =
     try_bind (ensure (qans_id a \<notin> seen) DuplicateAnswerId) (\<lambda>_.
     try_bind (ok_or (find (\<lambda>q. qst_id q = qans_id a) qs) UnknownAnswerId) (\<lambda>q.
     try_bind (normalize_answer q a) (\<lambda>a'.
     try_bind (normalize_each qs (insert (qans_id a) seen) as) (\<lambda>as'. Inr (a' # as')))))"

definition answer_rank :: "question list \<Rightarrow> question_answer \<Rightarrow> nat option" where
  "answer_rank qs a = position (\<lambda>q. qst_id q = qans_id a) qs"

definition normalize_answers ::
  "question_codec \<Rightarrow> question_arguments \<Rightarrow> question_answer list \<Rightarrow> question_error + question_answer list" where
  "normalize_answers cx args answers =
     (let qs = qargs_questions args in
      try_bind (bounded (len_answers cx answers)) (\<lambda>_.
      try_bind (ensure (length answers = length qs) AnswerCount) (\<lambda>_.
      try_bind (normalize_each qs {} answers) (\<lambda>normalized.
        Inr (sort_key (answer_rank qs) normalized)))))"

definition validate_identity :: "question_identity \<Rightarrow> question_error + unit" where
  "validate_identity q =
     try_bind (check_text (qid_session_id q) 128) (\<lambda>_.
     try_bind (check_text (qid_turn_id q) 128) (\<lambda>_.
     try_bind (check_text (qid_step_id q) 128) (\<lambda>_.
     try_bind (check_text (qid_request_id q) 128) (\<lambda>_.
     try_bind (check_text (qid_call_id q) 128) (\<lambda>_.
       check_text (qid_question_request_id q) 128)))))"

definition validate_submission ::
  "question_codec \<Rightarrow> answer_question_input \<Rightarrow> question_error + unit" where
  "validate_submission cx s =
     try_bind (validate_identity (aqi_identity s)) (\<lambda>_.
     try_bind (check_text (aqi_client_operation_id s) 128) (\<lambda>_.
       bounded (len_submission cx s)))"

text \<open>\<open>is_same_submission\<close>; \<open>digest\<close> is the SHA-256 hex of the encoded submission.\<close>

definition is_same_submission ::
  "(answer_question_input \<Rightarrow> string) \<Rightarrow> question_record \<Rightarrow> answer_question_input \<Rightarrow> bool" where
  "is_same_submission digest r input \<longleftrightarrow>
     (case qrec_answer r of None \<Rightarrow> False
      | Some a \<Rightarrow> aqi_client_operation_id a = aqi_client_operation_id input)
     \<and> qrec_fingerprint r = Some (digest input)"

subsection \<open>The question records of a log\<close>

definition question_step :: "question_record list \<Rightarrow> session_event \<Rightarrow> question_record list" where
  "question_step rs e = (case ev_payload e of
     QuestionRequested i args prov \<Rightarrow>
       rs @ [\<lparr>qrec_identity = i, qrec_arguments = args, qrec_provider = prov, qrec_answer = None,
              qrec_cancelled = False, qrec_has_result = False, qrec_fingerprint = None\<rparr>]
   | QuestionAnswered sub fp \<Rightarrow>
       update_first (\<lambda>r. qrec_identity r = aqi_identity sub)
         (\<lambda>r. r\<lparr>qrec_answer := Some sub, qrec_fingerprint := Some fp\<rparr>) rs
   | QuestionCancelled i \<Rightarrow>
       update_first (\<lambda>r. qrec_identity r = i) (\<lambda>r. r\<lparr>qrec_cancelled := True\<rparr>) rs
   | ToolResult c _ _ _ _ _ _ \<Rightarrow>
       update_first (\<lambda>r. qid_call_id (qrec_identity r) = c
           \<and> ev_step_id e = Some (qid_step_id (qrec_identity r)))
         (\<lambda>r. r\<lparr>qrec_has_result := True\<rparr>) rs
   | _ \<Rightarrow> rs)"

definition question_records :: "session_event list \<Rightarrow> question_record list" where
  "question_records es = foldl question_step [] es"

text \<open>
  \<open>question_queue\<close>: the window starts at the last \<open>step/start\<close>; a question can be resumed
  only while its Turn is open.
\<close>

definition is_step_start :: "session_event \<Rightarrow> bool" where
  "is_step_start e = (case ev_payload e of StepStart \<Rightarrow> True | _ \<Rightarrow> False)"

definition closes_turn :: "session_event \<Rightarrow> bool" where
  "closes_turn e = (case ev_payload e of TurnEnd _ \<Rightarrow> True | SessionEnded _ _ \<Rightarrow> True | _ \<Rightarrow> False)"

definition asks_user :: "session_event \<Rightarrow> bool" where
  "asks_user e = (case ev_payload e of
     AssistantMessage _ content _ _ _ _ \<Rightarrow> \<exists>c\<in>set (assistant_tool_calls content). call_name c = TOOL_NAME
   | _ \<Rightarrow> False)"

definition header_request_id :: "session_event \<Rightarrow> string option" where
  "header_request_id e = (case ev_payload e of
     RequestHeader rid _ _ _ _ _ _ _ _ _ _ _ \<Rightarrow> Some rid | _ \<Rightarrow> None)"

fun step_window :: "session_event list \<Rightarrow> session_event list option" where
  "step_window [] = None"
| "step_window (e # es) = (case step_window es of
     Some w \<Rightarrow> Some w
   | None \<Rightarrow> if is_step_start e then Some (e # es) else None)"

definition question_queue :: "session_event list \<Rightarrow> (string \<times> string \<times> string) option" where
  "question_queue es =
     Option.bind (step_window es) (\<lambda>w.
       if list_ex closes_turn w then None
       else if \<not> list_ex asks_user w then None
       else Option.bind (find_map header_request_id (rev w)) (\<lambda>request.
            Option.bind (ev_turn_id (hd w)) (\<lambda>turn.
            Option.bind (ev_step_id (hd w)) (\<lambda>step. Some (turn, step, request)))))"

definition question_result :: "question_codec \<Rightarrow> question_record \<Rightarrow> session_event_payload" where
  "question_result cx r = ToolResult (qid_call_id (qrec_identity r)) TOOL_NAME
     (if qrec_answer r \<noteq> None then ResultCompleted else ResultCancelled)
     (if qrec_answer r \<noteq> None then ''User answered''
      else ''ASK_ABORTED: user question cancelled'')
     (map_option (\<lambda>a. JObject [(''answers'', json_of_answers cx (aqi_answers a))]) (qrec_answer r))
     None []"

definition matches_result ::
  "question_codec \<Rightarrow> question_record \<Rightarrow> session_event_payload \<Rightarrow> bool" where
  "matches_result cx r p \<longleftrightarrow> (qrec_answer r \<noteq> None \<or> qrec_cancelled r) \<and> question_result cx r = p"

subsection \<open>Acceptance of question events\<close>

definition in_scope :: "question_identity \<Rightarrow> session_event \<Rightarrow> bool" where
  "in_scope i e \<longleftrightarrow> qid_session_id i = ev_session_id e
     \<and> ev_turn_id e = Some (qid_turn_id i) \<and> ev_step_id e = Some (qid_step_id i)"

definition validate_scope :: "question_identity \<Rightarrow> session_event \<Rightarrow> question_error + unit" where
  "validate_scope i e =
     try_bind (validate_identity i) (\<lambda>_. ensure (in_scope i e) IdentityScopeMismatch)"

definition validate_question_payload ::
  "question_codec \<Rightarrow> session_event \<Rightarrow> question_error + unit" where
  "validate_question_payload cx e = (case ev_payload e of
     QuestionRequested i args prov \<Rightarrow>
       try_bind (validate_arguments cx args) (\<lambda>_.
       try_bind (ensure (\<not> is_blank (smod_route_id prov) \<and> \<not> is_blank (smod_model_id prov))
         InvalidModelSelection) (\<lambda>_. validate_scope i e))
   | QuestionAnswered sub fp \<Rightarrow>
       try_bind (validate_submission cx sub) (\<lambda>_.
       try_bind (ensure (length fp = 64 \<and> list_all is_ascii_hexdigit fp) InvalidFingerprint) (\<lambda>_.
         validate_scope (aqi_identity sub) e))
   | QuestionCancelled i \<Rightarrow> validate_scope i e
   | _ \<Rightarrow> Inr ())"

definition durable_call ::
  "session_event list \<Rightarrow> string option \<Rightarrow> string \<Rightarrow> recorded_tool_call option" where
  "durable_call es st c = find_map (\<lambda>p. case ev_payload p of
     ToolCall call \<Rightarrow> if ev_step_id p = st \<and> call_call_id call = c then Some call else None
   | _ \<Rightarrow> None) es"

definition open_record :: "question_record \<Rightarrow> bool" where
  "open_record r \<longleftrightarrow> qrec_answer r = None \<and> \<not> qrec_cancelled r"

definition validate_question_transition ::
  "question_codec \<Rightarrow> session_event list \<Rightarrow> session_event \<Rightarrow> question_error + unit" where
  "validate_question_transition cx es e =
     try_bind (validate_question_payload cx e) (\<lambda>_.
     let rs = question_records es in
     case ev_payload e of
       QuestionRequested i args _ \<Rightarrow>
         try_bind (ensure (\<not> (\<exists>r\<in>set rs.
             qid_question_request_id (qrec_identity r) = qid_question_request_id i
             \<or> qid_step_id (qrec_identity r) = qid_step_id i
                \<and> qid_call_id (qrec_identity r) = qid_call_id i
             \<or> open_record r)) QuestionReusedOrPending) (\<lambda>_.
         try_bind (ok_or (durable_call es (ev_step_id e) (qid_call_id i)) NoDurableToolCall) (\<lambda>call.
         try_bind (ensure (call_name call = TOOL_NAME) DiffersFromToolArguments) (\<lambda>_.
         try_bind (parse_arguments cx (call_arguments call)) (\<lambda>parsed.
         try_bind (ensure (parsed = args) DiffersFromToolArguments) (\<lambda>_.
           ensure (\<exists>p\<in>set es. ev_step_id p = ev_step_id e
               \<and> header_request_id p = Some (qid_request_id i)) RequestIdentityMismatch)))))
     | QuestionAnswered sub _ \<Rightarrow>
         try_bind (ok_or (find (\<lambda>r. qrec_identity r = aqi_identity sub) rs) UnknownQuestion) (\<lambda>r.
         try_bind (ensure (\<not> (qrec_answer r \<noteq> None \<or> qrec_cancelled r \<or> qrec_has_result r
             \<or> (\<exists>r'\<in>set rs. case qrec_answer r' of None \<Rightarrow> False
                  | Some a \<Rightarrow> aqi_client_operation_id a = aqi_client_operation_id sub))) StaleAnswer) (\<lambda>_.
         try_bind (normalize_answers cx (qrec_arguments r) (aqi_answers sub)) (\<lambda>n.
           ensure (n = aqi_answers sub) NotCanonical)))
     | QuestionCancelled i \<Rightarrow>
         try_bind (ok_or (find (\<lambda>r. qrec_identity r = i) rs) UnknownQuestion) (\<lambda>r.
           ensure (\<not> (qrec_answer r \<noteq> None \<or> qrec_cancelled r \<or> qrec_has_result r)) AlreadySettled)
     | _ \<Rightarrow> Inr ())"


subsection \<open>The records of an accepted log\<close>

text \<open>The store appends an event only when the log so far accepts it.\<close>

definition append_question_event ::
  "question_codec \<Rightarrow> session_event list \<Rightarrow> session_event \<Rightarrow> question_error + session_event list" where
  "append_question_event cx es e = try_bind (validate_question_transition cx es e) (\<lambda>_. Inr (es @ [e]))"

definition answer_operations :: "question_record list \<Rightarrow> string list" where
  "answer_operations rs = filter_map (\<lambda>r. map_option aqi_client_operation_id (qrec_answer r)) rs"

definition request_ids :: "question_record list \<Rightarrow> string list" where
  "request_ids rs = map (\<lambda>r. qid_question_request_id (qrec_identity r)) rs"

definition question_calls :: "question_record list \<Rightarrow> (string \<times> string) list" where
  "question_calls rs = map (\<lambda>r. (qid_step_id (qrec_identity r), qid_call_id (qrec_identity r))) rs"

definition records_inv :: "question_record list \<Rightarrow> bool" where
  "records_inv rs \<longleftrightarrow> distinct (request_ids rs) \<and> distinct (question_calls rs)
     \<and> length (filter open_record rs) \<le> 1
     \<and> (\<forall>r\<in>set rs. qrec_answer r \<noteq> None \<longrightarrow> \<not> qrec_cancelled r)
     \<and> distinct (answer_operations rs)"

text \<open>What a later log keeps of an earlier record: its question, and how it was settled.\<close>

definition keeps_record :: "question_record \<Rightarrow> question_record \<Rightarrow> bool" where
  "keeps_record r r' \<longleftrightarrow> qrec_identity r' = qrec_identity r \<and> qrec_arguments r' = qrec_arguments r
     \<and> qrec_provider r' = qrec_provider r
     \<and> (\<not> open_record r \<longrightarrow> qrec_answer r' = qrec_answer r
          \<and> qrec_cancelled r' = qrec_cancelled r \<and> qrec_fingerprint r' = qrec_fingerprint r)
     \<and> (qrec_has_result r \<longrightarrow> qrec_has_result r')"

definition keeps_records :: "question_record list \<Rightarrow> question_record list \<Rightarrow> bool" where
  "keeps_records rs rs' \<longleftrightarrow> (\<forall>r\<in>set rs. \<exists>r'\<in>set rs'. keeps_record r r')"

lemma question_records_append [simp]:
  "question_records (es @ [e]) = question_step (question_records es) e"
  by (simp add: question_records_def)

lemma update_first_cases:
  "(update_first P f xs = xs \<and> (\<forall>x\<in>set xs. \<not> P x)) \<or>
   (\<exists>ys x zs. xs = ys @ x # zs \<and> (\<forall>y\<in>set ys. \<not> P y) \<and> P x \<and> find P xs = Some x
      \<and> update_first P f xs = ys @ f x # zs)"
proof (induction xs)
  case (Cons a as)
  show ?case
  proof (cases "P a")
    case True
    then show ?thesis by force
  next
    case False
    with Cons show ?thesis
    proof (elim disjE exE conjE)
      fix ys x zs
      assume h: "as = ys @ x # zs" "\<forall>y\<in>set ys. \<not> P y" "P x" "find P as = Some x"
        "update_first P f as = ys @ f x # zs"
      with False have "a # as = (a # ys) @ x # zs" "\<forall>y\<in>set (a # ys). \<not> P y" "P x"
        "find P (a # as) = Some x" "update_first P f (a # as) = (a # ys) @ f x # zs"
        by auto
      then show ?thesis by blast
    qed auto
  qed
qed simp

lemma keeps_record_refl [simp]: "keeps_record r r"
  by (simp add: keeps_record_def)

lemma keeps_records_refl: "keeps_records rs rs"
  unfolding keeps_records_def using keeps_record_refl by blast

lemma keeps_record_trans: "keeps_record r s \<Longrightarrow> keeps_record s t \<Longrightarrow> keeps_record r t"
  by (auto simp: keeps_record_def open_record_def)

lemma keeps_records_trans: "keeps_records a b \<Longrightarrow> keeps_records b c \<Longrightarrow> keeps_records a c"
  unfolding keeps_records_def using keeps_record_trans by blast

declare filter_map_append [simp]

lemmas record_views = answer_operations_def request_ids_def question_calls_def

lemma records_inv_replace:
  assumes "records_inv (ys @ r # zs)" "qrec_identity r' = qrec_identity r"
    "qrec_answer r' = qrec_answer r" "qrec_cancelled r' = qrec_cancelled r"
  shows "records_inv (ys @ r' # zs)"
  using assms by (auto simp: records_inv_def record_views open_record_def split: if_splits)

lemma has_result_keeps: "keeps_record r (r\<lparr>qrec_has_result := True\<rparr>)"
  by (simp add: keeps_record_def)

lemma keeps_records_replace: "keeps_record r r' \<Longrightarrow> keeps_records (ys @ r # zs) (ys @ r' # zs)"
  by (auto simp: keeps_records_def intro: keeps_record_refl)

lemma mark_result_ok:
  assumes "records_inv rs"
  shows "records_inv (update_first P (\<lambda>r. r\<lparr>qrec_has_result := True\<rparr>) rs)
    \<and> keeps_records rs (update_first P (\<lambda>r. r\<lparr>qrec_has_result := True\<rparr>) rs)"
proof -
  let ?f = "\<lambda>r. r\<lparr>qrec_has_result := True\<rparr>"
  consider "update_first P ?f rs = rs" | ys r zs where "rs = ys @ r # zs" "update_first P ?f rs = ys @ ?f r # zs"
    using update_first_cases [of P ?f rs] by auto
  then show ?thesis
  proof cases
    case 1
    then show ?thesis using assms keeps_records_refl by simp
  next
    case (2 ys r zs)
    then show ?thesis
      using assms records_inv_replace [of ys r zs "?f r"] keeps_records_replace [OF has_result_keeps]
      by simp
  qed
qed

text \<open>Settling the open question: nothing else is open, and the operation is new.\<close>

lemma settle_ok:
  assumes inv: "records_inv (ys @ r # zs)" and op: "open_record r"
    and id: "qrec_identity r' = qrec_identity r" "qrec_arguments r' = qrec_arguments r"
      "qrec_provider r' = qrec_provider r" "qrec_has_result r' = qrec_has_result r"
    and settled: "(qrec_answer r' = None) = qrec_cancelled r'"
    and fresh: "\<forall>a. qrec_answer r' = Some a \<longrightarrow>
      aqi_client_operation_id a \<notin> set (answer_operations (ys @ r # zs))"
  shows "records_inv (ys @ r' # zs) \<and> keeps_records (ys @ r # zs) (ys @ r' # zs)"
proof -
  have none: "qrec_answer r = None" using op by (simp add: open_record_def)
  have "keeps_record r r'" using op id by (simp add: keeps_record_def)
  moreover have "\<not> open_record r'" using settled by (auto simp: open_record_def)
  then have "records_inv (ys @ r' # zs)"
    using inv op id settled fresh none
    by (auto simp: records_inv_def record_views split: option.splits)
  ultimately show ?thesis using keeps_records_replace by blast
qed

lemma step_requested_ok:
  assumes "records_inv rs"
    and "\<not> (\<exists>r\<in>set rs. qid_question_request_id (qrec_identity r) = qid_question_request_id i
             \<or> qid_step_id (qrec_identity r) = qid_step_id i \<and> qid_call_id (qrec_identity r) = qid_call_id i
             \<or> open_record r)"
    and "qrec_identity r' = i" "qrec_answer r' = None" "\<not> qrec_cancelled r'"
  shows "records_inv (rs @ [r']) \<and> keeps_records rs (rs @ [r'])"
proof -
  have "filter open_record rs = []" using assms(2) by (auto simp: filter_empty_conv)
  then have "records_inv (rs @ [r'])"
    using assms by (auto simp: records_inv_def record_views)
  then show ?thesis by (auto simp: keeps_records_def intro: keeps_record_refl)
qed

lemma question_step_ok:
  assumes ok: "validate_question_transition cx es e = Inr ()"
    and inv: "records_inv (question_records es)"
  shows "records_inv (question_records (es @ [e])) \<and>
    keeps_records (question_records es) (question_records (es @ [e]))"
proof -
  let ?rs = "question_records es"
  show ?thesis
  proof (cases "ev_payload e")
    case (QuestionRequested i args prov)
    with ok show ?thesis
      using step_requested_ok [OF inv, of i]
      by (auto simp: validate_question_transition_def Let_def res_simps question_step_def)
  next
    case (QuestionAnswered sub fp)
    let ?P = "\<lambda>r. qrec_identity r = aqi_identity sub"
    let ?f = "\<lambda>r. r\<lparr>qrec_answer := Some sub, qrec_fingerprint := Some fp\<rparr>"
    from QuestionAnswered ok obtain r where r: "find ?P ?rs = Some r" "qrec_answer r = None"
      "\<not> qrec_cancelled r" and fresh: "aqi_client_operation_id sub \<notin> set (answer_operations ?rs)"
      by (auto simp: validate_question_transition_def Let_def res_simps answer_operations_def
          set_filter_map split: option.splits)
    from update_first_cases [of ?P ?f ?rs] r(1) obtain ys zs where
      "?rs = ys @ r # zs" "update_first ?P ?f ?rs = ys @ ?f r # zs"
      by (auto simp: find_None_iff dest!: find_SomeD)
    with settle_ok [of ys r zs "?f r"] inv r fresh show ?thesis
      by (simp add: QuestionAnswered question_step_def open_record_def)
  next
    case (QuestionCancelled i)
    let ?P = "\<lambda>r. qrec_identity r = i"
    let ?f = "\<lambda>r. r\<lparr>qrec_cancelled := True\<rparr>"
    from QuestionCancelled ok obtain r where r: "find ?P ?rs = Some r" "qrec_answer r = None"
      "\<not> qrec_cancelled r"
      by (auto simp: validate_question_transition_def Let_def res_simps)
    from update_first_cases [of ?P ?f ?rs] r(1) obtain ys zs where
      "?rs = ys @ r # zs" "update_first ?P ?f ?rs = ys @ ?f r # zs"
      by (auto simp: find_None_iff dest!: find_SomeD)
    with settle_ok [of ys r zs "?f r"] inv r show ?thesis
      by (simp add: QuestionCancelled question_step_def open_record_def)
  next
    case (ToolResult c n s u d m v)
    then show ?thesis using mark_result_ok [OF inv] by (simp add: question_step_def)
  qed (use inv keeps_records_refl in \<open>simp_all add: question_step_def\<close>)
qed

interpretation question_log: monotone_machine "append_question_event cx"
    "\<lambda>es. records_inv (question_records es)"
    "\<lambda>es es'. keeps_records (question_records es) (question_records es')" for cx
proof unfold_locales
  fix s x s'
  assume "records_inv (question_records s)" "append_question_event cx s x = Inr s'"
  then show "records_inv (question_records s')"
    and "keeps_records (question_records s) (question_records s')"
    using question_step_ok [of cx s x] by (auto simp: append_question_event_def res_simps)
qed (auto intro: keeps_records_refl keeps_records_trans)

lemma append_question_run:
  "run_ops (append_question_event cx) es xs = Inr s \<Longrightarrow> s = es @ xs"
  by (induction xs arbitrary: es) (fastforce simp: append_question_event_def res_simps)+

lemma records_inv_empty [simp]: "records_inv (question_records [])"
  by (simp add: records_inv_def question_records_def record_views)


lemma question_log_inv:
  "run_ops (append_question_event cx) [] es = Inr s \<Longrightarrow> records_inv (question_records s)"
  using question_log.run_inv [of "[]" cx es s] by simp

subsection \<open>Canonical answers\<close>

definition answer_ok :: "question \<Rightarrow> question_answer \<Rightarrow> bool" where
  "answer_ok q a \<longleftrightarrow> qans_id a = qst_id q \<and> normalize_answer q a = Inr a
     \<and> (\<forall>l\<in>set (qans_selected a). offers q l)
     \<and> (qans_selected a \<noteq> [] \<or> qans_custom a \<noteq> None)
     \<and> (\<not> qst_multi_select q \<longrightarrow> length (qans_selected a) \<le> 1
          \<and> (qans_custom a \<noteq> None \<longrightarrow> qans_selected a = []))"

lemma normalize_answer_ok:
  "normalize_answer q a = Inr a' \<Longrightarrow> qst_id q = qans_id a \<Longrightarrow> answer_ok q a' \<and> qans_id a' = qans_id a"
  by (auto simp: normalize_answer_def answer_ok_def ensure_def try_bind_Inr_iff
      split: if_splits)

lemma normalize_each_ok:
  "normalize_each qs seen as = Inr ns \<Longrightarrow>
    map qans_id ns = map qans_id as \<and> distinct (map qans_id ns) \<and> set (map qans_id ns) \<inter> seen = {}
    \<and> (\<forall>a\<in>set ns. \<exists>q. find (\<lambda>q. qst_id q = qans_id a) qs = Some q \<and> answer_ok q a)"
proof (induction qs seen as arbitrary: ns rule: normalize_each.induct)
  case (2 qs seen a as)
  then obtain q a' as' where h: "qans_id a \<notin> seen" "find (\<lambda>q. qst_id q = qans_id a) qs = Some q"
    "normalize_answer q a = Inr a'" "normalize_each qs (insert (qans_id a) seen) as = Inr as'"
    and ns: "ns = a' # as'"
    by (auto simp: res_simps)
  from find_SomeD [OF h(2)] have "qst_id q = qans_id a" by simp
  with normalize_answer_ok [OF h(3)] have a': "answer_ok q a'" "qans_id a' = qans_id a" by auto
  have r: "map qans_id as' = map qans_id as" "distinct (map qans_id as')"
    "set (map qans_id as') \<inter> insert (qans_id a) seen = {}"
    "\<forall>a\<in>set as'. \<exists>q. find (\<lambda>q. qst_id q = qans_id a) qs = Some q \<and> answer_ok q a"
    using 2(1) [OF h(4)] by blast+
  have "map qans_id ns = map qans_id (a # as)" using r(1) a'(2) by (simp add: ns)
  moreover have "distinct (map qans_id ns)" "set (map qans_id ns) \<inter> seen = {}"
    using r(2,3) a'(2) h(1) by (auto simp: ns)
  moreover have "\<forall>a\<in>set ns. \<exists>q. find (\<lambda>q. qst_id q = qans_id a) qs = Some q \<and> answer_ok q a"
    using r(4) a' h(2) by (simp add: ns)
  ultimately show ?case by blast
qed simp

lemma normalize_each_fixpoint:
  assumes "\<forall>a\<in>set ns. \<exists>q. find (\<lambda>q. qst_id q = qans_id a) qs = Some q \<and> answer_ok q a"
    "distinct (map qans_id ns)" "set (map qans_id ns) \<inter> seen = {}"
  shows "normalize_each qs seen ns = Inr ns"
  using assms
proof (induction ns arbitrary: seen)
  case (Cons a ns)
  then obtain q where q: "find (\<lambda>q. qst_id q = qans_id a) qs = Some q" "answer_ok q a" by auto
  moreover have "normalize_each qs (insert (qans_id a) seen) ns = Inr ns"
    using Cons.prems by (intro Cons.IH) auto
  ultimately show ?case using Cons.prems by (simp add: answer_ok_def ensure_def ok_or_def)
qed simp

text \<open>Distinct answers, one per question: sorted by rank they follow the questions.\<close>

lemma rank_Some:
  "answer_rank qs a = Some i \<Longrightarrow> i < length qs \<and> qst_id (qs ! i) = qans_id a"
  by (auto simp: answer_rank_def dest: position_SomeD)

lemma answers_in_order:
  assumes len: "length ns = length qs" and dist: "distinct (map qans_id ns)"
    and known: "\<forall>a\<in>set ns. answer_rank qs a \<noteq> None"
  shows "map qans_id (sort_key (answer_rank qs) ns) = map qst_id qs"
proof -
  let ?s = "sort_key (answer_rank qs) ns"
  have inj: "inj_on (answer_rank qs) (set ns)"
  proof (rule inj_onI)
    fix a b assume h: "a \<in> set ns" "b \<in> set ns" "answer_rank qs a = answer_rank qs b"
    then obtain i where "answer_rank qs a = Some i" "answer_rank qs b = Some i" using known by auto
    then have "qans_id a = qans_id b" using rank_Some by metis
    then show "a = b" using h dist by (meson distinct_map inj_onD)
  qed
  have dn: "distinct ns" using dist by (simp add: distinct_map)
  have d: "distinct (map (answer_rank qs) ?s)" using inj dn by (simp add: distinct_map)
  have sub: "set (map (answer_rank qs) ?s) \<subseteq> set (map Some [0..<length qs])"
    using known rank_Some by fastforce
  have "card (set (map (answer_rank qs) ?s)) = length qs"
    using distinct_card [OF d] len by simp
  then have "set (map (answer_rank qs) ?s) = set (map Some [0..<length qs])"
    using sub by (intro card_subset_eq) (simp_all add: card_image)
  moreover have "sorted (map Some [0..<length qs])"
    by (simp add: sorted_map sorted_wrt_iff_nth_less)
  ultimately have eq: "map (answer_rank qs) ?s = map Some [0..<length qs]"
    using d by (intro sorted_distinct_set_unique) (simp_all add: distinct_map)
  show ?thesis
  proof (rule nth_equalityI)
    fix i assume "i < length (map qans_id ?s)"
    then have i: "i < length ?s" "i < length qs" using len by simp_all
    then have "answer_rank qs (?s ! i) = Some i"
      using eq by (metis add_0 nth_map nth_upt length_upt diff_zero)
    then show "map qans_id ?s ! i = map qst_id qs ! i" using rank_Some i by auto
  qed (simp add: len)
qed

lemma normalize_answers_facts:
  assumes "normalize_answers cx args answers = Inr n"
  shows "length n = length (qargs_questions args)"
    and "map qans_id n = map qst_id (qargs_questions args)"
    and "\<forall>a\<in>set n. \<exists>q. find (\<lambda>q. qst_id q = qans_id a) (qargs_questions args) = Some q \<and> answer_ok q a"
    and "sort_key (answer_rank (qargs_questions args)) n = n"
    and "distinct (map qans_id n)"
proof -
  let ?qs = "qargs_questions args"
  from assms obtain m where m: "length answers = length ?qs" "normalize_each ?qs {} answers = Inr m"
    "n = sort_key (answer_rank ?qs) m"
    by (auto simp: normalize_answers_def Let_def res_simps)
  note f = normalize_each_ok [OF m(2)]
  have len: "length m = length ?qs" using f m(1) by (metis length_map)
  have "\<forall>a\<in>set m. answer_rank ?qs a \<noteq> None"
    using f by (auto simp: answer_rank_def position_None_iff dest!: find_SomeD)
  then show "map qans_id n = map qst_id ?qs" using answers_in_order len f m(3) by blast
  show "length n = length ?qs" using len m(3) by simp
  show "\<forall>a\<in>set n. \<exists>q. find (\<lambda>q. qst_id q = qans_id a) ?qs = Some q \<and> answer_ok q a"
    using f m(3) by simp
  show "sort_key (answer_rank ?qs) n = n" using m(3) by (simp add: sort_key_id_if_sorted)
  have "distinct m" "inj_on qans_id (set m)" using f by (simp_all add: distinct_map)
  then show "distinct (map qans_id n)" using m(3) by (simp add: distinct_map)
qed

subsection \<open>A sample question\<close>

text \<open>One question with two options, the call that asks it, its answer; small payloads.\<close>

definition sample_arguments :: question_arguments where
  "sample_arguments = \<lparr>qargs_questions = [\<lparr>qst_id = ''q'', qst_question = ''Which?'', qst_header = None,
     qst_options = Some [\<lparr>qopt_label = ''x'', qopt_description = None\<rparr>,
                         \<lparr>qopt_label = ''y'', qopt_description = None\<rparr>],
     qst_multi_select = False\<rparr>]\<rparr>"

definition sample_codec :: question_codec where
  "sample_codec = \<lparr>len_json = (\<lambda>_. 64), len_arguments = (\<lambda>_. 64), len_answers = (\<lambda>_. 64),
     len_submission = (\<lambda>_. 64), json_of_answers = (\<lambda>_. JNull),
     arguments_of_json = (\<lambda>_. Some sample_arguments)\<rparr>"

definition sample_identity :: question_identity where
  "sample_identity = \<lparr>qid_session_id = ''s'', qid_turn_id = ''t'', qid_step_id = ''p'',
     qid_request_id = ''r'', qid_call_id = ''c'', qid_question_request_id = ''k''\<rparr>"

definition sample_answers :: "question_answer list" where
  "sample_answers = [\<lparr>qans_id = ''q'', qans_selected = [''x''], qans_custom = None\<rparr>]"

definition sample_submission :: answer_question_input where
  "sample_submission = \<lparr>aqi_identity = sample_identity, aqi_client_operation_id = ''o'',
     aqi_answers = sample_answers\<rparr>"

definition step_event :: "u64 \<Rightarrow> session_event_payload \<Rightarrow> session_event" where
  "step_event n p = new_event ''s'' n 1 (Some ''t'') (Some ''p'') p"

definition sample_snapshot :: request_snapshot where
  "sample_snapshot = RequestSnapshotPrepared ''m'' 1 ''n'' ''d'' 1
     \<lparr>mdef_display_name = None, mdef_context_window = 8192, mdef_max_output_tokens = 1024,
      mdef_request_output_tokens = None, mdef_tool_calling = SupportSupported,
      mdef_text_input = SupportSupported, mdef_image_input = SupportUnsupported, mdef_reasoning = [],
      mdef_compat = \<lparr>compat_protocol = Ollama, compat_cumulative_stream = False,
        compat_supports_stream_usage = True, compat_native_reasoning = False,
        compat_split_reasoning = False, compat_replay_reasoning_content = False,
        compat_think_tag_fallback = False, compat_parallel_tool_calls = False,
        compat_strict_schema = False, compat_preserves_reasoning_across_turns = False,
        compat_reasoning_encoding = EncodingNone, compat_clear_thinking = False,
        compat_default_thinking = False\<rparr>, mdef_vision = None\<rparr>
     ''h'' ''h'' None 1024
     \<lparr>pol_max_attempts = 3, pol_initial_delay_ms = 500, pol_max_delay_ms = 8000,
      pol_max_server_delay_ms = 60000, pol_jitter_ratio = 0\<rparr>
     \<lparr>rto_request_headers_ms = 1000, rto_first_byte_ms = 1000, rto_stream_idle_ms = 1000\<rparr>
     ''h'' 1 ''p'' ''i'' []"

definition sample_header :: "string \<Rightarrow> session_event_payload" where
  "sample_header rid = RequestHeader rid sample_snapshot ''h'' ''m'' ''n'' None ReasonInitial
     \<lparr>ser_series_id = rid, ser_request_index = 0, ser_starts_series = True\<rparr> SnapshotInitial ''h'' [] 0"

definition question_call :: recorded_tool_call where
  "question_call = \<lparr>call_call_id = ''c'', call_provider_call_id = None, call_name = TOOL_NAME,
     call_native_name = None, call_arguments = JNull, call_title = None, call_effect = None,
     call_target = None\<rparr>"

definition sample_questions :: "session_event list" where
  "sample_questions = [step_event 0 (ToolCall question_call),
     step_event 1 (sample_header ''r''),
     step_event 2 (QuestionRequested sample_identity sample_arguments
       \<lparr>smod_route_id = ''m'', smod_model_id = ''n'', smod_reasoning_effort = None,
        smod_route_revision = None\<rparr>),
     step_event 3 (QuestionAnswered sample_submission (replicate 64 CHR ''a''))]"

lemmas sample_question_defs = sample_arguments_def sample_codec_def sample_identity_def
  sample_answers_def sample_submission_def step_event_def question_call_def new_event_def

lemma sample_normalize: "normalize_answers sample_codec sample_arguments sample_answers = Inr sample_answers"
  by (simp add: normalize_answers_def sample_question_defs bounded_def ensure_def MAX_BYTES_def
      ok_or_def normalize_answer_def offers_def check_optional_text_def Let_def)

lemma sample_validate: "validate_arguments sample_codec sample_arguments = Inr ()"
  by (simp add: validate_arguments_def sample_question_defs bounded_def ensure_def MAX_BYTES_def
      check_text_def check_optional_text_def alphanumeric_not_blank alphanumeric_defs)

lemma sample_scope: "validate_scope sample_identity (step_event n p) = Inr ()"
  by (simp add: validate_scope_def validate_identity_def in_scope_def sample_question_defs
      check_text_def ensure_def alphanumeric_not_blank alphanumeric_defs)

lemma append_question_ok:
  "validate_question_transition cx es e = Inr () \<Longrightarrow> append_question_event cx es e = Inr (es @ [e])"
  by (simp add: append_question_event_def)

lemma sample_event_simps [simp]:
  "ev_payload (step_event n p) = p" "ev_step_id (step_event n p) = Some ''p''"
  by (simp_all add: step_event_def new_event_def)

lemma header_request_id_simps [simp]:
  "header_request_id (step_event n (sample_header r)) = Some r"
  by (simp add: header_request_id_def sample_header_def)

lemma sample_parse: "parse_arguments sample_codec v = Inr sample_arguments"
  using sample_validate
  by (simp add: parse_arguments_def bounded_def sample_codec_def MAX_BYTES_def ensure_def ok_or_def)

lemma sample_ask:
  "validate_question_transition sample_codec (take 2 sample_questions) (sample_questions ! 2) = Inr ()"
  using sample_validate sample_scope sample_parse
  by (simp add: sample_questions_def validate_question_transition_def validate_question_payload_def
      question_records_def question_step_def sample_header_def alphanumeric_not_blank alphanumeric_defs
      ensure_def ok_or_def durable_call_def question_call_def sample_identity_def Let_def
      header_request_id_def)

lemma sample_answer:
  "validate_question_transition sample_codec (take 3 sample_questions) (sample_questions ! 3) = Inr ()"
  using sample_scope sample_normalize
  by (simp add: sample_questions_def validate_question_transition_def validate_question_payload_def
      question_records_def question_step_def sample_header_def validate_submission_def
      sample_submission_def validate_identity_def sample_identity_def check_text_def
      bounded_def sample_codec_def MAX_BYTES_def
      alphanumeric_not_blank alphanumeric_defs ensure_def ok_or_def Let_def
      list_all_iff is_ascii_hexdigit_def)

lemma sample_questions_accepted:
  "run_ops (append_question_event sample_codec) [] sample_questions = Inr sample_questions"
proof -
  have "validate_question_transition cx es (step_event n (ToolCall c)) = Inr ()"
    "validate_question_transition cx es (step_event n (sample_header r)) = Inr ()" for cx es n c r
    by (simp_all add: validate_question_transition_def validate_question_payload_def sample_header_def)
  then show ?thesis
    using sample_ask sample_answer
    by (simp add: sample_questions_def append_question_ok)
qed

subsection \<open>Properties of questions\<close>

text \<open>
  A Session asks at most one question at a time: in a log whose question events were
  all accepted, at most one record is open, no record is both answered and cancelled, and
  no request identity and no answer operation is used twice.
\<close>

theorem single_open_question:
  assumes "run_ops (append_question_event cx) [] es = Inr s"
  shows "length (filter open_record (question_records s)) \<le> 1
    \<and> (\<forall>r\<in>set (question_records s). qrec_answer r \<noteq> None \<longrightarrow> \<not> qrec_cancelled r)
    \<and> distinct (request_ids (question_records s)) \<and> distinct (answer_operations (question_records s))"
  using question_log_inv [OF assms] by (simp add: records_inv_def)

theorem single_open_question_witness:
  "run_ops (append_question_event sample_codec) [] sample_questions = Inr sample_questions
    \<and> length (filter open_record (question_records sample_questions)) \<le> 1"
  using single_open_question [OF sample_questions_accepted] sample_questions_accepted by simp

text \<open>
  A settled question stays settled: whatever the log accepts later, the record of an
  answered or cancelled question keeps its answer, its fingerprint and its cancellation.
\<close>

theorem question_settles_once:
  assumes "run_ops (append_question_event cx) [] es = Inr s"
    and "run_ops (append_question_event cx) s xs = Inr s'"
    and "r \<in> set (question_records s)" "\<not> open_record r"
  shows "\<exists>r'\<in>set (question_records s'). qrec_identity r' = qrec_identity r
    \<and> qrec_answer r' = qrec_answer r \<and> qrec_fingerprint r' = qrec_fingerprint r
    \<and> qrec_cancelled r' = qrec_cancelled r"
proof -
  from question_log.run_grows [OF question_log_inv [OF assms(1)] assms(2)] assms(3,4) show ?thesis
    by (force simp: keeps_records_def keeps_record_def)
qed

theorem question_settles_once_witness:
  "\<exists>r\<in>set (question_records sample_questions). qrec_answer r = Some sample_submission"
proof -
  have r: "run_ops (append_question_event sample_codec) sample_questions [] = Inr sample_questions"
    by simp
  show ?thesis
    using question_settles_once [OF sample_questions_accepted r, of "hd (question_records sample_questions)"]
    by (simp add: sample_questions_def question_records_def question_step_def sample_header_def
        open_record_def sample_submission_def)
qed

text \<open>
  C30. A normalised submission answers every question of the card exactly once, in the
  card's order, only with options the question offers, with a single choice where the
  question allows one, and normalising it again changes nothing (so an accepted answer is
  in canonical form).
\<close>

theorem normalize_answers_canonical:
  assumes "normalize_answers cx args answers = Inr n"
  shows "map qans_id n = map qst_id (qargs_questions args)
    \<and> (\<forall>a\<in>set n. \<exists>q\<in>set (qargs_questions args). qst_id q = qans_id a
         \<and> (\<forall>l\<in>set (qans_selected a). offers q l)
         \<and> (\<not> qst_multi_select q \<longrightarrow> length (qans_selected a) \<le> 1)
         \<and> (qans_selected a \<noteq> [] \<or> qans_custom a \<noteq> None))
    \<and> (len_answers cx n \<le> MAX_BYTES \<longrightarrow> normalize_answers cx args n = Inr n)"
proof -
  note f = normalize_answers_facts [OF assms]
  have "len_answers cx n \<le> MAX_BYTES \<Longrightarrow> normalize_answers cx args n = Inr n"
    using normalize_each_fixpoint [OF f(3) f(5), of "{}"] f(1,4)
    by (simp add: normalize_answers_def bounded_def ensure_def)
  moreover have "\<forall>a\<in>set n. \<exists>q\<in>set (qargs_questions args). qst_id q = qans_id a
         \<and> (\<forall>l\<in>set (qans_selected a). offers q l)
         \<and> (\<not> qst_multi_select q \<longrightarrow> length (qans_selected a) \<le> 1)
         \<and> (qans_selected a \<noteq> [] \<or> qans_custom a \<noteq> None)"
    using f(3) by (force simp: answer_ok_def dest: find_SomeD)
  ultimately show ?thesis using f(2) by blast
qed

theorem normalize_answers_canonical_witness:
  "normalize_answers sample_codec sample_arguments sample_answers = Inr sample_answers
    \<and> map qans_id sample_answers = map qst_id (qargs_questions sample_arguments)"
  using normalize_answers_canonical [OF sample_normalize] sample_normalize by simp

end
