(* ===== verification/Tool_Lifecycle.thy ===== *)
theory Tool_Lifecycle
  imports Questions
begin

text \<open>
  The life of a tool call in a Session log (agent\_runtime/session.rs): a call is recorded
  once in its Step, authorised by at most one decision, dispatched at most once and only
  when authorised, and settled by one result, which an uncertain result may precede. The
  store runs these checks on every event it appends, against the events already there.
\<close>

datatype tool_error =
    CallReused
  | DispatchUnauthorized
  | ApprovalNoCall
  | ApprovalRequestStale
  | AutomaticApprovalLate
  | DispatchedCancel
  | DecisionMismatch
  | ResultNoCall
  | QuestionResultMismatch
  | ResultNotAllowed
  | QuestionRefused question_error

definition SKILL_TOOL :: string where
  "SKILL_TOOL = ''skill''"

subsection \<open>The events of one call\<close>

definition step_scope :: "session_event list \<Rightarrow> string option \<Rightarrow> session_event list" where
  "step_scope es st = filter (\<lambda>p. ev_step_id p = st) es"

definition call_of :: "string \<Rightarrow> session_event \<Rightarrow> recorded_tool_call option" where
  "call_of c p = (case ev_payload p of
     ToolCall call \<Rightarrow> if call_call_id call = c then Some call else None | _ \<Rightarrow> None)"

definition approval_of :: "string \<Rightarrow> session_event \<Rightarrow> (string option \<times> approval_status) option" where
  "approval_of c p = (case ev_payload p of
     ToolApproval _ cid aid status _ _ _ _ \<Rightarrow> if cid = c then Some (aid, status) else None
   | _ \<Rightarrow> None)"

definition dispatch_of :: "string \<Rightarrow> session_event \<Rightarrow> string option" where
  "dispatch_of c p = (case ev_payload p of
     ToolExecution cid _ idempotency \<Rightarrow> if cid = c then Some idempotency else None | _ \<Rightarrow> None)"

definition result_of :: "string \<Rightarrow> session_event \<Rightarrow> result_status option" where
  "result_of c p = (case ev_payload p of
     ToolResult cid _ status _ _ _ _ \<Rightarrow> if cid = c then Some status else None | _ \<Rightarrow> None)"

definition calls :: "session_event list \<Rightarrow> string option \<Rightarrow> string \<Rightarrow> recorded_tool_call list" where
  "calls es st c = filter_map (call_of c) (step_scope es st)"

definition approvals ::
  "session_event list \<Rightarrow> string option \<Rightarrow> string \<Rightarrow> (string option \<times> approval_status) list" where
  "approvals es st c = filter_map (approval_of c) (step_scope es st)"

definition dispatches :: "session_event list \<Rightarrow> string option \<Rightarrow> string \<Rightarrow> string list" where
  "dispatches es st c = filter_map (dispatch_of c) (step_scope es st)"

definition results :: "session_event list \<Rightarrow> string option \<Rightarrow> string \<Rightarrow> result_status list" where
  "results es st c = filter_map (result_of c) (step_scope es st)"

text \<open>The loop variables that keep the last match of a scan.\<close>

definition latest :: "'a list \<Rightarrow> 'a option" where
  "latest xs = (if xs = [] then None else Some (last xs))"

subsection \<open>The checks\<close>

definition validate_tool_call ::
  "session_event list \<Rightarrow> session_event \<Rightarrow> recorded_tool_call \<Rightarrow> tool_error + unit" where
  "validate_tool_call es e call =
     ensure (calls es (ev_step_id e) (call_call_id call) = []) CallReused"

definition validate_tool_execution ::
  "session_event list \<Rightarrow> session_event \<Rightarrow> string \<Rightarrow> tool_error + unit" where
  "validate_tool_execution es e c =
     (let approved = (ApprovalApproved \<in> set (map snd (approvals es (ev_step_id e) c)));
          dispatched = (dispatches es (ev_step_id e) c \<noteq> []);
          has_result = (results es (ev_step_id e) c \<noteq> [])
      in ensure (approved \<and> \<not> dispatched \<and> \<not> has_result) DispatchUnauthorized)"

definition validate_tool_approval ::
  "session_event list \<Rightarrow> session_event \<Rightarrow> string \<Rightarrow> string option \<Rightarrow> approval_status \<Rightarrow> u64 option
    \<Rightarrow> tool_error + unit" where
  "validate_tool_approval es e c aid status expires =
     (let has_call = (calls es (ev_step_id e) c \<noteq> []);
          latest_approval = latest (approvals es (ev_step_id e) c);
          has_result = (results es (ev_step_id e) c \<noteq> []);
          decision = ensure (latest_approval = Some (aid, ApprovalRequested)) DecisionMismatch
      in if \<not> has_call \<or> has_result then Inl ApprovalNoCall
         else case status of
           ApprovalRequested \<Rightarrow>
             ensure (latest_approval = None \<and> aid \<noteq> None
               \<and> (case expires of None \<Rightarrow> False | Some x \<Rightarrow> ev_time_unix_ms e < x)) ApprovalRequestStale
         | ApprovalApproved \<Rightarrow>
             if aid = None then ensure (latest_approval = None) AutomaticApprovalLate else decision
         | ApprovalCancelled \<Rightarrow>
             if latest_approval = Some (aid, ApprovalApproved)
             then ensure (dispatches es (ev_step_id e) c = []) DispatchedCancel else decision
         | _ \<Rightarrow> decision)"

definition question_of ::
  "session_event list \<Rightarrow> session_event \<Rightarrow> string \<Rightarrow> question_record option" where
  "question_of es e c = find (\<lambda>q. qid_call_id (qrec_identity q) = c
     \<and> ev_step_id e = Some (qid_step_id (qrec_identity q))) (question_records es)"

definition validate_tool_result ::
  "question_codec \<Rightarrow> session_event list \<Rightarrow> session_event \<Rightarrow> string \<Rightarrow> result_status \<Rightarrow> tool_error + unit" where
  "validate_tool_result cx es e c status =
     (let cs = calls es (ev_step_id e) c;
          is_skill = (case latest cs of None \<Rightarrow> False | Some call \<Rightarrow> call_name call = SKILL_TOOL);
          approval = map_option snd (latest (approvals es (ev_step_id e) c));
          dispatched = (dispatches es (ev_step_id e) c \<noteq> []);
          previous_result = latest (results es (ev_step_id e) c)
      in if cs = [] \<or> (case previous_result of None \<Rightarrow> False
              | Some previous \<Rightarrow> previous \<noteq> ResultUncertain \<or> status = ResultUncertain)
         then Inl ResultNoCall
         else case question_of es e c of
           Some q \<Rightarrow> ensure (matches_result cx q (ev_payload e)) QuestionResultMismatch
         | None \<Rightarrow> ensure (case approval of
               Some ApprovalApproved \<Rightarrow> dispatched
             | Some ApprovalRejected \<Rightarrow> status = ResultRejected
             | Some ApprovalExpired \<Rightarrow> status = ResultTimedOut
             | Some ApprovalCancelled \<Rightarrow> status = ResultCancelled
             | Some ApprovalRequested \<Rightarrow> False
             | None \<Rightarrow> is_skill \<and> status = ResultCancelled
                 \<or> status = ResultRejected \<or> status = ResultFailed) ResultNotAllowed)"

text \<open>The arms of \<open>validate_event_transition\<close> for tool and question events.\<close>

definition validate_tool_transition ::
  "question_codec \<Rightarrow> session_event list \<Rightarrow> session_event \<Rightarrow> tool_error + unit" where
  "validate_tool_transition cx es e = (case ev_payload e of
     ToolCall call \<Rightarrow> validate_tool_call es e call
   | ToolApproval _ c aid status _ _ expires _ \<Rightarrow> validate_tool_approval es e c aid status expires
   | ToolExecution c _ _ \<Rightarrow> validate_tool_execution es e c
   | ToolResult c _ status _ _ _ _ \<Rightarrow> validate_tool_result cx es e c status
   | _ \<Rightarrow> (case validate_question_transition cx es e of
        Inl x \<Rightarrow> Inl (QuestionRefused x) | Inr _ \<Rightarrow> Inr ()))"

definition append_tool_event ::
  "question_codec \<Rightarrow> session_event list \<Rightarrow> session_event \<Rightarrow> tool_error + session_event list" where
  "append_tool_event cx es e = try_bind (validate_tool_transition cx es e) (\<lambda>_. Inr (es @ [e]))"

text \<open>
  \<open>has_uncertain_tool_executions\<close>: the dispatches no definite result has closed, one entry
  per Step and call.
\<close>

definition uncertain_step ::
  "(string option \<times> string) set \<Rightarrow> session_event \<Rightarrow> (string option \<times> string) set" where
  "uncertain_step d e = (case ev_payload e of
     ToolExecution c _ _ \<Rightarrow> insert (ev_step_id e, c) d
   | ToolResult c _ status _ _ _ _ \<Rightarrow>
       if status \<noteq> ResultUncertain then d - {(ev_step_id e, c)} else d
   | _ \<Rightarrow> d)"

definition uncertain_executions :: "session_event list \<Rightarrow> (string option \<times> string) set" where
  "uncertain_executions es = foldl uncertain_step {} es"

definition has_uncertain_tool_executions :: "session_event list \<Rightarrow> bool" where
  "has_uncertain_tool_executions es \<longleftrightarrow> uncertain_executions es \<noteq> {}"

subsection \<open>How one event changes the record of a call\<close>

lemmas call_views = calls_def approvals_def dispatches_def results_def step_scope_def

lemma views_append:
  "calls (es @ [e]) st c = calls es st c @
     (if ev_step_id e = st then case call_of c e of None \<Rightarrow> [] | Some y \<Rightarrow> [y] else [])"
  "approvals (es @ [e]) st c = approvals es st c @
     (if ev_step_id e = st then case approval_of c e of None \<Rightarrow> [] | Some y \<Rightarrow> [y] else [])"
  "dispatches (es @ [e]) st c = dispatches es st c @
     (if ev_step_id e = st then case dispatch_of c e of None \<Rightarrow> [] | Some y \<Rightarrow> [y] else [])"
  "results (es @ [e]) st c = results es st c @
     (if ev_step_id e = st then case result_of c e of None \<Rightarrow> [] | Some y \<Rightarrow> [y] else [])"
  by (simp_all add: call_views split: option.split)

lemma views_empty [simp]:
  "calls [] st c = []" "approvals [] st c = []" "dispatches [] st c = []" "results [] st c = []"
  by (simp_all add: call_views)

lemmas event_views = call_of_def approval_of_def dispatch_of_def result_of_def


lemma latest_simps [simp]:
  "latest [] = None" "latest (xs @ [x]) = Some x" "(latest xs = None) = (xs = [])"
  by (simp_all add: latest_def)

lemma latest_SomeD: "latest xs = Some x \<Longrightarrow> \<exists>ys. xs = ys @ [x]"
  by (cases xs rule: rev_cases) simp_all

subsection \<open>The shape of a call's record\<close>

text \<open>
  The approvals of one call: a request and one decision about it, or an automatic
  approval; an approval that was not dispatched may be cancelled.
\<close>

fun approval_trail :: "(string option \<times> approval_status) list \<Rightarrow> bool" where
  "approval_trail [] = True"
| "approval_trail [(a, s)] =
     (s = ApprovalRequested \<and> a \<noteq> None \<or> s = ApprovalApproved \<and> a = None)"
| "approval_trail [(a, s), (b, t)] = (b = a \<and>
     (s = ApprovalRequested \<and> a \<noteq> None \<and> t \<noteq> ApprovalRequested
      \<or> s = ApprovalApproved \<and> a = None \<and> t = ApprovalCancelled))"
| "approval_trail [(a, s), (b, t), (c, u)] = (b = a \<and> c = a \<and> a \<noteq> None
     \<and> s = ApprovalRequested \<and> t = ApprovalApproved \<and> u = ApprovalCancelled)"
| "approval_trail _ = False"

fun result_trail :: "result_status list \<Rightarrow> bool" where
  "result_trail [] = True"
| "result_trail [r] = True"
| "result_trail [r, s] = (r = ResultUncertain \<and> s \<noteq> ResultUncertain)"
| "result_trail _ = False"

text \<open>The results only the execution of the call can have produced.\<close>

definition execution_result :: "result_status \<Rightarrow> bool" where
  "execution_result r \<longleftrightarrow> r = ResultCompleted \<or> r = ResultUncertain"

definition call_life ::
  "recorded_tool_call list \<Rightarrow> (string option \<times> approval_status) list \<Rightarrow> string list \<Rightarrow> result_status list
    \<Rightarrow> bool" where
  "call_life cs as ds rs \<longleftrightarrow>
     length cs \<le> 1 \<and> approval_trail as \<and> length ds \<le> 1 \<and> result_trail rs
     \<and> (as \<noteq> [] \<longrightarrow> cs \<noteq> []) \<and> (rs \<noteq> [] \<longrightarrow> cs \<noteq> [])
     \<and> (ds \<noteq> [] \<longrightarrow> ApprovalApproved \<in> snd ` set as)"

definition lifecycle_inv :: "session_event list \<Rightarrow> bool" where
  "lifecycle_inv es \<longleftrightarrow>
     (\<forall>st c. call_life (calls es st c) (approvals es st c) (dispatches es st c) (results es st c))"

lemma approval_trail_snoc:
  "approval_trail as \<Longrightarrow> approval_trail (as @ [(a, s)]) \<longleftrightarrow>
     (latest as = None \<and> (s = ApprovalRequested \<and> a \<noteq> None \<or> s = ApprovalApproved \<and> a = None)
      \<or> latest as = Some (a, ApprovalRequested) \<and> s \<noteq> ApprovalRequested
      \<or> latest as = Some (a, ApprovalApproved) \<and> s = ApprovalCancelled)"
  by (induction as rule: approval_trail.induct) (auto simp: latest_def)

lemma result_trail_snoc:
  "result_trail rs \<Longrightarrow> result_trail (rs @ [s]) \<longleftrightarrow>
     (latest rs = None \<or> latest rs = Some ResultUncertain \<and> s \<noteq> ResultUncertain)"
  by (induction rs rule: result_trail.induct) (auto simp: latest_def)

lemma approval_check_trail:
  assumes "validate_tool_approval es e c aid status expires = Inr ()"
    "approval_trail (approvals es (ev_step_id e) c)"
  shows "approval_trail (approvals es (ev_step_id e) c @ [(aid, status)])"
    and "calls es (ev_step_id e) c \<noteq> []" and "results es (ev_step_id e) c = []"
proof -
  show "calls es (ev_step_id e) c \<noteq> []" and "results es (ev_step_id e) c = []"
    using assms(1) by (auto simp: validate_tool_approval_def Let_def split: if_splits)
  show "approval_trail (approvals es (ev_step_id e) c @ [(aid, status)])"
    unfolding approval_trail_snoc [OF assms(2)] using assms(1)
    by (cases status) (auto simp: validate_tool_approval_def Let_def ensure_iff split: if_splits)
qed

lemma result_check:
  assumes "validate_tool_result cx es e c status = Inr ()"
  shows "calls es (ev_step_id e) c \<noteq> []"
    and "latest (results es (ev_step_id e) c) = None
      \<or> latest (results es (ev_step_id e) c) = Some ResultUncertain \<and> status \<noteq> ResultUncertain"
    and "question_of es e c = None \<Longrightarrow> status = ResultCompleted \<or> status = ResultUncertain \<Longrightarrow>
      dispatches es (ev_step_id e) c \<noteq> []"
    and "question_of es e c = Some q \<Longrightarrow> matches_result cx q (ev_payload e)"
  using assms by (auto simp: validate_tool_result_def Let_def ensure_iff
      split: if_splits option.splits approval_status.splits)

lemma call_life_step:
  assumes ok: "validate_tool_transition cx es e = Inr ()" and inv: "lifecycle_inv es"
  shows "call_life (calls (es @ [e]) st c) (approvals (es @ [e]) st c)
     (dispatches (es @ [e]) st c) (results (es @ [e]) st c)"
proof -
  have life: "call_life (calls es st c) (approvals es st c) (dispatches es st c) (results es st c)"
    using inv by (simp add: lifecycle_inv_def)
  show ?thesis
  proof (cases "ev_payload e")
    case (ToolCall call)
    then have v: "calls es (ev_step_id e) (call_call_id call) = []"
      using ok by (simp add: validate_tool_transition_def validate_tool_call_def ensure_iff)
    show ?thesis
    proof (cases "ev_step_id e = st \<and> call_call_id call = c")
      case True
      then show ?thesis using life v ToolCall
        by (auto simp: views_append event_views call_life_def)
    next
      case False
      then show ?thesis using life ToolCall by (auto simp: views_append event_views)
    qed
  next
    case (ToolApproval r cid aid status k s x p)
    then have v: "validate_tool_approval es e cid aid status x = Inr ()"
      using ok by (simp add: validate_tool_transition_def)
    show ?thesis
    proof (cases "ev_step_id e = st \<and> cid = c")
      case True
      then show ?thesis using life approval_check_trail [OF v] ToolApproval
        by (auto simp: views_append event_views call_life_def)
    next
      case False
      then show ?thesis using life ToolApproval by (auto simp: views_append event_views)
    qed
  next
    case (ToolExecution cid s k)
    then have v: "ApprovalApproved \<in> snd ` set (approvals es (ev_step_id e) cid)"
      "dispatches es (ev_step_id e) cid = []"
      using ok by (simp_all add: validate_tool_transition_def validate_tool_execution_def ensure_iff)
    show ?thesis
    proof (cases "ev_step_id e = st \<and> cid = c")
      case True
      then show ?thesis using life v ToolExecution
        by (auto simp: views_append event_views call_life_def)
    next
      case False
      then show ?thesis using life ToolExecution by (auto simp: views_append event_views)
    qed
  next
    case (ToolResult cid n status u d m v)
    then have v: "validate_tool_result cx es e cid status = Inr ()"
      using ok by (simp add: validate_tool_transition_def)
    show ?thesis
    proof (cases "ev_step_id e = st \<and> cid = c")
      case True
      then show ?thesis using life result_check(1,2) [OF v] ToolResult result_trail_snoc
        by (auto simp: views_append event_views call_life_def)
    next
      case False
      then show ?thesis using life ToolResult by (auto simp: views_append event_views)
    qed
  qed (use life in \<open>simp_all add: views_append event_views\<close>)
qed

interpretation tool_log: guarded_machine "append_tool_event cx" lifecycle_inv for cx
proof unfold_locales
  fix s x s'
  assume "lifecycle_inv s" "append_tool_event cx s x = Inr s'"
  then show "lifecycle_inv s'"
    using call_life_step [of cx s x] by (auto simp: append_tool_event_def res_simps lifecycle_inv_def)
qed

lemma lifecycle_inv_empty [simp]: "lifecycle_inv []"
  by (simp add: lifecycle_inv_def call_life_def)

lemma tool_log_inv: "run_ops (append_tool_event cx) [] es = Inr s \<Longrightarrow> lifecycle_inv s"
  using tool_log.run_inv [of "[]" cx es s] by simp

lemma tool_log_is_log: "run_ops (append_tool_event cx) es xs = Inr s \<Longrightarrow> s = es @ xs"
  by (induction xs arbitrary: es) (fastforce simp: append_tool_event_def res_simps)+

lemma tool_log_prefix:
  assumes "run_ops (append_tool_event cx) [] es = Inr s" "i < length s"
  shows "validate_tool_transition cx (take i s) (s ! i) = Inr ()" and "lifecycle_inv (take i s)"
proof -
  have s: "s = es" using tool_log_is_log [OF assms(1)] by simp
  then have "es = take i es @ es ! i # drop (Suc i) es" using assms(2) by (simp add: id_take_nth_drop)
  then have "run_ops (append_tool_event cx) [] (take i es @ es ! i # drop (Suc i) es) = Inr s"
    using assms(1) by simp
  then obtain t where t: "run_ops (append_tool_event cx) [] (take i es) = Inr t"
    "run_ops (append_tool_event cx) t (es ! i # drop (Suc i) es) = Inr s"
    by (auto simp: run_ops_append try_bind_Inr_iff)
  then have "t = take i s" using tool_log_is_log [OF t(1)] s by simp
  then show "validate_tool_transition cx (take i s) (s ! i) = Inr ()" "lifecycle_inv (take i s)"
    using t s tool_log_inv [OF t(1)] by (auto simp: append_tool_event_def res_simps)
qed

lemma trail_refused:
  "approval_trail as \<Longrightarrow> r \<in> snd ` set as \<Longrightarrow> r = ApprovalRejected \<or> r = ApprovalExpired \<Longrightarrow>
    ApprovalApproved \<notin> snd ` set as"
  by (induction as rule: approval_trail.induct) auto

lemma call_life_refused:
  "call_life cs as ds rs \<Longrightarrow> r \<in> snd ` set as \<Longrightarrow> r = ApprovalRejected \<or> r = ApprovalExpired \<Longrightarrow>
    ApprovalApproved \<notin> snd ` set as"
  unfolding call_life_def using trail_refused by blast

lemma result_trail_definite: "result_trail rs \<Longrightarrow> length (filter (\<lambda>r. r \<noteq> ResultUncertain) rs) \<le> 1"
  by (induction rs rule: result_trail.induct) auto

lemma uncertain_executions_snoc [simp]:
  "uncertain_executions (es @ [e]) = uncertain_step (uncertain_executions es) e"
  by (simp add: uncertain_executions_def)

text \<open>The calls that were dispatched and have no definite result.\<close>

definition unsettled :: "session_event list \<Rightarrow> (string option \<times> string) set" where
  "unsettled es = {(st, c). dispatches es st c \<noteq> [] \<and> (\<forall>r\<in>set (results es st c). r = ResultUncertain)}"

lemma unsettled_iff:
  "(st, c) \<in> unsettled es \<longleftrightarrow>
     dispatches es st c \<noteq> [] \<and> (\<forall>r\<in>set (results es st c). r = ResultUncertain)"
  by (simp add: unsettled_def)

lemma uncertain_step_other:
  assumes "ev_step_id e \<noteq> st \<or> dispatch_of c e = None \<and> result_of c e = None"
  shows "(st, c) \<in> uncertain_step d e \<longleftrightarrow> (st, c) \<in> d"
proof (cases "ev_payload e")
  case (ToolExecution cid s k)
  then have "uncertain_step d e = insert (ev_step_id e, cid) d"
    by (simp add: uncertain_step_def)
  moreover have "(st, c) \<noteq> (ev_step_id e, cid)"
    using assms ToolExecution by (auto simp: dispatch_of_def)
  ultimately show ?thesis by (simp only: insert_iff simp_thms)
next
  case (ToolResult cid n status u d' m v)
  then have "uncertain_step d e = (if status \<noteq> ResultUncertain then d - {(ev_step_id e, cid)} else d)"
    by (simp add: uncertain_step_def)
  moreover have "(st, c) \<noteq> (ev_step_id e, cid)"
    using assms ToolResult by (auto simp: result_of_def)
  ultimately show ?thesis
    by (cases "status = ResultUncertain") (simp_all only: if_True if_False simp_thms Diff_iff singleton_iff)
qed (simp_all add: uncertain_step_def)

lemma views_other:
  assumes "ev_step_id e \<noteq> st \<or> dispatch_of c e = None \<and> result_of c e = None"
  shows "dispatches (es @ [e]) st c = dispatches es st c" "results (es @ [e]) st c = results es st c"
  using assms by (auto simp: views_append)

lemma unsettled_step:
  assumes ok: "validate_tool_transition cx es e = Inr ()"
  shows "unsettled (es @ [e]) = uncertain_step (unsettled es) e"
proof -
  have "(st, c) \<in> unsettled (es @ [e]) \<longleftrightarrow> (st, c) \<in> uncertain_step (unsettled es) e" for st c
  proof (cases "ev_step_id e \<noteq> st \<or> dispatch_of c e = None \<and> result_of c e = None")
    case True
    show ?thesis unfolding uncertain_step_other [OF True] unsettled_iff views_other [OF True] by (rule refl)
  next
    case False
    then have st: "st = ev_step_id e" by simp
    show ?thesis
    proof (cases "dispatch_of c e")
      case (Some i)
      then obtain s where p: "ev_payload e = ToolExecution c s i"
        by (cases "ev_payload e") (auto simp: dispatch_of_def split: if_splits)
      have "results es (ev_step_id e) c = []"
        using ok p by (simp add: validate_tool_transition_def validate_tool_execution_def ensure_iff)
      then show ?thesis
        using p by (simp add: st unsettled_iff uncertain_step_def views_append event_views)
    next
      case None
      with False obtain r where "result_of c e = Some r" by auto
      then obtain n u d m v where p: "ev_payload e = ToolResult c n r u d m v"
        by (cases "ev_payload e") (auto simp: result_of_def split: if_splits)
      then show ?thesis by (simp add: st unsettled_iff uncertain_step_def views_append event_views)
    qed
  qed
  then show ?thesis by auto
qed

lemma uncertain_is_unsettled:
  assumes "run_ops (append_tool_event cx) [] es = Inr s"
  shows "uncertain_executions s = unsettled s"
proof -
  have "i \<le> length s \<Longrightarrow> uncertain_executions (take i s) = unsettled (take i s)" for i
  proof (induction i)
    case 0
    then show ?case by (simp add: uncertain_executions_def unsettled_def)
  next
    case (Suc i)
    then have "take (Suc i) s = take i s @ [s ! i]" by (simp add: take_Suc_conv_app_nth)
    then show ?case using Suc unsettled_step [OF tool_log_prefix(1) [OF assms, of i]] by simp
  qed
  from this [of "length s"] show ?thesis by simp
qed

subsection \<open>A sample log\<close>

text \<open>A call, its request and approval, its dispatch, and an uncertain then a definite result.\<close>

definition shell_call :: recorded_tool_call where
  "shell_call = \<lparr>call_call_id = ''c'', call_provider_call_id = None, call_name = ''shell'',
     call_native_name = None, call_arguments = JNull, call_title = None, call_effect = None,
     call_target = None\<rparr>"

definition sample_approval :: "approval_status \<Rightarrow> session_event_payload" where
  "sample_approval s = ToolApproval ''r'' ''c'' (Some ''a'') s None None (Some 9) None"

definition sample_dispatch :: session_event_payload where
  "sample_dispatch = ToolExecution ''c'' Dispatched ''unknown''"

definition sample_result :: "result_status \<Rightarrow> session_event_payload" where
  "sample_result s = ToolResult ''c'' ''shell'' s ''ok'' None None []"

definition sample_calls :: "session_event list" where
  "sample_calls = [step_event 0 (ToolCall shell_call), step_event 1 (sample_approval ApprovalRequested),
     step_event 2 (sample_approval ApprovalApproved), step_event 3 sample_dispatch,
     step_event 4 (sample_result ResultUncertain), step_event 5 (sample_result ResultCompleted)]"

lemmas sample_call_defs = shell_call_def sample_approval_def sample_dispatch_def sample_result_def
  sample_calls_def step_event_def new_event_def

lemmas tool_checks = append_tool_event_def validate_tool_transition_def validate_tool_call_def
  validate_tool_approval_def validate_tool_execution_def validate_tool_result_def
  question_of_def question_records_def question_step_def ensure_def

lemma sample_calls_accepted:
  "run_ops (append_tool_event sample_codec) [] sample_calls = Inr sample_calls"
  by (simp add: sample_call_defs tool_checks call_views event_views latest_def)

text \<open>
  What \<open>validate_tool_execution\<close> does not look at is the latest decision: an approval that
  was cancelled before its dispatch still counts as an approval.
\<close>

lemma cancelled_approval_still_dispatches:
  "run_ops (append_tool_event cx) []
     [step_event 0 (ToolCall shell_call), step_event 1 (sample_approval ApprovalRequested),
      step_event 2 (sample_approval ApprovalApproved), step_event 3 (sample_approval ApprovalCancelled),
      step_event 4 sample_dispatch] \<noteq> Inl x"
  by (simp add: sample_call_defs tool_checks call_views event_views latest_def)

subsection \<open>Properties of tool calls\<close>

text \<open>
  C1. A dispatch is authorised and unique: when a log accepts a tool/execution, the call is
  already recorded in that Step, an approval of it is already recorded and no refusal is,
  nothing was dispatched for it before and no result closed it.
\<close>

theorem dispatch_is_authorized:
  assumes "run_ops (append_tool_event cx) [] es = Inr s" "i < length s"
    and "ev_payload (s ! i) = ToolExecution c x k"
  shows "calls (take i s) (ev_step_id (s ! i)) c \<noteq> []
    \<and> ApprovalApproved \<in> snd ` set (approvals (take i s) (ev_step_id (s ! i)) c)
    \<and> ApprovalRejected \<notin> snd ` set (approvals (take i s) (ev_step_id (s ! i)) c)
    \<and> ApprovalExpired \<notin> snd ` set (approvals (take i s) (ev_step_id (s ! i)) c)
    \<and> dispatches (take i s) (ev_step_id (s ! i)) c = []
    \<and> results (take i s) (ev_step_id (s ! i)) c = []"
proof -
  let ?st = "ev_step_id (s ! i)"
  have v: "ApprovalApproved \<in> snd ` set (approvals (take i s) ?st c)"
    "dispatches (take i s) ?st c = []" "results (take i s) ?st c = []"
    using tool_log_prefix(1) [OF assms(1,2)] assms(3)
    by (simp_all add: validate_tool_transition_def validate_tool_execution_def ensure_iff)
  have life: "call_life (calls (take i s) ?st c) (approvals (take i s) ?st c)
      (dispatches (take i s) ?st c) (results (take i s) ?st c)"
    using tool_log_prefix(2) [OF assms(1,2)] by (simp add: lifecycle_inv_def)
  then have "calls (take i s) ?st c \<noteq> []" using v(1) by (auto simp: call_life_def)
  moreover have "r = ApprovalRejected \<or> r = ApprovalExpired \<Longrightarrow>
      r \<notin> snd ` set (approvals (take i s) ?st c)" for r
    using call_life_refused [OF life] v(1) by blast
  ultimately show ?thesis using v by blast
qed

theorem dispatch_is_authorized_witness:
  "sample_calls ! 3 = step_event 3 sample_dispatch
    \<and> ApprovalApproved \<in> snd ` set (approvals (take 3 sample_calls) (ev_step_id (sample_calls ! 3)) ''c'')"
  using dispatch_is_authorized [OF sample_calls_accepted, of 3 "''c''" Dispatched "''unknown''"]
  by (simp add: sample_calls_def sample_dispatch_def)

text \<open>
  C2. At most once: in an accepted log every call of a Step is recorded once, dispatched at
  most once, settled by at most one definite result, and never dispatched when its
  approval was rejected or expired.
\<close>

theorem tool_runs_at_most_once:
  assumes "run_ops (append_tool_event cx) [] es = Inr s"
  shows "length (calls s st c) \<le> 1 \<and> length (dispatches s st c) \<le> 1
    \<and> length (filter (\<lambda>r. r \<noteq> ResultUncertain) (results s st c)) \<le> 1
    \<and> (ApprovalRejected \<in> snd ` set (approvals s st c) \<or> ApprovalExpired \<in> snd ` set (approvals s st c)
        \<longrightarrow> dispatches s st c = [])"
proof -
  have life: "call_life (calls s st c) (approvals s st c) (dispatches s st c) (results s st c)"
    using tool_log_inv [OF assms] by (simp add: lifecycle_inv_def)
  then have none: "ApprovalApproved \<notin> snd ` set (approvals s st c) \<Longrightarrow> dispatches s st c = []"
    and one: "length (filter (\<lambda>r. r \<noteq> ResultUncertain) (results s st c)) \<le> 1"
    and len: "length (calls s st c) \<le> 1" "length (dispatches s st c) \<le> 1"
    using result_trail_definite unfolding call_life_def by blast+
  have "ApprovalRejected \<in> snd ` set (approvals s st c) \<or> ApprovalExpired \<in> snd ` set (approvals s st c)
        \<Longrightarrow> ApprovalApproved \<notin> snd ` set (approvals s st c)"
    using call_life_refused [OF life] by blast
  with none one len show ?thesis by blast
qed

theorem tool_runs_at_most_once_witness:
  "length (dispatches sample_calls (Some ''p'') ''c'') \<le> 1"
  using tool_runs_at_most_once [OF sample_calls_accepted] by blast

text \<open>
  No success without execution: when a log accepts a completed or uncertain result of
  a call that is not a user question, the call was dispatched before it, and so approved;
  the result of a user question is the one its durable answer or cancellation dictates.
\<close>

theorem success_needs_dispatch:
  assumes "run_ops (append_tool_event cx) [] es = Inr s" "i < length s"
    and "ev_payload (s ! i) = ToolResult c n r u d m v"
  shows "case question_of (take i s) (s ! i) c of
      Some q \<Rightarrow> matches_result cx q (ev_payload (s ! i))
    | None \<Rightarrow> r = ResultCompleted \<or> r = ResultUncertain \<longrightarrow>
        dispatches (take i s) (ev_step_id (s ! i)) c \<noteq> []
        \<and> ApprovalApproved \<in> snd ` set (approvals (take i s) (ev_step_id (s ! i)) c)"
proof -
  have v: "validate_tool_result cx (take i s) (s ! i) c r = Inr ()"
    using tool_log_prefix(1) [OF assms(1,2)] assms(3) by (simp add: validate_tool_transition_def)
  have "dispatches (take i s) (ev_step_id (s ! i)) c \<noteq> [] \<Longrightarrow>
      ApprovalApproved \<in> snd ` set (approvals (take i s) (ev_step_id (s ! i)) c)"
    using tool_log_prefix(2) [OF assms(1,2)] by (auto simp: lifecycle_inv_def call_life_def)
  note approved = this
  show ?thesis
  proof (cases "question_of (take i s) (s ! i) c")
    case None
    then show ?thesis using result_check(3) [OF v None] approved
      unfolding None option.case by blast
  next
    case (Some q)
    then show ?thesis using result_check(4) [OF v Some] by simp
  qed
qed

theorem success_needs_dispatch_witness:
  "question_of (take 5 sample_calls) (sample_calls ! 5) ''c'' = None
    \<and> dispatches (take 5 sample_calls) (Some ''p'') ''c'' \<noteq> []"
  using success_needs_dispatch [OF sample_calls_accepted, of 5 "''c''" "''shell''" ResultCompleted "''ok''" None None "[]"]
  by (simp add: sample_calls_def sample_result_def sample_approval_def sample_dispatch_def
      question_of_def question_records_def question_step_def)

text \<open>
  \<open>has_uncertain_tool_executions\<close> reports exactly the Sessions in which some dispatch
  has no definite result.
\<close>

theorem uncertain_executions_exact:
  assumes "run_ops (append_tool_event cx) [] es = Inr s"
  shows "has_uncertain_tool_executions s \<longleftrightarrow>
    (\<exists>st c. dispatches s st c \<noteq> [] \<and> (\<forall>r\<in>set (results s st c). r = ResultUncertain))"
  unfolding has_uncertain_tool_executions_def uncertain_is_unsettled [OF assms]
  by (auto simp: unsettled_def)

theorem uncertain_executions_exact_witness:
  "\<not> (\<exists>st c. dispatches sample_calls st c \<noteq> [] \<and> (\<forall>r\<in>set (results sample_calls st c). r = ResultUncertain))"
proof -
  have "\<not> has_uncertain_tool_executions sample_calls"
    by (simp add: has_uncertain_tool_executions_def uncertain_executions_def uncertain_step_def
        sample_call_defs)
  then show ?thesis using uncertain_executions_exact [OF sample_calls_accepted] by blast
qed

end
