(* ===== verification/Recovery.thy ===== *)
theory Recovery
  imports Tool_Lifecycle "HOL-Library.Product_Lexorder"
begin

text \<open>
  Recovery of a Session from its log (agent\_runtime/recovery.rs, and
  \<open>has_compaction_in_flight\<close> of compaction.rs): the dispatches that have no durable outcome,
  the restriction on writes they cause, and the checkpoint that says how a Session whose
  process stopped may go on. \<open>redact\<close> stands for the regular expressions of
  \<open>redact_sensitive_text\<close>, which are compiled by a third-party engine.

  A \<open>HashMap\<close> the code iterates over is the association list of its entries in insertion
  order; the sequence numbers the code orders by are distinct in a log, so the order of
  the entries does not show.
\<close>

datatype checkpoint_kind =
    CheckpointIdle
  | OpenModelRequest
  | WaitingApproval
  | WaitingQuestion
  | QuestionContinuation
  | AuthorizedBeforeExecute
  | ExecutionInFlight
  | ToolResultCommitted
  | CompactionInFlight
  | ArtifactIntegrity
  | CheckpointCancelled
  | CheckpointTerminal

record checkpoint =
  cp_kind :: checkpoint_kind
  cp_status :: recovery_status
  cp_summary :: string
  cp_last_committed_seq :: u64
  cp_turn_id :: "string option"
  cp_step_id :: "string option"
  cp_request_id :: "string option"
  cp_call_id :: "string option"
  cp_effect :: "session_effect option"
  cp_idempotency :: "string option"
  cp_tool_name :: "string option"
  cp_command :: "string option"

type_synonym call_key = "string option \<times> string"

subsection \<open>Pending executions\<close>

fun upsert :: "'k \<Rightarrow> 'v \<Rightarrow> ('v \<Rightarrow> 'v) \<Rightarrow> ('k \<times> 'v) list \<Rightarrow> ('k \<times> 'v) list" where
  "upsert k d f [] = [(k, f d)]"
| "upsert k d f ((k', v) # xs) = (if k' = k then (k, f v) # xs else (k', v) # upsert k d f xs)"

definition pending_step ::
  "(call_key \<times> session_event \<times> bool) list \<Rightarrow> session_event \<Rightarrow> (call_key \<times> session_event \<times> bool) list" where
  "pending_step ps e = (case ev_payload e of
     ToolExecution c _ _ \<Rightarrow> AList.update (ev_step_id e, c) (e, False) ps
   | ToolResult c _ status _ _ _ _ \<Rightarrow>
       if status = ResultUncertain
       then map (\<lambda>(k, d, u). (k, d, u \<or> k = (ev_step_id e, c))) ps
       else AList.delete (ev_step_id e, c) ps
   | _ \<Rightarrow> ps)"

definition pending_executions :: "session_event list \<Rightarrow> (call_key \<times> session_event \<times> bool) list" where
  "pending_executions es = foldl pending_step [] es"

definition unresolved_execution_count :: "session_event list \<Rightarrow> nat" where
  "unresolved_execution_count es = length (pending_executions es)"

fun open_turn_scan :: "session_event list \<Rightarrow> string option" where
  "open_turn_scan [] = None"
| "open_turn_scan (e # es) = (case ev_payload e of
     TurnStart \<Rightarrow> ev_turn_id e
   | TurnEnd _ \<Rightarrow> None
   | SessionEnded _ _ \<Rightarrow> None
   | SessionResumed \<Rightarrow> None
   | SubagentRecoveryStarted _ _ _ \<Rightarrow> None
   | _ \<Rightarrow> open_turn_scan es)"

definition open_turn_id :: "session_event list \<Rightarrow> string option" where
  "open_turn_id es = open_turn_scan (rev es)"

definition closes_execution :: "session_event \<Rightarrow> session_event \<Rightarrow> bool" where
  "closes_execution dispatch e = (case ev_payload e of
     TurnEnd _ \<Rightarrow> ev_turn_id e = ev_turn_id dispatch
   | SessionEnded _ _ \<Rightarrow> True
   | SessionResumed \<Rightarrow> True
   | _ \<Rightarrow> False)"

definition execution_writes_restricted :: "session_event list \<Rightarrow> bool" where
  "execution_writes_restricted es \<longleftrightarrow>
     list_ex (\<lambda>(_, dispatch, uncertain). uncertain
        \<or> list_ex (closes_execution dispatch)
            (takeWhile (\<lambda>e. ev_seq dispatch < ev_seq e) (rev es))) (pending_executions es)"

definition observation_effect_allowed :: "session_effect \<Rightarrow> bool" where
  "observation_effect_allowed x \<longleftrightarrow> x = EffectNone \<or> x = EffectReadOnly \<or> x = EffectSensitiveRead"

text \<open>\<open>max_by_key\<close>: the last entry with the greatest key.\<close>

fun max_by_key :: "('a \<Rightarrow> 'b::linorder) \<Rightarrow> 'a list \<Rightarrow> 'a option" where
  "max_by_key f [] = None"
| "max_by_key f (x # xs) = (case max_by_key f xs of
     None \<Rightarrow> Some x | Some y \<Rightarrow> if f y < f x then Some x else Some y)"

definition same_scope :: "session_event \<Rightarrow> session_event \<Rightarrow> bool" where
  "same_scope e d \<longleftrightarrow> ev_step_id e = ev_step_id d \<and> ev_turn_id e = ev_turn_id d"

definition approval_request_id :: "string \<Rightarrow> session_event \<Rightarrow> string option" where
  "approval_request_id c e = (case ev_payload e of
     ToolApproval rid cid _ _ _ _ _ _ \<Rightarrow> if cid = c then Some rid else None | _ \<Rightarrow> None)"

definition last_seq :: "session_event list \<Rightarrow> u64" where
  "last_seq es = (if es = [] then 0 else ev_seq (last es))"

definition unresolved_execution ::
  "(string \<Rightarrow> string) \<Rightarrow> session_event list \<Rightarrow> checkpoint option" where
  "unresolved_execution redact es =
     Option.bind (max_by_key (\<lambda>(_, d, _). ev_seq d) (pending_executions es)) (\<lambda>((_, c), d, uncertain).
       let call = find_map (\<lambda>e. if same_scope e d then call_of c e else None) (rev es) in
       case ev_payload d of
         ToolExecution _ _ idempotency \<Rightarrow> Some
           \<lparr>cp_kind = ExecutionInFlight,
            cp_status = RecoveryRequired,
            cp_summary = (if uncertain
              then ''The visible terminal reported an explicit uncertain outcome; reconcile it before continuing.''
              else ''A native call was dispatched without a durable result; its outcome is uncertain.''),
            cp_last_committed_seq = last_seq es,
            cp_turn_id = ev_turn_id d,
            cp_step_id = ev_step_id d,
            cp_request_id = find_map (\<lambda>e. if same_scope e d then approval_request_id c e else None) (rev es),
            cp_call_id = Some c,
            cp_effect = Option.bind call call_effect,
            cp_idempotency = Some idempotency,
            cp_tool_name = map_option call_name call,
            cp_command = map_option redact
              (Option.bind call (\<lambda>x. Option.bind (json_get ''command'' (call_arguments x)) json_as_str))\<rparr>
       | _ \<Rightarrow> None)"

subsection \<open>The scan of the open Turn\<close>

record tool_boundary =
  tb_turn_id :: "string option"
  tb_step_id :: "string option"
  tb_last_seq :: u64
  tb_request_id :: "string option"
  tb_effect :: "session_effect option"
  tb_approval :: "approval_status option"
  tb_dispatched :: "string option"
  tb_has_result :: bool
  tb_uncertain_result :: bool

definition default_boundary :: tool_boundary where
  "default_boundary = \<lparr>tb_turn_id = None, tb_step_id = None, tb_last_seq = 0, tb_request_id = None,
     tb_effect = None, tb_approval = None, tb_dispatched = None, tb_has_result = False,
     tb_uncertain_result = False\<rparr>"

record recovery_scan =
  sc_status :: session_status
  sc_ended :: bool
  sc_turn_id :: "string option"
  sc_step_id :: "string option"
  sc_open_request :: "string option"
  sc_request_finished :: bool
  sc_tools :: "(string \<times> tool_boundary) list"
  sc_task_recovery :: "recovery_state option"

definition initial_scan :: recovery_scan where
  "initial_scan = \<lparr>sc_status = StatusIdle, sc_ended = False, sc_turn_id = None, sc_step_id = None,
     sc_open_request = None, sc_request_finished = False, sc_tools = [], sc_task_recovery = None\<rparr>"

definition on_tool ::
  "string \<Rightarrow> (tool_boundary \<Rightarrow> tool_boundary) \<Rightarrow> recovery_scan \<Rightarrow> recovery_scan" where
  "on_tool c f s = s\<lparr>sc_tools := upsert c default_boundary f (sc_tools s)\<rparr>"

definition scan_step :: "recovery_scan \<Rightarrow> session_event \<Rightarrow> recovery_scan" where
  "scan_step s e = (case ev_payload e of
     SessionResumed \<Rightarrow> initial_scan
   | SubagentRecoveryStarted _ _ _ \<Rightarrow> initial_scan
   | AgentStatus st _ \<Rightarrow> s\<lparr>sc_status := st\<rparr>
   | SessionEnded st _ \<Rightarrow> s\<lparr>sc_status := st, sc_ended := True\<rparr>
   | TurnStart \<Rightarrow> s\<lparr>sc_turn_id := ev_turn_id e\<rparr>
   | TurnEnd _ \<Rightarrow> s\<lparr>sc_turn_id := None, sc_step_id := None, sc_open_request := None,
       sc_request_finished := False, sc_tools := []\<rparr>
   | StepStart \<Rightarrow> s\<lparr>sc_step_id := ev_step_id e, sc_open_request := None,
       sc_request_finished := False, sc_tools := []\<rparr>
   | StepEnd _ \<Rightarrow> s\<lparr>sc_step_id := None\<rparr>
   | RequestHeader rid _ _ _ _ _ _ _ _ _ _ _ \<Rightarrow> s\<lparr>sc_open_request := Some rid, sc_request_finished := False\<rparr>
   | RequestStart rid _ _ _ _ _ _ _ \<Rightarrow> s\<lparr>sc_open_request := Some rid, sc_request_finished := False\<rparr>
   | RequestUsage rid _ _ \<Rightarrow>
       if sc_open_request s = Some rid then s\<lparr>sc_request_finished := True\<rparr> else s
   | ToolCall call \<Rightarrow> on_tool (call_call_id call) (\<lambda>b. b\<lparr>tb_turn_id := ev_turn_id e,
       tb_step_id := ev_step_id e, tb_effect := call_effect call, tb_last_seq := ev_seq e\<rparr>) s
   | ToolApproval rid c _ st _ _ _ _ \<Rightarrow> on_tool c (\<lambda>b. b\<lparr>tb_request_id := Some rid,
       tb_approval := Some st, tb_last_seq := ev_seq e\<rparr>) s
   | ToolExecution c _ idempotency \<Rightarrow> on_tool c (\<lambda>b. b\<lparr>tb_dispatched := Some idempotency,
       tb_last_seq := ev_seq e\<rparr>) s
   | ToolResult c _ st _ _ _ _ \<Rightarrow>
       if ev_turn_id e = sc_turn_id s
       then on_tool c (\<lambda>b. b\<lparr>tb_has_result := (st \<noteq> ResultUncertain),
         tb_uncertain_result := (st = ResultUncertain), tb_last_seq := ev_seq e\<rparr>) s
       else s
   | TaskState _ _ _ recovery _ \<Rightarrow> s\<lparr>sc_task_recovery := recovery\<rparr>
   | _ \<Rightarrow> s)"

definition recovery_scan_of :: "session_event list \<Rightarrow> recovery_scan" where
  "recovery_scan_of es = foldl scan_step initial_scan es"

text \<open>\<open>has_compaction_in_flight\<close>: compactions by identity, and the count of those without one.\<close>

definition compaction_step :: "string set \<times> nat \<Rightarrow> session_event \<Rightarrow> string set \<times> nat" where
  "compaction_step = (\<lambda>(open_ids, legacy) e. case ev_payload e of
     CompactionStart _ cid \<Rightarrow>
       (case cid of Some i \<Rightarrow> (insert i open_ids, legacy) | None \<Rightarrow> (open_ids, legacy + 1))
   | CompactionEnd _ _ _ cid _ _ \<Rightarrow>
       (case cid of Some i \<Rightarrow> (open_ids - {i}, legacy) | None \<Rightarrow> (open_ids, legacy - 1))
   | SessionResumed \<Rightarrow> ({}, 0)
   | SubagentRecoveryStarted _ _ _ \<Rightarrow> ({}, 0)
   | _ \<Rightarrow> (open_ids, legacy))"

definition has_compaction_in_flight :: "session_event list \<Rightarrow> bool" where
  "has_compaction_in_flight es \<longleftrightarrow>
     (case foldl compaction_step ({}, 0) es of (open_ids, legacy) \<Rightarrow> open_ids \<noteq> {} \<or> 0 < legacy)"

subsection \<open>The checkpoint\<close>

definition make_checkpoint ::
  "session_event list \<Rightarrow> recovery_scan \<Rightarrow> checkpoint_kind \<Rightarrow> recovery_status \<Rightarrow> string \<Rightarrow> string option
    \<Rightarrow> string option \<Rightarrow> session_effect option \<Rightarrow> string option \<Rightarrow> checkpoint" where
  "make_checkpoint es s kind status summary rid cid eff idem =
     \<lparr>cp_kind = kind, cp_status = status, cp_summary = summary, cp_last_committed_seq = last_seq es,
      cp_turn_id = sc_turn_id s, cp_step_id = sc_step_id s, cp_request_id = rid, cp_call_id = cid,
      cp_effect = eff, cp_idempotency = idem, cp_tool_name = None, cp_command = None\<rparr>"

definition needs_reconciling :: "recovery_state \<Rightarrow> bool" where
  "needs_reconciling r \<longleftrightarrow> rcv_status r = RecoveryRequired \<or> rcv_status r = RecoveryReconciling"

definition summary_holds :: "(string \<Rightarrow> bool) \<Rightarrow> recovery_state \<Rightarrow> bool" where
  "summary_holds P r = (case rcv_summary r of None \<Rightarrow> False | Some x \<Rightarrow> P x)"

definition summary_or :: "string \<Rightarrow> recovery_state \<Rightarrow> string" where
  "summary_or d r = (case rcv_summary r of None \<Rightarrow> d | Some x \<Rightarrow> x)"

definition filter_option :: "('a \<Rightarrow> bool) \<Rightarrow> 'a option \<Rightarrow> 'a option" where
  "filter_option P x = (case x of None \<Rightarrow> None | Some a \<Rightarrow> if P a then Some a else None)"

definition current_question :: "session_event list \<Rightarrow> recovery_scan \<Rightarrow> question_record option" where
  "current_question es s = find (\<lambda>q. sc_turn_id s = Some (qid_turn_id (qrec_identity q))
     \<and> Option.bind (find is_step_start (rev es)) ev_step_id = Some (qid_step_id (qrec_identity q)))
       (rev (question_records es))"

definition boundary_rank :: "string \<times> tool_boundary \<Rightarrow> bool \<times> bool \<times> int" where
  "boundary_rank = (\<lambda>(_, b). (tb_has_result b, tb_dispatched b = None, - uint (tb_last_seq b)))"

text \<open>The loop over the ordered tools: the first boundary that decides.\<close>

fun tool_checkpoint ::
  "session_event list \<Rightarrow> recovery_scan \<Rightarrow> (string \<times> tool_boundary) list \<Rightarrow> checkpoint option" where
  "tool_checkpoint es s [] = None"
| "tool_checkpoint es s ((c, b) # bs) =
     (if tb_has_result b then
        (case filter_option (\<lambda>r. rcv_status r = RecoveryRequired
             \<and> summary_holds (starts_with ''toolSchedulerFailure:'') r) (sc_task_recovery s) of
           Some r \<Rightarrow> Some (make_checkpoint es s OpenModelRequest RecoveryRequired (summary_or [] r)
             None None None None)
         | None \<Rightarrow> Some (make_checkpoint es s ToolResultCommitted RecoveryAvailable
             ''The native result is durable; continuation may resume without re-execution.''
             (tb_request_id b) (Some c) (tb_effect b) (tb_dispatched b)))
      else if tb_dispatched b \<noteq> None then
        Some ((make_checkpoint es s ExecutionInFlight RecoveryRequired
          (if tb_uncertain_result b
           then ''The visible terminal reported an explicit uncertain outcome; reconcile it before continuing.''
           else ''A native call was dispatched without a durable result; its outcome is uncertain.'')
          (tb_request_id b) (Some c) (tb_effect b) (tb_dispatched b))
            \<lparr>cp_turn_id := tb_turn_id b, cp_step_id := tb_step_id b\<rparr>)
      else if tb_approval b = Some ApprovalApproved then
        Some (make_checkpoint es s AuthorizedBeforeExecute RecoveryAvailable
          ''Authorization is durable and no dispatch marker exists; explicit resume is safe.''
          (tb_request_id b) (Some c) (tb_effect b) None)
      else if tb_approval b = Some ApprovalRequested then
        Some (make_checkpoint es s WaitingApproval RecoveryNone
          ''The approval request is durable and remains pending.''
          (tb_request_id b) (Some c) (tb_effect b) None)
      else tool_checkpoint es s bs)"

definition question_checkpoint ::
  "session_event list \<Rightarrow> recovery_scan \<Rightarrow> checkpoint option" where
  "question_checkpoint es s =
     (case (question_queue es, filter_option needs_reconciling (sc_task_recovery s)) of
        (Some _, Some r) \<Rightarrow> Some (make_checkpoint es s OpenModelRequest (rcv_status r)
          (summary_or ''Question queue requires reconciliation.'' r) (sc_open_request s) None None None)
      | _ \<Rightarrow>
        (case current_question es s of
           Some q \<Rightarrow> Some (make_checkpoint es s
             (if open_record q then WaitingQuestion else QuestionContinuation) RecoveryAvailable
             (if open_record q then ''Waiting for a durable user answer; no approval timeout applies.''
              else ''Continue the original tool queue from its committed question answer.'')
             (Some (qid_request_id (qrec_identity q))) (Some (qid_call_id (qrec_identity q))) None None)
         | None \<Rightarrow> map_option (\<lambda>(_, _, request). make_checkpoint es s QuestionContinuation
             RecoveryAvailable
             ''Resume the committed assistant question queue without repeating completed tools.''
             (Some request) None None None) (question_queue es)))"

definition native_unresolved :: "recovery_scan \<Rightarrow> bool" where
  "native_unresolved s \<longleftrightarrow> list_ex (\<lambda>(_, b). \<not> tb_has_result b
     \<and> (tb_dispatched b \<noteq> None \<or> tb_approval b \<noteq> None)) (sc_tools s)"

text \<open>What the code does once no dispatch is unresolved.\<close>

definition settled_checkpoint :: "session_event list \<Rightarrow> checkpoint" where
  "settled_checkpoint es =
     (let s = recovery_scan_of es in
      if sc_ended s then make_checkpoint es s CheckpointTerminal RecoveryNone
        ''Session reached a durable terminal event.'' None None None None
      else if sc_status s = StatusCancelled then make_checkpoint es s CheckpointCancelled RecoveryNone
        ''Session cancellation is durable.'' None None None None
      else if has_compaction_in_flight es then make_checkpoint es s CompactionInFlight RecoveryRequired
        ''Compaction did not reach a durable end marker.'' None None None None
      else case filter_option (\<lambda>r. needs_reconciling r \<and> summary_holds (contains_text ''Artifact'') r)
          (sc_task_recovery s) of
        Some r \<Rightarrow> make_checkpoint es s ArtifactIntegrity (rcv_status r)
          (summary_or ''Artifact integrity recovery is required.'' r) None None None None
      | None \<Rightarrow>
       (case (if native_unresolved s then None else question_checkpoint es s) of
          Some cp \<Rightarrow> cp
        | None \<Rightarrow>
         (case tool_checkpoint es s (sort_key boundary_rank (sc_tools s)) of
            Some cp \<Rightarrow> cp
          | None \<Rightarrow>
            if sc_turn_id s \<noteq> None \<and> (\<not> sc_request_finished s \<or> sc_step_id s \<noteq> None)
               \<and> sc_open_request s \<noteq> None
            then make_checkpoint es s OpenModelRequest RecoveryAvailable
              ''The Model Step can be retried from the last committed Model Surface.''
              (sc_open_request s) None None None
            else make_checkpoint es s CheckpointIdle RecoveryNone
              ''No recovery action is pending.'' None None None None)))"

definition derive_recovery_checkpoint ::
  "(string \<Rightarrow> string) \<Rightarrow> session_event list \<Rightarrow> checkpoint" where
  "derive_recovery_checkpoint redact es =
     (case unresolved_execution redact es of Some cp \<Rightarrow> cp | None \<Rightarrow> settled_checkpoint es)"

subsection \<open>Pending executions and uncertain executions agree\<close>

definition dispatches_key :: "session_event \<Rightarrow> call_key \<Rightarrow> bool" where
  "dispatches_key e k \<longleftrightarrow> ev_step_id e = fst k
     \<and> (\<exists>status idem. ev_payload e = ToolExecution (snd k) status idem)"

lemma pending_keys: "fst ` set (pending_step ps e) = uncertain_step (fst ` set ps) e"
proof (cases "ev_payload e")
  case (ToolExecution c st i)
  then show ?thesis by (simp add: pending_step_def uncertain_step_def dom_update)
next
  case (ToolResult c n st u d m v)
  then show ?thesis by (force simp: pending_step_def uncertain_step_def AList.delete_eq)
qed (simp_all add: pending_step_def uncertain_step_def)

lemma pending_foldl: "fst ` set (foldl pending_step ps es) = foldl uncertain_step (fst ` set ps) es"
  by (induction es arbitrary: ps) (simp_all add: pending_keys)

lemma pending_is_uncertain: "fst ` set (pending_executions es) = uncertain_executions es"
  by (simp add: pending_executions_def uncertain_executions_def pending_foldl)

lemma set_alist_update: "set (AList.update k v ps) \<subseteq> insert (k, v) (set ps)"
  by (induction ps) auto

lemma pending_entry_step:
  assumes "\<forall>(k, d, u)\<in>set ps. d \<in> S \<and> dispatches_key d k" "e \<in> S"
  shows "\<forall>(k, d, u)\<in>set (pending_step ps e). d \<in> S \<and> dispatches_key d k"
proof (cases "ev_payload e")
  case (ToolExecution c st i)
  then have "pending_step ps e = AList.update (ev_step_id e, c) (e, False) ps"
    by (simp add: pending_step_def)
  moreover have "dispatches_key e (ev_step_id e, c)"
    using ToolExecution by (simp add: dispatches_key_def)
  ultimately show ?thesis using assms set_alist_update [of "(ev_step_id e, c)" "(e, False)" ps]
    by fastforce
next
  case (ToolResult c n st u d m v)
  then show ?thesis using assms by (auto simp: pending_step_def AList.delete_eq)
qed (use assms in \<open>simp_all add: pending_step_def\<close>)

lemma pending_entries:
  "(k, d, u) \<in> set (pending_executions es) \<Longrightarrow> d \<in> set es \<and> dispatches_key d k"
proof -
  have "\<forall>(k, d, u)\<in>set ps. d \<in> set es \<and> dispatches_key d k \<Longrightarrow> set xs \<subseteq> set es \<Longrightarrow>
      \<forall>(k, d, u)\<in>set (foldl pending_step ps xs). d \<in> set es \<and> dispatches_key d k" for ps xs
  proof (induction xs arbitrary: ps)
    case (Cons a xs)
    then have "\<forall>(k, d, u)\<in>set (pending_step ps a). d \<in> set es \<and> dispatches_key d k"
      by (intro pending_entry_step) simp_all
    from Cons.IH [OF this] Cons.prems(2) show ?case by simp
  qed simp
  from this [of "[]" es] show "(k, d, u) \<in> set (pending_executions es) \<Longrightarrow> ?thesis"
    by (auto simp: pending_executions_def)
qed

lemma max_by_key_Some: "max_by_key f xs = Some x \<Longrightarrow> x \<in> set xs \<and> (\<forall>y\<in>set xs. f y \<le> f x)"
proof (induction xs arbitrary: x)
  case (Cons a xs)
  show ?case
  proof (cases "max_by_key f xs")
    case None
    then have "xs = []" by (cases xs) (auto split: option.splits if_splits)
    then show ?thesis using Cons.prems by simp
  next
    case (Some y)
    with Cons.IH [OF Some] Cons.prems show ?thesis by (auto split: if_splits)
  qed
qed simp

lemma max_by_key_None: "max_by_key f xs = None \<longleftrightarrow> xs = []"
  by (cases xs) (auto split: option.splits)

subsection \<open>What a checkpoint says\<close>

lemma unresolved_execution_None:
  "unresolved_execution redact es = None \<longleftrightarrow> uncertain_executions es = {}"
proof -
  have "unresolved_execution redact es \<noteq> None" if ne: "pending_executions es \<noteq> []"
  proof -
    obtain k d u where m: "max_by_key (\<lambda>(_, d, _). ev_seq d) (pending_executions es) = Some (k, d, u)"
      using ne max_by_key_None by (metis option.exhaust prod_cases3)
    then have "dispatches_key d k" using max_by_key_Some [OF m] pending_entries by blast
    then obtain st i where "ev_payload d = ToolExecution (snd k) st i" by (auto simp: dispatches_key_def)
    then show ?thesis using m by (cases k) (simp add: unresolved_execution_def Let_def)
  qed
  moreover have "pending_executions es = [] \<Longrightarrow> unresolved_execution redact es = None"
    by (simp add: unresolved_execution_def)
  moreover have "pending_executions es = [] \<longleftrightarrow> uncertain_executions es = {}"
    using pending_is_uncertain [of es] by auto
  ultimately show ?thesis by blast
qed

lemma unresolved_execution_Some:
  assumes "unresolved_execution redact es = Some cp"
  shows "cp_kind cp = ExecutionInFlight" "cp_status cp = RecoveryRequired"
    "\<exists>c d. cp_call_id cp = Some c \<and> d \<in> set es \<and> dispatches_key d (cp_step_id cp, c)
      \<and> (cp_step_id cp, c) \<in> uncertain_executions es
      \<and> (\<forall>(k, d', u)\<in>set (pending_executions es). ev_seq d' \<le> ev_seq d)"
proof -
  obtain st c d u where m: "max_by_key (\<lambda>(_, d, _). ev_seq d) (pending_executions es) = Some ((st, c), d, u)"
    using assms by (cases "max_by_key (\<lambda>(_, d, _). ev_seq d) (pending_executions es)")
      (auto simp: unresolved_execution_def)
  note mx = max_by_key_Some [OF m]
  then have d: "d \<in> set es" "dispatches_key d (st, c)" using pending_entries by blast+
  then obtain s i where p: "ev_payload d = ToolExecution c s i" and st: "ev_step_id d = st"
    by (auto simp: dispatches_key_def)
  have cp: "cp_kind cp = ExecutionInFlight" "cp_status cp = RecoveryRequired" "cp_call_id cp = Some c"
    "cp_step_id cp = st"
    using assms m p st by (auto simp: unresolved_execution_def Let_def)
  have "(st, c) \<in> uncertain_executions es"
    using mx unfolding pending_is_uncertain [symmetric] by force
  then show "cp_kind cp = ExecutionInFlight" "cp_status cp = RecoveryRequired"
    "\<exists>c d. cp_call_id cp = Some c \<and> d \<in> set es \<and> dispatches_key d (cp_step_id cp, c)
      \<and> (cp_step_id cp, c) \<in> uncertain_executions es
      \<and> (\<forall>(k, d', u)\<in>set (pending_executions es). ev_seq d' \<le> ev_seq d)"
    using cp d mx by auto
qed

lemma map_of_upsert:
  "map_of (upsert k d f xs) k' =
     (if k' = k then Some (f (case map_of xs k of None \<Rightarrow> d | Some v \<Rightarrow> v)) else map_of xs k')"
  by (induction xs) auto

lemma upsert_keys: "set (map fst (upsert k d f xs)) = insert k (set (map fst xs))"
proof (induction xs)
  case (Cons x xs)
  then show ?case by (cases x) (simp add: insert_commute)
qed simp

lemma distinct_upsert: "distinct (map fst xs) \<Longrightarrow> distinct (map fst (upsert k d f xs))"
proof (induction xs)
  case (Cons x xs)
  obtain a b where x: "x = (a, b)" by (cases x)
  show ?case
  proof (cases "a = k")
    case False
    then have "a \<notin> set (map fst (upsert k d f xs))"
      using Cons.prems x unfolding upsert_keys by simp
    then show ?thesis using Cons x False by simp
  qed (use Cons x in simp)
qed simp

text \<open>The events since the boundaries of the open Step were last forgotten.\<close>

definition clears_tools :: "session_event \<Rightarrow> bool" where
  "clears_tools e = (case ev_payload e of SessionResumed \<Rightarrow> True | SubagentRecoveryStarted _ _ _ \<Rightarrow> True
     | TurnEnd _ \<Rightarrow> True | StepStart \<Rightarrow> True | _ \<Rightarrow> False)"

definition tool_window :: "session_event list \<Rightarrow> session_event list" where
  "tool_window es = rev (takeWhile (\<lambda>e. \<not> clears_tools e) (rev es))"

lemma tool_window_snoc:
  "tool_window (es @ [e]) = (if clears_tools e then [] else tool_window es @ [e])"
  by (simp add: tool_window_def)

lemma recovery_scan_snoc [simp]: "recovery_scan_of (es @ [e]) = scan_step (recovery_scan_of es) e"
  by (simp add: recovery_scan_of_def)

definition tool_facts :: "session_event list \<Rightarrow> string \<Rightarrow> tool_boundary option \<Rightarrow> bool" where
  "tool_facts w c b \<longleftrightarrow> (case b of
     None \<Rightarrow> (\<forall>e\<in>set w. dispatch_of c e = None)
   | Some t \<Rightarrow> (tb_dispatched t = None \<longrightarrow> (\<forall>e\<in>set w. dispatch_of c e = None))
       \<and> (tb_approval t = Some ApprovalApproved \<longrightarrow>
            (\<exists>e\<in>set w. \<exists>a. approval_of c e = Some (a, ApprovalApproved))))"

lemma tool_facts_same:
  "tool_facts w c b \<Longrightarrow> dispatch_of c e = None \<Longrightarrow> tool_facts (w @ [e]) c b"
  by (auto simp: tool_facts_def split: option.splits)

lemma tool_facts_on_tool:
  assumes "tool_facts w c (map_of (sc_tools s) c)"
    and "\<And>b. tb_dispatched (f b) = None \<Longrightarrow> tb_dispatched b = None \<and> dispatch_of i e = None"
    and "\<And>b. tb_approval (f b) = tb_approval b
      \<or> (\<exists>a st. tb_approval (f b) = Some st \<and> approval_of i e = Some (a, st))"
    and "c \<noteq> i \<Longrightarrow> dispatch_of c e = None"
  shows "tool_facts (w @ [e]) c (map_of (sc_tools (on_tool i f s)) c)"
proof (cases "c = i")
  case False
  then show ?thesis using assms(1,4) by (simp add: on_tool_def map_of_upsert tool_facts_same)
next
  case True
  have a: "map_of (sc_tools (on_tool i f s)) i =
      Some (f (case map_of (sc_tools s) i of None \<Rightarrow> default_boundary | Some v \<Rightarrow> v))"
    by (simp add: on_tool_def map_of_upsert)
  show ?thesis
  proof (cases "map_of (sc_tools s) i")
    case None
    then show ?thesis using assms(1) assms(2) [of default_boundary] assms(3) [of default_boundary] True
      unfolding True a by (auto simp: tool_facts_def default_boundary_def)
  next
    case (Some t)
    then show ?thesis using assms(1) assms(2) [of t] assms(3) [of t] True
      unfolding True a by (auto simp: tool_facts_def)
  qed
qed

lemma tools_track_window: "tool_facts (tool_window es) c (map_of (sc_tools (recovery_scan_of es)) c)"
proof (induction es rule: rev_induct)
  case Nil
  then show ?case by (simp add: tool_facts_def tool_window_def recovery_scan_of_def initial_scan_def)
next
  case (snoc e es)
  show ?case
  proof (cases "ev_payload e")
    case (ToolCall call)
    then show ?thesis
      by (auto simp: tool_window_snoc clears_tools_def scan_step_def dispatch_of_def approval_of_def
          intro!: tool_facts_on_tool [OF snoc] tool_facts_same [OF snoc])
  next
    case (ToolApproval r i a st k s x p)
    then show ?thesis
      by (auto simp: tool_window_snoc clears_tools_def scan_step_def dispatch_of_def approval_of_def
          intro!: tool_facts_on_tool [OF snoc] tool_facts_same [OF snoc])
  next
    case (ToolExecution i st k)
    then show ?thesis
      by (auto simp: tool_window_snoc clears_tools_def scan_step_def dispatch_of_def approval_of_def
          intro!: tool_facts_on_tool [OF snoc] tool_facts_same [OF snoc])
  next
    case (ToolResult i n st u d m v)
    then show ?thesis
      by (auto simp: tool_window_snoc clears_tools_def scan_step_def dispatch_of_def approval_of_def
          intro!: tool_facts_on_tool [OF snoc] tool_facts_same [OF snoc])
  qed (use snoc tool_facts_same [OF snoc] in
      \<open>simp_all add: tool_window_snoc clears_tools_def scan_step_def dispatch_of_def initial_scan_def
        tool_facts_def\<close>)
qed

lemma tools_distinct: "distinct (map fst (sc_tools (recovery_scan_of es)))"
proof (induction es rule: rev_induct)
  case (snoc e es)
  then show ?case
    by (cases "ev_payload e")
      (simp_all add: scan_step_def on_tool_def distinct_upsert initial_scan_def)
qed (simp add: recovery_scan_of_def initial_scan_def)

subsection \<open>Which checkpoint resumes\<close>

lemma tool_checkpoint_kind:
  assumes "tool_checkpoint es s bs = Some cp" "cp_kind cp = AuthorizedBeforeExecute"
  shows "\<exists>c b. (c, b) \<in> set bs \<and> cp_call_id cp = Some c \<and> tb_dispatched b = None
    \<and> tb_approval b = Some ApprovalApproved"
  using assms
  by (induction es s bs rule: tool_checkpoint.induct)
    (auto simp: make_checkpoint_def split: if_splits option.splits)

lemma question_checkpoint_kind:
  "question_checkpoint es s = Some cp \<Longrightarrow> cp_kind cp \<noteq> AuthorizedBeforeExecute"
  by (auto simp: question_checkpoint_def make_checkpoint_def split: option.splits if_splits)

lemma settled_checkpoint_authorized:
  assumes "cp_kind (settled_checkpoint es) = AuthorizedBeforeExecute"
  shows "\<exists>c b. (c, b) \<in> set (sc_tools (recovery_scan_of es)) \<and> cp_call_id (settled_checkpoint es) = Some c
    \<and> tb_dispatched b = None \<and> tb_approval b = Some ApprovalApproved"
proof -
  let ?s = "recovery_scan_of es"
  let ?t = "tool_checkpoint es ?s (sort_key boundary_rank (sc_tools ?s))"
  have make: "cp_kind (make_checkpoint es ?s k x y a b c d) = k" for k x y a b c d
    by (simp add: make_checkpoint_def)
  note def = settled_checkpoint_def Let_def
  have 1: "\<not> sc_ended ?s" using assms by (intro notI) (simp add: def make)
  have 2: "sc_status ?s \<noteq> StatusCancelled" using assms 1 by (intro notI) (simp add: def make)
  have 3: "\<not> has_compaction_in_flight es" using assms 1 2 by (intro notI) (simp add: def make)
  have 4: "filter_option (\<lambda>r. needs_reconciling r \<and> summary_holds (contains_text ''Artifact'') r)
      (sc_task_recovery ?s) = None"
    using assms 1 2 3 by (cases "filter_option (\<lambda>r. needs_reconciling r
      \<and> summary_holds (contains_text ''Artifact'') r) (sc_task_recovery ?s)") (simp_all add: def make)
  have 5: "(if native_unresolved ?s then None else question_checkpoint es ?s) = None"
  proof (rule ccontr)
    assume "(if native_unresolved ?s then None else question_checkpoint es ?s) \<noteq> None"
    then obtain cp where "(if native_unresolved ?s then None else question_checkpoint es ?s) = Some cp"
      by auto
    then have "question_checkpoint es ?s = Some cp" "settled_checkpoint es = cp"
      using 1 2 3 4 by (auto simp: def split: if_splits)
    then show False using assms question_checkpoint_kind by blast
  qed
  have "?t = Some (settled_checkpoint es)"
  proof (cases ?t)
    case None
    then show ?thesis using assms 1 2 3 4 5 by (simp add: def make split: if_splits)
  qed (use 1 2 3 4 5 in \<open>simp add: def\<close>)
  from tool_checkpoint_kind [OF this assms] show ?thesis by simp
qed

definition flag_ok :: "session_event list \<Rightarrow> call_key \<times> session_event \<times> bool \<Rightarrow> bool" where
  "flag_ok s x \<longleftrightarrow> snd (snd x) = (ResultUncertain \<in> set (results s (fst (fst x)) (snd (fst x))))"

lemma flag_ok_same: "(\<And>st c. results t st c = results s st c) \<Longrightarrow> flag_ok t x = flag_ok s x"
  by (simp add: flag_ok_def)

lemma flag_ok_result:
  assumes "\<And>st c'. results t st c' = results s st c' @ (if st = st' \<and> c' = c then [r] else [])"
    and "flag_ok s (k, d, u)"
  shows "r = ResultUncertain \<Longrightarrow> flag_ok t (k, d, u \<or> k = (st', c))"
    and "k \<noteq> (st', c) \<Longrightarrow> flag_ok t (k, d, u)"
  using assms(2) by (cases k; auto simp: flag_ok_def assms(1))+

lemma pending_flag_step:
  assumes IH: "\<forall>x\<in>set (pending_executions p). flag_ok p x"
    and v: "validate_tool_transition cx p e = Inr ()"
  shows "\<forall>x\<in>set (pending_executions (p @ [e])). flag_ok (p @ [e]) x"
proof (cases "\<exists>c n r u d m v. ev_payload e = ToolResult c n r u d m v")
  case True
  then obtain c n r u d m v where e: "ev_payload e = ToolResult c n r u d m v" by blast
  have res: "results (p @ [e]) st c' = results p st c' @ (if st = ev_step_id e \<and> c' = c then [r] else [])"
    for st c'
    using e by (simp add: views_append result_of_def)
  have pend: "pending_executions (p @ [e]) =
      (if r = ResultUncertain
       then map (\<lambda>(k, d, u). (k, d, u \<or> k = (ev_step_id e, c))) (pending_executions p)
       else AList.delete (ev_step_id e, c) (pending_executions p))"
    using e by (simp add: pending_executions_def pending_step_def)
  show ?thesis
  proof
    fix x assume x: "x \<in> set (pending_executions (p @ [e]))"
    show "flag_ok (p @ [e]) x"
    proof (cases "r = ResultUncertain")
      case True
      then obtain k d u where k: "(k, d, u) \<in> set (pending_executions p)"
        "x = (k, d, u \<or> k = (ev_step_id e, c))"
        using x unfolding pend by auto
      then show ?thesis using flag_ok_result(1) [OF res _ True] IH by blast
    next
      case False
      then obtain k d u where "x = (k, d, u)" "(k, d, u) \<in> set (pending_executions p)"
        "k \<noteq> (ev_step_id e, c)"
        using x unfolding pend by (cases x) (auto simp: AList.delete_eq)
      then show ?thesis using flag_ok_result(2) [OF res] IH by blast
    qed
  qed
next
  case False
  then have none: "result_of c e = None" for c
    by (cases "ev_payload e") (simp_all add: result_of_def)
  have res: "results (p @ [e]) st c = results p st c" for st c
    by (simp add: views_append none)
  have "set (pending_executions (p @ [e])) \<subseteq> set (pending_executions p)
      \<union> {((ev_step_id e, c), e, False) | c. \<exists>x k. ev_payload e = ToolExecution c x k}"
  proof (cases "ev_payload e")
    case (ToolExecution c x k)
    then show ?thesis
      using set_alist_update [of "(ev_step_id e, c)" "(e, False)" "pending_executions p"]
      by (auto simp: pending_executions_def pending_step_def)
  qed (use False in \<open>auto simp: pending_executions_def pending_step_def\<close>)
  note sub = this
  have fresh: "results p (ev_step_id e) c = []" if "ev_payload e = ToolExecution c x k" for c x k
    using v that by (simp add: validate_tool_transition_def validate_tool_execution_def ensure_iff)
  show ?thesis unfolding flag_ok_same [OF res]
  proof
    fix x assume "x \<in> set (pending_executions (p @ [e]))"
    with sub consider "x \<in> set (pending_executions p)"
      | c y k where "x = ((ev_step_id e, c), e, False)" "ev_payload e = ToolExecution c y k" by blast
    then show "flag_ok p x" using IH fresh by cases (simp_all add: flag_ok_def)
  qed
qed

lemma pending_flag:
  assumes "run_ops (append_tool_event cx) [] es = Inr s"
  shows "\<forall>x\<in>set (pending_executions s). flag_ok s x"
proof -
  have "i \<le> length s \<Longrightarrow> \<forall>x\<in>set (pending_executions (take i s)). flag_ok (take i s) x" for i
  proof (induction i)
    case (Suc i)
    then have "take (Suc i) s = take i s @ [s ! i]" by (simp add: take_Suc_conv_app_nth)
    then show ?case using Suc pending_flag_step [OF _ tool_log_prefix(1) [OF assms, of i]] by simp
  qed (simp add: pending_executions_def)
  from this [of "length s"] show ?thesis by simp
qed

lemma pending_restricts:
  "(k, d, True) \<in> set (pending_executions es) \<Longrightarrow> execution_writes_restricted es"
  unfolding execution_writes_restricted_def by (force simp: list_ex_iff)

subsection \<open>Properties of recovery\<close>

text \<open>
  C6. A dispatch without an outcome is never hidden: as long as some dispatch has no
  definite result, whatever else the log holds (later Steps, questions, a cancellation, an
  ended Session), the checkpoint is an execution in flight that requires recovery, it names
  such a dispatch, and none that is pending is more recent.
\<close>

theorem recovery_reports_unsettled:
  assumes "has_uncertain_tool_executions es" "derive_recovery_checkpoint redact es = cp"
  shows "cp_kind cp = ExecutionInFlight \<and> cp_status cp = RecoveryRequired
    \<and> (\<exists>c d. cp_call_id cp = Some c \<and> d \<in> set es \<and> dispatches_key d (cp_step_id cp, c)
         \<and> (cp_step_id cp, c) \<in> uncertain_executions es
         \<and> (\<forall>(k, d', u)\<in>set (pending_executions es). ev_seq d' \<le> ev_seq d))"
proof -
  obtain cp' where cp': "unresolved_execution redact es = Some cp'"
    using assms(1) unresolved_execution_None
    by (metis has_uncertain_tool_executions_def option.exhaust)
  then have "cp = cp'" using assms(2) by (simp add: derive_recovery_checkpoint_def)
  with unresolved_execution_Some [OF cp'] show ?thesis by blast
qed

theorem recovery_reports_unsettled_witness:
  "cp_kind (derive_recovery_checkpoint (\<lambda>x. x) (take 4 sample_calls)) = ExecutionInFlight"
proof -
  have "has_uncertain_tool_executions (take 4 sample_calls)"
    by (simp add: has_uncertain_tool_executions_def uncertain_executions_def uncertain_step_def
        sample_call_defs)
  from recovery_reports_unsettled [OF this refl] show ?thesis by blast
qed

text \<open>
  C20. An approved call is offered for execution only when that cannot repeat anything: if
  the checkpoint is \<open>AuthorizedBeforeExecute\<close>, every dispatch of the Session is settled, and
  since the Step began the named call was approved and not dispatched.
\<close>

theorem authorized_resume_is_fresh:
  assumes "derive_recovery_checkpoint redact es = cp" "cp_kind cp = AuthorizedBeforeExecute"
  shows "\<not> has_uncertain_tool_executions es
    \<and> (\<exists>c. cp_call_id cp = Some c \<and> (\<forall>e\<in>set (tool_window es). dispatch_of c e = None)
         \<and> (\<exists>e\<in>set (tool_window es). \<exists>a. approval_of c e = Some (a, ApprovalApproved)))"
proof (cases "unresolved_execution redact es")
  case (Some x)
  then show ?thesis using assms unresolved_execution_Some(1) [OF Some]
    by (simp add: derive_recovery_checkpoint_def)
next
  case None
  then have cp: "cp = settled_checkpoint es" using assms(1) by (simp add: derive_recovery_checkpoint_def)
  from settled_checkpoint_authorized [of es] assms(2) cp obtain c b where
    b: "(c, b) \<in> set (sc_tools (recovery_scan_of es))" "cp_call_id cp = Some c" "tb_dispatched b = None"
      "tb_approval b = Some ApprovalApproved"
    by auto
  then have "map_of (sc_tools (recovery_scan_of es)) c = Some b" using tools_distinct by simp
  with tools_track_window [of es c] b None show ?thesis
    by (simp add: tool_facts_def has_uncertain_tool_executions_def unresolved_execution_None)
qed

theorem authorized_resume_is_fresh_witness:
  "cp_kind (derive_recovery_checkpoint (\<lambda>x. x) (take 3 sample_calls)) = AuthorizedBeforeExecute
    \<and> \<not> has_uncertain_tool_executions (take 3 sample_calls)"
proof -
  have "pending_executions (take 3 sample_calls) = []"
    by (simp add: pending_executions_def pending_step_def sample_call_defs)
  then have "unresolved_execution (\<lambda>x. x) (take 3 sample_calls) = None"
    by (simp add: unresolved_execution_def)
  moreover have "cp_kind (settled_checkpoint (take 3 sample_calls)) = AuthorizedBeforeExecute"
    by (simp add: settled_checkpoint_def recovery_scan_of_def scan_step_def initial_scan_def on_tool_def
        default_boundary_def sample_call_defs has_compaction_in_flight_def compaction_step_def
        filter_option_def native_unresolved_def make_checkpoint_def Let_def)
  ultimately have k: "cp_kind (derive_recovery_checkpoint (\<lambda>x. x) (take 3 sample_calls)) = AuthorizedBeforeExecute"
    by (simp add: derive_recovery_checkpoint_def)
  from authorized_resume_is_fresh [OF refl k] k show ?thesis by blast
qed

text \<open>
  An uncertain outcome blocks writes until it is settled: in an accepted log a dispatch
  whose only result is uncertain restricts the Session, and a restricted Session always has
  a dispatch without a definite result.
\<close>

theorem uncertain_outcome_blocks_writes:
  assumes "run_ops (append_tool_event cx) [] es = Inr s"
  shows "(dispatches s st c \<noteq> [] \<and> results s st c = [ResultUncertain] \<longrightarrow> execution_writes_restricted s)
    \<and> (execution_writes_restricted s \<longrightarrow> has_uncertain_tool_executions s)"
proof (intro conjI impI)
  assume h: "dispatches s st c \<noteq> [] \<and> results s st c = [ResultUncertain]"
  then have "(st, c) \<in> uncertain_executions s"
    unfolding uncertain_is_unsettled [OF assms] by (simp add: unsettled_iff)
  then obtain d u where d: "((st, c), d, u) \<in> set (pending_executions s)"
    using pending_is_uncertain [of s] by force
  then have u using pending_flag [OF assms] h by (fastforce simp: flag_ok_def)
  with d show "execution_writes_restricted s" using pending_restricts by simp
next
  assume "execution_writes_restricted s"
  then have "pending_executions s \<noteq> []" by (auto simp: execution_writes_restricted_def)
  then show "has_uncertain_tool_executions s"
    using pending_is_uncertain [of s] by (auto simp: has_uncertain_tool_executions_def)
qed

theorem uncertain_outcome_blocks_writes_witness:
  "execution_writes_restricted (take 5 sample_calls)"
proof -
  have "run_ops (append_tool_event sample_codec) [] (take 5 sample_calls) = Inr (take 5 sample_calls)"
    by (simp add: sample_call_defs tool_checks call_views event_views latest_def)
  from uncertain_outcome_blocks_writes [OF this, of "Some ''p''" "''c''"] show ?thesis
    by (simp add: sample_call_defs call_views event_views)
qed

text \<open>
  The two scans of a log for executions of unknown outcome agree on every log: the
  store's \<open>has_uncertain_tool_executions\<close> and the recovery module's pending map hold the
  same calls, so the count is zero exactly when the store sees nothing uncertain.
\<close>

theorem uncertain_scans_agree:
  "fst ` set (pending_executions es) = uncertain_executions es
    \<and> (unresolved_execution_count es = 0 \<longleftrightarrow> \<not> has_uncertain_tool_executions es)"
  using pending_is_uncertain [of es]
  by (auto simp: unresolved_execution_count_def has_uncertain_tool_executions_def)

end
