(* ===== verification/Child_Recovery.thy ===== *)
theory Child_Recovery
  imports Recovery
begin

text \<open>
  When a failed child Session may be tried again (agent\_runtime/child\_recovery.rs), with the
  budget test of subagent.rs and the count of admitted calls of tool\_pipeline.rs: only after
  a model failure, with budget left, and with every tool call of the child settled; and the
  operations a retried child may not repeat.
\<close>

record inbox_projection =
  proj_paused_ids :: "string list"
  proj_next_turn :: "inbox_message list"
  proj_next_step :: "inbox_message list"

record session_header =
  hdr_model_selection :: "subagent_model option"
  hdr_session_id :: string
  hdr_task_id :: string
  hdr_goal :: string
  hdr_title :: "string option"
  hdr_parent_session_id :: "string option"
  hdr_continued_from_session_id :: "string option"
  hdr_target :: "session_target option"
  hdr_permission_mode :: "permission_mode option"
  hdr_execution_surface :: execution_surface
  hdr_success_criteria :: "string list"
  hdr_capability_scope :: "capability_scope option"
  hdr_subagent :: "subagent_session option"
  hdr_created_at_unix_ms :: u64

record child_failure_recovery =
  cfr_turn_id :: string
  cfr_retryable :: bool
  cfr_retry_at :: "u64 option"

definition recovery_id :: "string \<Rightarrow> string" where
  "recovery_id turn = ''child-retry-'' @ turn"

definition model_failure_reason :: "string \<Rightarrow> bool" where
  "model_failure_reason reason \<longleftrightarrow> takeWhile (\<lambda>c. c \<noteq> CHR '':'') reason \<in>
     {''providerRetryExhausted'', ''providerProtocolFailure'', ''contextTooLarge'',
      ''authenticationFailed'', ''rateLimited'', ''providerFailure'', ''outputLimit''}"

definition merr_retryable :: "model_error \<Rightarrow> bool" where
  "merr_retryable e \<longleftrightarrow> merr_kind e \<in> {ErrRetryable, ErrTransport, ErrTimeout, ErrEmptyResponse, ErrRateLimited}"

subsection \<open>Budgets and settled calls\<close>

definition is_turn_start :: "session_event \<Rightarrow> bool" where
  "is_turn_start e = (case ev_payload e of TurnStart \<Rightarrow> True | _ \<Rightarrow> False)"

definition is_turn_end :: "session_event \<Rightarrow> bool" where
  "is_turn_end e = (case ev_payload e of TurnEnd _ \<Rightarrow> True | _ \<Rightarrow> False)"

definition skipped_calls :: "session_event list \<Rightarrow> call_key set" where
  "skipped_calls es = set (filter_map (\<lambda>e. case ev_payload e of
     ToolResult c _ _ _ (Some d) _ _ \<Rightarrow>
       if Option.bind (json_get ''schedulerAdmission'' d) json_as_str = Some ''notStarted''
       then Some (ev_step_id e, c) else None
   | _ \<Rightarrow> None) es)"

definition admitted_tool_calls :: "session_event list \<Rightarrow> u32" where
  "admitted_tool_calls es =
     (let n = length (filter (\<lambda>e. case ev_payload e of
        ToolCall call \<Rightarrow> call_native_name call \<noteq> None
          \<or> (ev_step_id e, call_call_id call) \<notin> skipped_calls es
      | _ \<Rightarrow> False) es)
      in if n < 2 ^ 32 then of_nat n else - 1)"

definition usage_tokens :: "session_event \<Rightarrow> u64 option" where
  "usage_tokens e = (case ev_payload e of
     RequestUsage _ usage _ \<Rightarrow> usage_total_tokens usage | _ \<Rightarrow> None)"

definition below_limit :: "'a::ord \<Rightarrow> 'a option \<Rightarrow> bool" where
  "below_limit n limit = (case limit of None \<Rightarrow> True | Some l \<Rightarrow> n < l)"

definition child_has_remaining_budget ::
  "subagent_budget \<Rightarrow> session_event list \<Rightarrow> nat \<Rightarrow> u64 \<Rightarrow> bool" where
  "child_has_remaining_budget b es max_turns now =
     (let turns = length (filter is_turn_start es);
          tokens = foldl sat_add 0 (filter_map usage_tokens es)
      in turns < min max_turns (unat (sbud_max_turns b))
         \<and> below_limit (admitted_tool_calls es) (sbud_max_tool_calls b)
         \<and> below_limit tokens (sbud_max_tokens b)
         \<and> es \<noteq> [] \<and> sat_sub now (ev_time_unix_ms (hd es)) < sbud_timeout_ms b)"

definition settle_step ::
  "call_key set \<times> string set \<Rightarrow> session_event \<Rightarrow> call_key set \<times> string set" where
  "settle_step = (\<lambda>(cs, qs) e. case ev_payload e of
     ToolCall call \<Rightarrow> (insert (ev_step_id e, call_call_id call) cs, qs)
   | ToolResult c _ status _ _ _ _ \<Rightarrow>
       if status \<noteq> ResultUncertain then (cs - {(ev_step_id e, c)}, qs) else (cs, qs)
   | QuestionRequested i _ _ \<Rightarrow> (cs, insert (qid_question_request_id i) qs)
   | QuestionAnswered sub _ \<Rightarrow> (cs, qs - {qid_question_request_id (aqi_identity sub)})
   | _ \<Rightarrow> (cs, qs))"

definition settled_tool_calls :: "session_event list \<Rightarrow> bool" where
  "settled_tool_calls es \<longleftrightarrow> foldl settle_step ({}, {}) es = ({}, {})"

subsection \<open>The retry of a failed child\<close>

definition ended_reason :: "session_event \<Rightarrow> string option option" where
  "ended_reason e = (case ev_payload e of SessionEnded _ reason \<Rightarrow> Some reason | _ \<Rightarrow> None)"

definition decides_failure :: "string \<Rightarrow> session_event \<Rightarrow> bool" where
  "decides_failure turn e \<longleftrightarrow> ev_turn_id e = Some turn \<and> (case ev_payload e of
     RequestFailure _ _ _ _ _ _ \<Rightarrow> True
   | RequestUsage _ _ _ \<Rightarrow> True
   | AssistantMessage _ _ _ _ _ _ \<Rightarrow> True
   | _ \<Rightarrow> False)"

definition failure_recovery ::
  "string \<Rightarrow> session_event \<Rightarrow> child_failure_recovery option" where
  "failure_recovery turn e = (case ev_payload e of
     RequestFailure _ _ _ _ _ failure \<Rightarrow>
       (let code = map to_ascii_lower (case merr_code failure of None \<Rightarrow> [] | Some c \<Rightarrow> c) in
        if merr_kind failure = ErrCancelled \<or> code = ''content_policy_violation'' then None
        else Some \<lparr>cfr_turn_id = turn,
          cfr_retryable = (merr_retryable failure
            \<and> \<not> (case merr_status failure of None \<Rightarrow> False | Some s \<Rightarrow> 401 \<le> s \<and> s \<le> 404)
            \<and> code \<notin> {''insufficient_quota'', ''billing_hard_limit_reached'', ''model_not_found'',
                ''context_length_exceeded'', ''invalid_request_error''}),
          cfr_retry_at = map_option (sat_add (ev_time_unix_ms e)) (merr_retry_after_ms failure)\<rparr>)
   | _ \<Rightarrow> None)"

definition foreign_pending :: "string \<Rightarrow> inbox_projection \<Rightarrow> bool" where
  "foreign_pending i inbox \<longleftrightarrow> (\<exists>m\<in>set (proj_next_turn inbox @ proj_next_step inbox).
     msg_message_id m \<noteq> i \<or> src_label (msg_source m) \<noteq> ''child-failure-retry'')"

definition child_failure_recovery ::
  "session_header \<Rightarrow> session_status \<Rightarrow> bool \<Rightarrow> session_event list \<Rightarrow> inbox_projection
    \<Rightarrow> child_failure_recovery option" where
  "child_failure_recovery h status archived es inbox =
     Option.bind (hdr_subagent h) (\<lambda>child.
     if archived \<or> \<not> sub_continuable child \<or> hdr_parent_session_id h = None then None
     else if es = [] then None
     else if \<not> child_has_remaining_budget (sub_budget child) es
         (unat (sbud_max_turns (sub_budget child))) (ev_time_unix_ms (last es)) then None
     else Option.bind (find (\<lambda>e. is_turn_start e \<or> is_turn_end e) (rev es)) (\<lambda>boundary.
       case ev_payload boundary of
         TurnEnd reason \<Rightarrow>
           if \<not> model_failure_reason reason
              \<or> (case find_map ended_reason (rev es) of None \<Rightarrow> False
                 | Some r \<Rightarrow> (case r of None \<Rightarrow> True | Some x \<Rightarrow> \<not> model_failure_reason x))
           then None
           else Option.bind (ev_turn_id boundary) (\<lambda>turn.
             if \<not> (status = StatusFailed \<or> status = StatusIdle)
                \<or> foreign_pending (recovery_id turn) inbox
                \<or> has_uncertain_tool_executions es \<or> \<not> settled_tool_calls es
             then None
             else Option.bind (find (decides_failure turn) (rev es)) (failure_recovery turn))
       | _ \<Rightarrow> None))"

subsection \<open>Operations a retry may not repeat\<close>

definition execution_arguments :: "recorded_tool_call \<Rightarrow> json" where
  "execution_arguments call = (case call_arguments call of
     JObject kvs \<Rightarrow> JObject (filter (\<lambda>(k, _). k \<noteq> ''explanation'') kvs)
   | v \<Rightarrow> v)"

definition effective_name :: "recorded_tool_call \<Rightarrow> string" where
  "effective_name call = (case call_native_name call of None \<Rightarrow> call_name call | Some n \<Rightarrow> n)"

definition same_operation :: "recorded_tool_call \<Rightarrow> recorded_tool_call \<Rightarrow> bool" where
  "same_operation a b \<longleftrightarrow> effective_name a = effective_name b \<and> call_target a = call_target b
     \<and> execution_arguments a = execution_arguments b"

definition is_recovery_start :: "session_event \<Rightarrow> bool" where
  "is_recovery_start e = (case ev_payload e of SubagentRecoveryStarted _ _ _ \<Rightarrow> True | _ \<Rightarrow> False)"

definition retry_turn :: "string \<Rightarrow> session_event \<Rightarrow> bool" where
  "retry_turn turn e \<longleftrightarrow> ev_turn_id e = Some turn \<and> (case ev_payload e of
     UserMessage m \<Rightarrow> src_label (msg_source m) = ''child-failure-retry'' | _ \<Rightarrow> False)"

definition completed_operation ::
  "session_event list \<Rightarrow> u64 \<Rightarrow> recorded_tool_call \<Rightarrow> session_event \<Rightarrow> recorded_tool_call option" where
  "completed_operation es recovery_seq proposed e = (case ev_payload e of
     ToolCall call \<Rightarrow>
       if ev_seq e < recovery_seq \<and> same_operation call proposed
          \<and> (\<exists>r\<in>set es. ev_seq e < ev_seq r \<and> ev_seq r < recovery_seq \<and> ev_step_id r = ev_step_id e
               \<and> result_of (call_call_id call) r = Some ResultCompleted)
       then Some call else None
   | _ \<Rightarrow> None)"

definition replay_blocked :: "session_event \<Rightarrow> recorded_tool_call \<Rightarrow> string" where
  "replay_blocked e call =
     ''childRecoveryReplayBlocked: operation already completed at step '' @
     (case ev_step_id e of None \<Rightarrow> [] | Some s \<Rightarrow> s) @ '' call '' @ call_call_id call @
     ''. Use its saved result and continue unfinished work; do not repeat this operation.''"

definition completed_recovery_operation ::
  "session_event list \<Rightarrow> string \<Rightarrow> recorded_tool_call \<Rightarrow> string option" where
  "completed_recovery_operation es turn proposed =
     (if (case call_effect proposed of None \<Rightarrow> False | Some x \<Rightarrow> observation_effect_allowed x) then None
      else Option.bind (find is_recovery_start (rev es)) (\<lambda>recovery.
        if \<not> list_ex (retry_turn turn) es then None
        else find_map (\<lambda>e. map_option (replay_blocked e)
          (completed_operation es (ev_seq recovery) proposed e)) es))"

subsection \<open>What a retry is sure of\<close>

text \<open>
  A set that one event adds a key to and another takes it from is empty at the end exactly
  when every addition is followed by a removal.
\<close>

lemma settle_calls:
  "fst (foldl settle_step (cs, qs) es) = foldl (\<lambda>s e. fst (settle_step (s, {}) e)) cs es"
proof (induction es arbitrary: cs qs)
  case (Cons e es)
  obtain cs' qs' where st: "settle_step (cs, qs) e = (cs', qs')" by force
  have "fst (settle_step (cs, {}) e) = fst (settle_step (cs, qs) e)"
    by (cases "ev_payload e") (simp_all add: settle_step_def)
  then show ?case using Cons by (simp add: st)
qed simp

definition adds_call :: "call_key \<Rightarrow> session_event \<Rightarrow> bool" where
  "adds_call k e \<longleftrightarrow> ev_step_id e = fst k \<and> call_of (snd k) e \<noteq> None"

definition settles_call :: "call_key \<Rightarrow> session_event \<Rightarrow> bool" where
  "settles_call k e \<longleftrightarrow> ev_step_id e = fst k
     \<and> (\<exists>r. result_of (snd k) e = Some r \<and> r \<noteq> ResultUncertain)"

lemma settle_member:
  "k \<in> fst (settle_step (s, {}) e) \<longleftrightarrow> adds_call k e \<or> k \<in> s \<and> \<not> settles_call k e"
  by (cases k; cases "ev_payload e")
    (auto simp: settle_step_def adds_call_def settles_call_def call_of_def result_of_def)

lemma settle_fold_member:
  "k \<notin> foldl (\<lambda>s e. fst (settle_step (s, {}) e)) s es \<Longrightarrow> i < length es \<Longrightarrow> adds_call k (es ! i) \<Longrightarrow>
    \<exists>j. i < j \<and> j < length es \<and> settles_call k (es ! j)"
proof (induction es arbitrary: s i)
  case (Cons e es)
  show ?case
  proof (cases i)
    case 0
    have keep: "k \<in> t \<Longrightarrow> k \<notin> foldl (\<lambda>s e. fst (settle_step (s, {}) e)) t xs \<Longrightarrow>
        \<exists>j<length xs. settles_call k (xs ! j)" for t xs
    proof (induction xs arbitrary: t)
      case (Cons x xs)
      show ?case
      proof (cases "settles_call k x")
        case True
        then show ?thesis by (intro exI [of _ 0]) simp
      next
        case False
        then have "k \<in> fst (settle_step (t, {}) x)" using Cons.prems(1) by (simp add: settle_member)
        from Cons.IH [OF this] Cons.prems(2) obtain j where "j < length xs" "settles_call k (xs ! j)"
          by auto
        then show ?thesis by (intro exI [of _ "Suc j"]) simp
      qed
    qed simp
    have "k \<in> fst (settle_step (s, {}) e)" using Cons.prems 0 by (simp add: settle_member)
    from keep [OF this] Cons.prems(1) obtain j where "j < length es" "settles_call k (es ! j)" by auto
    then show ?thesis using 0 by (intro exI [of _ "Suc j"]) simp
  next
    case (Suc n)
    from Cons.IH [of "fst (settle_step (s, {}) e)" n] Cons.prems Suc
    obtain j where "n < j" "j < length es" "settles_call k (es ! j)" by auto
    then show ?thesis using Suc by (intro exI [of _ "Suc j"]) simp
  qed
qed simp

lemma settled_calls_follow:
  assumes "settled_tool_calls es" "i < length es" "adds_call k (es ! i)"
  shows "\<exists>j. i < j \<and> j < length es \<and> settles_call k (es ! j)"
proof -
  have "fst (foldl settle_step ({}, {}) es) = {}" using assms(1) by (simp add: settled_tool_calls_def)
  then have "k \<notin> foldl (\<lambda>s e. fst (settle_step (s, {}) e)) {} es" by (simp add: settle_calls)
  from settle_fold_member [OF this assms(2,3)] show ?thesis .
qed

lemma turn_end_case:
  "(case ev_payload e of TurnEnd reason \<Rightarrow> f reason | _ \<Rightarrow> None) = Some r \<Longrightarrow>
    \<exists>reason. ev_payload e = TurnEnd reason \<and> f reason = Some r"
  by (cases "ev_payload e") simp_all

lemma child_failure_recovery_facts:
  assumes "child_failure_recovery h status archived es inbox = Some r"
  shows "settled_tool_calls es \<and> \<not> has_uncertain_tool_executions es \<and> \<not> archived \<and> hdr_parent_session_id h \<noteq> None
    \<and> (\<exists>child. hdr_subagent h = Some child \<and> sub_continuable child
       \<and> child_has_remaining_budget (sub_budget child) es
           (unat (sbud_max_turns (sub_budget child))) (ev_time_unix_ms (last es)))
    \<and> (\<exists>b reason. find (\<lambda>e. is_turn_start e \<or> is_turn_end e) (rev es) = Some b
         \<and> ev_payload b = TurnEnd reason \<and> model_failure_reason reason \<and> ev_turn_id b = Some (cfr_turn_id r))"
proof -
  obtain child where child: "hdr_subagent h = Some child"
    using assms by (cases "hdr_subagent h") (simp_all add: child_failure_recovery_def)
  have pre: "\<not> archived" "sub_continuable child" "hdr_parent_session_id h \<noteq> None"
    "child_has_remaining_budget (sub_budget child) es
       (unat (sbud_max_turns (sub_budget child))) (ev_time_unix_ms (last es))"
    using assms child by (simp_all add: child_failure_recovery_def split: if_splits)
  obtain b where b: "find (\<lambda>e. is_turn_start e \<or> is_turn_end e) (rev es) = Some b"
    using assms child
    by (cases "find (\<lambda>e. is_turn_start e \<or> is_turn_end e) (rev es)")
      (simp_all add: child_failure_recovery_def split: if_splits)
  obtain reason where reason: "ev_payload b = TurnEnd reason"
    using assms child b
    by (auto simp: child_failure_recovery_def split: if_splits dest!: turn_end_case)
  obtain turn where turn: "ev_turn_id b = Some turn"
    using assms child b reason
    by (cases "ev_turn_id b") (auto simp: child_failure_recovery_def split: if_splits)
  have rest: "model_failure_reason reason" "settled_tool_calls es" "\<not> has_uncertain_tool_executions es"
    "Option.bind (find (decides_failure turn) (rev es)) (failure_recovery turn) = Some r"
    using assms child b reason turn by (auto simp: child_failure_recovery_def split: if_splits)
  have "failure_recovery turn e = Some r \<Longrightarrow> cfr_turn_id r = turn" for e
    by (cases "ev_payload e") (auto simp: failure_recovery_def Let_def split: if_splits)
  then have "cfr_turn_id r = turn" using rest(4) by (auto simp: bind_eq_Some_conv)
  then show ?thesis using pre child b reason turn rest by simp
qed

subsection \<open>A sample child\<close>

definition sample_child :: session_header where
  "sample_child = \<lparr>hdr_model_selection = None, hdr_session_id = ''s'', hdr_task_id = ''t'', hdr_goal = ''g'',
     hdr_title = None, hdr_parent_session_id = Some ''p'', hdr_continued_from_session_id = None,
     hdr_target = None, hdr_permission_mode = None, hdr_execution_surface = SurfaceDirect,
     hdr_success_criteria = [], hdr_capability_scope = None,
     hdr_subagent = Some \<lparr>sub_descriptor_id = ''d'', sub_parent_task_id = ''t'', sub_role = RoleGeneral,
       sub_continuable = True, sub_depth = 1, sub_inheritance = Blank,
       sub_capability_scope = \<lparr>scope_tool_names = [], scope_effects = [], scope_target_ids = []\<rparr>,
       sub_target_scope = [],
       sub_budget = \<lparr>sbud_max_steps_per_turn = None, sbud_max_turns = 3, sbud_max_tool_calls = Some 9,
         sbud_max_tokens = None, sbud_timeout_ms = 1000\<rparr>,
       sub_provider = \<lparr>smod_route_id = ''m'', smod_model_id = ''n'', smod_reasoning_effort = None,
         smod_route_revision = None\<rparr>\<rparr>,
     hdr_created_at_unix_ms = 1\<rparr>"

definition no_inbox :: inbox_projection where
  "no_inbox = \<lparr>proj_paused_ids = [], proj_next_turn = [], proj_next_step = []\<rparr>"

definition retry_message :: inbox_message where
  "retry_message = \<lparr>msg_images = [], msg_message_id = ''child-retry-t'',
     msg_client_submission_id = Some ''child-retry-t'', msg_content = ''again'',
     msg_source = runtime_source ''child-failure-retry'', msg_terminal_context = None\<rparr>"

definition sample_child_log :: "session_event list" where
  "sample_child_log = [step_event 0 TurnStart, step_event 1 (ToolCall shell_call),
     step_event 2 (sample_result ResultCompleted),
     step_event 3 (RequestFailure ''r'' 3 3 0 False
       \<lparr>merr_kind = ErrTimeout, merr_message = ''m'', merr_status = None, merr_code = None,
        merr_retry_after_ms = None\<rparr>),
     step_event 4 (TurnEnd ''providerRetryExhausted'')]"

definition sample_retry_log :: "session_event list" where
  "sample_retry_log = sample_child_log @ [step_event 5 (SubagentRecoveryStarted ''t'' ''child-retry-t'' retry_message),
     step_event 6 (UserMessage retry_message)]"

lemmas child_sample_defs = sample_child_def no_inbox_def sample_child_log_def sample_call_defs

lemma sample_child_budget:
  "child_has_remaining_budget (sub_budget (the (hdr_subagent sample_child))) sample_child_log 3 1"
  by (simp add: child_has_remaining_budget_def child_sample_defs is_turn_start_def usage_tokens_def
      admitted_tool_calls_def skipped_calls_def below_limit_def sat_sub_def)

lemma sample_child_retry:
  "\<exists>r. child_failure_recovery sample_child StatusFailed False sample_child_log no_inbox = Some r"
  using sample_child_budget
  by (simp add: child_failure_recovery_def child_sample_defs is_turn_start_def is_turn_end_def
      model_failure_reason_def ended_reason_def foreign_pending_def has_uncertain_tool_executions_def
      uncertain_executions_def uncertain_step_def settled_tool_calls_def settle_step_def
      decides_failure_def failure_recovery_def Let_def)

subsection \<open>What budget is left\<close>

text \<open>
  The budget read without the code's arithmetic: turns and calls are counted over positions of
  the log, tokens are added as numbers without a bound, and time is a difference of numbers.
  A call counts unless a result of the same Step says that the scheduler never started it;
  native calls always count.
\<close>

definition never_started :: "session_event list \<Rightarrow> session_event \<Rightarrow> string \<Rightarrow> bool" where
  "never_started es e c \<longleftrightarrow> (\<exists>x\<in>set es. ev_step_id x = ev_step_id e \<and>
     (case ev_payload x of
        ToolResult i _ _ _ (Some d) _ _ \<Rightarrow> i = c \<and> json_get ''schedulerAdmission'' d = Some (JString ''notStarted'')
      | _ \<Rightarrow> False))"

definition counted_call :: "session_event list \<Rightarrow> session_event \<Rightarrow> bool" where
  "counted_call es e \<longleftrightarrow> (case ev_payload e of
     ToolCall call \<Rightarrow> call_native_name call \<noteq> None \<or> \<not> never_started es e (call_call_id call)
   | _ \<Rightarrow> False)"

definition budget_left :: "subagent_budget \<Rightarrow> session_event list \<Rightarrow> bool" where
  "budget_left b es \<longleftrightarrow>
     card {i. i < length es \<and> ev_payload (es ! i) = TurnStart} < unat (sbud_max_turns b)
   \<and> (\<forall>l. sbud_max_tool_calls b = Some l \<longrightarrow> card {i. i < length es \<and> counted_call es (es ! i)} < unat l)
   \<and> (\<forall>l. sbud_max_tokens b = Some l \<longrightarrow> (\<Sum>t\<leftarrow>filter_map usage_tokens es. unat t) < unat l)
   \<and> es \<noteq> [] \<and> unat (ev_time_unix_ms (last es)) - unat (ev_time_unix_ms (hd es)) < unat (sbud_timeout_ms b)"

lemma skipped_iff: "(ev_step_id e, c) \<in> skipped_calls es \<longleftrightarrow> never_started es e c"
proof -
  have str: "Option.bind v json_as_str = Some t \<longleftrightarrow> v = Some (JString t)" for v t
    by (cases v) (auto simp: json_as_str_def split: json.splits)
  have "(case ev_payload x of
     ToolResult c' _ _ _ (Some d) _ _ \<Rightarrow>
       if Option.bind (json_get ''schedulerAdmission'' d) json_as_str = Some ''notStarted''
       then Some (ev_step_id x, c') else None
   | _ \<Rightarrow> None) = Some (ev_step_id e, c) \<longleftrightarrow> ev_step_id x = ev_step_id e \<and>
     (case ev_payload x of
        ToolResult i _ _ _ (Some d) _ _ \<Rightarrow> i = c \<and> json_get ''schedulerAdmission'' d = Some (JString ''notStarted'')
      | _ \<Rightarrow> False)" for x
    by (cases "ev_payload x") (auto simp: str split: option.splits)
  then show ?thesis by (auto simp: skipped_calls_def never_started_def set_filter_map)
qed

lemma sat_sum: "unat (foldl sat_add (a :: u64) ts) = min ((2 :: nat) ^ 64 - 1) (unat a + (\<Sum>t\<leftarrow>ts. unat t))"
proof (induction ts arbitrary: a)
  case Nil
  have "unat a < 2 ^ 64" using unsigned_less [of a] by simp
  then show ?case by (simp add: min_def)
qed (simp add: unat_sat_add min_def)

lemma is_turn_start_iff: "is_turn_start e \<longleftrightarrow> ev_payload e = TurnStart"
  by (cases "ev_payload e") (simp_all add: is_turn_start_def)

lemma remaining_budget_is_left:
  assumes "child_has_remaining_budget b es (unat (sbud_max_turns b)) (ev_time_unix_ms (last es))"
  shows "budget_left b es"
proof -
  have bound32: "unat l < 2 ^ 32" for l :: u32 using unsigned_less [of l] by simp
  have bound64: "unat l < 2 ^ 64" for l :: u64 using unsigned_less [of l] by simp
  have "card {i. i < length es \<and> ev_payload (es ! i) = TurnStart} = length (filter is_turn_start es)"
    by (simp add: length_filter_conv_card is_turn_start_iff)
  moreover have "card {i. i < length es \<and> counted_call es (es ! i)} = length (filter (counted_call es) es)"
    by (simp add: length_filter_conv_card)
  moreover have "counted_call es = (\<lambda>e. case ev_payload e of
      ToolCall call \<Rightarrow> call_native_name call \<noteq> None \<or> (ev_step_id e, call_call_id call) \<notin> skipped_calls es
    | _ \<Rightarrow> False)"
    unfolding counted_call_def skipped_iff by (rule refl)
  then have "length (filter (counted_call es) es) < unat l" if "admitted_tool_calls es < l" for l
    using that bound32 [of l]
    by (auto simp: admitted_tool_calls_def Let_def word_less_nat_alt unat_of_nat unat_max_word split: if_splits)
  moreover have "(\<Sum>t\<leftarrow>filter_map usage_tokens es. unat t) < unat l"
    if "foldl sat_add 0 (filter_map usage_tokens es) < l" for l
    using that bound64 [of l] by (auto simp: word_less_nat_alt sat_sum min_def split: if_splits)
  ultimately show ?thesis
    using assms by (auto simp: child_has_remaining_budget_def budget_left_def below_limit_def Let_def
        word_less_nat_alt unat_sat_sub split: option.splits)
qed

lemma last_boundary:
  assumes "find P (rev xs) = Some b"
  shows "\<exists>i<length xs. xs ! i = b \<and> P b \<and> (\<forall>j. i < j \<longrightarrow> j < length xs \<longrightarrow> \<not> P (xs ! j))"
  using assms
proof (induction xs rule: rev_induct)
  case (snoc x xs)
  show ?case
  proof (cases "P x")
    case True
    then show ?thesis using snoc.prems by (intro exI [of _ "length xs"]) auto
  next
    case False
    then obtain i where "i < length xs" "xs ! i = b" "P b" "\<forall>j. i < j \<longrightarrow> j < length xs \<longrightarrow> \<not> P (xs ! j)"
      using snoc by auto
    then show ?thesis using False by (intro exI [of _ i]) (auto simp: nth_append less_Suc_eq)
  qed
qed simp

subsection \<open>Properties of child recovery\<close>

text \<open>
  C21. A failed child is offered another attempt only when nothing of it is unsettled: it is
  a live continuable child of a parent; of its budget turns, tool calls, tokens and time are
  left, each counted over the log; the last Turn boundary of the log is the end of the Turn the
  offer names, with a model failure as its reason; no execution has an unknown outcome, and
  every tool call it ever recorded was followed by a definite result in the same Step.
\<close>

theorem child_retry_is_settled:
  assumes "child_failure_recovery h status archived es inbox = Some r"
  shows "\<not> archived \<and> \<not> has_uncertain_tool_executions es \<and> hdr_parent_session_id h \<noteq> None
    \<and> (\<exists>child. hdr_subagent h = Some child \<and> sub_continuable child \<and> budget_left (sub_budget child) es)
    \<and> (\<exists>i<length es. \<exists>reason. ev_payload (es ! i) = TurnEnd reason \<and> model_failure_reason reason
         \<and> ev_turn_id (es ! i) = Some (cfr_turn_id r)
         \<and> (\<forall>j. i < j \<longrightarrow> j < length es \<longrightarrow> ev_payload (es ! j) \<noteq> TurnStart \<and> (\<forall>x. ev_payload (es ! j) \<noteq> TurnEnd x)))
    \<and> (\<forall>i<length es. \<forall>k. adds_call k (es ! i) \<longrightarrow>
         (\<exists>j. i < j \<and> j < length es \<and> settles_call k (es ! j)))"
proof -
  note f = child_failure_recovery_facts [OF assms]
  then obtain b reason where b: "find (\<lambda>e. is_turn_start e \<or> is_turn_end e) (rev es) = Some b"
    "ev_payload b = TurnEnd reason" "model_failure_reason reason" "ev_turn_id b = Some (cfr_turn_id r)"
    by blast
  obtain i where "i < length es" "es ! i = b"
    "\<forall>j. i < j \<longrightarrow> j < length es \<longrightarrow> \<not> (is_turn_start (es ! j) \<or> is_turn_end (es ! j))"
    using last_boundary [OF b(1)] by blast
  moreover have "ev_payload e \<noteq> TurnStart \<and> (\<forall>x. ev_payload e \<noteq> TurnEnd x)"
    if "\<not> (is_turn_start e \<or> is_turn_end e)" for e
    using that by (auto simp: is_turn_start_def is_turn_end_def)
  ultimately have "\<exists>i<length es. \<exists>reason. ev_payload (es ! i) = TurnEnd reason \<and> model_failure_reason reason
       \<and> ev_turn_id (es ! i) = Some (cfr_turn_id r)
       \<and> (\<forall>j. i < j \<longrightarrow> j < length es \<longrightarrow> ev_payload (es ! j) \<noteq> TurnStart \<and> (\<forall>x. ev_payload (es ! j) \<noteq> TurnEnd x))"
    using b by blast
  with f remaining_budget_is_left settled_calls_follow [of es] show ?thesis by blast
qed

theorem child_retry_is_settled_witness:
  "\<exists>r. child_failure_recovery sample_child StatusFailed False sample_child_log no_inbox = Some r
    \<and> budget_left (sub_budget (the (hdr_subagent sample_child))) sample_child_log"
proof -
  obtain r where "child_failure_recovery sample_child StatusFailed False sample_child_log no_inbox = Some r"
    using sample_child_retry by blast
  from child_retry_is_settled [OF this] this show ?thesis by (metis option.sel)
qed

text \<open>
  A retried child cannot repeat a finished write: when a call equal to the proposed
  one (same tool, target and arguments, explanations apart) completed in its Step before
  the recovery, the proposal is refused, unless its effect is a pure observation.
\<close>

theorem completed_operation_refused:
  assumes "call_effect proposed \<notin> Some ` {EffectNone, EffectReadOnly, EffectSensitiveRead}"
    and "find is_recovery_start (rev es) = Some recovery" "list_ex (retry_turn turn) es"
    and "e \<in> set es" "ev_payload e = ToolCall call" "same_operation call proposed"
    and "r \<in> set es" "result_of (call_call_id call) r = Some ResultCompleted"
    and "ev_step_id r = ev_step_id e" "ev_seq e < ev_seq r" "ev_seq r < ev_seq recovery"
  shows "completed_recovery_operation es turn proposed \<noteq> None"
proof -
  have some: "find_map f xs \<noteq> None" if "x \<in> set xs" "f x \<noteq> None" for f :: "'a \<Rightarrow> 'b option" and x xs
    using that by (induction xs) (auto split: option.split)
  have "ev_seq e < ev_seq recovery" using assms(10,11) by (rule order_less_trans)
  then have "completed_operation es (ev_seq recovery) proposed e = Some call"
    using assms by (auto simp: completed_operation_def)
  then have "find_map (\<lambda>e. map_option (replay_blocked e)
      (completed_operation es (ev_seq recovery) proposed e)) es \<noteq> None"
    using some [OF assms(4), of "\<lambda>e. map_option (replay_blocked e)
      (completed_operation es (ev_seq recovery) proposed e)"] by simp
  moreover have "\<not> (case call_effect proposed of None \<Rightarrow> False | Some x \<Rightarrow> observation_effect_allowed x)"
    using assms(1) by (auto simp: observation_effect_allowed_def split: option.splits)
  ultimately show ?thesis using assms(2,3) by (simp add: completed_recovery_operation_def)
qed

theorem completed_operation_refused_witness:
  "completed_recovery_operation sample_retry_log ''t'' shell_call \<noteq> None"
  by (rule completed_operation_refused [where e = "sample_child_log ! 1" and r = "sample_child_log ! 2"
        and recovery = "sample_retry_log ! 5" and call = shell_call])
    (simp_all add: sample_retry_log_def sample_child_log_def is_recovery_start_def retry_turn_def
      same_operation_def retry_message_def runtime_source_def sample_result_def result_of_def
      shell_call_def step_event_def new_event_def)

end
