(* ===== verification/Replay.thy ===== *)
theory Replay
  imports Events Rust_Text
begin

text \<open>
  The private replay metadata of a model response (llm/replay.rs) and the codecs of the
  four protocols that own its format (llm/adapters/*/mod.rs): an envelope ties opaque
  provider data (signatures, item ids, tool ids) to the exact response and request it came
  from, and only the codec of the same route, model and replay domain may put it back into
  a later request. The JSON encoder and SHA-256 are third-party code: \<open>replay_digests\<close> holds
  their results, and the messages of the errors are not kept.
\<close>

subsection \<open>Messages of a model request (llm/types.rs)\<close>

record model_tool_call =
  mtc_call_id :: string
  mtc_provider_call_id :: "string option"
  mtc_name :: string
  mtc_arguments :: json

datatype (plugins only: code size) model_block =
    ModelText string
  | ModelReasoning string "json option"
  | ModelToolCall model_tool_call

datatype (plugins only: code size) model_message =
    UserImages string "image_ref list" "string list"
  | UserText string
  | AssistantReply "model_block list" "replay_envelope option" "json option"
  | ToolReply string "string option" string string

record replay_capture =
  cap_response :: json
  cap_blocks :: "json list"

datatype (plugins only: code size) replay_error =
    MetadataInvalid
  | MetadataTooLarge
  | MetadataForbidden
  | AdapterMismatch
  | AdapterUnknown
  | BlockMismatch
  | VersionUnknown
  | FormatUnknown
  | SourceMismatch
  | ContentMismatch
  | ToolIdMismatch
  | HistoryIncompatible

text \<open>The encoder and the hash function: lengths and digests of what they are applied to.\<close>

record replay_digests =
  json_len :: "json \<Rightarrow> nat"
  model_block_hash :: "model_block \<Rightarrow> string"
  model_content_hash :: "model_block list \<Rightarrow> string"
  agent_block_hash :: "assistant_block \<Rightarrow> string"
  agent_content_hash :: "assistant_block list \<Rightarrow> string"
  snapshot_digest :: "request_snapshot \<Rightarrow> string"
  image_projection_digest :: "u32 \<Rightarrow> string \<Rightarrow> string \<Rightarrow> image_ref list \<Rightarrow> string"

subsection \<open>Metadata checks\<close>

definition REPLAY_ENVELOPE_VERSION :: u32 where
  "REPLAY_ENVELOPE_VERSION = 1"

definition MAX_REPLAY_STRING_BYTES :: nat where
  "MAX_REPLAY_STRING_BYTES = 64 * 1024"

definition MAX_REPLAY_METADATA_BYTES :: nat where
  "MAX_REPLAY_METADATA_BYTES = 8 * 1024 * 1024"

definition normalized_key :: "string \<Rightarrow> string" where
  "normalized_key key = map to_ascii_lower (filter is_ascii_alphanumeric key)"

definition is_sensitive_key :: "string \<Rightarrow> bool" where
  "is_sensitive_key key \<longleftrightarrow> normalized_key key \<in> {''apikey'', ''accesstoken'', ''authtoken'',
     ''authorization'', ''clientsecret'', ''credential'', ''credentials'', ''passphrase'',
     ''password'', ''passwd'', ''privatekey'', ''privatekeydata'', ''pwd'', ''secret'', ''token''}"

definition object_with_allowed_keys ::
  "json \<Rightarrow> string list \<Rightarrow> replay_error + (string \<times> json) list" where
  "object_with_allowed_keys v allowed = (case v of
     JObject kvs \<Rightarrow> if list_all (\<lambda>(k, _). k \<in> set allowed) kvs then Inr kvs else Inl MetadataInvalid
   | _ \<Rightarrow> Inl MetadataInvalid)"

definition optional_bounded_string ::
  "(string \<times> json) list \<Rightarrow> string \<Rightarrow> replay_error + string option" where
  "optional_bounded_string kvs key = (case map_of kvs key of
     None \<Rightarrow> Inr None
   | Some v \<Rightarrow> (case v of
       JString s \<Rightarrow>
         if s = [] then Inl MetadataInvalid
         else if MAX_REPLAY_STRING_BYTES < length s then Inl MetadataTooLarge
         else if starts_with ''data:'' s then Inl MetadataForbidden
         else Inr (Some s)
     | _ \<Rightarrow> Inl MetadataInvalid))"

fun bounded_strings :: "(string \<times> json) list \<Rightarrow> string list \<Rightarrow> replay_error + unit" where
  "bounded_strings kvs [] = Inr ()"
| "bounded_strings kvs (k # ks) =
     try_bind (optional_bounded_string kvs k) (\<lambda>_. bounded_strings kvs ks)"

definition is_json_string :: "json \<Rightarrow> bool" where
  "is_json_string v = (case v of JString _ \<Rightarrow> True | _ \<Rightarrow> False)"

fun embeds :: "bool \<Rightarrow> json \<Rightarrow> bool"
  and embeds_list :: "bool \<Rightarrow> json list \<Rightarrow> bool"
  and embeds_entries :: "bool \<Rightarrow> (string \<times> json) list \<Rightarrow> bool" where
  "embeds detail (JString s) = (starts_with ''data:'' s \<or> contains_text '';base64,'' s)"
| "embeds detail (JArray vs) = embeds_list detail vs"
| "embeds detail (JObject kvs) = embeds_entries detail kvs"
| "embeds detail JNull = False"
| "embeds detail (JBool b) = False"
| "embeds detail (JNumber n) = False"
| "embeds_list detail [] = False"
| "embeds_list detail (v # vs) = (embeds detail v \<or> embeds_list detail vs)"
| "embeds_entries detail [] = False"
| "embeds_entries detail ((k, v) # kvs) =
     ((is_sensitive_key k
       \<or> \<not> (detail \<and> (k = ''text'' \<or> k = ''summary'') \<and> is_json_string v)
         \<and> embeds (k = ''reasoningDetails'') v)
      \<or> embeds_entries detail kvs)"

definition validate_metadata_safety :: "replay_digests \<Rightarrow> json \<Rightarrow> replay_error + unit" where
  "validate_metadata_safety cx v =
     (if MAX_REPLAY_METADATA_BYTES < json_len cx v then Inl MetadataTooLarge
      else if embeds False v then Inl MetadataForbidden
      else Inr ())"

subsection \<open>The codec of a protocol (llm/adapter.rs)\<close>

record replay_codec =
  cdc_adapter_id :: string
  cdc_format_version :: u32
  cdc_validate_response :: "json \<Rightarrow> replay_error + unit"
  cdc_validate_block :: "replay_block_kind \<Rightarrow> json \<Rightarrow> replay_error + unit"
  cdc_restore :: "model_block list \<Rightarrow> replay_envelope \<Rightarrow> replay_error + model_block list \<times> json"

definition env_response :: "replay_envelope \<Rightarrow> json" where
  "env_response env = (case env of EnvelopePrepared _ _ _ _ response _ \<Rightarrow> response)"

definition env_blocks :: "replay_envelope \<Rightarrow> replay_block list" where
  "env_blocks env = (case env of EnvelopePrepared _ _ _ _ _ blocks \<Rightarrow> blocks)"

definition provider_call_metadata :: "json \<Rightarrow> string option" where
  "provider_call_metadata v = Option.bind (json_get ''providerCallId'' v) json_as_str"

text \<open>\<open>content.iter\_mut().zip(blocks)\<close>: content past the last block is left as it is.\<close>

fun restore_each ::
  "(model_block \<Rightarrow> json \<Rightarrow> replay_error + model_block) \<Rightarrow> model_block list \<Rightarrow> replay_block list
    \<Rightarrow> replay_error + model_block list" where
  "restore_each f (c # cs) (b # bs) =
     try_bind (f c (rblk_metadata b)) (\<lambda>c'. try_bind (restore_each f cs bs) (\<lambda>cs'. Inr (c' # cs')))"
| "restore_each f [] bs = Inr []"
| "restore_each f cs [] = Inr cs"

subsection \<open>The four protocols\<close>

definition ollama_validate_response :: "json \<Rightarrow> replay_error + unit" where
  "ollama_validate_response v =
     try_bind (object_with_allowed_keys v [''model'', ''createdAt'', ''doneReason''])
       (\<lambda>kvs. bounded_strings kvs [''model'', ''createdAt'', ''doneReason''])"

definition ollama_validate_block :: "replay_block_kind \<Rightarrow> json \<Rightarrow> replay_error + unit" where
  "ollama_validate_block kind v =
     try_bind (object_with_allowed_keys v (if kind = BlockToolCall then [''providerCallId''] else []))
       (\<lambda>kvs. bounded_strings kvs [''providerCallId''])"

definition ollama_restore_block :: "model_block \<Rightarrow> json \<Rightarrow> replay_error + model_block" where
  "ollama_restore_block c meta = (case c of
     ModelToolCall call \<Rightarrow>
       Inr (ModelToolCall (call\<lparr>mtc_provider_call_id := provider_call_metadata meta\<rparr>))
   | _ \<Rightarrow> Inr c)"

definition ollama_codec :: replay_codec where
  "ollama_codec = \<lparr>cdc_adapter_id = ''ollama'', cdc_format_version = 1,
     cdc_validate_response = ollama_validate_response,
     cdc_validate_block = ollama_validate_block,
     cdc_restore = (\<lambda>content env. try_bind (restore_each ollama_restore_block content (env_blocks env))
       (\<lambda>content'. Inr (content', env_response env)))\<rparr>"

definition optional_id :: "(string \<times> json) list \<Rightarrow> string \<Rightarrow> (string \<Rightarrow> bool) \<Rightarrow> replay_error + unit" where
  "optional_id kvs key ok = try_bind (optional_bounded_string kvs key) (\<lambda>s.
     case s of Some t \<Rightarrow> ensure (ok t) MetadataInvalid | None \<Rightarrow> Inr ())"

definition required_string :: "(string \<times> json) list \<Rightarrow> string \<Rightarrow> replay_error + unit" where
  "required_string kvs key = try_bind (optional_bounded_string kvs key) (\<lambda>s.
     ensure (s \<noteq> None) MetadataInvalid)"

definition responses_validate_response :: "json \<Rightarrow> replay_error + unit" where
  "responses_validate_response v =
     try_bind (object_with_allowed_keys v [''responseId'', ''model''])
       (\<lambda>kvs. bounded_strings kvs [''responseId'', ''model''])"

fun validate_text_parts :: "json list \<Rightarrow> replay_error + unit" where
  "validate_text_parts [] = Inr ()"
| "validate_text_parts (part # parts) =
     try_bind (object_with_allowed_keys part [''type'', ''text'']) (\<lambda>kvs.
     try_bind (bounded_strings kvs [''type'', ''text'']) (\<lambda>_. validate_text_parts parts))"

definition validate_parts_field :: "(string \<times> json) list \<Rightarrow> string \<Rightarrow> replay_error + unit" where
  "validate_parts_field item key = (case map_of item key of
     None \<Rightarrow> Inr ()
   | Some (JArray parts) \<Rightarrow> validate_text_parts parts
   | Some _ \<Rightarrow> Inl MetadataInvalid)"

definition validate_native_item :: "json \<Rightarrow> replay_error + unit" where
  "validate_native_item v =
     try_bind (object_with_allowed_keys v
       [''type'', ''id'', ''status'', ''encrypted_content'', ''summary'', ''content'']) (\<lambda>item.
     try_bind (ensure (Option.bind (map_of item ''type'') json_as_str = Some ''reasoning'') MetadataInvalid) (\<lambda>_.
     try_bind (bounded_strings item [''id'', ''status'', ''encrypted_content'']) (\<lambda>_.
     try_bind (validate_parts_field item ''summary'') (\<lambda>_.
     validate_parts_field item ''content''))))"

definition responses_validate_block :: "replay_block_kind \<Rightarrow> json \<Rightarrow> replay_error + unit" where
  "responses_validate_block kind v =
     try_bind (object_with_allowed_keys v (case kind of
         BlockText \<Rightarrow> [''providerItemId'']
       | BlockReasoning \<Rightarrow> [''nativeItem'']
       | BlockToolCall \<Rightarrow> [''providerCallId'', ''providerItemId''])) (\<lambda>kvs.
     try_bind (bounded_strings kvs [''providerCallId'', ''providerItemId'']) (\<lambda>_.
     case map_of kvs ''nativeItem'' of None \<Rightarrow> Inr () | Some item \<Rightarrow> validate_native_item item))"

definition responses_restore_block :: "model_block \<Rightarrow> json \<Rightarrow> replay_error + model_block" where
  "responses_restore_block c meta = (case c of
     ModelReasoning text _ \<Rightarrow> Inr (ModelReasoning text (json_get ''nativeItem'' meta))
   | ModelToolCall call \<Rightarrow>
       Inr (ModelToolCall (call\<lparr>mtc_provider_call_id := provider_call_metadata meta\<rparr>))
   | ModelText _ \<Rightarrow> Inr c)"

definition responses_codec :: replay_codec where
  "responses_codec = \<lparr>cdc_adapter_id = ''responses'', cdc_format_version = 1,
     cdc_validate_response = responses_validate_response,
     cdc_validate_block = responses_validate_block,
     cdc_restore = (\<lambda>content env. try_bind (restore_each responses_restore_block content (env_blocks env))
       (\<lambda>content'. Inr (content', env_response env)))\<rparr>"

text \<open>Reasoning details of the chat-completions protocol (adapters/chat\_completions/reasoning.rs).\<close>

definition detail_limit :: "string \<Rightarrow> nat" where
  "detail_limit key = (if key \<in> {''type'', ''id'', ''format''} then 64 * 1024
     else MAX_REPLAY_METADATA_BYTES)"

fun validate_detail_fields :: "(string \<times> json) list \<Rightarrow> string list \<Rightarrow> replay_error + unit" where
  "validate_detail_fields detail [] = Inr ()"
| "validate_detail_fields detail (key # keys) = (case map_of detail key of
     None \<Rightarrow> validate_detail_fields detail keys
   | Some JNull \<Rightarrow> validate_detail_fields detail keys
   | Some (JString text) \<Rightarrow>
       if detail_limit key < length text then Inl MetadataTooLarge
       else validate_detail_fields detail keys
   | Some _ \<Rightarrow> Inl MetadataInvalid)"

fun validate_detail_list :: "json list \<Rightarrow> replay_error + unit" where
  "validate_detail_list [] = Inr ()"
| "validate_detail_list (v # vs) =
     try_bind (object_with_allowed_keys v [''type'', ''text'', ''summary'', ''data'',
       ''signature'', ''index'', ''id'', ''format'']) (\<lambda>detail.
     try_bind (validate_detail_fields detail [''type'', ''text'', ''summary'', ''data'',
       ''signature'', ''id'', ''format'']) (\<lambda>_.
     try_bind (ensure (case map_of detail ''index'' of
         None \<Rightarrow> True | Some i \<Rightarrow> i = JNull \<or> json_as_u64 i \<noteq> None) MetadataInvalid) (\<lambda>_.
     validate_detail_list vs)))"

definition validate_details :: "json \<Rightarrow> replay_error + unit" where
  "validate_details v = (case v of JArray ds \<Rightarrow> validate_detail_list ds | _ \<Rightarrow> Inl MetadataInvalid)"

definition validate_details_field :: "(string \<times> json) list \<Rightarrow> replay_error + unit" where
  "validate_details_field kvs = (case map_of kvs ''reasoningDetails'' of
     None \<Rightarrow> Inr () | Some ds \<Rightarrow> validate_details ds)"

definition chat_validate_response :: "json \<Rightarrow> replay_error + unit" where
  "chat_validate_response v =
     try_bind (object_with_allowed_keys v [''id'', ''model'', ''systemFingerprint'', ''reasoningDetails'']) (\<lambda>kvs.
     try_bind (bounded_strings kvs [''id'', ''model'', ''systemFingerprint'']) (\<lambda>_.
     validate_details_field kvs))"

definition chat_validate_block :: "replay_block_kind \<Rightarrow> json \<Rightarrow> replay_error + unit" where
  "chat_validate_block kind v =
     try_bind (object_with_allowed_keys v (case kind of
         BlockText \<Rightarrow> [] | BlockReasoning \<Rightarrow> [''reasoningDetails''] | BlockToolCall \<Rightarrow> [''providerCallId''])) (\<lambda>kvs.
     try_bind (validate_details_field kvs) (\<lambda>_.
     bounded_strings kvs [''providerCallId'']))"

definition chat_restore_block :: "model_block \<Rightarrow> json \<Rightarrow> replay_error + model_block" where
  "chat_restore_block c meta = (case c of
     ModelReasoning text item \<Rightarrow> (case json_get ''reasoningDetails'' meta of
         Some ds \<Rightarrow> Inr (ModelReasoning text (Some (JObject [(''reasoning_details'', ds)])))
       | None \<Rightarrow> Inr c)
   | ModelToolCall call \<Rightarrow>
       Inr (ModelToolCall (call\<lparr>mtc_provider_call_id := provider_call_metadata meta\<rparr>))
   | ModelText _ \<Rightarrow> Inr c)"

definition chat_completions_codec :: replay_codec where
  "chat_completions_codec = \<lparr>cdc_adapter_id = ''chat-completions'', cdc_format_version = 1,
     cdc_validate_response = chat_validate_response,
     cdc_validate_block = chat_validate_block,
     cdc_restore = (\<lambda>content env. try_bind (restore_each chat_restore_block content (env_blocks env))
       (\<lambda>content'. Inr (content', env_response env)))\<rparr>"

definition MAX_PROVIDER_TOOL_CALL_ID_BYTES :: nat where
  "MAX_PROVIDER_TOOL_CALL_ID_BYTES = 256"

definition safe_provider_id :: "string \<Rightarrow> bool" where
  "safe_provider_id v \<longleftrightarrow> v \<noteq> [] \<and> length v \<le> MAX_PROVIDER_TOOL_CALL_ID_BYTES
     \<and> list_all (\<lambda>b. is_ascii_alphanumeric b \<or> b \<in> {CHR ''-'', CHR ''_'', CHR ''.'', CHR '':''}) v"

fun validate_redacted_items :: "json list \<Rightarrow> replay_error + unit" where
  "validate_redacted_items [] = Inr ()"
| "validate_redacted_items (item # items) =
     try_bind (object_with_allowed_keys item [''data'']) (\<lambda>kvs.
     try_bind (required_string kvs ''data'') (\<lambda>_. validate_redacted_items items))"

definition validate_redacted_list :: "json option \<Rightarrow> replay_error + unit" where
  "validate_redacted_list v = (case v of
     None \<Rightarrow> Inr ()
   | Some (JArray items) \<Rightarrow> validate_redacted_items items
   | Some _ \<Rightarrow> Inl MetadataInvalid)"

definition anthropic_validate_response :: "json \<Rightarrow> replay_error + unit" where
  "anthropic_validate_response v =
     try_bind (object_with_allowed_keys v [''messageId'', ''model'', ''redactedThinkingTail'']) (\<lambda>kvs.
     try_bind (optional_id kvs ''messageId'' safe_provider_id) (\<lambda>_.
     try_bind (optional_bounded_string kvs ''model'') (\<lambda>_.
     validate_redacted_list (map_of kvs ''redactedThinkingTail''))))"

definition anthropic_validate_block :: "replay_block_kind \<Rightarrow> json \<Rightarrow> replay_error + unit" where
  "anthropic_validate_block kind v =
     try_bind (object_with_allowed_keys v (case kind of
         BlockText \<Rightarrow> [''redactedThinkingBefore'']
       | BlockReasoning \<Rightarrow> [''signature'', ''redactedThinkingBefore'']
       | BlockToolCall \<Rightarrow> [''providerCallId'', ''redactedThinkingBefore''])) (\<lambda>kvs.
     try_bind (validate_redacted_list (map_of kvs ''redactedThinkingBefore'')) (\<lambda>_.
     try_bind (if kind = BlockReasoning then required_string kvs ''signature'' else Inr ()) (\<lambda>_.
     optional_id kvs ''providerCallId'' safe_provider_id)))"

definition anthropic_restore_block :: "model_block \<Rightarrow> json \<Rightarrow> replay_error + model_block" where
  "anthropic_restore_block c meta = (case c of
     ModelReasoning text _ \<Rightarrow>
       try_bind (ok_or (Option.bind (json_get ''signature'' meta) json_as_str) MetadataInvalid) (\<lambda>sig.
       Inr (ModelReasoning text (Some (JObject [(''anthropic'',
         JObject [(''type'', JString ''thinking''), (''signature'', JString sig)])]))))
   | ModelToolCall call \<Rightarrow>
       Inr (ModelToolCall (call\<lparr>mtc_provider_call_id := provider_call_metadata meta\<rparr>))
   | ModelText _ \<Rightarrow> Inr c)"

definition anthropic_codec :: replay_codec where
  "anthropic_codec = \<lparr>cdc_adapter_id = ''anthropic-messages'', cdc_format_version = 1,
     cdc_validate_response = anthropic_validate_response,
     cdc_validate_block = anthropic_validate_block,
     cdc_restore = (\<lambda>content env. try_bind (restore_each anthropic_restore_block content (env_blocks env))
       (\<lambda>content'. Inr (content', JObject [(''response'', env_response env),
          (''blocks'', JArray (map rblk_metadata (env_blocks env)))])))\<rparr>"

definition registered_codec :: "string \<Rightarrow> replay_codec option" where
  "registered_codec adapter_id =
     (if adapter_id = ''chat-completions'' then Some chat_completions_codec
      else if adapter_id = ''responses'' then Some responses_codec
      else if adapter_id = ''ollama'' then Some ollama_codec
      else if adapter_id = ''anthropic-messages'' then Some anthropic_codec
      else None)"

subsection \<open>Envelopes\<close>

definition model_block_kind :: "model_block \<Rightarrow> replay_block_kind" where
  "model_block_kind b = (case b of ModelText _ \<Rightarrow> BlockText | ModelReasoning _ _ \<Rightarrow> BlockReasoning
     | ModelToolCall _ \<Rightarrow> BlockToolCall)"

definition agent_block_kind :: "assistant_block \<Rightarrow> replay_block_kind" where
  "agent_block_kind b = (case b of ContentText _ \<Rightarrow> BlockText | ContentReasoning _ _ \<Rightarrow> BlockReasoning
     | ContentToolCall _ \<Rightarrow> BlockToolCall)"

definition model_block_has_output :: "model_block \<Rightarrow> bool" where
  "model_block_has_output b = (case b of ModelText t \<Rightarrow> \<not> is_blank t
     | ModelReasoning t _ \<Rightarrow> \<not> is_blank t | ModelToolCall _ \<Rightarrow> True)"

record block_fact =
  bf_kind :: replay_block_kind
  bf_hash :: string
  bf_provider_call_id :: "string option"

definition model_block_fact :: "replay_digests \<Rightarrow> model_block \<Rightarrow> block_fact" where
  "model_block_fact cx b = \<lparr>bf_kind = model_block_kind b, bf_hash = model_block_hash cx b,
     bf_provider_call_id = (case b of ModelToolCall call \<Rightarrow> mtc_provider_call_id call | _ \<Rightarrow> None)\<rparr>"

definition agent_block_fact :: "replay_digests \<Rightarrow> assistant_block \<Rightarrow> block_fact" where
  "agent_block_fact cx b = \<lparr>bf_kind = agent_block_kind b, bf_hash = agent_block_hash cx b,
     bf_provider_call_id = (case b of ContentToolCall call \<Rightarrow> call_provider_call_id call | _ \<Rightarrow> None)\<rparr>"

definition image_projection_hash :: "replay_digests \<Rightarrow> request_snapshot \<Rightarrow> string" where
  "image_projection_hash cx snap = (case snap of
     RequestSnapshotPrepared _ _ _ _ _ _ _ _ _ _ _ _ _ version policy hash images \<Rightarrow>
       image_projection_digest cx version policy hash images)"

fun check_blocks ::
  "replay_digests \<Rightarrow> replay_codec \<Rightarrow> nat \<Rightarrow> replay_block list \<Rightarrow> block_fact list \<Rightarrow> replay_error + unit" where
  "check_blocks cx codec i (b # bs) (f # fs) =
     try_bind (ensure (rblk_index b = word_of_nat i \<and> rblk_kind b = bf_kind f
       \<and> rblk_content_hash b = bf_hash f) BlockMismatch) (\<lambda>_.
     try_bind (cdc_validate_block codec (rblk_kind b) (rblk_metadata b)) (\<lambda>_.
     try_bind (validate_metadata_safety cx (rblk_metadata b)) (\<lambda>_.
     try_bind (ensure (\<not> (rblk_kind b = BlockToolCall
       \<and> provider_call_metadata (rblk_metadata b) \<noteq> bf_provider_call_id f)) ToolIdMismatch) (\<lambda>_.
     check_blocks cx codec (Suc i) bs fs))))"
| "check_blocks cx codec i [] fs = Inr ()"
| "check_blocks cx codec i bs [] = Inr ()"

definition source_matches ::
  "replay_digests \<Rightarrow> string \<Rightarrow> request_snapshot \<Rightarrow> string \<Rightarrow> replay_source \<Rightarrow> bool" where
  "source_matches cx adapter_id snap request_id src = (case snap of
     RequestSnapshotPrepared route_id route_revision snapshot_adapter model_id _ _ _ replay_domain_id
       _ _ _ _ _ preparation_version projection_policy content_hash images \<Rightarrow>
       rsrc_request_id src = request_id
       \<and> rsrc_request_snapshot_digest src = snapshot_digest cx snap
       \<and> rsrc_route_id src = route_id
       \<and> rsrc_route_revision src = route_revision
       \<and> rsrc_model_id src = model_id
       \<and> rsrc_replay_domain_id src = replay_domain_id
       \<and> adapter_id = snapshot_adapter
       \<and> rsrc_request_content_hash src = content_hash
       \<and> rsrc_preparation_version src = preparation_version
       \<and> rsrc_projection_policy src = projection_policy
       \<and> rsrc_image_projection_refs src = images
       \<and> rsrc_image_projection_hash src = image_projection_hash cx snap)"

definition validate_envelope_common ::
  "replay_digests \<Rightarrow> replay_codec \<Rightarrow> replay_envelope \<Rightarrow> request_snapshot \<Rightarrow> string \<Rightarrow> string
    \<Rightarrow> block_fact list \<Rightarrow> replay_error + unit" where
  "validate_envelope_common cx codec env snap request_id actual_hash facts = (case env of
     EnvelopePrepared version adapter_id format src response blocks \<Rightarrow>
       if version \<noteq> REPLAY_ENVELOPE_VERSION then Inl VersionUnknown
       else if adapter_id \<noteq> cdc_adapter_id codec then Inl AdapterMismatch
       else if format \<noteq> cdc_format_version codec then Inl FormatUnknown
       else if \<not> source_matches cx adapter_id snap request_id src then Inl SourceMismatch
       else if rsrc_assistant_content_hash src \<noteq> actual_hash \<or> length blocks \<noteq> length facts
       then Inl ContentMismatch
       else try_bind (cdc_validate_response codec response) (\<lambda>_.
            try_bind (validate_metadata_safety cx response) (\<lambda>_.
            check_blocks cx codec 0 blocks facts)))"

definition validate_model_envelope ::
  "replay_digests \<Rightarrow> replay_codec \<Rightarrow> replay_envelope \<Rightarrow> model_block list \<Rightarrow> request_snapshot
    \<Rightarrow> string \<Rightarrow> replay_error + unit" where
  "validate_model_envelope cx codec env content snap request_id =
     validate_envelope_common cx codec env snap request_id (model_content_hash cx content)
       (map (model_block_fact cx) content)"

definition validate_agent_envelope ::
  "replay_digests \<Rightarrow> replay_envelope \<Rightarrow> assistant_block list \<Rightarrow> request_snapshot
    \<Rightarrow> string \<Rightarrow> replay_error + unit" where
  "validate_agent_envelope cx env content snap request_id = (case env of
     EnvelopePrepared _ adapter_id _ _ _ _ \<Rightarrow>
       try_bind (ok_or (registered_codec adapter_id) AdapterUnknown) (\<lambda>codec.
       validate_envelope_common cx codec env snap request_id (agent_content_hash cx content)
         (map (agent_block_fact cx) content)))"

fun prepare_blocks ::
  "replay_digests \<Rightarrow> replay_codec \<Rightarrow> nat \<Rightarrow> model_block list \<Rightarrow> json list
    \<Rightarrow> replay_error + replay_block list" where
  "prepare_blocks cx codec i (c # cs) (m # ms) =
     try_bind (cdc_validate_block codec (model_block_kind c) m) (\<lambda>_.
     try_bind (validate_metadata_safety cx m) (\<lambda>_.
     try_bind (prepare_blocks cx codec (Suc i) cs ms) (\<lambda>bs.
     Inr (\<lparr>rblk_index = word_of_nat i, rblk_kind = model_block_kind c,
            rblk_content_hash = model_block_hash cx c, rblk_metadata = m\<rparr> # bs))))"
| "prepare_blocks cx codec i [] ms = Inr []"
| "prepare_blocks cx codec i cs [] = Inr []"

definition prepare_envelope ::
  "replay_digests \<Rightarrow> replay_codec \<Rightarrow> string \<Rightarrow> request_snapshot \<Rightarrow> model_block list \<Rightarrow> replay_capture
    \<Rightarrow> replay_error + replay_envelope" where
  "prepare_envelope cx codec request_id snap content capture = (case snap of
     RequestSnapshotPrepared route_id route_revision adapter_id model_id _ _ _ replay_domain_id
       _ _ _ _ _ preparation_version projection_policy content_hash images \<Rightarrow>
       if adapter_id \<noteq> cdc_adapter_id codec then Inl AdapterMismatch
       else if length (cap_blocks capture) \<noteq> length content then Inl BlockMismatch
       else try_bind (cdc_validate_response codec (cap_response capture)) (\<lambda>_.
         try_bind (validate_metadata_safety cx (cap_response capture)) (\<lambda>_.
         try_bind (prepare_blocks cx codec 0 content (cap_blocks capture)) (\<lambda>blocks.
         let env = EnvelopePrepared REPLAY_ENVELOPE_VERSION adapter_id (cdc_format_version codec)
           \<lparr>rsrc_request_id = request_id, rsrc_request_snapshot_digest = snapshot_digest cx snap,
             rsrc_route_id = route_id, rsrc_route_revision = route_revision, rsrc_model_id = model_id,
             rsrc_replay_domain_id = replay_domain_id, rsrc_request_content_hash = content_hash,
             rsrc_preparation_version = preparation_version,
             rsrc_projection_policy = projection_policy, rsrc_image_projection_refs = images,
             rsrc_image_projection_hash = image_projection_hash cx snap,
             rsrc_assistant_content_hash = model_content_hash cx content\<rparr>
           (cap_response capture) blocks
         in try_bind (validate_model_envelope cx codec env content snap request_id) (\<lambda>_. Inr env)))))"

subsection \<open>Projecting a history for a request\<close>

record replay_target =
  rtgt_route_id :: string
  rtgt_model_id :: string
  rtgt_replay_domain_id :: string

record history_scan =
  hs_provider_ids :: "string \<rightharpoonup> string"
  hs_pending :: "string set"
  hs_completed :: "string set"

definition clear_private :: "model_block \<Rightarrow> model_block" where
  "clear_private b = (case b of ModelReasoning text _ \<Rightarrow> ModelReasoning text None
     | ModelToolCall call \<Rightarrow> ModelToolCall (call\<lparr>mtc_provider_call_id := None\<rparr>)
     | ModelText t \<Rightarrow> ModelText t)"

definition same_domain :: "replay_codec \<Rightarrow> replay_target \<Rightarrow> replay_envelope \<Rightarrow> bool" where
  "same_domain codec target env = (case env of EnvelopePrepared _ adapter_id format src _ _ \<Rightarrow>
     adapter_id = cdc_adapter_id codec \<and> format = cdc_format_version codec
     \<and> rsrc_route_id src = rtgt_route_id target \<and> rsrc_model_id src = rtgt_model_id target
     \<and> rsrc_replay_domain_id src = rtgt_replay_domain_id target)"

definition restore_reply ::
  "replay_codec \<Rightarrow> replay_target \<Rightarrow> model_block list \<Rightarrow> replay_envelope option
    \<Rightarrow> replay_error + model_block list \<times> json option" where
  "restore_reply codec target content replay = (case replay of
     Some env \<Rightarrow>
       if same_domain codec target env
       then try_bind (cdc_restore codec (map clear_private content) env)
         (\<lambda>(content', native). Inr (content', Some native))
       else Inr (map clear_private content, None)
   | None \<Rightarrow> Inr (map clear_private content, None))"

fun open_calls :: "history_scan \<Rightarrow> model_block list \<Rightarrow> replay_error + history_scan" where
  "open_calls s [] = Inr s"
| "open_calls s (ModelToolCall call # bs) =
     (if mtc_call_id call \<in> hs_pending s \<or> mtc_call_id call \<in> hs_completed s
      then Inl HistoryIncompatible
      else open_calls (s\<lparr>hs_pending := insert (mtc_call_id call) (hs_pending s),
        hs_provider_ids := (case mtc_provider_call_id call of
           Some p \<Rightarrow> (hs_provider_ids s)(mtc_call_id call \<mapsto> p)
         | None \<Rightarrow> hs_provider_ids s)\<rparr>) bs)"
| "open_calls s (b # bs) = open_calls s bs"

definition project_message ::
  "replay_codec \<Rightarrow> replay_target \<Rightarrow> history_scan \<Rightarrow> model_message
    \<Rightarrow> replay_error + history_scan \<times> model_message" where
  "project_message codec target s m = (case m of
     AssistantReply content replay _ \<Rightarrow>
       try_bind (restore_reply codec target content replay) (\<lambda>(content', native).
       try_bind (open_calls s content') (\<lambda>s'. Inr (s', AssistantReply content' None native)))
   | ToolReply call_id _ name text \<Rightarrow>
       if call_id \<notin> hs_pending s \<or> call_id \<in> hs_completed s then Inl HistoryIncompatible
       else Inr (s\<lparr>hs_pending := hs_pending s - {call_id},
                   hs_completed := insert call_id (hs_completed s)\<rparr>,
                 ToolReply call_id (hs_provider_ids s call_id) name text)
   | UserText _ \<Rightarrow> Inr (s, m)
   | UserImages _ _ _ \<Rightarrow> Inr (s, m))"

fun project_messages ::
  "replay_codec \<Rightarrow> replay_target \<Rightarrow> history_scan \<Rightarrow> model_message list
    \<Rightarrow> replay_error + history_scan \<times> model_message list" where
  "project_messages codec target s [] = Inr (s, [])"
| "project_messages codec target s (m # ms) =
     try_bind (project_message codec target s m) (\<lambda>(s', m').
     try_bind (project_messages codec target s' ms) (\<lambda>(t, ms'). Inr (t, m' # ms')))"

definition history_start :: history_scan where
  "history_start = \<lparr>hs_provider_ids = Map.empty, hs_pending = {}, hs_completed = {}\<rparr>"

definition project_history ::
  "replay_codec \<Rightarrow> replay_target \<Rightarrow> model_message list \<Rightarrow> replay_error + model_message list" where
  "project_history codec target messages =
     try_bind (project_messages codec target history_start messages) (\<lambda>(s, messages').
     if hs_pending s \<noteq> {} then Inl HistoryIncompatible else Inr messages')"

definition public_block :: "assistant_block \<Rightarrow> assistant_block" where
  "public_block b = (case b of ContentReasoning text _ \<Rightarrow> ContentReasoning text None
     | ContentToolCall call \<Rightarrow> ContentToolCall (call\<lparr>call_provider_call_id := None\<rparr>)
     | ContentText t \<Rightarrow> ContentText t)"

definition public_event_projection :: "session_event \<Rightarrow> session_event" where
  "public_event_projection e = (case ev_payload e of
     AssistantMessage mid content usage stop partial replay \<Rightarrow>
       e\<lparr>ev_payload := AssistantMessage mid (map public_block content) usage stop partial None\<rparr>
   | ToolCall call \<Rightarrow> e\<lparr>ev_payload := ToolCall (call\<lparr>call_provider_call_id := None\<rparr>)\<rparr>
   | _ \<Rightarrow> e)"

fun redact_json_value :: "(string \<Rightarrow> string) \<Rightarrow> json \<Rightarrow> json"
  and redact_json_list :: "(string \<Rightarrow> string) \<Rightarrow> json list \<Rightarrow> json list"
  and redact_json_entries :: "(string \<Rightarrow> string) \<Rightarrow> (string \<times> json) list \<Rightarrow> (string \<times> json) list" where
  "redact_json_value redact (JObject kvs) = JObject (redact_json_entries redact kvs)"
| "redact_json_value redact (JArray vs) = JArray (redact_json_list redact vs)"
| "redact_json_value redact (JString s) = JString (redact s)"
| "redact_json_value redact JNull = JNull"
| "redact_json_value redact (JBool b) = JBool b"
| "redact_json_value redact (JNumber n) = JNumber n"
| "redact_json_list redact [] = []"
| "redact_json_list redact (v # vs) = redact_json_value redact v # redact_json_list redact vs"
| "redact_json_entries redact [] = []"
| "redact_json_entries redact ((k, v) # kvs) =
     (k, if is_sensitive_key k then JString ''[REDACTED]'' else redact_json_value redact v)
       # redact_json_entries redact kvs"

subsection \<open>The contract of a codec\<close>

text \<open>
  What the projection relies on: restoring puts back private fields only, and gives every
  tool call the provider id recorded in its block.
\<close>

locale replay_protocol =
  fixes codec :: replay_codec
  assumes restore_public:
      "cdc_restore codec content env = Inr (content', native) \<Longrightarrow>
        map clear_private content' = map clear_private content"
    and restore_calls:
      "cdc_restore codec content env = Inr (content', native) \<Longrightarrow>
        i < length content' \<Longrightarrow> i < length (env_blocks env) \<Longrightarrow>
        content' ! i = ModelToolCall call \<Longrightarrow>
        mtc_provider_call_id call = provider_call_metadata (rblk_metadata (env_blocks env ! i))"
begin

lemma restore_length:
  "cdc_restore codec content env = Inr (content', native) \<Longrightarrow> length content' = length content"
  using restore_public by (metis length_map)

lemma restore_reply_public:
  "restore_reply codec target content replay = Inr (content', native) \<Longrightarrow>
    map clear_private content' = map clear_private content"
proof -
  have cc: "clear_private (clear_private b) = clear_private b" for b
    by (cases b) (simp_all add: clear_private_def)
  assume "restore_reply codec target content replay = Inr (content', native)"
  then show ?thesis
    by (auto simp: restore_reply_def res_simps cc comp_def split: option.splits if_splits
        dest!: restore_public)
qed

end

definition restores_block :: "(model_block \<Rightarrow> json \<Rightarrow> replay_error + model_block) \<Rightarrow> bool" where
  "restores_block f \<longleftrightarrow> (\<forall>c m c'. f c m = Inr c' \<longrightarrow> clear_private c' = clear_private c
     \<and> (\<forall>call. c' = ModelToolCall call \<longrightarrow> mtc_provider_call_id call = provider_call_metadata m))"

lemma restores_blockD:
  "restores_block f \<Longrightarrow> f c m = Inr c' \<Longrightarrow> clear_private c' = clear_private c"
  "restores_block f \<Longrightarrow> f c m = Inr (ModelToolCall call) \<Longrightarrow>
    mtc_provider_call_id call = provider_call_metadata m"
  unfolding restores_block_def by blast+

lemma restore_each_public:
  assumes "restores_block f" and "restore_each f cs bs = Inr cs'"
  shows "map clear_private cs' = map clear_private cs"
  using assms
proof (induction f cs bs arbitrary: cs' rule: restore_each.induct)
  case (1 f c cs b bs)
  then show ?case by (auto simp: res_simps dest: restores_blockD(1) [OF 1(2)])
qed auto

lemma restore_each_calls:
  assumes "restores_block f" and "restore_each f cs bs = Inr cs'"
    and "i < length cs'" "i < length bs" "cs' ! i = ModelToolCall call"
  shows "mtc_provider_call_id call = provider_call_metadata (rblk_metadata (bs ! i))"
  using assms
proof (induction f cs bs arbitrary: cs' i rule: restore_each.induct)
  case (1 f c cs b bs)
  then obtain c' ds where f: "f c (rblk_metadata b) = Inr c'" "restore_each f cs bs = Inr ds"
    "cs' = c' # ds" by (auto simp: res_simps)
  show ?case
  proof (cases i)
    case 0
    then show ?thesis using 1 f by (auto dest: restores_blockD(2) [OF 1(2)])
  next
    case (Suc j)
    then show ?thesis using 1 f by auto
  qed
qed auto

lemma codec_restores:
  "restores_block ollama_restore_block" "restores_block responses_restore_block"
  "restores_block chat_restore_block" "restores_block anthropic_restore_block"
  by (auto simp: restores_block_def ollama_restore_block_def responses_restore_block_def
      chat_restore_block_def anthropic_restore_block_def clear_private_def res_simps
      split: model_block.splits option.splits)

lemma protocol_from_each:
  assumes "restores_block f"
    and "cdc_restore codec = (\<lambda>content env. try_bind (restore_each f content (env_blocks env))
           (\<lambda>content'. Inr (content', native env)))"
  shows "replay_protocol codec"
  by unfold_locales
    (auto simp: assms(2) res_simps dest: restore_each_public [OF assms(1)]
        intro: restore_each_calls [OF assms(1)])

interpretation ollama: replay_protocol ollama_codec
  by (rule protocol_from_each [OF codec_restores(1)]) (simp add: ollama_codec_def)

interpretation responses: replay_protocol responses_codec
  by (rule protocol_from_each [OF codec_restores(2)]) (simp add: responses_codec_def)

interpretation chat_completions: replay_protocol chat_completions_codec
  by (rule protocol_from_each [OF codec_restores(3)]) (simp add: chat_completions_codec_def)

interpretation anthropic: replay_protocol anthropic_codec
  by (rule protocol_from_each [OF codec_restores(4)]) (simp add: anthropic_codec_def)

lemma registered_protocol: "registered_codec adapter_id = Some codec \<Longrightarrow> replay_protocol codec"
  using ollama.replay_protocol_axioms responses.replay_protocol_axioms
    chat_completions.replay_protocol_axioms anthropic.replay_protocol_axioms
  by (auto simp: registered_codec_def split: if_splits)

subsection \<open>Histories that a protocol accepts\<close>

definition block_calls :: "model_block list \<Rightarrow> string list" where
  "block_calls content = filter_map (\<lambda>b. case b of ModelToolCall call \<Rightarrow> Some (mtc_call_id call)
     | ModelText _ \<Rightarrow> None | ModelReasoning _ _ \<Rightarrow> None) content"

definition message_calls :: "model_message \<Rightarrow> string list" where
  "message_calls m = (case m of AssistantReply content _ _ \<Rightarrow> block_calls content | _ \<Rightarrow> [])"

definition message_results :: "model_message \<Rightarrow> string list" where
  "message_results m = (case m of ToolReply call_id _ _ _ \<Rightarrow> [call_id] | _ \<Rightarrow> [])"

definition history_calls :: "model_message list \<Rightarrow> string list" where
  "history_calls ms = concat (map message_calls ms)"

definition history_results :: "model_message list \<Rightarrow> string list" where
  "history_results ms = concat (map message_results ms)"

definition paired_history :: "model_message list \<Rightarrow> bool" where
  "paired_history ms \<longleftrightarrow> distinct (history_calls ms) \<and> distinct (history_results ms)
     \<and> set (history_results ms) = set (history_calls ms)
     \<and> (\<forall>n. set (history_results (take n ms)) \<subseteq> set (history_calls (take n ms)))"

definition restorable :: "replay_codec \<Rightarrow> replay_target \<Rightarrow> model_message \<Rightarrow> bool" where
  "restorable codec target m = (case m of
     AssistantReply content replay _ \<Rightarrow> is_ok (restore_reply codec target content replay)
   | _ \<Rightarrow> True)"

definition public_message :: "model_message \<Rightarrow> model_message" where
  "public_message m = (case m of
     AssistantReply content _ _ \<Rightarrow> AssistantReply (map clear_private content) None None
   | ToolReply call_id _ name text \<Rightarrow> ToolReply call_id None name text
   | _ \<Rightarrow> m)"

lemma history_simps [simp]:
  "history_calls [] = []" "history_calls (m # ms) = message_calls m @ history_calls ms"
  "history_results [] = []" "history_results (m # ms) = message_results m @ history_results ms"
  by (simp_all add: history_calls_def history_results_def)

lemma block_calls_simps [simp]:
  "block_calls [] = []" "block_calls (ModelText t # bs) = block_calls bs"
  "block_calls (ModelReasoning t p # bs) = block_calls bs"
  "block_calls (ModelToolCall call # bs) = mtc_call_id call # block_calls bs"
  by (simp_all add: block_calls_def)

lemma block_calls_public: "block_calls (map clear_private bs) = block_calls bs"
proof (induction bs)
  case (Cons b bs)
  then show ?case by (cases b) (simp_all add: clear_private_def)
qed simp

definition scan_inv :: "history_scan \<Rightarrow> string list \<Rightarrow> string list \<Rightarrow> bool" where
  "scan_inv s cs rs \<longleftrightarrow> hs_pending s = set cs - set rs \<and> hs_completed s = set rs
     \<and> set rs \<subseteq> set cs \<and> distinct cs \<and> distinct rs"

lemma open_calls_scan:
  "scan_inv s cs rs \<Longrightarrow> (case open_calls s bs of
     Inr s' \<Rightarrow> scan_inv s' (cs @ block_calls bs) rs \<and> distinct (cs @ block_calls bs)
   | Inl _ \<Rightarrow> \<not> distinct (cs @ block_calls bs))"
proof (induction bs arbitrary: s cs)
  case Nil
  then show ?case by (simp add: scan_inv_def)
next
  case (Cons b bs)
  show ?case
  proof (cases b)
    case (ModelToolCall call)
    show ?thesis
    proof (cases "mtc_call_id call \<in> set cs")
      case True
      then show ?thesis using Cons.prems ModelToolCall by (auto simp: scan_inv_def)
    next
      case False
      let ?s = "s\<lparr>hs_pending := insert (mtc_call_id call) (hs_pending s),
        hs_provider_ids := (case mtc_provider_call_id call of
           Some p \<Rightarrow> (hs_provider_ids s)(mtc_call_id call \<mapsto> p)
         | None \<Rightarrow> hs_provider_ids s)\<rparr>"
      have "scan_inv ?s (cs @ [mtc_call_id call]) rs"
        using Cons.prems False by (auto simp: scan_inv_def)
      from Cons.IH [OF this] have "case open_calls ?s bs of
          Inr s' \<Rightarrow> scan_inv s' (cs @ mtc_call_id call # block_calls bs) rs
            \<and> distinct (cs @ mtc_call_id call # block_calls bs)
        | Inl _ \<Rightarrow> \<not> distinct (cs @ mtc_call_id call # block_calls bs)"
        by (simp split: sum.splits)
      moreover have "mtc_call_id call \<notin> hs_pending s" "mtc_call_id call \<notin> hs_completed s"
        using Cons.prems False by (auto simp: scan_inv_def)
      ultimately show ?thesis unfolding ModelToolCall by (simp split: sum.splits)
    qed
  next
    case (ModelText t)
    show ?thesis unfolding ModelText open_calls.simps block_calls_simps
      by (rule Cons.IH [OF Cons.prems])
  next
    case (ModelReasoning t p)
    show ?thesis unfolding ModelReasoning open_calls.simps block_calls_simps
      by (rule Cons.IH [OF Cons.prems])
  qed
qed

definition admits :: "string list \<Rightarrow> string list \<Rightarrow> model_message \<Rightarrow> bool" where
  "admits cs rs m \<longleftrightarrow> distinct (cs @ message_calls m) \<and> distinct (rs @ message_results m)
     \<and> set (message_results m) \<subseteq> set cs"

context replay_protocol
begin

lemma project_message_scan:
  assumes "scan_inv s cs rs"
  shows "case project_message codec target s m of
      Inr (s', m') \<Rightarrow> restorable codec target m \<and> admits cs rs m
        \<and> scan_inv s' (cs @ message_calls m) (rs @ message_results m)
        \<and> public_message m' = public_message m
    | Inl _ \<Rightarrow> \<not> (restorable codec target m \<and> admits cs rs m)"
proof (cases m)
  case (AssistantReply content replay old)
  show ?thesis
  proof (cases "restore_reply codec target content replay")
    case (Inl e)
    then show ?thesis by (simp add: project_message_def AssistantReply restorable_def)
  next
    case (Inr p)
    obtain content' native where p: "p = (content', native)" by (cases p)
    have pub: "map clear_private content' = map clear_private content"
      using restore_reply_public Inr p by blast
    then have ids: "block_calls content' = block_calls content"
      by (metis block_calls_public)
    show ?thesis using open_calls_scan [OF assms, of content'] Inr p pub ids assms
      by (auto simp: project_message_def AssistantReply restorable_def admits_def message_calls_def
          message_results_def public_message_def scan_inv_def split: sum.splits)
  qed
next
  case (ToolReply call_id provider tool body)
  then show ?thesis using assms
    by (auto simp: project_message_def restorable_def admits_def message_calls_def
        message_results_def public_message_def scan_inv_def)
qed (use assms in \<open>auto simp: project_message_def restorable_def admits_def message_calls_def
        message_results_def public_message_def scan_inv_def\<close>)

lemma project_messages_scan:
  assumes "scan_inv s cs rs"
  shows "case project_messages codec target s ms of
      Inr (s', ms') \<Rightarrow> list_all (restorable codec target) ms
        \<and> (\<forall>n < length ms. admits (cs @ history_calls (take n ms)) (rs @ history_results (take n ms)) (ms ! n))
        \<and> scan_inv s' (cs @ history_calls ms) (rs @ history_results ms)
        \<and> map public_message ms' = map public_message ms
    | Inl _ \<Rightarrow> \<not> (list_all (restorable codec target) ms
        \<and> (\<forall>n < length ms. admits (cs @ history_calls (take n ms)) (rs @ history_results (take n ms)) (ms ! n)))"
  using assms
proof (induction ms arbitrary: s cs rs)
  case Nil
  then show ?case by simp
next
  case (Cons m ms)
  have all: "(\<forall>n < length (m # ms). admits (cs @ history_calls (take n (m # ms)))
        (rs @ history_results (take n (m # ms))) ((m # ms) ! n)) \<longleftrightarrow> admits cs rs m
      \<and> (\<forall>n < length ms. admits ((cs @ message_calls m) @ history_calls (take n ms))
          ((rs @ message_results m) @ history_results (take n ms)) (ms ! n))"
    by (simp add: All_less_Suc2)
  show ?case
  proof (cases "project_message codec target s m")
    case (Inl e)
    with project_message_scan [OF Cons.prems, of target m]
    have "\<not> (restorable codec target m \<and> admits cs rs m)" by simp
    with Inl show ?thesis unfolding all by auto
  next
    case (Inr p)
    obtain s' m' where p: "p = (s', m')" by (cases p)
    have here: "restorable codec target m" "admits cs rs m"
        "scan_inv s' (cs @ message_calls m) (rs @ message_results m)"
        "public_message m' = public_message m"
      using project_message_scan [OF Cons.prems, of target m] Inr p by simp_all
    show ?thesis
    proof (cases "project_messages codec target s' ms")
      case (Inl e)
      then show ?thesis using Cons.IH [OF here(3)] Inr p here unfolding all
        by (simp add: \<open>project_message codec target s m = Inr p\<close>)
    next
      case (Inr q)
      then show ?thesis using Cons.IH [OF here(3)] \<open>project_message codec target s m = Inr p\<close> p here
        unfolding all by (cases q) simp
    qed
  qed
qed

end

lemma admits_all_iff:
  "(\<forall>n < length ms. admits (history_calls (take n ms)) (history_results (take n ms)) (ms ! n))
    \<longleftrightarrow> distinct (history_calls ms) \<and> distinct (history_results ms)
      \<and> (\<forall>n. set (history_results (take n ms)) \<subseteq> set (history_calls (take n ms)))"
proof (induction ms rule: rev_induct)
  case Nil
  then show ?case by simp
next
  case (snoc m ms)
  have app: "history_calls (xs @ ys) = history_calls xs @ history_calls ys"
    "history_results (xs @ ys) = history_results xs @ history_results ys" for xs ys
    by (simp_all add: history_calls_def history_results_def)
  have "(\<forall>n < length (ms @ [m]). admits (history_calls (take n (ms @ [m])))
        (history_results (take n (ms @ [m]))) ((ms @ [m]) ! n)) \<longleftrightarrow>
      (\<forall>n < length ms. admits (history_calls (take n ms)) (history_results (take n ms)) (ms ! n))
      \<and> admits (history_calls ms) (history_results ms) m"
    by (auto simp: less_Suc_eq nth_append)
  moreover have "(\<forall>n. set (history_results (take n (ms @ [m]))) \<subseteq> set (history_calls (take n (ms @ [m])))) \<longleftrightarrow>
      (\<forall>n. set (history_results (take n ms)) \<subseteq> set (history_calls (take n ms)))
      \<and> set (history_results (ms @ [m])) \<subseteq> set (history_calls (ms @ [m]))" (is "?L \<longleftrightarrow> ?R")
  proof
    assume L: ?L
    have "set (history_results (take n ms)) \<subseteq> set (history_calls (take n ms))" for n
      using L [rule_format, of "min n (length ms)"] by (cases "n \<le> length ms") (simp_all add: min_def)
    moreover from L [rule_format, of "Suc (length ms)"]
    have "set (history_results (ms @ [m])) \<subseteq> set (history_calls (ms @ [m]))" by simp
    ultimately show ?R by blast
  next
    assume R: ?R
    show ?L
    proof
      fix n
      show "set (history_results (take n (ms @ [m]))) \<subseteq> set (history_calls (take n (ms @ [m])))"
      proof (cases "n \<le> length ms")
        case True
        then show ?thesis using R by simp
      next
        case False
        then have "take n (ms @ [m]) = ms @ [m]" by simp
        then show ?thesis using R by metis
      qed
    qed
  qed
  moreover have "admits (history_calls ms) (history_results ms) m \<longleftrightarrow>
      distinct (history_calls (ms @ [m])) \<and> distinct (history_results (ms @ [m]))
      \<and> set (history_results (ms @ [m])) \<subseteq> set (history_calls (ms @ [m]))"
    if "\<forall>n. set (history_results (take n ms)) \<subseteq> set (history_calls (take n ms))"
  proof -
    from that have sub: "set (history_results ms) \<subseteq> set (history_calls ms)"
      by (metis order_refl take_all)
    show ?thesis
    proof (cases m)
      case (AssistantReply content replay native)
      then show ?thesis using sub
        by (auto simp: app admits_def message_calls_def message_results_def)
    qed (use sub in \<open>simp_all add: app admits_def message_calls_def message_results_def\<close>)
  qed
  moreover have "distinct (history_calls (ms @ [m])) \<Longrightarrow> distinct (history_calls ms)"
    "distinct (history_results (ms @ [m])) \<Longrightarrow> distinct (history_results ms)"
    by (simp_all add: app)
  ultimately show ?case using snoc.IH by blast
qed

lemma project_history_iff:
  assumes "replay_protocol codec"
  shows "is_ok (project_history codec target ms) \<longleftrightarrow>
      paired_history ms \<and> list_all (restorable codec target) ms"
    and "project_history codec target ms = Inr out \<Longrightarrow>
      map public_message out = map public_message ms"
proof -
  have start: "scan_inv history_start [] []" by (simp add: scan_inv_def history_start_def)
  note scan = replay_protocol.project_messages_scan [OF assms start, of target ms,
      unfolded append_Nil admits_all_iff]
  show "is_ok (project_history codec target ms) \<longleftrightarrow>
      paired_history ms \<and> list_all (restorable codec target) ms"
  proof (cases "project_messages codec target history_start ms")
    case (Inl e)
    then show ?thesis using scan by (simp add: project_history_def paired_history_def) blast
  next
    case (Inr p)
    obtain s' out where p: "p = (s', out)" by (cases p)
    then have "list_all (restorable codec target) ms" "scan_inv s' (history_calls ms) (history_results ms)"
      "\<forall>n. set (history_results (take n ms)) \<subseteq> set (history_calls (take n ms))"
      using scan Inr by simp_all
    then show ?thesis using Inr p
      by (auto simp: project_history_def paired_history_def scan_inv_def)
  qed
  show "project_history codec target ms = Inr out \<Longrightarrow> map public_message out = map public_message ms"
    using scan by (auto simp: project_history_def res_simps split: if_splits)
qed

lemma check_blocks_nth:
  assumes "check_blocks cx codec i bs fs = Inr ()" "j < length bs" "j < length fs"
  shows "rblk_index (bs ! j) = word_of_nat (i + j)" "rblk_kind (bs ! j) = bf_kind (fs ! j)"
    "rblk_content_hash (bs ! j) = bf_hash (fs ! j)"
    "cdc_validate_block codec (rblk_kind (bs ! j)) (rblk_metadata (bs ! j)) = Inr ()"
    "validate_metadata_safety cx (rblk_metadata (bs ! j)) = Inr ()"
    "rblk_kind (bs ! j) = BlockToolCall \<Longrightarrow>
      provider_call_metadata (rblk_metadata (bs ! j)) = bf_provider_call_id (fs ! j)"
  using assms
  by (induction cx codec i bs fs arbitrary: j rule: check_blocks.induct)
    (auto simp: res_simps nth_Cons split: nat.splits)

lemma validate_envelope_commonD:
  assumes "validate_envelope_common cx codec env snap rid hash facts = Inr ()"
  obtains src response blocks where
    "env = EnvelopePrepared REPLAY_ENVELOPE_VERSION (cdc_adapter_id codec) (cdc_format_version codec)
       src response blocks"
    "source_matches cx (cdc_adapter_id codec) snap rid src" "rsrc_assistant_content_hash src = hash"
    "length blocks = length facts" "check_blocks cx codec 0 blocks facts = Inr ()"
  using assms by (cases env) (auto simp: validate_envelope_common_def res_simps split: if_splits)

lemma prepare_envelope_valid:
  "prepare_envelope cx codec rid snap content capture = Inr env \<Longrightarrow>
    validate_model_envelope cx codec env content snap rid = Inr ()"
  by (cases snap) (auto simp: prepare_envelope_def res_simps Let_def split: if_splits)

definition snapshot_target :: "request_snapshot \<Rightarrow> replay_target" where
  "snapshot_target snap = (case snap of
     RequestSnapshotPrepared route_id _ _ model_id _ _ _ replay_domain_id _ _ _ _ _ _ _ _ _ \<Rightarrow>
       \<lparr>rtgt_route_id = route_id, rtgt_model_id = model_id, rtgt_replay_domain_id = replay_domain_id\<rparr>)"

lemma prepared_same_domain:
  assumes "prepare_envelope cx codec rid snap content capture = Inr env"
  shows "same_domain codec (snapshot_target snap) env"
proof -
  from prepare_envelope_valid [OF assms] obtain src response blocks where
    "env = EnvelopePrepared REPLAY_ENVELOPE_VERSION (cdc_adapter_id codec) (cdc_format_version codec)
       src response blocks" "source_matches cx (cdc_adapter_id codec) snap rid src"
    unfolding validate_model_envelope_def by (rule validate_envelope_commonD)
  then show ?thesis
    by (cases snap) (simp add: same_domain_def snapshot_target_def source_matches_def)
qed

lemma clear_private_call:
  "clear_private b = clear_private (ModelToolCall call) \<longleftrightarrow>
    (\<exists>c. b = ModelToolCall c \<and> c\<lparr>mtc_provider_call_id := None\<rparr> = call\<lparr>mtc_provider_call_id := None\<rparr>)"
  by (cases b) (simp_all add: clear_private_def)

lemma tool_call_public_eqI:
  "c\<lparr>mtc_provider_call_id := None\<rparr> = d\<lparr>mtc_provider_call_id := None\<rparr> \<Longrightarrow>
    mtc_provider_call_id c = mtc_provider_call_id d \<Longrightarrow> c = (d :: model_tool_call)"
  by (cases c; cases d) simp

lemma prepared_restore_calls:
  assumes codec: "replay_protocol codec"
    and prep: "prepare_envelope cx codec rid snap content capture = Inr env"
    and restored: "restore_reply codec (snapshot_target snap) (map clear_private content) (Some env)
      = Inr (content', native)"
    and i: "i < length content" "content ! i = ModelToolCall call"
  shows "content' ! i = ModelToolCall call"
proof -
  have idem: "clear_private (clear_private b) = clear_private b" for b
    by (cases b) (simp_all add: clear_private_def)
  from restored prepared_same_domain [OF prep] obtain n where r:
    "cdc_restore codec (map clear_private content) env = Inr (content', n)"
    by (auto simp: restore_reply_def res_simps comp_def idem)
  have pub: "map clear_private content' = map clear_private content"
    using replay_protocol.restore_public [OF codec r] by (simp add: idem comp_def)
  then have len: "length content' = length content" by (metis length_map)
  have "clear_private (content' ! i) = clear_private (content ! i)"
    using pub i len by (metis nth_map)
  with i obtain c where c: "content' ! i = ModelToolCall c"
      "c\<lparr>mtc_provider_call_id := None\<rparr> = call\<lparr>mtc_provider_call_id := None\<rparr>"
    by (auto simp: clear_private_call)
  from prepare_envelope_valid [OF prep] obtain src response blocks where env:
    "env = EnvelopePrepared REPLAY_ENVELOPE_VERSION (cdc_adapter_id codec) (cdc_format_version codec)
       src response blocks" and blocks: "length blocks = length content"
      "check_blocks cx codec 0 blocks (map (model_block_fact cx) content) = Inr ()"
    unfolding validate_model_envelope_def by (rule validate_envelope_commonD) simp
  have "mtc_provider_call_id c = provider_call_metadata (rblk_metadata (blocks ! i))"
    using replay_protocol.restore_calls [OF codec r, of i c] c i len blocks env
    by (simp add: env_blocks_def)
  also have "\<dots> = mtc_provider_call_id call"
    using check_blocks_nth(2,6) [OF blocks(2), of i] i blocks(1)
    by (simp add: model_block_fact_def model_block_kind_def)
  finally show ?thesis using c tool_call_public_eqI by simp
qed

lemma project_messages_append:
  "project_messages codec target s (xs @ ys) =
    try_bind (project_messages codec target s xs) (\<lambda>(s', xs').
    try_bind (project_messages codec target s' ys) (\<lambda>(t, ys'). Inr (t, xs' @ ys')))"
  by (induction xs arbitrary: s) (auto simp: try_bind_def split: sum.splits)

lemma project_messages_length:
  "project_messages codec target s ms = Inr (t, out) \<Longrightarrow> length out = length ms"
  by (induction ms arbitrary: s out) (auto simp: res_simps)

text \<open>
  What is private to a provider, and the envelopes it may come from: of the codec's adapter and
  format, and made for the route, the model and the replay domain of the target.
\<close>

definition carries_private :: "model_block \<Rightarrow> bool" where
  "carries_private b = (case b of
     ModelReasoning _ item \<Rightarrow> item \<noteq> None
   | ModelToolCall call \<Rightarrow> mtc_provider_call_id call \<noteq> None
   | ModelText _ \<Rightarrow> False)"

definition stored_here :: "replay_codec \<Rightarrow> replay_target \<Rightarrow> model_message \<Rightarrow> bool" where
  "stored_here codec target m \<longleftrightarrow> (\<exists>content version src response blocks native.
     m = AssistantReply content (Some (EnvelopePrepared version (cdc_adapter_id codec)
       (cdc_format_version codec) src response blocks)) native
     \<and> rsrc_route_id src = rtgt_route_id target \<and> rsrc_model_id src = rtgt_model_id target
     \<and> rsrc_replay_domain_id src = rtgt_replay_domain_id target)"

definition assigns_id :: "string \<Rightarrow> string \<Rightarrow> model_message \<Rightarrow> bool" where
  "assigns_id c p m \<longleftrightarrow> (\<exists>content replay native call. m = AssistantReply content replay native
     \<and> ModelToolCall call \<in> set content \<and> mtc_call_id call = c \<and> mtc_provider_call_id call = Some p)"

lemma restored_private:
  assumes "restore_reply codec target content replay = Inr (content', native)"
    and "native \<noteq> None \<or> (\<exists>b\<in>set content'. carries_private b)"
  shows "stored_here codec target (AssistantReply content replay old)"
proof -
  have "\<not> carries_private (clear_private b)" for b
    by (cases b) (simp_all add: clear_private_def carries_private_def)
  then have "content' \<noteq> map clear_private content \<or> native \<noteq> None" using assms(2) by auto
  then obtain env where env: "replay = Some env" "same_domain codec target env"
    using assms(1) by (auto simp: restore_reply_def split: option.splits if_splits)
  then show ?thesis by (cases env) (auto simp: stored_here_def same_domain_def)
qed

lemma project_message_private:
  assumes "project_message codec target s m = Inr (s', AssistantReply content replay native)"
  shows "replay = None \<and>
    (native \<noteq> None \<or> (\<exists>b\<in>set content. carries_private b) \<longrightarrow> stored_here codec target m)"
  using assms
  by (cases m) (auto simp: project_message_def res_simps intro: restored_private split: if_splits)

lemma open_calls_ids:
  "open_calls s bs = Inr s' \<Longrightarrow> hs_provider_ids s' c = Some p \<Longrightarrow>
    hs_provider_ids s c = Some p \<or>
    (\<exists>call. ModelToolCall call \<in> set bs \<and> mtc_call_id call = c \<and> mtc_provider_call_id call = Some p)"
proof (induction s bs rule: open_calls.induct)
  case (2 s call bs)
  then show ?case by (fastforce split: if_splits option.splits)
qed auto

lemma project_message_ids:
  "project_message codec target s m = Inr (s', m') \<Longrightarrow> hs_provider_ids s' c = Some p \<Longrightarrow>
    hs_provider_ids s c = Some p \<or> assigns_id c p m'"
  by (cases m) (auto simp: project_message_def res_simps assigns_id_def dest!: open_calls_ids split: if_splits)

lemma project_messages_ids:
  "project_messages codec target s ms = Inr (t, out) \<Longrightarrow> hs_provider_ids t c = Some p \<Longrightarrow>
    hs_provider_ids s c = Some p \<or> (\<exists>m\<in>set out. assigns_id c p m)"
proof (induction ms arbitrary: s out)
  case (Cons m ms)
  then obtain s1 m' ms' where "project_message codec target s m = Inr (s1, m')"
      "project_messages codec target s1 ms = Inr (t, ms')" "out = m' # ms'"
    by (auto simp: res_simps)
  then show ?case using Cons.IH [of s1 ms'] Cons.prems(2) project_message_ids by fastforce
qed simp

lemma project_messages_at:
  assumes "project_messages codec target s ms = Inr (t, out)" "i < length out"
  shows "\<exists>s1 s2. project_messages codec target s (take i ms) = Inr (s1, take i out)
    \<and> project_message codec target s1 (ms ! i) = Inr (s2, out ! i)"
  using assms
proof (induction ms arbitrary: s out i)
  case (Cons m ms)
  then obtain s1 m' ms' where *: "project_message codec target s m = Inr (s1, m')"
      "project_messages codec target s1 ms = Inr (t, ms')" "out = m' # ms'"
    by (auto simp: res_simps)
  show ?case
  proof (cases i)
    case (Suc j)
    then show ?thesis using Cons.IH [OF *(2), of j] Cons.prems(2) * by auto
  qed (use * in simp)
qed simp

subsection \<open>Properties\<close>

text \<open>A concrete request and response, on which the properties are applied.\<close>

definition sample_digests :: replay_digests where
  "sample_digests = \<lparr>json_len = (\<lambda>_. 2), model_block_hash = (\<lambda>_. ''b''),
     model_content_hash = (\<lambda>_. ''c''), agent_block_hash = (\<lambda>_. ''b''),
     agent_content_hash = (\<lambda>_. ''c''), snapshot_digest = (\<lambda>_. ''s''),
     image_projection_digest = (\<lambda>_ _ _ _. ''i'')\<rparr>"

definition sample_snapshot :: request_snapshot where
  "sample_snapshot = RequestSnapshotPrepared ''r'' 1 ''ollama'' ''m'' 1
     \<lparr>mdef_display_name = None, mdef_context_window = 8192, mdef_max_output_tokens = 1024,
       mdef_request_output_tokens = None, mdef_tool_calling = SupportSupported,
       mdef_text_input = SupportSupported, mdef_image_input = SupportUnknown, mdef_reasoning = [],
       mdef_compat = \<lparr>compat_protocol = Ollama, compat_cumulative_stream = False,
         compat_supports_stream_usage = False, compat_native_reasoning = False,
         compat_split_reasoning = False, compat_replay_reasoning_content = False,
         compat_think_tag_fallback = False, compat_parallel_tool_calls = True,
         compat_strict_schema = False, compat_preserves_reasoning_across_turns = False,
         compat_reasoning_encoding = EncodingNone, compat_clear_thinking = False,
         compat_default_thinking = False\<rparr>, mdef_vision = None\<rparr>
     ''e'' ''d'' None 1024
     \<lparr>pol_max_attempts = 1, pol_initial_delay_ms = 0, pol_max_delay_ms = 0,
       pol_max_server_delay_ms = 0, pol_jitter_ratio = 0\<rparr>
     \<lparr>rto_request_headers_ms = 1, rto_first_byte_ms = 1, rto_stream_idle_ms = 1\<rparr>
     ''agent'' 1 ''p'' ''h'' []"

definition sample_call :: model_tool_call where
  "sample_call = \<lparr>mtc_call_id = ''c1'', mtc_provider_call_id = Some ''p1'', mtc_name = ''ls'',
     mtc_arguments = JNull\<rparr>"

definition sample_capture :: replay_capture where
  "sample_capture = \<lparr>cap_response = JObject [],
     cap_blocks = [JObject [(''providerCallId'', JString ''p1'')]]\<rparr>"

definition sample_envelope :: replay_envelope where
  "sample_envelope = EnvelopePrepared 1 ''ollama'' 1
     \<lparr>rsrc_request_id = ''q'', rsrc_request_snapshot_digest = ''s'', rsrc_route_id = ''r'',
       rsrc_route_revision = 1, rsrc_model_id = ''m'', rsrc_replay_domain_id = ''d'',
       rsrc_request_content_hash = ''h'', rsrc_preparation_version = 1,
       rsrc_projection_policy = ''p'', rsrc_image_projection_refs = [],
       rsrc_image_projection_hash = ''i'', rsrc_assistant_content_hash = ''c''\<rparr>
     (JObject []) [\<lparr>rblk_index = 0, rblk_kind = BlockToolCall, rblk_content_hash = ''b'',
       rblk_metadata = JObject [(''providerCallId'', JString ''p1'')]\<rparr>]"

lemmas sample_replay_defs = sample_digests_def sample_snapshot_def sample_call_def
  sample_capture_def sample_envelope_def

lemmas replay_limits = REPLAY_ENVELOPE_VERSION_def MAX_REPLAY_STRING_BYTES_def
  MAX_REPLAY_METADATA_BYTES_def

lemma sample_prepared:
  "prepare_envelope sample_digests ollama_codec ''q'' sample_snapshot [ModelToolCall sample_call]
    sample_capture = Inr sample_envelope"
  by (simp add: sample_replay_defs prepare_envelope_def validate_model_envelope_def
      validate_envelope_common_def ollama_codec_def ollama_validate_response_def ollama_validate_block_def
      object_with_allowed_keys_def optional_bounded_string_def validate_metadata_safety_def
      replay_limits is_sensitive_key_def normalized_key_def to_ascii_lower_def starts_with_def
      model_block_kind_def model_block_fact_def source_matches_def image_projection_hash_def
      provider_call_metadata_def json_get_def json_as_str_def ensure_def alphanumeric_defs)

lemma sample_projected:
  "project_history ollama_codec (snapshot_target sample_snapshot)
     ([] @ AssistantReply (map clear_private [ModelToolCall sample_call]) (Some sample_envelope) None
       # [ToolReply ''c1'' None ''ls'' ''ok'']) =
   Inr [AssistantReply [ModelToolCall sample_call] None (Some (JObject [])),
     ToolReply ''c1'' (Some ''p1'') ''ls'' ''ok'']"
  by (simp add: sample_replay_defs project_history_def history_start_def project_message_def
      restore_reply_def same_domain_def snapshot_target_def clear_private_def ollama_codec_def
      ollama_restore_block_def env_blocks_def env_response_def provider_call_metadata_def
      json_get_def json_as_str_def)

text \<open>
  C32. A history is sent to a protocol exactly when every tool call in it has its own id and
  is answered once, after it, and every envelope of the target's domain can be restored;
  and whatever is sent says in public exactly what the history says.
\<close>

theorem history_sent_iff_paired:
  assumes "registered_codec adapter_id = Some codec"
  shows "(is_ok (project_history codec target ms) \<longleftrightarrow>
      paired_history ms \<and> list_all (restorable codec target) ms)
    \<and> (\<forall>out. project_history codec target ms = Inr out \<longrightarrow>
        map public_message out = map public_message ms)"
  using project_history_iff [OF registered_protocol [OF assms], of target ms] by blast

lemma history_sent_iff_paired_witness:
  "is_ok (project_history ollama_codec
      \<lparr>rtgt_route_id = ''r'', rtgt_model_id = ''m'', rtgt_replay_domain_id = ''d''\<rparr>
      [AssistantReply [ModelToolCall \<lparr>mtc_call_id = ''c1'', mtc_provider_call_id = Some ''p1'',
         mtc_name = ''ls'', mtc_arguments = JNull\<rparr>] None None,
       ToolReply ''c1'' None ''ls'' ''ok''])"
  using history_sent_iff_paired [of "''ollama''" ollama_codec]
  by (simp add: registered_codec_def project_history_def history_start_def project_message_def
      restore_reply_def clear_private_def)

text \<open>
  C33. Private provider data crosses no boundary. An assistant message of the projected history
  carries a provider item, a provider tool id or native metadata only if the envelope stored
  with this message belongs to the adapter and format of the codec and to the route, model and
  replay domain of the request. A tool reply carries a provider id only if an earlier assistant
  message with such an envelope gave it to the call that the reply answers.
\<close>

theorem private_data_stays_in_domain:
  assumes "project_history codec target ms = Inr out" and "i < length out"
  shows "(\<forall>content replay native. out ! i = AssistantReply content replay native \<longrightarrow> replay = None \<and>
        (native \<noteq> None \<or> (\<exists>b\<in>set content. carries_private b) \<longrightarrow> stored_here codec target (ms ! i)))
    \<and> (\<forall>c p name body. out ! i = ToolReply c (Some p) name body \<longrightarrow>
        (\<exists>j<i. stored_here codec target (ms ! j) \<and> assigns_id c p (out ! j)))"
proof -
  from assms(1) obtain s where msgs: "project_messages codec target history_start ms = Inr (s, out)"
    by (auto simp: project_history_def res_simps split: if_splits)
  note at = project_messages_at [OF msgs]
  have assistant: "replay = None \<and>
      (native \<noteq> None \<or> (\<exists>b\<in>set content. carries_private b) \<longrightarrow> stored_here codec target (ms ! j))"
    if "j < length out" "out ! j = AssistantReply content replay native" for j content replay native
    using at [OF that(1)] project_message_private unfolding that(2) by blast
  have "\<exists>j<i. stored_here codec target (ms ! j) \<and> assigns_id c p (out ! j)"
    if reply: "out ! i = ToolReply c (Some p) name body" for c p name body
  proof -
    obtain s1 s2 where run: "project_messages codec target history_start (take i ms) = Inr (s1, take i out)"
        "project_message codec target s1 (ms ! i) = Inr (s2, ToolReply c (Some p) name body)"
      using at [OF assms(2)] reply by auto
    then have "hs_provider_ids s1 c = Some p"
      by (cases "ms ! i") (auto simp: project_message_def res_simps split: if_splits)
    then obtain m where "m \<in> set (take i out)" "assigns_id c p m"
      using project_messages_ids [OF run(1)] by (auto simp: history_start_def)
    then obtain j where j: "j < i" "assigns_id c p (out ! j)"
      using assms(2) by (auto simp: in_set_conv_nth)
    then obtain content replay native call where m: "out ! j = AssistantReply content replay native"
        "ModelToolCall call \<in> set content" "mtc_provider_call_id call = Some p"
      by (auto simp: assigns_id_def)
    then have "\<exists>b\<in>set content. carries_private b" by (force simp: carries_private_def)
    then show ?thesis using assistant [OF _ m(1)] j assms(2) by auto
  qed
  with assistant [OF assms(2)] show ?thesis by blast
qed

lemma private_data_stays_in_domain_witness:
  "\<exists>j<1. stored_here ollama_codec (snapshot_target sample_snapshot)
     ([AssistantReply (map clear_private [ModelToolCall sample_call]) (Some sample_envelope) None,
       ToolReply ''c1'' None ''ls'' ''ok''] ! j)
    \<and> assigns_id ''c1'' ''p1'' ([AssistantReply [ModelToolCall sample_call] None (Some (JObject [])),
       ToolReply ''c1'' (Some ''p1'') ''ls'' ''ok''] ! j)"
  using private_data_stays_in_domain [OF sample_projected, of 1] by simp

text \<open>
  C34. The provider's tool ids survive the whole trip: the ids of a response go into its
  envelope, the stored message keeps none of them, and the history projected for the same
  route, model and domain has them back, call by call.
\<close>

theorem replay_round_trip:
  assumes "registered_codec adapter_id = Some codec"
    and "prepare_envelope cx codec rid snap content capture = Inr env"
    and "project_history codec (snapshot_target snap)
      (pre @ AssistantReply (map clear_private content) (Some env) old # post) = Inr out"
    and "i < length content" "content ! i = ModelToolCall call"
  shows "\<exists>content' native. out ! length pre = AssistantReply content' None (Some native)
    \<and> content' ! i = ModelToolCall call"
proof -
  from assms(3) obtain s s' pre' m' post' where
    m: "project_messages codec (snapshot_target snap) history_start pre = Inr (s, pre')"
      "project_message codec (snapshot_target snap) s
        (AssistantReply (map clear_private content) (Some env) old) = Inr (s', m')"
      "out = pre' @ m' # post'"
    by (auto simp: project_history_def project_messages_append res_simps split: if_splits)
  from m(2) obtain content' native where r:
    "restore_reply codec (snapshot_target snap) (map clear_private content) (Some env)
      = Inr (content', native)" "m' = AssistantReply content' None native"
    by (auto simp: project_message_def res_simps)
  moreover from r(1) prepared_same_domain [OF assms(2)] have "native \<noteq> None"
    by (auto simp: restore_reply_def res_simps)
  moreover have "content' ! i = ModelToolCall call"
    using prepared_restore_calls [OF registered_protocol [OF assms(1)] assms(2) r(1) assms(4,5)] .
  moreover have "out ! length pre = m'"
    using m(3) project_messages_length [OF m(1)] by (metis nth_append_length)
  ultimately show ?thesis by auto
qed

lemma replay_round_trip_witness:
  "\<exists>content' native. [AssistantReply [ModelToolCall sample_call] None (Some (JObject [])),
     ToolReply ''c1'' (Some ''p1'') ''ls'' ''ok''] ! length ([] :: model_message list)
       = AssistantReply content' None (Some native)
     \<and> content' ! 0 = ModelToolCall sample_call"
  by (rule replay_round_trip [OF _ sample_prepared sample_projected, of "''ollama''"])
    (simp_all add: registered_codec_def)

text \<open>
  An envelope answers for one response: once prepared it is accepted for a request and a
  content only if that request has its id and snapshot digest, the content its digest, and
  every block its kind, hash and, for a tool call, its provider id.
\<close>

theorem envelope_bound_to_response:
  assumes "prepare_envelope cx codec rid snap content capture = Inr env"
    and "validate_model_envelope cx codec' env content' snap' rid' = Inr ()"
  shows "rid' = rid \<and> snapshot_digest cx snap' = snapshot_digest cx snap
    \<and> snapshot_target snap' = snapshot_target snap
    \<and> model_content_hash cx content' = model_content_hash cx content
    \<and> map (model_block_fact cx) content' = map (model_block_fact cx) content"
proof -
  from prepare_envelope_valid [OF assms(1)] obtain src response blocks where a:
    "env = EnvelopePrepared REPLAY_ENVELOPE_VERSION (cdc_adapter_id codec) (cdc_format_version codec)
       src response blocks" "source_matches cx (cdc_adapter_id codec) snap rid src"
    "rsrc_assistant_content_hash src = model_content_hash cx content"
    "length blocks = length content"
    "check_blocks cx codec 0 blocks (map (model_block_fact cx) content) = Inr ()"
    unfolding validate_model_envelope_def by (rule validate_envelope_commonD) simp
  from assms(2) obtain src' response' blocks' where b:
    "env = EnvelopePrepared REPLAY_ENVELOPE_VERSION (cdc_adapter_id codec') (cdc_format_version codec')
       src' response' blocks'" "source_matches cx (cdc_adapter_id codec') snap' rid' src'"
    "rsrc_assistant_content_hash src' = model_content_hash cx content'"
    "length blocks' = length content'"
    "check_blocks cx codec' 0 blocks' (map (model_block_fact cx) content') = Inr ()"
    unfolding validate_model_envelope_def by (rule validate_envelope_commonD) simp
  from a(1) b(1) have same: "src' = src" "blocks' = blocks" by simp_all
  have "model_block_fact cx (content' ! j) = model_block_fact cx (content ! j)"
    if "j < length content" for j
  proof -
    have "bf_kind (model_block_fact cx (content' ! j)) = bf_kind (model_block_fact cx (content ! j))"
      "bf_hash (model_block_fact cx (content' ! j)) = bf_hash (model_block_fact cx (content ! j))"
      using check_blocks_nth(2,3) [OF a(5), of j] check_blocks_nth(2,3) [OF b(5), of j] that a(4) b(4) same
      by simp_all
    moreover have "bf_provider_call_id (model_block_fact cx (content' ! j))
        = bf_provider_call_id (model_block_fact cx (content ! j))"
    proof (cases "bf_kind (model_block_fact cx (content ! j)) = BlockToolCall")
      case True
      then show ?thesis
        using check_blocks_nth(2,6) [OF a(5), of j] check_blocks_nth(2,6) [OF b(5), of j] that a(4) b(4) same
        by simp
    next
      case False
      with calculation(1) show ?thesis
        by (cases "content ! j"; cases "content' ! j") (simp_all add: model_block_fact_def model_block_kind_def)
    qed
    ultimately show ?thesis by simp
  qed
  moreover have len: "length content' = length content" using a(4) b(4) same by simp
  ultimately have "map (model_block_fact cx) content' = map (model_block_fact cx) content"
    by (simp add: list_eq_iff_nth_eq)
  moreover have "rid' = rid \<and> snapshot_digest cx snap' = snapshot_digest cx snap
      \<and> snapshot_target snap' = snapshot_target snap"
    using a(2) b(2) same by (cases snap; cases snap') (simp add: source_matches_def snapshot_target_def)
  moreover have "model_content_hash cx content' = model_content_hash cx content"
    using a(3) b(3) same by simp
  ultimately show ?thesis by blast
qed

lemma envelope_bound_to_response_witness:
  "''q'' = ''q'' \<and> snapshot_digest sample_digests sample_snapshot = snapshot_digest sample_digests sample_snapshot
    \<and> snapshot_target sample_snapshot = snapshot_target sample_snapshot
    \<and> model_content_hash sample_digests [ModelToolCall sample_call] = model_content_hash sample_digests [ModelToolCall sample_call]
    \<and> map (model_block_fact sample_digests) [ModelToolCall sample_call]
      = map (model_block_fact sample_digests) [ModelToolCall sample_call]"
  using envelope_bound_to_response [OF sample_prepared prepare_envelope_valid [OF sample_prepared]]
  by simp

end
