(* ===== verification/Payload_Check.thy ===== *)
theory Payload_Check
  imports Tool_Lifecycle Skills Replay
begin

text \<open>
  What one event of a Session log must look like on its own (\<open>validate_event_payload\<close>,
  agent\_runtime/session.rs): its Turn and Step scope, the syntax of its identifiers, the
  bounds of its texts and collections, and the shape of the records it carries. A refusal
  keeps the label or the message of the source. SHA-256, the JSON encoder and the regular
  expressions of the redaction are third-party code: \<open>payload_codec\<close> holds their results.
\<close>

record payload_codec =
  pc_questions :: question_codec
  pc_skills :: skill_codec
  pc_replay :: replay_digests
  pc_redact :: "string \<Rightarrow> string"
  pc_snapshot_revision :: "skill_scope \<Rightarrow> skill_entry list \<Rightarrow> string"
  pc_scope_json :: "skill_scope \<Rightarrow> json"
  pc_catalog_json :: "skill_catalog_publication \<Rightarrow> json"
  pc_prepared_json :: "skill_step_prepared \<Rightarrow> json"
  pc_loaded_json :: "loaded_skill \<Rightarrow> json"
  pc_prepared_len :: "skill_step_prepared \<Rightarrow> nat"
  pc_parse_loaded :: "json \<Rightarrow> loaded_skill option"

datatype payload_error =
    InvalidIdentifier string
  | InvalidText string
  | InvalidCollection string
  | PayloadRefused string
  | QuestionPayload question_error

subsection \<open>Sequences of checks\<close>

fun checks :: "('e + unit) list \<Rightarrow> 'e + unit" where
  "checks [] = Inr ()"
| "checks (c # cs) = try_bind c (\<lambda>_. checks cs)"

definition check_opt :: "('a \<Rightarrow> 'e + unit) \<Rightarrow> 'a option \<Rightarrow> 'e + unit" where
  "check_opt f x = (case x of None \<Rightarrow> Inr () | Some y \<Rightarrow> f y)"

definition check_each :: "('a \<Rightarrow> 'e + unit) \<Rightarrow> 'a list \<Rightarrow> 'e + unit" where
  "check_each f xs = checks (map f xs)"

fun check_unique :: "('a \<Rightarrow> 'e + unit) \<Rightarrow> 'e \<Rightarrow> 'a list \<Rightarrow> 'a list \<Rightarrow> 'e + unit" where
  "check_unique f err seen [] = Inr ()"
| "check_unique f err seen (x # xs) =
     try_bind (f x) (\<lambda>_. if x \<in> set seen then Inl err else check_unique f err (x # seen) xs)"

lemma checks_ok_iff: "checks cs = Inr () \<longleftrightarrow> (\<forall>c\<in>set cs. c = Inr ())"
  by (induction cs) (auto simp: res_simps)

declare checks.simps [simp del]

lemma check_each_ok_iff: "check_each f xs = Inr () \<longleftrightarrow> (\<forall>x\<in>set xs. f x = Inr ())"
  by (simp add: check_each_def checks_ok_iff)

lemma check_opt_simps [simp]: "check_opt f None = Inr ()" "check_opt f (Some y) = f y"
  by (simp_all add: check_opt_def)

lemma check_unique_ok_iff:
  "check_unique f err seen xs = Inr () \<longleftrightarrow>
    (\<forall>x\<in>set xs. f x = Inr ()) \<and> distinct xs \<and> set seen \<inter> set xs = {}"
  by (induction f err seen xs rule: check_unique.induct) (auto simp: res_simps)

subsection \<open>Text\<close>

definition MAX_LABEL_BYTES :: nat where
  "MAX_LABEL_BYTES = 4 * 1024"

definition MAX_COLLECTION_ITEMS :: nat where
  "MAX_COLLECTION_ITEMS = 1024"

definition MAX_JS_SAFE_INTEGER :: u64 where
  "MAX_JS_SAFE_INTEGER = 9007199254740991"

definition MAX_SESSION_TITLE_CHARS :: nat where
  "MAX_SESSION_TITLE_CHARS = 120"

definition MAX_SESSION_TITLE_BYTES :: nat where
  "MAX_SESSION_TITLE_BYTES = 512"

definition MAX_AGENT_MESSAGE_BYTES :: nat where
  "MAX_AGENT_MESSAGE_BYTES = 128 * 1024"

definition MAX_AGENT_STREAM_DELTA_BYTES :: nat where
  "MAX_AGENT_STREAM_DELTA_BYTES = 4 * 1024"

definition MAX_TERMINAL_CONTEXT_BYTES :: nat where
  "MAX_TERMINAL_CONTEXT_BYTES = 32 * 1024"

lemmas payload_limits = MAX_LABEL_BYTES_def MAX_COLLECTION_ITEMS_def MAX_JS_SAFE_INTEGER_def
  MAX_SESSION_TITLE_CHARS_def MAX_SESSION_TITLE_BYTES_def MAX_AGENT_MESSAGE_BYTES_def
  MAX_AGENT_STREAM_DELTA_BYTES_def MAX_TERMINAL_CONTEXT_BYTES_def

text \<open>\<open>char::is\_control\<close> over UTF-8: U+0000 to U+001F and U+007F to U+009F.\<close>

fun has_control :: "string \<Rightarrow> bool" where
  "has_control [] = False"
| "has_control (c # cs) = (is_ascii_control c
     \<or> byte_of c = 0xC2 \<and> (case cs of [] \<Rightarrow> False | d # _ \<Rightarrow> 0x80 \<le> byte_of d \<and> byte_of d \<le> 0x9F)
     \<or> has_control cs)"

definition char_count :: "string \<Rightarrow> nat" where
  "char_count s = length (filter (\<lambda>c. \<not> (0x80 \<le> byte_of c \<and> byte_of c < 0xC0)) s)"

definition check_id :: "string \<Rightarrow> string \<Rightarrow> payload_error + unit" where
  "check_id v label = ensure (validate_identifier v) (InvalidIdentifier label)"

definition validate_text :: "string \<Rightarrow> string \<Rightarrow> bool \<Rightarrow> nat \<Rightarrow> payload_error + unit" where
  "validate_text v label allow_empty max_bytes =
     ensure (\<not> (\<not> allow_empty \<and> is_blank v \<or> max_bytes < length v)) (InvalidText label)"

definition validate_optional_text :: "string option \<Rightarrow> string \<Rightarrow> payload_error + unit" where
  "validate_optional_text v label =
     check_opt (\<lambda>s. validate_text s label False MAX_LABEL_BYTES) v"

definition validate_optional_stream_delta :: "string option \<Rightarrow> string \<Rightarrow> payload_error + unit" where
  "validate_optional_stream_delta v label =
     check_opt (\<lambda>s. ensure (length s \<le> MAX_AGENT_STREAM_DELTA_BYTES) (InvalidText label)) v"

definition validate_collection :: "'a list \<Rightarrow> string \<Rightarrow> payload_error + unit" where
  "validate_collection xs label =
     ensure (xs \<noteq> [] \<and> length xs \<le> MAX_COLLECTION_ITEMS) (InvalidCollection label)"

definition validate_collection_allow_empty :: "'a list \<Rightarrow> string \<Rightarrow> payload_error + unit" where
  "validate_collection_allow_empty xs label =
     ensure (length xs \<le> MAX_COLLECTION_ITEMS) (InvalidCollection label)"

definition refuse_unless :: "bool \<Rightarrow> string \<Rightarrow> payload_error + unit" where
  "refuse_unless b message = ensure b (PayloadRefused message)"

definition require_scope :: "session_event \<Rightarrow> bool \<Rightarrow> bool \<Rightarrow> payload_error + unit" where
  "require_scope e turn step = refuse_unless
     (turn = (ev_turn_id e \<noteq> None) \<and> step = (ev_step_id e \<noteq> None))
     ''Agent session event has an invalid Turn/Step scope''"

definition validate_mutation_event_identity ::
  "session_event \<Rightarrow> u64 \<Rightarrow> string \<Rightarrow> payload_error + unit" where
  "validate_mutation_event_identity e previous_revision operation = checks
     [refuse_unless (ev_version e = AGENT_SESSION_EVENT_VERSION)
        ''Agent Runtime mutation events require the v5 event contract'',
      refuse_unless (previous_revision = ev_seq e)
        ''Agent Runtime mutation previous revision does not match its sequence'',
      check_id operation ''clientOperationId'']"

definition validate_session_title :: "string \<Rightarrow> payload_error + unit" where
  "validate_session_title title = checks
     [validate_text title ''Session title'' False MAX_SESSION_TITLE_BYTES,
      refuse_unless (trim_text title = title)
        ''Agent Session title must not contain leading or trailing whitespace'',
      refuse_unless (char_count title \<le> MAX_SESSION_TITLE_CHARS)
        ''Agent Session title exceeds 120 Unicode characters'',
      refuse_unless (\<not> has_control title)
        ''Agent Session title must be a single line without control characters'']"

definition validate_content_fingerprint :: "string \<Rightarrow> payload_error + unit" where
  "validate_content_fingerprint fp =
     refuse_unless (length fp = 64 \<and> list_all is_ascii_hexdigit fp) ''invalid Inbox content fingerprint''"

subsection \<open>Images (images.rs, with the limits of lib/ai/vision-contract.json)\<close>

definition max_images :: nat where "max_images = 20"
definition max_normalized_bytes :: nat where "max_normalized_bytes = 5242880"
definition max_normalized_pixels :: nat where "max_normalized_pixels = 1048576"
definition max_normalized_dimension :: nat where "max_normalized_dimension = 2048"

definition is_lower_hex :: "char \<Rightarrow> bool" where
  "is_lower_hex c \<longleftrightarrow> is_ascii_digit c \<or> 97 \<le> byte_of c \<and> byte_of c \<le> 102"

definition path_leaf :: "string \<Rightarrow> string" where
  "path_leaf name = rev (takeWhile (\<lambda>c. c \<noteq> CHR ''/'' \<and> c \<noteq> CHR 0x5C) (rev name))"

definition clean_name :: "(string \<Rightarrow> string) \<Rightarrow> string \<Rightarrow> payload_error + string" where
  "clean_name redact name =
     (if 256 < length name \<or> has_control name
      then Inl (PayloadRefused ''IMAGE_NAME_INVALID: maximum 256 UTF-8 bytes; no control characters'')
      else let leaf = trim_text (path_leaf name) in
        Inr (redact (if leaf = [] then ''image.png'' else leaf)))"

definition validate_image :: "(string \<Rightarrow> string) \<Rightarrow> image_ref \<Rightarrow> payload_error + unit" where
  "validate_image redact i =
     (if img_version i \<noteq> 1 \<or> length (img_sha256 i) \<noteq> 64 \<or> \<not> list_all is_lower_hex (img_sha256 i)
         \<or> img_media_type i \<noteq> ''image/png'' \<or> img_bytes i = 0
         \<or> max_normalized_bytes < unat (img_bytes i) \<or> img_width i = 0 \<or> img_height i = 0
         \<or> max_normalized_pixels < unat (img_width i) * unat (img_height i)
         \<or> max_normalized_dimension < max (unat (img_width i)) (unat (img_height i))
      then Inl (PayloadRefused ''IMAGE_REFERENCE_INVALID'')
      else try_bind (clean_name redact (img_name i)) (\<lambda>clean.
        refuse_unless (clean = img_name i) ''IMAGE_REFERENCE_INVALID''))"

subsection \<open>Messages, calls and targets\<close>

definition validate_terminal_context ::
  "message_source_kind \<Rightarrow> terminal_context \<Rightarrow> payload_error + unit" where
  "validate_terminal_context kind c = checks
     [refuse_unless (\<not> (kind \<noteq> SourceUser \<or> tctx_version c = 0 \<or> MAX_JS_SAFE_INTEGER < tctx_version c
        \<or> tctx_max_lines c = 0 \<or> 10000 < tctx_max_lines c \<or> tctx_max_bytes c = 0
        \<or> MAX_TERMINAL_CONTEXT_BYTES < unat (tctx_max_bytes c)
        \<or> unat (tctx_max_bytes c) < length (tctx_content c))) ''TERMINAL_CONTEXT_SOURCE_INVALID'',
      check_id (tctx_session_id c) ''terminalContext.sessionId'',
      validate_text (tctx_content c) ''terminal context content'' False MAX_TERMINAL_CONTEXT_BYTES]"

definition SUBMISSION_CONTENT_FINGERPRINT :: string where
  "SUBMISSION_CONTENT_FINGERPRINT = ''submissionContentFingerprint''"

definition validate_inbox_message :: "(string \<Rightarrow> string) \<Rightarrow> inbox_message \<Rightarrow> payload_error + unit" where
  "validate_inbox_message redact m = checks
     [check_opt (\<lambda>v. case v of
          JString fp \<Rightarrow> validate_content_fingerprint fp
        | _ \<Rightarrow> Inl (PayloadRefused ''invalid Inbox content fingerprint''))
        (map_of (src_metadata (msg_source m)) SUBMISSION_CONTENT_FINGERPRINT),
      refuse_unless (length (msg_images m) \<le> max_images) ''IMAGE_COUNT_LIMIT'',
      check_each (validate_image redact) (msg_images m),
      refuse_unless (msg_images m = [] \<or> src_kind (msg_source m) = SourceUser) ''IMAGE_SOURCE_NOT_USER'',
      check_opt (validate_terminal_context (src_kind (msg_source m))) (msg_terminal_context m),
      check_id (msg_message_id m) ''messageId'',
      check_opt (\<lambda>i. check_id i ''clientSubmissionId'') (msg_client_submission_id m),
      validate_text (msg_content m) ''message content'' (msg_images m \<noteq> []) MAX_AGENT_MESSAGE_BYTES,
      validate_text (src_label (msg_source m)) ''message source label'' False MAX_LABEL_BYTES,
      validate_text (src_producer_id (msg_source m)) ''message source producer id'' False MAX_LABEL_BYTES]"

definition blank_or_missing :: "string option \<Rightarrow> bool" where
  "blank_or_missing v \<longleftrightarrow> (case v of None \<Rightarrow> True | Some s \<Rightarrow> s = [])"

definition validate_session_target :: "session_target \<Rightarrow> payload_error + unit" where
  "validate_session_target t = checks
     [refuse_unless (tgt_kind t = ''local'' \<or> tgt_kind t = ''remote'') ''tool target kind is invalid'',
      check_id (tgt_target_id t) ''targetId'',
      check_id (tgt_session_id t) ''target sessionId'',
      validate_optional_text (tgt_label t) ''target label'',
      check_opt (\<lambda>p. check_id p ''profileId'') (tgt_profile_id t),
      validate_optional_text (tgt_host t) ''target host'',
      validate_optional_text (tgt_username t) ''target username'',
      validate_optional_text (tgt_cwd t) ''target cwd'',
      validate_optional_text (tgt_root_path t) ''target root path'',
      validate_optional_text (tgt_local_root t) ''target local root'',
      (if tgt_kind t = ''local'' \<and> (tgt_host t \<noteq> None \<or> tgt_port t \<noteq> None \<or> tgt_username t \<noteq> None)
       then Inl (PayloadRefused ''local tool target contains remote identity fields'')
       else if tgt_kind t = ''remote'' \<and> (blank_or_missing (tgt_host t) \<or> tgt_port t = None
         \<or> blank_or_missing (tgt_username t))
       then Inl (PayloadRefused ''remote tool target is missing its frozen identity'')
       else Inr ())]"

definition validate_recorded_call :: "recorded_tool_call \<Rightarrow> payload_error + unit" where
  "validate_recorded_call c = checks
     [check_id (call_call_id c) ''callId'',
      check_opt (\<lambda>p. validate_text p ''provider call id'' False MAX_LABEL_BYTES) (call_provider_call_id c),
      validate_text (call_name c) ''tool name'' False MAX_LABEL_BYTES,
      validate_optional_text (call_native_name c) ''native tool name'',
      validate_optional_text (call_title c) ''tool title'',
      check_opt validate_session_target (call_target c)]"

subsection \<open>Subagents, plans and Skills\<close>

definition validate_capability_scope :: "capability_scope \<Rightarrow> payload_error + unit" where
  "validate_capability_scope s = checks
     [validate_collection (scope_tool_names s) ''capability tools'',
      validate_collection (scope_effects s) ''capability effects'',
      validate_collection (scope_target_ids s) ''capability targets'',
      check_unique (\<lambda>t. validate_text t ''capability tool'' False MAX_LABEL_BYTES)
        (PayloadRefused ''capability scope contains duplicate tools'') [] (scope_tool_names s),
      check_unique (\<lambda>t. check_id t ''capability targetId'')
        (PayloadRefused ''capability scope contains duplicate targets'') [] (scope_target_ids s),
      check_unique (\<lambda>_. Inr ())
        (PayloadRefused ''capability scope contains duplicate effects'') [] (scope_effects s)]"

definition validate_subagent_inheritance :: "subagent_inheritance \<Rightarrow> payload_error + unit" where
  "validate_subagent_inheritance i = (case i of
     SafePrefix (Some sequence) \<Rightarrow> refuse_unless (sequence \<le> MAX_JS_SAFE_INTEGER)
       ''subagent inheritance boundary exceeds the wire limit''
   | _ \<Rightarrow> Inr ())"

definition outside :: "'a::linorder \<Rightarrow> 'a \<Rightarrow> 'a option \<Rightarrow> bool" where
  "outside lo hi v \<longleftrightarrow> (case v of None \<Rightarrow> False | Some x \<Rightarrow> \<not> (lo \<le> x \<and> x \<le> hi))"

definition validate_subagent_budget :: "subagent_budget \<Rightarrow> payload_error + unit" where
  "validate_subagent_budget b = refuse_unless
     (\<not> (outside 1 64 (sbud_max_steps_per_turn b)
       \<or> sbud_max_turns b = 0 \<or> 256 < sbud_max_turns b
       \<or> outside 1 4096 (sbud_max_tool_calls b)
       \<or> outside 1024 16000000 (sbud_max_tokens b)
       \<or> sbud_timeout_ms b < 1000 \<or> 86400000 < sbud_timeout_ms b))
     ''subagent execution budget is outside native bounds''"

definition validate_subagent_session ::
  "subagent_session \<Rightarrow> string option \<Rightarrow> payload_error + unit" where
  "validate_subagent_session s parent = checks
     [check_id (sub_descriptor_id s) ''descriptorId'',
      check_id (sub_parent_task_id s) ''parentTaskId'',
      refuse_unless (parent \<noteq> None) ''subagent Session requires parentSessionId'',
      refuse_unless (\<not> (sub_depth s = 0 \<or> 16 < sub_depth s)) ''subagent depth is outside native bounds'',
      validate_subagent_inheritance (sub_inheritance s),
      validate_capability_scope (sub_capability_scope s),
      validate_collection (sub_target_scope s) ''subagent target scope'',
      check_each (\<lambda>t. checks [validate_session_target t,
          refuse_unless (tgt_target_id t \<in> set (scope_target_ids (sub_capability_scope s)))
            ''subagent target scope exceeds its capability targets'']) (sub_target_scope s),
      validate_subagent_budget (sub_budget s),
      validate_text (smod_route_id (sub_provider s)) ''subagent routeId'' False MAX_LABEL_BYTES,
      validate_text (smod_model_id (sub_provider s)) ''subagent model'' False MAX_LABEL_BYTES,
      validate_optional_text (smod_reasoning_effort (sub_provider s)) ''subagent reasoning effort'']"

fun validate_plan_steps :: "string list \<Rightarrow> plan_step list \<Rightarrow> payload_error + unit" where
  "validate_plan_steps seen [] = Inr ()"
| "validate_plan_steps seen (s # ss) = checks
     [check_id (plan_id s) ''plan step id'',
      refuse_unless (plan_id s \<notin> set seen) ''task plan contains duplicate step ids'',
      validate_text (plan_title s) ''plan step title'' False MAX_LABEL_BYTES,
      validate_optional_text (plan_detail s) ''plan step detail'',
      check_each (\<lambda>i. check_id i ''evidenceId'') (plan_evidence_refs s),
      validate_plan_steps (plan_id s # seen) ss]"

definition validate_task_plan :: "u64 \<Rightarrow> plan_step list \<Rightarrow> payload_error + unit" where
  "validate_task_plan version steps = checks
     [refuse_unless (version \<noteq> 0) ''task plan version must be positive'',
      validate_collection_allow_empty steps ''plan steps'',
      validate_plan_steps [] steps]"

definition MAX_SKILLS :: nat where "MAX_SKILLS = 256"
definition MAX_SKILL_STEP :: nat where "MAX_SKILL_STEP = 112 * 1024"
definition MAX_SKILL_CALLS :: nat where "MAX_SKILL_CALLS = 16"

definition unchanged_by_redaction :: "payload_codec \<Rightarrow> json \<Rightarrow> payload_error + unit" where
  "unchanged_by_redaction cx v = refuse_unless (redact_json_value (pc_redact cx) v = v)
     ''Skill content requires redaction; complete load rejected''"

definition check_loaded :: "payload_codec \<Rightarrow> loaded_skill \<Rightarrow> payload_error + unit" where
  "check_loaded cx l = refuse_unless (validate_loaded (pc_skills cx) l)
     ''invalid complete Skill payload: version, bounds or hash''"

definition validate_skill_snapshot :: "payload_codec \<Rightarrow> skill_snapshot \<Rightarrow> payload_error + unit" where
  "validate_skill_snapshot cx s = refuse_unless
     (sksn_protocol_version s = SKILL_PROTOCOL \<and> length (sksn_entries s) \<le> MAX_SKILLS
      \<and> sksn_snapshot_revision s = pc_snapshot_revision cx (sksn_scope s) (sksn_entries s))
     ''invalid Skills snapshot version, limit or digest''"

text \<open>The loop over the outcomes carries the names already seen and the bytes so far.\<close>

fun validate_outcomes ::
  "payload_codec \<Rightarrow> string list \<Rightarrow> string list \<Rightarrow> nat \<Rightarrow> skill_slash_outcome list \<Rightarrow> payload_error + nat" where
  "validate_outcomes cx ids names bytes [] = Inr bytes"
| "validate_outcomes cx ids names bytes (x # xs) =
     try_bind (refuse_unless (\<not> (\<not> valid_name (skso_name x) \<or> skso_name x \<in> set names
         \<or> (skso_loaded x \<noteq> None) = (skso_error x \<noteq> None) \<or> skso_message_ids x = []
         \<or> \<not> set (skso_message_ids x) \<subseteq> set ids)) ''invalid slash outcome'') (\<lambda>_.
     try_bind (check_opt (\<lambda>l. checks
         [refuse_unless (\<not> (skl_name l \<noteq> skso_name x
            \<or> skp_invocation (skl_provenance l) \<noteq> InvocationUser
            \<or> skp_message_ids (skl_provenance l) \<noteq> skso_message_ids x))
            ''slash provenance does not match outcome'',
          check_loaded cx l]) (skso_loaded x)) (\<lambda>_.
     validate_outcomes cx ids (skso_name x # names)
       (bytes + (case skso_loaded x of None \<Rightarrow> 0 | Some l \<Rightarrow> length (skl_rendered l))) xs))"

definition validate_step_prepared :: "payload_codec \<Rightarrow> skill_step_prepared \<Rightarrow> payload_error + unit" where
  "validate_step_prepared cx p =
     try_bind (refuse_unless (sksp_protocol_version p = SKILL_PROTOCOL
        \<and> length (sksp_outcomes p) \<le> MAX_SKILL_CALLS) ''invalid Skills preparation version or call limit'') (\<lambda>_.
     try_bind (validate_outcomes cx (sksp_message_ids p) []
        (case sksp_catalog p of None \<Rightarrow> 0 | Some c \<Rightarrow> length (skc_content c)) (sksp_outcomes p)) (\<lambda>bytes.
     checks
       [refuse_unless (bytes \<le> MAX_SKILL_STEP) ''Skills step input exceeds complete batch limit'',
        refuse_unless (pc_prepared_len cx p \<le> 240 * 1024) ''Skills preparation exceeds durable event limit'',
        unchanged_by_redaction cx (pc_prepared_json cx p)]))"

definition validate_skill_result ::
  "payload_codec \<Rightarrow> string \<Rightarrow> string \<Rightarrow> result_status \<Rightarrow> json option \<Rightarrow> payload_error + unit" where
  "validate_skill_result cx call name status data =
     (if name = SKILL_TOOL \<and> status = ResultCompleted then
        try_bind (ok_or data (PayloadRefused ''complete Skill result has no body'')) (\<lambda>v.
        try_bind (ok_or (pc_parse_loaded cx v) (PayloadRefused ''invalid Skill result protocol'')) (\<lambda>l.
        checks
          [check_loaded cx l,
           refuse_unless (skp_call_id (skl_provenance l) = Some call
             \<and> skp_invocation (skl_provenance l) = InvocationModel)
             ''Skill result invocation identity mismatch'',
           unchanged_by_redaction cx (pc_loaded_json cx l)]))
      else Inr ())"

subsection \<open>Assistant output and model requests\<close>

definition validate_assistant_block ::
  "stored_replay option \<Rightarrow> assistant_block \<Rightarrow> payload_error + unit" where
  "validate_assistant_block replay b = (case b of
     ContentText t \<Rightarrow> validate_text t ''assistant text block'' False MAX_AGENT_MESSAGE_BYTES
   | ContentReasoning t item \<Rightarrow> checks
       [validate_text t ''assistant reasoning block'' False MAX_AGENT_MESSAGE_BYTES,
        refuse_unless (\<not> (replay \<noteq> None \<and> item \<noteq> None))
          ''prepared replay stores native reasoning only in its envelope'']
   | ContentToolCall call \<Rightarrow> validate_recorded_call call)"

definition validate_series :: "request_series \<Rightarrow> u32 \<Rightarrow> payload_error + unit" where
  "validate_series s attempt = checks
     [refuse_unless (attempt \<noteq> 0) ''request attempt must be positive'',
      refuse_unless (ser_starts_series s = (ser_request_index s = 0))
        ''request series boundary does not match its index'']"

definition validate_input_measurement ::
  "u64 option \<Rightarrow> input_measurement \<Rightarrow> payload_error + unit" where
  "validate_input_measurement input_tokens m =
     (let total = checked_add (meas_heuristic_tokens m) (meas_usage_adjustment_tokens m) in checks
       [refuse_unless (\<not> (length (meas_identity m) \<noteq> 64
          \<or> \<not> list_all is_ascii_hexdigit (meas_identity m)
          \<or> (case total of None \<Rightarrow> True | Some t \<Rightarrow> 9007199254740991 < t)
          \<or> input_tokens \<noteq> total
          \<or> 0 < meas_usage_adjustment_tokens m \<and> meas_anchor_request_id m = None))
          ''request input measurement is invalid'',
        check_opt (\<lambda>a. check_id a ''anchorRequestId'') (meas_anchor_request_id m)])"

definition validate_tool_schema :: "tool_definition \<Rightarrow> payload_error + unit" where
  "validate_tool_schema s = checks
     [validate_text (tdef_name s) ''tool schema name'' False MAX_LABEL_BYTES,
      validate_text (tdef_description s) ''tool schema description'' True MAX_AGENT_MESSAGE_BYTES]"

text \<open>The bit patterns of the finite floats between zero and one, negative zero included.\<close>

definition f64_in_unit :: "f64 \<Rightarrow> bool" where
  "f64_in_unit b \<longleftrightarrow> b \<le> 0x3FF0000000000000 \<or> b = 0x8000000000000000"

definition validate_fleet_target :: "fleet_target \<Rightarrow> payload_error + unit" where
  "validate_fleet_target t = checks
     [check_id (flt_target_id t) ''Fleet targetId'',
      check_id (flt_task_id t) ''Fleet taskId'',
      validate_text (flt_goal t) ''Fleet target goal'' False MAX_AGENT_MESSAGE_BYTES,
      validate_text (flt_state t) ''Fleet target state'' False MAX_LABEL_BYTES,
      validate_collection_allow_empty (flt_child_session_ids t) ''Fleet child Sessions'',
      validate_collection_allow_empty (flt_evidence_refs t) ''Fleet evidence'',
      validate_optional_text (flt_recovery t) ''Fleet recovery'']"

definition validate_fleet :: "fleet_state \<Rightarrow> payload_error + unit" where
  "validate_fleet f = checks
     [check_opt validate_subagent_budget (fleet_budget f),
      validate_optional_text (fleet_fleet_id f) ''Fleet id'',
      validate_optional_text (fleet_status f) ''Fleet status'',
      validate_collection_allow_empty (fleet_targets f) ''Fleet targets'',
      check_each validate_fleet_target (fleet_targets f)]"

definition validate_task_state ::
  "string \<Rightarrow> string option \<Rightarrow> f64 option \<Rightarrow> recovery_state option \<Rightarrow> fleet_state option
    \<Rightarrow> payload_error + unit" where
  "validate_task_state status phase progress recovery fleet = checks
     [validate_text status ''task status'' False MAX_LABEL_BYTES,
      validate_optional_text phase ''task phase'',
      refuse_unless (case progress of None \<Rightarrow> True | Some p \<Rightarrow> f64_in_unit p)
        ''task progress must be finite and between zero and one'',
      check_opt (\<lambda>r. validate_optional_text (rcv_summary r) ''recovery summary'') recovery,
      refuse_unless (case fleet of None \<Rightarrow> True | Some f \<Rightarrow>
          \<not> (fleet_total_waves f < fleet_wave f \<or> fleet_targets_total f < fleet_targets_completed f))
        ''task Fleet counters are invalid'',
      check_opt validate_fleet fleet]"

definition validate_created ::
  "session_event \<Rightarrow> string \<Rightarrow> string \<Rightarrow> string option \<Rightarrow> string option \<Rightarrow> session_target option
    \<Rightarrow> string list \<Rightarrow> capability_scope option \<Rightarrow> subagent_session option \<Rightarrow> payload_error + unit" where
  "validate_created e task goal parent source target criteria scope subagent = checks
     [require_scope e False False,
      check_id task ''taskId'',
      validate_text goal ''goal'' False MAX_AGENT_MESSAGE_BYTES,
      check_opt (\<lambda>p. check_id p ''parentSessionId'') parent,
      check_opt (\<lambda>s. checks [check_id s ''continuedFromSessionId'',
          refuse_unless (\<not> (s = ev_session_id e \<or> parent \<noteq> None \<or> subagent \<noteq> None))
            ''continuation requires a new root Session'']) source,
      check_opt validate_session_target target,
      validate_collection_allow_empty criteria ''success criteria'',
      check_each (\<lambda>c. validate_text c ''success criterion'' False MAX_AGENT_MESSAGE_BYTES) criteria,
      check_opt validate_capability_scope scope,
      check_opt (\<lambda>s. validate_subagent_session s parent) subagent]"

subsection \<open>The payload of an event\<close>

definition question_check :: "payload_codec \<Rightarrow> session_event \<Rightarrow> payload_error + unit" where
  "question_check cx e = (case validate_question_payload (pc_questions cx) e of
     Inl x \<Rightarrow> Inl (QuestionPayload x) | Inr u \<Rightarrow> Inr ())"

definition validate_event_payload :: "payload_codec \<Rightarrow> session_event \<Rightarrow> payload_error + unit" where
  "validate_event_payload cx e = (case ev_payload e of
     QuestionRequested _ _ _ \<Rightarrow> question_check cx e
   | QuestionAnswered _ _ \<Rightarrow> question_check cx e
   | QuestionCancelled _ \<Rightarrow> question_check cx e
   | SessionCreated task goal parent source target _ _ criteria scope subagent \<Rightarrow>
       validate_created e task goal parent source target criteria scope subagent
   | AgentCreated agent parent \<Rightarrow> checks
       [require_scope e False False, check_id agent ''agentId'',
        check_opt (\<lambda>p. check_id p ''parentAgentId'') parent]
   | SessionResumed \<Rightarrow> require_scope e False False
   | SubagentRecoveryStarted failed_turn recovery m \<Rightarrow> checks
       [require_scope e False False, check_id failed_turn ''failedTurnId'',
        check_id recovery ''recoveryId'', validate_inbox_message (pc_redact cx) m]
   | InboxPaused ids \<Rightarrow> checks
       [require_scope e False False, validate_collection ids ''paused Inbox items'',
        check_each (\<lambda>i. check_id i ''itemId'') ids]
   | InboxItemResumed i revision operation \<Rightarrow> checks
       [require_scope e False False, validate_mutation_event_identity e revision operation,
        check_id i ''itemId'']
   | AgentStatus _ reason \<Rightarrow> checks
       [require_scope e False False,
        check_opt (\<lambda>r. validate_text r ''status reason'' False MAX_AGENT_MESSAGE_BYTES) reason]
   | SessionEnded _ reason \<Rightarrow> checks
       [require_scope e False False,
        check_opt (\<lambda>r. validate_text r ''status reason'' False MAX_AGENT_MESSAGE_BYTES) reason]
   | InboxSpliced _ _ messages \<Rightarrow> checks
       [require_scope e False False, validate_collection messages ''Inbox messages'',
        check_each (validate_inbox_message (pc_redact cx)) messages]
   | InboxItemUpdated i _ content fingerprint revision operation \<Rightarrow> checks
       [require_scope e False False, validate_mutation_event_identity e revision operation,
        check_id i ''itemId'', validate_text content ''inbox content'' False MAX_AGENT_MESSAGE_BYTES,
        check_opt validate_content_fingerprint fingerprint]
   | InboxItemSteered i revision operation \<Rightarrow> checks
       [require_scope e False False, validate_mutation_event_identity e revision operation,
        check_id i ''itemId'']
   | InboxItemRemoved i _ revision operation \<Rightarrow> checks
       [require_scope e False False, validate_mutation_event_identity e revision operation,
        check_id i ''itemId'']
   | InboxReordered _ ids revision operation \<Rightarrow> checks
       [require_scope e False False, validate_mutation_event_identity e revision operation,
        validate_collection_allow_empty ids ''ordered inbox item ids'',
        check_unique (\<lambda>i. check_id i ''itemId'')
          (PayloadRefused ''ordered inbox item ids contain duplicates'') [] ids]
   | SessionModelSelected provider \<Rightarrow> checks
       [require_scope e False False,
        validate_text (smod_route_id provider) ''routeId'' False MAX_LABEL_BYTES,
        validate_text (smod_model_id provider) ''modelId'' False MAX_LABEL_BYTES,
        validate_optional_text (smod_reasoning_effort provider) ''reasoning effort'']
   | SessionPermissionChanged _ \<Rightarrow> require_scope e False False
   | SessionProjectRootBound root \<Rightarrow> checks
       [require_scope e False False, validate_text root ''project root'' False 4096]
   | SessionExecutionSurfaceChanged _ \<Rightarrow> require_scope e False False
   | SessionTerminalReconnected previous target \<Rightarrow> checks
       [require_scope e False False, check_id previous ''previousSessionId'',
        validate_session_target target]
   | SessionRenamed title revision operation \<Rightarrow> checks
       [require_scope e False False, validate_mutation_event_identity e revision operation,
        validate_session_title title]
   | StepInputClaim _ turn_messages step_messages \<Rightarrow> checks
       [require_scope e True True,
        check_each (validate_inbox_message (pc_redact cx)) (turn_messages @ step_messages)]
   | FileReferenceScopeBound scope \<Rightarrow> checks
       [require_scope e False False,
        validate_text (sks_root scope) ''File reference root'' False 4096,
        validate_text (sks_root_identity scope) ''File reference root identity'' False 256,
        unchanged_by_redaction cx (pc_scope_json cx scope)]
   | SkillCatalogObserved observation \<Rightarrow> checks
       [require_scope e False False,
        refuse_unless (sko_protocol_version observation = SKILL_PROTOCOL) ''unsupported Skill observation version'',
        check_opt (validate_skill_snapshot cx) (sko_snapshot observation)]
   | SkillCatalogPublished catalog \<Rightarrow> checks
       [require_scope e True True,
        validate_text (skc_content catalog) ''Skill catalog'' False MAX_AGENT_MESSAGE_BYTES,
        unchanged_by_redaction cx (pc_catalog_json cx catalog)]
   | SkillStepPrepared prepared \<Rightarrow> checks
       [require_scope e True True, validate_step_prepared cx prepared]
   | TurnStart \<Rightarrow> require_scope e True False
   | TurnEnd reason \<Rightarrow> checks
       [require_scope e True False, validate_text reason ''Turn end reason'' False MAX_LABEL_BYTES]
   | StepStart \<Rightarrow> require_scope e True True
   | StepEnd reason \<Rightarrow> checks
       [require_scope e True True, validate_text reason ''Step end reason'' False MAX_LABEL_BYTES]
   | StepPreparationAbandoned reason ids \<Rightarrow> checks
       [require_scope e True True,
        validate_text reason ''Preparation abandonment reason'' False MAX_LABEL_BYTES,
        validate_collection_allow_empty ids ''Preparation input IDs'',
        check_each (\<lambda>i. check_id i ''Preparation input ID'') ids]
   | UserMessage m \<Rightarrow> checks [require_scope e True True, validate_inbox_message (pc_redact cx) m]
   | AssistantChunk request text_delta reasoning_delta tool_delta usage \<Rightarrow> checks
       [require_scope e True True, check_id request ''requestId'',
        validate_optional_stream_delta text_delta ''assistant text delta'',
        validate_optional_stream_delta reasoning_delta ''assistant reasoning delta'',
        check_opt (\<lambda>d. checks
          [validate_optional_text (tdel_call_id d) ''tool call delta id'',
           validate_optional_text (tdel_name_delta d) ''tool call name delta'',
           validate_optional_stream_delta (tdel_arguments_delta d) ''tool call arguments delta'']) tool_delta,
        refuse_unless (\<not> (text_delta = None \<and> reasoning_delta = None \<and> tool_delta = None \<and> usage = None))
          ''assistant chunk must contain a delta or usage update'']
   | AssistantMessage mid content _ _ interrupted replay \<Rightarrow> checks
       [require_scope e True True, check_id mid ''messageId'',
        validate_collection_allow_empty content ''assistant content blocks'',
        refuse_unless (\<not> (content = [] \<and> \<not> interrupted))
          ''completed assistant message requires a content block'',
        check_each (validate_assistant_block replay) content]
   | RequestHeader request snapshot digest provider model effort _ series _ prompt schemas attempt \<Rightarrow> checks
       [require_scope e True True,
        refuse_unless (snapshot_digest (pc_replay cx) snapshot = digest) ''request snapshot digest mismatch'',
        check_id request ''requestId'',
        validate_text provider ''providerId'' False MAX_LABEL_BYTES,
        validate_text model ''model'' False MAX_LABEL_BYTES,
        validate_optional_text effort ''reasoning effort'',
        check_id (ser_series_id series) ''seriesId'',
        validate_text prompt ''system prompt'' True MAX_AGENT_MESSAGE_BYTES,
        validate_collection_allow_empty schemas ''request tool schemas'',
        check_each validate_tool_schema schemas,
        validate_series series attempt]
   | RequestStart request header provider model effort _ series attempt \<Rightarrow> checks
       [require_scope e True True, check_id request ''requestId'', check_id header ''headerRequestId'',
        validate_text provider ''providerId'' False MAX_LABEL_BYTES,
        validate_text model ''model'' False MAX_LABEL_BYTES,
        validate_optional_text effort ''reasoning effort'',
        check_id (ser_series_id series) ''seriesId'',
        validate_series series attempt]
   | RequestContext request input_tokens _ budget _ _ _ _ _ _ \<Rightarrow> checks
       [require_scope e True True, check_id request ''requestId'',
        check_opt (validate_input_measurement input_tokens)
          (Option.bind budget rbud_input_measurement)]
   | RequestRetry request previous attempt reason _ _ _ _ error_kind _ error_code \<Rightarrow> checks
       [require_scope e True True, check_id request ''requestId'',
        check_opt (\<lambda>p. check_id p ''previousRequestId'') previous,
        refuse_unless (attempt \<noteq> 0) ''request retry attempt must be positive'',
        validate_text reason ''request retry reason'' False MAX_LABEL_BYTES,
        validate_optional_text error_kind ''request retry error kind'',
        validate_optional_text error_code ''request retry error code'']
   | RequestUsage request _ _ \<Rightarrow> checks [require_scope e True True, check_id request ''requestId'']
   | RequestFailure request attempt max_attempts _ _ failure \<Rightarrow> checks
       [require_scope e True True, check_id request ''requestId'',
        refuse_unless (\<not> (attempt = 0 \<or> max_attempts = 0 \<or> max_attempts < attempt))
          ''request failure attempts must be positive and bounded'',
        validate_text (merr_message failure) ''request failure message'' False MAX_AGENT_MESSAGE_BYTES,
        validate_optional_text (merr_code failure) ''request failure code'']
   | ToolCall call \<Rightarrow> checks [require_scope e True True, validate_recorded_call call]
   | ToolApproval request call approval _ _ reason _ prompt \<Rightarrow> checks
       [require_scope e True True, check_id request ''requestId'', check_id call ''callId'',
        check_opt (\<lambda>a. check_id a ''approvalId'') approval,
        validate_optional_text reason ''approval reason'',
        validate_optional_text prompt ''approval prompt'']
   | ToolExecution call _ idempotency \<Rightarrow> checks
       [require_scope e True True, check_id call ''callId'',
        refuse_unless (idempotency \<in> {''yes'', ''no'', ''conditional''}) ''tool execution idempotency is invalid'']
   | ToolResult call name status summary data _ evidence \<Rightarrow> checks
       [require_scope e True True, check_id call ''callId'',
        validate_text name ''tool name'' False MAX_LABEL_BYTES,
        validate_text summary ''tool result summary'' False MAX_AGENT_MESSAGE_BYTES,
        validate_collection_allow_empty evidence ''evidence refs'',
        check_each (\<lambda>i. check_id i ''evidenceId'') evidence,
        validate_skill_result cx call name status data]
   | ContextArtifact artifact kind title _ media_type sha _ \<Rightarrow> checks
       [require_scope e True True, check_id artifact ''artifactId'',
        validate_text kind ''artifact kind'' False MAX_LABEL_BYTES,
        validate_text title ''artifact title'' False MAX_LABEL_BYTES,
        validate_optional_text media_type ''artifact media type'',
        refuse_unless (case sha of None \<Rightarrow> True | Some v \<Rightarrow> length v = 64 \<and> list_all is_ascii_hexdigit v)
          ''artifact sha256 is invalid'']
   | CompactionStart reason cid \<Rightarrow> checks
       [require_scope e True True, validate_text reason ''compaction reason'' False MAX_LABEL_BYTES,
        check_opt (\<lambda>i. check_id i ''compaction ID'') cid]
   | CompactionSummary summary _ _ \<Rightarrow> checks
       [require_scope e True True,
        validate_text summary ''compaction summary'' False MAX_AGENT_MESSAGE_BYTES]
   | CompactionEnd _ _ _ cid _ reason \<Rightarrow> checks
       [require_scope e True True, check_opt (\<lambda>i. check_id i ''compaction ID'') cid,
        check_opt (\<lambda>r. validate_text r ''compaction result reason'' False MAX_LABEL_BYTES) reason]
   | SubagentDescriptor descriptor child parent parent_task _ _ _ inheritance scope targets budget \<Rightarrow> checks
       [require_scope e False False, check_id descriptor ''descriptorId'',
        check_id child ''childSessionId'', check_id parent ''parentSessionId'',
        check_id parent_task ''parentTaskId'', validate_subagent_inheritance inheritance,
        validate_capability_scope scope, validate_collection targets ''subagent target scope'',
        check_each validate_session_target targets, validate_subagent_budget budget]
   | SubagentMessage descriptor child direction route summary \<Rightarrow> checks
       [require_scope e False False, check_id descriptor ''descriptorId'',
        check_id child ''childSessionId'',
        refuse_unless (direction \<in> {''inbound'', ''outbound''}) ''subagent message direction is invalid'',
        refuse_unless (route \<in> {''steer'', ''followup'', ''inject'', ''toolResult''})
          ''subagent message route is invalid'',
        validate_text summary ''subagent message'' False MAX_AGENT_MESSAGE_BYTES]
   | SubagentSettled descriptor settlement child _ summary evidence \<Rightarrow> checks
       [require_scope e False False, check_id descriptor ''descriptorId'',
        check_id settlement ''settlementId'', check_id child ''childSessionId'',
        validate_text summary ''subagent summary'' False MAX_AGENT_MESSAGE_BYTES,
        validate_collection_allow_empty evidence ''subagent evidence refs'',
        check_each (\<lambda>i. check_id i ''evidenceId'') evidence]
   | SubagentDetached descriptor child reason \<Rightarrow> checks
       [require_scope e False False, check_id descriptor ''descriptorId'',
        check_id child ''childSessionId'',
        validate_text reason ''subagent detach reason'' False MAX_LABEL_BYTES]
   | TaskLinked task goal \<Rightarrow> checks
       [check_id task ''taskId'',
        check_opt (\<lambda>g. validate_text g ''task goal'' False MAX_AGENT_MESSAGE_BYTES) goal]
   | TaskPlan version steps \<Rightarrow> validate_task_plan version steps
   | TaskState status phase progress recovery fleet \<Rightarrow>
       validate_task_state status phase progress recovery fleet
   | TaskEvidence evidence kind summary \<Rightarrow> checks
       [check_id evidence ''evidenceId'',
        validate_text kind ''evidence kind'' False MAX_LABEL_BYTES,
        validate_text summary ''evidence summary'' False MAX_AGENT_MESSAGE_BYTES])"

subsection \<open>What a checked payload guarantees\<close>

text \<open>The scope each kind of event has to carry; task records may carry any.\<close>

datatype event_scope = SessionScope | TurnScope | StepScope | AnyScope

definition payload_scope :: "session_event_payload \<Rightarrow> event_scope" where
  "payload_scope p = (case p of
     TurnStart \<Rightarrow> TurnScope | TurnEnd _ \<Rightarrow> TurnScope
   | TaskLinked _ _ \<Rightarrow> AnyScope | TaskPlan _ _ \<Rightarrow> AnyScope | TaskState _ _ _ _ _ \<Rightarrow> AnyScope
   | TaskEvidence _ _ _ \<Rightarrow> AnyScope
   | StepInputClaim _ _ _ \<Rightarrow> StepScope | SkillCatalogPublished _ \<Rightarrow> StepScope
   | SkillStepPrepared _ \<Rightarrow> StepScope | StepStart \<Rightarrow> StepScope | StepEnd _ \<Rightarrow> StepScope
   | StepPreparationAbandoned _ _ \<Rightarrow> StepScope | UserMessage _ \<Rightarrow> StepScope
   | AssistantChunk _ _ _ _ _ \<Rightarrow> StepScope | AssistantMessage _ _ _ _ _ _ \<Rightarrow> StepScope
   | RequestHeader _ _ _ _ _ _ _ _ _ _ _ _ \<Rightarrow> StepScope | RequestStart _ _ _ _ _ _ _ _ \<Rightarrow> StepScope
   | RequestContext _ _ _ _ _ _ _ _ _ _ \<Rightarrow> StepScope
   | RequestRetry _ _ _ _ _ _ _ _ _ _ _ \<Rightarrow> StepScope | RequestFailure _ _ _ _ _ _ \<Rightarrow> StepScope
   | RequestUsage _ _ _ \<Rightarrow> StepScope | ToolCall _ \<Rightarrow> StepScope
   | QuestionRequested _ _ _ \<Rightarrow> StepScope | QuestionAnswered _ _ \<Rightarrow> StepScope
   | QuestionCancelled _ \<Rightarrow> StepScope | ToolApproval _ _ _ _ _ _ _ _ \<Rightarrow> StepScope
   | ToolExecution _ _ _ \<Rightarrow> StepScope | ToolResult _ _ _ _ _ _ _ \<Rightarrow> StepScope
   | ContextArtifact _ _ _ _ _ _ _ \<Rightarrow> StepScope | CompactionStart _ _ \<Rightarrow> StepScope
   | CompactionSummary _ _ _ \<Rightarrow> StepScope | CompactionEnd _ _ _ _ _ _ \<Rightarrow> StepScope
   | _ \<Rightarrow> SessionScope)"

definition scope_ok :: "session_event \<Rightarrow> event_scope \<Rightarrow> bool" where
  "scope_ok e sc = (case sc of
     SessionScope \<Rightarrow> ev_turn_id e = None \<and> ev_step_id e = None
   | TurnScope \<Rightarrow> ev_turn_id e \<noteq> None \<and> ev_step_id e = None
   | StepScope \<Rightarrow> ev_turn_id e \<noteq> None \<and> ev_step_id e \<noteq> None
   | AnyScope \<Rightarrow> True)"

lemma require_scope_ok:
  "require_scope e False False = Inr () \<longleftrightarrow> scope_ok e SessionScope"
  "require_scope e True False = Inr () \<longleftrightarrow> scope_ok e TurnScope"
  "require_scope e True True = Inr () \<longleftrightarrow> scope_ok e StepScope"
  by (simp_all add: require_scope_def refuse_unless_def ensure_iff scope_ok_def)

lemma question_check_scope:
  assumes "question_check cx e = Inr ()"
    and "ev_payload e = QuestionRequested i args prov \<or> ev_payload e = QuestionAnswered sub fp
      \<or> ev_payload e = QuestionCancelled i"
  shows "scope_ok e StepScope"
  using assms
  by (auto simp: question_check_def validate_question_payload_def validate_scope_def in_scope_def
      scope_ok_def res_simps split: sum.splits)

lemma payload_scope_ok:
  assumes "validate_event_payload cx e = Inr ()"
  shows "scope_ok e (payload_scope (ev_payload e))"
proof (cases "ev_payload e")
  case (QuestionRequested i args prov)
  then show ?thesis using assms question_check_scope [of cx e]
    by (simp add: validate_event_payload_def payload_scope_def)
next
  case (QuestionAnswered sub fp)
  then show ?thesis using assms question_check_scope [of cx e]
    by (simp add: validate_event_payload_def payload_scope_def)
next
  case (QuestionCancelled i)
  then show ?thesis using assms question_check_scope [of cx e]
    by (simp add: validate_event_payload_def payload_scope_def)
next
  case (SessionCreated a b c d t p x cr sc sub)
  then show ?thesis using assms
    by (simp add: validate_event_payload_def payload_scope_def validate_created_def checks_ok_iff
        require_scope_ok)
qed (use assms in \<open>simp_all add: validate_event_payload_def payload_scope_def checks_ok_iff
      require_scope_ok scope_ok_def [of e AnyScope]\<close>)

end
