(* ===== verification/Session_Record.thy ===== *)
theory Session_Record
  imports Payload_Check Child_Recovery Surface Inbox
begin

text \<open>
  The record the store keeps of one Session (agent\_runtime/session.rs): the header, the
  status and the inbox folded from the log, the checks every appended event passes
  (\<open>validate_event_envelope\<close>, \<open>validate_event_transition\<close>, \<open>validate_event_payload\<close>), its effect
  (\<open>apply_event\<close>) and the rebuilding of the record on restart (\<open>from_events\<close>). The caches of
  the record (metrics, progress, snapshot) are not kept: the code derives them again from
  the log. A refusal keeps the message of the source, shortened. Parameters beside those of
  the components: the platform's test for an absolute path, and serde's derived encoder and
  decoder between an event and its JSON value; what is between them, the redaction of the
  value, is the code's.
\<close>

record session_codec =
  sx_payload :: payload_codec
  sx_surface :: surface_codec
  sx_path_is_absolute :: "string \<Rightarrow> bool"
  sx_encode :: "session_event \<Rightarrow> json option"
  sx_decode :: "json \<Rightarrow> session_event option"

abbreviation sx_redact :: "session_codec \<Rightarrow> string \<Rightarrow> string" where
  "sx_redact cx \<equiv> pc_redact (sx_payload cx)"

abbreviation sx_questions :: "session_codec \<Rightarrow> question_codec" where
  "sx_questions cx \<equiv> pc_questions (sx_payload cx)"

abbreviation sx_digests :: "session_codec \<Rightarrow> replay_digests" where
  "sx_digests cx \<equiv> pc_replay (sx_payload cx)"

datatype session_error =
    EnvelopeRefused string
  | TransitionRefused string
  | PayloadInvalid payload_error
  | ToolRefused tool_error
  | QuestionRefusedHere question_error
  | ReplayRefused replay_error
  | SurfaceRefused surface_error
  | InboxRefused inbox_error
  | NotRedacted
  | EmptyLog
  | NoCreation
  | InboxRetained

definition lift_error :: "('e \<Rightarrow> 'f) \<Rightarrow> 'e + 'a \<Rightarrow> 'f + 'a" where
  "lift_error f r = (case r of Inl x \<Rightarrow> Inl (f x) | Inr a \<Rightarrow> Inr a)"

lemma lift_error_iff [res_simps]:
  "lift_error f r = Inr a \<longleftrightarrow> r = Inr a"
  "lift_error f r = Inl y \<longleftrightarrow> (\<exists>x. r = Inl x \<and> y = f x)"
  by (auto simp: lift_error_def split: sum.splits)

definition refuse :: "bool \<Rightarrow> string \<Rightarrow> session_error + unit" where
  "refuse bad message = ensure (\<not> bad) (TransitionRefused message)"

subsection \<open>The record\<close>

record session_record =
  rec_header :: session_header
  rec_status :: session_status
  rec_ended :: bool
  rec_archived :: bool
  rec_events :: "session_event list"
  rec_inbox :: agent_inbox

definition record_projection :: "session_record \<Rightarrow> inbox_projection" where
  "record_projection r = \<lparr>proj_paused_ids = paused_ids (rec_inbox r),
     proj_next_turn = inb_next_turn (rec_inbox r), proj_next_step = inb_next_step (rec_inbox r)\<rparr>"

definition record_surface :: "session_codec \<Rightarrow> session_record \<Rightarrow> session_error + surface_snapshot" where
  "record_surface cx r = lift_error SurfaceRefused (derive_surface (sx_surface cx) (rec_events r))"

definition record_child_recovery :: "session_record \<Rightarrow> child_failure_recovery option" where
  "record_child_recovery r = child_failure_recovery (rec_header r) (rec_status r) (rec_archived r)
     (rec_events r) (record_projection r)"

definition open_turn_mark :: "session_event \<Rightarrow> bool option" where
  "open_turn_mark e = (case ev_payload e of TurnStart \<Rightarrow> Some True | TurnEnd _ \<Rightarrow> Some False
     | SessionEnded _ _ \<Rightarrow> Some False | _ \<Rightarrow> None)"

definition terminal_reconnect_settled :: "session_codec \<Rightarrow> session_record \<Rightarrow> session_error + bool" where
  "terminal_reconnect_settled cx r = try_bind (record_surface cx r) (\<lambda>_.
     let open_turn = (case find_map open_turn_mark (rev (rec_events r)) of
           None \<Rightarrow> False | Some b \<Rightarrow> b)
     in Inr (\<not> open_turn \<and> \<not> (rec_status r = StatusRunning \<or> rec_status r = StatusWaiting)
       \<and> inb_next_step (rec_inbox r) = [] \<and> inb_next_turn (rec_inbox r) = []))"

definition finds_submission ::
  "string \<Rightarrow> session_event \<Rightarrow> (inbox_lane \<times> inbox_message) option" where
  "finds_submission i e = (case ev_payload e of
     SubagentRecoveryStarted _ _ m \<Rightarrow>
       if msg_client_submission_id m = Some i then Some (NextTurn, m) else None
   | InboxSpliced op lane ms \<Rightarrow>
       if op = Enqueued
       then map_option (Pair lane) (find (\<lambda>m. msg_client_submission_id m = Some i) ms) else None
   | _ \<Rightarrow> None)"

definition find_submission :: "session_record \<Rightarrow> string \<Rightarrow> (inbox_lane \<times> inbox_message) option" where
  "find_submission r i = find_map (finds_submission i) (rec_events r)"

definition enqueues_item :: "string \<Rightarrow> session_event \<Rightarrow> bool" where
  "enqueues_item i e = (case ev_payload e of
     InboxSpliced op _ ms \<Rightarrow> op = Enqueued \<and> (\<exists>m\<in>set ms. msg_message_id m = i) | _ \<Rightarrow> False)"

definition require_queued_item ::
  "session_record \<Rightarrow> string \<Rightarrow> session_error + inbox_lane \<times> inbox_message" where
  "require_queued_item r i = (case locate (rec_inbox r) i of
     Some item \<Rightarrow> Inr item
   | None \<Rightarrow> Inl (TransitionRefused (if list_ex (enqueues_item i) (rec_events r)
       then ''Agent inbox item is no longer queued (claimed or removed)''
       else ''Agent inbox item was not found'')))"

definition inbox_operation_id :: "session_event_payload \<Rightarrow> string option" where
  "inbox_operation_id p = (case p of
     InboxItemResumed _ _ operation \<Rightarrow> Some operation
   | InboxItemSteered _ _ operation \<Rightarrow> Some operation
   | InboxItemUpdated _ _ _ _ _ operation \<Rightarrow> Some operation
   | InboxItemRemoved _ _ _ operation \<Rightarrow> Some operation
   | InboxReordered _ _ _ operation \<Rightarrow> Some operation
   | SessionRenamed _ _ operation \<Rightarrow> Some operation
   | _ \<Rightarrow> None)"

definition operation_committed :: "session_record \<Rightarrow> session_event \<Rightarrow> bool" where
  "operation_committed r e = list_ex
     (\<lambda>p. inbox_operation_id (ev_payload p) = inbox_operation_id (ev_payload e)) (rec_events r)"

definition validate_mutable_session :: "session_record \<Rightarrow> session_error + unit" where
  "validate_mutable_session r =
     try_bind (refuse (rec_archived r) ''archived Agent Session rejects the operation'') (\<lambda>_.
     refuse (rec_ended r \<or> is_terminal (rec_status r)) ''terminal Agent Session rejects the operation'')"

definition is_turn_boundary :: "session_event \<Rightarrow> bool" where
  "is_turn_boundary e = (case ev_payload e of TurnStart \<Rightarrow> True | TurnEnd _ \<Rightarrow> True | _ \<Rightarrow> False)"

definition validate_steer_target :: "session_record \<Rightarrow> string \<Rightarrow> session_error + unit" where
  "validate_steer_target r i =
     try_bind (validate_mutable_session r) (\<lambda>_.
     try_bind (refuse (rec_status r \<noteq> StatusRunning) ''Agent inbox steer requires a running Session'') (\<lambda>_.
     try_bind (refuse (\<not> (case find is_turn_boundary (rev (rec_events r)) of
         None \<Rightarrow> False | Some e \<Rightarrow> is_turn_start e)) ''Agent inbox steer requires an open running turn'') (\<lambda>_.
     try_bind (require_queued_item r i) (\<lambda>(lane, m).
     try_bind (refuse (lane \<noteq> NextTurn) ''Agent inbox steer requires a queued nextTurn item'') (\<lambda>_.
     refuse (src_kind (msg_source m) \<noteq> SourceUser) ''Agent inbox steer requires a user message'')))))"

definition validate_expected_revision :: "session_record \<Rightarrow> u64 \<Rightarrow> session_error + unit" where
  "validate_expected_revision r expected =
     refuse (expected \<noteq> word_of_nat (length (rec_events r))) ''Agent Runtime revision conflict''"

definition retains_paused_inputs :: "session_record \<Rightarrow> session_status \<Rightarrow> bool" where
  "retains_paused_inputs r status \<longleftrightarrow> status = StatusFailed \<and> hdr_subagent (rec_header r) = None
     \<and> turn_claim (rec_inbox r) = [] \<and> step_claim (rec_inbox r) = []"

definition validate_record_final :: "session_record \<Rightarrow> session_error + unit" where
  "validate_record_final r = ensure (\<not> (rec_ended r \<and> \<not> inbox_is_empty (rec_inbox r)
     \<and> \<not> retains_paused_inputs r (rec_status r))) InboxRetained"

subsection \<open>The envelope of an event\<close>

definition validate_event_envelope_at ::
  "session_record \<Rightarrow> session_event \<Rightarrow> u64 \<Rightarrow> u64 \<Rightarrow> session_error + unit" where
  "validate_event_envelope_at r e next_seq previous_time =
     (let check = (\<lambda>bad message. ensure (\<not> bad) (EnvelopeRefused message)) in checks
       [check (ev_version e \<noteq> AGENT_SESSION_EVENT_VERSION) ''Agent session event version is unsupported'',
        check (\<not> validate_identifier (ev_session_id e)) ''sessionId'',
        check (ev_session_id e \<noteq> hdr_session_id (rec_header r))
          ''Agent session event belongs to another Session'',
        check (ev_seq e \<noteq> next_seq \<or> MAX_JS_SAFE_INTEGER < ev_seq e)
          ''Agent session event sequence is not contiguous'',
        check (ev_time_unix_ms e = 0 \<or> MAX_JS_SAFE_INTEGER < ev_time_unix_ms e)
          ''Agent session event timestamp is invalid'',
        check (ev_time_unix_ms e < previous_time) ''Agent session event timestamp moved backwards'',
        check_opt (\<lambda>t. check (\<not> validate_identifier t) ''turnId'') (ev_turn_id e),
        check_opt (\<lambda>s. checks [check (\<not> validate_identifier s) ''stepId'',
          check (ev_turn_id e = None) ''Agent session stepId requires turnId'']) (ev_step_id e)])"

definition validate_event_envelope :: "session_record \<Rightarrow> session_event \<Rightarrow> session_error + unit" where
  "validate_event_envelope r e = validate_event_envelope_at r e
     (word_of_nat (length (rec_events r)))
     (if rec_events r = [] then 1 else ev_time_unix_ms (last (rec_events r)))"

subsection \<open>Scopes pinned by the log (file\_references.rs, builtin\_skills.rs)\<close>

definition PROVIDER :: string where
  "PROVIDER = ''shellspan.builtin-skills.v1''"

definition is_builtin_scope :: "skill_scope \<Rightarrow> bool" where
  "is_builtin_scope s \<longleftrightarrow> sks_root_identity s = PROVIDER"

definition bound_scope :: "session_event \<Rightarrow> skill_scope option" where
  "bound_scope e = (case ev_payload e of
     FileReferenceScopeBound scope \<Rightarrow> Some scope
   | SkillCatalogObserved observation \<Rightarrow> (case sko_snapshot observation of
       None \<Rightarrow> None
     | Some s \<Rightarrow> if is_builtin_scope (sksn_scope s) then None else Some (sksn_scope s))
   | _ \<Rightarrow> None)"

definition scope_step :: "skill_scope option \<Rightarrow> session_event \<Rightarrow> skill_scope option" where
  "scope_step scope e =
     (let bound = (case scope of None \<Rightarrow> bound_scope e | Some s \<Rightarrow> Some s) in
      case ev_payload e of
        SessionTerminalReconnected _ target \<Rightarrow> map_option (\<lambda>s. s\<lparr>sks_target := target\<rparr>) bound
      | _ \<Rightarrow> bound)"

definition current_bound_scope :: "session_event list \<Rightarrow> skill_scope option" where
  "current_bound_scope es = foldl scope_step None es"

definition scope_changed :: "session_event list \<Rightarrow> skill_scope \<Rightarrow> bool" where
  "scope_changed es scope \<longleftrightarrow> (case current_bound_scope es of
     None \<Rightarrow> False | Some previous \<Rightarrow> previous \<noteq> scope)"

subsection \<open>Replay metadata of assistant messages (model.rs, artifact.rs)\<close>

definition json_is_null_or :: "(json \<Rightarrow> bool) \<Rightarrow> json \<Rightarrow> bool" where
  "json_is_null_or P v \<longleftrightarrow> v = JNull \<or> P v"

definition get_is :: "(string \<times> json) list \<Rightarrow> string \<Rightarrow> (json \<Rightarrow> bool) \<Rightarrow> bool" where
  "get_is kvs k P \<longleftrightarrow> (case map_of kvs k of None \<Rightarrow> False | Some v \<Rightarrow> P v)"

definition recorded_tool_call_omits_replay :: "recorded_tool_call \<Rightarrow> bool" where
  "recorded_tool_call_omits_replay c = (case call_arguments c of
     JObject kvs \<Rightarrow>
       if map_of kvs ''text'' \<noteq> None \<or> map_of kvs ''input'' \<noteq> None
          \<or> Option.bind (map_of kvs ''contentPersisted'') json_as_bool \<noteq> Some False
       then False
       else if call_name c = ''write_terminal_input'' then
         length kvs = 4 \<and> get_is kvs ''inputKind'' is_json_string
         \<and> get_is kvs ''key'' (json_is_null_or is_json_string)
         \<and> get_is kvs ''byteLength'' (json_is_null_or (\<lambda>v. json_as_u64 v \<noteq> None))
       else if call_name c = ''wait_terminal'' then
         Option.bind (map_of kvs ''textProvided'') json_as_bool = Some True
         \<and> Option.bind (map_of kvs ''textByteLength'') json_as_u64 \<noteq> None
       else if call_name c = ''write_process_input'' then
         length kvs = 4 \<and> get_is kvs ''processHandle'' is_json_string
         \<and> get_is kvs ''close'' (json_is_null_or (\<lambda>v. json_as_bool v \<noteq> None))
         \<and> get_is kvs ''byteLength'' (json_is_null_or (\<lambda>v. json_as_u64 v \<noteq> None))
       else False
   | _ \<Rightarrow> False)"

definition MAX_ARTIFACT_BYTES :: u64 where
  "MAX_ARTIFACT_BYTES = 16777216"

definition AGENT_REPLAY_ARTIFACT_KIND :: string where
  "AGENT_REPLAY_ARTIFACT_KIND = ''assistant-replay''"

definition AGENT_REPLAY_ARTIFACT_MEDIA_TYPE :: string where
  "AGENT_REPLAY_ARTIFACT_MEDIA_TYPE = ''application/vnd.shellspan.agent-replay+zstd''"

definition validate_replay_metadata :: "artifact_metadata \<Rightarrow> session_error + unit" where
  "validate_replay_metadata a =
     try_bind (refuse (\<not> validate_identifier (art_artifact_id a)) ''artifactId'') (\<lambda>_.
     refuse (art_kind a \<noteq> AGENT_REPLAY_ARTIFACT_KIND
       \<or> art_title a \<noteq> ''Private assistant replay metadata''
       \<or> art_media_type a \<noteq> AGENT_REPLAY_ARTIFACT_MEDIA_TYPE
       \<or> art_sensitivity a \<noteq> ArtifactInternal
       \<or> art_size_bytes a = 0 \<or> MAX_ARTIFACT_BYTES < art_size_bytes a
       \<or> length (art_sha256 a) \<noteq> 64 \<or> \<not> list_all is_lower_hex (art_sha256 a))
       ''Agent replay artifact metadata is invalid'')"

definition started_request :: "string option \<Rightarrow> session_event \<Rightarrow> (string \<times> string) option" where
  "started_request st p = (if ev_step_id p \<noteq> st then None else case ev_payload p of
     RequestStart request header _ _ _ _ _ _ \<Rightarrow> Some (request, header) | _ \<Rightarrow> None)"

definition header_snapshot :: "string \<Rightarrow> session_event \<Rightarrow> (request_snapshot \<times> string) option" where
  "header_snapshot h p = (case ev_payload p of
     RequestHeader request snapshot digest _ _ _ _ _ _ _ _ _ \<Rightarrow>
       if request = h then Some (snapshot, digest) else None
   | _ \<Rightarrow> None)"

definition validate_assistant_replay_context ::
  "session_codec \<Rightarrow> session_event list \<Rightarrow> session_event \<Rightarrow> session_error + request_snapshot \<times> string" where
  "validate_assistant_replay_context cx es e =
     try_bind (ok_or (find_map (started_request (ev_step_id e)) (rev es))
       (TransitionRefused ''assistant message requires a committed request/start'')) (\<lambda>(request, header).
     try_bind (ok_or (find_map (header_snapshot header) (rev es))
       (TransitionRefused ''assistant replay requires its committed request/header snapshot'')) (\<lambda>(snapshot, digest).
     try_bind (refuse (snapshot_digest (sx_digests cx) snapshot \<noteq> digest)
       ''assistant replay request snapshot digest mismatch'') (\<lambda>_.
     Inr (snapshot, request))))"

definition validate_assistant_replay ::
  "session_codec \<Rightarrow> session_event list \<Rightarrow> session_event \<Rightarrow> assistant_block list \<Rightarrow> replay_envelope
    \<Rightarrow> session_error + unit" where
  "validate_assistant_replay cx es e content env =
     try_bind (validate_assistant_replay_context cx es e) (\<lambda>(snapshot, request).
     lift_error ReplayRefused (validate_agent_envelope (sx_digests cx) env content snapshot request))"

definition omits_replay_block :: "assistant_block \<Rightarrow> bool" where
  "omits_replay_block b = (case b of
     ContentToolCall call \<Rightarrow> recorded_tool_call_omits_replay call | _ \<Rightarrow> False)"

definition validate_assistant_message ::
  "session_codec \<Rightarrow> session_event list \<Rightarrow> session_event \<Rightarrow> assistant_block list \<Rightarrow> bool
    \<Rightarrow> stored_replay option \<Rightarrow> session_error + unit" where
  "validate_assistant_message cx es e content interrupted replay =
     (if interrupted
      then refuse (replay \<noteq> None) ''interrupted assistant message cannot carry replay metadata''
      else case replay of
        Some (ReplayInline env) \<Rightarrow> validate_assistant_replay cx es e content env
      | Some (ReplayArtifact reference) \<Rightarrow>
          try_bind (validate_assistant_replay_context cx es e) (\<lambda>_.
          validate_replay_metadata (rart_artifact reference))
      | None \<Rightarrow> refuse (\<not> list_ex omits_replay_block content)
          ''REPLAY_CAPTURE_MISSING: prepared response requires a prepared replay envelope'')"

subsection \<open>The arms of the transition check\<close>

definition validate_terminal_reconnect ::
  "session_codec \<Rightarrow> session_record \<Rightarrow> string \<Rightarrow> session_target \<Rightarrow> session_error + unit" where
  "validate_terminal_reconnect cx r previous target =
     try_bind (ok_or (hdr_target (rec_header r)) (TransitionRefused ''terminal reconnect requires a target'')) (\<lambda>old.
     let expected = old\<lparr>tgt_session_id := tgt_session_id target, tgt_target_id := tgt_target_id target\<rparr>;
         refused = TransitionRefused
           ''terminal reconnect requires a settled root Session and the same target identity''
     in if rec_archived r \<or> hdr_subagent (rec_header r) \<noteq> None
           \<or> hdr_capability_scope (rec_header r) \<noteq> None
           \<or> tgt_session_id old \<noteq> previous
           \<or> tgt_session_id old = tgt_session_id target
           \<or> tgt_target_id old = tgt_target_id target
           \<or> expected \<noteq> target
        then Inl refused
        else try_bind (terminal_reconnect_settled cx r) (\<lambda>settled.
        try_bind (ensure settled refused) (\<lambda>_.
        let recovery = derive_recovery_checkpoint (sx_redact cx) (rec_events r) in
        refuse (cp_kind recovery \<noteq> ExecutionInFlight
          \<and> (cp_status recovery = RecoveryAvailable \<or> cp_status recovery = RecoveryRequired
             \<or> cp_status recovery = RecoveryReconciling)) ''terminal reconnect requires reconciled effects'')))"

definition validate_child_recovery ::
  "session_codec \<Rightarrow> session_record \<Rightarrow> string \<Rightarrow> string \<Rightarrow> inbox_message \<Rightarrow> session_error + unit" where
  "validate_child_recovery cx r failed_turn recovery m =
     try_bind (record_surface cx r) (\<lambda>_.
     refuse (\<not> (rec_ended r \<and> rec_status r = StatusFailed
       \<and> (case record_child_recovery r of None \<Rightarrow> False | Some c \<Rightarrow> cfr_turn_id c = failed_turn)
       \<and> recovery = recovery_id failed_turn
       \<and> msg_message_id m = recovery
       \<and> msg_client_submission_id m = Some recovery
       \<and> src_kind (msg_source m) = SourceRuntime
       \<and> src_label (msg_source m) = ''child-failure-retry''
       \<and> msg_images m = [] \<and> msg_terminal_context m = None
       \<and> Option.bind (map_of (src_metadata (msg_source m)) ''retryTurnId'') json_as_str = Some failed_turn
       \<and> find_submission r recovery = None))
       ''subagent/recovery_started requires a safely settled failed child'')"

definition reconciles :: "session_record \<Rightarrow> session_event \<Rightarrow> string \<Rightarrow> bool" where
  "reconciles r e i = list_ex (\<lambda>p. ev_turn_id p = ev_turn_id e \<and> ev_step_id p = ev_step_id e
     \<and> (case ev_payload p of
          TaskEvidence evidence kind _ \<Rightarrow> evidence = i \<and> kind = ''recovery-reconciliation''
        | _ \<Rightarrow> False)) (rec_events r)"

text \<open>
  The exception for a stopped root: evidence of a reconciliation, and the result it
  settles. \<open>None\<close> means the exception does not apply and the checks go on.
\<close>

definition reconciliation_exception ::
  "session_codec \<Rightarrow> session_record \<Rightarrow> session_event \<Rightarrow> (session_error + unit) option" where
  "reconciliation_exception cx r e =
     (if rec_ended r \<and> \<not> rec_archived r \<and> hdr_subagent (rec_header r) = None
         \<and> hdr_capability_scope (rec_header r) = None
         \<and> (rec_status r = StatusCancelled \<or> rec_status r = StatusFailed)
      then (case unresolved_execution (sx_redact cx) (rec_events r) of
          None \<Rightarrow> None
        | Some cp \<Rightarrow>
            if ev_turn_id e = cp_turn_id cp \<and> ev_step_id e = cp_step_id cp
            then (case ev_payload e of
                TaskEvidence _ kind _ \<Rightarrow> if kind = ''recovery-reconciliation'' then Some (Inr ()) else None
              | ToolResult call name status _ _ _ evidence \<Rightarrow>
                  if cp_call_id cp = Some call \<and> cp_tool_name cp = Some name
                     \<and> (status = ResultCompleted \<or> status = ResultCancelled)
                     \<and> evidence \<noteq> [] \<and> list_all (reconciles r e) evidence
                  then Some (lift_error ToolRefused
                    (validate_tool_result (sx_questions cx) (rec_events r) e call status))
                  else None
              | _ \<Rightarrow> None)
            else None)
      else None)"

definition failed_admission :: "session_record \<Rightarrow> session_event \<Rightarrow> bool" where
  "failed_admission r e \<longleftrightarrow> rec_ended r \<and> rec_status r = StatusFailed \<and> \<not> rec_archived r
     \<and> hdr_subagent (rec_header r) = None
     \<and> (case ev_payload e of InboxSpliced op _ _ \<Rightarrow> op = Enqueued | InboxPaused _ \<Rightarrow> True | _ \<Rightarrow> False)"

definition is_session_end :: "session_event \<Rightarrow> bool" where
  "is_session_end e = (case ev_payload e of SessionEnded _ _ \<Rightarrow> True | _ \<Rightarrow> False)"

definition context_messages :: "session_event \<Rightarrow> inbox_message list" where
  "context_messages e = (case ev_payload e of
     InboxSpliced _ _ ms \<Rightarrow> ms | UserMessage m \<Rightarrow> [m] | _ \<Rightarrow> [])"

definition foreign_context :: "session_record \<Rightarrow> inbox_message \<Rightarrow> bool" where
  "foreign_context r m \<longleftrightarrow> (case msg_terminal_context m of
     None \<Rightarrow> False
   | Some c \<Rightarrow> map_option tgt_session_id (hdr_target (rec_header r)) \<noteq> Some (tctx_session_id c))"

definition project_directory :: "session_target \<Rightarrow> session_error + string option" where
  "project_directory t =
     (if tgt_kind t = ''local'' then Inr (tgt_cwd t)
      else if tgt_kind t = ''remote'' then Inr (tgt_root_path t)
      else Inl (TransitionRefused ''Unavailable: unsupported target''))"

definition validate_project_root ::
  "session_codec \<Rightarrow> session_record \<Rightarrow> string \<Rightarrow> session_error + unit" where
  "validate_project_root cx r root =
     try_bind (refuse (hdr_subagent (rec_header r) \<noteq> None \<or> rec_status r \<noteq> StatusIdle \<or> rec_ended r
       \<or> rec_archived r \<or> \<not> inbox_is_empty (rec_inbox r))
       ''Busy: project binding requires an idle root Session with an empty inbox'') (\<lambda>_.
     try_bind (ok_or (hdr_target (rec_header r)) (TransitionRefused ''Unavailable: missing target'')) (\<lambda>target.
     try_bind (project_directory target) (\<lambda>existing.
     try_bind (refuse (case existing of None \<Rightarrow> False | Some v \<Rightarrow> \<not> is_blank v)
       ''Denied: project directory is already bound'') (\<lambda>_.
     let absolute = (if tgt_kind target = ''local'' then sx_path_is_absolute cx root
           else starts_with ''/'' root)
     in refuse (\<not> absolute \<or> has_control root) ''InvalidRequest: project directory must be absolute''))))"

definition request_header_of ::
  "session_event \<Rightarrow> (string \<times> string \<times> string \<times> string option \<times> request_series) option" where
  "request_header_of p = (case ev_payload p of
     RequestHeader request _ _ provider model effort _ series _ _ _ _ \<Rightarrow>
       Some (request, provider, model, effort, series)
   | _ \<Rightarrow> None)"

definition request_start_of :: "session_event \<Rightarrow> (string \<times> request_series) option" where
  "request_start_of p = (case ev_payload p of
     RequestStart request _ _ _ _ _ series _ \<Rightarrow> Some (request, series) | _ \<Rightarrow> None)"

definition expected_series_index :: "session_record \<Rightarrow> request_series \<Rightarrow> u32" where
  "expected_series_index r series =
     (case find_map request_start_of (rev (rec_events r)) of
        None \<Rightarrow> 0
      | Some (_, previous) \<Rightarrow>
          if ser_series_id previous = ser_series_id series
          then sat_add (ser_request_index previous) 1 else 0)"

definition validate_request_start ::
  "session_record \<Rightarrow> string \<Rightarrow> string \<Rightarrow> string \<Rightarrow> string \<Rightarrow> string option \<Rightarrow> request_series
    \<Rightarrow> session_error + unit" where
  "validate_request_start r request header provider model effort series =
     try_bind (ok_or (find_map request_header_of (rev (rec_events r)))
       (TransitionRefused ''request/start requires a recorded header snapshot'')) (\<lambda>(h, p, m, ef, s).
     try_bind (refuse (header \<noteq> h \<or> provider \<noteq> p \<or> model \<noteq> m \<or> effort \<noteq> ef
         \<or> ser_series_id series \<noteq> ser_series_id s)
       ''request/start must reference the current matching header snapshot'') (\<lambda>_.
     try_bind (refuse (list_ex (\<lambda>e. map_option fst (request_start_of e) = Some request) (rec_events r))
       ''request/start identity was already committed'') (\<lambda>_.
     refuse (ser_request_index series \<noteq> expected_series_index r series)
       ''request/start series index is not contiguous'')))"

definition claimed_skill_inputs :: "session_event \<Rightarrow> string list" where
  "claimed_skill_inputs e = (case ev_payload e of
     StepInputClaim _ turn_messages step_messages \<Rightarrow>
       map msg_message_id (filter direct_skill_input (turn_messages @ step_messages))
   | _ \<Rightarrow> [])"

definition is_skill_preparation :: "session_event \<Rightarrow> bool" where
  "is_skill_preparation e = (case ev_payload e of SkillStepPrepared _ \<Rightarrow> True | _ \<Rightarrow> False)"

definition validate_skill_step ::
  "session_record \<Rightarrow> session_event \<Rightarrow> skill_step_prepared \<Rightarrow> session_error + unit" where
  "validate_skill_step r e p =
     try_bind (refuse (list_ex (\<lambda>x. ev_step_id x = ev_step_id e \<and> is_skill_preparation x) (rec_events r))
       ''Skill Step already prepared'') (\<lambda>_.
     let claimed = concat (map claimed_skill_inputs (step_scope (rec_events r) (ev_step_id e))) in
     try_bind (refuse (claimed \<noteq> sksp_message_ids p) ''Skill preparation does not match durable claim'') (\<lambda>_.
     check_each (\<lambda>x. checks
       [refuse (\<not> set (skso_message_ids x) \<subseteq> set claimed) ''Skill invocation has an unclaimed input'',
        refuse (case skso_loaded x of None \<Rightarrow> False
          | Some l \<Rightarrow> hdr_target (rec_header r) \<noteq> Some (sks_target (skp_scope (skl_provenance l))))
          ''Skill invocation changed the frozen target'']) (sksp_outcomes p)))"

definition validate_observation ::
  "session_record \<Rightarrow> skill_observation \<Rightarrow> session_error + unit" where
  "validate_observation r observation = (case sko_snapshot observation of
     None \<Rightarrow> Inr ()
   | Some s \<Rightarrow>
       try_bind (refuse (hdr_target (rec_header r) \<noteq> Some (sks_target (sksn_scope s)))
         ''Skills observation changed the frozen target'') (\<lambda>_.
       refuse (scope_changed (rec_events r) (sksn_scope s))
         ''Skills root identity changed during observation''))"

definition validate_event_arm ::
  "session_codec \<Rightarrow> session_record \<Rightarrow> session_event \<Rightarrow> session_error + unit" where
  "validate_event_arm cx r e = (case ev_payload e of
     InboxItemResumed i _ _ \<Rightarrow>
       try_bind (refuse (operation_committed r e) ''Agent inbox resume operation was already committed'') (\<lambda>_.
       refuse (i \<notin> set (paused_ids (rec_inbox r))) ''only paused Inbox items can be resumed'')
   | InboxItemSteered i _ _ \<Rightarrow>
       try_bind (refuse (operation_committed r e) ''Agent inbox steer operation was already committed'') (\<lambda>_.
       validate_steer_target r i)
   | SessionCreated _ _ _ _ _ _ _ _ _ _ \<Rightarrow>
       refuse (rec_events r \<noteq> []) ''session/created can only be the first event''
   | _ \<Rightarrow>
     if rec_events r = [] then Inl (TransitionRefused ''Agent session log must begin with session/created'')
     else case ev_payload e of
       SessionProjectRootBound root \<Rightarrow> validate_project_root cx r root
     | SessionExecutionSurfaceChanged _ \<Rightarrow>
         refuse (hdr_subagent (rec_header r) \<noteq> None \<or> rec_status r \<noteq> StatusIdle)
           ''execution surface change requires an idle root Session''
     | SessionEnded status _ \<Rightarrow>
         try_bind (refuse (\<not> is_terminal status) ''session/ended requires a terminal status'') (\<lambda>_.
         try_bind (refuse (\<not> inbox_is_empty (rec_inbox r) \<and> \<not> retains_paused_inputs r status)
           ''session/ended requires an empty Inbox'') (\<lambda>_.
         refuse (is_terminal (rec_status r) \<and> rec_status r \<noteq> status)
           ''session/ended did not match the terminal Agent status''))
     | RequestStart request header provider model effort _ series _ \<Rightarrow>
         validate_request_start r request header provider model effort series
     | AssistantMessage _ content _ _ interrupted replay \<Rightarrow>
         validate_assistant_message cx (rec_events r) e content interrupted replay
     | FileReferenceScopeBound scope \<Rightarrow>
         refuse (hdr_target (rec_header r) \<noteq> Some (sks_target scope) \<or> scope_changed (rec_events r) scope)
           ''File reference root identity changed''
     | SkillCatalogObserved observation \<Rightarrow> validate_observation r observation
     | SkillStepPrepared prepared \<Rightarrow> validate_skill_step r e prepared
     | RequestContext _ _ _ _ _ _ _ generation _ _ \<Rightarrow>
         try_bind (record_surface cx r) (\<lambda>s.
         refuse (generation \<noteq> surf_generation s) ''request/context referenced a stale Model Surface generation'')
     | ToolCall call \<Rightarrow> lift_error ToolRefused (validate_tool_call (rec_events r) e call)
     | ToolApproval _ call approval status _ _ expires _ \<Rightarrow>
         lift_error ToolRefused (validate_tool_approval (rec_events r) e call approval status expires)
     | ToolExecution call _ _ \<Rightarrow> lift_error ToolRefused (validate_tool_execution (rec_events r) e call)
     | ToolResult call _ status _ _ _ _ \<Rightarrow>
         lift_error ToolRefused (validate_tool_result (sx_questions cx) (rec_events r) e call status)
     | QuestionRequested _ _ _ \<Rightarrow>
         lift_error QuestionRefusedHere (validate_question_transition (sx_questions cx) (rec_events r) e)
     | QuestionAnswered _ _ \<Rightarrow>
         lift_error QuestionRefusedHere (validate_question_transition (sx_questions cx) (rec_events r) e)
     | QuestionCancelled _ \<Rightarrow>
         lift_error QuestionRefusedHere (validate_question_transition (sx_questions cx) (rec_events r) e)
     | _ \<Rightarrow> Inr ())"

definition validate_live_event ::
  "session_codec \<Rightarrow> session_record \<Rightarrow> session_event \<Rightarrow> session_error + unit" where
  "validate_live_event cx r e =
     try_bind (refuse (rec_ended r \<and> \<not> failed_admission r e)
       ''ended Agent session does not accept new events'') (\<lambda>_.
     try_bind (refuse (is_terminal (rec_status r) \<and> \<not> failed_admission r e \<and> \<not> is_session_end e)
       ''terminal Agent status must be followed by session/ended'') (\<lambda>_.
     try_bind (refuse (list_ex (foreign_context r) (context_messages e))
       ''terminal context does not match the frozen Session target'') (\<lambda>_.
     validate_event_arm cx r e)))"

definition validate_event_transition ::
  "session_codec \<Rightarrow> session_record \<Rightarrow> session_event \<Rightarrow> session_error + unit" where
  "validate_event_transition cx r e = (case ev_payload e of
     SessionTerminalReconnected previous target \<Rightarrow> validate_terminal_reconnect cx r previous target
   | SubagentRecoveryStarted failed_turn recovery m \<Rightarrow> validate_child_recovery cx r failed_turn recovery m
   | SessionResumed \<Rightarrow>
       refuse (\<not> (rec_ended r \<and> \<not> rec_archived r \<and> hdr_subagent (rec_header r) = None))
         ''session/resumed requires an ended unarchived root Session''
   | _ \<Rightarrow> (case reconciliation_exception cx r e of
       Some result \<Rightarrow> result
     | None \<Rightarrow> validate_live_event cx r e))"

subsection \<open>The effect of an event\<close>

definition with_inbox ::
  "session_record \<Rightarrow> inbox_error + agent_inbox \<Rightarrow> session_error + session_record" where
  "with_inbox r result = (case result of
     Inl x \<Rightarrow> Inl (InboxRefused x) | Inr b \<Rightarrow> Inr (r\<lparr>rec_inbox := b\<rparr>))"

definition bind_project_root :: "string \<Rightarrow> session_target \<Rightarrow> session_target" where
  "bind_project_root root t = (if tgt_kind t = ''local'' then t\<lparr>tgt_cwd := Some root\<rparr>
     else t\<lparr>tgt_root_path := Some root\<rparr>)"

definition update_header :: "(session_header \<Rightarrow> session_header) \<Rightarrow> session_record \<Rightarrow> session_record" where
  "update_header f r = r\<lparr>rec_header := f (rec_header r)\<rparr>"

definition apply_event :: "session_record \<Rightarrow> session_event \<Rightarrow> session_error + session_record" where
  "apply_event r e = (case ev_payload e of
     SessionResumed \<Rightarrow> Inr (r\<lparr>rec_status := StatusIdle, rec_ended := False\<rparr>)
   | SubagentRecoveryStarted _ _ m \<Rightarrow>
       with_inbox (r\<lparr>rec_status := StatusIdle, rec_ended := False\<rparr>)
         (inbox_apply Enqueued NextTurn [m] (rec_inbox r))
   | InboxPaused ids \<Rightarrow> with_inbox r (pause ids (rec_inbox r))
   | InboxItemResumed i _ _ \<Rightarrow> with_inbox r (resume i (rec_inbox r))
   | AgentStatus status _ \<Rightarrow> Inr (r\<lparr>rec_status := status\<rparr>)
   | SessionEnded status _ \<Rightarrow> Inr (r\<lparr>rec_status := status, rec_ended := True\<rparr>)
   | InboxSpliced op lane ms \<Rightarrow> with_inbox r (try_bind (inbox_apply op lane ms (rec_inbox r)) (\<lambda>b.
       if rec_ended r \<and> rec_status r = StatusFailed \<and> op = Enqueued
       then pause (map msg_message_id ms) b else Inr b))
   | InboxItemUpdated i lane content _ _ _ \<Rightarrow> with_inbox r (inbox_update lane i content (rec_inbox r))
   | InboxItemRemoved i lane _ _ \<Rightarrow> with_inbox r (inbox_remove lane i (rec_inbox r))
   | InboxItemSteered i _ _ \<Rightarrow> with_inbox r (steer i (rec_inbox r))
   | InboxReordered lane ids _ _ \<Rightarrow> with_inbox r (inbox_reorder lane ids (rec_inbox r))
   | SessionModelSelected provider \<Rightarrow>
       Inr (update_header (\<lambda>h. h\<lparr>hdr_model_selection := Some provider\<rparr>) r)
   | SessionPermissionChanged mode \<Rightarrow>
       Inr (update_header (\<lambda>h. h\<lparr>hdr_permission_mode := Some mode\<rparr>) r)
   | SessionExecutionSurfaceChanged surface \<Rightarrow>
       Inr (update_header (\<lambda>h. h\<lparr>hdr_execution_surface := surface\<rparr>) r)
   | SessionTerminalReconnected _ target \<Rightarrow>
       Inr (update_header (\<lambda>h. h\<lparr>hdr_target := Some target, hdr_permission_mode := Some RequestApproval\<rparr>) r)
   | SessionProjectRootBound root \<Rightarrow>
       Inr (update_header (\<lambda>h. h\<lparr>hdr_target := map_option (bind_project_root root) (hdr_target h)\<rparr>) r)
   | SessionRenamed title _ _ \<Rightarrow> Inr (update_header (\<lambda>h. h\<lparr>hdr_title := Some title\<rparr>) r)
   | _ \<Rightarrow> Inr r)"

text \<open>An event is redacted as a JSON value; the decoder has to accept the result.\<close>

definition sanitize_event :: "session_codec \<Rightarrow> session_event \<Rightarrow> session_event option" where
  "sanitize_event cx e = Option.bind (sx_encode cx e) (\<lambda>v.
     sx_decode cx (redact_json_value (sx_redact cx) v))"

definition push_event :: "session_event \<Rightarrow> session_record \<Rightarrow> session_record" where
  "push_event e r = r\<lparr>rec_events := rec_events r @ [e]\<rparr>"

text \<open>One turn of the loop of \<open>from_events\<close>.\<close>

definition accept_event ::
  "session_codec \<Rightarrow> session_record \<Rightarrow> session_event \<Rightarrow> session_error + session_record" where
  "accept_event cx r e =
     try_bind (validate_event_envelope r e) (\<lambda>_.
     try_bind (validate_event_transition cx r e) (\<lambda>_.
     try_bind (lift_error PayloadInvalid (validate_event_payload (sx_payload cx) e)) (\<lambda>_.
     try_bind (ensure (sanitize_event cx e = Some e) NotRedacted) (\<lambda>_.
     try_bind (apply_event r e) (\<lambda>r'. Inr (push_event e r'))))))"

definition header_of :: "session_event \<Rightarrow> session_header option" where
  "header_of e = (case ev_payload e of
     SessionCreated task goal parent source target mode surface criteria scope subagent \<Rightarrow>
       Some \<lparr>hdr_model_selection = None, hdr_session_id = ev_session_id e, hdr_task_id = task,
         hdr_goal = goal, hdr_title = None, hdr_parent_session_id = parent,
         hdr_continued_from_session_id = source, hdr_target = target, hdr_permission_mode = mode,
         hdr_execution_surface = surface, hdr_success_criteria = criteria,
         hdr_capability_scope = scope, hdr_subagent = subagent,
         hdr_created_at_unix_ms = ev_time_unix_ms e\<rparr>
   | _ \<Rightarrow> None)"

definition fresh_record :: "session_header \<Rightarrow> session_record" where
  "fresh_record h = \<lparr>rec_header = h, rec_status = StatusIdle, rec_ended = False, rec_archived = False,
     rec_events = [], rec_inbox = empty_inbox\<rparr>"

definition from_events :: "session_codec \<Rightarrow> session_event list \<Rightarrow> session_error + session_record" where
  "from_events cx es = (case es of
     [] \<Rightarrow> Inl EmptyLog
   | first # _ \<Rightarrow>
       try_bind (ok_or (header_of first) NoCreation) (\<lambda>h.
       try_bind (run_ops (accept_event cx) (fresh_record h) es) (\<lambda>r.
       try_bind (lift_error InboxRefused (inbox_replay (rec_events r))) (\<lambda>b.
       let r = r\<lparr>rec_inbox := b\<rparr> in
       try_bind (record_surface cx r) (\<lambda>_.
       try_bind (validate_record_final r) (\<lambda>_. Inr r))))))"

subsection \<open>Components of the record refine their own folds\<close>

text \<open>
  A machine whose steps, seen through an abstraction, are steps of another machine: every
  accepted run of the first is an accepted run of the second.
\<close>

locale simulation =
  fixes step :: "'s \<Rightarrow> 'o \<Rightarrow> 'e + 's"
    and abs_step :: "'a \<Rightarrow> 'o \<Rightarrow> 'f + 'a"
    and abs :: "'s \<Rightarrow> 'a"
  assumes step_sim: "step s x = Inr s' \<Longrightarrow> abs_step (abs s) x = Inr (abs s')"
begin

lemma run_sim: "run_ops step s xs = Inr s' \<Longrightarrow> run_ops abs_step (abs s) xs = Inr (abs s')"
  by (induction xs arbitrary: s) (auto simp: res_simps dest: step_sim)

end

lemma with_inbox_iff [res_simps]:
  "with_inbox r result = Inr r' \<longleftrightarrow> (\<exists>b. result = Inr b \<and> r' = r\<lparr>rec_inbox := b\<rparr>)"
  by (auto simp: with_inbox_def split: sum.splits)

lemma refuse_iff [res_simps]: "refuse bad m = Inr () \<longleftrightarrow> \<not> bad"
  by (simp add: refuse_def ensure_iff)

lemma apply_event_keeps:
  assumes "apply_event r e = Inr r'"
  shows "rec_events r' = rec_events r" "rec_archived r' = rec_archived r"
    "hdr_session_id (rec_header r') = hdr_session_id (rec_header r)"
    "hdr_subagent (rec_header r') = hdr_subagent (rec_header r)"
    "hdr_parent_session_id (rec_header r') = hdr_parent_session_id (rec_header r)"
  using assms
  by (cases "ev_payload e"; auto simp: apply_event_def res_simps update_header_def)+

lemma accept_eventD:
  assumes "accept_event cx r e = Inr r'"
  shows "validate_event_envelope r e = Inr ()" "validate_event_transition cx r e = Inr ()"
    "validate_event_payload (sx_payload cx) e = Inr ()" "sanitize_event cx e = Some e"
    "\<exists>r1. apply_event r e = Inr r1 \<and> r' = push_event e r1"
  using assms by (auto simp: accept_event_def res_simps)

lemma accept_event_events: "accept_event cx r e = Inr r' \<Longrightarrow> rec_events r' = rec_events r @ [e]"
  by (auto dest!: accept_eventD(5) apply_event_keeps(1) simp: push_event_def)

lemma accept_run_events: "run_ops (accept_event cx) r es = Inr r' \<Longrightarrow> rec_events r' = rec_events r @ es"
  by (induction es arbitrary: r) (auto simp: res_simps dest!: accept_event_events)

definition inbox_view :: "session_record \<Rightarrow> agent_inbox \<times> bool" where
  "inbox_view r = (rec_inbox r, rec_ended r \<and> rec_status r = StatusFailed)"

lemma ended_refuses_status:
  assumes "validate_event_transition cx r e = Inr ()" "ev_payload e = AgentStatus status reason"
  shows "\<not> rec_ended r"
  using assms
  by (auto simp: validate_event_transition_def reconciliation_exception_def validate_live_event_def
      failed_admission_def res_simps split: option.splits if_splits)

lemma inbox_view_step:
  assumes "accept_event cx r e = Inr r'"
  shows "replay_event (inbox_view r) e = Inr (inbox_view r')"
proof -
  from accept_eventD(5) [OF assms] obtain r1 where a: "apply_event r e = Inr r1" "r' = push_event e r1"
    by blast
  note ok = accept_eventD(2) [OF assms]
  show ?thesis
  proof (cases "ev_payload e")
    case (AgentStatus status reason)
    then show ?thesis using a ended_refuses_status [OF ok AgentStatus]
      by (auto simp: replay_event_def inbox_view_def push_event_def apply_event_def)
  next
    case (InboxSpliced op lane ms)
    then show ?thesis using a
      by (auto simp: replay_event_def inbox_view_def push_event_def apply_event_def with_inbox_iff
          simp del: try_bind_simps) simp
  qed (use a in \<open>auto simp: replay_event_def inbox_view_def push_event_def apply_event_def res_simps
        update_header_def\<close>)
qed

interpretation inbox_fold: simulation "accept_event cx" replay_event inbox_view for cx
  by unfold_locales (rule inbox_view_step)

text \<open>How an event got through the transition check.\<close>

definition is_lifecycle_event :: "session_event \<Rightarrow> bool" where
  "is_lifecycle_event e = (case ev_payload e of
     SessionTerminalReconnected _ _ \<Rightarrow> True | SubagentRecoveryStarted _ _ _ \<Rightarrow> True
   | SessionResumed \<Rightarrow> True | _ \<Rightarrow> False)"

lemma transition_other:
  "\<not> is_lifecycle_event e \<Longrightarrow> validate_event_transition cx r e =
     (case reconciliation_exception cx r e of Some result \<Rightarrow> result | None \<Rightarrow> validate_live_event cx r e)"
  by (cases "ev_payload e") (simp_all add: validate_event_transition_def is_lifecycle_event_def)

lemma reconciliation_exceptionD:
  assumes "reconciliation_exception cx r e = Some result"
  shows "rec_ended r" "rec_status r = StatusCancelled \<or> rec_status r = StatusFailed"
    "hdr_subagent (rec_header r) = None" "\<not> rec_archived r"
    "(\<exists>i s. ev_payload e = TaskEvidence i ''recovery-reconciliation'' s) \<or>
     (\<exists>c n st u d m v. ev_payload e = ToolResult c n st u d m v
       \<and> result = lift_error ToolRefused
           (validate_tool_result (sx_questions cx) (rec_events r) e c st)
       \<and> (st = ResultCompleted \<or> st = ResultCancelled))"
proof -
  from assms have g: "rec_ended r \<and> \<not> rec_archived r \<and> hdr_subagent (rec_header r) = None
         \<and> hdr_capability_scope (rec_header r) = None
         \<and> (rec_status r = StatusCancelled \<or> rec_status r = StatusFailed)"
    unfolding reconciliation_exception_def by (rule_tac ccontr) simp
  then show "rec_ended r" "rec_status r = StatusCancelled \<or> rec_status r = StatusFailed"
    "hdr_subagent (rec_header r) = None" "\<not> rec_archived r" by blast+
  from assms g obtain cp where
    cp: "unresolved_execution (sx_redact cx) (rec_events r) = Some cp"
      "ev_turn_id e = cp_turn_id cp \<and> ev_step_id e = cp_step_id cp"
    unfolding reconciliation_exception_def by (simp split: option.splits if_splits)
  show "(\<exists>i s. ev_payload e = TaskEvidence i ''recovery-reconciliation'' s) \<or>
     (\<exists>c n st u d m v. ev_payload e = ToolResult c n st u d m v
       \<and> result = lift_error ToolRefused
           (validate_tool_result (sx_questions cx) (rec_events r) e c st)
       \<and> (st = ResultCompleted \<or> st = ResultCancelled))"
    using assms g cp
    by (cases "ev_payload e") (simp_all add: reconciliation_exception_def split: if_splits)
qed

lemma live_eventD:
  assumes "validate_live_event cx r e = Inr ()"
  shows "rec_ended r \<Longrightarrow> failed_admission r e"
    "is_terminal (rec_status r) \<Longrightarrow> failed_admission r e \<or> is_session_end e"
    "validate_event_arm cx r e = Inr ()"
    "m \<in> set (context_messages e) \<Longrightarrow> \<not> foreign_context r m"
  using assms by (auto simp: validate_live_event_def res_simps list_ex_iff)

lemma transition_cases:
  assumes "validate_event_transition cx r e = Inr ()"
  obtains (lifecycle) "is_lifecycle_event e"
  | (reconciliation) "\<not> is_lifecycle_event e" "reconciliation_exception cx r e = Some (Inr ())"
  | (live) "\<not> is_lifecycle_event e" "reconciliation_exception cx r e = None"
      "validate_live_event cx r e = Inr ()"
  using assms transition_other [of e cx r]
  by (cases "is_lifecycle_event e"; cases "reconciliation_exception cx r e") auto

text \<open>The tool and question events of the log pass the checks of their own machine.\<close>

definition is_question_event :: "session_event \<Rightarrow> bool" where
  "is_question_event e = (case ev_payload e of QuestionRequested _ _ _ \<Rightarrow> True
     | QuestionAnswered _ _ \<Rightarrow> True | QuestionCancelled _ \<Rightarrow> True | _ \<Rightarrow> False)"

definition is_tool_event :: "session_event \<Rightarrow> bool" where
  "is_tool_event e = (case ev_payload e of ToolCall _ \<Rightarrow> True
     | ToolApproval _ _ _ _ _ _ _ _ \<Rightarrow> True | ToolExecution _ _ _ \<Rightarrow> True
     | ToolResult _ _ _ _ _ _ _ \<Rightarrow> True | _ \<Rightarrow> False)"

lemma question_transition_other:
  "\<not> is_question_event e \<Longrightarrow> validate_question_transition cx es e = Inr ()"
  by (cases "ev_payload e")
    (simp_all add: is_question_event_def validate_question_transition_def validate_question_payload_def)

lemma tool_transition_plain:
  "\<not> is_tool_event e \<Longrightarrow> validate_tool_transition cx es e = lift_error QuestionRefused
     (validate_question_transition cx es e)"
  by (cases "ev_payload e")
    (simp_all add: is_tool_event_def validate_tool_transition_def lift_error_def split: sum.split)

lemma arm_tool:
  assumes "validate_event_arm cx r e = Inr ()"
  shows "validate_tool_transition (sx_questions cx) (rec_events r) e = Inr ()"
proof (cases "is_tool_event e")
  case True
  then show ?thesis using assms
    by (cases "ev_payload e")
      (simp_all add: is_tool_event_def validate_event_arm_def validate_tool_transition_def res_simps
        split: if_splits)
next
  case False
  have "validate_question_transition (sx_questions cx) (rec_events r) e = Inr ()"
  proof (cases "is_question_event e")
    case True
    then show ?thesis using assms
      by (cases "ev_payload e")
        (simp_all add: is_question_event_def validate_event_arm_def res_simps split: if_splits)
  qed (rule question_transition_other)
  then show ?thesis by (simp add: tool_transition_plain [OF False] res_simps)
qed

lemma transition_tool:
  assumes "validate_event_transition cx r e = Inr ()"
  shows "validate_tool_transition (sx_questions cx) (rec_events r) e = Inr ()"
  using assms
proof (cases rule: transition_cases)
  case lifecycle
  then have "\<not> is_tool_event e" "\<not> is_question_event e"
    by (cases "ev_payload e"; simp add: is_lifecycle_event_def is_tool_event_def is_question_event_def)+
  then show ?thesis
    by (simp add: tool_transition_plain question_transition_other res_simps)
next
  case reconciliation
  from reconciliation_exceptionD(5) [OF reconciliation(2)] show ?thesis
    by (auto simp: validate_tool_transition_def res_simps validate_question_transition_def
        validate_question_payload_def dest: sym)
next
  case live
  then show ?thesis by (intro arm_tool live_eventD(3))
qed

lemma tool_fold_step:
  "accept_event cx r e = Inr r' \<Longrightarrow>
    append_tool_event (sx_questions cx) (rec_events r) e = Inr (rec_events r')"
  using transition_tool [OF accept_eventD(2), of cx r e r']
  by (simp add: append_tool_event_def accept_event_events)

interpretation tool_fold: simulation "accept_event cx" "append_tool_event (sx_questions cx)" rec_events for cx
  by unfold_locales (rule tool_fold_step)

subsection \<open>The invariant of a record\<close>

lemma no_claims_iff:
  "turn_claim b = [] \<and> step_claim b = [] \<longleftrightarrow> set (queued_ids b) \<subseteq> inb_paused_ids b"
proof -
  have "turn_claim b = [] \<longleftrightarrow> msg_message_id ` set (inb_next_turn b) \<subseteq> inb_paused_ids b"
    by (auto simp: turn_claim_def find_None_iff split: option.splits dest: find_SomeD)
  moreover have "step_claim b = [] \<longleftrightarrow> msg_message_id ` set (inb_next_step b) \<subseteq> inb_paused_ids b"
    by (auto simp: step_claim_def filter_empty_conv)
  ultimately show ?thesis by (auto simp: queued_ids_def)
qed

definition inbox_retained_ok :: "session_record \<Rightarrow> bool" where
  "inbox_retained_ok r \<longleftrightarrow> rec_ended r \<longrightarrow> inbox_is_empty (rec_inbox r)
     \<or> retains_paused_inputs r (rec_status r)"

definition record_inv :: "session_record \<Rightarrow> bool" where
  "record_inv r \<longleftrightarrow> inbox_inv (rec_inbox r) \<and> inbox_retained_ok r
     \<and> (rec_ended r \<longrightarrow> is_terminal (rec_status r))
     \<and> length (rec_events r) \<le> 2 ^ 53
     \<and> (\<forall>i < length (rec_events r). unat (ev_seq (rec_events r ! i)) = i
         \<and> ev_session_id (rec_events r ! i) = hdr_session_id (rec_header r))
     \<and> sorted (map ev_time_unix_ms (rec_events r))"

lemma envelopeD:
  assumes "validate_event_envelope r e = Inr ()"
  shows "ev_seq e = word_of_nat (length (rec_events r))" "ev_seq e \<le> MAX_JS_SAFE_INTEGER"
    "ev_session_id e = hdr_session_id (rec_header r)"
    "rec_events r \<noteq> [] \<Longrightarrow> ev_time_unix_ms (last (rec_events r)) \<le> ev_time_unix_ms e"
  using assms
  by (auto simp: validate_event_envelope_def validate_event_envelope_at_def Let_def checks_ok_iff
      ensure_iff not_less split: if_splits)

lemma pause_ids: "pause ids b = Inr b' \<Longrightarrow> queued_ids b' = queued_ids b
    \<and> inb_paused_ids b' = inb_paused_ids b \<union> set ids"
  by (auto simp: pause_def split: if_splits)

lemma enqueue_ids: "inbox_apply Enqueued l ms b = Inr b' \<Longrightarrow>
    set (queued_ids b') = set (queued_ids b) \<union> set (map msg_message_id ms)
    \<and> inb_paused_ids b \<subseteq> inb_paused_ids b'"
  by (cases l) (auto simp: inbox_apply_def enqueue_def Let_def queued_ids_def split: if_splits)

lemma failed_admission_held:
  assumes "failed_admission r e" "apply_event r e = Inr r'" "inbox_retained_ok r"
  shows "inbox_retained_ok r'"
proof -
  have st: "rec_ended r" "rec_status r = StatusFailed" "hdr_subagent (rec_header r) = None"
    using assms(1) by (simp_all add: failed_admission_def)
  have held: "set (queued_ids (rec_inbox r)) \<subseteq> inb_paused_ids (rec_inbox r)"
    using assms(3) st no_claims_iff [of "rec_inbox r"]
    by (auto simp: inbox_retained_ok_def retains_paused_inputs_def inbox_is_empty_def queued_ids_def)
  have "set (queued_ids (rec_inbox r')) \<subseteq> inb_paused_ids (rec_inbox r')"
  proof (cases "ev_payload e")
    case (InboxPaused ids)
    then show ?thesis using assms(2) held by (auto simp: apply_event_def res_simps dest!: pause_ids)
  next
    case (InboxSpliced op lane ms)
    then have "op = Enqueued" using assms(1) by (simp add: failed_admission_def)
    then obtain b where "inbox_apply Enqueued lane ms (rec_inbox r) = Inr b"
        "pause (map msg_message_id ms) b = Inr (rec_inbox r')"
      using assms(2) InboxSpliced st by (auto simp: apply_event_def res_simps)
    then show ?thesis using held enqueue_ids [of lane ms "rec_inbox r" b]
        pause_ids [of "map msg_message_id ms" b "rec_inbox r'"] by auto
  qed (use assms(1) in \<open>simp_all add: failed_admission_def\<close>)
  moreover have "hdr_subagent (rec_header r') = None" "rec_status r' = StatusFailed"
    using st assms apply_event_keeps(4) [OF assms(2)]
    by (auto simp: apply_event_def failed_admission_def res_simps split: session_event_payload.splits)
  ultimately show ?thesis
    using no_claims_iff [of "rec_inbox r'"] by (simp add: inbox_retained_ok_def retains_paused_inputs_def)
qed

text \<open>Outside the lifecycle events and an admission on hold, only \<open>session/ended\<close> ends a Session.\<close>

lemma arm_end:
  assumes "validate_event_arm cx r e = Inr ()" "ev_payload e = SessionEnded status reason"
  shows "is_terminal status" "inbox_is_empty (rec_inbox r) \<or> retains_paused_inputs r status"
  using assms by (auto simp: validate_event_arm_def res_simps split: if_splits)

lemma apply_event_status:
  assumes "apply_event r e = Inr r'" "\<not> is_session_end e" "\<not> rec_ended r"
  shows "\<not> rec_ended r'"
  using assms
  by (cases "ev_payload e") (auto simp: apply_event_def res_simps is_session_end_def update_header_def)

lemma retained_step:
  assumes ok: "validate_event_transition cx r e = Inr ()" and eff: "apply_event r e = Inr r'"
    and inv: "inbox_retained_ok r" "rec_ended r \<longrightarrow> is_terminal (rec_status r)"
  shows "inbox_retained_ok r' \<and> (rec_ended r' \<longrightarrow> is_terminal (rec_status r'))"
  using ok
proof (cases rule: transition_cases)
  case lifecycle
  then show ?thesis using eff inv
    by (cases "ev_payload e")
      (auto simp: is_lifecycle_event_def apply_event_def res_simps inbox_retained_ok_def
        update_header_def retains_paused_inputs_def)
next
  case reconciliation
  from reconciliation_exceptionD(5) [OF reconciliation(2)] have "r' = r"
    using eff by (auto simp: apply_event_def)
  then show ?thesis using inv by simp
next
  case live
  note arm = live_eventD(3) [OF live(3)]
  show ?thesis
  proof (cases "rec_ended r")
    case True
    then have adm: "failed_admission r e" using live_eventD(1) [OF live(3)] by blast
    moreover have "rec_status r' = rec_status r"
      using adm eff by (cases "ev_payload e") (auto simp: failed_admission_def apply_event_def res_simps)
    ultimately show ?thesis using failed_admission_held [OF adm eff inv(1)] inv(2) True by simp
  next
    case False
    show ?thesis
    proof (cases "is_session_end e")
      case True
      then obtain status reason where p: "ev_payload e = SessionEnded status reason"
        by (cases "ev_payload e") (simp_all add: is_session_end_def)
      then show ?thesis using arm_end [OF arm p] eff
        by (auto simp: apply_event_def inbox_retained_ok_def retains_paused_inputs_def)
    next
      case False
      then show ?thesis using apply_event_status [OF eff False] \<open>\<not> rec_ended r\<close>
        by (simp add: inbox_retained_ok_def)
    qed
  qed
qed

lemma safe_length: "word_of_nat n \<le> MAX_JS_SAFE_INTEGER \<Longrightarrow> n \<le> 2 ^ 53 \<Longrightarrow>
    unat (word_of_nat n :: u64) = n \<and> Suc n \<le> 2 ^ 53"
proof -
  assume le: "(word_of_nat n :: u64) \<le> MAX_JS_SAFE_INTEGER" and n: "n \<le> 2 ^ 53"
  then have "n < 2 ^ LENGTH(64)" by simp
  then have u: "unat (word_of_nat n :: u64) = n" by (simp add: unat_of_nat take_bit_nat_eq_self)
  have "unat MAX_JS_SAFE_INTEGER = 2 ^ 53 - 1" by (simp add: MAX_JS_SAFE_INTEGER_def)
  then have "n \<le> 2 ^ 53 - 1" using le u by (simp add: word_le_nat_alt)
  with u show ?thesis by simp
qed

lemma record_inv_step:
  assumes "record_inv r" "accept_event cx r e = Inr r'"
  shows "record_inv r'"
proof -
  from accept_eventD(5) [OF assms(2)] obtain r1 where a: "apply_event r e = Inr r1" "r' = push_event e r1"
    by blast
  note env = envelopeD [OF accept_eventD(1) [OF assms(2)]]
  have "inbox_retained_ok r1 \<and> (rec_ended r1 \<longrightarrow> is_terminal (rec_status r1))"
    using retained_step [OF accept_eventD(2) [OF assms(2)] a(1)] assms(1) by (simp add: record_inv_def)
  moreover have "inbox_inv (rec_inbox r')"
    using replay_event_moves [of "rec_inbox r" "rec_ended r \<and> rec_status r = StatusFailed" e
        "rec_inbox r'" "rec_ended r' \<and> rec_status r' = StatusFailed"] moves_inv
      inbox_view_step [OF assms(2)] assms(1)
    by (auto simp: inbox_view_def record_inv_def)
  moreover have len: "unat (ev_seq e) = length (rec_events r) \<and> Suc (length (rec_events r)) \<le> 2 ^ 53"
    using safe_length [of "length (rec_events r)"] env(1,2) assms(1) by (simp add: record_inv_def)
  moreover have "sorted (map ev_time_unix_ms (rec_events r @ [e]))"
  proof (cases "rec_events r = []")
    case False
    then have "\<forall>x\<in>set (rec_events r). ev_time_unix_ms x \<le> ev_time_unix_ms (last (rec_events r))"
      using assms(1) by (auto simp: record_inv_def sorted_iff_nth_mono in_set_conv_nth last_conv_nth)
    then show ?thesis using env(4) False assms(1)
      by (auto simp: record_inv_def sorted_append intro: order_trans)
  qed simp
  ultimately show ?thesis using assms(1) a env(3) apply_event_keeps [OF a(1)]
    by (auto simp: record_inv_def push_event_def inbox_retained_ok_def retains_paused_inputs_def
        nth_append less_Suc_eq)
qed

interpretation session_machine: guarded_machine "accept_event cx" record_inv for cx
  by unfold_locales (rule record_inv_step)

lemma record_inv_fresh: "record_inv (fresh_record h)"
  by (simp add: record_inv_def fresh_record_def inbox_inv_empty inbox_retained_ok_def)

lemma from_eventsD:
  assumes "from_events cx es = Inr r"
  obtains h where "header_of (hd es) = Some h" "es \<noteq> []"
    "run_ops (accept_event cx) (fresh_record h) es = Inr r" "record_inv r" "rec_events r = es"
    "inbox_replay es = Inr (rec_inbox r)" "is_ok (derive_surface (sx_surface cx) es)"
proof -
  from assms obtain first rest h q b where es: "es = first # rest" "header_of first = Some h"
      "run_ops (accept_event cx) (fresh_record h) es = Inr q" "inbox_replay (rec_events q) = Inr b"
      "r = q\<lparr>rec_inbox := b\<rparr>" "is_ok (record_surface cx r)"
    by (auto simp: from_events_def res_simps Let_def split: list.splits)
  have ev: "rec_events q = es" using accept_run_events [OF es(3)] by (simp add: fresh_record_def)
  have "run_ops replay_event (empty_inbox, False) es = Inr (inbox_view q)"
    using inbox_fold.run_sim [OF es(3)] by (simp add: inbox_view_def fresh_record_def)
  then have b: "b = rec_inbox q" using es(4) ev by (simp add: inbox_replay_def inbox_view_def)
  then have r: "r = q" using es(5) by simp
  show thesis
  proof (rule that [of h])
    show "header_of (hd es) = Some h" "es \<noteq> []" using es(1,2) by simp_all
    show "run_ops (accept_event cx) (fresh_record h) es = Inr r" using es(3) r by simp
    show "record_inv r" using session_machine.run_inv [OF record_inv_fresh es(3)] r by simp
    show "rec_events r = es" using ev r by simp
    show "inbox_replay es = Inr (rec_inbox r)" using es(4) ev r b by simp
    show "is_ok (derive_surface (sx_surface cx) es)"
      using es(6) ev r by (auto simp: is_ok_iff record_surface_def lift_error_iff)
  qed
qed

lemma from_events_iff:
  "from_events cx es = Inr r \<longleftrightarrow>
    (\<exists>h. es \<noteq> [] \<and> header_of (hd es) = Some h
      \<and> run_ops (accept_event cx) (fresh_record h) es = Inr r
      \<and> is_ok (derive_surface (sx_surface cx) es))"
proof
  assume "from_events cx es = Inr r"
  then show "\<exists>h. es \<noteq> [] \<and> header_of (hd es) = Some h
      \<and> run_ops (accept_event cx) (fresh_record h) es = Inr r
      \<and> is_ok (derive_surface (sx_surface cx) es)"
    by (rule from_eventsD) blast
next
  assume "\<exists>h. es \<noteq> [] \<and> header_of (hd es) = Some h
      \<and> run_ops (accept_event cx) (fresh_record h) es = Inr r
      \<and> is_ok (derive_surface (sx_surface cx) es)"
  then obtain h s where h: "es \<noteq> []" "header_of (hd es) = Some h"
      "run_ops (accept_event cx) (fresh_record h) es = Inr r"
      "derive_surface (sx_surface cx) es = Inr s" by (auto simp: is_ok_iff)
  have ev: "rec_events r = es" using accept_run_events [OF h(3)] by (simp add: fresh_record_def)
  have "inbox_replay es = Inr (rec_inbox r)"
    using inbox_fold.run_sim [OF h(3)] by (simp add: inbox_view_def fresh_record_def inbox_replay_def)
  moreover have "validate_record_final r = Inr ()"
    using session_machine.run_inv [OF record_inv_fresh h(3)]
    by (auto simp: validate_record_final_def record_inv_def inbox_retained_ok_def ensure_def)
  ultimately show "from_events cx es = Inr r" using h ev
    by (cases es) (simp_all add: from_events_def ok_or_def record_surface_def lift_error_def Let_def)
qed

lemma creation_first:
  assumes "validate_event_transition cx r e = Inr ()" "rec_events r \<noteq> []"
  shows "header_of e = None"
proof (cases "ev_payload e")
  case (SessionCreated a b c d t p x cr sc sub)
  show ?thesis using assms(1)
  proof (cases rule: transition_cases)
    case reconciliation
    then show ?thesis using reconciliation_exceptionD(5) [OF reconciliation(2)] SessionCreated by auto
  next
    case live
    then show ?thesis using live_eventD(3) [OF live(3)] SessionCreated assms(2)
      by (simp add: validate_event_arm_def res_simps)
  qed (simp add: is_lifecycle_event_def SessionCreated)
qed (simp_all add: header_of_def)

text \<open>
  What an ended Session still accepts, in terms of the record and its log: the resumption of a
  root, the recovery of a child whose failure is safely settled, another terminal for the same
  target, messages admitted to a failed root, and in a stopped root the evidence and the result
  that reconcile a dispatched call without an outcome. The result names the call and its tool,
  and every piece of evidence it cites is in the log of the same Turn and Step.
\<close>

definition open_dispatch :: "session_record \<Rightarrow> session_event \<Rightarrow> string \<Rightarrow> session_event \<Rightarrow> bool" where
  "open_dispatch r e c d \<longleftrightarrow> d \<in> set (rec_events r) \<and> same_scope e d
     \<and> dispatches_key d (ev_step_id d, c) \<and> (ev_step_id d, c) \<in> uncertain_executions (rec_events r)"

definition recorded_evidence :: "session_record \<Rightarrow> session_event \<Rightarrow> string \<Rightarrow> bool" where
  "recorded_evidence r e i \<longleftrightarrow> (\<exists>p\<in>set (rec_events r). same_scope p e
     \<and> (\<exists>x. ev_payload p = TaskEvidence i ''recovery-reconciliation'' x))"

definition live_root :: "session_record \<Rightarrow> bool" where
  "live_root r \<longleftrightarrow> \<not> rec_archived r \<and> hdr_subagent (rec_header r) = None"

definition accepted_after_end :: "session_record \<Rightarrow> session_event \<Rightarrow> bool" where
  "accepted_after_end r e = (case ev_payload e of
     SessionResumed \<Rightarrow> live_root r
   | SubagentRecoveryStarted turn _ _ \<Rightarrow> rec_status r = StatusFailed
       \<and> (\<exists>c. record_child_recovery r = Some c \<and> cfr_turn_id c = turn)
   | SessionTerminalReconnected previous target \<Rightarrow> live_root r
       \<and> (\<exists>old. hdr_target (rec_header r) = Some old \<and> tgt_session_id old = previous
           \<and> tgt_session_id target \<noteq> previous
           \<and> target = old\<lparr>tgt_session_id := tgt_session_id target, tgt_target_id := tgt_target_id target\<rparr>)
   | InboxSpliced op _ _ \<Rightarrow> live_root r \<and> rec_status r = StatusFailed \<and> op = Enqueued
   | InboxPaused _ \<Rightarrow> live_root r \<and> rec_status r = StatusFailed
   | TaskEvidence _ kind _ \<Rightarrow> live_root r \<and> rec_status r \<in> {StatusCancelled, StatusFailed}
       \<and> kind = ''recovery-reconciliation'' \<and> (\<exists>c d. open_dispatch r e c d)
   | ToolResult c n status _ _ _ evidence \<Rightarrow> live_root r \<and> rec_status r \<in> {StatusCancelled, StatusFailed}
       \<and> (status = ResultCompleted \<or> status = ResultCancelled)
       \<and> (\<exists>d. open_dispatch r e c d \<and> (\<exists>x\<in>set (rec_events r). same_scope x d
             \<and> (\<exists>call. call_of c x = Some call \<and> call_name call = n)))
       \<and> evidence \<noteq> [] \<and> (\<forall>i\<in>set evidence. recorded_evidence r e i)
   | _ \<Rightarrow> False)"

definition is_reopening :: "session_event \<Rightarrow> bool" where
  "is_reopening e = (case ev_payload e of
     SessionResumed \<Rightarrow> True | SubagentRecoveryStarted _ _ _ \<Rightarrow> True | _ \<Rightarrow> False)"

lemma unresolved_execution_dispatch:
  assumes "unresolved_execution redact es = Some cp"
  shows "\<exists>c d. cp_call_id cp = Some c \<and> d \<in> set es \<and> dispatches_key d (ev_step_id d, c)
    \<and> (ev_step_id d, c) \<in> uncertain_executions es
    \<and> cp_step_id cp = ev_step_id d \<and> cp_turn_id cp = ev_turn_id d
    \<and> (\<forall>n. cp_tool_name cp = Some n \<longrightarrow>
        (\<exists>x\<in>set es. same_scope x d \<and> (\<exists>call. call_of c x = Some call \<and> call_name call = n)))"
proof -
  obtain st c d u where m: "max_by_key (\<lambda>(_, d, _). ev_seq d) (pending_executions es) = Some ((st, c), d, u)"
    using assms by (cases "max_by_key (\<lambda>(_, d, _). ev_seq d) (pending_executions es)")
      (auto simp: unresolved_execution_def)
  then have mem: "((st, c), d, u) \<in> set (pending_executions es)" using max_by_key_Some [OF m] by simp
  then have d: "d \<in> set es" "dispatches_key d (st, c)" using pending_entries by blast+
  then obtain s i where p: "ev_payload d = ToolExecution c s i" and st: "ev_step_id d = st"
    by (auto simp: dispatches_key_def)
  let ?f = "\<lambda>e. if same_scope e d then call_of c e else None"
  have cp: "cp_call_id cp = Some c" "cp_step_id cp = st" "cp_turn_id cp = ev_turn_id d"
    "cp_tool_name cp = map_option call_name (find_map ?f (rev es))"
    using assms m p st by (auto simp: unresolved_execution_def Let_def)
  have "\<exists>x\<in>set xs. f x = Some v" if "find_map f xs = Some v" for f :: "session_event \<Rightarrow> recorded_tool_call option" and xs v
    using that by (induction xs) (auto split: option.splits)
  from this [of ?f "rev es"]
  have "\<exists>x\<in>set es. same_scope x d \<and> (\<exists>call. call_of c x = Some call \<and> call_name call = n)"
    if "cp_tool_name cp = Some n" for n
    using that cp(4) by (fastforce split: if_splits)
  moreover have "(st, c) \<in> uncertain_executions es"
    using mem unfolding pending_is_uncertain [symmetric] by force
  ultimately show ?thesis using cp d st by (intro exI [of _ c] exI [of _ d] conjI) simp_all
qed

lemma lifecycle_after_end:
  assumes "validate_event_transition cx r e = Inr ()" "is_lifecycle_event e"
  shows "accepted_after_end r e"
proof (cases "ev_payload e")
  case (SubagentRecoveryStarted turn i m)
  then have "validate_child_recovery cx r turn i m = Inr ()"
    using assms(1) by (simp add: validate_event_transition_def)
  then show ?thesis
    by (auto simp: SubagentRecoveryStarted accepted_after_end_def validate_child_recovery_def res_simps
        split: option.splits)
next
  case (SessionTerminalReconnected previous target)
  then have "validate_terminal_reconnect cx r previous target = Inr ()"
    using assms(1) by (simp add: validate_event_transition_def)
  then show ?thesis
    by (auto simp: SessionTerminalReconnected accepted_after_end_def validate_terminal_reconnect_def
        live_root_def Let_def res_simps split: if_splits)
qed (use assms in \<open>simp_all add: is_lifecycle_event_def accepted_after_end_def validate_event_transition_def
      refuse_iff live_root_def\<close>)

lemma reconciliation_after_end:
  assumes "reconciliation_exception cx r e = Some (Inr ())"
  shows "accepted_after_end r e"
proof -
  note f = reconciliation_exceptionD [OF assms]
  from assms f(1-4) obtain cp where
    cp: "unresolved_execution (sx_redact cx) (rec_events r) = Some cp"
      "ev_turn_id e = cp_turn_id cp \<and> ev_step_id e = cp_step_id cp"
    unfolding reconciliation_exception_def by (simp split: option.splits if_splits)
  from unresolved_execution_dispatch [OF cp(1)] obtain c d where
    d: "cp_call_id cp = Some c" "open_dispatch r e c d" "\<And>n. cp_tool_name cp = Some n \<Longrightarrow>
        \<exists>x\<in>set (rec_events r). same_scope x d \<and> (\<exists>call. call_of c x = Some call \<and> call_name call = n)"
    using cp(2) by (auto simp: open_dispatch_def same_scope_def)
  have evidence: "recorded_evidence r e i" if "reconciles r e i" for i
  proof -
    from that obtain p where p: "p \<in> set (rec_events r)" "same_scope p e" "case ev_payload p of
        TaskEvidence x kind _ \<Rightarrow> x = i \<and> kind = ''recovery-reconciliation'' | _ \<Rightarrow> False"
      unfolding reconciles_def same_scope_def list_ex_iff by blast
    then have "\<exists>x. ev_payload p = TaskEvidence i ''recovery-reconciliation'' x"
      by (cases "ev_payload p") simp_all
    with p show ?thesis unfolding recorded_evidence_def by blast
  qed
  have root: "live_root r" "rec_status r \<in> {StatusCancelled, StatusFailed}"
    using f by (auto simp: live_root_def)
  from f(5) consider (noted) i s where "ev_payload e = TaskEvidence i ''recovery-reconciliation'' s"
    | (settled) c' n st u dd m v where "ev_payload e = ToolResult c' n st u dd m v"
        "st = ResultCompleted \<or> st = ResultCancelled" by blast
  then show ?thesis
  proof cases
    case noted
    then show ?thesis using root d(2) by (auto simp: accepted_after_end_def)
  next
    case (settled c' n st u dd m v)
    note p = settled
    have "cp_call_id cp = Some c' \<and> cp_tool_name cp = Some n \<and> v \<noteq> [] \<and> list_all (reconciles r e) v"
      using assms cp f(1-4) p unfolding reconciliation_exception_def by (simp split: if_splits)
    then show ?thesis using p root d evidence by (auto simp: accepted_after_end_def list_all_iff)
  qed
qed

lemma transition_after_end:
  assumes "validate_event_transition cx r e = Inr ()" "rec_ended r"
  shows "accepted_after_end r e"
  using assms(1)
proof (cases rule: transition_cases)
  case lifecycle
  with assms(1) show ?thesis by (rule lifecycle_after_end)
next
  case reconciliation
  then show ?thesis by (intro reconciliation_after_end)
next
  case live
  from live_eventD(1) [OF live(3) assms(2)] have "failed_admission r e" .
  then show ?thesis
    by (cases "ev_payload e") (simp_all add: failed_admission_def accepted_after_end_def live_root_def)
qed

lemma apply_after_end:
  assumes "apply_event r e = Inr r'" "accepted_after_end r e" "rec_ended r"
  shows "if is_reopening e then \<not> rec_ended r' \<and> rec_status r' = StatusIdle
    else rec_ended r' \<and> rec_status r' = rec_status r"
  using assms
  by (cases "ev_payload e")
    (auto simp: accepted_after_end_def is_reopening_def apply_event_def res_simps update_header_def)

lemma retained_unclaimable:
  "inbox_retained_ok r \<Longrightarrow> rec_ended r \<Longrightarrow>
    turn_claim (rec_inbox r) = [] \<and> step_claim (rec_inbox r) = []"
  by (auto simp: inbox_retained_ok_def inbox_is_empty_def retains_paused_inputs_def turn_claim_def
      step_claim_def)

subsection \<open>A small Session\<close>

definition plain_payload_codec :: payload_codec where
  "plain_payload_codec = \<lparr>pc_questions = sample_codec,
     pc_skills = \<lparr>provenance_json = (\<lambda>_. []), loaded_json_len = (\<lambda>_. 2), sha256_hex = (\<lambda>_. [])\<rparr>,
     pc_replay = sample_digests, pc_redact = (\<lambda>s. s), pc_snapshot_revision = (\<lambda>_ _. []),
     pc_scope_json = (\<lambda>_. JNull), pc_catalog_json = (\<lambda>_. JNull), pc_prepared_json = (\<lambda>_. JNull),
     pc_loaded_json = (\<lambda>_. JNull), pc_prepared_len = (\<lambda>_. 2), pc_parse_loaded = (\<lambda>_. None)\<rparr>"

definition session_event_at :: "nat \<Rightarrow> session_event_payload \<Rightarrow> session_event" where
  "session_event_at i p = \<lparr>ev_version = 5, ev_session_id = ''s1'', ev_seq = word_of_nat i,
     ev_time_unix_ms = 1000, ev_turn_id = None, ev_step_id = None, ev_payload = p\<rparr>"

definition created_payload :: session_event_payload where
  "created_payload = SessionCreated ''t1'' ''inspect'' None None None None SurfaceDirect [] None None"

definition small_session :: "session_event list" where
  "small_session = [session_event_at 0 created_payload,
     session_event_at 1 (InboxSpliced Enqueued NextTurn [sample_message ''m1'']),
     session_event_at 2 (InboxPaused [''m1'']),
     session_event_at 3 (SessionEnded StatusFailed None)]"

text \<open>
  A codec for these events and two more, an admission and a stream chunk: the value of an event
  is its type and its place in the list.
\<close>

definition sample_events :: "session_event list" where
  "sample_events = small_session @
     [session_event_at 4 (InboxSpliced Enqueued NextTurn [sample_message ''m2'']),
      session_event_at 4 (AssistantChunk ''r1'' (Some ''hi'') None None None)]"

definition sample_type :: "session_event \<Rightarrow> string" where
  "sample_type e = (case ev_payload e of AssistantChunk _ _ _ _ _ \<Rightarrow> ''assistant/chunk'' | _ \<Rightarrow> ''other'')"

definition sample_encode :: "session_event \<Rightarrow> json option" where
  "sample_encode e = map_option (\<lambda>i. JObject [(''type'', JString (sample_type e)), (''place'', JNumber (PosInt (word_of_nat i)))])
     (find (\<lambda>i. sample_events ! i = e) [0..<length sample_events])"

definition sample_decode :: "json \<Rightarrow> session_event option" where
  "sample_decode v = Option.bind (Option.bind (json_get ''place'' v) json_as_u64) (\<lambda>i.
     if unat i < length sample_events \<and> json_get ''type'' v = Some (JString (sample_type (sample_events ! unat i)))
     then Some (sample_events ! unat i) else None)"

definition plain_session_codec :: session_codec where
  "plain_session_codec = \<lparr>sx_payload = plain_payload_codec, sx_surface = plain_codec,
     sx_path_is_absolute = starts_with ''/'', sx_encode = sample_encode, sx_decode = sample_decode\<rparr>"

lemma plain_session_fields [simp]:
  "sx_payload plain_session_codec = plain_payload_codec" "sx_surface plain_session_codec = plain_codec"
  "sx_path_is_absolute plain_session_codec = starts_with ''/''"
  "sx_encode plain_session_codec = sample_encode" "sx_decode plain_session_codec = sample_decode"
  by (simp_all add: plain_session_codec_def)

lemma sample_sanitized:
  assumes "e \<in> set sample_events"
  shows "sanitize_event plain_session_codec e = Some e"
proof -
  have len: "length sample_events = 6" by (simp add: sample_events_def small_session_def)
  obtain i where i: "find (\<lambda>i. sample_events ! i = e) [0..<length sample_events] = Some i"
    using assms by (cases "find (\<lambda>i. sample_events ! i = e) [0..<length sample_events]")
      (auto simp: find_None_iff in_set_conv_nth)
  from find_SomeD [OF i] have at: "i < 6" "sample_events ! i = e" by (simp_all add: len)
  then have "unat (word_of_nat i :: u64) = i" by (simp add: unat_of_nat take_bit_nat_eq_self)
  then show ?thesis using i at
    by (simp add: sanitize_event_def sample_encode_def sample_decode_def plain_payload_codec_def
        is_sensitive_key_def normalized_key_def to_ascii_lower_def alphanumeric_defs json_get_def json_as_u64_def len)
qed

definition small_header :: session_header where
  "small_header = \<lparr>hdr_model_selection = None, hdr_session_id = ''s1'', hdr_task_id = ''t1'',
     hdr_goal = ''inspect'', hdr_title = None, hdr_parent_session_id = None,
     hdr_continued_from_session_id = None, hdr_target = None, hdr_permission_mode = None,
     hdr_execution_surface = SurfaceDirect, hdr_success_criteria = [], hdr_capability_scope = None,
     hdr_subagent = None, hdr_created_at_unix_ms = 1000\<rparr>"

definition small_record :: session_record where
  "small_record = \<lparr>rec_header = small_header, rec_status = StatusFailed, rec_ended = True,
     rec_archived = False, rec_events = small_session,
     rec_inbox = \<lparr>inb_next_turn = [sample_message ''m1''], inb_next_step = [],
       inb_seen_message_ids = {''m1''}, inb_paused_ids = {''m1''}\<rparr>\<rparr>"

lemmas small_session_defs = small_session_def session_event_at_def created_payload_def
  plain_payload_codec_def sample_message_def small_header_def

lemmas small_sanitized = sample_sanitized sample_events_def

lemma small_ids [simp]:
  "validate_identifier ''s1''" "validate_identifier ''t1''" "validate_identifier ''m1''"
  "validate_identifier ''m2''"
  by (simp_all add: validate_identifier_def MAX_IDENTIFIER_BYTES_def alphanumeric_defs)

lemmas accept_defs = accept_event_def validate_event_envelope_def validate_event_envelope_at_def
  validate_event_transition_def reconciliation_exception_def validate_live_event_def
  failed_admission_def validate_event_arm_def validate_event_payload_def apply_event_def
  push_event_def require_scope_def refuse_unless_def refuse_def ensure_def checks.simps
  lift_error_def payload_limits AGENT_SESSION_EVENT_VERSION_def check_id_def validate_text_def
  check_each_def validate_collection_def validate_collection_allow_empty_def is_terminal_def
  context_messages_def is_session_end_def

lemma small_created:
  "accept_event plain_session_codec (fresh_record small_header) (small_session ! 0) =
    Inr (push_event (small_session ! 0) (fresh_record small_header))"
  by (simp add: small_sanitized small_session_defs accept_defs fresh_record_def validate_created_def
      alphanumeric_not_blank alphanumeric_defs)

lemma small_message_valid:
  "validate_inbox_message redact (sample_message ''m1'') = Inr ()"
  by (simp add: validate_inbox_message_def sample_message_def user_source_def checks.simps
      check_each_def check_id_def validate_text_def payload_limits refuse_unless_def ensure_def
      alphanumeric_not_blank alphanumeric_defs max_images_def)

lemma held_message_valid:
  "validate_inbox_message redact (sample_message ''m2'') = Inr ()"
  by (simp add: validate_inbox_message_def sample_message_def user_source_def checks.simps
      check_each_def check_id_def validate_text_def payload_limits refuse_unless_def ensure_def
      alphanumeric_not_blank alphanumeric_defs max_images_def)

lemma small_admission [simp]: "\<not> admission_paused (sample_message i)"
  by (simp add: admission_paused_def sample_message_def user_source_def)

lemma small_context [simp]: "\<not> foreign_context r (sample_message i)"
  by (simp add: foreign_context_def sample_message_def)

lemma small_run:
  "run_ops (accept_event plain_session_codec) (fresh_record small_header) small_session = Inr small_record"
proof -
  let ?r1 = "push_event (small_session ! 0) (fresh_record small_header)"
  let ?b2 = "\<lparr>inb_next_turn = [sample_message ''m1''], inb_next_step = [],
       inb_seen_message_ids = {''m1''}, inb_paused_ids = {}\<rparr>"
  let ?r2 = "push_event (small_session ! 1) (?r1\<lparr>rec_inbox := ?b2\<rparr>)"
  let ?r3 = "push_event (small_session ! 2) (?r2\<lparr>rec_inbox := ?b2\<lparr>inb_paused_ids := {''m1''}\<rparr>\<rparr>)"
  have s1: "accept_event plain_session_codec ?r1 (small_session ! 1) = Inr ?r2"
    by (simp add: small_sanitized small_session_def session_event_at_def created_payload_def
        small_header_def accept_defs fresh_record_def small_message_valid with_inbox_def inbox_apply_def
        enqueue_def empty_inbox_def)
  have s2: "accept_event plain_session_codec ?r2 (small_session ! 2) = Inr ?r3"
    by (simp add: small_sanitized small_session_def session_event_at_def created_payload_def
        small_header_def accept_defs fresh_record_def with_inbox_def pause_def locate_def
        inbox_message_at_def)
  have s3: "accept_event plain_session_codec ?r3 (small_session ! 3) = Inr small_record"
    by (simp add: small_sanitized small_record_def small_session_def session_event_at_def created_payload_def
        small_header_def accept_defs fresh_record_def retains_paused_inputs_def
        turn_claim_def step_claim_def)
  have "run_ops (accept_event plain_session_codec) (fresh_record small_header)
      [small_session ! 0, small_session ! 1, small_session ! 2, small_session ! 3] = Inr small_record"
    unfolding run_ops.simps small_created s1 s2 s3 try_bind_simps by (rule refl)
  moreover have "[small_session ! 0, small_session ! 1, small_session ! 2, small_session ! 3] = small_session"
    by (simp add: small_session_def)
  ultimately show ?thesis by (simp only:)
qed

lemma small_surface: "is_ok (derive_surface cx small_session)"
  by (simp add: derive_surface_def small_session_def session_event_at_def created_payload_def
      scan_compactions_def compaction_event_def initial_compaction_def Let_def split: option.split)

lemma small_from_events: "from_events plain_session_codec small_session = Inr small_record"
proof -
  have "header_of (hd small_session) = Some small_header"
    by (simp add: small_session_def header_of_def session_event_at_def created_payload_def small_header_def)
  moreover have "small_session \<noteq> []" by (simp add: small_session_def)
  ultimately show ?thesis using small_run small_surface from_events_iff by blast
qed

subsection \<open>Properties of a Session\<close>

text \<open>
  C35. Rebuilding a Session on restart is the incremental fold. A log loads, with a given record,
  exactly when it begins with the creation of the Session, its events are accepted one after the
  other from the fresh record and lead to this record, and a Model Surface can be derived from
  it. In particular the inbox replayed from the log is the one the appends left, and the final
  check of the record never refuses.
\<close>

theorem restart_is_the_fold:
  "from_events cx es = Inr r \<longleftrightarrow>
    (\<exists>h. es \<noteq> [] \<and> header_of (hd es) = Some h
      \<and> run_ops (accept_event cx) (fresh_record h) es = Inr r
      \<and> is_ok (derive_surface (sx_surface cx) es))"
  by (rule from_events_iff)

text \<open>
  C36. Every log a restart accepts obeys the tool discipline and the inbox accounting: in
  each Step a call is recorded once and dispatched at most once, and every message identity
  is admitted once.
\<close>

theorem accepted_log_is_disciplined:
  assumes "from_events cx es = Inr r"
  shows "run_ops (append_tool_event (sx_questions cx)) [] es = Inr es
    \<and> inbox_replay es = Inr (rec_inbox r)
    \<and> (\<forall>st c. length (calls es st c) \<le> 1 \<and> length (dispatches es st c) \<le> 1)
    \<and> distinct (log_admits es)"
proof -
  from assms obtain h where h: "run_ops (accept_event cx) (fresh_record h) es = Inr r"
      "inbox_replay es = Inr (rec_inbox r)" "rec_events r = es" by (rule from_eventsD)
  have run: "run_ops (append_tool_event (sx_questions cx)) [] es = Inr es"
    using tool_fold.run_sim [OF h(1)] h(3) by (simp add: fresh_record_def)
  moreover from tool_log_inv [OF run]
  have "\<forall>st c. length (calls es st c) \<le> 1 \<and> length (dispatches es st c) \<le> 1"
    by (simp add: lifecycle_inv_def call_life_def)
  moreover have "distinct (log_admits es)"
    using h(2) run_replay_accounts(2) [of empty_inbox False es] inbox_inv_empty
    by (auto simp: inbox_replay_def res_simps)
  ultimately show ?thesis using h(2) by blast
qed

lemma accepted_log_is_disciplined_witness:
  "run_ops (append_tool_event (sx_questions plain_session_codec)) [] small_session = Inr small_session
    \<and> inbox_replay small_session = Inr (rec_inbox small_record)
    \<and> (\<forall>st c. length (calls small_session st c) \<le> 1 \<and> length (dispatches small_session st c) \<le> 1)
    \<and> distinct (log_admits small_session)"
  by (rule accepted_log_is_disciplined [OF small_from_events])

text \<open>
  C37. The log of a Session is one sequence: the events of an accepted log are numbered from
  zero without gaps, belong to the same Session, never go back in time, and only the first
  one creates it.
\<close>

theorem log_is_one_sequence:
  assumes "from_events cx es = Inr r"
  shows "map (unat \<circ> ev_seq) es = [0..<length es]
    \<and> (\<forall>e\<in>set es. ev_session_id e = hdr_session_id (rec_header r))
    \<and> sorted (map ev_time_unix_ms es)
    \<and> (\<forall>i < length es. header_of (es ! i) = None \<longleftrightarrow> 0 < i)"
proof -
  from assms obtain h where h: "header_of (hd es) = Some h" "es \<noteq> []"
      "run_ops (accept_event cx) (fresh_record h) es = Inr r" "record_inv r" "rec_events r = es"
    by (rule from_eventsD)
  have "header_of (es ! i) = None" if i: "0 < i" "i < length es" for i
  proof -
    have "es = take i es @ es ! i # drop (Suc i) es" using i by (simp add: id_take_nth_drop)
    then have "run_ops (accept_event cx) (fresh_record h) (take i es @ es ! i # drop (Suc i) es) = Inr r"
      using h(3) by metis
    then obtain q q' where q: "run_ops (accept_event cx) (fresh_record h) (take i es) = Inr q"
        "accept_event cx q (es ! i) = Inr q'" by (auto simp: run_ops_append try_bind_Inr_iff)
    then have "rec_events q \<noteq> []" using accept_run_events [OF q(1)] i by auto
    with creation_first [OF accept_eventD(2) [OF q(2)]] show ?thesis by blast
  qed
  then have one: "\<forall>i < length es. header_of (es ! i) = None \<longleftrightarrow> 0 < i"
    using h(1,2) by (metis hd_conv_nth neq0_conv option.distinct(1))
  have seqs: "map (unat \<circ> ev_seq) es = [0..<length es]"
  proof (rule nth_equalityI)
    show "map (unat \<circ> ev_seq) es ! i = [0..<length es] ! i"
      if "i < length (map (unat \<circ> ev_seq) es)" for i
      using h(4) that unfolding record_inv_def h(5) by simp
  qed simp
  have same: "\<forall>e\<in>set es. ev_session_id e = hdr_session_id (rec_header r)"
    using h(4) unfolding record_inv_def h(5) by (auto simp: in_set_conv_nth)
  have "sorted (map ev_time_unix_ms es)" using h(4) unfolding record_inv_def h(5) by blast
  with one seqs same show ?thesis by blast
qed

lemma log_is_one_sequence_witness:
  "map (unat \<circ> ev_seq) small_session = [0..<length small_session]
    \<and> list_all (\<lambda>e. ev_session_id e = hdr_session_id (rec_header small_record)) small_session
    \<and> sorted (map ev_time_unix_ms small_session)
    \<and> list_all (\<lambda>i. (header_of (small_session ! i) = None) = (0 < i)) [0..<length small_session]"
  using log_is_one_sequence [OF small_from_events] by (simp add: list_all_iff)

text \<open>
  C38. Nothing runs in an ended Session. It accepts only: its resumption, for a root that is not
  archived; the recovery of a child whose failure is safely settled; another terminal of the same
  target; messages for a failed root; and, in a stopped root, the evidence about a dispatched call
  whose outcome is unknown and the result of that call, citing evidence recorded in its Step.
  The first two make it idle; after any other it is still ended with the status it had, and
  nothing in its inbox can be claimed, before or after, so messages it admits are on hold.
\<close>

theorem ended_session_is_inert:
  assumes "record_inv r" and "rec_ended r" and "accept_event cx r e = Inr r'"
  shows "accepted_after_end r e
    \<and> turn_claim (rec_inbox r) = [] \<and> step_claim (rec_inbox r) = []
    \<and> (if is_reopening e then \<not> rec_ended r' \<and> rec_status r' = StatusIdle
       else rec_ended r' \<and> rec_status r' = rec_status r
         \<and> turn_claim (rec_inbox r') = [] \<and> step_claim (rec_inbox r') = [])"
proof -
  have after: "accepted_after_end r e"
    by (rule transition_after_end [OF accept_eventD(2) [OF assms(3)] assms(2)])
  from accept_eventD(5) [OF assms(3)] obtain q where
    q: "apply_event r e = Inr q" "r' = push_event e q" by blast
  have state: "if is_reopening e then \<not> rec_ended r' \<and> rec_status r' = StatusIdle
      else rec_ended r' \<and> rec_status r' = rec_status r"
    using apply_after_end [OF q(1) after assms(2)] q(2) by (simp add: push_event_def)
  have "record_inv r'" using record_inv_step [OF assms(1,3)] .
  then have "rec_ended r' \<Longrightarrow> turn_claim (rec_inbox r') = [] \<and> step_claim (rec_inbox r') = []"
    using retained_unclaimable [of r'] by (simp add: record_inv_def)
  with after state show ?thesis
    using retained_unclaimable [of r] assms(1,2) by (auto simp: record_inv_def)
qed

lemma small_held:
  "accept_event plain_session_codec small_record
      (session_event_at 4 (InboxSpliced Enqueued NextTurn [sample_message ''m2''])) =
    Inr (push_event (session_event_at 4 (InboxSpliced Enqueued NextTurn [sample_message ''m2'']))
      (small_record\<lparr>rec_inbox := \<lparr>inb_next_turn = [sample_message ''m1'', sample_message ''m2''],
        inb_next_step = [], inb_seen_message_ids = {''m2'', ''m1''}, inb_paused_ids = {''m2'', ''m1''}\<rparr>\<rparr>))"
proof -
  have shape: "rec_events small_record \<noteq> []" "length (rec_events small_record) = 4"
      "ev_time_unix_ms (last (rec_events small_record)) = 1000"
      "hdr_session_id (rec_header small_record) = ''s1''" "hdr_subagent (rec_header small_record) = None"
      "hdr_capability_scope (rec_header small_record) = None" "rec_status small_record = StatusFailed"
      "rec_ended small_record" "\<not> rec_archived small_record"
      "rec_inbox small_record = \<lparr>inb_next_turn = [sample_message ''m1''], inb_next_step = [],
       inb_seen_message_ids = {''m1''}, inb_paused_ids = {''m1''}\<rparr>"
    by (simp_all add: small_record_def small_session_def session_event_at_def small_header_def)
  have "unresolved_execution redact (rec_events small_record) = None" for redact
    by (simp add: small_record_def small_session_def session_event_at_def created_payload_def
        unresolved_execution_def pending_executions_def pending_step_def)
  then show ?thesis
    by (simp add: small_sanitized small_session_def created_payload_def accept_defs session_event_at_def plain_payload_codec_def shape
        held_message_valid with_inbox_def inbox_apply_def enqueue_def pause_def locate_def
        inbox_message_at_def)
qed

lemma ended_session_is_inert_witness:
  "\<exists>r'. accept_event plain_session_codec small_record
      (session_event_at 4 (InboxSpliced Enqueued NextTurn [sample_message ''m2''])) = Inr r'
    \<and> rec_ended r' \<and> rec_status r' = StatusFailed
    \<and> turn_claim (rec_inbox r') = [] \<and> step_claim (rec_inbox r') = []"
proof -
  have inv: "record_inv small_record" "rec_ended small_record" "rec_status small_record = StatusFailed"
    using session_machine.run_inv [OF record_inv_fresh small_run] by (simp_all add: small_record_def)
  have "\<not> is_reopening (session_event_at 4 (InboxSpliced Enqueued NextTurn [sample_message ''m2'']))"
    by (simp add: is_reopening_def session_event_at_def)
  with ended_session_is_inert [OF inv(1,2) small_held] inv(3) small_held show ?thesis
    by auto
qed

end
