(* ===== verification/Session_Append.thy ===== *)
theory Session_Append
  imports Session_Record
begin

text \<open>
  Appending to a Session (agent\_runtime/session.rs, session/stream\_chunks.rs): a batch of
  payloads is stamped, checked, redacted, split where a redacted stream delta has grown past
  its bound, checked again and applied to a candidate record; the disk write that commits it
  is left out. A batch of stream chunks skips the candidate. A dispatch is admitted only
  when no Session of its lineage has an execution of unknown outcome. Parameters beside
  those of the record: the length of an encoded event and the readings of the clock.
\<close>

subsection \<open>Splitting a stream delta (stream\_chunks.rs)\<close>

fun boundary_before :: "string \<Rightarrow> nat \<Rightarrow> nat" where
  "boundary_before s 0 = 0"
| "boundary_before s (Suc i) = (if is_char_boundary s (Suc i) then Suc i else boundary_before s i)"

lemma boundary_before_le: "boundary_before s i \<le> i"
  by (induction i) auto

lemma boundary_before_is: "is_char_boundary s (boundary_before s i)"
  by (induction i) (auto simp: is_char_boundary_def)

lemma boundary_before_ge: "is_char_boundary s j \<Longrightarrow> j \<le> i \<Longrightarrow> j \<le> boundary_before s i"
  by (induction i) (auto simp: le_Suc_eq)

definition cut_at :: "string \<Rightarrow> nat" where
  "cut_at v = boundary_before v
     (if MAX_AGENT_STREAM_DELTA_BYTES < length v then MAX_AGENT_STREAM_DELTA_BYTES else length v div 2)"

text \<open>\<open>split\_delta\<close>; \<open>None\<close> is the failed assertion that a cut lies inside the text.\<close>

function split_chunks :: "(string \<Rightarrow> string) \<Rightarrow> string \<Rightarrow> string list option" where
  "split_chunks redact v =
     (if length v \<le> MAX_AGENT_STREAM_DELTA_BYTES \<and> redact v = v then Some [v]
      else if 0 < cut_at v \<and> cut_at v < length v then
        Option.bind (split_chunks redact (take (cut_at v) v)) (\<lambda>xs.
        Option.bind (split_chunks redact (drop (cut_at v) v)) (\<lambda>ys. Some (xs @ ys)))
      else None)"
  by pat_completeness auto
termination by (relation "measure (\<lambda>(_, v). length v)") auto

declare split_chunks.simps [simp del]

definition split_delta :: "(string \<Rightarrow> string) \<Rightarrow> string option \<Rightarrow> string list option" where
  "split_delta redact v = (case v of None \<Rightarrow> Some [] | Some s \<Rightarrow> split_chunks redact s)"

definition nth_opt :: "'a list \<Rightarrow> nat \<Rightarrow> 'a option" where
  "nth_opt xs i = (if i < length xs then Some (xs ! i) else None)"

definition delta_fits :: "string option \<Rightarrow> bool" where
  "delta_fits v \<longleftrightarrow> (case v of None \<Rightarrow> True | Some s \<Rightarrow> length s \<le> MAX_AGENT_STREAM_DELTA_BYTES)"

definition chunk_tool_delta ::
  "tool_call_delta option \<Rightarrow> string list \<Rightarrow> nat \<Rightarrow> tool_call_delta option" where
  "chunk_tool_delta delta arguments i = (case delta of
     None \<Rightarrow> None
   | Some d \<Rightarrow>
       if 0 < i \<and> length arguments \<le> i then None
       else Some ((if 0 < i then d\<lparr>tdel_call_id := None, tdel_name_delta := None\<rparr> else d)
              \<lparr>tdel_arguments_delta := nth_opt arguments i\<rparr>))"

definition split_sanitized_event ::
  "(string \<Rightarrow> string) \<Rightarrow> session_event \<Rightarrow> session_event list option" where
  "split_sanitized_event redact e = (case ev_payload e of
     AssistantChunk request text_delta reasoning_delta tool_delta usage \<Rightarrow>
       let arguments = Option.bind tool_delta tdel_arguments_delta in
       if delta_fits text_delta \<and> delta_fits reasoning_delta \<and> delta_fits arguments then Some [e]
       else
         Option.bind (split_delta redact text_delta) (\<lambda>ts.
         Option.bind (split_delta redact reasoning_delta) (\<lambda>rs.
         Option.bind (split_delta redact arguments) (\<lambda>as.
         Some (map (\<lambda>i. e\<lparr>ev_version := AGENT_SESSION_EVENT_VERSION,
             ev_payload := AssistantChunk request (nth_opt ts i) (nth_opt rs i)
               (chunk_tool_delta tool_delta as i) (if i = 0 then usage else None)\<rparr>)
           [0..<max (max (length ts) (length rs)) (length as)]))))
   | _ \<Rightarrow> Some [e])"

text \<open>Text whose characters take at most four bytes, the first of which is not a continuation.\<close>

definition utf8_text :: "string \<Rightarrow> bool" where
  "utf8_text v \<longleftrightarrow> (v \<noteq> [] \<longrightarrow> \<not> is_continuation (hd v))
     \<and> (\<forall>i. i + 3 < length v \<longrightarrow> (\<exists>k<4. \<not> is_continuation (v ! (i + k))))"

lemma utf8_take: "utf8_text v \<Longrightarrow> utf8_text (take n v)"
proof -
  assume v: "utf8_text v"
  have "\<exists>k<4. \<not> is_continuation (take n v ! (i + k))" if i: "i + 3 < length (take n v)" for i
  proof -
    from i v obtain k where "k < 4" "\<not> is_continuation (v ! (i + k))"
      unfolding utf8_text_def by auto
    then show ?thesis using i by (auto intro!: exI [of _ k])
  qed
  moreover have "take n v \<noteq> [] \<Longrightarrow> hd (take n v) = hd v" by (cases v; cases n) simp_all
  ultimately show ?thesis using v unfolding utf8_text_def by (cases "take n v = []") auto
qed

lemma utf8_drop:
  assumes "utf8_text v" "is_char_boundary v n" "n < length v"
  shows "utf8_text (drop n v)"
proof -
  have "\<not> is_continuation (hd (drop n v))"
    using assms by (cases "n = 0") (auto simp: utf8_text_def is_char_boundary_def hd_drop_conv_nth)
  moreover have "\<exists>k<4. \<not> is_continuation (drop n v ! (i + k))" if "i + 3 < length (drop n v)" for i
  proof -
    have "n + i + 3 < length v" using that by simp
    then obtain k where "k < 4" "\<not> is_continuation (v ! (n + i + k))"
      using assms(1) unfolding utf8_text_def by blast
    then show ?thesis using assms(3) by (auto simp: add.assoc)
  qed
  ultimately show ?thesis by (simp add: utf8_text_def)
qed

lemma cut_inside:
  assumes "utf8_text v" "8 \<le> length v"
  shows "0 < cut_at v" "cut_at v < length v" "is_char_boundary v (cut_at v)"
proof -
  have "1 + 3 < length v" using assms(2) by simp
  then obtain k where k: "k < 4" "\<not> is_continuation (v ! (1 + k))"
    using assms(1) unfolding utf8_text_def by blast
  then have b: "is_char_boundary v (1 + k)" using assms(2) by (simp add: is_char_boundary_def)
  have "1 + k \<le> boundary_before v n" if "4 \<le> n" for n
    using boundary_before_ge [OF b] k(1) that by simp
  then have "1 + k \<le> cut_at v" using assms(2) by (simp add: cut_at_def payload_limits)
  then show "0 < cut_at v" by simp
  show "cut_at v < length v"
    using assms(2) boundary_before_le [of v "MAX_AGENT_STREAM_DELTA_BYTES"]
      boundary_before_le [of v "length v div 2"]
    by (auto simp: cut_at_def payload_limits split: if_splits)
  show "is_char_boundary v (cut_at v)" by (simp add: cut_at_def boundary_before_is)
qed

lemma split_chunks_total:
  assumes "\<forall>v. length v < 8 \<longrightarrow> redact v = v" "utf8_text v"
  shows "\<exists>xs. split_chunks redact v = Some xs \<and> concat xs = v \<and> xs \<noteq> []
    \<and> (\<forall>x\<in>set xs. length x \<le> MAX_AGENT_STREAM_DELTA_BYTES \<and> redact x = x \<and> (v \<noteq> [] \<longrightarrow> x \<noteq> []))"
  using assms
proof (induction redact v rule: split_chunks.induct)
  case (1 redact v)
  show ?case
  proof (cases "length v \<le> MAX_AGENT_STREAM_DELTA_BYTES \<and> redact v = v")
    case True
    then show ?thesis by (subst split_chunks.simps) auto
  next
    case False
    have "\<not> length v < 8"
    proof
      assume "length v < 8"
      then have "redact v = v" "length v \<le> MAX_AGENT_STREAM_DELTA_BYTES"
        using "1.prems"(1) by (simp_all add: payload_limits)
      with False show False by blast
    qed
    then have "8 \<le> length v" by simp
    note cut = cut_inside [OF "1.prems"(2) this]
    obtain xs where xs: "split_chunks redact (take (cut_at v) v) = Some xs" "concat xs = take (cut_at v) v"
        "xs \<noteq> []" "\<forall>x\<in>set xs. length x \<le> MAX_AGENT_STREAM_DELTA_BYTES \<and> redact x = x \<and> x \<noteq> []"
      using "1.IH"(1) [OF False] cut "1.prems" utf8_take by fastforce
    obtain ys where ys: "split_chunks redact (drop (cut_at v) v) = Some ys" "concat ys = drop (cut_at v) v"
        "ys \<noteq> []" "\<forall>x\<in>set ys. length x \<le> MAX_AGENT_STREAM_DELTA_BYTES \<and> redact x = x \<and> x \<noteq> []"
      using "1.IH"(2) [OF False _ xs(1)] cut "1.prems" utf8_drop [OF "1.prems"(2) cut(3,2)] by fastforce
    have "split_chunks redact v = Some (xs @ ys)"
      using False cut xs(1) ys(1) by (subst split_chunks.simps) auto
    moreover have "concat (xs @ ys) = v" using xs(2) ys(2) by simp
    ultimately show ?thesis using xs(3,4) ys(4) by (intro exI [of _ "xs @ ys"]) auto
  qed
qed

subsection \<open>Admission of a dispatch\<close>

text \<open>The Sessions of the store, by identity.\<close>

type_synonym session_map = "(string \<times> session_record) list"

definition record_id :: "session_record \<Rightarrow> string" where
  "record_id r = hdr_session_id (rec_header r)"

datatype append_error =
    BatchEmpty
  | SessionNotFound
  | ArchivedReadOnly
  | LineageInvalid
  | ParentNotFound
  | WriteBlocked
  | EventTooLarge
  | SanitizeFailed
  | SplitFailed
  | StorageFull
  | AppendRefused session_error

function execution_observation_only ::
  "session_map \<Rightarrow> string set \<Rightarrow> session_record \<Rightarrow> append_error + bool" where
  "execution_observation_only store visited r =
     (if record_id r \<in> visited then Inl LineageInvalid
      else if execution_writes_restricted (rec_events r) then Inr True
      else case hdr_parent_session_id (rec_header r) of
        None \<Rightarrow> Inr False
      | Some p \<Rightarrow> (case map_of store p of
          None \<Rightarrow> Inl ParentNotFound
        | Some parent \<Rightarrow> execution_observation_only store (insert (record_id r) visited) parent))"
  by pat_completeness auto
termination
proof (relation "measure (\<lambda>(store, visited, r).
    card (insert (record_id r) (record_id ` snd ` set store) - visited))")
  fix store :: session_map and visited :: "string set" and r parent :: session_record and p :: string
  assume h: "record_id r \<notin> visited" "map_of store p = Some parent"
  let ?ids = "record_id ` snd ` set store"
  have "record_id parent \<in> ?ids" using map_of_SomeD [OF h(2)] by force
  then have "insert (record_id parent) ?ids - insert (record_id r) visited
      \<subset> insert (record_id r) ?ids - visited" using h(1) by blast
  then show "((store, insert (record_id r) visited, parent), store, visited, r)
      \<in> measure (\<lambda>(store, visited, r).
        card (insert (record_id r) (record_id ` snd ` set store) - visited))"
    by (simp add: psubset_card_mono)
qed simp

declare execution_observation_only.simps [simp del]

definition dispatched_effect :: "session_event list \<Rightarrow> session_event \<Rightarrow> string \<Rightarrow> session_effect" where
  "dispatched_effect es e c =
     (case find_map (\<lambda>p. if ev_turn_id p \<noteq> ev_turn_id e \<or> ev_step_id p \<noteq> ev_step_id e then None
         else case ev_payload p of
           ToolCall call \<Rightarrow> if call_call_id call = c then call_effect call else None
         | _ \<Rightarrow> None) (rev es) of
        None \<Rightarrow> EffectUnknown | Some x \<Rightarrow> x)"

definition validate_execution_admission ::
  "session_map \<Rightarrow> session_record \<Rightarrow> session_event \<Rightarrow> append_error + unit" where
  "validate_execution_admission store r e = (case ev_payload e of
     ToolExecution c _ _ \<Rightarrow>
       if observation_effect_allowed (dispatched_effect (rec_events r) e c) then Inr ()
       else try_bind (execution_observation_only store {} r) (\<lambda>only. ensure (\<not> only) WriteBlocked)
   | _ \<Rightarrow> Inr ())"

text \<open>The Sessions a record stands under, itself included.\<close>

inductive lineage :: "session_map \<Rightarrow> session_record \<Rightarrow> session_record \<Rightarrow> bool" for store where
  lineage_self: "lineage store r r"
| lineage_parent: "hdr_parent_session_id (rec_header r) = Some p \<Longrightarrow> map_of store p = Some parent \<Longrightarrow>
    lineage store parent q \<Longrightarrow> lineage store r q"

lemma observation_only_sound:
  assumes "execution_observation_only store visited r = Inr False" "lineage store r q"
  shows "\<not> execution_writes_restricted (rec_events q)"
  using assms(2,1)
proof (induction arbitrary: visited rule: lineage.induct)
  case (lineage_self r)
  then show ?case
    using execution_observation_only.simps [of store visited r] by (auto split: if_splits)
next
  case (lineage_parent r p parent q)
  then show ?case
    using execution_observation_only.simps [of store visited r] by (auto split: if_splits)
qed

subsection \<open>Appending a batch\<close>

record append_codec =
  ax_session :: session_codec
  ax_event_len :: "session_event \<Rightarrow> nat"

definition MAX_SESSION_EVENT_BYTES :: nat where
  "MAX_SESSION_EVENT_BYTES = 512 * 1024"

definition MAX_TOTAL_SESSION_LOG_BYTES :: nat where
  "MAX_TOTAL_SESSION_LOG_BYTES = 256 * 1024 * 1024"

type_synonym scoped_payload = "string option \<times> string option \<times> session_event_payload"

record append_state =
  as_record :: session_record
  as_appended :: "session_event list"
  as_previous_time :: u64

definition check_event ::
  "append_codec \<Rightarrow> session_record \<Rightarrow> u64 \<Rightarrow> session_event \<Rightarrow> append_error + unit" where
  "check_event ax r previous_time e = lift_error AppendRefused (
     try_bind (validate_event_envelope_at r e (ev_seq e) previous_time) (\<lambda>_.
     try_bind (validate_event_transition (ax_session ax) r e) (\<lambda>_.
     lift_error PayloadInvalid (validate_event_payload (sx_payload (ax_session ax)) e))))"

definition encodes :: "append_codec \<Rightarrow> session_event list \<Rightarrow> append_error + nat" where
  "encodes ax es = (if \<exists>e\<in>set es. MAX_SESSION_EVENT_BYTES < ax_event_len ax e then Inl EventTooLarge
     else Inr (sum_list (map (\<lambda>e. ax_event_len ax e + 1) es)))"

text \<open>
  The inner loop over the pieces of one event. With a candidate (\<open>track\<close>) each piece is
  applied before the next is checked; a stream-only batch leaves the record as it is.
\<close>

fun append_pieces ::
  "append_codec \<Rightarrow> bool \<Rightarrow> u64 \<Rightarrow> append_state \<Rightarrow> session_event list \<Rightarrow> append_error + append_state" where
  "append_pieces ax track first_seq s [] = Inr s"
| "append_pieces ax track first_seq s (p # ps) =
     (let e = p\<lparr>ev_seq := first_seq + word_of_nat (length (as_appended s))\<rparr> in
      try_bind (check_event ax (as_record s) (as_previous_time s) e) (\<lambda>_.
      try_bind (if track then lift_error AppendRefused (apply_event (as_record s) e)
                else Inr (as_record s)) (\<lambda>r.
      append_pieces ax track first_seq
        (s\<lparr>as_record := (if track then push_event e r else r),
           as_appended := as_appended s @ [e], as_previous_time := ev_time_unix_ms e\<rparr>) ps)))"

definition raw_event ::
  "string \<Rightarrow> u64 \<Rightarrow> u64 \<Rightarrow> append_state \<Rightarrow> scoped_payload \<Rightarrow> session_event" where
  "raw_event sid first_seq clock s = (\<lambda>(turn, step, payload).
     new_event sid (first_seq + word_of_nat (length (as_appended s)))
       (max clock (as_previous_time s)) turn step payload)"

definition append_payload ::
  "append_codec \<Rightarrow> session_map \<Rightarrow> bool \<Rightarrow> string \<Rightarrow> u64 \<Rightarrow> append_state \<Rightarrow> u64 \<times> scoped_payload
    \<Rightarrow> append_error + append_state" where
  "append_payload ax store track sid first_seq s = (\<lambda>(clock, payload).
     let raw = raw_event sid first_seq clock s payload in
     try_bind (lift_error AppendRefused
       (validate_event_envelope_at (as_record s) raw (ev_seq raw) (as_previous_time s))) (\<lambda>_.
     try_bind (validate_execution_admission store (as_record s) raw) (\<lambda>_.
     try_bind (lift_error AppendRefused (validate_event_transition (ax_session ax) (as_record s) raw)) (\<lambda>_.
     try_bind (lift_error (AppendRefused \<circ> PayloadInvalid)
       (validate_event_payload (sx_payload (ax_session ax)) raw)) (\<lambda>_.
     try_bind (encodes ax [raw]) (\<lambda>_.
     try_bind (ok_or (sanitize_event (ax_session ax) raw) SanitizeFailed) (\<lambda>clean.
     try_bind (ok_or (split_sanitized_event (sx_redact (ax_session ax)) clean) SplitFailed) (\<lambda>pieces.
     append_pieces ax track first_seq s pieces))))))))"

definition is_chunk_payload :: "session_event_payload \<Rightarrow> bool" where
  "is_chunk_payload p = (case p of AssistantChunk _ _ _ _ _ \<Rightarrow> True | _ \<Rightarrow> False)"

definition finish_append ::
  "append_codec \<Rightarrow> nat \<Rightarrow> bool \<Rightarrow> session_record \<Rightarrow> append_state
    \<Rightarrow> append_error + session_record \<times> session_event list" where
  "finish_append ax log_bytes track r s =
     try_bind (if track
       then lift_error AppendRefused (try_bind (record_surface (ax_session ax) (as_record s)) (\<lambda>_.
         validate_record_final (as_record s)))
       else Inr ()) (\<lambda>_.
     try_bind (encodes ax (as_appended s)) (\<lambda>appended_bytes.
     try_bind (ensure (log_bytes + appended_bytes \<le> MAX_TOTAL_SESSION_LOG_BYTES) StorageFull) (\<lambda>_.
     Inr (if track then as_record s else r\<lparr>rec_events := rec_events r @ as_appended s\<rparr>,
          as_appended s))))"

text \<open>The body of \<open>append\_payloads\_locked\<close> for a known record; \<open>track\<close> is \<open>!stream\_only\<close>.\<close>

definition append_batch ::
  "append_codec \<Rightarrow> session_map \<Rightarrow> nat \<Rightarrow> string \<Rightarrow> bool \<Rightarrow> session_record \<Rightarrow> (u64 \<times> scoped_payload) list
    \<Rightarrow> append_error + session_record \<times> session_event list" where
  "append_batch ax store log_bytes sid track r payloads =
     (let first_seq = word_of_nat (length (rec_events r));
          start = \<lparr>as_record = r, as_appended = [],
            as_previous_time = (if rec_events r = [] then 1 else ev_time_unix_ms (last (rec_events r)))\<rparr>
      in try_bind (run_ops (append_payload ax store track sid first_seq) start payloads)
           (finish_append ax log_bytes track r))"

definition append_payloads ::
  "append_codec \<Rightarrow> session_map \<Rightarrow> nat \<Rightarrow> string \<Rightarrow> (u64 \<times> scoped_payload) list
    \<Rightarrow> append_error + session_map \<times> session_event list" where
  "append_payloads ax store log_bytes sid payloads =
     (if payloads = [] then Inl BatchEmpty
      else try_bind (ok_or (map_of store sid) SessionNotFound) (\<lambda>r.
      if rec_archived r then Inl ArchivedReadOnly
      else let stream_only = list_all (\<lambda>(_, _, _, p). is_chunk_payload p) payloads in
        try_bind (append_batch ax store log_bytes sid (\<not> stream_only) r payloads) (\<lambda>(r', appended).
        Inr (AList.update sid r' store, appended))))"

subsection \<open>Stream chunks leave the record as it is\<close>

definition is_chunk :: "session_event \<Rightarrow> bool" where
  "is_chunk e = is_chunk_payload (ev_payload e)"

definition with_log :: "session_record \<Rightarrow> session_event list \<Rightarrow> session_record" where
  "with_log r xs = r\<lparr>rec_events := rec_events r @ xs\<rparr>"

lemma is_chunkD: "is_chunk e \<Longrightarrow> \<exists>q t u d v. ev_payload e = AssistantChunk q t u d v"
  by (cases "ev_payload e") (simp_all add: is_chunk_def is_chunk_payload_def)

lemma with_log_simps [simp]:
  "with_log r [] = r" "push_event e (with_log r xs) = with_log r (xs @ [e])"
  "rec_events (with_log r xs) = rec_events r @ xs" "rec_header (with_log r xs) = rec_header r"
  by (simp_all add: with_log_def push_event_def)

lemma chunk_exception:
  assumes "is_chunk e" shows "reconciliation_exception cx r e = None"
proof (rule ccontr)
  assume "reconciliation_exception cx r e \<noteq> None"
  then obtain result where "reconciliation_exception cx r e = Some result" by blast
  from reconciliation_exceptionD(5) [OF this] is_chunkD [OF assms] show False by auto
qed

lemma chunk_transition:
  assumes "is_chunk e" "rec_events r \<noteq> []"
  shows "validate_event_transition cx (with_log r xs) e = validate_event_transition cx r e"
proof -
  have "validate_live_event cx (with_log r xs) e = validate_live_event cx r e"
    using is_chunkD [OF assms(1)] assms(2)
    by (auto simp: validate_live_event_def failed_admission_def context_messages_def is_session_end_def
        validate_event_arm_def with_log_def)
  then show ?thesis using is_chunkD [OF assms(1)]
    by (auto simp: transition_other is_lifecycle_event_def chunk_exception [OF assms(1)])
qed

lemma chunk_check:
  "is_chunk e \<Longrightarrow> rec_events r \<noteq> [] \<Longrightarrow> check_event ax (with_log r xs) t e = check_event ax r t e"
  by (simp add: check_event_def chunk_transition validate_event_envelope_at_def)

lemma chunk_apply: "is_chunk e \<Longrightarrow> apply_event r e = Inr r"
  by (auto simp: apply_event_def dest: is_chunkD)

lemma chunk_renumber: "is_chunk (p\<lparr>ev_seq := n\<rparr>) = is_chunk p"
  by (simp add: is_chunk_def)

text \<open>The two kinds of batch run in step: the candidate is the record with the appended chunks.\<close>

definition as_pair :: "session_record \<Rightarrow> append_state \<Rightarrow> append_state" where
  "as_pair r s = s\<lparr>as_record := with_log r (as_appended s)\<rparr>"

lemma append_pieces_pair:
  assumes "list_all is_chunk ps" "rec_events r \<noteq> []" "as_record s = r"
  shows "append_pieces ax True n (as_pair r s) ps =
    (case append_pieces ax False n s ps of Inl x \<Rightarrow> Inl x | Inr s' \<Rightarrow> Inr (as_pair r s'))
    \<and> (\<forall>s'. append_pieces ax False n s ps = Inr s' \<longrightarrow> as_record s' = r
        \<and> (\<exists>xs. as_appended s' = as_appended s @ xs \<and> list_all is_chunk xs))"
  using assms
proof (induction ps arbitrary: s)
  case Nil
  then show ?case by simp
next
  case (Cons p ps)
  let ?e = "p\<lparr>ev_seq := n + word_of_nat (length (as_appended s))\<rparr>"
  have chunk: "is_chunk ?e" using Cons.prems by (simp add: chunk_renumber)
  have check: "check_event ax (as_record (as_pair r s)) t ?e = check_event ax (as_record s) t ?e" for t
    using chunk_check [OF chunk Cons.prems(2)] Cons.prems(3) by (simp add: as_pair_def)
  show ?case
  proof (cases "check_event ax (as_record s) (as_previous_time s) ?e")
    case (Inl x)
    then show ?thesis using check by (simp add: Let_def as_pair_def)
  next
    case (Inr u)
    let ?s = "s\<lparr>as_record := r, as_appended := as_appended s @ [?e], as_previous_time := ev_time_unix_ms ?e\<rparr>"
    have fast: "append_pieces ax False n s (p # ps) = append_pieces ax False n ?s ps"
      using Inr Cons.prems(3) by (simp add: Let_def)
    have "as_pair r ?s = (as_pair r s)\<lparr>as_record := push_event ?e (as_record (as_pair r s)),
        as_appended := as_appended s @ [?e], as_previous_time := ev_time_unix_ms ?e\<rparr>"
      by (simp add: as_pair_def)
    then have slow: "append_pieces ax True n (as_pair r s) (p # ps) = append_pieces ax True n (as_pair r ?s) ps"
      using Inr check [of "as_previous_time s"] chunk_apply [OF chunk]
      by (cases s) (simp add: Let_def as_pair_def lift_error_def)
    have "list_all is_chunk ps" using Cons.prems(1) by simp
    from Cons.IH [OF this Cons.prems(2), of ?s] show ?thesis unfolding fast slow using chunk by auto
  qed
qed

definition keeps_chunks :: "append_codec \<Rightarrow> bool" where
  "keeps_chunks ax \<longleftrightarrow> (\<forall>e e'. sanitize_event (ax_session ax) e = Some e' \<longrightarrow> is_chunk e \<longrightarrow> is_chunk e')"

text \<open>
  That a chunk is still a chunk after it was redacted rests on serde's adjacent tag: the encoder
  writes the kind of a chunk under \<open>type\<close>, the decoder reads it back, and the redaction, which
  is a parameter, finds nothing secret in this word.
\<close>

definition tagged_codec :: "session_codec \<Rightarrow> bool" where
  "tagged_codec cx \<longleftrightarrow>
     (\<forall>e v. is_chunk e \<longrightarrow> sx_encode cx e = Some v \<longrightarrow>
        json_get ''type'' v = Some (JString ''assistant/chunk''))
   \<and> (\<forall>v e. json_get ''type'' v = Some (JString ''assistant/chunk'') \<longrightarrow> sx_decode cx v = Some e \<longrightarrow> is_chunk e)
   \<and> sx_redact cx ''assistant/chunk'' = ''assistant/chunk''"

lemma redacted_field:
  assumes "json_get k v = Some (JString t)" "\<not> is_sensitive_key k"
  shows "json_get k (redact_json_value redact v) = Some (JString (redact t))"
proof -
  from assms(1) obtain kvs where v: "v = JObject kvs" "map_of kvs k = Some (JString t)"
    by (auto simp: json_get_def split: json.splits)
  have "map_of (redact_json_entries redact kvs) k = Some (JString (redact t))"
    using v(2) assms(2) by (induction kvs) (auto split: if_splits)
  then show ?thesis by (simp add: v json_get_def)
qed

lemma tagged_keeps_chunks:
  assumes "tagged_codec (ax_session ax)"
  shows "keeps_chunks ax"
proof -
  have key: "\<not> is_sensitive_key ''type''"
    by (simp add: is_sensitive_key_def normalized_key_def to_ascii_lower_def alphanumeric_defs)
  have "is_chunk e'" if e: "sanitize_event (ax_session ax) e = Some e'" "is_chunk e" for e e'
  proof -
    from e(1) obtain v where v: "sx_encode (ax_session ax) e = Some v"
        "sx_decode (ax_session ax) (redact_json_value (sx_redact (ax_session ax)) v) = Some e'"
      by (auto simp: sanitize_event_def bind_eq_Some_conv)
    then have "json_get ''type'' v = Some (JString ''assistant/chunk'')"
      using assms e(2) by (simp add: tagged_codec_def)
    from redacted_field [OF this key, of "sx_redact (ax_session ax)"] show ?thesis
      using assms v(2) unfolding tagged_codec_def by metis
  qed
  then show ?thesis by (simp add: keeps_chunks_def)
qed

lemma split_chunk_events:
  "is_chunk e \<Longrightarrow> split_sanitized_event redact e = Some ps \<Longrightarrow> list_all is_chunk ps"
proof -
  assume c: "is_chunk e" and s: "split_sanitized_event redact e = Some ps"
  from is_chunkD [OF c] obtain q t u d v where p: "ev_payload e = AssistantChunk q t u d v" by blast
  show ?thesis using s c
    by (auto simp: split_sanitized_event_def p Let_def bind_eq_Some_conv list_all_iff is_chunk_def
        is_chunk_payload_def split: if_splits)
qed

lemma append_payload_pair:
  assumes "is_chunk_payload p" "rec_events r \<noteq> []" "as_record s = r" "keeps_chunks ax"
  shows "append_payload ax store True sid n (as_pair r s) (clock, turn, step, p) =
    (case append_payload ax store False sid n s (clock, turn, step, p) of
       Inl x \<Rightarrow> Inl x | Inr s' \<Rightarrow> Inr (as_pair r s'))
    \<and> (\<forall>s'. append_payload ax store False sid n s (clock, turn, step, p) = Inr s' \<longrightarrow> as_record s' = r
        \<and> (\<exists>xs. as_appended s' = as_appended s @ xs \<and> list_all is_chunk xs))"
proof -
  let ?raw = "raw_event sid n clock s (turn, step, p)"
  have raw: "raw_event sid n clock (as_pair r s) (turn, step, p) = ?raw"
    by (simp add: raw_event_def as_pair_def)
  have chunk: "is_chunk ?raw"
    using assms(1) by (simp add: is_chunk_def raw_event_def new_event_def)
  have adm: "validate_execution_admission store q ?raw = Inr ()" for q
    using is_chunkD [OF chunk] by (auto simp: validate_execution_admission_def)
  have env: "validate_event_envelope_at (as_record (as_pair r s)) ?raw q t =
      validate_event_envelope_at (as_record s) ?raw q t" for q t
    using assms(3) by (simp add: validate_event_envelope_at_def as_pair_def)
  have trans: "validate_event_transition cx (as_record (as_pair r s)) ?raw =
      validate_event_transition cx (as_record s) ?raw" for cx
    using chunk_transition [OF chunk assms(2)] assms(3) by (simp add: as_pair_def)
  have time: "as_previous_time (as_pair r s) = as_previous_time s" by (simp add: as_pair_def)
  have pieces: "list_all is_chunk ps"
    if "sanitize_event (ax_session ax) ?raw = Some clean"
      "split_sanitized_event (sx_redact (ax_session ax)) clean = Some ps" for clean ps
    using assms(4) that chunk split_chunk_events unfolding keeps_chunks_def by blast
  show ?thesis
    unfolding append_payload_def Let_def prod.case raw env trans time adm
    using append_pieces_pair [OF pieces assms(2,3)]
    by (auto simp: try_bind_def ok_or_def split: sum.split option.split)
qed

lemma append_run_pair:
  assumes "list_all (\<lambda>(_, _, _, p). is_chunk_payload p) ps" "rec_events r \<noteq> []" "as_record s = r"
    "keeps_chunks ax"
  shows "run_ops (append_payload ax store True sid n) (as_pair r s) ps =
    (case run_ops (append_payload ax store False sid n) s ps of
       Inl x \<Rightarrow> Inl x | Inr s' \<Rightarrow> Inr (as_pair r s'))
    \<and> (\<forall>s'. run_ops (append_payload ax store False sid n) s ps = Inr s' \<longrightarrow>
        (\<exists>xs. as_appended s' = as_appended s @ xs \<and> list_all is_chunk xs))"
  using assms
proof (induction ps arbitrary: s)
  case Nil
  then show ?case by simp
next
  case (Cons x ps)
  obtain clock turn step p where x: "x = (clock, turn, step, p)" by (cases x) auto
  have p: "is_chunk_payload p" using Cons.prems(1) x by simp
  note one = append_payload_pair [OF p Cons.prems(2,3,4), of store sid n clock turn step]
  show ?case
  proof (cases "append_payload ax store False sid n s x")
    case (Inl y)
    then show ?thesis using one x by simp
  next
    case (Inr s')
    then have "as_record s' = r" "append_payload ax store True sid n (as_pair r s) x = Inr (as_pair r s')"
      "\<exists>xs. as_appended s' = as_appended s @ xs \<and> list_all is_chunk xs" using one x by auto
    moreover have "list_all (\<lambda>(_, _, _, p). is_chunk_payload p) ps" using Cons.prems(1) by simp
    ultimately show ?thesis using Cons.IH [of s'] Cons.prems(2,4) Inr by fastforce
  qed
qed

lemma boundary_at_append: "boundary_at es t \<Longrightarrow> boundary_at (es @ xs) t"
  by (simp add: boundary_at_def nth_append)

lemma compaction_event_append:
  "compaction_event es s e = Inr s' \<Longrightarrow> compaction_event (es @ xs) s e = Inr s'"
  by (cases "ev_payload e")
    (auto simp: compaction_event_def res_simps boundary_at_append split: if_splits)

lemma scan_append_chunks:
  assumes "scan_compactions es = Inr s" "list_all is_chunk xs"
  shows "scan_compactions (es @ xs) = Inr s"
proof -
  have old: "run_ops (compaction_event (es @ xs)) t ys = Inr u"
    if "run_ops (compaction_event es) t ys = Inr u" for t u ys
    using that
  proof (induction ys arbitrary: t)
    case (Cons y ys)
    then obtain t1 where t1: "compaction_event es t y = Inr t1" "run_ops (compaction_event es) t1 ys = Inr u"
      by (auto simp: res_simps)
    show ?case using compaction_event_append [OF t1(1)] Cons.IH [OF t1(2)] by simp
  qed simp
  have new: "run_ops (compaction_event es') t ys = Inr t" if "list_all is_chunk ys" for es' t ys
    using that by (induction ys) (auto simp: compaction_event_def dest!: is_chunkD)
  show ?thesis using old [of initial_compaction es s] new [OF assms(2)] assms(1)
    by (simp add: scan_compactions_def run_ops_append)
qed

text \<open>
  C39. The fast path for streaming is the full path: appending a batch of stream chunks
  without a candidate record accepts, refuses, numbers and stores exactly what the full
  validation of a candidate would, given serde's tag on the kind of an encoded event.
\<close>

theorem stream_path_is_the_full_path:
  assumes "from_events (ax_session ax) es = Inr r"
    and "list_all (\<lambda>(_, _, _, p). is_chunk_payload p) payloads" and "tagged_codec (ax_session ax)"
  shows "append_batch ax store log_bytes sid False r payloads
    = append_batch ax store log_bytes sid True r payloads"
proof -
  from assms(1) obtain h where h: "es \<noteq> []" "record_inv r" "rec_events r = es"
      "is_ok (derive_surface (sx_surface (ax_session ax)) es)" by (rule from_eventsD)
  let ?n = "word_of_nat (length (rec_events r))"
  let ?s = "\<lparr>as_record = r, as_appended = [],
            as_previous_time = (if rec_events r = [] then 1 else ev_time_unix_ms (last (rec_events r)))\<rparr>"
  have start: "as_pair r ?s = ?s" by (simp add: as_pair_def)
  have ne: "rec_events r \<noteq> []" using h by simp
  note run = append_run_pair [OF assms(2) ne _ tagged_keeps_chunks [OF assms(3)], of ?s store sid ?n, simplified start]
  show ?thesis
  proof (cases "run_ops (append_payload ax store False sid ?n) ?s payloads")
    case (Inl x)
    then show ?thesis using run by (simp add: append_batch_def Let_def)
  next
    case (Inr t)
    then have chunks: "list_all is_chunk (as_appended t)" and
      full: "run_ops (append_payload ax store True sid ?n) ?s payloads = Inr (as_pair r t)"
      using run by auto
    from h(4) obtain sc where "scan_compactions es = Inr sc"
      by (auto simp: is_ok_iff derive_surface_def res_simps)
    then have "scan_compactions (es @ as_appended t) = Inr sc" using scan_append_chunks chunks by blast
    then have "is_ok (record_surface (ax_session ax) (with_log r (as_appended t)))"
      using h(3) by (simp add: record_surface_def derive_surface_def lift_error_def Let_def)
    moreover have "validate_record_final (with_log r (as_appended t)) = Inr ()"
      using h(2) by (auto simp: validate_record_final_def record_inv_def inbox_retained_ok_def ensure_def
          with_log_def retains_paused_inputs_def)
    ultimately have "finish_append ax log_bytes True r (as_pair r t) = finish_append ax log_bytes False r t"
      by (auto simp: finish_append_def as_pair_def is_ok_iff lift_error_def with_log_def)
    then show ?thesis using full Inr by (simp add: append_batch_def Let_def)
  qed
qed

definition sample_chunk :: "string \<Rightarrow> session_event_payload" where
  "sample_chunk t = AssistantChunk ''r1'' (Some t) None None None"

definition plain_append_codec :: append_codec where
  "plain_append_codec = \<lparr>ax_session = plain_session_codec, ax_event_len = (\<lambda>_. 100)\<rparr>"

lemma sample_tagged: "tagged_codec plain_session_codec"
proof -
  have "sample_type e = ''assistant/chunk'' \<longleftrightarrow> is_chunk e" for e
    by (cases "ev_payload e") (simp_all add: sample_type_def is_chunk_def is_chunk_payload_def)
  then have type: "sample_type e = ''assistant/chunk'' \<longleftrightarrow> is_chunk e" for e .
  have "json_get ''type'' v = Some (JString ''assistant/chunk'')" if "is_chunk e" "sample_encode e = Some v" for e v
    using that iffD2 [OF type] by (auto simp: sample_encode_def json_get_def)
  moreover have "is_chunk e" if "json_get ''type'' v = Some (JString ''assistant/chunk'')" "sample_decode v = Some e" for v e
  proof -
    from that(2) obtain i where "json_get ''type'' v = Some (JString (sample_type (sample_events ! i)))"
        "e = sample_events ! i"
      unfolding sample_decode_def by (auto simp: bind_eq_Some_conv split: if_splits)
    with that(1) show ?thesis using type [of e] by simp
  qed
  ultimately show ?thesis unfolding tagged_codec_def by (simp add: plain_payload_codec_def)
qed

theorem stream_path_is_the_full_path_witness:
  "append_batch plain_append_codec [] 0 ''s1'' False small_record [(1000, None, None, sample_chunk ''hi'')]
    = append_batch plain_append_codec [] 0 ''s1'' True small_record [(1000, None, None, sample_chunk ''hi'')]"
proof (rule stream_path_is_the_full_path)
  show "from_events (ax_session plain_append_codec) small_session = Inr small_record"
    by (simp add: plain_append_codec_def small_from_events)
  show "list_all (\<lambda>(_, _, _, p). is_chunk_payload p) [(1000::u64, None, None, sample_chunk ''hi'')]"
    by (simp add: sample_chunk_def is_chunk_payload_def)
  show "tagged_codec (ax_session plain_append_codec)"
    by (simp add: plain_append_codec_def sample_tagged)
qed

subsection \<open>What a split chunk carries\<close>

definition opt_text :: "string option \<Rightarrow> string" where
  "opt_text v = (case v of None \<Rightarrow> [] | Some s \<Rightarrow> s)"

definition utf8_opt :: "string option \<Rightarrow> bool" where
  "utf8_opt v = utf8_text (opt_text v)"

definition chunk_text :: "session_event \<Rightarrow> string option" where
  "chunk_text e = (case ev_payload e of AssistantChunk _ t _ _ _ \<Rightarrow> t | _ \<Rightarrow> None)"

definition chunk_reasoning :: "session_event \<Rightarrow> string option" where
  "chunk_reasoning e = (case ev_payload e of AssistantChunk _ _ u _ _ \<Rightarrow> u | _ \<Rightarrow> None)"

definition chunk_arguments :: "session_event \<Rightarrow> string option" where
  "chunk_arguments e = (case ev_payload e of
     AssistantChunk _ _ _ d _ \<Rightarrow> Option.bind d tdel_arguments_delta | _ \<Rightarrow> None)"

definition chunk_usage :: "session_event \<Rightarrow> token_usage option" where
  "chunk_usage e = (case ev_payload e of AssistantChunk _ _ _ _ v \<Rightarrow> v | _ \<Rightarrow> None)"

lemma concat_nth_opt:
  "length xs \<le> n \<Longrightarrow> concat (map (\<lambda>i. opt_text (nth_opt xs i)) [0..<n]) = concat xs"
proof -
  assume n: "length xs \<le> n"
  have "[0..<n] = [0..<length xs] @ [length xs..<n]"
    using n by (metis le_add_diff_inverse plus_nat.add_0 upt_add_eq_append zero_le)
  moreover have "concat (map (\<lambda>i. opt_text (nth_opt xs i)) [length xs..<n]) = []"
    by (simp add: nth_opt_def opt_text_def)
  moreover have "map (\<lambda>i. opt_text (nth_opt xs i)) [0..<length xs] = xs"
    by (rule nth_equalityI) (simp_all add: nth_opt_def opt_text_def)
  ultimately show ?thesis by simp
qed

lemma split_delta_total:
  assumes "\<forall>v. length v < 8 \<longrightarrow> redact v = v" "utf8_opt v"
  shows "\<exists>xs. split_delta redact v = Some xs \<and> concat xs = opt_text v \<and> (v = None \<longleftrightarrow> xs = [])
    \<and> (\<forall>x\<in>set xs. length x \<le> MAX_AGENT_STREAM_DELTA_BYTES \<and> redact x = x)"
proof (cases v)
  case None
  then show ?thesis by (simp add: split_delta_def opt_text_def)
next
  case (Some a)
  then show ?thesis
    using split_chunks_total [OF assms(1), of a] assms(2)
    by (auto simp: split_delta_def opt_text_def utf8_opt_def)
qed

lemma nth_opt_fits: "\<forall>x\<in>set xs. length x \<le> MAX_AGENT_STREAM_DELTA_BYTES \<Longrightarrow> delta_fits (nth_opt xs i)"
  by (simp add: nth_opt_def delta_fits_def)

lemma chunk_delta_arguments:
  "Option.bind (chunk_tool_delta d as i) tdel_arguments_delta =
    (case d of None \<Rightarrow> None | Some _ \<Rightarrow> nth_opt as i)"
  by (auto simp: chunk_tool_delta_def nth_opt_def split: option.split)

definition pieces_of :: "session_event \<Rightarrow> session_event list \<Rightarrow> bool" where
  "pieces_of e ps \<longleftrightarrow> ps \<noteq> []
     \<and> concat (map (opt_text \<circ> chunk_text) ps) = opt_text (chunk_text e)
     \<and> concat (map (opt_text \<circ> chunk_reasoning) ps) = opt_text (chunk_reasoning e)
     \<and> concat (map (opt_text \<circ> chunk_arguments) ps) = opt_text (chunk_arguments e)
     \<and> chunk_usage (hd ps) = chunk_usage e \<and> (\<forall>p\<in>set (tl ps). chunk_usage p = None)
     \<and> (\<forall>p\<in>set ps. delta_fits (chunk_text p) \<and> delta_fits (chunk_reasoning p)
          \<and> delta_fits (chunk_arguments p))"

text \<open>
  A stream delta that the redaction made too long loses nothing when it is split: the
  split never fails on UTF-8 text (given that the redaction leaves texts of less than eight
  bytes alone), every piece is within the stored bound, the pieces put together are the
  text, the reasoning and the arguments of the chunk, and the usage is recorded once.
\<close>

theorem stream_split_round_trip:
  assumes "\<forall>v. length v < 8 \<longrightarrow> redact v = v" and "is_chunk e"
    and "utf8_opt (chunk_text e)" and "utf8_opt (chunk_reasoning e)" and "utf8_opt (chunk_arguments e)"
  shows "\<exists>ps. split_sanitized_event redact e = Some ps \<and> pieces_of e ps"
proof -
  from is_chunkD [OF assms(2)] obtain q t u d v where p: "ev_payload e = AssistantChunk q t u d v" by blast
  have fields: "chunk_text e = t" "chunk_reasoning e = u" "chunk_usage e = v"
      "chunk_arguments e = Option.bind d tdel_arguments_delta"
    by (simp_all add: p chunk_text_def chunk_reasoning_def chunk_usage_def chunk_arguments_def)
  show ?thesis
  proof (cases "delta_fits t \<and> delta_fits u \<and> delta_fits (chunk_arguments e)")
    case True
    then show ?thesis using fields
      by (auto simp: split_sanitized_event_def p pieces_of_def Let_def)
  next
    case False
    obtain ts where ts: "split_delta redact t = Some ts" "concat ts = opt_text t"
        "\<forall>x\<in>set ts. length x \<le> MAX_AGENT_STREAM_DELTA_BYTES" "t = None \<longleftrightarrow> ts = []"
      using split_delta_total [OF assms(1,3)] fields by auto
    obtain us where us: "split_delta redact u = Some us" "concat us = opt_text u"
        "\<forall>x\<in>set us. length x \<le> MAX_AGENT_STREAM_DELTA_BYTES" "u = None \<longleftrightarrow> us = []"
      using split_delta_total [OF assms(1,4)] fields by auto
    obtain as where as: "split_delta redact (chunk_arguments e) = Some as"
        "concat as = opt_text (chunk_arguments e)"
        "\<forall>x\<in>set as. length x \<le> MAX_AGENT_STREAM_DELTA_BYTES" "chunk_arguments e = None \<longleftrightarrow> as = []"
      using split_delta_total [OF assms(1,5)] by auto
    let ?n = "max (max (length ts) (length us)) (length as)"
    let ?piece = "\<lambda>i. e\<lparr>ev_version := AGENT_SESSION_EVENT_VERSION,
      ev_payload := AssistantChunk q (nth_opt ts i) (nth_opt us i) (chunk_tool_delta d as i)
        (if i = 0 then v else None)\<rparr>"
    have long: "\<not> (delta_fits t \<and> delta_fits u \<and> delta_fits (Option.bind d tdel_arguments_delta))"
      using False fields by simp
    have split: "split_sanitized_event redact e = Some (map ?piece [0..<?n])"
      unfolding split_sanitized_event_def p session_event_payload.case Let_def if_not_P [OF long]
      using ts(1) us(1) as(1) fields by simp
    have "t \<noteq> None \<or> u \<noteq> None \<or> chunk_arguments e \<noteq> None"
      using False by (auto simp: delta_fits_def)
    then have n: "0 < ?n" using ts(4) us(4) as(4) by (auto simp: less_max_iff_disj)
    have none: "d = None \<Longrightarrow> as = []" using as(4) fields(4) by simp
    have arg: "chunk_arguments (?piece i) = nth_opt as i" for i
      using none by (auto simp: chunk_arguments_def chunk_delta_arguments nth_opt_def split: option.split)
    have fld: "chunk_text (?piece i) = nth_opt ts i" "chunk_reasoning (?piece i) = nth_opt us i"
        "chunk_usage (?piece i) = (if i = 0 then v else None)" for i
      by (simp_all add: chunk_text_def chunk_reasoning_def chunk_usage_def)
    have upt: "[0..<?n] = 0 # [1..<?n]" using n by (simp add: upt_conv_Cons)
    have "pieces_of e (map ?piece [0..<?n])"
      unfolding pieces_of_def
    proof (intro conjI ballI)
      show "map ?piece [0..<?n] \<noteq> []" unfolding upt by simp
      show "concat (map (opt_text \<circ> chunk_text) (map ?piece [0..<?n])) = opt_text (chunk_text e)"
        using concat_nth_opt [of ts ?n] ts(2) fields by (simp add: comp_def fld)
      show "concat (map (opt_text \<circ> chunk_reasoning) (map ?piece [0..<?n])) = opt_text (chunk_reasoning e)"
        using concat_nth_opt [of us ?n] us(2) fields by (simp add: comp_def fld)
      show "concat (map (opt_text \<circ> chunk_arguments) (map ?piece [0..<?n])) = opt_text (chunk_arguments e)"
        using concat_nth_opt [of as ?n] as(2) by (simp add: comp_def arg)
      show "chunk_usage (hd (map ?piece [0..<?n])) = chunk_usage e"
        unfolding upt list.map list.sel fld by (simp add: fields)
      fix p assume "p \<in> set (tl (map ?piece [0..<?n]))"
      then obtain i where i: "i \<in> set [1..<?n]" "p = ?piece i"
        unfolding upt list.map list.sel set_map by (elim imageE)
      then have "0 < i" by simp
      then show "chunk_usage p = None" unfolding i(2) fld by simp
    next
      fix p assume "p \<in> set (map ?piece [0..<?n])"
      then obtain i where "p = ?piece i" unfolding set_map by (elim imageE)
      then show "delta_fits (chunk_text p)" "delta_fits (chunk_reasoning p)" "delta_fits (chunk_arguments p)"
        using nth_opt_fits ts(3) us(3) as(3) by (simp_all only: fld arg)
    qed
    with split show ?thesis by blast
  qed
qed

theorem stream_split_round_trip_witness:
  "\<exists>ps. split_sanitized_event id (session_event_at 1 (sample_chunk (replicate 5000 CHR ''x''))) = Some ps
    \<and> pieces_of (session_event_at 1 (sample_chunk (replicate 5000 CHR ''x''))) ps"
proof (rule stream_split_round_trip)
  have "\<not> is_continuation CHR ''x''" by (simp add: is_continuation_def alphanumeric_defs)
  then show "utf8_opt (chunk_text (session_event_at 1 (sample_chunk (replicate 5000 CHR ''x''))))"
    by (auto simp: utf8_opt_def opt_text_def chunk_text_def session_event_at_def sample_chunk_def utf8_text_def
        intro: exI [of _ 0])
qed (simp_all add: is_chunk_def is_chunk_payload_def session_event_at_def sample_chunk_def utf8_opt_def
    opt_text_def utf8_text_def chunk_reasoning_def chunk_arguments_def)

subsection \<open>An unsettled execution blocks the Sessions below it\<close>

text \<open>
  C40. A Session may dispatch a call that can change something (its recorded effect is not
  none, read-only or a sensitive read) only when no Session it stands under, itself
  included, has an execution of unknown outcome left unsettled.
\<close>

theorem mutating_dispatch_needs_settled_lineage:
  assumes "lineage store (as_record s) q" and "execution_writes_restricted (rec_events q)"
    and "\<not> observation_effect_allowed (dispatched_effect (rec_events (as_record s))
      (raw_event sid n clock s (turn, step, ToolExecution c x y)) c)"
  shows "\<not> is_ok (append_payload ax store track sid n s (clock, turn, step, ToolExecution c x y))"
proof
  assume "is_ok (append_payload ax store track sid n s (clock, turn, step, ToolExecution c x y))"
  then have "validate_execution_admission store (as_record s)
      (raw_event sid n clock s (turn, step, ToolExecution c x y)) = Inr ()"
    by (auto simp: is_ok_iff append_payload_def Let_def res_simps)
  moreover have "ev_payload (raw_event sid n clock s (turn, step, ToolExecution c x y)) = ToolExecution c x y"
    by (simp add: raw_event_def new_event_def)
  ultimately have "execution_observation_only store {} (as_record s) = Inr False"
    using assms(3) by (auto simp: validate_execution_admission_def res_simps)
  from observation_only_sound [OF this assms(1)] assms(2) show False by blast
qed

definition uncertain_parent :: session_record where
  "uncertain_parent = (fresh_record (small_header\<lparr>hdr_session_id := ''p''\<rparr>))\<lparr>rec_events := take 5 sample_calls\<rparr>"

definition its_child :: session_record where
  "its_child = (fresh_record (small_header\<lparr>hdr_session_id := ''s1'', hdr_parent_session_id := Some ''p''\<rparr>))"

theorem mutating_dispatch_needs_settled_lineage_witness:
  "\<not> is_ok (append_payload plain_append_codec [(''p'', uncertain_parent), (''s1'', its_child)] True ''s1'' 1
      \<lparr>as_record = its_child, as_appended = [], as_previous_time = 1\<rparr>
      (5, Some ''t1'', Some ''st1'', ToolExecution ''c9'' Dispatched ''unknown''))"
proof (rule mutating_dispatch_needs_settled_lineage)
  show "lineage [(''p'', uncertain_parent), (''s1'', its_child)]
      (as_record \<lparr>as_record = its_child, as_appended = [], as_previous_time = 1\<rparr>) uncertain_parent"
    by (rule lineage_parent [of _ "''p''" _ uncertain_parent])
      (simp_all add: its_child_def fresh_record_def lineage_self)
  have "execution_writes_restricted (take 5 sample_calls)"
    by (simp add: execution_writes_restricted_def pending_executions_def pending_step_def sample_call_defs)
  then show "execution_writes_restricted (rec_events uncertain_parent)"
    by (simp add: uncertain_parent_def)
qed (simp add: its_child_def fresh_record_def dispatched_effect_def observation_effect_allowed_def)

end
