(* ===== verification/Effects.thy ===== *)
theory Effects
  imports Prelude
begin

text \<open>
  Fallible operations that change a shared state. A Rust method on \<open>&mut self\<close> that returns
  early keeps what it wrote before the error, so an operation returns its result together
  with the state it leaves, and a failed step stops the rest without undoing anything. An
  invariant of such a machine holds after an error as well.
\<close>

type_synonym ('s, 'e, 'a) outcome = "('e + 'a) \<times> 's"

definition op_ok :: "'a \<Rightarrow> 's \<Rightarrow> ('s, 'e, 'a) outcome" where
  "op_ok a s = (Inr a, s)"

definition op_err :: "'e \<Rightarrow> 's \<Rightarrow> ('s, 'e, 'a) outcome" where
  "op_err x s = (Inl x, s)"

definition op_bind ::
  "('s, 'e, 'a) outcome \<Rightarrow> ('a \<Rightarrow> 's \<Rightarrow> ('s, 'e, 'b) outcome) \<Rightarrow> ('s, 'e, 'b) outcome" where
  "op_bind r f = (case r of (Inl x, s) \<Rightarrow> (Inl x, s) | (Inr a, s) \<Rightarrow> f a s)"

text \<open>A check that changes nothing.\<close>

definition op_check :: "'e + 'a \<Rightarrow> 's \<Rightarrow> ('s, 'e, 'a) outcome" where
  "op_check r s = (r, s)"

lemma op_bind_simps [simp]:
  "op_bind (op_ok a s) f = f a s" "op_bind (op_err x s) f = op_err x s"
  "op_bind (Inr a, s) f = f a s" "op_bind (Inl x, s) f = (Inl x, s)"
  "op_bind (op_check (Inr a) s) f = f a s" "op_bind (op_check (Inl x) s) f = op_err x s"
  by (simp_all add: op_bind_def op_ok_def op_err_def op_check_def)

lemma op_bind_Inr_iff [res_simps]:
  "op_bind r f = (Inr b, t) \<longleftrightarrow> (\<exists>a s. r = (Inr a, s) \<and> f a s = (Inr b, t))"
  by (cases r; cases "fst r") auto

lemma op_Inr_iff [res_simps]:
  "op_ok a s = (Inr b, t) \<longleftrightarrow> b = a \<and> t = s" "op_err x s = (Inr b, t) \<longleftrightarrow> False"
  "op_check r s = (Inr b, t) \<longleftrightarrow> r = Inr b \<and> t = s"
  by (auto simp: op_ok_def op_err_def op_check_def)

text \<open>For evaluation: the continuation waits until the operation before it has a value.\<close>

lemma op_bind_weak_cong: "r = r' \<Longrightarrow> op_bind r f = op_bind r' f"
  by simp

text \<open>An operation on a part of the state, and a part that may be shared: the put-back is explicit.\<close>

definition op_zoom :: "('t \<Rightarrow> 's \<Rightarrow> 's) \<Rightarrow> ('t, 'e, 'a) outcome \<Rightarrow> 's \<Rightarrow> ('s, 'e, 'a) outcome" where
  "op_zoom put r s = (fst r, put (snd r) s)"

lemma op_zoom_Inr_iff [res_simps]:
  "op_zoom put r s = (Inr a, s') \<longleftrightarrow> (\<exists>t. r = (Inr a, t) \<and> s' = put t s)"
  by (cases r) (auto simp: op_zoom_def)

lemma op_zoom_simps:
  "op_zoom put (op_ok a t) s = op_ok a (put t s)" "op_zoom put (op_err x t) s = op_err x (put t s)"
  "op_zoom put (op_check r t) s = op_check r (put t s)"
  by (simp_all add: op_zoom_def op_ok_def op_err_def op_check_def)

lemma snd_outcome: "snd (op_ok a s) = s" "snd (op_err x s) = s" "snd (op_check r s) = s"
  by (simp_all add: op_ok_def op_err_def op_check_def)

subsection \<open>Invariants\<close>

definition leaves :: "('s \<Rightarrow> bool) \<Rightarrow> ('s, 'e, 'a) outcome \<Rightarrow> bool" where
  "leaves I r \<longleftrightarrow> I (snd r)"

lemma leaves_simps [simp]:
  "leaves I (op_ok a s) = I s" "leaves I (op_err x s) = I s" "leaves I (op_check r s) = I s"
  by (simp_all add: leaves_def op_ok_def op_err_def op_check_def)

lemma leaves_bind [inv_intros]:
  "leaves I r \<Longrightarrow> (\<And>a s. r = (Inr a, s) \<Longrightarrow> I s \<Longrightarrow> leaves I (f a s)) \<Longrightarrow> leaves I (op_bind r f)"
  by (cases r; cases "fst r") (auto simp: leaves_def)

text \<open>A machine whose every operation, successful or not, keeps an invariant.\<close>

fun run_all :: "('s \<Rightarrow> 'o \<Rightarrow> ('s, 'e, 'a) outcome) \<Rightarrow> 's \<Rightarrow> 'o list \<Rightarrow> 's" where
  "run_all step s [] = s"
| "run_all step s (x # xs) = run_all step (snd (step s x)) xs"

lemma run_all_append: "run_all step s (xs @ ys) = run_all step (run_all step s xs) ys"
  by (induction xs arbitrary: s) auto

locale effect_machine =
  fixes step :: "'s \<Rightarrow> 'o \<Rightarrow> ('s, 'e, 'a) outcome"
    and inv :: "'s \<Rightarrow> bool"
  assumes step_leaves: "inv s \<Longrightarrow> leaves inv (step s x)"
begin

lemma run_leaves: "inv s \<Longrightarrow> inv (run_all step s xs)"
  using step_leaves by (induction xs arbitrary: s) (auto simp: leaves_def)

end

text \<open>A machine with a relation between its states that only moves forward.\<close>

locale forward_machine = effect_machine step inv
  for step :: "'s \<Rightarrow> 'o \<Rightarrow> ('s, 'e, 'a) outcome" and inv +
  fixes advances :: "'s \<Rightarrow> 's \<Rightarrow> bool"
  assumes advances_refl: "advances s s"
    and advances_trans: "advances s t \<Longrightarrow> advances t u \<Longrightarrow> advances s u"
    and step_advances: "inv s \<Longrightarrow> advances s (snd (step s x))"
begin

lemma run_advances: "inv s \<Longrightarrow> advances s (run_all step s xs)"
proof (induction xs arbitrary: s)
  case Nil
  then show ?case by (simp add: advances_refl)
next
  case (Cons x xs)
  have "inv (snd (step s x))" using step_leaves [OF Cons.prems] by (simp add: leaves_def)
  from Cons.IH [OF this] step_advances [OF Cons.prems] show ?case
    by (auto intro: advances_trans)
qed

end

end
