(* ===== verification/Terminal_Command.thy ===== *)
theory Terminal_Command
  imports Effects Rust_Text
begin

text \<open>
  The execution of one command in a terminal (terminal\_broker.rs,
  \<open>TerminalCommandOperation\<close>): its state, the capture of its output, the handshake with the
  shell's line editor before the source is sent, and the three ways it can be settled (by
  the trusted shell integration, as never submitted, as uncertain). The mutex, the
  condition variable and the atomic counters of the rollout are left out; a function that
  blocks is modelled by the condition it waits for and by the answer it computes from the
  data it finds afterwards.
\<close>

datatype (plugins only: code size) broker_error =
    CounterExhausted
  | CommandNotSubmitted
  | CommandEndOutOfOrder
  | CommandStartOutOfOrder
  | CommandLineMismatch
  | CommandBusy
  | CommandIdentityMismatch
  | NativeEditInterrupted
  | PrivateControlNotReady
  | PrivateControlOutOfOrder
  | NativeTypingOutOfOrder
  | NativeCheckpointOutOfOrder
  | NativeInputOutOfOrder
  | PromptStartOutOfOrder
  | PromptEndOutOfOrder
  | InvalidCwd
  | InvalidInputRejection
  | InvalidLabel string
  | IntegrationDisabled
  | IntegrationNotReady
  | IntegrationShellUnknown
  | IntegrationIdentityMismatch
  | ShellIdentityMismatch
  | TransportAlreadyAttached
  | TransportNotFound
  | StaleTransport
  | StaleGeneration
  | StalePredecessor
  | PredecessorNotFound
  | BrokerSessionNotFound
  | GenerationClosed
  | FrameIdentityMismatch
  | FrameSizeInvalid
  | DuplicateOutsideReplayWindow
  | ConflictingDuplicate
  | OutputGap
  | ByteOffsetMismatch
  | SubscriberClosed
  | ReplayUnavailable
  | ScreenCounterExhausted
  | ScreenUnavailable
  | InteractiveToolsDisabled
  | InteractiveNotAtShellBoundary
  | InputRecoveryRequired
  | VisibleCommandUnavailable
  | VisibleCommandBusy
  | ExecuteDisabled
  | BrokerLeaseUnavailable
  | BrokerLeaseBusy
  | BrokerLeaseIdentityMismatch
  | StaleLease
  | StaleInput
  | InputSizeInvalid
  | SystemControlNotScoped
  | TransportWriteFailed
  | NativeSubmissionMismatch
  | InputUnsupported
  | BackgroundUnsupported
  | InvalidArguments
  | JobCapacityReached
  | JobLaunchAlreadyRegistered
  | JobUnknown
  | JobIdentityMismatch
  | JobOwnerMismatch
  | JobStaleBinding
  | JobStartUnconfirmed
  | JobCapabilityOutsidePrompt
  | JobNotControllable
  | JobSubmissionUnregistered
  | JobInvalidHandle

definition JAVASCRIPT_MAX_SAFE_INTEGER :: u64 where
  "JAVASCRIPT_MAX_SAFE_INTEGER = 9007199254740991"

datatype (plugins only: code size) command_state =
    CmdSubmitted
  | CmdRunning
  | CmdCancelRequested
  | CmdCompleted
  | CmdCancelled
  | CmdTimedOut
  | CmdTakenOver
  | CmdUncertain
  | CmdFailed

definition cmd_is_terminal :: "command_state \<Rightarrow> bool" where
  "cmd_is_terminal s \<longleftrightarrow> s = CmdCompleted \<or> s = CmdCancelled \<or> s = CmdTimedOut \<or> s = CmdTakenOver
     \<or> s = CmdUncertain \<or> s = CmdFailed"

datatype (plugins only: code size) requested_settlement =
    ReqCancelled
  | ReqTimedOut
  | ReqTakenOver

record command_data =
  cmd_started :: bool
  cmd_empty_confirmed :: bool
  cmd_checkpoint :: "(string \<times> bool) option"
  cmd_private_checkpoint :: "(string \<times> string \<times> bool) option"
  cmd_private_ready :: "bool option"
  cmd_read_only_probe :: bool
  cmd_probe_refresh :: bool
  cmd_probe_waiting_prompt :: bool
  cmd_probe_outstanding :: bool
  cmd_source_may_be_enqueued :: bool
  cmd_integration_id :: "string option"
  cmd_terminal_session_id :: string
  cmd_terminal_generation :: u64
  cmd_operation_id :: string
  cmd_command_id :: string
  cmd_command_line :: string
  cmd_submitted_line :: "string option"
  cmd_state :: command_state
  cmd_revision :: u64
  cmd_requested :: "requested_settlement option"
  cmd_interrupt_sent :: bool
  cmd_input_rejection :: "string option"
  cmd_interrupt_uncertain :: bool
  cmd_exit_code :: "u32 option" \<comment> \<open>the bits of an \<open>i32\<close>\<close>
  cmd_cwd :: "string option"
  cmd_capture :: "u8 list"
  cmd_capture_truncated :: bool
  cmd_capture_limit :: nat
  cmd_capture_start :: u64
  cmd_capture_end :: "u64 option"
  cmd_capture_open :: bool

definition new_command ::
  "string \<Rightarrow> string \<Rightarrow> u64 \<Rightarrow> string \<Rightarrow> string \<Rightarrow> string option \<Rightarrow> u64 \<Rightarrow> nat \<Rightarrow> command_data" where
  "new_command command_id terminal generation operation line integration start limit =
     \<lparr>cmd_started = False, cmd_empty_confirmed = False, cmd_checkpoint = None,
      cmd_private_checkpoint = None, cmd_private_ready = None, cmd_read_only_probe = False,
      cmd_probe_refresh = False, cmd_probe_waiting_prompt = False, cmd_probe_outstanding = False,
      cmd_source_may_be_enqueued = False, cmd_integration_id = integration,
      cmd_terminal_session_id = terminal, cmd_terminal_generation = generation,
      cmd_operation_id = operation, cmd_command_id = command_id, cmd_command_line = line,
      cmd_submitted_line = None, cmd_state = CmdSubmitted, cmd_revision = 1, cmd_requested = None,
      cmd_interrupt_sent = False, cmd_input_rejection = None, cmd_interrupt_uncertain = False,
      cmd_exit_code = None, cmd_cwd = None, cmd_capture = [], cmd_capture_truncated = False,
      cmd_capture_limit = limit, cmd_capture_start = start, cmd_capture_end = None,
      cmd_capture_open = True\<rparr>"

type_synonym 'a command_outcome = "(command_data, broker_error, 'a) outcome"

text \<open>A counter of the wire stays within the integers JavaScript represents exactly.\<close>

definition next_safe :: "u64 \<Rightarrow> broker_error + u64" where
  "next_safe n = (case checked_add n 1 of
     None \<Rightarrow> Inl CounterExhausted
   | Some m \<Rightarrow> if JAVASCRIPT_MAX_SAFE_INTEGER < m then Inl CounterExhausted else Inr m)"

definition bump_revision :: "command_data \<Rightarrow> unit command_outcome" where
  "bump_revision d = op_bind (op_check (next_safe (cmd_revision d)) d) (\<lambda>r d.
     op_ok () (d\<lparr>cmd_revision := r\<rparr>))"

definition later_end :: "u64 option \<Rightarrow> u64 \<Rightarrow> u64 option" where
  "later_end e through = Some (max (case e of None \<Rightarrow> through | Some s \<Rightarrow> s) through)"

definition settled_as :: "requested_settlement \<Rightarrow> command_state" where
  "settled_as q = (case q of ReqCancelled \<Rightarrow> CmdCancelled | ReqTimedOut \<Rightarrow> CmdTimedOut
     | ReqTakenOver \<Rightarrow> CmdTakenOver)"

subsection \<open>Settlement\<close>

definition request_settlement :: "requested_settlement \<Rightarrow> command_data \<Rightarrow> bool command_outcome" where
  "request_settlement q d =
     (if cmd_is_terminal (cmd_state d) then op_ok False d
      else op_bind
        (if cmd_requested d = None
         then bump_revision (d\<lparr>cmd_requested := Some q, cmd_state := CmdCancelRequested\<rparr>)
         else op_ok () d) (\<lambda>_ d.
        op_ok (\<not> cmd_interrupt_sent d) (d\<lparr>cmd_interrupt_sent := True\<rparr>)))"

definition settle_unsubmitted :: "command_data \<Rightarrow> unit command_outcome" where
  "settle_unsubmitted d =
     (if cmd_state d \<noteq> CmdCancelRequested then op_ok () d
      else case cmd_requested d of
        None \<Rightarrow> op_ok () d
      | Some q \<Rightarrow> bump_revision (d\<lparr>cmd_state := settled_as q\<rparr>))"

definition settle_command_from_integration ::
  "u32 \<Rightarrow> string \<Rightarrow> u64 \<Rightarrow> command_data \<Rightarrow> bool command_outcome" where
  "settle_command_from_integration exit_code cwd through d =
     (if cmd_is_terminal (cmd_state d) then op_ok False d
      else if cmd_state d \<noteq> CmdRunning \<and> cmd_state d \<noteq> CmdCancelRequested
      then op_err CommandEndOutOfOrder d
      else op_bind (bump_revision (d\<lparr>
          cmd_state := (case cmd_requested d of
              None \<Rightarrow> CmdCompleted
            | Some q \<Rightarrow> if cmd_interrupt_uncertain d then CmdUncertain else settled_as q),
          cmd_exit_code := Some exit_code, cmd_cwd := Some cwd,
          cmd_capture_end := later_end (cmd_capture_end d) through\<rparr>)) (\<lambda>_ d. op_ok True d))"

definition settle_command_uncertain :: "u64 \<Rightarrow> command_data \<Rightarrow> bool \<times> command_data" where
  "settle_command_uncertain through d =
     (if cmd_is_terminal (cmd_state d) then (False, d)
      else (True, d\<lparr>cmd_state := CmdUncertain,
        cmd_revision := min (sat_add (cmd_revision d) 1) JAVASCRIPT_MAX_SAFE_INTEGER,
        cmd_capture_end := later_end (cmd_capture_end d) through\<rparr>))"

definition mark_uncertain :: "command_data \<Rightarrow> bool \<times> command_data" where
  "mark_uncertain d = settle_command_uncertain
     (case cmd_capture_end d of None \<Rightarrow> 0 | Some s \<Rightarrow> s) d"

subsection \<open>Capture\<close>

record output_frame =
  fr_protocol_version :: u8
  fr_terminal_session_id :: string
  fr_terminal_generation :: u64
  fr_frame_type :: string
  fr_sequence :: u64
  fr_byte_offset :: u64
  fr_bytes :: "u8 list"

definition finalize_capture :: "u64 \<Rightarrow> command_data \<Rightarrow> command_data" where
  "finalize_capture through d = d\<lparr>cmd_capture_open := False,
     cmd_capture_end := later_end (cmd_capture_end d) through\<rparr>"

definition finish_typing_capture :: "command_data \<Rightarrow> unit command_outcome" where
  "finish_typing_capture d =
     (if cmd_state d \<noteq> CmdSubmitted \<or> cmd_started d then op_err CommandNotSubmitted d
      else op_ok () (d\<lparr>cmd_capture := [], cmd_capture_truncated := False,
        cmd_capture_start := (case cmd_capture_end d of
            None \<Rightarrow> cmd_capture_start d | Some s \<Rightarrow> sat_add s 1),
        cmd_capture_end := None\<rparr>))"

text \<open>The bounded append a command and a terminal share.\<close>

definition capture_bytes :: "nat \<Rightarrow> u8 list \<Rightarrow> u8 list \<Rightarrow> u8 list \<times> bool" where
  "capture_bytes limit captured bytes =
     (let accepted = min (limit - length captured) (length bytes)
      in (captured @ take accepted bytes, accepted < length bytes))"

definition capture_frame :: "output_frame \<Rightarrow> command_data \<Rightarrow> command_data" where
  "capture_frame f d =
     (if \<not> cmd_capture_open d \<or> fr_sequence f < cmd_capture_start d then d
      else (if cmd_capture_truncated d then d
            else case capture_bytes (cmd_capture_limit d) (cmd_capture d) (fr_bytes f) of
              (captured, truncated) \<Rightarrow> d\<lparr>cmd_capture := captured, cmd_capture_truncated := truncated\<rparr>)
          \<lparr>cmd_capture_end := Some (fr_sequence f)\<rparr>)"

subsection \<open>The handshake with the line editor\<close>

definition expect_native_checkpoint :: "string \<Rightarrow> command_data \<Rightarrow> unit command_outcome" where
  "expect_native_checkpoint prefix d =
     (if cmd_state d \<noteq> CmdSubmitted then op_err NativeEditInterrupted d
      else op_ok () (d\<lparr>cmd_checkpoint := Some (prefix, False)\<rparr>))"

definition begin_read_only_probe :: "command_data \<Rightarrow> unit command_outcome" where
  "begin_read_only_probe d =
     (if cmd_state d \<noteq> CmdSubmitted \<or> cmd_source_may_be_enqueued d then op_err NativeEditInterrupted d
      else op_ok () (d\<lparr>cmd_read_only_probe := True, cmd_probe_refresh := False,
        cmd_probe_waiting_prompt := False, cmd_probe_outstanding := True,
        cmd_empty_confirmed := False, cmd_checkpoint := Some ([], False)\<rparr>))"

definition refresh_read_only_probe :: "command_data \<Rightarrow> bool command_outcome" where
  "refresh_read_only_probe d =
     (if cmd_state d \<noteq> CmdSubmitted \<or> \<not> cmd_read_only_probe d \<or> cmd_source_may_be_enqueued d
         \<or> \<not> cmd_probe_refresh d \<or> cmd_probe_waiting_prompt d \<or> cmd_probe_outstanding d
      then op_ok False d
      else op_ok True (d\<lparr>cmd_probe_refresh := False, cmd_probe_outstanding := True,
        cmd_empty_confirmed := False, cmd_checkpoint := Some ([], False)\<rparr>))"

definition acknowledged :: "(string \<times> bool) option \<Rightarrow> bool" where
  "acknowledged c \<longleftrightarrow> (case c of None \<Rightarrow> False | Some (_, done) \<Rightarrow> done)"

definition finish_read_only_probe :: "command_data \<Rightarrow> bool command_outcome" where
  "finish_read_only_probe d =
     (if cmd_state d \<noteq> CmdSubmitted \<or> \<not> cmd_read_only_probe d \<or> cmd_source_may_be_enqueued d
         \<or> cmd_probe_refresh d \<or> \<not> acknowledged (cmd_checkpoint d)
      then op_ok False d
      else op_ok True (d\<lparr>cmd_read_only_probe := False\<rparr>))"

definition native_checkpoint_waits :: "command_data \<Rightarrow> bool" where
  "native_checkpoint_waits d \<longleftrightarrow> cmd_state d = CmdSubmitted
     \<and> (case cmd_checkpoint d of None \<Rightarrow> False | Some (_, done) \<Rightarrow> \<not> done)
     \<and> \<not> (cmd_read_only_probe d \<and> cmd_probe_refresh d \<and> \<not> cmd_probe_waiting_prompt d
          \<and> \<not> cmd_probe_outstanding d)"

definition wait_native_checkpoint :: "command_data \<Rightarrow> bool" where
  "wait_native_checkpoint d \<longleftrightarrow> cmd_state d = CmdSubmitted \<and> \<not> cmd_probe_refresh d
     \<and> acknowledged (cmd_checkpoint d)"

definition begin_native_frame :: "command_data \<Rightarrow> unit command_outcome" where
  "begin_native_frame d =
     (if cmd_state d \<noteq> CmdSubmitted \<or> \<not> cmd_empty_confirmed d then op_err PrivateControlNotReady d
      else op_ok () (d\<lparr>cmd_private_checkpoint := None\<rparr>))"

definition private_confirmed :: "command_data \<Rightarrow> bool" where
  "private_confirmed d \<longleftrightarrow> (case cmd_private_checkpoint d of None \<Rightarrow> False | Some (_, _, done) \<Rightarrow> done)"

definition expect_private_ready :: "command_data \<Rightarrow> unit command_outcome" where
  "expect_private_ready d =
     (if cmd_state d \<noteq> CmdSubmitted \<or> \<not> cmd_empty_confirmed d then op_err PrivateControlNotReady d
      else op_ok () (d\<lparr>cmd_private_ready := Some False\<rparr>))"

definition private_ready_waits :: "command_data \<Rightarrow> bool" where
  "private_ready_waits d \<longleftrightarrow> cmd_state d = CmdSubmitted \<and> cmd_private_ready d = Some False"

definition wait_private_ready :: "command_data \<Rightarrow> bool" where
  "wait_private_ready d \<longleftrightarrow> cmd_state d = CmdSubmitted \<and> cmd_private_ready d = Some True"

definition expect_data_checkpoint :: "string \<Rightarrow> string \<Rightarrow> command_data \<Rightarrow> unit command_outcome" where
  "expect_data_checkpoint descriptor buffer d =
     (if cmd_state d \<noteq> CmdSubmitted \<or> \<not> cmd_empty_confirmed d then op_err PrivateControlNotReady d
      else op_ok () (d\<lparr>cmd_private_checkpoint := Some (descriptor, buffer, False)\<rparr>))"

definition expect_private_checkpoint :: "string \<Rightarrow> command_data \<Rightarrow> unit command_outcome" where
  "expect_private_checkpoint descriptor = expect_data_checkpoint descriptor []"

definition private_checkpoint_waits :: "command_data \<Rightarrow> bool" where
  "private_checkpoint_waits d \<longleftrightarrow> cmd_state d = CmdSubmitted
     \<and> (case cmd_private_checkpoint d of None \<Rightarrow> False | Some (_, _, done) \<Rightarrow> \<not> done)"

definition wait_private_checkpoint :: "command_data \<Rightarrow> bool" where
  "wait_private_checkpoint d \<longleftrightarrow> cmd_state d = CmdSubmitted \<and> private_confirmed d"

subsection \<open>The answer to the caller\<close>

record command_snapshot =
  cs_protocol_version :: u8
  cs_terminal_session_id :: string
  cs_terminal_generation :: u64
  cs_operation_id :: string
  cs_command_id :: string
  cs_command_line :: string
  cs_submitted_line :: "string option"
  cs_input_rejection :: "string option"
  cs_state :: command_state
  cs_revision :: u64
  cs_exit_code :: "u32 option"
  cs_cwd :: "string option"
  cs_combined_output :: "u8 list" \<comment> \<open>before the lossy decoding\<close>
  cs_capture_truncated :: bool
  cs_capture_start :: u64
  cs_capture_end :: "u64 option"
  cs_no_auto_replay :: bool

definition command_snapshot_of :: "command_data \<Rightarrow> command_snapshot" where
  "command_snapshot_of d = \<lparr>cs_protocol_version = 1, cs_terminal_session_id = cmd_terminal_session_id d,
     cs_terminal_generation = cmd_terminal_generation d, cs_operation_id = cmd_operation_id d,
     cs_command_id = cmd_command_id d, cs_command_line = cmd_command_line d,
     cs_submitted_line = cmd_submitted_line d, cs_input_rejection = cmd_input_rejection d,
     cs_state = cmd_state d, cs_revision = cmd_revision d, cs_exit_code = cmd_exit_code d,
     cs_cwd = cmd_cwd d, cs_combined_output = cmd_capture d,
     cs_capture_truncated = cmd_capture_truncated d, cs_capture_start = cmd_capture_start d,
     cs_capture_end = cmd_capture_end d, cs_no_auto_replay = True\<rparr>"

end
