(* ===== verification/Terminal_Record.thy ===== *)
theory Terminal_Record
  imports Terminal_Command
begin

text \<open>
  The record of one terminal (terminal\_broker.rs, \<open>SessionRecord\<close>; terminal\_screen.rs): one
  generation of a transport, its output stream with the four subscribers, the bounded
  replay and capture, the headless screen, the input lease and the state of the shell
  integration. A command is shared with its executor, so the record holds the command's
  identity and the command itself lies in the store of the broker. The terminal emulator
  (crates vt100 and vte with the filter on top of them) is a parameter.
\<close>

subsection \<open>Data\<close>

datatype (plugins only: code size) transport_kind = LocalPty | WindowsConPty | SshPty

datatype (plugins only: code size) integration_state =
    IntInitializing
  | IntReady
  | IntDegraded
  | IntUnavailable
  | IntInvalidated

datatype (plugins only: code size) close_reason =
    UserClosed
  | RemoteExit
  | TransportDisconnected
  | GenerationReplaced
  | BrokerShutdown

datatype (plugins only: code size) shell_kind =
    ShBash
  | ShZsh
  | ShWindowsPowerShell
  | ShPowerShell7
  | ShUnsupported

definition shell_supported :: "shell_kind \<Rightarrow> bool" where
  "shell_supported k \<longleftrightarrow> k \<noteq> ShUnsupported"

definition posix_shell :: "shell_kind option \<Rightarrow> bool" where
  "posix_shell k \<longleftrightarrow> k = Some ShBash \<or> k = Some ShZsh"

record geometry =
  geo_rows :: u32
  geo_columns :: u32

definition TERMINAL_MAX_DIMENSION :: u32 where "TERMINAL_MAX_DIMENSION = 1000"

definition new_geometry :: "u32 \<Rightarrow> u32 \<Rightarrow> geometry" where
  "new_geometry columns rows = \<lparr>geo_rows = min (max rows 1) TERMINAL_MAX_DIMENSION,
     geo_columns = min (max columns 1) TERMINAL_MAX_DIMENSION\<rparr>"

datatype (plugins only: code size) lease_owner =
    OwnerUser string
  | OwnerAgent string string string string \<comment> \<open>owner, Agent Session, task, operation\<close>

record lease_snapshot =
  tl_lease_id :: string
  tl_revision :: u64
  tl_owner :: lease_owner

definition is_user_owner :: "lease_owner \<Rightarrow> bool" where
  "is_user_owner w \<longleftrightarrow> (case w of OwnerUser _ \<Rightarrow> True | OwnerAgent _ _ _ _ \<Rightarrow> False)"

definition USER_OWNER_ID :: string where "USER_OWNER_ID = ''interactive-user''"
definition SYSTEM_OWNER_ID :: string where "SYSTEM_OWNER_ID = ''shellspan-runtime''"

definition user_lease :: "string \<Rightarrow> u64 \<Rightarrow> lease_snapshot" where
  "user_lease lease_id revision =
     \<lparr>tl_lease_id = lease_id, tl_revision = revision, tl_owner = OwnerUser USER_OWNER_ID\<rparr>"

datatype (plugins only: code size) subscriber_status = SubActive | SubTruncated | SubGap | SubClosed

record subscriber =
  sub_status :: subscriber_status
  sub_next_sequence :: u64
  sub_frames :: u64
  sub_bytes :: u64

definition new_subscriber :: subscriber where
  "new_subscriber = \<lparr>sub_status = SubActive, sub_next_sequence = 1, sub_frames = 0, sub_bytes = 0\<rparr>"

record subscriber_set =
  subs_display :: subscriber
  subs_capture :: subscriber
  subs_integration :: subscriber
  subs_screen :: subscriber

record 'p screen_model =
  scr_version :: u64
  scr_through :: u64
  scr_parser :: 'p

text \<open>The terminal emulator.\<close>

record 'p emulator =
  vt_new :: "u16 \<Rightarrow> u16 \<Rightarrow> 'p"
  vt_process :: "u8 list \<Rightarrow> 'p \<Rightarrow> 'p"
  vt_size :: "'p \<Rightarrow> u16 \<times> u16"
  vt_set_size :: "u16 \<Rightarrow> u16 \<Rightarrow> 'p \<Rightarrow> 'p"
  vt_content :: "'p \<Rightarrow> string list"
  vt_cursor :: "'p \<Rightarrow> u16 \<times> u16 \<times> bool"
  vt_alternate :: "'p \<Rightarrow> bool"
  vt_title :: "'p \<Rightarrow> string"
  vt_bracketed_paste :: "'p \<Rightarrow> bool"

record broker_config =
  cfg_replay_max_frames :: nat
  cfg_replay_max_bytes :: nat
  cfg_capture_max_bytes :: nat
  cfg_closed_capacity :: nat

definition default_config :: broker_config where
  "default_config = \<lparr>cfg_replay_max_frames = 512, cfg_replay_max_bytes = 1048576,
     cfg_capture_max_bytes = 262144, cfg_closed_capacity = 256\<rparr>"

definition MAX_FRAME_BYTES :: nat where "MAX_FRAME_BYTES = 262144"

record clear_pending =
  clp_operation :: string
  clp_integration :: "string option"
  clp_sequence :: u64
  clp_queued :: bool

record 'p terminal_record =
  sr_predecessors :: "string list"
  sr_terminal_id :: string
  sr_generation :: u64
  sr_transport_id :: string
  sr_transport_kind :: transport_kind
  sr_geometry :: geometry
  sr_next_output :: u64
  sr_next_offset :: u64
  sr_integration :: integration_state
  sr_integration_id :: "string option"
  sr_shell :: "shell_kind option"
  sr_integration_reason :: "string option"
  sr_event_sequence :: u64
  sr_state_revision :: u64
  sr_prompt_started :: bool
  sr_prompt_ready :: bool
  sr_native_input :: bool
  sr_native_checkpoints :: bool
  sr_native_typing :: bool
  sr_private_control :: bool
  sr_recovery_required :: bool
  sr_clear_pending :: "clear_pending option"
  sr_clear_sequence :: u64
  sr_clear_confirmed :: "string option"
  sr_clear_scope :: "(string \<times> string option) option"
  sr_native_jobs :: bool
  sr_native_comments :: bool
  sr_directory :: "string option"
  sr_command :: "string option"
  sr_input_pending :: bool
  sr_screen :: "'p screen_model option"
  sr_last_output_at :: nat
  sr_lease :: "lease_snapshot option"
  sr_next_input :: u64
  sr_listener_ready :: bool
  sr_output_paused :: bool
  sr_open :: bool
  sr_close_reason :: "close_reason option"
  sr_replay :: "output_frame list"
  sr_replay_bytes :: nat
  sr_capture :: "u8 list"
  sr_capture_truncated :: bool
  sr_subscribers :: subscriber_set

definition new_subscribers :: subscriber_set where
  "new_subscribers = \<lparr>subs_display = new_subscriber, subs_capture = new_subscriber,
     subs_integration = new_subscriber, subs_screen = new_subscriber\<rparr>"

subsection \<open>The screen\<close>

definition screen_cells :: "u32 \<Rightarrow> u16" where
  "screen_cells n = ucast (min n 65535)"

definition new_screen :: "'p emulator \<Rightarrow> geometry \<Rightarrow> 'p screen_model" where
  "new_screen vt g = \<lparr>scr_version = 1, scr_through = 0,
     scr_parser = vt_new vt (screen_cells (geo_rows g)) (screen_cells (geo_columns g))\<rparr>"

definition observe_screen ::
  "'p emulator \<Rightarrow> output_frame \<Rightarrow> 'p screen_model \<Rightarrow> ('p screen_model, broker_error, unit) outcome" where
  "observe_screen vt f s = (case checked_add (scr_version s) 1 of
     None \<Rightarrow> op_err ScreenCounterExhausted s
   | Some v \<Rightarrow> op_ok () (s\<lparr>scr_parser := vt_process vt (fr_bytes f) (scr_parser s), scr_version := v,
       scr_through := fr_sequence f\<rparr>))"

definition resize_screen ::
  "'p emulator \<Rightarrow> geometry \<Rightarrow> 'p screen_model \<Rightarrow> ('p screen_model, broker_error, bool) outcome" where
  "resize_screen vt g s =
     (let rows = screen_cells (geo_rows g); columns = screen_cells (geo_columns g) in
      if vt_size vt (scr_parser s) = (rows, columns) then op_ok False s
      else case checked_add (scr_version s) 1 of
        None \<Rightarrow> op_err ScreenCounterExhausted s
      | Some v \<Rightarrow> op_ok True
          (s\<lparr>scr_parser := vt_set_size vt rows columns (scr_parser s), scr_version := v\<rparr>))"

record screen_snapshot =
  sn_terminal_id :: string
  sn_generation :: u64
  sn_version :: u64
  sn_through :: u64
  sn_size :: "u16 \<times> u16"
  sn_cursor :: "u16 \<times> u16 \<times> bool"
  sn_alternate :: bool
  sn_title :: string
  sn_content :: "string list"

definition snapshot_screen :: "'p emulator \<Rightarrow> string \<Rightarrow> u64 \<Rightarrow> 'p screen_model \<Rightarrow> screen_snapshot" where
  "snapshot_screen vt terminal generation s = \<lparr>sn_terminal_id = terminal, sn_generation = generation,
     sn_version = scr_version s, sn_through = scr_through s, sn_size = vt_size vt (scr_parser s),
     sn_cursor = vt_cursor vt (scr_parser s), sn_alternate = vt_alternate vt (scr_parser s),
     sn_title = vt_title vt (scr_parser s), sn_content = vt_content vt (scr_parser s)\<rparr>"

subsection \<open>Subscribers\<close>

definition observe_frame :: "output_frame \<Rightarrow> subscriber \<Rightarrow> (subscriber, broker_error, unit) outcome" where
  "observe_frame f s =
     (if sub_status s = SubClosed then op_err SubscriberClosed s
      else if fr_sequence f < sub_next_sequence s then op_ok () s
      else if sub_next_sequence s < fr_sequence f then op_err OutputGap (s\<lparr>sub_status := SubGap\<rparr>)
      else
        op_bind (op_check (ok_or (checked_add (sub_next_sequence s) 1) CounterExhausted) s) (\<lambda>n s.
        let s = s\<lparr>sub_next_sequence := n\<rparr> in
        op_bind (op_check (ok_or (checked_add (sub_frames s) 1) CounterExhausted) s) (\<lambda>n s.
        let s = s\<lparr>sub_frames := n\<rparr> in
        op_bind (op_check (ok_or (checked_add (sub_bytes s) (word_of_nat (length (fr_bytes f))))
          CounterExhausted) s) (\<lambda>n s.
        op_ok () (s\<lparr>sub_bytes := n,
          sub_status := (if sub_status s = SubGap then SubActive else sub_status s)\<rparr>)))))"

definition map_subscribers :: "(subscriber \<Rightarrow> subscriber) \<Rightarrow> subscriber_set \<Rightarrow> subscriber_set" where
  "map_subscribers f s = \<lparr>subs_display = f (subs_display s), subs_capture = f (subs_capture s),
     subs_integration = f (subs_integration s), subs_screen = f (subs_screen s)\<rparr>"

definition close_subscribers :: "subscriber_set \<Rightarrow> subscriber_set" where
  "close_subscribers = map_subscribers (\<lambda>s. s\<lparr>sub_status := SubClosed\<rparr>)"

definition gap_subscribers :: "subscriber_set \<Rightarrow> subscriber_set" where
  "gap_subscribers = map_subscribers (\<lambda>s. s\<lparr>sub_status := SubGap\<rparr>)"

subsection \<open>Opening and closing a generation\<close>

text \<open>A record together with the store its command lives in.\<close>

type_synonym command_store = "string \<rightharpoonup> command_data"
type_synonym 'p cell = "'p terminal_record \<times> command_store"

definition on_record :: "('p terminal_record \<Rightarrow> 'p terminal_record) \<Rightarrow> 'p cell \<Rightarrow> 'p cell" where
  "on_record f c = (f (fst c), snd c)"

definition put_record :: "'p terminal_record \<Rightarrow> 'p cell \<Rightarrow> 'p cell" where
  "put_record r c = (r, snd c)"

definition on_command :: "string \<Rightarrow> (command_data \<Rightarrow> command_data) \<Rightarrow> 'p cell \<Rightarrow> 'p cell" where
  "on_command i f c = (fst c, (snd c)(i := map_option f (snd c i)))"

definition put_command :: "string \<Rightarrow> command_data \<Rightarrow> 'p cell \<Rightarrow> 'p cell" where
  "put_command i d c = (fst c, (snd c)(i \<mapsto> d))"

definition active_command :: "'p cell \<Rightarrow> command_data option" where
  "active_command c = Option.bind (sr_command (fst c)) (snd c)"

definition through_sequence :: "'p terminal_record \<Rightarrow> u64" where
  "through_sequence r = sat_sub (sr_next_output r) 1"

definition settle_active :: "'p cell \<Rightarrow> 'p cell" where
  "settle_active c = (case sr_command (fst c) of
     None \<Rightarrow> c
   | Some i \<Rightarrow> on_command i (\<lambda>d. snd (settle_command_uncertain (through_sequence (fst c)) d)) c)"

definition advance_revision :: "'p cell \<Rightarrow> ('p cell, broker_error, unit) outcome" where
  "advance_revision c = op_bind (op_check (next_safe (sr_state_revision (fst c))) c) (\<lambda>n c.
     op_ok () (on_record (\<lambda>r. r\<lparr>sr_state_revision := n\<rparr>) c))"

definition open_generation ::
  "'p emulator \<Rightarrow> string \<Rightarrow> u64 \<Rightarrow> string \<Rightarrow> transport_kind \<Rightarrow> geometry \<Rightarrow> bool \<Rightarrow> string \<Rightarrow> nat
    \<Rightarrow> 'p terminal_record" where
  "open_generation vt terminal generation transport kind g interactive lease_id now =
     \<lparr>sr_predecessors = [], sr_terminal_id = terminal, sr_generation = generation,
      sr_transport_id = transport, sr_transport_kind = kind, sr_geometry = g, sr_next_output = 1,
      sr_next_offset = 0, sr_integration = IntInitializing, sr_integration_id = None, sr_shell = None,
      sr_integration_reason = None, sr_event_sequence = 0, sr_state_revision = 0,
      sr_prompt_started = False, sr_prompt_ready = False, sr_native_input = False,
      sr_native_checkpoints = False, sr_native_typing = False, sr_private_control = False,
      sr_recovery_required = False, sr_clear_pending = None, sr_clear_sequence = 0,
      sr_clear_confirmed = None, sr_clear_scope = None, sr_native_jobs = False,
      sr_native_comments = False, sr_directory = None, sr_command = None, sr_input_pending = False,
      sr_screen = (if interactive then Some (new_screen vt g) else None), sr_last_output_at = now,
      sr_lease = Some (user_lease lease_id 1), sr_next_input = 1, sr_listener_ready = False,
      sr_output_paused = False, sr_open = True, sr_close_reason = None, sr_replay = [],
      sr_replay_bytes = 0, sr_capture = [], sr_capture_truncated = False,
      sr_subscribers = new_subscribers\<rparr>"

definition close_record :: "close_reason \<Rightarrow> 'p cell \<Rightarrow> ('p cell, broker_error, unit) outcome" where
  "close_record reason c =
     (let c = on_record (\<lambda>r. r\<lparr>sr_open := False, sr_close_reason := Some reason,
        sr_integration := IntInvalidated, sr_integration_id := None,
        sr_integration_reason := Some ''generationClosed'', sr_prompt_ready := False,
        sr_prompt_started := False\<rparr>) c;
          c = on_record (\<lambda>r. r\<lparr>sr_command := None\<rparr>) (settle_active c)
      in advance_revision (on_record (\<lambda>r. r\<lparr>sr_lease := None, sr_output_paused := False,
        sr_subscribers := close_subscribers (sr_subscribers r), sr_replay := [], sr_replay_bytes := 0,
        sr_capture := [], sr_screen := None\<rparr>) c))"

definition degrade_record :: "string \<Rightarrow> 'p cell \<Rightarrow> ('p cell, broker_error, unit) outcome" where
  "degrade_record reason c = advance_revision (settle_active
     (on_record (\<lambda>r. r\<lparr>sr_integration := IntDegraded, sr_integration_reason := Some reason,
        sr_integration_id := None, sr_prompt_ready := False, sr_prompt_started := False\<rparr>) c))"

subsection \<open>The output stream\<close>

record replay_batch =
  rb_frames :: "output_frame list"
  rb_through :: u64
  rb_has_more :: bool

text \<open>The frames a reader may take: a prefix within both limits.\<close>

fun take_frames :: "nat \<Rightarrow> nat \<Rightarrow> output_frame list \<Rightarrow> output_frame list" where
  "take_frames frames bytes [] = []"
| "take_frames frames bytes (f # fs) =
     (if frames = 0 \<or> bytes < length (fr_bytes f) then []
      else f # take_frames (frames - 1) (bytes - length (fr_bytes f)) fs)"

definition replay_from_record ::
  "broker_config \<Rightarrow> 'p terminal_record \<Rightarrow> u64 \<Rightarrow> nat \<Rightarrow> nat \<Rightarrow> broker_error + replay_batch" where
  "replay_from_record cfg r from_sequence max_frames max_bytes =
     (let first_retained = (case sr_replay r of [] \<Rightarrow> sr_next_output r | f # _ \<Rightarrow> fr_sequence f) in
      if from_sequence < first_retained then Inl ReplayUnavailable
      else if sr_next_output r < from_sequence then Inl OutputGap
      else let frames = take_frames (min (max max_frames 1) (cfg_replay_max_frames cfg))
               (min (max max_bytes 1) (cfg_replay_max_bytes cfg))
               (filter (\<lambda>f. from_sequence \<le> fr_sequence f) (sr_replay r));
             through = (if frames = [] then sat_sub from_sequence 1 else fr_sequence (last frames))
        in Inr \<lparr>rb_frames = frames, rb_through = through,
             rb_has_more = sat_add through 1 < sr_next_output r\<rparr>)"

fun evict_replay :: "nat \<Rightarrow> nat \<Rightarrow> nat \<Rightarrow> output_frame list \<Rightarrow> nat \<times> output_frame list" where
  "evict_replay max_frames max_bytes bytes [] = (bytes, [])"
| "evict_replay max_frames max_bytes bytes (f # fs) =
     (if max_frames < length (f # fs) \<or> max_bytes < bytes
      then evict_replay max_frames max_bytes (bytes - length (fr_bytes f)) fs
      else (bytes, f # fs))"

datatype (plugins only: code size) frame_acceptance = FrameAccepted | FrameDuplicate

definition duplicate_frame ::
  "broker_config \<Rightarrow> 'p terminal_record \<Rightarrow> output_frame \<Rightarrow> broker_error + frame_acceptance" where
  "duplicate_frame cfg r f = (case replay_from_record cfg r (fr_sequence f) 1 MAX_FRAME_BYTES of
     Inl x \<Rightarrow> Inl (if x = ReplayUnavailable then DuplicateOutsideReplayWindow else x)
   | Inr batch \<Rightarrow> (case rb_frames batch of
       [] \<Rightarrow> Inl DuplicateOutsideReplayWindow
     | g # _ \<Rightarrow> if g = f then Inr FrameDuplicate else Inl ConflictingDuplicate))"

definition next_counters :: "'p terminal_record \<Rightarrow> output_frame \<Rightarrow> broker_error + u64 \<times> u64" where
  "next_counters r f =
     try_bind (ok_or (checked_add (sr_next_output r) 1) CounterExhausted) (\<lambda>n.
     try_bind (ok_or (checked_add (sr_next_offset r) (word_of_nat (length (fr_bytes f)))) CounterExhausted) (\<lambda>k.
     if JAVASCRIPT_MAX_SAFE_INTEGER < n \<or> JAVASCRIPT_MAX_SAFE_INTEGER < k then Inl CounterExhausted
     else Inr (n, k)))"

definition observe_display :: "output_frame \<Rightarrow> 'p cell \<Rightarrow> ('p cell, broker_error, unit) outcome" where
  "observe_display f c = op_zoom (\<lambda>s. on_record (\<lambda>r. r\<lparr>sr_subscribers := (sr_subscribers r)\<lparr>subs_display := s\<rparr>\<rparr>))
     (observe_frame f (subs_display (sr_subscribers (fst c)))) c"

definition observe_capture :: "output_frame \<Rightarrow> 'p cell \<Rightarrow> ('p cell, broker_error, unit) outcome" where
  "observe_capture f c = op_zoom (\<lambda>s. on_record (\<lambda>r. r\<lparr>sr_subscribers := (sr_subscribers r)\<lparr>subs_capture := s\<rparr>\<rparr>))
     (observe_frame f (subs_capture (sr_subscribers (fst c)))) c"

definition observe_integration :: "output_frame \<Rightarrow> 'p cell \<Rightarrow> ('p cell, broker_error, unit) outcome" where
  "observe_integration f c = op_zoom (\<lambda>s. on_record (\<lambda>r. r\<lparr>sr_subscribers := (sr_subscribers r)\<lparr>subs_integration := s\<rparr>\<rparr>))
     (observe_frame f (subs_integration (sr_subscribers (fst c)))) c"

definition observe_screen_stream :: "output_frame \<Rightarrow> 'p cell \<Rightarrow> ('p cell, broker_error, unit) outcome" where
  "observe_screen_stream f c = op_zoom (\<lambda>s. on_record (\<lambda>r. r\<lparr>sr_subscribers := (sr_subscribers r)\<lparr>subs_screen := s\<rparr>\<rparr>))
     (observe_frame f (subs_screen (sr_subscribers (fst c)))) c"

definition capture_output :: "broker_config \<Rightarrow> output_frame \<Rightarrow> 'p terminal_record \<Rightarrow> 'p terminal_record" where
  "capture_output cfg f r =
     (if sr_capture_truncated r then r
      else case capture_bytes (cfg_capture_max_bytes cfg) (sr_capture r) (fr_bytes f) of
        (captured, truncated) \<Rightarrow>
          if truncated then r\<lparr>sr_capture := captured, sr_capture_truncated := True,
            sr_subscribers := (sr_subscribers r)
              \<lparr>subs_capture := (subs_capture (sr_subscribers r))\<lparr>sub_status := SubTruncated\<rparr>\<rparr>\<rparr>
          else r\<lparr>sr_capture := captured\<rparr>)"

definition observe_model ::
  "'p emulator \<Rightarrow> output_frame \<Rightarrow> 'p cell \<Rightarrow> ('p cell, broker_error, unit) outcome" where
  "observe_model vt f c = (case sr_screen (fst c) of
     None \<Rightarrow> op_ok () c
   | Some m \<Rightarrow> op_zoom (\<lambda>s. on_record (\<lambda>r. r\<lparr>sr_screen := Some s\<rparr>)) (observe_screen vt f m) c)"

definition push_replay :: "broker_config \<Rightarrow> output_frame \<Rightarrow> 'p terminal_record \<Rightarrow> 'p terminal_record" where
  "push_replay cfg f r =
     (case evict_replay (cfg_replay_max_frames cfg) (cfg_replay_max_bytes cfg)
         (sr_replay_bytes r + length (fr_bytes f)) (sr_replay r @ [f]) of
       (bytes, frames) \<Rightarrow> r\<lparr>sr_replay_bytes := bytes, sr_replay := frames\<rparr>)"

definition commit_frame ::
  "broker_config \<Rightarrow> 'p emulator \<Rightarrow> nat \<Rightarrow> output_frame \<Rightarrow> 'p cell
    \<Rightarrow> ('p cell, broker_error, frame_acceptance) outcome" where
  "commit_frame cfg vt now f c =
     op_bind (op_check (next_counters (fst c) f) c) (\<lambda>(n, k) c.
     op_bind (observe_display f c) (\<lambda>_ c.
     op_bind (observe_capture f c) (\<lambda>_ c.
     op_bind (observe_integration f (on_record (capture_output cfg f) c)) (\<lambda>_ c.
     op_bind (observe_screen_stream f c) (\<lambda>_ c.
     op_bind (observe_model vt f c) (\<lambda>_ c.
     let c = on_record (\<lambda>r. r\<lparr>sr_last_output_at := now\<rparr>) c;
         c = (case sr_command (fst c) of None \<Rightarrow> c | Some i \<Rightarrow> on_command i (capture_frame f) c)
     in op_ok FrameAccepted (on_record (\<lambda>r. push_replay cfg f
          (r\<lparr>sr_next_output := n, sr_next_offset := k\<rparr>)) c)))))))"

definition accept_raw_frame ::
  "broker_config \<Rightarrow> 'p emulator \<Rightarrow> nat \<Rightarrow> output_frame \<Rightarrow> 'p cell
    \<Rightarrow> ('p cell, broker_error, frame_acceptance) outcome" where
  "accept_raw_frame cfg vt now f c =
     (let r = fst c in
      if \<not> sr_open r then op_err GenerationClosed c
      else if fr_protocol_version f \<noteq> 1 \<or> fr_frame_type f \<noteq> ''rawOutput''
        \<or> fr_terminal_session_id f \<noteq> sr_terminal_id r \<or> fr_terminal_generation f \<noteq> sr_generation r
      then op_err FrameIdentityMismatch c
      else if fr_bytes f = [] \<or> MAX_FRAME_BYTES < length (fr_bytes f) then op_err FrameSizeInvalid c
      else if fr_sequence f < sr_next_output r then op_check (duplicate_frame cfg r f) c
      else if sr_next_output r < fr_sequence f then
        op_err OutputGap (on_record (\<lambda>r. r\<lparr>sr_subscribers := gap_subscribers (sr_subscribers r)\<rparr>) c)
      else if fr_byte_offset f \<noteq> sr_next_offset r then op_err ByteOffsetMismatch c
      else commit_frame cfg vt now f c)"

subsection \<open>Waiting\<close>

datatype (plugins only: code size) wait_reason =
    ScreenChanged
  | OutputObserved
  | LifecycleObserved
  | TextFound
  | WaitIdle
  | WaitClosed
  | WaitTimedOut

record wait_request =
  wr_after_screen :: "u64 option"
  wr_after_output :: "u64 option"
  wr_after_lifecycle :: "u64 option"
  wr_text :: "string option"
  wr_case_sensitive :: bool
  wr_idle :: "nat option"
  wr_timeout :: nat

definition past :: "u64 \<Rightarrow> u64 option \<Rightarrow> bool" where
  "past current limit \<longleftrightarrow> (case limit of None \<Rightarrow> False | Some n \<Rightarrow> n < current)"

fun row_contains :: "string \<Rightarrow> string \<Rightarrow> bool" where
  "row_contains [] needle = (needle = [])"
| "row_contains (c # cs) needle = (starts_with needle (c # cs) \<or> row_contains cs needle)"

text \<open>\<open>lower\<close> is \<open>str::to\_lowercase\<close>.\<close>

definition text_found :: "(string \<Rightarrow> string) \<Rightarrow> wait_request \<Rightarrow> screen_snapshot \<Rightarrow> bool" where
  "text_found lower q s = (case wr_text q of
     None \<Rightarrow> False
   | Some t \<Rightarrow> if wr_case_sensitive q then list_ex (\<lambda>row. row_contains row t) (sn_content s)
       else list_ex (\<lambda>row. row_contains (lower row) (lower t)) (sn_content s))"

definition terminal_wait_reason ::
  "(string \<Rightarrow> string) \<Rightarrow> nat \<Rightarrow> 'p terminal_record \<Rightarrow> screen_snapshot \<Rightarrow> wait_request \<Rightarrow> wait_reason option" where
  "terminal_wait_reason lower now r s q =
     (if text_found lower q s then Some TextFound
      else if past (sr_event_sequence r) (wr_after_lifecycle q) then Some LifecycleObserved
      else if past (sn_through s) (wr_after_output q) then Some OutputObserved
      else if past (sn_version s) (wr_after_screen q) then Some ScreenChanged
      else if (case wr_idle q of None \<Rightarrow> False | Some idle \<Rightarrow> idle \<le> now - sr_last_output_at r)
      then Some WaitIdle
      else None)"

subsection \<open>Input\<close>

datatype (plugins only: code size) input_kind =
    InputText | InputBinary | InputKey | InputPaste | InputInterrupt | InputSystemControl

datatype (plugins only: code size) input_source =
    FromUser
  | FromAgent string string string \<comment> \<open>Agent Session, task, operation\<close>
  | FromSystem string

record input_request =
  ir_terminal_id :: string
  ir_generation :: u64
  ir_lease_id :: string
  ir_sequence :: u64
  ir_source :: input_source
  ir_kind :: input_kind
  ir_bytes :: "u8 list"

record input_receipt =
  rc_terminal_id :: string
  rc_generation :: u64
  rc_lease_id :: string
  rc_sequence :: u64
  rc_owner :: string
  rc_bytes :: nat

definition source_owner :: "input_source \<Rightarrow> input_kind \<Rightarrow> lease_owner \<Rightarrow> broker_error + string" where
  "source_owner src kind w = (case src of
     FromUser \<Rightarrow> (case w of OwnerUser i \<Rightarrow> Inr i | _ \<Rightarrow> Inl BrokerLeaseIdentityMismatch)
   | FromAgent a t p \<Rightarrow> (case w of
       OwnerAgent i a' t' p' \<Rightarrow> if a = a' \<and> t = t' \<and> p = p' then Inr i else Inl BrokerLeaseIdentityMismatch
     | _ \<Rightarrow> Inl BrokerLeaseIdentityMismatch)
   | FromSystem p \<Rightarrow> (case w of
       OwnerAgent _ _ _ p' \<Rightarrow> if p = p' \<and> (kind = InputInterrupt \<or> kind = InputSystemControl)
         then Inr SYSTEM_OWNER_ID else Inl SystemControlNotScoped
     | _ \<Rightarrow> Inl SystemControlNotScoped))"

definition validate_input :: "'p terminal_record \<Rightarrow> input_request \<Rightarrow> broker_error + input_receipt" where
  "validate_input r q =
     try_bind (ensure (sr_open r) GenerationClosed) (\<lambda>_.
     try_bind (ensure (ir_terminal_id q = sr_terminal_id r \<and> ir_generation q = sr_generation r)
       StaleGeneration) (\<lambda>_.
     try_bind (ok_or (sr_lease r) BrokerLeaseUnavailable) (\<lambda>lease.
     try_bind (ensure (ir_lease_id q = tl_lease_id lease) StaleLease) (\<lambda>_.
     try_bind (ensure (ir_sequence q = sr_next_input r) StaleInput) (\<lambda>_.
     try_bind (ensure (ir_bytes q \<noteq> [] \<and> length (ir_bytes q) \<le> MAX_FRAME_BYTES) InputSizeInvalid) (\<lambda>_.
     try_bind (source_owner (ir_source q) (ir_kind q) (tl_owner lease)) (\<lambda>owner.
     Inr \<lparr>rc_terminal_id = sr_terminal_id r, rc_generation = sr_generation r,
       rc_lease_id = tl_lease_id lease, rc_sequence = ir_sequence q, rc_owner = owner,
       rc_bytes = length (ir_bytes q)\<rparr>)))))))"

definition validate_cwd :: "string \<Rightarrow> broker_error + unit" where
  "validate_cwd cwd = ensure (cwd \<noteq> [] \<and> length cwd \<le> 16384) InvalidCwd"

definition require_ready :: "'p terminal_record \<Rightarrow> broker_error + unit" where
  "require_ready r = ensure (sr_integration r = IntReady) IntegrationNotReady"

text \<open>Identifiers of the broker: letters and digits, then also dots, colons, dashes, underscores.\<close>

definition broker_identifier :: "string \<Rightarrow> string \<Rightarrow> broker_error + unit" where
  "broker_identifier v label = ensure (v \<noteq> [] \<and> length v \<le> 128 \<and> is_ascii_alphanumeric (hd v)
     \<and> list_all (\<lambda>c. is_ascii_alphanumeric c \<or> c \<in> {CHR ''.'', CHR ''_'', CHR '':'', CHR ''-''}) (tl v))
     (InvalidLabel label)"

definition integration_capabilities :: "'p terminal_record \<Rightarrow> string list" where
  "integration_capabilities r =
     (if sr_integration r \<noteq> IntReady then []
      else [''promptLifecycle'', ''commandLifecycle'', ''exactCommandLine'', ''exitStatus'', ''currentDirectory'']
        @ (if sr_native_input r \<and> sr_native_checkpoints r \<and> \<not> sr_recovery_required r
             \<and> (\<not> posix_shell (sr_shell r) \<or> sr_private_control r) then [''nativeScriptInput''] else [])
        @ (if sr_native_jobs r \<and> sr_native_checkpoints r \<and> \<not> sr_recovery_required r
           then [''nativeJobControl''] else []))"

end
