(* ===== verification/Terminal_Events.thy ===== *)
theory Terminal_Events
  imports Terminal_Record
begin

text \<open>
  What the trusted shell integration reports (terminal\_broker.rs,
  \<open>accept\_integration\_event\<close>; terminal\_integration.rs): the prompt, the start and the end of
  the command line, the modes and acknowledgements of the native line editor. One
  definition per arm; an arm answers \<open>False\<close> where the code returns before the event is
  counted. Job events need the jobs of the broker and stand with it.
\<close>

datatype (plugins only: code size) integration_event =
    EvNativeCleared u64 string
  | EvNativeCheckpoint string
  | EvPrivateControl bool
  | EvPrivateReady
  | EvPrivateCheckpoint string string
  | EvCheckpointMode bool
  | EvNativeTyping bool
  | EvJob string string "u32 option"
  | EvReady shell_kind
  | EvNativeInput bool
  | EvNativeJobs bool
  | EvNativeComments bool
  | EvInputRejected string string
  | EvInterruptUncertain
  | EvPromptStart string
  | EvPromptEnd
  | EvCommandStart string string
  | EvCommandEnd u32 string
  | EvDirectoryChanged string

type_synonym ('p, 'a) cell_outcome = "('p cell, broker_error, 'a) outcome"

text \<open>The command the record points at, with its identity.\<close>

definition with_active ::
  "'p cell \<Rightarrow> ('p, 'a) cell_outcome \<Rightarrow> (string \<Rightarrow> command_data \<Rightarrow> ('p, 'a) cell_outcome) \<Rightarrow> ('p, 'a) cell_outcome" where
  "with_active c none some = (case sr_command (fst c) of
     None \<Rightarrow> none
   | Some i \<Rightarrow> (case snd c i of None \<Rightarrow> none | Some d \<Rightarrow> some i d))"

text \<open>An operation on the command, its effect put back into the store.\<close>

definition run_command ::
  "string \<Rightarrow> (command_data, broker_error, 'a) outcome \<Rightarrow> 'p cell \<Rightarrow> ('p, 'a) cell_outcome" where
  "run_command i r c = op_zoom (put_command i) r c"

definition guard_event :: "bool \<Rightarrow> broker_error \<Rightarrow> ('p terminal_record \<Rightarrow> 'p terminal_record) \<Rightarrow> 'p cell \<Rightarrow> ('p, bool) cell_outcome" where
  "guard_event bad x f c =
     op_bind (op_check (require_ready (fst c)) c) (\<lambda>_ c.
     if bad then op_err x c else op_ok True (on_record f c))"

definition before_prompt :: "'p terminal_record \<Rightarrow> bool" where
  "before_prompt r \<longleftrightarrow> sr_prompt_started r \<and> \<not> sr_prompt_ready r"

definition on_native_typing :: "bool \<Rightarrow> 'p cell \<Rightarrow> ('p, bool) cell_outcome" where
  "on_native_typing enabled c = (let r = fst c in guard_event
     (\<not> before_prompt r \<or> enabled \<and> (\<not> sr_native_input r \<or> \<not> sr_native_checkpoints r))
     NativeTypingOutOfOrder (\<lambda>r. r\<lparr>sr_native_typing := enabled\<rparr>) c)"

definition on_private_control :: "bool \<Rightarrow> 'p cell \<Rightarrow> ('p, bool) cell_outcome" where
  "on_private_control enabled c = (let r = fst c in guard_event
     (\<not> before_prompt r \<or> enabled \<and> \<not> sr_native_input r)
     PrivateControlOutOfOrder (\<lambda>r. r\<lparr>sr_private_control := enabled\<rparr>) c)"

definition on_checkpoint_mode :: "bool \<Rightarrow> 'p cell \<Rightarrow> ('p, bool) cell_outcome" where
  "on_checkpoint_mode enabled c = (let r = fst c in guard_event
     (\<not> before_prompt r \<or> enabled \<and> \<not> sr_native_input r)
     NativeCheckpointOutOfOrder (\<lambda>r. r\<lparr>sr_native_checkpoints := enabled\<rparr>) c)"

definition on_native_input :: "bool \<Rightarrow> 'p cell \<Rightarrow> ('p, bool) cell_outcome" where
  "on_native_input enabled c = guard_event (\<not> before_prompt (fst c)) NativeInputOutOfOrder
     (\<lambda>r. r\<lparr>sr_native_input := enabled\<rparr>) c"

definition on_native_comments :: "bool \<Rightarrow> 'p cell \<Rightarrow> ('p, bool) cell_outcome" where
  "on_native_comments enabled c = guard_event (\<not> before_prompt (fst c) \<or> sr_shell (fst c) \<noteq> Some ShZsh)
     NativeInputOutOfOrder (\<lambda>r. r\<lparr>sr_native_comments := enabled\<rparr>) c"

definition on_native_jobs :: "bool \<Rightarrow> 'p cell \<Rightarrow> ('p, bool) cell_outcome" where
  "on_native_jobs enabled c = guard_event (\<not> sr_prompt_started (fst c)) JobCapabilityOutsidePrompt
     (\<lambda>r. r\<lparr>sr_native_jobs := enabled \<and> sr_private_control r\<rparr>) c"

definition on_private_ready :: "'p cell \<Rightarrow> ('p, bool) cell_outcome" where
  "on_private_ready c =
     op_bind (op_check (require_ready (fst c)) c) (\<lambda>_ c.
     with_active c (op_ok True c) (\<lambda>i d. op_ok True
       (if cmd_integration_id d = sr_integration_id (fst c) \<and> cmd_state d = CmdSubmitted
          \<and> cmd_empty_confirmed d \<and> sr_private_control (fst c) \<and> cmd_private_ready d = Some False
        then put_command i (d\<lparr>cmd_private_ready := Some True\<rparr>) c else c)))"

text \<open>\<open>str::get(n..)\<close>.\<close>

definition get_from :: "nat \<Rightarrow> string \<Rightarrow> string option" where
  "get_from n s = (if n \<le> length s \<and> is_char_boundary s n then Some (drop n s) else None)"

definition on_private_checkpoint :: "string \<Rightarrow> string \<Rightarrow> 'p cell \<Rightarrow> ('p, bool) cell_outcome" where
  "on_private_checkpoint descriptor buffer c =
     op_bind (op_check (require_ready (fst c)) c) (\<lambda>_ c.
     with_active c (op_ok True c) (\<lambda>i d.
       if cmd_integration_id d \<noteq> sr_integration_id (fst c) then op_err IntegrationIdentityMismatch c
       else if cmd_state d \<noteq> CmdSubmitted then op_ok True c
       else case cmd_private_checkpoint d of
         None \<Rightarrow> op_ok True c
       | Some (expected, expected_buffer, _) \<Rightarrow>
           if length descriptor \<noteq> 65 \<or> get_from 33 descriptor \<noteq> get_from 33 expected then op_ok False c
           else let matched = (descriptor = expected \<and> buffer = expected_buffer
                  \<and> cmd_empty_confirmed d \<and> sr_private_control (fst c));
                d = d\<lparr>cmd_private_checkpoint := Some (expected, expected_buffer, matched)\<rparr> in
             if matched then op_ok True (put_command i d c)
             else op_bind (run_command i (bump_revision (d\<lparr>cmd_state := CmdUncertain\<rparr>)) c) (\<lambda>_ c.
               op_ok True (on_record (\<lambda>r. r\<lparr>sr_recovery_required := True, sr_input_pending := True,
                   sr_native_input := False\<rparr>)
                 (on_command i (\<lambda>d. d\<lparr>cmd_input_rejection := Some ''TERMINAL_PRIVATE_CONTROL_MISMATCH''\<rparr>) c)))))"

definition on_native_cleared :: "u64 \<Rightarrow> string \<Rightarrow> 'p cell \<Rightarrow> ('p, bool) cell_outcome" where
  "on_native_cleared sequence buffer c =
     op_bind (op_check (require_ready (fst c)) c) (\<lambda>_ c. let r = fst c in
     case sr_clear_pending r of
       None \<Rightarrow> op_ok True (if sr_clear_sequence r < sequence
         then on_record (\<lambda>r. r\<lparr>sr_clear_sequence := sequence\<rparr>) c else c)
     | Some p \<Rightarrow>
         if clp_integration p \<noteq> sr_integration_id r then op_err IntegrationIdentityMismatch c
         else if clp_queued p \<and> sequence = clp_sequence p \<and> sr_clear_sequence r < sequence then
           op_ok True (on_record (\<lambda>r.
             let r = r\<lparr>sr_clear_sequence := sequence, sr_clear_pending := None, sr_clear_scope := None\<rparr> in
             if buffer = [] then r\<lparr>sr_clear_confirmed := Some (clp_operation p), sr_prompt_started := False,
               sr_prompt_ready := True, sr_input_pending := sr_recovery_required r\<rparr>
             else r\<lparr>sr_recovery_required := True, sr_input_pending := True, sr_native_input := False\<rparr>) c)
         else op_ok True c)"

definition on_native_checkpoint :: "string \<Rightarrow> 'p cell \<Rightarrow> ('p, bool) cell_outcome" where
  "on_native_checkpoint buffer c =
     op_bind (op_check (require_ready (fst c)) c) (\<lambda>_ c.
     with_active c (op_ok True c) (\<lambda>i d.
       if cmd_integration_id d \<noteq> sr_integration_id (fst c) then op_err IntegrationIdentityMismatch c
       else if cmd_state d \<noteq> CmdSubmitted then op_ok True c
       else if cmd_read_only_probe d \<and> cmd_probe_refresh d
       then op_ok True (put_command i (d\<lparr>cmd_probe_outstanding := False\<rparr>) c)
       else case cmd_checkpoint d of
         None \<Rightarrow> op_ok True c
       | Some (expected, _) \<Rightarrow>
           let initial = (expected = [] \<and> \<not> cmd_empty_confirmed d);
               matched = (expected = buffer);
               d = d\<lparr>cmd_probe_outstanding := cmd_probe_outstanding d \<and> \<not> cmd_read_only_probe d,
                 cmd_checkpoint := Some (expected, matched)\<rparr> in
           if matched then op_ok True
             (if initial
              then on_record (\<lambda>r. r\<lparr>sr_clear_scope := Some (cmd_operation_id d, sr_integration_id r)\<rparr>)
                (put_command i (d\<lparr>cmd_empty_confirmed := True\<rparr>) c)
              else put_command i d c)
           else if initial then
             op_bind (run_command i (bump_revision (d\<lparr>cmd_state := CmdFailed\<rparr>)) c) (\<lambda>_ c.
             op_ok True (on_record (\<lambda>r. r\<lparr>sr_prompt_ready := True, sr_input_pending := False\<rparr>) c))
           else
             op_bind (run_command i (bump_revision (d\<lparr>cmd_state := CmdUncertain\<rparr>)) c) (\<lambda>_ c.
             op_ok True (on_record (\<lambda>r. r\<lparr>sr_native_input := False, sr_recovery_required := True,
               sr_input_pending := True\<rparr>) c))))"

definition on_ready :: "shell_kind \<Rightarrow> 'p cell \<Rightarrow> ('p, bool) cell_outcome" where
  "on_ready shell c =
     (if sr_integration (fst c) \<noteq> IntInitializing \<or> sr_shell (fst c) \<noteq> Some shell then
        op_bind (degrade_record ''shellIdentityMismatch'' c) (\<lambda>_ c. op_err ShellIdentityMismatch c)
      else op_ok True (on_record (\<lambda>r. r\<lparr>sr_integration := IntReady, sr_integration_reason := None\<rparr>) c))"

text \<open>What a prompt does to a read-only probe of the editor: (probe, source may be enqueued).\<close>

definition refresh_probe :: "'p cell \<Rightarrow> (bool \<times> bool) \<times> 'p cell" where
  "refresh_probe c = (case sr_command (fst c) of
     None \<Rightarrow> ((False, False), c)
   | Some i \<Rightarrow> (case snd c i of
       None \<Rightarrow> ((False, False), c)
     | Some d \<Rightarrow>
         if cmd_state d = CmdSubmitted \<and> cmd_read_only_probe d \<and> \<not> cmd_source_may_be_enqueued d
         then ((True, cmd_source_may_be_enqueued d), on_record (\<lambda>r. r\<lparr>sr_clear_scope := None\<rparr>)
           (put_command i (d\<lparr>cmd_probe_refresh := True, cmd_probe_waiting_prompt := True,
              cmd_empty_confirmed := False, cmd_checkpoint := Some ([], False)\<rparr>) c))
         else ((False, cmd_source_may_be_enqueued d), c)))"

definition submitted_active :: "'p cell \<Rightarrow> bool" where
  "submitted_active c \<longleftrightarrow> (case active_command c of None \<Rightarrow> False | Some d \<Rightarrow> cmd_state d = CmdSubmitted)"

definition on_prompt_start :: "string \<Rightarrow> 'p cell \<Rightarrow> ('p, bool) cell_outcome" where
  "on_prompt_start cwd c =
     op_bind (op_check (require_ready (fst c)) c) (\<lambda>_ c.
     op_bind (op_check (validate_cwd cwd) c) (\<lambda>_ c.
     case refresh_probe c of ((probe, enqueued), c) \<Rightarrow>
     if (sr_input_pending (fst c) \<or> enqueued) \<and> \<not> probe \<and> submitted_active c then
       op_bind (degrade_record (if enqueued then ''promptDuringUnsubmittedInput:sourceMayBeEnqueued''
           else ''promptDuringUnsubmittedInput:sourceNotEnqueued'')
         (on_record (\<lambda>r. r\<lparr>sr_recovery_required := True, sr_input_pending := True,
            sr_native_input := False\<rparr>) c)) (\<lambda>_ c. op_err InputRecoveryRequired c)
     else if sr_prompt_started (fst c) then op_err PromptStartOutOfOrder c
     else op_ok True (on_record (\<lambda>r. r\<lparr>sr_directory := Some cwd, sr_prompt_started := True,
       sr_prompt_ready := False, sr_native_input := False, sr_native_checkpoints := False,
       sr_native_typing := False, sr_private_control := False, sr_native_jobs := False,
       sr_native_comments := False\<rparr>) c)))"

definition on_prompt_end :: "'p cell \<Rightarrow> ('p, bool) cell_outcome" where
  "on_prompt_end c =
     op_bind (op_check (require_ready (fst c)) c) (\<lambda>_ c.
     if \<not> sr_prompt_started (fst c) then op_err PromptEndOutOfOrder c
     else let c = on_record (\<lambda>r. r\<lparr>sr_prompt_started := False, sr_prompt_ready := True,
         sr_input_pending := sr_recovery_required r \<or> sr_clear_pending r \<noteq> None\<rparr>) c in
       with_active c (op_ok True c) (\<lambda>i d. op_ok True
         (if cmd_read_only_probe d \<and> cmd_probe_refresh d
          then put_command i (d\<lparr>cmd_probe_waiting_prompt := False\<rparr>) c else c)))"

definition on_input_rejected :: "bool \<Rightarrow> string \<Rightarrow> string \<Rightarrow> 'p cell \<Rightarrow> ('p, bool) cell_outcome" where
  "on_input_rejected prepared line reason c =
     op_bind (op_check (require_ready (fst c)) c) (\<lambda>_ c.
     if reason \<noteq> ''TERMINAL_INPUT_UNSUPPORTED'' \<and> reason \<noteq> ''TERMINAL_BACKGROUND_UNSUPPORTED''
     then op_err InvalidInputRejection c
     else op_bind (with_active c (op_ok () c) (\<lambda>i d.
         if cmd_command_line d \<noteq> line \<and> \<not> (prepared \<and> cmd_submitted_line d = Some line)
            \<or> cmd_state d \<notin> {CmdSubmitted, CmdRunning, CmdCancelRequested}
         then op_bind (degrade_record ''invalidInputRejection'' c) (\<lambda>_ c. op_err CommandLineMismatch c)
         else op_bind (run_command i (bump_revision (case cmd_requested d of
               Some q \<Rightarrow> d\<lparr>cmd_state := settled_as q\<rparr>
             | None \<Rightarrow> d\<lparr>cmd_input_rejection := Some reason, cmd_state := CmdFailed\<rparr>)) c) (\<lambda>_ c.
           op_ok () (on_command i (\<lambda>d. d\<lparr>cmd_capture_end := Some (through_sequence (fst c))\<rparr>) c))))
       (\<lambda>_ c. op_ok True (on_record (\<lambda>r. r\<lparr>sr_input_pending := True\<rparr>) c)))"

definition on_interrupt_uncertain :: "'p cell \<Rightarrow> ('p, bool) cell_outcome" where
  "on_interrupt_uncertain c =
     op_bind (op_check (require_ready (fst c)) c) (\<lambda>_ c.
     with_active c (op_ok True c) (\<lambda>i d.
       op_bind (run_command i (bump_revision (d\<lparr>cmd_interrupt_uncertain := True\<rparr>)) c) (\<lambda>_ c. op_ok True c)))"

definition on_command_start :: "string \<Rightarrow> string \<Rightarrow> 'p cell \<Rightarrow> ('p, bool) cell_outcome" where
  "on_command_start line cwd c =
     op_bind (op_check (require_ready (fst c)) c) (\<lambda>_ c.
     op_bind (op_check (validate_cwd cwd) c) (\<lambda>_ c.
     let c = on_record (\<lambda>r. r\<lparr>sr_prompt_ready := False, sr_prompt_started := False,
         sr_directory := Some cwd\<rparr>) c in
     with_active c (op_ok True c) (\<lambda>i d.
       if cmd_state d \<noteq> CmdSubmitted \<and> cmd_state d \<noteq> CmdCancelRequested then
         op_bind (degrade_record ''unexpectedCommandStart'' c) (\<lambda>_ c. op_err CommandStartOutOfOrder c)
       else if line \<noteq> (case cmd_submitted_line d of None \<Rightarrow> cmd_command_line d | Some l \<Rightarrow> l) then
         op_bind (run_command i (bump_revision (d\<lparr>cmd_state := CmdUncertain\<rparr>)) c) (\<lambda>_ c.
         op_bind (degrade_record ''exactCommandLineMismatch''
           (on_command i (\<lambda>d. d\<lparr>cmd_capture_end := Some (through_sequence (fst c))\<rparr>) c)) (\<lambda>_ c.
         op_err CommandLineMismatch c))
       else
         let d = (if cmd_state d = CmdSubmitted then d\<lparr>cmd_state := CmdRunning\<rparr> else d)\<lparr>cmd_started := True\<rparr>;
             c = on_record (\<lambda>r. r\<lparr>sr_clear_scope := None, sr_input_pending := False\<rparr>) c in
         op_bind (run_command i (bump_revision d) c) (\<lambda>_ c.
         op_ok True (on_command i (\<lambda>d. d\<lparr>cmd_cwd := Some cwd,
           cmd_capture_start := min (cmd_capture_start d) (sat_add (through_sequence (fst c)) 1)\<rparr>) c)))))"

definition on_command_end :: "u32 \<Rightarrow> string \<Rightarrow> 'p cell \<Rightarrow> ('p, bool) cell_outcome" where
  "on_command_end exit_code cwd c =
     op_bind (op_check (require_ready (fst c)) c) (\<lambda>_ c.
     op_bind (op_check (validate_cwd cwd) c) (\<lambda>_ c.
     let c = on_record (\<lambda>r. r\<lparr>sr_prompt_ready := False, sr_prompt_started := False,
         sr_directory := Some cwd\<rparr>) c in
     with_active c (op_ok True c) (\<lambda>i d.
       op_bind (run_command i (settle_command_from_integration exit_code cwd (through_sequence (fst c)) d) c)
         (\<lambda>_ c. op_ok True c))))"

definition on_directory_changed :: "string \<Rightarrow> 'p cell \<Rightarrow> ('p, bool) cell_outcome" where
  "on_directory_changed cwd c =
     op_bind (op_check (require_ready (fst c)) c) (\<lambda>_ c.
     op_bind (op_check (validate_cwd cwd) c) (\<lambda>_ c.
     op_ok True (on_record (\<lambda>r. r\<lparr>sr_directory := Some cwd\<rparr>) c)))"

definition integration_arm :: "bool \<Rightarrow> integration_event \<Rightarrow> 'p cell \<Rightarrow> ('p, bool) cell_outcome" where
  "integration_arm prepared e c = (case e of
     EvNativeTyping b \<Rightarrow> on_native_typing b c
   | EvPrivateControl b \<Rightarrow> on_private_control b c
   | EvPrivateReady \<Rightarrow> on_private_ready c
   | EvPrivateCheckpoint descriptor buffer \<Rightarrow> on_private_checkpoint descriptor buffer c
   | EvNativeCleared n buffer \<Rightarrow> on_native_cleared n buffer c
   | EvCheckpointMode b \<Rightarrow> on_checkpoint_mode b c
   | EvNativeCheckpoint buffer \<Rightarrow> on_native_checkpoint buffer c
   | EvNativeJobs b \<Rightarrow> on_native_jobs b c
   | EvJob _ _ _ \<Rightarrow> op_ok True c
   | EvReady shell \<Rightarrow> on_ready shell c
   | EvPromptStart cwd \<Rightarrow> on_prompt_start cwd c
   | EvNativeInput b \<Rightarrow> on_native_input b c
   | EvNativeComments b \<Rightarrow> on_native_comments b c
   | EvInputRejected line reason \<Rightarrow> on_input_rejected prepared line reason c
   | EvInterruptUncertain \<Rightarrow> on_interrupt_uncertain c
   | EvPromptEnd \<Rightarrow> on_prompt_end c
   | EvCommandStart line cwd \<Rightarrow> on_command_start line cwd c
   | EvCommandEnd code cwd \<Rightarrow> on_command_end code cwd c
   | EvDirectoryChanged cwd \<Rightarrow> on_directory_changed cwd c)"

text \<open>An event from the channel of the integration: checked, applied, counted.\<close>

definition accept_cell_event ::
  "string \<Rightarrow> bool \<Rightarrow> integration_event \<Rightarrow> 'p cell \<Rightarrow> ('p, bool) cell_outcome" where
  "accept_cell_event integration prepared e c =
     (if sr_integration_id (fst c) \<noteq> Some integration then op_err IntegrationIdentityMismatch c
      else op_bind (op_check (next_safe (sr_event_sequence (fst c))) c) (\<lambda>n c.
        op_bind (integration_arm prepared e c) (\<lambda>counted c.
        if \<not> counted then op_ok False c
        else op_bind (advance_revision (on_record (\<lambda>r. r\<lparr>sr_event_sequence := n\<rparr>) c)) (\<lambda>_ c.
          op_ok True c))))"

end
