(* ===== verification/Terminal_Broker.thy ===== *)
theory Terminal_Broker
  imports Terminal_Events
begin

text \<open>
  The broker of all terminals (terminal\_broker.rs, \<open>TerminalSessionBroker\<close>; terminal\_jobs.rs;
  \<open>validate\_visible\_command\_input\<close> of native\_contract/policy.rs): the transports and their
  generations, the output, the integration channel, the commands and background jobs, the
  lease of the Agent and the admission of input. Every method takes the broker's mutex for
  its whole body, so a method is one step. Fresh identifiers (\<open>Uuid::new\_v4\<close>), readings of
  the clock and the order in which a hash map of terminals is walked are arguments. The commands are shared
  with their executors: they live in the store \<open>br\_commands\<close>, under their fresh identity.
\<close>

subsection \<open>Background jobs (terminal\_jobs.rs)\<close>

record 't shell_job =
  job_handle :: string
  job_owner_target :: string
  job_agent :: string
  job_task :: string
  job_transport :: string
  job_terminal :: string
  job_generation :: u64
  job_shell :: shell_kind
  job_integration :: "string option"
  job_target :: 't
  job_operation :: string
  job_line :: string
  job_submitted :: string
  job_accepted :: "string option"
  job_control_lost :: bool
  job_active :: "bool option"
  job_state :: string
  job_exit_code :: "u32 option"
  job_observed_sequence :: u64
  job_observed_at :: u64
  job_revision :: u64
  job_capture_start :: u64
  job_cleanup_reason :: "string option"
  job_stop_requested :: bool
  job_launch_confirmed :: bool

record 't prepared_job =
  prep_job :: "'t shell_job"
  prep_source :: string
  prep_line :: string

text \<open>The parameters: the emulator, \<open>shlex::try\_quote\<close>, \<open>str::to\_lowercase\<close>.\<close>

record 'p broker_env =
  be_config :: broker_config
  be_emulator :: "'p emulator"
  be_quote :: "string \<Rightarrow> string option"
  be_lower :: "string \<Rightarrow> string"

definition NEWLINE :: char where "NEWLINE = CHR 0x0A"
definition CARRIAGE_RETURN :: char where "CARRIAGE_RETURN = CHR 0x0D"
definition TAB :: char where "TAB = CHR 0x09"

fun has_stray_control :: "string \<Rightarrow> bool" where
  "has_stray_control [] = False"
| "has_stray_control (c # cs) =
     (is_ascii_control c \<and> c \<notin> {NEWLINE, CARRIAGE_RETURN, TAB}
      \<or> byte_of c = 0xC2 \<and> (case cs of [] \<Rightarrow> False | d # _ \<Rightarrow> 0x80 \<le> byte_of d \<and> byte_of d \<le> 0x9F)
      \<or> has_stray_control cs)"

definition validate_visible_command_input :: "string \<Rightarrow> broker_error + unit" where
  "validate_visible_command_input command =
     ensure (\<not> is_blank command \<and> length command \<le> 8192 \<and> \<not> has_stray_control command) InvalidArguments"

definition strip_prefix :: "string \<Rightarrow> string \<Rightarrow> string option" where
  "strip_prefix p s = (if take (length p) s = p then Some (drop (length p) s) else None)"

definition validate_handle :: "string \<Rightarrow> broker_error + unit" where
  "validate_handle handle = ensure (case strip_prefix ''job-'' handle of
       None \<Rightarrow> False
     | Some suffix \<Rightarrow> length suffix = 32 \<and> list_all is_ascii_hexdigit suffix) JobInvalidHandle"

definition double_quotes :: "string \<Rightarrow> string" where
  "double_quotes s = concat (map (\<lambda>c. if c = CHR 0x27 then [c, c] else [c]) s)"

definition shell_submission :: "'p broker_env \<Rightarrow> string \<Rightarrow> string \<Rightarrow> shell_kind \<Rightarrow> broker_error + string" where
  "shell_submission env source handle shell =
     try_bind (validate_visible_command_input source) (\<lambda>_.
     try_bind (validate_handle handle) (\<lambda>_.
     try_bind (if shell = ShBash then
           try_bind (ok_or (be_quote env source) InputUnsupported) (\<lambda>q.
           Inr (''( '' @ handle @ '';'' @ [NEWLINE] @ ''builtin eval -- '' @ q @ [NEWLINE] @ '') &''))
         else if shell = ShZsh then
           Inr (''( '' @ handle @ '';'' @ [NEWLINE] @ source @ [NEWLINE] @ '') &'')
         else if shell = ShWindowsPowerShell \<or> shell = ShPowerShell7 then
           Inr (handle @ '' '' @ [CHR 0x27] @ double_quotes source @ [CHR 0x27])
         else Inl BackgroundUnsupported) (\<lambda>line.
     if 32768 < length line then Inl InputUnsupported else Inr line)))"

definition control_submission :: "string \<Rightarrow> shell_kind \<Rightarrow> bool \<Rightarrow> broker_error + string" where
  "control_submission handle shell stop =
     try_bind (validate_handle handle) (\<lambda>_.
     let action = (if stop then ''stop'' else ''poll'') in
     Inr (if shell = ShWindowsPowerShell \<or> shell = ShPowerShell7
       then ''& $__shellspanModule { param($h,$a) & ${function:Invoke-ShellSpanNativeJobControl} $h $a } ''
         @ [CHR 0x27] @ handle @ [CHR 0x27] @ '' '' @ [CHR 0x27] @ action @ [CHR 0x27]
       else ''__shellspan_job_control '' @ handle @ '' '' @ action))"

definition job_is_over :: "'t shell_job \<Rightarrow> bool" where
  "job_is_over j \<longleftrightarrow> job_state j = ''exited'' \<or> job_state j = ''rejected''"

text \<open>The observation of a job the current command accounts for.\<close>

definition observe_job ::
  "string \<Rightarrow> u32 option \<Rightarrow> bool \<Rightarrow> 't shell_job \<Rightarrow> broker_error + 't shell_job" where
  "observe_job observed exit_code own j =
     (if observed = ''running'' \<or> observed = ''queued'' then
        (if \<not> job_launch_confirmed j \<and> \<not> own then Inl JobStartUnconfirmed
         else Inr (j\<lparr>job_launch_confirmed := True, job_active := Some True, job_state := observed\<rparr>))
      else if observed = ''finished'' then
        Inr (j\<lparr>job_exit_code := exit_code, job_launch_confirmed := True\<rparr>)
      else if observed = ''stopRequested'' then
        Inr (j\<lparr>job_launch_confirmed := True, job_active := Some True, job_stop_requested := True,
          job_state := observed\<rparr>)
      else if observed = ''settled'' then
        (let j = j\<lparr>job_active := Some False, job_exit_code :=
              (case job_exit_code j of None \<Rightarrow> exit_code | Some c \<Rightarrow> Some c)\<rparr> in
         Inr (if job_exit_code j \<noteq> None then j\<lparr>job_state := ''exited''\<rparr>
           else j\<lparr>job_state := ''uncertain'', job_cleanup_reason :=
             Some ''native job no longer active; original exit status unavailable''\<rparr>))
      else if observed = ''terminated'' then Inr (j\<lparr>job_active := Some False, job_state := ''exited''\<rparr>)
      else
        (let j = j\<lparr>job_active := (if observed = ''stopped'' then Some True
               else if observed = ''rejected'' then Some False else None)\<rparr>;
             j = (if job_is_over j then j else j\<lparr>job_state := observed\<rparr>) in
         Inr (if observed = ''uncertain'' \<and> job_stop_requested j
               \<and> (job_shell j = ShWindowsPowerShell \<or> job_shell j = ShPowerShell7)
           then j\<lparr>job_cleanup_reason := Some
             ''PowerShell stop remains uncertain; native descendant termination has not been established''\<rparr>
           else j)))"

subsection \<open>The state of the broker\<close>

datatype (plugins only: code size) rollout_source = RolloutDefault | RolloutEnvironment

record feature_rollout =
  ft_enabled :: bool
  ft_requested :: bool
  ft_default :: bool
  ft_prerequisite :: bool
  ft_source :: rollout_source

definition new_feature :: "bool \<Rightarrow> bool \<Rightarrow> bool \<Rightarrow> rollout_source \<Rightarrow> feature_rollout" where
  "new_feature requested default_enabled prerequisite source =
     \<lparr>ft_enabled = requested \<and> prerequisite, ft_requested = requested, ft_default = default_enabled,
      ft_prerequisite = prerequisite, ft_source = source\<rparr>"

record attachment =
  at_terminal :: string
  at_generation :: u64
  at_active :: bool

record ('p, 't) broker_state =
  br_jobs :: "(string \<times> 't shell_job) list"
  br_prepared :: "string \<rightharpoonup> 't prepared_job"
  br_enabled :: bool
  br_shell :: feature_rollout
  br_execute :: feature_rollout
  br_remote_bound :: feature_rollout
  br_interactive :: feature_rollout
  br_remote_interactive :: feature_rollout
  br_sessions :: "string \<rightharpoonup> 'p terminal_record"
  br_transports :: "string \<rightharpoonup> attachment"
  br_closed_order :: "string list"
  br_commands :: command_store

type_synonym ('p, 't, 'a) broker_outcome = "(('p, 't) broker_state, broker_error, 'a) outcome"

definition current_attachment :: "('p, 't) broker_state \<Rightarrow> string \<Rightarrow> broker_error + attachment" where
  "current_attachment s transport =
     try_bind (ok_or (br_transports s transport) TransportNotFound) (\<lambda>a.
     if at_active a then Inr a else Inl StaleTransport)"

definition current_record ::
  "('p, 't) broker_state \<Rightarrow> string \<Rightarrow> attachment \<Rightarrow> broker_error + 'p terminal_record" where
  "current_record s transport a =
     try_bind (ok_or (br_sessions s (at_terminal a)) BrokerSessionNotFound) (\<lambda>r.
     if \<not> sr_open r \<or> sr_generation r \<noteq> at_generation a \<or> sr_transport_id r \<noteq> transport
     then Inl StaleGeneration else Inr r)"

text \<open>An operation on one record and the store of commands.\<close>

definition on_cell ::
  "string \<Rightarrow> 'p terminal_record \<Rightarrow> ('p cell \<Rightarrow> ('p, 'a) cell_outcome) \<Rightarrow> ('p, 't) broker_state
    \<Rightarrow> ('p, 't, 'a) broker_outcome" where
  "on_cell terminal r m s = op_zoom (\<lambda>c s. s\<lparr>br_sessions := (br_sessions s)(terminal \<mapsto> fst c),
     br_commands := snd c\<rparr>) (m (r, br_commands s)) s"

definition with_current ::
  "string \<Rightarrow> (attachment \<Rightarrow> 'p cell \<Rightarrow> ('p, 'a) cell_outcome) \<Rightarrow> ('p, 't) broker_state
    \<Rightarrow> ('p, 't, 'a) broker_outcome" where
  "with_current transport m s =
     op_bind (op_check (current_attachment s transport) s) (\<lambda>a s.
     op_bind (op_check (current_record s transport a) s) (\<lambda>r s.
     on_cell (at_terminal a) r (m a) s))"

definition record_of_transport :: "('p, 't) broker_state \<Rightarrow> string \<Rightarrow> broker_error + 'p terminal_record" where
  "record_of_transport s transport =
     try_bind (current_attachment s transport) (\<lambda>a.
     ok_or (br_sessions s (at_terminal a)) BrokerSessionNotFound)"

subsection \<open>Transports and generations\<close>

definition effective_interactive_tools :: "('p, 't) broker_state \<Rightarrow> transport_kind \<Rightarrow> bool" where
  "effective_interactive_tools s kind \<longleftrightarrow> ft_enabled (br_interactive s)
     \<and> (kind \<noteq> SshPty \<or> ft_enabled (br_remote_bound s) \<and> ft_enabled (br_remote_interactive s))"

definition forget_closed :: "string \<Rightarrow> ('p, 't) broker_state \<Rightarrow> ('p, 't) broker_state" where
  "forget_closed i s =
     (if (case br_sessions s i of None \<Rightarrow> False | Some r \<Rightarrow> \<not> sr_open r)
      then s\<lparr>br_sessions := (br_sessions s)(i := None),
        br_transports := retain (\<lambda>_ a. at_terminal a \<noteq> i) (br_transports s)\<rparr>
      else s)"

fun evict_closed :: "nat \<Rightarrow> string list \<Rightarrow> ('p, 't) broker_state \<Rightarrow> ('p, 't) broker_state" where
  "evict_closed capacity [] s = s\<lparr>br_closed_order := []\<rparr>"
| "evict_closed capacity (i # is) s =
     (if capacity < length (i # is) then evict_closed capacity is (forget_closed i s)
      else s\<lparr>br_closed_order := i # is\<rparr>)"

definition remember_closed :: "nat \<Rightarrow> string \<Rightarrow> ('p, 't) broker_state \<Rightarrow> ('p, 't) broker_state" where
  "remember_closed capacity i s =
     evict_closed capacity (filter (\<lambda>j. j \<noteq> i) (br_closed_order s) @ [i]) s"

text \<open>The generation a predecessor hands over, closing it when it is still open.\<close>

definition take_over :: "string \<Rightarrow> ('p, 't) broker_state \<Rightarrow> ('p, 't, string \<times> u64) broker_outcome" where
  "take_over predecessor s =
     op_bind (op_check (ok_or (br_transports s predecessor) PredecessorNotFound) s) (\<lambda>a s.
     op_bind (op_check (next_safe (at_generation a)) s) (\<lambda>n s.
     op_bind (op_check (ok_or (br_sessions s (at_terminal a)) BrokerSessionNotFound) s) (\<lambda>r s.
     if sr_generation r \<noteq> at_generation a then op_err StalePredecessor s
     else if sr_open r \<and> sr_transport_id r \<noteq> predecessor then op_err StalePredecessor s
     else op_bind (if sr_open r then on_cell (at_terminal a) r (close_record GenerationReplaced) s
                   else op_ok () s) (\<lambda>_ s.
       op_ok (at_terminal a, n) (s\<lparr>br_transports := (br_transports s)(predecessor :=
         map_option (\<lambda>a. a\<lparr>at_active := False\<rparr>) (br_transports s predecessor))\<rparr>)))))"

definition last_entries :: "nat \<Rightarrow> 'a list \<Rightarrow> 'a list" where
  "last_entries n xs = drop (length xs - n) xs"

definition attach_transport ::
  "'p broker_env \<Rightarrow> string \<Rightarrow> string \<Rightarrow> nat \<Rightarrow> string \<Rightarrow> string option \<Rightarrow> transport_kind \<Rightarrow> geometry
    \<Rightarrow> ('p, 't) broker_state \<Rightarrow> ('p, 't, (string \<times> u64) option) broker_outcome" where
  "attach_transport env new_terminal lease_id now transport predecessor kind g s =
     op_bind (op_check (broker_identifier transport ''transport session id'') s) (\<lambda>_ s.
     if \<not> br_enabled s then op_ok None s
     else if (case br_transports s transport of None \<Rightarrow> False | Some a \<Rightarrow> at_active a)
     then op_err TransportAlreadyAttached s
     else op_bind (case predecessor of None \<Rightarrow> op_ok (new_terminal, 1) s | Some p \<Rightarrow> take_over p s)
       (\<lambda>(terminal, generation) s.
       if JAVASCRIPT_MAX_SAFE_INTEGER < generation then op_err CounterExhausted s
       else let
           s = s\<lparr>br_transports := retain (\<lambda>_ a. at_terminal a \<noteq> terminal) (br_transports s),
               br_closed_order := filter (\<lambda>i. i \<noteq> terminal) (br_closed_order s)\<rparr>;
           predecessors = (case br_sessions s terminal of None \<Rightarrow> [] | Some r \<Rightarrow> sr_predecessors r)
             @ (case predecessor of None \<Rightarrow> [] | Some p \<Rightarrow> [p]);
           r = (open_generation (be_emulator env) terminal generation transport kind g
               (effective_interactive_tools s kind) lease_id now)
             \<lparr>sr_predecessors := last_entries 32 predecessors\<rparr>
         in op_ok (Some (terminal, generation))
           (s\<lparr>br_sessions := (br_sessions s)(terminal \<mapsto> r),
              br_transports := (br_transports s)(transport \<mapsto>
                \<lparr>at_terminal = terminal, at_generation = generation, at_active = True\<rparr>)\<rparr>)))"

definition is_replacement_transport :: "string \<Rightarrow> string \<Rightarrow> ('p, 't) broker_state \<Rightarrow> broker_error + bool" where
  "is_replacement_transport previous current s =
     try_bind (record_of_transport s current) (\<lambda>r. Inr (sr_open r \<and> previous \<in> set (sr_predecessors r)))"

definition attachment_for_transport :: "string \<Rightarrow> ('p, 't) broker_state \<Rightarrow> (string \<times> u64) option" where
  "attachment_for_transport transport s =
     (if \<not> br_enabled s then None else case br_transports s transport of
        None \<Rightarrow> None
      | Some a \<Rightarrow> if at_active a then Some (at_terminal a, at_generation a) else None)"

definition close_transport ::
  "'p broker_env \<Rightarrow> string \<Rightarrow> close_reason \<Rightarrow> ('p, 't) broker_state \<Rightarrow> ('p, 't, bool) broker_outcome" where
  "close_transport env transport reason s =
     (if \<not> br_enabled s then op_ok False s else case br_transports s transport of
        None \<Rightarrow> op_ok False s
      | Some a \<Rightarrow> (case br_sessions s (at_terminal a) of
          None \<Rightarrow> op_ok False s
        | Some r \<Rightarrow>
            if \<not> at_active a \<or> \<not> sr_open r \<or> sr_generation r \<noteq> at_generation a
              \<or> sr_transport_id r \<noteq> transport
            then op_ok False s
            else op_bind (on_cell (at_terminal a) r (close_record reason) s) (\<lambda>_ s.
              op_ok True (remember_closed (cfg_closed_capacity (be_config env)) (at_terminal a)
                (s\<lparr>br_transports := (br_transports s)(transport \<mapsto> a\<lparr>at_active := False\<rparr>)\<rparr>)))))"

text \<open>Closing many: \<open>ids\<close> is the order in which the hash map is walked.\<close>

fun close_each :: "close_reason \<Rightarrow> string list \<Rightarrow> ('p, 't) broker_state \<Rightarrow> ('p, 't, unit) broker_outcome" where
  "close_each reason [] s = op_ok () s"
| "close_each reason (i # is) s = (case br_sessions s i of
     None \<Rightarrow> close_each reason is s
   | Some r \<Rightarrow> op_bind (on_cell i r (close_record reason) s) (\<lambda>_ s. close_each reason is s))"

definition open_ids :: "string list \<Rightarrow> ('p, 't) broker_state \<Rightarrow> string list" where
  "open_ids ids s = filter (\<lambda>i. case br_sessions s i of None \<Rightarrow> False | Some r \<Rightarrow> sr_open r) ids"

definition close_all_open_generations ::
  "'p broker_env \<Rightarrow> string list \<Rightarrow> close_reason \<Rightarrow> ('p, 't) broker_state \<Rightarrow> ('p, 't, unit) broker_outcome" where
  "close_all_open_generations env ids reason s =
     (let closing = open_ids ids s in
      op_bind (close_each reason closing s) (\<lambda>_ s.
      op_ok () (foldl (\<lambda>s i. remember_closed (cfg_closed_capacity (be_config env)) i s)
        (s\<lparr>br_transports := map_option (\<lambda>a. a\<lparr>at_active := False\<rparr>) \<circ> br_transports s\<rparr>) closing)))"

definition shutdown ::
  "'p broker_env \<Rightarrow> string list \<Rightarrow> ('p, 't) broker_state \<Rightarrow> ('p, 't, unit) broker_outcome" where
  "shutdown env ids s = close_all_open_generations env ids BrokerShutdown s"

subsection \<open>Output, geometry, integration channel\<close>

text \<open>\<open>with\_current\_record\_mut\<close>.\<close>

definition update_current ::
  "string \<Rightarrow> ('p cell \<Rightarrow> ('p, unit) cell_outcome) \<Rightarrow> ('p, 't) broker_state \<Rightarrow> ('p, 't, unit) broker_outcome" where
  "update_current transport m s =
     (if \<not> br_enabled s then op_ok () s else with_current transport (\<lambda>_. m) s)"

definition observe_raw_output ::
  "'p broker_env \<Rightarrow> nat \<Rightarrow> string \<Rightarrow> u8 list \<Rightarrow> ('p, 't) broker_state
    \<Rightarrow> ('p, 't, output_frame option) broker_outcome" where
  "observe_raw_output env now transport bytes s =
     (if bytes = [] \<or> \<not> br_enabled s then op_ok None s
      else with_current transport (\<lambda>_ c. let r = fst c;
          f = \<lparr>fr_protocol_version = 1, fr_terminal_session_id = sr_terminal_id r,
            fr_terminal_generation = sr_generation r, fr_frame_type = ''rawOutput'',
            fr_sequence = sr_next_output r, fr_byte_offset = sr_next_offset r, fr_bytes = bytes\<rparr> in
        op_bind (accept_raw_frame (be_config env) (be_emulator env) now f c) (\<lambda>accepted c.
        op_ok (if accepted = FrameAccepted then Some f else None) c)) s)"

definition resize_terminal ::
  "'p broker_env \<Rightarrow> string \<Rightarrow> geometry \<Rightarrow> ('p, 't) broker_state \<Rightarrow> ('p, 't, unit) broker_outcome" where
  "resize_terminal env transport g = update_current transport (\<lambda>c.
     let c = on_record (\<lambda>r. r\<lparr>sr_geometry := g\<rparr>) c in
     case sr_screen (fst c) of
       None \<Rightarrow> op_ok () c
     | Some m \<Rightarrow> op_bind (op_zoom (\<lambda>m. on_record (\<lambda>r. r\<lparr>sr_screen := Some m\<rparr>))
         (resize_screen (be_emulator env) g m) c) (\<lambda>_ c. op_ok () c))"

definition mark_output_ready :: "string \<Rightarrow> ('p, 't) broker_state \<Rightarrow> ('p, 't, unit) broker_outcome" where
  "mark_output_ready transport = update_current transport
     (\<lambda>c. op_ok () (on_record (\<lambda>r. r\<lparr>sr_listener_ready := True\<rparr>) c))"

definition set_output_paused :: "string \<Rightarrow> bool \<Rightarrow> ('p, 't) broker_state \<Rightarrow> ('p, 't, unit) broker_outcome" where
  "set_output_paused transport paused = update_current transport
     (\<lambda>c. op_ok () (on_record (\<lambda>r. r\<lparr>sr_output_paused := paused\<rparr>) c))"

definition register_integration_channel ::
  "string \<Rightarrow> string \<Rightarrow> shell_kind \<Rightarrow> ('p, 't) broker_state \<Rightarrow> ('p, 't, unit) broker_outcome" where
  "register_integration_channel transport integration shell s =
     op_bind (op_check (broker_identifier integration ''integration id'') s) (\<lambda>_ s.
     if \<not> ft_enabled (br_shell s) then op_err IntegrationDisabled s
     else with_current transport (\<lambda>_ c.
       if \<not> shell_supported shell
       then degrade_record ''unsupportedShell'' (on_record (\<lambda>r. r\<lparr>sr_shell := Some shell\<rparr>) c)
       else advance_revision (on_record (\<lambda>r.
         let r = (if sr_clear_pending r = None
           then r\<lparr>sr_clear_sequence := 0, sr_clear_confirmed := None, sr_clear_scope := None\<rparr> else r)
         in r\<lparr>sr_integration := IntInitializing, sr_integration_id := Some integration,
           sr_shell := Some shell, sr_integration_reason := None, sr_event_sequence := 0,
           sr_prompt_started := False, sr_prompt_ready := False, sr_native_input := False,
           sr_native_checkpoints := False, sr_native_typing := False, sr_private_control := False,
           sr_native_jobs := False, sr_native_comments := False\<rparr>) c)) s)"

definition mark_integration_degraded ::
  "string \<Rightarrow> shell_kind \<Rightarrow> string \<Rightarrow> ('p, 't) broker_state \<Rightarrow> ('p, 't, unit) broker_outcome" where
  "mark_integration_degraded transport shell reason = update_current transport
     (\<lambda>c. degrade_record reason (on_record (\<lambda>r. r\<lparr>sr_shell := Some shell\<rparr>) c))"

definition mark_integration_unavailable ::
  "string \<Rightarrow> shell_kind \<Rightarrow> string \<Rightarrow> ('p, 't) broker_state \<Rightarrow> ('p, 't, unit) broker_outcome" where
  "mark_integration_unavailable transport shell reason = update_current transport
     (\<lambda>c. advance_revision (settle_active (on_record (\<lambda>r. r\<lparr>sr_shell := Some shell,
        sr_integration := IntUnavailable, sr_integration_reason := Some reason,
        sr_integration_id := None, sr_prompt_ready := False, sr_prompt_started := False\<rparr>) c)))"

definition integration_channel_closed ::
  "string \<Rightarrow> string \<Rightarrow> string \<Rightarrow> ('p, 't) broker_state \<Rightarrow> ('p, 't, unit) broker_outcome" where
  "integration_channel_closed transport integration reason s =
     (if \<not> br_enabled s \<or> \<not> is_ok (current_attachment s transport) then op_ok () s
      else with_current transport (\<lambda>_ c.
        if sr_integration_id (fst c) \<noteq> Some integration then op_ok () c
        else degrade_record reason c) s)"

subsection \<open>Integration events\<close>

definition job_event ::
  "string \<Rightarrow> string \<Rightarrow> string \<Rightarrow> string \<Rightarrow> u32 option \<Rightarrow> u64 \<Rightarrow> attachment \<Rightarrow> ('p, 't) broker_state
    \<Rightarrow> ('p, 't, unit) broker_outcome" where
  "job_event transport integration handle observed exit_code now a s =
     op_bind (op_check (current_record s transport a) s) (\<lambda>r s.
     if sr_integration_id r \<noteq> Some integration then op_err IntegrationIdentityMismatch s
     else op_bind (op_check (require_ready r) s) (\<lambda>_ s.
     let command = active_command (r, br_commands s);
         accepted = (case command of None \<Rightarrow> False
           | Some d \<Rightarrow> cmd_started d \<and> (cmd_state d = CmdRunning \<or> cmd_state d = CmdCancelRequested));
         operation = map_option cmd_operation_id command;
         fresh_control = (accepted \<and> (case Option.bind operation (br_prepared s) of
             None \<Rightarrow> False
           | Some p \<Rightarrow> job_handle (prep_job p) = handle \<and> Some (job_operation (prep_job p)) \<noteq> operation
               \<and> prep_source p = prep_line p)) in
     op_bind (op_check (ok_or (map_of (br_jobs s) handle) JobUnknown) s) (\<lambda>j s.
     if job_transport j \<noteq> transport \<or> job_generation j \<noteq> at_generation a
       \<or> job_terminal j \<noteq> at_terminal a \<or> job_integration j \<noteq> Some integration
     then op_err JobIdentityMismatch s
     else if job_is_over j \<or> job_active j = Some False \<or> job_control_lost j \<or> \<not> accepted
       \<or> operation \<noteq> Some (job_operation j) \<and> \<not> fresh_control
       \<or> job_state j = ''uncertain'' \<and> \<not> fresh_control
     then op_ok () s
     else
       let j = j\<lparr>job_observed_sequence := through_sequence r, job_observed_at := now\<rparr>;
           put = (\<lambda>j s. s\<lparr>br_jobs := AList.update handle j (br_jobs s)\<rparr>) in
       op_bind (op_check (next_safe (job_revision j)) (put j s)) (\<lambda>n s.
       let j = j\<lparr>job_revision := n\<rparr>; s = put j s in
       op_bind (op_check (observe_job observed exit_code
           (operation = Some (job_operation j) \<or> fresh_control) j) s) (\<lambda>j s.
       op_ok () (put j s))))))"

text \<open>The prepared submission of a job that a start or a rejection of the command line settles.\<close>

definition job_submission_event ::
  "string \<Rightarrow> attachment \<Rightarrow> integration_event \<Rightarrow> ('p, 't) broker_state
    \<Rightarrow> broker_error + (string \<times> string \<times> bool) option" where
  "job_submission_event transport a e s =
     (let found = (\<lambda>line rejected. try_bind (current_record s transport a) (\<lambda>r.
        Inr (Option.bind (active_command (r, br_commands s)) (\<lambda>d.
          Option.bind (br_prepared s (cmd_operation_id d)) (\<lambda>p.
          if job_operation (prep_job p) = cmd_operation_id d
          then Some (job_handle (prep_job p), line, rejected) else None)))))
      in case e of
        EvCommandStart line _ \<Rightarrow> found line False
      | EvInputRejected line _ \<Rightarrow> found line True
      | _ \<Rightarrow> Inr None)"

definition map_job :: "string \<Rightarrow> ('t shell_job \<Rightarrow> 't shell_job) \<Rightarrow> ('p, 't) broker_state \<Rightarrow> ('p, 't) broker_state" where
  "map_job handle f s = s\<lparr>br_jobs := map (\<lambda>(h, j). (h, if h = handle then f j else j)) (br_jobs s)\<rparr>"

definition settle_submission ::
  "(string \<times> string \<times> bool) option \<Rightarrow> ('p, 't) broker_state \<Rightarrow> ('p, 't) broker_state" where
  "settle_submission x s = (case x of
     None \<Rightarrow> s
   | Some (handle, line, rejected) \<Rightarrow> map_job handle (\<lambda>j.
       if rejected then j\<lparr>job_state := ''rejected'', job_active := Some False,
         job_cleanup_reason := Some ''native parser refused source before starting a job''\<rparr>
       else j\<lparr>job_accepted := Some line\<rparr>) s)"

definition accept_integration_event ::
  "string \<Rightarrow> string \<Rightarrow> u64 \<Rightarrow> integration_event \<Rightarrow> ('p, 't) broker_state \<Rightarrow> ('p, 't, unit) broker_outcome" where
  "accept_integration_event transport integration now e s =
     op_bind (op_check (current_attachment s transport) s) (\<lambda>a s.
     case e of
       EvJob handle observed code \<Rightarrow> job_event transport integration handle observed code now a s
     | _ \<Rightarrow>
       op_bind (op_check (job_submission_event transport a e s) s) (\<lambda>submission s.
       op_bind (op_check (current_record s transport a) s) (\<lambda>r s.
       op_bind (on_cell (at_terminal a) r (accept_cell_event integration (submission \<noteq> None) e) s)
         (\<lambda>counted s. op_ok () (if counted then settle_submission submission s else s)))))"

subsection \<open>Jobs\<close>

definition validate_prepared_shell_job ::
  "'p broker_env \<Rightarrow> 'p terminal_record \<Rightarrow> 't prepared_job \<Rightarrow> string \<Rightarrow> broker_error + unit" where
  "validate_prepared_shell_job env r p operation =
     (let j = prep_job p in
      try_bind (if operation = job_operation j \<and> prep_source p = job_line j
          then shell_submission env (job_line j) (job_handle j) (job_shell j)
          else try_bind (control_submission (job_handle j) (job_shell j) False) (\<lambda>poll.
            if prep_source p = poll then Inr poll
            else try_bind (control_submission (job_handle j) (job_shell j) True) (\<lambda>stop.
            if prep_source p = stop then Inr stop else Inl NativeSubmissionMismatch))) (\<lambda>expected.
      try_bind (ensure (prep_line p = expected) NativeSubmissionMismatch) (\<lambda>_.
      try_bind (require_ready r) (\<lambda>_.
      try_bind (ensure (sr_native_jobs r \<and> sr_native_checkpoints r) BackgroundUnsupported) (\<lambda>_.
      try_bind (ensure (sr_transport_id r = job_transport j \<and> sr_terminal_id r = job_terminal j
        \<and> sr_generation r = job_generation j \<and> sr_integration_id r = job_integration j) JobStaleBinding) (\<lambda>_.
      ensure (case sr_lease r of
          None \<Rightarrow> False
        | Some l \<Rightarrow> (case tl_owner l of
            OwnerAgent _ a t q \<Rightarrow> a = job_agent j \<and> t = job_task j \<and> q = operation
          | OwnerUser _ \<Rightarrow> False)) JobOwnerMismatch))))))"

definition job_values :: "('p, 't) broker_state \<Rightarrow> 't shell_job list" where
  "job_values s = map snd (br_jobs s)"

definition prepare_shell_job ::
  "'p broker_env \<Rightarrow> string \<Rightarrow> u64 \<Rightarrow> string \<Rightarrow> 't \<Rightarrow> string \<Rightarrow> string \<Rightarrow> string \<Rightarrow> string \<Rightarrow> string
    \<Rightarrow> ('p, 't) broker_state \<Rightarrow> ('p, 't, 't shell_job) broker_outcome" where
  "prepare_shell_job env handle now transport target owner agent task operation source s =
     (if 4096 \<le> length (br_jobs s) then op_err JobCapacityReached s
      else if list_ex (\<lambda>j. job_owner_target j = owner \<and> job_agent j = agent \<and> job_task j = task
        \<and> job_operation j = operation) (job_values s)
      then op_err JobLaunchAlreadyRegistered s
      else
        op_bind (op_check (current_attachment s transport) s) (\<lambda>a s.
        op_bind (op_check (current_record s transport a) s) (\<lambda>r s.
        op_bind (op_check (require_ready r) s) (\<lambda>_ s.
        if \<not> sr_native_input r \<or> \<not> sr_native_checkpoints r \<or> sr_recovery_required r
          \<or> \<not> sr_native_jobs r \<or> sr_shell r = None \<or> sr_shell r = Some ShUnsupported
        then op_err BackgroundUnsupported s
        else op_bind (op_check (ok_or (sr_shell r) IntegrationShellUnknown) s) (\<lambda>shell s.
        op_bind (op_check (shell_submission env source handle shell) s) (\<lambda>submitted s.
        let j = \<lparr>job_handle = handle, job_owner_target = owner, job_agent = agent, job_task = task,
            job_transport = transport, job_terminal = at_terminal a, job_generation = at_generation a,
            job_shell = shell, job_integration = sr_integration_id r, job_target = target,
            job_operation = operation, job_line = source, job_submitted = submitted,
            job_accepted = None, job_control_lost = False, job_active = None,
            job_state = ''starting'', job_exit_code = None,
            job_observed_sequence = through_sequence r, job_observed_at = now, job_revision = 0,
            job_capture_start = sr_next_output r, job_cleanup_reason = None,
            job_stop_requested = False, job_launch_confirmed = False\<rparr>
        in op_ok j (s\<lparr>
             br_prepared := (br_prepared s)(operation \<mapsto>
               \<lparr>prep_job = j, prep_source = source, prep_line = submitted\<rparr>),
             br_jobs := AList.update handle j (br_jobs s)\<rparr>)))))))"

definition job_is_live :: "('p, 't) broker_state \<Rightarrow> 't shell_job \<Rightarrow> bool" where
  "job_is_live s j \<longleftrightarrow> (case br_sessions s (job_terminal j) of
     None \<Rightarrow> False
   | Some r \<Rightarrow> sr_open r \<and> sr_generation r = job_generation j \<and> sr_integration r = IntReady
       \<and> sr_integration_id r = job_integration j)"

definition shell_job_of ::
  "string \<Rightarrow> string \<Rightarrow> string \<Rightarrow> string \<Rightarrow> ('p, 't) broker_state \<Rightarrow> ('p, 't, 't shell_job) broker_outcome" where
  "shell_job_of handle owner agent task s =
     op_bind (op_check (ok_or (map_of (br_jobs s) handle) JobUnknown) s) (\<lambda>j s.
     if job_owner_target j \<noteq> owner \<or> job_agent j \<noteq> agent \<or> job_task j \<noteq> task
     then op_err JobOwnerMismatch s
     else if job_is_live s j then op_ok j s
     else let j = j\<lparr>job_control_lost := True,
         job_active := (if job_active j = Some False then Some False else None),
         job_state := (if job_is_over j then job_state j else ''uncertain'')\<rparr>
       in op_ok j (s\<lparr>br_jobs := AList.update handle j (br_jobs s)\<rparr>))"

definition prepare_shell_job_control ::
  "'t shell_job \<Rightarrow> string \<Rightarrow> bool \<Rightarrow> ('p, 't) broker_state \<Rightarrow> ('p, 't, string) broker_outcome" where
  "prepare_shell_job_control job operation stop s =
     op_bind (op_check (ok_or (map_of (br_jobs s) (job_handle job)) JobUnknown) s) (\<lambda>j s.
     if job_owner_target j \<noteq> job_owner_target job \<or> job_agent j \<noteq> job_agent job
       \<or> job_task j \<noteq> job_task job \<or> job_target j \<noteq> job_target job
       \<or> job_generation j \<noteq> job_generation job \<or> job_integration j \<noteq> job_integration job
     then op_err JobOwnerMismatch s
     else if job_control_lost j \<or> job_active j = Some False \<or> job_is_over j
       \<or> job_state j = ''starting'' \<and> job_accepted j = None
     then op_err JobNotControllable s
     else op_bind (op_check (control_submission (job_handle j) (job_shell j) stop) s) (\<lambda>line s.
       op_ok line (s\<lparr>br_prepared := (br_prepared s)(operation \<mapsto>
         \<lparr>prep_job = j, prep_source = line, prep_line = line\<rparr>)\<rparr>)))"

definition prepared_input ::
  "'p broker_env \<Rightarrow> string \<Rightarrow> string \<Rightarrow> string \<Rightarrow> string \<Rightarrow> ('p, 't) broker_state
    \<Rightarrow> broker_error + 't prepared_job \<times> 'p terminal_record" where
  "prepared_input env transport operation source line s =
     try_bind (ok_or (br_prepared s operation) JobSubmissionUnregistered) (\<lambda>p.
     try_bind (ensure (prep_source p = source \<and> prep_line p = line) NativeSubmissionMismatch) (\<lambda>_.
     try_bind (current_attachment s transport) (\<lambda>a.
     try_bind (current_record s transport a) (\<lambda>r.
     try_bind (validate_prepared_shell_job env r p operation) (\<lambda>_. Inr (p, r))))))"

definition validate_shell_job_input ::
  "'p broker_env \<Rightarrow> string \<Rightarrow> string \<Rightarrow> string \<Rightarrow> string \<Rightarrow> ('p, 't) broker_state \<Rightarrow> broker_error + unit" where
  "validate_shell_job_input env transport operation source line s =
     try_bind (prepared_input env transport operation source line s) (\<lambda>_. Inr ())"

definition private_shell_job_control_descriptor ::
  "'p broker_env \<Rightarrow> string \<Rightarrow> string \<Rightarrow> string \<Rightarrow> string \<Rightarrow> string \<Rightarrow> ('p, 't) broker_state
    \<Rightarrow> broker_error + string option" where
  "private_shell_job_control_descriptor env nonce transport operation source line s =
     try_bind (prepared_input env transport operation source line s) (\<lambda>(p, r).
     let j = prep_job p in
     if operation = job_operation j then Inr None
     else try_bind (ensure (sr_private_control r) BackgroundUnsupported) (\<lambda>_.
       try_bind (control_submission (job_handle j) (job_shell j) True) (\<lambda>stop.
       try_bind (ok_or (strip_prefix ''job-'' (job_handle j)) JobInvalidHandle) (\<lambda>suffix.
       Inr (Some ((if line = stop then CHR ''s'' else CHR ''p'') # suffix @ nonce))))))"

definition discard_shell_job_submission :: "string \<Rightarrow> ('p, 't) broker_state \<Rightarrow> ('p, 't) broker_state" where
  "discard_shell_job_submission operation s = s\<lparr>br_prepared := (br_prepared s)(operation := None)\<rparr>"

definition reject_unsubmitted_shell_job :: "string \<Rightarrow> ('p, 't) broker_state \<Rightarrow> ('p, 't) broker_state" where
  "reject_unsubmitted_shell_job operation s = (case br_prepared s operation of
     None \<Rightarrow> s
   | Some p \<Rightarrow>
       if job_operation (prep_job p) = operation \<and> prep_source p = job_line (prep_job p)
       then map_job (job_handle (prep_job p)) (\<lambda>j. j\<lparr>job_state := ''rejected'', job_active := Some False,
         job_cleanup_reason := Some ''launch cancelled before native accept-line; no source submitted''\<rparr>) s
       else s)"

definition mark_shell_job_uncertain :: "string \<Rightarrow> ('p, 't) broker_state \<Rightarrow> ('p, 't, unit) broker_outcome" where
  "mark_shell_job_uncertain handle s =
     op_bind (op_check (ok_or (map_of (br_jobs s) handle) JobUnknown) s) (\<lambda>j s.
     op_ok () (if job_is_over j then s else map_job handle (\<lambda>j. j\<lparr>job_state := ''uncertain''\<rparr>) s))"

definition shell_jobs_for_cleanup :: "string option \<Rightarrow> ('p, 't) broker_state \<Rightarrow> 't shell_job list" where
  "shell_jobs_for_cleanup task s = filter (\<lambda>j. (task = None \<or> task = Some (job_task j))
     \<and> \<not> job_is_over j \<and> \<not> job_control_lost j \<and> job_active j \<noteq> Some False) (job_values s)"

definition has_active_shell_jobs :: "string \<Rightarrow> ('p, 't) broker_state \<Rightarrow> broker_error + bool" where
  "has_active_shell_jobs transport s =
     try_bind (current_attachment s transport) (\<lambda>a.
     try_bind (ok_or (br_sessions s (at_terminal a)) BrokerSessionNotFound) (\<lambda>r.
     Inr (list_ex (\<lambda>j. job_terminal j = at_terminal a \<and> job_generation j = at_generation a
       \<and> job_integration j = sr_integration_id r \<and> \<not> job_control_lost j
       \<and> job_active j \<noteq> Some False \<and> \<not> job_is_over j) (job_values s))))"

definition record_shell_job_cleanup ::
  "string \<Rightarrow> string \<Rightarrow> ('p, 't) broker_state \<Rightarrow> ('p, 't, unit) broker_outcome" where
  "record_shell_job_cleanup handle reason s =
     op_bind (op_check (ok_or (map_of (br_jobs s) handle) JobUnknown) s) (\<lambda>j s.
     op_ok () (if job_is_over j \<or> job_active j = Some False then s
       else map_job handle (\<lambda>j. j\<lparr>job_cleanup_reason := Some reason, job_state := ''uncertain''\<rparr>) s))"

subsection \<open>Commands\<close>

definition bash_native_submission :: "'p broker_env \<Rightarrow> string \<Rightarrow> broker_error + string" where
  "bash_native_submission env source =
     (if 8192 < length source then Inl InputUnsupported
      else try_bind (ok_or (be_quote env source) InputUnsupported) (\<lambda>q.
        Inr (''(exit '' @ [CHR 0x22] @ ''$?'' @ [CHR 0x22] @ ''); builtin eval -- '' @ q)))"

definition matches_bash_source ::
  "'p broker_env \<Rightarrow> 'p terminal_record \<Rightarrow> string \<Rightarrow> string \<Rightarrow> broker_error + bool" where
  "matches_bash_source env r line submitted =
     (if sr_shell r \<noteq> Some ShBash then Inr False
      else try_bind (bash_native_submission env line) (\<lambda>expected.
        Inr (submitted = expected \<and> (sr_native_input r
          \<or> length line \<le> 512 \<and> list_all (\<lambda>c. c \<notin> {NEWLINE, CARRIAGE_RETURN, TAB}) line))))"

text \<open>What a command line that is not typed verbatim has to match.\<close>

definition check_submission ::
  "'p broker_env \<Rightarrow> 'p terminal_record \<Rightarrow> 't prepared_job option \<Rightarrow> string \<Rightarrow> string \<Rightarrow> string option
    \<Rightarrow> broker_error + unit" where
  "check_submission env r prepared operation line submitted = (case submitted of
     None \<Rightarrow> Inr ()
   | Some sub \<Rightarrow>
       let job_matches = (case prepared of None \<Rightarrow> False
           | Some p \<Rightarrow> prep_source p = line \<and> prep_line p = sub) in
       try_bind (case prepared of None \<Rightarrow> Inr () | Some p \<Rightarrow> validate_prepared_shell_job env r p operation) (\<lambda>_.
       try_bind (matches_bash_source env r line sub) (\<lambda>bash.
       ensure (\<not> (job_matches \<and> \<not> sr_native_input r \<or> \<not> job_matches \<and> \<not> bash)) NativeSubmissionMismatch)))"

definition agent_operation :: "'p terminal_record \<Rightarrow> string option" where
  "agent_operation r = Option.bind (sr_lease r) (\<lambda>l. case tl_owner l of
     OwnerAgent _ _ _ operation \<Rightarrow> Some operation | OwnerUser _ \<Rightarrow> None)"

definition begin_command ::
  "'p broker_env \<Rightarrow> string \<Rightarrow> string \<Rightarrow> string \<Rightarrow> string \<Rightarrow> string option \<Rightarrow> ('p, 't) broker_state
    \<Rightarrow> ('p, 't, string) broker_outcome" where
  "begin_command env command_id transport operation line submitted s =
     op_bind (op_check (broker_identifier operation ''operation id'') s) (\<lambda>_ s.
     if \<not> ft_enabled (br_execute s) then op_err ExecuteDisabled s
     else let prepared = br_prepared s operation; remote = ft_enabled (br_remote_bound s) in
     if prepared \<noteq> None \<and> submitted = None then op_err NativeSubmissionMismatch s
     else with_current transport (\<lambda>_ c. let r = fst c in
       if sr_transport_kind r = SshPty \<and> \<not> remote then op_err VisibleCommandUnavailable c
       else if sr_integration r \<noteq> IntReady \<or> \<not> sr_prompt_ready r then op_err IntegrationNotReady c
       else if sr_recovery_required r \<or> sr_clear_pending r \<noteq> None then op_err InputRecoveryRequired c
       else op_bind (op_check (check_submission env r prepared operation line submitted) c) (\<lambda>_ c.
         if sr_command r \<noteq> None then op_err CommandBusy c
         else if sr_lease r = None then op_err BrokerLeaseUnavailable c
         else if agent_operation r \<noteq> Some operation then op_err BrokerLeaseIdentityMismatch c
         else
           let d = (new_command command_id (sr_terminal_id r) (sr_generation r) operation line
               (sr_integration_id r) (sr_next_output r) (cfg_capture_max_bytes (be_config env)))
             \<lparr>cmd_submitted_line := submitted\<rparr>;
             c = on_record (\<lambda>r. r\<lparr>sr_command := Some command_id, sr_clear_scope := None,
               sr_prompt_ready := False\<rparr>) (put_command command_id d c) in
           op_bind (advance_revision c) (\<lambda>_ c. op_ok command_id c))) s)"

definition owns_record :: "string \<Rightarrow> 'p terminal_record \<Rightarrow> bool" where
  "owns_record operation r \<longleftrightarrow> agent_operation r = Some operation"

definition require_native_input_recovery ::
  "string \<Rightarrow> string \<Rightarrow> ('p, 't) broker_state \<Rightarrow> ('p, 't, unit) broker_outcome" where
  "require_native_input_recovery transport operation = with_current transport (\<lambda>_ c.
     if \<not> owns_record operation (fst c) then op_err BrokerLeaseIdentityMismatch c
     else op_ok () (on_record (\<lambda>r. r\<lparr>sr_recovery_required := True, sr_input_pending := True\<rparr>) c))"

definition expect_native_clear ::
  "string \<Rightarrow> string \<Rightarrow> ('p, 't) broker_state \<Rightarrow> ('p, 't, unit) broker_outcome" where
  "expect_native_clear transport operation = with_current transport (\<lambda>_ c.
     op_bind (op_check (require_ready (fst c)) c) (\<lambda>_ c. let r = fst c in
     if \<not> sr_native_checkpoints r \<or> \<not> posix_shell (sr_shell r)
       \<or> sr_clear_scope r \<noteq> Some (operation, sr_integration_id r) \<or> \<not> owns_record operation r
     then op_err InputRecoveryRequired c
     else if sr_clear_pending r \<noteq> None then op_err InputRecoveryRequired c
     else op_bind (op_check (next_safe (sr_clear_sequence r)) c) (\<lambda>n c.
       op_ok () (on_record (\<lambda>r. r\<lparr>sr_clear_pending := Some \<lparr>clp_operation = operation,
           clp_integration = sr_integration_id r, clp_sequence = n, clp_queued = False\<rparr>,
         sr_clear_confirmed := None, sr_input_pending := True, sr_prompt_ready := False\<rparr>) c))))"

text \<open>The condition a wait for a cleared editor blocks on, and its answer.\<close>

definition native_clear_waits ::
  "attachment \<Rightarrow> string option \<Rightarrow> string \<Rightarrow> ('p, 't) broker_state \<Rightarrow> bool" where
  "native_clear_waits a integration operation s \<longleftrightarrow> (case br_sessions s (at_terminal a) of
     None \<Rightarrow> False
   | Some r \<Rightarrow> sr_generation r = at_generation a \<and> sr_integration_id r = integration
       \<and> map_option clp_operation (sr_clear_pending r) = Some operation)"

definition wait_native_clear ::
  "attachment \<Rightarrow> string option \<Rightarrow> string \<Rightarrow> ('p, 't) broker_state \<Rightarrow> bool" where
  "wait_native_clear a integration operation s \<longleftrightarrow> (case br_sessions s (at_terminal a) of
     None \<Rightarrow> False
   | Some r \<Rightarrow> sr_open r \<and> sr_generation r = at_generation a \<and> sr_integration_id r = integration
       \<and> sr_clear_confirmed r = Some operation)"

definition mark_command_uncertain ::
  "string \<Rightarrow> string \<Rightarrow> ('p, 't) broker_state \<Rightarrow> ('p, 't, bool) broker_outcome" where
  "mark_command_uncertain transport command_id = with_current transport (\<lambda>_ c.
     with_active c (op_ok False c) (\<lambda>i d.
       if cmd_command_id d \<noteq> command_id then op_err CommandIdentityMismatch c
       else case settle_command_uncertain (through_sequence (fst c)) d of
         (changed, d) \<Rightarrow> op_ok changed (put_command i d c)))"

definition retire_command ::
  "string \<Rightarrow> string \<Rightarrow> ('p, 't) broker_state \<Rightarrow> ('p, 't, unit) broker_outcome" where
  "retire_command transport command_id = with_current transport (\<lambda>_ c.
     with_active c (op_ok () c) (\<lambda>i d.
       if cmd_command_id d \<noteq> command_id then op_err CommandIdentityMismatch c
       else op_ok () (on_record (\<lambda>r. (if \<not> cmd_started d \<and> \<not> sr_input_pending r
             then r\<lparr>sr_prompt_ready := (sr_integration r = IntReady)\<rparr> else r)\<lparr>sr_command := None\<rparr>)
           (put_command i (finalize_capture (through_sequence (fst c)) d) c))))"

text \<open>What the executor does to the command it shares with the broker.\<close>

definition on_shared_command ::
  "string \<Rightarrow> (command_data \<Rightarrow> (command_data, broker_error, 'a) outcome) \<Rightarrow> ('p, 't) broker_state
    \<Rightarrow> ('p, 't, 'a option) broker_outcome" where
  "on_shared_command i f s = (case br_commands s i of
     None \<Rightarrow> op_ok None s
   | Some d \<Rightarrow> op_bind (op_zoom (\<lambda>d s. s\<lparr>br_commands := (br_commands s)(i \<mapsto> d)\<rparr>) (f d) s)
       (\<lambda>a s. op_ok (Some a) s))"

subsection \<open>The lease and the input\<close>

definition next_lease ::
  "string \<Rightarrow> lease_owner \<Rightarrow> lease_snapshot \<Rightarrow> broker_error + lease_snapshot" where
  "next_lease lease_id owner l = try_bind (next_safe (tl_revision l)) (\<lambda>n.
     Inr \<lparr>tl_lease_id = lease_id, tl_revision = n, tl_owner = owner\<rparr>)"

definition acquire_agent_lease ::
  "bool \<Rightarrow> string \<Rightarrow> string \<Rightarrow> string \<Rightarrow> string \<Rightarrow> string \<Rightarrow> ('p, 't) broker_state
    \<Rightarrow> ('p, 't, lease_snapshot option) broker_outcome" where
  "acquire_agent_lease interactive lease_id transport agent task operation s =
     op_bind (op_check (broker_identifier agent ''Agent Session id'') s) (\<lambda>_ s.
     op_bind (op_check (broker_identifier task ''task id'') s) (\<lambda>_ s.
     op_bind (op_check (broker_identifier operation ''operation id'') s) (\<lambda>_ s.
     if \<not> br_enabled s then op_ok None s
     else with_current transport (\<lambda>_ c. let r = fst c in
       if interactive \<and> (\<not> ft_enabled (br_interactive s)
           \<or> sr_transport_kind r = SshPty \<and> \<not> ft_enabled (br_remote_interactive s))
       then op_err InteractiveToolsDisabled c
       else if interactive \<and> (\<not> sr_open r \<or> sr_integration r \<noteq> IntReady \<or> sr_command r \<noteq> None)
       then op_err InteractiveNotAtShellBoundary c
       else if sr_clear_pending r \<noteq> None \<or> sr_recovery_required r then op_err InputRecoveryRequired c
       else if sr_transport_kind r = SshPty
         \<and> (\<not> ft_enabled (br_remote_bound s) \<or> sr_integration r \<noteq> IntReady)
       then op_err VisibleCommandUnavailable c
       else if sr_transport_kind r = SshPty \<and> \<not> interactive \<and> (\<not> sr_prompt_ready r \<or> sr_command r \<noteq> None)
       then op_err VisibleCommandBusy c
       else op_bind (op_check (ok_or (sr_lease r) BrokerLeaseUnavailable) c) (\<lambda>l c.
         if \<not> is_user_owner (tl_owner l) then op_err BrokerLeaseBusy c
         else op_bind (op_check (next_lease lease_id (OwnerAgent agent agent task operation) l) c) (\<lambda>l c.
           op_ok (Some l) (on_record (\<lambda>r. r\<lparr>sr_lease := Some l\<rparr>) c)))) s)))"

definition release_agent_lease ::
  "string \<Rightarrow> string \<Rightarrow> string \<Rightarrow> string \<Rightarrow> string \<Rightarrow> ('p, 't) broker_state \<Rightarrow> ('p, 't, bool) broker_outcome" where
  "release_agent_lease lease_id transport agent task operation s =
     (if \<not> br_enabled s then op_ok False s
      else with_current transport (\<lambda>_ c.
        op_bind (op_check (ok_or (sr_lease (fst c)) BrokerLeaseUnavailable) c) (\<lambda>l c.
        case tl_owner l of
          OwnerUser _ \<Rightarrow> op_ok False c
        | OwnerAgent _ a t q \<Rightarrow>
            if a \<noteq> agent \<or> t \<noteq> task \<or> q \<noteq> operation then op_err BrokerLeaseIdentityMismatch c
            else op_bind (op_check (next_lease lease_id (OwnerUser USER_OWNER_ID) l) c) (\<lambda>l c.
              op_ok True (on_record (\<lambda>r. r\<lparr>sr_lease := Some l\<rparr>) c)))) s)"

definition CLEAR_EDITOR :: "u8 list" where "CLEAR_EDITOR = [0x18, 0x04]"
definition PROBE_EDITOR :: "u8 list" where "PROBE_EDITOR = [0x18, 0x01]"
definition FRAME_EDITOR :: "u8 list" where "FRAME_EDITOR = [0x18, 0x02]"
definition ACCEPT_LINE :: "u8 list" where "ACCEPT_LINE = [0x18, 0x05]"
definition INTERRUPT :: "u8 list" where "INTERRUPT = [3]"

definition enter_key :: "u8 list \<Rightarrow> bool" where
  "enter_key bytes \<longleftrightarrow> bytes = [10] \<or> bytes = [13]"

definition is_agent_source :: "input_source \<Rightarrow> bool" where
  "is_agent_source src \<longleftrightarrow> (case src of FromAgent _ _ _ \<Rightarrow> True | _ \<Rightarrow> False)"

definition is_system_source :: "input_source \<Rightarrow> bool" where
  "is_system_source src \<longleftrightarrow> (case src of FromSystem _ \<Rightarrow> True | _ \<Rightarrow> False)"

definition source_operation :: "input_source \<Rightarrow> string option" where
  "source_operation src = (case src of FromUser \<Rightarrow> None | FromAgent _ _ q \<Rightarrow> Some q | FromSystem q \<Rightarrow> Some q)"

text \<open>What holds whatever the rollout says: a half-typed command is not exposed to other input.\<close>

definition recovery_gate :: "input_source \<Rightarrow> u8 list \<Rightarrow> 'p cell \<Rightarrow> broker_error + unit" where
  "recovery_gate src bytes c =
     (let r = fst c;
          owned_clear = (bytes = CLEAR_EDITOR \<and> (case src of
            FromSystem q \<Rightarrow> map_option clp_operation (sr_clear_pending r) = Some q | _ \<Rightarrow> False)) in
      try_bind (ensure (\<not> (bytes = CLEAR_EDITOR \<and> is_system_source src \<and> \<not> owned_clear)) SystemControlNotScoped) (\<lambda>_.
      try_bind (ensure (\<not> (sr_recovery_required r \<and> bytes \<noteq> INTERRUPT \<and> \<not> owned_clear)) InputRecoveryRequired) (\<lambda>_.
      ensure (\<not> (sr_input_pending r \<and> bytes \<noteq> INTERRUPT \<and> \<not> owned_clear
        \<and> \<not> (is_agent_source src \<and> submitted_active c))) InputRecoveryRequired)))"

definition gate_input :: "string \<Rightarrow> input_source \<Rightarrow> u8 list \<Rightarrow> ('p, 't) broker_state \<Rightarrow> broker_error + unit" where
  "gate_input transport src bytes s = (case br_transports s transport of
     None \<Rightarrow> Inr ()
   | Some a \<Rightarrow> (case br_sessions s (at_terminal a) of
       None \<Rightarrow> Inr ()
     | Some r \<Rightarrow> recovery_gate src bytes (r, br_commands s)))"

definition admission_checks ::
  "'p broker_env \<Rightarrow> 't prepared_job option \<Rightarrow> bool \<Rightarrow> bool \<Rightarrow> input_source \<Rightarrow> 'p terminal_record \<Rightarrow> broker_error + unit" where
  "admission_checks env prepared remote execute src r =
     try_bind (case (prepared, source_operation src) of
         (Some p, Some q) \<Rightarrow> validate_prepared_shell_job env r p q | _ \<Rightarrow> Inr ()) (\<lambda>_.
     try_bind (ensure (\<not> (src \<noteq> FromUser \<and> sr_transport_kind r = SshPty \<and> \<not> remote)) VisibleCommandUnavailable) (\<lambda>_.
     try_bind (ensure (\<not> (sr_command r \<noteq> None \<and> \<not> execute)) ExecuteDisabled) (\<lambda>_.
     ensure (\<not> (src \<noteq> FromUser \<and> sr_transport_kind r = SshPty \<and> sr_integration r \<noteq> IntReady)) IntegrationNotReady)))"

text \<open>What the record keeps of input that was written; \<open>typing\<close> and \<open>probe\<close> were read before.\<close>

definition after_write ::
  "input_source \<Rightarrow> u8 list \<Rightarrow> bool \<Rightarrow> bool \<Rightarrow> bool \<Rightarrow> u64 \<Rightarrow> 'p cell \<Rightarrow> ('p, unit) cell_outcome" where
  "after_write src bytes typing probe user_submission next_input c =
     (let c = on_record (\<lambda>r.
          let r = (if bytes = CLEAR_EDITOR \<and> is_system_source src
                then r\<lparr>sr_clear_pending := map_option (\<lambda>p. p\<lparr>clp_queued := True\<rparr>) (sr_clear_pending r)\<rparr> else r);
              r = (if typing \<and> \<not> probe then r\<lparr>sr_input_pending := True\<rparr> else r)
          in if is_agent_source src \<and> (bytes = ACCEPT_LINE \<or> enter_key bytes)
             then r\<lparr>sr_clear_scope := None\<rparr> else r) c in
      op_bind (if user_submission
          then advance_revision (on_record (\<lambda>r. r\<lparr>sr_prompt_ready := False\<rparr>) c) else op_ok () c) (\<lambda>_ c.
      op_ok () (on_record (\<lambda>r. r\<lparr>sr_next_input := next_input\<rparr>) c)))"

definition admit_cell ::
  "'p broker_env \<Rightarrow> 't prepared_job option \<Rightarrow> bool \<Rightarrow> bool \<Rightarrow> input_source \<Rightarrow> input_kind \<Rightarrow> u8 list \<Rightarrow> bool
    \<Rightarrow> 'p cell \<Rightarrow> ('p, input_receipt option) cell_outcome" where
  "admit_cell env prepared remote execute src kind bytes written c =
     op_bind (op_check (admission_checks env prepared remote execute src (fst c)) c) (\<lambda>_ c.
     op_bind (op_check (ok_or (sr_lease (fst c)) BrokerLeaseUnavailable) c) (\<lambda>lease c. let r = fst c in
     op_bind (op_check (validate_input r \<lparr>ir_terminal_id = sr_terminal_id r, ir_generation = sr_generation r,
       ir_lease_id = tl_lease_id lease, ir_sequence = sr_next_input r, ir_source = src, ir_kind = kind,
       ir_bytes = bytes\<rparr>) c) (\<lambda>receipt c.
     op_bind (op_check (next_safe (sr_next_input r)) c) (\<lambda>next_input c.
     let probe = (bytes = PROBE_EDITOR \<and> (case active_command c of
           None \<Rightarrow> False
         | Some d \<Rightarrow> cmd_read_only_probe d \<and> \<not> cmd_source_may_be_enqueued d
             \<and> (case cmd_checkpoint d of None \<Rightarrow> False | Some (prefix, _) \<Rightarrow> prefix = [])));
         user_submission = (src = FromUser \<and> sr_prompt_ready r \<and> enter_key bytes);
         typing = (is_agent_source src \<and> submitted_active c);
         c = (case sr_command r of
             Some i \<Rightarrow> if is_agent_source src \<and> bytes \<noteq> PROBE_EDITOR \<and> bytes \<noteq> FRAME_EDITOR
               then on_command i (\<lambda>d. d\<lparr>cmd_source_may_be_enqueued := True\<rparr>) c else c
           | None \<Rightarrow> c) in
     if \<not> written then op_err TransportWriteFailed c
     else op_bind (after_write src bytes typing probe user_submission next_input c) (\<lambda>_ c.
       op_ok (Some receipt) c)))))"

text \<open>\<open>written\<close> is whether the transport took the bytes.\<close>

definition admit_terminal_input ::
  "'p broker_env \<Rightarrow> string \<Rightarrow> input_source \<Rightarrow> input_kind \<Rightarrow> u8 list \<Rightarrow> bool \<Rightarrow> ('p, 't) broker_state
    \<Rightarrow> ('p, 't, input_receipt option) broker_outcome" where
  "admit_terminal_input env transport src kind bytes written s =
     op_bind (op_check (gate_input transport src bytes s) s) (\<lambda>_ s.
     if \<not> br_enabled s then (if written then op_ok None s else op_err TransportWriteFailed s)
     else with_current transport (\<lambda>_. admit_cell env (Option.bind (source_operation src) (br_prepared s))
       (ft_enabled (br_remote_bound s)) (ft_enabled (br_execute s)) src kind bytes written) s)"

end
