(* ===== verification/Terminal_Rollout.thy ===== *)
theory Terminal_Rollout
  imports Terminal_Broker
begin

text \<open>
  The feature flags of the broker and its views (terminal\_broker.rs): the values read from
  the environment, what a rollback does to the open terminals, the route of a visible
  command, the readers of the record, one poll of a wait.
\<close>

subsection \<open>Flags from the environment\<close>

datatype (plugins only: code size) env_value = EnvValue string | EnvMissing | EnvNotUnicode

definition parse_rollout_value :: "string \<Rightarrow> bool option" where
  "parse_rollout_value v = (let w = map to_ascii_lower (trim_text v) in
     if w = ''1'' \<or> w = ''true'' \<or> w = ''on'' then Some True
     else if w = ''0'' \<or> w = ''false'' \<or> w = ''off'' then Some False else None)"

definition rollout_value ::
  "env_value \<Rightarrow> bool \<Rightarrow> broker_error + bool \<times> rollout_source" where
  "rollout_value v default_enabled = (case v of
     EnvValue s \<Rightarrow> try_bind (ok_or (parse_rollout_value s) InvalidArguments) (\<lambda>b.
       Inr (b, RolloutEnvironment))
   | EnvMissing \<Rightarrow> Inr (default_enabled, RolloutDefault)
   | EnvNotUnicode \<Rightarrow> Inl InvalidArguments)"

definition rollout_value_with_alias ::
  "(string \<Rightarrow> env_value) \<Rightarrow> string \<Rightarrow> string \<Rightarrow> bool \<Rightarrow> broker_error + bool \<times> rollout_source" where
  "rollout_value_with_alias read name legacy default_enabled =
     (if read name = EnvMissing then rollout_value (read legacy) default_enabled
      else rollout_value (read name) default_enabled)"

subsection \<open>Rollback\<close>

fun on_each ::
  "('p terminal_record \<Rightarrow> bool) \<Rightarrow> ('p cell \<Rightarrow> ('p, unit) cell_outcome) \<Rightarrow> string list \<Rightarrow> ('p, 't) broker_state
    \<Rightarrow> ('p, 't, unit) broker_outcome" where
  "on_each P m [] s = op_ok () s"
| "on_each P m (i # is) s = (case br_sessions s i of
     None \<Rightarrow> on_each P m is s
   | Some r \<Rightarrow> if P r then op_bind (on_cell i r m s) (\<lambda>_ s. on_each P m is s) else on_each P m is s)"

definition settle_cell :: "'p cell \<Rightarrow> ('p, unit) cell_outcome" where
  "settle_cell c = op_ok () (settle_active c)"

definition revoke_cell :: "string \<Rightarrow> 'p cell \<Rightarrow> ('p, unit) cell_outcome" where
  "revoke_cell lease_id c = (let c = settle_active c in
     case sr_lease (fst c) of
       None \<Rightarrow> op_ok () c
     | Some l \<Rightarrow> if is_user_owner (tl_owner l) then op_ok () c
         else op_bind (op_check (next_lease lease_id (OwnerUser USER_OWNER_ID) l) c) (\<lambda>l c.
           op_ok () (on_record (\<lambda>r. r\<lparr>sr_lease := Some l\<rparr>) c)))"

record rollout_request =
  rq_broker :: bool
  rq_integration :: "bool \<times> rollout_source"
  rq_execute :: "bool \<times> rollout_source"
  rq_remote_bound :: "bool \<times> rollout_source"
  rq_interactive :: "bool \<times> rollout_source"
  rq_remote_interactive :: "bool \<times> rollout_source"

text \<open>The defaults of the build (\<open>cfg!(any(macos, windows))\<close>; remote interaction is off).\<close>

record rollout_defaults =
  rd_desktop :: bool

definition roll_back ::
  "'p broker_env \<Rightarrow> string \<Rightarrow> string list \<Rightarrow> rollout_request \<Rightarrow> ('p, 't) broker_state
    \<Rightarrow> ('p, 't, unit) broker_outcome" where
  "roll_back env lease_id ids q s =
     (let integration = (rq_broker q \<and> fst (rq_integration q)); execute = (integration \<and> fst (rq_execute q));
          remote = (execute \<and> fst (rq_remote_bound q)) in
      if br_enabled s \<and> \<not> rq_broker q then close_all_open_generations env ids BrokerShutdown s
      else if ft_enabled (br_shell s) \<and> \<not> integration
      then on_each sr_open (degrade_record ''shellIntegrationRollback'') ids s
      else if ft_enabled (br_execute s) \<and> \<not> execute then on_each sr_open settle_cell ids s
      else if ft_enabled (br_remote_bound s) \<and> \<not> remote
      then on_each (\<lambda>r. sr_open r \<and> sr_transport_kind r = SshPty) (revoke_cell lease_id) ids s
      else op_ok () s)"

definition apply_rollout ::
  "'p broker_env \<Rightarrow> rollout_defaults \<Rightarrow> string \<Rightarrow> string list \<Rightarrow> rollout_request \<Rightarrow> ('p, 't) broker_state
    \<Rightarrow> ('p, 't, unit) broker_outcome" where
  "apply_rollout env rd lease_id ids q s =
     op_bind (roll_back env lease_id ids q s) (\<lambda>_ s.
     let broker = rq_broker q; integration = fst (rq_integration q); execute = fst (rq_execute q);
         remote = fst (rq_remote_bound q); interactive = fst (rq_interactive q) in
     op_ok () (s\<lparr>br_enabled := broker,
       br_shell := new_feature integration (rd_desktop rd) broker (snd (rq_integration q)),
       br_execute := new_feature execute (rd_desktop rd) (broker \<and> integration) (snd (rq_execute q)),
       br_remote_bound := new_feature remote (rd_desktop rd) (broker \<and> integration \<and> execute)
         (snd (rq_remote_bound q)),
       br_interactive := new_feature interactive (rd_desktop rd) (broker \<and> integration)
         (snd (rq_interactive q)),
       br_remote_interactive := new_feature (fst (rq_remote_interactive q)) False
         (broker \<and> integration \<and> execute \<and> remote \<and> interactive) (snd (rq_remote_interactive q))\<rparr>))"

definition new_broker :: "rollout_defaults \<Rightarrow> ('p, 't) broker_state" where
  "new_broker rd = (let d = rd_desktop rd in
     \<lparr>br_jobs = [], br_prepared = Map.empty, br_enabled = d, br_shell = new_feature d d d RolloutDefault,
      br_execute = new_feature d d (d \<and> d) RolloutDefault,
      br_remote_bound = new_feature d d (d \<and> d \<and> d) RolloutDefault,
      br_interactive = new_feature d d (d \<and> d) RolloutDefault,
      br_remote_interactive = new_feature False False (d \<and> d \<and> d \<and> d) RolloutDefault,
      br_sessions = Map.empty, br_transports = Map.empty, br_closed_order = [], br_commands = Map.empty\<rparr>)"

subsection \<open>Views\<close>

datatype (plugins only: code size) visible_route = RouteTerminalExecute | RouteUnavailable

definition visible_command_route :: "string \<Rightarrow> ('p, 't) broker_state \<Rightarrow> visible_route" where
  "visible_command_route transport s =
     (if \<not> ft_enabled (br_execute s) then RouteUnavailable
      else case record_of_transport s transport of
        Inl _ \<Rightarrow> RouteUnavailable
      | Inr r \<Rightarrow>
          if (sr_transport_kind r \<noteq> SshPty \<or> ft_enabled (br_remote_bound s))
            \<and> sr_integration r = IntReady \<and> sr_prompt_ready r \<and> sr_command r = None
            \<and> (case sr_lease r of None \<Rightarrow> False | Some l \<Rightarrow> is_user_owner (tl_owner l))
          then RouteTerminalExecute else RouteUnavailable)"

definition read_screen ::
  "string \<Rightarrow> ('p terminal_record \<Rightarrow> 'p screen_model \<Rightarrow> 'a) \<Rightarrow> ('p, 't) broker_state \<Rightarrow> broker_error + 'a" where
  "read_screen transport f s =
     (if \<not> ft_enabled (br_interactive s) then Inl InteractiveToolsDisabled
      else try_bind (record_of_transport s transport) (\<lambda>r.
        try_bind (ok_or (sr_screen r) ScreenUnavailable) (\<lambda>m. Inr (f r m))))"

definition screen_snapshot_of ::
  "'p broker_env \<Rightarrow> string \<Rightarrow> ('p, 't) broker_state \<Rightarrow> broker_error + screen_snapshot" where
  "screen_snapshot_of env transport = read_screen transport
     (\<lambda>r. snapshot_screen (be_emulator env) (sr_terminal_id r) (sr_generation r))"

definition bracketed_paste_enabled ::
  "'p broker_env \<Rightarrow> string \<Rightarrow> ('p, 't) broker_state \<Rightarrow> broker_error + bool" where
  "bracketed_paste_enabled env transport = read_screen transport
     (\<lambda>_ m. vt_bracketed_paste (be_emulator env) (scr_parser m))"

record execution_capabilities =
  xc_generation :: u64
  xc_open :: bool
  xc_shell :: "shell_kind option"
  xc_prompt_ready :: bool
  xc_capabilities :: "string list"
  xc_recovery_required :: bool

definition execution_capabilities_of ::
  "string \<Rightarrow> ('p, 't) broker_state \<Rightarrow> broker_error + execution_capabilities" where
  "execution_capabilities_of transport s = try_bind (record_of_transport s transport) (\<lambda>r.
     Inr \<lparr>xc_generation = sr_generation r, xc_open = sr_open r, xc_shell = sr_shell r,
       xc_prompt_ready = sr_prompt_ready r, xc_capabilities = integration_capabilities r,
       xc_recovery_required = sr_recovery_required r \<or> sr_clear_pending r \<noteq> None\<rparr>)"

definition native_input_enabled :: "string \<Rightarrow> ('p, 't) broker_state \<Rightarrow> broker_error + bool" where
  "native_input_enabled transport s = try_bind (record_of_transport s transport) (\<lambda>r.
     Inr (sr_integration r = IntReady \<and> sr_native_input r \<and> sr_native_checkpoints r
       \<and> (\<not> posix_shell (sr_shell r) \<or> sr_private_control r) \<and> \<not> sr_recovery_required r))"

definition native_typing_enabled :: "string \<Rightarrow> ('p, 't) broker_state \<Rightarrow> broker_error + bool" where
  "native_typing_enabled transport s = try_bind (record_of_transport s transport) (\<lambda>r.
     Inr (sr_native_typing r \<and> sr_native_input r \<and> sr_native_checkpoints r \<and> \<not> sr_recovery_required r))"

definition command_shell :: "string \<Rightarrow> ('p, 't) broker_state \<Rightarrow> broker_error + shell_kind" where
  "command_shell transport s = try_bind (current_attachment s transport) (\<lambda>a.
     ok_or (Option.bind (br_sessions s (at_terminal a)) sr_shell) IntegrationNotReady)"

definition native_comments_enabled :: "string \<Rightarrow> ('p, 't) broker_state \<Rightarrow> broker_error + bool" where
  "native_comments_enabled transport s = try_bind (current_attachment s transport) (\<lambda>a.
     Inr (case br_sessions s (at_terminal a) of None \<Rightarrow> False | Some r \<Rightarrow> sr_native_comments r))"

record wait_result =
  wt_reason :: wait_reason
  wt_lifecycle :: u64
  wt_open :: bool
  wt_snapshot :: "screen_snapshot option"

text \<open>
  One look of \<open>wait\_terminal\<close>, for the terminal and generation found when the wait began:
  \<open>None\<close> is another wait for a change.
\<close>

definition wait_terminal_poll ::
  "'p broker_env \<Rightarrow> wait_request \<Rightarrow> string \<Rightarrow> u64 \<Rightarrow> nat \<Rightarrow> nat \<Rightarrow> ('p, 't) broker_state
    \<Rightarrow> broker_error + wait_result option" where
  "wait_terminal_poll env q terminal generation deadline now s =
     try_bind (ok_or (br_sessions s terminal) BrokerSessionNotFound) (\<lambda>r.
     if sr_generation r \<noteq> generation \<or> \<not> sr_open r
     then Inr (Some \<lparr>wt_reason = WaitClosed, wt_lifecycle = sr_event_sequence r, wt_open = False,
       wt_snapshot = None\<rparr>)
     else try_bind (ok_or (sr_screen r) ScreenUnavailable) (\<lambda>m.
       let snap = snapshot_screen (be_emulator env) terminal generation m;
           done = (\<lambda>reason. Inr (Some \<lparr>wt_reason = reason, wt_lifecycle = sr_event_sequence r,
             wt_open = True, wt_snapshot = Some snap\<rparr>)) in
       case terminal_wait_reason (be_lower env) now r snap q of
         Some reason \<Rightarrow> done reason
       | None \<Rightarrow> if deadline \<le> now then done WaitTimedOut else Inr None))"

text \<open>The waits for a prompt: the condition they block on and their answer.\<close>

definition prompt_record :: "string \<Rightarrow> u64 \<Rightarrow> string option \<Rightarrow> ('p, 't) broker_state \<Rightarrow> 'p terminal_record option" where
  "prompt_record terminal generation integration s = (case br_sessions s terminal of
     None \<Rightarrow> None
   | Some r \<Rightarrow> if sr_open r \<and> sr_generation r = generation \<and> sr_integration_id r = integration
       then Some r else None)"

definition prompt_waits :: "string \<Rightarrow> u64 \<Rightarrow> string option \<Rightarrow> ('p, 't) broker_state \<Rightarrow> bool" where
  "prompt_waits terminal generation integration s \<longleftrightarrow> (case prompt_record terminal generation integration s of
     None \<Rightarrow> False | Some r \<Rightarrow> \<not> sr_prompt_ready r \<or> sr_command r \<noteq> None)"

definition prompt_answer :: "string \<Rightarrow> u64 \<Rightarrow> string option \<Rightarrow> ('p, 't) broker_state \<Rightarrow> bool" where
  "prompt_answer terminal generation integration s \<longleftrightarrow> (case prompt_record terminal generation integration s of
     None \<Rightarrow> False | Some r \<Rightarrow> sr_prompt_ready r \<and> sr_command r = None)"

definition wait_shell_job_prompt :: "'t shell_job \<Rightarrow> ('p, 't) broker_state \<Rightarrow> bool" where
  "wait_shell_job_prompt j = prompt_answer (job_terminal j) (job_generation j) (job_integration j)"

definition wait_command_prompt :: "command_data \<Rightarrow> ('p, 't) broker_state \<Rightarrow> bool" where
  "wait_command_prompt d =
     prompt_answer (cmd_terminal_session_id d) (cmd_terminal_generation d) (cmd_integration_id d)"

definition shell_job_waits :: "'t shell_job \<Rightarrow> ('p, 't) broker_state \<Rightarrow> bool" where
  "shell_job_waits j s \<longleftrightarrow> (case map_of (br_jobs s) (job_handle j) of
     None \<Rightarrow> False
   | Some k \<Rightarrow> job_state k = job_state j \<and> job_revision k = job_revision j
       \<and> job_accepted k = job_accepted j \<and> job_control_lost k = job_control_lost j)"

end
