(* ===== verification/Broker_Invariants.thy ===== *)
theory Broker_Invariants
  imports Terminal_Rollout
begin

text \<open>
  What every operation on a terminal keeps: the retained output is one gapless run that
  ends where the stream stands, within the bounds of the configuration; an open terminal
  has a lease; the command it points at exists. And what only moves forward: the counters
  of the stream and of the input, the end of a generation, and each command, which is
  settled at most once.
\<close>

subsection \<open>Commands move forward\<close>

definition cmd_rank :: "command_state \<Rightarrow> nat" where
  "cmd_rank s = (if s = CmdSubmitted then 0 else if s = CmdRunning then 1
     else if s = CmdCancelRequested then 2 else 3)"

definition command_advances :: "command_data \<Rightarrow> command_data \<Rightarrow> bool" where
  "command_advances d e \<longleftrightarrow>
     cmd_command_id e = cmd_command_id d \<and> cmd_operation_id e = cmd_operation_id d
     \<and> cmd_terminal_session_id e = cmd_terminal_session_id d
     \<and> cmd_terminal_generation e = cmd_terminal_generation d
     \<and> cmd_command_line e = cmd_command_line d \<and> cmd_submitted_line e = cmd_submitted_line d
     \<and> cmd_rank (cmd_state d) \<le> cmd_rank (cmd_state e)
     \<and> (cmd_is_terminal (cmd_state d) \<longrightarrow> cmd_state e = cmd_state d \<and> cmd_exit_code e = cmd_exit_code d
          \<and> cmd_cwd e = cmd_cwd d \<and> cmd_requested e = cmd_requested d
          \<and> cmd_input_rejection e = cmd_input_rejection d)"

lemma cmd_rank_terminal: "cmd_rank s = 3 \<longleftrightarrow> cmd_is_terminal s"
  by (cases s) (simp_all add: cmd_rank_def cmd_is_terminal_def)

lemma terminal_not: "cmd_is_terminal s \<Longrightarrow> s \<noteq> CmdSubmitted \<and> s \<noteq> CmdRunning \<and> s \<noteq> CmdCancelRequested"
  by (cases s) (simp_all add: cmd_is_terminal_def)

lemma rank_le_3: "cmd_rank s \<le> 3"
  by (simp add: cmd_rank_def)

lemma command_advances_refl [simp]: "command_advances d d"
  by (simp add: command_advances_def)

lemma command_advances_trans: "command_advances d e \<Longrightarrow> command_advances e f \<Longrightarrow> command_advances d f"
  unfolding command_advances_def by auto

lemmas advance_defs = command_advances_def cmd_rank_def cmd_is_terminal_def settled_as_def

text \<open>A command operation, as a relation between the data it finds and the data it leaves.\<close>

definition forwards :: "command_data \<Rightarrow> 'a command_outcome \<Rightarrow> bool" where
  "forwards d r \<longleftrightarrow> command_advances d (snd r)"

lemma forwards_simps [simp]:
  "forwards d (op_ok a e) = command_advances d e" "forwards d (op_err x e) = command_advances d e"
  "forwards d (op_check q e) = command_advances d e"
  by (simp_all add: forwards_def op_ok_def op_err_def op_check_def)

lemma forwards_bump: "command_advances d e \<Longrightarrow> forwards d (bump_revision e)"
  by (auto simp: forwards_def bump_revision_def op_bind_def op_check_def op_ok_def command_advances_def
      split: sum.splits)

lemma forwards_bind:
  "forwards d r \<Longrightarrow> (\<And>a e. r = (Inr a, e) \<Longrightarrow> command_advances d e \<Longrightarrow> forwards d (f a e)) \<Longrightarrow> forwards d (op_bind r f)"
  by (cases r; cases "fst r") (auto simp: forwards_def)

lemma settle_uncertain_advances: "command_advances d (snd (settle_command_uncertain n d))"
  by (cases "cmd_state d") (simp_all add: settle_command_uncertain_def advance_defs)

lemma settle_integration_forwards: "forwards d (settle_command_from_integration code cwd n d)"
proof -
  have adv: "command_advances d (d\<lparr>cmd_state := s, cmd_exit_code := Some code, cmd_cwd := Some cwd,
      cmd_capture_end := e\<rparr>)"
    if "\<not> cmd_is_terminal (cmd_state d)" "cmd_is_terminal s" for s e
    using that rank_le_3 [of "cmd_state d"] by (simp add: command_advances_def cmd_rank_terminal [symmetric])
  have final: "cmd_is_terminal (case cmd_requested d of None \<Rightarrow> CmdCompleted
      | Some q \<Rightarrow> if cmd_interrupt_uncertain d then CmdUncertain else settled_as q)"
    by (simp add: cmd_is_terminal_def settled_as_def split: option.split requested_settlement.split)
  show ?thesis
  proof (cases "cmd_is_terminal (cmd_state d) \<or> cmd_state d \<noteq> CmdRunning \<and> cmd_state d \<noteq> CmdCancelRequested")
    case False
    then show ?thesis unfolding settle_command_from_integration_def
      by (simp only: if_False de_Morgan_disj simp_thms)
        (intro forwards_bind forwards_bump adv [OF _ final], simp_all)
  qed (auto simp: settle_command_from_integration_def)
qed

lemma request_settlement_forwards: "forwards d (request_settlement q d)"
proof (cases "cmd_is_terminal (cmd_state d)")
  case False
  then have "command_advances d (d\<lparr>cmd_requested := Some q, cmd_state := CmdCancelRequested\<rparr>)"
    by (cases "cmd_state d") (simp_all add: advance_defs)
  then show ?thesis using False unfolding request_settlement_def
    by (auto intro!: forwards_bind forwards_bump simp: command_advances_def)
qed (simp add: request_settlement_def)

lemma settle_unsubmitted_forwards: "forwards d (settle_unsubmitted d)"
  unfolding settle_unsubmitted_def
  by (auto intro!: forwards_bump simp: advance_defs split: option.split requested_settlement.split)

datatype (plugins only: code size) command_op =
    CoRequest requested_settlement
  | CoSettleUnsubmitted
  | CoMarkUncertain
  | CoFinalize u64
  | CoFinishTyping
  | CoExpectCheckpoint string
  | CoBeginProbe
  | CoRefreshProbe
  | CoFinishProbe
  | CoBeginFrame
  | CoExpectReady
  | CoExpectData string string

definition op_void :: "('s, 'e, 'a) outcome \<Rightarrow> ('s, 'e, unit) outcome" where
  "op_void r = op_bind r (\<lambda>_ s. op_ok () s)"

text \<open>What an executor may do to the command it holds.\<close>

definition command_step :: "command_data \<Rightarrow> command_op \<Rightarrow> unit command_outcome" where
  "command_step d x = (case x of
     CoRequest q \<Rightarrow> op_void (request_settlement q d)
   | CoSettleUnsubmitted \<Rightarrow> settle_unsubmitted d
   | CoMarkUncertain \<Rightarrow> op_ok () (snd (mark_uncertain d))
   | CoFinalize n \<Rightarrow> op_ok () (finalize_capture n d)
   | CoFinishTyping \<Rightarrow> finish_typing_capture d
   | CoExpectCheckpoint prefix \<Rightarrow> expect_native_checkpoint prefix d
   | CoBeginProbe \<Rightarrow> begin_read_only_probe d
   | CoRefreshProbe \<Rightarrow> op_void (refresh_read_only_probe d)
   | CoFinishProbe \<Rightarrow> op_void (finish_read_only_probe d)
   | CoBeginFrame \<Rightarrow> begin_native_frame d
   | CoExpectReady \<Rightarrow> expect_private_ready d
   | CoExpectData descriptor buffer \<Rightarrow> expect_data_checkpoint descriptor buffer d)"

lemma forwards_void: "forwards d (op_void r) = forwards d r"
  by (cases r; cases "fst r") (simp_all add: op_void_def forwards_def op_ok_def)

lemma guarded_forwards:
  "command_advances d e \<Longrightarrow> forwards d (if b then op_err x d else op_ok u e)"
  "command_advances d e \<Longrightarrow> forwards d (if b then op_ok v d else op_ok u e)"
  by simp_all

lemma command_step_forwards: "forwards d (command_step d x)"
proof (cases x)
  case CoMarkUncertain
  then show ?thesis by (simp add: command_step_def mark_uncertain_def settle_uncertain_advances)
qed (simp_all add: command_step_def forwards_void request_settlement_forwards settle_unsubmitted_forwards,
    simp_all add: finalize_capture_def finish_typing_capture_def
      expect_native_checkpoint_def begin_read_only_probe_def refresh_read_only_probe_def
      finish_read_only_probe_def begin_native_frame_def expect_private_ready_def
      expect_data_checkpoint_def command_advances_def)

subsection \<open>Terminals\<close>

fun frames_span :: "nat \<Rightarrow> nat \<Rightarrow> output_frame list \<Rightarrow> nat \<Rightarrow> nat \<Rightarrow> bool" where
  "frames_span q k [] q' k' = (q = q' \<and> k = k')"
| "frames_span q k (f # fs) q' k' = (unat (fr_sequence f) = q \<and> unat (fr_byte_offset f) = k
     \<and> frames_span (q + 1) (k + length (fr_bytes f)) fs q' k')"

definition replay_size :: "output_frame list \<Rightarrow> nat" where
  "replay_size fs = sum_list (map (\<lambda>f. length (fr_bytes f)) fs)"

definition stream_inv :: "broker_config \<Rightarrow> 'p terminal_record \<Rightarrow> bool" where
  "stream_inv cfg r \<longleftrightarrow>
     (\<exists>q k. 1 \<le> q \<and> frames_span q k (sr_replay r) (unat (sr_next_output r)) (unat (sr_next_offset r)))
     \<and> sr_replay_bytes r = replay_size (sr_replay r)
     \<and> length (sr_replay r) \<le> cfg_replay_max_frames cfg \<and> sr_replay_bytes r \<le> cfg_replay_max_bytes cfg
     \<and> length (sr_capture r) \<le> cfg_capture_max_bytes cfg
     \<and> sr_next_output r \<le> JAVASCRIPT_MAX_SAFE_INTEGER \<and> sr_next_offset r \<le> JAVASCRIPT_MAX_SAFE_INTEGER
     \<and> sr_next_input r \<le> JAVASCRIPT_MAX_SAFE_INTEGER"

definition record_ok :: "broker_config \<Rightarrow> 'p terminal_record \<Rightarrow> bool" where
  "record_ok cfg r \<longleftrightarrow> stream_inv cfg r \<and> (sr_open r \<longleftrightarrow> sr_lease r \<noteq> None)
     \<and> (\<not> sr_open r \<longrightarrow> sr_command r = None \<and> sr_replay r = [] \<and> sr_capture r = [] \<and> sr_screen r = None)"

definition pointer_ok :: "'p cell \<Rightarrow> bool" where
  "pointer_ok c \<longleftrightarrow> (case sr_command (fst c) of None \<Rightarrow> True
     | Some i \<Rightarrow> (case snd c i of None \<Rightarrow> False | Some d \<Rightarrow> cmd_command_id d = i))"

definition store_advances :: "command_store \<Rightarrow> command_store \<Rightarrow> bool" where
  "store_advances m n \<longleftrightarrow> (\<forall>i d. m i = Some d \<longrightarrow> (\<exists>e. n i = Some e \<and> command_advances d e))"

definition record_advances :: "'p terminal_record \<Rightarrow> 'p terminal_record \<Rightarrow> bool" where
  "record_advances r q \<longleftrightarrow> sr_terminal_id q = sr_terminal_id r \<and> sr_generation q = sr_generation r
     \<and> sr_transport_id q = sr_transport_id r \<and> sr_transport_kind q = sr_transport_kind r
     \<and> sr_next_output r \<le> sr_next_output q \<and> sr_next_input r \<le> sr_next_input q
     \<and> (sr_open q \<longrightarrow> sr_open r)"

lemma store_advances_refl [simp]: "store_advances m m"
  by (simp add: store_advances_def)

lemma store_advances_trans: "store_advances m n \<Longrightarrow> store_advances n p \<Longrightarrow> store_advances m p"
  unfolding store_advances_def by (meson command_advances_trans)

lemma record_advances_refl [simp]: "record_advances r r"
  by (simp add: record_advances_def)

lemma record_advances_trans: "record_advances r q \<Longrightarrow> record_advances q p \<Longrightarrow> record_advances r p"
  unfolding record_advances_def by auto

text \<open>From a cell \<open>c0\<close>, the operation may be at \<open>c\<close>.\<close>

definition cell_at :: "broker_config \<Rightarrow> 'p cell \<Rightarrow> 'p cell \<Rightarrow> bool" where
  "cell_at cfg c0 c \<longleftrightarrow> record_ok cfg (fst c) \<and> pointer_ok c \<and> record_advances (fst c0) (fst c)
     \<and> store_advances (snd c0) (snd c)"

lemma cell_at_refl: "record_ok cfg (fst c) \<Longrightarrow> pointer_ok c \<Longrightarrow> cell_at cfg c c"
  by (simp add: cell_at_def)

lemma cell_at_trans: "cell_at cfg c d \<Longrightarrow> cell_at cfg d e \<Longrightarrow> cell_at cfg c e"
  unfolding cell_at_def by (meson record_advances_trans store_advances_trans)

subsection \<open>What an operation on a live terminal keeps\<close>

text \<open>The fields the invariant reads; every other field may change freely.\<close>

definition same_stream :: "'p terminal_record \<Rightarrow> 'p terminal_record \<Rightarrow> bool" where
  "same_stream r q \<longleftrightarrow> sr_terminal_id q = sr_terminal_id r \<and> sr_generation q = sr_generation r
     \<and> sr_transport_id q = sr_transport_id r \<and> sr_transport_kind q = sr_transport_kind r
     \<and> sr_next_output q = sr_next_output r \<and> sr_next_offset q = sr_next_offset r
     \<and> sr_next_input q = sr_next_input r \<and> sr_open q = sr_open r \<and> (sr_lease q = None \<longleftrightarrow> sr_lease r = None)
     \<and> sr_replay q = sr_replay r \<and> sr_replay_bytes q = sr_replay_bytes r \<and> sr_capture q = sr_capture r"

definition cell_live :: "broker_config \<Rightarrow> 'p cell \<Rightarrow> 'p cell \<Rightarrow> bool" where
  "cell_live cfg c0 c \<longleftrightarrow> cell_at cfg c0 c \<and> sr_open (fst c)"

lemma cell_liveD: "cell_live cfg c0 c \<Longrightarrow> cell_at cfg c0 c" "cell_live cfg c0 c \<Longrightarrow> sr_open (fst c)"
  by (simp_all add: cell_live_def)

lemma same_stream_inv: "same_stream r q \<Longrightarrow> stream_inv cfg q = stream_inv cfg r"
  unfolding same_stream_def by (elim conjE) (simp only: stream_inv_def)

lemma same_stream_ok: "same_stream r q \<Longrightarrow> sr_open r \<Longrightarrow> record_ok cfg r \<Longrightarrow> record_ok cfg q"
  using same_stream_inv [of r q cfg] unfolding record_ok_def same_stream_def by auto

lemma same_stream_advances: "same_stream r q \<Longrightarrow> record_advances r q"
  unfolding record_advances_def same_stream_def by simp

lemma live_stream:
  assumes "cell_live cfg c0 c" "same_stream (fst c) r" "pointer_ok (r, snd c)"
  shows "cell_live cfg c0 (r, snd c)"
  using assms same_stream_ok [OF assms(2), of cfg]
    record_advances_trans [OF _ same_stream_advances [OF assms(2)], of "fst c0"]
  by (simp add: cell_live_def cell_at_def) (simp add: same_stream_def)

lemma live_record:
  assumes "cell_live cfg c0 c" "same_stream (fst c) (f (fst c))" "sr_command (f (fst c)) = sr_command (fst c)"
  shows "cell_live cfg c0 (on_record f c)"
proof -
  have "pointer_ok (f (fst c), snd c)"
    using assms by (auto simp: cell_live_def cell_at_def pointer_ok_def split: option.splits)
  then show ?thesis using live_stream [OF assms(1,2)] by (simp add: on_record_def)
qed

lemma live_forget_command:
  assumes "cell_live cfg c0 c" "same_stream (fst c) (f (fst c))" "sr_command (f (fst c)) = None"
  shows "cell_live cfg c0 (on_record f c)"
  using live_stream [OF assms(1,2)] assms by (simp add: on_record_def pointer_ok_def)

lemma store_put_advances:
  "m i = Some d \<Longrightarrow> command_advances d e \<Longrightarrow> store_advances m (m(i \<mapsto> e))"
  by (simp add: store_advances_def)

lemma pointer_ok_advances:
  "pointer_ok (r, m) \<Longrightarrow> store_advances m n \<Longrightarrow> pointer_ok (r, n)"
  unfolding pointer_ok_def store_advances_def
  by (fastforce simp: command_advances_def split: option.splits)

lemma at_store:
  assumes "cell_at cfg c0 c" "store_advances (snd c) m"
  shows "cell_at cfg c0 (fst c, m)"
  using assms pointer_ok_advances [of "fst c" "snd c" m] store_advances_trans [of "snd c0" "snd c" m]
  by (simp add: cell_at_def)

lemma at_put_command:
  assumes "cell_at cfg c0 c" "snd c i = Some d" "command_advances d e"
  shows "cell_at cfg c0 (put_command i e c)"
  using at_store [OF assms(1) store_put_advances [where m = "snd c", OF assms(2,3)]] by (simp add: put_command_def)

lemma live_put_command:
  "cell_live cfg c0 c \<Longrightarrow> snd c i = Some d \<Longrightarrow> command_advances d e \<Longrightarrow> cell_live cfg c0 (put_command i e c)"
  using at_put_command [of cfg c0 c i d e] by (simp add: cell_live_def put_command_def)

lemma at_on_command:
  assumes "cell_at cfg c0 c" "\<And>d. snd c i = Some d \<Longrightarrow> command_advances d (f d)"
  shows "cell_at cfg c0 (on_command i f c)"
proof (cases "snd c i")
  case None
  then have "on_command i f c = c" by (cases c) (auto simp: on_command_def)
  then show ?thesis using assms by simp
next
  case (Some d)
  then have "on_command i f c = put_command i (f d) c" by (simp add: on_command_def put_command_def)
  then show ?thesis using at_put_command [OF assms(1) Some assms(2) [OF Some]] by simp
qed

lemma live_on_command:
  "cell_live cfg c0 c \<Longrightarrow> (\<And>d. snd c i = Some d \<Longrightarrow> command_advances d (f d)) \<Longrightarrow> cell_live cfg c0 (on_command i f c)"
  using at_on_command [of cfg c0 c i f] by (simp add: cell_live_def on_command_def)

lemma live_run_command:
  assumes "cell_live cfg c0 c" "snd c i = Some d" "forwards d r"
  shows "leaves (cell_live cfg c0) (run_command i r c)"
  using live_put_command [OF assms(1,2)] assms(3)
  by (simp add: leaves_def run_command_def op_zoom_def forwards_def)

lemma live_with_active:
  assumes "leaves I none" "\<And>i d. sr_command (fst c) = Some i \<Longrightarrow> snd c i = Some d \<Longrightarrow> leaves I (some i d)"
  shows "leaves I (with_active c none some)"
  using assms by (simp add: with_active_def split: option.split)

lemma leaves_if: "(b \<Longrightarrow> leaves I p) \<Longrightarrow> (\<not> b \<Longrightarrow> leaves I q) \<Longrightarrow> leaves I (if b then p else q)"
  by simp

lemma leaves_bind_check:
  "I s \<Longrightarrow> (\<And>a. r = Inr a \<Longrightarrow> leaves I (f a s)) \<Longrightarrow> leaves I (op_bind (op_check r s) f)"
  by (cases r) simp_all

lemma at_settle_active: "cell_at cfg c0 c \<Longrightarrow> cell_at cfg c0 (settle_active c)"
  by (auto simp: settle_active_def settle_uncertain_advances intro: at_on_command split: option.split)

lemma live_settle_active: "cell_live cfg c0 c \<Longrightarrow> cell_live cfg c0 (settle_active c)"
  by (auto simp: settle_active_def settle_uncertain_advances intro: live_on_command split: option.split)

lemma live_advance_revision: "cell_live cfg c0 c \<Longrightarrow> leaves (cell_live cfg c0) (advance_revision c)"
  unfolding advance_revision_def
  by (rule leaves_bind_check, assumption) (simp add: live_record same_stream_def)

lemma live_degrade: "cell_live cfg c0 c \<Longrightarrow> leaves (cell_live cfg c0) (degrade_record reason c)"
  unfolding degrade_record_def
  by (intro live_advance_revision live_settle_active live_record) (simp_all add: same_stream_def)

lemma close_record_at:
  assumes "cell_at cfg c0 c"
  shows "leaves (cell_at cfg c0) (close_record reason c)"
proof -
  let ?d = "settle_active (on_record (\<lambda>r. r\<lparr>sr_open := False, sr_close_reason := Some reason,
      sr_integration := IntInvalidated, sr_integration_id := None,
      sr_integration_reason := Some ''generationClosed'', sr_prompt_ready := False,
      sr_prompt_started := False\<rparr>) c)"
  have store: "store_advances (snd c) (snd ?d)"
    by (simp add: settle_active_def on_record_def on_command_def store_advances_def
        settle_uncertain_advances split: option.split)
  have rec: "sr_next_output (fst ?d) = sr_next_output (fst c)" "sr_next_offset (fst ?d) = sr_next_offset (fst c)"
    "sr_next_input (fst ?d) = sr_next_input (fst c)" "\<not> sr_open (fst ?d)"
    "sr_terminal_id (fst ?d) = sr_terminal_id (fst c)" "sr_generation (fst ?d) = sr_generation (fst c)"
    "sr_transport_id (fst ?d) = sr_transport_id (fst c)" "sr_transport_kind (fst ?d) = sr_transport_kind (fst c)"
    by (simp_all add: settle_active_def on_record_def on_command_def split: option.split)
  have start: "1 \<le> unat (sr_next_output (fst c))"
  proof -
    have "\<exists>q k. 1 \<le> q \<and> frames_span q k (sr_replay (fst c)) (unat (sr_next_output (fst c))) (unat (sr_next_offset (fst c)))"
      using assms by (simp add: cell_at_def record_ok_def stream_inv_def)
    moreover have "q \<le> q'" if "frames_span q k fs q' k'" for q k fs q' k'
      using that by (induction fs arbitrary: q k) fastforce+
    ultimately show ?thesis using order_trans by blast
  qed
  show ?thesis using assms store rec start
    unfolding close_record_def advance_revision_def Let_def
    by (auto intro!: leaves_bind_check simp: cell_at_def on_record_def record_ok_def stream_inv_def
        replay_size_def pointer_ok_def record_advances_def
        dest: store_advances_trans)
qed

subsection \<open>The events of the integration\<close>

named_theorems live_intros

lemmas [live_intros] = leaves_if live_advance_revision live_degrade

lemma leaves_ok: "I s \<Longrightarrow> leaves I (op_ok a s)" "I s \<Longrightarrow> leaves I (op_err x s)" "I s \<Longrightarrow> leaves I (op_check r s)"
  by simp_all

lemma guard_event_live:
  "cell_live cfg c0 c \<Longrightarrow> same_stream (fst c) (f (fst c)) \<Longrightarrow> sr_command (f (fst c)) = sr_command (fst c)
    \<Longrightarrow> leaves (cell_live cfg c0) (guard_event bad x f c)"
  unfolding guard_event_def by (rule leaves_bind_check, assumption) (simp add: live_record)

lemma toggles_live:
  assumes "cell_live cfg c0 c"
  shows "leaves (cell_live cfg c0) (on_native_typing b c)" "leaves (cell_live cfg c0) (on_private_control b c)"
    "leaves (cell_live cfg c0) (on_checkpoint_mode b c)" "leaves (cell_live cfg c0) (on_native_input b c)"
    "leaves (cell_live cfg c0) (on_native_comments b c)" "leaves (cell_live cfg c0) (on_native_jobs b c)"
  unfolding on_native_typing_def on_private_control_def on_checkpoint_mode_def on_native_input_def
    on_native_comments_def on_native_jobs_def Let_def
  by (rule guard_event_live, rule assms, simp add: same_stream_def, simp)+

lemma live_failed:
  assumes "cell_live cfg c0 c" "snd c i = Some d" "forwards d r"
    and "\<And>a b. cell_live cfg c0 b \<Longrightarrow> run_command i r c = (Inr a, b) \<Longrightarrow> leaves (cell_live cfg c0) (f a b)"
  shows "leaves (cell_live cfg c0) (op_bind (run_command i r c) f)"
  by (rule leaves_bind [OF live_run_command [OF assms(1-3)]], rule assms(4))

lemma run_command_Inr:
  "run_command i r c = (Inr a, b) \<longleftrightarrow> (\<exists>e. r = (Inr a, e) \<and> b = put_command i e c)"
  by (simp add: run_command_def op_zoom_Inr_iff)

lemma bump_revision_Inr:
  "bump_revision d = (Inr a, e) \<longleftrightarrow> (\<exists>n. next_safe (cmd_revision d) = Inr n \<and> e = d\<lparr>cmd_revision := n\<rparr>)"
  by (auto simp: bump_revision_def op_check_def op_ok_def op_bind_def split: sum.splits)

lemma on_private_ready_live: "cell_live cfg c0 c \<Longrightarrow> leaves (cell_live cfg c0) (on_private_ready c)"
  unfolding on_private_ready_def
  by (rule leaves_bind_check, assumption, rule live_with_active)
    (auto intro!: live_put_command simp: command_advances_def)

lemma on_private_checkpoint_live:
  assumes "cell_live cfg c0 c"
  shows "leaves (cell_live cfg c0) (on_private_checkpoint descriptor buffer c)"
  unfolding on_private_checkpoint_def Let_def
proof (rule leaves_bind_check [where I = "cell_live cfg c0", OF assms], rule live_with_active)
  fix i d assume d: "snd c i = Some d" "sr_command (fst c) = Some i"
  have adv: "command_advances d (d\<lparr>cmd_private_checkpoint := p\<rparr>)" for p
    by (simp add: command_advances_def)
  have adv2: "command_advances d (d\<lparr>cmd_private_checkpoint := p, cmd_state := CmdUncertain\<rparr>)"
    if "cmd_state d = CmdSubmitted" for p
    using that by (simp add: advance_defs)
  have after: "cell_live cfg c0 (on_record (\<lambda>r. r\<lparr>sr_recovery_required := True, sr_input_pending := True,
        sr_native_input := False\<rparr>) (on_command i (\<lambda>d. d\<lparr>cmd_input_rejection := Some x\<rparr>) b))"
    if "run_command i (bump_revision (d\<lparr>cmd_private_checkpoint := p, cmd_state := CmdUncertain\<rparr>)) c = (Inr a, b)"
      "cmd_state d = CmdSubmitted" for p a b x
  proof -
    from that obtain n where b: "b = put_command i (d\<lparr>cmd_private_checkpoint := p, cmd_state := CmdUncertain,
        cmd_revision := n\<rparr>) c"
      unfolding run_command_Inr bump_revision_Inr by auto
    have eq: "on_command i (\<lambda>d. d\<lparr>cmd_input_rejection := Some x\<rparr>) b = put_command i
        (d\<lparr>cmd_private_checkpoint := p, cmd_state := CmdUncertain, cmd_revision := n, cmd_input_rejection := Some x\<rparr>) c"
      by (simp add: b on_command_def put_command_def)
    show ?thesis unfolding eq
      by (rule live_record [OF live_put_command [OF assms d(1)]])
        (use that(2) in \<open>simp_all add: same_stream_def advance_defs\<close>)
  qed
  show "leaves (cell_live cfg c0)
     (if cmd_integration_id d \<noteq> sr_integration_id (fst c) then op_err IntegrationIdentityMismatch c
       else if cmd_state d \<noteq> CmdSubmitted then op_ok True c
       else case cmd_private_checkpoint d of
         None \<Rightarrow> op_ok True c
       | Some (expected, expected_buffer, _) \<Rightarrow>
           if length descriptor \<noteq> 65 \<or> get_from 33 descriptor \<noteq> get_from 33 expected then op_ok False c
           else if descriptor = expected \<and> buffer = expected_buffer
                  \<and> cmd_empty_confirmed d \<and> sr_private_control (fst c)
             then op_ok True (put_command i (d\<lparr>cmd_private_checkpoint := Some (expected, expected_buffer,
               descriptor = expected \<and> buffer = expected_buffer
                  \<and> cmd_empty_confirmed d \<and> sr_private_control (fst c))\<rparr>) c)
             else op_bind (run_command i (bump_revision (d\<lparr>cmd_private_checkpoint := Some (expected, expected_buffer,
               descriptor = expected \<and> buffer = expected_buffer
                  \<and> cmd_empty_confirmed d \<and> sr_private_control (fst c)), cmd_state := CmdUncertain\<rparr>)) c) (\<lambda>_ c.
               op_ok True (on_record (\<lambda>r. r\<lparr>sr_recovery_required := True, sr_input_pending := True,
                   sr_native_input := False\<rparr>)
                 (on_command i (\<lambda>d. d\<lparr>cmd_input_rejection := Some ''TERMINAL_PRIVATE_CONTROL_MISMATCH''\<rparr>) c))))"
    by (auto simp: assms intro!: live_failed [OF assms d(1)] forwards_bump live_put_command [OF assms d(1)] adv adv2
        after split: option.splits)
qed (use assms in simp)

lemma on_native_cleared_live:
  assumes "cell_live cfg c0 c"
  shows "leaves (cell_live cfg c0) (on_native_cleared n buffer c)"
  unfolding on_native_cleared_def Let_def
  by (rule leaves_bind_check, rule assms)
    (auto simp: assms same_stream_def intro!: live_record split: option.split)

lemma capture_end_advances: "command_advances d (d\<lparr>cmd_capture_end := e\<rparr>)"
  by (simp add: command_advances_def)

lemma live_capture_end:
  "cell_live cfg c0 c \<Longrightarrow> cell_live cfg c0 (on_command i (\<lambda>d. d\<lparr>cmd_capture_end := e\<rparr>) c)"
  by (rule live_on_command) (simp_all add: capture_end_advances)

lemma live_fails: "leaves I r \<Longrightarrow> leaves I (op_bind r (\<lambda>_ c. op_err x c))"
  by (rule leaves_bind) simp_all

lemma on_native_checkpoint_live:
  assumes "cell_live cfg c0 c"
  shows "leaves (cell_live cfg c0) (on_native_checkpoint buffer c)"
  unfolding on_native_checkpoint_def Let_def
  by (rule leaves_bind_check, rule assms, rule live_with_active)
    (auto simp: assms same_stream_def advance_defs
      intro!: live_failed [OF assms] forwards_bump live_record live_put_command [OF assms] split: option.splits)

lemma on_ready_live: "cell_live cfg c0 c \<Longrightarrow> leaves (cell_live cfg c0) (on_ready shell c)"
  unfolding on_ready_def
  by (auto intro!: live_fails live_degrade live_record simp: same_stream_def)

lemma refresh_probe_live:
  assumes "cell_live cfg c0 c"
  shows "cell_live cfg c0 (snd (refresh_probe c))"
  unfolding refresh_probe_def
  by (auto simp: assms same_stream_def command_advances_def
      intro!: live_record live_put_command [OF assms] split: option.split)

lemma on_prompt_start_live:
  assumes "cell_live cfg c0 c"
  shows "leaves (cell_live cfg c0) (on_prompt_start cwd c)"
  unfolding on_prompt_start_def
proof (intro leaves_bind_check [where I = "cell_live cfg c0", OF assms])
  obtain probe enqueued b where r: "refresh_probe c = ((probe, enqueued), b)"
    by (cases "refresh_probe c"; cases "fst (refresh_probe c)") auto
  then have b: "cell_live cfg c0 b" using refresh_probe_live [OF assms] by simp
  show "leaves (cell_live cfg c0) (case refresh_probe c of ((probe, enqueued), c) \<Rightarrow>
     if (sr_input_pending (fst c) \<or> enqueued) \<and> \<not> probe \<and> submitted_active c then
       op_bind (degrade_record (if enqueued then ''promptDuringUnsubmittedInput:sourceMayBeEnqueued''
           else ''promptDuringUnsubmittedInput:sourceNotEnqueued'')
         (on_record (\<lambda>r. r\<lparr>sr_recovery_required := True, sr_input_pending := True,
            sr_native_input := False\<rparr>) c)) (\<lambda>_ c. op_err InputRecoveryRequired c)
     else if sr_prompt_started (fst c) then op_err PromptStartOutOfOrder c
     else op_ok True (on_record (\<lambda>r. r\<lparr>sr_directory := Some cwd, sr_prompt_started := True,
       sr_prompt_ready := False, sr_native_input := False, sr_native_checkpoints := False,
       sr_native_typing := False, sr_private_control := False, sr_native_jobs := False,
       sr_native_comments := False\<rparr>) c))"
    unfolding r
    by (auto simp: b same_stream_def simp del: op_bind_simps intro!: live_fails live_degrade live_record)
qed

lemma on_prompt_end_live:
  assumes "cell_live cfg c0 c"
  shows "leaves (cell_live cfg c0) (on_prompt_end c)"
  unfolding on_prompt_end_def Let_def
  by (rule leaves_bind_check, rule assms)
    (auto simp: assms same_stream_def command_advances_def on_record_def
      intro!: live_with_active live_put_command live_record [OF assms, unfolded on_record_def])

lemma on_interrupt_uncertain_live:
  assumes "cell_live cfg c0 c"
  shows "leaves (cell_live cfg c0) (on_interrupt_uncertain c)"
  unfolding on_interrupt_uncertain_def
  by (rule leaves_bind_check, rule assms, rule live_with_active)
    (auto simp: assms command_advances_def intro!: live_failed [OF assms] forwards_bump)

lemma on_directory_changed_live:
  assumes "cell_live cfg c0 c"
  shows "leaves (cell_live cfg c0) (on_directory_changed cwd c)"
  unfolding on_directory_changed_def
  by (intro leaves_bind_check [where I = "cell_live cfg c0", OF assms])
    (simp add: live_record assms same_stream_def)

lemma on_command_end_live:
  assumes "cell_live cfg c0 c"
  shows "leaves (cell_live cfg c0) (on_command_end code cwd c)"
proof -
  let ?b = "on_record (\<lambda>r. r\<lparr>sr_prompt_ready := False, sr_prompt_started := False, sr_directory := Some cwd\<rparr>) c"
  have b: "cell_live cfg c0 ?b" by (rule live_record [OF assms]) (simp_all add: same_stream_def)
  show ?thesis unfolding on_command_end_def Let_def
    by (intro leaves_bind_check [where I = "cell_live cfg c0", OF assms] live_with_active)
      (auto simp: b intro!: live_failed [OF b] settle_integration_forwards)
qed

lemma open_state:
  "cmd_is_terminal CmdFailed" "\<not> cmd_is_terminal CmdSubmitted" "\<not> cmd_is_terminal CmdRunning"
  "\<not> cmd_is_terminal CmdCancelRequested"
  by (simp_all add: cmd_is_terminal_def)

lemma settled_advances:
  "\<not> cmd_is_terminal (cmd_state d) \<Longrightarrow> cmd_is_terminal t \<Longrightarrow> command_advances d (d\<lparr>cmd_input_rejection := x, cmd_state := t\<rparr>)"
  "\<not> cmd_is_terminal (cmd_state d) \<Longrightarrow> cmd_is_terminal t \<Longrightarrow> command_advances d (d\<lparr>cmd_state := t\<rparr>)"
  using rank_le_3 [of "cmd_state d"] by (simp_all add: command_advances_def cmd_rank_terminal [symmetric])

lemma settled_as_terminal: "cmd_is_terminal (settled_as q)"
  by (cases q) (simp_all add: settled_as_def cmd_is_terminal_def)

lemma on_input_rejected_live:
  assumes "cell_live cfg c0 c"
  shows "leaves (cell_live cfg c0) (on_input_rejected prepared line reason c)"
proof -
  have adv: "command_advances d (case cmd_requested d of
               Some q \<Rightarrow> d\<lparr>cmd_state := settled_as q\<rparr>
             | None \<Rightarrow> d\<lparr>cmd_input_rejection := Some x, cmd_state := CmdFailed\<rparr>)"
    if "cmd_state d \<in> {CmdSubmitted, CmdRunning, CmdCancelRequested}" for d x
    using that by (cases "cmd_requested d")
      (auto intro!: settled_advances settled_as_terminal simp: open_state)
  show ?thesis unfolding on_input_rejected_def
    by (intro leaves_bind_check [where I = "cell_live cfg c0", OF assms] leaves_if
        leaves_bind [where r = "with_active c p f" for p f] live_with_active leaves_ok assms
        live_fails live_degrade live_failed [OF assms] forwards_bump live_capture_end live_record)
      (auto simp: same_stream_def intro: adv)
qed

lemma on_command_start_live:
  assumes "cell_live cfg c0 c"
  shows "leaves (cell_live cfg c0) (on_command_start line cwd c)"
proof -
  let ?f = "\<lambda>r. r\<lparr>sr_prompt_ready := False, sr_prompt_started := False, sr_directory := Some cwd\<rparr>"
  let ?b = "on_record ?f c"
  have b: "cell_live cfg c0 ?b" by (rule live_record [OF assms]) (simp_all add: same_stream_def)
  let ?g = "\<lambda>r. r\<lparr>sr_clear_scope := None, sr_input_pending := False\<rparr>"
  have b2: "cell_live cfg c0 (on_record ?g ?b)" by (rule live_record [OF b]) (simp_all add: same_stream_def)
  have started: "command_advances d ((if cmd_state d = CmdSubmitted then d\<lparr>cmd_state := CmdRunning\<rparr> else d)
      \<lparr>cmd_started := True\<rparr>)" for d
    by (simp add: advance_defs)
  have after: "cell_live cfg c0 (on_command i (\<lambda>d. d\<lparr>cmd_cwd := Some cwd, cmd_capture_start := n d\<rparr>) e)"
    if "run_command i (bump_revision ((if cmd_state d = CmdSubmitted then d\<lparr>cmd_state := CmdRunning\<rparr> else d)
          \<lparr>cmd_started := True\<rparr>)) (on_record ?g ?b) = (Inr a, e)"
      "cmd_state d = CmdSubmitted \<or> cmd_state d = CmdCancelRequested" "cell_live cfg c0 e" for i d e a n
  proof (rule live_on_command [OF that(3)])
    fix x assume "snd e i = Some x"
    then have "cmd_state x = CmdRunning \<or> cmd_state x = CmdCancelRequested"
      using that(1,2) unfolding run_command_Inr bump_revision_Inr
      by (elim exE conjE) (auto simp: put_command_def split: if_splits)
    then show "command_advances x (x\<lparr>cmd_cwd := Some cwd, cmd_capture_start := n x\<rparr>)"
      by (auto simp: advance_defs)
  qed
  show ?thesis unfolding on_command_start_def Let_def
    by (intro leaves_bind_check [where I = "cell_live cfg c0", OF assms] live_with_active leaves_if
        leaves_ok b live_fails live_degrade live_failed [OF b] live_failed [OF b2] forwards_bump started
        leaves_bind [OF live_degrade] live_capture_end after settled_advances(2))
      (auto simp: on_record_def advance_defs)
qed

lemma integration_arm_live:
  assumes "cell_live cfg c0 c"
  shows "leaves (cell_live cfg c0) (integration_arm prepared e c)"
  using assms unfolding integration_arm_def
  by (cases e) (simp_all add: toggles_live on_private_ready_live on_private_checkpoint_live
      on_native_cleared_live on_native_checkpoint_live on_ready_live on_prompt_start_live
      on_input_rejected_live on_interrupt_uncertain_live on_prompt_end_live on_command_start_live
      on_command_end_live on_directory_changed_live)

lemma accept_cell_event_live:
  assumes "cell_live cfg c0 c"
  shows "leaves (cell_live cfg c0) (accept_cell_event integration prepared e c)"
  unfolding accept_cell_event_def
  by (intro leaves_if leaves_ok assms leaves_bind_check [where I = "cell_live cfg c0", OF assms]
      leaves_bind [OF integration_arm_live [OF assms]] leaves_bind [OF live_advance_revision] live_record)
    (simp_all add: same_stream_def)

subsection \<open>Output\<close>

lemma frames_span_snoc:
  "frames_span q k fs q' k' \<Longrightarrow> unat (fr_sequence f) = q' \<Longrightarrow> unat (fr_byte_offset f) = k'
    \<Longrightarrow> frames_span q k (fs @ [f]) (q' + 1) (k' + length (fr_bytes f))"
  by (induction fs arbitrary: q k) auto

lemma replay_size_simps [simp]:
  "replay_size [] = 0" "replay_size (f # fs) = length (fr_bytes f) + replay_size fs"
  "replay_size (fs @ gs) = replay_size fs + replay_size gs"
  by (simp_all add: replay_size_def)

lemma evict_replay_span:
  assumes "frames_span q k fs q' k'" "bytes = replay_size fs" "evict_replay m b bytes fs = (left, gs)"
  shows "(\<exists>q2 k2. q \<le> q2 \<and> frames_span q2 k2 gs q' k') \<and> left = replay_size gs \<and> length gs \<le> m \<and> left \<le> b"
  using assms
proof (induction fs arbitrary: q k bytes)
  case (Cons f fs)
  then show ?case
  proof (cases "m < length (f # fs) \<or> b < bytes")
    case True
    then have "evict_replay m b (replay_size fs) fs = (left, gs)" using Cons.prems by simp
    with Cons.IH [of "q + 1" "k + length (fr_bytes f)" "replay_size fs"] Cons.prems(1) show ?thesis
      by simp (metis Suc_leD)
  qed auto
qed auto

lemma capture_bytes_bound:
  "length captured \<le> limit \<Longrightarrow> length (fst (capture_bytes limit captured bytes)) \<le> limit"
  by (simp add: capture_bytes_def Let_def)

lemma push_replay_stream:
  assumes "stream_inv cfg r" "fr_sequence f = sr_next_output r" "fr_byte_offset f = sr_next_offset r"
    and "next_counters r f = Inr (n, k)" "length (fr_bytes f) \<le> MAX_FRAME_BYTES"
  shows "stream_inv cfg (push_replay cfg f (r\<lparr>sr_next_output := n, sr_next_offset := k\<rparr>))"
    "sr_next_output r \<le> n"
proof -
  have len: "length (fr_bytes f) < 2 ^ 64" using assms(5) by (simp add: MAX_FRAME_BYTES_def)
  from assms(4) have n: "unat n = unat (sr_next_output r) + 1" "n \<le> JAVASCRIPT_MAX_SAFE_INTEGER"
    and k: "unat k = unat (sr_next_offset r) + length (fr_bytes f)" "k \<le> JAVASCRIPT_MAX_SAFE_INTEGER"
    using len
    by (auto simp: next_counters_def res_simps checked_add_def unat_of_nat take_bit_nat_eq_self
        unat_word_ariths split: if_splits)
  then show "sr_next_output r \<le> n" by (simp add: word_le_nat_alt)
  obtain q b where span: "1 \<le> q" "frames_span q b (sr_replay r) (unat (sr_next_output r)) (unat (sr_next_offset r))"
    using assms(1) by (auto simp: stream_inv_def)
  obtain left gs where ev: "evict_replay (cfg_replay_max_frames cfg) (cfg_replay_max_bytes cfg)
      (sr_replay_bytes r + length (fr_bytes f)) (sr_replay r @ [f]) = (left, gs)"
    by (metis surj_pair)
  have "frames_span q b (sr_replay r @ [f]) (unat n) (unat k)"
    unfolding n(1) k(1) by (rule frames_span_snoc [OF span(2)]) (simp_all add: assms)
  from evict_replay_span [OF this _ ev] assms(1) span(1) n k ev show
    "stream_inv cfg (push_replay cfg f (r\<lparr>sr_next_output := n, sr_next_offset := k\<rparr>))"
    by (simp add: stream_inv_def push_replay_def) (metis order_trans)
qed

text \<open>Between the check of the counters and the commit the stream stands still.\<close>

definition stream_at :: "broker_config \<Rightarrow> 'p cell \<Rightarrow> u64 \<Rightarrow> u64 \<Rightarrow> 'p cell \<Rightarrow> bool" where
  "stream_at cfg c0 q k c \<longleftrightarrow> cell_live cfg c0 c \<and> sr_next_output (fst c) = q \<and> sr_next_offset (fst c) = k"

lemma stream_at_record:
  "stream_at cfg c0 q k c \<Longrightarrow> same_stream (fst c) (f (fst c)) \<Longrightarrow> sr_command (f (fst c)) = sr_command (fst c)
    \<Longrightarrow> stream_at cfg c0 q k (on_record f c)"
  unfolding stream_at_def by (elim conjE) (simp add: live_record, simp add: same_stream_def on_record_def)

lemma observers_keep:
  assumes "stream_at cfg c0 q k c"
  shows "leaves (stream_at cfg c0 q k) (observe_display f c)" "leaves (stream_at cfg c0 q k) (observe_capture f c)"
    "leaves (stream_at cfg c0 q k) (observe_integration f c)" "leaves (stream_at cfg c0 q k) (observe_screen_stream f c)"
    "leaves (stream_at cfg c0 q k) (observe_model vt f c)"
  using stream_at_record [OF assms]
  by (simp_all add: leaves_def observe_display_def observe_capture_def observe_integration_def
      observe_screen_stream_def observe_model_def op_zoom_def op_ok_def assms same_stream_def split: option.split)

lemma capture_output_stream:
  "stream_inv cfg r \<Longrightarrow> stream_inv cfg (capture_output cfg f r)"
  using capture_bytes_bound [of "sr_capture r" "cfg_capture_max_bytes cfg" "fr_bytes f"]
  by (auto simp: stream_inv_def capture_output_def split: prod.split)

lemma capture_output_fields:
  "sr_terminal_id (capture_output cfg f r) = sr_terminal_id r" "sr_generation (capture_output cfg f r) = sr_generation r"
  "sr_transport_id (capture_output cfg f r) = sr_transport_id r" "sr_transport_kind (capture_output cfg f r) = sr_transport_kind r"
  "sr_next_output (capture_output cfg f r) = sr_next_output r" "sr_next_offset (capture_output cfg f r) = sr_next_offset r"
  "sr_next_input (capture_output cfg f r) = sr_next_input r" "sr_open (capture_output cfg f r) = sr_open r"
  "sr_lease (capture_output cfg f r) = sr_lease r" "sr_command (capture_output cfg f r) = sr_command r"
  by (simp_all add: capture_output_def split: prod.split)

lemma push_replay_fields:
  "sr_terminal_id (push_replay cfg f r) = sr_terminal_id r" "sr_generation (push_replay cfg f r) = sr_generation r"
  "sr_transport_id (push_replay cfg f r) = sr_transport_id r" "sr_transport_kind (push_replay cfg f r) = sr_transport_kind r"
  "sr_next_output (push_replay cfg f r) = sr_next_output r" "sr_next_offset (push_replay cfg f r) = sr_next_offset r"
  "sr_next_input (push_replay cfg f r) = sr_next_input r" "sr_open (push_replay cfg f r) = sr_open r"
  "sr_lease (push_replay cfg f r) = sr_lease r" "sr_command (push_replay cfg f r) = sr_command r"
  by (simp_all add: push_replay_def split: prod.split)

lemma live_changed:
  assumes "cell_live cfg c0 c" "stream_inv cfg r" "record_advances (fst c) r" "sr_open r" "sr_lease r \<noteq> None"
    and "sr_command r = sr_command (fst c)"
  shows "cell_live cfg c0 (r, snd c)"
proof -
  have "pointer_ok (r, snd c)"
    using assms by (auto simp: cell_live_def cell_at_def pointer_ok_def split: option.splits)
  then show ?thesis using assms record_advances_trans [OF _ assms(3), of "fst c0"]
    by (simp add: cell_live_def cell_at_def record_ok_def)
qed

lemma live_parts:
  "cell_live cfg c0 c \<Longrightarrow> stream_inv cfg (fst c)" "cell_live cfg c0 c \<Longrightarrow> sr_lease (fst c) \<noteq> None"
  by (auto simp: cell_live_def cell_at_def record_ok_def)

lemma capture_output_at:
  assumes "stream_at cfg c0 q k c"
  shows "stream_at cfg c0 q k (on_record (capture_output cfg f) c)"
proof -
  from assms have c: "cell_live cfg c0 c" by (simp add: stream_at_def)
  show ?thesis using assms live_changed [OF c capture_output_stream [OF live_parts(1) [OF c]], of f]
      live_parts(2) [OF c] cell_liveD(2) [OF c]
    by (simp add: stream_at_def on_record_def capture_output_fields record_advances_def)
qed

lemma capture_frame_advances: "command_advances d (capture_frame f d)"
  by (auto simp: capture_frame_def command_advances_def split: prod.split)

lemma commit_frame_live:
  assumes "cell_live cfg c0 c" "fr_sequence f = sr_next_output (fst c)" "fr_byte_offset f = sr_next_offset (fst c)"
    and "length (fr_bytes f) \<le> MAX_FRAME_BYTES"
  shows "leaves (cell_live cfg c0) (commit_frame cfg vt now f c)"
proof -
  let ?q = "sr_next_output (fst c)" let ?k = "sr_next_offset (fst c)" let ?I = "stream_at cfg c0 ?q ?k"
  have start: "?I c" using assms(1) by (simp add: stream_at_def)
  have stamp: "?I (on_record (\<lambda>r. r\<lparr>sr_last_output_at := now\<rparr>) b)" if "?I b" for b
    by (rule stream_at_record [OF that]) (simp_all add: same_stream_def)
  have cmd: "?I (case sr_command (fst b) of None \<Rightarrow> b | Some i \<Rightarrow> on_command i (capture_frame f) b)" if "?I b" for b
    using that by (auto simp: stream_at_def on_command_def [of _ _ b] capture_frame_advances
        intro: live_on_command [of _ _ b, unfolded on_command_def] split: option.split)
  have final: "cell_live cfg c0 (on_record (\<lambda>r. push_replay cfg f (r\<lparr>sr_next_output := n, sr_next_offset := k\<rparr>)) b)"
    if b: "?I b" and nk: "next_counters (fst c) f = Inr (n, k)" for b n k
  proof -
    from b have live: "cell_live cfg c0 b" by (simp add: stream_at_def)
    have eq: "next_counters (fst b) f = Inr (n, k)"
      using nk b by (simp add: next_counters_def stream_at_def)
    from b assms(2,3) have fr: "fr_sequence f = sr_next_output (fst b)" "fr_byte_offset f = sr_next_offset (fst b)"
      by (simp_all add: stream_at_def)
    note push = push_replay_stream [OF live_parts(1) [OF live] fr eq assms(4)]
    show ?thesis using live_changed [OF live push(1)] push(2) live_parts(2) [OF live] cell_liveD(2) [OF live]
      by (simp add: on_record_def push_replay_fields record_advances_def)
  qed
  have "leaves (\<lambda>b. ?I b \<or> cell_live cfg c0 b) (commit_frame cfg vt now f c)"
  proof (cases "next_counters (fst c) f")
    case (Inl x)
    then show ?thesis using start by (simp add: commit_frame_def)
  next
    case (Inr p)
    obtain n k where p: "p = (n, k)" by (cases p)
    have weaken: "leaves ?I r \<Longrightarrow> leaves (\<lambda>b. ?I b \<or> cell_live cfg c0 b) r" for r :: "('a, unit) cell_outcome"
      by (simp add: leaves_def)
    have bind: "leaves (\<lambda>b. ?I b \<or> cell_live cfg c0 b) (op_bind r g)"
      if "leaves ?I r" "\<And>a b. ?I b \<Longrightarrow> leaves (\<lambda>b. ?I b \<or> cell_live cfg c0 b) (g a b)"
      for r :: "('a, unit) cell_outcome" and g :: "unit \<Rightarrow> 'a cell \<Rightarrow> ('a, frame_acceptance) cell_outcome"
      using that by (cases r; cases "fst r") (auto simp: leaves_def)
    show ?thesis unfolding commit_frame_def Inr p op_bind_simps prod.case Let_def
      by (intro bind observers_keep start capture_output_at)
        (simp_all add: final [OF cmd [OF stamp] Inr [unfolded p]])
  qed
  then show ?thesis by (auto simp: leaves_def stream_at_def)
qed

lemma accept_raw_frame_live:
  assumes "cell_live cfg c0 c"
  shows "leaves (cell_live cfg c0) (accept_raw_frame cfg vt now f c)"
proof -
  have gap: "cell_live cfg c0 (on_record (\<lambda>r. r\<lparr>sr_subscribers := gap_subscribers (sr_subscribers r)\<rparr>) c)"
    by (rule live_record [OF assms]) (simp_all add: same_stream_def)
  show ?thesis unfolding accept_raw_frame_def Let_def
    by (intro leaves_if leaves_ok assms gap commit_frame_live) auto
qed

end
