(* ===== verification/Broker_Machine.thy ===== *)
theory Broker_Machine
  imports Broker_Invariants
begin

text \<open>
  The broker as a machine: one operation per method that changes its state, run in any
  order by the tabs, the transports, the shells and the Agent. The invariant ties the
  transports to the terminals and holds of every terminal after any run; the commands of
  the store only move forward. An operation whose fresh identifier is already taken is
  skipped: identifiers come from \<open>Uuid::new\_v4\<close>.
\<close>

subsection \<open>The operations\<close>

datatype (plugins only: code size) 't broker_op =
    BoAttach string string nat string "string option" transport_kind geometry
  | BoClose string close_reason
  | BoCloseAll "string list" close_reason
  | BoOutput nat string "u8 list"
  | BoResize string geometry
  | BoOutputReady string
  | BoPause string bool
  | BoRegister string string shell_kind
  | BoDegraded string shell_kind string
  | BoUnavailable string shell_kind string
  | BoChannelClosed string string string
  | BoEvent string string u64 integration_event
  | BoPrepareJob string u64 string 't string string string string string
  | BoJobOf string string string string
  | BoJobControl "'t shell_job" string bool
  | BoDiscardJob string
  | BoRejectJob string
  | BoUncertainJob string
  | BoJobCleanup string string
  | BoBegin string string string string "string option"
  | BoRequireRecovery string string
  | BoExpectClear string string
  | BoUncertainCommand string string
  | BoRetire string string
  | BoCommand string command_op
  | BoAcquire bool string string string string string
  | BoRelease string string string string string
  | BoInput string input_source input_kind "u8 list" bool
  | BoRollout rollout_defaults string "string list" rollout_request

definition broker_step ::
  "'p broker_env \<Rightarrow> ('p, 't) broker_state \<Rightarrow> 't broker_op \<Rightarrow> ('p, 't, unit) broker_outcome" where
  "broker_step env s x = (case x of
     BoAttach n l now t p k g \<Rightarrow> if br_sessions s n = None
       then op_void (attach_transport env n l now t p k g s) else op_ok () s
   | BoClose t reason \<Rightarrow> op_void (close_transport env t reason s)
   | BoCloseAll ids reason \<Rightarrow> close_all_open_generations env ids reason s
   | BoOutput now t bytes \<Rightarrow> op_void (observe_raw_output env now t bytes s)
   | BoResize t g \<Rightarrow> resize_terminal env t g s
   | BoOutputReady t \<Rightarrow> mark_output_ready t s
   | BoPause t paused \<Rightarrow> set_output_paused t paused s
   | BoRegister t i shell \<Rightarrow> register_integration_channel t i shell s
   | BoDegraded t shell reason \<Rightarrow> mark_integration_degraded t shell reason s
   | BoUnavailable t shell reason \<Rightarrow> mark_integration_unavailable t shell reason s
   | BoChannelClosed t i reason \<Rightarrow> integration_channel_closed t i reason s
   | BoEvent t i now e \<Rightarrow> accept_integration_event t i now e s
   | BoPrepareJob h now t target owner agent task operation source \<Rightarrow>
       op_void (prepare_shell_job env h now t target owner agent task operation source s)
   | BoJobOf h owner agent task \<Rightarrow> op_void (shell_job_of h owner agent task s)
   | BoJobControl j operation stop \<Rightarrow> op_void (prepare_shell_job_control j operation stop s)
   | BoDiscardJob operation \<Rightarrow> op_ok () (discard_shell_job_submission operation s)
   | BoRejectJob operation \<Rightarrow> op_ok () (reject_unsubmitted_shell_job operation s)
   | BoUncertainJob h \<Rightarrow> mark_shell_job_uncertain h s
   | BoJobCleanup h reason \<Rightarrow> record_shell_job_cleanup h reason s
   | BoBegin i t operation line submitted \<Rightarrow> if br_commands s i = None
       then op_void (begin_command env i t operation line submitted s) else op_ok () s
   | BoRequireRecovery t operation \<Rightarrow> require_native_input_recovery t operation s
   | BoExpectClear t operation \<Rightarrow> expect_native_clear t operation s
   | BoUncertainCommand t i \<Rightarrow> op_void (mark_command_uncertain t i s)
   | BoRetire t i \<Rightarrow> retire_command t i s
   | BoCommand i y \<Rightarrow> op_void (on_shared_command i (\<lambda>d. command_step d y) s)
   | BoAcquire interactive l t agent task operation \<Rightarrow>
       op_void (acquire_agent_lease interactive l t agent task operation s)
   | BoRelease l t agent task operation \<Rightarrow> op_void (release_agent_lease l t agent task operation s)
   | BoInput t src kind bytes written \<Rightarrow> op_void (admit_terminal_input env t src kind bytes written s)
   | BoRollout rd l ids q \<Rightarrow> apply_rollout env rd l ids q s)"

subsection \<open>The invariant\<close>

definition broker_inv :: "broker_config \<Rightarrow> ('p, 't) broker_state \<Rightarrow> bool" where
  "broker_inv cfg s \<longleftrightarrow>
     (\<forall>i r. br_sessions s i = Some r \<longrightarrow>
        sr_terminal_id r = i \<and> record_ok cfg r \<and> pointer_ok (r, br_commands s))
     \<and> (\<forall>t a. br_transports s t = Some a \<longrightarrow> (\<exists>r. br_sessions s (at_terminal a) = Some r
          \<and> sr_generation r = at_generation a \<and> sr_transport_id r = t))
     \<and> length (br_closed_order s) \<le> cfg_closed_capacity cfg"

definition broker_kept :: "broker_config \<Rightarrow> ('p, 't) broker_state \<Rightarrow> ('p, 't) broker_state \<Rightarrow> bool" where
  "broker_kept cfg s t \<longleftrightarrow> broker_inv cfg t \<and> store_advances (br_commands s) (br_commands t)"

lemma kept_refl: "broker_inv cfg s \<Longrightarrow> broker_kept cfg s s"
  by (simp add: broker_kept_def)

lemma kept_trans: "broker_kept cfg s t \<Longrightarrow> broker_kept cfg t u \<Longrightarrow> broker_kept cfg s u"
  unfolding broker_kept_def by (blast intro: store_advances_trans)

lemma kept_inv: "broker_kept cfg s t \<Longrightarrow> broker_inv cfg t"
  by (simp add: broker_kept_def)

lemma leaves_weaken: "leaves I r \<Longrightarrow> (\<And>s. I s \<Longrightarrow> J s) \<Longrightarrow> leaves J r"
  by (simp add: leaves_def)

lemma leaves_void: "leaves I (op_void r) = leaves I r"
  by (cases r; cases "fst r") (simp_all add: op_void_def leaves_def op_ok_def)

lemma kept_from:
  "broker_kept cfg s0 s \<Longrightarrow> leaves (broker_kept cfg s) r \<Longrightarrow> leaves (broker_kept cfg s0) r"
  by (rule leaves_weaken, assumption) (rule kept_trans)

lemma sessionD:
  assumes "broker_inv cfg s" "br_sessions s i = Some r"
  shows "sr_terminal_id r = i" "record_ok cfg r" "pointer_ok (r, br_commands s)"
  using assms by (simp_all add: broker_inv_def)

lemma inv_put_session:
  assumes inv: "broker_inv cfg s" and r: "br_sessions s i = Some r" and c: "cell_at cfg (r, br_commands s) c"
  shows "broker_kept cfg s (s\<lparr>br_sessions := (br_sessions s)(i \<mapsto> fst c), br_commands := snd c\<rparr>)"
proof -
  from c have adv: "store_advances (br_commands s) (snd c)" "record_advances r (fst c)"
    and ok: "record_ok cfg (fst c)" "pointer_ok c" by (simp_all add: cell_at_def)
  have pts: "pointer_ok (q, snd c)" if "br_sessions s j = Some q" for j q
    using pointer_ok_advances [OF sessionD(3) [OF inv that] adv(1)] .
  have att: "\<exists>q. ((br_sessions s)(i \<mapsto> fst c)) (at_terminal a) = Some q
      \<and> sr_generation q = at_generation a \<and> sr_transport_id q = t" if "br_transports s t = Some a" for t a
    using inv that r adv(2) by (fastforce simp: broker_inv_def record_advances_def)
  show ?thesis using inv adv ok pts att r unfolding broker_kept_def broker_inv_def
    by (auto simp: record_advances_def)
qed

lemma on_cell_kept:
  assumes "broker_inv cfg s" "br_sessions s i = Some r"
    and "leaves (cell_at cfg (r, br_commands s)) (m (r, br_commands s))"
  shows "leaves (broker_kept cfg s) (on_cell i r m s)"
  using inv_put_session [OF assms(1,2), of "snd (m (r, br_commands s))"] assms(3)
  by (simp add: leaves_def on_cell_def op_zoom_def)

lemma session_cell:
  assumes "broker_inv cfg s" "br_sessions s i = Some r"
  shows "cell_at cfg (r, br_commands s) (r, br_commands s)"
  using assms by (simp add: cell_at_refl broker_inv_def)

lemma with_current_kept:
  assumes inv: "broker_inv cfg s"
    and live: "\<And>a c. snd c = br_commands s \<Longrightarrow> cell_live cfg c c \<Longrightarrow> leaves (cell_live cfg c) (m a c)"
  shows "leaves (broker_kept cfg s) (with_current t m s)"
  unfolding with_current_def
proof (intro leaves_bind_check [where I = "broker_kept cfg s", OF kept_refl [OF inv]])
  fix a r assume "current_record s t a = Inr r"
  then have r: "br_sessions s (at_terminal a) = Some r" "sr_open r"
    by (auto simp: current_record_def res_simps split: if_splits)
  have "cell_live cfg (r, br_commands s) (r, br_commands s)"
    using session_cell [OF inv r(1)] r(2) by (simp add: cell_live_def)
  from live [OF _ this] have "leaves (cell_at cfg (r, br_commands s)) (m a (r, br_commands s))"
    by (auto intro: leaves_weaken cell_liveD)
  from on_cell_kept [where m = "m a", OF inv r(1) this]
  show "leaves (broker_kept cfg s) (on_cell (at_terminal a) r (m a) s)" .
qed

text \<open>A change that leaves the terminals, the transports and the commands alone.\<close>

lemma kept_other:
  assumes "broker_inv cfg s" "br_sessions t = br_sessions s" "br_transports t = br_transports s"
    "br_commands t = br_commands s" "br_closed_order t = br_closed_order s"
  shows "broker_kept cfg s t"
  using assms by (simp add: broker_kept_def broker_inv_def)

subsection \<open>Transports\<close>

lemma forget_closed_inv:
  assumes "broker_inv cfg s"
  shows "broker_kept cfg s (forget_closed i s)"
proof -
  have "((br_sessions s)(i := None)) (at_terminal a) = br_sessions s (at_terminal a)" if "at_terminal a \<noteq> i" for a
    using that by simp
  then show ?thesis using assms
    unfolding forget_closed_def broker_kept_def broker_inv_def retain_def
    by (auto split: option.splits if_splits)
qed

lemma forget_closed_order: "br_closed_order (forget_closed i s) = br_closed_order s"
  by (simp add: forget_closed_def)

lemma evict_closed_kept:
  assumes "broker_inv cfg s" "cfg_closed_capacity cfg = n"
  shows "broker_kept cfg s (evict_closed n is s)"
  using assms(1)
proof (induction "is" arbitrary: s)
  case Nil
  then show ?case by (simp add: broker_kept_def broker_inv_def)
next
  case (Cons i "is")
  show ?case
  proof (cases "n < length (i # is)")
    case True
    from kept_trans [OF forget_closed_inv [OF Cons.prems]
        Cons.IH [OF kept_inv [OF forget_closed_inv [OF Cons.prems]]]] True show ?thesis by simp
  next
    case False
    then show ?thesis using Cons.prems assms(2) by (simp add: broker_kept_def broker_inv_def)
  qed
qed

lemma remember_closed_kept:
  "broker_inv cfg s \<Longrightarrow> broker_kept cfg s (remember_closed (cfg_closed_capacity cfg) i s)"
  unfolding remember_closed_def by (rule evict_closed_kept) simp_all

lemma deactivate_kept:
  "broker_inv cfg s \<Longrightarrow> br_transports s t = Some a
    \<Longrightarrow> broker_kept cfg s (s\<lparr>br_transports := (br_transports s)(t \<mapsto> a\<lparr>at_active := False\<rparr>)\<rparr>)"
  by (auto simp: broker_kept_def broker_inv_def)

lemma close_cell_kept:
  assumes "broker_inv cfg s" "br_sessions s i = Some r"
  shows "leaves (broker_kept cfg s) (on_cell i r (close_record reason) s)"
  by (rule on_cell_kept [where m = "close_record reason", OF assms close_record_at [OF session_cell [OF assms]]])

lemma on_cell_transports: "leaves (\<lambda>t. br_transports t = br_transports s) (on_cell i r m s)"
  by (simp add: leaves_def on_cell_def op_zoom_def)

lemma on_cell_Inr: "on_cell i r m s = (Inr x, t) \<Longrightarrow> br_transports t = br_transports s"
  using on_cell_transports [of s i r m] by (simp add: leaves_def)

lemma take_over_kept:
  assumes "broker_inv cfg s"
  shows "leaves (broker_kept cfg s) (take_over p s)"
  unfolding take_over_def
proof (intro leaves_bind_check [where I = "broker_kept cfg s", OF kept_refl [OF assms]])
  fix a n r assume "ok_or (br_transports s p) PredecessorNotFound = Inr a"
    "ok_or (br_sessions s (at_terminal a)) BrokerSessionNotFound = Inr r"
  then have a: "br_transports s p = Some a" and r: "br_sessions s (at_terminal a) = Some r"
    by (auto simp: res_simps)
  have fin: "broker_kept cfg s (t\<lparr>br_transports := (br_transports t)(p :=
         map_option (\<lambda>a. a\<lparr>at_active := False\<rparr>) (br_transports t p))\<rparr>)"
    if "broker_kept cfg s t" "br_transports t = br_transports s" for t
    using kept_trans [OF that(1) deactivate_kept [OF kept_inv [OF that(1)], of p a]] that(2) a by simp
  show "leaves (broker_kept cfg s)
     (if sr_generation r \<noteq> at_generation a then op_err StalePredecessor s
     else if sr_open r \<and> sr_transport_id r \<noteq> p then op_err StalePredecessor s
     else op_bind (if sr_open r then on_cell (at_terminal a) r (close_record GenerationReplaced) s
                   else op_ok () s) (\<lambda>_ s.
       op_ok (at_terminal a, n) (s\<lparr>br_transports := (br_transports s)(p :=
         map_option (\<lambda>a. a\<lparr>at_active := False\<rparr>) (br_transports s p))\<rparr>)))"
    by (intro leaves_if leaves_ok kept_refl assms leaves_bind fin close_cell_kept r)
      (assumption, simp add: op_ok_def on_cell_Inr split: if_splits)
qed

lemma take_over_Inr:
  assumes "take_over p s = (Inr (i, n), t)"
  shows "\<exists>a r. br_transports s p = Some a \<and> at_terminal a = i \<and> br_sessions s i = Some r
    \<and> next_safe (sr_generation r) = Inr n \<and> sr_generation r = at_generation a
    \<and> br_transports t = (br_transports s)(p \<mapsto> a\<lparr>at_active := False\<rparr>)"
  using assms unfolding take_over_def res_simps
  by (auto simp: res_simps split: if_splits dest!: on_cell_Inr)

lemma open_generation_ok:
  "record_ok cfg ((open_generation vt i g t k geo b l now)\<lparr>sr_predecessors := ps\<rparr>)"
proof -
  have "frames_span 1 0 [] (unat (1 :: u64)) (unat (0 :: u64))" by simp
  then show ?thesis
    by (auto simp: record_ok_def stream_inv_def open_generation_def replay_size_def JAVASCRIPT_MAX_SAFE_INTEGER_def
        intro!: exI [of _ 1])
qed

lemma attach_fresh_kept:
  assumes inv: "broker_inv cfg s"
    and r: "record_ok cfg r" "sr_command r = None" "sr_terminal_id r = i" "sr_generation r = g" "sr_transport_id r = t"
    and v: "v = s\<lparr>br_transports := retain (\<lambda>_ a. at_terminal a \<noteq> i) (br_transports s),
      br_closed_order := filter (\<lambda>j. j \<noteq> i) (br_closed_order s)\<rparr>"
  shows "broker_kept cfg s (v\<lparr>br_sessions := (br_sessions v)(i \<mapsto> r), br_transports := (br_transports v)
      (t \<mapsto> \<lparr>at_terminal = i, at_generation = g, at_active = True\<rparr>)\<rparr>)"
proof -
  have "length (filter (\<lambda>j. j \<noteq> i) (br_closed_order s)) \<le> cfg_closed_capacity cfg"
    using inv by (auto simp: broker_inv_def intro: order_trans [OF length_filter_le])
  then show ?thesis using inv r
    by (auto simp: v broker_kept_def broker_inv_def pointer_ok_def retain_def split: if_splits option.splits)
qed

lemma attach_kept:
  assumes inv: "broker_inv cfg s"
  shows "leaves (broker_kept cfg s) (attach_transport env n l now t p k g s)"
proof -
  have fin: "leaves (broker_kept cfg s) (if JAVASCRIPT_MAX_SAFE_INTEGER < generation then op_err CounterExhausted u
       else let
           s = u\<lparr>br_transports := retain (\<lambda>_ a. at_terminal a \<noteq> terminal) (br_transports u),
               br_closed_order := filter (\<lambda>i. i \<noteq> terminal) (br_closed_order u)\<rparr>;
           predecessors = (case br_sessions s terminal of None \<Rightarrow> [] | Some r \<Rightarrow> sr_predecessors r)
             @ (case p of None \<Rightarrow> [] | Some p \<Rightarrow> [p]);
           r = (open_generation (be_emulator env) terminal generation t k g
               (effective_interactive_tools s k) l now)
             \<lparr>sr_predecessors := last_entries 32 predecessors\<rparr>
         in op_ok (Some (terminal, generation))
           (s\<lparr>br_sessions := (br_sessions s)(terminal \<mapsto> r),
              br_transports := (br_transports s)(t \<mapsto>
                \<lparr>at_terminal = terminal, at_generation = generation, at_active = True\<rparr>)\<rparr>))"
    if "broker_kept cfg s u" for terminal generation u
    unfolding Let_def
    by (intro leaves_if leaves_ok that
        kept_trans [OF that attach_fresh_kept [OF kept_inv [OF that] open_generation_ok]] refl)
      (simp_all add: open_generation_def)
  show ?thesis unfolding attach_transport_def
    apply (intro leaves_bind_check [where I = "broker_kept cfg s", OF kept_refl [OF inv]] leaves_if leaves_ok
        kept_refl inv leaves_bind)
     apply (auto simp: kept_refl inv intro: take_over_kept split: option.split) []
    apply (simp only: split_paired_all prod.case)
    apply (rule fin)
    apply assumption
    done
qed

lemma close_transport_kept:
  assumes inv: "broker_inv (be_config env) s"
  shows "leaves (broker_kept (be_config env) s) (close_transport env t reason s)"
proof -
  let ?K = "broker_kept (be_config env) s"
  have fin: "?K (remember_closed (cfg_closed_capacity (be_config env)) i
      (u\<lparr>br_transports := (br_transports u)(p \<mapsto> a\<lparr>at_active := False\<rparr>)\<rparr>))"
    if "?K u" "br_transports u = br_transports s" "br_transports s p = Some a" for u a i p
  proof -
    from that have d: "broker_kept (be_config env) u (u\<lparr>br_transports := (br_transports u)(p \<mapsto> a\<lparr>at_active := False\<rparr>)\<rparr>)"
      by (intro deactivate_kept kept_inv) simp_all
    from kept_trans [OF that(1) kept_trans [OF d remember_closed_kept [OF kept_inv [OF d]]]] show ?thesis .
  qed
  show ?thesis unfolding close_transport_def
    by (auto split: option.split intro!: kept_refl inv leaves_bind close_cell_kept fin dest: on_cell_Inr)
qed

lemma close_each_kept: "broker_inv cfg s \<Longrightarrow> leaves (broker_kept cfg s) (close_each reason is s)"
proof (induction "is" arbitrary: s)
  case (Cons i "is")
  then show ?case
    by (auto split: option.split intro!: leaves_bind close_cell_kept
        intro: kept_from kept_inv)
qed (simp add: kept_refl)

lemma close_all_kept:
  assumes inv: "broker_inv (be_config env) s"
  shows "leaves (broker_kept (be_config env) s) (close_all_open_generations env ids reason s)"
proof -
  let ?K = "broker_kept (be_config env) s"
  have each: "?K u \<Longrightarrow> ?K (foldl (\<lambda>s i. remember_closed (cfg_closed_capacity (be_config env)) i s) u is)" for u "is"
    by (induction "is" arbitrary: u) (simp_all add: kept_trans [OF _ remember_closed_kept [OF kept_inv]])
  have off: "?K (u\<lparr>br_transports := map_option (\<lambda>a. a\<lparr>at_active := False\<rparr>) \<circ> br_transports u\<rparr>)" if "?K u" for u
    using that by (auto simp: broker_kept_def broker_inv_def)
  show ?thesis unfolding close_all_open_generations_def Let_def
    by (auto intro!: leaves_bind close_each_kept inv each off)
qed

subsection \<open>The current terminal\<close>

lemma update_current_kept:
  assumes "broker_inv cfg s" "\<And>c. cell_live cfg c c \<Longrightarrow> leaves (cell_live cfg c) (m c)"
  shows "leaves (broker_kept cfg s) (update_current t m s)"
  unfolding update_current_def
  by (auto intro!: kept_refl with_current_kept assms)

lemma observe_raw_output_kept:
  assumes "broker_inv (be_config env) s"
  shows "leaves (broker_kept (be_config env) s) (observe_raw_output env now t bytes s)"
  unfolding observe_raw_output_def Let_def
  by (auto intro!: kept_refl assms with_current_kept leaves_bind accept_raw_frame_live)

lemma resize_kept:
  assumes "broker_inv cfg s"
  shows "leaves (broker_kept cfg s) (resize_terminal env t g s)"
  unfolding resize_terminal_def Let_def
proof (rule update_current_kept [OF assms])
  fix c :: "'a cell" assume c: "cell_live cfg c c"
  let ?b = "on_record (\<lambda>r. r\<lparr>sr_geometry := g\<rparr>) c"
  have b: "cell_live cfg c ?b" by (rule live_record [OF c]) (simp_all add: same_stream_def)
  have screen: "cell_live cfg c (on_record (\<lambda>r. r\<lparr>sr_screen := Some m\<rparr>) ?b)" for m
    by (rule live_record [OF b]) (simp_all add: same_stream_def)
  show "leaves (cell_live cfg c) (case sr_screen (fst ?b) of None \<Rightarrow> op_ok () ?b
     | Some m \<Rightarrow> op_bind (op_zoom (\<lambda>m. on_record (\<lambda>r. r\<lparr>sr_screen := Some m\<rparr>))
         (resize_screen (be_emulator env) g m) ?b) (\<lambda>_ c. op_ok () c))"
  proof (cases "sr_screen (fst ?b)")
    case (Some m)
    have "leaves (cell_live cfg c) (op_zoom (\<lambda>m. on_record (\<lambda>r. r\<lparr>sr_screen := Some m\<rparr>))
         (resize_screen (be_emulator env) g m) ?b)"
      unfolding leaves_def op_zoom_def snd_conv by (rule screen)
    then show ?thesis unfolding Some option.case by (rule leaves_bind) simp
  qed (simp add: b)
qed

lemma marks_kept:
  assumes "broker_inv cfg s"
  shows "leaves (broker_kept cfg s) (mark_output_ready t s)" "leaves (broker_kept cfg s) (set_output_paused t b s)"
  unfolding mark_output_ready_def set_output_paused_def
  by (intro update_current_kept [OF assms]; simp add: live_record same_stream_def)+

lemma degraded_kept:
  assumes "broker_inv cfg s"
  shows "leaves (broker_kept cfg s) (mark_integration_degraded t shell reason s)"
    "leaves (broker_kept cfg s) (mark_integration_unavailable t shell reason s)"
  unfolding mark_integration_degraded_def mark_integration_unavailable_def
  by (intro update_current_kept [OF assms] live_degrade live_advance_revision live_settle_active;
      simp add: live_record same_stream_def)+

lemma register_kept:
  assumes "broker_inv cfg s"
  shows "leaves (broker_kept cfg s) (register_integration_channel t i shell s)"
  unfolding register_integration_channel_def
  by (intro leaves_bind_check [where I = "broker_kept cfg s"] leaves_if leaves_ok kept_refl assms with_current_kept
      live_degrade live_advance_revision)
    (auto intro!: live_record simp: same_stream_def Let_def)

lemma channel_closed_kept:
  assumes "broker_inv cfg s"
  shows "leaves (broker_kept cfg s) (integration_channel_closed t i reason s)"
  unfolding integration_channel_closed_def
  by (intro leaves_if leaves_ok kept_refl assms with_current_kept live_degrade)

subsection \<open>Jobs and integration events\<close>

lemma job_event_kept:
  assumes "broker_inv cfg s"
  shows "leaves (broker_kept cfg s) (job_event t i h observed code now a s)"
proof -
  have put: "broker_kept cfg s (s\<lparr>br_jobs := js\<rparr>)" for js by (rule kept_other [OF assms]) simp_all
  show ?thesis unfolding job_event_def Let_def
    by (intro leaves_bind_check [where I = "broker_kept cfg s"] leaves_if leaves_ok kept_refl assms)
      (simp_all add: put)
qed

lemma settle_submission_kept: "broker_inv cfg s \<Longrightarrow> broker_kept cfg s (settle_submission x s)"
  by (rule kept_other) (auto simp: settle_submission_def map_job_def split: option.split)

lemma accept_event_kept:
  assumes inv: "broker_inv cfg s"
  shows "leaves (broker_kept cfg s) (accept_integration_event t i now e s)"
proof -
  have other: "leaves (broker_kept cfg s) (op_bind (op_check (job_submission_event t a e s) s) (\<lambda>submission s.
       op_bind (op_check (current_record s t a) s) (\<lambda>r s.
       op_bind (on_cell (at_terminal a) r (accept_cell_event i (submission \<noteq> None) e) s)
         (\<lambda>counted s. op_ok () (if counted then settle_submission submission s else s)))))" for a e
  proof (intro leaves_bind_check [where I = "broker_kept cfg s", OF kept_refl [OF inv]])
    fix submission :: "(string \<times> string \<times> bool) option" and r assume "current_record s t a = Inr r"
    then have r: "br_sessions s (at_terminal a) = Some r" "sr_open r"
      by (auto simp: current_record_def res_simps split: if_splits)
    have "cell_live cfg (r, br_commands s) (r, br_commands s)"
      using session_cell [OF inv r(1)] r(2) by (simp add: cell_live_def)
    from accept_cell_event_live [OF this, of i "submission \<noteq> None" e]
    have "leaves (cell_at cfg (r, br_commands s)) (accept_cell_event i (submission \<noteq> None) e (r, br_commands s))"
      by (auto intro: leaves_weaken cell_liveD)
    from on_cell_kept [where m = "accept_cell_event i (submission \<noteq> None) e", OF inv r(1) this]
    show "leaves (broker_kept cfg s) (op_bind (on_cell (at_terminal a) r (accept_cell_event i (submission \<noteq> None) e) s)
         (\<lambda>counted s. op_ok () (if counted then settle_submission submission s else s)))"
      by (rule leaves_bind) (auto intro: kept_trans settle_submission_kept kept_inv)
  qed
  show ?thesis unfolding accept_integration_event_def
    by (rule leaves_bind_check [where I = "broker_kept cfg s", OF kept_refl [OF inv]])
      (cases e; simp only: integration_event.case other job_event_kept [OF inv])
qed

lemma job_operations_kept:
  assumes "broker_inv cfg s"
  shows "leaves (broker_kept cfg s) (prepare_shell_job env h now t target owner agent task operation source s)"
    "leaves (broker_kept cfg s) (shell_job_of h owner agent task s)"
    "leaves (broker_kept cfg s) (prepare_shell_job_control j operation stop s)"
    "broker_kept cfg s (discard_shell_job_submission operation s)"
    "broker_kept cfg s (reject_unsubmitted_shell_job operation s)"
    "leaves (broker_kept cfg s) (mark_shell_job_uncertain h s)"
    "leaves (broker_kept cfg s) (record_shell_job_cleanup h reason s)"
proof -
  have put: "broker_kept cfg s (s\<lparr>br_jobs := js\<rparr>)" "broker_kept cfg s (s\<lparr>br_prepared := ps\<rparr>)"
    "broker_kept cfg s (s\<lparr>br_prepared := ps, br_jobs := js\<rparr>)" "broker_kept cfg s (map_job h f s)" for js ps h f
    by (rule kept_other [OF assms]; simp add: map_job_def)+
  note intros = leaves_bind_check [where I = "broker_kept cfg s"] leaves_if leaves_ok kept_refl assms put
  show "leaves (broker_kept cfg s) (prepare_shell_job env h now t target owner agent task operation source s)"
    unfolding prepare_shell_job_def Let_def by (intro intros)
  show "leaves (broker_kept cfg s) (shell_job_of h owner agent task s)"
    unfolding shell_job_of_def Let_def by (intro intros)
  show "leaves (broker_kept cfg s) (prepare_shell_job_control j operation stop s)"
    unfolding prepare_shell_job_control_def by (intro intros)
  show "broker_kept cfg s (discard_shell_job_submission operation s)"
    unfolding discard_shell_job_submission_def by (intro intros)
  show "broker_kept cfg s (reject_unsubmitted_shell_job operation s)"
    by (simp add: reject_unsubmitted_shell_job_def intros split: option.split)
  show "leaves (broker_kept cfg s) (mark_shell_job_uncertain h s)"
    unfolding mark_shell_job_uncertain_def by (rule intros(1)) (simp_all add: intros)
  show "leaves (broker_kept cfg s) (record_shell_job_cleanup h reason s)"
    unfolding record_shell_job_cleanup_def by (rule intros(1)) (simp_all add: intros)
qed

subsection \<open>Commands, the lease, the input\<close>

lemma live_begin:
  assumes c: "cell_live cfg c c" and new: "snd c i = None" and d: "cmd_command_id d = i"
  shows "cell_live cfg c (on_record (\<lambda>r. r\<lparr>sr_command := Some i, sr_clear_scope := None,
               sr_prompt_ready := False\<rparr>) (put_command i d c))"
proof -
  have "store_advances (snd c) ((snd c)(i \<mapsto> d))" using new by (auto simp: store_advances_def)
  from at_store [OF cell_liveD(1) [OF c] this] have p: "cell_live cfg c (put_command i d c)"
    using c by (simp add: put_command_def cell_live_def)
  let ?r = "(fst c)\<lparr>sr_command := Some i, sr_clear_scope := None, sr_prompt_ready := False\<rparr>"
  have "cell_live cfg c (?r, snd (put_command i d c))"
    by (rule live_stream [OF p]) (simp_all add: same_stream_def put_command_def pointer_ok_def d)
  then show ?thesis by (simp add: on_record_def put_command_def)
qed

lemma begin_command_kept:
  assumes inv: "broker_inv cfg s" and new: "br_commands s i = None"
  shows "leaves (broker_kept cfg s) (begin_command env i t operation line submitted s)"
proof -
  have begun: "cell_live cfg c (on_record (\<lambda>r. r\<lparr>sr_command := Some i, sr_clear_scope := None,
               sr_prompt_ready := False\<rparr>) (put_command i ((new_command i a b operation line j q n)
               \<lparr>cmd_submitted_line := sub\<rparr>) c))"
    if "cell_live cfg c c" "snd c = br_commands s" for c :: "'a cell" and a b j q n sub
    by (rule live_begin) (use that new in \<open>simp_all add: new_command_def\<close>)
  have step: "leaves (cell_live cfg c) (op_bind (advance_revision (on_record (\<lambda>r. r\<lparr>sr_command := Some i, sr_clear_scope := None,
               sr_prompt_ready := False\<rparr>) (put_command i ((new_command i a b operation line j q n)
               \<lparr>cmd_submitted_line := sub\<rparr>) c))) (\<lambda>_ c. op_ok i c))"
    if "cell_live cfg c c" "snd c = br_commands s" for c :: "'a cell" and a b j q n sub
    by (rule leaves_bind [OF live_advance_revision [OF begun [OF that]]]) simp
  show ?thesis unfolding begin_command_def Let_def
    by (intro leaves_bind_check [where I = "broker_kept cfg s", OF kept_refl [OF inv]] leaves_if leaves_ok
        kept_refl inv with_current_kept)
      (auto intro!: leaves_bind_check step)
qed

lemma command_operations_kept:
  assumes inv: "broker_inv cfg s"
  shows "leaves (broker_kept cfg s) (require_native_input_recovery t operation s)"
    "leaves (broker_kept cfg s) (expect_native_clear t operation s)"
    "leaves (broker_kept cfg s) (mark_command_uncertain t i s)"
    "leaves (broker_kept cfg s) (retire_command t i s)"
proof -
  show "leaves (broker_kept cfg s) (require_native_input_recovery t operation s)"
    unfolding require_native_input_recovery_def
    by (intro with_current_kept inv leaves_if leaves_ok live_record) (simp_all add: same_stream_def)
  show "leaves (broker_kept cfg s) (expect_native_clear t operation s)"
    unfolding expect_native_clear_def Let_def
  proof (intro with_current_kept inv)
    fix c :: "'a cell" assume c: "cell_live cfg c c"
    show "leaves (cell_live cfg c) (op_bind (op_check (require_ready (fst c)) c) (\<lambda>_ c.
     if \<not> sr_native_checkpoints (fst c) \<or> \<not> posix_shell (sr_shell (fst c))
       \<or> sr_clear_scope (fst c) \<noteq> Some (operation, sr_integration_id (fst c)) \<or> \<not> owns_record operation (fst c)
     then op_err InputRecoveryRequired c
     else if sr_clear_pending (fst c) \<noteq> None then op_err InputRecoveryRequired c
     else op_bind (op_check (next_safe (sr_clear_sequence (fst c))) c) (\<lambda>n c.
       op_ok () (on_record (\<lambda>r. r\<lparr>sr_clear_pending := Some \<lparr>clp_operation = operation,
           clp_integration = sr_integration_id r, clp_sequence = n, clp_queued = False\<rparr>,
         sr_clear_confirmed := None, sr_input_pending := True, sr_prompt_ready := False\<rparr>) c))))"
      by (intro leaves_bind_check [where I = "cell_live cfg c", OF c] leaves_if leaves_ok c live_record)
        (simp_all add: same_stream_def)
  qed
  show "leaves (broker_kept cfg s) (mark_command_uncertain t i s)"
    unfolding mark_command_uncertain_def
  proof (intro with_current_kept inv live_with_active leaves_ok leaves_if)
    fix c :: "'a cell" and j d assume c: "cell_live cfg c c" "snd c j = Some d"
    show "leaves (cell_live cfg c) (case settle_command_uncertain (through_sequence (fst c)) d of
         (changed, d) \<Rightarrow> op_ok changed (put_command j d c))"
      using live_put_command [OF c settle_uncertain_advances] by (simp add: case_prod_beta)
  qed
  show "leaves (broker_kept cfg s) (retire_command t i s)"
    unfolding retire_command_def
  proof (intro with_current_kept inv live_with_active leaves_ok leaves_if)
    fix c :: "'a cell" and j d assume c: "cell_live cfg c c" "snd c j = Some d"
    show "cell_live cfg c (on_record (\<lambda>r. (if \<not> cmd_started d \<and> \<not> sr_input_pending r
             then r\<lparr>sr_prompt_ready := (sr_integration r = IntReady)\<rparr> else r)\<lparr>sr_command := None\<rparr>)
           (put_command j (finalize_capture (through_sequence (fst c)) d) c))"
      by (rule live_forget_command [OF live_put_command [OF c]])
        (simp_all add: finalize_capture_def command_advances_def same_stream_def put_command_def)
  qed
qed

lemma shared_command_kept:
  assumes inv: "broker_inv cfg s" and f: "\<And>d. forwards d (f d)"
  shows "leaves (broker_kept cfg s) (on_shared_command i f s)"
proof (cases "br_commands s i")
  case (Some d)
  have put: "broker_kept cfg s (s\<lparr>br_commands := (br_commands s)(i \<mapsto> snd (f d))\<rparr>)"
  proof -
    have adv: "store_advances (br_commands s) ((br_commands s)(i \<mapsto> snd (f d)))"
      using store_put_advances [where m = "br_commands s", OF Some] f [of d] by (simp add: forwards_def)
    then show ?thesis using inv pointer_ok_advances [OF _ adv]
      by (auto simp: broker_kept_def broker_inv_def)
  qed
  have "leaves (broker_kept cfg s) (op_zoom (\<lambda>d s. s\<lparr>br_commands := (br_commands s)(i \<mapsto> d)\<rparr>) (f d) s)"
    unfolding leaves_def op_zoom_def snd_conv by (rule put)
  then show ?thesis unfolding on_shared_command_def Some option.case by (rule leaves_bind) simp
qed (simp add: on_shared_command_def kept_refl inv)

lemma lease_operations_kept:
  assumes inv: "broker_inv cfg s"
  shows "leaves (broker_kept cfg s) (acquire_agent_lease b l t agent task operation s)"
    "leaves (broker_kept cfg s) (release_agent_lease l t agent task operation s)"
proof -
  have put: "cell_live cfg c (on_record (\<lambda>r. r\<lparr>sr_lease := Some l\<rparr>) c)" if "cell_live cfg c c" for c :: "'a cell" and l
    by (rule live_record [OF that]) (use live_parts(2) [OF that] in \<open>simp_all add: same_stream_def\<close>)
  show "leaves (broker_kept cfg s) (acquire_agent_lease b l t agent task operation s)"
    unfolding acquire_agent_lease_def Let_def
    by (intro leaves_bind_check [where I = "broker_kept cfg s", OF kept_refl [OF inv]] leaves_if leaves_ok
        kept_refl inv with_current_kept)
      (auto intro!: leaves_bind_check put)
  show "leaves (broker_kept cfg s) (release_agent_lease l t agent task operation s)"
    unfolding release_agent_lease_def
    by (intro leaves_if leaves_ok kept_refl inv with_current_kept)
      (auto intro!: leaves_bind_check put split: lease_owner.split)
qed

lemma next_safe_Inr:
  "next_safe n = Inr m \<Longrightarrow> unat m = unat n + 1 \<and> m \<le> JAVASCRIPT_MAX_SAFE_INTEGER"
  by (auto simp: next_safe_def checked_add_def unat_word_ariths split: option.splits if_splits)

lemma admit_cell_live:
  assumes c: "cell_live cfg c c"
  shows "leaves (cell_live cfg c) (admit_cell env prepared remote execute src kind bytes written c)"
proof -
  let ?note = "\<lambda>c. case sr_command (fst c) of
             Some i \<Rightarrow> if is_agent_source src \<and> bytes \<noteq> PROBE_EDITOR \<and> bytes \<noteq> FRAME_EDITOR
               then on_command i (\<lambda>d. d\<lparr>cmd_source_may_be_enqueued := True\<rparr>) c else c
           | None \<Rightarrow> c"
  have note_live: "cell_live cfg c (?note c)" "fst (?note c) = fst c"
    by (auto simp: c command_advances_def on_command_def [of _ _ c] split: option.split
        intro: live_on_command [OF c, unfolded on_command_def])
  have after: "leaves (cell_live cfg c) (after_write src bytes typing probe submission n b)"
    if b: "cell_live cfg c b" "fst b = fst c" and n: "next_safe (sr_next_input (fst c)) = Inr n"
    for b typing probe submission n
  proof -
    let ?f = "\<lambda>r. let r = (if bytes = CLEAR_EDITOR \<and> is_system_source src
                then r\<lparr>sr_clear_pending := map_option (\<lambda>p. p\<lparr>clp_queued := True\<rparr>) (sr_clear_pending r)\<rparr> else r);
              r = (if typing \<and> \<not> probe then r\<lparr>sr_input_pending := True\<rparr> else r)
          in if is_agent_source src \<and> (bytes = ACCEPT_LINE \<or> enter_key bytes)
             then r\<lparr>sr_clear_scope := None\<rparr> else r"
    let ?I = "\<lambda>x. cell_live cfg c x \<and> sr_next_input (fst x) = sr_next_input (fst c)"
    have f: "?I (on_record ?f b)"
      using live_record [OF b(1), of ?f] b(2) by (simp add: same_stream_def on_record_def Let_def)
    have quiet: "?I x \<Longrightarrow> same_stream (fst x) (g (fst x)) \<Longrightarrow> sr_command (g (fst x)) = sr_command (fst x)
        \<Longrightarrow> ?I (on_record g x)" for x :: "'a cell" and g
      using live_record [of cfg c x g] by (simp add: same_stream_def on_record_def)
    have adv: "?I x \<Longrightarrow> leaves ?I (advance_revision x)" for x :: "'a cell"
      unfolding advance_revision_def
      by (rule leaves_bind_check [where I = ?I], assumption) (simp only: leaves_simps, rule quiet, simp_all add: same_stream_def)
    have set: "cell_live cfg c (on_record (\<lambda>r. r\<lparr>sr_next_input := n\<rparr>) x)" if x: "?I x" for x
    proof -
      have "stream_inv cfg ((fst x)\<lparr>sr_next_input := n\<rparr>)"
        using live_parts(1) [of cfg c x] x next_safe_Inr [OF n] by (simp add: stream_inv_def)
      moreover have "record_advances (fst x) ((fst x)\<lparr>sr_next_input := n\<rparr>)"
        using x next_safe_Inr [OF n] by (simp add: record_advances_def word_le_nat_alt)
      ultimately show ?thesis
        using live_changed [of cfg c x "(fst x)\<lparr>sr_next_input := n\<rparr>"] x live_parts(2) [of cfg c x] cell_liveD(2) [of cfg c x]
        by (simp add: on_record_def)
    qed
    have fin: "leaves (cell_live cfg c) (op_bind r (\<lambda>_ c. op_ok () (on_record (\<lambda>r. r\<lparr>sr_next_input := n\<rparr>) c)))"
      if "leaves ?I r" for r :: "('a, unit) cell_outcome"
      using that set by (cases r; cases "fst r") (auto simp: leaves_def op_ok_def)
    note f' = f [unfolded Let_def]
    have st: "leaves ?I (if submission then advance_revision (on_record (\<lambda>r. r\<lparr>sr_prompt_ready := False\<rparr>) y)
        else op_ok () y)" if "?I y" for y :: "'a cell"
      by (intro leaves_if adv quiet [OF that] leaves_ok that) (simp_all add: same_stream_def)
    show ?thesis unfolding after_write_def Let_def by (rule fin, rule st, rule f')
  qed
  show ?thesis unfolding admit_cell_def Let_def
    by (intro leaves_bind_check [where I = "cell_live cfg c", OF c] leaves_if leaves_ok leaves_bind after note_live)
qed

lemma admit_terminal_input_kept:
  assumes inv: "broker_inv cfg s"
  shows "leaves (broker_kept cfg s) (admit_terminal_input env t src kind bytes written s)"
  unfolding admit_terminal_input_def
  by (intro leaves_bind_check [where I = "broker_kept cfg s", OF kept_refl [OF inv]] leaves_if leaves_ok
      kept_refl inv with_current_kept admit_cell_live)

subsection \<open>The rollout\<close>

lemma on_each_kept:
  assumes m: "\<And>c. cell_live cfg c c \<Longrightarrow> leaves (cell_live cfg c) (m c)" and P: "\<And>r. P r \<Longrightarrow> sr_open r"
  shows "broker_inv cfg s \<Longrightarrow> leaves (broker_kept cfg s) (on_each P m is s)"
proof (induction "is" arbitrary: s)
  case (Cons i "is")
  have cell: "leaves (broker_kept cfg s) (on_cell i r m s)" if r: "br_sessions s i = Some r" "P r" for r
  proof -
    have "cell_live cfg (r, br_commands s) (r, br_commands s)"
      using session_cell [OF Cons.prems r(1)] P [OF r(2)] by (simp add: cell_live_def)
    from m [OF this] show ?thesis
      by (intro on_cell_kept [where m = m, OF Cons.prems r(1)]) (auto intro: leaves_weaken cell_liveD)
  qed
  then show ?case using Cons.IH Cons.prems
    by (auto split: option.split intro!: leaves_bind intro: kept_from kept_inv)
qed (simp add: kept_refl)

lemma rollout_cells:
  assumes "cell_live cfg c c"
  shows "leaves (cell_live cfg c) (settle_cell c)" "leaves (cell_live cfg c) (revoke_cell l c)"
proof -
  have settled: "cell_live cfg c (settle_active c)" by (rule live_settle_active [OF assms])
  have put: "cell_live cfg c (on_record (\<lambda>r. r\<lparr>sr_lease := Some l\<rparr>) (settle_active c))" for l
    by (rule live_record [OF settled]) (use live_parts(2) [OF settled] in \<open>simp_all add: same_stream_def\<close>)
  show "leaves (cell_live cfg c) (settle_cell c)" by (simp add: settle_cell_def settled)
  show "leaves (cell_live cfg c) (revoke_cell l c)" unfolding revoke_cell_def Let_def
    by (auto simp: settled put intro!: leaves_bind_check split: option.split)
qed

lemma roll_back_kept:
  assumes inv: "broker_inv (be_config env) s"
  shows "leaves (broker_kept (be_config env) s) (roll_back env l ids q s)"
  unfolding roll_back_def Let_def
  by (intro leaves_if leaves_ok kept_refl inv close_all_kept on_each_kept live_degrade rollout_cells) simp_all

lemma apply_rollout_kept:
  assumes inv: "broker_inv (be_config env) s"
  shows "leaves (broker_kept (be_config env) s) (apply_rollout env rd l ids q s)"
  unfolding apply_rollout_def Let_def
  by (rule leaves_bind [OF roll_back_kept [OF inv]])
    (simp, rule kept_trans, assumption, rule kept_other, auto intro: kept_inv)

subsection \<open>The machine\<close>

lemma broker_step_kept:
  assumes "broker_inv (be_config env) s"
  shows "leaves (broker_kept (be_config env) s) (broker_step env s x)"
  using assms
  by (cases x)
    (simp_all add: broker_step_def leaves_void kept_refl attach_kept close_transport_kept close_all_kept
      observe_raw_output_kept resize_kept marks_kept register_kept degraded_kept channel_closed_kept
      accept_event_kept job_operations_kept begin_command_kept command_operations_kept
      shared_command_kept command_step_forwards lease_operations_kept admit_terminal_input_kept
      apply_rollout_kept)

interpretation broker: forward_machine "broker_step env" "broker_inv (be_config env)"
  "\<lambda>s t. store_advances (br_commands s) (br_commands t)"
  by unfold_locales
    (use broker_step_kept in \<open>auto simp: leaves_def broker_kept_def intro: store_advances_trans\<close>)

lemma new_broker_inv: "broker_inv cfg (new_broker rd)"
  by (simp add: broker_inv_def new_broker_def Let_def)

lemmas reachable_inv = broker.run_leaves [OF new_broker_inv]

end
