(* ===== verification/Terminal_Lease.thy ===== *)
theory Terminal_Lease
  imports Broker_Machine
begin

text \<open>
  The leases of the Agent on terminals (agent\_runtime/native/terminal\_lease.rs,
  \<open>TerminalLeaseManager\<close>): a client of the broker that adds what the broker does not know,
  namely the turn of an Agent Session on a terminal with the child Sessions it admits, the
  takeover by the user that lasts until the turn ends, and the acknowledgement of the
  frontend before anything is typed. The manager takes its locks in one order; a method is
  one step for each section that holds locks, so \<open>release\_terminal\<close> and \<open>release\_turn\<close>,
  which take two locks one after the other, are two steps each. The write to the transport
  is a flag, as in the broker.
\<close>

subsection \<open>Data\<close>

record agent_lease =
  al_session_id :: string
  al_agent :: string
  al_task :: string
  al_operation :: string
  al_acquired_at :: u64

datatype (plugins only: code size) release_reason =
    ReleaseCompleted
  | ReleaseCancelled
  | ReleaseTimedOut
  | ReleaseFailed
  | ReleaseTakenOver
  | ReleaseTerminalClosed
  | ReleaseShutdown

datatype (plugins only: code size) lease_event_state = LeaseAcquired | LeaseActivity | LeaseReleased

datatype (plugins only: code size) command_phase = PhaseTyping | PhaseRunning

record lease_event =
  le_lease :: agent_lease
  le_state :: lease_event_state
  le_display :: "string option"
  le_execution :: "bool option"
  le_phase :: "command_phase option"
  le_reason :: "release_reason option"

datatype (plugins only: code size) frontend_refusal =
    FrontendNotConnected
  | FrontendOutputNotReady
  | FrontendPendingInput
  | FrontendUnverifiedInput
  | FrontendCredentialPrompt

datatype (plugins only: code size) lease_error =
    LeaseBusy
  | LeaseNotFound
  | LeaseOwnerMismatch
  | LeaseOperationMismatch
  | LeaseUserInputBlocked
  | LeaseTakenOver
  | LeaseBroker broker_error
  | LeaseFrontend frontend_refusal
  | LeaseReadyTimeout
  | LeaseReadyUnavailable

datatype (plugins only: code size) frontend_ready = FrontendPending | FrontendReady | FrontendRejected frontend_refusal

record lease_record =
  lr_lease :: agent_lease
  lr_frontend :: frontend_ready
  lr_reduced_motion :: bool

record turn_guard =
  tg_owner :: string
  tg_delegates :: "string set"

definition new_guard :: "string \<Rightarrow> turn_guard" where
  "new_guard owner = \<lparr>tg_owner = owner, tg_delegates = {}\<rparr>"

definition admits :: "turn_guard \<Rightarrow> string \<Rightarrow> bool" where
  "admits g agent \<longleftrightarrow> tg_owner g = agent \<or> agent \<in> tg_delegates g"

datatype (plugins only: code size) lease_source =
    SourceUser
  | SourceAgent string string string \<comment> \<open>Agent Session, task, operation\<close>
  | SourceSystem "string option"

record ('p, 't) lease_manager =
  lm_leases :: "string \<rightharpoonup> lease_record"
  lm_guards :: "string \<rightharpoonup> turn_guard"
  lm_taken :: "(string \<times> string) set"
  lm_publisher :: bool
  lm_published :: "lease_event list"
  lm_broker :: "('p, 't) broker_state"

type_synonym ('p, 't, 'a) lease_outcome = "(('p, 't) lease_manager, lease_error, 'a) outcome"

definition new_manager :: "('p, 't) broker_state \<Rightarrow> ('p, 't) lease_manager" where
  "new_manager b = \<lparr>lm_leases = Map.empty, lm_guards = Map.empty, lm_taken = {}, lm_publisher = False,
     lm_published = [], lm_broker = b\<rparr>"

text \<open>A call of the broker: its state is kept whatever it answers.\<close>

definition call_broker ::
  "(('p, 't) broker_state \<Rightarrow> ('p, 't, 'a) broker_outcome) \<Rightarrow> ('p, 't) lease_manager \<Rightarrow> ('p, 't, 'a) lease_outcome" where
  "call_broker f s = (let r = f (lm_broker s) in
     (map_sum LeaseBroker id (fst r), s\<lparr>lm_broker := snd r\<rparr>))"

definition publish :: "lease_event \<Rightarrow> ('p, 't) lease_manager \<Rightarrow> ('p, 't) lease_manager" where
  "publish e s = (if lm_publisher s then s\<lparr>lm_published := lm_published s @ [e]\<rparr> else s)"

definition released_event :: "agent_lease \<Rightarrow> release_reason \<Rightarrow> lease_event" where
  "released_event l reason = \<lparr>le_lease = l, le_state = LeaseReleased, le_display = None,
     le_execution = None, le_phase = None, le_reason = Some reason\<rparr>"

definition validate_owner :: "agent_lease \<Rightarrow> string \<Rightarrow> string option \<Rightarrow> string \<Rightarrow> lease_error + unit" where
  "validate_owner l agent task operation =
     try_bind (ensure (al_operation l = operation) LeaseOperationMismatch) (\<lambda>_.
     ensure (al_agent l = agent \<and> (case task of None \<Rightarrow> True | Some t \<Rightarrow> al_task l = t)) LeaseOwnerMismatch)"

subsection \<open>Turns\<close>

definition turn_owner :: "string \<Rightarrow> ('p, 't) lease_manager \<Rightarrow> string option" where
  "turn_owner session s = map_option tg_owner (lm_guards s session)"

definition was_taken_over :: "string \<Rightarrow> string \<Rightarrow> ('p, 't) lease_manager \<Rightarrow> bool" where
  "was_taken_over session agent s \<longleftrightarrow> (session, agent) \<in> lm_taken s"

definition begin_delegated_turn ::
  "string \<Rightarrow> string \<Rightarrow> string list \<Rightarrow> ('p, 't) lease_manager \<Rightarrow> ('p, 't, unit) lease_outcome" where
  "begin_delegated_turn session agent ancestors s =
     (if list_ex (\<lambda>a. (session, a) \<in> lm_taken s) (agent # ancestors) then op_err LeaseTakenOver s
      else case lm_guards s session of
        Some g \<Rightarrow>
          if admits g agent then op_ok () s
          else if tg_owner g \<in> set ancestors then op_ok () (s\<lparr>lm_guards := (lm_guards s)(session \<mapsto>
            g\<lparr>tg_delegates := insert agent (tg_delegates g)\<rparr>)\<rparr>)
          else op_err LeaseBusy s
      | None \<Rightarrow>
          if (case lm_leases s session of None \<Rightarrow> False | Some r \<Rightarrow> al_agent (lr_lease r) \<noteq> agent)
          then op_err LeaseBusy s
          else op_ok () (s\<lparr>lm_guards := (lm_guards s)(session \<mapsto> new_guard agent)\<rparr>))"

definition begin_turn :: "string \<Rightarrow> string \<Rightarrow> ('p, 't) lease_manager \<Rightarrow> ('p, 't, unit) lease_outcome" where
  "begin_turn session agent = begin_delegated_turn session agent []"

text \<open>The two sections of \<open>release\_turn\<close>.\<close>

definition forget_takeover :: "string \<Rightarrow> ('p, 't) lease_manager \<Rightarrow> ('p, 't) lease_manager" where
  "forget_takeover agent s = s\<lparr>lm_taken := {x \<in> lm_taken s. snd x \<noteq> agent}\<rparr>"

definition forget_guards :: "string \<Rightarrow> ('p, 't) lease_manager \<Rightarrow> ('p, 't) lease_manager" where
  "forget_guards agent s = s\<lparr>lm_guards := (\<lambda>session. case lm_guards s session of
     None \<Rightarrow> None
   | Some g \<Rightarrow> if tg_owner g = agent then None else Some (g\<lparr>tg_delegates := tg_delegates g - {agent}\<rparr>))\<rparr>"

definition release_turn :: "string \<Rightarrow> ('p, 't) lease_manager \<Rightarrow> ('p, 't) lease_manager" where
  "release_turn agent s = forget_guards agent (forget_takeover agent s)"

subsection \<open>Leases\<close>

definition acquire_with_presentation ::
  "u64 \<Rightarrow> string \<Rightarrow> string \<Rightarrow> string \<Rightarrow> string \<Rightarrow> string \<Rightarrow> string option \<Rightarrow> bool option \<Rightarrow> bool
    \<Rightarrow> ('p, 't) lease_manager \<Rightarrow> ('p, 't, agent_lease) lease_outcome" where
  "acquire_with_presentation now lease_id session agent task operation display execution interactive s =
     (let l = \<lparr>al_session_id = session, al_agent = agent, al_task = task, al_operation = operation,
        al_acquired_at = now\<rparr> in
      if (session, agent) \<in> lm_taken s then op_err LeaseTakenOver s
      else if (case lm_guards s session of None \<Rightarrow> False | Some g \<Rightarrow> \<not> admits g agent) then op_err LeaseBusy s
      else if lm_leases s session \<noteq> None then op_err LeaseBusy s
      else op_bind (call_broker (acquire_agent_lease interactive lease_id session agent task operation) s) (\<lambda>_ s.
        let s = s\<lparr>lm_guards := (lm_guards s)(session \<mapsto> (case lm_guards s session of
                None \<Rightarrow> new_guard agent | Some g \<Rightarrow> g)),
              lm_leases := (lm_leases s)(session \<mapsto>
                \<lparr>lr_lease = l, lr_frontend = FrontendPending, lr_reduced_motion = True\<rparr>)\<rparr>
        in op_ok l (publish \<lparr>le_lease = l, le_state = LeaseAcquired, le_display = display,
          le_execution = execution, le_phase = None, le_reason = None\<rparr> s)))"

definition acquire_lease where
  "acquire_lease now lease_id session agent task operation display =
     acquire_with_presentation now lease_id session agent task operation display None False"

definition acquire_interactive where
  "acquire_interactive now lease_id session agent task operation =
     acquire_with_presentation now lease_id session agent task operation None None True"

definition acquire_command where
  "acquire_command now lease_id session agent task operation visible =
     acquire_with_presentation now lease_id session agent task operation None (Some visible) False"

definition drop_lease ::
  "string \<Rightarrow> agent_lease \<Rightarrow> release_reason \<Rightarrow> ('p, 't) lease_manager \<Rightarrow> ('p, 't) lease_manager" where
  "drop_lease session l reason s =
     publish (released_event l reason) (s\<lparr>lm_leases := (lm_leases s)(session := None)\<rparr>)"

definition release_lease ::
  "string \<Rightarrow> string \<Rightarrow> string \<Rightarrow> string \<Rightarrow> string \<Rightarrow> release_reason \<Rightarrow> ('p, 't) lease_manager
    \<Rightarrow> ('p, 't, bool) lease_outcome" where
  "release_lease lease_id session agent task operation reason s = (case lm_leases s session of
     None \<Rightarrow> op_ok False s
   | Some r \<Rightarrow>
       op_bind (op_check (validate_owner (lr_lease r) agent (Some task) operation) s) (\<lambda>_ s.
       op_bind (call_broker (release_agent_lease lease_id session agent task operation) s) (\<lambda>_ s.
       op_ok True (drop_lease session (lr_lease r) reason s))))"

text \<open>The two sections of \<open>release\_terminal\<close>; an error of the broker is only logged.\<close>

definition drop_guard :: "string \<Rightarrow> ('p, 't) lease_manager \<Rightarrow> ('p, 't) lease_manager" where
  "drop_guard session s = s\<lparr>lm_guards := (lm_guards s)(session := None)\<rparr>"

definition drop_terminal_lease ::
  "string \<Rightarrow> string \<Rightarrow> release_reason \<Rightarrow> ('p, 't) lease_manager \<Rightarrow> bool \<times> ('p, 't) lease_manager" where
  "drop_terminal_lease lease_id session reason s = (case lm_leases s session of
     None \<Rightarrow> (False, s)
   | Some r \<Rightarrow> let l = lr_lease r;
         s = snd (call_broker (release_agent_lease lease_id session (al_agent l) (al_task l) (al_operation l)) s)
       in (True, drop_lease session l reason s))"

definition release_terminal ::
  "string \<Rightarrow> string \<Rightarrow> release_reason \<Rightarrow> ('p, 't) lease_manager \<Rightarrow> bool \<times> ('p, 't) lease_manager" where
  "release_terminal lease_id session reason s = drop_terminal_lease lease_id session reason (drop_guard session s)"

text \<open>The user takes the terminal: the whole turn, with every delegate, loses it.\<close>

definition take_turn :: "string \<Rightarrow> string \<Rightarrow> ('p, 't) lease_manager \<Rightarrow> ('p, 't) lease_manager" where
  "take_turn session agent s =
     (let s = (case lm_guards s session of
          None \<Rightarrow> s
        | Some g \<Rightarrow> if \<not> admits g agent then s
            else s\<lparr>lm_guards := (lm_guards s)(session := None),
              lm_taken := lm_taken s \<union> Pair session ` insert (tg_owner g) (tg_delegates g)\<rparr>)
      in s\<lparr>lm_taken := insert (session, agent) (lm_taken s)\<rparr>)"

definition release_after_takeover ::
  "string \<Rightarrow> string \<Rightarrow> string \<Rightarrow> string \<Rightarrow> string \<Rightarrow> ('p, 't) lease_manager \<Rightarrow> ('p, 't, bool) lease_outcome" where
  "release_after_takeover lease_id session agent task operation s = (case lm_leases s session of
     None \<Rightarrow> op_ok False s
   | Some r \<Rightarrow>
       op_bind (op_check (validate_owner (lr_lease r) agent (Some task) operation) s) (\<lambda>_ s.
       op_bind (call_broker (release_agent_lease lease_id session agent task operation) s) (\<lambda>_ s.
       op_ok True (drop_lease session (lr_lease r) ReleaseTakenOver (take_turn session agent s)))))"

subsection \<open>The frontend\<close>

definition with_owner ::
  "string \<Rightarrow> string \<Rightarrow> string \<Rightarrow> (lease_record \<Rightarrow> 'a \<times> lease_record) \<Rightarrow> ('p, 't) lease_manager
    \<Rightarrow> ('p, 't, 'a) lease_outcome" where
  "with_owner session agent operation f s = (case lm_leases s session of
     None \<Rightarrow> op_err LeaseNotFound s
   | Some r \<Rightarrow> op_bind (op_check (validate_owner (lr_lease r) agent None operation) s) (\<lambda>_ s.
       op_ok (fst (f r)) (s\<lparr>lm_leases := (lm_leases s)(session \<mapsto> snd (f r))\<rparr>)))"

definition set_reduced_motion ::
  "string \<Rightarrow> string \<Rightarrow> string \<Rightarrow> bool \<Rightarrow> ('p, 't) lease_manager \<Rightarrow> ('p, 't, unit) lease_outcome" where
  "set_reduced_motion session agent operation reduced = with_owner session agent operation
     (\<lambda>r. ((), if lr_frontend r = FrontendPending then r\<lparr>lr_reduced_motion := reduced\<rparr> else r))"

definition reduced_motion :: "string \<Rightarrow> string \<Rightarrow> ('p, 't) lease_manager \<Rightarrow> lease_error + bool" where
  "reduced_motion session operation s =
     try_bind (ok_or (lm_leases s session) LeaseNotFound) (\<lambda>r.
     if al_operation (lr_lease r) \<noteq> operation then Inl LeaseOperationMismatch else Inr (lr_reduced_motion r))"

definition validate_control_owner ::
  "string \<Rightarrow> string \<Rightarrow> string \<Rightarrow> ('p, 't) lease_manager \<Rightarrow> lease_error + agent_lease" where
  "validate_control_owner session agent operation s =
     try_bind (ok_or (lm_leases s session) LeaseNotFound) (\<lambda>r.
     try_bind (validate_owner (lr_lease r) agent None operation) (\<lambda>_. Inr (lr_lease r)))"

definition publish_command_phase ::
  "string \<Rightarrow> string \<Rightarrow> string \<Rightarrow> command_phase \<Rightarrow> ('p, 't) lease_manager \<Rightarrow> ('p, 't, unit) lease_outcome" where
  "publish_command_phase session agent operation phase s =
     op_bind (op_check (validate_control_owner session agent operation s) s) (\<lambda>l s.
     op_ok () (publish \<lparr>le_lease = l, le_state = LeaseActivity, le_display = None, le_execution = None,
       le_phase = Some phase, le_reason = None\<rparr> s))"

text \<open>What the frontend sees of the terminal: connected, listening, and three kinds of open input.\<close>

definition frontend_answer :: "bool \<Rightarrow> bool \<Rightarrow> bool \<Rightarrow> bool \<Rightarrow> bool \<Rightarrow> frontend_ready" where
  "frontend_answer connected listening pending unverified credential =
     (if \<not> connected then FrontendRejected FrontendNotConnected
      else if \<not> listening then FrontendRejected FrontendOutputNotReady
      else if pending then FrontendRejected FrontendPendingInput
      else if unverified then FrontendRejected FrontendUnverifiedInput
      else if credential then FrontendRejected FrontendCredentialPrompt
      else FrontendReady)"

definition acknowledge_frontend_ready ::
  "string \<Rightarrow> string \<Rightarrow> string \<Rightarrow> bool \<Rightarrow> bool \<Rightarrow> bool \<Rightarrow> bool \<Rightarrow> bool \<Rightarrow> ('p, 't) lease_manager
    \<Rightarrow> ('p, 't, bool) lease_outcome" where
  "acknowledge_frontend_ready session agent operation connected listening pending unverified credential =
     with_owner session agent operation (\<lambda>r. (lr_frontend r = FrontendPending,
       if lr_frontend r = FrontendPending
       then r\<lparr>lr_frontend := frontend_answer connected listening pending unverified credential\<rparr> else r))"

definition frontend_waits :: "string \<Rightarrow> string \<Rightarrow> string \<Rightarrow> string \<Rightarrow> ('p, 't) lease_manager \<Rightarrow> bool" where
  "frontend_waits session agent task operation s \<longleftrightarrow> (case lm_leases s session of
     None \<Rightarrow> False
   | Some r \<Rightarrow> al_agent (lr_lease r) = agent \<and> al_task (lr_lease r) = task
       \<and> al_operation (lr_lease r) = operation \<and> lr_frontend r = FrontendPending)"

definition wait_frontend_ready ::
  "string \<Rightarrow> string \<Rightarrow> string \<Rightarrow> string \<Rightarrow> bool \<Rightarrow> ('p, 't) lease_manager \<Rightarrow> lease_error + unit" where
  "wait_frontend_ready session agent task operation timed_out s =
     try_bind (ok_or (lm_leases s session) LeaseNotFound) (\<lambda>r.
     try_bind (validate_owner (lr_lease r) agent (Some task) operation) (\<lambda>_.
     case lr_frontend r of
       FrontendReady \<Rightarrow> Inr ()
     | FrontendRejected x \<Rightarrow> Inl (LeaseFrontend x)
     | FrontendPending \<Rightarrow> Inl (if timed_out then LeaseReadyTimeout else LeaseReadyUnavailable)))"

subsection \<open>Input\<close>

definition authorize_input :: "agent_lease option \<Rightarrow> lease_source \<Rightarrow> lease_error + unit" where
  "authorize_input lease src = (case src of
     SourceUser \<Rightarrow> if lease = None then Inr () else Inl LeaseUserInputBlocked
   | SourceAgent agent task operation \<Rightarrow> (case lease of
       None \<Rightarrow> Inl LeaseNotFound
     | Some l \<Rightarrow> validate_owner l agent (Some task) operation)
   | SourceSystem operation \<Rightarrow> (case (operation, lease) of
       (Some q, Some l) \<Rightarrow> ensure (al_operation l = q) LeaseOperationMismatch
     | _ \<Rightarrow> Inl LeaseOperationMismatch))"

definition broker_source :: "lease_source \<Rightarrow> lease_error + input_source" where
  "broker_source src = (case src of
     SourceUser \<Rightarrow> Inr FromUser
   | SourceAgent agent task operation \<Rightarrow> Inr (FromAgent agent task operation)
   | SourceSystem (Some q) \<Rightarrow> Inr (FromSystem q)
   | SourceSystem None \<Rightarrow> Inl LeaseOperationMismatch)"

definition is_system :: "lease_source \<Rightarrow> bool" where
  "is_system src \<longleftrightarrow> (case src of SourceSystem _ \<Rightarrow> True | _ \<Rightarrow> False)"

definition write_payload_with_kind ::
  "'p broker_env \<Rightarrow> string \<Rightarrow> lease_source \<Rightarrow> input_kind \<Rightarrow> u8 list \<Rightarrow> bool \<Rightarrow> ('p, 't) lease_manager
    \<Rightarrow> ('p, 't, input_receipt option) lease_outcome" where
  "write_payload_with_kind env session src kind bytes written s =
     (if src = SourceUser \<and> lm_guards s session \<noteq> None then op_err LeaseUserInputBlocked s
      else op_bind (op_check (authorize_input (map_option lr_lease (lm_leases s session)) src) s) (\<lambda>_ s.
        op_bind (op_check (broker_source src) s) (\<lambda>source s.
        if is_system src \<and> kind \<noteq> InputInterrupt \<and> kind \<noteq> InputSystemControl
        then op_err LeaseOperationMismatch s
        else call_broker (admit_terminal_input env session source kind bytes written) s)))"

definition text_kind :: "lease_source \<Rightarrow> u8 list \<Rightarrow> input_kind" where
  "text_kind src bytes = (if is_system src then if bytes = [3] then InputInterrupt else InputSystemControl
     else InputText)"

definition write_text where
  "write_text env session src bytes = write_payload_with_kind env session src (text_kind src bytes) bytes"

definition write_binary where
  "write_binary env session src bytes = write_payload_with_kind env session src InputBinary bytes"

definition has_lease :: "string \<Rightarrow> ('p, 't) lease_manager \<Rightarrow> bool" where
  "has_lease session s \<longleftrightarrow> lm_guards s session \<noteq> None \<or> lm_leases s session \<noteq> None"

definition protected_session_ids :: "('p, 't) lease_manager \<Rightarrow> string set" where
  "protected_session_ids s = dom (lm_guards s) \<union> dom (lm_leases s)"

lemma protected_iff_lease: "session \<in> protected_session_ids s \<longleftrightarrow> has_lease session s"
  by (auto simp: protected_session_ids_def has_lease_def)

end
