(* ===== verification/Broker_Properties.thy ===== *)
theory Broker_Properties
  imports Broker_Machine
begin

text \<open>
  What the broker promises its clients after any run of its operations: the transports
  agree with the terminals, the retained output has no gap and stays within its bounds, a
  command is settled once, input of an Agent needs the lease of exactly its operation, and
  a transport that was replaced never speaks for the terminal again.
\<close>

subsection \<open>Transports that were replaced\<close>

definition absent :: "string \<Rightarrow> ('p, 't) broker_state \<Rightarrow> bool" where
  "absent p s \<longleftrightarrow> br_transports s p = None"

definition attaches :: "string \<Rightarrow> 't broker_op \<Rightarrow> bool" where
  "attaches p x \<longleftrightarrow> (case x of BoAttach _ _ _ t _ _ _ \<Rightarrow> t = p | _ \<Rightarrow> False)"

lemma absent_same: "br_transports t = br_transports s \<Longrightarrow> absent p t = absent p s"
  by (simp add: absent_def)

lemma on_cell_absent: "absent p s \<Longrightarrow> leaves (absent p) (on_cell i r m s)"
  by (simp add: leaves_def on_cell_def op_zoom_def absent_def)

lemma with_current_absent: "absent p s \<Longrightarrow> leaves (absent p) (with_current t m s)"
  unfolding with_current_def by (intro leaves_bind_check on_cell_absent) simp_all

lemma update_current_absent: "absent p s \<Longrightarrow> leaves (absent p) (update_current t m s)"
  by (simp add: update_current_def with_current_absent)

lemma forget_closed_absent: "absent p s \<Longrightarrow> absent p (forget_closed i s)"
  by (simp add: forget_closed_def absent_def retain_def)

lemma evict_closed_absent: "absent p s \<Longrightarrow> absent p (evict_closed n is s)"
  by (induction "is" arbitrary: s) (simp_all add: forget_closed_absent, simp_all add: absent_def)

lemma remember_closed_absent: "absent p s \<Longrightarrow> absent p (remember_closed n i s)"
  by (simp add: remember_closed_def evict_closed_absent)

lemma close_transport_absent: "absent p s \<Longrightarrow> leaves (absent p) (close_transport env t reason s)"
  unfolding close_transport_def
  by (auto split: option.split intro!: leaves_bind on_cell_absent remember_closed_absent)
    (auto simp: absent_def)

lemma close_each_absent: "absent p s \<Longrightarrow> leaves (absent p) (close_each reason is s)"
  by (induction "is" arbitrary: s) (auto split: option.split intro!: leaves_bind on_cell_absent)

lemma close_all_absent: "absent p s \<Longrightarrow> leaves (absent p) (close_all_open_generations env ids reason s)"
proof -
  have fold: "absent p s \<Longrightarrow> absent p (foldl (\<lambda>s i. remember_closed n i s) s is)" for s :: "('a, 'b) broker_state" and n "is"
    by (induction "is" arbitrary: s) (simp_all add: remember_closed_absent)
  have off: "absent p (u\<lparr>br_transports := map_option f \<circ> br_transports u\<rparr>)" if "absent p u" for u :: "('a, 'b) broker_state" and f
    using that by (simp add: absent_def)
  assume "absent p s"
  then show ?thesis unfolding close_all_open_generations_def Let_def
    by (auto intro!: leaves_bind close_each_absent fold off)
qed

lemma on_each_absent: "absent p s \<Longrightarrow> leaves (absent p) (on_each P m is s)"
  by (induction "is" arbitrary: s) (auto split: option.split intro!: leaves_bind on_cell_absent)

lemma take_over_absent:
  assumes "absent p s"
  shows "leaves (absent p) (take_over q s)"
proof -
  have off: "absent p t \<Longrightarrow> absent p (t\<lparr>br_transports := (br_transports t)(q := map_option f (br_transports t q))\<rparr>)"
    for t :: "('a, 'b) broker_state" and f
    by (auto simp: absent_def)
  show ?thesis unfolding take_over_def
    by (intro leaves_bind_check [where I = "absent p", OF assms] leaves_if leaves_ok leaves_bind on_cell_absent assms off)
qed

lemma attach_absent:
  assumes "absent p s" "t \<noteq> p"
  shows "leaves (absent p) (attach_transport env n l now t q k g s)"
proof -
  have new: "absent p v" if "absent p u" "br_transports v = (retain P (br_transports u))(t \<mapsto> a)"
    for u v :: "('a, 'b) broker_state" and P a
    using that assms(2) by (simp add: absent_def retain_def)
  have start: "leaves (absent p) (case q of None \<Rightarrow> op_ok (n, 1) s | Some q \<Rightarrow> take_over q s)"
    by (simp add: assms(1) take_over_absent split: option.split)
  show ?thesis unfolding attach_transport_def Let_def
    by (intro leaves_bind_check [where I = "absent p", OF assms(1)] leaves_if leaves_ok assms(1) leaves_bind [OF start])
      (simp only: split_paired_all prod.case, intro leaves_if leaves_ok, assumption, erule new, simp)
qed

lemma roll_back_absent: "absent p s \<Longrightarrow> leaves (absent p) (roll_back env l ids q s)"
  unfolding roll_back_def Let_def by (intro leaves_if leaves_ok close_all_absent on_each_absent)

lemma shared_command_absent:
  assumes "absent p s"
  shows "leaves (absent p) (on_shared_command i f s)"
proof (cases "br_commands s i")
  case (Some d)
  have "absent p (s\<lparr>br_commands := (br_commands s)(i \<mapsto> snd (f d))\<rparr>)"
    using assms by (simp add: absent_def)
  then have "leaves (absent p) (op_zoom (\<lambda>d s. s\<lparr>br_commands := (br_commands s)(i \<mapsto> d)\<rparr>) (f d) s)"
    by (simp only: leaves_def op_zoom_def snd_conv)
  then show ?thesis unfolding on_shared_command_def Some option.case by (rule leaves_bind) simp
qed (simp add: on_shared_command_def assms)

lemma broker_step_absent:
  assumes "absent p s" "\<not> attaches p x"
  shows "leaves (absent p) (broker_step env s x)"
proof -
  note [simp] = assms(1) absent_same [of _ s]
  note intros = leaves_bind_check [where I = "absent p"] leaves_if leaves_ok with_current_absent
    update_current_absent on_cell_absent leaves_bind
  show ?thesis
  proof (cases x)
    case (BoAttach n l now t q k g)
    then show ?thesis using assms(2) by (simp add: broker_step_def leaves_void attach_absent attaches_def)
  next
    case (BoEvent t i now e)
    have job: "leaves (absent p) (job_event t i h ob code now a s)" for h ob code a
      unfolding job_event_def Let_def by (intro intros) (use assms(1) in \<open>simp_all add: absent_def\<close>)
    have settle: "absent p u \<Longrightarrow> absent p (settle_submission z u)" for z and u :: "('a, 'b) broker_state"
      by (simp add: absent_def settle_submission_def map_job_def split: option.split)
    have other: "leaves (absent p) (op_bind (op_check (job_submission_event t a e s) s) (\<lambda>submission s.
       op_bind (op_check (current_record s t a) s) (\<lambda>r s.
       op_bind (on_cell (at_terminal a) r (accept_cell_event i (submission \<noteq> None) e) s)
         (\<lambda>counted s. op_ok () (if counted then settle_submission submission s else s)))))" for a e
      by (intro intros) (simp_all add: settle)
    show ?thesis unfolding BoEvent broker_step_def broker_op.case accept_integration_event_def
      by (rule leaves_bind_check [where I = "absent p", OF assms(1)])
        (cases e; simp only: integration_event.case other job)
  next
    case (BoPrepareJob h now t target owner agent task operation source)
    show ?thesis unfolding BoPrepareJob broker_step_def broker_op.case leaves_void prepare_shell_job_def Let_def
      by (intro intros) (use assms(1) in \<open>simp_all add: absent_def\<close>)
  next
    case (BoCommand i y)
    then show ?thesis by (simp add: broker_step_def leaves_void shared_command_absent)
  next
    case (BoRollout rd l ids q)
    show ?thesis unfolding BoRollout broker_step_def broker_op.case apply_rollout_def Let_def
      by (rule leaves_bind [OF roll_back_absent [OF assms(1)]]) (simp add: absent_def)
  next
    case (BoRejectJob operation)
    then show ?thesis
      by (simp add: broker_step_def reject_unsubmitted_shell_job_def map_job_def split: option.split)
  next
    case (BoInput t src kind bytes written)
    then show ?thesis
      by (simp add: broker_step_def leaves_void admit_terminal_input_def) (intro intros; simp)
  qed (simp_all add: broker_step_def leaves_void close_transport_absent close_all_absent
      observe_raw_output_def resize_terminal_def mark_output_ready_def set_output_paused_def register_integration_channel_def
      mark_integration_degraded_def mark_integration_unavailable_def integration_channel_closed_def
      shell_job_of_def prepare_shell_job_control_def discard_shell_job_submission_def mark_shell_job_uncertain_def
      record_shell_job_cleanup_def begin_command_def require_native_input_recovery_def expect_native_clear_def
      mark_command_uncertain_def retire_command_def acquire_agent_lease_def release_agent_lease_def Let_def map_job_def
      leaves_bind_check with_current_absent update_current_absent)
qed

lemma run_absent:
  "absent p s \<Longrightarrow> list_all (\<lambda>x. \<not> attaches p x) xs \<Longrightarrow> absent p (run_all (broker_step env) s xs)"
proof (induction xs arbitrary: s)
  case (Cons x xs)
  then show ?case using broker_step_absent [of p s x env] by (simp add: leaves_def)
qed simp

lemma attach_forgets_predecessor:
  assumes "attach_transport env n l now t (Some p) k g s = (Inr (Some (i, m)), s')" "t \<noteq> p"
  shows "absent p s'"
proof -
  from assms(1) obtain u where u: "take_over p s = (Inr (i, m), u)"
    and s': "br_transports s' = (retain (\<lambda>_ a. at_terminal a \<noteq> i) (br_transports u))
      (t \<mapsto> \<lparr>at_terminal = i, at_generation = m, at_active = True\<rparr>)"
    unfolding attach_transport_def res_simps
    by (auto simp: res_simps Let_def op_ok_def split: if_splits)
  from take_over_Inr [OF u] obtain a where "at_terminal a = i"
    "br_transports u = (br_transports s)(p \<mapsto> a\<lparr>at_active := False\<rparr>)" by auto
  then show ?thesis using assms(2) by (simp add: absent_def s' retain_def)
qed

lemma absent_current: "absent p s \<Longrightarrow> with_current p m s = op_err TransportNotFound s"
  by (simp add: absent_def with_current_def current_attachment_def ok_or_def try_bind_def)

lemma absent_is_silent:
  assumes "absent p s"
  shows "fst (observe_raw_output env now p bytes s) \<noteq> Inr (Some f)"
    "fst (admit_terminal_input env p src kind input written s) \<noteq> Inr (Some rc)"
    "fst (accept_integration_event p i at e s) \<noteq> Inr ()"
    "fst (begin_command env c p operation line submitted s) \<noteq> Inr d"
proof -
  note current = absent_current [OF assms]
  have none: "br_transports s p = None" using assms by (simp add: absent_def)
  show "fst (observe_raw_output env now p bytes s) \<noteq> Inr (Some f)"
    by (simp add: observe_raw_output_def current op_ok_def op_err_def)
  show "fst (admit_terminal_input env p src kind input written s) \<noteq> Inr (Some rc)"
    by (simp add: admit_terminal_input_def current gate_input_def none, simp add: op_ok_def op_err_def)
  show "fst (accept_integration_event p i at e s) \<noteq> Inr ()"
    by (simp add: accept_integration_event_def current_attachment_def none ok_or_def try_bind_def, simp add: op_err_def)
  show "fst (begin_command env c p operation line submitted s) \<noteq> Inr d"
    by (cases "broker_identifier operation ''operation id''")
      (simp_all add: begin_command_def current Let_def, simp_all add: op_err_def)
qed

subsection \<open>Runs to look at\<close>

text \<open>For evaluation: the operation on a terminal waits until the terminal is known.\<close>

lemma current_weak_congs:
  "t = t' \<Longrightarrow> s = s' \<Longrightarrow> with_current t m s = with_current t' m s'"
  "i = i' \<Longrightarrow> r = r' \<Longrightarrow> s = s' \<Longrightarrow> on_cell i r k s = on_cell i' r' k s'"
  by simp_all

lemmas eval_congs = op_bind_weak_cong let_weak_cong current_weak_congs

lemmas broker_eval = snd_outcome broker_step_def attach_transport_def new_broker_def op_void_def op_zoom_simps
  Let_def broker_identifier_def ensure_def new_feature_def open_generation_def
  JAVASCRIPT_MAX_SAFE_INTEGER_def is_ascii_alphanumeric_def effective_interactive_tools_def
  observe_raw_output_def with_current_def current_attachment_def current_record_def on_cell_def
  on_record_def accept_raw_frame_def commit_frame_def MAX_FRAME_BYTES_def next_counters_def
  observe_display_def observe_capture_def observe_integration_def observe_screen_stream_def observe_model_def
  observe_frame_def new_subscribers_def new_subscriber_def capture_output_def capture_bytes_def
  push_replay_def default_config_def checked_add_def retain_def last_entries_def new_screen_def
  observe_screen_def close_record_def settle_active_def advance_revision_def next_safe_def user_lease_def
  take_over_def try_bind_def ok_or_def is_ascii_digit_def is_ascii_alphabetic_def byte_of_def
  acquire_agent_lease_def next_lease_def is_user_owner_def admit_terminal_input_def gate_input_def recovery_gate_def
  is_agent_source_def is_system_source_def admit_cell_def admission_checks_def source_operation_def
  CLEAR_EDITOR_def PROBE_EDITOR_def INTERRUPT_def ACCEPT_LINE_def enter_key_def
  validate_input_def source_owner_def after_write_def active_command_def submitted_active_def

definition sample_env :: "unit broker_env" where
  "sample_env = \<lparr>be_config = default_config\<lparr>cfg_replay_max_frames := 2\<rparr>,
     be_emulator = \<lparr>vt_new = \<lambda>_ _. (), vt_process = \<lambda>_ _. (), vt_size = \<lambda>_. (24, 80), vt_set_size = \<lambda>_ _ _. (),
       vt_content = \<lambda>_. [], vt_cursor = \<lambda>_. (0, 0, False), vt_alternate = \<lambda>_. False, vt_title = \<lambda>_. [],
       vt_bracketed_paste = \<lambda>_. False\<rparr>,
     be_quote = Some, be_lower = id\<rparr>"

definition empty_broker :: "(unit, unit) broker_state" where
  "empty_broker = new_broker \<lparr>rd_desktop = True\<rparr>"

definition sample_attach :: "unit broker_op" where
  "sample_attach = BoAttach ''t1'' ''u1'' 0 ''tab'' None LocalPty (new_geometry 80 24)"

definition sample_broker :: "(unit, unit) broker_state" where
  "sample_broker = run_all (broker_step sample_env) empty_broker [sample_attach, BoOutput 1 ''tab'' [104, 105]]"

lemmas sample_defs = sample_env_def empty_broker_def sample_attach_def sample_broker_def

lemma sample_transport:
  "br_transports sample_broker ''tab'' = Some \<lparr>at_terminal = ''t1'', at_generation = 1, at_active = True\<rparr>"
  by (simp add: sample_defs broker_eval cong: eval_congs)

lemma sample_session:
  "map_option sr_replay (br_sessions sample_broker ''t1'') = Some [\<lparr>fr_protocol_version = 1,
     fr_terminal_session_id = ''t1'', fr_terminal_generation = 1, fr_frame_type = ''rawOutput'',
     fr_sequence = 1, fr_byte_offset = 0, fr_bytes = [104, 105]\<rparr>]"
  by (simp add: sample_defs broker_eval cong: eval_congs)

subsection \<open>Input that was admitted\<close>

lemma with_current_Inr:
  assumes "with_current t m s = (Inr x, s')"
  shows "\<exists>at r c'. br_transports s t = Some at \<and> at_active at \<and> br_sessions s (at_terminal at) = Some r
    \<and> sr_open r \<and> sr_generation r = at_generation at \<and> sr_transport_id r = t
    \<and> m at (r, br_commands s) = (Inr x, c') \<and> br_sessions s' (at_terminal at) = Some (fst c')"
  using assms unfolding with_current_def current_attachment_def current_record_def on_cell_def
  by (auto simp: res_simps split: if_splits)

lemma after_write_Inr:
  "after_write src bytes typing probe submission n c = (Inr x, c') \<Longrightarrow> sr_next_input (fst c') = n"
  unfolding after_write_def Let_def res_simps by (auto simp: on_record_def)

lemma source_owner_agent:
  "source_owner (FromAgent a k q) kind w = Inr i \<longleftrightarrow> w = OwnerAgent i a k q"
  by (cases w) (auto simp: source_owner_def)

lemma validate_input_Inr:
  assumes "validate_input r req = Inr rc"
  shows "\<exists>l. sr_lease r = Some l \<and> rc_lease_id rc = tl_lease_id l \<and> rc_sequence rc = sr_next_input r
    \<and> rc_bytes rc = length (ir_bytes req) \<and> ir_bytes req \<noteq> [] \<and> length (ir_bytes req) \<le> MAX_FRAME_BYTES
    \<and> source_owner (ir_source req) (ir_kind req) (tl_owner l) = Inr (rc_owner rc)"
  using assms unfolding validate_input_def by (auto simp: res_simps)

lemma admit_cell_Inr:
  assumes "admit_cell env prepared remote execute (FromAgent a k q) kind bytes written (r, m) = (Inr (Some rc), c')"
  shows "\<exists>l owner. sr_lease r = Some l \<and> tl_owner l = OwnerAgent owner a k q \<and> rc_owner rc = owner
    \<and> rc_lease_id rc = tl_lease_id l \<and> rc_sequence rc = sr_next_input r \<and> rc_bytes rc = length bytes
    \<and> bytes \<noteq> [] \<and> length bytes \<le> MAX_FRAME_BYTES \<and> written
    \<and> unat (sr_next_input (fst c')) = unat (sr_next_input r) + 1"
  using assms unfolding admit_cell_def Let_def
  by (auto simp: res_simps source_owner_agent split: if_splits
      dest!: validate_input_Inr after_write_Inr next_safe_Inr)

subsection \<open>Properties\<close>

text \<open>
  Whatever was done to the broker, every transport it knows belongs to the terminal it
  is attached to: the terminal exists under its own identity, at the generation of the
  attachment, over exactly this transport; two transports never share a terminal; and the
  closed terminals that are remembered stay within their capacity.
\<close>

theorem transports_agree_with_terminals:
  assumes s: "s = run_all (broker_step env) (new_broker rd) ops" and a: "br_transports s t = Some a"
  shows "(\<exists>r. br_sessions s (at_terminal a) = Some r \<and> sr_terminal_id r = at_terminal a
           \<and> sr_generation r = at_generation a \<and> sr_transport_id r = t)
    \<and> (br_transports s u = Some b \<and> at_terminal b = at_terminal a \<longrightarrow> u = t)
    \<and> length (br_closed_order s) \<le> cfg_closed_capacity (be_config env)"
proof -
  from reachable_inv [of env] s have inv: "broker_inv (be_config env) s" by simp
  from inv a obtain r where r: "br_sessions s (at_terminal a) = Some r" "sr_generation r = at_generation a"
    "sr_transport_id r = t" unfolding broker_inv_def by blast
  moreover have "sr_terminal_id r = at_terminal a" using sessionD(1) [OF inv r(1)] .
  moreover have "u = t" if "br_transports s u = Some b" "at_terminal b = at_terminal a"
  proof -
    from inv that(1) obtain q where "br_sessions s (at_terminal b) = Some q" "sr_transport_id q = u"
      unfolding broker_inv_def by blast
    with that r show ?thesis by simp
  qed
  ultimately show ?thesis using inv by (auto simp: broker_inv_def)
qed

text \<open>
  C25. The output a terminal retains is one gapless run: sequence numbers and byte offsets
  of neighbouring frames connect, the last frame ends where the stream stands, and the
  number of frames, their bytes and the captured bytes stay within the configured bounds.
\<close>

theorem retained_output_is_gapless:
  assumes s: "s = run_all (broker_step env) (new_broker rd) ops" and r: "br_sessions s i = Some r"
  shows "(\<exists>q k. 1 \<le> q \<and> frames_span q k (sr_replay r) (unat (sr_next_output r)) (unat (sr_next_offset r)))
    \<and> sr_replay_bytes r = sum_list (map (\<lambda>f. length (fr_bytes f)) (sr_replay r))
    \<and> length (sr_replay r) \<le> cfg_replay_max_frames (be_config env)
    \<and> sr_replay_bytes r \<le> cfg_replay_max_bytes (be_config env)
    \<and> length (sr_capture r) \<le> cfg_capture_max_bytes (be_config env)
    \<and> sr_next_output r \<le> JAVASCRIPT_MAX_SAFE_INTEGER \<and> sr_next_offset r \<le> JAVASCRIPT_MAX_SAFE_INTEGER"
proof -
  from reachable_inv [of env] s have inv: "broker_inv (be_config env) s" by simp
  from sessionD(2) [OF inv r] show ?thesis
    unfolding record_ok_def stream_inv_def replay_size_def by blast
qed

text \<open>
  C23. A command settles once. When a command has reached a final state, nothing that is
  done to the broker afterwards (events of the shell, requests of the executor, resizing,
  closing, rollback) removes it or changes its state, exit code, directory or rejection.
\<close>

theorem commands_settle_once:
  assumes "broker_inv (be_config env) s" "br_commands s i = Some d" "cmd_is_terminal (cmd_state d)"
  shows "\<exists>e. br_commands (run_all (broker_step env) s ops) i = Some e
    \<and> cmd_command_id e = cmd_command_id d \<and> cmd_command_line e = cmd_command_line d
    \<and> cmd_state e = cmd_state d \<and> cmd_exit_code e = cmd_exit_code d \<and> cmd_cwd e = cmd_cwd d
    \<and> cmd_input_rejection e = cmd_input_rejection d"
proof -
  from broker.run_advances [OF assms(1)] assms(2) obtain e where
    "br_commands (run_all (broker_step env) s ops) i = Some e" "command_advances d e"
    unfolding store_advances_def by blast
  then show ?thesis using assms(3) by (auto simp: command_advances_def)
qed

text \<open>
  C22. Input of an Agent is admitted only over the current transport of an open generation
  whose lease belongs to exactly this Agent Session, task and operation; the receipt
  carries the next input number of the terminal, and the terminal then expects its
  successor.
\<close>

theorem agent_input_needs_its_lease:
  assumes "admit_terminal_input env t (FromAgent a k q) kind bytes written s = (Inr (Some rc), s')"
  shows "\<exists>at r l owner r'. br_transports s t = Some at \<and> at_active at \<and> br_sessions s (at_terminal at) = Some r
    \<and> sr_open r \<and> sr_generation r = at_generation at \<and> sr_transport_id r = t
    \<and> sr_lease r = Some l \<and> tl_owner l = OwnerAgent owner a k q \<and> rc_owner rc = owner
    \<and> rc_lease_id rc = tl_lease_id l \<and> rc_sequence rc = sr_next_input r \<and> rc_bytes rc = length bytes
    \<and> bytes \<noteq> [] \<and> length bytes \<le> MAX_FRAME_BYTES \<and> written
    \<and> br_sessions s' (at_terminal at) = Some r' \<and> unat (sr_next_input r') = unat (sr_next_input r) + 1"
proof -
  from assms obtain at r c' where cur: "br_transports s t = Some at" "at_active at"
    "br_sessions s (at_terminal at) = Some r" "sr_open r" "sr_generation r = at_generation at" "sr_transport_id r = t"
    and adm: "admit_cell env (Option.bind (source_operation (FromAgent a k q)) (br_prepared s))
       (ft_enabled (br_remote_bound s)) (ft_enabled (br_execute s)) (FromAgent a k q) kind bytes written (r, br_commands s)
      = (Inr (Some rc), c')" and s': "br_sessions s' (at_terminal at) = Some (fst c')"
    unfolding admit_terminal_input_def
    by (auto simp: res_simps op_ok_def op_err_def split: if_splits dest!: with_current_Inr)
  from admit_cell_Inr [OF adm] cur s' show ?thesis by auto
qed

lemma transports_agree_with_terminals_witness:
  "(\<exists>r. br_sessions sample_broker ''t1'' = Some r \<and> sr_terminal_id r = ''t1'' \<and> sr_generation r = 1
     \<and> sr_transport_id r = ''tab'')"
  using transports_agree_with_terminals [OF sample_broker_def [unfolded empty_broker_def] sample_transport]
  by simp

lemma retained_output_is_gapless_witness:
  "\<exists>r. br_sessions sample_broker ''t1'' = Some r \<and> length (sr_replay r) = 1 \<and> sr_replay_bytes r = 2
     \<and> sr_replay_bytes r \<le> cfg_replay_max_bytes (be_config sample_env)"
proof -
  obtain r where r: "br_sessions sample_broker ''t1'' = Some r" and f: "map fr_bytes (sr_replay r) = [[104, 105]]"
    using sample_session by (cases "br_sessions sample_broker ''t1''") auto
  note inst = retained_output_is_gapless [OF sample_broker_def [unfolded empty_broker_def] r]
  have "length (map fr_bytes (sr_replay r)) = 1" unfolding f by simp
  moreover have "map (\<lambda>f. length (fr_bytes f)) (sr_replay r) = map length (map fr_bytes (sr_replay r))" by simp
  ultimately show ?thesis using inst r f by auto
qed

definition settled_broker :: "(unit, unit) broker_state" where
  "settled_broker = empty_broker\<lparr>br_commands := [''c1'' \<mapsto>
     (new_command ''c1'' ''t1'' 1 ''op'' ''ls'' None 1 10)\<lparr>cmd_state := CmdCompleted, cmd_exit_code := Some 0\<rparr>]\<rparr>"

lemma commands_settle_once_witness:
  "\<exists>e. br_commands (run_all (broker_step sample_env) settled_broker
       [sample_attach, BoCommand ''c1'' (CoRequest ReqCancelled), BoCommand ''c1'' CoMarkUncertain]) ''c1'' = Some e
     \<and> cmd_state e = CmdCompleted \<and> cmd_exit_code e = Some 0"
proof -
  have inv: "broker_inv (be_config sample_env) settled_broker"
    by (simp add: broker_inv_def settled_broker_def empty_broker_def new_broker_def Let_def)
  have cmd: "br_commands settled_broker ''c1'' = Some ((new_command ''c1'' ''t1'' 1 ''op'' ''ls'' None 1 10)
      \<lparr>cmd_state := CmdCompleted, cmd_exit_code := Some 0\<rparr>)"
    by (simp add: settled_broker_def)
  show ?thesis using commands_settle_once [OF inv cmd] by (auto simp: cmd_is_terminal_def simp del: run_all.simps)
qed

definition leased_broker :: "(unit, unit) broker_state" where
  "leased_broker = run_all (broker_step sample_env) empty_broker
     [sample_attach, BoAcquire False ''l1'' ''tab'' ''agent'' ''task'' ''op'']"

lemma leased_input:
  "\<exists>rc s'. admit_terminal_input sample_env ''tab'' (FromAgent ''agent'' ''task'' ''op'') InputText [108, 115] True
     leased_broker = (Inr (Some rc), s')"
  by (simp add: leased_broker_def sample_defs broker_eval cong: eval_congs) (simp add: op_ok_def)

lemma agent_input_needs_its_lease_witness:
  "\<exists>rc s'. admit_terminal_input sample_env ''tab'' (FromAgent ''agent'' ''task'' ''op'') InputText [108, 115] True
     leased_broker = (Inr (Some rc), s') \<and> rc_bytes rc = 2 \<and> (\<exists>at r. br_transports leased_broker ''tab'' = Some at
       \<and> br_sessions leased_broker (at_terminal at) = Some r \<and> rc_sequence rc = sr_next_input r)"
proof -
  obtain rc s' where adm: "admit_terminal_input sample_env ''tab'' (FromAgent ''agent'' ''task'' ''op'') InputText [108, 115] True
     leased_broker = (Inr (Some rc), s')" using leased_input by blast
  from agent_input_needs_its_lease [OF adm] adm show ?thesis by auto
qed

text \<open>
  C24. A transport that was replaced is fenced. Once another transport has taken over its
  terminal, and as long as it is not attached anew, nothing it sends is accepted: none of
  its output becomes a frame, none of its input gets a receipt, none of its integration
  events counts, and no command begins on it.
\<close>

theorem replaced_transport_is_fenced:
  assumes "attach_transport env n l now t (Some p) k g s = (Inr (Some (i, m)), s')" "t \<noteq> p"
    and "list_all (\<lambda>x. \<not> attaches p x) ops"
  shows "let s = run_all (broker_step env) s' ops in
     fst (observe_raw_output env now' p bytes s) \<noteq> Inr (Some f)
   \<and> fst (admit_terminal_input env p src kind input written s) \<noteq> Inr (Some rc)
   \<and> fst (accept_integration_event p channel at e s) \<noteq> Inr ()
   \<and> fst (begin_command env c p operation line submitted s) \<noteq> Inr d"
  unfolding Let_def
  by (intro conjI absent_is_silent run_absent [OF attach_forgets_predecessor [OF assms(1,2)] assms(3)])

lemma replacing_attach:
  "\<exists>s'. attach_transport sample_env ''t9'' ''u2'' 5 ''tab2'' (Some ''tab'') LocalPty (new_geometry 80 24)
     sample_broker = (Inr (Some (''t1'', 2)), s')"
  by (simp add: sample_defs broker_eval cong: eval_congs) (simp add: op_ok_def)

lemma replaced_transport_is_fenced_witness:
  "\<exists>s'. attach_transport sample_env ''t9'' ''u2'' 5 ''tab2'' (Some ''tab'') LocalPty (new_geometry 80 24)
       sample_broker = (Inr (Some (''t1'', 2)), s')
     \<and> (\<forall>f. fst (observe_raw_output sample_env 7 ''tab'' [65]
         (run_all (broker_step sample_env) s' [BoOutput 6 ''tab2'' [66]])) \<noteq> Inr (Some f))"
proof -
  obtain s' where att: "attach_transport sample_env ''t9'' ''u2'' 5 ''tab2'' (Some ''tab'') LocalPty (new_geometry 80 24)
     sample_broker = (Inr (Some (''t1'', 2)), s')" using replacing_attach by blast
  have "list_all (\<lambda>x. \<not> attaches ''tab'' x) [BoOutput 6 ''tab2'' [66] :: unit broker_op]" by (simp add: attaches_def)
  from replaced_transport_is_fenced [OF att _ this] att show ?thesis
    unfolding Let_def by (auto simp del: run_all.simps)
qed

end
