(* ===== verification/Lease_Machine.thy ===== *)
theory Lease_Machine
  imports Terminal_Lease Broker_Properties
begin

text \<open>
  The lease manager as a machine of its locked sections and of everything the broker does
  beside it, and what follows: a refusal changes nothing, a turn keeps the user out of its
  terminal until it ends, a takeover by the user lasts until the turn is released, and an
  Agent types only with the leases of manager and broker both.
\<close>

subsection \<open>What a client relies on the broker for\<close>

text \<open>The client of a broker that keeps one owner for every transport.\<close>

locale input_authority =
  fixes owner :: "string \<Rightarrow> 's \<Rightarrow> 'w option"
    and grant revoke :: "string \<Rightarrow> 'w \<Rightarrow> 's \<Rightarrow> 's \<Rightarrow> bool"
    and admitted :: "string \<Rightarrow> 'w \<Rightarrow> 's \<Rightarrow> bool"
  assumes grant_owner: "grant t w s s' \<Longrightarrow> owner t s = None \<and> owner t s' = Some w"
    and revoke_owner: "revoke t w s s' \<Longrightarrow> owner t s = Some w \<and> owner t s' = None"
    and admitted_owner: "admitted t w s \<Longrightarrow> owner t s = Some w"
begin

lemma one_admitted: "admitted t w s \<Longrightarrow> admitted t v s \<Longrightarrow> v = w"
  by (drule admitted_owner)+ simp

lemma granted_only: "grant t w s s' \<Longrightarrow> admitted t v s' \<Longrightarrow> v = w"
  by (drule grant_owner, drule admitted_owner) simp

lemma revoked_silent: "revoke t w s s' \<Longrightarrow> \<not> admitted t v s'"
  by (drule revoke_owner) (auto dest: admitted_owner)

lemma held_not_granted: "admitted t w s \<Longrightarrow> \<not> grant t v s s'"
  by (drule admitted_owner) (auto dest: grant_owner)

end

text \<open>The owner of a transport: the Agent Session, task and operation of its terminal's lease.\<close>

definition agent_of :: "lease_owner \<Rightarrow> (string \<times> string \<times> string) option" where
  "agent_of w = (case w of OwnerUser _ \<Rightarrow> None | OwnerAgent _ a k q \<Rightarrow> Some (a, k, q))"

definition transport_owner :: "string \<Rightarrow> ('p, 't) broker_state \<Rightarrow> (string \<times> string \<times> string) option" where
  "transport_owner t s =
     Option.bind (br_transports s t) (\<lambda>a.
     Option.bind (br_sessions s (at_terminal a)) (\<lambda>r.
     Option.bind (sr_lease r) (\<lambda>l. agent_of (tl_owner l))))"

definition lease_granted where
  "lease_granted t w s s' \<longleftrightarrow> (case w of (a, k, q) \<Rightarrow>
     \<exists>interactive i l. acquire_agent_lease interactive i t a k q s = (Inr (Some l), s'))"

definition lease_revoked where
  "lease_revoked t w s s' \<longleftrightarrow> (case w of (a, k, q) \<Rightarrow> \<exists>i. release_agent_lease i t a k q s = (Inr True, s'))"

definition input_admitted where
  "input_admitted env t w s \<longleftrightarrow> (case w of (a, k, q) \<Rightarrow>
     \<exists>kind bytes written rc s'. admit_terminal_input env t (FromAgent a k q) kind bytes written s = (Inr (Some rc), s'))"

lemma with_current_Inr_state:
  assumes "with_current t m s = (Inr x, s')"
  shows "\<exists>at r c'. br_transports s t = Some at \<and> br_sessions s (at_terminal at) = Some r
    \<and> m at (r, br_commands s) = (Inr x, c') \<and> br_sessions s' (at_terminal at) = Some (fst c')
    \<and> br_transports s' = br_transports s"
  using assms unfolding with_current_def current_attachment_def current_record_def on_cell_def
  by (auto simp: res_simps split: if_splits)

lemma agent_of_simps [simp]:
  "agent_of (OwnerUser i) = None" "agent_of (OwnerAgent i a k q) = Some (a, k, q)"
  by (simp_all add: agent_of_def)

lemma is_user_agent_of: "is_user_owner w \<Longrightarrow> agent_of w = None"
  by (cases w) (auto simp: is_user_owner_def)

lemma lease_granted_owner:
  assumes "lease_granted t w s s'"
  shows "transport_owner t s = None \<and> transport_owner t s' = Some w"
proof -
  obtain a k q where w: "w = (a, k, q)" by (cases w)
  from assms obtain interactive i l where
    "acquire_agent_lease interactive i t a k q s = (Inr (Some l), s')"
    by (auto simp: lease_granted_def w)
  then show ?thesis unfolding acquire_agent_lease_def Let_def
    by (auto simp: res_simps transport_owner_def is_user_agent_of w next_lease_def on_record_def
        op_ok_def op_err_def split: if_splits dest!: with_current_Inr_state)
qed

lemma lease_revoked_owner:
  assumes "lease_revoked t w s s'"
  shows "transport_owner t s = Some w \<and> transport_owner t s' = None"
proof -
  obtain a k q where w: "w = (a, k, q)" by (cases w)
  from assms obtain i where "release_agent_lease i t a k q s = (Inr True, s')"
    by (auto simp: lease_revoked_def w)
  then obtain at r l c' where at: "br_transports s t = Some at" "br_sessions s (at_terminal at) = Some r"
      "sr_lease r = Some l" "br_sessions s' (at_terminal at) = Some (fst c')" "br_transports s' = br_transports s"
    and owner: "(case tl_owner l of
          OwnerUser _ \<Rightarrow> op_ok False (r, br_commands s)
        | OwnerAgent _ a' t' q' \<Rightarrow>
            if a' \<noteq> a \<or> t' \<noteq> k \<or> q' \<noteq> q then op_err BrokerLeaseIdentityMismatch (r, br_commands s)
            else op_bind (op_check (next_lease i (OwnerUser USER_OWNER_ID) l) (r, br_commands s)) (\<lambda>l c.
              op_ok True (on_record (\<lambda>r. r\<lparr>sr_lease := Some l\<rparr>) c))) = (Inr True, c')"
    unfolding release_agent_lease_def
    by (auto simp: res_simps op_ok_def op_err_def split: if_splits dest!: with_current_Inr_state)
  from owner have "agent_of (tl_owner l) = Some (a, k, q)"
    "map_option (agent_of \<circ> tl_owner) (sr_lease (fst c')) = Some None"
    by (auto simp: res_simps next_lease_def on_record_def op_ok_def op_err_def split: if_splits lease_owner.splits)
  with at show ?thesis by (auto simp: transport_owner_def w)
qed

lemma input_admitted_owner:
  assumes "input_admitted env t w s"
  shows "transport_owner t s = Some w"
proof -
  obtain a k q where w: "w = (a, k, q)" by (cases w)
  from assms obtain kind bytes written rc s' where
    adm: "admit_terminal_input env t (FromAgent a k q) kind bytes written s = (Inr (Some rc), s')"
    by (auto simp: input_admitted_def w)
  from adm show ?thesis
    unfolding admit_terminal_input_def
    by (auto simp: res_simps op_ok_def op_err_def transport_owner_def w
        split: if_splits dest!: with_current_Inr admit_cell_Inr)
qed

interpretation authority: input_authority transport_owner lease_granted lease_revoked "input_admitted env" for env
  using lease_granted_owner lease_revoked_owner input_admitted_owner by unfold_locales blast+

subsection \<open>The operations\<close>

datatype (plugins only: code size) 't lease_op =
    LoPublisher
  | LoBegin string string "string list"
  | LoForgetTakeover string
  | LoForgetGuards string
  | LoAcquire u64 string string string string string "string option" "bool option" bool
  | LoRelease string string string string string release_reason
  | LoDropGuard string
  | LoDropLease string string release_reason
  | LoTakeover string string string string string
  | LoMotion string string string bool
  | LoPhase string string string command_phase
  | LoReady string string string bool bool bool bool bool
  | LoWrite string lease_source input_kind "u8 list" bool
  | LoBroker "'t broker_op"

definition lease_step ::
  "'p broker_env \<Rightarrow> ('p, 't) lease_manager \<Rightarrow> 't lease_op \<Rightarrow> ('p, 't, unit) lease_outcome" where
  "lease_step env s x = (case x of
     LoPublisher \<Rightarrow> op_ok () (s\<lparr>lm_publisher := True\<rparr>)
   | LoBegin session agent ancestors \<Rightarrow> begin_delegated_turn session agent ancestors s
   | LoForgetTakeover agent \<Rightarrow> op_ok () (forget_takeover agent s)
   | LoForgetGuards agent \<Rightarrow> op_ok () (forget_guards agent s)
   | LoAcquire now i session agent task operation display execution interactive \<Rightarrow>
       op_void (acquire_with_presentation now i session agent task operation display execution interactive s)
   | LoRelease i session agent task operation reason \<Rightarrow>
       op_void (release_lease i session agent task operation reason s)
   | LoDropGuard session \<Rightarrow> op_ok () (drop_guard session s)
   | LoDropLease i session reason \<Rightarrow> op_ok () (snd (drop_terminal_lease i session reason s))
   | LoTakeover i session agent task operation \<Rightarrow>
       op_void (release_after_takeover i session agent task operation s)
   | LoMotion session agent operation reduced \<Rightarrow> set_reduced_motion session agent operation reduced s
   | LoPhase session agent operation phase \<Rightarrow> publish_command_phase session agent operation phase s
   | LoReady session agent operation connected listening pending unverified credential \<Rightarrow>
       op_void (acknowledge_frontend_ready session agent operation connected listening pending unverified credential s)
   | LoWrite session src kind bytes written \<Rightarrow>
       op_void (write_payload_with_kind env session src kind bytes written s)
   | LoBroker y \<Rightarrow> call_broker (\<lambda>b. broker_step env b y) s)"

lemma call_broker_state: "snd (call_broker f s) = s\<lparr>lm_broker := snd (f (lm_broker s))\<rparr>"
  by (simp add: call_broker_def Let_def)

lemma call_broker_err: "fst (call_broker f s) = Inl e \<Longrightarrow> \<exists>x. e = LeaseBroker x"
  by (cases "fst (f (lm_broker s))") (auto simp: call_broker_def Let_def)

lemma call_broker_Inr [res_simps]:
  "call_broker f s = (Inr a, s') \<longleftrightarrow> (\<exists>b. f (lm_broker s) = (Inr a, b) \<and> s' = s\<lparr>lm_broker := b\<rparr>)"
  by (cases "f (lm_broker s)"; cases "fst (f (lm_broker s))") (auto simp: call_broker_def Let_def)

lemma publish_fields [simp]:
  "lm_leases (publish e s) = lm_leases s" "lm_guards (publish e s) = lm_guards s"
  "lm_taken (publish e s) = lm_taken s" "lm_broker (publish e s) = lm_broker s"
  by (simp_all add: publish_def)

subsection \<open>Refusals\<close>

text \<open>
  A refused operation: only the broker may have moved, and only when the refusal is its own.
\<close>

definition refused_cleanly :: "('p, 't) lease_manager \<Rightarrow> ('p, 't, 'a) lease_outcome \<Rightarrow> bool" where
  "refused_cleanly s r \<longleftrightarrow> (\<forall>e. fst r = Inl e \<longrightarrow>
     (\<exists>b. snd r = s\<lparr>lm_broker := b\<rparr>) \<and> ((\<forall>x. e \<noteq> LeaseBroker x) \<longrightarrow> snd r = s))"

lemma refused_cleanly_simps [simp]:
  "refused_cleanly s (op_ok a t)" "refused_cleanly s (op_err x s)" "refused_cleanly s (op_check p s)"
  "refused_cleanly s (op_void r) = refused_cleanly s r" "refused_cleanly s (call_broker f s)"
proof -
  have self: "\<exists>b. s = s\<lparr>lm_broker := b\<rparr>" by (rule exI [of _ "lm_broker s"]) simp
  show "refused_cleanly s (op_ok a t)" "refused_cleanly s (op_err x s)" "refused_cleanly s (op_check p s)"
    using self by (simp_all add: refused_cleanly_def op_ok_def op_err_def op_check_def)
  show "refused_cleanly s (op_void r) = refused_cleanly s r"
    by (cases r; cases "fst r") (simp_all add: refused_cleanly_def op_void_def op_ok_def)
  show "refused_cleanly s (call_broker f s)"
    by (auto simp: refused_cleanly_def call_broker_state dest: call_broker_err)
qed

lemma refused_cleanly_if:
  "refused_cleanly s r \<Longrightarrow> refused_cleanly s q \<Longrightarrow> refused_cleanly s (if b then r else q)"
  by simp

lemma refused_cleanly_bind:
  assumes "refused_cleanly s r" "\<And>a t. r = (Inr a, t) \<Longrightarrow> refused_cleanly s (f a t)"
  shows "refused_cleanly s (op_bind r f)"
proof (cases r)
  case (Pair x t)
  then show ?thesis using assms by (cases x) (auto simp: refused_cleanly_def)
qed

lemma refused_cleanly_check:
  "(\<And>a. refused_cleanly s (f a s)) \<Longrightarrow> refused_cleanly s (op_bind (op_check r s) f)"
  by (rule refused_cleanly_bind) (auto simp: res_simps)

lemmas refused_rules = refused_cleanly_check refused_cleanly_if refused_cleanly_simps

lemma with_owner_refuses: "refused_cleanly s (with_owner session agent operation f s)"
  unfolding with_owner_def by (cases "lm_leases s session") (auto intro!: refused_rules)

lemma lease_step_refuses_cleanly: "refused_cleanly s (lease_step env s x)"
  unfolding lease_step_def begin_delegated_turn_def acquire_with_presentation_def release_lease_def
    release_after_takeover_def set_reduced_motion_def acknowledge_frontend_ready_def publish_command_phase_def
    write_payload_with_kind_def Let_def
  by (auto intro!: refused_rules refused_cleanly_bind with_owner_refuses split: lease_op.splits option.splits)

subsection \<open>Takeover\<close>

text \<open>An Agent Session whose turn the user took over on a terminal, and that holds no lease there.\<close>

definition fenced :: "string \<Rightarrow> string \<Rightarrow> ('p, 't) lease_manager \<Rightarrow> bool" where
  "fenced session agent s \<longleftrightarrow> (session, agent) \<in> lm_taken s
     \<and> (\<forall>r. lm_leases s session = Some r \<longrightarrow> al_agent (lr_lease r) \<noteq> agent)"

lemma fenced_publish [simp]: "fenced session agent (publish e s) = fenced session agent s"
  by (simp add: fenced_def)

lemma fenced_fields [simp]:
  "fenced session agent (s\<lparr>lm_broker := b\<rparr>) = fenced session agent s"
  "fenced session agent (s\<lparr>lm_guards := g\<rparr>) = fenced session agent s"
  "fenced session agent (s\<lparr>lm_publisher := p\<rparr>) = fenced session agent s"
  by (simp_all add: fenced_def)

lemma fenced_fewer:
  assumes "fenced session agent s" "lm_taken s \<subseteq> lm_taken t"
    "lm_leases t session = None \<or> lm_leases t session = lm_leases s session"
  shows "fenced session agent t"
  using assms unfolding fenced_def by (metis option.distinct(1) subsetD)

lemma drop_lease_fenced: "fenced session agent s \<Longrightarrow> fenced session agent (drop_lease i l reason s)"
  by (auto simp: drop_lease_def fenced_def)

lemma take_turn_fields:
  "lm_leases (take_turn i a s) = lm_leases s" "lm_taken s \<subseteq> lm_taken (take_turn i a s)"
  "(i, a) \<in> lm_taken (take_turn i a s)"
  by (auto simp: take_turn_def Let_def split: option.split)

lemma take_turn_whole:
  "lm_guards s i = Some g \<Longrightarrow> admits g a \<Longrightarrow> admits g b \<Longrightarrow> (i, b) \<in> lm_taken (take_turn i a s)"
  by (auto simp: take_turn_def Let_def admits_def)

lemma call_broker_fenced: "fenced session agent s \<Longrightarrow> leaves (fenced session agent) (call_broker f s)"
  by (simp add: leaves_def call_broker_state)

lemma with_owner_fenced:
  assumes "fenced session agent s" "\<And>r. lr_lease (snd (f r)) = lr_lease r"
  shows "leaves (fenced session agent) (with_owner i a q f s)"
proof (cases "lm_leases s i")
  case (Some r)
  have "fenced session agent (s\<lparr>lm_leases := (lm_leases s)(i \<mapsto> snd (f r))\<rparr>)"
    using assms Some by (auto simp: fenced_def)
  then show ?thesis unfolding with_owner_def Some option.case
    by (intro leaves_bind_check [where I = "fenced session agent", OF assms(1)]) simp
qed (simp add: with_owner_def assms)

lemma acquire_fenced:
  assumes "fenced session agent s"
  shows "leaves (fenced session agent) (acquire_with_presentation now i t a k q d x v s)"
proof -
  have new: "fenced session agent (u\<lparr>lm_guards := g, lm_leases := (lm_leases u)(t \<mapsto> r)\<rparr>)"
    if "fenced session agent u" "t = session \<longrightarrow> al_agent (lr_lease r) \<noteq> agent" for u :: "('a, 'b) lease_manager" and g r
    using that by (auto simp: fenced_def)
  show ?thesis
  proof (cases "(t, a) \<in> lm_taken s")
    case False
    then have "t = session \<longrightarrow> a \<noteq> agent" using assms by (auto simp: fenced_def)
    then show ?thesis unfolding acquire_with_presentation_def Let_def
      by (auto intro!: leaves_if leaves_ok assms leaves_bind call_broker_fenced new)
  qed (simp add: acquire_with_presentation_def Let_def assms)
qed

lemma lease_step_fenced:
  assumes "fenced session agent s" "x \<noteq> LoForgetTakeover agent"
  shows "leaves (fenced session agent) (lease_step env s x)"
proof -
  note [simp] = assms(1) drop_lease_fenced
  note rules = leaves_bind_check [where I = "fenced session agent", OF assms(1)] leaves_if leaves_ok leaves_bind
    call_broker_fenced assms(1) drop_lease_fenced
  show ?thesis
  proof (cases x)
    case (LoBegin i a as)
    show ?thesis unfolding LoBegin lease_step_def lease_op.case begin_delegated_turn_def
      by (auto split: option.split)
  next
    case (LoForgetTakeover a)
    then show ?thesis using assms by (simp add: lease_step_def forget_takeover_def fenced_def)
  next
    case (LoAcquire now i t a k q d e v)
    then show ?thesis by (simp add: lease_step_def leaves_void acquire_fenced)
  next
    case (LoRelease i t a k q reason)
    show ?thesis unfolding LoRelease lease_step_def lease_op.case leaves_void release_lease_def
      by (auto intro!: rules split: option.split)
  next
    case (LoDropLease i t reason)
    then show ?thesis
      by (auto simp: lease_step_def drop_terminal_lease_def Let_def call_broker_state drop_lease_fenced split: option.split)
  next
    case (LoTakeover i t a k q)
    have take: "fenced session agent u \<Longrightarrow> fenced session agent (take_turn t a u)" for u :: "('a, 'b) lease_manager"
      by (erule fenced_fewer) (simp_all add: take_turn_fields)
    show ?thesis unfolding LoTakeover lease_step_def lease_op.case leaves_void release_after_takeover_def
      by (auto intro!: rules take split: option.split)
  next
    case (LoWrite t src kind bytes written)
    show ?thesis unfolding LoWrite lease_step_def lease_op.case leaves_void write_payload_with_kind_def
      by (auto intro!: rules)
  next
    case (LoPhase i a q phase)
    show ?thesis unfolding LoPhase lease_step_def lease_op.case publish_command_phase_def
      by (intro rules) simp
  qed (simp_all add: lease_step_def leaves_void with_owner_fenced set_reduced_motion_def acknowledge_frontend_ready_def
      call_broker_fenced forget_guards_def drop_guard_def)
qed

lemma run_fenced:
  "fenced session agent s \<Longrightarrow> list_all (\<lambda>x. x \<noteq> LoForgetTakeover agent) ops \<Longrightarrow>
   fenced session agent (run_all (lease_step env) s ops)"
proof (induction ops arbitrary: s)
  case (Cons x ops)
  then show ?case using lease_step_fenced [of session agent s x env] by (simp add: leaves_def)
qed simp

lemma takeover_fences:
  assumes "release_after_takeover i session agent task operation s = (Inr True, s')"
    and "b = agent \<or> (\<exists>g. lm_guards s session = Some g \<and> admits g agent \<and> admits g b)"
  shows "fenced session b s'"
proof -
  obtain r where r: "lm_leases s session = Some r"
    using assms(1) by (cases "lm_leases s session") (auto simp: release_after_takeover_def op_ok_def)
  then obtain c where s': "s' = drop_lease session (lr_lease r) ReleaseTakenOver (take_turn session agent (s\<lparr>lm_broker := c\<rparr>))"
    using assms(1) by (auto simp: release_after_takeover_def res_simps)
  have "(session, b) \<in> lm_taken (take_turn session agent (s\<lparr>lm_broker := c\<rparr>))"
    using assms(2) take_turn_whole [of "s\<lparr>lm_broker := c\<rparr>"] by (auto simp: take_turn_fields)
  then show ?thesis unfolding fenced_def by (simp add: s' drop_lease_def)
qed

lemma fenced_is_refused:
  assumes "fenced session b s"
  shows "b \<in> set (a # as) \<Longrightarrow> begin_delegated_turn session a as s = op_err LeaseTakenOver s"
    "acquire_with_presentation now i session b k q d x v s = op_err LeaseTakenOver s"
    "fst (write_payload_with_kind env session (SourceAgent b k q) kind bytes written s) \<noteq> Inr rc"
proof -
  have taken: "(session, b) \<in> lm_taken s" using assms by (simp add: fenced_def)
  then show "b \<in> set (a # as) \<Longrightarrow> begin_delegated_turn session a as s = op_err LeaseTakenOver s"
    "acquire_with_presentation now i session b k q d x v s = op_err LeaseTakenOver s"
    by (auto simp: begin_delegated_turn_def list_ex_iff acquire_with_presentation_def Let_def)
  have "authorize_input (map_option lr_lease (lm_leases s session)) (SourceAgent b k q) \<noteq> Inr ()"
    using assms by (auto simp: authorize_input_def validate_owner_def fenced_def res_simps split: option.splits)
  then obtain e where "authorize_input (map_option lr_lease (lm_leases s session)) (SourceAgent b k q) = Inl e"
    by (cases "authorize_input (map_option lr_lease (lm_leases s session)) (SourceAgent b k q)") auto
  then show "fst (write_payload_with_kind env session (SourceAgent b k q) kind bytes written s) \<noteq> Inr rc"
    by (simp add: write_payload_with_kind_def op_err_def)
qed

subsection \<open>Turns\<close>

text \<open>A turn of \<open>a\<close> on a terminal, in which \<open>b\<close> has no part.\<close>

definition outside :: "string \<Rightarrow> string \<Rightarrow> string \<Rightarrow> ('p, 't) lease_manager \<Rightarrow> bool" where
  "outside session a b s \<longleftrightarrow> (case lm_guards s session of
     None \<Rightarrow> False | Some g \<Rightarrow> tg_owner g = a \<and> b \<notin> tg_delegates g)"

text \<open>What ends the turn of \<open>a\<close>, or makes \<open>b\<close> a delegate of it.\<close>

definition opens_turn :: "string \<Rightarrow> string \<Rightarrow> string \<Rightarrow> 't lease_op \<Rightarrow> bool" where
  "opens_turn session a b x \<longleftrightarrow> (case x of
     LoDropGuard t \<Rightarrow> t = session
   | LoTakeover _ t _ _ _ \<Rightarrow> t = session
   | LoForgetGuards c \<Rightarrow> c = a
   | LoBegin t c as \<Rightarrow> t = session \<and> c = b \<and> a \<in> set as
   | _ \<Rightarrow> False)"

lemma outside_guards: "lm_guards t session = lm_guards s session \<Longrightarrow> outside session a b t = outside session a b s"
  by (simp add: outside_def)

lemma outside_fields [simp]:
  "outside session a b (publish e s) = outside session a b s"
  "outside session a b (s\<lparr>lm_broker := c\<rparr>) = outside session a b s"
  "outside session a b (s\<lparr>lm_leases := l\<rparr>) = outside session a b s"
  "outside session a b (s\<lparr>lm_taken := k\<rparr>) = outside session a b s"
  "outside session a b (s\<lparr>lm_publisher := p\<rparr>) = outside session a b s"
  "outside session a b (drop_lease i v reason s) = outside session a b s"
  by (simp_all add: outside_def drop_lease_def)

lemma call_broker_outside: "outside session a b s \<Longrightarrow> leaves (outside session a b) (call_broker f s)"
  by (simp add: leaves_def call_broker_state)

lemma with_owner_outside: "outside session a b s \<Longrightarrow> leaves (outside session a b) (with_owner t c q f s)"
  by (cases "lm_leases s t") (auto simp: with_owner_def intro!: leaves_bind_check)

lemma begin_outside:
  assumes "outside session a b s" "\<not> (t = session \<and> c = b \<and> a \<in> set as)"
  shows "leaves (outside session a b) (begin_delegated_turn t c as s)"
proof -
  have "outside session a b (s\<lparr>lm_guards := (lm_guards s)(t \<mapsto> g\<lparr>tg_delegates := insert c (tg_delegates g)\<rparr>)\<rparr>)"
    if "lm_guards s t = Some g" "tg_owner g \<in> set as" for g
    using assms that by (auto simp: outside_def)
  moreover have "outside session a b (s\<lparr>lm_guards := (lm_guards s)(t \<mapsto> new_guard c)\<rparr>)" if "lm_guards s t = None"
    using assms(1) that by (auto simp: outside_def)
  ultimately show ?thesis using assms(1) by (auto simp: begin_delegated_turn_def split: option.split)
qed

lemma lease_step_outside:
  assumes "outside session a b s" "\<not> opens_turn session a b x"
  shows "leaves (outside session a b) (lease_step env s x)"
proof -
  note rules = leaves_bind_check [where I = "outside session a b", OF assms(1)] leaves_if leaves_ok leaves_bind
    call_broker_outside assms(1)
  show ?thesis
  proof (cases x)
    case (LoBegin t c as)
    then show ?thesis using assms by (simp add: lease_step_def begin_outside opens_turn_def)
  next
    case (LoForgetGuards c)
    then show ?thesis using assms
      by (auto simp: lease_step_def forget_guards_def outside_def opens_turn_def split: option.splits)
  next
    case (LoAcquire now i t c k q d e v)
    have new: "outside session a b u \<Longrightarrow> outside session a b (u\<lparr>lm_guards := (lm_guards u)(t \<mapsto>
        (case lm_guards u t of None \<Rightarrow> new_guard c | Some g \<Rightarrow> g))\<rparr>)"
      for u :: "('a, 'b) lease_manager"
      by (auto simp: outside_def split: option.splits)
    show ?thesis unfolding LoAcquire lease_step_def lease_op.case leaves_void acquire_with_presentation_def Let_def
      by (auto intro!: rules new)
  next
    case (LoRelease i t c k q reason)
    show ?thesis unfolding LoRelease lease_step_def lease_op.case leaves_void release_lease_def
      by (auto intro!: rules split: option.split)
  next
    case (LoDropGuard t)
    then show ?thesis using assms by (simp add: lease_step_def drop_guard_def outside_def opens_turn_def)
  next
    case (LoDropLease i t reason)
    then show ?thesis using assms(1)
      by (auto simp: lease_step_def drop_terminal_lease_def Let_def call_broker_state split: option.split)
  next
    case (LoTakeover i t c k q)
    then have "t \<noteq> session" using assms(2) by (auto simp: opens_turn_def)
    then have take: "outside session a b u \<Longrightarrow> outside session a b (take_turn t c u)" for u :: "('a, 'b) lease_manager"
      by (auto simp: take_turn_def Let_def outside_def split: option.splits)
    show ?thesis unfolding LoTakeover lease_step_def lease_op.case leaves_void release_after_takeover_def
      by (auto intro!: rules take split: option.split)
  next
    case (LoWrite t src kind bytes written)
    show ?thesis unfolding LoWrite lease_step_def lease_op.case leaves_void write_payload_with_kind_def
      by (auto intro!: rules)
  next
    case (LoPhase t c q phase)
    show ?thesis unfolding LoPhase lease_step_def lease_op.case publish_command_phase_def
      by (intro rules) (simp add: assms(1))
  qed (simp_all add: assms(1) lease_step_def leaves_void with_owner_outside set_reduced_motion_def
      acknowledge_frontend_ready_def call_broker_outside forget_takeover_def)
qed

lemma run_outside:
  "outside session a b s \<Longrightarrow> list_all (\<lambda>x. \<not> opens_turn session a b x) ops \<Longrightarrow>
   outside session a b (run_all (lease_step env) s ops)"
proof (induction ops arbitrary: s)
  case (Cons x ops)
  then show ?case using lease_step_outside [of session a b s x env] by (simp add: leaves_def)
qed simp

lemma outside_is_refused:
  assumes "outside session a b s" "b \<noteq> a"
  shows "write_payload_with_kind env session SourceUser kind bytes written s = op_err LeaseUserInputBlocked s"
    "begin_turn session b s \<in> {op_err LeaseBusy s, op_err LeaseTakenOver s}"
    "acquire_with_presentation now i session b k q d x v s \<in> {op_err LeaseBusy s, op_err LeaseTakenOver s}"
  using assms
  by (auto simp: outside_def write_payload_with_kind_def begin_turn_def begin_delegated_turn_def admits_def
      acquire_with_presentation_def Let_def split: option.splits)

subsection \<open>Input\<close>

text \<open>A lease the manager does not hold, and the only operation that can make it hold it.\<close>

definition unleased :: "string \<Rightarrow> string \<times> string \<times> string \<Rightarrow> ('p, 't) lease_manager \<Rightarrow> bool" where
  "unleased session w s \<longleftrightarrow> (\<forall>r. lm_leases s session = Some r \<longrightarrow>
     (al_agent (lr_lease r), al_task (lr_lease r), al_operation (lr_lease r)) \<noteq> w)"

definition acquires :: "string \<Rightarrow> string \<times> string \<times> string \<Rightarrow> 't lease_op \<Rightarrow> bool" where
  "acquires session w x \<longleftrightarrow> (case x of
     LoAcquire _ _ t a k q _ _ _ \<Rightarrow> t = session \<and> (a, k, q) = w | _ \<Rightarrow> False)"

lemma unleased_fields [simp]:
  "unleased session w (publish e s) = unleased session w s"
  "unleased session w (s\<lparr>lm_broker := b\<rparr>) = unleased session w s"
  "unleased session w (s\<lparr>lm_guards := g\<rparr>) = unleased session w s"
  "unleased session w (s\<lparr>lm_taken := k\<rparr>) = unleased session w s"
  "unleased session w (s\<lparr>lm_publisher := p\<rparr>) = unleased session w s"
  by (simp_all add: unleased_def)

lemma unleased_drop: "unleased session w s \<Longrightarrow> unleased session w (drop_lease i l reason s)"
  by (auto simp: drop_lease_def unleased_def)

lemma unleased_take: "unleased session w (take_turn t a s) = unleased session w s"
  by (simp add: unleased_def take_turn_fields)

lemma call_broker_unleased: "unleased session w s \<Longrightarrow> leaves (unleased session w) (call_broker f s)"
  by (simp add: leaves_def call_broker_state)

lemma with_owner_unleased:
  assumes "unleased session w s" "\<And>r. lr_lease (snd (f r)) = lr_lease r"
  shows "leaves (unleased session w) (with_owner i a q f s)"
proof (cases "lm_leases s i")
  case (Some r)
  have "unleased session w (s\<lparr>lm_leases := (lm_leases s)(i \<mapsto> snd (f r))\<rparr>)"
    using assms Some by (auto simp: unleased_def)
  then show ?thesis unfolding with_owner_def Some option.case
    by (intro leaves_bind_check [where I = "unleased session w", OF assms(1)]) simp
qed (simp add: with_owner_def assms)

lemma lease_step_unleased:
  assumes "unleased session w s" "\<not> acquires session w x"
  shows "leaves (unleased session w) (lease_step env s x)"
proof -
  note [simp] = assms(1) unleased_drop
  note rules = leaves_bind_check [where I = "unleased session w", OF assms(1)] leaves_if leaves_ok leaves_bind
    call_broker_unleased assms(1) unleased_drop
  show ?thesis
  proof (cases x)
    case (LoBegin i a as)
    show ?thesis unfolding LoBegin lease_step_def lease_op.case begin_delegated_turn_def
      by (auto split: option.split)
  next
    case (LoAcquire now i t a k q d e v)
    have new: "unleased session w (u\<lparr>lm_guards := g, lm_leases := (lm_leases u)(t \<mapsto> r)\<rparr>)"
      if "unleased session w u" "al_agent (lr_lease r) = a" "al_task (lr_lease r) = k" "al_operation (lr_lease r) = q"
      for u :: "('a, 'b) lease_manager" and g r
      using that assms(2) LoAcquire by (auto simp: unleased_def acquires_def)
    show ?thesis unfolding LoAcquire lease_step_def lease_op.case leaves_void acquire_with_presentation_def Let_def
      by (auto intro!: leaves_if leaves_ok assms leaves_bind call_broker_unleased new)
  next
    case (LoRelease i t a k q reason)
    show ?thesis unfolding LoRelease lease_step_def lease_op.case leaves_void release_lease_def
      by (auto intro!: rules split: option.split)
  next
    case (LoDropLease i t reason)
    then show ?thesis
      by (auto simp: lease_step_def drop_terminal_lease_def Let_def call_broker_state unleased_drop split: option.split)
  next
    case (LoTakeover i t a k q)
    show ?thesis unfolding LoTakeover lease_step_def lease_op.case leaves_void release_after_takeover_def
      by (auto intro!: rules simp: unleased_take split: option.split)
  next
    case (LoWrite t src kind bytes written)
    show ?thesis unfolding LoWrite lease_step_def lease_op.case leaves_void write_payload_with_kind_def
      by (auto intro!: rules)
  next
    case (LoPhase i a q phase)
    show ?thesis unfolding LoPhase lease_step_def lease_op.case publish_command_phase_def
      by (intro rules) simp
  qed (simp_all add: lease_step_def leaves_void with_owner_unleased set_reduced_motion_def
      acknowledge_frontend_ready_def call_broker_unleased forget_guards_def forget_takeover_def drop_guard_def)
qed

lemma run_unleased:
  "unleased session w s \<Longrightarrow> list_all (\<lambda>x. \<not> acquires session w x) ops \<Longrightarrow>
   unleased session w (run_all (lease_step env) s ops)"
proof (induction ops arbitrary: s)
  case (Cons x ops)
  then show ?case using lease_step_unleased [of session w s x env] by (simp add: leaves_def)
qed simp

lemma released_unleased:
  "release_lease i session a k q reason s = (Inr v, u) \<Longrightarrow> unleased session (a, k, q) u"
  by (cases "lm_leases s session")
    (auto simp: release_lease_def res_simps op_ok_def drop_lease_def unleased_def)

lemma agent_write_needs_lease:
  assumes "write_payload_with_kind env session (SourceAgent a k q) kind bytes written s = (Inr (Some rc), s')"
  shows "\<exists>r b. lm_leases s session = Some r \<and> al_agent (lr_lease r) = a \<and> al_task (lr_lease r) = k
    \<and> al_operation (lr_lease r) = q \<and> s' = s\<lparr>lm_broker := b\<rparr>
    \<and> admit_terminal_input env session (FromAgent a k q) kind bytes written (lm_broker s) = (Inr (Some rc), b)"
  using assms unfolding write_payload_with_kind_def
  by (auto simp: res_simps authorize_input_def broker_source_def validate_owner_def op_err_def
      split: if_splits option.splits)

subsection \<open>Properties\<close>

text \<open>
  C26. A takeover lasts. When the user has taken a terminal over from an Agent, then for this
  Agent and for everyone in its turn on the terminal, and whatever is done to manager and
  broker until that Agent's turn is released: no turn begins for it or below it, it gets no
  lease, and nothing it writes is accepted.
\<close>

theorem takeover_sticks:
  assumes "release_after_takeover i session agent task operation s = (Inr True, s')"
    and "b = agent \<or> (\<exists>g. lm_guards s session = Some g \<and> admits g agent \<and> admits g b)"
    and "list_all (\<lambda>x. x \<noteq> LoForgetTakeover b) ops"
  shows "let t = run_all (lease_step env) s' ops in
     (b \<in> set (a # as) \<longrightarrow> begin_delegated_turn session a as t = op_err LeaseTakenOver t)
   \<and> acquire_with_presentation now j session b k q d x v t = op_err LeaseTakenOver t
   \<and> fst (write_payload_with_kind env session (SourceAgent b k q) kind bytes written t) \<noteq> Inr rc"
  using fenced_is_refused [OF run_fenced [OF takeover_fences [OF assms(1,2)] assms(3)]]
  unfolding Let_def by blast

text \<open>
  C28. A turn keeps others out. While an Agent's turn on a terminal lasts, whatever else
  happens, the user's input is refused, and an Agent Session outside the turn that never
  asks for it on behalf of the owner can neither begin a turn there nor acquire the lease.
\<close>

theorem turn_keeps_others_out:
  assumes "lm_guards s session = Some g" "tg_owner g = a" "\<not> admits g b"
    and "list_all (\<lambda>x. \<not> opens_turn session a b x) ops"
  shows "let t = run_all (lease_step env) s ops in
     turn_owner session t = Some a
   \<and> write_payload_with_kind env session SourceUser kind bytes written t = op_err LeaseUserInputBlocked t
   \<and> begin_turn session b t \<in> {op_err LeaseBusy t, op_err LeaseTakenOver t}
   \<and> acquire_with_presentation now i session b k q d x v t \<in> {op_err LeaseBusy t, op_err LeaseTakenOver t}"
proof -
  have "outside session a b s" "b \<noteq> a" using assms(1-3) by (auto simp: outside_def admits_def)
  note kept = run_outside [OF this(1) assms(4), of env] this(2)
  have "turn_owner session (run_all (lease_step env) s ops) = Some a"
    using kept(1) by (auto simp: outside_def turn_owner_def split: option.splits)
  then show ?thesis using outside_is_refused [OF kept] unfolding Let_def by blast
qed

text \<open>
  C29. A refusal leaves no trace. When an operation of the lease manager fails, leases,
  turns, takeovers and published events are as before; and unless the error is one of the
  broker, the broker is as before too.
\<close>

theorem refused_lease_operation_changes_nothing:
  assumes "fst (lease_step env s x) = Inl e"
  shows "(\<exists>b. snd (lease_step env s x) = s\<lparr>lm_broker := b\<rparr>)
    \<and> ((\<forall>y. e \<noteq> LeaseBroker y) \<longrightarrow> snd (lease_step env s x) = s)"
  using lease_step_refuses_cleanly [of s env x] assms by (auto simp: refused_cleanly_def)

text \<open>
  C27. Two keys. Input of an Agent gets a receipt only when the lease manager holds the lease
  of exactly this Agent Session, task and operation and the broker does too; no other Agent
  could have typed into the broker's terminal in that state. And whenever the manager has
  released this lease, then or in any other state, the same Agent Session, task and operation
  get no receipt, whatever is done to manager and broker, until the manager grants it to them
  again.
\<close>

theorem agent_types_with_both_leases:
  fixes s t u :: "('p, 'x) lease_manager" and env :: "'p broker_env"
  assumes "write_payload_with_kind env session (SourceAgent a k q) kind bytes written s = (Inr (Some rc), s')"
  shows "(\<exists>r. lm_leases s session = Some r \<and> al_agent (lr_lease r) = a \<and> al_task (lr_lease r) = k
      \<and> al_operation (lr_lease r) = q)
    \<and> transport_owner session (lm_broker s) = Some (a, k, q)
    \<and> (input_admitted env session w (lm_broker s) \<longrightarrow> w = (a, k, q))
    \<and> (release_lease i session a k q reason t = (Inr v, u) \<longrightarrow> list_all (\<lambda>x. \<not> acquires session (a, k, q) x) ops \<longrightarrow>
        fst (write_payload_with_kind env session (SourceAgent a k q) kind' bytes' written'
          (run_all (lease_step env) u ops)) \<noteq> Inr (Some rc'))"
proof -
  from agent_write_needs_lease [OF assms] obtain r b' where r: "lm_leases s session = Some r" "al_agent (lr_lease r) = a"
      "al_task (lr_lease r) = k" "al_operation (lr_lease r) = q"
    and adm: "admit_terminal_input env session (FromAgent a k q) kind bytes written (lm_broker s) = (Inr (Some rc), b')"
    by auto
  have admitted: "input_admitted env session (a, k, q) (lm_broker s)"
    unfolding input_admitted_def prod.case using adm by blast
  have "fst (write_payload_with_kind env session (SourceAgent a k q) kind' bytes' written' t) \<noteq> Inr (Some rc')"
    if "unleased session (a, k, q) t" for t :: "('p, 'x) lease_manager"
  proof
    assume "fst (write_payload_with_kind env session (SourceAgent a k q) kind' bytes' written' t) = Inr (Some rc')"
    then obtain t' where "write_payload_with_kind env session (SourceAgent a k q) kind' bytes' written' t = (Inr (Some rc'), t')"
      by (cases "write_payload_with_kind env session (SourceAgent a k q) kind' bytes' written' t") auto
    from agent_write_needs_lease [OF this] that show False by (auto simp: unleased_def)
  qed
  with r admitted authority.one_admitted [OF admitted] authority.admitted_owner [OF admitted]
    run_unleased [OF released_unleased] show ?thesis by blast
qed

subsection \<open>Examples\<close>

definition sample_manager :: "(unit, unit) lease_manager" where
  "sample_manager = (new_manager leased_broker)\<lparr>
     lm_guards := [''tab'' \<mapsto> \<lparr>tg_owner = ''agent'', tg_delegates = {''child''}\<rparr>],
     lm_leases := [''tab'' \<mapsto> \<lparr>lr_lease = \<lparr>al_session_id = ''tab'', al_agent = ''agent'', al_task = ''task'',
       al_operation = ''op'', al_acquired_at = 1\<rparr>, lr_frontend = FrontendReady, lr_reduced_motion = True\<rparr>]\<rparr>"

lemma sample_takeover: "\<exists>s'. release_after_takeover ''l2'' ''tab'' ''agent'' ''task'' ''op'' sample_manager = (Inr True, s')"
proof -
  have "\<exists>b. release_agent_lease ''l2'' ''tab'' ''agent'' ''task'' ''op'' leased_broker = (Inr True, b)"
    by (simp add: leased_broker_def sample_defs broker_eval release_agent_lease_def cong: eval_congs) (simp add: op_ok_def)
  then obtain b where b: "release_agent_lease ''l2'' ''tab'' ''agent'' ''task'' ''op'' leased_broker = (Inr True, b)" ..
  show ?thesis
    by (simp add: release_after_takeover_def sample_manager_def new_manager_def validate_owner_def ensure_def try_bind_def
        call_broker_def Let_def b) (simp add: op_ok_def)
qed

lemma takeover_sticks_witness:
  "\<exists>s'. release_after_takeover ''l2'' ''tab'' ''agent'' ''task'' ''op'' sample_manager = (Inr True, s')
    \<and> (let t = run_all (lease_step sample_env) s' [LoForgetGuards ''child'', LoForgetTakeover ''agent''] in
        begin_delegated_turn ''tab'' ''grandchild'' [''child''] t = op_err LeaseTakenOver t)"
proof -
  obtain s' where s': "release_after_takeover ''l2'' ''tab'' ''agent'' ''task'' ''op'' sample_manager = (Inr True, s')"
    using sample_takeover by blast
  have turn: "''child'' = ''agent'' \<or> (\<exists>g. lm_guards sample_manager ''tab'' = Some g \<and> admits g ''agent'' \<and> admits g ''child'')"
    by (simp add: sample_manager_def admits_def)
  have ops: "list_all (\<lambda>x. x \<noteq> LoForgetTakeover ''child'') [LoForgetGuards ''child'', LoForgetTakeover ''agent'' :: unit lease_op]"
    by simp
  from takeover_sticks [OF s' turn ops] s' show ?thesis
    unfolding Let_def by (auto simp del: run_all.simps)
qed

lemma turn_keeps_others_out_witness:
  "let t = run_all (lease_step sample_env) sample_manager [LoForgetGuards ''child'', LoBegin ''tab'' ''other'' []] in
     turn_owner ''tab'' t = Some ''agent''
   \<and> write_payload_with_kind sample_env ''tab'' SourceUser InputText [108] True t = op_err LeaseUserInputBlocked t"
proof -
  have g: "lm_guards sample_manager ''tab'' = Some \<lparr>tg_owner = ''agent'', tg_delegates = {''child''}\<rparr>"
    "tg_owner \<lparr>tg_owner = ''agent'', tg_delegates = {''child''}\<rparr> = ''agent''"
    "\<not> admits \<lparr>tg_owner = ''agent'', tg_delegates = {''child''}\<rparr> ''other''"
    by (simp_all add: sample_manager_def admits_def)
  have "list_all (\<lambda>x. \<not> opens_turn ''tab'' ''agent'' ''other'' x)
      [LoForgetGuards ''child'', LoBegin ''tab'' ''other'' [] :: unit lease_op]"
    by (simp add: opens_turn_def)
  from turn_keeps_others_out [OF g this, of sample_env] show ?thesis
    unfolding Let_def by (auto simp del: run_all.simps)
qed

lemma refused_lease_operation_changes_nothing_witness:
  "snd (lease_step sample_env sample_manager (LoBegin ''tab'' ''other'' [])) = sample_manager"
proof -
  have "fst (lease_step sample_env sample_manager (LoBegin ''tab'' ''other'' [])) = Inl LeaseBusy"
    by (simp add: lease_step_def begin_delegated_turn_def sample_manager_def new_manager_def admits_def op_err_def)
  from refused_lease_operation_changes_nothing [OF this] show ?thesis by simp
qed

lemma sample_release:
  "\<exists>u. release_lease ''l2'' ''tab'' ''agent'' ''task'' ''op'' ReleaseCompleted sample_manager = (Inr True, u)"
proof -
  have "\<exists>b. release_agent_lease ''l2'' ''tab'' ''agent'' ''task'' ''op'' leased_broker = (Inr True, b)"
    by (simp add: leased_broker_def sample_defs broker_eval release_agent_lease_def cong: eval_congs) (simp add: op_ok_def)
  then obtain b where b: "release_agent_lease ''l2'' ''tab'' ''agent'' ''task'' ''op'' leased_broker = (Inr True, b)" ..
  show ?thesis
    by (simp add: release_lease_def sample_manager_def new_manager_def validate_owner_def ensure_def try_bind_def
        call_broker_def Let_def b) (simp add: op_ok_def)
qed

lemma agent_types_with_both_leases_witness:
  "\<exists>rc s' u. write_payload_with_kind sample_env ''tab'' (SourceAgent ''agent'' ''task'' ''op'') InputText [108, 115] True
      sample_manager = (Inr (Some rc), s')
    \<and> transport_owner ''tab'' (lm_broker sample_manager) = Some (''agent'', ''task'', ''op'')
    \<and> release_lease ''l2'' ''tab'' ''agent'' ''task'' ''op'' ReleaseCompleted sample_manager = (Inr True, u)
    \<and> fst (write_payload_with_kind sample_env ''tab'' (SourceAgent ''agent'' ''task'' ''op'') InputText [108, 115] True
        (run_all (lease_step sample_env) u [LoForgetGuards ''agent''])) \<noteq> Inr (Some rc)"
proof -
  obtain rc b where adm: "admit_terminal_input sample_env ''tab'' (FromAgent ''agent'' ''task'' ''op'') InputText [108, 115] True
     leased_broker = (Inr (Some rc), b)" using leased_input by blast
  have w: "write_payload_with_kind sample_env ''tab'' (SourceAgent ''agent'' ''task'' ''op'') InputText [108, 115] True
      sample_manager = (Inr (Some rc), sample_manager\<lparr>lm_broker := b\<rparr>)"
    by (simp add: write_payload_with_kind_def sample_manager_def new_manager_def authorize_input_def validate_owner_def
        ensure_def try_bind_def broker_source_def is_system_def call_broker_def Let_def adm)
  obtain u where u: "release_lease ''l2'' ''tab'' ''agent'' ''task'' ''op'' ReleaseCompleted sample_manager = (Inr True, u)"
    using sample_release by blast
  have ops: "list_all (\<lambda>x. \<not> acquires ''tab'' (''agent'', ''task'', ''op'') x) [LoForgetGuards ''agent'' :: unit lease_op]"
    by (simp add: acquires_def)
  from agent_types_with_both_leases [OF w] w u ops show ?thesis by blast
qed

end
