(* ===== verification/Host_Guard.thy ===== *)
theory Host_Guard
  imports Rust_Text
begin

text \<open>
  The destinations no connection may have (connection.rs, \<open>validate\_host\<close>): the hosts and
  addresses of the bundled deny list, the link-local range with the metadata endpoints of
  clouds, and the unspecified address. Parsing of an IP address is a parameter; an IPv6
  address is its 128 bits.
\<close>

datatype (plugins only: code size) ip_addr = IpV4 u32 | IpV6 "128 word"

record deny_list =
  dl_hosts :: "string list"
  dl_addresses :: "ip_addr list"

text \<open>\<open>str::trim\_start\_matches\<close> with a string, and \<open>trim\_end\_matches\<close> with a character.\<close>

function trim_start_text :: "string \<Rightarrow> string \<Rightarrow> string" where
  "trim_start_text p s = (if p \<noteq> [] \<and> starts_with p s then trim_start_text p (drop (length p) s) else s)"
  by auto
termination
  by (relation "measure (\<lambda>(p, s). length s)") (auto simp: starts_with_iff)

declare trim_start_text.simps [simp del]

definition trim_end_char :: "char \<Rightarrow> string \<Rightarrow> string" where
  "trim_end_char c s = rev (dropWhile (\<lambda>d. d = c) (rev s))"

definition strip_port :: "string \<Rightarrow> string" where
  "strip_port host =
     (if starts_with ''['' host then
        (case position (\<lambda>c. c = CHR '']'') host of None \<Rightarrow> host | Some i \<Rightarrow> drop 1 (take i host))
      else if length (filter (\<lambda>c. c = CHR '':'') host) = 1 then takeWhile (\<lambda>c. c \<noteq> CHR '':'') host
      else host)"

text \<open>\<open>Ipv6Addr::to\_ipv4\_mapped\<close>: 80 zero bits, 16 one bits, and the IPv4 address.\<close>

definition normalize_ip :: "ip_addr \<Rightarrow> ip_addr" where
  "normalize_ip ip = (case ip of
     IpV4 a \<Rightarrow> IpV4 a
   | IpV6 a \<Rightarrow> if unat a div 2 ^ 32 = 0xFFFF then IpV4 (of_nat (unat a mod 2 ^ 32)) else IpV6 a)"

definition is_link_local4 :: "u32 \<Rightarrow> bool" where
  "is_link_local4 a \<longleftrightarrow> unat a div 2 ^ 16 = 169 * 256 + 254"

definition is_ipv6_link_local :: "128 word \<Rightarrow> bool" where
  "is_ipv6_link_local a \<longleftrightarrow> unat a div 2 ^ 118 = 0xFE80 div 2 ^ 6"

definition is_blocked_ip :: "deny_list \<Rightarrow> ip_addr \<Rightarrow> bool" where
  "is_blocked_ip deny ip \<longleftrightarrow> ip \<in> set (dl_addresses deny)
     \<or> (case ip of IpV4 a \<Rightarrow> is_link_local4 a \<or> a = 0 | IpV6 a \<Rightarrow> a = 0 \<or> is_ipv6_link_local a)"

definition candidate_host :: "string \<Rightarrow> string" where
  "candidate_host host =
     strip_port (hd (split_on (CHR ''/'') (trim_start_text ''https://'' (trim_start_text ''http://''
       (map to_ascii_lower host)))))"

definition is_blocked_host :: "deny_list \<Rightarrow> (string \<Rightarrow> ip_addr option) \<Rightarrow> string \<Rightarrow> bool" where
  "is_blocked_host deny parse_ip host \<longleftrightarrow>
     trim_end_char (CHR ''.'') (candidate_host host) \<in> set (dl_hosts deny)
     \<or> (case parse_ip (candidate_host host) of None \<Rightarrow> False | Some ip \<Rightarrow> is_blocked_ip deny (normalize_ip ip))"

datatype (plugins only: code size) host_error = HostRequired | HostBlocked

definition validate_host :: "deny_list \<Rightarrow> (string \<Rightarrow> ip_addr option) \<Rightarrow> string \<Rightarrow> host_error + unit" where
  "validate_host deny parse_ip host =
     try_bind (ensure (trim_text host \<noteq> []) HostRequired) (\<lambda>_.
     ensure (\<not> is_blocked_host deny parse_ip (trim_text host)) HostBlocked)"

text \<open>The spelling of an address does not help: an IPv4-mapped IPv6 address is treated as IPv4.\<close>

definition mapped :: "u32 \<Rightarrow> 128 word" where
  "mapped a = of_nat (0xFFFF * 2 ^ 32 + unat a)"

lemma normalize_mapped: "normalize_ip (IpV6 (mapped a)) = IpV4 a"
proof -
  have "unat a < 2 ^ 32" using unsigned_less [of a] by simp
  then have u: "unat (mapped a) = 0xFFFF * 2 ^ 32 + unat a"
    by (simp only: mapped_def unsigned_of_nat of_nat_id) (intro take_bit_nat_eq_self, simp)
  have "(k * m + n) div m = k \<and> (k * m + n) mod m = n" if "n < m" for k m n :: nat using that by simp
  from this [OF \<open>unat a < 2 ^ 32\<close>, where k = "0xFFFF"]
  have "unat (mapped a) div 2 ^ 32 = 0xFFFF" "unat (mapped a) mod 2 ^ 32 = unat a"
    by (simp_all only: u)
  then show ?thesis by (simp add: normalize_ip_def)
qed

lemma blocked_mapped:
  "parse_ip (candidate_host h) = Some (IpV4 a) \<Longrightarrow> parse_ip (candidate_host k) = Some (IpV6 (mapped a)) \<Longrightarrow>
   is_blocked_ip deny (IpV4 a) \<Longrightarrow> is_blocked_host deny parse_ip h \<and> is_blocked_host deny parse_ip k"
  by (simp add: is_blocked_host_def normalize_mapped) (simp add: normalize_ip_def)

end
