(* ===== verification/Tool_Contract.thy ===== *)
theory Tool_Contract
  imports Wire_Types Terminal_Broker Host_Guard
begin

text \<open>
  The contract of the native tools (agent\_runtime/native\_contract): the requests, targets,
  calls and arguments of types.rs, the table of built-in tools and the checks of policy.rs
  and diagnostics.rs, and the reference policy \<open>NativeContractPolicyEngine\<close>. The derived
  decoders of the argument structs, the URL parser and the redaction of JSON are parameters.
\<close>

subsection \<open>Data (types.rs)\<close>

definition NATIVE_TOOL_CONTRACT_VERSION :: u8 where "NATIVE_TOOL_CONTRACT_VERSION = 3"
definition MAX_WRITE_FILE_CONTENT_BYTES :: nat where "MAX_WRITE_FILE_CONTENT_BYTES = 128 * 1024"
definition MAX_EDIT_FILE_CONTENT_BYTES :: nat where "MAX_EDIT_FILE_CONTENT_BYTES = 32 * 1024"

datatype (plugins only: code size) native_mode = NativeRequestApproval | NativeScopedAutopilot | NativeOperator

datatype (plugins only: code size) target_kind = KindLocal | KindRemote | KindProcess

datatype (plugins only: code size) tool_target =
    TargetLocal (target_of: string) (target_session: string) (target_cwd: "string option")
  | TargetRemote (target_of: string) (target_session: string) (target_profile: "string option")
      (target_host: string) (target_port: u16) (target_username: string)
      (target_root: "string option") (target_local_root: "string option")
  | TargetProcess (target_of: string) (target_owner: string) (target_handle: string)

text \<open>\<open>AgentToolTargetNative::target\_id\<close> is the selector \<open>target\_of\<close>.\<close>

definition kind_of_target :: "tool_target \<Rightarrow> target_kind" where
  "kind_of_target t = (case t of TargetLocal _ _ _ \<Rightarrow> KindLocal | TargetRemote _ _ _ _ _ _ _ _ \<Rightarrow> KindRemote
     | TargetProcess _ _ _ \<Rightarrow> KindProcess)"

record agent_request =
  ar_contract_version :: u8
  ar_request_id :: string
  ar_user_session_id :: string
  ar_task_id :: string
  ar_goal :: string
  ar_success_criteria :: "string list"
  ar_targets :: "tool_target list"
  ar_permission_mode :: native_mode

record tool_call =
  tc_request_id :: string
  tc_call_id :: string
  tc_tool_name :: string
  tc_arguments :: json
  tc_target :: tool_target
  tc_capability_id :: string

datatype (plugins only: code size) effect_kind =
    NoEffect | ReadOnlyEffect | SensitiveRead | StateChange | Destructive | ExternalSideEffect

record network_destination =
  nd_protocol :: string
  nd_host :: string
  nd_port :: u16

record observed_effect =
  oe_kind :: effect_kind
  oe_target_id :: string
  oe_summary :: string
  oe_paths :: "string list"
  oe_network :: "network_destination list"

record exec_command_arguments =
  xa_command :: string
  xa_explanation :: string
  xa_cwd :: "string option"
  xa_timeout_ms :: "u64 option"
  xa_background :: "bool option"
  xa_elevated :: "bool option"

record terminal_execute_arguments =
  ta_command :: string
  ta_explanation :: string
  ta_background :: bool
  ta_timeout_ms :: "u64 option"

datatype (plugins only: code size) probe_method = ProbeGet | ProbeHead | ProbePost | ProbePut | ProbePatch | ProbeDelete

record probe_http_arguments =
  pa_method :: probe_method
  pa_port :: u16
  pa_path :: string
  pa_body :: "string option"
  pa_content_type :: "string option"
  pa_timeout_ms :: "u64 option"
  pa_max_bytes :: "u64 option"

datatype (plugins only: code size) interactive_kind = InteractiveText | InteractiveKey | InteractivePaste | InteractiveInterrupt

datatype (plugins only: code size) terminal_key =
    KeyEnter | KeyEscape | KeyTab | KeyBackspace | KeyDelete | KeyUp | KeyDown | KeyLeft | KeyRight
  | KeyHome | KeyEnd | KeyPageUp | KeyPageDown

record terminal_input_arguments =
  ia_kind :: interactive_kind
  ia_text :: "string option"
  ia_key :: "terminal_key option"

record wait_terminal_arguments =
  wa_screen :: "u64 option"
  wa_output :: "u64 option"
  wa_lifecycle :: "u64 option"
  wa_text :: "string option"
  wa_case_sensitive :: "bool option"
  wa_idle_ms :: "u64 option"
  wa_timeout_ms :: "u64 option"

record write_stdin_arguments =
  sa_input :: string
  sa_close :: "bool option"

record wait_process_arguments =
  wp_timeout_ms :: "u64 option"
  wp_max_output_bytes :: "u64 option"

datatype (plugins only: code size) process_signal = SignalInterrupt | SignalTerminate | SignalKill

record kill_process_arguments =
  ka_signal :: process_signal
  ka_timeout_ms :: "u64 option"

datatype (plugins only: code size) file_encoding = EncUtf8 | EncBase64 | EncMetadataOnly

record trash_file_arguments =
  da_path :: string
  da_expected_sha256 :: string

record read_file_arguments =
  ra_path :: string
  ra_encoding :: file_encoding
  ra_offset :: "u64 option"
  ra_max_bytes :: "u64 option"
  ra_expected_sha256 :: "string option"

record list_directory_arguments =
  la_path :: string
  la_cursor :: "string option"
  la_page_size :: "u16 option"
  la_include_hidden :: "bool option"

datatype (plugins only: code size) search_mode = SearchContent | SearchFileName | SearchBoth

record search_text_arguments =
  qa_path :: string
  qa_query :: string
  qa_mode :: search_mode
  qa_case_sensitive :: "bool option"
  qa_globs :: "string list"
  qa_max_results :: "u16 option"
  qa_cursor :: "string option"

datatype (plugins only: code size) write_precondition = MustNotExist bool | MatchSha256 string

record write_file_arguments =
  fa_path :: string
  fa_content :: string
  fa_precondition :: write_precondition

record edit_file_arguments =
  ea_path :: string
  ea_old_string :: string
  ea_new_string :: string
  ea_sha256 :: string

record apply_patch_arguments =
  aa_patch :: string
  aa_preconditions :: "(string \<times> string) list" \<comment> \<open>path, SHA-256\<close>
  aa_dry_run :: "bool option"

datatype (plugins only: code size) transfer_direction = Upload | Download

record transfer_file_arguments =
  xf_direction :: transfer_direction
  xf_source :: string
  xf_destination :: string
  xf_overwrite :: bool
  xf_expected_sha256 :: "string option"
  xf_destination_sha256 :: "string option"
  xf_max_bytes :: "u64 option"

text \<open>The diagnostics (diagnostics.rs).\<close>

datatype (plugins only: code size) host_field = HostSystem | HostCpu | HostMemory | HostDisk | HostCapabilities

datatype (plugins only: code size) endpoint_protocol = ProtoTcp | ProtoTls | ProtoHttp | ProtoHttps

record inspect_host_arguments =
  ih_fields :: "host_field list"
  ih_timeout_ms :: "u64 option"

record inspect_service_arguments =
  is_service :: string
  is_timeout_ms :: "u64 option"

record query_logs_arguments =
  ql_service :: string
  ql_since :: u64
  ql_until :: u64
  ql_keyword :: "string option"
  ql_cursor :: "string option"
  ql_max_entries :: "u16 option"
  ql_timeout_ms :: "u64 option"

record diagnose_arguments =
  dg_host :: string
  dg_port :: u16
  dg_protocol :: endpoint_protocol
  dg_path :: "string option"
  dg_timeout_ms :: "u64 option"

subsection \<open>Parameters\<close>

text \<open>A parsed URL, as far as the check of a probe reads it.\<close>

record parsed_url =
  url_host :: "string option"
  url_port :: "u16 option"
  url_fragment :: bool
  url_username :: string
  url_password :: bool

text \<open>
  The derived decoders (serde), \<open>url::Url::parse\<close>, \<open>url::Host::parse\<close>, the redaction of a
  JSON value, and for the destinations the bundled deny list and the parser of addresses.
\<close>

record contract_env =
  ce_exec :: "json \<Rightarrow> exec_command_arguments option"
  ce_terminal :: "json \<Rightarrow> terminal_execute_arguments option"
  ce_probe :: "json \<Rightarrow> probe_http_arguments option"
  ce_read_terminal :: "json \<Rightarrow> unit option"
  ce_input :: "json \<Rightarrow> terminal_input_arguments option"
  ce_wait_terminal :: "json \<Rightarrow> wait_terminal_arguments option"
  ce_stdin :: "json \<Rightarrow> write_stdin_arguments option"
  ce_wait_process :: "json \<Rightarrow> wait_process_arguments option"
  ce_kill :: "json \<Rightarrow> kill_process_arguments option"
  ce_trash :: "json \<Rightarrow> trash_file_arguments option"
  ce_read :: "json \<Rightarrow> read_file_arguments option"
  ce_list :: "json \<Rightarrow> list_directory_arguments option"
  ce_search :: "json \<Rightarrow> search_text_arguments option"
  ce_write :: "json \<Rightarrow> write_file_arguments option"
  ce_edit :: "json \<Rightarrow> edit_file_arguments option"
  ce_patch :: "json \<Rightarrow> apply_patch_arguments option"
  ce_transfer :: "json \<Rightarrow> transfer_file_arguments option"
  ce_inspect_host :: "json \<Rightarrow> inspect_host_arguments option"
  ce_inspect_service :: "json \<Rightarrow> inspect_service_arguments option"
  ce_query_logs :: "json \<Rightarrow> query_logs_arguments option"
  ce_diagnose :: "json \<Rightarrow> diagnose_arguments option"
  ce_url :: "string \<Rightarrow> parsed_url option"
  ce_host :: "string \<Rightarrow> bool"
  ce_redact :: "json \<Rightarrow> json"
  ce_deny :: deny_list
  ce_parse_ip :: "string \<Rightarrow> ip_addr option"

subsection \<open>The built-in tools (policy.rs)\<close>

datatype (plugins only: code size) effect_mode = FixedEffect | NativeClassifier

record tool_descriptor =
  td_name :: string
  td_target_kinds :: "target_kind list"
  td_effect_mode :: effect_mode
  td_allowed_effects :: "effect_kind list"

definition LOCAL_REMOTE :: "target_kind list" where "LOCAL_REMOTE = [KindLocal, KindRemote]"

definition EXEC_EFFECTS :: "effect_kind list" where
  "EXEC_EFFECTS = [ReadOnlyEffect, SensitiveRead, StateChange, Destructive, ExternalSideEffect]"

definition tool_of :: "string \<Rightarrow> target_kind list \<Rightarrow> effect_mode \<Rightarrow> effect_kind list \<Rightarrow> tool_descriptor" where
  "tool_of name kinds mode effects =
     \<lparr>td_name = name, td_target_kinds = kinds, td_effect_mode = mode, td_allowed_effects = effects\<rparr>"

definition BUILTIN_TOOL_DESCRIPTORS :: "tool_descriptor list" where
  "BUILTIN_TOOL_DESCRIPTORS = [
     tool_of ''inspect_host'' LOCAL_REMOTE FixedEffect [SensitiveRead],
     tool_of ''inspect_service'' LOCAL_REMOTE FixedEffect [SensitiveRead],
     tool_of ''query_logs'' LOCAL_REMOTE FixedEffect [SensitiveRead],
     tool_of ''diagnose_endpoint'' LOCAL_REMOTE FixedEffect [ExternalSideEffect],
     tool_of ''trash_file'' [KindLocal] FixedEffect [Destructive],
     tool_of ''exec_command'' LOCAL_REMOTE NativeClassifier EXEC_EFFECTS,
     tool_of ''terminal_execute'' LOCAL_REMOTE NativeClassifier EXEC_EFFECTS,
     tool_of ''probe_http'' LOCAL_REMOTE FixedEffect [ExternalSideEffect],
     tool_of ''read_terminal'' LOCAL_REMOTE FixedEffect [SensitiveRead],
     tool_of ''write_terminal_input'' LOCAL_REMOTE FixedEffect [StateChange],
     tool_of ''wait_terminal'' LOCAL_REMOTE FixedEffect [SensitiveRead],
     tool_of ''write_stdin'' [KindProcess] FixedEffect [StateChange],
     tool_of ''wait_process'' [KindProcess] FixedEffect [ReadOnlyEffect],
     tool_of ''kill_process'' [KindProcess] FixedEffect [StateChange],
     tool_of ''read_file'' LOCAL_REMOTE FixedEffect [SensitiveRead],
     tool_of ''list_directory'' LOCAL_REMOTE FixedEffect [ReadOnlyEffect],
     tool_of ''search_text'' LOCAL_REMOTE FixedEffect [SensitiveRead],
     tool_of ''write_file'' LOCAL_REMOTE FixedEffect [StateChange],
     tool_of ''edit_file'' LOCAL_REMOTE FixedEffect [StateChange],
     tool_of ''apply_patch'' LOCAL_REMOTE NativeClassifier [StateChange, Destructive],
     tool_of ''transfer_file'' LOCAL_REMOTE NativeClassifier [SensitiveRead, StateChange, ExternalSideEffect]]"

definition find_builtin_tool :: "string \<Rightarrow> tool_descriptor option" where
  "find_builtin_tool name = find (\<lambda>d. td_name d = name) BUILTIN_TOOL_DESCRIPTORS"

subsection \<open>Checks of text\<close>

definition valid_identifier :: "string \<Rightarrow> bool" where
  "valid_identifier v \<longleftrightarrow> (case v of [] \<Rightarrow> False
     | c # cs \<Rightarrow> length v \<le> 128 \<and> is_ascii_alphanumeric c
         \<and> (\<forall>d\<in>set cs. is_ascii_alphanumeric d \<or> d \<in> {CHR ''.'', CHR ''_'', CHR '':'', CHR ''-''}))"

text \<open>\<open>chars().any(char::is\_control)\<close>: the C0 controls, DEL, and the C1 controls in two bytes.\<close>

fun has_control_char :: "string \<Rightarrow> bool" where
  "has_control_char [] = False"
| "has_control_char (c # cs) =
     (is_ascii_control c
      \<or> byte_of c = 0xC2 \<and> (case cs of [] \<Rightarrow> False | d # _ \<Rightarrow> 0x80 \<le> byte_of d \<and> byte_of d \<le> 0x9F)
      \<or> has_control_char cs)"

definition is_ascii_text :: "string \<Rightarrow> bool" where
  "is_ascii_text s \<longleftrightarrow> (\<forall>c\<in>set s. byte_of c < 128)"

datatype (plugins only: code size) contract_error =
    UndecodableArguments
  | InvalidExecCommand
  | InvalidTerminalExecute
  | InvalidProbeHttp
  | InvalidProbePath
  | InvalidTerminalInput
  | InvalidWaitTerminal
  | StdinTooLarge
  | InvalidWaitProcess
  | InvalidKillTimeout
  | InvalidReadLimit
  | InvalidPagination
  | InvalidSearch
  | InvalidWritePrecondition
  | MustNotExistFalse
  | InvalidEditStrings
  | ContentTooLarge
  | InvalidControlCharacter
  | InvalidPatch
  | InvalidTransferLimit
  | UnregisteredToolName
  | InvalidPath
  | InvalidSha256
  | DiagnosticNotObject
  | DiagnosticCredentials
  | DuplicateHostFields
  | InvalidService
  | InvalidLogWindow
  | InvalidEndpoint
  | InvalidEndpointHost
  | InvalidEndpointPath
  | UnknownDiagnostic
  | InvalidDiagnosticTimeout

definition validate_path :: "string \<Rightarrow> contract_error + unit" where
  "validate_path v = ensure (v \<noteq> [] \<and> length v \<le> 4096 \<and> \<not> has_control_char v) InvalidPath"

definition validate_sha256 :: "string \<Rightarrow> contract_error + unit" where
  "validate_sha256 v = ensure (length v = 64
     \<and> (\<forall>c\<in>set v. is_ascii_digit c \<or> 97 \<le> byte_of c \<and> byte_of c \<le> 102)) InvalidSha256"

definition validate_file_text :: "string \<Rightarrow> nat \<Rightarrow> contract_error + unit" where
  "validate_file_text v limit =
     (if length v > limit then Inl ContentTooLarge
      else ensure (\<not> has_stray_control v) InvalidControlCharacter)"

definition opt_check :: "('a \<Rightarrow> 'e + unit) \<Rightarrow> 'a option \<Rightarrow> 'e + unit" where
  "opt_check f v = (case v of None \<Rightarrow> Inr () | Some x \<Rightarrow> f x)"

text \<open>A limit that is present lies in the range.\<close>

definition within :: "nat \<Rightarrow> nat \<Rightarrow> 'a::len word option \<Rightarrow> bool" where
  "within lo hi v \<longleftrightarrow> (case v of None \<Rightarrow> True | Some n \<Rightarrow> lo \<le> unat n \<and> unat n \<le> hi)"

subsection \<open>The diagnostics\<close>

definition validate_unit_name :: "string \<Rightarrow> contract_error + unit" where
  "validate_unit_name v = ensure (v \<noteq> [] \<and> length v \<le> 256 \<and> hd v \<noteq> CHR ''-''
     \<and> (\<forall>c\<in>set v. is_ascii_alphanumeric c \<or> c \<in> {CHR ''_'', CHR ''.'', CHR ''@'', CHR '':'', CHR ''-''})) InvalidService"

definition BACKSLASH :: char where "BACKSLASH = CHR 0x5C"

definition log_filters_ok :: "query_logs_arguments \<Rightarrow> bool" where
  "log_filters_ok a \<longleftrightarrow> ql_since a < ql_until a \<and> unat (ql_until a - ql_since a) \<le> 86400000
     \<and> unat (ql_until a) \<le> 253402300799000
     \<and> within 1 200 (ql_max_entries a)
     \<and> (case ql_keyword a of None \<Rightarrow> True | Some s \<Rightarrow> s \<noteq> [] \<and> length s \<le> 256 \<and> \<not> has_control_char s)
     \<and> (case ql_cursor a of None \<Rightarrow> True | Some s \<Rightarrow> s \<noteq> [] \<and> length s \<le> 4096
         \<and> (\<forall>c\<in>set s. is_ascii_alphanumeric c
             \<or> c \<in> {CHR ''-'', CHR ''_'', CHR ''='', CHR ''+'', CHR ''/'', CHR ''.''}))"

definition endpoint_host_ok :: "diagnose_arguments \<Rightarrow> bool" where
  "endpoint_host_ok a \<longleftrightarrow> dg_port a \<noteq> 0 \<and> dg_host a \<noteq> [] \<and> length (dg_host a) \<le> 253
     \<and> is_ascii_text (dg_host a) \<and> \<not> has_control_char (dg_host a)
     \<and> set (dg_host a) \<inter> {CHR ''/'', BACKSLASH, CHR ''@'', CHR ''%'', CHR ''?'', CHR ''#'', CHR '' ''} = {}"

definition endpoint_path_ok :: "diagnose_arguments \<Rightarrow> string \<Rightarrow> bool" where
  "endpoint_path_ok a p \<longleftrightarrow> dg_protocol a \<in> {ProtoHttp, ProtoHttps} \<and> length p \<le> 2048
     \<and> starts_with ''/'' p \<and> \<not> starts_with ''//'' p \<and> is_ascii_text p \<and> \<not> has_control_char p
     \<and> set p \<inter> {CHR ''#'', BACKSLASH, CHR '' ''} = {}"

definition diagnostic_timeout :: "contract_env \<Rightarrow> string \<Rightarrow> json \<Rightarrow> contract_error + u64 option" where
  "diagnostic_timeout env name v =
     (if name = ''inspect_host'' then
        try_bind (ok_or (ce_inspect_host env v) UndecodableArguments) (\<lambda>a.
        try_bind (ensure (length (ih_fields a) \<le> 5 \<and> distinct (ih_fields a)) DuplicateHostFields) (\<lambda>_.
        Inr (ih_timeout_ms a)))
      else if name = ''inspect_service'' then
        try_bind (ok_or (ce_inspect_service env v) UndecodableArguments) (\<lambda>a.
        try_bind (validate_unit_name (is_service a)) (\<lambda>_. Inr (is_timeout_ms a)))
      else if name = ''query_logs'' then
        try_bind (ok_or (ce_query_logs env v) UndecodableArguments) (\<lambda>a.
        try_bind (validate_unit_name (ql_service a)) (\<lambda>_.
        try_bind (ensure (log_filters_ok a) InvalidLogWindow) (\<lambda>_. Inr (ql_timeout_ms a))))
      else if name = ''diagnose_endpoint'' then
        try_bind (ok_or (ce_diagnose env v) UndecodableArguments) (\<lambda>a.
        try_bind (ensure (endpoint_host_ok a) InvalidEndpoint) (\<lambda>_.
        try_bind (ensure (ce_host env (dg_host a) \<and> is_ok (validate_host (ce_deny env) (ce_parse_ip env) (dg_host a))) InvalidEndpointHost) (\<lambda>_.
        try_bind (opt_check (\<lambda>p. ensure (endpoint_path_ok a p) InvalidEndpointPath) (dg_path a)) (\<lambda>_.
        Inr (dg_timeout_ms a)))))
      else Inl UnknownDiagnostic)"

definition validate_diagnostic_arguments :: "contract_env \<Rightarrow> string \<Rightarrow> json \<Rightarrow> contract_error + unit" where
  "validate_diagnostic_arguments env name v =
     try_bind (ensure (case v of JObject kvs \<Rightarrow> \<forall>kv\<in>set kvs. snd kv \<noteq> JNull | _ \<Rightarrow> False) DiagnosticNotObject) (\<lambda>_.
     try_bind (ensure (ce_redact env v = v) DiagnosticCredentials) (\<lambda>_.
     try_bind (diagnostic_timeout env name v) (\<lambda>timeout.
     ensure (within 100 30000 timeout) InvalidDiagnosticTimeout)))"

subsection \<open>The arguments of every tool\<close>

definition timeout_ok :: "u64 option \<Rightarrow> bool" where
  "timeout_ok t \<longleftrightarrow> within 1 3600000 t"

definition opt_len :: "nat \<Rightarrow> nat \<Rightarrow> string option \<Rightarrow> bool" where
  "opt_len lo hi v \<longleftrightarrow> (case v of None \<Rightarrow> True | Some s \<Rightarrow> lo \<le> length s \<and> length s \<le> hi)"

definition validate_exec_command :: "exec_command_arguments \<Rightarrow> contract_error + unit" where
  "validate_exec_command v =
     try_bind (ensure (\<not> is_blank (xa_command v) \<and> length (xa_command v) \<le> 8192
       \<and> \<not> has_stray_control (xa_command v) \<and> \<not> is_blank (xa_explanation v)
       \<and> length (xa_explanation v) \<le> 2048 \<and> timeout_ok (xa_timeout_ms v)) InvalidExecCommand) (\<lambda>_.
     opt_check validate_path (xa_cwd v))"

definition validate_terminal_execute :: "terminal_execute_arguments \<Rightarrow> contract_error + unit" where
  "validate_terminal_execute v =
     try_bind (ensure (is_ok (validate_visible_command_input (ta_command v))) InvalidTerminalExecute) (\<lambda>_.
     ensure (\<not> is_blank (ta_explanation v) \<and> length (ta_explanation v) \<le> 2048 \<and> timeout_ok (ta_timeout_ms v))
       InvalidTerminalExecute)"

definition probe_url :: "probe_http_arguments \<Rightarrow> string" where
  "probe_url v = ''http://127.0.0.1:'' @ decimal (unat (pa_port v)) @ pa_path v"

definition validate_probe_http :: "contract_env \<Rightarrow> probe_http_arguments \<Rightarrow> contract_error + unit" where
  "validate_probe_http env v =
     try_bind (ensure (pa_port v \<noteq> 0 \<and> pa_path v \<noteq> [] \<and> length (pa_path v) \<le> 4096
       \<and> starts_with ''/'' (pa_path v) \<and> \<not> has_control_char (pa_path v)
       \<and> opt_len 0 65536 (pa_body v) \<and> opt_len 1 256 (pa_content_type v)
       \<and> (case pa_content_type v of None \<Rightarrow> True | Some c \<Rightarrow> is_ascii_text c \<and> \<not> has_control_char c)
       \<and> within 1 30000 (pa_timeout_ms v) \<and> within 1 131072 (pa_max_bytes v)) InvalidProbeHttp) (\<lambda>_.
     try_bind (ok_or (ce_url env (probe_url v)) InvalidProbePath) (\<lambda>u.
     ensure (url_host u = Some ''127.0.0.1'' \<and> url_port u = Some (pa_port v) \<and> \<not> url_fragment u
       \<and> url_username u = [] \<and> \<not> url_password u) InvalidProbePath))"

definition terminal_input_ok :: "terminal_input_arguments \<Rightarrow> bool" where
  "terminal_input_ok v \<longleftrightarrow> (case ia_kind v of
     InteractiveText \<Rightarrow> (case ia_text v of None \<Rightarrow> False
         | Some s \<Rightarrow> s \<noteq> [] \<and> length s \<le> 8192 \<and> \<not> has_control_char s) \<and> ia_key v = None
   | InteractivePaste \<Rightarrow> (case ia_text v of None \<Rightarrow> False
         | Some s \<Rightarrow> s \<noteq> [] \<and> length s \<le> 65536 \<and> CHR 0x00 \<notin> set s \<and> CHR 0x1B \<notin> set s) \<and> ia_key v = None
   | InteractiveKey \<Rightarrow> ia_text v = None \<and> ia_key v \<noteq> None
   | InteractiveInterrupt \<Rightarrow> ia_text v = None \<and> ia_key v = None)"

definition wait_terminal_ok :: "wait_terminal_arguments \<Rightarrow> bool" where
  "wait_terminal_ok v \<longleftrightarrow>
     (wa_screen v \<noteq> None \<or> wa_output v \<noteq> None \<or> wa_lifecycle v \<noteq> None \<or> wa_text v \<noteq> None \<or> wa_idle_ms v \<noteq> None)
     \<and> (case wa_text v of None \<Rightarrow> True | Some s \<Rightarrow> s \<noteq> [] \<and> length s \<le> 1024 \<and> \<not> has_control_char s)
     \<and> within 1 60000 (wa_idle_ms v) \<and> within 1 60000 (wa_timeout_ms v)"

definition validate_read_file :: "read_file_arguments \<Rightarrow> contract_error + unit" where
  "validate_read_file v =
     try_bind (validate_path (ra_path v)) (\<lambda>_.
     try_bind (ensure (within 1 1048576 (ra_max_bytes v)) InvalidReadLimit) (\<lambda>_.
     opt_check validate_sha256 (ra_expected_sha256 v)))"

definition validate_list_directory :: "list_directory_arguments \<Rightarrow> contract_error + unit" where
  "validate_list_directory v =
     try_bind (validate_path (la_path v)) (\<lambda>_.
     ensure (within 1 1000 (la_page_size v) \<and> opt_len 1 1024 (la_cursor v)) InvalidPagination)"

definition validate_search_text :: "search_text_arguments \<Rightarrow> contract_error + unit" where
  "validate_search_text v =
     try_bind (validate_path (qa_path v)) (\<lambda>_.
     ensure (qa_query v \<noteq> [] \<and> length (qa_query v) \<le> 4096 \<and> length (qa_globs v) \<le> 64
       \<and> (\<forall>g\<in>set (qa_globs v). g \<noteq> [] \<and> length g \<le> 512) \<and> distinct (qa_globs v)
       \<and> within 1 1000 (qa_max_results v) \<and> opt_len 1 1024 (qa_cursor v)) InvalidSearch)"

text \<open>\<open>decode\_write\_file\_arguments\_native\<close>: the precondition has exactly one of its two forms.\<close>

definition write_precondition_shape :: "json \<Rightarrow> bool" where
  "write_precondition_shape v \<longleftrightarrow> (case json_get ''precondition'' v of
     Some (JObject kvs) \<Rightarrow> length kvs = 1
       \<and> (map_of kvs ''mustNotExist'' = Some (JBool True)
          \<or> (case map_of kvs ''sha256'' of Some (JString _) \<Rightarrow> True | _ \<Rightarrow> False))
   | _ \<Rightarrow> False)"

definition decode_write_file :: "contract_env \<Rightarrow> json \<Rightarrow> contract_error + write_file_arguments" where
  "decode_write_file env v =
     try_bind (ensure (write_precondition_shape v) InvalidWritePrecondition) (\<lambda>_.
     ok_or (ce_write env v) UndecodableArguments)"

definition validate_write_file :: "write_file_arguments \<Rightarrow> contract_error + unit" where
  "validate_write_file v =
     try_bind (validate_path (fa_path v)) (\<lambda>_.
     try_bind (validate_file_text (fa_content v) MAX_WRITE_FILE_CONTENT_BYTES) (\<lambda>_.
     case fa_precondition v of
       MustNotExist b \<Rightarrow> ensure b MustNotExistFalse
     | MatchSha256 d \<Rightarrow> validate_sha256 d))"

definition validate_edit_file :: "edit_file_arguments \<Rightarrow> contract_error + unit" where
  "validate_edit_file v =
     try_bind (validate_path (ea_path v)) (\<lambda>_.
     try_bind (validate_sha256 (ea_sha256 v)) (\<lambda>_.
     try_bind (ensure (ea_old_string v \<noteq> [] \<and> ea_old_string v \<noteq> ea_new_string v) InvalidEditStrings) (\<lambda>_.
     try_bind (validate_file_text (ea_old_string v) MAX_EDIT_FILE_CONTENT_BYTES) (\<lambda>_.
     validate_file_text (ea_new_string v) MAX_EDIT_FILE_CONTENT_BYTES))))"

fun validate_patch_preconditions :: "(string \<times> string) list \<Rightarrow> contract_error + unit" where
  "validate_patch_preconditions [] = Inr ()"
| "validate_patch_preconditions ((path, digest) # ps) =
     try_bind (validate_path path) (\<lambda>_. try_bind (validate_sha256 digest) (\<lambda>_. validate_patch_preconditions ps))"

definition validate_apply_patch :: "apply_patch_arguments \<Rightarrow> contract_error + unit" where
  "validate_apply_patch v =
     try_bind (ensure (aa_patch v \<noteq> [] \<and> length (aa_patch v) \<le> 1048576 \<and> length (aa_preconditions v) = 1)
       InvalidPatch) (\<lambda>_.
     validate_patch_preconditions (aa_preconditions v))"

definition validate_transfer_file :: "transfer_file_arguments \<Rightarrow> contract_error + unit" where
  "validate_transfer_file v =
     try_bind (validate_path (xf_source v)) (\<lambda>_.
     try_bind (validate_path (xf_destination v)) (\<lambda>_.
     try_bind (opt_check validate_sha256 (xf_expected_sha256 v)) (\<lambda>_.
     try_bind (opt_check validate_sha256 (xf_destination_sha256 v)) (\<lambda>_.
     ensure (within 1 268435456 (xf_max_bytes v)) InvalidTransferLimit))))"

definition decoded :: "'a option \<Rightarrow> ('a \<Rightarrow> contract_error + unit) \<Rightarrow> contract_error + unit" where
  "decoded v f = try_bind (ok_or v UndecodableArguments) f"

definition validate_tool_arguments :: "contract_env \<Rightarrow> string \<Rightarrow> json \<Rightarrow> contract_error + unit" where
  "validate_tool_arguments env tool v =
     (if tool = ''exec_command'' then decoded (ce_exec env v) validate_exec_command
      else if tool = ''terminal_execute'' then decoded (ce_terminal env v) validate_terminal_execute
      else if tool \<in> {''inspect_host'', ''inspect_service'', ''query_logs'', ''diagnose_endpoint''}
      then validate_diagnostic_arguments env tool v
      else if tool = ''probe_http'' then decoded (ce_probe env v) (validate_probe_http env)
      else if tool = ''read_terminal'' then decoded (ce_read_terminal env v) (\<lambda>_. Inr ())
      else if tool = ''write_terminal_input''
      then decoded (ce_input env v) (\<lambda>a. ensure (terminal_input_ok a) InvalidTerminalInput)
      else if tool = ''wait_terminal''
      then decoded (ce_wait_terminal env v) (\<lambda>a. ensure (wait_terminal_ok a) InvalidWaitTerminal)
      else if tool = ''write_stdin''
      then decoded (ce_stdin env v) (\<lambda>a. ensure (length (sa_input a) \<le> 65536) StdinTooLarge)
      else if tool = ''wait_process''
      then decoded (ce_wait_process env v) (\<lambda>a. ensure (within 0 3600000 (wp_timeout_ms a)
        \<and> within 1 1048576 (wp_max_output_bytes a)) InvalidWaitProcess)
      else if tool = ''kill_process''
      then decoded (ce_kill env v) (\<lambda>a. ensure (within 1 60000 (ka_timeout_ms a)) InvalidKillTimeout)
      else if tool = ''read_file'' then decoded (ce_read env v) validate_read_file
      else if tool = ''list_directory'' then decoded (ce_list env v) validate_list_directory
      else if tool = ''search_text'' then decoded (ce_search env v) validate_search_text
      else if tool = ''trash_file'' then decoded (ce_trash env v) (\<lambda>a.
        try_bind (validate_path (da_path a)) (\<lambda>_. validate_sha256 (da_expected_sha256 a)))
      else if tool = ''write_file'' then try_bind (decode_write_file env v) validate_write_file
      else if tool = ''edit_file'' then decoded (ce_edit env v) validate_edit_file
      else if tool = ''apply_patch'' then decoded (ce_patch env v) validate_apply_patch
      else if tool = ''transfer_file'' then decoded (ce_transfer env v) validate_transfer_file
      else Inl UnregisteredToolName)"

subsection \<open>Requests and targets\<close>

definition opt_ok :: "('a \<Rightarrow> bool) \<Rightarrow> 'a option \<Rightarrow> bool" where
  "opt_ok p v \<longleftrightarrow> (case v of None \<Rightarrow> True | Some x \<Rightarrow> p x)"

definition target_shape_is_valid :: "tool_target \<Rightarrow> bool" where
  "target_shape_is_valid t \<longleftrightarrow> valid_identifier (target_of t) \<and> (case t of
     TargetLocal _ session cwd \<Rightarrow> valid_identifier session \<and> opt_ok (\<lambda>p. is_ok (validate_path p)) cwd
   | TargetRemote _ session profile host port username root local \<Rightarrow>
       valid_identifier session \<and> opt_ok valid_identifier profile
       \<and> \<not> is_blank host \<and> length host \<le> 255 \<and> port > 0
       \<and> \<not> is_blank username \<and> length username \<le> 255
       \<and> opt_ok (\<lambda>p. is_ok (validate_path p)) root \<and> opt_ok (\<lambda>p. is_ok (validate_path p)) local
   | TargetProcess _ owner handle \<Rightarrow> valid_identifier owner \<and> valid_identifier handle)"

definition targets_are_valid_and_unique :: "tool_target list \<Rightarrow> bool" where
  "targets_are_valid_and_unique ts \<longleftrightarrow> ts \<noteq> [] \<and> length ts \<le> 128
     \<and> list_all target_shape_is_valid ts \<and> distinct (map target_of ts)"

definition process_owner_is_registered :: "tool_target list \<Rightarrow> tool_target \<Rightarrow> bool" where
  "process_owner_is_registered ts t \<longleftrightarrow> (case t of
     TargetProcess _ owner _ \<Rightarrow> list_ex (\<lambda>c. target_of c = owner \<and> kind_of_target c \<noteq> KindProcess) ts
   | _ \<Rightarrow> True)"

definition request_targets_are_coherent :: "agent_request \<Rightarrow> bool" where
  "request_targets_are_coherent q \<longleftrightarrow> list_all (process_owner_is_registered (ar_targets q)) (ar_targets q)"

definition validate_agent_request :: "agent_request \<Rightarrow> bool" where
  "validate_agent_request q \<longleftrightarrow> ar_contract_version q = NATIVE_TOOL_CONTRACT_VERSION
     \<and> valid_identifier (ar_request_id q) \<and> valid_identifier (ar_user_session_id q) \<and> valid_identifier (ar_task_id q)
     \<and> \<not> is_blank (ar_goal q) \<and> length (ar_goal q) \<le> 16384
     \<and> ar_success_criteria q \<noteq> [] \<and> length (ar_success_criteria q) \<le> 64
     \<and> (\<forall>c\<in>set (ar_success_criteria q). \<not> is_blank c \<and> length c \<le> 2048)
     \<and> targets_are_valid_and_unique (ar_targets q) \<and> request_targets_are_coherent q"

subsection \<open>The policy\<close>

record verified_capability =
  vc_capability_id :: string
  vc_request_id :: string
  vc_user_session_id :: string
  vc_allowed_tools :: "string list"
  vc_allowed_effects :: "effect_kind list"
  vc_target_ids :: "string list"
  vc_not_before :: u64
  vc_expires_at :: u64
  vc_revoked :: bool

datatype (plugins only: code size) policy_reason =
    Authorized
  | InvalidRequest
  | RequestMismatch
  | UnregisteredTool
  | InvalidArgumentsReason
  | InvalidTarget
  | UnclassifiedEffect
  | EffectTargetMismatch
  | ToolEffectMismatch
  | MissingCapability
  | CapabilityIdMismatch
  | CapabilityRequestMismatch
  | CapabilityUserSessionMismatch
  | CapabilityNotYetValid
  | CapabilityExpired
  | CapabilityRevoked
  | CapabilityToolDenied
  | CapabilityEffectDenied
  | CapabilityTargetDenied

text \<open>A denial is its reason; \<open>allow\<close> is \<open>Inr ()\<close> (reason \<open>Authorized\<close>).\<close>

definition check_capability ::
  "agent_request \<Rightarrow> tool_call \<Rightarrow> effect_kind \<Rightarrow> u64 \<Rightarrow> verified_capability \<Rightarrow> policy_reason + unit" where
  "check_capability q c kind now k =
     try_bind (ensure (vc_capability_id k = tc_capability_id c) CapabilityIdMismatch) (\<lambda>_.
     try_bind (ensure (vc_request_id k = ar_request_id q) CapabilityRequestMismatch) (\<lambda>_.
     try_bind (ensure (vc_user_session_id k = ar_user_session_id q) CapabilityUserSessionMismatch) (\<lambda>_.
     try_bind (ensure (\<not> vc_revoked k) CapabilityRevoked) (\<lambda>_.
     try_bind (ensure (vc_not_before k \<le> now) CapabilityNotYetValid) (\<lambda>_.
     try_bind (ensure (now < vc_expires_at k) CapabilityExpired) (\<lambda>_.
     try_bind (ensure (tc_tool_name c \<in> set (vc_allowed_tools k)) CapabilityToolDenied) (\<lambda>_.
     try_bind (ensure (kind \<in> set (vc_allowed_effects k)) CapabilityEffectDenied) (\<lambda>_.
     ensure (target_of (tc_target c) \<in> set (vc_target_ids k)) CapabilityTargetDenied))))))))"

definition evaluate ::
  "contract_env \<Rightarrow> agent_request \<Rightarrow> tool_call \<Rightarrow> observed_effect option \<Rightarrow> verified_capability option \<Rightarrow> u64
    \<Rightarrow> policy_reason + unit" where
  "evaluate env q c effect capability now =
     try_bind (ensure (validate_agent_request q) InvalidRequest) (\<lambda>_.
     try_bind (ensure (tc_request_id c = ar_request_id q \<and> valid_identifier (tc_call_id c)
       \<and> valid_identifier (tc_capability_id c)) RequestMismatch) (\<lambda>_.
     try_bind (ok_or (find_builtin_tool (tc_tool_name c)) UnregisteredTool) (\<lambda>d.
     try_bind (ensure (target_shape_is_valid (tc_target c) \<and> tc_target c \<in> set (ar_targets q)
       \<and> process_owner_is_registered (ar_targets q) (tc_target c)
       \<and> kind_of_target (tc_target c) \<in> set (td_target_kinds d)) InvalidTarget) (\<lambda>_.
     try_bind (ensure (is_ok (validate_tool_arguments env (tc_tool_name c) (tc_arguments c))) InvalidArgumentsReason) (\<lambda>_.
     try_bind (ok_or effect UnclassifiedEffect) (\<lambda>e.
     try_bind (ensure (oe_target_id e = target_of (tc_target c)) EffectTargetMismatch) (\<lambda>_.
     try_bind (ensure (oe_kind e \<in> set (td_allowed_effects d)) ToolEffectMismatch) (\<lambda>_.
     try_bind (ensure (\<not> is_blank (oe_summary e) \<and> length (oe_summary e) \<le> 2048 \<and> length (oe_paths e) \<le> 128
       \<and> list_all (\<lambda>p. is_ok (validate_path p)) (oe_paths e)) ToolEffectMismatch) (\<lambda>_.
     try_bind (ok_or capability MissingCapability) (\<lambda>k.
     check_capability q c (oe_kind e) now k))))))))))"

text \<open>The table of tools: names are unique, and a fixed tool has one effect.\<close>

lemma builtin_tools_distinct: "distinct (map td_name BUILTIN_TOOL_DESCRIPTORS)"
  by (simp add: BUILTIN_TOOL_DESCRIPTORS_def tool_of_def)

lemma find_builtin_toolD:
  "find_builtin_tool name = Some d \<Longrightarrow> d \<in> set BUILTIN_TOOL_DESCRIPTORS \<and> td_name d = name"
  by (auto simp: find_builtin_tool_def find_Some_iff)

lemma builtin_effects:
  "d \<in> set BUILTIN_TOOL_DESCRIPTORS \<Longrightarrow> td_allowed_effects d \<noteq> [] \<and> NoEffect \<notin> set (td_allowed_effects d)
    \<and> (td_effect_mode d = FixedEffect \<longrightarrow> length (td_allowed_effects d) = 1)"
  by (auto simp: BUILTIN_TOOL_DESCRIPTORS_def tool_of_def EXEC_EFFECTS_def)

text \<open>A target is found by its identity, and an effect that was observed belongs to the call.\<close>

lemma unique_targets:
  "targets_are_valid_and_unique ts \<Longrightarrow> t \<in> set ts \<Longrightarrow> u \<in> set ts \<Longrightarrow> target_of t = target_of u \<Longrightarrow> t = u"
  by (auto simp: targets_are_valid_and_unique_def distinct_map dest: inj_onD)

lemma check_capability_iff:
  "check_capability q c kind now k = Inr () \<longleftrightarrow>
     vc_capability_id k = tc_capability_id c \<and> vc_request_id k = ar_request_id q
   \<and> vc_user_session_id k = ar_user_session_id q \<and> \<not> vc_revoked k \<and> vc_not_before k \<le> now
   \<and> now < vc_expires_at k \<and> tc_tool_name c \<in> set (vc_allowed_tools k) \<and> kind \<in> set (vc_allowed_effects k)
   \<and> target_of (tc_target c) \<in> set (vc_target_ids k)"
  by (simp add: check_capability_def res_simps)

lemma evaluateD:
  assumes "evaluate env q c effect capability now = Inr ()"
  shows "\<exists>d e k. find_builtin_tool (tc_tool_name c) = Some d \<and> effect = Some e \<and> capability = Some k
    \<and> validate_agent_request q \<and> tc_request_id c = ar_request_id q \<and> tc_target c \<in> set (ar_targets q)
    \<and> kind_of_target (tc_target c) \<in> set (td_target_kinds d)
    \<and> is_ok (validate_tool_arguments env (tc_tool_name c) (tc_arguments c))
    \<and> oe_target_id e = target_of (tc_target c) \<and> oe_kind e \<in> set (td_allowed_effects d)
    \<and> check_capability q c (oe_kind e) now k = Inr ()"
  using assms unfolding evaluate_def by (auto simp: res_simps)

end
