(* ===== verification/Command_Effect.thy ===== *)
theory Command_Effect
  imports Tool_Contract
begin

text \<open>
  What a shell command may do, judged from its text (native/shell\_policy.rs and the
  classifier of native/effect.rs). The tree-sitter grammar of bash is a parameter that
  yields a syntax tree; a node carries what the code reads of it.
\<close>

subsection \<open>Syntax trees\<close>

datatype (plugins only: code size) syntax_node =
  SyntaxNode (sn_kind: string) (sn_named: bool) (sn_missing: bool) (sn_field: "string option")
    (sn_error: bool) (sn_text: string) (sn_children: "syntax_node list")

text \<open>The grammar with the parser around it, and \<open>shlex::split\<close>.\<close>

record shell_env =
  sh_parse :: "string \<Rightarrow> syntax_node option"
  sh_split :: "string \<Rightarrow> string list option"

definition named_children :: "syntax_node \<Rightarrow> syntax_node list" where
  "named_children n = filter sn_named (sn_children n)"

fun has_background :: "syntax_node \<Rightarrow> bool" where
  "has_background (SyntaxNode kind named missing field err text cs) \<longleftrightarrow>
     \<not> named \<and> kind \<in> {''&'', ''&!'', ''coproc''} \<or> kind = ''command_name'' \<and> text = ''coproc''
     \<or> list_ex has_background cs"

definition contains_background_operator :: "shell_env \<Rightarrow> string \<Rightarrow> bool" where
  "contains_background_operator env script =
     (case sh_parse env script of None \<Rightarrow> True | Some root \<Rightarrow> has_background root)"

definition closes_heredoc :: "syntax_node option \<Rightarrow> bool" where
  "closes_heredoc parent \<longleftrightarrow> (case parent of None \<Rightarrow> False
     | Some p \<Rightarrow> sn_kind p = ''heredoc_redirect''
         \<and> list_ex (\<lambda>c. sn_kind c = ''heredoc_end'' \<and> \<not> sn_missing c) (named_children p))"

fun open_heredoc :: "syntax_node option \<Rightarrow> syntax_node \<Rightarrow> bool" where
  "open_heredoc parent (SyntaxNode kind named missing field err text cs) \<longleftrightarrow>
     kind = ''heredoc_start'' \<and> \<not> closes_heredoc parent
     \<or> list_ex (open_heredoc (Some (SyntaxNode kind named missing field err text cs))) cs"

definition has_incomplete_heredoc :: "shell_env \<Rightarrow> string \<Rightarrow> bool" where
  "has_incomplete_heredoc env script =
     (case sh_parse env script of None \<Rightarrow> True | Some root \<Rightarrow> open_heredoc None root)"

fun has_comment :: "syntax_node \<Rightarrow> bool" where
  "has_comment (SyntaxNode kind named missing field err text cs) \<longleftrightarrow> kind = ''comment'' \<or> list_ex has_comment cs"

definition contains_shell_comment :: "shell_env \<Rightarrow> string \<Rightarrow> bool" where
  "contains_shell_comment env script =
     (case sh_parse env script of None \<Rightarrow> True | Some root \<Rightarrow> has_comment root)"

subsection \<open>Chains of literal commands\<close>

definition plain_character :: "char \<Rightarrow> bool" where
  "plain_character c \<longleftrightarrow> is_ascii_alphanumeric c \<or> c \<in> set ''_./-:=@,%+''"

text \<open>A word of a command is literal: no expansion, quoting, escape or glob.\<close>

definition literal_word :: "syntax_node \<Rightarrow> bool" where
  "literal_word child \<longleftrightarrow>
     (case (if sn_kind child = ''command_name''
            then (case named_children child of [w] \<Rightarrow> Some w | _ \<Rightarrow> None) else Some child) of
        None \<Rightarrow> False
      | Some w \<Rightarrow> sn_kind w \<in> {''word'', ''number''} \<and> sn_text w \<noteq> []
          \<and> list_all plain_character (sn_text w))"

fun append_all :: "'a list option list \<Rightarrow> 'a list option" where
  "append_all [] = Some []"
| "append_all (None # xs) = None"
| "append_all (Some a # xs) = map_option ((@) a) (append_all xs)"

fun literal_commands :: "syntax_node \<Rightarrow> string list option" where
  "literal_commands (SyntaxNode kind named missing field err text cs) =
     (if kind \<in> {''program'', ''list'', ''pipeline''} then
        append_all (map (\<lambda>c. if sn_named c then literal_commands c
          else if sn_kind c \<in> {'';'', ''&&'', ''||'', ''|''} then Some [] else None) cs)
      else if kind = ''command'' then
        (if list_all literal_word (filter sn_named cs) then Some [text] else None)
      else None)"

definition literal_command_chain :: "shell_env \<Rightarrow> string \<Rightarrow> string list option" where
  "literal_command_chain env script =
     (if length script > 8192 then None
      else case sh_parse env script of
        None \<Rightarrow> None
      | Some root \<Rightarrow> if sn_error root then None
          else (case literal_commands root of
            None \<Rightarrow> None | Some cs \<Rightarrow> if cs = [] then None else Some cs))"

subsection \<open>Words of a command\<close>

text \<open>\<open>str::split\<close> on a class of characters, and \<open>split\_ascii\_whitespace\<close>.\<close>

fun split_where :: "(char \<Rightarrow> bool) \<Rightarrow> string \<Rightarrow> string list" where
  "split_where p [] = [[]]"
| "split_where p (c # cs) =
     (if p c then [] # split_where p cs
      else case split_where p cs of [] \<Rightarrow> [[c]] | w # ws \<Rightarrow> (c # w) # ws)"

definition words_of :: "string \<Rightarrow> string list" where
  "words_of s = filter (\<lambda>w. w \<noteq> []) (split_where is_ascii_whitespace s)"

definition trim_chars :: "(char \<Rightarrow> bool) \<Rightarrow> string \<Rightarrow> string" where
  "trim_chars p s = rev (dropWhile p (rev (dropWhile p s)))"

definition ascii_lower :: "string \<Rightarrow> string" where
  "ascii_lower = map to_ascii_lower"

definition strip_suffix :: "string \<Rightarrow> string \<Rightarrow> string option" where
  "strip_suffix p s = map_option rev (strip_prefix (rev p) (rev s))"

definition QUOTE :: char where "QUOTE = CHR 0x27"
definition DOUBLE_QUOTE :: char where "DOUBLE_QUOTE = CHR 0x22"
definition BACKTICK :: char where "BACKTICK = CHR 0x60"

definition command_word_name :: "string \<Rightarrow> string" where
  "command_word_name word =
     (let unquoted = trim_chars (\<lambda>c. c \<in> {QUOTE, DOUBLE_QUOTE, BACKTICK, BACKSLASH} \<or> c \<in> set ''$&();./'') word;
          basename = ascii_lower (last (split_where (\<lambda>c. c = CHR ''/'' \<or> c = BACKSLASH) unquoted))
      in (case strip_suffix ''.exe'' basename of None \<Rightarrow> basename | Some b \<Rightarrow> b))"

definition WRAPPERS :: "string list" where
  "WRAPPERS = [''command'', ''doas'', ''env'', ''exec'', ''nice'', ''nohup'', ''sudo'', ''time'', ''timeout'', ''watch'',
     ''xargs'']"

definition SHELL_KEYWORDS :: "string list" where "SHELL_KEYWORDS = [''do'', ''else'', ''then'']"

definition wrapper_option_takes_value :: "string \<Rightarrow> string \<Rightarrow> bool" where
  "wrapper_option_takes_value wrapper option =
     (let long = ascii_lower option in
      if wrapper = ''sudo'' \<or> wrapper = ''doas'' then
        long \<in> {''-c'', ''--chdir'', ''--close-from'', ''--command-timeout'', ''-g'', ''--group'', ''-h'', ''--host'',
          ''-p'', ''--prompt'', ''-r'', ''--role'', ''-t'', ''--type'', ''-u'', ''--user''}
      else if wrapper = ''env'' then
        option \<in> {''-C'', ''-S'', ''-u''} \<or> long \<in> {''--chdir'', ''--split-string'', ''--unset''}
      else if wrapper = ''nice'' then option = ''-n'' \<or> long = ''--adjustment''
      else if wrapper = ''timeout'' then option \<in> {''-k'', ''-s''} \<or> long \<in> {''--kill-after'', ''--signal''}
      else if wrapper = ''watch'' then option = ''-n'' \<or> long = ''--interval''
      else if wrapper = ''xargs'' then
        option \<in> {''-a'', ''-d'', ''-E'', ''-I'', ''-L'', ''-n'', ''-P'', ''-s''}
        \<or> long \<in> {''--arg-file'', ''--delimiter'', ''--eof'', ''--replace'', ''--max-lines'', ''--max-args'',
            ''--max-procs'', ''--max-chars''}
      else False)"

text \<open>The inner and the outer loop of \<open>segment\_executable\_index\<close>, each as it may or may not end.\<close>

partial_function (option) skip_options :: "string \<Rightarrow> string list \<Rightarrow> nat \<Rightarrow> nat option" where
  "skip_options wrapper ws i =
     (if i < length ws then
        (if wrapper_option_takes_value wrapper (ws ! i) then skip_options wrapper ws (i + 2)
         else if starts_with ''-'' (ascii_lower (ws ! i)) \<or> CHR ''='' \<in> set (ascii_lower (ws ! i))
         then skip_options wrapper ws (i + 1)
         else Some i)
      else Some i)"

partial_function (option) executable_loop :: "string list \<Rightarrow> nat \<Rightarrow> nat option option" where
  "executable_loop ws i =
     (if i < length ws then
        (let name = command_word_name (ws ! i) in
         if name \<in> set SHELL_KEYWORDS then executable_loop ws (i + 1)
         else if name \<notin> set WRAPPERS then Some (Some i)
         else Option.bind (skip_options name ws (i + 1)) (\<lambda>j.
           executable_loop ws (if name = ''timeout'' \<and> j < length ws then j + 1 else j)))
      else Some None)"

declare skip_options.simps [code] executable_loop.simps [code]

definition segment_executable_index :: "string list \<Rightarrow> nat option" where
  "segment_executable_index ws = Option.bind (executable_loop ws 0) id"

lemma skip_options_returns: "\<exists>j. skip_options wrapper ws i = Some j \<and> i \<le> j"
proof (induction "length ws - i" arbitrary: i rule: less_induct)
  case less
  have step: "\<exists>j. skip_options wrapper ws (i + k) = Some j \<and> i \<le> j" if "i < length ws" "0 < k" for k
    using less [of "i + k"] that by fastforce
  show ?case using step [of 1] step [of 2] by (subst skip_options.simps) auto
qed

text \<open>
  C11. The search for the program of a command ends, on every list of words and from every start: the loop
  that skips keywords, wrappers and the options of wrappers returns, and a word it returns is one of the
  words, not before the start, and neither a wrapper nor a keyword.
\<close>

theorem executable_loop_returns:
  "\<exists>r. executable_loop ws i = Some r \<and> (\<forall>k. r = Some k \<longrightarrow> i \<le> k \<and> k < length ws
     \<and> command_word_name (ws ! k) \<notin> set WRAPPERS \<union> set SHELL_KEYWORDS)"
proof (induction "length ws - i" arbitrary: i rule: less_induct)
  case less
  note IH = less
  show ?case
  proof (cases "i < length ws")
    case True
    have step: "\<exists>r. executable_loop ws m = Some r \<and> (\<forall>k. r = Some k \<longrightarrow> i \<le> k \<and> k < length ws
        \<and> command_word_name (ws ! k) \<notin> set WRAPPERS \<union> set SHELL_KEYWORDS)" if "i < m" for m
      using IH [of m] True that by fastforce
    obtain j where j: "skip_options (command_word_name (ws ! i)) ws (i + 1) = Some j" "i + 1 \<le> j"
      using skip_options_returns by blast
    show ?thesis
      using True j step [of "i + 1"] step [of j] step [of "j + 1"]
      by (subst executable_loop.simps) (auto simp: Let_def)
  qed (simp add: executable_loop.simps)
qed

lemma executable_loop_returns_witness:
  "let ws = [''sudo'', ''-u'', ''root'', ''env'', ''A=1'', ''rm''] in
   executable_loop ws 0 = Some (Some 5) \<and> command_word_name (ws ! 5) \<notin> set WRAPPERS"
proof -
  let ?ws = "[''sudo'', ''-u'', ''root'', ''env'', ''A=1'', ''rm'']"
  have found: "executable_loop ?ws 0 = Some (Some 5)" by code_simp
  from executable_loop_returns [of ?ws 0] obtain r where r: "executable_loop ?ws 0 = Some r"
    and outside: "\<And>k. r = Some k \<Longrightarrow> command_word_name (?ws ! k) \<notin> set WRAPPERS \<union> set SHELL_KEYWORDS" by blast
  from found r have "r = Some 5" by (metis option.inject)
  from found outside [OF this] show ?thesis unfolding Let_def by blast
qed

definition SHELL_NAMES :: "string list" where
  "SHELL_NAMES = [''sh'', ''bash'', ''zsh'', ''dash'', ''ksh'', ''cmd'', ''powershell'', ''pwsh'']"

definition segment_words :: "string \<Rightarrow> string list" where
  "segment_words segment = filter (\<lambda>w. w \<noteq> [])
     (map (trim_chars (\<lambda>c. c \<in> {QUOTE, DOUBLE_QUOTE, BACKTICK, CHR ''$''})) (words_of segment))"

definition nested_name :: "string list \<Rightarrow> nat \<Rightarrow> string option" where
  "nested_name ws i =
     (let marker = ascii_lower (ws ! i) in
      if (marker = ''-exec'' \<or> marker = ''-execdir''
          \<or> marker = ''-c'' \<and> i > 0 \<and> command_word_name (ws ! (i - 1)) \<in> set SHELL_NAMES)
        \<and> i + 1 < length ws
      then Some (command_word_name (ws ! (i + 1))) else None)"

definition segment_names :: "string list \<Rightarrow> string list" where
  "segment_names ws = filter (\<lambda>n. n \<noteq> [])
     ((case segment_executable_index ws of None \<Rightarrow> [] | Some i \<Rightarrow> [command_word_name (ws ! i)])
      @ filter_map (nested_name ws) [0..<length ws])"

definition command_executable_names :: "string \<Rightarrow> string list" where
  "command_executable_names command = concat (map (\<lambda>segment. segment_names (segment_words segment))
     (split_where (\<lambda>c. c \<in> set '';|&(){}'' \<or> c = NEWLINE \<or> c = CARRIAGE_RETURN) command))"

definition is_simple_shell_command :: "string \<Rightarrow> bool" where
  "is_simple_shell_command command \<longleftrightarrow>
     (\<forall>c\<in>set command. c \<notin> set '';|&><(){}'' \<and> c \<noteq> BACKTICK \<and> c \<noteq> NEWLINE \<and> c \<noteq> CARRIAGE_RETURN)"

definition is_plain_diagnostic_command :: "string \<Rightarrow> bool" where
  "is_plain_diagnostic_command command \<longleftrightarrow> is_simple_shell_command command
     \<and> (\<forall>c\<in>set command. c \<notin> set ''$*?[]'' \<and> c \<noteq> BACKSLASH)"

definition strip_quotes :: "char \<Rightarrow> string \<Rightarrow> string option" where
  "strip_quotes q s = Option.bind (strip_prefix [q] s) (strip_suffix [q])"

definition safe_diagnostic_argument :: "string \<Rightarrow> bool" where
  "safe_diagnostic_argument argument =
     (let unquoted = (case strip_quotes QUOTE argument of Some s \<Rightarrow> s
            | None \<Rightarrow> (case strip_quotes DOUBLE_QUOTE argument of Some s \<Rightarrow> s | None \<Rightarrow> argument))
      in unquoted \<noteq> [] \<and> list_all (\<lambda>c. is_ascii_alphanumeric c \<or> c \<in> set ''._-@'') unquoted)"

definition is_plain_windows_discovery_command :: "string \<Rightarrow> bool" where
  "is_plain_windows_discovery_command command \<longleftrightarrow>
     is_simple_shell_command command \<and> \<not> contains_text ''://'' command
     \<and> (case words_of command of
          [first, second] \<Rightarrow>
            first \<in> {''where.exe'', ''get-command''} \<and> safe_diagnostic_argument second
            \<or> first \<in> {''docker'', ''docker.exe''} \<and> second = ''--version''
        | _ \<Rightarrow> False)"

definition is_bounded_diagnostic_command :: "string \<Rightarrow> bool" where
  "is_bounded_diagnostic_command command \<longleftrightarrow> is_plain_diagnostic_command command
     \<and> (case words_of command of
          [a, b, c, d] \<Rightarrow> a = ''systemctl'' \<and> b = ''status''
            \<and> (c = ''--no-pager'' \<and> safe_diagnostic_argument d
               \<or> c \<noteq> ''--no-pager'' \<and> d = ''--no-pager'' \<and> safe_diagnostic_argument c)
        | [a, b, c] \<Rightarrow> a = ''systemctl'' \<and> b \<in> {''is-active'', ''is-failed''} \<and> safe_diagnostic_argument c
        | [a, b] \<Rightarrow> a = ''ip'' \<and> b \<in> {''address'', ''addr'', ''route''}
            \<or> a = ''ss'' \<and> b \<in> {''-ltn'', ''-ltnp'', ''-lntu'', ''-lntup''}
        | _ \<Rightarrow> False)"

text \<open>\<open>str::parse::<u16>\<close>: an optional plus sign and decimal digits.\<close>

definition parse_u16 :: "string \<Rightarrow> nat option" where
  "parse_u16 s =
     (let ds = (case s of c # cs \<Rightarrow> if c = CHR ''+'' then cs else s | [] \<Rightarrow> []);
          n = foldl (\<lambda>n c. n * 10 + (byte_of c - 48)) 0 ds
      in if ds \<noteq> [] \<and> list_all is_ascii_digit ds \<and> n \<le> 65535 then Some n else None)"

text \<open>The loop over the words after \<open>journalctl\<close>.\<close>

fun journal_flags :: "string list \<Rightarrow> bool \<Rightarrow> bool \<Rightarrow> bool \<Rightarrow> bool" where
  "journal_flags [] unit lines no_pager = (unit \<and> lines \<and> no_pager)"
| "journal_flags (w # ws) unit lines no_pager =
     (if w \<in> {''-u'', ''--unit''} \<and> \<not> unit then
        (case ws of [] \<Rightarrow> False
         | v # vs \<Rightarrow> safe_diagnostic_argument v \<and> journal_flags vs True lines no_pager)
      else if w \<in> {''-n'', ''--lines''} \<and> \<not> lines then
        (case ws of [] \<Rightarrow> False
         | v # vs \<Rightarrow> (case parse_u16 v of None \<Rightarrow> False | Some n \<Rightarrow> 1 \<le> n \<and> n \<le> 1000)
             \<and> journal_flags vs unit True no_pager)
      else if w = ''--no-pager'' \<and> \<not> no_pager then journal_flags ws unit lines True
      else False)"

definition is_bounded_journal_command :: "string \<Rightarrow> bool" where
  "is_bounded_journal_command command \<longleftrightarrow> is_plain_diagnostic_command command
     \<and> (case words_of command of [] \<Rightarrow> False
        | w # ws \<Rightarrow> w = ''journalctl'' \<and> journal_flags ws False False False)"

subsection \<open>Classification\<close>

definition DESTRUCTIVE_NAMES :: "string list" where
  "DESTRUCTIVE_NAMES = [''rm'', ''rmdir'', ''del'', ''erase'', ''remove-item'', ''format'', ''format.com'', ''mkfs'',
     ''diskpart'', ''dd'', ''shutdown'', ''reboot'', ''restart-computer'', ''stop-computer'', ''bcdedit'']"

definition EXTERNAL_NAMES :: "string list" where
  "EXTERNAL_NAMES = [''curl'', ''wget'', ''invoke-webrequest'', ''invoke-restmethod'', ''ssh'', ''scp'', ''sftp'',
     ''nc'', ''ncat'', ''telnet'', ''ftp'', ''git'', ''docker'']"

definition NETWORK_CAPABLE_RUNTIMES :: "string list" where
  "NETWORK_CAPABLE_RUNTIMES = [''bash'', ''bun'', ''cmd'', ''dash'', ''deno'', ''ksh'', ''lua'', ''node'', ''nodejs'',
     ''osascript'', ''perl'', ''php'', ''powershell'', ''pwsh'', ''pypy'', ''pypy3'', ''python'', ''python2'', ''python3'',
     ''rscript'', ''ruby'', ''sh'', ''zsh'']"

definition SENSITIVE_READ_NAMES :: "string list" where
  "SENSITIVE_READ_NAMES = [''cat'', ''type'', ''get-content'', ''more'', ''less'', ''printenv'', ''whoami'', ''id'']"

definition READ_ONLY_NAMES :: "string list" where
  "READ_ONLY_NAMES = [''pwd'', ''cd'', ''ls'', ''dir'', ''get-childitem'', ''uname'', ''ver'', ''ps'', ''get-process'',
     ''df'', ''du'', ''free'', ''uptime'', ''echo'', ''printf'']"

definition effect_priority :: "effect_kind \<Rightarrow> nat" where
  "effect_priority e = (case e of NoEffect \<Rightarrow> 0 | ReadOnlyEffect \<Rightarrow> 1 | SensitiveRead \<Rightarrow> 2 | StateChange \<Rightarrow> 3
     | ExternalSideEffect \<Rightarrow> 4 | Destructive \<Rightarrow> 5)"

text \<open>One command: its text, the name of its first word, and every name in its segments.\<close>

definition classify_names :: "string \<Rightarrow> string \<Rightarrow> string list \<Rightarrow> effect_kind" where
  "classify_names normalized executable names =
     (let named = (\<lambda>table. executable \<in> set table \<or> list_ex (\<lambda>n. n \<in> set table) names) in
      if named DESTRUCTIVE_NAMES
        \<or> list_ex (\<lambda>p. contains_text p normalized)
            ['' remove-item '', ''clear-disk'', ''initialize-disk'', ''format-volume'', '' --delete'', '' /s /q'']
      then Destructive
      else if is_bounded_journal_command normalized then SensitiveRead
      else if is_bounded_diagnostic_command normalized \<or> is_plain_windows_discovery_command normalized
      then ReadOnlyEffect
      else if named SENSITIVE_READ_NAMES \<and> is_simple_shell_command normalized then SensitiveRead
      else if named READ_ONLY_NAMES \<and> is_simple_shell_command normalized
        \<and> \<not> list_ex (\<lambda>p. contains_text p normalized) [''restart'', '' start '', '' stop '', '' enable'', '' disable'']
      then ReadOnlyEffect
      else if named EXTERNAL_NAMES \<or> named NETWORK_CAPABLE_RUNTIMES
        \<or> list_ex (\<lambda>p. contains_text p normalized) [''/dev/tcp/'', ''/dev/udp/'', ''http://'', ''https://'']
      then ExternalSideEffect
      else StateChange)"

definition first_word_name :: "string \<Rightarrow> string" where
  "first_word_name normalized = command_word_name (case words_of normalized of [] \<Rightarrow> [] | w # _ \<Rightarrow> w)"

definition classify_single_command_effect :: "string \<Rightarrow> effect_kind" where
  "classify_single_command_effect command =
     (let normalized = ascii_lower (trim_text command) in
      classify_names normalized (first_word_name normalized) (command_executable_names command))"

text \<open>\<open>max\_by\_key\<close>: the last of the effects of the highest priority.\<close>

fun strongest :: "effect_kind \<Rightarrow> effect_kind list \<Rightarrow> effect_kind" where
  "strongest e [] = e"
| "strongest e (f # fs) = strongest (if effect_priority e \<le> effect_priority f then f else e) fs"

definition classify_command_effect :: "shell_env \<Rightarrow> string \<Rightarrow> effect_kind" where
  "classify_command_effect env command = (case literal_command_chain env command of
     Some [] \<Rightarrow> StateChange
   | Some (c # cs) \<Rightarrow> strongest (classify_single_command_effect c) (map classify_single_command_effect cs)
   | None \<Rightarrow> let effect = classify_single_command_effect command in
       if (NEWLINE \<in> set command \<or> CARRIAGE_RETURN \<in> set command) \<and> effect \<noteq> Destructive
       then ExternalSideEffect else effect)"

subsection \<open>What the classification says\<close>

lemma priority_inj: "effect_priority e = effect_priority f \<Longrightarrow> e = f"
  by (cases e; cases f) (simp_all add: effect_priority_def)

lemma priority_top: "effect_priority e \<le> 5 \<and> (effect_priority e = 5 \<longleftrightarrow> e = Destructive)"
  by (cases e) (simp_all add: effect_priority_def)

lemma strongest_member: "strongest e fs \<in> set (e # fs)"
proof (induction fs arbitrary: e)
  case (Cons f fs)
  then show ?case using Cons.IH [of "if effect_priority e \<le> effect_priority f then f else e"]
    by (auto split: if_splits)
qed simp

lemma strongest_max: "f \<in> set (e # fs) \<Longrightarrow> effect_priority f \<le> effect_priority (strongest e fs)"
proof (induction fs arbitrary: e f)
  case (Cons g gs)
  let ?h = "if effect_priority e \<le> effect_priority g then g else e"
  have "effect_priority e \<le> effect_priority ?h" "effect_priority g \<le> effect_priority ?h" by auto
  with Cons.IH [of ?h ?h] Cons.IH [of f ?h] Cons.prems show ?case by (auto intro: le_trans split: if_splits)
qed simp

lemma chain_effect:
  assumes "literal_command_chain env command = Some cs"
  shows "(\<exists>c\<in>set cs. classify_command_effect env command = classify_single_command_effect c)
    \<and> (\<forall>c\<in>set cs. effect_priority (classify_single_command_effect c)
          \<le> effect_priority (classify_command_effect env command))"
proof (cases cs)
  case Nil
  then show ?thesis using assms by (auto simp: literal_command_chain_def split: option.splits if_splits)
next
  case (Cons a as)
  have e: "classify_command_effect env command
      = strongest (classify_single_command_effect a) (map classify_single_command_effect as)"
    by (simp add: classify_command_effect_def assms Cons)
  have "strongest (classify_single_command_effect a) (map classify_single_command_effect as)
      \<in> classify_single_command_effect ` set cs"
    using strongest_member [of "classify_single_command_effect a" "map classify_single_command_effect as"] Cons by simp
  then show ?thesis unfolding e
    using strongest_max [of _ "classify_single_command_effect a" "map classify_single_command_effect as"]
    by (auto simp: Cons)
qed

text \<open>What is read-only: a simple command, no destructive name in it, and a name or a form of the tables.\<close>

lemma read_only_names:
  assumes "classify_names normalized executable names = ReadOnlyEffect"
  shows "is_simple_shell_command normalized \<and> set (executable # names) \<inter> set DESTRUCTIVE_NAMES = {}
    \<and> (is_bounded_diagnostic_command normalized \<or> is_plain_windows_discovery_command normalized
       \<or> set (executable # names) \<inter> set READ_ONLY_NAMES \<noteq> {} \<and> set (executable # names) \<inter> set SENSITIVE_READ_NAMES = {})"
proof -
  have simple: "is_bounded_diagnostic_command normalized \<Longrightarrow> is_simple_shell_command normalized"
    "is_plain_windows_discovery_command normalized \<Longrightarrow> is_simple_shell_command normalized"
    by (auto simp: is_bounded_diagnostic_command_def is_plain_diagnostic_command_def is_plain_windows_discovery_command_def)
  from assms show ?thesis unfolding classify_names_def Let_def
    by (auto simp: list_ex_iff simple split: if_splits)
qed

text \<open>The marker \<open>-exec\<close> counts in every command, not only in \<open>find\<close>.\<close>

lemma exec_marker_names: "classify_single_command_effect ''curl https://x -exec ls'' = ReadOnlyEffect"
  by code_simp

end
