(* ===== verification/Path_Policy.thy ===== *)
theory Path_Policy
  imports Command_Effect
begin

text \<open>
  Paths as the native policy judges them (native/call\_policy.rs, native/shell\_guard.rs): the
  lexical operations of \<open>std::path\<close> on Unix that the code uses, and the three predicates on
  the text of a path: sensitive, protected from writes, and never to be deleted.
\<close>

subsection \<open>Paths on Unix\<close>

datatype (plugins only: code size) path_component = RootDir | CurDir | ParentDir | Normal string

definition component_of :: "string \<Rightarrow> path_component" where
  "component_of s = (if s = ''.'' then CurDir else if s = ''..'' then ParentDir else Normal s)"

definition has_root :: "string \<Rightarrow> bool" where
  "has_root p \<longleftrightarrow> starts_with ''/'' p"

text \<open>\<open>Path::components\<close>: empty pieces vanish, a dot is kept only in front of a relative path.\<close>

definition path_components :: "string \<Rightarrow> path_component list" where
  "path_components p =
     (let pieces = split_on (CHR ''/'') p;
          rest = map component_of (filter (\<lambda>s. s \<noteq> [] \<and> s \<noteq> ''.'') (tl pieces))
      in if has_root p then RootDir # rest
         else (if hd pieces = [] then [] else [component_of (hd pieces)]) @ rest)"

definition path_join :: "string \<Rightarrow> string \<Rightarrow> string" where
  "path_join base p = (if has_root p then p else if base = [] then p
     else if last base = CHR ''/'' then base @ p else base @ ''/'' @ p)"

text \<open>\<open>PathBuf::push\<close> and \<open>pop\<close> of one component; a path that was pushed to has no trailing slash.\<close>

definition push_component :: "string \<Rightarrow> path_component \<Rightarrow> string" where
  "push_component p c = (case c of
     RootDir \<Rightarrow> ''/'' | CurDir \<Rightarrow> p | Normal s \<Rightarrow> path_join p s
   | ParentDir \<Rightarrow> (let parent = rev (dropWhile (\<lambda>d. d \<noteq> CHR ''/'') (rev p))
       in if p = ''/'' \<or> p = [] then p else if parent = [] then []
          else if parent = ''/'' then ''/'' else butlast parent))"

text \<open>\<open>resolve\_path\<close> of the shell guard: dots are resolved in the text, links are not.\<close>

definition resolve_path :: "string \<Rightarrow> string option \<Rightarrow> string option" where
  "resolve_path v cwd =
     Option.bind (if has_root v then Some v else map_option (\<lambda>c. path_join c v) cwd) (\<lambda>joined.
       let r = foldl push_component [] (path_components joined) in if has_root r then Some r else None)"

subsection \<open>Predicates on paths\<close>

definition forward_slashes :: "string \<Rightarrow> string" where
  "forward_slashes = map (\<lambda>c. if c = BACKSLASH then CHR ''/'' else c)"

definition ends_with :: "string \<Rightarrow> string \<Rightarrow> bool" where
  "ends_with p s \<longleftrightarrow> starts_with (rev p) (rev s)"

definition eq_ignore_ascii_case :: "string \<Rightarrow> string \<Rightarrow> bool" where
  "eq_ignore_ascii_case a b \<longleftrightarrow> ascii_lower a = ascii_lower b"

definition SENSITIVE_PARTS :: "string list" where
  "SENSITIVE_PARTS = [''.zshrc'', ''.bashrc'', ''.bash_profile'', ''.profile'', ''.npmrc'', ''.netrc'', ''.pypirc'',
     ''.bash_history'', ''.zsh_history'', ''.shellspan'']"

definition path_is_sensitive :: "string \<Rightarrow> bool" where
  "path_is_sensitive path =
     (let p = ascii_lower (forward_slashes path) in
      list_ex (\<lambda>t. contains_text t p) [''.env'', ''.ssh'', ''.aws'', ''.gnupg'', ''.kube'', ''.azure'', ''credential'',
        ''/keychains/'']
      \<or> list_ex (\<lambda>s. s \<in> set SENSITIVE_PARTS) (split_on (CHR ''/'') p)
      \<or> contains_text ''secret'' p
      \<or> list_ex (\<lambda>t. ends_with t p) [''.pem'', ''.key'', ''.pfx'', ''.p12'']
      \<or> p = ''/etc/shadow'')"

definition HARD_DELETE_PATHS :: "string list" where
  "HARD_DELETE_PATHS = [''/etc'', ''/bin'', ''/sbin'', ''/usr'', ''/usr/bin'', ''/usr/sbin'', ''/usr/lib'', ''/usr/lib64'',
     ''/usr/share'', ''/usr/local'', ''/usr/local/bin'', ''/usr/local/lib'', ''/usr/local/share'', ''/etc/systemd'',
     ''/etc/systemd/system'', ''/System'', ''/System/Library'', ''/usr/libexec'', ''/usr/local/libexec'', ''/lib'',
     ''/lib64'', ''/System/Volumes'', ''/System/Volumes/Data'', ''/Library'', ''/var'', ''/var/lib'', ''/var/db'',
     ''/boot'', ''/root'', ''/home'', ''/private'', ''/private/etc'', ''/private/var'', ''/private/var/db'']"

definition at_or_below :: "string \<Rightarrow> string \<Rightarrow> bool" where
  "at_or_below root p \<longleftrightarrow> p = root \<or> starts_with (root @ ''/'') p"

text \<open>The fixed aliases of macOS: \<open>/private/etc\<close> and \<open>/private/var\<close> lose their prefix.\<close>

definition without_private :: "string \<Rightarrow> string" where
  "without_private p = (case strip_prefix ''/private'' p of
     None \<Rightarrow> p
   | Some s \<Rightarrow> if at_or_below ''/etc'' s \<or> at_or_below ''/var'' s then s else p)"

definition hard_delete_path :: "string \<Rightarrow> bool" where
  "hard_delete_path path =
     (let p = without_private (trim_end_char (CHR ''/'') (forward_slashes path)) in
      p = [] \<or> p \<in> set HARD_DELETE_PATHS
      \<or> list_ex (\<lambda>root. at_or_below root p) [''/dev'', ''/proc'', ''/sys'', ''/System'']
      \<or> eq_ignore_ascii_case p ''C:''
      \<or> list_ex (\<lambda>root. eq_ignore_ascii_case p root) [''C:/Windows'', ''C:/Windows/System32'', ''C:/Windows/SysWOW64'',
          ''C:/Program Files'', ''C:/Program Files (x86)''])"

definition protected_delete_path :: "string \<Rightarrow> bool" where
  "protected_delete_path path =
     (let p = trim_end_char (CHR ''/'') (forward_slashes path) in
      p = [] \<or> p \<in> {''/var'', ''/private/var''}
      \<or> list_ex (\<lambda>root. at_or_below root p) [''/etc'', ''/bin'', ''/sbin'', ''/usr'', ''/System'', ''/Library'', ''/dev'',
          ''/proc'', ''/sys'', ''/boot'', ''/private/etc'', ''/var/lib'', ''/var/db'', ''/private/var/db'']
      \<or> eq_ignore_ascii_case p ''C:'' \<or> eq_ignore_ascii_case p ''C:/Windows''
      \<or> starts_with ''c:/windows/'' (ascii_lower p))"

text \<open>A trailing slash changes no answer.\<close>

lemma trim_end_snoc: "trim_end_char c (p @ [c]) = trim_end_char c p"
  by (simp add: trim_end_char_def)

lemma hard_delete_slash: "hard_delete_path (p @ ''/'') = hard_delete_path p"
  by (simp add: hard_delete_path_def forward_slashes_def BACKSLASH_def trim_end_snoc)

lemma protected_slash: "protected_delete_path (p @ ''/'') = protected_delete_path p"
  by (simp add: protected_delete_path_def forward_slashes_def BACKSLASH_def trim_end_snoc)

text \<open>An absolute path is resolved without the working directory.\<close>

lemma resolve_absolute: "has_root v \<Longrightarrow> resolve_path v cwd = resolve_path v None"
  by (simp add: resolve_path_def)

lemma resolve_examples:
  "resolve_path ''/tmp/../etc'' None = Some ''/etc''" "resolve_path ''../etc/'' (Some ''/tmp'') = Some ''/etc''"
  "resolve_path ''./a//b/.'' (Some ''/'') = Some ''/a/b''" "resolve_path ''/../..'' None = Some ''/''"
  "resolve_path ''x'' None = None"
  by code_simp+

end
