(* ===== verification/Shell_Guard.thy ===== *)
theory Shell_Guard
  imports Path_Policy
begin

text \<open>
  The inspection of a shell script for deletions that are never allowed
  (native/shell\_guard.rs). It walks the syntax tree with the working directories the shell
  may be in, after success and after failure; an unknown directory is \<open>None\<close>. The depth is
  bounded, and so is the number of directories.
\<close>

subsection \<open>The inspection\<close>

type_synonym cwds = "string option list"

record flow =
  fl_success :: cwds
  fl_failure :: cwds

datatype (plugins only: code size) guard_error =
    InspectionLimit
  | ParserUnavailable
  | FormattingDenied
  | ProtectedTreeDenied
  | DepthExceeded
  | ScopeExceeded

definition flow_of :: "cwds \<Rightarrow> cwds \<Rightarrow> flow" where
  "flow_of s f = \<lparr>fl_success = s, fl_failure = f\<rparr>"

definition unchanged :: "cwds \<Rightarrow> flow" where
  "unchanged input = flow_of input input"

definition add_cwd :: "cwds \<Rightarrow> string option \<Rightarrow> cwds" where
  "add_cwd left c = (if c \<in> set left then left else left @ [c])"

definition union_cwds :: "cwds \<Rightarrow> cwds \<Rightarrow> guard_error + cwds" where
  "union_cwds left right = (let u = foldl add_cwd left right in
     if length u > 64 then Inl ScopeExceeded else Inr u)"

text \<open>A word whose value the text fixes.\<close>

fun literal_node :: "syntax_node \<Rightarrow> bool" where
  "literal_node (SyntaxNode kind named missing field err text cs) =
     (if kind \<in> {''raw_string'', ''number'', ''string_content''} then True
      else if kind = ''word'' then \<not> list_ex (\<lambda>c. c \<in> set ''$*?[]{}~'' \<or> c = BACKTICK) text
      else if kind \<in> {''command_name'', ''string'', ''concatenation''} then list_all (\<lambda>c. sn_named c \<longrightarrow> literal_node c) cs
      else False)"

definition static_word :: "shell_env \<Rightarrow> syntax_node \<Rightarrow> string option" where
  "static_word env n = (if \<not> literal_node n then None
     else case sh_split env (sn_text n) of Some [w] \<Rightarrow> Some w | _ \<Rightarrow> None)"

definition command_words :: "shell_env \<Rightarrow> syntax_node \<Rightarrow> string option list" where
  "command_words env n = map (static_word env) (filter (\<lambda>c. sn_kind c \<noteq> ''variable_assignment'') (named_children n))"

definition DYNAMIC :: string where "DYNAMIC = ''<dynamic>''"

definition borrowed_words :: "shell_env \<Rightarrow> syntax_node \<Rightarrow> string list" where
  "borrowed_words env n = map (\<lambda>w. case w of None \<Rightarrow> DYNAMIC | Some v \<Rightarrow> v) (command_words env n)"

text \<open>The executable of a command with its position, and the operands that are fixed.\<close>

definition command_executable :: "shell_env \<Rightarrow> syntax_node \<Rightarrow> (nat \<times> string) option" where
  "command_executable env n = map_option (\<lambda>i. (i, last (split_on (CHR ''/'') (borrowed_words env n ! i))))
     (segment_executable_index (borrowed_words env n))"

definition formats_disk :: "string \<Rightarrow> bool" where
  "formats_disk x \<longleftrightarrow> x = ''mkfs'' \<or> starts_with ''mkfs.'' x \<or> x = ''wipefs''"

definition static_operands :: "shell_env \<Rightarrow> syntax_node \<Rightarrow> nat \<Rightarrow> string list" where
  "static_operands env n i = filter (\<lambda>w. \<not> starts_with ''-'' w) (filter_map id (drop (i + 1) (command_words env n)))"

definition deletes_protected :: "string \<Rightarrow> string option \<Rightarrow> bool" where
  "deletes_protected v cwd = (case resolve_path v cwd of None \<Rightarrow> False | Some p \<Rightarrow> hard_delete_path p)"

definition check_command :: "shell_env \<Rightarrow> syntax_node \<Rightarrow> cwds \<Rightarrow> nat \<Rightarrow> string \<Rightarrow> guard_error + unit" where
  "check_command env n input i executable =
     try_bind (ensure (\<not> formats_disk executable) FormattingDenied) (\<lambda>_.
     ensure (\<not> (executable \<in> {''rm'', ''rmdir'', ''unlink''}
       \<and> list_ex (\<lambda>v. list_ex (deletes_protected v) input) (static_operands env n i))) ProtectedTreeDenied)"

text \<open>The target of a \<open>cd\<close> that changes the directory of this shell.\<close>

definition changes_directory :: "string list \<Rightarrow> nat \<Rightarrow> string \<Rightarrow> bool" where
  "changes_directory ws i executable \<longleftrightarrow> executable = ''cd'' \<and> (i = 0 \<or> hd ws = ''command'')"

definition cd_destination :: "string list \<Rightarrow> nat \<Rightarrow> string option" where
  "cd_destination ws i = (case drop (i + 1) ws of
     [p] \<Rightarrow> if \<not> starts_with ''-'' p \<and> p \<noteq> DYNAMIC then Some p else None
   | [d, p] \<Rightarrow> if d = ''--'' \<and> p \<noteq> DYNAMIC then Some p else None
   | _ \<Rightarrow> None)"

definition change_directory :: "string option \<Rightarrow> cwds \<Rightarrow> flow" where
  "change_directory destination input =
     flow_of (map (\<lambda>cwd. Option.bind destination (\<lambda>p. resolve_path p cwd)) input) input"

definition MAX_DEPTH :: nat where "MAX_DEPTH = 128"

function (sequential) inspect :: "shell_env \<Rightarrow> nat \<Rightarrow> syntax_node \<Rightarrow> cwds \<Rightarrow> guard_error + flow"
  and inspect_each :: "shell_env \<Rightarrow> nat \<Rightarrow> syntax_node list \<Rightarrow> cwds \<Rightarrow> guard_error + unit"
  and inspect_nested :: "shell_env \<Rightarrow> nat \<Rightarrow> syntax_node \<Rightarrow> cwds \<Rightarrow> guard_error + unit"
  and nested_each :: "shell_env \<Rightarrow> nat \<Rightarrow> syntax_node list \<Rightarrow> cwds \<Rightarrow> guard_error + unit"
  and inspect_sequence :: "shell_env \<Rightarrow> nat \<Rightarrow> syntax_node list \<Rightarrow> cwds \<Rightarrow> flow \<Rightarrow> guard_error + flow"
where
  "inspect env d n input =
     (if d > MAX_DEPTH then Inl DepthExceeded else
      let cs = named_children n; run = (\<lambda>ns input. inspect_sequence env (d + 1) ns input (unchanged input)) in
      if sn_kind n \<in> {''program'', ''compound_statement'', ''do_group''} then run cs input
      else if sn_kind n = ''redirected_statement'' then
        (case find (\<lambda>c. sn_field c = Some ''body'') (sn_children n) of
           None \<Rightarrow> Inr (unchanged input)
         | Some body \<Rightarrow> try_bind (inspect env (d + 1) body input) (\<lambda>r.
             try_bind (union_cwds (fl_failure r) input) (\<lambda>f. Inr (flow_of (fl_success r) f))))
      else if sn_kind n \<in> {''if_statement'', ''elif_clause''} then
        try_bind (run (filter (\<lambda>c. sn_field c = Some ''condition'') (sn_children n)) input) (\<lambda>condition.
        try_bind (run (filter (\<lambda>c. sn_field c \<noteq> Some ''condition'' \<and> sn_kind c \<notin> {''else_clause'', ''elif_clause''}) cs)
          (fl_success condition)) (\<lambda>branch.
        try_bind (case find (\<lambda>c. sn_kind c \<in> {''else_clause'', ''elif_clause''}) cs of
            None \<Rightarrow> Inr (flow_of (fl_failure condition) [])
          | Some a \<Rightarrow> if sn_kind a = ''else_clause'' then run (named_children a) (fl_failure condition)
              else inspect env (d + 1) a (fl_failure condition)) (\<lambda>other.
        try_bind (union_cwds (fl_success branch) (fl_success other)) (\<lambda>s.
        try_bind (union_cwds (fl_failure branch) (fl_failure other)) (\<lambda>f. Inr (flow_of s f))))))
      else if sn_kind n = ''list'' \<and> length cs = 2 then
        try_bind (inspect env (d + 1) (cs ! 0) input) (\<lambda>left.
        case find (\<lambda>c. sn_kind c \<in> {''&&'', ''||''}) (sn_children n) of
          None \<Rightarrow> try_bind (union_cwds (fl_success left) (fl_failure left)) (inspect env (d + 1) (cs ! 1))
        | Some operator \<Rightarrow>
            if sn_kind operator = ''&&'' then
              try_bind (inspect env (d + 1) (cs ! 1) (fl_success left)) (\<lambda>right.
              try_bind (union_cwds (fl_failure left) (fl_failure right)) (\<lambda>f. Inr (flow_of (fl_success right) f)))
            else
              try_bind (inspect env (d + 1) (cs ! 1) (fl_failure left)) (\<lambda>right.
              try_bind (union_cwds (fl_success left) (fl_success right)) (\<lambda>s. Inr (flow_of s (fl_failure right)))))
      else if sn_kind n = ''subshell'' then try_bind (run cs input) (\<lambda>_. Inr (unchanged input))
      else if sn_kind n = ''pipeline'' then try_bind (inspect_each env d cs input) (\<lambda>_. Inr (unchanged input))
      else if sn_kind n = ''command'' then
        try_bind (case command_executable env n of
            None \<Rightarrow> Inr None
          | Some (i, executable) \<Rightarrow> try_bind (check_command env n input i executable) (\<lambda>_.
              Inr (if changes_directory (borrowed_words env n) i executable
                then Some (change_directory (cd_destination (borrowed_words env n) i) input) else None))) (\<lambda>moved.
        case moved of
          Some r \<Rightarrow> Inr r
        | None \<Rightarrow> try_bind (nested_each env d cs input) (\<lambda>_. Inr (unchanged input)))
      else if sn_kind n = ''comment'' then Inr (unchanged input)
      else try_bind (inspect_each env d cs input) (\<lambda>_.
        try_bind (union_cwds input [None]) (\<lambda>s. Inr (flow_of s input))))"
| "inspect_each env d [] input = Inr ()"
| "inspect_each env d (n # ns) input =
     (if d > MAX_DEPTH then Inl DepthExceeded
      else try_bind (inspect env (d + 1) n input) (\<lambda>_. inspect_each env d ns input))"
| "inspect_nested env d n input =
     (if d > MAX_DEPTH then Inl DepthExceeded
      else if sn_kind n \<in> {''command'', ''command_substitution'', ''process_substitution'', ''subshell''}
      then try_bind (inspect env (d + 1) n input) (\<lambda>_. Inr ())
      else nested_each env d (named_children n) input)"
| "nested_each env d [] input = Inr ()"
| "nested_each env d (n # ns) input =
     (if d > MAX_DEPTH then Inl DepthExceeded
      else try_bind (inspect_nested env (d + 1) n input) (\<lambda>_. nested_each env d ns input))"
| "inspect_sequence env d [] input prev =
     (if d > MAX_DEPTH then Inl DepthExceeded else Inr prev)"
| "inspect_sequence env d (n # ns) input prev =
     (if d > MAX_DEPTH then Inl DepthExceeded
      else try_bind (inspect env (d + 1) n input) (\<lambda>r.
        try_bind (union_cwds (fl_success r) (fl_failure r)) (\<lambda>i. inspect_sequence env d ns i r)))"
  by pat_completeness auto
termination
  by (relation "inv_image (less_than <*lex*> less_than <*lex*> less_than) (\<lambda>x. case x of
      Inl (Inl (env, d, n, input)) \<Rightarrow> (MAX_DEPTH + 2 - d, 1, 0)
    | Inl (Inr (env, d, ns, input)) \<Rightarrow> (MAX_DEPTH + 2 - d, 0, length ns)
    | Inr (Inl (env, d, n, input)) \<Rightarrow> (MAX_DEPTH + 2 - d, 1, 0)
    | Inr (Inr (Inl (env, d, ns, input))) \<Rightarrow> (MAX_DEPTH + 2 - d, 0, length ns)
    | Inr (Inr (Inr (env, d, ns, input, prev))) \<Rightarrow> (MAX_DEPTH + 2 - d, 0, length ns))") auto

declare inspect.simps [simp del] inspect_each.simps [simp del] inspect_nested.simps [simp del]
  nested_each.simps [simp del] inspect_sequence.simps [simp del]

text \<open>An unknown working directory: the initial one of a remote or visible shell.\<close>

definition reject_destructive :: "shell_env \<Rightarrow> string \<Rightarrow> string option \<Rightarrow> guard_error + unit" where
  "reject_destructive env script cwd =
     (if length script > 8192 then Inl InspectionLimit
      else try_bind (ok_or (sh_parse env script) ParserUnavailable) (\<lambda>root.
        try_bind (inspect env 0 root [Option.bind cwd (\<lambda>p. resolve_path p None)]) (\<lambda>_. Inr ())))"

subsection \<open>What an accepted script cannot do\<close>

text \<open>The commands of a tree, and what no command may be: a formatting of a disk, or the deletion
  of a protected tree by its absolute name.\<close>

fun commands_in :: "syntax_node \<Rightarrow> syntax_node list" where
  "commands_in (SyntaxNode kind named missing field err text cs) =
     (if kind = ''command'' then [SyntaxNode kind named missing field err text cs] else [])
     @ concat (map (\<lambda>c. if sn_named c then commands_in c else []) cs)"

definition denied :: "shell_env \<Rightarrow> syntax_node \<Rightarrow> bool" where
  "denied env c \<longleftrightarrow> (case command_executable env c of None \<Rightarrow> False
     | Some (i, x) \<Rightarrow> formats_disk x \<or> x \<in> {''rm'', ''rmdir'', ''unlink''}
         \<and> list_ex (\<lambda>v. has_root v \<and> deletes_protected v None) (static_operands env c i))"

definition safe_tree :: "shell_env \<Rightarrow> syntax_node \<Rightarrow> bool" where
  "safe_tree env n \<longleftrightarrow> (\<forall>c\<in>set (commands_in n). \<not> denied env c)"

text \<open>
  Where the inspection does not look: besides the body of a redirected statement, at a second
  alternative of an if statement, inside a comment, and inside a \<open>cd\<close> of the shell.
\<close>

definition no_blind_spot :: "shell_env \<Rightarrow> syntax_node \<Rightarrow> bool" where
  "no_blind_spot env n \<longleftrightarrow>
     (if sn_kind n = ''redirected_statement'' then
        (case find (\<lambda>c. sn_field c = Some ''body'') (sn_children n) of
           None \<Rightarrow> list_all (\<lambda>c. commands_in c = []) (named_children n)
         | Some b \<Rightarrow> list_all (\<lambda>c. c = b \<or> commands_in c = []) (named_children n))
      else if sn_kind n \<in> {''if_statement'', ''elif_clause''} then
        length (filter (\<lambda>c. sn_kind c \<in> {''else_clause'', ''elif_clause''}) (named_children n)) \<le> 1
      else if sn_kind n = ''command'' then
        (case command_executable env n of None \<Rightarrow> True
         | Some (i, x) \<Rightarrow> changes_directory (borrowed_words env n) i x
             \<longrightarrow> list_all (\<lambda>c. commands_in c = []) (named_children n))
      else if sn_kind n = ''comment'' then list_all (\<lambda>c. commands_in c = []) (named_children n)
      else True)"

fun clear_view :: "shell_env \<Rightarrow> syntax_node \<Rightarrow> bool" where
  "clear_view env (SyntaxNode kind named missing field err text cs) \<longleftrightarrow>
     no_blind_spot env (SyntaxNode kind named missing field err text cs)
     \<and> list_all (\<lambda>c. sn_named c \<longrightarrow> clear_view env c) cs"

lemma commands_in_children:
  "set (commands_in n) = (if sn_kind n = ''command'' then {n} else {}) \<union> (\<Union>c\<in>set (named_children n). set (commands_in c))"
  by (cases n) (auto simp: named_children_def split: if_splits)

lemma clear_view_children: "clear_view env n \<longleftrightarrow> no_blind_spot env n \<and> (\<forall>c\<in>set (named_children n). clear_view env c)"
  by (cases n) (auto simp: named_children_def list_all_iff)

lemma safe_tree_children:
  "safe_tree env n \<longleftrightarrow> (sn_kind n = ''command'' \<longrightarrow> \<not> denied env n) \<and> (\<forall>c\<in>set (named_children n). safe_tree env c)"
  unfolding safe_tree_def commands_in_children [of n] by auto

lemma safe_without_commands: "commands_in n = [] \<Longrightarrow> safe_tree env n"
  by (simp add: safe_tree_def)

text \<open>There is always a directory the shell may be in.\<close>

definition alive :: "flow \<Rightarrow> bool" where
  "alive r \<longleftrightarrow> fl_success r \<noteq> [] \<and> fl_failure r \<noteq> []"

lemma alive_simps [simp]: "alive (flow_of s f) \<longleftrightarrow> s \<noteq> [] \<and> f \<noteq> []" "input \<noteq> [] \<Longrightarrow> alive (unchanged input)"
  by (simp_all add: alive_def flow_of_def unchanged_def)

lemma flow_fields [simp]:
  "fl_success (flow_of s f) = s" "fl_failure (flow_of s f) = f"
  "fl_success (unchanged i) = i" "fl_failure (unchanged i) = i"
  by (simp_all add: flow_of_def unchanged_def)

lemma add_cwds_nonempty: "foldl add_cwd l r = [] \<longleftrightarrow> l = [] \<and> r = []"
proof (induction r arbitrary: l)
  case (Cons x r)
  have "add_cwd l x \<noteq> []" by (auto simp: add_cwd_def)
  then show ?case by (simp add: Cons.IH)
qed simp

lemma union_nonempty: "union_cwds l r = Inr u \<Longrightarrow> l \<noteq> [] \<or> r \<noteq> [] \<Longrightarrow> u \<noteq> []"
  using add_cwds_nonempty [of l r] by (auto simp: union_cwds_def Let_def split: if_splits)

definition judged :: "shell_env \<Rightarrow> nat \<Rightarrow> bool" where
  "judged env d \<longleftrightarrow> (\<forall>n input r. inspect env d n input = Inr r \<longrightarrow> input \<noteq> [] \<longrightarrow>
     alive r \<and> (clear_view env n \<longrightarrow> safe_tree env n))"

lemma judgedD:
  "judged env d \<Longrightarrow> inspect env d n input = Inr r \<Longrightarrow> input \<noteq> [] \<Longrightarrow> alive r \<and> (clear_view env n \<longrightarrow> safe_tree env n)"
  by (auto simp: judged_def)

lemma sequence_judged:
  assumes "judged env (d + 1)"
  shows "inspect_sequence env d ns input prev = Inr r \<Longrightarrow> input \<noteq> [] \<Longrightarrow> alive prev \<Longrightarrow>
    alive r \<and> (\<forall>n\<in>set ns. clear_view env n \<longrightarrow> safe_tree env n)"
proof (induction ns arbitrary: input prev)
  case (Cons n ns)
  from Cons.prems(1) obtain q i where q: "inspect env (d + 1) n input = Inr q"
    and i: "union_cwds (fl_success q) (fl_failure q) = Inr i" and r: "inspect_sequence env d ns i q = Inr r"
    by (auto simp: inspect_sequence.simps res_simps split: if_splits)
  from judgedD [OF assms q Cons.prems(2)] have "alive q" "clear_view env n \<longrightarrow> safe_tree env n" by auto
  moreover from this i have "i \<noteq> []" by (auto simp: alive_def dest: union_nonempty)
  ultimately show ?case using Cons.IH [OF r] by auto
qed (auto simp: inspect_sequence.simps split: if_splits)

lemma each_judged:
  assumes "judged env (d + 1)" "input \<noteq> []"
  shows "inspect_each env d ns input = Inr () \<Longrightarrow> \<forall>n\<in>set ns. clear_view env n \<longrightarrow> safe_tree env n"
proof (induction ns)
  case (Cons n ns)
  then obtain q where "inspect env (d + 1) n input = Inr q" "inspect_each env d ns input = Inr ()"
    by (auto simp: inspect_each.simps res_simps split: if_splits)
  then show ?case using Cons.IH judgedD [OF assms(1) _ assms(2)] by auto
qed simp

lemma nested_judged:
  assumes "\<And>e. d < e \<Longrightarrow> judged env e" "input \<noteq> []"
  shows "nested_each env d ns input = Inr () \<Longrightarrow> \<forall>n\<in>set ns. clear_view env n \<longrightarrow> safe_tree env n"
  using assms(1)
proof (induction "MAX_DEPTH + 1 - d" arbitrary: d ns rule: less_induct)
  case less
  have node: "clear_view env n \<longrightarrow> safe_tree env n" if "inspect_nested env (d + 1) n input = Inr ()" "d \<le> MAX_DEPTH" for n
  proof (cases "sn_kind n \<in> {''command'', ''command_substitution'', ''process_substitution'', ''subshell''}")
    case True
    with that(1) obtain q where "inspect env (d + 1 + 1) n input = Inr q"
      by (auto simp: inspect_nested.simps res_simps split: if_splits)
    then show ?thesis using judgedD [OF less.prems(2) _ assms(2), of "d + 1 + 1" n q] by simp
  next
    case False
    with that(1) have "nested_each env (d + 1) (named_children n) input = Inr ()"
      by (auto simp: inspect_nested.simps split: if_splits)
    with less.hyps [of "d + 1" "named_children n"] that(2) less.prems(2)
    have "\<forall>c\<in>set (named_children n). clear_view env c \<longrightarrow> safe_tree env c" by simp
    with False show ?thesis unfolding clear_view_children [of env n] safe_tree_children [of env n] by auto
  qed
  show ?case using less.prems(1)
  proof (induction ns)
    case (Cons n ns)
    then show ?case using node by (auto simp: nested_each.simps res_simps split: if_splits)
  qed simp
qed

text \<open>The flows of each kind of node.\<close>

lemma condition_children:
  "\<forall>c\<in>set (filter (\<lambda>c. sn_field c = Some ''condition'') (sn_children n)). clear_view env c \<longrightarrow> safe_tree env c \<Longrightarrow>
   \<forall>c\<in>set (filter (\<lambda>c. sn_field c \<noteq> Some ''condition'' \<and> P c) (named_children n)). clear_view env c \<longrightarrow> safe_tree env c \<Longrightarrow>
   c \<in> set (named_children n) \<Longrightarrow> P c \<Longrightarrow> clear_view env c \<Longrightarrow> safe_tree env c"
  by (cases "sn_field c = Some ''condition''") (auto simp: named_children_def)

lemma only_alternative:
  assumes "length (filter P cs) \<le> 1" "c \<in> set cs" "P c"
  shows "find P cs = Some c"
  using assms
proof (induction cs)
  case (Cons a cs)
  then show ?case
  proof (cases "P a")
    case True
    then have "filter P cs = []" using Cons.prems(1) by simp
    then have "c \<notin> set cs" using Cons.prems(3) by (auto simp: filter_empty_conv)
    then show ?thesis using Cons.prems True by simp
  qed auto
qed simp

lemma inspect_if:
  assumes "sn_kind n \<in> {''if_statement'', ''elif_clause''}" "d \<le> MAX_DEPTH"
  shows "inspect env d n input =
     (let alt = \<lambda>c. sn_kind c \<in> {''else_clause'', ''elif_clause''};
          run = \<lambda>ns input. inspect_sequence env (d + 1) ns input (unchanged input) in
      try_bind (run (filter (\<lambda>c. sn_field c = Some ''condition'') (sn_children n)) input) (\<lambda>condition.
      try_bind (run (filter (\<lambda>c. sn_field c \<noteq> Some ''condition'' \<and> \<not> alt c) (named_children n)) (fl_success condition)) (\<lambda>branch.
      try_bind (case find alt (named_children n) of
          None \<Rightarrow> Inr (flow_of (fl_failure condition) [])
        | Some a \<Rightarrow> if sn_kind a = ''else_clause'' then run (named_children a) (fl_failure condition)
            else inspect env (d + 1) a (fl_failure condition)) (\<lambda>other.
      try_bind (union_cwds (fl_success branch) (fl_success other)) (\<lambda>s.
      try_bind (union_cwds (fl_failure branch) (fl_failure other)) (\<lambda>f. Inr (flow_of s f)))))))"
proof -
  have kinds: "sn_kind n \<notin> {''program'', ''compound_statement'', ''do_group''}" "sn_kind n \<noteq> ''redirected_statement''"
    using assms(1) by auto
  show ?thesis
    by (subst inspect.simps) (simp only: kinds assms(1) not_less [symmetric] assms(2) [unfolded not_less [symmetric]] Let_def if_True if_False)
qed

lemma if_judged:
  assumes "\<And>e. d < e \<Longrightarrow> judged env e" "input \<noteq> []" "d \<le> MAX_DEPTH"
    and kind: "sn_kind n \<in> {''if_statement'', ''elif_clause''}" and r: "inspect env d n input = Inr r"
  shows "alive r \<and> (clear_view env n \<longrightarrow> safe_tree env n)"
proof -
  let ?alt = "\<lambda>c. sn_kind c \<in> {''else_clause'', ''elif_clause''}"
  let ?run = "\<lambda>ns input. inspect_sequence env (d + 1) ns input (unchanged input)"
  have "d < d + 1 + 1" by simp
  note seq = sequence_judged [OF assms(1) [OF this]]
  from r kind obtain condition branch other s f where
    c: "?run (filter (\<lambda>c. sn_field c = Some ''condition'') (sn_children n)) input = Inr condition" and
    b: "?run (filter (\<lambda>c. sn_field c \<noteq> Some ''condition'' \<and> \<not> ?alt c) (named_children n)) (fl_success condition) = Inr branch" and
    o: "(case find ?alt (named_children n) of None \<Rightarrow> Inr (flow_of (fl_failure condition) [])
        | Some a \<Rightarrow> if sn_kind a = ''else_clause'' then ?run (named_children a) (fl_failure condition)
            else inspect env (d + 1) a (fl_failure condition)) = Inr other" and
    s: "union_cwds (fl_success branch) (fl_success other) = Inr s" and
    f: "union_cwds (fl_failure branch) (fl_failure other) = Inr f" and r': "r = flow_of s f"
    unfolding inspect_if [OF kind assms(3)] Let_def res_simps by blast
  have cond: "alive condition" "\<forall>c\<in>set (filter (\<lambda>c. sn_field c = Some ''condition'') (sn_children n)). clear_view env c \<longrightarrow> safe_tree env c"
    using seq [OF c] assms(2) by auto
  have br: "alive branch" "\<forall>c\<in>set (filter (\<lambda>c. sn_field c \<noteq> Some ''condition'' \<and> \<not> ?alt c) (named_children n)). clear_view env c \<longrightarrow> safe_tree env c"
    using seq [OF b] cond(1) by (auto simp: alive_def)
  have alt: "clear_view env a \<longrightarrow> safe_tree env a" if a: "find ?alt (named_children n) = Some a" for a
  proof (cases "sn_kind a = ''else_clause''")
    case True
    with o a have "?run (named_children a) (fl_failure condition) = Inr other" by simp
    from seq [OF this] cond(1) True show ?thesis
      unfolding clear_view_children [of env a] safe_tree_children [of env a] by (auto simp: alive_def)
  next
    case False
    with o a have "inspect env (d + 1) a (fl_failure condition) = Inr other" by simp
    from judgedD [OF assms(1) this] cond(1) show ?thesis by (simp add: alive_def)
  qed
  have "alive r" using br(1) s f union_nonempty by (auto simp: r' alive_def)
  moreover have "safe_tree env n" if "clear_view env n"
  proof -
    from that kind have one: "length (filter ?alt (named_children n)) \<le> 1" and
      view: "\<forall>c\<in>set (named_children n). clear_view env c"
      unfolding clear_view_children [of env n] by (auto simp: no_blind_spot_def)
    have "safe_tree env c" if "c \<in> set (named_children n)" for c
    proof (cases "?alt c")
      case True
      with only_alternative [OF one that] alt view that show ?thesis by blast
    next
      case False
      with condition_children [OF cond(2) br(2) that] view that show ?thesis by blast
    qed
    with kind show ?thesis unfolding safe_tree_children [of env n] by auto
  qed
  ultimately show ?thesis by blast
qed

lemma command_judged:
  assumes "\<And>e. d < e \<Longrightarrow> judged env e" "input \<noteq> []" "d \<le> MAX_DEPTH"
    and kind: "sn_kind n = ''command''" and r: "inspect env d n input = Inr r"
  shows "alive r \<and> (clear_view env n \<longrightarrow> safe_tree env n)"
proof -
  obtain moved where m: "(case command_executable env n of
            None \<Rightarrow> Inr None
          | Some (i, executable) \<Rightarrow> try_bind (check_command env n input i executable) (\<lambda>_.
              Inr (if changes_directory (borrowed_words env n) i executable
                then Some (change_directory (cd_destination (borrowed_words env n) i) input) else None))) = Inr moved"
    and rest: "(case moved of Some r \<Rightarrow> Inr r
        | None \<Rightarrow> try_bind (nested_each env d (named_children n) input) (\<lambda>_. Inr (unchanged input))) = Inr r"
    using r assms(3) unfolding inspect.simps [of env d n input] by (auto simp: kind Let_def res_simps)
  have "\<not> denied env n"
  proof (cases "command_executable env n")
    case (Some ix)
    obtain i x where ix: "ix = (i, x)" by (cases ix)
    from m Some have ok: "check_command env n input i x = Inr ()" by (auto simp: ix res_simps)
    have "\<not> deletes_protected v None"
      if "x \<in> {''rm'', ''rmdir'', ''unlink''}" "v \<in> set (static_operands env n i)" "has_root v" for v
    proof -
      obtain c where "c \<in> set input" using assms(2) by (cases input) auto
      with ok that(1,2) have "\<not> deletes_protected v c" by (auto simp: check_command_def res_simps list_ex_iff)
      then show ?thesis using resolve_absolute [OF that(3), of c] by (simp add: deletes_protected_def)
    qed
    with ok show ?thesis by (auto simp: denied_def Some ix list_ex_iff check_command_def res_simps)
  qed (simp add: denied_def)
  moreover have "alive r \<and> (clear_view env n \<longrightarrow> (\<forall>c\<in>set (named_children n). safe_tree env c))"
  proof (cases moved)
    case None
    with rest have nested: "nested_each env d (named_children n) input = Inr ()" and "r = unchanged input"
      by (auto simp: res_simps)
    with nested_judged [OF assms(1,2) nested] assms(2) show ?thesis
      unfolding clear_view_children [of env n] by auto
  next
    case (Some q)
    with m obtain i x where ix: "command_executable env n = Some (i, x)" "changes_directory (borrowed_words env n) i x"
      and q: "q = change_directory (cd_destination (borrowed_words env n) i) input"
      by (auto simp: res_simps split: option.splits if_splits)
    have "safe_tree env c" if "clear_view env n" "c \<in> set (named_children n)" for c
      using that ix kind unfolding clear_view_children [of env n]
      by (auto simp: no_blind_spot_def list_all_iff intro: safe_without_commands)
    with Some rest q assms(2) show ?thesis by (auto simp: change_directory_def)
  qed
  ultimately show ?thesis unfolding safe_tree_children [of env n] by auto
qed

lemma blind_children:
  "clear_view env n \<Longrightarrow> sn_kind n \<notin> {''command''} \<Longrightarrow>
   (\<And>c. c \<in> set (named_children n) \<Longrightarrow> clear_view env c \<Longrightarrow> safe_tree env c) \<Longrightarrow> safe_tree env n"
  unfolding clear_view_children [of env n] safe_tree_children [of env n] by auto

lemma redirected_judged:
  assumes "judged env (d + 1)" "input \<noteq> []" "d \<le> MAX_DEPTH"
    and kind: "sn_kind n = ''redirected_statement''" and r: "inspect env d n input = Inr r"
  shows "alive r \<and> (clear_view env n \<longrightarrow> safe_tree env n)"
proof (cases "find (\<lambda>c. sn_field c = Some ''body'') (sn_children n)")
  case None
  with r kind assms(3) have "r = unchanged input" unfolding inspect.simps [of env d n input] by (auto simp: Let_def)
  moreover have "safe_tree env n" if "clear_view env n"
    using that kind None unfolding clear_view_children [of env n] safe_tree_children [of env n]
    by (auto simp: no_blind_spot_def list_all_iff intro: safe_without_commands)
  ultimately show ?thesis using assms(2) by simp
next
  case (Some b)
  with r kind assms(3) obtain q f where q: "inspect env (d + 1) b input = Inr q"
    and f: "union_cwds (fl_failure q) input = Inr f" and r': "r = flow_of (fl_success q) f"
    unfolding inspect.simps [of env d n input] by (auto simp: Let_def res_simps)
  from judgedD [OF assms(1) q assms(2)] have b: "alive q" "clear_view env b \<longrightarrow> safe_tree env b" by auto
  have "safe_tree env n" if "clear_view env n"
    using that kind Some b(2) unfolding clear_view_children [of env n] safe_tree_children [of env n]
    by (auto simp: no_blind_spot_def list_all_iff intro: safe_without_commands)
  moreover have "alive r" using b(1) f assms(2) union_nonempty by (auto simp: r' alive_def)
  ultimately show ?thesis by blast
qed

lemma list_judged:
  assumes "judged env (d + 1)" "input \<noteq> []" "d \<le> MAX_DEPTH"
    and kind: "sn_kind n = ''list''" "length (named_children n) = 2" and r: "inspect env d n input = Inr r"
  shows "alive r \<and> (clear_view env n \<longrightarrow> safe_tree env n)"
proof -
  let ?cs = "named_children n"
  define a b where "a = ?cs ! 0" and "b = ?cs ! 1"
  then have ab: "?cs = [a, b]" using kind(2) by (cases ?cs; cases "tl ?cs"; cases "tl (tl ?cs)") auto
  let ?op = "find (\<lambda>c. sn_kind c \<in> {''&&'', ''||''}) (sn_children n)"
  have eq: "inspect env d n input = try_bind (inspect env (d + 1) a input) (\<lambda>left.
        case ?op of
          None \<Rightarrow> try_bind (union_cwds (fl_success left) (fl_failure left)) (inspect env (d + 1) b)
        | Some operator \<Rightarrow>
            if sn_kind operator = ''&&'' then
              try_bind (inspect env (d + 1) b (fl_success left)) (\<lambda>right.
              try_bind (union_cwds (fl_failure left) (fl_failure right)) (\<lambda>f. Inr (flow_of (fl_success right) f)))
            else
              try_bind (inspect env (d + 1) b (fl_failure left)) (\<lambda>right.
              try_bind (union_cwds (fl_success left) (fl_success right)) (\<lambda>s. Inr (flow_of s (fl_failure right)))))"
    using assms(3) kind unfolding a_def b_def by (subst inspect.simps) (simp add: Let_def)
  from r [unfolded eq try_bind_Inr_iff] obtain left where left: "inspect env (d + 1) a input = Inr left"
    and rest: "(case ?op of
          None \<Rightarrow> try_bind (union_cwds (fl_success left) (fl_failure left)) (inspect env (d + 1) b)
        | Some operator \<Rightarrow>
            if sn_kind operator = ''&&'' then
              try_bind (inspect env (d + 1) b (fl_success left)) (\<lambda>right.
              try_bind (union_cwds (fl_failure left) (fl_failure right)) (\<lambda>f. Inr (flow_of (fl_success right) f)))
            else
              try_bind (inspect env (d + 1) b (fl_failure left)) (\<lambda>right.
              try_bind (union_cwds (fl_success left) (fl_success right)) (\<lambda>s. Inr (flow_of s (fl_failure right))))) = Inr r"
    by blast
  from judgedD [OF assms(1) left assms(2)] have l: "alive left" "clear_view env a \<longrightarrow> safe_tree env a" by auto
  have "alive r \<and> (clear_view env b \<longrightarrow> safe_tree env b)"
  proof (cases ?op)
    case None
    with rest obtain u where "union_cwds (fl_success left) (fl_failure left) = Inr u" "inspect env (d + 1) b u = Inr r"
      by (auto simp: res_simps)
    with l(1) judgedD [OF assms(1)] union_nonempty show ?thesis by (auto simp: alive_def)
  next
    case (Some operator)
    show ?thesis
    proof (cases "sn_kind operator = ''&&''")
      case True
      with rest Some obtain right f where "inspect env (d + 1) b (fl_success left) = Inr right"
        "union_cwds (fl_failure left) (fl_failure right) = Inr f" "r = flow_of (fl_success right) f"
        by (auto simp: res_simps)
      with l(1) judgedD [OF assms(1), of b "fl_success left"] union_nonempty show ?thesis by (auto simp: alive_def)
    next
      case False
      with rest Some obtain right s where "inspect env (d + 1) b (fl_failure left) = Inr right"
        "union_cwds (fl_success left) (fl_success right) = Inr s" "r = flow_of s (fl_failure right)"
        by (auto simp: res_simps)
      with l(1) judgedD [OF assms(1), of b "fl_failure left"] union_nonempty show ?thesis by (auto simp: alive_def)
    qed
  qed
  with l(2) ab kind(1) show ?thesis
    unfolding clear_view_children [of env n] safe_tree_children [of env n] by auto
qed

lemma inspect_plain:
  assumes "d \<le> MAX_DEPTH"
  shows "sn_kind n \<in> {''program'', ''compound_statement'', ''do_group''} \<Longrightarrow>
     inspect env d n input = inspect_sequence env (d + 1) (named_children n) input (unchanged input)"
    "sn_kind n = ''subshell'' \<Longrightarrow> inspect env d n input =
     try_bind (inspect_sequence env (d + 1) (named_children n) input (unchanged input)) (\<lambda>_. Inr (unchanged input))"
    "sn_kind n = ''pipeline'' \<Longrightarrow> inspect env d n input =
     try_bind (inspect_each env d (named_children n) input) (\<lambda>_. Inr (unchanged input))"
    "sn_kind n = ''comment'' \<Longrightarrow> inspect env d n input = Inr (unchanged input)"
    "sn_kind n \<notin> {''program'', ''compound_statement'', ''do_group'', ''subshell'', ''pipeline'', ''comment'',
       ''redirected_statement'', ''if_statement'', ''elif_clause'', ''command''} \<Longrightarrow>
     \<not> (sn_kind n = ''list'' \<and> length (named_children n) = 2) \<Longrightarrow> inspect env d n input =
     try_bind (inspect_each env d (named_children n) input) (\<lambda>_.
       try_bind (union_cwds input [None]) (\<lambda>s. Inr (flow_of s input)))"
proof -
  note step = inspect.simps [of env d n input]
  have d: "\<not> MAX_DEPTH < d" using assms by simp
  show "inspect env d n input = inspect_sequence env (d + 1) (named_children n) input (unchanged input)"
    if "sn_kind n \<in> {''program'', ''compound_statement'', ''do_group''}"
    unfolding step Let_def if_not_P [OF d] by (simp only: that if_True)
  show "inspect env d n input =
     try_bind (inspect_sequence env (d + 1) (named_children n) input (unchanged input)) (\<lambda>_. Inr (unchanged input))"
    if "sn_kind n = ''subshell''"
    unfolding step Let_def if_not_P [OF d] by (simp only: that) simp
  show "inspect env d n input = try_bind (inspect_each env d (named_children n) input) (\<lambda>_. Inr (unchanged input))"
    if "sn_kind n = ''pipeline''"
    unfolding step Let_def if_not_P [OF d] by (simp only: that) simp
  show "inspect env d n input = Inr (unchanged input)" if "sn_kind n = ''comment''"
    unfolding step Let_def if_not_P [OF d] by (simp only: that) simp
  show "inspect env d n input = try_bind (inspect_each env d (named_children n) input) (\<lambda>_.
       try_bind (union_cwds input [None]) (\<lambda>s. Inr (flow_of s input)))"
    if "sn_kind n \<notin> {''program'', ''compound_statement'', ''do_group'', ''subshell'', ''pipeline'', ''comment'',
       ''redirected_statement'', ''if_statement'', ''elif_clause'', ''command''}"
      "\<not> (sn_kind n = ''list'' \<and> length (named_children n) = 2)"
    using that(1) unfolding step Let_def if_not_P [OF d] if_not_P [OF that(2)] by simp
qed

lemma children_judged:
  assumes "\<And>e. d < e \<Longrightarrow> judged env e" "input \<noteq> []" "d \<le> MAX_DEPTH"
    and kind: "sn_kind n \<notin> {''redirected_statement'', ''if_statement'', ''elif_clause'', ''command''}"
      "\<not> (sn_kind n = ''list'' \<and> length (named_children n) = 2)"
    and r: "inspect env d n input = Inr r"
  shows "alive r \<and> (clear_view env n \<longrightarrow> safe_tree env n)"
proof -
  have d: "judged env (d + 1)" "judged env (d + 1 + 1)" using assms(1) by auto
  let ?run = "inspect_sequence env (d + 1) (named_children n) input (unchanged input)"
  have "alive r \<and> (\<forall>c\<in>set (named_children n). clear_view env c \<longrightarrow> safe_tree env c)
     \<or> alive r \<and> sn_kind n = ''comment''"
  proof (cases "sn_kind n \<in> {''program'', ''compound_statement'', ''do_group''}")
    case True
    then have "?run = Inr r" using r by (simp only: inspect_plain(1) [OF assms(3)])
    from sequence_judged [OF d(2) this] assms(2) show ?thesis by simp
  next
    case False
    show ?thesis
    proof (cases "sn_kind n = ''subshell''")
      case True
      then obtain q where q: "?run = Inr q" and "r = unchanged input"
        using r unfolding inspect_plain(2) [OF assms(3) True] res_simps by blast
      with sequence_judged [OF d(2) q] assms(2) show ?thesis by simp
    next
      case no_subshell: False
      show ?thesis
      proof (cases "sn_kind n = ''comment''")
        case True
        with r assms(2) show ?thesis unfolding inspect_plain(4) [OF assms(3) True] by auto
      next
        case no_comment: False
        have "inspect_each env d (named_children n) input = Inr () \<and> alive r"
        proof (cases "sn_kind n = ''pipeline''")
          case True
          with r assms(2) show ?thesis unfolding inspect_plain(3) [OF assms(3) True] res_simps by auto
        next
          case no_pipeline: False
          have other: "sn_kind n \<notin> {''program'', ''compound_statement'', ''do_group'', ''subshell'', ''pipeline'',
              ''comment'', ''redirected_statement'', ''if_statement'', ''elif_clause'', ''command''}"
            using False no_subshell no_comment no_pipeline kind(1) by blast
          from r obtain s where "inspect_each env d (named_children n) input = Inr ()"
            "union_cwds input [None] = Inr s" "r = flow_of s input"
            unfolding inspect_plain(5) [OF assms(3) other kind(2)] res_simps by auto
          with assms(2) union_nonempty show ?thesis by auto
        qed
        with each_judged [OF d(1) assms(2)] show ?thesis by auto
      qed
    qed
  qed
  moreover have "safe_tree env n" if "clear_view env n" "sn_kind n = ''comment''"
    using that unfolding clear_view_children [of env n] safe_tree_children [of env n]
    by (auto simp: no_blind_spot_def list_all_iff intro: safe_without_commands)
  ultimately show ?thesis using blind_children kind(1) by blast
qed

lemma all_judged: "judged env d"
proof (induction "MAX_DEPTH + 1 - d" arbitrary: d rule: less_induct)
  case less
  show ?case
  proof (cases "d \<le> MAX_DEPTH")
    case True
    have later: "judged env e" if "d < e" for e
      using less [of e] that True by simp
    have "alive r \<and> (clear_view env n \<longrightarrow> safe_tree env n)" if "inspect env d n input = Inr r" "input \<noteq> []" for n input r
    proof -
      have one: "judged env (d + 1)" using later by simp
      show ?thesis
      proof (cases "sn_kind n \<in> {''if_statement'', ''elif_clause''}")
        case True
        then show ?thesis using if_judged [OF later that(2) \<open>d \<le> MAX_DEPTH\<close> _ that(1)] by blast
      next
        case no_if: False
        consider "sn_kind n = ''command''" | "sn_kind n = ''redirected_statement''"
          | "sn_kind n = ''list''" "length (named_children n) = 2"
          | "sn_kind n \<notin> {''command'', ''redirected_statement''}" "\<not> (sn_kind n = ''list'' \<and> length (named_children n) = 2)"
          by blast
        then show ?thesis
        proof cases
          case 1
          then show ?thesis using command_judged [OF later that(2) \<open>d \<le> MAX_DEPTH\<close> _ that(1)] by blast
        next
          case 2
          then show ?thesis using redirected_judged [OF one that(2) \<open>d \<le> MAX_DEPTH\<close> _ that(1)] by blast
        next
          case 3
          then show ?thesis using list_judged [OF one that(2) \<open>d \<le> MAX_DEPTH\<close> _ _ that(1)] by blast
        next
          case 4
          with no_if have "sn_kind n \<notin> {''redirected_statement'', ''if_statement'', ''elif_clause'', ''command''}" by blast
          then show ?thesis using children_judged [OF later that(2) \<open>d \<le> MAX_DEPTH\<close> _ 4(2) that(1)] by blast
        qed
      qed
    qed
    then show ?thesis by (simp add: judged_def)
  next
    case False
    have "inspect env d n input \<noteq> Inr r" for n input r
      using False unfolding inspect.simps [of env d n input] by simp
    then show ?thesis by (simp add: judged_def)
  qed
qed

subsection \<open>Blind spots\<close>

text \<open>
  A tree in which the guard does not look everywhere: the second alternative of an if
  statement, as bash's grammar builds it for \<open>if/elif/else\<close>.
\<close>

definition node :: "string \<Rightarrow> string \<Rightarrow> syntax_node list \<Rightarrow> syntax_node" where
  "node kind text cs = SyntaxNode kind True False None False text cs"

definition plain_command :: "string list \<Rightarrow> syntax_node" where
  "plain_command ws = node ''command'' (concat (map (\<lambda>w. w @ '' '') ws))
     (case ws of [] \<Rightarrow> [] | w # vs \<Rightarrow> node ''command_name'' w [node ''word'' w []] # map (\<lambda>v. node ''word'' v []) vs)"

definition sample_shell :: "syntax_node \<Rightarrow> shell_env" where
  "sample_shell root = \<lparr>sh_parse = \<lambda>_. Some root, sh_split = \<lambda>s. Some [s]\<rparr>"

definition hidden_alternative :: syntax_node where
  "hidden_alternative = node ''program'' [] [node ''if_statement'' []
     [plain_command [''false''],
      node ''elif_clause'' [] [plain_command [''false'']],
      node ''else_clause'' [] [plain_command [''rm'', ''-rf'', ''/etc'']]]]"

definition hidden_substitution :: syntax_node where
  "hidden_substitution = node ''program'' [] [node ''command'' [] [node ''command_name'' ''cd'' [node ''word'' ''cd'' []],
     node ''command_substitution'' [] [plain_command [''rm'', ''-rf'', ''/etc'']]]]"

definition hidden_redirect :: syntax_node where
  "hidden_redirect = node ''program'' [] [node ''redirected_statement'' []
     [SyntaxNode ''command'' True False (Some ''body'') False ''true'' [node ''command_name'' ''true'' [node ''word'' ''true'' []]],
      node ''file_redirect'' [] [node ''command_substitution'' [] [plain_command [''rm'', ''-rf'', ''/etc'']]]]]"

lemma blind_spots:
  "reject_destructive (sample_shell hidden_alternative) [] None = Inr ()"
  "reject_destructive (sample_shell hidden_substitution) [] None = Inr ()"
  "reject_destructive (sample_shell hidden_redirect) [] None = Inr ()"
  "list_ex (denied (sample_shell hidden_alternative)) (commands_in hidden_alternative)"
  "list_ex (denied (sample_shell hidden_substitution)) (commands_in hidden_substitution)"
  "list_ex (denied (sample_shell hidden_redirect)) (commands_in hidden_redirect)"
  by code_simp+

subsection \<open>Properties\<close>

text \<open>
  C8. A script the guard accepts deletes no protected tree by name. When the inspection lets
  a script pass, and its tree has no blind spot, then none of its commands, at whatever depth
  of lists, branches, loops, subshells and substitutions, formats a disk, and none is a
  deletion with a fixed operand that names a protected system tree absolutely.
\<close>

theorem accepted_script_is_safe:
  assumes "reject_destructive env script cwd = Inr ()" "sh_parse env script = Some root" "clear_view env root"
    and "c \<in> set (commands_in root)" "command_executable env c = Some (i, x)"
  shows "\<not> formats_disk x \<and> (x \<in> {''rm'', ''rmdir'', ''unlink''} \<longrightarrow> v \<in> set (static_operands env c i) \<longrightarrow>
     has_root v \<longrightarrow> resolve_path v None = Some p \<longrightarrow> \<not> hard_delete_path p)"
proof -
  from assms(1,2) obtain r where "inspect env 0 root [Option.bind cwd (\<lambda>p. resolve_path p None)] = Inr r"
    by (auto simp: reject_destructive_def res_simps split: if_splits)
  from judgedD [OF all_judged this] assms(3) have "safe_tree env root" by simp
  with assms(4) have "\<not> denied env c" by (simp add: safe_tree_def)
  with assms(5) show ?thesis by (auto simp: denied_def list_ex_iff deletes_protected_def)
qed

definition tidy_script :: syntax_node where
  "tidy_script = node ''program'' [] [node ''list'' []
     [plain_command [''cd'', ''/tmp''], SyntaxNode ''&&'' False False None False ''&&'' [],
      plain_command [''sudo'', ''rm'', ''-r'', ''/etc/mihomo'']]]"

lemma accepted_script_is_safe_witness:
  "\<not> hard_delete_path ''/etc/mihomo''"
proof -
  let ?env = "sample_shell tidy_script" and ?c = "plain_command [''sudo'', ''rm'', ''-r'', ''/etc/mihomo'']"
  have "reject_destructive ?env [] None = Inr ()" "clear_view ?env tidy_script"
    "?c \<in> set (commands_in tidy_script)" "command_executable ?env ?c = Some (1, ''rm'')"
    "''/etc/mihomo'' \<in> set (static_operands ?env ?c 1)" "has_root ''/etc/mihomo''"
    "resolve_path ''/etc/mihomo'' None = Some ''/etc/mihomo''"
    by code_simp+
  moreover have "sh_parse ?env [] = Some tidy_script" by (simp add: sample_shell_def)
  ultimately show ?thesis using accepted_script_is_safe [of ?env "[]" None tidy_script ?c 1 "''rm''"] by blast
qed

end
