(* ===== verification/Call_Policy.thy ===== *)
theory Call_Policy
  imports Shell_Guard
begin

text \<open>
  The decisions about one call of a native tool: the registry built from the tool manifest
  (native/registry.rs), the scope and the effect of the call (native/call\_policy.rs,
  native/effect.rs), what is denied in every mode, and when the user must approve
  (native/auto\_review.rs). What the file system says to the automatic review is a parameter.
\<close>

subsection \<open>The registry\<close>

definition IMPLEMENTED_NATIVE_TOOLS :: "string list" where
  "IMPLEMENTED_NATIVE_TOOLS = [''inspect_host'', ''inspect_service'', ''query_logs'', ''diagnose_endpoint'', ''trash_file'',
     ''exec_command'', ''terminal_execute'', ''probe_http'', ''read_terminal'', ''write_terminal_input'', ''wait_terminal'',
     ''write_stdin'', ''wait_process'', ''kill_process'', ''read_file'', ''list_directory'', ''search_text'', ''write_file'',
     ''edit_file'', ''apply_patch'', ''transfer_file'']"

datatype (plugins only: code size) tool_idempotency = IdempotentYes | IdempotentNo | IdempotentConditional
datatype (plugins only: code size) tool_retry = RetryNever | RetryIdempotentOnly | RetryReconcileFirst

record manifest_descriptor =
  md_name :: string
  md_version :: string
  md_target_kinds :: "target_kind list"
  md_effect_mode :: effect_mode
  md_allowed_effects :: "effect_kind list"
  md_idempotency :: tool_idempotency
  md_parallel :: bool
  md_cancellable :: bool
  md_retry_policy :: tool_retry
  md_default_timeout_ms :: u64
  md_max_output_bytes :: u64
  md_max_concurrency :: u16
  md_required_capabilities :: "string list"
  md_untrusted_result_fields :: "string list"

record tool_manifest =
  tm_contract_version :: u8
  tm_tools :: "manifest_descriptor list"

record registered_tool =
  rt_descriptor :: manifest_descriptor
  rt_implemented :: bool

datatype (plugins only: code size) registry_error =
    InvalidManifest
  | ContractVersionMismatch
  | DuplicateTool
  | DescriptorMismatch
  | UnregisteredNativeTool
  | ToolUnavailable

type_synonym tool_registry = "string \<rightharpoonup> registered_tool"

definition descriptor_matches :: "manifest_descriptor \<Rightarrow> tool_descriptor \<Rightarrow> bool" where
  "descriptor_matches d c \<longleftrightarrow> md_version d = ''1.0.0'' \<and> md_target_kinds d = td_target_kinds c
     \<and> md_effect_mode d = td_effect_mode c \<and> md_allowed_effects d = td_allowed_effects c
     \<and> md_default_timeout_ms d \<noteq> 0 \<and> md_max_concurrency d \<noteq> 0
     \<and> \<not> (md_parallel d \<and> (md_idempotency d \<noteq> IdempotentYes \<or> md_allowed_effects d \<noteq> [ReadOnlyEffect]))
     \<and> md_required_capabilities d \<noteq> [] \<and> list_all (\<lambda>v. \<not> is_blank v) (md_required_capabilities d)
     \<and> distinct (md_required_capabilities d) \<and> distinct (md_untrusted_result_fields d)"

definition validate_descriptor :: "manifest_descriptor \<Rightarrow> registry_error + unit" where
  "validate_descriptor d =
     try_bind (ok_or (find_builtin_tool (md_name d)) DescriptorMismatch) (\<lambda>c.
     ensure (descriptor_matches d c) DescriptorMismatch)"

fun register_tools :: "tool_registry \<Rightarrow> manifest_descriptor list \<Rightarrow> registry_error + tool_registry" where
  "register_tools tools [] = Inr tools"
| "register_tools tools (d # ds) =
     try_bind (validate_descriptor d) (\<lambda>_.
     try_bind (ensure (tools (md_name d) = None) DuplicateTool) (\<lambda>_.
     register_tools (tools(md_name d \<mapsto> \<lparr>rt_descriptor = d,
       rt_implemented = (md_name d \<in> set IMPLEMENTED_NATIVE_TOOLS)\<rparr>)) ds))"

text \<open>\<open>from\_builtin\_manifest\<close>, after the JSON of the manifest was decoded.\<close>

definition registry_from :: "tool_manifest option \<Rightarrow> registry_error + tool_registry" where
  "registry_from manifest =
     try_bind (ok_or manifest InvalidManifest) (\<lambda>m.
     try_bind (ensure (tm_contract_version m = NATIVE_TOOL_CONTRACT_VERSION
       \<and> length (tm_tools m) = length IMPLEMENTED_NATIVE_TOOLS) ContractVersionMismatch) (\<lambda>_.
     register_tools Map.empty (tm_tools m)))"

definition registry_get :: "tool_registry \<Rightarrow> string \<Rightarrow> registry_error + registered_tool" where
  "registry_get tools name = ok_or (tools name) UnregisteredNativeTool"

definition executable_tool :: "tool_registry \<Rightarrow> string \<Rightarrow> registry_error + registered_tool" where
  "executable_tool tools name = try_bind (registry_get tools name) (\<lambda>t.
     try_bind (ensure (rt_implemented t) ToolUnavailable) (\<lambda>_. Inr t))"

subsection \<open>The scope of a call\<close>

record call_scope =
  cs_paths :: "string list"
  cs_network :: "network_destination list"
  cs_sensitive :: nat
  cs_critical :: nat
  cs_unknown_write :: bool

datatype (plugins only: code size) policy_error =
    PolicyArgumentsInvalid
  | TransferNeedsRoots
  | EffectUnclassifiable
  | NoEffectDeclared
  | EffectOutsideManifest
  | CriticalOperationDenied
  | GuardDenied guard_error

definition trim_end_slashes :: "string \<Rightarrow> string" where
  "trim_end_slashes = trim_end_char (CHR ''/'')"

definition qualify_local_path :: "string option \<Rightarrow> string \<Rightarrow> string" where
  "qualify_local_path root path = (case root of None \<Rightarrow> path | Some r \<Rightarrow> path_join r path)"

definition qualify_remote_path :: "string option \<Rightarrow> string \<Rightarrow> string" where
  "qualify_remote_path root path =
     (if starts_with ''/'' path then path
      else case root of None \<Rightarrow> path | Some r \<Rightarrow> trim_end_slashes r @ ''/'' @ path)"

definition invalid_policy :: "'a option \<Rightarrow> policy_error + 'a" where
  "invalid_policy v = ok_or v PolicyArgumentsInvalid"

text \<open>The paths in the arguments, for a transfer already with its two roots.\<close>

definition argument_paths :: "contract_env \<Rightarrow> tool_call \<Rightarrow> policy_error + string list" where
  "argument_paths env c = (let tool = tc_tool_name c; v = tc_arguments c in
     if tool = ''trash_file'' then try_bind (invalid_policy (ce_trash env v)) (\<lambda>a. Inr [da_path a])
     else if tool = ''read_file'' then try_bind (invalid_policy (ce_read env v)) (\<lambda>a. Inr [ra_path a])
     else if tool = ''list_directory'' then try_bind (invalid_policy (ce_list env v)) (\<lambda>a. Inr [la_path a])
     else if tool = ''search_text'' then try_bind (invalid_policy (ce_search env v)) (\<lambda>a. Inr [qa_path a])
     else if tool = ''write_file'' then try_bind (invalid_policy (ce_write env v)) (\<lambda>a. Inr [fa_path a])
     else if tool = ''edit_file'' then try_bind (invalid_policy (ce_edit env v)) (\<lambda>a. Inr [ea_path a])
     else if tool = ''apply_patch'' then
       try_bind (invalid_policy (ce_patch env v)) (\<lambda>a. Inr (map fst (aa_preconditions a)))
     else if tool = ''transfer_file'' then
       try_bind (invalid_policy (ce_transfer env v)) (\<lambda>a.
       case tc_target c of
         TargetRemote _ _ _ _ _ _ root local \<Rightarrow> Inr (case xf_direction a of
             Upload \<Rightarrow> [qualify_local_path local (xf_source a), qualify_remote_path root (xf_destination a)]
           | Download \<Rightarrow> [qualify_remote_path root (xf_source a), qualify_local_path local (xf_destination a)])
       | _ \<Rightarrow> Inl TransferNeedsRoots)
     else Inr [])"

definition qualify_path :: "tool_call \<Rightarrow> string \<Rightarrow> string" where
  "qualify_path c path =
     (if tc_tool_name c = ''transfer_file'' then path
      else case tc_target c of
        TargetLocal _ _ (Some root) \<Rightarrow> if \<not> has_root path then path_join root path else path
      | TargetRemote _ _ _ _ _ _ (Some root) _ \<Rightarrow>
          if \<not> starts_with ''/'' path then trim_end_slashes root @ ''/'' @ path else path
      | _ \<Rightarrow> path)"

definition protocol_name :: "endpoint_protocol \<Rightarrow> string" where
  "protocol_name p = (case p of ProtoTcp \<Rightarrow> ''tcp'' | ProtoTls \<Rightarrow> ''tls'' | ProtoHttp \<Rightarrow> ''http'' | ProtoHttps \<Rightarrow> ''https'')"

definition call_destinations :: "contract_env \<Rightarrow> tool_call \<Rightarrow> policy_error + network_destination list" where
  "call_destinations env c =
     (if tc_tool_name c = ''diagnose_endpoint'' then
        try_bind (invalid_policy (ce_diagnose env (tc_arguments c))) (\<lambda>a.
        Inr [\<lparr>nd_protocol = protocol_name (dg_protocol a), nd_host = dg_host a, nd_port = dg_port a\<rparr>])
      else if tc_tool_name c = ''probe_http'' then
        try_bind (invalid_policy (ce_probe env (tc_arguments c))) (\<lambda>a.
        Inr [\<lparr>nd_protocol = ''http'', nd_host = ''127.0.0.1'', nd_port = pa_port a\<rparr>])
      else Inr [])"

definition inspect_call_scope :: "contract_env \<Rightarrow> tool_call \<Rightarrow> policy_error + call_scope" where
  "inspect_call_scope env c =
     try_bind (argument_paths env c) (\<lambda>raw. let paths = map (qualify_path c) raw in
     try_bind (call_destinations env c) (\<lambda>network.
     Inr \<lparr>cs_paths = paths, cs_network = network,
       cs_sensitive = length (filter path_is_sensitive paths),
       cs_critical = length (filter protected_delete_path paths),
       cs_unknown_write = (tc_tool_name c \<in> {''exec_command'', ''terminal_execute'', ''write_terminal_input''})\<rparr>))"

subsection \<open>The effect of a call\<close>

definition patch_effect :: "apply_patch_arguments \<Rightarrow> effect_kind" where
  "patch_effect a =
     (if aa_dry_run a = Some True then StateChange
      else if contains_text ''/dev/null'' (aa_patch a)
        \<or> list_ex (starts_with ''deleted file mode'') (split_on NEWLINE (aa_patch a)) then Destructive
      else StateChange)"

definition transfer_effect :: "transfer_file_arguments \<Rightarrow> effect_kind" where
  "transfer_effect a = (case xf_direction a of
     Upload \<Rightarrow> ExternalSideEffect
   | Download \<Rightarrow> if xf_overwrite a then StateChange else SensitiveRead)"

definition classified_effect :: "contract_env \<Rightarrow> shell_env \<Rightarrow> tool_call \<Rightarrow> policy_error + effect_kind" where
  "classified_effect env shell c = (let tool = tc_tool_name c; v = tc_arguments c in
     if tool = ''exec_command'' then
       try_bind (ok_or (ce_exec env v) EffectUnclassifiable) (\<lambda>a. Inr (classify_command_effect shell (xa_command a)))
     else if tool = ''terminal_execute'' then
       try_bind (ok_or (ce_terminal env v) EffectUnclassifiable) (\<lambda>a. Inr (classify_command_effect shell (ta_command a)))
     else if tool = ''apply_patch'' then
       try_bind (ok_or (ce_patch env v) EffectUnclassifiable) (\<lambda>a. Inr (patch_effect a))
     else if tool = ''transfer_file'' then
       try_bind (ok_or (ce_transfer env v) EffectUnclassifiable) (\<lambda>a. Inr (transfer_effect a))
     else Inl EffectUnclassifiable)"

text \<open>The name of an effect in a summary (the derived \<open>Debug\<close>).\<close>

definition effect_name :: "effect_kind \<Rightarrow> string" where
  "effect_name e = (case e of NoEffect \<Rightarrow> ''None'' | ReadOnlyEffect \<Rightarrow> ''ReadOnly'' | SensitiveRead \<Rightarrow> ''SensitiveRead''
     | StateChange \<Rightarrow> ''StateChange'' | Destructive \<Rightarrow> ''Destructive'' | ExternalSideEffect \<Rightarrow> ''ExternalSideEffect'')"

definition assess_effect ::
  "contract_env \<Rightarrow> shell_env \<Rightarrow> manifest_descriptor \<Rightarrow> tool_call \<Rightarrow> policy_error + observed_effect" where
  "assess_effect env shell d c =
     try_bind (case md_effect_mode d of
         FixedEffect \<Rightarrow> (case md_allowed_effects d of [] \<Rightarrow> Inl NoEffectDeclared | e # _ \<Rightarrow> Inr e)
       | NativeClassifier \<Rightarrow> classified_effect env shell c) (\<lambda>kind.
     try_bind (ensure (kind \<in> set (md_allowed_effects d)) EffectOutsideManifest) (\<lambda>_.
     try_bind (inspect_call_scope env c) (\<lambda>scope.
     Inr \<lparr>oe_kind = kind, oe_target_id = target_of (tc_target c),
       oe_summary = ''Native policy classified '' @ tc_tool_name c @ '' as '' @ effect_name kind @ ''.'',
       oe_paths = cs_paths scope, oe_network = cs_network scope\<rparr>)))"

subsection \<open>What is denied in every mode\<close>

definition guard_shell :: "shell_env \<Rightarrow> tool_call \<Rightarrow> policy_error + unit" where
  "guard_shell shell c =
     (if tc_tool_name c \<in> {''exec_command'', ''terminal_execute''} then
        (case Option.bind (json_get ''command'' (tc_arguments c)) json_as_str of
           None \<Rightarrow> Inr ()
         | Some command \<Rightarrow>
             let cwd = (case tc_target c of
                   TargetLocal _ _ cwd \<Rightarrow> if tc_tool_name c = ''exec_command'' then cwd else None | _ \<Rightarrow> None)
             in (case reject_destructive shell command cwd of Inl x \<Rightarrow> Inl (GuardDenied x) | Inr _ \<Rightarrow> Inr ()))
      else Inr ())"

definition critical_write :: "tool_call \<Rightarrow> effect_kind \<Rightarrow> call_scope \<Rightarrow> bool" where
  "critical_write c kind scope =
     (if tc_tool_name c = ''transfer_file'' then
        length (cs_paths scope) > 1 \<and> protected_delete_path (cs_paths scope ! 1)
      else cs_critical scope > 0 \<and> kind \<in> {StateChange, Destructive})"

definition enforce_call_policy ::
  "shell_env \<Rightarrow> tool_call \<Rightarrow> effect_kind \<Rightarrow> call_scope \<Rightarrow> policy_error + unit" where
  "enforce_call_policy shell c kind scope =
     try_bind (guard_shell shell c) (\<lambda>_.
     ensure (\<not> (critical_write c kind scope
       \<and> \<not> (tc_tool_name c = ''trash_file'' \<and> list_all (\<lambda>p. \<not> hard_delete_path p) (cs_paths scope))))
       CriticalOperationDenied)"

subsection \<open>When the user must approve\<close>

definition requires_call_confirmation :: "native_mode \<Rightarrow> string \<Rightarrow> effect_kind \<Rightarrow> nat \<Rightarrow> bool" where
  "requires_call_confirmation mode tool kind sensitive =
     (if mode = NativeOperator then False
      else if tool \<in> {''kill_process'', ''wait_process''} then False
      else if mode = NativeRequestApproval
        \<or> tool \<in> {''exec_command'', ''terminal_execute'', ''write_terminal_input'', ''write_stdin'', ''call_mcp_tool''}
        \<or> sensitive > 0 then True
      else (case mode of
          NativeRequestApproval \<Rightarrow> True
        | NativeScopedAutopilot \<Rightarrow> kind \<noteq> ReadOnlyEffect
        | NativeOperator \<Rightarrow> False))"

record reviewed_command =
  rv_program :: string
  rv_arguments :: "string list"
  rv_root :: string
  rv_root_identity :: string
  rv_directory :: string
  rv_input :: "string option"

record approval_review =
  av_requires_approval :: bool
  av_reason :: string
  av_command :: "reviewed_command option"

text \<open>
  What the review asks the file system: a root opened by \<open>LocalScopedReader\<close> (its path and
  identity), a directory and a file below it, and whether a program is a trusted system binary.
\<close>

record review_env =
  rv_open :: "string \<Rightarrow> (string \<times> string) option"
  rv_open_directory :: "string \<Rightarrow> string \<Rightarrow> bool"
  rv_open_file :: "string \<Rightarrow> string \<Rightarrow> bool"
  rv_trusted :: "string \<Rightarrow> bool"

definition has_parent_dir :: "string \<Rightarrow> bool" where
  "has_parent_dir p \<longleftrightarrow> ParentDir \<in> set (path_components p)"

text \<open>\<open>Path::parent\<close> is present: the path has a last component that is not the root.\<close>

definition has_parent :: "string \<Rightarrow> bool" where
  "has_parent p \<longleftrightarrow> path_components p \<noteq> [] \<and> last (path_components p) \<noteq> RootDir"

definition path_starts_with :: "string \<Rightarrow> string \<Rightarrow> bool" where
  "path_starts_with root p \<longleftrightarrow> take (length (path_components root)) (path_components p) = path_components root"

definition structured_read_is_scoped :: "review_env \<Rightarrow> tool_call \<Rightarrow> call_scope \<Rightarrow> bool" where
  "structured_read_is_scoped rv c scope \<longleftrightarrow>
     (case tc_target c of
        TargetLocal _ _ (Some root) \<Rightarrow> (case rv_open rv root of None \<Rightarrow> False
          | Some (opened, _) \<Rightarrow> \<not> path_is_sensitive opened \<and> \<not> protected_delete_path opened)
      | _ \<Rightarrow> True)
     \<and> (case (case tc_target c of
            TargetLocal _ _ (Some root) \<Rightarrow> Some root
          | TargetRemote _ _ (Some _) _ _ _ (Some root) _ \<Rightarrow> Some root
          | _ \<Rightarrow> None) of
        None \<Rightarrow> False
      | Some root \<Rightarrow> has_root root \<and> has_parent root \<and> cs_paths scope \<noteq> []
          \<and> list_all (\<lambda>p. path_starts_with root p \<and> \<not> has_parent_dir p) (cs_paths scope))"

text \<open>\<open>split\_whitespace\<close> over the Unicode White\_Space code points.\<close>

fun unicode_pieces :: "string \<Rightarrow> string \<Rightarrow> string list" where
  "unicode_pieces cur [] = [cur]"
| "unicode_pieces cur (b # bs) =
     (if ascii_space (byte_of b) then cur # unicode_pieces [] bs
      else case bs of [] \<Rightarrow> [cur @ [b]]
      | c # cs \<Rightarrow> if space2 (byte_of b) (byte_of c) then cur # unicode_pieces [] cs
          else (case cs of [] \<Rightarrow> unicode_pieces (cur @ [b]) bs
            | d # ds \<Rightarrow> if space3 (byte_of b) (byte_of c) (byte_of d) then cur # unicode_pieces [] ds
                else unicode_pieces (cur @ [b]) bs))"

definition split_whitespace :: "string \<Rightarrow> string list" where
  "split_whitespace s = filter (\<lambda>w. w \<noteq> []) (unicode_pieces [] s)"

definition file_name :: "string \<Rightarrow> string option" where
  "file_name p = (if path_components p = [] then None
     else case last (path_components p) of Normal s \<Rightarrow> Some s | _ \<Rightarrow> None)"

text \<open>A relative path collected from components.\<close>

fun join_components :: "path_component list \<Rightarrow> string" where
  "join_components [] = []"
| "join_components (c # cs) = (let s = (case c of RootDir \<Rightarrow> ''/'' | CurDir \<Rightarrow> ''.'' | ParentDir \<Rightarrow> ''..'' | Normal s \<Rightarrow> s)
     in if cs = [] \<or> c = RootDir then s @ join_components cs else s @ ''/'' @ join_components cs)"

definition scoped_relative :: "string \<Rightarrow> string \<Rightarrow> string option" where
  "scoped_relative root v =
     (if has_parent_dir v then None
      else Option.bind
        (if \<not> has_root v then Some v
         else if path_starts_with root v
         then Some (join_components (drop (length (path_components root)) (path_components v))) else None)
        (\<lambda>relative. let text = join_components (filter (\<lambda>c. c \<noteq> CurDir) (path_components relative)) in
           if path_is_sensitive text \<or> path_is_sensitive (path_join root relative) then None else Some text))"

text \<open>The options and the one operand of \<open>ls\<close>.\<close>

fun ls_operands :: "string list \<Rightarrow> string list \<Rightarrow> string option \<Rightarrow> (string list \<times> string option) option" where
  "ls_operands [] flags path = Some (flags, path)"
| "ls_operands (w # ws) flags path = (case strip_prefix ''-'' w of
     Some fs \<Rightarrow> if fs = [] \<or> \<not> list_all (\<lambda>c. c \<in> set ''alhA1n'') fs then None else ls_operands ws (flags @ [w]) path
   | None \<Rightarrow> if path \<noteq> None then None else ls_operands ws flags (Some w))"

definition read_operand :: "string \<Rightarrow> string list \<Rightarrow> (string list \<times> string) option" where
  "read_operand name operands = (case operands of
     [path] \<Rightarrow> if \<not> starts_with ''-'' path then Some ([], path) else None
   | [n, limit, path] \<Rightarrow>
       if n = ''-n'' \<and> name \<noteq> ''cat'' \<and> \<not> starts_with ''-'' path then
         (case parse_u16 limit of None \<Rightarrow> None
          | Some k \<Rightarrow> if 1 \<le> k \<and> k \<le> 1000 then Some ([''-n'', decimal k], path) else None)
       else None
   | _ \<Rightarrow> None)"

definition review_list :: "review_env \<Rightarrow> string list \<Rightarrow> reviewed_command \<Rightarrow> reviewed_command option" where
  "review_list rv operands plan =
     Option.bind (ls_operands operands [] None) (\<lambda>found.
     Option.bind (scoped_relative (rv_root plan) (case snd found of None \<Rightarrow> ''.'' | Some p \<Rightarrow> p)) (\<lambda>directory.
     if rv_open_directory rv (rv_root plan) directory
     then Some (plan\<lparr>rv_arguments := fst found, rv_directory := directory\<rparr>) else None))"

definition review_file :: "review_env \<Rightarrow> string \<Rightarrow> string list \<Rightarrow> reviewed_command \<Rightarrow> reviewed_command option" where
  "review_file rv name operands plan =
     Option.bind (read_operand name operands) (\<lambda>found.
     Option.bind (scoped_relative (rv_root plan) (snd found)) (\<lambda>relative.
     if rv_open_file rv (rv_root plan) relative
     then Some (plan\<lparr>rv_arguments := fst found, rv_input := Some relative\<rparr>) else None))"

definition review_plan :: "review_env \<Rightarrow> string \<Rightarrow> string list \<Rightarrow> reviewed_command \<Rightarrow> reviewed_command option" where
  "review_plan rv name operands plan =
     (if name = ''pwd'' then (if operands = [] then Some plan else None)
      else if name = ''uname'' then
        (if list_all (\<lambda>f. f \<in> {''-a'', ''-s'', ''-r'', ''-m''}) operands then Some (plan\<lparr>rv_arguments := operands\<rparr>) else None)
      else if name = ''ls'' then review_list rv operands plan
      else if name \<in> {''cat'', ''head'', ''tail''} then review_file rv name operands plan
      else None)"

definition REVIEWED_PROGRAMS :: "string list" where
  "REVIEWED_PROGRAMS = [''pwd'', ''uname'', ''ls'', ''cat'', ''head'', ''tail'']"

definition review_words :: "review_env \<Rightarrow> string \<Rightarrow> string \<Rightarrow> string list \<Rightarrow> reviewed_command option" where
  "review_words rv root executable operands =
     Option.bind (file_name executable) (\<lambda>name.
     if name \<notin> set REVIEWED_PROGRAMS then None
     else Option.bind (find (rv_trusted rv) [''/bin/'' @ name, ''/usr/bin/'' @ name]) (\<lambda>program.
     if executable \<noteq> name \<and> executable \<noteq> program then None
     else Option.bind (rv_open rv root) (\<lambda>opened.
     if \<not> has_parent (fst opened) \<or> path_is_sensitive (fst opened) \<or> protected_delete_path (fst opened) then None
     else review_plan rv name operands \<lparr>rv_program = program, rv_arguments = [],
       rv_root = fst opened, rv_root_identity = snd opened, rv_directory = [], rv_input = None\<rparr>)))"

definition reviewable :: "string \<Rightarrow> exec_command_arguments \<Rightarrow> bool" where
  "reviewable root a \<longleftrightarrow> xa_elevated a \<noteq> Some True \<and> xa_background a \<noteq> Some True
     \<and> within 0 30000 (xa_timeout_ms a) \<and> (xa_cwd a = None \<or> xa_cwd a = Some root)"

definition review_local_command :: "contract_env \<Rightarrow> shell_env \<Rightarrow> review_env \<Rightarrow> tool_call \<Rightarrow> reviewed_command option" where
  "review_local_command env shell rv c =
     (case tc_target c of
        TargetLocal _ _ (Some root) \<Rightarrow>
          if tc_tool_name c \<noteq> ''exec_command'' then None
          else Option.bind (ce_exec env (tc_arguments c)) (\<lambda>a.
            if \<not> reviewable root a then None
            else case literal_command_chain shell (xa_command a) of
              Some [command] \<Rightarrow> (case split_whitespace command of
                  [] \<Rightarrow> None
                | executable # operands \<Rightarrow> review_words rv root executable operands)
            | _ \<Rightarrow> None)
      | _ \<Rightarrow> None)"

definition review_call ::
  "contract_env \<Rightarrow> shell_env \<Rightarrow> review_env \<Rightarrow> native_mode \<Rightarrow> tool_call \<Rightarrow> effect_kind \<Rightarrow> call_scope \<Rightarrow> approval_review" where
  "review_call env shell rv mode c kind scope =
     (if mode \<noteq> NativeScopedAutopilot then
        \<lparr>av_requires_approval = requires_call_confirmation mode (tc_tool_name c) kind (cs_sensitive scope),
          av_reason = ''permission_mode'', av_command = None\<rparr>
      else if cs_sensitive scope = 0 \<and> cs_critical scope = 0
        \<and> tc_tool_name c \<in> {''read_file'', ''list_directory'', ''search_text''} \<and> structured_read_is_scoped rv c scope
      then \<lparr>av_requires_approval = False, av_reason = ''scoped_file_read'', av_command = None\<rparr>
      else case review_local_command env shell rv c of
        Some command \<Rightarrow> \<lparr>av_requires_approval = False, av_reason = ''bounded_local_read'', av_command = Some command\<rparr>
      | None \<Rightarrow>
          let approval = (tc_tool_name c \<notin> {''wait_process'', ''kill_process''})
          in \<lparr>av_requires_approval = approval,
            av_reason = (if approval then ''human_review_required'' else ''owned_process_lifecycle''), av_command = None\<rparr>)"

subsection \<open>Facts\<close>

lemma register_tools_sound:
  "register_tools tools ds = Inr r \<Longrightarrow>
   (\<And>n t. tools n = Some t \<Longrightarrow> \<exists>c. find_builtin_tool n = Some c \<and> descriptor_matches (rt_descriptor t) c) \<Longrightarrow>
   r n = Some t \<Longrightarrow> \<exists>c. find_builtin_tool n = Some c \<and> descriptor_matches (rt_descriptor t) c"
proof (induction ds arbitrary: tools)
  case (Cons d ds)
  from Cons.prems(1) obtain c where c: "find_builtin_tool (md_name d) = Some c" "descriptor_matches d c"
    and rest: "register_tools (tools(md_name d \<mapsto> \<lparr>rt_descriptor = d,
       rt_implemented = (md_name d \<in> set IMPLEMENTED_NATIVE_TOOLS)\<rparr>)) ds = Inr r"
    by (auto simp: res_simps validate_descriptor_def)
  show ?case by (rule Cons.IH [OF rest _ Cons.prems(3)]) (use c Cons.prems(2) in \<open>auto split: if_splits\<close>)
qed simp

lemma executable_tool_contract:
  assumes "registry_from manifest = Inr tools" "executable_tool tools name = Inr t"
  shows "\<exists>c. find_builtin_tool name = Some c \<and> descriptor_matches (rt_descriptor t) c \<and> rt_implemented t"
  using assms register_tools_sound [where n = name and t = t and tools = Map.empty]
  by (auto simp: registry_from_def executable_tool_def registry_get_def res_simps)

lemma assess_effectD:
  assumes "assess_effect env shell d c = Inr e"
  shows "oe_kind e \<in> set (md_allowed_effects d) \<and> oe_target_id e = target_of (tc_target c)
    \<and> (\<exists>scope. inspect_call_scope env c = Inr scope \<and> oe_paths e = cs_paths scope)"
  using assms unfolding assess_effect_def by (auto simp: res_simps)

lemma critical_counts:
  "inspect_call_scope env c = Inr scope \<Longrightarrow> p \<in> set (cs_paths scope) \<Longrightarrow> protected_delete_path p \<Longrightarrow> cs_critical scope > 0"
  by (auto simp: inspect_call_scope_def Let_def res_simps filter_empty_conv)

lemma sensitive_counts:
  "inspect_call_scope env c = Inr scope \<Longrightarrow> p \<in> set (cs_paths scope) \<Longrightarrow> path_is_sensitive p \<Longrightarrow> cs_sensitive scope > 0"
  by (auto simp: inspect_call_scope_def Let_def res_simps filter_empty_conv)

end
