(* ===== verification/Capability.thy ===== *)
theory Capability
  imports Call_Policy "HOL-Library.AList"
begin

text \<open>
  The store of capabilities (native/capability.rs): a capability is a secret-keyed id with a
  record of the one call, the tools, effects and targets it stands for, a short life and a
  number of uses. The keyed hash (HMAC-SHA-256 under the key of the store) is a parameter that
  maps a message to its bytes; the fresh UUID of \<open>issue\<close> and the clock are arguments. The
  lock of the store is never poisoned, because no operation panics while it holds the lock.
\<close>

subsection \<open>Hexadecimal text\<close>

definition hex_digit :: "nat \<Rightarrow> char" where
  "hex_digit n = (if n < 10 then char_of (48 + n) else char_of (87 + n))"

definition hex_byte :: "u8 \<Rightarrow> string" where
  "hex_byte b = [hex_digit (unat b div 16), hex_digit (unat b mod 16)]"

definition hex_encode :: "u8 list \<Rightarrow> string" where
  "hex_encode bs = concat (map hex_byte bs)"

definition digit_value :: "char \<Rightarrow> nat option" where
  "digit_value c = (let n = byte_of c in
     if 48 \<le> n \<and> n \<le> 57 then Some (n - 48)
     else if 97 \<le> n \<and> n \<le> 102 then Some (n - 87)
     else if 65 \<le> n \<and> n \<le> 70 then Some (n - 55) else None)"

text \<open>\<open>u8::from\_str\_radix(s, 16)\<close> on two bytes; a leading plus sign is accepted.\<close>

definition parse_hex_pair :: "char \<Rightarrow> char \<Rightarrow> u8 option" where
  "parse_hex_pair a b =
     (if a = CHR ''+'' then map_option of_nat (digit_value b)
      else case (digit_value a, digit_value b) of
        (Some h, Some l) \<Rightarrow> Some (of_nat (16 * h + l)) | _ \<Rightarrow> None)"

fun parse_hex :: "string \<Rightarrow> u8 list option" where
  "parse_hex [] = Some []"
| "parse_hex [_] = None"
| "parse_hex (a # b # s) = (case parse_hex_pair a b of None \<Rightarrow> None
     | Some v \<Rightarrow> map_option ((#) v) (parse_hex s))"

fun split_once :: "char \<Rightarrow> string \<Rightarrow> (string \<times> string) option" where
  "split_once c [] = None"
| "split_once c (x # xs) = (if x = c then Some ([], xs)
     else map_option (\<lambda>(a, b). (x # a, b)) (split_once c xs))"

subsection \<open>Data\<close>

definition MAX_CAPABILITY_TTL_MS :: u64 where "MAX_CAPABILITY_TTL_MS = 300000"
definition MAX_CAPABILITY_USES :: u16 where "MAX_CAPABILITY_USES = 32"
definition MAX_CAPABILITY_RECORDS :: nat where "MAX_CAPABILITY_RECORDS = 1024"

record capability_issue =
  ci_reviewed :: "reviewed_command option"
  ci_request_id :: string
  ci_user_session_id :: string
  ci_call_id :: string
  ci_call_digest :: string
  ci_allowed_tools :: "string list"
  ci_allowed_effects :: "effect_kind list"
  ci_target_ids :: "string list"
  ci_ttl_ms :: u64
  ci_max_uses :: u16

record issued_capability =
  ic_capability_id :: string
  ic_expires_at :: u64

record capability_record =
  cr_reviewed :: "reviewed_command option"
  cr_capability_id :: string
  cr_request_id :: string
  cr_user_session_id :: string
  cr_allowed_call_ids :: "string list"
  cr_call_digest :: string
  cr_allowed_tools :: "string list"
  cr_allowed_effects :: "effect_kind list"
  cr_target_ids :: "string list"
  cr_not_before :: u64
  cr_expires_at :: u64
  cr_revoked :: bool
  cr_uses :: u16
  cr_max_uses :: u16

datatype (plugins only: code size) capability_error =
    InvalidScope | InvalidTtl | InvalidUseLimit | UnknownCapability | RevokedCapability
  | ExpiredCapability | ExhaustedCapability | CapabilityUnavailable

text \<open>
  The failures of a verification. \<open>ProofPanic\<close> is not an error value of the code: it is the
  panic of slicing the claimed hash between two bytes of one character.
\<close>

datatype (plugins only: code size) verify_failure =
    UnknownProof | InvalidProof | RevokedProof | ExpiredProof | ProofPanic

record verify_context =
  vx_request_id :: string
  vx_user_session_id :: string
  vx_call_id :: string
  vx_target_id :: string

type_synonym capability_store = "(string \<times> capability_record) list"
type_synonym keyed_hash = "string \<Rightarrow> u8 list"

subsection \<open>Operations\<close>

definition CAPABILITY_DOMAIN :: string where
  "CAPABILITY_DOMAIN = ''shellspan-agent-capability-native'' @ [CHR 0x00]"

definition sign_nonce :: "keyed_hash \<Rightarrow> string \<Rightarrow> string" where
  "sign_nonce hash nonce = hex_encode (hash (CAPABILITY_DOMAIN @ nonce))"

definition capability_id_of :: "keyed_hash \<Rightarrow> string \<Rightarrow> string" where
  "capability_id_of hash nonce = ''cap-'' @ nonce @ ''-'' @ sign_nonce hash nonce"

definition issue_scope_is_valid :: "capability_issue \<Rightarrow> bool" where
  "issue_scope_is_valid q \<longleftrightarrow> ci_request_id q \<noteq> [] \<and> ci_user_session_id q \<noteq> [] \<and> ci_call_id q \<noteq> []
     \<and> length (ci_call_digest q) = 64 \<and> list_all is_ascii_hexdigit (ci_call_digest q)
     \<and> ci_allowed_tools q \<noteq> [] \<and> ci_allowed_effects q \<noteq> [] \<and> ci_target_ids q \<noteq> []
     \<and> [] \<notin> set (ci_allowed_tools q) \<and> [] \<notin> set (ci_target_ids q)"

definition record_of_issue :: "string \<Rightarrow> u64 \<Rightarrow> capability_issue \<Rightarrow> capability_record" where
  "record_of_issue cap now q = \<lparr>cr_reviewed = ci_reviewed q, cr_capability_id = cap, cr_request_id = ci_request_id q,
     cr_user_session_id = ci_user_session_id q, cr_allowed_call_ids = [ci_call_id q], cr_call_digest = ci_call_digest q,
     cr_allowed_tools = ci_allowed_tools q, cr_allowed_effects = ci_allowed_effects q,
     cr_target_ids = ci_target_ids q, cr_not_before = now, cr_expires_at = sat_add now (ci_ttl_ms q),
     cr_revoked = False, cr_uses = 0, cr_max_uses = ci_max_uses q\<rparr>"

definition is_live :: "u64 \<Rightarrow> capability_record \<Rightarrow> bool" where
  "is_live now r \<longleftrightarrow> \<not> cr_revoked r \<and> now < cr_expires_at r \<and> cr_uses r < cr_max_uses r"

definition issue ::
  "keyed_hash \<Rightarrow> string \<Rightarrow> capability_issue \<Rightarrow> u64 \<Rightarrow> capability_store
    \<Rightarrow> (capability_store, capability_error, issued_capability) outcome" where
  "issue hash nonce q now s =
     op_bind (op_check (ensure (issue_scope_is_valid q) InvalidScope) s) (\<lambda>_ s.
     op_bind (op_check (ensure (ci_ttl_ms q \<noteq> 0 \<and> ci_ttl_ms q \<le> MAX_CAPABILITY_TTL_MS) InvalidTtl) s) (\<lambda>_ s.
     op_bind (op_check (ensure (ci_max_uses q \<noteq> 0 \<and> ci_max_uses q \<le> MAX_CAPABILITY_USES) InvalidUseLimit) s) (\<lambda>_ s.
     let cap = capability_id_of hash nonce; s = filter (\<lambda>(_, r). is_live now r) s in
     if length s \<ge> MAX_CAPABILITY_RECORDS then op_err CapabilityUnavailable s
     else op_ok \<lparr>ic_capability_id = cap, ic_expires_at = sat_add now (ci_ttl_ms q)\<rparr>
       (AList.update cap (record_of_issue cap now q) s))))"

definition reviewed_command_of :: "string \<Rightarrow> capability_store \<Rightarrow> capability_error + reviewed_command option" where
  "reviewed_command_of cap s = try_bind (ok_or (map_of s cap) UnknownCapability) (\<lambda>r. Inr (cr_reviewed r))"

definition revoke :: "string \<Rightarrow> capability_store \<Rightarrow> (capability_store, capability_error, unit) outcome" where
  "revoke cap s = op_bind (op_check (ok_or (map_of s cap) UnknownCapability) s) (\<lambda>r s.
     op_ok () (AList.update cap (r\<lparr>cr_revoked := True\<rparr>) s))"

definition consume :: "string \<Rightarrow> u64 \<Rightarrow> capability_store \<Rightarrow> (capability_store, capability_error, unit) outcome" where
  "consume cap now s = op_bind (op_check (ok_or (map_of s cap) UnknownCapability) s) (\<lambda>r s.
     if cr_revoked r then op_err RevokedCapability s
     else if now < cr_not_before r \<or> now \<ge> cr_expires_at r then op_err ExpiredCapability s
     else if cr_uses r \<ge> cr_max_uses r then op_err ExhaustedCapability s
     else op_ok () (AList.update cap (r\<lparr>cr_uses := cr_uses r + 1\<rparr>) s))"

definition proof_is_valid :: "keyed_hash \<Rightarrow> string \<Rightarrow> bool option" where
  "proof_is_valid hash cap = (case strip_prefix ''cap-'' cap of None \<Rightarrow> Some False
     | Some suffix \<Rightarrow> (case split_once (CHR ''-'') suffix of None \<Rightarrow> Some False
       | Some (nonce, claimed) \<Rightarrow>
           if length nonce \<noteq> 32 \<or> length claimed \<noteq> 64 then Some False
           else if \<not> list_all (\<lambda>i. is_char_boundary claimed (2 * i)) [0..<32] then None
           else (case parse_hex claimed of None \<Rightarrow> Some False
             | Some bytes \<Rightarrow> Some (bytes = hash (CAPABILITY_DOMAIN @ nonce)))))"

definition verified_of_record :: "capability_record \<Rightarrow> verified_capability" where
  "verified_of_record r = \<lparr>vc_capability_id = cr_capability_id r, vc_request_id = cr_request_id r,
     vc_user_session_id = cr_user_session_id r, vc_allowed_tools = cr_allowed_tools r,
     vc_allowed_effects = cr_allowed_effects r, vc_target_ids = cr_target_ids r,
     vc_not_before = cr_not_before r, vc_expires_at = cr_expires_at r, vc_revoked = cr_revoked r\<rparr>"

definition verify ::
  "keyed_hash \<Rightarrow> string \<Rightarrow> verify_context \<Rightarrow> u64 \<Rightarrow> capability_store \<Rightarrow> verify_failure + verified_capability" where
  "verify hash cap x now s =
     try_bind (ok_or (proof_is_valid hash cap) ProofPanic) (\<lambda>valid.
     try_bind (ensure valid InvalidProof) (\<lambda>_.
     try_bind (ok_or (map_of s cap) UnknownProof) (\<lambda>r.
     try_bind (ensure (cr_capability_id r = cap \<and> cr_request_id r = vx_request_id x
       \<and> cr_user_session_id r = vx_user_session_id x \<and> vx_call_id x \<in> set (cr_allowed_call_ids r)
       \<and> vx_target_id x \<in> set (cr_target_ids r) \<and> cr_uses r < cr_max_uses r) InvalidProof) (\<lambda>_.
     try_bind (ensure (\<not> cr_revoked r) RevokedProof) (\<lambda>_.
     try_bind (ensure (cr_not_before r \<le> now \<and> now < cr_expires_at r) ExpiredProof) (\<lambda>_.
     Inr (verified_of_record r)))))))"

definition verify_bound_call ::
  "keyed_hash \<Rightarrow> string \<Rightarrow> verify_context \<Rightarrow> string \<Rightarrow> u64 \<Rightarrow> capability_store
    \<Rightarrow> verify_failure + verified_capability" where
  "verify_bound_call hash cap x call_digest now s =
     try_bind (ok_or (map_of s cap) UnknownProof) (\<lambda>r.
     try_bind (ensure (cr_call_digest r = call_digest) InvalidProof) (\<lambda>_.
     verify hash cap x now s))"

definition verify_bound_scope ::
  "keyed_hash \<Rightarrow> string \<Rightarrow> verify_context \<Rightarrow> string \<Rightarrow> string \<Rightarrow> effect_kind \<Rightarrow> u64 \<Rightarrow> capability_store
    \<Rightarrow> verify_failure + verified_capability" where
  "verify_bound_scope hash cap x call_digest tool effect now s =
     try_bind (verify_bound_call hash cap x call_digest now s) (\<lambda>v.
     try_bind (ok_or (map_of s cap) UnknownProof) (\<lambda>r.
     try_bind (ensure (tool \<in> set (cr_allowed_tools r) \<and> effect \<in> set (cr_allowed_effects r)) InvalidProof) (\<lambda>_.
     Inr v)))"

text \<open>The operations that change the store, as one machine.\<close>

datatype (plugins only: code size) cap_op =
    CapIssue string capability_issue u64
  | CapRevoke string
  | CapConsume string u64

definition cap_step :: "keyed_hash \<Rightarrow> capability_store \<Rightarrow> cap_op \<Rightarrow> (capability_store, capability_error, string) outcome" where
  "cap_step hash s x = (case x of
     CapIssue nonce q now \<Rightarrow> op_bind (issue hash nonce q now s) (\<lambda>g s. op_ok (ic_capability_id g) s)
   | CapRevoke cap \<Rightarrow> op_bind (revoke cap s) (\<lambda>_ s. op_ok cap s)
   | CapConsume cap now \<Rightarrow> op_bind (consume cap now s) (\<lambda>_ s. op_ok cap s))"

text \<open>When the uses of a capability were spent, in a sequence of operations.\<close>

fun spent_at :: "keyed_hash \<Rightarrow> string \<Rightarrow> capability_store \<Rightarrow> cap_op list \<Rightarrow> u64 list" where
  "spent_at hash cap s [] = []"
| "spent_at hash cap s (x # xs) =
     (case x of CapConsume c now \<Rightarrow> if c = cap \<and> is_ok (fst (consume c now s)) then [now] else [] | _ \<Rightarrow> [])
     @ spent_at hash cap (snd (cap_step hash s x)) xs"

fun nonce_of :: "cap_op \<Rightarrow> string option" where
  "nonce_of (CapIssue nonce _ _) = Some nonce"
| "nonce_of _ = None"

subsection \<open>Hexadecimal round trip\<close>

lemma digit_value_hex: "n < 16 \<Longrightarrow> digit_value (hex_digit n) = Some n"
  by (auto simp: hex_digit_def digit_value_def byte_of_def Let_def)

lemma byte_of_hex_digit: "n < 16 \<Longrightarrow> byte_of (hex_digit n) = (if n < 10 then 48 + n else 87 + n)"
  by (simp add: hex_digit_def byte_of_def)

lemma hex_digit_low: "n < 16 \<Longrightarrow> byte_of (hex_digit n) < 0x80 \<and> hex_digit n \<noteq> CHR ''-'' \<and> hex_digit n \<noteq> CHR ''+''"
  using byte_of_hex_digit [of n] by (auto simp: byte_of_def split: if_splits)

lemma nibbles: fixes b :: u8 shows "unat b div 16 < 16" "unat b mod 16 < 16"
  using unsigned_less [of b, where ?'a = nat] by auto

lemma parse_hex_byte: "parse_hex_pair (hex_digit (unat b div 16)) (hex_digit (unat b mod 16)) = Some b"
  using nibbles [of b] by (simp add: parse_hex_pair_def digit_value_hex hex_digit_low del: of_nat_add)

lemma parse_hex_encode: "parse_hex (hex_encode bs) = Some bs"
  by (induction bs) (simp_all add: hex_encode_def hex_byte_def parse_hex_byte)

lemma length_hex_encode [simp]: "length (hex_encode bs) = 2 * length bs"
  by (induction bs) (simp_all add: hex_encode_def hex_byte_def)

lemma hex_encode_low: "c \<in> set (hex_encode bs) \<Longrightarrow> byte_of c < 0x80 \<and> c \<noteq> CHR ''-''"
  using nibbles by (auto simp: hex_encode_def hex_byte_def hex_digit_low)

lemma split_once_append: "c \<notin> set xs \<Longrightarrow> split_once c (xs @ c # ys) = Some (xs, ys)"
  by (induction xs) auto

subsection \<open>The store\<close>

definition grant_ok :: "string \<Rightarrow> capability_record \<Rightarrow> bool" where
  "grant_ok cap r \<longleftrightarrow> cr_capability_id r = cap \<and> cr_uses r \<le> cr_max_uses r
     \<and> 1 \<le> cr_max_uses r \<and> cr_max_uses r \<le> MAX_CAPABILITY_USES
     \<and> unat (cr_expires_at r) \<le> unat (cr_not_before r) + unat MAX_CAPABILITY_TTL_MS
     \<and> cr_allowed_call_ids r \<noteq> [] \<and> length (cr_call_digest r) = 64
     \<and> cr_allowed_tools r \<noteq> [] \<and> cr_allowed_effects r \<noteq> [] \<and> cr_target_ids r \<noteq> []"

definition store_inv :: "capability_store \<Rightarrow> bool" where
  "store_inv s \<longleftrightarrow> distinct (map fst s) \<and> length s \<le> MAX_CAPABILITY_RECORDS \<and> (\<forall>(cap, r)\<in>set s. grant_ok cap r)"

lemma distinct_keys_filter: "distinct (map fst s) \<Longrightarrow> distinct (map fst (filter P s))"
  by (induction s) auto

lemma map_of_filter_records:
  "distinct (map fst s) \<Longrightarrow> map_of (filter (\<lambda>(_, r). P r) s) k
     = (case map_of s k of None \<Rightarrow> None | Some r \<Rightarrow> if P r then Some r else None)"
  by (induction s) (auto simp: map_of_eq_None_iff split: option.splits if_splits)

lemma length_alist_update: "length (AList.update k v s) = (if k \<in> fst ` set s then length s else Suc (length s))"
  by (induction s) auto

lemma set_alist_update_keys: "(c, r) \<in> set (AList.update k v s) \<Longrightarrow> (c, r) = (k, v) \<or> (c, r) \<in> set s"
  by (induction s) (auto split: if_splits)

lemma store_inv_update:
  "store_inv s \<Longrightarrow> grant_ok cap r \<Longrightarrow> length (AList.update cap r s) \<le> MAX_CAPABILITY_RECORDS
    \<Longrightarrow> store_inv (AList.update cap r s)"
  unfolding store_inv_def by (auto simp: distinct_update dest!: set_alist_update_keys)

lemma store_inv_filter: "store_inv s \<Longrightarrow> store_inv (filter P s)"
  unfolding store_inv_def by (auto simp: distinct_keys_filter intro: order_trans [OF length_filter_le])

lemma store_inv_record: "store_inv s \<Longrightarrow> map_of s cap = Some r \<Longrightarrow> grant_ok cap r"
  by (auto simp: store_inv_def dest: map_of_SomeD)

lemma record_ok_touch:
  "grant_ok cap r \<Longrightarrow> grant_ok cap (r\<lparr>cr_revoked := b\<rparr>)"
  "grant_ok cap r \<Longrightarrow> cr_uses r < cr_max_uses r \<Longrightarrow> grant_ok cap (r\<lparr>cr_uses := cr_uses r + 1\<rparr>)"
  by (auto simp: grant_ok_def inc_le)

lemma record_ok_issue:
  assumes "issue_scope_is_valid q" "ci_ttl_ms q \<le> MAX_CAPABILITY_TTL_MS" "ci_max_uses q \<noteq> 0" "ci_max_uses q \<le> MAX_CAPABILITY_USES"
  shows "grant_ok cap (record_of_issue cap now q)"
  using assms by (auto simp: grant_ok_def record_of_issue_def issue_scope_is_valid_def unat_sat_add
      word_le_nat_alt MAX_CAPABILITY_TTL_MS_def unat_eq_zero Suc_le_eq unat_gt_0)

lemma issue_leaves: "store_inv s \<Longrightarrow> leaves store_inv (issue hash nonce q now s)"
  unfolding issue_def Let_def
  by (auto simp: res_simps length_alist_update store_inv_filter
      intro!: leaves_bind store_inv_update record_ok_issue)

lemma store_inv_touch:
  assumes "store_inv s" "map_of s cap = Some r" "grant_ok cap r'"
  shows "store_inv (AList.update cap r' s)"
proof -
  have "cap \<in> fst ` set s" using assms(2) by (metis domI dom_map_of_conv_image_fst)
  with assms show ?thesis by (intro store_inv_update) (auto simp: length_alist_update store_inv_def)
qed

lemma revoke_leaves: "store_inv s \<Longrightarrow> leaves store_inv (revoke cap s)"
  unfolding revoke_def
  by (auto simp: res_simps intro!: leaves_bind dest: store_inv_record
      elim!: store_inv_touch [OF _ _ record_ok_touch(1)])

lemma consume_leaves: "store_inv s \<Longrightarrow> leaves store_inv (consume cap now s)"
  unfolding consume_def
  by (auto simp: res_simps not_le intro!: leaves_bind dest: store_inv_record
      elim!: store_inv_touch [OF _ _ record_ok_touch(2)])

text \<open>The store keeps its invariant whatever is asked of it.\<close>

interpretation capability_machine: effect_machine "cap_step hash" store_inv for hash
proof unfold_locales
  fix s x assume "store_inv s"
  then show "leaves store_inv (cap_step hash s x)"
    by (cases x) (auto simp: cap_step_def intro!: leaves_bind issue_leaves revoke_leaves consume_leaves)
qed

subsection \<open>Verification\<close>

lemma sign_nonce_ascii: "c \<in> set (sign_nonce hash nonce) \<Longrightarrow> byte_of c < 0x80"
  unfolding sign_nonce_def by (drule hex_encode_low) simp

lemma issued_proof_is_valid:
  assumes "length nonce = 32" "CHR ''-'' \<notin> set nonce" "length (hash (CAPABILITY_DOMAIN @ nonce)) = 32"
  shows "proof_is_valid hash (capability_id_of hash nonce) = Some True"
proof -
  have len: "length (sign_nonce hash nonce) = 64" using assms(3) by (simp add: sign_nonce_def)
  have "list_all (\<lambda>i. is_char_boundary (sign_nonce hash nonce) (2 * i)) [0..<32]"
    using sign_nonce_ascii [of _ hash nonce] len
    by (auto simp: list_all_iff is_char_boundary_def is_continuation_def not_le [symmetric])
  with assms len show ?thesis
    by (simp add: proof_is_valid_def capability_id_of_def strip_prefix_def split_once_append
        sign_nonce_def parse_hex_encode)
qed

lemma verifyD:
  assumes "verify hash cap x now s = Inr v"
  shows "\<exists>r. map_of s cap = Some r \<and> v = verified_of_record r \<and> cr_capability_id r = cap
    \<and> cr_request_id r = vx_request_id x \<and> cr_user_session_id r = vx_user_session_id x
    \<and> vx_call_id x \<in> set (cr_allowed_call_ids r) \<and> vx_target_id x \<in> set (cr_target_ids r)
    \<and> cr_uses r < cr_max_uses r \<and> \<not> cr_revoked r \<and> cr_not_before r \<le> now \<and> now < cr_expires_at r"
  using assms unfolding verify_def by (auto simp: res_simps)

lemma verify_bound_callD:
  assumes "verify_bound_call hash cap x d now s = Inr v"
  shows "\<exists>r. map_of s cap = Some r \<and> cr_call_digest r = d \<and> verify hash cap x now s = Inr v"
  using assms unfolding verify_bound_call_def by (auto simp: res_simps)

lemma verify_bound_scopeD:
  assumes "verify_bound_scope hash cap x d tool effect now s = Inr v"
  shows "verify_bound_call hash cap x d now s = Inr v \<and> tool \<in> set (vc_allowed_tools v)
    \<and> effect \<in> set (vc_allowed_effects v)"
proof -
  from assms obtain r where call: "verify_bound_call hash cap x d now s = Inr v" and r: "map_of s cap = Some r"
    and allowed: "tool \<in> set (cr_allowed_tools r)" "effect \<in> set (cr_allowed_effects r)"
    unfolding verify_bound_scope_def by (auto simp: res_simps)
  from verify_bound_callD [OF call] obtain r' where "map_of s cap = Some r'" "v = verified_of_record r'"
    by (auto dest: verifyD)
  with call r allowed show ?thesis by (simp add: verified_of_record_def)
qed

subsection \<open>The records after an operation\<close>

lemma issueD:
  assumes "issue hash nonce q now s = (Inr g, s')"
  shows "ic_capability_id g = capability_id_of hash nonce \<and> ic_expires_at g = sat_add now (ci_ttl_ms q)
    \<and> issue_scope_is_valid q \<and> ci_ttl_ms q \<noteq> 0 \<and> ci_ttl_ms q \<le> MAX_CAPABILITY_TTL_MS
    \<and> ci_max_uses q \<noteq> 0 \<and> ci_max_uses q \<le> MAX_CAPABILITY_USES
    \<and> s' = AList.update (capability_id_of hash nonce) (record_of_issue (capability_id_of hash nonce) now q)
        (filter (\<lambda>(_, r). is_live now r) s)"
  using assms unfolding issue_def Let_def by (auto simp: res_simps split: if_splits)

lemma issue_keeps:
  assumes "store_inv s" "k \<noteq> capability_id_of hash nonce"
    and "map_of (snd (issue hash nonce q now s)) k = Some r"
  shows "map_of s k = Some r"
proof -
  have "distinct (map fst s)" using assms(1) by (simp add: store_inv_def)
  with assms(2,3) show ?thesis
    unfolding issue_def Let_def ensure_def
    by (auto simp: map_of_filter_records update_conv' snd_outcome split: if_splits option.splits)
qed

lemma consumeD:
  assumes "consume cap now s = (Inr a, s')"
  shows "\<exists>r. map_of s cap = Some r \<and> \<not> cr_revoked r \<and> cr_not_before r \<le> now \<and> now < cr_expires_at r
    \<and> cr_uses r < cr_max_uses r \<and> map_of s' = (map_of s)(cap \<mapsto> r\<lparr>cr_uses := cr_uses r + 1\<rparr>)"
  using assms unfolding consume_def by (auto simp: res_simps update_conv' split: if_splits)

lemma consume_refused: "consume cap now s = (Inl x, s') \<Longrightarrow> s' = s"
  unfolding consume_def op_bind_def op_check_def op_ok_def op_err_def by (auto split: sum.splits if_splits)

lemma revokeD: "revoke cap s = (res, s') \<Longrightarrow>
    map_of s' = (case map_of s cap of None \<Rightarrow> map_of s | Some r \<Rightarrow> (map_of s)(cap \<mapsto> r\<lparr>cr_revoked := True\<rparr>))"
  unfolding revoke_def by (auto simp: ok_or_def update_conv' op_ok_def op_check_def op_err_def split: option.splits)

subsection \<open>What a capability is good for\<close>

definition uses_left :: "capability_store \<Rightarrow> string \<Rightarrow> nat" where
  "uses_left s cap = (case map_of s cap of None \<Rightarrow> 0
     | Some r \<Rightarrow> if cr_revoked r then 0 else unat (cr_max_uses r) - unat (cr_uses r))"

lemma next_use: "cr_uses r < cr_max_uses r \<Longrightarrow> unat (cr_uses r + 1) = Suc (unat (cr_uses r))"
  using unsigned_less [of "cr_max_uses r", where ?'a = nat] by (simp add: word_less_nat_alt unat_word_ariths)

text \<open>The record of a capability after a step that issues no other one under its id.\<close>

lemma cap_step_record:
  assumes "store_inv s" "\<And>n. nonce_of x = Some n \<Longrightarrow> capability_id_of hash n \<noteq> cap"
    and "map_of (snd (cap_step hash s x)) cap = Some r'"
  shows "\<exists>r. map_of s cap = Some r \<and> cr_not_before r' = cr_not_before r \<and> cr_expires_at r' = cr_expires_at r
    \<and> cr_max_uses r' = cr_max_uses r \<and> (cr_revoked r \<longrightarrow> cr_revoked r') \<and> unat (cr_uses r) \<le> unat (cr_uses r')"
proof (cases x)
  case (CapIssue n q now)
  with assms(2) have "cap \<noteq> capability_id_of hash n" by force
  moreover have "snd (cap_step hash s x) = snd (issue hash n q now s)"
    unfolding CapIssue cap_step_def by (cases "issue hash n q now s"; cases "fst (issue hash n q now s)") (auto simp: op_ok_def)
  ultimately show ?thesis using issue_keeps [OF assms(1)] assms(3) by force
next
  case (CapRevoke c)
  have "snd (cap_step hash s x) = snd (revoke c s)"
    unfolding CapRevoke cap_step_def by (cases "revoke c s"; cases "fst (revoke c s)") (auto simp: op_ok_def)
  then show ?thesis using assms(3) revokeD [of c s "fst (revoke c s)" "snd (revoke c s)"]
    by (auto split: option.splits if_splits)
next
  case (CapConsume c now)
  have eq: "snd (cap_step hash s x) = snd (consume c now s)"
    unfolding CapConsume cap_step_def by (cases "consume c now s"; cases "fst (consume c now s)") (auto simp: op_ok_def)
  show ?thesis
  proof (cases "fst (consume c now s)")
    case (Inl e)
    then have "snd (consume c now s) = s" by (metis consume_refused prod.collapse)
    with eq assms(3) show ?thesis by simp
  next
    case (Inr a)
    with consumeD [of c now s a "snd (consume c now s)"] eq assms(3) show ?thesis
      by (auto simp: prod_eq_iff next_use split: if_splits)
  qed
qed

lemma consume_uses:
  assumes "store_inv s" "consume cap now s = (Inr a, s')"
  shows "uses_left s cap = Suc (uses_left s' cap)"
proof -
  from consumeD [OF assms(2)] obtain r where r: "map_of s cap = Some r" "\<not> cr_revoked r" "cr_uses r < cr_max_uses r"
    "map_of s' = (map_of s)(cap \<mapsto> r\<lparr>cr_uses := cr_uses r + 1\<rparr>)" by blast
  from r(3) have lt: "unat (cr_uses r) < unat (cr_max_uses r)" by (simp add: word_less_nat_alt)
  with r lt show ?thesis by (simp add: uses_left_def next_use)
qed

lemma uses_left_step:
  assumes "store_inv s" "\<And>n. nonce_of x = Some n \<Longrightarrow> capability_id_of hash n \<noteq> cap"
  shows "uses_left (snd (cap_step hash s x)) cap \<le> uses_left s cap"
  using cap_step_record [OF assms] by (fastforce simp: uses_left_def split: option.splits)

lemma cap_step_consume: "snd (cap_step hash s (CapConsume c now)) = snd (consume c now s)"
  unfolding cap_step_def by (cases "consume c now s"; cases "fst (consume c now s)") (auto simp: op_ok_def)

lemma spent_bound:
  assumes "store_inv s" "\<And>x n. x \<in> set ops \<Longrightarrow> nonce_of x = Some n \<Longrightarrow> capability_id_of hash n \<noteq> cap"
  shows "length (spent_at hash cap s ops) \<le> uses_left s cap"
  using assms
proof (induction ops arbitrary: s)
  case (Cons x xs)
  let ?s = "snd (cap_step hash s x)"
  have inv: "store_inv ?s" using capability_machine.step_leaves [OF Cons.prems(1)] by (simp add: leaves_def)
  have rest: "length (spent_at hash cap ?s xs) \<le> uses_left ?s cap"
    by (rule Cons.IH [OF inv]) (use Cons.prems(2) in auto)
  show ?case
  proof (cases "\<exists>now. x = CapConsume cap now \<and> is_ok (fst (consume cap now s))")
    case True
    then obtain now a where x: "x = CapConsume cap now" and ok: "consume cap now s = (Inr a, snd (consume cap now s))"
      by (auto simp: is_ok_iff prod_eq_iff)
    from consume_uses [OF Cons.prems(1) ok] rest show ?thesis
      using True by (simp add: x cap_step_consume)
  next
    case False
    then have "spent_at hash cap s (x # xs) = spent_at hash cap ?s xs" by (auto split: cap_op.splits)
    with rest uses_left_step [OF Cons.prems(1), of x hash cap] Cons.prems(2) show ?thesis by fastforce
  qed
qed simp

lemma spent_in_window:
  assumes "store_inv s" "\<And>x n. x \<in> set ops \<Longrightarrow> nonce_of x = Some n \<Longrightarrow> capability_id_of hash n \<noteq> cap"
    and "t \<in> set (spent_at hash cap s ops)"
  shows "\<exists>r. map_of s cap = Some r \<and> cr_not_before r \<le> t \<and> t < cr_expires_at r"
  using assms
proof (induction ops arbitrary: s)
  case (Cons x xs)
  let ?s = "snd (cap_step hash s x)"
  have inv: "store_inv ?s" using capability_machine.step_leaves [OF Cons.prems(1)] by (simp add: leaves_def)
  show ?case
  proof (cases "t \<in> set (spent_at hash cap ?s xs)")
    case True
    have "\<exists>r. map_of ?s cap = Some r \<and> cr_not_before r \<le> t \<and> t < cr_expires_at r"
      by (rule Cons.IH [OF inv _ True]) (use Cons.prems(2) in auto)
    with cap_step_record [OF Cons.prems(1), of x hash cap] Cons.prems(2) show ?thesis by fastforce
  next
    case False
    with Cons.prems(3) obtain a where "x = CapConsume cap t" "consume cap t s = (Inr a, snd (consume cap t s))"
      by (auto simp: is_ok_iff prod_eq_iff split: cap_op.splits if_splits)
    with consumeD show ?thesis by blast
  qed
qed simp

lemma store_inv_empty: "store_inv []"
  by (simp add: store_inv_def MAX_CAPABILITY_RECORDS_def)

lemma spent_at_append:
  "spent_at hash cap s (xs @ ys) = spent_at hash cap s xs @ spent_at hash cap (run_all (cap_step hash) s xs) ys"
  by (induction xs arbitrary: s) simp_all

lemma capability_id_inj: "length n = length m \<Longrightarrow> capability_id_of hash n = capability_id_of hash m \<longleftrightarrow> n = m"
  by (auto simp: capability_id_of_def)

lemma uses_left_revoked: "uses_left (snd (cap_step hash s (CapRevoke cap))) cap = 0"
proof -
  have "snd (cap_step hash s (CapRevoke cap)) = snd (revoke cap s)"
    unfolding cap_step_def by (cases "revoke cap s"; cases "fst (revoke cap s)") (auto simp: op_ok_def)
  then show ?thesis using revokeD [of cap s "fst (revoke cap s)" "snd (revoke cap s)"]
    by (auto simp: uses_left_def split: option.splits)
qed

lemma store_inv_reachable: "store_inv (run_all (cap_step hash) [] before)"
  by (rule capability_machine.run_leaves [OF store_inv_empty])

lemma issue_store_inv: "issue hash nonce q now s = (res, s') \<Longrightarrow> store_inv s \<Longrightarrow> store_inv s'"
  using issue_leaves [of s hash nonce q now] by (simp add: leaves_def)

text \<open>
  C5. A capability authorises no more than it was granted for: whatever else happens to the store
  afterwards (issues under other nonces, revocations, expiry and pruning, uses of other ids),
  the uses it is spent for are at most the granted number, all lie between its issue and its expiry
  five minutes later at most, and none comes after its revocation.
\<close>

theorem capability_is_spent_within_its_grant:
  assumes "issue hash nonce q now (run_all (cap_step hash) [] before) = (Inr g, s)"
    and "length nonce = 32" "\<And>x n. x \<in> set ops \<Longrightarrow> nonce_of x = Some n \<Longrightarrow> length n = 32 \<and> n \<noteq> nonce"
  shows "length (spent_at hash (ic_capability_id g) s ops) \<le> unat (ci_max_uses q)
    \<and> (\<forall>t\<in>set (spent_at hash (ic_capability_id g) s ops).
        now \<le> t \<and> t < ic_expires_at g \<and> unat t < unat now + 300000)
    \<and> (\<forall>xs ys. ops = xs @ CapRevoke (ic_capability_id g) # ys \<longrightarrow>
        spent_at hash (ic_capability_id g) s ops = spent_at hash (ic_capability_id g) s xs)"
proof (intro conjI ballI allI impI)
  let ?cap = "ic_capability_id g"
  have inv: "store_inv s" by (rule issue_store_inv [OF assms(1) store_inv_reachable])
  note issued = issueD [OF assms(1)]
  have fresh: "capability_id_of hash n \<noteq> ?cap" if "x \<in> set ops" "nonce_of x = Some n" for x n
    using assms(2,3) that issued by (metis capability_id_inj)
  have rec: "map_of s ?cap = Some (record_of_issue ?cap now q)" using issued by (simp add: update_conv')
  show "length (spent_at hash ?cap s ops) \<le> unat (ci_max_uses q)"
    using spent_bound [OF inv fresh] rec by (fastforce simp: uses_left_def record_of_issue_def)
  fix t assume t: "t \<in> set (spent_at hash ?cap s ops)"
  from spent_in_window [OF inv fresh t] rec have "now \<le> t" "t < sat_add now (ci_ttl_ms q)"
    by (auto simp: record_of_issue_def)
  with issued show "now \<le> t" "t < ic_expires_at g" "unat t < unat now + 300000"
    by (auto simp: word_less_nat_alt word_le_nat_alt unat_sat_add MAX_CAPABILITY_TTL_MS_def)
next
  let ?cap = "ic_capability_id g"
  fix xs ys assume ops: "ops = xs @ CapRevoke ?cap # ys"
  have inv: "store_inv (run_all (cap_step hash) s xs)" for xs
    by (rule capability_machine.run_leaves) (rule issue_store_inv [OF assms(1) store_inv_reachable])
  let ?s = "snd (cap_step hash (run_all (cap_step hash) s xs) (CapRevoke ?cap))"
  have fresh: "capability_id_of hash n \<noteq> ?cap" if "x \<in> set ys" "nonce_of x = Some n" for x n
    using assms(2) assms(3) [of x n] that issueD [OF assms(1)] ops by (metis capability_id_inj in_set_conv_decomp list.set_intros(2) Un_iff set_append)
  have "length (spent_at hash ?cap ?s ys) \<le> uses_left ?s ?cap"
    by (rule spent_bound) (use inv [of "xs @ [CapRevoke ?cap]"] fresh in \<open>auto simp: run_all_append\<close>)
  then have "spent_at hash ?cap ?s ys = []" by (simp add: uses_left_revoked)
  then show "spent_at hash ?cap s ops = spent_at hash ?cap s xs" by (simp add: ops spent_at_append)
qed

definition sample_hash :: keyed_hash where "sample_hash m = replicate 32 7"

definition sample_issue :: capability_issue where
  "sample_issue = \<lparr>ci_reviewed = None, ci_request_id = ''req-1'', ci_user_session_id = ''user-1'', ci_call_id = ''call-1'',
     ci_call_digest = replicate 64 (CHR ''a''), ci_allowed_tools = [''exec_command''], ci_allowed_effects = [ReadOnlyEffect],
     ci_target_ids = [''local-1''], ci_ttl_ms = 1000, ci_max_uses = 2\<rparr>"

lemma sample_issue_granted:
  "issue hash nonce sample_issue 10 [] = (Inr \<lparr>ic_capability_id = capability_id_of hash nonce, ic_expires_at = 1010\<rparr>,
     [(capability_id_of hash nonce, record_of_issue (capability_id_of hash nonce) 10 sample_issue)])"
proof -
  have "issue_scope_is_valid sample_issue" by code_simp
  moreover have "ci_ttl_ms sample_issue = 1000" "ci_max_uses sample_issue = 2" "sat_add 10 (1000 :: u64) = 1010"
    by (simp_all add: sample_issue_def sat_add_def)
  ultimately show ?thesis
    by (simp add: issue_def ensure_def Let_def MAX_CAPABILITY_TTL_MS_def MAX_CAPABILITY_USES_def
        MAX_CAPABILITY_RECORDS_def op_ok_def)
qed

lemma sample_spent:
  "spent_at hash cap [(cap, record_of_issue cap 10 sample_issue)]
     [CapConsume cap 20, CapConsume cap 2000, CapRevoke cap, CapConsume cap 30] = [20]"
  by (simp add: record_of_issue_def sample_issue_def consume_def revoke_def cap_step_def ok_or_def op_ok_def op_err_def
      sat_add_def)

lemma capability_is_spent_within_its_grant_witness:
  "let nonce = replicate 32 (CHR ''0''); cap = capability_id_of sample_hash nonce;
     s = snd (issue sample_hash nonce sample_issue 10 []);
     ops = [CapConsume cap 20, CapConsume cap 2000, CapRevoke cap, CapConsume cap 30] in
   length (spent_at sample_hash cap s ops) = 1 \<and> spent_at sample_hash cap s ops = spent_at sample_hash cap s (take 2 ops)"
proof -
  let ?n = "replicate 32 (CHR ''0'')" let ?cap = "capability_id_of sample_hash ?n"
  let ?s = "snd (issue sample_hash ?n sample_issue 10 [])"
  let ?xs = "[CapConsume ?cap 20, CapConsume ?cap 2000]"
  let ?ops = "?xs @ CapRevoke ?cap # [CapConsume ?cap 30]"
  have g: "issue sample_hash ?n sample_issue 10 (run_all (cap_step sample_hash) [] [])
      = (Inr \<lparr>ic_capability_id = ?cap, ic_expires_at = 1010\<rparr>, ?s)"
    by (simp add: sample_issue_granted)
  have "length (spent_at sample_hash ?cap ?s ?ops) = 1"
    unfolding sample_issue_granted snd_conv append.simps sample_spent by simp
  moreover have "length n = 32 \<and> n \<noteq> ?n" if "x \<in> set ?ops" "nonce_of x = Some n" for x n
    using that by auto
  from capability_is_spent_within_its_grant [OF g _ this, THEN conjunct2, THEN conjunct2, THEN spec, THEN spec]
  have "spent_at sample_hash ?cap ?s ?ops = spent_at sample_hash ?cap ?s ?xs"
    by (simp only: issued_capability.simps length_replicate simp_thms)
  ultimately show ?thesis by (simp add: Let_def)
qed

end
