(* ===== verification/Json_Value.thy ===== *)
theory Json_Value
  imports Wire_Types Rust_Text
begin

text \<open>
  The operations of \<open>serde\_json::Value\<close> that several components use: numbers as doubles, the casts,
  equality, and JSON pointers. An object is the list of its entries in the order of their keys, which
  is how the library keeps them.
\<close>

subsection \<open>Numbers\<close>

text \<open>\<open>as f64\<close> of an integer: the nearest double, ties to even, as its bit pattern.\<close>

fun bit_size :: "nat \<Rightarrow> nat" where
  "bit_size n = (if n = 0 then 0 else Suc (bit_size (n div 2)))"

declare bit_size.simps [simp del]

definition f64_of_nat :: "nat \<Rightarrow> f64" where
  "f64_of_nat n =
     (if n = 0 then 0
      else let e = bit_size n - 1;
           m = (if e \<le> 52 then n * 2 ^ (52 - e)
                else let k = e - 52; q = n div 2 ^ k; r = n mod 2 ^ k; half = 2 ^ (k - 1)
                  in if r > half \<or> r = half \<and> odd q then q + 1 else q)
        in of_nat ((e + 1023) * 2 ^ 52 + (m - 2 ^ 52)))"

definition F64_SIGN :: nat where "F64_SIGN = 2 ^ 63"

definition number_as_f64 :: "json_number \<Rightarrow> f64" where
  "number_as_f64 n = (case n of
     PosInt k \<Rightarrow> f64_of_nat (unat k)
   | NegInt k \<Rightarrow> of_nat (F64_SIGN + unat (f64_of_nat (2 ^ 64 - unat k)))
   | Float x \<Rightarrow> x)"

text \<open>The order of the doubles that a JSON number can hold: finite ones, with one zero.\<close>

definition f64_key :: "f64 \<Rightarrow> int" where
  "f64_key x = (if unat x < F64_SIGN then int (unat x) else - int (unat x - F64_SIGN))"

definition f64_less :: "f64 \<Rightarrow> f64 \<Rightarrow> bool" where
  "f64_less x y \<longleftrightarrow> f64_key x < f64_key y"

definition json_as_f64 :: "json \<Rightarrow> f64 option" where
  "json_as_f64 v = (case v of JNumber n \<Rightarrow> Some (number_as_f64 n) | _ \<Rightarrow> None)"

definition json_as_object :: "json \<Rightarrow> (string \<times> json) list option" where
  "json_as_object v = (case v of JObject kvs \<Rightarrow> Some kvs | _ \<Rightarrow> None)"

definition json_as_array :: "json \<Rightarrow> json list option" where
  "json_as_array v = (case v of JArray vs \<Rightarrow> Some vs | _ \<Rightarrow> None)"

text \<open>The equality of JSON values: the order of the entries of an object does not count.\<close>

fun json_eq :: "json \<Rightarrow> json \<Rightarrow> bool" where
  "json_eq JNull w = (w = JNull)"
| "json_eq (JBool b) w = (w = JBool b)"
| "json_eq (JNumber n) w = (case w of
     JNumber m \<Rightarrow> (case (n, m) of (Float x, Float y) \<Rightarrow> f64_key x = f64_key y | _ \<Rightarrow> n = m)
   | _ \<Rightarrow> False)"
| "json_eq (JString s) w = (w = JString s)"
| "json_eq (JArray vs) w = (case w of JArray ws \<Rightarrow> list_all2 json_eq vs ws | _ \<Rightarrow> False)"
| "json_eq (JObject kvs) w = (case w of
     JObject kws \<Rightarrow> length kvs = length kws
       \<and> list_all (\<lambda>(k, v). case map_of kws k of None \<Rightarrow> False | Some u \<Rightarrow> json_eq v u) kvs
   | _ \<Rightarrow> False)"

text \<open>\<open>Value::pointer\<close>.\<close>

fun unescape_pointer1 :: "string \<Rightarrow> string" where
  "unescape_pointer1 (a # b # s) = (if a = CHR ''~'' \<and> b = CHR ''1'' then CHR ''/'' # unescape_pointer1 s
     else a # unescape_pointer1 (b # s))"
| "unescape_pointer1 s = s"

fun unescape_pointer0 :: "string \<Rightarrow> string" where
  "unescape_pointer0 (a # b # s) = (if a = CHR ''~'' \<and> b = CHR ''0'' then CHR ''~'' # unescape_pointer0 s
     else a # unescape_pointer0 (b # s))"
| "unescape_pointer0 s = s"

definition parse_index :: "string \<Rightarrow> nat option" where
  "parse_index s =
     (if s = [] \<or> \<not> list_all is_ascii_digit s \<or> hd s = CHR ''0'' \<and> length s \<noteq> 1 then None
      else let n = foldl (\<lambda>a c. 10 * a + (byte_of c - 48)) 0 s in if n < 2 ^ 64 then Some n else None)"

definition pointer_step :: "json \<Rightarrow> string \<Rightarrow> json option" where
  "pointer_step v token = (case v of
     JObject kvs \<Rightarrow> map_of kvs token
   | JArray vs \<Rightarrow> Option.bind (parse_index token) (\<lambda>i. if i < length vs then Some (vs ! i) else None)
   | _ \<Rightarrow> None)"

definition json_pointer :: "json \<Rightarrow> string \<Rightarrow> json option" where
  "json_pointer v p =
     (if p = [] then Some v
      else if hd p \<noteq> CHR ''/'' then None
      else foldl (\<lambda>t token. Option.bind t (\<lambda>u. pointer_step u token)) (Some v)
        (map (unescape_pointer0 \<circ> unescape_pointer1) (tl (split_on (CHR ''/'') p))))"

end
