(* ===== verification/Mcp.thy ===== *)
theory Mcp
  imports Capability Json_Value
begin

text \<open>
  The stdio MCP tools (native/mcp.rs): the configuration file and its checks, the policy of a
  tool, the schema check of the arguments, the child's environment, and the conversation with
  the server, whose messages and clock are the arguments. What the file system says, the JSON
  decoder and encoder and the redaction are parameters.
\<close>

subsection \<open>The configuration\<close>

datatype (plugins only: code size) mcp_tool_policy = McpDisabled | McpReadOnly | McpExternalWrite

record mcp_credential_reference =
  mr_env :: string
  mr_credential_id :: string

record mcp_server =
  ms_id :: string
  ms_command :: string
  ms_args :: "string list"
  ms_cwd :: "string option"
  ms_enabled :: bool
  ms_credential_refs :: "mcp_credential_reference list"
  ms_tool_policies :: "(string \<times> mcp_tool_policy) list"

record mcp_config =
  mf_version :: u8
  mf_servers :: "mcp_server list"

datatype (plugins only: code size) mcp_error =
    McpIdentifier | McpWorkspace | McpWorkspaceRoot | McpConfigFile | McpConfigBound | McpConfigInvalid
  | McpConfigVersion | McpDuplicateServer | McpNotConfigured | McpServerDisabled | McpToolDisabled
  | McpCommandBounds | McpCwd | McpCredentialBinding | McpArguments | McpNoTools | McpTooManyTools
  | McpDescriptor | McpDuplicateTool | McpSchemaBound | McpSchemaDepth | McpSchemaShape
  | McpRejected string | McpReference | McpCancelled | McpTimeout | McpWrite | McpWriterGone | McpRead
  | McpClosed | McpLineBound | McpServerError | McpNoResult | McpNotAdvertised | McpExecutable
  | McpCredential | McpSpawn

datatype (plugins only: code size) file_kind = KindFile | KindDirectory | KindSymlink | KindOther

text \<open>
  What the operating system and the libraries say: \<open>symlink\_metadata\<close> (kind and length),
  \<open>canonicalize\<close>, \<open>is\_dir\<close>, the first bytes of a file, and the decoded configuration.
\<close>

record mcp_env =
  me_lstat :: "string \<Rightarrow> (file_kind \<times> nat) option"
  me_canonical :: "string \<Rightarrow> string option"
  me_is_dir :: "string \<Rightarrow> bool"
  me_read :: "string \<Rightarrow> string option"
  me_config :: "string \<Rightarrow> mcp_config option"
  me_json :: "string \<Rightarrow> json option"
  me_size :: "json \<Rightarrow> nat"
  me_redact :: "json \<Rightarrow> json"
  me_credential :: "string \<Rightarrow> mcp_error + string option"

definition MAX_CONFIG_BYTES :: nat where "MAX_CONFIG_BYTES = 256 * 1024"
definition MAX_SERVERS :: nat where "MAX_SERVERS = 16"
definition MAX_TOOLS :: nat where "MAX_TOOLS = 256"
definition MAX_SCHEMA_BYTES :: nat where "MAX_SCHEMA_BYTES = 128 * 1024"
definition MAX_ARGUMENT_BYTES :: nat where "MAX_ARGUMENT_BYTES = 64 * 1024"
definition MAX_RESULT_BYTES :: nat where "MAX_RESULT_BYTES = 256 * 1024"

definition mcp_identifier :: "string \<Rightarrow> mcp_error + unit" where
  "mcp_identifier v = ensure (v \<noteq> [] \<and> length v \<le> 128
     \<and> list_all (\<lambda>c. is_ascii_alphanumeric c \<or> c \<in> set ''-_.:/'') v) McpIdentifier"

definition canonical_workspace_root :: "mcp_env \<Rightarrow> string \<Rightarrow> mcp_error + string" where
  "canonical_workspace_root env root =
     try_bind (ok_or (me_lstat env root) McpWorkspace) (\<lambda>(kind, _).
     try_bind (ensure (kind = KindDirectory) McpWorkspace) (\<lambda>_.
     try_bind (ok_or (me_canonical env root) McpWorkspace) (\<lambda>r.
     try_bind (ensure (has_parent r) McpWorkspaceRoot) (\<lambda>_. Inr r))))"

definition has_line_break :: "string \<Rightarrow> bool" where
  "has_line_break s \<longleftrightarrow> list_ex (\<lambda>c. c \<in> {CHR 0x00, CARRIAGE_RETURN, NEWLINE}) s"

fun validate_credential_refs :: "string list \<Rightarrow> mcp_credential_reference list \<Rightarrow> mcp_error + unit" where
  "validate_credential_refs seen [] = Inr ()"
| "validate_credential_refs seen (r # rs) =
     try_bind (ensure (mr_env r \<noteq> [] \<and> length (mr_env r) \<le> 128
       \<and> list_all (\<lambda>c. (65 \<le> byte_of c \<and> byte_of c \<le> 90) \<or> is_ascii_digit c \<or> c = CHR ''_'') (mr_env r)
       \<and> mr_env r \<notin> set seen) McpCredentialBinding) (\<lambda>_.
     try_bind (mcp_identifier (mr_credential_id r)) (\<lambda>_.
     validate_credential_refs (mr_env r # seen) rs))"

fun validate_each :: "('a \<Rightarrow> 'e + unit) \<Rightarrow> 'a list \<Rightarrow> 'e + unit" where
  "validate_each f [] = Inr ()"
| "validate_each f (x # xs) = try_bind (f x) (\<lambda>_. validate_each f xs)"

definition validate_server_config :: "mcp_env \<Rightarrow> string \<Rightarrow> mcp_server \<Rightarrow> mcp_error + unit" where
  "validate_server_config env root s =
     try_bind (mcp_identifier (ms_id s)) (\<lambda>_.
     try_bind (ensure (\<not> is_blank (ms_command s) \<and> length (ms_command s) \<le> 1024 \<and> \<not> has_line_break (ms_command s)
       \<and> length (ms_args s) \<le> 64
       \<and> list_all (\<lambda>a. length a \<le> 4096 \<and> \<not> has_line_break a) (ms_args s)) McpCommandBounds) (\<lambda>_.
     try_bind (case ms_cwd s of None \<Rightarrow> Inr ()
       | Some cwd \<Rightarrow> try_bind (ok_or (me_canonical env (path_join root cwd)) McpCwd) (\<lambda>p.
           ensure (path_starts_with root p \<and> me_is_dir env p) McpCwd)) (\<lambda>_.
     try_bind (validate_credential_refs [] (ms_credential_refs s)) (\<lambda>_.
     validate_each (\<lambda>(tool, _). mcp_identifier tool) (ms_tool_policies s)))))"

fun select_server ::
  "mcp_env \<Rightarrow> string \<Rightarrow> string \<Rightarrow> string list \<Rightarrow> mcp_server option \<Rightarrow> mcp_server list \<Rightarrow> mcp_error + mcp_server option" where
  "select_server env root sid seen selected [] = Inr selected"
| "select_server env root sid seen selected (s # ss) =
     try_bind (validate_server_config env root s) (\<lambda>_.
     try_bind (ensure (ms_id s \<notin> set seen) McpDuplicateServer) (\<lambda>_.
     select_server env root sid (ms_id s # seen) (if ms_id s = sid then Some s else selected) ss))"

definition load_mcp_server :: "mcp_env \<Rightarrow> string \<Rightarrow> string \<Rightarrow> mcp_error + string \<times> mcp_server" where
  "load_mcp_server env workspace sid =
     try_bind (mcp_identifier sid) (\<lambda>_.
     try_bind (canonical_workspace_root env workspace) (\<lambda>root.
     let file = path_join (path_join root ''.shellspan'') ''mcp.json'' in
     try_bind (ok_or (me_lstat env file) McpConfigFile) (\<lambda>(kind, len).
     try_bind (ensure (kind = KindFile \<and> len \<le> MAX_CONFIG_BYTES) McpConfigFile) (\<lambda>_.
     try_bind (ok_or (me_read env file) McpConfigFile) (\<lambda>whole. let bytes = take (MAX_CONFIG_BYTES + 1) whole in
     try_bind (ensure (length bytes \<le> MAX_CONFIG_BYTES) McpConfigBound) (\<lambda>_.
     try_bind (ok_or (me_config env bytes) McpConfigInvalid) (\<lambda>config.
     try_bind (ensure (mf_version config = 1 \<and> length (mf_servers config) \<le> MAX_SERVERS) McpConfigVersion) (\<lambda>_.
     try_bind (select_server env root sid [] None (mf_servers config)) (\<lambda>selected.
     try_bind (ok_or selected McpNotConfigured) (\<lambda>server.
     try_bind (ensure (ms_enabled server) McpServerDisabled) (\<lambda>_.
     Inr (root, server))))))))))))"

definition configured_tool_policy :: "mcp_server \<Rightarrow> string \<Rightarrow> mcp_error + mcp_tool_policy" where
  "configured_tool_policy s tool =
     try_bind (mcp_identifier tool) (\<lambda>_.
     let policy = (case map_of (ms_tool_policies s) tool of None \<Rightarrow> McpDisabled | Some p \<Rightarrow> p) in
     try_bind (ensure (policy \<noteq> McpDisabled) McpToolDisabled) (\<lambda>_. Inr policy))"

subsection \<open>The schema of the arguments\<close>

definition json_type_matches :: "json \<Rightarrow> string \<Rightarrow> bool" where
  "json_type_matches v expected =
     (if expected = ''null'' then v = JNull
      else if expected = ''boolean'' then json_as_bool v \<noteq> None
      else if expected = ''object'' then json_as_object v \<noteq> None
      else if expected = ''array'' then json_as_array v \<noteq> None
      else if expected = ''number'' then (case v of JNumber _ \<Rightarrow> True | _ \<Rightarrow> False)
      else if expected = ''integer'' then (case v of JNumber (PosInt _) \<Rightarrow> True | JNumber (NegInt _) \<Rightarrow> True | _ \<Rightarrow> False)
      else if expected = ''string'' then json_as_str v \<noteq> None
      else False)"

definition json_char_count :: "string \<Rightarrow> nat" where
  "json_char_count s = length (filter (\<lambda>c. \<not> is_continuation c) s)"

type_synonym json_object = "(string \<times> json) list"

definition validate_usize_bound ::
  "nat \<Rightarrow> json_object \<Rightarrow> string \<Rightarrow> string \<Rightarrow> string \<Rightarrow> mcp_error + unit" where
  "validate_usize_bound actual schema minimum maximum path =
     ensure ((case Option.bind (map_of schema minimum) json_as_u64 of None \<Rightarrow> True | Some m \<Rightarrow> unat m \<le> actual)
       \<and> (case Option.bind (map_of schema maximum) json_as_u64 of None \<Rightarrow> True | Some m \<Rightarrow> actual \<le> unat m))
       (McpRejected path)"

definition check_constants :: "json \<Rightarrow> json_object \<Rightarrow> string \<Rightarrow> mcp_error + unit" where
  "check_constants value schema path =
     try_bind (ensure (case map_of schema ''const'' of None \<Rightarrow> True | Some e \<Rightarrow> json_eq value e) (McpRejected path)) (\<lambda>_.
     ensure (case Option.bind (map_of schema ''enum'') json_as_array of None \<Rightarrow> True
       | Some vs \<Rightarrow> list_ex (json_eq value) vs) (McpRejected path))"

definition check_type :: "json \<Rightarrow> json_object \<Rightarrow> string \<Rightarrow> mcp_error + unit" where
  "check_type value schema path = ensure (case map_of schema ''type'' of None \<Rightarrow> True
     | Some (JString kind) \<Rightarrow> json_type_matches value kind
     | Some (JArray kinds) \<Rightarrow> list_ex (json_type_matches value) (filter_map json_as_str kinds)
     | Some _ \<Rightarrow> False) (McpRejected path)"

definition check_required :: "json_object \<Rightarrow> json_object \<Rightarrow> string \<Rightarrow> mcp_error + unit" where
  "check_required object schema path = (case map_of schema ''required'' of None \<Rightarrow> Inr ()
     | Some required \<Rightarrow> try_bind (ok_or (json_as_array required) McpSchemaShape) (validate_each (\<lambda>n.
         try_bind (ok_or (json_as_str n) McpSchemaShape) (\<lambda>name.
         ensure (map_of object name \<noteq> None) (McpRejected path)))))"

definition check_number :: "json \<Rightarrow> json_object \<Rightarrow> string \<Rightarrow> mcp_error + unit" where
  "check_number value schema path = (case json_as_f64 value of None \<Rightarrow> Inr ()
     | Some n \<Rightarrow> ensure (\<not> ((case Option.bind (map_of schema ''minimum'') json_as_f64 of None \<Rightarrow> False | Some m \<Rightarrow> f64_less n m)
         \<or> (case Option.bind (map_of schema ''maximum'') json_as_f64 of None \<Rightarrow> False | Some m \<Rightarrow> f64_less m n)))
         (McpRejected path))"

fun has_duplicate :: "json list \<Rightarrow> json list \<Rightarrow> bool" where
  "has_duplicate seen [] = False"
| "has_duplicate seen (v # vs) = (list_ex (\<lambda>s. json_eq s v) seen \<or> has_duplicate (seen @ [v]) vs)"

text \<open>The schema for the property of an object, when there is one; an unknown property may be refused.\<close>

definition known_property :: "json_object \<Rightarrow> string \<Rightarrow> json option" where
  "known_property schema name =
     Option.bind (Option.bind (map_of schema ''properties'') json_as_object) (\<lambda>ps. map_of ps name)"

definition property_schema :: "json_object \<Rightarrow> string \<Rightarrow> string \<Rightarrow> mcp_error + json option" where
  "property_schema schema path name =
     (case known_property schema name of
        Some s \<Rightarrow> Inr (Some s)
      | None \<Rightarrow> (case map_of schema ''additionalProperties'' of
          Some (JBool False) \<Rightarrow> Inl (McpRejected path)
        | Some (JObject o') \<Rightarrow> Inr (Some (JObject o'))
        | _ \<Rightarrow> Inr None))"

text \<open>The parts of \<open>validate\_json\_value\<close> that recurse, over the check of a part.\<close>

type_synonym sub_check = "json \<Rightarrow> json \<Rightarrow> string \<Rightarrow> mcp_error + unit"

definition check_reference :: "sub_check \<Rightarrow> json \<Rightarrow> json_object \<Rightarrow> json \<Rightarrow> string \<Rightarrow> mcp_error + unit" where
  "check_reference sub value schema root path = (case Option.bind (map_of schema ''$ref'') json_as_str of
       None \<Rightarrow> Inr ()
     | Some reference \<Rightarrow>
         try_bind (ok_or (strip_prefix ''#'' reference) McpReference) (\<lambda>p.
         try_bind (ok_or (json_pointer root p) McpReference) (\<lambda>resolved. sub value resolved path)))"

definition branches_hold :: "string \<Rightarrow> nat \<Rightarrow> nat \<Rightarrow> bool" where
  "branches_hold keyword successes branches \<longleftrightarrow>
     (if keyword = ''allOf'' then successes = branches else if keyword = ''anyOf'' then successes > 0 else successes = 1)"

definition check_branches :: "sub_check \<Rightarrow> json \<Rightarrow> json_object \<Rightarrow> string \<Rightarrow> string \<Rightarrow> mcp_error + unit" where
  "check_branches sub value schema path keyword = (case Option.bind (map_of schema keyword) json_as_array of
       None \<Rightarrow> Inr ()
     | Some branches \<Rightarrow> ensure (branches_hold keyword (length (filter (\<lambda>b. is_ok (sub value b path)) branches)) (length branches))
         (McpRejected path))"

definition check_property :: "sub_check \<Rightarrow> json_object \<Rightarrow> string \<Rightarrow> string \<times> json \<Rightarrow> mcp_error + unit" where
  "check_property sub schema path entry =
     try_bind (property_schema schema path (fst entry)) (\<lambda>s. case s of None \<Rightarrow> Inr ()
     | Some s \<Rightarrow> sub (snd entry) s (path @ ''.'' @ fst entry))"

definition check_object :: "sub_check \<Rightarrow> json \<Rightarrow> json_object \<Rightarrow> string \<Rightarrow> mcp_error + unit" where
  "check_object sub value schema path = (case json_as_object value of None \<Rightarrow> Inr ()
     | Some object \<Rightarrow>
         try_bind (check_required object schema path) (\<lambda>_.
         try_bind (validate_each (check_property sub schema path) object) (\<lambda>_.
         validate_usize_bound (length object) schema ''minProperties'' ''maxProperties'' path)))"

definition check_array :: "sub_check \<Rightarrow> json \<Rightarrow> json_object \<Rightarrow> string \<Rightarrow> mcp_error + unit" where
  "check_array sub value schema path = (case json_as_array value of None \<Rightarrow> Inr ()
     | Some items \<Rightarrow>
         try_bind (validate_usize_bound (length items) schema ''minItems'' ''maxItems'' path) (\<lambda>_.
         try_bind (ensure (\<not> (Option.bind (map_of schema ''uniqueItems'') json_as_bool = Some True
           \<and> has_duplicate [] items)) (McpRejected path)) (\<lambda>_.
         case map_of schema ''items'' of None \<Rightarrow> Inr ()
         | Some s \<Rightarrow> validate_each (\<lambda>(i, item). sub item s (path @ ''['' @ decimal i @ '']'')) (enumerate 0 items))))"

definition check_json_text :: "json \<Rightarrow> json_object \<Rightarrow> string \<Rightarrow> mcp_error + unit" where
  "check_json_text value schema path = (case json_as_str value of None \<Rightarrow> Inr ()
     | Some s \<Rightarrow> validate_usize_bound (json_char_count s) schema ''minLength'' ''maxLength'' path)"

definition validate_schema_node :: "sub_check \<Rightarrow> json \<Rightarrow> json \<Rightarrow> json \<Rightarrow> string \<Rightarrow> mcp_error + unit" where
  "validate_schema_node sub value schema root path = (case json_as_bool schema of
     Some allowed \<Rightarrow> ensure allowed (McpRejected path)
   | None \<Rightarrow>
     try_bind (ok_or (json_as_object schema) McpSchemaShape) (\<lambda>schema.
     try_bind (check_reference sub value schema root path) (\<lambda>_.
     try_bind (check_constants value schema path) (\<lambda>_.
     try_bind (validate_each (check_branches sub value schema path) [''allOf'', ''anyOf'', ''oneOf'']) (\<lambda>_.
     try_bind (check_type value schema path) (\<lambda>_.
     try_bind (check_object sub value schema path) (\<lambda>_.
     try_bind (check_array sub value schema path) (\<lambda>_.
     try_bind (check_json_text value schema path) (\<lambda>_.
     check_number value schema path)))))))))"

text \<open>
  \<open>validate\_json\_value\<close>, by the number of levels below it that the bound of 64 still allows: at
  depth \<open>d\<close> the code recurses at depth \<open>d + 1\<close> and refuses above 64.
\<close>

primrec validate_levels :: "nat \<Rightarrow> json \<Rightarrow> json \<Rightarrow> json \<Rightarrow> string \<Rightarrow> mcp_error + unit" where
  "validate_levels 0 root = (\<lambda>value schema path. Inl McpSchemaDepth)"
| "validate_levels (Suc n) root = (\<lambda>value schema path.
     validate_schema_node (validate_levels n root) value schema root path)"

definition validate_json_value :: "json \<Rightarrow> json \<Rightarrow> json \<Rightarrow> string \<Rightarrow> u8 \<Rightarrow> mcp_error + unit" where
  "validate_json_value value schema root path depth = validate_levels (65 - unat depth) root value schema path"

definition validate_json_shape :: "json \<Rightarrow> json \<Rightarrow> mcp_error + unit" where
  "validate_json_shape arguments schema =
     try_bind (ensure (json_as_object arguments \<noteq> None) McpArguments) (\<lambda>_.
     validate_json_value arguments schema schema ''$'' 0)"

subsection \<open>The child process\<close>

definition MCP_RUNTIME_NAMES :: "string list" where
  "MCP_RUNTIME_NAMES = [''PATH'', ''HOME'', ''USER'', ''LOGNAME'', ''SHELL'', ''TMPDIR'', ''TMP'', ''TEMP'', ''LANG'', ''LC_ALL'',
     ''LC_CTYPE'', ''LC_MESSAGES'', ''LC_COLLATE'', ''LC_NUMERIC'', ''LC_TIME'', ''LC_MONETARY'', ''LC_PAPER'', ''LC_NAME'',
     ''LC_ADDRESS'', ''LC_TELEPHONE'', ''LC_MEASUREMENT'', ''LC_IDENTIFICATION'', ''TZ'', ''XDG_CACHE_HOME'',
     ''XDG_CONFIG_HOME'', ''XDG_DATA_HOME'', ''SYSTEMROOT'', ''WINDIR'', ''COMSPEC'', ''PATHEXT'', ''USERPROFILE'',
     ''HOMEDRIVE'', ''HOMEPATH'', ''APPDATA'', ''LOCALAPPDATA'', ''PROGRAMDATA'', ''PROGRAMFILES'', ''PROGRAMFILES(X86)'']"

text \<open>A variable of the environment; its name may fail to be text.\<close>

definition is_mcp_runtime_environment_name :: "string option \<Rightarrow> bool" where
  "is_mcp_runtime_environment_name name = (case name of None \<Rightarrow> False
     | Some n \<Rightarrow> map to_ascii_upper n \<in> set MCP_RUNTIME_NAMES)"

definition mcp_child_environment :: "(string option \<times> string) list \<Rightarrow> (string option \<times> string) list" where
  "mcp_child_environment vars = filter (\<lambda>(name, _). is_mcp_runtime_environment_name name) vars"

definition resolve_executable :: "mcp_env \<Rightarrow> mcp_server \<Rightarrow> string \<Rightarrow> mcp_error + string" where
  "resolve_executable env s root =
     (if has_root (ms_command s) \<or> length (path_components (ms_command s)) = 1 then Inr (ms_command s)
      else try_bind (ok_or (me_canonical env (path_join root (ms_command s))) McpExecutable) (\<lambda>p.
        try_bind (ensure (path_starts_with root p) McpExecutable) (\<lambda>_. Inr p)))"

definition resolve_cwd :: "mcp_env \<Rightarrow> mcp_server \<Rightarrow> string \<Rightarrow> mcp_error + string" where
  "resolve_cwd env s root = (case ms_cwd s of None \<Rightarrow> Inr root
     | Some cwd \<Rightarrow> try_bind (ok_or (me_canonical env (path_join root cwd)) McpCwd) (\<lambda>p.
         try_bind (ensure (path_starts_with root p) McpCwd) (\<lambda>_. Inr p)))"

fun resolve_credentials :: "mcp_env \<Rightarrow> mcp_credential_reference list \<Rightarrow> mcp_error + (string option \<times> string) list" where
  "resolve_credentials env [] = Inr []"
| "resolve_credentials env (r # rs) =
     try_bind (me_credential env (mr_credential_id r)) (\<lambda>found.
     try_bind (ok_or found McpCredential) (\<lambda>v.
     try_bind (resolve_credentials env rs) (\<lambda>vs. Inr ((Some (mr_env r), v) # vs))))"

record mcp_child =
  mch_program :: string
  mch_args :: "string list"
  mch_cwd :: string
  mch_vars :: "(string option \<times> string) list"

definition mcp_child_of ::
  "mcp_env \<Rightarrow> mcp_server \<Rightarrow> string \<Rightarrow> (string option \<times> string) list \<Rightarrow> mcp_error + mcp_child" where
  "mcp_child_of env s root inherited =
     try_bind (resolve_executable env s root) (\<lambda>program.
     try_bind (resolve_cwd env s root) (\<lambda>cwd.
     try_bind (resolve_credentials env (ms_credential_refs s)) (\<lambda>vars.
     Inr \<lparr>mch_program = program, mch_args = ms_args s, mch_cwd = cwd,
       mch_vars = mcp_child_environment inherited @ vars\<rparr>)))"

subsection \<open>The conversation\<close>

record discovered_tool =
  dt_name :: string
  dt_schema :: json

fun parse_tools :: "mcp_env \<Rightarrow> string list \<Rightarrow> json list \<Rightarrow> mcp_error + discovered_tool list" where
  "parse_tools env seen [] = Inr []"
| "parse_tools env seen (v # vs) =
     try_bind (ok_or (json_as_object v) McpDescriptor) (\<lambda>object.
     try_bind (ok_or (Option.bind (map_of object ''name'') json_as_str) McpDescriptor) (\<lambda>name.
     try_bind (mcp_identifier name) (\<lambda>_.
     try_bind (ensure (name \<notin> set seen) McpDuplicateTool) (\<lambda>_.
     let schema = (case map_of object ''inputSchema'' of None \<Rightarrow> JObject [(''type'', JString ''object'')] | Some s \<Rightarrow> s) in
     try_bind (ensure (json_as_object schema \<noteq> None \<and> me_size env schema \<le> MAX_SCHEMA_BYTES) McpSchemaBound) (\<lambda>_.
     try_bind (parse_tools env (name # seen) vs) (\<lambda>ts.
     Inr (\<lparr>dt_name = name, dt_schema = schema\<rparr> # ts)))))))"

definition parse_discovered_tools :: "mcp_env \<Rightarrow> json \<Rightarrow> mcp_error + discovered_tool list" where
  "parse_discovered_tools env result =
     try_bind (ok_or (Option.bind (json_get ''tools'' result) json_as_array) McpNoTools) (\<lambda>tools.
     try_bind (ensure (length tools \<le> MAX_TOOLS) McpTooManyTools) (\<lambda>_.
     parse_tools env [] tools))"

text \<open>
  What the process sees at one poll of its two channels: a cancellation, the deadline, nothing yet,
  the outcome of the pending write, or the next line of the server. The sequence of these events is
  an argument; a conversation that has not ended when they run out is still waiting (\<open>None\<close>).
\<close>

datatype (plugins only: code size) mcp_event =
    EvCancelled | EvDeadline | EvNothing
  | EvWritten | EvWriteFailed | EvWriterGone
  | EvLine string | EvReadFailed | EvClosed

type_synonym 'a mcp_wait = "(mcp_error + 'a) option \<times> mcp_event list"

fun await_write :: "mcp_event list \<Rightarrow> unit mcp_wait" where
  "await_write [] = (None, [])"
| "await_write (e # es) = (case e of
     EvCancelled \<Rightarrow> (Some (Inl McpCancelled), es)
   | EvDeadline \<Rightarrow> (Some (Inl McpTimeout), es)
   | EvWritten \<Rightarrow> (Some (Inr ()), es)
   | EvWriteFailed \<Rightarrow> (Some (Inl McpWrite), es)
   | EvWriterGone \<Rightarrow> (Some (Inl McpWriterGone), es)
   | _ \<Rightarrow> await_write es)"

fun wait_for_response :: "mcp_env \<Rightarrow> u64 \<Rightarrow> mcp_event list \<Rightarrow> json mcp_wait" where
  "wait_for_response env rid [] = (None, [])"
| "wait_for_response env rid (e # es) = (case e of
     EvCancelled \<Rightarrow> (Some (Inl McpCancelled), es)
   | EvDeadline \<Rightarrow> (Some (Inl McpTimeout), es)
   | EvReadFailed \<Rightarrow> (Some (Inl McpRead), es)
   | EvClosed \<Rightarrow> (Some (Inl McpClosed), es)
   | EvLine line \<Rightarrow>
       if length line > MAX_RESULT_BYTES then (Some (Inl McpLineBound), es)
       else (case me_json env line of None \<Rightarrow> wait_for_response env rid es
         | Some v \<Rightarrow>
             if Option.bind (json_get ''id'' v) json_as_u64 \<noteq> Some rid then wait_for_response env rid es
             else if json_get ''error'' v \<noteq> None then (Some (Inl McpServerError), es)
             else (Some (ok_or (json_get ''result'' v) McpNoResult), es))
   | _ \<Rightarrow> wait_for_response env rid es)"

text \<open>The run of the conversation: what was written so far, and the events to come.\<close>

record 'a mcp_run =
  mu_sent :: "json list"
  mu_events :: "mcp_event list"
  mu_result :: "(mcp_error + 'a) option"

definition run_then :: "'a mcp_run \<Rightarrow> ('a \<Rightarrow> json list \<Rightarrow> mcp_event list \<Rightarrow> 'b mcp_run) \<Rightarrow> 'b mcp_run" where
  "run_then r f = (case mu_result r of
     Some (Inr a) \<Rightarrow> f a (mu_sent r) (mu_events r)
   | Some (Inl x) \<Rightarrow> \<lparr>mu_sent = mu_sent r, mu_events = mu_events r, mu_result = Some (Inl x)\<rparr>
   | None \<Rightarrow> \<lparr>mu_sent = mu_sent r, mu_events = mu_events r, mu_result = None\<rparr>)"

definition send_json :: "mcp_env \<Rightarrow> json \<Rightarrow> json list \<Rightarrow> mcp_event list \<Rightarrow> unit mcp_run" where
  "send_json env v sent es =
     (if me_size env v > MAX_ARGUMENT_BYTES then \<lparr>mu_sent = sent, mu_events = es, mu_result = Some (Inl McpArguments)\<rparr>
      else let (r, es') = await_write es in \<lparr>mu_sent = sent @ [v], mu_events = es', mu_result = r\<rparr>)"

definition receive_json :: "mcp_env \<Rightarrow> u64 \<Rightarrow> json list \<Rightarrow> mcp_event list \<Rightarrow> json mcp_run" where
  "receive_json env rid sent es = (let (r, es') = wait_for_response env rid es
     in \<lparr>mu_sent = sent, mu_events = es', mu_result = r\<rparr>)"

definition check_now :: "mcp_error + 'a \<Rightarrow> json list \<Rightarrow> mcp_event list \<Rightarrow> 'a mcp_run" where
  "check_now r sent es = \<lparr>mu_sent = sent, mu_events = es, mu_result = Some r\<rparr>"

definition JSONRPC :: "string \<times> json" where "JSONRPC = (''jsonrpc'', JString ''2.0'')"

definition rpc :: "u64 option \<Rightarrow> string \<Rightarrow> json \<Rightarrow> json" where
  "rpc rid meth params = JObject ([JSONRPC] @ (case rid of None \<Rightarrow> [] | Some n \<Rightarrow> [(''id'', JNumber (PosInt n))])
     @ [(''method'', JString meth), (''params'', params)])"

definition initialize_params :: json where
  "initialize_params = JObject [(''protocolVersion'', JString ''2025-03-26''), (''capabilities'', JObject []),
     (''clientInfo'', JObject [(''name'', JString ''ShellSpan''), (''version'', JString ''2.1.0'')])]"

definition call_message :: "string \<Rightarrow> json \<Rightarrow> json" where
  "call_message tool arguments =
     rpc (Some 3) ''tools/call'' (JObject [(''name'', JString tool), (''arguments'', arguments)])"

text \<open>\<open>discover\_and\_invoke\_stdio\_tool\<close> after the child was started.\<close>

definition mcp_handshake :: "mcp_env \<Rightarrow> mcp_event list \<Rightarrow> json mcp_run" where
  "mcp_handshake env es =
     run_then (send_json env (rpc (Some 1) ''initialize'' initialize_params) [] es) (\<lambda>_ sent es.
     run_then (receive_json env 1 sent es) (\<lambda>_ sent es.
     run_then (send_json env (rpc None ''notifications/initialized'' (JObject [])) sent es) (\<lambda>_ sent es.
     run_then (send_json env (rpc (Some 2) ''tools/list'' (JObject [])) sent es) (\<lambda>_ sent es.
     receive_json env 2 sent es))))"

definition discover_and_invoke :: "mcp_env \<Rightarrow> string \<Rightarrow> json \<Rightarrow> mcp_event list \<Rightarrow> json mcp_run" where
  "discover_and_invoke env tool arguments es =
     run_then (mcp_handshake env es) (\<lambda>discovered sent es.
     run_then (check_now (parse_discovered_tools env discovered) sent es) (\<lambda>tools sent es.
     run_then (check_now (ok_or (find (\<lambda>t. dt_name t = tool) tools) McpNotAdvertised) sent es) (\<lambda>t sent es.
     run_then (check_now (validate_json_shape arguments (dt_schema t)) sent es) (\<lambda>_ sent es.
     run_then (send_json env (call_message tool arguments) sent es) (\<lambda>_ sent es.
     receive_json env 3 sent es)))))"

text \<open>
  \<open>execute\_mcp\_tool\_native\<close>: the result with its truncation mark. The child that would be started,
  a failure to start it, and the events of the conversation are the world's part.
\<close>

definition mcp_oversized :: json where
  "mcp_oversized = JObject [(''isError'', JBool True), (''content'', JArray [JObject [(''type'', JString ''text''),
     (''text'', JString ''MCP result exceeded the native bound'')]])]"

definition execute_mcp_tool ::
  "mcp_env \<Rightarrow> mcp_server \<Rightarrow> string \<Rightarrow> (string option \<times> string) list \<Rightarrow> string \<Rightarrow> json \<Rightarrow> bool \<Rightarrow> bool
    \<Rightarrow> mcp_event list \<Rightarrow> (json \<times> bool) mcp_run" where
  "execute_mcp_tool env s root inherited tool arguments cancelled spawned es =
     run_then (check_now (ensure (json_as_object arguments \<noteq> None \<and> me_size env arguments \<le> MAX_ARGUMENT_BYTES) McpArguments) [] es) (\<lambda>_ sent es.
     run_then (check_now (ensure (\<not> cancelled) McpCancelled) sent es) (\<lambda>_ sent es.
     run_then (check_now (mcp_child_of env s root inherited) sent es) (\<lambda>_ sent es.
     run_then (check_now (ensure spawned McpSpawn) sent es) (\<lambda>_ sent es.
     run_then (discover_and_invoke env tool arguments es) (\<lambda>result sent es.
     check_now (Inr (if me_size env result > MAX_RESULT_BYTES then (mcp_oversized, True)
       else (me_redact env result, False))) sent es)))))"

subsection \<open>What the schema check establishes\<close>

definition size_within :: "nat \<Rightarrow> json_object \<Rightarrow> string \<Rightarrow> string \<Rightarrow> bool" where
  "size_within n keys minimum maximum \<longleftrightarrow>
     (\<forall>m. map_of keys minimum = Some (JNumber (PosInt m)) \<longrightarrow> unat m \<le> n)
   \<and> (\<forall>m. map_of keys maximum = Some (JNumber (PosInt m)) \<longrightarrow> n \<le> unat m)"

text \<open>The keywords that look at the value alone.\<close>

definition constants_hold :: "json \<Rightarrow> json_object \<Rightarrow> bool" where
  "constants_hold v keys \<longleftrightarrow> (\<forall>e. map_of keys ''const'' = Some e \<longrightarrow> json_eq v e)
     \<and> (\<forall>vs. map_of keys ''enum'' = Some (JArray vs) \<longrightarrow> (\<exists>w\<in>set vs. json_eq v w))"

definition type_holds :: "json \<Rightarrow> json_object \<Rightarrow> bool" where
  "type_holds v keys \<longleftrightarrow> (\<forall>t. map_of keys ''type'' = Some t \<longrightarrow>
     (\<exists>k. json_type_matches v k \<and> (t = JString k \<or> (\<exists>ks. t = JArray ks \<and> JString k \<in> set ks))))"

definition required_present :: "json \<Rightarrow> json_object \<Rightarrow> bool" where
  "required_present v keys \<longleftrightarrow> (\<forall>kvs r. v = JObject kvs \<longrightarrow> map_of keys ''required'' = Some r \<longrightarrow>
     (\<exists>names. r = JArray (map JString names) \<and> set names \<subseteq> fst ` set kvs))"

definition sizes_within :: "json \<Rightarrow> json_object \<Rightarrow> bool" where
  "sizes_within v keys \<longleftrightarrow>
     (\<forall>kvs. v = JObject kvs \<longrightarrow> size_within (length kvs) keys ''minProperties'' ''maxProperties'')
   \<and> (\<forall>ws. v = JArray ws \<longrightarrow> size_within (length ws) keys ''minItems'' ''maxItems'')
   \<and> (\<forall>s. v = JString s \<longrightarrow> size_within (json_char_count s) keys ''minLength'' ''maxLength'')"

definition items_unique :: "json \<Rightarrow> json_object \<Rightarrow> bool" where
  "items_unique v keys \<longleftrightarrow> (\<forall>ws. v = JArray ws \<longrightarrow> map_of keys ''uniqueItems'' = Some (JBool True) \<longrightarrow>
     (\<forall>j<length ws. \<forall>i<j. \<not> json_eq (ws ! i) (ws ! j)))"

definition number_within :: "json \<Rightarrow> json_object \<Rightarrow> bool" where
  "number_within v keys \<longleftrightarrow> (\<forall>n m. v = JNumber n \<longrightarrow>
     (map_of keys ''minimum'' = Some (JNumber m) \<longrightarrow> \<not> f64_less (number_as_f64 n) (number_as_f64 m))
   \<and> (map_of keys ''maximum'' = Some (JNumber m) \<longrightarrow> \<not> f64_less (number_as_f64 m) (number_as_f64 n)))"

text \<open>The keywords that lead to other schemas.\<close>

definition reference_holds :: "(json \<Rightarrow> json \<Rightarrow> bool) \<Rightarrow> json \<Rightarrow> json \<Rightarrow> json_object \<Rightarrow> bool" where
  "reference_holds sub root v keys \<longleftrightarrow> (\<forall>r. map_of keys ''$ref'' = Some (JString r) \<longrightarrow>
     (\<exists>p u. r = ''#'' @ p \<and> json_pointer root p = Some u \<and> sub v u))"

definition branches_conform :: "(json \<Rightarrow> json \<Rightarrow> bool) \<Rightarrow> json \<Rightarrow> json_object \<Rightarrow> bool" where
  "branches_conform sub v keys \<longleftrightarrow>
     (\<forall>bs. map_of keys ''allOf'' = Some (JArray bs) \<longrightarrow> (\<forall>b\<in>set bs. sub v b))
   \<and> (\<forall>bs. map_of keys ''anyOf'' = Some (JArray bs) \<longrightarrow> (\<exists>b\<in>set bs. sub v b))
   \<and> (\<forall>bs. map_of keys ''oneOf'' = Some (JArray bs) \<longrightarrow> (\<exists>!i. i < length bs \<and> sub v (bs ! i)))"

definition member_conforms :: "(json \<Rightarrow> json \<Rightarrow> bool) \<Rightarrow> json_object \<Rightarrow> string \<times> json \<Rightarrow> bool" where
  "member_conforms sub keys = (\<lambda>(k, w).
     case (case map_of keys ''properties'' of Some (JObject ps) \<Rightarrow> map_of ps k | _ \<Rightarrow> None) of
       Some known \<Rightarrow> sub w known
     | None \<Rightarrow> map_of keys ''additionalProperties'' \<noteq> Some (JBool False)
         \<and> (\<forall>others. map_of keys ''additionalProperties'' = Some (JObject others) \<longrightarrow> sub w (JObject others)))"

definition members_conform :: "(json \<Rightarrow> json \<Rightarrow> bool) \<Rightarrow> json \<Rightarrow> json_object \<Rightarrow> bool" where
  "members_conform sub v keys \<longleftrightarrow> (\<forall>kvs. v = JObject kvs \<longrightarrow> (\<forall>entry\<in>set kvs. member_conforms sub keys entry))"

definition items_conform :: "(json \<Rightarrow> json \<Rightarrow> bool) \<Rightarrow> json \<Rightarrow> json_object \<Rightarrow> bool" where
  "items_conform sub v keys \<longleftrightarrow> (\<forall>ws s. v = JArray ws \<longrightarrow> map_of keys ''items'' = Some s \<longrightarrow> (\<forall>w\<in>set ws. sub w s))"

text \<open>
  What it means that a value conforms to a schema: every keyword the program knows holds, at every
  level, down to a number of levels; deeper nesting does not conform, as the program cannot check it.
\<close>

primrec conforms :: "nat \<Rightarrow> json \<Rightarrow> json \<Rightarrow> json \<Rightarrow> bool" where
  "conforms 0 root = (\<lambda>v schema. False)"
| "conforms (Suc n) root = (\<lambda>v schema. case schema of
     JBool allowed \<Rightarrow> allowed
   | JObject keys \<Rightarrow> constants_hold v keys \<and> type_holds v keys \<and> required_present v keys \<and> sizes_within v keys
       \<and> items_unique v keys \<and> number_within v keys \<and> reference_holds (conforms n root) root v keys
       \<and> branches_conform (conforms n root) v keys \<and> members_conform (conforms n root) v keys
       \<and> items_conform (conforms n root) v keys
   | _ \<Rightarrow> False)"

lemma validate_each_iff [res_simps]: "validate_each f xs = Inr () \<longleftrightarrow> (\<forall>x\<in>set xs. f x = Inr ())"
  by (induction xs) (auto simp: res_simps)

lemma unit_bind_iff: "try_bind r (\<lambda>_. f) = Inr () \<longleftrightarrow> r = Inr () \<and> f = Inr ()" for r :: "'e + unit"
  by (cases r) simp_all

lemma json_views:
  "json_as_object v = Some kvs \<longleftrightarrow> v = JObject kvs" "json_as_array v = Some ws \<longleftrightarrow> v = JArray ws"
  "json_as_str v = Some s \<longleftrightarrow> v = JString s" "json_as_bool v = Some b \<longleftrightarrow> v = JBool b"
  "json_as_u64 v = Some n \<longleftrightarrow> v = JNumber (PosInt n)"
  by (auto simp: json_as_object_def json_as_array_def json_as_str_def json_as_bool_def json_as_u64_def
      split: json.splits json_number.splits)

lemma validate_usize_bound_iff: "validate_usize_bound n keys lo hi path = Inr () \<longleftrightarrow> size_within n keys lo hi"
proof -
  have "(case Option.bind (map_of keys k) json_as_u64 of None \<Rightarrow> True | Some m \<Rightarrow> P m)
      \<longleftrightarrow> (\<forall>m. map_of keys k = Some (JNumber (PosInt m)) \<longrightarrow> P m)" for k P
    by (cases "map_of keys k") (auto simp: json_as_u64_def split: json.splits json_number.splits)
  then show ?thesis by (simp add: validate_usize_bound_def size_within_def ensure_iff)
qed

lemma check_constants_iff: "check_constants v keys path = Inr () \<longleftrightarrow> constants_hold v keys"
proof -
  have "(case Option.bind (map_of keys ''enum'') json_as_array of None \<Rightarrow> True | Some vs \<Rightarrow> P vs)
      \<longleftrightarrow> (\<forall>vs. map_of keys ''enum'' = Some (JArray vs) \<longrightarrow> P vs)" for P
    by (cases "map_of keys ''enum''") (auto simp: json_as_array_def split: json.splits)
  then show ?thesis
    by (cases "map_of keys ''const''") (simp_all add: check_constants_def constants_hold_def try_bind_Inr_iff ensure_iff list_ex_iff)
qed

lemma check_type_iff: "check_type v keys path = Inr () \<longleftrightarrow> type_holds v keys"
proof (cases "map_of keys ''type''")
  case (Some t)
  then show ?thesis
    by (cases t) (auto simp: check_type_def type_holds_def ensure_iff list_ex_iff set_filter_map json_views)
qed (simp add: check_type_def type_holds_def ensure_iff)

lemma required_names:
  "(\<forall>r\<in>set rs. \<exists>name. r = JString name \<and> name \<in> fst ` set kvs)
    \<longleftrightarrow> (\<exists>names. rs = map JString names \<and> set names \<subseteq> fst ` set kvs)"
proof (induction rs)
  case (Cons r rs)
  show ?case
  proof
    assume "\<forall>q\<in>set (r # rs). \<exists>name. q = JString name \<and> name \<in> fst ` set kvs"
    with Cons.IH obtain name names where "r = JString name" "name \<in> fst ` set kvs" "rs = map JString names" "set names \<subseteq> fst ` set kvs"
      by auto
    then show "\<exists>names. r # rs = map JString names \<and> set names \<subseteq> fst ` set kvs" by (intro exI [of _ "name # names"]) simp
  qed (use Cons.IH in \<open>auto simp: Cons_eq_map_conv\<close>)
qed simp

lemma check_required_iff:
  "check_required kvs keys path = Inr () \<longleftrightarrow> required_present (JObject kvs) keys"
proof (cases "map_of keys ''required''")
  case (Some r)
  have one: "(\<exists>name. n = JString name \<and> map_of kvs name \<noteq> None) \<longleftrightarrow> (\<exists>name. n = JString name \<and> name \<in> fst ` set kvs)" for n
    by (simp only: map_of_eq_None_iff not_not)
  have "check_required kvs keys path = Inr () \<longleftrightarrow> (\<exists>rs. r = JArray rs \<and> (\<forall>n\<in>set rs. \<exists>name. n = JString name \<and> map_of kvs name \<noteq> None))"
    by (simp only: check_required_def Some option.case try_bind_Inr_iff ok_or_iff json_views validate_each_iff ensure_iff)
  then show ?thesis unfolding one required_names by (auto simp: required_present_def Some)
qed (simp add: check_required_def required_present_def)

lemma check_number_iff: "check_number v keys path = Inr () \<longleftrightarrow> number_within v keys"
proof (cases v)
  case (JNumber n)
  have "(case Option.bind (map_of keys k) json_as_f64 of None \<Rightarrow> False | Some m \<Rightarrow> P m)
      \<longleftrightarrow> (\<exists>m. map_of keys k = Some (JNumber m) \<and> P (number_as_f64 m))" for k P
    by (cases "map_of keys k") (auto simp: json_as_f64_def split: json.splits)
  with JNumber show ?thesis by (auto simp: check_number_def number_within_def json_as_f64_def ensure_iff)
qed (simp_all add: check_number_def number_within_def json_as_f64_def)

lemma has_duplicate_iff:
  "has_duplicate seen vs \<longleftrightarrow> (\<exists>j<length vs. (\<exists>s\<in>set seen. json_eq s (vs ! j)) \<or> (\<exists>i<j. json_eq (vs ! i) (vs ! j)))"
proof (induction vs arbitrary: seen)
  case (Cons v vs)
  have "(\<exists>s\<in>set (seen @ [v]). json_eq s (vs ! j)) \<or> (\<exists>i<j. json_eq (vs ! i) (vs ! j))
      \<longleftrightarrow> (\<exists>s\<in>set seen. json_eq s ((v # vs) ! Suc j)) \<or> (\<exists>i<Suc j. json_eq ((v # vs) ! i) ((v # vs) ! Suc j))" for j
    unfolding Ex_less_Suc2 by auto
  then show ?case
    unfolding has_duplicate.simps Cons.IH length_Cons Ex_less_Suc2 [of "length vs"] list_ex_iff by simp
qed simp

lemma check_reference_iff:
  "check_reference sub v keys root path = Inr () \<longleftrightarrow> reference_holds (\<lambda>w u. sub w u path = Inr ()) root v keys"
proof -
  have strip: "strip_prefix ''#'' r = Some p \<longleftrightarrow> r = ''#'' @ p" for r p
    unfolding strip_prefix_def by (cases r) (auto simp: starts_with_def)
  show ?thesis
  proof (cases "map_of keys ''$ref''")
    case (Some r)
    then show ?thesis
      by (cases r) (auto simp: check_reference_def reference_holds_def json_as_str_def try_bind_Inr_iff ok_or_iff strip)
  qed (simp add: check_reference_def reference_holds_def)
qed

lemma one_branch: "length (filter P bs) = Suc 0 \<longleftrightarrow> (\<exists>!i. i < length bs \<and> P (bs ! i))"
  unfolding length_filter_conv_card card_1_singleton_iff set_eq_iff Ex1_def by blast

lemma all_branches: "length (filter P bs) = length bs \<longleftrightarrow> (\<forall>b\<in>set bs. P b)"
  by (metis filter_True length_filter_less less_irrefl)

lemma check_branches_iff:
  "(\<forall>k\<in>set [''allOf'', ''anyOf'', ''oneOf'']. check_branches sub v keys path k = Inr ())
    \<longleftrightarrow> branches_conform (\<lambda>w b. sub w b path = Inr ()) v keys"
proof -
  have "check_branches sub v keys path k = Inr () \<longleftrightarrow> (\<forall>bs. map_of keys k = Some (JArray bs) \<longrightarrow>
      branches_hold k (length (filter (\<lambda>b. sub v b path = Inr ()) bs)) (length bs))" for k
    by (cases "map_of keys k") (auto simp: check_branches_def json_as_array_def ensure_iff is_ok_iff split: json.splits)
  then show ?thesis
    by (simp add: branches_conform_def branches_hold_def all_branches one_branch filter_empty_conv) 
qed

lemma check_property_iff:
  assumes "\<And>w u p. sub w u p = Inr () \<longleftrightarrow> conform w u"
  shows "check_property sub keys path entry = Inr () \<longleftrightarrow> member_conforms conform keys entry"
proof -
  obtain k w where entry: "entry = (k, w)" by force
  have known: "known_property keys k = (case map_of keys ''properties'' of Some (JObject ps) \<Rightarrow> map_of ps k | _ \<Rightarrow> None)"
    by (cases "map_of keys ''properties''") (auto simp: known_property_def json_as_object_def split: json.splits)
  show ?thesis
    unfolding check_property_def property_schema_def entry member_conforms_def prod.case known [symmetric]
    by (cases "known_property keys k") (auto simp: assms split: option.splits json.splits bool.splits)
qed

lemma check_object_iff:
  assumes "\<And>w u p. sub w u p = Inr () \<longleftrightarrow> conform w u"
  shows "check_object sub v keys path = Inr () \<longleftrightarrow> required_present v keys \<and> members_conform conform v keys
    \<and> (\<forall>kvs. v = JObject kvs \<longrightarrow> size_within (length kvs) keys ''minProperties'' ''maxProperties'')"
proof (cases v)
  case (JObject kvs)
  then show ?thesis
    by (auto simp: check_object_def json_as_object_def try_bind_Inr_iff check_required_iff validate_each_iff validate_usize_bound_iff
      members_conform_def check_property_iff [OF assms])
qed (simp_all add: check_object_def json_as_object_def required_present_def members_conform_def)

lemma check_array_iff:
  assumes "\<And>w u p. sub w u p = Inr () \<longleftrightarrow> conform w u"
  shows "check_array sub v keys path = Inr () \<longleftrightarrow> items_unique v keys \<and> items_conform conform v keys
    \<and> (\<forall>ws. v = JArray ws \<longrightarrow> size_within (length ws) keys ''minItems'' ''maxItems'')"
proof (cases v)
  case (JArray ws)
  have each: "(\<forall>(i, w)\<in>set (enumerate 0 ws). sub w s (path @ ''['' @ decimal i @ '']'') = Inr ()) \<longleftrightarrow> (\<forall>w\<in>set ws. conform w s)" for s
    using ball_simps(9) [of snd "set (enumerate 0 ws)" "\<lambda>w. conform w s"]
    by (simp add: assms case_prod_unfold flip: set_map)
  have unique: "\<not> (Option.bind (map_of keys ''uniqueItems'') json_as_bool = Some True \<and> has_duplicate [] ws) \<longleftrightarrow> items_unique (JArray ws) keys"
    by (cases "map_of keys ''uniqueItems''") (auto simp: items_unique_def has_duplicate_iff json_views)
  have "(case map_of keys ''items'' of None \<Rightarrow> Inr ()
         | Some s \<Rightarrow> validate_each (\<lambda>(i, item). sub item s (path @ ''['' @ decimal i @ '']'')) (enumerate 0 ws)) = Inr ()
      \<longleftrightarrow> items_conform conform (JArray ws) keys"
  proof (cases "map_of keys ''items''")
    case (Some s)
    then show ?thesis
      using each [of s] by (simp add: validate_each_iff items_conform_def case_prod_unfold)
  qed (simp add: items_conform_def)
  then show ?thesis
    by (simp only: check_array_def JArray json_as_array_def json.case option.case unit_bind_iff ensure_iff validate_usize_bound_iff unique) blast
qed (simp_all add: check_array_def json_as_array_def items_unique_def items_conform_def)

lemma check_json_text_iff: "check_json_text v keys path = Inr () \<longleftrightarrow>
    (\<forall>s. v = JString s \<longrightarrow> size_within (json_char_count s) keys ''minLength'' ''maxLength'')"
  by (cases v) (simp_all add: check_json_text_def json_as_str_def validate_usize_bound_iff)

text \<open>The check accepts exactly the values that conform.\<close>

lemma validate_levels_iff: "validate_levels n root v schema path = Inr () \<longleftrightarrow> conforms n root v schema"
proof (induction n arbitrary: v schema path)
  case (Suc n)
  let ?sub = "validate_levels n root"
  note parts = check_reference_iff [of ?sub] check_branches_iff [of ?sub] check_object_iff [of ?sub "conforms n root", OF Suc.IH]
    check_array_iff [of ?sub "conforms n root", OF Suc.IH] check_constants_iff check_type_iff check_json_text_iff check_number_iff
  show ?case
  proof (cases schema)
    case (JObject keys)
    have "validate_schema_node ?sub v schema root path = Inr () \<longleftrightarrow>
      check_reference ?sub v keys root path = Inr () \<and> check_constants v keys path = Inr ()
      \<and> (\<forall>k\<in>set [''allOf'', ''anyOf'', ''oneOf'']. check_branches ?sub v keys path k = Inr ())
      \<and> check_type v keys path = Inr () \<and> check_object ?sub v keys path = Inr () \<and> check_array ?sub v keys path = Inr ()
      \<and> check_json_text v keys path = Inr () \<and> check_number v keys path = Inr ()"
      by (simp add: JObject validate_schema_node_def json_as_bool_def json_as_object_def ok_or_def unit_bind_iff validate_each_iff
        del: validate_each.simps)
    then show ?thesis
      unfolding parts by (auto simp: JObject Suc.IH sizes_within_def)
  qed (auto simp: validate_schema_node_def json_as_bool_def json_as_object_def ok_or_def ensure_def)
qed simp

subsection \<open>What reaches the server\<close>

lemma validate_json_shapeD:
  "validate_json_shape arguments schema = Inr () \<Longrightarrow> conforms 65 schema arguments schema \<and> json_as_object arguments \<noteq> None"
  unfolding validate_json_shape_def validate_json_value_def by (auto simp: res_simps validate_levels_iff simp del: conforms.simps)

lemma parse_tools_sound:
  "parse_tools env seen vs = Inr ts \<Longrightarrow> t \<in> set ts \<Longrightarrow>
    is_ok (mcp_identifier (dt_name t)) \<and> me_size env (dt_schema t) \<le> MAX_SCHEMA_BYTES \<and> dt_name t \<notin> set seen"
proof (induction vs arbitrary: seen ts)
  case (Cons v vs)
  then obtain name schema ts' where "mcp_identifier name = Inr ()" "name \<notin> set seen" "me_size env schema \<le> MAX_SCHEMA_BYTES"
    "parse_tools env (name # seen) vs = Inr ts'" "ts = \<lparr>dt_name = name, dt_schema = schema\<rparr> # ts'"
    by (auto simp: res_simps Let_def)
  with Cons.IH [of "name # seen" ts'] Cons.prems(2) show ?case by auto
qed simp

lemma run_then_sent:
  assumes "m \<in> set (mu_sent (run_then r f))" "m \<notin> set (mu_sent r)"
  shows "\<exists>a. mu_result r = Some (Inr a) \<and> m \<in> set (mu_sent (f a (mu_sent r) (mu_events r)))"
  using assms unfolding run_then_def by (auto split: option.splits sum.splits)

lemma run_parts:
  "mu_sent (check_now c sent es) = sent" "mu_events (check_now c sent es) = es" "mu_result (check_now c sent es) = Some c"
  "mu_sent (receive_json env rid sent es) = sent"
  by (simp_all add: check_now_def receive_json_def split_beta Let_def)

lemma send_json_sent: "set (mu_sent (send_json env v sent es)) \<subseteq> insert v (set sent)"
  by (auto simp: send_json_def split_beta Let_def)

lemma rpc_methods: "rpc (Some 1) ''initialize'' p \<noteq> call_message t v" "rpc None ''notifications/initialized'' p \<noteq> call_message t v"
  "rpc (Some 2) ''tools/list'' p \<noteq> call_message t v" "call_message t v = call_message t' v' \<longleftrightarrow> t = t' \<and> v = v'"
  by (simp_all add: rpc_def call_message_def)

text \<open>What ended a wait is the last event it took; without it the wait goes on.\<close>

lemma await_write_taken:
  "await_write es = (Some x, es') \<Longrightarrow> \<exists>us. es = us @ es' \<and> (\<forall>ys. await_write (us @ ys) = (Some x, ys))"
proof (induction es)
  case (Cons e es)
  show ?case
  proof (cases "await_write (e # es) = await_write es")
    case True
    with Cons obtain us where us: "es = us @ es'" "\<forall>ys. await_write (us @ ys) = (Some x, ys)" by auto
    have "await_write ((e # us) @ ys) = (Some x, ys)" for ys using True us Cons.prems by (cases e) auto
    with us(1) show ?thesis by (intro exI [of _ "e # us"]) simp
  next
    case False
    with Cons.prems show ?thesis by (intro exI [of _ "[e]"]) (cases e; auto)
  qed
qed simp

lemma response_taken:
  "wait_for_response env rid es = (Some x, es') \<Longrightarrow> \<exists>us. es = us @ es' \<and> (\<forall>ys. wait_for_response env rid (us @ ys) = (Some x, ys))"
proof (induction es)
  case (Cons e es)
  have "(\<forall>zs. wait_for_response env rid (e # zs) = wait_for_response env rid zs) \<or> (\<exists>y. \<forall>zs. wait_for_response env rid (e # zs) = (Some y, zs))"
    by (cases e) (auto split: option.splits)
  then show ?case
  proof
    assume "\<forall>zs. wait_for_response env rid (e # zs) = wait_for_response env rid zs"
    with Cons obtain us where "es = us @ es'" "\<forall>ys. wait_for_response env rid ((e # us) @ ys) = (Some x, ys)"
      by (metis append_Cons)
    then show ?thesis by (intro exI [of _ "e # us"]) simp
  next
    assume "\<exists>y. \<forall>zs. wait_for_response env rid (e # zs) = (Some y, zs)"
    with Cons.prems show ?thesis by (intro exI [of _ "[e]"]) (metis append_Cons append_Nil prod.inject)
  qed
qed simp

lemma response_line:
  "wait_for_response env rid es = (Some (Inr r), es') \<Longrightarrow>
    \<exists>us line v. es = us @ EvLine line # es' \<and> wait_for_response env rid us = (None, []) \<and> me_json env line = Some v
      \<and> json_get ''result'' v = Some r \<and> Option.bind (json_get ''id'' v) json_as_u64 = Some rid"
proof (induction es)
  case (Cons e es)
  have "(\<forall>zs. wait_for_response env rid (e # zs) = wait_for_response env rid zs)
    \<or> (\<exists>y. \<forall>zs. wait_for_response env rid (e # zs) = (Some y, zs))"
    by (cases e) (auto split: option.splits)
  then show ?case
  proof
    assume skip: "\<forall>zs. wait_for_response env rid (e # zs) = wait_for_response env rid zs"
    with Cons obtain us line v where "es = us @ EvLine line # es'" "wait_for_response env rid us = (None, [])"
      "me_json env line = Some v" "json_get ''result'' v = Some r" "Option.bind (json_get ''id'' v) json_as_u64 = Some rid" by auto
    with skip show ?thesis by (intro exI [of _ "e # us"]) auto
  next
    assume stop: "\<exists>y. \<forall>zs. wait_for_response env rid (e # zs) = (Some y, zs)"
    with Cons.prems have now: "wait_for_response env rid [e] = (Some (Inr r), [])" and es: "es' = es" by auto
    have "\<exists>line v. e = EvLine line \<and> me_json env line = Some v \<and> json_get ''result'' v = Some r
        \<and> Option.bind (json_get ''id'' v) json_as_u64 = Some rid"
      using now by (cases e) (auto simp: ok_or_iff split: option.splits if_splits)
    then obtain line v where "e = EvLine line" "me_json env line = Some v" "json_get ''result'' v = Some r"
      "Option.bind (json_get ''id'' v) json_as_u64 = Some rid" by blast
    then show ?thesis using es by (intro exI [of _ "[]"] exI [of _ line] exI [of _ v]) simp
  qed
qed simp

lemma send_json_taken:
  assumes "mu_result (send_json env v sent es) = Some (Inr a)"
  obtains us es' where "es = us @ es'"
    "\<And>ys. send_json env v sent (us @ ys) = \<lparr>mu_sent = sent @ [v], mu_events = ys, mu_result = Some (Inr ())\<rparr>"
proof -
  obtain x es' where w: "await_write es = (x, es')" by force
  with assms have "\<not> me_size env v > MAX_ARGUMENT_BYTES" "x = Some (Inr ())"
    by (auto simp: send_json_def split: if_splits)
  from await_write_taken [of es "Inr ()" es'] w this that show thesis by (auto simp: send_json_def)
qed

lemma receive_json_taken:
  assumes "mu_result (receive_json env rid sent es) = Some (Inr a)"
  obtains us es' where "es = us @ es'"
    "\<And>ys. receive_json env rid sent (us @ ys) = \<lparr>mu_sent = sent, mu_events = ys, mu_result = Some (Inr a)\<rparr>"
proof -
  obtain x es' where w: "wait_for_response env rid es = (x, es')" by force
  with assms have "x = Some (Inr a)" by (simp_all add: receive_json_def)
  from response_taken [of env rid es "Inr a" es'] w this that show thesis by (auto simp: receive_json_def)
qed

lemma run_thenE:
  assumes "m \<in> set (mu_sent (run_then r f))"
    and "m \<in> set (mu_sent r) \<Longrightarrow> thesis"
    and "\<And>a. mu_result r = Some (Inr a) \<Longrightarrow> m \<in> set (mu_sent (f a (mu_sent r) (mu_events r))) \<Longrightarrow> thesis"
  shows thesis
  using assms run_then_sent by fast

lemma run_then_result [res_simps]:
  "mu_result (run_then r f) = Some (Inr b) \<longleftrightarrow>
     (\<exists>a. mu_result r = Some (Inr a) \<and> mu_result (f a (mu_sent r) (mu_events r)) = Some (Inr b))"
  by (auto simp: run_then_def split: option.splits sum.splits)

lemma run_then_Inr: "run_then \<lparr>mu_sent = sent, mu_events = es, mu_result = Some (Inr a)\<rparr> f = f a sent es"
  by (simp add: run_then_def)

lemma run_then_weak_cong: "r = r' \<Longrightarrow> run_then r f = run_then r' f"
  by simp

lemma handshake_sent:
  "m \<in> set (mu_sent (mcp_handshake env es)) \<Longrightarrow>
    m \<in> {rpc (Some 1) ''initialize'' initialize_params, rpc None ''notifications/initialized'' (JObject []),
      rpc (Some 2) ''tools/list'' (JObject [])}"
  unfolding mcp_handshake_def
  by (auto simp: run_parts elim!: run_thenE dest!: send_json_sent [THEN subsetD])

lemma handshake_reply:
  assumes "mu_result (mcp_handshake env es) = Some (Inr discovered)"
  shows "\<exists>us line reply rest. es = us @ EvLine line # rest \<and> mu_result (mcp_handshake env us) = None
    \<and> me_json env line = Some reply \<and> json_get ''result'' reply = Some discovered
    \<and> Option.bind (json_get ''id'' reply) json_as_u64 = Some 2"
proof -
  let ?hello = "rpc (Some 1) ''initialize'' initialize_params"
  let ?ready = "rpc None ''notifications/initialized'' (JObject [])"
  let ?list = "rpc (Some 2) ''tools/list'' (JObject [])"
  from assms obtain a where r1: "mu_result (send_json env ?hello [] es) = Some (Inr a)"
    unfolding mcp_handshake_def by (auto simp: res_simps)
  obtain u1 e1 where u1: "es = u1 @ e1"
    "\<And>ys. send_json env ?hello [] (u1 @ ys) = \<lparr>mu_sent = [?hello], mu_events = ys, mu_result = Some (Inr ())\<rparr>" by (rule send_json_taken [OF r1]) (rule that, assumption, simp)
  from assms obtain b where r2: "mu_result (receive_json env 1 [?hello] e1) = Some (Inr b)"
    unfolding mcp_handshake_def by (auto simp: res_simps u1)
  obtain u2 e2 where u2: "e1 = u2 @ e2"
    "\<And>ys. receive_json env 1 [?hello] (u2 @ ys) = \<lparr>mu_sent = [?hello], mu_events = ys, mu_result = Some (Inr b)\<rparr>" by (rule receive_json_taken [OF r2]) (rule that, assumption, simp)
  from assms obtain c where r3: "mu_result (send_json env ?ready [?hello] e2) = Some (Inr c)"
    unfolding mcp_handshake_def by (auto simp: res_simps u1 u2)
  obtain u3 e3 where u3: "e2 = u3 @ e3"
    "\<And>ys. send_json env ?ready [?hello] (u3 @ ys) = \<lparr>mu_sent = [?hello, ?ready], mu_events = ys, mu_result = Some (Inr ())\<rparr>" by (rule send_json_taken [OF r3]) (rule that, assumption, simp)
  from assms obtain d where r4: "mu_result (send_json env ?list [?hello, ?ready] e3) = Some (Inr d)"
    unfolding mcp_handshake_def by (auto simp: res_simps u1 u2 u3)
  obtain u4 e4 where u4: "e3 = u4 @ e4"
    "\<And>ys. send_json env ?list [?hello, ?ready] (u4 @ ys) = \<lparr>mu_sent = [?hello, ?ready, ?list], mu_events = ys, mu_result = Some (Inr ())\<rparr>" by (rule send_json_taken [OF r4]) (rule that, assumption, simp)
  from assms have "mu_result (receive_json env 2 [?hello, ?ready, ?list] e4) = Some (Inr discovered)"
    unfolding mcp_handshake_def by (auto simp: res_simps u1 u2 u3 u4)
  then obtain rest where "wait_for_response env 2 e4 = (Some (Inr discovered), rest)"
    by (cases "wait_for_response env 2 e4") (auto simp: receive_json_def)
  from response_line [OF this] obtain u5 line v where u5: "e4 = u5 @ EvLine line # rest" "wait_for_response env 2 u5 = (None, [])"
    "me_json env line = Some v" "json_get ''result'' v = Some discovered" "Option.bind (json_get ''id'' v) json_as_u64 = Some 2" by auto
  have "mu_result (mcp_handshake env (u1 @ u2 @ u3 @ u4 @ u5)) = None"
    unfolding mcp_handshake_def u1(2) u2(2) u3(2) u4(2) run_then_Inr by (simp add: receive_json_def u5(2))
  with u5 show ?thesis by (intro exI [of _ "u1 @ u2 @ u3 @ u4 @ u5"]) (auto simp: u1(1) u2(1) u3(1) u4(1))
qed

lemma unanswered_sends_no_call:
  assumes "mu_result (mcp_handshake env es) = None"
  shows "call_message t v \<notin> set (mu_sent (execute_mcp_tool env s root inherited tool arguments cancelled spawned es))"
proof
  assume "call_message t v \<in> set (mu_sent (execute_mcp_tool env s root inherited tool arguments cancelled spawned es))"
  then have "call_message t v \<in> set (mu_sent (discover_and_invoke env tool arguments es))"
    unfolding execute_mcp_tool_def by (auto simp: run_parts elim!: run_thenE)
  with assms have "call_message t v \<in> set (mu_sent (mcp_handshake env es))"
    by (simp add: discover_and_invoke_def run_then_def)
  then show False by (auto simp: rpc_methods(1-3) [THEN not_sym] dest: handshake_sent)
qed


definition sample_tools :: json where
  "sample_tools = JObject [(''tools'', JArray [JObject [(''name'', JString ''search''),
     (''inputSchema'', JObject [(''type'', JString ''object''), (''additionalProperties'', JBool False),
       (''properties'', JObject [(''q'', JObject [(''type'', JString ''string''), (''maxLength'', JNumber (PosInt 5))])])])]])]"

definition sample_mcp :: mcp_env where
  "sample_mcp = \<lparr>me_lstat = \<lambda>_. None, me_canonical = Some, me_is_dir = \<lambda>_. True, me_read = \<lambda>_. None,
     me_config = \<lambda>_. None,
     me_json = \<lambda>line. if line = ''1'' then Some (JObject [(''id'', JNumber (PosInt 1)), (''result'', JNull)])
       else if line = ''2'' then Some (JObject [(''id'', JNumber (PosInt 2)), (''result'', sample_tools)]) else None,
     me_size = \<lambda>_. 1, me_redact = (\<lambda>v. v), me_credential = \<lambda>_. Inr None\<rparr>"

definition sample_server :: mcp_server where
  "sample_server = \<lparr>ms_id = ''docs'', ms_command = ''/usr/bin/docs'', ms_args = [], ms_cwd = None, ms_enabled = True,
     ms_credential_refs = [], ms_tool_policies = [(''search'', McpReadOnly)]\<rparr>"

definition sample_arguments :: json where "sample_arguments = JObject [(''q'', JString ''abc'')]"

definition sample_schema :: json where
  "sample_schema = JObject [(''type'', JString ''object''), (''additionalProperties'', JBool False),
       (''properties'', JObject [(''q'', JObject [(''type'', JString ''string''), (''maxLength'', JNumber (PosInt 5))])])]"

lemma sample_conversation:
  "mcp_child_of sample_mcp sample_server ''/w'' [] = Inr \<lparr>mch_program = ''/usr/bin/docs'', mch_args = [], mch_cwd = ''/w'', mch_vars = []\<rparr>"
  "parse_discovered_tools sample_mcp sample_tools = Inr [\<lparr>dt_name = ''search'', dt_schema = sample_schema\<rparr>]"
  "validate_schema_node sub (JString ''abc'') (JObject [(''type'', JString ''string''), (''maxLength'', JNumber (PosInt 5))]) root path = Inr ()"
  subgoal by (simp add: mcp_child_of_def sample_server_def resolve_executable_def has_root_def starts_with_def
      resolve_cwd_def mcp_child_environment_def)
  subgoal by (simp add: parse_discovered_tools_def sample_tools_def json_get_def json_as_array_def ok_or_def ensure_def
      json_as_object_def json_as_str_def MAX_TOOLS_def MAX_SCHEMA_BYTES_def sample_mcp_def sample_schema_def
      mcp_identifier_def alphanumeric_defs)
  subgoal by (simp add: validate_schema_node_def json_as_bool_def json_as_object_def json_as_array_def json_as_str_def
      check_reference_def check_constants_def check_branches_def check_type_def check_object_def check_array_def
      check_json_text_def check_number_def ok_or_def ensure_def json_type_matches_def validate_usize_bound_def
      json_as_f64_def json_as_u64_def json_char_count_def)
  done

lemma sample_arguments_object: "json_as_object sample_arguments = Some [(''q'', JString ''abc'')]"
  by (simp add: sample_arguments_def json_as_object_def)

lemma sample_size: "me_size sample_mcp v = 1"
  by (simp add: sample_mcp_def)

lemma sample_validates: "validate_json_shape sample_arguments sample_schema = Inr ()"
proof -
  have 65: "65 = Suc (Suc 63)" by simp
  have "validate_levels 65 sample_schema sample_arguments sample_schema ''$'' = Inr ()"
    unfolding 65 validate_levels.simps sample_arguments_def sample_schema_def
    by (simp add: validate_schema_node_def [where schema = "JObject x" and sub = "\<lambda>v s p. validate_schema_node y v s z p" for x y z]
      json_as_bool_def json_as_object_def json_as_array_def json_as_str_def
      check_reference_def check_constants_def check_branches_def check_type_def check_object_def check_array_def
      check_required_def check_property_def property_schema_def known_property_def sample_conversation
      check_json_text_def check_number_def ok_or_def ensure_def json_type_matches_def validate_usize_bound_def
      json_as_f64_def json_as_u64_def)
  then show ?thesis by (simp add: validate_json_shape_def validate_json_value_def sample_arguments_def json_as_object_def ensure_def)
qed

lemma sample_handshake:
  "mcp_handshake sample_mcp [EvWritten, EvLine ''1'', EvWritten, EvNothing, EvWritten, EvLine ''hello'', EvLine ''2'', EvWritten]
   = \<lparr>mu_sent = [rpc (Some 1) ''initialize'' initialize_params, rpc None ''notifications/initialized'' (JObject []),
       rpc (Some 2) ''tools/list'' (JObject [])], mu_events = [EvWritten], mu_result = Some (Inr sample_tools)\<rparr>"
  by (simp add: mcp_handshake_def run_then_def sample_mcp_def MAX_ARGUMENT_BYTES_def send_json_def receive_json_def
      MAX_RESULT_BYTES_def json_get_def json_as_u64_def ok_or_def cong: run_then_weak_cong)


end
