(* ===== verification/Native_Gate.thy ===== *)
theory Native_Gate
  imports Mcp
begin

text \<open>
  The gate in front of the native tools (native/runtime.rs): what a call must pass before the
  user is asked, the issue of its capability, and what is checked again when it is dispatched.
  The state is the store of capabilities and the terminal broker; the sessions, profiles and
  processes, the paths of the file system and the preview of a file operation are answers of
  the world. A dispatch ends, here, with the executor that is chosen.
\<close>

subsection \<open>Data\<close>

definition DEFAULT_CAPABILITY_TTL_MS :: u64 where "DEFAULT_CAPABILITY_TTL_MS = 120000"

record native_context =
  nx_request :: agent_request
  nx_turn_id :: string
  nx_step_id :: string

record authorize_request =
  au_request_id :: string
  au_call_id :: string
  au_tool_name :: string
  au_arguments :: json
  au_target :: tool_target
  au_ttl_ms :: "u64 option"

record prepared_authorization =
  pp_reviewed :: "reviewed_command option"
  pp_context :: native_context
  pp_call :: tool_call
  pp_effect :: observed_effect
  pp_ttl_ms :: u64
  pp_requires_confirmation :: bool
  pp_prompt :: string

record prepared_mcp =
  pm_context :: native_context
  pm_call :: tool_call
  pm_server :: mcp_server
  pm_tool_name :: string
  pm_workspace :: string
  pm_effect :: observed_effect
  pm_ttl_ms :: u64
  pm_prompt :: string

record capability_grant =
  cg_capability_id :: string
  cg_arguments :: json

record call_preview =
  pv_summary :: string
  pv_diff :: "string option"

datatype (plugins only: code size) session_state = SessionConnecting | SessionConnected | SessionDisconnected | SessionError

record session_view =
  st_local :: bool
  st_host :: string
  st_port :: u16
  st_username :: string
  st_status :: session_state

record stored_profile =
  sp_host :: string
  sp_port :: u16
  sp_username :: string

record process_owner =
  po_target_id :: string
  po_owner_target_id :: string
  po_request_id :: string
  po_task_id :: string

datatype (plugins only: code size) gate_error =
    GateRequestInvalid | GateIdentifier | GateHostTargets | GateOutsideSession
  | GateRegistry registry_error | GateArguments contract_error
  | GateTargetUnavailable | GateDatabase | GateBroker broker_error | GateJobOwner | GateProcessUnknown | GateProcessOwner
  | GateEndless | GatePolicy policy_error | GateStorageArguments | GateStorageDenied | GateTtl | GatePreview
  | GateApprovalDenied | GateIssue capability_error | GateRevoke capability_error | GateVerify verify_failure
  | GateDenied policy_reason | GateReview capability_error | GateConsume capability_error
  | GateMcp mcp_error | GateMcpTarget | GateMcpArguments | GateNoExecutor

record gate_world =
  gw_sessions :: "string \<rightharpoonup> session_view"
  gw_profiles :: "string \<Rightarrow> gate_error + stored_profile option"
  gw_processes :: "string \<rightharpoonup> process_owner"
  gw_checkpoint_root :: "string option"
  gw_canonical :: "path_component list \<Rightarrow> path_component list option"
  gw_preview :: "tool_call \<Rightarrow> call_preview option"
  gw_review :: review_env
  gw_mcp :: mcp_env

record gate_env =
  ge_contract :: contract_env
  ge_shell :: shell_env
  ge_registry :: tool_registry
  ge_hash :: keyed_hash
  ge_digest :: "string \<times> string \<times> string \<times> json \<times> tool_target \<Rightarrow> string"

record 'p engine =
  en_store :: capability_store
  en_broker :: "('p, tool_target) broker_state"

type_synonym ('p, 'a) gate_outcome = "('p engine, gate_error, 'a) outcome"

definition map_err :: "('e \<Rightarrow> 'f) \<Rightarrow> 'e + 'a \<Rightarrow> 'f + 'a" where
  "map_err f r = (case r of Inl e \<Rightarrow> Inl (f e) | Inr a \<Rightarrow> Inr a)"

lemma map_err_iff [res_simps]: "map_err f r = Inr a \<longleftrightarrow> r = Inr a" "map_err f r = Inl y \<longleftrightarrow> (\<exists>x. r = Inl x \<and> y = f x)"
  by (auto simp: map_err_def split: sum.splits)

subsection \<open>The frozen context\<close>

definition has_whitespace :: "string \<Rightarrow> bool" where
  "has_whitespace v \<longleftrightarrow> length (unicode_pieces [] v) \<noteq> 1"

definition native_identifier :: "string \<Rightarrow> gate_error + unit" where
  "native_identifier v = ensure (v \<noteq> [] \<and> length v \<le> 256 \<and> \<not> has_control_char v \<and> \<not> has_whitespace v) GateIdentifier"

definition validate_context :: "native_context \<Rightarrow> gate_error + unit" where
  "validate_context x =
     try_bind (ensure (validate_agent_request (nx_request x)) GateRequestInvalid) (\<lambda>_.
     try_bind (native_identifier (nx_turn_id x)) (\<lambda>_.
     try_bind (native_identifier (nx_step_id x)) (\<lambda>_.
     ensure (length (filter (\<lambda>t. kind_of_target t \<noteq> KindProcess) (ar_targets (nx_request x))) = 1) GateHostTargets)))"

text \<open>\<open>call\_digest\<close>: SHA-256 of the JSON of these five parts, in hexadecimal; the encoding cannot fail.\<close>

definition digest_input :: "tool_call \<Rightarrow> string \<times> string \<times> string \<times> json \<times> tool_target" where
  "digest_input c = (tc_request_id c, tc_call_id c, tc_tool_name c, tc_arguments c, tc_target c)"

definition call_digest :: "gate_env \<Rightarrow> tool_call \<Rightarrow> string" where
  "call_digest env c = ge_digest env (digest_input c)"

subsection \<open>The target is still the one that was frozen\<close>

definition revalidate_local :: "gate_world \<Rightarrow> string \<Rightarrow> gate_error + unit" where
  "revalidate_local w session =
     try_bind (ok_or (gw_sessions w session) GateTargetUnavailable) (\<lambda>s.
     ensure (st_local s \<and> st_status s = SessionConnected \<and> st_host s = ''local'') GateTargetUnavailable)"

definition revalidate_remote ::
  "gate_world \<Rightarrow> string \<Rightarrow> string option \<Rightarrow> string \<Rightarrow> u16 \<Rightarrow> string \<Rightarrow> gate_error + unit" where
  "revalidate_remote w session profile host port user =
     try_bind (ok_or (gw_sessions w session) GateTargetUnavailable) (\<lambda>s.
     try_bind (ensure (\<not> st_local s \<and> st_status s = SessionConnected \<and> st_host s = host \<and> st_port s = port
       \<and> st_username s = user) GateTargetUnavailable) (\<lambda>_.
     case profile of None \<Rightarrow> Inr ()
     | Some pid \<Rightarrow>
         try_bind (gw_profiles w pid) (\<lambda>found.
         try_bind (ok_or found GateTargetUnavailable) (\<lambda>p.
         ensure (sp_host p = host \<and> sp_port p = port \<and> sp_username p = user) GateTargetUnavailable))))"

definition revalidate_process :: "gate_world \<Rightarrow> native_context \<Rightarrow> string \<Rightarrow> string \<Rightarrow> string \<Rightarrow> gate_error + unit" where
  "revalidate_process w x target owner handle =
     try_bind (ok_or (gw_processes w handle) GateProcessUnknown) (\<lambda>p.
     ensure (po_target_id p = target \<and> po_owner_target_id p = owner
       \<and> po_request_id p = ar_request_id (nx_request x) \<and> po_task_id p = ar_task_id (nx_request x)) GateProcessOwner)"

text \<open>
  A job of the shell is followed to the target it was started on. The recursion has no bound in the
  code; \<open>None\<close> is a chain of jobs that never ends.
\<close>

partial_function (option) revalidate_chain ::
  "gate_world \<Rightarrow> native_context \<Rightarrow> tool_target \<Rightarrow> ('p, tool_target) broker_state
    \<Rightarrow> ((gate_error + unit) \<times> ('p, tool_target) broker_state) option" where
  "revalidate_chain w x t b = (case t of
     TargetLocal _ session _ \<Rightarrow> Some (revalidate_local w session, b)
   | TargetRemote _ session profile host port user _ _ \<Rightarrow> Some (revalidate_remote w session profile host port user, b)
   | TargetProcess target owner handle \<Rightarrow>
       if starts_with ''job-'' handle then
         (case shell_job_of handle owner (ar_user_session_id (nx_request x)) (ar_task_id (nx_request x)) b of
            (Inl e, b') \<Rightarrow> Some (Inl (GateBroker e), b')
          | (Inr j, b') \<Rightarrow>
              if target \<noteq> ''process-'' @ handle then Some (Inl GateJobOwner, b')
              else if job_control_lost j then Some (Inr (), b')
              else revalidate_chain w x (job_target j) b')
       else Some (revalidate_process w x target owner handle, b))"

declare revalidate_chain.simps [code]

definition revalidate_target :: "gate_world \<Rightarrow> native_context \<Rightarrow> tool_target \<Rightarrow> 'p engine \<Rightarrow> ('p, unit) gate_outcome" where
  "revalidate_target w x t s = (case revalidate_chain w x t (en_broker s) of
     None \<Rightarrow> op_err GateEndless s
   | Some (r, b) \<Rightarrow> (r, s\<lparr>en_broker := b\<rparr>))"

subsection \<open>ShellSpan's own storage is out of reach\<close>

text \<open>The nearest ancestor that exists, resolved, with the rest of the path behind it.\<close>

fun resolve_existing :: "(path_component list \<Rightarrow> path_component list option) \<Rightarrow> nat \<Rightarrow> path_component list \<Rightarrow> path_component list" where
  "resolve_existing canonical 0 p = p"
| "resolve_existing canonical (Suc n) p = (case canonical (take (Suc n) p) of
     Some base \<Rightarrow> base @ drop (Suc n) p
   | None \<Rightarrow> resolve_existing canonical n p)"

definition storage_paths :: "contract_env \<Rightarrow> tool_call \<Rightarrow> effect_kind \<Rightarrow> call_scope \<Rightarrow> gate_error + string list option" where
  "storage_paths env c kind scope = (case tc_target c of
     TargetLocal _ _ _ \<Rightarrow> Inr (if kind \<in> {StateChange, Destructive} then Some (cs_paths scope) else None)
   | TargetRemote _ _ _ _ _ _ _ (Some root) \<Rightarrow>
       if tc_tool_name c = ''transfer_file'' then
         try_bind (ok_or (ce_transfer env (tc_arguments c)) GateStorageArguments) (\<lambda>a.
         Inr (case xf_direction a of Download \<Rightarrow> Some [path_join root (xf_destination a)] | Upload \<Rightarrow> None))
       else Inr None
   | _ \<Rightarrow> Inr None)"

definition enforce_runtime_storage_policy ::
  "contract_env \<Rightarrow> gate_world \<Rightarrow> tool_call \<Rightarrow> effect_kind \<Rightarrow> call_scope \<Rightarrow> gate_error + unit" where
  "enforce_runtime_storage_policy env w c kind scope =
     try_bind (storage_paths env c kind scope) (\<lambda>paths. case (paths, gw_checkpoint_root w) of
       (Some ps, Some stored) \<Rightarrow>
         let root = path_components stored;
             root = (case gw_canonical w root of None \<Rightarrow> root | Some r \<Rightarrow> r)
         in ensure (\<not> list_ex (\<lambda>p. let q = resolve_existing (gw_canonical w) (length (path_components p)) (path_components p)
              in take (length root) q = root) ps) GateStorageDenied
     | _ \<Rightarrow> Inr ())"

subsection \<open>Authorization\<close>

definition join_with :: "string \<Rightarrow> string list \<Rightarrow> string" where
  "join_with sep xs = (case xs of [] \<Rightarrow> [] | y # ys \<Rightarrow> y @ concat (map (\<lambda>s. sep @ s) ys))"

definition native_prompt :: "native_context \<Rightarrow> tool_call \<Rightarrow> effect_kind \<Rightarrow> call_scope \<Rightarrow> call_preview \<Rightarrow> u64 \<Rightarrow> string" where
  "native_prompt x c kind scope preview ttl =
     ''Allow '' @ tc_tool_name c @ '' on '' @ target_of (tc_target c) @ '' for Session task '' @ ar_task_id (nx_request x)
     @ '' / turn '' @ nx_turn_id x @ '' / step '' @ nx_step_id x @ ''?'' @ [NEWLINE, NEWLINE]
     @ ''Native effect: '' @ effect_name kind @ [NEWLINE] @ ''Sensitive paths: '' @ decimal (cs_sensitive scope) @ [NEWLINE]
     @ ''Network destinations: '' @ (if cs_network scope = [] then ''none'' else join_with '', '' (map (\<lambda>d.
         nd_protocol d @ ''://'' @ nd_host d @ '':'' @ decimal (unat (nd_port d))) (cs_network scope))) @ [NEWLINE]
     @ ''TTL: '' @ decimal (unat ttl) @ '' ms'' @ [NEWLINE] @ pv_summary preview
     @ (case pv_diff preview of None \<Rightarrow> [] | Some d \<Rightarrow> [NEWLINE, NEWLINE] @ ''Exact diff:'' @ [NEWLINE] @ d)"

definition PENDING_CAPABILITY :: string where "PENDING_CAPABILITY = ''pending-native-capability''"

definition call_of_input :: "authorize_request \<Rightarrow> tool_call" where
  "call_of_input i = \<lparr>tc_request_id = au_request_id i, tc_call_id = au_call_id i, tc_tool_name = au_tool_name i,
     tc_arguments = au_arguments i, tc_target = au_target i, tc_capability_id = PENDING_CAPABILITY\<rparr>"

text \<open>What both ends of the gate check of the call: effect, scope and the two policies.\<close>

definition assess_call :: "gate_env \<Rightarrow> gate_world \<Rightarrow> registered_tool \<Rightarrow> tool_call \<Rightarrow> gate_error + observed_effect \<times> call_scope" where
  "assess_call env w tool c =
     try_bind (map_err GatePolicy (assess_effect (ge_contract env) (ge_shell env) (rt_descriptor tool) c)) (\<lambda>effect.
     try_bind (map_err GatePolicy (inspect_call_scope (ge_contract env) c)) (\<lambda>scope.
     try_bind (map_err GatePolicy (enforce_call_policy (ge_shell env) c (oe_kind effect) scope)) (\<lambda>_.
     try_bind (enforce_runtime_storage_policy (ge_contract env) w c (oe_kind effect) scope) (\<lambda>_.
     Inr (effect, scope)))))"

definition prepare_authorization ::
  "gate_env \<Rightarrow> gate_world \<Rightarrow> native_context \<Rightarrow> authorize_request \<Rightarrow> 'p engine \<Rightarrow> ('p, prepared_authorization) gate_outcome" where
  "prepare_authorization env w x i s =
     op_bind (op_check (validate_context x) s) (\<lambda>_ s.
     op_bind (op_check (ensure (ar_request_id (nx_request x) = au_request_id i
       \<and> au_target i \<in> set (ar_targets (nx_request x))) GateOutsideSession) s) (\<lambda>_ s.
     op_bind (op_check (map_err GateRegistry (executable_tool (ge_registry env) (au_tool_name i))) s) (\<lambda>tool s.
     op_bind (op_check (map_err GateArguments (validate_tool_arguments (ge_contract env) (au_tool_name i) (au_arguments i))) s) (\<lambda>_ s.
     let c = call_of_input i in
     op_bind (revalidate_target w x (tc_target c) s) (\<lambda>_ s.
     op_bind (op_check (assess_call env w tool c) s) (\<lambda>(effect, scope) s.
     let ttl = (case au_ttl_ms i of None \<Rightarrow> DEFAULT_CAPABILITY_TTL_MS | Some t \<Rightarrow> t) in
     op_bind (op_check (ensure (ttl \<noteq> 0 \<and> ttl \<le> MAX_CAPABILITY_TTL_MS) GateTtl) s) (\<lambda>_ s.
     op_bind (op_check (ok_or (gw_preview w c) GatePreview) s) (\<lambda>preview s.
     let review = review_call (ge_contract env) (ge_shell env) (gw_review w) (ar_permission_mode (nx_request x)) c
           (oe_kind effect) scope
     in op_ok \<lparr>pp_reviewed = av_command review, pp_context = x, pp_call = c,
          pp_effect = effect\<lparr>oe_summary := oe_summary effect @ '' Approval review: '' @ av_reason review @ ''.''\<rparr>,
          pp_ttl_ms = ttl, pp_requires_confirmation = av_requires_approval review,
          pp_prompt = native_prompt x c (oe_kind effect) scope preview ttl @ [NEWLINE] @ ''Approval review: '' @ av_reason review\<rparr> s))))))))"

definition issue_request ::
  "gate_env \<Rightarrow> reviewed_command option \<Rightarrow> native_context \<Rightarrow> tool_call \<Rightarrow> effect_kind \<Rightarrow> u64 \<Rightarrow> capability_issue" where
  "issue_request env reviewed x c kind ttl = \<lparr>ci_reviewed = reviewed, ci_request_id = ar_request_id (nx_request x),
     ci_user_session_id = ar_user_session_id (nx_request x), ci_call_id = tc_call_id c, ci_call_digest = call_digest env c,
     ci_allowed_tools = [tc_tool_name c], ci_allowed_effects = [kind], ci_target_ids = [target_of (tc_target c)],
     ci_ttl_ms = ttl, ci_max_uses = 1\<rparr>"

definition issue_grant ::
  "gate_env \<Rightarrow> capability_issue \<Rightarrow> json \<Rightarrow> string \<Rightarrow> u64 \<Rightarrow> 'p engine \<Rightarrow> ('p, capability_grant) gate_outcome" where
  "issue_grant env q arguments nonce now s = (case issue (ge_hash env) nonce q now (en_store s) of
     (Inl x, store) \<Rightarrow> op_err (GateIssue x) (s\<lparr>en_store := store\<rparr>)
   | (Inr g, store) \<Rightarrow> op_ok \<lparr>cg_capability_id = ic_capability_id g, cg_arguments = arguments\<rparr> (s\<lparr>en_store := store\<rparr>))"

definition issue_prepared_authorization ::
  "gate_env \<Rightarrow> prepared_authorization \<Rightarrow> bool \<Rightarrow> string \<Rightarrow> u64 \<Rightarrow> 'p engine \<Rightarrow> ('p, capability_grant) gate_outcome" where
  "issue_prepared_authorization env p approved nonce now s =
     op_bind (op_check (ensure (\<not> (pp_requires_confirmation p \<and> \<not> approved)) GateApprovalDenied) s) (\<lambda>_ s.
     issue_grant env (issue_request env (pp_reviewed p) (pp_context p) (pp_call p) (oe_kind (pp_effect p)) (pp_ttl_ms p))
       (tc_arguments (pp_call p)) nonce now s)"

definition revoke_capability :: "string \<Rightarrow> 'p engine \<Rightarrow> ('p, unit) gate_outcome" where
  "revoke_capability cap s = (case revoke cap (en_store s) of
     (Inl x, store) \<Rightarrow> op_err (GateRevoke x) (s\<lparr>en_store := store\<rparr>)
   | (Inr _, store) \<Rightarrow> op_ok () (s\<lparr>en_store := store\<rparr>))"

subsection \<open>MCP calls\<close>

definition mcp_effect :: "mcp_tool_policy \<Rightarrow> gate_error + effect_kind" where
  "mcp_effect p = (case p of McpReadOnly \<Rightarrow> Inr SensitiveRead | McpExternalWrite \<Rightarrow> Inr ExternalSideEffect
     | McpDisabled \<Rightarrow> Inl (GateMcp McpToolDisabled))"

definition prepare_mcp_authorization ::
  "gate_world \<Rightarrow> native_context \<Rightarrow> string \<Rightarrow> string \<Rightarrow> string \<Rightarrow> json \<Rightarrow> 'p engine \<Rightarrow> ('p, prepared_mcp) gate_outcome" where
  "prepare_mcp_authorization w x call_id sid tool arguments s =
     op_bind (op_check (validate_context x) s) (\<lambda>_ s.
     op_bind (op_check (case ar_targets (nx_request x) of [] \<Rightarrow> Inl GateMcpTarget | t # _ \<Rightarrow> Inr t) s) (\<lambda>target s.
     op_bind (revalidate_target w x target s) (\<lambda>_ s.
     op_bind (op_check (case target of TargetLocal _ _ (Some root) \<Rightarrow> Inr root | _ \<Rightarrow> Inl GateMcpTarget) s) (\<lambda>workspace s.
     op_bind (op_check (ensure (json_as_object arguments \<noteq> None) GateMcpArguments) s) (\<lambda>_ s.
     op_bind (op_check (map_err GateMcp (load_mcp_server (gw_mcp w) workspace sid)) s) (\<lambda>(root, server) s.
     op_bind (op_check (map_err GateMcp (configured_tool_policy server tool)) s) (\<lambda>policy s.
     op_bind (op_check (mcp_effect policy) s) (\<lambda>kind s.
     let name = ''mcp::'' @ sid @ ''::'' @ tool in
     op_ok \<lparr>pm_context = x,
       pm_call = \<lparr>tc_request_id = ar_request_id (nx_request x), tc_call_id = call_id, tc_tool_name = name,
         tc_arguments = arguments, tc_target = target, tc_capability_id = PENDING_CAPABILITY\<rparr>,
       pm_server = server, pm_tool_name = tool, pm_workspace = root,
       pm_effect = \<lparr>oe_kind = kind, oe_target_id = target_of target,
         oe_summary = ''Native policy classified '' @ name @ '' as '' @ effect_name kind @ ''.'', oe_paths = [], oe_network = []\<rparr>,
       pm_ttl_ms = DEFAULT_CAPABILITY_TTL_MS,
       pm_prompt = ''Allow '' @ name @ '' for Session task '' @ ar_task_id (nx_request x) @ '' / turn '' @ nx_turn_id x
         @ '' / step '' @ nx_step_id x @ ''?'' @ [NEWLINE, NEWLINE]
         @ ''The MCP server starts only after approval. Its output is untrusted.''\<rparr> s))))))))"

definition issue_prepared_mcp_authorization ::
  "gate_env \<Rightarrow> prepared_mcp \<Rightarrow> bool \<Rightarrow> string \<Rightarrow> u64 \<Rightarrow> 'p engine \<Rightarrow> ('p, capability_grant) gate_outcome" where
  "issue_prepared_mcp_authorization env p approved nonce now s =
     op_bind (op_check (ensure (ar_permission_mode (nx_request (pm_context p)) = NativeOperator \<or> approved) GateApprovalDenied) s) (\<lambda>_ s.
     issue_grant env (issue_request env None (pm_context p) (pm_call p) (oe_kind (pm_effect p)) (pm_ttl_ms p))
       (tc_arguments (pm_call p)) nonce now s)"

subsection \<open>Dispatch\<close>

definition verify_context_of :: "native_context \<Rightarrow> tool_call \<Rightarrow> verify_context" where
  "verify_context_of x c = \<lparr>vx_request_id = ar_request_id (nx_request x), vx_user_session_id = ar_user_session_id (nx_request x),
     vx_call_id = tc_call_id c, vx_target_id = target_of (tc_target c)\<rparr>"

definition consume_grant :: "string \<Rightarrow> u64 \<Rightarrow> 'p engine \<Rightarrow> ('p, unit) gate_outcome" where
  "consume_grant cap now s = (case consume cap now (en_store s) of
     (Inl x, store) \<Rightarrow> op_err (GateConsume x) (s\<lparr>en_store := store\<rparr>)
   | (Inr _, store) \<Rightarrow> op_ok () (s\<lparr>en_store := store\<rparr>))"

text \<open>
  \<open>execute\_mcp\_call\<close> up to the start of the server; the call it hands on is the prepared one under
  the capability.
\<close>

definition admit_mcp_call ::
  "gate_env \<Rightarrow> prepared_mcp \<Rightarrow> string \<Rightarrow> u64 \<Rightarrow> u64 \<Rightarrow> 'p engine \<Rightarrow> ('p, tool_call) gate_outcome" where
  "admit_mcp_call env p cap now1 now2 s = (let c = (pm_call p)\<lparr>tc_capability_id := cap\<rparr> in
     op_bind (op_check (map_err GateVerify (verify_bound_scope (ge_hash env) cap (verify_context_of (pm_context p) c)
       (call_digest env c) (tc_tool_name c) (oe_kind (pm_effect p)) now1 (en_store s))) s) (\<lambda>_ s.
     op_bind (consume_grant cap now2 s) (\<lambda>_ s. op_ok c s)))"

datatype (plugins only: code size) native_executor =
    RunDiagnostic | RunCommand | RunTerminalCommand | RunHttpProbe | RunReadTerminal | RunTerminalInput | RunWaitTerminal
  | RunWriteProcess | RunWaitProcess | RunKillProcess | RunFileTool

definition executor_of :: "string \<Rightarrow> native_executor option" where
  "executor_of tool =
     (if tool \<in> {''inspect_host'', ''inspect_service'', ''query_logs'', ''diagnose_endpoint''} then Some RunDiagnostic
      else if tool = ''exec_command'' then Some RunCommand
      else if tool = ''terminal_execute'' then Some RunTerminalCommand
      else if tool = ''probe_http'' then Some RunHttpProbe
      else if tool = ''read_terminal'' then Some RunReadTerminal
      else if tool = ''write_terminal_input'' then Some RunTerminalInput
      else if tool = ''wait_terminal'' then Some RunWaitTerminal
      else if tool = ''write_stdin'' then Some RunWriteProcess
      else if tool = ''wait_process'' then Some RunWaitProcess
      else if tool = ''kill_process'' then Some RunKillProcess
      else if tool \<in> {''read_file'', ''list_directory'', ''search_text'', ''write_file'', ''edit_file'', ''apply_patch'',
        ''transfer_file'', ''trash_file''} then Some RunFileTool
      else None)"

record admitted_call =
  ad_call :: tool_call
  ad_effect :: observed_effect
  ad_reviewed :: "reviewed_command option"
  ad_executor :: "native_executor option"

text \<open>\<open>execute\_tool\<close> up to the choice of the executor; the clock is read three times.\<close>

definition admit_tool_call ::
  "gate_env \<Rightarrow> gate_world \<Rightarrow> native_context \<Rightarrow> tool_call \<Rightarrow> u64 \<Rightarrow> u64 \<Rightarrow> u64 \<Rightarrow> 'p engine \<Rightarrow> ('p, admitted_call) gate_outcome" where
  "admit_tool_call env w x c now1 now2 now3 s =
     op_bind (op_check (validate_context x) s) (\<lambda>_ s.
     op_bind (op_check (ensure (tc_request_id c = ar_request_id (nx_request x)
       \<and> tc_target c \<in> set (ar_targets (nx_request x))) GateOutsideSession) s) (\<lambda>_ s.
     op_bind (op_check (map_err GateRegistry (executable_tool (ge_registry env) (tc_tool_name c))) s) (\<lambda>tool s.
     op_bind (revalidate_target w x (tc_target c) s) (\<lambda>_ s.
     op_bind (op_check (assess_call env w tool c) s) (\<lambda>(effect, scope) s.
     op_bind (op_check (map_err GateVerify (verify_bound_call (ge_hash env) (tc_capability_id c) (verify_context_of x c)
       (call_digest env c) now1 (en_store s))) s) (\<lambda>capability s.
     op_bind (op_check (map_err GateDenied (evaluate (ge_contract env) (nx_request x) c (Some effect) (Some capability) now2)) s) (\<lambda>_ s.
     op_bind (op_check (map_err GateReview (reviewed_command_of (tc_capability_id c) (en_store s))) s) (\<lambda>reviewed s.
     op_bind (consume_grant (tc_capability_id c) now3 s) (\<lambda>_ s.
     op_ok \<lparr>ad_call = c, ad_effect = effect, ad_reviewed = reviewed, ad_executor = executor_of (tc_tool_name c)\<rparr> s)))))))))"

end
