(* ===== verification/Gate_Ledger.thy ===== *)
theory Gate_Ledger
  imports Native_Gate
begin

text \<open>
  Every dispatch has its grant. The locale \<open>one\_shot\_ledger\<close> states what the gate relies on the
  store of capabilities for, against an abstract ledger that is a map from open grants to the
  digest of their call; the store of native/capability.rs is an interpretation, and the history of
  the gate of native/runtime.rs is a history of the ledger.
\<close>

subsection \<open>The abstract ledger\<close>

datatype (plugins only: code size) ('i, 'd) ledger_event =
    LedgerIssue 'i 'd
  | LedgerSpend 'i 'd
  | LedgerClose 'i

definition ledger_allows :: "('i \<rightharpoonup> 'd) \<Rightarrow> ('i, 'd) ledger_event \<Rightarrow> bool" where
  "ledger_allows m e \<longleftrightarrow> (case e of LedgerSpend i d \<Rightarrow> m i = Some d | _ \<Rightarrow> True)"

definition ledger_after :: "('i \<rightharpoonup> 'd) \<Rightarrow> ('i, 'd) ledger_event \<Rightarrow> 'i \<rightharpoonup> 'd" where
  "ledger_after m e = (case e of LedgerIssue i d \<Rightarrow> m(i \<mapsto> d) | LedgerSpend i d \<Rightarrow> m(i := None) | LedgerClose i \<Rightarrow> m(i := None))"

fun justified :: "('i \<rightharpoonup> 'd) \<Rightarrow> ('i, 'd) ledger_event list \<Rightarrow> bool" where
  "justified m [] = True"
| "justified m (e # es) = (ledger_allows m e \<and> justified (ledger_after m e) es)"

lemma ledger_allows_mono: "ledger_allows l e \<Longrightarrow> l \<subseteq>\<^sub>m m \<Longrightarrow> ledger_allows m e"
  by (auto simp: ledger_allows_def map_le_def dom_def split: ledger_event.splits)

lemma ledger_after_mono: "l \<subseteq>\<^sub>m m \<Longrightarrow> ledger_after l e \<subseteq>\<^sub>m ledger_after m e"
  by (auto simp: ledger_after_def map_le_def dom_def split: ledger_event.splits)

text \<open>A spend in a justified history has an issue before it, and nothing about that grant in between.\<close>

definition touches :: "'i \<Rightarrow> ('i, 'd) ledger_event \<Rightarrow> bool" where
  "touches i e \<longleftrightarrow> (case e of LedgerIssue j _ \<Rightarrow> j = i | LedgerSpend j _ \<Rightarrow> j = i | LedgerClose j \<Rightarrow> j = i)"

lemma justified_spend:
  "justified m (xs @ LedgerSpend i d # ys) \<Longrightarrow>
     (\<exists>as bs. xs = as @ LedgerIssue i d # bs \<and> list_all (\<lambda>e. \<not> touches i e) bs) \<or> m i = Some d \<and> list_all (\<lambda>e. \<not> touches i e) xs"
proof (induction xs arbitrary: m)
  case Nil
  then show ?case by (simp add: ledger_allows_def)
next
  case (Cons e xs)
  from Cons.IH [of "ledger_after m e"] Cons.prems
  consider as bs where "xs = as @ LedgerIssue i d # bs" "list_all (\<lambda>e. \<not> touches i e) bs"
    | "ledger_after m e i = Some d" "list_all (\<lambda>e. \<not> touches i e) xs" by auto
  then show ?case
  proof cases
    case 1
    then show ?thesis by (metis append_Cons)
  next
    case 2
    show ?thesis
    proof (cases "touches i e")
      case True
      with 2(1) have "e = LedgerIssue i d"
        by (auto simp: touches_def ledger_after_def split: ledger_event.splits if_splits)
      with 2(2) show ?thesis by (metis append_Nil)
    next
      case False
      with 2 have "m i = Some d" by (auto simp: touches_def ledger_after_def split: ledger_event.splits if_splits)
      with 2(2) False show ?thesis by simp
    qed
  qed
qed

subsection \<open>What a client may rely on\<close>

locale one_shot_ledger =
  fixes live :: "'s \<Rightarrow> 'i \<rightharpoonup> 'd"
    and inv :: "'s \<Rightarrow> bool"
    and moves :: "'s \<Rightarrow> ('i, 'd) ledger_event option \<Rightarrow> 's \<Rightarrow> bool"
  assumes idle: "inv s \<Longrightarrow> moves s None t \<Longrightarrow> inv t \<and> live t \<subseteq>\<^sub>m live s"
    and event: "inv s \<Longrightarrow> moves s (Some e) t \<Longrightarrow>
      inv t \<and> ledger_allows (live s) e \<and> live t \<subseteq>\<^sub>m ledger_after (live s) e"
begin

inductive history :: "'s \<Rightarrow> ('i, 'd) ledger_event list \<Rightarrow> 's \<Rightarrow> bool" where
  history_refl: "history s [] s"
| history_idle: "moves s None t \<Longrightarrow> history t es u \<Longrightarrow> history s es u"
| history_event: "moves s (Some e) t \<Longrightarrow> history t es u \<Longrightarrow> history s (e # es) u"

lemma history_justified: "history s es t \<Longrightarrow> inv s \<Longrightarrow> live s \<subseteq>\<^sub>m m \<Longrightarrow> justified m es"
proof (induction arbitrary: m rule: history.induct)
  case (history_idle s t es u)
  then show ?case using idle by (blast intro: map_le_trans)
next
  case (history_event s e t es u)
  from event [OF history_event.prems(1) history_event.hyps(1)]
  have step: "inv t" "ledger_allows (live s) e" "live t \<subseteq>\<^sub>m ledger_after (live s) e" by auto
  then have "live t \<subseteq>\<^sub>m ledger_after m e"
    using ledger_after_mono [OF history_event.prems(2)] by (blast intro: map_le_trans)
  with history_event.IH step ledger_allows_mono [OF _ history_event.prems(2)] show ?case by auto
qed simp

end

subsection \<open>The store of capabilities is such a ledger\<close>

definition live_digests :: "capability_store \<Rightarrow> string \<rightharpoonup> string" where
  "live_digests s cap = (case map_of s cap of None \<Rightarrow> None
     | Some r \<Rightarrow> if cr_revoked r \<or> cr_uses r \<noteq> 0 then None else Some (cr_call_digest r))"

definition one_use_store :: "capability_store \<Rightarrow> bool" where
  "one_use_store s \<longleftrightarrow> store_inv s \<and> (\<forall>(cap, r)\<in>set s. cr_max_uses r = 1)"

definition store_moves :: "keyed_hash \<Rightarrow> capability_store \<Rightarrow> (string, string) ledger_event option \<Rightarrow> capability_store \<Rightarrow> bool" where
  "store_moves hash s e t \<longleftrightarrow> (case e of
     None \<Rightarrow> t = s \<or> (\<exists>nonce q now x. issue hash nonce q now s = (Inl x, t))
   | Some (LedgerIssue cap d) \<Rightarrow> \<exists>nonce q now g. issue hash nonce q now s = (Inr g, t)
       \<and> ic_capability_id g = cap \<and> ci_call_digest q = d \<and> ci_max_uses q = 1
   | Some (LedgerSpend cap d) \<Rightarrow> (\<exists>now. consume cap now s = (Inr (), t)) \<and> (\<exists>r. map_of s cap = Some r \<and> cr_call_digest r = d)
   | Some (LedgerClose cap) \<Rightarrow> revoke cap s = (Inr (), t))"

lemma issue_refused: "issue hash nonce q now s = (Inl x, t) \<Longrightarrow> t = s \<or> t = filter (\<lambda>(_, r). is_live now r) s"
  unfolding issue_def ensure_def Let_def by (auto simp: op_err_def op_ok_def split: if_splits)

lemma live_digests_filter: "store_inv s \<Longrightarrow> live_digests (filter (\<lambda>(_, r). P r) s) \<subseteq>\<^sub>m live_digests s"
  by (auto simp: map_le_def live_digests_def store_inv_def map_of_filter_records dom_def split: option.splits if_splits)

lemma one_use_filter: "one_use_store s \<Longrightarrow> one_use_store (filter P s)"
  by (auto simp: one_use_store_def store_inv_filter)

lemma one_use_update: "one_use_store s \<Longrightarrow> store_inv (AList.update cap r s) \<Longrightarrow> cr_max_uses r = 1
    \<Longrightarrow> one_use_store (AList.update cap r s)"
  by (auto simp: one_use_store_def dest!: set_alist_update_keys)

lemma one_use_touch:
  assumes "one_use_store s" "map_of s cap = Some r" "grant_ok cap r'" "cr_max_uses r' = cr_max_uses r"
  shows "one_use_store (AList.update cap r' s)"
  using assms by (intro one_use_update store_inv_touch) (auto simp: one_use_store_def dest: map_of_SomeD)

lemma one_use_record: "one_use_store s \<Longrightarrow> map_of s cap = Some r \<Longrightarrow> grant_ok cap r \<and> cr_max_uses r = 1"
  by (auto simp: one_use_store_def dest: store_inv_record map_of_SomeD)

lemma store_issue_move:
  assumes "one_use_store s" "issue hash nonce q now s = (Inr g, t)" "ci_max_uses q = 1"
  shows "one_use_store t \<and> live_digests t \<subseteq>\<^sub>m (live_digests s)(ic_capability_id g \<mapsto> ci_call_digest q)"
proof -
  let ?cap = "capability_id_of hash nonce" and ?f = "filter (\<lambda>(_, r). is_live now r) s"
  from issueD [OF assms(2)] have g: "ic_capability_id g = ?cap"
    and t: "t = AList.update ?cap (record_of_issue ?cap now q) ?f" by auto
  have "store_inv s" using assms(1) by (simp add: one_use_store_def)
  then have "store_inv t" by (rule issue_store_inv [OF assms(2)])
  then have "one_use_store t"
    unfolding t using one_use_filter [OF assms(1)] assms(3) by (intro one_use_update) (auto simp: record_of_issue_def)
  moreover have "live_digests t = (live_digests ?f)(?cap \<mapsto> ci_call_digest q)"
    by (rule ext) (simp add: t live_digests_def update_conv' record_of_issue_def)
  moreover have "live_digests ?f \<subseteq>\<^sub>m live_digests s" by (rule live_digests_filter) fact
  ultimately show ?thesis by (simp add: g map_le_upd)
qed

lemma store_spend_move:
  assumes "one_use_store s" "consume cap now s = (Inr (), t)" "map_of s cap = Some r"
  shows "one_use_store t \<and> live_digests s cap = Some (cr_call_digest r) \<and> live_digests t \<subseteq>\<^sub>m (live_digests s)(cap := None)"
proof -
  from consumeD [OF assms(2)] assms(3) have r: "\<not> cr_revoked r" "cr_uses r < cr_max_uses r"
    "map_of t = (map_of s)(cap \<mapsto> r\<lparr>cr_uses := cr_uses r + 1\<rparr>)" by auto
  from one_use_record [OF assms(1,3)] r(2) have zero: "cr_uses r = 0" "grant_ok cap r"
    by (auto simp: word_less_nat_alt unat_eq_zero)
  have "t = AList.update cap (r\<lparr>cr_uses := cr_uses r + 1\<rparr>) s"
    using assms(2,3) unfolding consume_def by (auto simp: res_simps split: if_splits)
  then have "one_use_store t"
    using one_use_touch [OF assms(1,3) record_ok_touch(2) [OF zero(2) r(2)]] by simp
  moreover have "live_digests t = (live_digests s)(cap := None)"
    by (rule ext) (simp add: live_digests_def r(3) zero)
  ultimately show ?thesis using assms(3) r(1) zero by (simp add: live_digests_def)
qed

lemma store_close_move:
  assumes "one_use_store s" "revoke cap s = (Inr (), t)"
  shows "one_use_store t \<and> live_digests t \<subseteq>\<^sub>m (live_digests s)(cap := None)"
proof -
  from assms(2) obtain r where r: "map_of s cap = Some r" "t = AList.update cap (r\<lparr>cr_revoked := True\<rparr>) s"
    unfolding revoke_def by (auto simp: res_simps)
  from one_use_touch [OF assms(1) r(1)] one_use_record [OF assms(1) r(1)] record_ok_touch(1)
  have "one_use_store t" by (auto simp: r(2))
  moreover have "live_digests t = (live_digests s)(cap := None)"
    by (rule ext) (simp add: r(2) live_digests_def update_conv')
  ultimately show ?thesis by simp
qed

interpretation capability_ledger: one_shot_ledger live_digests one_use_store "store_moves hash" for hash
proof unfold_locales
  fix s t assume inv: "one_use_store s" and "store_moves hash s None t"
  then show "one_use_store t \<and> live_digests t \<subseteq>\<^sub>m live_digests s"
    by (auto simp: store_moves_def one_use_filter one_use_store_def live_digests_filter dest!: issue_refused
        intro: store_inv_filter)
next
  fix s e t assume "one_use_store s" "store_moves hash s (Some e) t"
  then show "one_use_store t \<and> ledger_allows (live_digests s) e \<and> live_digests t \<subseteq>\<^sub>m ledger_after (live_digests s) e"
    by (cases e) (auto simp: store_moves_def ledger_allows_def ledger_after_def
        dest: store_issue_move store_spend_move store_close_move)
qed

subsection \<open>The history of the gate\<close>

datatype (plugins only: code size) gate_event =
    Granted string tool_call bool bool \<comment> \<open>the id, the call, whether it had to be approved, whether it was\<close>
  | GrantRevoked string
  | ToolDispatched string tool_call

record 'p gate_machine =
  gm_engine :: "'p engine"
  gm_prepared :: "prepared_authorization list"
  gm_mcp :: "prepared_mcp list"
  gm_log :: "gate_event list"

text \<open>
  The calls that are made on the gate, in any order: a prepared authorization is kept by its caller,
  who issues it, perhaps more than once; anything may happen to the broker in between.
\<close>

datatype (plugins only: code size) 'p gate_op =
    PrepareOp gate_world native_context authorize_request
  | PrepareMcpOp gate_world native_context string string string json
  | IssueOp nat bool string u64
  | IssueMcpOp nat bool string u64
  | RevokeOp string
  | ExecuteOp gate_world native_context tool_call u64 u64 u64
  | ExecuteMcpOp nat string u64 u64
  | BrokerOp "('p, tool_target) broker_state"

definition after :: "'p gate_machine \<Rightarrow> ('p, 'a) gate_outcome \<Rightarrow> ('a \<Rightarrow> 'p gate_machine \<Rightarrow> 'p gate_machine) \<Rightarrow> 'p gate_machine" where
  "after g r f = (let g' = g\<lparr>gm_engine := snd r\<rparr> in case fst r of Inl _ \<Rightarrow> g' | Inr a \<Rightarrow> f a g')"

definition log_event :: "gate_event \<Rightarrow> 'p gate_machine \<Rightarrow> 'p gate_machine" where
  "log_event e g = g\<lparr>gm_log := gm_log g @ [e]\<rparr>"

definition gate_step :: "gate_env \<Rightarrow> 'p gate_machine \<Rightarrow> 'p gate_op \<Rightarrow> 'p gate_machine" where
  "gate_step env g x = (case x of
     PrepareOp w cx i \<Rightarrow> after g (prepare_authorization env w cx i (gm_engine g)) (\<lambda>p g. g\<lparr>gm_prepared := gm_prepared g @ [p]\<rparr>)
   | PrepareMcpOp w cx call sid tool v \<Rightarrow>
       after g (prepare_mcp_authorization w cx call sid tool v (gm_engine g)) (\<lambda>p g. g\<lparr>gm_mcp := gm_mcp g @ [p]\<rparr>)
   | IssueOp n approved nonce now \<Rightarrow>
       if n < length (gm_prepared g) then let p = gm_prepared g ! n in
         after g (issue_prepared_authorization env p approved nonce now (gm_engine g)) (\<lambda>grant.
           log_event (Granted (cg_capability_id grant) (pp_call p) (pp_requires_confirmation p) approved))
       else g
   | IssueMcpOp n approved nonce now \<Rightarrow>
       if n < length (gm_mcp g) then let p = gm_mcp g ! n in
         after g (issue_prepared_mcp_authorization env p approved nonce now (gm_engine g)) (\<lambda>grant.
           log_event (Granted (cg_capability_id grant) (pm_call p)
             (ar_permission_mode (nx_request (pm_context p)) \<noteq> NativeOperator) approved))
       else g
   | RevokeOp cap \<Rightarrow> after g (revoke_capability cap (gm_engine g)) (\<lambda>_. log_event (GrantRevoked cap))
   | ExecuteOp w cx c t1 t2 t3 \<Rightarrow> after g (admit_tool_call env w cx c t1 t2 t3 (gm_engine g)) (\<lambda>a.
       log_event (ToolDispatched (tc_capability_id c) (ad_call a)))
   | ExecuteMcpOp n cap t1 t2 \<Rightarrow>
       if n < length (gm_mcp g) then
         after g (admit_mcp_call env (gm_mcp g ! n) cap t1 t2 (gm_engine g)) (\<lambda>c. log_event (ToolDispatched cap c))
       else g
   | BrokerOp b \<Rightarrow> g\<lparr>gm_engine := (gm_engine g)\<lparr>en_broker := b\<rparr>\<rparr>)"

definition gate_start :: "('p, tool_target) broker_state \<Rightarrow> 'p gate_machine" where
  "gate_start b = \<lparr>gm_engine = \<lparr>en_store = [], en_broker = b\<rparr>, gm_prepared = [], gm_mcp = [], gm_log = []\<rparr>"

definition gate_run :: "gate_env \<Rightarrow> 'p gate_op list \<Rightarrow> 'p gate_machine \<Rightarrow> 'p gate_machine" where
  "gate_run env ops g = foldl (gate_step env) g ops"

definition ledger_view :: "gate_env \<Rightarrow> gate_event \<Rightarrow> (string, string) ledger_event" where
  "ledger_view env e = (case e of Granted cap c _ _ \<Rightarrow> LedgerIssue cap (call_digest env c)
     | GrantRevoked cap \<Rightarrow> LedgerClose cap | ToolDispatched cap c \<Rightarrow> LedgerSpend cap (call_digest env c))"

text \<open>A step moves the store as one event of the ledger, or idles, and logs exactly that event.\<close>

definition logged_move :: "gate_env \<Rightarrow> 'p gate_machine \<Rightarrow> 'p gate_machine \<Rightarrow> bool" where
  "logged_move env g h \<longleftrightarrow> (\<exists>e. store_moves (ge_hash env) (en_store (gm_engine g)) (map_option (ledger_view env) e) (en_store (gm_engine h))
     \<and> gm_log h = gm_log g @ (case e of None \<Rightarrow> [] | Some e \<Rightarrow> [e])
     \<and> (\<forall>cap c required approved. e = Some (Granted cap c required approved) \<longrightarrow> required \<longrightarrow> approved))"

lemma idle_move: "en_store (gm_engine h) = en_store (gm_engine g) \<Longrightarrow> gm_log h = gm_log g \<Longrightarrow> logged_move env g h"
  unfolding logged_move_def by (rule exI [where x = None]) (simp add: store_moves_def)

text \<open>Operations that leave the store alone.\<close>

definition keeps_store :: "'p engine \<Rightarrow> ('p, 'a) gate_outcome \<Rightarrow> bool" where
  "keeps_store s r \<longleftrightarrow> en_store (snd r) = en_store s"

lemma keeps_store_simps [simp]:
  "keeps_store s (op_ok a t) \<longleftrightarrow> en_store t = en_store s" "keeps_store s (op_err x t) \<longleftrightarrow> en_store t = en_store s"
  "keeps_store s (op_check r t) \<longleftrightarrow> en_store t = en_store s"
  by (simp_all add: keeps_store_def snd_outcome)

lemma keeps_store_bind:
  "keeps_store s r \<Longrightarrow> (\<And>a t. r = (Inr a, t) \<Longrightarrow> en_store t = en_store s \<Longrightarrow> keeps_store s (f a t)) \<Longrightarrow> keeps_store s (op_bind r f)"
  by (cases r; cases "fst r") (auto simp: keeps_store_def)

lemma keeps_store_split: "(\<And>x y. a = (x, y) \<Longrightarrow> keeps_store s (f x y t)) \<Longrightarrow> keeps_store s ((case a of (x, y) \<Rightarrow> f x y) t)"
  by (cases a) simp

lemma revalidate_keeps_store: "en_store t = en_store s \<Longrightarrow> keeps_store s (revalidate_target w x c t)"
  by (auto simp: keeps_store_def revalidate_target_def op_err_def split: option.splits)

lemmas keeps_store_rules = keeps_store_bind keeps_store_split revalidate_keeps_store

lemma prepare_keeps_store: "keeps_store s (prepare_authorization env w x i s)"
  unfolding prepare_authorization_def Let_def by (intro keeps_store_rules) simp_all

lemma prepare_mcp_keeps_store: "keeps_store s (prepare_mcp_authorization w x call sid tool v s)"
  unfolding prepare_mcp_authorization_def Let_def by (intro keeps_store_rules) simp_all

text \<open>Operations that change the store only when they succeed.\<close>

definition spares_store :: "'p engine \<Rightarrow> ('p, 'a) gate_outcome \<Rightarrow> bool" where
  "spares_store s r \<longleftrightarrow> (\<forall>x. fst r = Inl x \<longrightarrow> en_store (snd r) = en_store s)"

lemma spares_store_bind:
  "keeps_store s r \<Longrightarrow> (\<And>a t. r = (Inr a, t) \<Longrightarrow> en_store t = en_store s \<Longrightarrow> spares_store s (f a t)) \<Longrightarrow> spares_store s (op_bind r f)"
  by (cases r; cases "fst r") (auto simp: keeps_store_def spares_store_def)

lemma spares_store_split: "(\<And>x y. a = (x, y) \<Longrightarrow> spares_store s (f x y t)) \<Longrightarrow> spares_store s ((case a of (x, y) \<Rightarrow> f x y) t)"
  by (cases a) simp

lemma spares_consume: "en_store t = en_store s \<Longrightarrow> spares_store s (op_bind (consume_grant cap now t) (\<lambda>_ s. op_ok a s))"
  by (cases "consume cap now (en_store t)"; cases "fst (consume cap now (en_store t))")
    (auto simp: spares_store_def consume_grant_def op_ok_def op_err_def dest: consume_refused)

lemma admit_tool_spares: "spares_store s (admit_tool_call env w x c t1 t2 t3 s)"
  unfolding admit_tool_call_def
  by (intro spares_store_bind spares_store_split spares_consume revalidate_keeps_store) simp_all

lemma admit_mcp_spares: "spares_store s (admit_mcp_call env p cap t1 t2 s)"
  unfolding admit_mcp_call_def Let_def by (intro spares_store_bind spares_consume) simp_all

lemma consume_grantD:
  "consume_grant cap now s = (Inr (), t) \<Longrightarrow> consume cap now (en_store s) = (Inr (), en_store t)"
  by (auto simp: consume_grant_def op_ok_def op_err_def split: prod.splits sum.splits)

lemma revalidated_store: "revalidate_target w x c s = (r, t) \<Longrightarrow> en_store t = en_store s"
  using revalidate_keeps_store [of s s w x c] by (simp add: keeps_store_def)

lemma admit_tool_callD:
  assumes "admit_tool_call env w x c t1 t2 t3 s = (Inr a, t)"
  shows "\<exists>tool s1 scope capability reviewed.
     validate_context x = Inr () \<and> tc_request_id c = ar_request_id (nx_request x) \<and> tc_target c \<in> set (ar_targets (nx_request x))
   \<and> executable_tool (ge_registry env) (tc_tool_name c) = Inr tool
   \<and> revalidate_target w x (tc_target c) s = (Inr (), s1)
   \<and> assess_call env w tool c = Inr (ad_effect a, scope)
   \<and> verify_bound_call (ge_hash env) (tc_capability_id c) (verify_context_of x c) (call_digest env c) t1 (en_store s) = Inr capability
   \<and> evaluate (ge_contract env) (nx_request x) c (Some (ad_effect a)) (Some capability) t2 = Inr ()
   \<and> reviewed_command_of (tc_capability_id c) (en_store s) = Inr reviewed
   \<and> consume (tc_capability_id c) t3 (en_store s) = (Inr (), en_store t)
   \<and> a = \<lparr>ad_call = c, ad_effect = ad_effect a, ad_reviewed = reviewed, ad_executor = executor_of (tc_tool_name c)\<rparr>"
proof -
  from assms obtain tool s1 effect scope capability reviewed where
    g: "validate_context x = Inr ()" "tc_request_id c = ar_request_id (nx_request x)" "tc_target c \<in> set (ar_targets (nx_request x))"
      "executable_tool (ge_registry env) (tc_tool_name c) = Inr tool"
      "revalidate_target w x (tc_target c) s = (Inr (), s1)" "assess_call env w tool c = Inr (effect, scope)"
      "verify_bound_call (ge_hash env) (tc_capability_id c) (verify_context_of x c) (call_digest env c) t1 (en_store s1) = Inr capability"
      "evaluate (ge_contract env) (nx_request x) c (Some effect) (Some capability) t2 = Inr ()"
      "reviewed_command_of (tc_capability_id c) (en_store s1) = Inr reviewed"
      "consume_grant (tc_capability_id c) t3 s1 = (Inr (), t)"
    and a: "a = \<lparr>ad_call = c, ad_effect = effect, ad_reviewed = reviewed, ad_executor = executor_of (tc_tool_name c)\<rparr>"
    unfolding admit_tool_call_def by (auto simp: res_simps)
  from revalidated_store [OF g(5)] consume_grantD [OF g(10)] g a show ?thesis by auto
qed

lemma admit_mcp_callD:
  assumes "admit_mcp_call env p cap t1 t2 s = (Inr c, t)"
  shows "c = (pm_call p)\<lparr>tc_capability_id := cap\<rparr> \<and> consume cap t2 (en_store s) = (Inr (), en_store t)
    \<and> (\<exists>v. verify_bound_scope (ge_hash env) cap (verify_context_of (pm_context p) c) (call_digest env c) (tc_tool_name c)
        (oe_kind (pm_effect p)) t1 (en_store s) = Inr v)"
  using assms unfolding admit_mcp_call_def Let_def by (auto simp: res_simps dest!: consume_grantD)

lemma issue_grant_moves:
  assumes "ci_max_uses q = 1" "ci_call_digest q = call_digest env c"
    and "required \<longrightarrow> approved"
  shows "logged_move env g (after g (issue_grant env q v nonce now (gm_engine g))
    (\<lambda>grant. log_event (Granted (cg_capability_id grant) c required approved)))"
proof (cases "issue (ge_hash env) nonce q now (en_store (gm_engine g))")
  case (Pair r store)
  show ?thesis
  proof (cases r)
    case (Inl x)
    with Pair show ?thesis unfolding logged_move_def
      by (intro exI [where x = None]) (auto simp: after_def issue_grant_def op_err_def store_moves_def Let_def)
  next
    case (Inr grant)
    with Pair assms show ?thesis unfolding logged_move_def
      by (intro exI [where x = "Some (Granted (ic_capability_id grant) c required approved)"])
        (auto simp: after_def issue_grant_def op_ok_def store_moves_def Let_def log_event_def ledger_view_def)
  qed
qed

lemma denied_move: "logged_move env g (after g (op_err x (gm_engine g)) f)"
  by (rule idle_move) (simp_all add: after_def op_err_def Let_def)

lemma issue_request_parts [simp]:
  "ci_max_uses (issue_request env r x c k t) = 1" "ci_call_digest (issue_request env r x c k t) = call_digest env c"
  by (simp_all add: issue_request_def)

lemma guarded_issue_moves:
  assumes "ci_max_uses q = 1" "ci_call_digest q = call_digest env c" "ok \<longrightarrow> required \<longrightarrow> approved"
  shows "logged_move env g (after g (op_bind (op_check (ensure ok GateApprovalDenied) (gm_engine g)) (\<lambda>_. issue_grant env q v nonce now))
    (\<lambda>grant. log_event (Granted (cg_capability_id grant) c required approved)))"
  using assms by (cases ok) (simp_all add: ensure_def denied_move issue_grant_moves)

lemma keeps_store_move:
  assumes "keeps_store (gm_engine g) r" "\<And>a g. gm_engine (f a g) = gm_engine g \<and> gm_log (f a g) = gm_log g"
  shows "logged_move env g (after g r f)"
  using assms by (intro idle_move) (auto simp: after_def keeps_store_def Let_def split: sum.splits)

lemma spend_move:
  assumes spares: "spares_store (gm_engine g) r"
    and spend: "\<And>a t. r = (Inr a, t) \<Longrightarrow> (\<exists>now. consume cap now (en_store (gm_engine g)) = (Inr (), en_store t))
      \<and> (\<exists>m. map_of (en_store (gm_engine g)) cap = Some m \<and> cr_call_digest m = call_digest env (c a))"
  shows "logged_move env g (after g r (\<lambda>a. log_event (ToolDispatched cap (c a))))"
proof (cases "fst r")
  case (Inl x)
  with spares show ?thesis by (intro idle_move) (auto simp: after_def spares_store_def Let_def)
next
  case (Inr a)
  with spend [of a "snd r"] show ?thesis unfolding logged_move_def
    by (intro exI [where x = "Some (ToolDispatched cap (c a))"])
      (auto simp: after_def Let_def log_event_def store_moves_def ledger_view_def prod_eq_iff)
qed

lemma gate_step_moves: "logged_move env g (gate_step env g x)"
proof (cases x)
  case (PrepareOp w cx i)
  show ?thesis unfolding PrepareOp gate_step_def gate_op.case by (rule keeps_store_move [OF prepare_keeps_store]) simp
next
  case (PrepareMcpOp w cx call sid tool v)
  show ?thesis unfolding PrepareMcpOp gate_step_def gate_op.case by (rule keeps_store_move [OF prepare_mcp_keeps_store]) simp
next
  case (IssueOp n approved nonce now)
  show ?thesis unfolding IssueOp gate_step_def gate_op.case issue_prepared_authorization_def Let_def
    by (cases "n < length (gm_prepared g)") (auto intro: idle_move intro!: guarded_issue_moves)
next
  case (IssueMcpOp n approved nonce now)
  show ?thesis unfolding IssueMcpOp gate_step_def gate_op.case issue_prepared_mcp_authorization_def Let_def
    by (cases "n < length (gm_mcp g)") (auto intro: idle_move intro!: guarded_issue_moves)
next
  case (RevokeOp cap)
  show ?thesis
  proof (cases "revoke cap (en_store (gm_engine g))")
    case (Pair r store)
    show ?thesis
    proof (cases r)
      case (Inl e)
      with Pair have "store = en_store (gm_engine g)" unfolding revoke_def
        by (auto simp: op_bind_def op_check_def ok_or_def op_ok_def split: option.splits)
      with Inl Pair show ?thesis
        by (intro idle_move) (auto simp: RevokeOp gate_step_def after_def revoke_capability_def op_err_def Let_def)
    next
      case (Inr u)
      with Pair show ?thesis unfolding logged_move_def
        by (intro exI [where x = "Some (GrantRevoked cap)"])
          (auto simp: RevokeOp gate_step_def after_def revoke_capability_def op_ok_def Let_def log_event_def store_moves_def ledger_view_def)
    qed
  qed
next
  case (ExecuteOp w cx c t1 t2 t3)
  have "logged_move env g (after g (admit_tool_call env w cx c t1 t2 t3 (gm_engine g))
      (\<lambda>a. log_event (ToolDispatched (tc_capability_id c) (ad_call a))))"
  proof (rule spend_move [OF admit_tool_spares])
    fix a t assume "admit_tool_call env w cx c t1 t2 t3 (gm_engine g) = (Inr a, t)"
    from admit_tool_callD [OF this] show "(\<exists>now. consume (tc_capability_id c) now (en_store (gm_engine g)) = (Inr (), en_store t))
      \<and> (\<exists>m. map_of (en_store (gm_engine g)) (tc_capability_id c) = Some m \<and> cr_call_digest m = call_digest env (ad_call a))"
      by (metis admitted_call.select_convs(1) verify_bound_callD)
  qed
  then show ?thesis by (simp add: ExecuteOp gate_step_def)
next
  case (ExecuteMcpOp n cap t1 t2)
  have "logged_move env g (after g (admit_mcp_call env (gm_mcp g ! n) cap t1 t2 (gm_engine g)) (\<lambda>c. log_event (ToolDispatched cap c)))"
  proof (rule spend_move [OF admit_mcp_spares])
    fix c t assume "admit_mcp_call env (gm_mcp g ! n) cap t1 t2 (gm_engine g) = (Inr c, t)"
    from admit_mcp_callD [OF this] show "(\<exists>now. consume cap now (en_store (gm_engine g)) = (Inr (), en_store t))
      \<and> (\<exists>m. map_of (en_store (gm_engine g)) cap = Some m \<and> cr_call_digest m = call_digest env c)"
      by (blast dest: verify_bound_scopeD verify_bound_callD)
  qed
  then show ?thesis by (auto simp: ExecuteMcpOp gate_step_def intro: idle_move)
next
  case (BrokerOp b)
  show ?thesis by (rule idle_move) (simp_all add: BrokerOp gate_step_def)
qed

abbreviation store_history :: "keyed_hash \<Rightarrow> capability_store \<Rightarrow> (string, string) ledger_event list \<Rightarrow> capability_store \<Rightarrow> bool" where
  "store_history hash \<equiv> one_shot_ledger.history (store_moves hash)"

definition approved_if_required :: "gate_event \<Rightarrow> bool" where
  "approved_if_required e \<longleftrightarrow> (case e of Granted _ _ required approved \<Rightarrow> required \<longrightarrow> approved | _ \<Rightarrow> True)"

lemma gate_history:
  "\<exists>es. gm_log (gate_run env ops g) = gm_log g @ es \<and> list_all approved_if_required es
     \<and> store_history (ge_hash env) (en_store (gm_engine g)) (map (ledger_view env) es) (en_store (gm_engine (gate_run env ops g)))"
proof (induction ops arbitrary: g)
  case Nil
  show ?case by (intro exI [where x = "[]"]) (simp add: gate_run_def capability_ledger.history_refl)
next
  case (Cons x ops)
  let ?h = "gate_step env g x"
  from Cons.IH [of ?h] obtain es where es: "gm_log (gate_run env ops ?h) = gm_log ?h @ es" "list_all approved_if_required es"
    "store_history (ge_hash env) (en_store (gm_engine ?h)) (map (ledger_view env) es) (en_store (gm_engine (gate_run env ops ?h)))"
    by blast
  from gate_step_moves [of env g x] obtain e where e:
    "store_moves (ge_hash env) (en_store (gm_engine g)) (map_option (ledger_view env) e) (en_store (gm_engine ?h))"
    "gm_log ?h = gm_log g @ (case e of None \<Rightarrow> [] | Some e \<Rightarrow> [e])"
    "\<forall>cap c required approved. e = Some (Granted cap c required approved) \<longrightarrow> required \<longrightarrow> approved"
    unfolding logged_move_def by blast
  have run: "gate_run env (x # ops) g = gate_run env ops ?h" by (simp add: gate_run_def)
  show ?case
  proof (cases e)
    case None
    with e es show ?thesis unfolding run
      by (intro exI [where x = es]) (auto intro: capability_ledger.history_idle)
  next
    case (Some e')
    have "approved_if_required e'"
      using e(3) by (cases e') (auto simp: Some approved_if_required_def)
    with Some e es show ?thesis unfolding run
      by (intro exI [where x = "e' # es"]) (auto intro: capability_ledger.history_event)
  qed
qed

definition event_about :: "string \<Rightarrow> gate_event \<Rightarrow> bool" where
  "event_about cap e \<longleftrightarrow> (case e of Granted k _ _ _ \<Rightarrow> k = cap | GrantRevoked k \<Rightarrow> k = cap | ToolDispatched k _ \<Rightarrow> k = cap)"

definition logged_calls :: "gate_event list \<Rightarrow> tool_call set" where
  "logged_calls es = {c. (\<exists>k r a. Granted k c r a \<in> set es) \<or> (\<exists>k. ToolDispatched k c \<in> set es)}"

lemma touches_view: "touches cap (ledger_view env e) \<longleftrightarrow> event_about cap e"
  by (cases e) (simp_all add: touches_def ledger_view_def event_about_def)

lemma log_justified:
  assumes "gm_log (gate_run env ops (gate_start b)) = es"
  shows "justified Map.empty (map (ledger_view env) es) \<and> list_all approved_if_required es"
proof -
  from gate_history [of env ops "gate_start b"] assms
  have "list_all approved_if_required es"
    "store_history (ge_hash env) [] (map (ledger_view env) es) (en_store (gm_engine (gate_run env ops (gate_start b))))"
    by (auto simp: gate_start_def)
  moreover have "one_use_store []" by (simp add: one_use_store_def store_inv_empty)
  ultimately show ?thesis
    by (auto intro!: capability_ledger.history_justified simp: live_digests_def map_le_def)
qed

text \<open>
  C3. No tool runs without its grant, and no grant runs two tools: in every history of the gate, for
  MCP servers too, a dispatched call has an earlier grant under its capability id for exactly this
  call (request, call id, tool, arguments and target; the digests of the calls in the log differ as
  the calls do), which the user approved if the review asked for approval, and between the two
  the grant was neither revoked nor used.
\<close>

theorem dispatched_calls_were_granted:
  assumes "gm_log (gate_run env ops (gate_start b)) = xs @ ToolDispatched cap c # ys"
    and "inj_on (ge_digest env) (digest_input ` logged_calls (xs @ ToolDispatched cap c # ys))"
  shows "\<exists>as bs c' required approved. xs = as @ Granted cap c' required approved # bs
    \<and> digest_input c' = digest_input c \<and> (required \<longrightarrow> approved) \<and> (\<forall>e\<in>set bs. \<not> event_about cap e)"
proof -
  from log_justified [OF assms(1)]
  have "justified Map.empty (map (ledger_view env) xs @ LedgerSpend cap (call_digest env c) # map (ledger_view env) ys)"
    by (simp add: ledger_view_def)
  from justified_spend [OF this] obtain ls ms where split: "map (ledger_view env) xs = ls @ LedgerIssue cap (call_digest env c) # ms" "list_all (\<lambda>e. \<not> touches cap e) ms"
    by auto
  then obtain as e bs where xs: "xs = as @ e # bs" "ledger_view env e = LedgerIssue cap (call_digest env c)"
    "map (ledger_view env) bs = ms" by (auto simp: map_eq_append_conv map_eq_Cons_conv)
  from xs(2) obtain c' required approved where e: "e = Granted cap c' required approved" "call_digest env c' = call_digest env c"
    by (cases e) (auto simp: ledger_view_def)
  have "required \<longrightarrow> approved" using log_justified [OF assms(1)] by (simp add: xs(1) e(1) approved_if_required_def)
  moreover have "digest_input c' = digest_input c"
    using e(2) unfolding call_digest_def
    by (rule inj_onD [OF assms(2)]) (auto simp: xs(1) e(1) logged_calls_def)
  moreover have "\<forall>e\<in>set bs. \<not> event_about cap e"
    using split(2) xs(3) by (auto simp: list_all_iff touches_view)
  ultimately show ?thesis using xs(1) e(1) by blast
qed

subsection \<open>A history\<close>

definition idle_contract :: contract_env where
  "idle_contract = \<lparr>ce_exec = \<lambda>_. None, ce_terminal = \<lambda>_. None, ce_probe = \<lambda>_. None, ce_read_terminal = \<lambda>_. Some (),
     ce_input = \<lambda>_. None, ce_wait_terminal = \<lambda>_. None, ce_stdin = \<lambda>_. None, ce_wait_process = \<lambda>_. None,
     ce_kill = \<lambda>_. None, ce_trash = \<lambda>_. None, ce_read = \<lambda>_. None, ce_list = \<lambda>_. None, ce_search = \<lambda>_. None,
     ce_write = \<lambda>_. None, ce_edit = \<lambda>_. None, ce_patch = \<lambda>_. None, ce_transfer = \<lambda>_. None,
     ce_inspect_host = \<lambda>_. None, ce_inspect_service = \<lambda>_. None, ce_query_logs = \<lambda>_. None, ce_diagnose = \<lambda>_. None,
     ce_url = \<lambda>_. None, ce_host = \<lambda>_. True, ce_redact = (\<lambda>v. v), ce_deny = \<lparr>dl_hosts = [], dl_addresses = []\<rparr>, ce_parse_ip = \<lambda>_. None\<rparr>"

definition sample_target :: tool_target where "sample_target = TargetLocal ''local-1'' ''session-1'' (Some ''/w'')"

definition sample_context :: native_context where
  "sample_context = \<lparr>nx_request = \<lparr>ar_contract_version = 3, ar_request_id = ''r1'', ar_user_session_id = ''u1'',
     ar_task_id = ''t1'', ar_goal = ''look'', ar_success_criteria = [''seen''], ar_targets = [sample_target],
     ar_permission_mode = NativeScopedAutopilot\<rparr>, nx_turn_id = ''turn'', nx_step_id = ''step''\<rparr>"

definition sample_tool :: registered_tool where
  "sample_tool = \<lparr>rt_descriptor = \<lparr>md_name = ''read_terminal'', md_version = ''1.0.0'', md_target_kinds = LOCAL_REMOTE,
     md_effect_mode = FixedEffect, md_allowed_effects = [SensitiveRead], md_idempotency = IdempotentNo, md_parallel = False,
     md_cancellable = False, md_retry_policy = RetryNever, md_default_timeout_ms = 1000, md_max_output_bytes = 1000,
     md_max_concurrency = 1, md_required_capabilities = [''terminal''], md_untrusted_result_fields = []\<rparr>, rt_implemented = True\<rparr>"

definition sample_world :: gate_world where
  "sample_world = \<lparr>gw_sessions = [''session-1'' \<mapsto> \<lparr>st_local = True, st_host = ''local'', st_port = 0, st_username = [],
       st_status = SessionConnected\<rparr>], gw_profiles = \<lambda>_. Inr None, gw_processes = Map.empty, gw_checkpoint_root = None,
     gw_canonical = \<lambda>_. None, gw_preview = \<lambda>_. Some \<lparr>pv_summary = ''read'', pv_diff = None\<rparr>,
     gw_review = \<lparr>rv_open = \<lambda>_. None, rv_open_directory = \<lambda>_ _. False, rv_open_file = \<lambda>_ _. False, rv_trusted = \<lambda>_. False\<rparr>,
     gw_mcp = sample_mcp\<rparr>"

definition sample_gate :: gate_env where
  "sample_gate = \<lparr>ge_contract = idle_contract, ge_shell = \<lparr>sh_parse = \<lambda>_. None, sh_split = \<lambda>_. None\<rparr>,
     ge_registry = [''read_terminal'' \<mapsto> sample_tool], ge_hash = sample_hash, ge_digest = \<lambda>_. replicate 64 (CHR ''a'')\<rparr>"

definition sample_input :: authorize_request where
  "sample_input = \<lparr>au_request_id = ''r1'', au_call_id = ''c1'', au_tool_name = ''read_terminal'', au_arguments = JObject [],
     au_target = sample_target, au_ttl_ms = None\<rparr>"

definition sample_effect :: observed_effect where
  "sample_effect = \<lparr>oe_kind = SensitiveRead, oe_target_id = ''local-1'',
     oe_summary = ''Native policy classified read_terminal as SensitiveRead.'', oe_paths = [], oe_network = []\<rparr>"

definition sample_scope :: call_scope where
  "sample_scope = \<lparr>cs_paths = [], cs_network = [], cs_sensitive = 0, cs_critical = 0, cs_unknown_write = False\<rparr>"

definition sample_nonce :: string where "sample_nonce = replicate 32 (CHR ''0'')"
definition sample_cap :: string where "sample_cap = capability_id_of sample_hash sample_nonce"

definition sample_prepared :: prepared_authorization where
  "sample_prepared = \<lparr>pp_reviewed = None, pp_context = sample_context, pp_call = call_of_input sample_input,
     pp_effect = sample_effect\<lparr>oe_summary := oe_summary sample_effect @ '' Approval review: human_review_required.''\<rparr>,
     pp_ttl_ms = 120000, pp_requires_confirmation = True,
     pp_prompt = native_prompt sample_context (call_of_input sample_input) SensitiveRead sample_scope
       \<lparr>pv_summary = ''read'', pv_diff = None\<rparr> 120000 @ [NEWLINE] @ ''Approval review: human_review_required''\<rparr>"

definition sample_record :: capability_record where
  "sample_record = record_of_issue sample_cap 10 (issue_request sample_gate None sample_context (call_of_input sample_input) SensitiveRead 120000)"

definition sample_call :: tool_call where "sample_call = (call_of_input sample_input)\<lparr>tc_capability_id := sample_cap\<rparr>"

lemma sample_checks:
  "validate_context sample_context = Inr ()"
  "validate_tool_arguments idle_contract ''read_terminal'' (JObject []) = Inr ()"
  "assess_effect idle_contract sh (rt_descriptor sample_tool) (call_of_input sample_input) = Inr sample_effect"
  "inspect_call_scope idle_contract (call_of_input sample_input) = Inr sample_scope"
  "enforce_call_policy sh (call_of_input sample_input) SensitiveRead sample_scope = Inr ()"
  "storage_paths idle_contract (call_of_input sample_input) SensitiveRead sample_scope = Inr None"
  by code_simp+

lemma sample_call_checks:
  "assess_effect idle_contract sh (rt_descriptor sample_tool) ((call_of_input sample_input)\<lparr>tc_capability_id := cap\<rparr>) = Inr sample_effect"
  "inspect_call_scope idle_contract ((call_of_input sample_input)\<lparr>tc_capability_id := cap\<rparr>) = Inr sample_scope"
  "enforce_call_policy sh ((call_of_input sample_input)\<lparr>tc_capability_id := cap\<rparr>) SensitiveRead sample_scope = Inr ()"
  "storage_paths idle_contract ((call_of_input sample_input)\<lparr>tc_capability_id := cap\<rparr>) SensitiveRead sample_scope = Inr None"
  by code_simp+

lemma sample_review:
  "review_call idle_contract sh (gw_review sample_world) NativeScopedAutopilot (call_of_input sample_input) SensitiveRead sample_scope
   = \<lparr>av_requires_approval = True, av_reason = ''human_review_required'', av_command = None\<rparr>"
  by code_simp

lemma sample_parts:
  "ge_contract sample_gate = idle_contract" "ge_registry sample_gate = [''read_terminal'' \<mapsto> sample_tool]"
  "ge_hash sample_gate = sample_hash" "tc_target (call_of_input sample_input) = sample_target" "tc_target sample_call = sample_target"
  "tc_tool_name sample_call = ''read_terminal''" "oe_kind sample_effect = SensitiveRead"
  "ar_permission_mode (nx_request sample_context) = NativeScopedAutopilot"
  "ar_request_id (nx_request sample_context) = ''r1''" "ar_targets (nx_request sample_context) = [sample_target]"
  "au_request_id sample_input = ''r1''" "au_tool_name sample_input = ''read_terminal''" "au_arguments sample_input = JObject []"
  "au_target sample_input = sample_target" "au_ttl_ms sample_input = None"
  "gw_preview sample_world c = Some \<lparr>pv_summary = ''read'', pv_diff = None\<rparr>" "gw_checkpoint_root sample_world = None"
  by (simp_all add: sample_gate_def call_of_input_def sample_input_def sample_call_def sample_effect_def sample_context_def sample_world_def)

lemma sample_revalidates: "revalidate_target sample_world sample_context sample_target s = op_ok () s"
  by (simp add: revalidate_target_def sample_target_def revalidate_chain.simps revalidate_local_def sample_world_def
      ok_or_def ensure_def op_ok_def)

lemma sample_assessed:
  "assess_call sample_gate sample_world sample_tool (call_of_input sample_input) = Inr (sample_effect, sample_scope)"
  "assess_call sample_gate sample_world sample_tool sample_call = Inr (sample_effect, sample_scope)"
  by (simp_all add: assess_call_def sample_parts sample_checks sample_call_checks [where cap = sample_cap, folded sample_call_def] map_err_def enforce_runtime_storage_policy_def)

lemma sample_executable: "executable_tool [''read_terminal'' \<mapsto> sample_tool] ''read_terminal'' = Inr sample_tool"
  by code_simp

lemma sample_prepares:
  "prepare_authorization sample_gate sample_world sample_context sample_input s = op_ok sample_prepared s"
  by (simp add: prepare_authorization_def sample_checks ensure_def sample_parts sample_executable map_err_def
      sample_revalidates sample_assessed sample_review Let_def sample_prepared_def DEFAULT_CAPABILITY_TTL_MS_def
      MAX_CAPABILITY_TTL_MS_def ok_or_def)

lemma sample_issued:
  "issue sample_hash sample_nonce (issue_request sample_gate None sample_context (call_of_input sample_input) SensitiveRead 120000) 10 []
   = (Inr \<lparr>ic_capability_id = sample_cap, ic_expires_at = 120010\<rparr>, [(sample_cap, sample_record)])"
proof -
  let ?q = "issue_request sample_gate None sample_context (call_of_input sample_input) SensitiveRead 120000"
  have "issue_scope_is_valid ?q" by code_simp
  moreover have "ci_ttl_ms ?q = 120000" "ci_max_uses ?q = 1" "sat_add 10 (120000 :: u64) = 120010"
    by (simp_all add: issue_request_def sat_add_def)
  ultimately show ?thesis
    by (simp add: issue_def ensure_def Let_def MAX_CAPABILITY_TTL_MS_def MAX_CAPABILITY_USES_def MAX_CAPABILITY_RECORDS_def
        op_ok_def sample_record_def sample_cap_def)
qed

lemma sample_record_fields:
  "cr_capability_id sample_record = sample_cap" "cr_request_id sample_record = ''r1''" "cr_user_session_id sample_record = ''u1''"
  "cr_allowed_call_ids sample_record = [''c1'']" "cr_target_ids sample_record = [''local-1'']" "cr_uses sample_record = 0"
  "cr_max_uses sample_record = 1" "\<not> cr_revoked sample_record" "cr_not_before sample_record = 10"
  "cr_expires_at sample_record = 120010" "cr_call_digest sample_record = call_digest sample_gate sample_call"
  "cr_allowed_tools sample_record = [''read_terminal'']" "cr_allowed_effects sample_record = [SensitiveRead]"
  "cr_reviewed sample_record = None"
  by (simp_all add: sample_record_def record_of_issue_def issue_request_def sample_context_def call_of_input_def sample_input_def
      sample_target_def sat_add_def sample_call_def call_digest_def digest_input_def)

lemma sample_verified:
  "verify_bound_call sample_hash sample_cap (verify_context_of sample_context sample_call) (call_digest sample_gate sample_call) 20
     [(sample_cap, sample_record)] = Inr (verified_of_record sample_record)"
proof -
  have "proof_is_valid sample_hash sample_cap = Some True"
    unfolding sample_cap_def by (rule issued_proof_is_valid) (simp_all add: sample_nonce_def sample_hash_def)
  moreover have "verify_context_of sample_context sample_call = \<lparr>vx_request_id = ''r1'', vx_user_session_id = ''u1'',
      vx_call_id = ''c1'', vx_target_id = ''local-1''\<rparr>" by code_simp
  ultimately show ?thesis
    by (simp add: verify_bound_call_def verify_def ok_or_def ensure_def sample_record_fields)
qed

lemma sample_cap_identifier: "valid_identifier sample_cap"
proof -
  have "hex_byte 7 = ''07''" by code_simp
  then have "hex_encode (replicate 32 7) = concat (replicate 32 ''07'')" by (simp add: hex_encode_def)
  then show ?thesis
    by (simp add: sample_cap_def capability_id_of_def sign_nonce_def sample_hash_def sample_nonce_def valid_identifier_def
        alphanumeric_defs numeral_eq_Suc)
qed

lemma sample_evaluated:
  "evaluate idle_contract (nx_request sample_context) sample_call (Some sample_effect) (Some (verified_of_record sample_record)) 30 = Inr ()"
proof -
  have checks: "validate_agent_request (nx_request sample_context)" "valid_identifier ''c1''" "target_shape_is_valid sample_target"
    "process_owner_is_registered [sample_target] sample_target"
    "find_builtin_tool ''read_terminal'' = Some \<lparr>td_name = ''read_terminal'', td_target_kinds = LOCAL_REMOTE,
       td_effect_mode = FixedEffect, td_allowed_effects = [SensitiveRead]\<rparr>"
    "kind_of_target sample_target \<in> set LOCAL_REMOTE" "oe_target_id sample_effect = target_of sample_target"
    "\<not> is_blank (oe_summary sample_effect) \<and> length (oe_summary sample_effect) \<le> 2048" "oe_paths sample_effect = []"
    "target_of sample_target = ''local-1''" "ar_user_session_id (nx_request sample_context) = ''u1''"
    by code_simp+
  have call: "tc_request_id sample_call = ''r1''" "tc_call_id sample_call = ''c1''" "tc_capability_id sample_call = sample_cap"
    "tc_arguments sample_call = JObject []"
    by (simp_all add: sample_call_def call_of_input_def sample_input_def)
  have "check_capability (nx_request sample_context) sample_call SensitiveRead 30 (verified_of_record sample_record) = Inr ()"
    by (simp add: check_capability_iff verified_of_record_def sample_record_fields call checks sample_parts)
  with checks call show ?thesis
    by (simp add: evaluate_def ensure_def ok_or_def sample_parts sample_cap_identifier sample_checks)
qed

lemma sample_consumed:
  "consume sample_cap 40 [(sample_cap, sample_record)] = (Inr (), [(sample_cap, sample_record\<lparr>cr_uses := 1\<rparr>)])"
  by (simp add: consume_def ok_or_def op_ok_def sample_record_fields)

lemma sample_admits:
  "admit_tool_call sample_gate sample_world sample_context sample_call 20 30 40 \<lparr>en_store = [(sample_cap, sample_record)], en_broker = b\<rparr>
   = op_ok \<lparr>ad_call = sample_call, ad_effect = sample_effect, ad_reviewed = None, ad_executor = Some RunReadTerminal\<rparr>
       \<lparr>en_store = [(sample_cap, sample_record\<lparr>cr_uses := 1\<rparr>)], en_broker = b\<rparr>"
proof -
  have "tc_request_id sample_call = ''r1''" "tc_capability_id sample_call = sample_cap"
    by (simp_all add: sample_call_def call_of_input_def sample_input_def)
  then show ?thesis
    by (simp add: admit_tool_call_def sample_checks ensure_def sample_parts sample_executable map_err_def sample_revalidates
        sample_assessed sample_verified sample_evaluated reviewed_command_of_def ok_or_def sample_record_fields
        consume_grant_def sample_consumed executor_of_def)
qed

definition sample_ops :: "'p gate_op list" where
  "sample_ops = [PrepareOp sample_world sample_context sample_input, IssueOp 0 True sample_nonce 10,
     ExecuteOp sample_world sample_context sample_call 20 30 40]"

lemma sample_log: "gm_log (gate_run sample_gate sample_ops (gate_start b))
    = [Granted sample_cap (call_of_input sample_input) True True, ToolDispatched sample_cap sample_call]"
proof -
  have "tc_capability_id sample_call = sample_cap" by (simp add: sample_call_def)
  moreover have "pp_requires_confirmation sample_prepared" "pp_call sample_prepared = call_of_input sample_input"
    "pp_reviewed sample_prepared = None" "pp_context sample_prepared = sample_context" "oe_kind (pp_effect sample_prepared) = SensitiveRead"
    "pp_ttl_ms sample_prepared = 120000"
    by (simp_all add: sample_prepared_def sample_effect_def)
  ultimately show ?thesis
    by (simp add: gate_run_def sample_ops_def gate_step_def after_def gate_start_def sample_prepares op_ok_def Let_def
        issue_prepared_authorization_def ensure_def issue_grant_def sample_parts sample_issued log_event_def
        sample_admits)
qed

lemma dispatched_calls_were_granted_witness:
  "\<forall>b :: (unit, tool_target) broker_state. \<exists>as bs c' required approved.
     gm_log (gate_run sample_gate sample_ops (gate_start b))
       = as @ Granted sample_cap c' required approved # bs @ [ToolDispatched sample_cap sample_call]
     \<and> digest_input c' = digest_input sample_call"
proof
  fix b :: "(unit, tool_target) broker_state"
  let ?g = "[Granted sample_cap (call_of_input sample_input) True True]"
  have log: "gm_log (gate_run sample_gate sample_ops (gate_start b)) = ?g @ ToolDispatched sample_cap sample_call # []"
    by (simp add: sample_log)
  have "digest_input sample_call = digest_input (call_of_input sample_input)" by (simp add: sample_call_def digest_input_def)
  then have "inj_on (ge_digest sample_gate) (digest_input ` logged_calls (?g @ ToolDispatched sample_cap sample_call # []))"
    by (auto simp: logged_calls_def inj_on_def)
  from dispatched_calls_were_granted [OF log this] obtain as bs c' required approved where
    "?g = as @ Granted sample_cap c' required approved # bs" "digest_input c' = digest_input sample_call" by blast
  then show "\<exists>as bs c' required approved. gm_log (gate_run sample_gate sample_ops (gate_start b))
       = as @ Granted sample_cap c' required approved # bs @ [ToolDispatched sample_cap sample_call]
     \<and> digest_input c' = digest_input sample_call"
    unfolding log by (metis append.assoc append_Cons)
qed

end
