(* ===== verification/Gate_Properties.thy ===== *)
theory Gate_Properties
  imports Gate_Ledger
begin

text \<open>
  What the gate guarantees of an admitted call, of the registry behind it, and of a call that the
  automatic review lets through without asking.
\<close>

lemma assess_callD:
  assumes "assess_call env w tool c = Inr (effect, scope)"
  shows "assess_effect (ge_contract env) (ge_shell env) (rt_descriptor tool) c = Inr effect
    \<and> inspect_call_scope (ge_contract env) c = Inr scope \<and> enforce_call_policy (ge_shell env) c (oe_kind effect) scope = Inr ()
    \<and> enforce_runtime_storage_policy (ge_contract env) w c (oe_kind effect) scope = Inr ()"
  using assms unfolding assess_call_def by (auto simp: res_simps)

lemma enforce_call_policyD:
  assumes "enforce_call_policy shell c kind scope = Inr ()" "inspect_call_scope env c = Inr scope"
    and "kind \<in> {StateChange, Destructive}" "tc_tool_name c \<noteq> ''transfer_file''" "p \<in> set (cs_paths scope)" "protected_delete_path p"
  shows "tc_tool_name c = ''trash_file'' \<and> \<not> hard_delete_path p"
  using assms critical_counts [OF assms(2,5,6)] unfolding enforce_call_policy_def critical_write_def
  by (auto simp: res_simps list_all_iff)

text \<open>The two ends of a transfer; the second is the one that is written.\<close>

lemma transfer_paths:
  assumes "inspect_call_scope env c = Inr scope" "tc_tool_name c = ''transfer_file''"
  shows "\<exists>source destination. cs_paths scope = [source, destination]"
  using assms unfolding inspect_call_scope_def argument_paths_def
  by (cases "tc_target c") (auto simp: res_simps Let_def split: transfer_direction.splits, (metis transfer_direction.exhaust)+)

lemma enforce_call_policy_transfer:
  assumes "enforce_call_policy shell c kind scope = Inr ()" "tc_tool_name c = ''transfer_file''"
    and "cs_paths scope = [source, destination]"
  shows "\<not> protected_delete_path destination"
  using assms unfolding enforce_call_policy_def critical_write_def by (auto simp: res_simps)

text \<open>Where the guard takes a script to start: the working directory of a local command, else unknown.\<close>

definition script_directory :: "tool_call \<Rightarrow> string option" where
  "script_directory c = (case tc_target c of
     TargetLocal _ _ cwd \<Rightarrow> if tc_tool_name c = ''exec_command'' then cwd else None | _ \<Rightarrow> None)"

lemma enforce_call_policy_script:
  assumes "enforce_call_policy shell c kind scope = Inr ()" "tc_tool_name c \<in> {''exec_command'', ''terminal_execute''}"
    and "Option.bind (json_get ''command'' (tc_arguments c)) json_as_str = Some command"
  shows "reject_destructive shell command (script_directory c) = Inr ()"
  using assms unfolding enforce_call_policy_def guard_shell_def Let_def script_directory_def
  by (auto simp: res_simps split: sum.splits)

text \<open>The storage of ShellSpan itself, as the paths of a call resolve.\<close>

definition below_storage :: "gate_world \<Rightarrow> string \<Rightarrow> bool" where
  "below_storage w p \<longleftrightarrow> (case gw_checkpoint_root w of None \<Rightarrow> False
     | Some stored \<Rightarrow>
         let root = path_components stored; root = (case gw_canonical w root of None \<Rightarrow> root | Some r \<Rightarrow> r)
         in take (length root) (resolve_existing (gw_canonical w) (length (path_components p)) (path_components p)) = root)"

text \<open>
  The paths of a call that name files of the local host which it changes: those of a local call with a
  changing effect, and the destination of a download.
\<close>

definition changed_locally :: "contract_env \<Rightarrow> tool_call \<Rightarrow> effect_kind \<Rightarrow> call_scope \<Rightarrow> string \<Rightarrow> bool" where
  "changed_locally env c kind scope p \<longleftrightarrow>
     (\<exists>tid session cwd. tc_target c = TargetLocal tid session cwd \<and> kind \<in> {StateChange, Destructive} \<and> p \<in> set (cs_paths scope))
   \<or> (\<exists>tid session profile host port user root here a. tc_target c = TargetRemote tid session profile host port user root (Some here)
        \<and> tc_tool_name c = ''transfer_file'' \<and> ce_transfer env (tc_arguments c) = Some a \<and> xf_direction a = Download
        \<and> p = path_join here (xf_destination a))"

lemma storage_policyD:
  assumes "enforce_runtime_storage_policy env w c kind scope = Inr ()" "changed_locally env c kind scope p"
  shows "\<not> below_storage w p"
proof -
  have "\<exists>ps. storage_paths env c kind scope = Inr (Some ps) \<and> p \<in> set ps"
    using assms unfolding changed_locally_def
    by (elim disjE exE conjE) (simp_all add: storage_paths_def ok_or_def)
  then obtain ps where ps: "storage_paths env c kind scope = Inr (Some ps)" "p \<in> set ps" by blast
  show ?thesis
  proof (cases "gw_checkpoint_root w")
    case (Some stored)
    with assms(1) ps show ?thesis
      by (cases "gw_canonical w (path_components stored)")
        (auto simp: enforce_runtime_storage_policy_def below_storage_def Let_def ensure_iff list_ex_iff)
  qed (simp add: below_storage_def)
qed

text \<open>
  C4. A call that is admitted for dispatch has passed every check again, at that moment: its target is
  the frozen one and belongs to its request, its arguments and effect are within the contract of its tool,
  its capability was issued for its request, user session, call, target, tool and effect, is used up by it,
  and was good when it was used; a call that changes or destroys touches no protected path (a file moved to the
  trash excepted, when it is not one of the hard-protected ones), a transfer writes to none whatever its
  effect, no file it changes on the local host, the destination of a download included, lies in ShellSpan's own
  storage; and a shell script among its arguments passed the guard from the directory where it will run.
\<close>

theorem admitted_call_passed_every_check:
  assumes "admit_tool_call env w x c t1 t2 t3 s = (Inr a, t)"
  shows "(\<exists>s1. revalidate_target w x (tc_target c) s = (Inr (), s1))
    \<and> (\<exists>d. find_builtin_tool (tc_tool_name c) = Some d \<and> kind_of_target (tc_target c) \<in> set (td_target_kinds d)
        \<and> oe_kind (ad_effect a) \<in> set (td_allowed_effects d))
    \<and> tc_target c \<in> set (ar_targets (nx_request x)) \<and> is_ok (validate_tool_arguments (ge_contract env) (tc_tool_name c) (tc_arguments c))
    \<and> (\<exists>r. map_of (en_store s) (tc_capability_id c) = Some r \<and> cr_call_digest r = call_digest env c
        \<and> cr_request_id r = ar_request_id (nx_request x) \<and> cr_user_session_id r = ar_user_session_id (nx_request x)
        \<and> tc_call_id c \<in> set (cr_allowed_call_ids r) \<and> target_of (tc_target c) \<in> set (cr_target_ids r)
        \<and> tc_tool_name c \<in> set (cr_allowed_tools r) \<and> oe_kind (ad_effect a) \<in> set (cr_allowed_effects r)
        \<and> \<not> cr_revoked r \<and> cr_not_before r \<le> t3 \<and> t3 < cr_expires_at r
        \<and> map_of (en_store t) = (map_of (en_store s))(tc_capability_id c \<mapsto> r\<lparr>cr_uses := cr_uses r + 1\<rparr>))
    \<and> (\<exists>scope. inspect_call_scope (ge_contract env) c = Inr scope
        \<and> (oe_kind (ad_effect a) \<in> {StateChange, Destructive} \<longrightarrow> tc_tool_name c \<noteq> ''transfer_file'' \<longrightarrow>
            (\<forall>p\<in>set (cs_paths scope). protected_delete_path p \<longrightarrow> tc_tool_name c = ''trash_file'' \<and> \<not> hard_delete_path p))
        \<and> (tc_tool_name c = ''transfer_file'' \<longrightarrow> (\<exists>source destination. cs_paths scope = [source, destination]
            \<and> \<not> protected_delete_path destination))
        \<and> (\<forall>p. changed_locally (ge_contract env) c (oe_kind (ad_effect a)) scope p \<longrightarrow> \<not> below_storage w p))
    \<and> (\<forall>command. tc_tool_name c \<in> {''exec_command'', ''terminal_execute''} \<longrightarrow>
        Option.bind (json_get ''command'' (tc_arguments c)) json_as_str = Some command \<longrightarrow>
        reject_destructive (ge_shell env) command (script_directory c) = Inr ())"
proof -
  from admit_tool_callD [OF assms] obtain tool s1 scope capability where
    target: "revalidate_target w x (tc_target c) s = (Inr (), s1)"
    and assess: "assess_call env w tool c = Inr (ad_effect a, scope)"
    and verify: "verify_bound_call (ge_hash env) (tc_capability_id c) (verify_context_of x c) (call_digest env c) t1 (en_store s) = Inr capability"
    and policy: "evaluate (ge_contract env) (nx_request x) c (Some (ad_effect a)) (Some capability) t2 = Inr ()"
    and spend: "consume (tc_capability_id c) t3 (en_store s) = (Inr (), en_store t)" by blast
  from assess_callD [OF assess] have scope: "inspect_call_scope (ge_contract env) c = Inr scope"
    and call: "enforce_call_policy (ge_shell env) c (oe_kind (ad_effect a)) scope = Inr ()"
    and storage: "enforce_runtime_storage_policy (ge_contract env) w c (oe_kind (ad_effect a)) scope = Inr ()" by simp_all
  from evaluateD [OF policy] have cap: "check_capability (nx_request x) c (oe_kind (ad_effect a)) t2 capability = Inr ()"
    and contract: "\<exists>d. find_builtin_tool (tc_tool_name c) = Some d \<and> kind_of_target (tc_target c) \<in> set (td_target_kinds d)
        \<and> oe_kind (ad_effect a) \<in> set (td_allowed_effects d)"
      "tc_target c \<in> set (ar_targets (nx_request x))" "is_ok (validate_tool_arguments (ge_contract env) (tc_tool_name c) (tc_arguments c))"
    by auto
  from verify_bound_callD [OF verify] obtain r where r: "map_of (en_store s) (tc_capability_id c) = Some r"
    "cr_call_digest r = call_digest env c" "verify (ge_hash env) (tc_capability_id c) (verify_context_of x c) t1 (en_store s) = Inr capability"
    by blast
  from verifyD [OF r(3)] r(1) have claims: "capability = verified_of_record r" "cr_request_id r = ar_request_id (nx_request x)"
    "cr_user_session_id r = ar_user_session_id (nx_request x)" "tc_call_id c \<in> set (cr_allowed_call_ids r)"
    "target_of (tc_target c) \<in> set (cr_target_ids r)"
    by (auto simp: verify_context_of_def)
  from cap have allowed: "tc_tool_name c \<in> set (cr_allowed_tools r)" "oe_kind (ad_effect a) \<in> set (cr_allowed_effects r)"
    by (simp_all add: check_capability_iff claims(1) verified_of_record_def)
  from consumeD [OF spend] r(1) have spent: "\<not> cr_revoked r \<and> cr_not_before r \<le> t3 \<and> t3 < cr_expires_at r
      \<and> map_of (en_store t) = (map_of (en_store s))(tc_capability_id c \<mapsto> r\<lparr>cr_uses := cr_uses r + 1\<rparr>)" by auto
  have transfer: "tc_tool_name c = ''transfer_file'' \<Longrightarrow> \<exists>source destination. cs_paths scope = [source, destination]
      \<and> \<not> protected_delete_path destination"
    using transfer_paths [OF scope] enforce_call_policy_transfer [OF call] by blast
  show ?thesis
    using target contract r(1,2) claims(2-5) allowed spent scope transfer enforce_call_policyD [OF call scope]
      storage_policyD [OF storage] enforce_call_policy_script [OF call] by blast
qed

lemma admitted_call_passed_every_check_witness:
  "\<exists>r. map_of [(sample_cap, sample_record)] sample_cap = Some r \<and> cr_call_digest r = call_digest sample_gate sample_call \<and> \<not> cr_revoked r"
proof -
  fix b :: "(unit, tool_target) broker_state"
  have cap: "tc_capability_id sample_call = sample_cap" by (simp add: sample_call_def)
  from admitted_call_passed_every_check [OF sample_admits [of b, unfolded op_ok_def]]
  show ?thesis unfolding cap by auto
qed

subsection \<open>The registry\<close>

lemma register_tools_implemented:
  "register_tools tools ds = Inr r \<Longrightarrow>
   (\<And>n t. tools n = Some t \<Longrightarrow> rt_implemented t \<longleftrightarrow> n \<in> set IMPLEMENTED_NATIVE_TOOLS) \<Longrightarrow>
   r n = Some t \<Longrightarrow> rt_implemented t \<longleftrightarrow> n \<in> set IMPLEMENTED_NATIVE_TOOLS"
proof (induction ds arbitrary: tools)
  case (Cons d ds)
  from Cons.prems(1) have rest: "register_tools (tools(md_name d \<mapsto> \<lparr>rt_descriptor = d,
       rt_implemented = (md_name d \<in> set IMPLEMENTED_NATIVE_TOOLS)\<rparr>)) ds = Inr r"
    by (auto simp: res_simps)
  show ?case by (rule Cons.IH [OF rest _ Cons.prems(3)]) (use Cons.prems(2) in \<open>auto split: if_splits\<close>)
qed simp

lemma implemented_tools_run: "list_all (\<lambda>n. executor_of n \<noteq> None) IMPLEMENTED_NATIVE_TOOLS"
  by code_simp

text \<open>
  C10. The registry hands out only tools that can run: a tool it calls executable is one of the built-in
  tools, its descriptor in the manifest agrees with the contract (version, targets, effects), and the
  kernel has an executor for it, so the last branch of the dispatch is never taken.
\<close>

theorem executable_tools_can_run:
  assumes "registry_from manifest = Inr tools" "executable_tool tools name = Inr t"
  shows "executor_of name \<noteq> None \<and> (\<exists>c. find_builtin_tool name = Some c \<and> descriptor_matches (rt_descriptor t) c)"
proof -
  from assms obtain m :: tool_manifest where "register_tools Map.empty (tm_tools m) = Inr tools" "tools name = Some t" "rt_implemented t"
    by (auto simp: registry_from_def executable_tool_def registry_get_def res_simps)
  with register_tools_implemented [of Map.empty] have "name \<in> set IMPLEMENTED_NATIVE_TOOLS" by auto
  with implemented_tools_run executable_tool_contract [OF assms] show ?thesis by (auto simp: list_all_iff)
qed

definition sample_descriptor :: "tool_descriptor \<Rightarrow> manifest_descriptor" where
  "sample_descriptor d = \<lparr>md_name = td_name d, md_version = ''1.0.0'', md_target_kinds = td_target_kinds d,
     md_effect_mode = td_effect_mode d, md_allowed_effects = td_allowed_effects d, md_idempotency = IdempotentNo,
     md_parallel = False, md_cancellable = False, md_retry_policy = RetryNever, md_default_timeout_ms = 1,
     md_max_output_bytes = 1, md_max_concurrency = 1, md_required_capabilities = [''native''], md_untrusted_result_fields = []\<rparr>"

definition sample_manifest :: tool_manifest where
  "sample_manifest = \<lparr>tm_contract_version = NATIVE_TOOL_CONTRACT_VERSION, tm_tools = map sample_descriptor BUILTIN_TOOL_DESCRIPTORS\<rparr>"

lemma executable_tools_can_run_witness:
  "executor_of ''read_file'' \<noteq> None \<and> (\<exists>c. find_builtin_tool ''read_file'' = Some c)"
proof -
  have "is_ok (try_bind (registry_from (Some sample_manifest)) (\<lambda>tools. executable_tool tools ''read_file''))" by code_simp
  then obtain tools t where "registry_from (Some sample_manifest) = Inr tools" "executable_tool tools ''read_file'' = Inr t"
    by (auto simp: is_ok_iff try_bind_Inr_iff)
  from executable_tools_can_run [OF this] show ?thesis by blast
qed

subsection \<open>The automatic review\<close>

lemma scoped_relativeD: "scoped_relative root v = Some t \<Longrightarrow> \<not> path_is_sensitive t"
  unfolding scoped_relative_def Let_def by (auto simp: bind_eq_Some_conv split: if_split_asm)

lemma none_else_iff: "(if P then None else x) = Some v \<longleftrightarrow> \<not> P \<and> x = Some v"
  by simp

definition scoped_plan :: "reviewed_command \<Rightarrow> bool" where
  "scoped_plan v \<longleftrightarrow> (\<forall>p. rv_input v = Some p \<longrightarrow> \<not> path_is_sensitive p)
     \<and> (rv_directory v \<noteq> [] \<longrightarrow> \<not> path_is_sensitive (rv_directory v))"

lemma review_plan_scoped:
  assumes "review_plan rv name operands plan = Some v" "rv_input plan = None" "rv_directory plan = []"
  shows "rv_program v = rv_program plan \<and> rv_root v = rv_root plan \<and> scoped_plan v"
proof -
  have "review_list rv operands plan = Some v \<Longrightarrow> ?thesis"
    using assms(2) by (auto simp: review_list_def bind_eq_Some_conv scoped_plan_def dest: scoped_relativeD split: if_split_asm)
  moreover have "review_file rv name operands plan = Some v \<Longrightarrow> ?thesis"
    using assms(3) by (auto simp: review_file_def bind_eq_Some_conv scoped_plan_def dest: scoped_relativeD split: if_split_asm)
  ultimately show ?thesis
    using assms unfolding review_plan_def by (auto simp: scoped_plan_def split: if_split_asm)
qed

definition bounded_read_command :: "review_env \<Rightarrow> reviewed_command \<Rightarrow> bool" where
  "bounded_read_command rv v \<longleftrightarrow>
     (\<exists>name\<in>set REVIEWED_PROGRAMS. rv_program v \<in> {''/bin/'' @ name, ''/usr/bin/'' @ name})
   \<and> rv_trusted rv (rv_program v) \<and> has_parent (rv_root v) \<and> \<not> path_is_sensitive (rv_root v)
   \<and> \<not> protected_delete_path (rv_root v) \<and> scoped_plan v"

lemma review_wordsD:
  assumes "review_words rv root executable operands = Some v"
  shows "bounded_read_command rv v"
proof -
  from assms [unfolded review_words_def bind_eq_Some_conv none_else_iff]
  obtain name program opened where name: "name \<in> set REVIEWED_PROGRAMS"
    and program: "find (rv_trusted rv) [''/bin/'' @ name, ''/usr/bin/'' @ name] = Some program"
    and root: "\<not> (\<not> has_parent (fst opened) \<or> path_is_sensitive (fst opened) \<or> protected_delete_path (fst opened))"
    and plan: "review_plan rv name operands \<lparr>rv_program = program, rv_arguments = [],
       rv_root = fst opened, rv_root_identity = snd opened, rv_directory = [], rv_input = None\<rparr> = Some v"
    by blast
  from review_plan_scoped [OF plan] find_SomeD [OF program] name root show ?thesis
    by (auto simp: bounded_read_command_def)
qed

lemma review_local_commandD:
  assumes "review_local_command env shell rv c = Some v"
  shows "tc_tool_name c = ''exec_command'' \<and> bounded_read_command rv v
    \<and> (\<exists>tid session root a. tc_target c = TargetLocal tid session (Some root) \<and> ce_exec env (tc_arguments c) = Some a
        \<and> reviewable root a)"
proof -
  from assms obtain tid session root where target: "tc_target c = TargetLocal tid session (Some root)"
    unfolding review_local_command_def by (cases "tc_target c") (auto split: option.split_asm)
  have "\<exists>a. tc_tool_name c = ''exec_command'' \<and> ce_exec env (tc_arguments c) = Some a \<and> reviewable root a
      \<and> (case literal_command_chain shell (xa_command a) of
           Some [command] \<Rightarrow> (case split_whitespace command of [] \<Rightarrow> None
             | executable # operands \<Rightarrow> review_words rv root executable operands)
         | _ \<Rightarrow> None) = Some v"
    using assms unfolding review_local_command_def target tool_target.case option.case none_else_iff bind_eq_Some_conv by blast
  then obtain a where a: "tc_tool_name c = ''exec_command''" "ce_exec env (tc_arguments c) = Some a" "reviewable root a"
    and words: "(case literal_command_chain shell (xa_command a) of
           Some [command] \<Rightarrow> (case split_whitespace command of [] \<Rightarrow> None
             | executable # operands \<Rightarrow> review_words rv root executable operands)
         | _ \<Rightarrow> None) = Some v" by blast
  from words have "bounded_read_command rv v"
    by (auto split: option.split_asm list.split_asm dest: review_wordsD)
  with a target show ?thesis by blast
qed

definition read_root :: "tool_target \<Rightarrow> string option" where
  "read_root t = (case t of TargetLocal _ _ (Some root) \<Rightarrow> Some root
     | TargetRemote _ _ (Some _) _ _ _ (Some root) _ \<Rightarrow> Some root | _ \<Rightarrow> None)"

lemma unasked_review:
  assumes "inspect_call_scope env c = Inr scope"
    and "review_call env shell rv NativeScopedAutopilot c kind scope = v" "\<not> av_requires_approval v"
  shows "tc_tool_name c \<in> {''read_file'', ''list_directory'', ''search_text''} \<and> (\<exists>root. read_root (tc_target c) = Some root
        \<and> has_root root \<and> has_parent root \<and> cs_paths scope \<noteq> [] \<and> (\<forall>p\<in>set (cs_paths scope). path_starts_with root p
          \<and> \<not> has_parent_dir p \<and> \<not> path_is_sensitive p \<and> \<not> protected_delete_path p))
    \<or> tc_tool_name c = ''exec_command'' \<and> (\<exists>command tid session root a. av_command v = Some command \<and> bounded_read_command rv command
        \<and> tc_target c = TargetLocal tid session (Some root) \<and> ce_exec env (tc_arguments c) = Some a \<and> reviewable root a)
    \<or> tc_tool_name c \<in> {''wait_process'', ''kill_process''}"
proof (cases "cs_sensitive scope = 0 \<and> cs_critical scope = 0
        \<and> tc_tool_name c \<in> {''read_file'', ''list_directory'', ''search_text''} \<and> structured_read_is_scoped rv c scope")
  case True
  then have "\<exists>root. read_root (tc_target c) = Some root \<and> has_root root \<and> has_parent root \<and> cs_paths scope \<noteq> []
      \<and> list_all (\<lambda>p. path_starts_with root p \<and> \<not> has_parent_dir p) (cs_paths scope)"
    unfolding structured_read_is_scoped_def read_root_def by (auto split: tool_target.splits option.splits)
  with True sensitive_counts [OF assms(1)] critical_counts [OF assms(1)] show ?thesis
    by (fastforce simp: list_all_iff)
next
  case False
  show ?thesis
  proof (cases "review_local_command env shell rv c")
    case None
    with False assms(2,3) show ?thesis by (auto simp: review_call_def Let_def)
  next
    case (Some command)
    with False assms(2) have "av_command v = Some command" by (auto simp: review_call_def)
    with review_local_commandD [OF Some] show ?thesis by blast
  qed
qed

text \<open>
  Whose process a target is: the manager of processes has it under the target, the host, the request and
  the task of the context, or it is a job that a shell runs for this host, user session and task.
\<close>

definition owned_process :: "gate_world \<Rightarrow> native_context \<Rightarrow> tool_target \<Rightarrow> ('p, tool_target) broker_state \<Rightarrow> bool" where
  "owned_process w x t b \<longleftrightarrow> (\<exists>target owner handle. t = TargetProcess target owner handle
     \<and> (if starts_with ''job-'' handle
        then target = ''process-'' @ handle \<and> (\<exists>j. map_of (br_jobs b) handle = Some j \<and> job_owner_target j = owner
          \<and> job_agent j = ar_user_session_id (nx_request x) \<and> job_task j = ar_task_id (nx_request x))
        else \<exists>p. gw_processes w handle = Some p \<and> po_target_id p = target \<and> po_owner_target_id p = owner
          \<and> po_request_id p = ar_request_id (nx_request x) \<and> po_task_id p = ar_task_id (nx_request x)))"

lemma shell_job_ofD:
  "shell_job_of handle owner agent task b = (Inr j, b') \<Longrightarrow>
    \<exists>j. map_of (br_jobs b) handle = Some j \<and> job_owner_target j = owner \<and> job_agent j = agent \<and> job_task j = task"
  unfolding shell_job_of_def by (auto simp: res_simps Let_def split: if_splits)

lemma revalidated_process_owned:
  assumes "revalidate_target w x t s = (Inr (), s')" "kind_of_target t = KindProcess"
  shows "owned_process w x t (en_broker s)"
proof (cases t)
  case (TargetProcess target owner handle)
  from assms(1) obtain b where chain: "revalidate_chain w x t (en_broker s) = Some (Inr (), b)"
    unfolding revalidate_target_def op_err_def by (auto split: option.splits prod.splits)
  show ?thesis
  proof (cases "starts_with ''job-'' handle")
    case True
    obtain r b' where job: "shell_job_of handle owner (ar_user_session_id (nx_request x)) (ar_task_id (nx_request x)) (en_broker s) = (r, b')"
      by force
    from chain True obtain j where "r = Inr j" "target = ''process-'' @ handle"
      unfolding TargetProcess by (subst (asm) revalidate_chain.simps) (auto simp: job split: sum.splits if_splits)
    with shell_job_ofD [of handle owner] job True TargetProcess show ?thesis by (auto simp: owned_process_def)
  next
    case False
    with chain have "revalidate_process w x target owner handle = Inr ()"
      unfolding TargetProcess by (subst (asm) revalidate_chain.simps) simp
    with False TargetProcess show ?thesis by (auto simp: owned_process_def revalidate_process_def res_simps)
  qed
qed (use assms(2) in \<open>simp_all add: kind_of_target_def\<close>)

lemma prepare_authorizationD:
  assumes "prepare_authorization env w x i s = (Inr p, t)"
  shows "\<exists>scope kind. inspect_call_scope (ge_contract env) (pp_call p) = Inr scope \<and>
    (let review = review_call (ge_contract env) (ge_shell env) (gw_review w) (ar_permission_mode (nx_request x)) (pp_call p) kind scope
     in pp_requires_confirmation p = av_requires_approval review \<and> pp_reviewed p = av_command review)"
proof -
  from assms obtain tool effect scope where "assess_call env w tool (call_of_input i) = Inr (effect, scope)"
    and p: "pp_call p = call_of_input i" "let review = review_call (ge_contract env) (ge_shell env) (gw_review w)
        (ar_permission_mode (nx_request x)) (call_of_input i) (oe_kind effect) scope
      in pp_requires_confirmation p = av_requires_approval review \<and> pp_reviewed p = av_command review"
    unfolding prepare_authorization_def by (auto simp: res_simps Let_def)
  with assess_callD show ?thesis by metis
qed

lemma process_tools:
  "find_builtin_tool n = Some d \<Longrightarrow> n \<in> {''wait_process'', ''kill_process''} \<Longrightarrow> set (td_target_kinds d) = {KindProcess}"
proof -
  have "td_target_kinds (the (find_builtin_tool ''wait_process'')) = [KindProcess]"
    "td_target_kinds (the (find_builtin_tool ''kill_process'')) = [KindProcess]" by code_simp+
  then show "find_builtin_tool n = Some d \<Longrightarrow> n \<in> {''wait_process'', ''kill_process''} \<Longrightarrow> set (td_target_kinds d) = {KindProcess}"
    by auto
qed

text \<open>
  C7. In the scoped mode of autonomy a call is authorized without the user, and admitted for dispatch, only in
  three cases: it reads files or directories by a structured tool, every path below the absolute root of its
  target, without a parent step and none of them sensitive or protected; or it is one bounded command of the six
  known programs, run as the trusted system binary in an open workspace that is neither sensitive nor protected,
  with no elevation and no background, reading nothing sensitive; or it waits for or kills a process, which at the
  moment of dispatch belongs to the same host and task, and to the same request or, for a job of a shell, to
  the same user session.
\<close>

theorem unasked_calls_are_scoped:
  assumes "prepare_authorization env w x i s = (Inr p, s')"
    and "ar_permission_mode (nx_request x) = NativeScopedAutopilot" "\<not> pp_requires_confirmation p"
    and "admit_tool_call env w' x ((pp_call p)\<lparr>tc_capability_id := cap\<rparr>) t1 t2 t3 s1 = (Inr a, t)"
  shows "tc_tool_name (pp_call p) \<in> {''read_file'', ''list_directory'', ''search_text''}
      \<and> (\<exists>root scope. inspect_call_scope (ge_contract env) (pp_call p) = Inr scope \<and> read_root (tc_target (pp_call p)) = Some root
        \<and> has_root root \<and> has_parent root \<and> cs_paths scope \<noteq> [] \<and> (\<forall>p\<in>set (cs_paths scope). path_starts_with root p
          \<and> \<not> has_parent_dir p \<and> \<not> path_is_sensitive p \<and> \<not> protected_delete_path p))
    \<or> tc_tool_name (pp_call p) = ''exec_command'' \<and> (\<exists>command tid session root a. pp_reviewed p = Some command
        \<and> bounded_read_command (gw_review w) command \<and> tc_target (pp_call p) = TargetLocal tid session (Some root)
        \<and> ce_exec (ge_contract env) (tc_arguments (pp_call p)) = Some a \<and> reviewable root a)
    \<or> tc_tool_name (pp_call p) \<in> {''wait_process'', ''kill_process''} \<and> owned_process w' x (tc_target (pp_call p)) (en_broker s1)"
proof -
  from prepare_authorizationD [OF assms(1)] assms(2) obtain scope kind where
    scope: "inspect_call_scope (ge_contract env) (pp_call p) = Inr scope"
    and review: "\<not> av_requires_approval (review_call (ge_contract env) (ge_shell env) (gw_review w) NativeScopedAutopilot (pp_call p) kind scope)"
    and command: "pp_reviewed p = av_command (review_call (ge_contract env) (ge_shell env) (gw_review w) NativeScopedAutopilot (pp_call p) kind scope)"
    using assms(3) by (auto simp: Let_def)
  from admit_tool_callD [OF assms(4)] obtain s2 effect capability where
    target: "revalidate_target w' x (tc_target (pp_call p)) s1 = (Inr (), s2)"
    and policy: "evaluate (ge_contract env) (nx_request x) ((pp_call p)\<lparr>tc_capability_id := cap\<rparr>) (Some effect) (Some capability) t2 = Inr ()"
    by auto
  from evaluateD [OF policy] obtain d where d: "find_builtin_tool (tc_tool_name (pp_call p)) = Some d"
    "kind_of_target (tc_target (pp_call p)) \<in> set (td_target_kinds d)" by auto
  have "tc_tool_name (pp_call p) \<in> {''wait_process'', ''kill_process''} \<Longrightarrow> owned_process w' x (tc_target (pp_call p)) (en_broker s1)"
    using process_tools [OF d(1)] d(2) revalidated_process_owned [OF target] by auto
  note owned = this
  from unasked_review [OF scope refl review] show ?thesis
  proof (elim disjE, goal_cases)
    case 1
    with scope show ?case by (intro disjI1) blast
  next
    case 2
    then show ?case unfolding command by blast
  next
    case 3
    with owned show ?case by blast
  qed
qed

subsection \<open>A process that is waited for\<close>

definition wait_contract :: contract_env where
  "wait_contract = idle_contract\<lparr>ce_wait_process := \<lambda>_. Some \<lparr>wp_timeout_ms = None, wp_max_output_bytes = None\<rparr>\<rparr>"

definition wait_target :: tool_target where "wait_target = TargetProcess ''process-1'' ''local-1'' ''handle-1''"

definition wait_context :: native_context where
  "wait_context = sample_context\<lparr>nx_request := (nx_request sample_context)\<lparr>ar_targets := [sample_target, wait_target]\<rparr>\<rparr>"

definition wait_tool :: registered_tool where
  "wait_tool = \<lparr>rt_descriptor = (rt_descriptor sample_tool)\<lparr>md_name := ''wait_process'', md_target_kinds := [KindProcess],
     md_allowed_effects := [ReadOnlyEffect]\<rparr>, rt_implemented = True\<rparr>"

definition wait_world :: gate_world where
  "wait_world = sample_world\<lparr>gw_processes := [''handle-1'' \<mapsto> \<lparr>po_target_id = ''process-1'', po_owner_target_id = ''local-1'',
     po_request_id = ''r1'', po_task_id = ''t1''\<rparr>]\<rparr>"

definition wait_gate :: gate_env where
  "wait_gate = sample_gate\<lparr>ge_contract := wait_contract, ge_registry := [''wait_process'' \<mapsto> wait_tool]\<rparr>"

definition wait_input :: authorize_request where
  "wait_input = sample_input\<lparr>au_tool_name := ''wait_process'', au_target := wait_target\<rparr>"

definition wait_effect :: observed_effect where
  "wait_effect = \<lparr>oe_kind = ReadOnlyEffect, oe_target_id = ''process-1'',
     oe_summary = ''Native policy classified wait_process as ReadOnly.'', oe_paths = [], oe_network = []\<rparr>"

definition wait_call :: tool_call where "wait_call = (call_of_input wait_input)\<lparr>tc_capability_id := sample_cap\<rparr>"

definition wait_record :: capability_record where
  "wait_record = record_of_issue sample_cap 10 (issue_request wait_gate None wait_context (call_of_input wait_input) ReadOnlyEffect 120000)"

lemma wait_context: "validate_context wait_context = Inr ()"
  by code_simp

lemma wait_arguments: "validate_tool_arguments wait_contract ''wait_process'' (JObject []) = Inr ()"
  by (simp add: validate_tool_arguments_def decoded_def within_def wait_contract_def ok_or_def ensure_def Let_def)

lemma wait_classified: "assess_effect wait_contract sh (rt_descriptor wait_tool) ((call_of_input wait_input)\<lparr>tc_capability_id := cap\<rparr>) = Inr wait_effect"
  by code_simp

lemma wait_scope: "inspect_call_scope wait_contract ((call_of_input wait_input)\<lparr>tc_capability_id := cap\<rparr>) = Inr sample_scope"
  by code_simp

lemma wait_policy: "enforce_call_policy sh ((call_of_input wait_input)\<lparr>tc_capability_id := cap\<rparr>) ReadOnlyEffect sample_scope = Inr ()"
  by code_simp

lemma wait_storage: "storage_paths wait_contract ((call_of_input wait_input)\<lparr>tc_capability_id := cap\<rparr>) ReadOnlyEffect sample_scope = Inr None"
  by code_simp

lemma wait_executable: "executable_tool [''wait_process'' \<mapsto> wait_tool] ''wait_process'' = Inr wait_tool"
  by code_simp

lemmas wait_checks = wait_context wait_arguments wait_classified wait_scope wait_policy wait_storage wait_executable

lemma wait_review: "\<not> av_requires_approval (review_call wait_contract (ge_shell wait_gate) (gw_review wait_world) NativeScopedAutopilot
    ((call_of_input wait_input)\<lparr>tc_capability_id := PENDING_CAPABILITY\<rparr>) ReadOnlyEffect sample_scope)"
  by code_simp

lemma wait_assessed:
  "assess_call wait_gate wait_world wait_tool ((call_of_input wait_input)\<lparr>tc_capability_id := cap\<rparr>) = Inr (wait_effect, sample_scope)"
  by (simp add: assess_call_def wait_gate_def wait_checks map_err_def enforce_runtime_storage_policy_def)
    (simp add: wait_effect_def wait_checks map_err_def)

lemma wait_revalidated: "revalidate_target wait_world wait_context wait_target s = op_ok () s"
  by (simp add: revalidate_target_def wait_target_def revalidate_chain.simps revalidate_process_def wait_world_def wait_context_def
      sample_context_def ok_or_def ensure_def op_ok_def starts_with_def)

lemma wait_parts:
  "ge_contract wait_gate = wait_contract" "ge_registry wait_gate = [''wait_process'' \<mapsto> wait_tool]" "ge_hash wait_gate = sample_hash"
  "tc_target (call_of_input wait_input) = wait_target" "tc_target wait_call = wait_target" "tc_tool_name wait_call = ''wait_process''"
  "oe_kind wait_effect = ReadOnlyEffect" "ar_permission_mode (nx_request wait_context) = NativeScopedAutopilot"
  "ar_request_id (nx_request wait_context) = ''r1''" "ar_targets (nx_request wait_context) = [sample_target, wait_target]"
  "au_request_id wait_input = ''r1''" "au_tool_name wait_input = ''wait_process''" "au_arguments wait_input = JObject []"
  "au_target wait_input = wait_target" "au_ttl_ms wait_input = None"
  "gw_preview wait_world c = Some \<lparr>pv_summary = ''read'', pv_diff = None\<rparr>"
  by (simp_all add: wait_gate_def sample_gate_def wait_world_def sample_world_def wait_context_def sample_context_def
    wait_input_def sample_input_def call_of_input_def wait_call_def wait_effect_def)

lemma wait_prepares:
  "\<exists>p. prepare_authorization wait_gate wait_world wait_context wait_input s = (Inr p, s)
     \<and> pp_call p = call_of_input wait_input \<and> \<not> pp_requires_confirmation p"
proof -
  have pending: "call_of_input wait_input = (call_of_input wait_input)\<lparr>tc_capability_id := PENDING_CAPABILITY\<rparr>"
    by (simp add: call_of_input_def)
  note assessed = wait_assessed [of PENDING_CAPABILITY, folded pending]
  note review = wait_review [folded pending]
  show ?thesis
    using review by (simp add: prepare_authorization_def wait_checks ensure_def wait_parts map_err_def wait_revalidated assessed
      Let_def DEFAULT_CAPABILITY_TTL_MS_def MAX_CAPABILITY_TTL_MS_def ok_or_def op_ok_def)
qed

lemma wait_record_fields:
  "cr_capability_id wait_record = sample_cap" "cr_request_id wait_record = ''r1''" "cr_user_session_id wait_record = ''u1''"
  "cr_allowed_call_ids wait_record = [''c1'']" "cr_target_ids wait_record = [''process-1'']" "cr_uses wait_record = 0"
  "cr_max_uses wait_record = 1" "\<not> cr_revoked wait_record" "cr_not_before wait_record = 10"
  "cr_expires_at wait_record = 120010" "cr_call_digest wait_record = call_digest wait_gate wait_call"
  "cr_allowed_tools wait_record = [''wait_process'']" "cr_allowed_effects wait_record = [ReadOnlyEffect]"
  "cr_reviewed wait_record = None"
  by (simp_all add: wait_record_def record_of_issue_def issue_request_def wait_context_def sample_context_def call_of_input_def
      wait_input_def sample_input_def wait_target_def sat_add_def wait_call_def call_digest_def digest_input_def)

lemma wait_verified:
  "verify_bound_call sample_hash sample_cap (verify_context_of wait_context wait_call) (call_digest wait_gate wait_call) 20
     [(sample_cap, wait_record)] = Inr (verified_of_record wait_record)"
proof -
  have "proof_is_valid sample_hash sample_cap = Some True"
    unfolding sample_cap_def by (rule issued_proof_is_valid) (simp_all add: sample_nonce_def sample_hash_def)
  moreover have "verify_context_of wait_context wait_call = \<lparr>vx_request_id = ''r1'', vx_user_session_id = ''u1'',
      vx_call_id = ''c1'', vx_target_id = ''process-1''\<rparr>" by code_simp
  ultimately show ?thesis
    by (simp add: verify_bound_call_def verify_def ok_or_def ensure_def wait_record_fields)
qed

lemma wait_evaluated:
  "evaluate wait_contract (nx_request wait_context) wait_call (Some wait_effect) (Some (verified_of_record wait_record)) 30 = Inr ()"
proof -
  have checks: "validate_agent_request (nx_request wait_context)" "valid_identifier ''c1''" "target_shape_is_valid wait_target"
    "process_owner_is_registered [sample_target, wait_target] wait_target"
    "find_builtin_tool ''wait_process'' = Some \<lparr>td_name = ''wait_process'', td_target_kinds = [KindProcess],
       td_effect_mode = FixedEffect, td_allowed_effects = [ReadOnlyEffect]\<rparr>"
    "kind_of_target wait_target = KindProcess" "oe_target_id wait_effect = target_of wait_target"
    "\<not> is_blank (oe_summary wait_effect) \<and> length (oe_summary wait_effect) \<le> 2048" "oe_paths wait_effect = []"
    "target_of wait_target = ''process-1''" "ar_user_session_id (nx_request wait_context) = ''u1''"
    by code_simp+
  have call: "tc_request_id wait_call = ''r1''" "tc_call_id wait_call = ''c1''" "tc_capability_id wait_call = sample_cap"
    "tc_arguments wait_call = JObject []"
    by (simp_all add: wait_call_def call_of_input_def wait_input_def sample_input_def)
  have "check_capability (nx_request wait_context) wait_call ReadOnlyEffect 30 (verified_of_record wait_record) = Inr ()"
    by (simp add: check_capability_iff verified_of_record_def wait_record_fields call checks wait_parts)
  with checks call show ?thesis
    by (simp add: evaluate_def ensure_def ok_or_def wait_parts sample_cap_identifier wait_checks)
qed

lemma wait_admits:
  "\<exists>a t. admit_tool_call wait_gate wait_world wait_context wait_call 20 30 40 \<lparr>en_store = [(sample_cap, wait_record)], en_broker = b\<rparr>
   = (Inr a, t)"
proof -
  have "tc_request_id wait_call = ''r1''" "tc_capability_id wait_call = sample_cap"
    by (simp_all add: wait_call_def call_of_input_def wait_input_def sample_input_def)
  moreover have "consume sample_cap 40 [(sample_cap, wait_record)] = (Inr (), [(sample_cap, wait_record\<lparr>cr_uses := 1\<rparr>)])"
    by (simp add: consume_def ok_or_def op_ok_def wait_record_fields)
  moreover have "assess_call wait_gate wait_world wait_tool wait_call = Inr (wait_effect, sample_scope)"
    unfolding wait_call_def by (rule wait_assessed)
  ultimately show ?thesis
    by (simp add: admit_tool_call_def wait_checks ensure_def wait_parts map_err_def wait_revalidated
        wait_verified wait_evaluated reviewed_command_of_def ok_or_def wait_record_fields consume_grant_def op_ok_def)
qed

lemma unasked_calls_are_scoped_witness:
  "\<forall>b :: (unit, tool_target) broker_state. owned_process wait_world wait_context wait_target b"
proof
  fix b :: "(unit, tool_target) broker_state"
  obtain p where p: "prepare_authorization wait_gate wait_world wait_context wait_input \<lparr>en_store = [], en_broker = b\<rparr>
      = (Inr p, \<lparr>en_store = [], en_broker = b\<rparr>)" "pp_call p = call_of_input wait_input" "\<not> pp_requires_confirmation p"
    using wait_prepares by blast
  obtain a t where "admit_tool_call wait_gate wait_world wait_context ((pp_call p)\<lparr>tc_capability_id := sample_cap\<rparr>) 20 30 40
      \<lparr>en_store = [(sample_cap, wait_record)], en_broker = b\<rparr> = (Inr a, t)"
    using wait_admits unfolding p(2) wait_call_def [symmetric] by blast
  from unasked_calls_are_scoped [OF p(1) wait_parts(8) p(3) this] p(2)
  show "owned_process wait_world wait_context wait_target b"
    by (simp add: wait_parts call_of_input_def wait_input_def sample_input_def)
qed

end
