(* ===== verification/Stream_Frames.thy ===== *)
theory Stream_Frames
  imports Rust_Text
begin

text \<open>
  The framing of a streamed model response (llm/transport/limits.rs, sse.rs, ndjson.rs): bytes
  arrive in chunks, the buffer gives up one frame after the other, and what is left waits for the
  next chunk. Bytes are characters; a frame is text only when its bytes are UTF-8.
\<close>

subsection \<open>UTF-8\<close>

definition is_cont :: "nat \<Rightarrow> bool" where
  "is_cont b \<longleftrightarrow> 0x80 \<le> b \<and> b \<le> 0xBF"

definition utf8_second3 :: "nat \<Rightarrow> nat \<Rightarrow> bool" where
  "utf8_second3 b c \<longleftrightarrow> b = 0xE0 \<and> 0xA0 \<le> c \<and> c \<le> 0xBF
     \<or> (0xE1 \<le> b \<and> b \<le> 0xEC \<or> b = 0xEE \<or> b = 0xEF) \<and> is_cont c \<or> b = 0xED \<and> 0x80 \<le> c \<and> c \<le> 0x9F"

definition utf8_second4 :: "nat \<Rightarrow> nat \<Rightarrow> bool" where
  "utf8_second4 b c \<longleftrightarrow> b = 0xF0 \<and> 0x90 \<le> c \<and> c \<le> 0xBF
     \<or> 0xF1 \<le> b \<and> b \<le> 0xF3 \<and> is_cont c \<or> b = 0xF4 \<and> 0x80 \<le> c \<and> c \<le> 0x8F"

text \<open>\<open>String::from\_utf8\<close> accepts exactly these bytes.\<close>

fun utf8_bytes :: "nat list \<Rightarrow> bool" where
  "utf8_bytes [] = True"
| "utf8_bytes (b # bs) =
     (if b < 0x80 then utf8_bytes bs
      else case bs of [] \<Rightarrow> False
      | c # cs \<Rightarrow> if 0xC2 \<le> b \<and> b \<le> 0xDF then is_cont c \<and> utf8_bytes cs
          else (case cs of [] \<Rightarrow> False
            | d # ds \<Rightarrow> if utf8_second3 b c then is_cont d \<and> utf8_bytes ds
                else utf8_second4 b c \<and> is_cont d
                  \<and> (case ds of [] \<Rightarrow> False | e # es \<Rightarrow> is_cont e \<and> utf8_bytes es)))"

definition is_utf8 :: "string \<Rightarrow> bool" where
  "is_utf8 s = utf8_bytes (map byte_of s)"

subsection \<open>Limits\<close>

definition MAX_PROVIDER_STREAM_EVENT_BYTES :: nat where "MAX_PROVIDER_STREAM_EVENT_BYTES = 1024 * 1024"
definition MAX_PROVIDER_STREAM_RESPONSE_BYTES :: nat where "MAX_PROVIDER_STREAM_RESPONSE_BYTES = 16 * 1024 * 1024"

datatype (plugins only: code size) frame_error = ResponseTooLarge | FrameTooLarge | FrameNotUtf8

text \<open>The buffer and the number of bytes received so far.\<close>

definition append_provider_stream_chunk :: "string \<Rightarrow> string \<Rightarrow> nat \<Rightarrow> frame_error + string \<times> nat" where
  "append_provider_stream_chunk buffer chunk received =
     try_bind (ensure (received + length chunk \<le> MAX_PROVIDER_STREAM_RESPONSE_BYTES) ResponseTooLarge) (\<lambda>_.
     Inr (buffer @ chunk, received + length chunk))"

definition ensure_provider_stream_frame_size :: "nat \<Rightarrow> frame_error + unit" where
  "ensure_provider_stream_frame_size n = ensure (n \<le> MAX_PROVIDER_STREAM_EVENT_BYTES) FrameTooLarge"

subsection \<open>Server-sent events\<close>

definition LF :: char where "LF = CHR 0x0A"
definition CR :: char where "CR = CHR 0x0D"

fun find_bytes :: "string \<Rightarrow> string \<Rightarrow> nat option" where
  "find_bytes needle [] = (if needle = [] then Some 0 else None)"
| "find_bytes needle (c # cs) =
     (if starts_with needle (c # cs) then Some 0 else map_option Suc (find_bytes needle cs))"

definition earliest_separator :: "(nat \<times> nat) option \<Rightarrow> (nat \<times> nat) option \<Rightarrow> (nat \<times> nat) option" where
  "earliest_separator first second = (case (first, second) of
     (Some a, Some b) \<Rightarrow> Some (if fst a \<le> fst b then a else b)
   | (Some a, None) \<Rightarrow> Some a | (None, s) \<Rightarrow> s)"

definition sse_separator :: "string \<Rightarrow> (nat \<times> nat) option" where
  "sse_separator buffer = earliest_separator
     (map_option (\<lambda>i. (i, 2)) (find_bytes [LF, LF] buffer))
     (map_option (\<lambda>i. (i, 4)) (find_bytes [CR, LF, CR, LF] buffer))"

text \<open>A frame and the rest of the buffer.\<close>

definition take_sse_event :: "string \<Rightarrow> frame_error + (string \<times> string) option" where
  "take_sse_event buffer = (case sse_separator buffer of
     None \<Rightarrow> Inr None
   | Some (i, n) \<Rightarrow>
       try_bind (ensure_provider_stream_frame_size i) (\<lambda>_.
       try_bind (ensure (is_utf8 (take i buffer)) FrameNotUtf8) (\<lambda>_.
       Inr (Some (take i buffer, drop (i + n) buffer)))))"

definition take_final_sse_event :: "string \<Rightarrow> frame_error + string option" where
  "take_final_sse_event buffer =
     (if list_all is_ascii_whitespace buffer then Inr None
      else try_bind (ensure_provider_stream_frame_size (length buffer)) (\<lambda>_.
        try_bind (ensure (is_utf8 buffer) FrameNotUtf8) (\<lambda>_. Inr (Some buffer))))"

text \<open>\<open>str::lines\<close>, \<open>strip\_prefix\<close>, \<open>trim\_start\<close> and \<open>join\<close>.\<close>

definition strip_cr :: "string \<Rightarrow> string" where
  "strip_cr l = (if l \<noteq> [] \<and> last l = CR then butlast l else l)"

definition text_lines :: "string \<Rightarrow> string list" where
  "text_lines s = (let ls = split_on LF s in
     map strip_cr (butlast ls) @ (if last ls = [] then [] else [last ls]))"

definition line_value :: "string \<Rightarrow> string \<Rightarrow> string option" where
  "line_value prefix l = (if starts_with prefix l then Some (drop (length prefix) l) else None)"

fun join_lines :: "string list \<Rightarrow> string" where
  "join_lines [] = []"
| "join_lines [l] = l"
| "join_lines (l # ls) = l @ LF # join_lines ls"

definition sse_data :: "string \<Rightarrow> string" where
  "sse_data event = join_lines (map (trim_front space2 space3) (filter_map (line_value ''data:'') (text_lines event)))"

subsection \<open>Lines of JSON\<close>

definition take_line :: "string \<Rightarrow> frame_error + (string \<times> string) option" where
  "take_line buffer = (case position (\<lambda>c. c = LF) buffer of
     None \<Rightarrow> Inr None
   | Some i \<Rightarrow>
       try_bind (ensure_provider_stream_frame_size i) (\<lambda>_.
       try_bind (ensure (is_utf8 (strip_cr (take i buffer))) FrameNotUtf8) (\<lambda>_.
       Inr (Some (strip_cr (take i buffer), drop (Suc i) buffer)))))"

end
