(* ===== verification/Provider_Signals.thy ===== *)
theory Provider_Signals
  imports Stream_Frames Json_Value Effects
begin

text \<open>
  What a provider signals beside content: its errors, as the kind, status, code and delay that decide
  what happens next (llm/transport/stream.rs; the messages, which are redacted text, are left out),
  and the token usage (llm/usage.rs). The JSON decoder and encoder are parameters.
\<close>

record json_codec =
  jc_parse :: "string \<Rightarrow> json option"
  jc_print :: "json \<Rightarrow> string"

record stream_error =
  pe_kind :: model_error_kind
  pe_status :: "u16 option"
  pe_code :: "string option"
  pe_retry_after :: "u64 option"

definition plain_error :: "model_error_kind \<Rightarrow> stream_error" where
  "plain_error k = \<lparr>pe_kind = k, pe_status = None, pe_code = None, pe_retry_after = None\<rparr>"

definition coded_error :: "model_error_kind \<Rightarrow> string \<Rightarrow> stream_error" where
  "coded_error k code = (plain_error k)\<lparr>pe_code := Some code\<rparr>"

definition cancelled_error :: stream_error where
  "cancelled_error = plain_error ErrCancelled"

definition retryable :: "stream_error \<Rightarrow> bool" where
  "retryable e \<longleftrightarrow> pe_kind e \<in> {ErrRetryable, ErrTransport, ErrTimeout, ErrEmptyResponse, ErrRateLimited}"

subsection \<open>Errors of a provider\<close>

definition get_str :: "string \<Rightarrow> json \<Rightarrow> string option" where
  "get_str k v = Option.bind (json_get k v) json_as_str"

definition or_else :: "'a option \<Rightarrow> 'a option \<Rightarrow> 'a option" where
  "or_else a b = (case a of None \<Rightarrow> b | Some x \<Rightarrow> Some x)"

definition pointer_str :: "json \<Rightarrow> string \<Rightarrow> string option" where
  "pointer_str v p = Option.bind (json_pointer v p) json_as_str"

definition valid_code :: "string \<Rightarrow> bool" where
  "valid_code c \<longleftrightarrow> c \<noteq> [] \<and> length c \<le> 128 \<and> list_all (\<lambda>b. is_ascii_alphanumeric b \<or> b = CHR ''_'') c"

definition filter_opt :: "('a \<Rightarrow> bool) \<Rightarrow> 'a option \<Rightarrow> 'a option" where
  "filter_opt p v = Option.bind v (\<lambda>x. if p x then Some x else None)"

definition provider_error_code :: "json_codec \<Rightarrow> string \<Rightarrow> string option" where
  "provider_error_code jc message =
     (let err = Option.bind (jc_parse jc message) (json_get ''error'') in
      map_option (map to_ascii_lower) (filter_opt valid_code (Option.bind err (\<lambda>v.
        or_else (Option.bind (json_get ''metadata'' v) (get_str ''error_type''))
          (or_else (get_str ''code'' v) (get_str ''type'' v))))))"

definition CONTEXT_PHRASES :: "string list" where
  "CONTEXT_PHRASES = [''context length'', ''context window'', ''maximum context'', ''too many tokens'', ''prompt is too long'']"

definition TERMINAL_CODES :: "string list" where
  "TERMINAL_CODES = [''insufficient_quota'', ''billing_hard_limit_reached'', ''content_policy_violation'',
     ''invalid_request_error'', ''model_not_found'']"

definition provider_error_kind :: "u16 \<Rightarrow> string option \<Rightarrow> bool \<Rightarrow> model_error_kind" where
  "provider_error_kind status code too_large =
     (if \<exists>c\<in>set TERMINAL_CODES. code = Some c then ErrTerminal
      else if code = Some ''context_length_exceeded'' then ErrContextTooLarge
      else if status = 401 \<or> status = 403 then ErrAuthentication
      else if status = 429 then ErrRateLimited
      else if too_large then ErrContextTooLarge
      else if status = 408 \<or> status = 409 \<or> status = 425 \<or> 500 \<le> status \<and> status \<le> 599 then ErrRetryable
      else ErrTerminal)"

definition normalize_provider_error :: "json_codec \<Rightarrow> u16 \<Rightarrow> string \<Rightarrow> stream_error" where
  "normalize_provider_error jc status message =
     (let code = provider_error_code jc message;
          too_large = list_ex (\<lambda>p. contains_text p (map to_ascii_lower message)) CONTEXT_PHRASES
      in \<lparr>pe_kind = provider_error_kind status code too_large, pe_status = Some status,
          pe_code = Some (case code of Some c \<Rightarrow> c | None \<Rightarrow> ''HTTP_'' @ decimal (unat status)),
          pe_retry_after = None\<rparr>)"

text \<open>Structured errors inside a response of status 200.\<close>

definition insert_field :: "string \<Rightarrow> json \<Rightarrow> json \<Rightarrow> json" where
  "insert_field k v obj = (case obj of JObject kvs \<Rightarrow> JObject (btree_insert k v kvs) | _ \<Rightarrow> obj)"

definition stream_error_body :: "json \<Rightarrow> json" where
  "stream_error_body value =
     (let source = (case or_else (json_pointer value ''/response/error'') (json_get ''error'' value) of
            Some s \<Rightarrow> s | None \<Rightarrow> value)
      in case or_else (json_get ''error_type'' value) (json_pointer value ''/response/error_type'') of
           None \<Rightarrow> source
         | Some k \<Rightarrow> insert_field ''metadata'' (JObject [(''error_type'', k)]) source)"

definition code_status :: "string option \<Rightarrow> u16" where
  "code_status code = (case code of None \<Rightarrow> 400 | Some c \<Rightarrow>
     if c \<in> {''rate_limit_exceeded'', ''rate_limit_error'', ''insufficient_quota''} then 429
     else if c \<in> {''provider_overloaded'', ''overloaded_error'', ''server_error'', ''server''} then 503
     else if c = ''provider_unavailable'' then 502
     else if c \<in> {''timeout'', ''request_timeout''} then 408
     else if c \<in> {''authentication'', ''authentication_error'', ''invalid_api_key''} then 401
     else if c \<in> {''permission_denied'', ''permission_error'', ''content_policy_violation''} then 403
     else if c = ''payment_required'' then 402
     else if c = ''model_not_found'' then 404 else 400)"

definition stream_error_status :: "json option \<Rightarrow> u16" where
  "stream_error_status code =
     (case Option.bind code json_as_u64 of
        Some n \<Rightarrow> if 400 \<le> n \<and> n < 600 then of_nat (unat n) else code_status (Option.bind code json_as_str)
      | None \<Rightarrow> code_status (Option.bind code json_as_str))"

definition normalize_stream_error :: "json_codec \<Rightarrow> json \<Rightarrow> stream_error" where
  "normalize_stream_error jc value =
     (let body = stream_error_body value;
          code = or_else (json_pointer body ''/metadata/error_type'') (or_else (json_get ''code'' body) (json_get ''type'' body))
      in normalize_provider_error jc (stream_error_status code) (jc_print jc (JObject [(''error'', body)])))"

text \<open>The delay a provider asks for; a date in the header is given as the milliseconds until it.\<close>

definition parse_u64 :: "string \<Rightarrow> u64 option" where
  "parse_u64 s = (let digits = (if s \<noteq> [] \<and> hd s = CHR ''+'' then tl s else s);
       n = foldl (\<lambda>a c. 10 * a + (byte_of c - 48)) 0 digits
     in if digits = [] \<or> \<not> list_all is_ascii_digit digits \<or> 2 ^ 64 \<le> n then None else Some (of_nat n))"

definition parse_retry_after :: "(string \<Rightarrow> nat option) \<Rightarrow> string \<Rightarrow> u64 option" where
  "parse_retry_after until value = (case parse_u64 (trim_text value) of
     Some seconds \<Rightarrow> if unat seconds * 1000 < 2 ^ 64 then Some (seconds * 1000) else None
   | None \<Rightarrow> Option.bind (until (trim_text value)) (\<lambda>ms. if ms < 2 ^ 64 then Some (of_nat ms) else None))"

subsection \<open>Usage\<close>

definition no_usage :: token_usage where
  "no_usage = \<lparr>usage_uncached_input_tokens = None, usage_cache_read_tokens = None, usage_cache_write_tokens = None,
     usage_output_tokens = None, usage_reasoning_tokens = None, usage_total_tokens = None\<rparr>"

definition checked_sum :: "u64 list \<Rightarrow> u64 \<Rightarrow> u64 option" where
  "checked_sum ns a = foldl (\<lambda>t n. Option.bind t (\<lambda>s. checked_add s n)) (Some a) ns"

definition or_zero :: "u64 option \<Rightarrow> u64" where
  "or_zero v = (case v of None \<Rightarrow> 0 | Some n \<Rightarrow> n)"

definition merge_latest :: "token_usage \<Rightarrow> token_usage \<Rightarrow> token_usage" where
  "merge_latest u n =
     (let input = or_else (usage_uncached_input_tokens n) (usage_uncached_input_tokens u);
          read = or_else (usage_cache_read_tokens n) (usage_cache_read_tokens u);
          output = or_else (usage_output_tokens n) (usage_output_tokens u)
      in \<lparr>usage_uncached_input_tokens = input, usage_cache_read_tokens = read,
          usage_cache_write_tokens = or_else (usage_cache_write_tokens n) (usage_cache_write_tokens u),
          usage_output_tokens = output,
          usage_reasoning_tokens = or_else (usage_reasoning_tokens n) (usage_reasoning_tokens u),
          usage_total_tokens = (case usage_total_tokens n of Some t \<Rightarrow> Some t
            | None \<Rightarrow> Option.bind input (\<lambda>i. Option.bind output (\<lambda>out. checked_sum [or_zero read, out] i)))\<rparr>)"

definition get_u64 :: "string \<Rightarrow> json \<Rightarrow> u64 option" where
  "get_u64 k v = Option.bind (json_get k v) json_as_u64"

definition pointer_u64 :: "json \<Rightarrow> string \<Rightarrow> u64 option" where
  "pointer_u64 v p = Option.bind (json_pointer v p) json_as_u64"

definition usage_source :: "provider_kind \<Rightarrow> json \<Rightarrow> json option" where
  "usage_source kind v = (case kind of
     OpenAi \<Rightarrow> or_else (json_pointer v ''/response/usage'') (json_get ''usage'' v)
   | OpenAiCompatible \<Rightarrow> json_get ''usage'' v
   | Ollama \<Rightarrow> Some v
   | AnthropicMessages \<Rightarrow> or_else (json_get ''usage'' v) (Some v))"

text \<open>Input, cache read, cache write, output, reasoning, and the total the provider gives.\<close>

definition usage_fields :: "provider_kind \<Rightarrow> json \<Rightarrow>
    u64 option \<times> u64 option \<times> u64 option \<times> u64 option \<times> u64 option \<times> u64 option" where
  "usage_fields kind u = (case kind of
     OpenAi \<Rightarrow> (get_u64 ''input_tokens'' u, pointer_u64 u ''/input_tokens_details/cached_tokens'', None,
       get_u64 ''output_tokens'' u, pointer_u64 u ''/output_tokens_details/reasoning_tokens'', get_u64 ''total_tokens'' u)
   | OpenAiCompatible \<Rightarrow> (get_u64 ''prompt_tokens'' u,
       Option.bind (or_else (json_get ''prompt_cache_hit_tokens'' u)
         (json_pointer u ''/prompt_tokens_details/cached_tokens'')) json_as_u64,
       Option.bind (or_else (json_get ''prompt_cache_creation_tokens'' u)
         (json_pointer u ''/prompt_tokens_details/cache_creation_tokens'')) json_as_u64,
       get_u64 ''completion_tokens'' u, pointer_u64 u ''/completion_tokens_details/reasoning_tokens'', get_u64 ''total_tokens'' u)
   | Ollama \<Rightarrow> (get_u64 ''prompt_eval_count'' u, None, None, get_u64 ''eval_count'' u, None, None)
   | AnthropicMessages \<Rightarrow> (get_u64 ''input_tokens'' u, get_u64 ''cache_read_input_tokens'' u,
       get_u64 ''cache_creation_input_tokens'' u, get_u64 ''output_tokens'' u, None, None))"

definition usage_total :: "provider_kind \<Rightarrow> u64 option \<Rightarrow> u64 option \<Rightarrow> u64 option \<Rightarrow> u64 option \<Rightarrow> u64 option \<Rightarrow> u64 option" where
  "usage_total kind input read write output explicit = or_else explicit (case (input, output) of
     (Some i, Some out) \<Rightarrow> if kind = AnthropicMessages then checked_sum [or_zero read, or_zero write, out] i
       else checked_add i out
   | _ \<Rightarrow> None)"

definition uncached_input :: "provider_kind \<Rightarrow> json \<Rightarrow> u64 option \<Rightarrow> u64 option \<Rightarrow> u64 option" where
  "uncached_input kind u input read =
     (if kind = AnthropicMessages then input
      else or_else (get_u64 ''prompt_cache_miss_tokens'' u) (map_option (\<lambda>i. sat_sub i (or_zero read)) input))"

definition provider_usage_from_value :: "provider_kind \<Rightarrow> json \<Rightarrow> token_usage option" where
  "provider_usage_from_value kind value = Option.bind (usage_source kind value) (\<lambda>u.
     let (input, read, write, output, reasoning, explicit) = usage_fields kind u;
         usage = \<lparr>usage_uncached_input_tokens = uncached_input kind u input read, usage_cache_read_tokens = read,
           usage_cache_write_tokens = write, usage_output_tokens = output, usage_reasoning_tokens = reasoning,
           usage_total_tokens = usage_total kind input read write output explicit\<rparr>
     in if usage = no_usage then None else Some usage)"

end
