(* ===== verification/Stream_Connection.thy ===== *)
theory Stream_Connection
  imports Provider_Signals
begin

text \<open>
  The loop that every adapter runs over a streamed response (llm/transport/stream.rs and the
  \<open>stream\_\<close> functions of llm/adapters): wait for a chunk until the deadline, append it, take the frames
  out of the buffer and hand them to the parser of the protocol, and stop when the parser says so.
  The world is the list of what arrives and when; cancellation goes before the timer, the timer
  before the data. The receiver of the deltas is a parameter that may refuse one.
\<close>

subsection \<open>Deltas\<close>

datatype (plugins only: code size) stream_delta =
    DeltaText u32 string
  | DeltaReasoning u32 string
  | DeltaToolCall u32 "string option" "string option" "string option"
  | DeltaUsage token_usage

record sink_log =
  sl_sent :: "stream_delta list"

text \<open>What the receiver answers, after what it got.\<close>

type_synonym sink = "stream_delta list \<Rightarrow> stream_error option"

definition emit :: "sink \<Rightarrow> stream_delta \<Rightarrow> 'a sink_log_scheme \<Rightarrow> ('a sink_log_scheme, stream_error, unit) outcome" where
  "emit k d s = (let s = s\<lparr>sl_sent := sl_sent s @ [d]\<rparr> in
     case k (sl_sent s) of None \<Rightarrow> op_ok () s | Some e \<Rightarrow> op_err e s)"

fun op_each :: "('a \<Rightarrow> 's \<Rightarrow> ('s, 'e, unit) outcome) \<Rightarrow> 'a list \<Rightarrow> 's \<Rightarrow> ('s, 'e, unit) outcome" where
  "op_each f [] s = op_ok () s"
| "op_each f (x # xs) s = op_bind (f x s) (\<lambda>_ s. op_each f xs s)"

lemma op_each_append: "op_each f (xs @ ys) s = op_bind (op_each f xs s) (\<lambda>_ s. op_each f ys s)"
  by (induction xs arbitrary: s) (auto simp: op_bind_def op_ok_def split: prod.splits sum.splits)

subsection \<open>The connection\<close>

record timeouts =
  to_first_byte :: nat
  to_stream_idle :: nat

definition default_timeouts :: timeouts where
  "default_timeouts = \<lparr>to_first_byte = 30000, to_stream_idle = 300000\<rparr>"

record 's connection =
  cn_received :: nat
  cn_first_byte_seen :: bool
  cn_deadline :: nat
  cn_parser :: 's

definition connect :: "timeouts \<Rightarrow> nat \<Rightarrow> 's \<Rightarrow> 's connection" where
  "connect to now p = \<lparr>cn_received = 0, cn_first_byte_seen = False, cn_deadline = now + to_first_byte to, cn_parser = p\<rparr>"

definition observe_bytes :: "timeouts \<Rightarrow> nat \<Rightarrow> nat \<Rightarrow> 's connection \<Rightarrow> 's connection" where
  "observe_bytes to now n cn = (if n > 0 \<and> \<not> cn_first_byte_seen cn
     then cn\<lparr>cn_first_byte_seen := True, cn_deadline := now + to_stream_idle to\<rparr> else cn)"

definition observe_effective_frame :: "timeouts \<Rightarrow> nat \<Rightarrow> 's connection \<Rightarrow> 's connection" where
  "observe_effective_frame to now cn = cn\<lparr>cn_deadline := now + to_stream_idle to\<rparr>"

definition timeout_error :: "'s connection \<Rightarrow> stream_error" where
  "timeout_error cn = coded_error ErrTimeout
     (if cn_first_byte_seen cn then ''STREAM_IDLE_TIMEOUT'' else ''FIRST_BYTE_TIMEOUT'')"

definition closed_error :: "model_error_kind \<Rightarrow> 's connection \<Rightarrow> stream_error" where
  "closed_error kind cn = (if cn_first_byte_seen cn then coded_error kind ''STREAM_CLOSED''
     else coded_error ErrEmptyResponse ''EMPTY_RESPONSE'')"

definition framing_error :: "string \<Rightarrow> frame_error \<Rightarrow> stream_error" where
  "framing_error code e = coded_error ErrProtocol code"

definition framed :: "string \<Rightarrow> frame_error + 'a \<Rightarrow> stream_error + 'a" where
  "framed code r = (case r of Inl e \<Rightarrow> Inl (framing_error code e) | Inr a \<Rightarrow> Inr a)"

text \<open>A frame goes to the parser; a frame that carries something moves the deadline.\<close>

definition feed ::
  "timeouts \<Rightarrow> nat \<Rightarrow> ('s \<Rightarrow> ('s, stream_error, unit) outcome) \<Rightarrow> bool \<Rightarrow> 's connection \<Rightarrow> ('s connection, stream_error, unit) outcome" where
  "feed to now h effective cn =
     op_bind (op_zoom (\<lambda>p c. c\<lparr>cn_parser := p\<rparr>) (h (cn_parser cn)) cn) (\<lambda>_ cn.
     op_ok () (if effective then observe_effective_frame to now cn else cn))"

subsection \<open>The frames of a buffer\<close>

inductive frames :: "(string \<Rightarrow> frame_error + (string \<times> string) option) \<Rightarrow> string \<Rightarrow> string list \<Rightarrow> string \<Rightarrow> bool"
  for take_frame where
  frames_stop: "take_frame b = Inr None \<Longrightarrow> frames take_frame b [] b"
| frames_take: "take_frame b = Inr (Some (f, r)) \<Longrightarrow> frames take_frame r fs rest \<Longrightarrow> frames take_frame b (f # fs) rest"

text \<open>
  What the loop relies on: taking a frame uses bytes up, and bytes that arrive later change
  neither a frame that is already complete nor the fact that it is.
\<close>

locale framing =
  fixes take_frame :: "string \<Rightarrow> frame_error + (string \<times> string) option"
  assumes shrinks: "take_frame b = Inr (Some (f, r)) \<Longrightarrow> length r < length b"
    and stable: "take_frame b = Inr (Some (f, r)) \<Longrightarrow> take_frame (b @ c) = Inr (Some (f, r @ c))"
begin

lemma frames_split:
  "frames take_frame b fs r \<Longrightarrow> frames take_frame (r @ c) gs r' \<Longrightarrow> frames take_frame (b @ c) (fs @ gs) r'"
  by (induction rule: frames.induct) (auto intro: frames_take dest: stable)

lemma frames_unique: "frames take_frame b fs r \<Longrightarrow> frames take_frame b gs r' \<Longrightarrow> fs = gs \<and> r = r'"
proof (induction arbitrary: gs r' rule: frames.induct)
  case (frames_stop b)
  from frames_stop(2,1) show ?case by cases auto
next
  case (frames_take b f r fs rest)
  from frames_take(4,1) obtain gs' where "gs = f # gs'" "frames take_frame r gs' r'" by cases auto
  with frames_take.IH show ?case by blast
qed

lemma frames_bound: "frames take_frame b fs r \<Longrightarrow> length fs + length r \<le> length b"
  by (induction rule: frames.induct) (auto dest: shrinks)

end

lemma starts_with_append: "starts_with p s \<Longrightarrow> starts_with p (s @ t)"
  by (auto simp: starts_with_iff)

lemma find_bytes_Some:
  "find_bytes p s = Some i \<Longrightarrow> i + length p \<le> length s \<and> take (length p) (drop i s) = p
     \<and> (\<forall>j<i. take (length p) (drop j s) \<noteq> p)"
proof (induction s arbitrary: i)
  case (Cons c cs)
  show ?case
  proof (cases "starts_with p (c # cs)")
    case True
    with Cons.prems have "i = 0" by simp
    moreover from True have "length p \<le> length (c # cs)" by (auto simp: starts_with_iff dest: arg_cong [of _ _ length])
    ultimately show ?thesis using True by (simp add: starts_with_def)
  next
    case False
    with Cons.prems obtain j where j: "i = Suc j" "find_bytes p cs = Some j" by auto
    from Cons.IH [OF this(2)] False j(1) show ?thesis by (auto simp: starts_with_def less_Suc_eq_0_disj)
  qed
qed (auto split: if_splits)

lemma find_bytes_None: "find_bytes p s = None \<Longrightarrow> i + length p \<le> length s \<Longrightarrow> take (length p) (drop i s) \<noteq> p"
proof (induction s arbitrary: i)
  case (Cons c cs)
  from Cons.prems(1) have no: "\<not> starts_with p (c # cs)" "find_bytes p cs = None" by (auto split: if_splits)
  show ?case
  proof (cases i)
    case 0
    with no(1) show ?thesis by (simp add: starts_with_def)
  next
    case (Suc j)
    with Cons no(2) show ?thesis by simp
  qed
qed (auto split: if_splits)

lemma find_bytes_iff:
  "find_bytes p s = Some i \<longleftrightarrow> i + length p \<le> length s \<and> take (length p) (drop i s) = p
     \<and> (\<forall>j<i. take (length p) (drop j s) \<noteq> p)"
proof
  assume r: "i + length p \<le> length s \<and> take (length p) (drop i s) = p \<and> (\<forall>j<i. take (length p) (drop j s) \<noteq> p)"
  then obtain k where k: "find_bytes p s = Some k" using find_bytes_None by (cases "find_bytes p s") blast+
  from find_bytes_Some [OF this] r have "k = i" by (metis linorder_neqE_nat)
  with k show "find_bytes p s = Some i" by simp
qed (rule find_bytes_Some)

lemma window_append: "i + n \<le> length b \<Longrightarrow> take n (drop i (b @ c)) = take n (drop i b)"
  by simp

lemma find_bytes_append: "find_bytes p b = Some i \<Longrightarrow> find_bytes p (b @ c) = Some i"
  unfolding find_bytes_iff by (auto simp: window_append)

lemma find_bytes_late:
  "find_bytes p b = None \<Longrightarrow> find_bytes p (b @ c) = Some i \<Longrightarrow> length b < i + length p"
  using find_bytes_None [of p b i] find_bytes_Some [of p "b @ c" i] window_append [of i "length p" b c]
  by (metis linorder_not_le)

lemma window_nth: "take n (drop i b) = w \<Longrightarrow> length w = n \<Longrightarrow> m < n \<Longrightarrow> b ! (i + m) = w ! m"
  by (metis drop_eq_Nil length_0_conv nat_le_linear not_less_zero nth_drop nth_take take_Nil)

text \<open>The two separators cannot straddle each other.\<close>

lemma separators_apart:
  assumes "take 2 (drop i b) = [LF, LF]" "take 4 (drop k b) = [CR, LF, CR, LF]" "k < i"
  shows "k + 2 < i"
proof (rule ccontr)
  assume "\<not> k + 2 < i"
  with assms(3) have "i = k + 1 \<or> i = k + 2" by linarith
  moreover have "b ! i = LF" "b ! (i + 1) = LF" using window_nth [OF assms(1), of 0] window_nth [OF assms(1), of 1] by simp_all
  moreover have "b ! (k + 2) = CR" using window_nth [OF assms(2), of 2] by simp
  ultimately show False by (auto simp: LF_def CR_def numeral_eq_Suc)
qed

lemma sse_separator_append: "sse_separator b = Some (i, n) \<Longrightarrow> sse_separator (b @ c) = Some (i, n)"
proof -
  let ?lf = "\<lambda>s. find_bytes [LF, LF] s" and ?crlf = "\<lambda>s. find_bytes [CR, LF, CR, LF] s"
  assume sep: "sse_separator b = Some (i, n)"
  have apart: "j \<le> k" if "?lf b = Some j" "?crlf b = None" "?crlf (b @ c) = Some k" for j k
  proof (rule ccontr)
    assume "\<not> j \<le> k"
    moreover from that(1) have "take 2 (drop j (b @ c)) = [LF, LF]" "j + 2 \<le> length b"
      using find_bytes_Some [OF find_bytes_append, of "[LF, LF]" b j c] find_bytes_Some [of "[LF, LF]" b j]
      by (simp_all add: numeral_2_eq_2)
    moreover from that(3) have "take 4 (drop k (b @ c)) = [CR, LF, CR, LF]" using find_bytes_Some [OF that(3)] by (simp add: numeral_eq_Suc)
    ultimately have "k + 2 < j" using separators_apart [of j "b @ c" k] by linarith
    with find_bytes_late [OF that(2,3)] \<open>j + 2 \<le> length b\<close> show False by simp
  qed
  have strict: "\<not> j \<le> k" if "?crlf b = Some k" "?lf b = None" "?lf (b @ c) = Some j" for j k
    using find_bytes_late [OF that(2,3)] find_bytes_Some [OF that(1)] by simp
  show ?thesis
    using sep apart strict find_bytes_append [of "[LF, LF]" b _ c] find_bytes_append [of "[CR, LF, CR, LF]" b _ c]
    by (cases "?lf b"; cases "?crlf b"; cases "?lf (b @ c)"; cases "?crlf (b @ c)")
      (auto simp: sse_separator_def earliest_separator_def split: if_splits)
qed

lemma sse_separator_bound: "sse_separator b = Some (i, n) \<Longrightarrow> i + n \<le> length b \<and> 0 < n"
  by (auto simp: sse_separator_def earliest_separator_def split: option.splits if_splits dest: find_bytes_Some)

interpretation sse: framing take_sse_event
proof
  fix b f r c
  assume "take_sse_event b = Inr (Some (f, r))"
  then obtain i n where sep: "sse_separator b = Some (i, n)" and fr: "f = take i b" "r = drop (i + n) b"
    and ok: "ensure_provider_stream_frame_size i = Inr ()" "is_utf8 (take i b)"
    by (auto simp: take_sse_event_def res_simps split: option.splits)
  from sse_separator_bound [OF sep] show "length r < length b" unfolding fr length_drop by linarith
  from sse_separator_bound [OF sep] sse_separator_append [OF sep, of c] ok show "take_sse_event (b @ c) = Inr (Some (f, r @ c))"
    by (simp add: take_sse_event_def fr ensure_def)
qed

lemma position_append: "position P xs = Some i \<Longrightarrow> position P (xs @ ys) = Some i \<and> i < length xs"
  by (induction xs arbitrary: i) (auto split: if_splits)

interpretation ndjson: framing take_line
proof
  fix b f r c
  assume "take_line b = Inr (Some (f, r))"
  then obtain i where pos: "position (\<lambda>c. c = LF) b = Some i" and fr: "f = strip_cr (take i b)" "r = drop (Suc i) b"
    and ok: "ensure_provider_stream_frame_size i = Inr ()" "is_utf8 (strip_cr (take i b))"
    by (auto simp: take_line_def res_simps split: option.splits)
  from position_append [OF pos, of c] show "length r < length b" unfolding fr length_drop by linarith
  from position_append [OF pos, of c] ok show "take_line (b @ c) = Inr (Some (f, r @ c))"
    by (simp add: take_line_def fr ensure_def)
qed

subsection \<open>The loop\<close>

function sse_drain ::
  "(string \<Rightarrow> 's connection \<Rightarrow> ('s connection, stream_error, unit) outcome) \<Rightarrow> string \<Rightarrow> 's connection
    \<Rightarrow> ('s connection, stream_error, string) outcome" where
  "sse_drain handle b cn = (case take_sse_event b of
     Inl e \<Rightarrow> op_err (framing_error ''SSE_FRAMING'' e) cn
   | Inr None \<Rightarrow> op_ok b cn
   | Inr (Some (f, r)) \<Rightarrow> op_bind (handle f cn) (\<lambda>_ cn. sse_drain handle r cn))"
  by auto
termination
  by (relation "measure (\<lambda>(handle, b, cn). length b)") (auto dest: sse.shrinks)

function line_drain ::
  "(string \<Rightarrow> 's connection \<Rightarrow> ('s connection, stream_error, unit) outcome) \<Rightarrow> string \<Rightarrow> 's connection
    \<Rightarrow> ('s connection, stream_error, string) outcome" where
  "line_drain handle b cn = (case take_line b of
     Inl e \<Rightarrow> op_err (framing_error ''OLLAMA_FRAMING'' e) cn
   | Inr None \<Rightarrow> op_ok b cn
   | Inr (Some (f, r)) \<Rightarrow> op_bind (handle f cn) (\<lambda>_ cn. line_drain handle r cn))"
  by auto
termination
  by (relation "measure (\<lambda>(handle, b, cn). length b)") (auto dest: ndjson.shrinks)

declare sse_drain.simps [simp del] line_drain.simps [simp del]

text \<open>What arrives, and when; a list that ends leaves the stream silent.\<close>

datatype (plugins only: code size) arrival =
    ArriveChunk nat string
  | ArriveEnd nat
  | ArriveFailure nat stream_error
  | ArriveCancel nat

fun stream_loop ::
  "timeouts \<Rightarrow> (nat \<Rightarrow> string \<Rightarrow> 's connection \<Rightarrow> ('s connection, stream_error, string) outcome) \<Rightarrow> ('s \<Rightarrow> bool)
    \<Rightarrow> arrival list \<Rightarrow> string \<Rightarrow> 's connection \<Rightarrow> ('s connection, stream_error, string) outcome" where
  "stream_loop to drain finished [] b cn = op_err (timeout_error cn) cn"
| "stream_loop to drain finished (a # as) b cn = (case a of
     ArriveCancel now \<Rightarrow> op_err (if cn_deadline cn < now then timeout_error cn else cancelled_error) cn
   | ArriveFailure now e \<Rightarrow> op_err (if cn_deadline cn \<le> now then timeout_error cn else e) cn
   | ArriveEnd now \<Rightarrow> if cn_deadline cn \<le> now then op_err (timeout_error cn) cn else op_ok b cn
   | ArriveChunk now chunk \<Rightarrow>
       if cn_deadline cn \<le> now then op_err (timeout_error cn) cn
       else op_bind (op_check (framed ''STREAM_LIMIT'' (append_provider_stream_chunk b chunk (cn_received cn)))
           (observe_bytes to now (length chunk) cn)) (\<lambda>(b, received) cn.
         op_bind (drain now b (cn\<lparr>cn_received := received\<rparr>)) (\<lambda>rest cn.
         op_bind (op_check (framed ''STREAM_LIMIT'' (ensure_provider_stream_frame_size (length rest))) cn) (\<lambda>_ cn.
         if finished (cn_parser cn) then op_ok rest cn
         else stream_loop to drain finished as rest cn))))"

text \<open>The chunks of a body, up to what ends it.\<close>

fun body :: "arrival list \<Rightarrow> string list" where
  "body (ArriveChunk now c # as) = c # body as"
| "body as = []"

text \<open>
  A drain over a framing. However the body is cut into chunks, the parser sees the frames of the
  bytes that were consumed, in their order.
\<close>

locale drained = framing take_frame for take_frame :: "string \<Rightarrow> frame_error + (string \<times> string) option" +
  fixes drain :: "(string \<Rightarrow> 's connection \<Rightarrow> ('s connection, stream_error, unit) outcome) \<Rightarrow> string \<Rightarrow> 's connection
      \<Rightarrow> ('s connection, stream_error, string) outcome"
    and code :: string
  assumes unfold_drain: "drain handle b cn = (case take_frame b of
      Inl e \<Rightarrow> op_err (framing_error code e) cn
    | Inr None \<Rightarrow> op_ok b cn
    | Inr (Some (f, r)) \<Rightarrow> op_bind (handle f cn) (\<lambda>_ cn. drain handle r cn))"
begin

lemma frames_end: "frames take_frame b fs r \<Longrightarrow> take_frame r = Inr None"
  by (induction rule: frames.induct)

lemma drain_frames:
  "drain (\<lambda>f. feed to now (h f) (eff f)) b cn = (Inr rest, cn') \<Longrightarrow>
   \<exists>fs. frames take_frame b fs rest \<and> op_each h fs (cn_parser cn) = (Inr (), cn_parser cn')"
proof (induction b arbitrary: cn rule: length_induct)
  case (1 b)
  show ?case
  proof (cases "take_frame b")
    case (Inl e)
    with 1(2) show ?thesis by (subst (asm) unfold_drain) (simp add: res_simps)
  next
    case (Inr v)
    show ?thesis
    proof (cases v)
      case None
      with 1(2) Inr have "rest = b" "cn' = cn" by (subst (asm) unfold_drain, simp add: res_simps)+
      with Inr None show ?thesis by (auto intro!: exI [of _ "[]"] frames_stop simp: op_ok_def)
    next
      case (Some fr)
      obtain f r where fr: "fr = (f, r)" by (cases fr)
      note taken = Inr [unfolded Some fr]
      from 1(2) obtain cn1 where fed: "feed to now (h f) (eff f) cn = (Inr (), cn1)"
        and more: "drain (\<lambda>f. feed to now (h f) (eff f)) r cn1 = (Inr rest, cn')"
        by (subst (asm) unfold_drain) (auto simp: taken res_simps)
      from 1(1) shrinks [OF taken] more obtain fs where fs: "frames take_frame r fs rest"
        "op_each h fs (cn_parser cn1) = (Inr (), cn_parser cn')" by blast
      from fed have "h f (cn_parser cn) = (Inr (), cn_parser cn1)"
        by (auto simp: feed_def observe_effective_frame_def res_simps)
      with fs frames_take [of take_frame, OF taken fs(1)] show ?thesis by (intro exI [of _ "f # fs"]) simp
    qed
  qed
qed

lemma loop_frames:
  "take_frame b = Inr None \<Longrightarrow>
   stream_loop to (\<lambda>now. drain (\<lambda>f. feed to now (h f) (eff f))) finished as b cn = (Inr rest, cn') \<Longrightarrow>
   \<exists>n fs. frames take_frame (b @ concat (take n (body as))) fs rest
     \<and> op_each h fs (cn_parser cn) = (Inr (), cn_parser cn') \<and> (length (body as) \<le> n \<or> finished (cn_parser cn'))"
proof (induction as arbitrary: b cn)
  case Nil
  then show ?case by (simp add: op_err_def)
next
  case (Cons a as)
  show ?case
  proof (cases a)
    case (ArriveChunk now chunk)
    define cn0 where "cn0 = (observe_bytes to now (length chunk) cn)\<lparr>cn_received := cn_received cn + length chunk\<rparr>"
    have parser: "cn_parser cn0 = cn_parser cn" by (simp add: cn0_def observe_bytes_def)
    have received: "cn_received (observe_bytes to now (length chunk) cn) = cn_received cn" by (simp add: observe_bytes_def)
    from Cons.prems(2) obtain rest1 cn1 where
      drained: "drain (\<lambda>f. feed to now (h f) (eff f)) (b @ chunk) cn0 = (Inr rest1, cn1)"
      and goes: "(if finished (cn_parser cn1) then op_ok rest1 cn1
        else stream_loop to (\<lambda>now. drain (\<lambda>f. feed to now (h f) (eff f))) finished as rest1 cn1) = (Inr rest, cn')"
      by (auto simp: ArriveChunk res_simps framed_def append_provider_stream_chunk_def cn0_def
          split: if_split_asm sum.split_asm)
    from drain_frames [OF drained] obtain fs where fs: "frames take_frame (b @ chunk) fs rest1"
      "op_each h fs (cn_parser cn) = (Inr (), cn_parser cn1)" unfolding parser by blast
    show ?thesis
    proof (cases "finished (cn_parser cn1)")
      case True
      with goes have "rest = rest1" "cn' = cn1" by (auto simp: op_ok_def)
      with fs True ArriveChunk show ?thesis by (intro exI [of _ 1] exI [of _ fs]) auto
    next
      case False
      with goes have "stream_loop to (\<lambda>now. drain (\<lambda>f. feed to now (h f) (eff f))) finished as rest1 cn1 = (Inr rest, cn')" by simp
      from Cons.IH [OF frames_end [OF fs(1)] this] obtain n gs where
        "frames take_frame (rest1 @ concat (take n (body as))) gs rest"
        "op_each h gs (cn_parser cn1) = (Inr (), cn_parser cn')" "length (body as) \<le> n \<or> finished (cn_parser cn')" by blast
      with fs frames_split [OF fs(1)] ArriveChunk show ?thesis
        by (intro exI [of _ "Suc n"] exI [of _ "fs @ gs"]) (auto simp: op_each_append)
    qed
  next
    case (ArriveEnd now)
    with Cons.prems have "rest = b" "cn' = cn" by (auto simp: op_ok_def op_err_def split: if_splits)
    with Cons.prems(1) ArriveEnd show ?thesis by (auto intro!: exI [of _ "[]"] frames_stop simp: op_ok_def)
  next
    case (ArriveFailure now e)
    with Cons.prems(2) show ?thesis by (simp add: op_err_def)
  next
    case (ArriveCancel now)
    with Cons.prems(2) show ?thesis by (simp add: op_err_def)
  qed
qed

end

interpretation sse_stream: drained take_sse_event sse_drain "''SSE_FRAMING''"
  by unfold_locales (subst sse_drain.simps, rule refl)

interpretation line_stream: drained take_line line_drain "''OLLAMA_FRAMING''"
  by unfold_locales (subst line_drain.simps, rule refl)

end
