(* ===== verification/Stream_Chat.thy ===== *)
theory Stream_Chat
  imports Stream_Connection Replay
begin

text \<open>
  The parsers of the chat-completions and the Ollama protocol (llm/adapters/common.rs,
  chat\_completions/mod.rs, chat\_completions/reasoning.rs, ollama/mod.rs): what an event adds to the
  accumulator and which deltas it sends, and the response that is made of it at the end.
\<close>

definition MAX_PROVIDER_TOOL_ARGUMENT_BYTES :: nat where "MAX_PROVIDER_TOOL_ARGUMENT_BYTES = 64 * 1024"

record provider_capabilities =
  pv_cumulative_stream :: bool
  pv_supports_stream_usage :: bool
  pv_native_reasoning :: bool
  pv_split_reasoning :: bool
  pv_replay_reasoning_content :: bool
  pv_think_tag_fallback :: bool
  pv_parallel_tool_calls :: bool

datatype (plugins only: code size) finish_reason =
    FinishStop | FinishToolCalls | FinishLength | FinishContentFilter | FinishOther

record model_response =
  mrs_content :: "model_block list"
  mrs_finish_reason :: finish_reason
  mrs_usage :: token_usage
  mrs_replay :: replay_capture

subsection \<open>Fragments\<close>

text \<open>
  A provider sends pieces, or the whole text so far again and again (\<open>cumulative\<close>). The first
  component is the text accumulated, the second what is new.
\<close>

definition append_and_delta :: "string \<Rightarrow> string \<Rightarrow> bool \<Rightarrow> string \<times> string" where
  "append_and_delta acc fragment cumulative =
     (if \<not> cumulative then (acc @ fragment, fragment)
      else if starts_with acc fragment then (fragment, drop (length acc) fragment)
      else if starts_with fragment acc then (acc, [])
      else (acc @ fragment, fragment))"

definition append_fragment :: "string \<Rightarrow> string \<Rightarrow> bool \<Rightarrow> string" where
  "append_fragment acc fragment cumulative =
     (if \<not> cumulative then acc @ fragment
      else if starts_with acc fragment then fragment
      else if \<not> starts_with fragment acc then acc @ fragment
      else acc)"

definition nonempty :: "string \<Rightarrow> string option" where
  "nonempty s = (if s = [] then None else Some s)"

definition text_or_empty :: "string option \<Rightarrow> string" where
  "text_or_empty v = (case v of None \<Rightarrow> [] | Some s \<Rightarrow> s)"

subsection \<open>The accumulator\<close>

record tool_acc =
  ta_id :: "string option"
  ta_name :: string
  ta_arguments :: string

definition empty_tool :: tool_acc where
  "empty_tool = \<lparr>ta_id = None, ta_name = [], ta_arguments = []\<rparr>"

datatype (plugins only: code size) block_key = KeyReasoning | KeyText | KeyTool nat

record chat_state = sink_log +
  ch_order :: "block_key list"
  ch_reasoning :: string
  ch_details :: "json list"
  ch_content :: string
  ch_calls :: "(nat \<times> tool_acc) list"
  ch_replay :: "(string \<times> json) list"
  ch_usage :: token_usage
  ch_completed :: bool
  ch_finish :: finish_reason
  ch_done :: bool

definition chat_start :: chat_state where
  "chat_start = \<lparr>sl_sent = [], ch_order = [], ch_reasoning = [], ch_details = [], ch_content = [], ch_calls = [],
     ch_replay = [], ch_usage = no_usage, ch_completed = False, ch_finish = FinishOther, ch_done = False\<rparr>"

text \<open>A \<open>BTreeMap\<close> whose keys are in the order of their type.\<close>

fun ord_insert :: "'k::linorder \<Rightarrow> 'v \<Rightarrow> ('k \<times> 'v) list \<Rightarrow> ('k \<times> 'v) list" where
  "ord_insert k v [] = [(k, v)]"
| "ord_insert k v ((k', v') # xs) =
     (if k' = k then (k, v) # xs
      else if k < k' then (k, v) # (k', v') # xs
      else (k', v') # ord_insert k v xs)"

lemma map_of_ord_insert [simp]: "map_of (ord_insert k v xs) = (map_of xs)(k \<mapsto> v)"
  by (induction k v xs rule: ord_insert.induct) (auto simp: fun_eq_iff)

definition index_for :: "block_key \<Rightarrow> chat_state \<Rightarrow> u32 \<times> chat_state" where
  "index_for key s = (case position (\<lambda>c. c = key) (ch_order s) of
     Some i \<Rightarrow> (of_nat i, s)
   | None \<Rightarrow> (of_nat (length (ch_order s)), s\<lparr>ch_order := ch_order s @ [key]\<rparr>))"

definition tool_at :: "nat \<Rightarrow> chat_state \<Rightarrow> tool_acc" where
  "tool_at i s = (case map_of (ch_calls s) i of None \<Rightarrow> empty_tool | Some a \<Rightarrow> a)"

definition put_tool :: "nat \<Rightarrow> tool_acc \<Rightarrow> chat_state \<Rightarrow> chat_state" where
  "put_tool i a s = s\<lparr>ch_calls := ord_insert i a (ch_calls s)\<rparr>"

definition emit_tool :: "sink \<Rightarrow> u32 \<Rightarrow> string \<Rightarrow> string \<Rightarrow> string \<Rightarrow> 'a sink_log_scheme \<Rightarrow> ('a sink_log_scheme, stream_error, unit) outcome" where
  "emit_tool k block call_id name arguments s =
     (if call_id = [] \<and> name = [] \<and> arguments = [] then op_ok () s
      else emit k (DeltaToolCall block (nonempty call_id) (nonempty name) (nonempty arguments)) s)"

subsection \<open>The end of a response\<close>

definition protocol_error :: stream_error where
  "protocol_error = plain_error ErrProtocol"

definition normalize_call :: "json_codec \<Rightarrow> bool \<Rightarrow> nat \<Rightarrow> tool_acc \<Rightarrow> stream_error + model_tool_call" where
  "normalize_call jc require_id ordinal a =
     try_bind (ensure (trim_text (ta_name a) \<noteq> []) protocol_error) (\<lambda>_.
     try_bind (ensure (\<not> (require_id \<and> text_or_empty (ta_id a) = [])) protocol_error) (\<lambda>_.
     try_bind (ensure (length (text_or_empty (ta_id a)) \<le> MAX_PROVIDER_TOOL_CALL_ID_BYTES) protocol_error) (\<lambda>_.
     try_bind (ensure (length (ta_arguments a) \<le> MAX_PROVIDER_TOOL_ARGUMENT_BYTES) protocol_error) (\<lambda>_.
     try_bind (ok_or (jc_parse jc (ta_arguments a)) protocol_error) (\<lambda>arguments.
     try_bind (ensure (json_as_object arguments \<noteq> None) protocol_error) (\<lambda>_.
     Inr \<lparr>mtc_call_id = ''call-'' @ decimal (ordinal + 1), mtc_provider_call_id = ta_id a,
       mtc_name = ta_name a, mtc_arguments = arguments\<rparr>))))))"

fun normalize_from :: "json_codec \<Rightarrow> bool \<Rightarrow> nat \<Rightarrow> (nat \<times> tool_acc) list \<Rightarrow> stream_error + (nat \<times> model_tool_call) list" where
  "normalize_from jc require_id ordinal [] = Inr []"
| "normalize_from jc require_id ordinal ((i, a) # calls) =
     try_bind (normalize_call jc require_id ordinal a) (\<lambda>c.
     try_bind (normalize_from jc require_id (ordinal + 1) calls) (\<lambda>cs. Inr ((i, c) # cs)))"

definition normalized_calls :: "json_codec \<Rightarrow> bool \<Rightarrow> (nat \<times> tool_acc) list \<Rightarrow> stream_error + (nat \<times> model_tool_call) list" where
  "normalized_calls jc require_id calls = normalize_from jc require_id 0 calls"

definition reasoning_block :: "chat_state \<Rightarrow> model_block" where
  "reasoning_block s = ModelReasoning (ch_reasoning s)
     (if ch_details s = [] then None else Some (JObject [(''reasoning_details'', JArray (ch_details s))]))"

fun ordered_blocks :: "chat_state \<Rightarrow> (nat \<times> model_tool_call) list \<Rightarrow> block_key list \<Rightarrow> model_block list" where
  "ordered_blocks s calls [] = []"
| "ordered_blocks s calls (KeyReasoning # ks) =
     (if ch_reasoning s = [] then [] else [reasoning_block s]) @ ordered_blocks s calls ks"
| "ordered_blocks s calls (KeyText # ks) =
     (if ch_content s = [] then [] else [ModelText (ch_content s)]) @ ordered_blocks s calls ks"
| "ordered_blocks s calls (KeyTool i # ks) = (case map_of calls i of
     None \<Rightarrow> ordered_blocks s calls ks
   | Some c \<Rightarrow> ModelToolCall c # ordered_blocks s (filter (\<lambda>(j, _). j \<noteq> i) calls) ks)"

text \<open>Text between think tags is reasoning, for models that send it as text.\<close>

definition THINK :: string where "THINK = ''<think>''"
definition END_THINK :: string where "END_THINK = ''</think>''"

definition text_block :: "string \<Rightarrow> model_block list" where
  "text_block s = (if s = [] then [] else [ModelText s])"

definition think_block :: "string \<Rightarrow> model_block list" where
  "think_block s = (if s = [] then [] else [ModelReasoning s None])"

lemma find_bytes_less: "find_bytes p s = Some i \<Longrightarrow> p \<noteq> [] \<Longrightarrow> i < length s"
  using find_bytes_Some [of p s i] by (cases p) auto

function split_think :: "string \<Rightarrow> model_block list" where
  "split_think rest = (case find_bytes THINK rest of
     None \<Rightarrow> text_block rest
   | Some i \<Rightarrow> (let inner = drop (i + length THINK) rest in
       text_block (take i rest) @ (case find_bytes END_THINK inner of
         None \<Rightarrow> think_block inner
       | Some j \<Rightarrow> think_block (take j inner) @ split_think (drop (j + length END_THINK) inner))))"
  by auto
termination
  by (relation "measure length") (auto dest!: find_bytes_less simp: THINK_def END_THINK_def)

declare split_think.simps [simp del]

definition split_text :: "string \<Rightarrow> model_block list" where
  "split_text s = (if s = [] then [ModelText []] else split_think s)"

definition split_think_blocks :: "model_block list \<Rightarrow> model_block list" where
  "split_think_blocks bs = concat (map (\<lambda>b. case b of ModelText s \<Rightarrow> split_text s | _ \<Rightarrow> [b]) bs)"

definition is_reasoning :: "model_block \<Rightarrow> bool" where
  "is_reasoning b \<longleftrightarrow> (case b of ModelReasoning _ _ \<Rightarrow> True | _ \<Rightarrow> False)"

definition is_tool_call :: "model_block \<Rightarrow> bool" where
  "is_tool_call b \<longleftrightarrow> (case b of ModelToolCall _ \<Rightarrow> True | _ \<Rightarrow> False)"

definition finish :: "json_codec \<Rightarrow> bool \<Rightarrow> bool \<Rightarrow> chat_state \<Rightarrow> stream_error + model_block list" where
  "finish jc require_tool_id think_tag_fallback s =
     try_bind (normalized_calls jc require_tool_id (ch_calls s)) (\<lambda>calls.
     let blocks = ordered_blocks s calls (ch_order s) in
     Inr (if think_tag_fallback \<and> \<not> list_ex is_reasoning blocks then split_think_blocks blocks else blocks))"

definition has_output :: "model_block \<Rightarrow> bool" where
  "has_output b \<longleftrightarrow> (case b of ModelText s \<Rightarrow> s \<noteq> [] | ModelReasoning s _ \<Rightarrow> s \<noteq> [] | ModelToolCall _ \<Rightarrow> True)"

definition ensure_nonempty_response :: "model_block list \<Rightarrow> stream_error + unit" where
  "ensure_nonempty_response bs = ensure (list_ex has_output bs) (coded_error ErrEmptyResponse ''EMPTY_RESPONSE'')"

definition normalize_finish_reason :: "string \<Rightarrow> finish_reason" where
  "normalize_finish_reason r =
     (if r \<in> {''stop'', ''completed''} then FinishStop
      else if r \<in> {''tool_calls'', ''function_call''} then FinishToolCalls
      else if r \<in> {''length'', ''max_tokens''} then FinishLength
      else if r = ''content_filter'' then FinishContentFilter else FinishOther)"

definition call_metadata :: "model_block \<Rightarrow> json" where
  "call_metadata b = (case b of
     ModelToolCall c \<Rightarrow> (case mtc_provider_call_id c of
         None \<Rightarrow> JObject [] | Some i \<Rightarrow> JObject [(''providerCallId'', JString i)])
   | _ \<Rightarrow> JObject [])"

definition response_of :: "model_block list \<Rightarrow> finish_reason \<Rightarrow> token_usage \<Rightarrow> json \<Rightarrow> stream_error + model_response" where
  "response_of content reason usage replay = try_bind (ensure_nonempty_response content) (\<lambda>_.
     Inr \<lparr>mrs_content = content, mrs_finish_reason = (if list_ex is_tool_call content then FinishToolCalls else reason),
       mrs_usage = usage, mrs_replay = \<lparr>cap_response = replay, cap_blocks = map call_metadata content\<rparr>\<rparr>)"

subsection \<open>Reasoning details\<close>

text \<open>Structured reasoning (chat\_completions/reasoning.rs); the state that fails keeps what came before.\<close>

definition replay_failure :: "replay_error \<Rightarrow> stream_error" where
  "replay_failure e = coded_error ErrProtocol
     (if e = MetadataTooLarge then ''REPLAY_METADATA_TOO_LARGE'' else ''REPLAY_METADATA_INVALID'')"

definition blank_json :: "json \<Rightarrow> bool" where
  "blank_json v \<longleftrightarrow> v = JNull \<or> v = JString []"

definition identity :: "json \<Rightarrow> string \<Rightarrow> json option" where
  "identity v key = filter_opt (\<lambda>i. \<not> blank_json i) (json_get key v)"

definition same_identity :: "json \<Rightarrow> json \<Rightarrow> string \<Rightarrow> bool" where
  "same_identity previous next key \<longleftrightarrow> (case (identity previous key, identity next key) of
     (Some p, Some n) \<Rightarrow> json_eq p n | _ \<Rightarrow> False)"

definition compatible_identity :: "json \<Rightarrow> json \<Rightarrow> bool" where
  "compatible_identity previous next \<longleftrightarrow> list_all (\<lambda>key.
     identity previous key = None \<or> identity next key = None \<or> same_identity previous next key) [''index'', ''id'', ''type'']"

definition detail_target :: "json list \<Rightarrow> nat \<Rightarrow> json \<Rightarrow> nat option" where
  "detail_target acc pos detail =
     or_else (position (\<lambda>p. compatible_identity p detail
         \<and> list_ex (same_identity p detail) [''index'', ''id'']) acc)
       (if pos < length acc \<and> compatible_identity (acc ! pos) detail
          \<and> list_all (\<lambda>key. identity detail key = None \<or> identity (acc ! pos) key = None) [''index'', ''id'']
        then Some pos else None)"

definition merge_field :: "(string \<times> json) list \<Rightarrow> string \<times> json \<Rightarrow> (string \<times> json) list" where
  "merge_field previous kv = (case kv of (key, value) \<Rightarrow>
     if blank_json value \<and> (case map_of previous key of None \<Rightarrow> False | Some p \<Rightarrow> \<not> blank_json p) then previous
     else case (key \<in> {''text'', ''summary''}, map_of previous key, value) of
       (True, Some (JString prior), JString fragment) \<Rightarrow>
         btree_insert key (JString (append_fragment prior fragment True)) previous
     | _ \<Rightarrow> btree_insert key value previous)"

definition json_fields :: "json \<Rightarrow> (string \<times> json) list" where
  "json_fields v = (case v of JObject kvs \<Rightarrow> kvs | _ \<Rightarrow> [])"

definition merge_detail :: "json list \<Rightarrow> nat \<times> json \<Rightarrow> json list" where
  "merge_detail acc pd = (case pd of (pos, detail) \<Rightarrow> (case detail_target acc pos detail of
     None \<Rightarrow> acc @ [detail]
   | Some t \<Rightarrow> acc[t := JObject (foldl merge_field (json_fields (acc ! t)) (json_fields detail))]))"

definition json_items :: "json option \<Rightarrow> json list" where
  "json_items v = (case v of Some (JArray vs) \<Rightarrow> vs | _ \<Rightarrow> [])"

definition accumulate_details :: "json list \<Rightarrow> json \<Rightarrow> bool \<Rightarrow> stream_error + json list" where
  "accumulate_details acc value cumulative = (case validate_details value of
     Inl e \<Rightarrow> Inl (replay_failure e)
   | Inr _ \<Rightarrow> Inr (if cumulative then foldl merge_detail acc (enumerate 0 (json_items (Some value)))
       else acc @ json_items (Some value)))"

subsection \<open>Events of the chat-completions protocol\<close>

definition record_strings :: "(string \<times> string) list \<Rightarrow> json \<Rightarrow> (string \<times> json) list \<Rightarrow> (string \<times> json) list" where
  "record_strings names value replay = foldl (\<lambda>r (source, target). case get_str source value of
     None \<Rightarrow> r | Some v \<Rightarrow> btree_insert target (JString v) r) replay names"

definition observe_usage :: "sink \<Rightarrow> provider_kind \<Rightarrow> json \<Rightarrow> chat_state \<Rightarrow> (chat_state, stream_error, unit) outcome" where
  "observe_usage k kind value s = (case provider_usage_from_value kind value of
     None \<Rightarrow> op_ok () s
   | Some u \<Rightarrow> op_bind (emit k (DeltaUsage u) s) (\<lambda>_ s.
       op_ok () (s\<lparr>ch_usage := merge_latest (ch_usage s) u\<rparr>)))"

definition chat_error :: "json \<Rightarrow> bool" where
  "chat_error value \<longleftrightarrow> (case json_get ''error'' value of Some v \<Rightarrow> json_as_object v \<noteq> None | None \<Rightarrow> False)
     \<or> Option.bind (or_else (json_pointer value ''/error/message'') (json_get ''message'' value)) json_as_str \<noteq> None"

definition add_reasoning :: "sink \<Rightarrow> bool \<Rightarrow> string \<Rightarrow> chat_state \<Rightarrow> (chat_state, stream_error, unit) outcome" where
  "add_reasoning k cumulative fragment s =
     (let (text, delta) = append_and_delta (ch_reasoning s) fragment cumulative; s = s\<lparr>ch_reasoning := text\<rparr> in
      if delta = [] then op_ok () s
      else let (i, s) = index_for KeyReasoning s in emit k (DeltaReasoning i delta) s)"

definition add_content :: "sink \<Rightarrow> bool \<Rightarrow> string \<Rightarrow> chat_state \<Rightarrow> (chat_state, stream_error, unit) outcome" where
  "add_content k cumulative fragment s =
     (let (text, delta) = append_and_delta (ch_content s) fragment cumulative; s = s\<lparr>ch_content := text\<rparr> in
      if delta = [] then op_ok () s
      else let (i, s) = index_for KeyText s in emit k (DeltaText i delta) s)"

definition id_delta :: "string option \<Rightarrow> string \<Rightarrow> bool \<Rightarrow> string" where
  "id_delta previous i cumulative = (case previous of
     Some p \<Rightarrow> if cumulative \<and> starts_with p i then drop (length p) i
       else if cumulative \<and> starts_with i p then [] else i
   | None \<Rightarrow> i)"

text \<open>A fragment that is absent adds nothing.\<close>

definition add_part :: "string \<Rightarrow> string option \<Rightarrow> bool \<Rightarrow> string \<times> string" where
  "add_part acc fragment cumulative = (case fragment of
     None \<Rightarrow> (acc, []) | Some f \<Rightarrow> append_and_delta acc f cumulative)"

definition add_chat_call :: "sink \<Rightarrow> bool \<Rightarrow> nat \<times> json \<Rightarrow> chat_state \<Rightarrow> (chat_state, stream_error, unit) outcome" where
  "add_chat_call k cumulative pc s = (case pc of (pos, call) \<Rightarrow>
     let index = (case get_u64 ''index'' call of None \<Rightarrow> pos | Some n \<Rightarrow> unat n);
         (block, s) = index_for (KeyTool index) s;
         a = tool_at index s;
         call_id = (case get_str ''id'' call of None \<Rightarrow> [] | Some i \<Rightarrow> id_delta (ta_id a) i cumulative);
         id' = (case get_str ''id'' call of None \<Rightarrow> ta_id a
           | Some i \<Rightarrow> Some (append_fragment (text_or_empty (ta_id a)) i cumulative));
         (name', name) = add_part (ta_name a) (pointer_str call ''/function/name'') cumulative;
         (arguments', arguments) = add_part (ta_arguments a) (pointer_str call ''/function/arguments'') cumulative
     in emit_tool k block call_id name arguments
          (put_tool index \<lparr>ta_id = id', ta_name = name', ta_arguments = arguments'\<rparr> s))"

definition reasoning_fragments :: "provider_capabilities \<Rightarrow> json \<Rightarrow> json list \<Rightarrow> string list" where
  "reasoning_fragments pv value details =
     (let given = json_pointer value ''/choices/0/delta/reasoning_details'';
          direct = filter_opt (\<lambda>t. t \<noteq> []) (Option.bind (or_else
            (filter_opt (\<lambda>v. text_or_empty (json_as_str v) \<noteq> []) (json_pointer value ''/choices/0/delta/reasoning_content''))
            (json_pointer value ''/choices/0/delta/reasoning'')) json_as_str)
      in case direct of Some t \<Rightarrow> [t]
         | None \<Rightarrow> if pv_cumulative_stream pv \<and> given \<noteq> None then [concat (filter_map (get_str ''text'') details)]
             else filter_map (get_str ''text'') (json_items given))"

definition chat_value :: "json_codec \<Rightarrow> provider_capabilities \<Rightarrow> sink \<Rightarrow> json \<Rightarrow> chat_state \<Rightarrow> (chat_state, stream_error, unit) outcome" where
  "chat_value jc pv k value s =
     (let s = s\<lparr>ch_replay := record_strings [(''id'', ''id''), (''model'', ''model''),
            (''system_fingerprint'', ''systemFingerprint'')] value (ch_replay s)\<rparr> in
     op_bind (observe_usage k OpenAiCompatible value s) (\<lambda>_ s.
     op_bind (op_check (ensure (\<not> chat_error value) (normalize_stream_error jc value)) s) (\<lambda>_ s.
     let s = (case pointer_str value ''/choices/0/finish_reason'' of None \<Rightarrow> s
            | Some r \<Rightarrow> s\<lparr>ch_completed := True, ch_finish := normalize_finish_reason r\<rparr>) in
     op_bind (op_check (case json_pointer value ''/choices/0/delta/reasoning_details'' of
          None \<Rightarrow> Inr (ch_details s) | Some JNull \<Rightarrow> Inr (ch_details s)
        | Some d \<Rightarrow> accumulate_details (ch_details s) d (pv_cumulative_stream pv)) s) (\<lambda>details s.
     let s = s\<lparr>ch_details := details\<rparr> in
     op_bind (op_each (add_reasoning k (pv_cumulative_stream pv))
        (if pv_native_reasoning pv then reasoning_fragments pv value details else []) s) (\<lambda>_ s.
     op_bind (case pointer_str value ''/choices/0/delta/content'' of None \<Rightarrow> op_ok () s
        | Some t \<Rightarrow> add_content k (pv_cumulative_stream pv) t s) (\<lambda>_ s.
     op_each (add_chat_call k (pv_cumulative_stream pv))
       (enumerate 0 (json_items (json_pointer value ''/choices/0/delta/tool_calls''))) s))))))"

definition process_chat_event ::
  "json_codec \<Rightarrow> provider_capabilities \<Rightarrow> sink \<Rightarrow> string \<Rightarrow> chat_state \<Rightarrow> (chat_state, stream_error, unit) outcome" where
  "process_chat_event jc pv k event s =
     (if sse_data event = ''[DONE]'' then op_ok () (s\<lparr>ch_completed := True\<rparr>)
      else if sse_data event = [] then op_ok () s
      else op_bind (op_check (ok_or (jc_parse jc (sse_data event)) protocol_error) s) (\<lambda>value s.
        chat_value jc pv k value s))"

text \<open>An event in the loop: the loop also notes that the stream announced its end.\<close>

definition chat_frame ::
  "json_codec \<Rightarrow> provider_capabilities \<Rightarrow> sink \<Rightarrow> string \<Rightarrow> chat_state \<Rightarrow> (chat_state, stream_error, unit) outcome" where
  "chat_frame jc pv k event s =
     process_chat_event jc pv k event (if sse_data event = ''[DONE]'' then s\<lparr>ch_done := True\<rparr> else s)"

definition finish_chat_response :: "json_codec \<Rightarrow> provider_capabilities \<Rightarrow> chat_state \<Rightarrow> stream_error + model_response" where
  "finish_chat_response jc pv s =
     try_bind (finish jc True (pv_think_tag_fallback pv) s) (\<lambda>content.
     response_of content (ch_finish s) (ch_usage s) (JObject
       (if ch_details s = [] then ch_replay s else btree_insert ''reasoningDetails'' (JArray (ch_details s)) (ch_replay s))))"

definition stream_chat ::
  "json_codec \<Rightarrow> provider_capabilities \<Rightarrow> sink \<Rightarrow> timeouts \<Rightarrow> nat \<Rightarrow> arrival list
    \<Rightarrow> (chat_state connection, stream_error, model_response) outcome" where
  "stream_chat jc pv k to now as =
     op_bind (stream_loop to (\<lambda>now. sse_drain (\<lambda>f. feed to now (chat_frame jc pv k f) (sse_data f \<noteq> [])))
       ch_done as [] (connect to now chat_start)) (\<lambda>rest cn.
     op_bind (op_check (framed ''SSE_FRAMING'' (take_final_sse_event rest)) cn) (\<lambda>final cn.
     op_bind (case final of None \<Rightarrow> op_ok () cn
       | Some f \<Rightarrow> feed to now (process_chat_event jc pv k f) False cn) (\<lambda>_ cn.
     op_bind (op_check (ensure (ch_completed (cn_parser cn)) (closed_error ErrRetryable cn)) cn) (\<lambda>_ cn.
     op_bind (op_check (ensure (ch_finish (cn_parser cn) \<noteq> FinishLength) (coded_error ErrTerminal ''OUTPUT_LIMIT'')) cn) (\<lambda>_ cn.
     op_check (finish_chat_response jc pv (cn_parser cn)) cn)))))"

subsection \<open>Lines of the Ollama protocol\<close>

definition add_ollama_call :: "json_codec \<Rightarrow> sink \<Rightarrow> nat \<times> json \<Rightarrow> chat_state \<Rightarrow> (chat_state, stream_error, unit) outcome" where
  "add_ollama_call jc k pc s = (case pc of (index, call) \<Rightarrow>
     let (block, s) = index_for (KeyTool index) s;
         a = tool_at index s;
         (id', call_id) = (case get_str ''id'' call of None \<Rightarrow> (ta_id a, [])
           | Some i \<Rightarrow> let (i', d) = append_and_delta (text_or_empty (ta_id a)) i True in (Some i', d));
         (name', name) = add_part (ta_name a) (pointer_str call ''/function/name'') True;
         given = map_option (\<lambda>v. case v of JString t \<Rightarrow> t | _ \<Rightarrow> jc_print jc v) (json_pointer call ''/function/arguments'');
         (arguments', arguments) = add_part (ta_arguments a) given True
     in emit_tool k block call_id name arguments
          (put_tool index \<lparr>ta_id = id', ta_name = name', ta_arguments = arguments'\<rparr> s))"

definition ollama_value :: "json_codec \<Rightarrow> sink \<Rightarrow> json \<Rightarrow> chat_state \<Rightarrow> (chat_state, stream_error, unit) outcome" where
  "ollama_value jc k value s =
     (let s = s\<lparr>ch_replay := record_strings [(''model'', ''model''), (''created_at'', ''createdAt''),
            (''done_reason'', ''doneReason'')] value (ch_replay s)\<rparr> in
     op_bind (observe_usage k Ollama value s) (\<lambda>_ s.
     op_bind (op_check (case get_str ''error'' value of None \<Rightarrow> Inr ()
        | Some message \<Rightarrow> Inl (normalize_provider_error jc 400 message)) s) (\<lambda>_ s.
     op_bind (op_check (ensure (get_str ''done_reason'' value \<noteq> Some ''length'')
        (coded_error ErrTerminal ''OUTPUT_LIMIT'')) s) (\<lambda>_ s.
     let s = (if Option.bind (json_get ''done'' value) json_as_bool = Some True
              then s\<lparr>ch_completed := True, ch_finish := normalize_finish_reason
                (case get_str ''done_reason'' value of None \<Rightarrow> ''stop'' | Some r \<Rightarrow> r)\<rparr> else s) in
     op_bind (case filter_opt (\<lambda>t. t \<noteq> []) (Option.bind (or_else (json_pointer value ''/message/thinking'')
          (json_pointer value ''/message/reasoning_content'')) json_as_str) of
          None \<Rightarrow> op_ok () s | Some t \<Rightarrow> add_reasoning k False t s) (\<lambda>_ s.
     op_bind (case filter_opt (\<lambda>t. t \<noteq> []) (pointer_str value ''/message/content'') of
          None \<Rightarrow> op_ok () s | Some t \<Rightarrow> add_content k False t s) (\<lambda>_ s.
     op_each (add_ollama_call jc k) (enumerate 0 (json_items (json_pointer value ''/message/tool_calls''))) s))))))"

definition process_ollama_line :: "json_codec \<Rightarrow> sink \<Rightarrow> string \<Rightarrow> chat_state \<Rightarrow> (chat_state, stream_error, unit) outcome" where
  "process_ollama_line jc k line s =
     op_bind (op_check (ok_or (jc_parse jc (trim_text line)) protocol_error) s) (\<lambda>value s. ollama_value jc k value s)"

definition ollama_frame :: "json_codec \<Rightarrow> sink \<Rightarrow> string \<Rightarrow> chat_state \<Rightarrow> (chat_state, stream_error, unit) outcome" where
  "ollama_frame jc k line s = (if trim_text line = [] then op_ok () s else process_ollama_line jc k line s)"

definition stream_ollama ::
  "json_codec \<Rightarrow> sink \<Rightarrow> timeouts \<Rightarrow> nat \<Rightarrow> arrival list \<Rightarrow> (chat_state connection, stream_error, model_response) outcome" where
  "stream_ollama jc k to now as =
     op_bind (stream_loop to (\<lambda>now. line_drain (\<lambda>f. feed to now (ollama_frame jc k f) (trim_text f \<noteq> [])))
       ch_completed as [] (connect to now chat_start)) (\<lambda>rest cn.
     op_bind (if list_all is_ascii_whitespace rest then op_ok () cn
       else op_bind (op_check (ensure (is_utf8 rest) protocol_error) cn) (\<lambda>_ cn.
         feed to now (process_ollama_line jc k rest) False cn)) (\<lambda>_ cn.
     op_bind (op_check (ensure (ch_completed (cn_parser cn)) (closed_error ErrRetryable cn)) cn) (\<lambda>_ cn.
     op_bind (op_check (finish jc False True (cn_parser cn)) cn) (\<lambda>content cn.
     op_check (response_of content (ch_finish (cn_parser cn)) (ch_usage (cn_parser cn)) (JObject (ch_replay (cn_parser cn)))) cn))))"

end
