(* ===== verification/Stream_Responses.thy ===== *)
theory Stream_Responses
  imports Stream_Chat
begin

text \<open>
  The parser of the responses protocol (llm/adapters/responses/mod.rs). The final event brings the
  whole output again, and the response is made of that; what was streamed counts only when no
  item was ever complete.
\<close>

record responses_state = sink_log +
  rs_output :: "(nat \<times> json) list"
  rs_text :: "(nat \<times> string) list"
  rs_reasoning :: "(nat \<times> string) list"
  rs_calls :: "(nat \<times> tool_acc) list"
  rs_usage :: token_usage
  rs_completed :: bool
  rs_replay :: "(string \<times> json) list"

definition responses_start :: responses_state where
  "responses_start = \<lparr>sl_sent = [], rs_output = [], rs_text = [], rs_reasoning = [], rs_calls = [],
     rs_usage = no_usage, rs_completed = False, rs_replay = []\<rparr>"

subsection \<open>Events\<close>

definition incomplete_code :: "json \<Rightarrow> string" where
  "incomplete_code value = (case pointer_str value ''/response/incomplete_details/reason'' of
     None \<Rightarrow> ''RESPONSE_INCOMPLETE''
   | Some r \<Rightarrow>
       if r \<in> {''max_output_tokens'', ''max_tokens''} then ''OUTPUT_LIMIT''
       else if r = ''max_messages'' then ''RESPONSE_MAX_MESSAGES''
       else if r = ''content_filter'' then ''CONTENT_FILTER''
       else if r = ''steered'' then ''RESPONSE_STEERED'' else ''RESPONSE_INCOMPLETE'')"

definition response_incomplete_error :: "json \<Rightarrow> stream_error" where
  "response_incomplete_error value = coded_error ErrTerminal (incomplete_code value)"

definition output_index :: "json \<Rightarrow> nat" where
  "output_index value = (case get_u64 ''output_index'' value of None \<Rightarrow> 0 | Some n \<Rightarrow> unat n)"

definition append_at :: "nat \<Rightarrow> string \<Rightarrow> (nat \<times> string) list \<Rightarrow> (nat \<times> string) list" where
  "append_at i t m = ord_insert i (text_or_empty (map_of m i) @ t) m"

definition call_at :: "nat \<Rightarrow> responses_state \<Rightarrow> tool_acc" where
  "call_at i s = (case map_of (rs_calls s) i of None \<Rightarrow> empty_tool | Some a \<Rightarrow> a)"

definition responses_call :: "sink \<Rightarrow> nat \<Rightarrow> json \<Rightarrow> responses_state \<Rightarrow> (responses_state, stream_error, unit) outcome" where
  "responses_call k i item s =
     (let a = call_at i s;
          (id', call_id) = (case get_str ''call_id'' item of None \<Rightarrow> (ta_id a, [])
            | Some c \<Rightarrow> let (c', d) = append_and_delta (text_or_empty (ta_id a)) c True
                in (Some (if c' = [] then c else c'), d));
          (name', name) = add_part (ta_name a) (get_str ''name'' item) True;
          arguments' = (case get_str ''arguments'' item of None \<Rightarrow> ta_arguments a | Some t \<Rightarrow> t)
      in emit_tool k (of_nat i) call_id name []
           (s\<lparr>rs_calls := ord_insert i \<lparr>ta_id = id', ta_name = name', ta_arguments = arguments'\<rparr> (rs_calls s)\<rparr>))"

definition responses_item :: "sink \<Rightarrow> json \<Rightarrow> responses_state \<Rightarrow> (responses_state, stream_error, unit) outcome" where
  "responses_item k value s = (case (get_u64 ''output_index'' value, json_get ''item'' value) of
     (Some n, Some item) \<Rightarrow>
       (let i = unat n; s = s\<lparr>rs_output := ord_insert i item (rs_output s)\<rparr> in
        if get_str ''type'' item = Some ''function_call'' then responses_call k i item s else op_ok () s)
   | _ \<Rightarrow> op_ok () s)"

definition responses_completed :: "json \<Rightarrow> responses_state \<Rightarrow> responses_state" where
  "responses_completed value s =
     s\<lparr>rs_completed := True,
       rs_replay := (case json_get ''response'' value of None \<Rightarrow> rs_replay s
         | Some r \<Rightarrow> record_strings [(''id'', ''responseId''), (''model'', ''model'')] r (rs_replay s)),
       rs_output := (case json_pointer value ''/response/output'' of
         Some (JArray items) \<Rightarrow> enumerate 0 items | _ \<Rightarrow> rs_output s)\<rparr>"

definition responses_event :: "json_codec \<Rightarrow> sink \<Rightarrow> json \<Rightarrow> string option \<Rightarrow> responses_state \<Rightarrow> (responses_state, stream_error, unit) outcome" where
  "responses_event jc k value kind s =
     (let i = output_index value; delta = get_str ''delta'' value in
      if kind \<in> {Some ''response.output_text.delta'', Some ''response.refusal.delta''} then
        (case delta of None \<Rightarrow> op_ok () s
         | Some t \<Rightarrow> emit k (DeltaText (of_nat i) t) (s\<lparr>rs_text := append_at i t (rs_text s)\<rparr>))
      else if kind \<in> {Some ''response.reasoning_text.delta'', Some ''response.reasoning_summary_text.delta''} then
        (case delta of None \<Rightarrow> op_ok () s
         | Some t \<Rightarrow> emit k (DeltaReasoning (of_nat i) t) (s\<lparr>rs_reasoning := append_at i t (rs_reasoning s)\<rparr>))
      else if kind = Some ''response.function_call_arguments.delta'' then
        (case delta of None \<Rightarrow> op_ok () s
         | Some t \<Rightarrow> emit k (DeltaToolCall (of_nat i) None None (Some t))
             (s\<lparr>rs_calls := ord_insert i ((call_at i s)\<lparr>ta_arguments := ta_arguments (call_at i s) @ t\<rparr>) (rs_calls s)\<rparr>))
      else if kind \<in> {Some ''response.output_item.added'', Some ''response.output_item.done''} then responses_item k value s
      else if kind = Some ''response.completed'' then op_ok () (responses_completed value s)
      else if kind = Some ''response.incomplete'' then op_err (response_incomplete_error value) s
      else if kind \<in> {Some ''response.failed'', Some ''error''} then op_err (normalize_stream_error jc value) s
      else op_ok () s)"

definition process_responses_event ::
  "json_codec \<Rightarrow> sink \<Rightarrow> string \<Rightarrow> responses_state \<Rightarrow> (responses_state, stream_error, unit) outcome" where
  "process_responses_event jc k event s =
     (if sse_data event = [] \<or> sse_data event = ''[DONE]'' then op_ok () s
      else op_bind (op_check (ok_or (jc_parse jc (sse_data event)) protocol_error) s) (\<lambda>value s.
        op_bind (case provider_usage_from_value OpenAi value of None \<Rightarrow> op_ok () s
          | Some u \<Rightarrow> op_bind (emit k (DeltaUsage u) s) (\<lambda>_ s.
              op_ok () (s\<lparr>rs_usage := merge_latest (rs_usage s) u\<rparr>))) (\<lambda>_ s.
        responses_event jc k value (get_str ''type'' value) s)))"

subsection \<open>The end of a response\<close>

definition response_function_call :: "json_codec \<Rightarrow> nat \<Rightarrow> json \<Rightarrow> stream_error + model_tool_call" where
  "response_function_call jc index item =
     try_bind (ok_or (filter_opt (\<lambda>t. t \<noteq> []) (get_str ''call_id'' item)) protocol_error) (\<lambda>call_id.
     try_bind (ok_or (filter_opt (\<lambda>t. t \<noteq> []) (get_str ''name'' item)) protocol_error) (\<lambda>name.
     try_bind (ok_or (get_str ''arguments'' item) protocol_error) (\<lambda>arguments.
     try_bind (ensure (length call_id \<le> MAX_PROVIDER_TOOL_CALL_ID_BYTES) protocol_error) (\<lambda>_.
     try_bind (ensure (length arguments \<le> MAX_PROVIDER_TOOL_ARGUMENT_BYTES) protocol_error) (\<lambda>_.
     try_bind (ok_or (jc_parse jc arguments) protocol_error) (\<lambda>v.
     try_bind (ensure (json_as_object v \<noteq> None) protocol_error) (\<lambda>_.
     Inr \<lparr>mtc_call_id = ''call-'' @ decimal (index + 1), mtc_provider_call_id = Some call_id,
       mtc_name = name, mtc_arguments = v\<rparr>)))))))"

definition message_texts :: "json \<Rightarrow> string list" where
  "message_texts item = filter_map (\<lambda>part. Option.bind (or_else (json_get ''text'' part) (json_get ''refusal'' part)) json_as_str)
     (json_items (json_get ''content'' item))"

definition reasoning_text :: "json \<Rightarrow> string" where
  "reasoning_text item = concat (filter_map (get_str ''text'')
     (json_items (json_get ''content'' item) @ json_items (json_get ''summary'' item)))"

definition item_blocks :: "json_codec \<Rightarrow> nat \<Rightarrow> json \<Rightarrow> stream_error + model_block list" where
  "item_blocks jc index item =
     (let kind = get_str ''type'' item in
      if kind = Some ''message'' then Inr (map ModelText (message_texts item))
      else if kind = Some ''reasoning'' then Inr [ModelReasoning (reasoning_text item) (Some item)]
      else if kind = Some ''function_call'' then
        try_bind (response_function_call jc index item) (\<lambda>c. Inr [ModelToolCall c])
      else Inr [])"

fun responses_output_blocks :: "json_codec \<Rightarrow> (nat \<times> json) list \<Rightarrow> stream_error + model_block list" where
  "responses_output_blocks jc [] = Inr []"
| "responses_output_blocks jc ((i, item) # rest) =
     try_bind (item_blocks jc i item) (\<lambda>bs.
     try_bind (responses_output_blocks jc rest) (\<lambda>more. Inr (bs @ more)))"

definition optional_block :: "('a \<Rightarrow> model_block) \<Rightarrow> 'a option \<Rightarrow> model_block list" where
  "optional_block f v = (case v of None \<Rightarrow> [] | Some x \<Rightarrow> [f x])"

definition fallback_responses_blocks ::
  "json_codec \<Rightarrow> (nat \<times> string) list \<Rightarrow> (nat \<times> string) list \<Rightarrow> (nat \<times> tool_acc) list \<Rightarrow> stream_error + model_block list" where
  "fallback_responses_blocks jc t r calls =
     try_bind (normalized_calls jc True calls) (\<lambda>cs.
     Inr (concat (map (\<lambda>i. optional_block (\<lambda>v. ModelReasoning v None) (map_of r i)
         @ optional_block ModelText (map_of t i) @ optional_block ModelToolCall (map_of cs i))
       (remdups (sort (map fst t @ map fst r @ map fst cs))))))"

definition sanitized_reasoning_item :: "json \<Rightarrow> json" where
  "sanitized_reasoning_item item = JObject (foldl (\<lambda>out key. case json_get key item of
       None \<Rightarrow> out | Some v \<Rightarrow> btree_insert key v out) []
     [''type'', ''id'', ''status'', ''encrypted_content'', ''summary'', ''content''])"

definition item_id_of :: "(nat \<times> json) list \<Rightarrow> string option \<Rightarrow> string option" where
  "item_id_of output call_id = Option.bind (find (\<lambda>item. get_str ''type'' item = Some ''function_call''
     \<and> get_str ''call_id'' item = call_id) (map snd output)) (get_str ''id'')"

definition responses_metadata :: "(nat \<times> json) list \<Rightarrow> model_block \<Rightarrow> json" where
  "responses_metadata output b = (case b of
     ModelReasoning _ (Some item) \<Rightarrow> JObject [(''nativeItem'', sanitized_reasoning_item item)]
   | ModelToolCall c \<Rightarrow> JObject (
       (case mtc_provider_call_id c of None \<Rightarrow> [] | Some i \<Rightarrow> [(''providerCallId'', JString i)])
       @ (case item_id_of output (mtc_provider_call_id c) of None \<Rightarrow> [] | Some i \<Rightarrow> [(''providerItemId'', JString i)]))
   | _ \<Rightarrow> JObject [])"

definition finish_responses :: "json_codec \<Rightarrow> responses_state \<Rightarrow> stream_error + model_response" where
  "finish_responses jc s =
     try_bind (if rs_output s = [] then fallback_responses_blocks jc (rs_text s) (rs_reasoning s) (rs_calls s)
       else responses_output_blocks jc (rs_output s)) (\<lambda>content.
     try_bind (ensure_nonempty_response content) (\<lambda>_.
     Inr \<lparr>mrs_content = content, mrs_finish_reason = (if list_ex is_tool_call content then FinishToolCalls else FinishStop),
       mrs_usage = rs_usage s,
       mrs_replay = \<lparr>cap_response = JObject (rs_replay s), cap_blocks = map (responses_metadata (rs_output s)) content\<rparr>\<rparr>))"

definition stream_responses ::
  "json_codec \<Rightarrow> sink \<Rightarrow> timeouts \<Rightarrow> nat \<Rightarrow> arrival list \<Rightarrow> (responses_state connection, stream_error, model_response) outcome" where
  "stream_responses jc k to now as =
     op_bind (stream_loop to (\<lambda>now. sse_drain (\<lambda>f. feed to now (process_responses_event jc k f) (sse_data f \<noteq> [])))
       rs_completed as [] (connect to now responses_start)) (\<lambda>rest cn.
     op_bind (op_check (framed ''SSE_FRAMING'' (take_final_sse_event rest)) cn) (\<lambda>final cn.
     op_bind (case final of None \<Rightarrow> op_ok () cn
       | Some f \<Rightarrow> feed to now (process_responses_event jc k f) False cn) (\<lambda>_ cn.
     op_bind (op_check (ensure (rs_completed (cn_parser cn)) (closed_error ErrRetryable cn)) cn) (\<lambda>_ cn.
     op_check (finish_responses jc (cn_parser cn)) cn))))"

end
