(* ===== verification/Stream_Anthropic.thy ===== *)
theory Stream_Anthropic
  imports Stream_Chat
begin

text \<open>
  The parser of the Anthropic messages protocol (llm/adapters/anthropic/mod.rs): a strict machine over
  the event types. Blocks come one after the other under consecutive indices, a block is open from
  its start to its stop, and the message must announce why it stopped before it stops. The
  request id that an error quotes in its message is left out, as messages are.
\<close>

datatype (plugins only: code size) block_state =
    BlockTextState string
  | BlockThinking string string
  | BlockRedacted string
  | BlockToolUse string string string bool

record anthropic_state = sink_log +
  an_started :: bool
  an_stopped :: bool
  an_next_index :: u32
  an_open_index :: "u32 option"
  an_blocks :: "(u32 \<times> block_state) list"
  an_output_indices :: "(u32 \<times> u32) list"
  an_next_output_index :: u32
  an_message_id :: "string option"
  an_model :: "string option"
  an_stop_reason :: "string option"
  an_usage :: token_usage

definition anthropic_start :: anthropic_state where
  "anthropic_start = \<lparr>sl_sent = [], an_started = False, an_stopped = False, an_next_index = 0, an_open_index = None,
     an_blocks = [], an_output_indices = [], an_next_output_index = 0, an_message_id = None, an_model = None,
     an_stop_reason = None, an_usage = no_usage\<rparr>"

type_synonym anthropic_step = "(anthropic_state, stream_error, unit) outcome"

definition protocol :: "string \<Rightarrow> stream_error" where
  "protocol code = coded_error ErrProtocol code"

definition sse_event_name :: "string \<Rightarrow> string option" where
  "sse_event_name event = map_option trim_text (find_map (line_value ''event:'') (text_lines event))"

definition usage_from :: "json \<Rightarrow> token_usage option" where
  "usage_from value = Option.bind (or_else (json_pointer value ''/message/usage'') (json_get ''usage'' value))
     (provider_usage_from_value AnthropicMessages)"

definition anthropic_error :: "json_codec \<Rightarrow> json \<Rightarrow> stream_error" where
  "anthropic_error jc value =
     (let kind = (case pointer_str value ''/error/type'' of None \<Rightarrow> ''api_error'' | Some t \<Rightarrow> t);
          message = (case pointer_str value ''/error/message'' of None \<Rightarrow> ''Anthropic stream error'' | Some m \<Rightarrow> m);
          status = (if kind = ''authentication_error'' then 401 else if kind = ''permission_error'' then 403
            else if kind = ''rate_limit_error'' then 429 else if kind = ''overloaded_error'' then 529 else 500)
      in (normalize_provider_error jc status message)\<lparr>pe_code := Some (''ANTHROPIC_'' @ map to_ascii_upper kind)\<rparr>)"

subsection \<open>The message and its blocks\<close>

definition message_start :: "json \<Rightarrow> anthropic_state \<Rightarrow> anthropic_step" where
  "message_start value s =
     op_bind (op_check (ensure (\<not> an_started s \<and> \<not> an_stopped s) (protocol ''ANTHROPIC_SEQUENCE'')) s) (\<lambda>_ s.
     op_bind (op_check (ok_or (filter_opt (\<lambda>m. json_as_object m \<noteq> None) (json_get ''message'' value))
       (protocol ''ANTHROPIC_MESSAGE_START'')) s) (\<lambda>m s.
     op_bind (op_check (ensure (get_str ''role'' m = Some ''assistant''
       \<and> Option.bind (json_get ''content'' m) json_as_array = Some []) (protocol ''ANTHROPIC_MESSAGE_START'')) s) (\<lambda>_ s.
     let s = s\<lparr>an_message_id := filter_opt safe_provider_id (get_str ''id'' m),
           an_model := filter_opt (\<lambda>v. v \<noteq> [] \<and> length v \<le> 256) (get_str ''model'' m)\<rparr> in
     op_bind (op_check (ensure (an_message_id s \<noteq> None \<and> an_model s \<noteq> None) (protocol ''ANTHROPIC_MESSAGE_START'')) s) (\<lambda>_ s.
     op_ok () (s\<lparr>an_started := True\<rparr>)))))"

definition block_index :: "json \<Rightarrow> u32 option" where
  "block_index value = Option.bind (get_u64 ''index'' value) (\<lambda>n. if unat n < 2 ^ 32 then Some (of_nat (unat n)) else None)"

definition block_of :: "json_codec \<Rightarrow> json \<Rightarrow> stream_error + block_state" where
  "block_of jc b = (case get_str ''type'' b of
     None \<Rightarrow> Inl (protocol ''ANTHROPIC_BLOCK_START'')
   | Some kind \<Rightarrow>
       if kind = ''text'' then Inr (BlockTextState (text_or_empty (get_str ''text'' b)))
       else if kind = ''thinking'' then
         Inr (BlockThinking (text_or_empty (get_str ''thinking'' b)) (text_or_empty (get_str ''signature'' b)))
       else if kind = ''redacted_thinking'' then
         try_bind (ok_or (filter_opt (\<lambda>d. d \<noteq> []) (get_str ''data'' b)) (protocol ''ANTHROPIC_REDACTED_THINKING'')) (\<lambda>d.
         Inr (BlockRedacted d))
       else if kind = ''tool_use'' then
         Inr (BlockToolUse (text_or_empty (get_str ''id'' b)) (text_or_empty (get_str ''name'' b))
           (jc_print jc (case json_get ''input'' b of None \<Rightarrow> JObject [] | Some v \<Rightarrow> v)) False)
       else Inl (protocol ''ANTHROPIC_BLOCK_UNKNOWN''))"

definition is_redacted :: "block_state \<Rightarrow> bool" where
  "is_redacted b \<longleftrightarrow> (case b of BlockRedacted _ \<Rightarrow> True | _ \<Rightarrow> False)"

definition announce_block :: "sink \<Rightarrow> u32 \<Rightarrow> block_state \<Rightarrow> anthropic_state \<Rightarrow> anthropic_step" where
  "announce_block k out b s = (case b of
     BlockTextState t \<Rightarrow> if t = [] then op_ok () s else emit k (DeltaText out t) s
   | BlockThinking t _ \<Rightarrow> if t = [] then op_ok () s else emit k (DeltaReasoning out t) s
   | BlockToolUse i n _ _ \<Rightarrow> emit k (DeltaToolCall out (Some i) (Some n) None) s
   | BlockRedacted _ \<Rightarrow> op_ok () s)"

definition block_start :: "json_codec \<Rightarrow> sink \<Rightarrow> json \<Rightarrow> anthropic_state \<Rightarrow> anthropic_step" where
  "block_start jc k value s =
     op_bind (op_check (ensure (an_started s \<and> \<not> an_stopped s \<and> an_open_index s = None)
       (protocol ''ANTHROPIC_BLOCK_SEQUENCE'')) s) (\<lambda>_ s.
     op_bind (op_check (ok_or (block_index value) (protocol ''ANTHROPIC_BLOCK_INDEX'')) s) (\<lambda>i s.
     op_bind (op_check (ensure (i = an_next_index s \<and> map_of (an_blocks s) i = None) (protocol ''ANTHROPIC_BLOCK_INDEX'')) s) (\<lambda>_ s.
     op_bind (op_check (ok_or (filter_opt (\<lambda>b. json_as_object b \<noteq> None) (json_get ''content_block'' value))
       (protocol ''ANTHROPIC_BLOCK_START'')) s) (\<lambda>v s.
     op_bind (op_check (block_of jc v) s) (\<lambda>b s.
     let out = an_next_output_index s;
         s = (if is_redacted b then s else s\<lparr>an_output_indices := ord_insert i out (an_output_indices s),
           an_next_output_index := out + 1\<rparr>) in
     op_bind (announce_block k out b s) (\<lambda>_ s.
     op_ok () (s\<lparr>an_blocks := ord_insert i b (an_blocks s), an_open_index := Some i\<rparr>)))))))"

text \<open>The delta of an open block; the block changes before the delta is sent.\<close>

definition delta_field :: "string \<Rightarrow> json \<Rightarrow> stream_error + string" where
  "delta_field key delta = ok_or (get_str key delta) (protocol ''ANTHROPIC_BLOCK_DELTA'')"

definition put_block :: "u32 \<Rightarrow> block_state \<Rightarrow> anthropic_state \<Rightarrow> anthropic_state" where
  "put_block i b s = s\<lparr>an_blocks := ord_insert i b (an_blocks s)\<rparr>"

definition tool_delta :: "sink \<Rightarrow> u32 \<Rightarrow> u32 \<Rightarrow> string \<Rightarrow> block_state \<Rightarrow> anthropic_state \<Rightarrow> anthropic_step" where
  "tool_delta k i out fragment b s = (case b of
     BlockToolUse tool name arguments saw \<Rightarrow>
       (let arguments = (if saw then arguments else []) @ fragment; s = put_block i (BlockToolUse tool name arguments True) s in
        op_bind (op_check (ensure (length arguments \<le> MAX_PROVIDER_TOOL_ARGUMENT_BYTES)
          (protocol ''ANTHROPIC_TOOL_ARGUMENT_LIMIT'')) s) (\<lambda>_ s.
        emit k (DeltaToolCall out None None (Some fragment)) s))
   | _ \<Rightarrow> op_ok () s)"

definition apply_delta :: "sink \<Rightarrow> u32 \<Rightarrow> u32 \<Rightarrow> json \<Rightarrow> block_state \<Rightarrow> anthropic_state \<Rightarrow> anthropic_step" where
  "apply_delta k i out delta b s =
     (let mismatch = op_err (protocol ''ANTHROPIC_BLOCK_DELTA_MISMATCH'') s; kind = get_str ''type'' delta in case b of
        BlockTextState t \<Rightarrow> if kind = Some ''text_delta'' then
            op_bind (op_check (delta_field ''text'' delta) s) (\<lambda>f s.
            emit k (DeltaText out f) (put_block i (BlockTextState (t @ f)) s))
          else mismatch
      | BlockThinking t g \<Rightarrow> if kind = Some ''thinking_delta'' then
            op_bind (op_check (delta_field ''thinking'' delta) s) (\<lambda>f s.
            emit k (DeltaReasoning out f) (put_block i (BlockThinking (t @ f) g) s))
          else if kind = Some ''signature_delta'' then
            op_bind (op_check (delta_field ''signature'' delta) s) (\<lambda>f s.
            op_ok () (put_block i (BlockThinking t (g @ f)) s))
          else mismatch
      | BlockToolUse _ _ _ _ \<Rightarrow> if kind = Some ''input_json_delta'' then
            op_bind (op_check (delta_field ''partial_json'' delta) s) (\<lambda>f s. tool_delta k i out f b s)
          else mismatch
      | BlockRedacted _ \<Rightarrow> mismatch)"

definition open_block :: "json \<Rightarrow> anthropic_state \<Rightarrow> stream_error + u32" where
  "open_block value s =
     try_bind (ok_or (block_index value) (protocol ''ANTHROPIC_BLOCK_INDEX'')) (\<lambda>i.
     try_bind (ensure (an_open_index s = Some i) (protocol ''ANTHROPIC_BLOCK_SEQUENCE'')) (\<lambda>_. Inr i))"

definition block_delta :: "sink \<Rightarrow> json \<Rightarrow> anthropic_state \<Rightarrow> anthropic_step" where
  "block_delta k value s =
     op_bind (op_check (open_block value s) s) (\<lambda>i s.
     op_bind (op_check (ok_or (filter_opt (\<lambda>d. json_as_object d \<noteq> None) (json_get ''delta'' value))
       (protocol ''ANTHROPIC_BLOCK_DELTA'')) s) (\<lambda>delta s.
     apply_delta k i (the (map_of (an_output_indices s) i)) delta (the (map_of (an_blocks s) i)) s))"

definition check_block :: "json_codec \<Rightarrow> block_state \<Rightarrow> stream_error + unit" where
  "check_block jc b = (case b of
     BlockThinking _ g \<Rightarrow> ensure (g \<noteq> []) (protocol ''ANTHROPIC_THINKING_SIGNATURE'')
   | BlockToolUse i n arguments _ \<Rightarrow>
       try_bind (ensure (safe_provider_id i \<and> trim_text n \<noteq> [] \<and> length n \<le> 256) (protocol ''ANTHROPIC_TOOL_USE'')) (\<lambda>_.
       try_bind (ok_or (jc_parse jc arguments) (protocol ''ANTHROPIC_TOOL_JSON'')) (\<lambda>v.
       ensure (json_as_object v \<noteq> None) (protocol ''ANTHROPIC_TOOL_JSON'')))
   | _ \<Rightarrow> Inr ())"

definition block_stop :: "json_codec \<Rightarrow> json \<Rightarrow> anthropic_state \<Rightarrow> anthropic_step" where
  "block_stop jc value s =
     op_bind (op_check (open_block value s) s) (\<lambda>i s.
     op_bind (op_check (check_block jc (the (map_of (an_blocks s) i))) s) (\<lambda>_ s.
     op_ok () (s\<lparr>an_open_index := None, an_next_index := an_next_index s + 1\<rparr>)))"

definition message_delta :: "json \<Rightarrow> anthropic_state \<Rightarrow> anthropic_step" where
  "message_delta value s =
     op_bind (op_check (ensure (an_started s \<and> \<not> an_stopped s \<and> an_open_index s = None) (protocol ''ANTHROPIC_SEQUENCE'')) s) (\<lambda>_ s.
     case pointer_str value ''/delta/stop_reason'' of None \<Rightarrow> op_ok () s
     | Some r \<Rightarrow> op_check (ensure (an_stop_reason s = None) (protocol ''ANTHROPIC_SEQUENCE'')) (s\<lparr>an_stop_reason := Some r\<rparr>))"

definition message_stop :: "anthropic_state \<Rightarrow> anthropic_step" where
  "message_stop s =
     op_bind (op_check (ensure (an_started s \<and> \<not> an_stopped s \<and> an_open_index s = None \<and> an_stop_reason s \<noteq> None)
       (protocol ''ANTHROPIC_SEQUENCE'')) s) (\<lambda>_ s. op_ok () (s\<lparr>an_stopped := True\<rparr>))"

subsection \<open>Events\<close>

definition anthropic_event :: "json_codec \<Rightarrow> sink \<Rightarrow> json \<Rightarrow> string \<Rightarrow> anthropic_state \<Rightarrow> anthropic_step" where
  "anthropic_event jc k value kind s =
     (if kind = ''message_start'' then message_start value s
      else if kind = ''ping'' then op_check (ensure (an_started s \<and> \<not> an_stopped s) (protocol ''ANTHROPIC_SEQUENCE'')) s
      else if kind = ''content_block_start'' then block_start jc k value s
      else if kind = ''content_block_delta'' then block_delta k value s
      else if kind = ''content_block_stop'' then block_stop jc value s
      else if kind = ''message_delta'' then message_delta value s
      else if kind = ''message_stop'' then message_stop s
      else op_err (protocol ''ANTHROPIC_EVENT_UNKNOWN'') s)"

definition anthropic_usage :: "sink \<Rightarrow> json \<Rightarrow> anthropic_state \<Rightarrow> anthropic_step" where
  "anthropic_usage k value s = (case usage_from value of None \<Rightarrow> op_ok () s
     | Some n \<Rightarrow>
        (let u = merge_latest (an_usage s) n;
             u = u\<lparr>usage_total_tokens := Option.bind (usage_uncached_input_tokens u) (\<lambda>i.
               Option.bind (usage_output_tokens u) (\<lambda>out.
               checked_sum [or_zero (usage_cache_read_tokens u), or_zero (usage_cache_write_tokens u), out] i))\<rparr>
         in emit k (DeltaUsage u) (s\<lparr>an_usage := u\<rparr>)))"

definition process_anthropic_event :: "json_codec \<Rightarrow> sink \<Rightarrow> string \<Rightarrow> anthropic_state \<Rightarrow> anthropic_step" where
  "process_anthropic_event jc k event s =
     (if sse_data event = [] then op_ok () s
      else op_bind (op_check (ok_or (jc_parse jc (sse_data event)) (protocol ''ANTHROPIC_EVENT_JSON'')) s) (\<lambda>value s.
        op_bind (op_check (ok_or (get_str ''type'' value) (protocol ''ANTHROPIC_EVENT_TYPE'')) s) (\<lambda>kind s.
        op_bind (op_check (ensure (sse_event_name event \<in> {None, Some kind}) (protocol ''ANTHROPIC_EVENT_MISMATCH'')) s) (\<lambda>_ s.
        op_bind (op_check (ensure (kind \<noteq> ''error'') (anthropic_error jc value)) s) (\<lambda>_ s.
        op_bind (anthropic_event jc k value kind s) (\<lambda>_ s. anthropic_usage k value s))))))"

subsection \<open>The end of a response\<close>

definition stop_finish :: "string \<Rightarrow> finish_reason" where
  "stop_finish r =
     (if r \<in> {''end_turn'', ''stop_sequence''} then FinishStop
      else if r = ''tool_use'' then FinishToolCalls
      else if r \<in> {''max_tokens'', ''model_context_window_exceeded''} then FinishLength
      else if r = ''refusal'' then FinishContentFilter else FinishOther)"

definition with_redacted :: "(string \<times> json) list \<Rightarrow> json list \<Rightarrow> json" where
  "with_redacted entries pending = JObject (if pending = [] then entries
     else btree_insert ''redactedThinkingBefore'' (JArray pending) entries)"

text \<open>Blocks with their metadata, and the redacted thinking after the last of them.\<close>

fun final_blocks :: "json_codec \<Rightarrow> nat \<Rightarrow> json list \<Rightarrow> block_state list \<Rightarrow> stream_error + (model_block \<times> json) list \<times> json list" where
  "final_blocks jc n pending [] = Inr ([], pending)"
| "final_blocks jc n pending (BlockRedacted d # bs) = final_blocks jc n (pending @ [JObject [(''data'', JString d)]]) bs"
| "final_blocks jc n pending (BlockTextState t # bs) =
     (if t = [] then final_blocks jc n pending bs
      else try_bind (final_blocks jc n [] bs) (\<lambda>(cs, tail). Inr ((ModelText t, with_redacted [] pending) # cs, tail)))"
| "final_blocks jc n pending (BlockThinking t g # bs) =
     (if t = [] then final_blocks jc n pending bs
      else try_bind (final_blocks jc n [] bs) (\<lambda>(cs, tail).
        Inr ((ModelReasoning t (Some (JObject [(''anthropic'', JObject [(''signature'', JString g), (''type'', JString ''thinking'')])])),
          with_redacted [(''signature'', JString g)] pending) # cs, tail)))"
| "final_blocks jc n pending (BlockToolUse i name arguments _ # bs) =
     try_bind (ok_or (jc_parse jc arguments) (protocol ''ANTHROPIC_TOOL_JSON'')) (\<lambda>v.
     try_bind (final_blocks jc (n + 1) [] bs) (\<lambda>(cs, tail).
     Inr ((ModelToolCall \<lparr>mtc_call_id = ''call-'' @ decimal (n + 1), mtc_provider_call_id = Some i, mtc_name = name,
       mtc_arguments = v\<rparr>, with_redacted [(''providerCallId'', JString i)] pending) # cs, tail)))"

definition finish_anthropic :: "json_codec \<Rightarrow> anthropic_state \<Rightarrow> stream_error + model_response" where
  "finish_anthropic jc s =
     (let reason = stop_finish (the (an_stop_reason s)) in
      try_bind (ensure (reason \<noteq> FinishLength) (coded_error ErrTerminal ''OUTPUT_LIMIT'')) (\<lambda>_.
      try_bind (final_blocks jc 0 [] (map snd (an_blocks s))) (\<lambda>(blocks, tail).
      try_bind (ensure_nonempty_response (map fst blocks)) (\<lambda>_.
      Inr \<lparr>mrs_content = map fst blocks, mrs_finish_reason = reason, mrs_usage = an_usage s,
        mrs_replay = \<lparr>cap_response = JObject [(''messageId'', JString (the (an_message_id s))),
            (''model'', JString (the (an_model s))), (''redactedThinkingTail'', JArray tail)],
          cap_blocks = map snd blocks\<rparr>\<rparr>))))"

definition anthropic_frame :: "json_codec \<Rightarrow> sink \<Rightarrow> string \<Rightarrow> anthropic_state \<Rightarrow> anthropic_step" where
  "anthropic_frame jc k f s = (if sse_data f = [] then op_ok () s else process_anthropic_event jc k f s)"

definition stream_anthropic ::
  "json_codec \<Rightarrow> sink \<Rightarrow> timeouts \<Rightarrow> nat \<Rightarrow> arrival list \<Rightarrow> (anthropic_state connection, stream_error, model_response) outcome" where
  "stream_anthropic jc k to now as =
     op_bind (stream_loop to (\<lambda>now. sse_drain (\<lambda>f. feed to now (anthropic_frame jc k f) (sse_data f \<noteq> [])))
       an_stopped as [] (connect to now anthropic_start)) (\<lambda>rest cn.
     op_bind (if an_stopped (cn_parser cn) then op_ok None cn
       else op_check (framed ''SSE_FRAMING'' (take_final_sse_event rest)) cn) (\<lambda>final cn.
     op_bind (case final of None \<Rightarrow> op_ok () cn
       | Some f \<Rightarrow> feed to now (process_anthropic_event jc k f) False cn) (\<lambda>_ cn.
     op_bind (op_check (ensure (an_stopped (cn_parser cn)) (closed_error ErrProtocol cn)) cn) (\<lambda>_ cn.
     op_check (finish_anthropic jc (cn_parser cn)) cn))))"

end
