(* ===== verification/Stream_Properties.thy ===== *)
theory Stream_Properties
  imports Stream_Chat
begin

text \<open>
  What holds of a streamed response: its framing does not depend on the chunks it came in, and what
  was sent while it streamed is what the response says at the end. The account of the deltas
  (\<open>tracked\<close>) serves every protocol; the rest is for chat completions.
\<close>

subsection \<open>What the receiver of the deltas has\<close>

datatype (plugins only: code size) channel = ChText | ChReasoning | ChId | ChName | ChArguments

fun delta_part :: "stream_delta \<Rightarrow> u32 \<Rightarrow> channel \<Rightarrow> string" where
  "delta_part (DeltaText i t) u c = (if u = i \<and> c = ChText then t else [])"
| "delta_part (DeltaReasoning i t) u c = (if u = i \<and> c = ChReasoning then t else [])"
| "delta_part (DeltaToolCall i a n g) u c = (if u \<noteq> i then [] else case c of
     ChId \<Rightarrow> text_or_empty a | ChName \<Rightarrow> text_or_empty n | ChArguments \<Rightarrow> text_or_empty g | _ \<Rightarrow> [])"
| "delta_part (DeltaUsage _) u c = []"

text \<open>The text that arrived for the block at an index, put together.\<close>

definition received :: "stream_delta list \<Rightarrow> u32 \<Rightarrow> channel \<Rightarrow> string" where
  "received ds u c = concat (map (\<lambda>d. delta_part d u c) ds)"

lemma received_simps [simp]: "received [] u c = []" "received (ds @ [d]) u c = received ds u c @ delta_part d u c"
  by (simp_all add: received_def)

text \<open>A block of the response is the text that arrived for it; the arguments of a call are its JSON.\<close>

definition renders :: "json_codec \<Rightarrow> model_block \<Rightarrow> (channel \<Rightarrow> string) \<Rightarrow> bool" where
  "renders jc b got \<longleftrightarrow> (case b of
     ModelText t \<Rightarrow> got ChText = t
   | ModelReasoning t _ \<Rightarrow> got ChReasoning = t
   | ModelToolCall c \<Rightarrow> got ChId = text_or_empty (mtc_provider_call_id c) \<and> got ChName = mtc_name c
       \<and> jc_parse jc (got ChArguments) = Some (mtc_arguments c))"

subsection \<open>Keeping track\<close>

text \<open>
  The blocks in the order of their indices, under keys, and the text each should have by now. An
  index is 32 bits wide; the count is exact up to there.
\<close>

definition tracked :: "stream_delta list \<Rightarrow> 'k list \<Rightarrow> ('k \<Rightarrow> channel \<Rightarrow> string) \<Rightarrow> bool" where
  "tracked ds order want \<longleftrightarrow> distinct order \<and> (\<forall>key c. key \<notin> set order \<longrightarrow> want key c = [])
     \<and> (length order \<le> 2 ^ 32 \<longrightarrow> (\<forall>i<length order. \<forall>c. received ds (of_nat i) c = want (order ! i) c)
       \<and> (\<forall>u c. length order \<le> unat u \<longrightarrow> received ds u c = []))"

lemma unat_index: "i < 2 ^ 32 \<Longrightarrow> unat (of_nat i :: u32) = i"
  by (simp add: unat_of_nat take_bit_nat_eq_self)

lemma of_nat_index_eq: "i < 2 ^ 32 \<Longrightarrow> j < 2 ^ 32 \<Longrightarrow> (of_nat i :: u32) = of_nat j \<longleftrightarrow> i = j"
  by (metis unat_index)

lemma tracked_start: "(\<And>key c. want key c = []) \<Longrightarrow> tracked [] [] want"
  by (simp add: tracked_def)

lemma tracked_silent: "(\<And>u c. delta_part d u c = []) \<Longrightarrow> tracked ds order want \<Longrightarrow> tracked (ds @ [d]) order want"
  by (simp add: tracked_def)

lemma tracked_new:
  assumes "tracked ds order want" "key \<notin> set order"
  shows "tracked ds (order @ [key]) want"
proof -
  have "received ds (of_nat (length order)) c = []" if "length order < 2 ^ 32" for c
    using assms(1) that by (simp add: tracked_def unat_index)
  then show ?thesis using assms by (auto simp: tracked_def nth_append less_Suc_eq)
qed

lemma tracked_add:
  assumes "tracked ds order want" "i < length order"
    and d: "\<And>c. delta_part d (of_nat i) c = add c" "\<And>u c. u \<noteq> of_nat i \<Longrightarrow> delta_part d u c = []"
    and want': "\<And>c. want' (order ! i) c = want (order ! i) c @ add c" "\<And>key c. key \<noteq> order ! i \<Longrightarrow> want' key c = want key c"
  shows "tracked (ds @ [d]) order want'"
proof -
  have gone: "want' key c = []" if "key \<notin> set order" for key c
  proof -
    have "key \<noteq> order ! i" using that assms(2) by auto
    with want'(2) assms(1) that show ?thesis by (simp add: tracked_def)
  qed
  have dist: "distinct order" using assms(1) by (simp add: tracked_def)
  have "received (ds @ [d]) (of_nat j) c = want' (order ! j) c" if "length order \<le> 2 ^ 32" "j < length order" for j c
  proof (cases "j = i")
    case True
    with assms(1) that d(1) want'(1) show ?thesis by (simp add: tracked_def)
  next
    case False
    with dist that(2) assms(2) have "order ! j \<noteq> order ! i" by (simp add: nth_eq_iff_index_eq)
    moreover from False that assms(2) have "(of_nat j :: u32) \<noteq> of_nat i" by (simp add: of_nat_index_eq)
    ultimately show ?thesis using assms(1) that d(2) want'(2) by (simp add: tracked_def)
  qed
  moreover have "received (ds @ [d]) u c = []" if "length order \<le> 2 ^ 32" "length order \<le> unat u" for u c
  proof -
    have "unat (of_nat i :: u32) < length order" using that(1) assms(2) by (simp add: unat_index)
    with that(2) have "u \<noteq> of_nat i" by auto
    then show ?thesis using assms(1) that d(2) by (simp add: tracked_def)
  qed
  ultimately show ?thesis using dist gone by (simp add: tracked_def)
qed

lemma leaves_each: "(\<And>x s. I s \<Longrightarrow> leaves I (f x s)) \<Longrightarrow> I s \<Longrightarrow> leaves I (op_each f xs s)"
  by (induction xs arbitrary: s) (auto intro: leaves_bind)

lemma each_leaves: "(\<And>x s. I s \<Longrightarrow> leaves I (f x s)) \<Longrightarrow> I s \<Longrightarrow> op_each f xs s = (r, t) \<Longrightarrow> I t"
  using leaves_each [of I f s xs] by (simp add: leaves_def)

lemma emit_leaves: "I (s\<lparr>sl_sent := sl_sent s @ [d]\<rparr>) \<Longrightarrow> leaves I (emit k d s)"
  by (simp add: emit_def Let_def split: option.split)

subsection \<open>Chat completions and Ollama\<close>

definition chat_want :: "chat_state \<Rightarrow> block_key \<Rightarrow> channel \<Rightarrow> string" where
  "chat_want s key c = (case key of
     KeyText \<Rightarrow> if c = ChText then ch_content s else []
   | KeyReasoning \<Rightarrow> if c = ChReasoning then ch_reasoning s else []
   | KeyTool i \<Rightarrow> (case c of ChId \<Rightarrow> text_or_empty (ta_id (tool_at i s)) | ChName \<Rightarrow> ta_name (tool_at i s)
       | ChArguments \<Rightarrow> ta_arguments (tool_at i s) | _ \<Rightarrow> []))"

definition chat_inv :: "chat_state \<Rightarrow> bool" where
  "chat_inv s \<longleftrightarrow> tracked (sl_sent s) (ch_order s) (chat_want s)
     \<and> (\<forall>i. KeyTool i \<in> set (ch_order s) \<longleftrightarrow> map_of (ch_calls s) i \<noteq> None)
     \<and> (KeyText \<in> set (ch_order s) \<longrightarrow> ch_content s \<noteq> []) \<and> (KeyReasoning \<in> set (ch_order s) \<longrightarrow> ch_reasoning s \<noteq> [])"

lemma append_and_delta_appends: "append_and_delta acc f cumulative = (acc', d) \<Longrightarrow> acc' = acc @ d"
  by (auto simp: append_and_delta_def starts_with_iff split: if_splits)

lemma append_fragment_eq: "append_fragment acc f cumulative = fst (append_and_delta acc f cumulative)"
  by (simp add: append_fragment_def append_and_delta_def)

definition with_key :: "block_key \<Rightarrow> block_key list \<Rightarrow> block_key list" where
  "with_key key order = (if key \<in> set order then order else order @ [key])"

lemma index_for_cases:
  assumes "index_for key s = (u, t)"
  obtains i where "u = of_nat i" "i < length (with_key key (ch_order s))" "with_key key (ch_order s) ! i = key"
    "t = s\<lparr>ch_order := with_key key (ch_order s)\<rparr>"
proof (cases "position (\<lambda>c. c = key) (ch_order s)")
  case None
  with assms show ?thesis
    by (intro that [of "length (ch_order s)"]) (auto simp: index_for_def position_None_iff with_key_def)
next
  case (Some i)
  from position_SomeD [OF Some] have i: "i < length (ch_order s)" "ch_order s ! i = key" by auto
  then have "with_key key (ch_order s) = ch_order s" by (auto simp: with_key_def)
  with assms Some i show ?thesis by (intro that [of i]) (auto simp: index_for_def)
qed

lemma chat_want_sent [simp]: "chat_want (s\<lparr>sl_sent := ds\<rparr>) = chat_want s" "chat_want (s\<lparr>ch_order := ks\<rparr>) = chat_want s"
  by (simp_all add: chat_want_def tool_at_def fun_eq_iff split: block_key.split channel.split)

text \<open>One block grows by what is sent for it, or by nothing.\<close>

definition grows :: "block_key \<Rightarrow> (channel \<Rightarrow> string) \<Rightarrow> chat_state \<Rightarrow> chat_state \<Rightarrow> bool" where
  "grows key add s s' \<longleftrightarrow> sl_sent s' = sl_sent s
     \<and> ch_order s' = with_key key (ch_order s)
     \<and> (\<forall>c. chat_want s' key c = chat_want s key c @ add c) \<and> (\<forall>other c. other \<noteq> key \<longrightarrow> chat_want s' other c = chat_want s other c)
     \<and> (\<forall>i. map_of (ch_calls s') i \<noteq> None \<longleftrightarrow> map_of (ch_calls s) i \<noteq> None \<or> key = KeyTool i)
     \<and> (key = KeyText \<longrightarrow> ch_content s' \<noteq> []) \<and> (key = KeyReasoning \<longrightarrow> ch_reasoning s' \<noteq> [])
     \<and> (key \<noteq> KeyText \<longrightarrow> ch_content s' = ch_content s) \<and> (key \<noteq> KeyReasoning \<longrightarrow> ch_reasoning s' = ch_reasoning s)"

lemma grows_keys:
  assumes "chat_inv s" "grows key add s s'"
  shows "(\<forall>i. KeyTool i \<in> set (ch_order s') \<longleftrightarrow> map_of (ch_calls s') i \<noteq> None)
    \<and> (KeyText \<in> set (ch_order s') \<longrightarrow> ch_content s' \<noteq> []) \<and> (KeyReasoning \<in> set (ch_order s') \<longrightarrow> ch_reasoning s' \<noteq> [])"
  using assms by (auto simp: chat_inv_def grows_def with_key_def split: if_splits)

lemma tracked_key:
  assumes "chat_inv s" "grows key add s s'"
  shows "tracked (sl_sent s) (ch_order s') (chat_want s)"
  using assms tracked_new [of "sl_sent s" "ch_order s" "chat_want s" key] by (auto simp: chat_inv_def grows_def with_key_def)

lemma grows_silent:
  assumes "chat_inv s" "grows key (\<lambda>_. []) s s'"
  shows "chat_inv s'"
proof -
  have "chat_want s' = chat_want s" using assms(2) by (intro ext) (metis append_Nil2 grows_def)
  with tracked_key [OF assms] grows_keys [OF assms] assms(2) show ?thesis by (simp add: chat_inv_def grows_def)
qed

lemma grows_emit:
  assumes "chat_inv s" "grows key add s s'" "i < length (ch_order s')" "ch_order s' ! i = key"
    and "\<And>c. delta_part d (of_nat i) c = add c" "\<And>u c. u \<noteq> of_nat i \<Longrightarrow> delta_part d u c = []"
  shows "chat_inv (s'\<lparr>sl_sent := sl_sent s' @ [d]\<rparr>)"
proof -
  have "tracked (sl_sent s' @ [d]) (ch_order s') (chat_want s')"
    using tracked_add [OF tracked_key [OF assms(1,2)] assms(3,5,6), of "chat_want s'"] assms(2,4) by (simp add: grows_def)
  with grows_keys [OF assms(1,2)] show ?thesis by (simp add: chat_inv_def)
qed

lemma chat_inv_other:
  "chat_inv s \<Longrightarrow> chat_inv (s\<lparr>ch_replay := r\<rparr>)" "chat_inv s \<Longrightarrow> chat_inv (s\<lparr>ch_usage := u\<rparr>)"
  "chat_inv s \<Longrightarrow> chat_inv (s\<lparr>ch_details := ds\<rparr>)" "chat_inv s \<Longrightarrow> chat_inv (s\<lparr>ch_completed := b, ch_finish := f\<rparr>)"
  "chat_inv s \<Longrightarrow> chat_inv (s\<lparr>ch_completed := b\<rparr>)" "chat_inv s \<Longrightarrow> chat_inv (s\<lparr>ch_done := b\<rparr>)"
proof -
  have "chat_want (s\<lparr>ch_replay := r\<rparr>) = chat_want s" "chat_want (s\<lparr>ch_usage := u\<rparr>) = chat_want s"
    "chat_want (s\<lparr>ch_details := ds\<rparr>) = chat_want s" "chat_want (s\<lparr>ch_completed := b, ch_finish := f\<rparr>) = chat_want s"
    "chat_want (s\<lparr>ch_completed := b\<rparr>) = chat_want s" "chat_want (s\<lparr>ch_done := b\<rparr>) = chat_want s"
    by (simp_all add: chat_want_def tool_at_def fun_eq_iff split: block_key.split channel.split)
  then show "chat_inv s \<Longrightarrow> chat_inv (s\<lparr>ch_replay := r\<rparr>)" "chat_inv s \<Longrightarrow> chat_inv (s\<lparr>ch_usage := u\<rparr>)"
    "chat_inv s \<Longrightarrow> chat_inv (s\<lparr>ch_details := ds\<rparr>)" "chat_inv s \<Longrightarrow> chat_inv (s\<lparr>ch_completed := b, ch_finish := f\<rparr>)"
    "chat_inv s \<Longrightarrow> chat_inv (s\<lparr>ch_completed := b\<rparr>)" "chat_inv s \<Longrightarrow> chat_inv (s\<lparr>ch_done := b\<rparr>)"
    by (simp_all add: chat_inv_def)
qed

lemma indexed_emit:
  assumes "chat_inv s" "grows key add s s3" "index_for key s1 = (u, s2)" "ch_order s1 = ch_order s"
    and "\<And>c. delta_part d u c = add c" "\<And>v c. v \<noteq> u \<Longrightarrow> delta_part d v c = []"
  shows "leaves chat_inv (emit k d s3)"
  using assms(3)
proof (cases rule: index_for_cases)
  case (1 i)
  from assms(2) have "ch_order s3 = with_key key (ch_order s)" by (simp add: grows_def)
  with 1 assms show ?thesis by (intro emit_leaves grows_emit [OF assms(1,2), of i]) simp_all
qed

lemma add_content_inv: "chat_inv s \<Longrightarrow> leaves chat_inv (add_content k cumulative f s)"
proof -
  assume inv: "chat_inv s"
  obtain t d where td: "append_and_delta (ch_content s) f cumulative = (t, d)" by fastforce
  note t = append_and_delta_appends [OF td]
  obtain u s2 where ix: "index_for KeyText (s\<lparr>ch_content := t\<rparr>) = (u, s2)" by fastforce
  have "grows KeyText (\<lambda>c. if c = ChText then d else []) s s2" if "d \<noteq> []"
    using ix
  proof (cases rule: index_for_cases)
    case (1 i)
    show ?thesis using t that unfolding 1(4) grows_def
      by (auto simp: chat_want_def tool_at_def split: block_key.split channel.split)
  qed
  from indexed_emit [OF inv this ix] td t ix inv show ?thesis by (cases "d = []") (simp_all add: add_content_def)
qed

lemma add_reasoning_inv: "chat_inv s \<Longrightarrow> leaves chat_inv (add_reasoning k cumulative f s)"
proof -
  assume inv: "chat_inv s"
  obtain t d where td: "append_and_delta (ch_reasoning s) f cumulative = (t, d)" by fastforce
  note t = append_and_delta_appends [OF td]
  obtain u s2 where ix: "index_for KeyReasoning (s\<lparr>ch_reasoning := t\<rparr>) = (u, s2)" by fastforce
  have "grows KeyReasoning (\<lambda>c. if c = ChReasoning then d else []) s s2" if "d \<noteq> []"
    using ix
  proof (cases rule: index_for_cases)
    case (1 i)
    show ?thesis using t that unfolding 1(4) grows_def
      by (auto simp: chat_want_def tool_at_def split: block_key.split channel.split)
  qed
  from indexed_emit [OF inv this ix] td t ix inv show ?thesis by (cases "d = []") (simp_all add: add_reasoning_def)
qed

text \<open>A call: whatever its fragments, what is sent is what was added.\<close>

lemma emit_tool_inv:
  assumes inv: "chat_inv s" and ix: "index_for (KeyTool i) s = (u, s2)"
    and a: "text_or_empty (ta_id a) = text_or_empty (ta_id (tool_at i s)) @ di"
      "ta_name a = ta_name (tool_at i s) @ dn" "ta_arguments a = ta_arguments (tool_at i s) @ da"
  shows "leaves chat_inv (emit_tool k u di dn da (put_tool i a s2))"
proof -
  define add where "add c = (case c of ChId \<Rightarrow> di | ChName \<Rightarrow> dn | ChArguments \<Rightarrow> da | _ \<Rightarrow> [])" for c
  have grown: "grows (KeyTool i) add s (put_tool i a s2)"
    using ix
  proof (cases rule: index_for_cases)
    case (1 j)
    show ?thesis using a unfolding 1(4) grows_def
      by (auto simp: chat_want_def tool_at_def put_tool_def add_def split: block_key.split channel.split)
  qed
  have part: "text_or_empty (nonempty t) = t" for t by (simp add: nonempty_def text_or_empty_def)
  show ?thesis
  proof (cases "di = [] \<and> dn = [] \<and> da = []")
    case True
    then have "add = (\<lambda>_. [])" by (simp add: add_def fun_eq_iff split: channel.split)
    with grows_silent [OF inv] grown True show ?thesis by (simp add: emit_tool_def)
  next
    case False
    with indexed_emit [OF inv grown ix refl] show ?thesis
      by (auto simp: emit_tool_def part add_def split: channel.split)
  qed
qed

lemma add_part_appends: "add_part acc f cumulative = (acc', d) \<Longrightarrow> acc' = acc @ d"
  by (auto simp: add_part_def dest: append_and_delta_appends split: option.splits)

lemma id_delta_appends: "append_fragment (text_or_empty p) i cumulative = text_or_empty p @ id_delta p i cumulative"
  by (auto simp: append_fragment_def id_delta_def text_or_empty_def starts_with_iff split: option.splits)

lemma index_for_tool_at: "index_for key s = (u, s2) \<Longrightarrow> tool_at i s2 = tool_at i s"
  by (auto simp: index_for_def tool_at_def split: option.splits)

lemma add_chat_call_inv: "chat_inv s \<Longrightarrow> leaves chat_inv (add_chat_call k cumulative pc s)"
proof -
  assume inv: "chat_inv s"
  obtain pos call where pc: "pc = (pos, call)" by fastforce
  define i where "i = (case get_u64 ''index'' call of None \<Rightarrow> pos | Some n \<Rightarrow> unat n)"
  obtain u s2 where ix: "index_for (KeyTool i) s = (u, s2)" by fastforce
  obtain n dn where n: "add_part (ta_name (tool_at i s)) (pointer_str call ''/function/name'') cumulative = (n, dn)" by fastforce
  obtain g da where g: "add_part (ta_arguments (tool_at i s)) (pointer_str call ''/function/arguments'') cumulative = (g, da)" by fastforce
  note here = emit_tool_inv [OF inv ix]
  show ?thesis
    using here [where a = "\<lparr>ta_id = _, ta_name = n, ta_arguments = g\<rparr>"] add_part_appends [OF n] add_part_appends [OF g] n g ix
      id_delta_appends [of "ta_id (tool_at i s)" _ cumulative]
    by (auto simp: add_chat_call_def pc Let_def index_for_tool_at [OF ix] text_or_empty_def simp flip: i_def split: option.split)
qed

lemma add_ollama_call_inv: "chat_inv s \<Longrightarrow> leaves chat_inv (add_ollama_call jc k pc s)"
proof -
  assume inv: "chat_inv s"
  obtain i call where pc: "pc = (i, call)" by fastforce
  obtain u s2 where ix: "index_for (KeyTool i) s = (u, s2)" by fastforce
  obtain n dn where n: "add_part (ta_name (tool_at i s)) (pointer_str call ''/function/name'') True = (n, dn)" by fastforce
  obtain g da where g: "add_part (ta_arguments (tool_at i s)) (map_option (\<lambda>v. case v of JString t \<Rightarrow> t | _ \<Rightarrow> jc_print jc v)
    (json_pointer call ''/function/arguments'')) True = (g, da)" by fastforce
  obtain p di where p: "append_and_delta (text_or_empty (ta_id (tool_at i s))) (text_or_empty (get_str ''id'' call)) True = (p, di)" by fastforce
  show ?thesis
    using emit_tool_inv [OF inv ix, where a = "\<lparr>ta_id = _, ta_name = n, ta_arguments = g\<rparr>"]
      add_part_appends [OF n] add_part_appends [OF g] append_and_delta_appends [OF p] n g ix p
    by (auto simp: add_ollama_call_def pc Let_def index_for_tool_at [OF ix] text_or_empty_def split: option.split)
qed

lemma observe_usage_inv: "chat_inv s \<Longrightarrow> leaves chat_inv (observe_usage k kind v s)"
proof -
  assume inv: "chat_inv s"
  have "chat_inv (s\<lparr>sl_sent := sl_sent s @ [DeltaUsage u]\<rparr>)" for u
    using inv tracked_silent [of "DeltaUsage u" "sl_sent s" "ch_order s" "chat_want s"] by (simp add: chat_inv_def)
  then have "leaves chat_inv (emit k (DeltaUsage u) s)" for u by (rule emit_leaves)
  with inv show ?thesis
    by (auto simp: observe_usage_def split: option.split intro!: leaves_bind chat_inv_other)
qed

named_theorems chat_steps

lemmas [chat_steps] = leaves_each add_content_inv add_reasoning_inv add_chat_call_inv add_ollama_call_inv observe_usage_inv chat_inv_other

lemma chat_value_inv: "chat_inv s \<Longrightarrow> leaves chat_inv (chat_value jc pv k v s)"
  unfolding chat_value_def Let_def
  by (intro leaves_bind chat_steps) (auto split: option.split intro: chat_steps)

lemma ollama_value_inv: "chat_inv s \<Longrightarrow> leaves chat_inv (ollama_value jc k v s)"
  unfolding ollama_value_def Let_def
  by (intro leaves_bind chat_steps) (auto split: option.split intro: chat_steps)

lemma process_chat_event_inv: "chat_inv s \<Longrightarrow> leaves chat_inv (process_chat_event jc pv k e s)"
  unfolding process_chat_event_def
  by (auto intro!: leaves_bind chat_value_inv chat_inv_other)

lemma chat_frame_inv: "chat_inv s \<Longrightarrow> leaves chat_inv (chat_frame jc pv k e s)"
  by (simp add: chat_frame_def process_chat_event_inv chat_inv_other)

lemma process_ollama_line_inv: "chat_inv s \<Longrightarrow> leaves chat_inv (process_ollama_line jc k l s)"
  unfolding process_ollama_line_def by (auto intro!: leaves_bind ollama_value_inv)

lemma ollama_frame_inv: "chat_inv s \<Longrightarrow> leaves chat_inv (ollama_frame jc k l s)"
  by (simp add: ollama_frame_def process_ollama_line_inv)

lemma chat_inv_start: "chat_inv chat_start"
  by (simp add: chat_inv_def chat_start_def chat_want_def tool_at_def empty_tool_def text_or_empty_def tracked_start
    split: block_key.split channel.split)

subsection \<open>The blocks of a response\<close>

definition same_call :: "json_codec \<Rightarrow> tool_acc \<Rightarrow> model_tool_call \<Rightarrow> bool" where
  "same_call jc a c \<longleftrightarrow> mtc_provider_call_id c = ta_id a \<and> mtc_name c = ta_name a
     \<and> jc_parse jc (ta_arguments a) = Some (mtc_arguments c)"

lemma normalize_call_same: "normalize_call jc q n a = Inr c \<Longrightarrow> same_call jc a c"
  by (auto simp: normalize_call_def same_call_def res_simps)

lemma normalize_from_same:
  "normalize_from jc q n calls = Inr cs \<Longrightarrow> rel_option (same_call jc) (map_of calls i) (map_of cs i)"
proof (induction jc q n calls arbitrary: cs rule: normalize_from.induct)
  case (2 jc q n j a calls)
  from 2(2) obtain c cs' where c: "normalize_call jc q n a = Inr c" and rest: "normalize_from jc q (n + 1) calls = Inr cs'" "cs = (j, c) # cs'"
    by (auto simp: res_simps)
  from 2(1) [OF rest(1)] normalize_call_same [OF c] rest(2) show ?case by simp
qed simp

definition key_block :: "chat_state \<Rightarrow> (nat \<times> model_tool_call) list \<Rightarrow> block_key \<Rightarrow> model_block" where
  "key_block s calls key = (case key of KeyReasoning \<Rightarrow> reasoning_block s | KeyText \<Rightarrow> ModelText (ch_content s)
     | KeyTool i \<Rightarrow> ModelToolCall (the (map_of calls i)))"

lemma map_of_filter_other: "map_of (filter (\<lambda>(j, _). j \<noteq> i) xs) k = (if k = i then None else map_of xs k)"
  by (induction xs) auto

lemma ordered_blocks_map:
  assumes "distinct ks" "KeyReasoning \<in> set ks \<Longrightarrow> ch_reasoning s \<noteq> []" "KeyText \<in> set ks \<Longrightarrow> ch_content s \<noteq> []"
    and "\<And>i. KeyTool i \<in> set ks \<Longrightarrow> map_of calls i \<noteq> None"
  shows "ordered_blocks s calls ks = map (key_block s calls) ks"
  using assms
proof (induction s calls ks rule: ordered_blocks.induct)
  case (4 s calls i ks)
  from 4(6) obtain c where c: "map_of calls i = Some c" by fastforce
  let ?rest = "filter (\<lambda>(j, _). j \<noteq> i) calls"
  have "ordered_blocks s ?rest ks = map (key_block s ?rest) ks"
    using 4(3-6) by (intro 4(2) [OF c]) (auto simp: map_of_filter_other)
  also have "\<dots> = map (key_block s calls) ks"
    using 4(3) by (auto simp: key_block_def map_of_filter_other split: block_key.split)
  finally show ?case using c by (simp add: key_block_def)
qed (simp_all add: key_block_def)

lemma key_block_renders:
  assumes inv: "chat_inv s" and calls: "normalized_calls jc q (ch_calls s) = Inr calls" and key: "key \<in> set (ch_order s)"
  shows "renders jc (key_block s calls key) (chat_want s key)"
proof (cases key)
  case (KeyTool i)
  with inv key obtain a where a: "map_of (ch_calls s) i = Some a" by (auto simp: chat_inv_def)
  with normalize_from_same [OF calls [unfolded normalized_calls_def], of i] obtain c where
    "map_of calls i = Some c" "same_call jc a c" by (auto simp: option_rel_Some1)
  with a KeyTool show ?thesis by (simp add: renders_def key_block_def chat_want_def tool_at_def same_call_def)
qed (simp_all add: renders_def key_block_def chat_want_def reasoning_block_def)

lemma chat_order_blocks:
  assumes inv: "chat_inv s" and calls: "normalized_calls jc q (ch_calls s) = Inr calls"
  shows "ordered_blocks s calls (ch_order s) = map (key_block s calls) (ch_order s)"
proof (rule ordered_blocks_map)
  show "map_of calls i \<noteq> None" if "KeyTool i \<in> set (ch_order s)" for i
    using that inv normalize_from_same [OF calls [unfolded normalized_calls_def], of i] by (auto simp: chat_inv_def option_rel_Some1)
qed (use inv in \<open>auto simp: chat_inv_def tracked_def\<close>)

text \<open>Text without a think tag stays as it is.\<close>

lemma split_think_blocks_id: "(\<And>t. ModelText t \<in> set bs \<Longrightarrow> t \<noteq> [] \<and> find_bytes THINK t = None) \<Longrightarrow> split_think_blocks bs = bs"
proof (induction bs)
  case (Cons b bs)
  have one: "(case b of ModelText s \<Rightarrow> split_text s | _ \<Rightarrow> [b]) = [b]"
    using Cons.prems [of "case b of ModelText t \<Rightarrow> t | _ \<Rightarrow> []"]
    by (auto simp: split_text_def split_think.simps text_block_def split: model_block.split)
  from Cons show ?case by (simp add: split_think_blocks_def one del: list.map_cong0)
qed (simp add: split_think_blocks_def)

lemma finish_renders:
  assumes inv: "chat_inv s" and fin: "finish jc q fallback s = Inr content"
    and plain: "\<not> fallback \<or> find_bytes THINK (ch_content s) = None" and small: "length content \<le> 2 ^ 32"
  shows "(\<forall>i<length content. renders jc (content ! i) (received (sl_sent s) (of_nat i)))
    \<and> (\<forall>u c. length content \<le> unat u \<longrightarrow> received (sl_sent s) u c = [])"
proof -
  from fin obtain calls where calls: "normalized_calls jc q (ch_calls s) = Inr calls"
    and c: "content = (let bs = ordered_blocks s calls (ch_order s) in
      if fallback \<and> \<not> list_ex is_reasoning bs then split_think_blocks bs else bs)"
    by (auto simp: finish_def res_simps Let_def)
  note blocks = chat_order_blocks [OF inv calls]
  have "split_think_blocks (ordered_blocks s calls (ch_order s)) = ordered_blocks s calls (ch_order s)" if fallback
    using plain that inv unfolding blocks
    by (intro split_think_blocks_id)
      (auto simp: key_block_def reasoning_block_def chat_inv_def split: block_key.split_asm)
  with c blocks have content: "content = map (key_block s calls) (ch_order s)" by (auto simp: Let_def split: if_splits)
  from inv have tr: "tracked (sl_sent s) (ch_order s) (chat_want s)" by (simp add: chat_inv_def)
  have "received (sl_sent s) (of_nat i) = chat_want s (ch_order s ! i)" if "i < length content" for i
    using tr that small content by (auto simp: tracked_def fun_eq_iff)
  with key_block_renders [OF inv calls] tr small content show ?thesis by (auto simp: tracked_def)
qed

subsection \<open>A whole stream\<close>

context framing begin

lemma frames_prefix:
  "frames take_frame b fs r \<Longrightarrow> frames take_frame (b @ c) gs r' \<Longrightarrow> \<exists>hs. gs = fs @ hs \<and> frames take_frame (r @ c) hs r'"
proof (induction arbitrary: gs rule: frames.induct)
  case (frames_take b f r fs rest)
  from frames_take(4) stable [OF frames_take(1), of c] obtain gs' where "gs = f # gs'" "frames take_frame (r @ c) gs' r'"
    by cases auto
  with frames_take.IH show ?case by auto
qed simp

lemma frames_none: "take_frame b = Inr None \<Longrightarrow> frames take_frame b fs r \<Longrightarrow> fs = [] \<and> r = b"
  by (metis frames_stop frames_unique)

end

context drained begin

text \<open>When nothing follows the frame that ends the stream, the chunks make no difference.\<close>

lemma loop_whole:
  assumes whole: "frames take_frame (concat (body as)) fs tail"
    and ends: "\<And>gs hs p. fs = gs @ hs \<Longrightarrow> op_each h gs (cn_parser cn) = (Inr (), p) \<Longrightarrow> finished p \<Longrightarrow> hs = [] \<and> tail = []"
    and empty: "take_frame [] = Inr None"
    and run: "stream_loop to (\<lambda>now. drain (\<lambda>f. feed to now (h f) (eff f))) finished as [] cn = (Inr rest, cn')"
  shows "rest = tail \<and> op_each h fs (cn_parser cn) = (Inr (), cn_parser cn')"
proof -
  from loop_frames [OF empty run] obtain n gs where gs: "frames take_frame (concat (take n (body as))) gs rest"
    "op_each h gs (cn_parser cn) = (Inr (), cn_parser cn')" "length (body as) \<le> n \<or> finished (cn_parser cn')" by auto
  have "concat (body as) = concat (take n (body as)) @ concat (drop n (body as))" by (metis append_take_drop_id concat_append)
  with frames_prefix [OF gs(1)] whole obtain hs where hs: "fs = gs @ hs"
    "frames take_frame (rest @ concat (drop n (body as))) hs tail" by metis
  have rest: "take_frame rest = Inr None" by (rule frames_end [OF gs(1)])
  show ?thesis
  proof (cases "finished (cn_parser cn')")
    case True
    from ends [OF hs(1) gs(2) this] hs gs(2) show ?thesis by (auto elim: frames.cases)
  next
    case False
    with gs(3) hs(2) have "frames take_frame rest hs tail" by simp
    from frames_none [OF rest this] hs gs(2) show ?thesis by simp
  qed
qed

end

text \<open>What is left when the body ends may hold one more event.\<close>

definition last_event ::
  "(string \<Rightarrow> 's \<Rightarrow> ('s, stream_error, unit) outcome) \<Rightarrow> string \<Rightarrow> 's \<Rightarrow> ('s, stream_error, unit) outcome" where
  "last_event h tail p = (case take_final_sse_event tail of
     Inl e \<Rightarrow> op_err (framing_error ''SSE_FRAMING'' e) p | Inr None \<Rightarrow> op_ok () p | Inr (Some f) \<Rightarrow> h f p)"

lemma last_event_leaves: "I p \<Longrightarrow> (\<And>f. leaves I (h f p)) \<Longrightarrow> leaves I (last_event h tail p)"
  by (simp add: last_event_def split: sum.split option.split)

text \<open>The response of a chat completion, from the events of the whole body, without chunks and clocks.\<close>

definition whole_chat ::
  "json_codec \<Rightarrow> provider_capabilities \<Rightarrow> sink \<Rightarrow> string list \<Rightarrow> string \<Rightarrow> (chat_state, stream_error, model_response) outcome" where
  "whole_chat jc pv k fs tail =
     op_bind (op_each (chat_frame jc pv k) fs chat_start) (\<lambda>_ s.
     op_bind (last_event (process_chat_event jc pv k) tail s) (\<lambda>_ s.
     op_bind (op_check (ensure (ch_completed s) (coded_error ErrRetryable ''STREAM_CLOSED'')) s) (\<lambda>_ s.
     op_bind (op_check (ensure (ch_finish s \<noteq> FinishLength) (coded_error ErrTerminal ''OUTPUT_LIMIT'')) s) (\<lambda>_ s.
     op_check (finish_chat_response jc pv s) s))))"

lemma feed_Inr: "feed to now h eff cn = (Inr (), cn') \<Longrightarrow> h (cn_parser cn) = (Inr (), cn_parser cn')"
  by (auto simp: feed_def observe_effective_frame_def res_simps)

lemma final_feed:
  assumes "framed code (take_final_sse_event rest) = Inr final"
    and "(case final of None \<Rightarrow> op_ok () cn | Some f \<Rightarrow> feed to now (h f) eff cn) = (Inr (), cn')"
  shows "last_event h rest (cn_parser cn) = (Inr (), cn_parser cn')"
  using assms by (auto simp: framed_def last_event_def op_ok_def split: sum.split_asm option.split_asm dest: feed_Inr)

lemma stream_chat_cases:
  assumes "stream_chat jc pv k to now as = (Inr r, cn)"
  obtains rest cn1 where "stream_loop to (\<lambda>now. sse_drain (\<lambda>f. feed to now (chat_frame jc pv k f) (sse_data f \<noteq> [])))
      ch_done as [] (connect to now chat_start) = (Inr rest, cn1)"
    "last_event (process_chat_event jc pv k) rest (cn_parser cn1) = (Inr (), cn_parser cn)"
    "ch_completed (cn_parser cn)" "ch_finish (cn_parser cn) \<noteq> FinishLength" "finish_chat_response jc pv (cn_parser cn) = Inr r"
proof -
  from assms obtain rest cn1 final where
    run: "stream_loop to (\<lambda>now. sse_drain (\<lambda>f. feed to now (chat_frame jc pv k f) (sse_data f \<noteq> [])))
      ch_done as [] (connect to now chat_start) = (Inr rest, cn1)"
    and final: "framed ''SSE_FRAMING'' (take_final_sse_event rest) = Inr final"
      "(case final of None \<Rightarrow> op_ok () cn1 | Some f \<Rightarrow> feed to now (process_chat_event jc pv k f) False cn1) = (Inr (), cn)"
    and r: "ch_completed (cn_parser cn)" "ch_finish (cn_parser cn) \<noteq> FinishLength" "finish_chat_response jc pv (cn_parser cn) = Inr r"
    by (auto simp: stream_chat_def res_simps)
  from that [OF run final_feed [OF final] r] show thesis .
qed

subsection \<open>The end of a chat completion\<close>

named_theorems keep_done

definition done_is :: "bool \<Rightarrow> chat_state \<Rightarrow> bool" where
  "done_is d s \<longleftrightarrow> ch_done s = d"

lemma done_is_other [simp]:
  "done_is d (s\<lparr>sl_sent := x1\<rparr>) = done_is d s" "done_is d (s\<lparr>ch_content := x2\<rparr>) = done_is d s"
  "done_is d (s\<lparr>ch_reasoning := x2\<rparr>) = done_is d s" "done_is d (s\<lparr>ch_calls := x3\<rparr>) = done_is d s"
  "done_is d (s\<lparr>ch_order := x4\<rparr>) = done_is d s" "done_is d (s\<lparr>ch_usage := x5\<rparr>) = done_is d s"
  "done_is d (s\<lparr>ch_replay := x6\<rparr>) = done_is d s" "done_is d (s\<lparr>ch_details := x7\<rparr>) = done_is d s"
  "done_is d (s\<lparr>ch_completed := x8, ch_finish := x9\<rparr>) = done_is d s" "done_is d (s\<lparr>ch_completed := x8\<rparr>) = done_is d s"
  "done_is d (put_tool i a s) = done_is d s"
  by (simp_all add: done_is_def put_tool_def)

lemma done_emit [keep_done]: "done_is d s \<Longrightarrow> leaves (done_is d) (emit k x s)"
  by (simp add: emit_leaves)

lemma done_emit_tool [keep_done]: "done_is d s \<Longrightarrow> leaves (done_is d) (emit_tool k u a b c s)"
  by (simp add: emit_tool_def keep_done)

lemma done_index: "index_for key s = (u, t) \<Longrightarrow> done_is d t = done_is d s"
  by (auto simp: index_for_def split: option.splits)

lemma done_add [keep_done]:
  "done_is d s \<Longrightarrow> leaves (done_is d) (add_content k cu f s)" "done_is d s \<Longrightarrow> leaves (done_is d) (add_reasoning k cu f s)"
  "done_is d s \<Longrightarrow> leaves (done_is d) (add_chat_call k cu pc s)"
  by (auto simp: add_content_def add_reasoning_def add_chat_call_def Let_def done_index split: prod.split intro!: keep_done)

lemma done_usage [keep_done]: "done_is d s \<Longrightarrow> leaves (done_is d) (observe_usage k kind v s)"
  by (auto simp: observe_usage_def intro!: leaves_bind keep_done split: option.split)

lemma done_value [keep_done]: "done_is d s \<Longrightarrow> leaves (done_is d) (chat_value jc pv k v s)"
  unfolding chat_value_def Let_def
  by (intro leaves_bind leaves_each keep_done) (auto split: option.split intro: keep_done)

lemma done_event: "done_is d s \<Longrightarrow> leaves (done_is d) (process_chat_event jc pv k f s)"
  unfolding process_chat_event_def by (auto intro!: leaves_bind keep_done)

lemma done_needs_its_event:
  "op_each (chat_frame jc pv k) fs s = (Inr (), p) \<Longrightarrow> ch_done p \<Longrightarrow> ch_done s \<or> (\<exists>f\<in>set fs. sse_data f = ''[DONE]'')"
proof (induction fs arbitrary: s)
  case (Cons f fs)
  from Cons.prems(1) obtain s1 where s1: "chat_frame jc pv k f s = (Inr (), s1)" "op_each (chat_frame jc pv k) fs s1 = (Inr (), p)"
    by (auto simp: res_simps)
  have "ch_done s1 = ch_done s" if "sse_data f \<noteq> ''[DONE]''"
    using done_event [of "ch_done s" s jc pv k f] s1(1) that by (simp add: leaves_def chat_frame_def done_is_def)
  with Cons.IH [OF s1(2) Cons.prems(2)] show ?case by auto
qed (simp add: op_ok_def)

definition ends_at_done :: "string list \<Rightarrow> string \<Rightarrow> bool" where
  "ends_at_done fs tail \<longleftrightarrow> list_all (\<lambda>f. sse_data f \<noteq> ''[DONE]'') (butlast fs)
     \<and> (list_ex (\<lambda>f. sse_data f = ''[DONE]'') fs \<longrightarrow> tail = [])"

lemma take_nothing: "take_sse_event [] = Inr None" "take_line [] = Inr None"
  by (simp_all add: take_sse_event_def sse_separator_def earliest_separator_def take_line_def)

subsection \<open>A stream in two chunks\<close>

definition wit_value :: json where
  "wit_value = JObject [(''choices'', JArray [JObject [(''delta'', JObject [(''content'', JString ''ok'')]),
     (''finish_reason'', JString ''stop'')]])]"

definition wit_codec :: json_codec where
  "wit_codec = \<lparr>jc_parse = (\<lambda>s. if s = ''{}'' then Some wit_value else None), jc_print = (\<lambda>_. [])\<rparr>"

definition wit_provider :: provider_capabilities where
  "wit_provider = \<lparr>pv_cumulative_stream = False, pv_supports_stream_usage = False, pv_native_reasoning = True,
     pv_split_reasoning = False, pv_replay_reasoning_content = False, pv_think_tag_fallback = False, pv_parallel_tool_calls = False\<rparr>"

definition wit_state :: chat_state where
  "wit_state = chat_start\<lparr>sl_sent := [DeltaText 0 ''ok''], ch_order := [KeyText], ch_content := ''ok'',
     ch_completed := True, ch_finish := FinishStop\<rparr>"

definition wit_arrivals :: "arrival list" where
  "wit_arrivals = [ArriveChunk 1 (''data: {}'' @ [LF]), ArriveChunk 2 ([LF] @ ''data: [DONE]'' @ [LF, LF])]"

definition wit_response :: model_response where
  "wit_response = \<lparr>mrs_content = [ModelText ''ok''], mrs_finish_reason = FinishStop, mrs_usage = no_usage,
     mrs_replay = \<lparr>cap_response = JObject [], cap_blocks = [JObject []]\<rparr>\<rparr>"

definition wit_end :: "chat_state connection" where
  "wit_end = \<lparr>cn_received = 24, cn_first_byte_seen = True, cn_deadline = 300002, cn_parser = wit_state\<lparr>ch_done := True\<rparr>\<rparr>"

lemma pointer_first: "pointer_step (JArray [v]) ''0'' = Some v"
  by (simp add: pointer_step_def parse_index_def is_ascii_digit_def byte_of_def)

lemma wit_value_pointers:
  "json_pointer wit_value ''/choices/0/delta/content'' = Some (JString ''ok'')"
  "json_pointer wit_value ''/choices/0/finish_reason'' = Some (JString ''stop'')"
  "json_pointer wit_value ''/choices/0/delta/tool_calls'' = None"
  "json_pointer wit_value ''/choices/0/delta/reasoning_details'' = None"
  "json_pointer wit_value ''/choices/0/delta/reasoning_content'' = None"
  "json_pointer wit_value ''/choices/0/delta/reasoning'' = None" "json_pointer wit_value ''/error/message'' = None"
  by (simp_all add: json_pointer_def wit_value_def pointer_step_def [of "JObject kvs" for kvs] pointer_first)

lemma wit_value_fields:
  "json_get ''id'' wit_value = None" "json_get ''model'' wit_value = None" "json_get ''system_fingerprint'' wit_value = None"
  "json_get ''usage'' wit_value = None" "json_get ''error'' wit_value = None" "json_get ''message'' wit_value = None"
  by (simp_all add: wit_value_def json_get_def)

lemma wit_value_step: "chat_value wit_codec wit_provider (\<lambda>_. None) wit_value chat_start = (Inr (), wit_state)"
  by (simp add: chat_value_def Let_def wit_value_pointers wit_value_fields pointer_str_def get_str_def record_strings_def
      observe_usage_def provider_usage_from_value_def usage_source_def chat_error_def or_else_def ensure_def
      reasoning_fragments_def filter_opt_def json_as_str_def add_content_def append_and_delta_def index_for_def emit_def
      wit_state_def chat_start_def json_items_def normalize_finish_reason_def wit_provider_def op_ok_def)

lemma wit_frames:
  "take_sse_event (''data: {}'' @ [LF]) = Inr None"
  "take_sse_event (''data: {}'' @ [LF, LF] @ ''data: [DONE]'' @ [LF, LF]) = Inr (Some (''data: {}'', ''data: [DONE]'' @ [LF, LF]))"
  "take_sse_event (''data: [DONE]'' @ [LF, LF]) = Inr (Some (''data: [DONE]'', []))"
  by (simp_all add: take_sse_event_def sse_separator_def earliest_separator_def LF_def CR_def starts_with_def
      ensure_provider_stream_frame_size_def MAX_PROVIDER_STREAM_EVENT_BYTES_def ensure_def is_utf8_def byte_of_def)

lemma wit_data: "sse_data ''data: {}'' = ''{}''" "sse_data ''data: [DONE]'' = ''[DONE]''"
  by (simp_all add: sse_data_def text_lines_def LF_def line_value_def starts_with_def Let_def
      ascii_space_def space2_def space3_def byte_of_def)

lemma wit_steps:
  "chat_frame wit_codec wit_provider (\<lambda>_. None) ''data: {}'' chat_start = (Inr (), wit_state)"
  "chat_frame wit_codec wit_provider (\<lambda>_. None) ''data: [DONE]'' wit_state = (Inr (), wit_state\<lparr>ch_done := True\<rparr>)"
  using wit_value_step
  by (simp_all add: chat_frame_def process_chat_event_def wit_data ok_or_def op_ok_def)
    (simp_all add: wit_codec_def wit_state_def)

lemma wit_timeouts: "to_first_byte default_timeouts = 30000" "to_stream_idle default_timeouts = 300000"
  by (simp_all add: default_timeouts_def)

lemma wit_drain1:
  "sse_drain (\<lambda>f. feed default_timeouts 1 (chat_frame wit_codec wit_provider (\<lambda>_. None) f) (sse_data f \<noteq> []))
     (''data: {}'' @ [LF]) cn = (Inr (''data: {}'' @ [LF]), cn)"
  by (subst sse_drain.simps) (simp add: wit_frames [simplified] op_ok_def)

lemma wit_drain2:
  "sse_drain (\<lambda>f. feed default_timeouts 2 (chat_frame wit_codec wit_provider (\<lambda>_. None) f) (sse_data f \<noteq> []))
     (''data: {}'' @ [LF, LF] @ ''data: [DONE]'' @ [LF, LF])
     \<lparr>cn_received = n, cn_first_byte_seen = True, cn_deadline = 300001, cn_parser = chat_start\<rparr> = (Inr [], wit_end\<lparr>cn_received := n\<rparr>)"
  apply (subst sse_drain.simps)
  apply (simp add: wit_frames [simplified] feed_def wit_steps op_zoom_def op_ok_def wit_data observe_effective_frame_def wit_timeouts)
  apply (subst sse_drain.simps)
  apply (simp add: wit_frames [simplified] feed_def wit_steps op_zoom_def op_ok_def wit_data observe_effective_frame_def wit_timeouts)
  apply (subst sse_drain.simps)
  apply (simp add: take_nothing op_ok_def wit_end_def)
  done

lemma wit_finish: "finish_chat_response wit_codec wit_provider (wit_state\<lparr>ch_done := True\<rparr>) = Inr wit_response"
  by (simp add: finish_chat_response_def finish_def normalized_calls_def wit_state_def chat_start_def wit_provider_def response_of_def
      ensure_nonempty_response_def ensure_def has_output_def is_tool_call_def call_metadata_def wit_response_def)

lemma wit_flags: "\<not> ch_done chat_start" "ch_completed wit_state" "ch_finish wit_state = FinishStop"
  by (simp_all add: chat_start_def wit_state_def)

lemma wit_run: "stream_chat wit_codec wit_provider (\<lambda>_. None) default_timeouts 0 wit_arrivals = (Inr wit_response, wit_end)"
proof -
  have "stream_chat wit_codec wit_provider (\<lambda>_. None) default_timeouts 0 wit_arrivals = (Inr wit_response, wit_end\<lparr>cn_received :=
    Suc (Suc (Suc (Suc (Suc (Suc (Suc (Suc (Suc (Suc (Suc (Suc (Suc (Suc (Suc (Suc (Suc (Suc (Suc (Suc (Suc (Suc (Suc (Suc 0)))))))))))))))))))))))\<rparr>)"
    using wit_drain1 [simplified] wit_drain2 [simplified] wit_finish
    by (simp add: stream_chat_def connect_def observe_bytes_def wit_timeouts framed_def append_provider_stream_chunk_def ensure_def
      MAX_PROVIDER_STREAM_RESPONSE_BYTES_def MAX_PROVIDER_STREAM_EVENT_BYTES_def ensure_provider_stream_frame_size_def
      take_final_sse_event_def op_ok_def op_check_def wit_arrivals_def wit_flags wit_end_def)
  then show ?thesis by (simp add: wit_end_def)
qed
subsection \<open>Chat completions as a whole\<close>

text \<open>
  C13. A response of the chat-completions protocol does not depend on how the network cut it: when nothing
  follows the event that announces the end, what \<open>stream\_chat\<close> returns, and every delta it sent, is
  what the parser makes of the events of the whole body, read at once.
\<close>

lemma chunks_do_not_matter:
  assumes "frames take_sse_event (concat (body as)) fs tail" "ends_at_done fs tail"
    and "stream_chat jc pv k to now as = (Inr r, cn)"
  shows "whole_chat jc pv k fs tail = (Inr r, cn_parser cn)"
proof -
  from assms(3) obtain rest cn1 where run: "stream_loop to (\<lambda>now. sse_drain (\<lambda>f. feed to now (chat_frame jc pv k f) (sse_data f \<noteq> [])))
      ch_done as [] (connect to now chat_start) = (Inr rest, cn1)"
    and last: "last_event (process_chat_event jc pv k) rest (cn_parser cn1) = (Inr (), cn_parser cn)"
    and r: "ch_completed (cn_parser cn)" "ch_finish (cn_parser cn) \<noteq> FinishLength" "finish_chat_response jc pv (cn_parser cn) = Inr r"
    by (rule stream_chat_cases)
  have start: "cn_parser (connect to now chat_start) = chat_start" by (simp add: connect_def)
  have "hs = [] \<and> tail = []" if split: "fs = gs @ hs" and "op_each (chat_frame jc pv k) gs chat_start = (Inr (), p)" "ch_done p" for gs hs p
  proof -
    from done_needs_its_event [OF that(2,3)] obtain f where "f \<in> set gs" "sse_data f = ''[DONE]''" by (auto simp: chat_start_def)
    with assms(2) split show ?thesis by (cases "hs = []") (auto simp: ends_at_done_def butlast_append list_all_iff list_ex_iff)
  qed
  with sse_stream.loop_whole [OF assms(1) _ take_nothing(1) run] start
  have "rest = tail" "op_each (chat_frame jc pv k) fs chat_start = (Inr (), cn_parser cn1)" by auto
  with last r show ?thesis by (simp add: whole_chat_def ensure_def op_check_def)
qed

lemma chunks_do_not_matter_witness:
  "whole_chat wit_codec wit_provider (\<lambda>_. None) [''data: {}'', ''data: [DONE]''] [] = (Inr wit_response, cn_parser wit_end)"
proof (rule chunks_do_not_matter [OF _ _ wit_run])
  show "frames take_sse_event (concat (body wit_arrivals)) [''data: {}'', ''data: [DONE]''] []"
    using frames_take [of take_sse_event, OF wit_frames(2) frames_take [of take_sse_event, OF wit_frames(3)
      frames_stop [of take_sse_event, OF take_nothing(1)]]]
    by (simp add: wit_arrivals_def)
  show "ends_at_done [''data: {}'', ''data: [DONE]''] []" by (simp add: ends_at_done_def wit_data)
qed

text \<open>
  C12. What the user saw is what the Agent got: when a chat completion returns its response, the text,
  the thinking and the calls that were sent while it streamed under an index, put together, are the
  block of the response at that index, and nothing was sent under any other index. (A model that sends
  its thinking between tags in the text is the exception: there the text is split at the end.)
\<close>

lemma streamed_text_is_the_response:
  assumes "stream_chat jc pv k to now as = (Inr r, cn)" "length (mrs_content r) \<le> 2 ^ 32"
    and "\<not> pv_think_tag_fallback pv \<or> find_bytes THINK (ch_content (cn_parser cn)) = None"
  shows "(\<forall>i<length (mrs_content r). renders jc (mrs_content r ! i) (received (sl_sent (cn_parser cn)) (of_nat i)))
    \<and> (\<forall>u c. length (mrs_content r) \<le> unat u \<longrightarrow> received (sl_sent (cn_parser cn)) u c = [])"
  using assms(1)
proof (rule stream_chat_cases)
  fix rest cn1
  assume run: "stream_loop to (\<lambda>now. sse_drain (\<lambda>f. feed to now (chat_frame jc pv k f) (sse_data f \<noteq> [])))
      ch_done as [] (connect to now chat_start) = (Inr rest, cn1)"
    and last: "last_event (process_chat_event jc pv k) rest (cn_parser cn1) = (Inr (), cn_parser cn)"
    and fin: "finish_chat_response jc pv (cn_parser cn) = Inr r"
  from sse_stream.loop_frames [OF take_nothing(1) run] obtain fs where
    "op_each (chat_frame jc pv k) fs chat_start = (Inr (), cn_parser cn1)" by (auto simp: connect_def)
  from each_leaves [OF chat_frame_inv chat_inv_start this] have "chat_inv (cn_parser cn1)" .
  then have "leaves chat_inv (last_event (process_chat_event jc pv k) rest (cn_parser cn1))"
    by (intro last_event_leaves process_chat_event_inv)
  with last have inv: "chat_inv (cn_parser cn)" by (simp add: leaves_def)
  from fin have "finish jc True (pv_think_tag_fallback pv) (cn_parser cn) = Inr (mrs_content r)"
    by (auto simp: finish_chat_response_def response_of_def res_simps)
  from finish_renders [OF inv this assms(3,2)] show ?thesis .
qed

lemma streamed_text_is_the_response_witness:
  "mrs_content wit_response = [ModelText ''ok''] \<and> received (sl_sent (cn_parser wit_end)) 0 ChText = ''ok''"
  using streamed_text_is_the_response [OF wit_run] by (simp add: wit_response_def wit_provider_def renders_def)

end
