(* ===== verification/Model_Request.thy ===== *)
theory Model_Request
  imports Stream_Chat
begin

text \<open>
  The messages of a request in the form each protocol wants (\<open>chat\_messages\<close> in
  llm/adapters/common.rs, \<open>responses\_input\<close> in responses/mod.rs, \<open>encode\_messages\<close> in
  anthropic/mod.rs). The history is the projected one: private data of the protocol is back in it.
\<close>

definition json_text :: "string \<Rightarrow> json" where
  "json_text t = JObject [(''text'', JString t), (''type'', JString ''text'')]"

definition role_message :: "string \<Rightarrow> json \<Rightarrow> json" where
  "role_message role content = JObject [(''content'', content), (''role'', JString role)]"

definition call_id_of :: "model_tool_call \<Rightarrow> string" where
  "call_id_of c = (case mtc_provider_call_id c of None \<Rightarrow> mtc_call_id c | Some i \<Rightarrow> i)"

definition put_field :: "string \<Rightarrow> json \<Rightarrow> json \<Rightarrow> json" where
  "put_field k v obj = JObject (btree_insert k v (json_fields obj))"

subsection \<open>Chat completions and Ollama\<close>

definition block_texts :: "model_block list \<Rightarrow> string" where
  "block_texts bs = concat (map (\<lambda>b. case b of ModelText t \<Rightarrow> t | _ \<Rightarrow> []) bs)"

definition block_thoughts :: "model_block list \<Rightarrow> string" where
  "block_thoughts bs = concat (map (\<lambda>b. case b of ModelReasoning t _ \<Rightarrow> t | _ \<Rightarrow> []) bs)"

definition calls_in :: "model_block list \<Rightarrow> model_tool_call list" where
  "calls_in bs = concat (map (\<lambda>b. case b of ModelToolCall c \<Rightarrow> [c] | _ \<Rightarrow> []) bs)"

definition item_details :: "model_block list \<Rightarrow> json list" where
  "item_details bs = concat (map (\<lambda>b. case b of
     ModelReasoning _ (Some item) \<Rightarrow> json_items (json_get ''reasoning_details'' item) | _ \<Rightarrow> []) bs)"

definition chat_call :: "json_codec \<Rightarrow> bool \<Rightarrow> model_tool_call \<Rightarrow> json" where
  "chat_call jc ollama c =
     (let f = JObject [(''arguments'', if ollama then mtc_arguments c else JString (jc_print jc (mtc_arguments c))),
        (''name'', JString (mtc_name c))]
      in JObject ([(''function'', f)] @ (if ollama then [] else [(''id'', JString (call_id_of c))])
        @ [(''type'', JString ''function'')]))"

definition chat_details :: "provider_capabilities \<Rightarrow> model_block list \<Rightarrow> json option \<Rightarrow> json option" where
  "chat_details pv content native = (case Option.bind native (json_get ''reasoningDetails'') of
     Some d \<Rightarrow> Some d
   | None \<Rightarrow> if pv_split_reasoning pv \<and> item_details content \<noteq> [] then Some (JArray (item_details content)) else None)"

definition put_some :: "string \<Rightarrow> json option \<Rightarrow> json \<Rightarrow> json" where
  "put_some k v obj = (case v of None \<Rightarrow> obj | Some x \<Rightarrow> put_field k x obj)"

definition chat_assistant :: "json_codec \<Rightarrow> bool \<Rightarrow> provider_capabilities \<Rightarrow> model_block list \<Rightarrow> json option \<Rightarrow> json" where
  "chat_assistant jc ollama pv content native =
     (let details = chat_details pv content native;
          thoughts = (if pv_replay_reasoning_content pv \<and> block_thoughts content \<noteq> [] \<and> details = None
            then Some (JString (block_thoughts content)) else None);
          calls = (if calls_in content = [] then None else Some (JArray (map (chat_call jc ollama) (calls_in content))))
      in put_some ''tool_calls'' calls (put_some ''reasoning_content'' thoughts (put_some ''reasoning_details'' details
        (role_message ''assistant'' (if block_texts content = [] then JNull else JString (block_texts content))))))"

definition chat_message :: "json_codec \<Rightarrow> bool \<Rightarrow> provider_capabilities \<Rightarrow> model_message \<Rightarrow> json" where
  "chat_message jc ollama pv m = (case m of
     UserImages content imgs urls \<Rightarrow> role_message ''user'' (JArray
       ((if trim_text content = [] then [] else [json_text content])
        @ map (\<lambda>u. JObject [(''image_url'', JObject [(''url'', JString u)]), (''type'', JString ''image_url'')]) urls))
   | UserText content \<Rightarrow> role_message ''user'' (JString content)
   | AssistantReply content _ native \<Rightarrow> chat_assistant jc ollama pv content native
   | ToolReply call_id provider_id name content \<Rightarrow>
       if ollama then JObject [(''content'', JString content), (''role'', JString ''tool''), (''tool_name'', JString name)]
       else JObject [(''content'', JString content), (''role'', JString ''tool''),
         (''tool_call_id'', JString (case provider_id of None \<Rightarrow> call_id | Some i \<Rightarrow> i))])"

definition chat_messages :: "json_codec \<Rightarrow> bool \<Rightarrow> provider_capabilities \<Rightarrow> model_message list \<Rightarrow> json list" where
  "chat_messages jc ollama pv ms = map (chat_message jc ollama pv) ms"

subsection \<open>Responses\<close>

definition responses_block :: "json_codec \<Rightarrow> model_block \<Rightarrow> json list" where
  "responses_block jc b = (case b of
     ModelText t \<Rightarrow> if t = [] then [] else [role_message ''assistant'' (JString t)]
   | ModelReasoning _ item \<Rightarrow> (case item of None \<Rightarrow> [] | Some v \<Rightarrow> [v])
   | ModelToolCall c \<Rightarrow> [JObject [(''arguments'', JString (jc_print jc (mtc_arguments c))), (''call_id'', JString (call_id_of c)),
       (''name'', JString (mtc_name c)), (''type'', JString ''function_call'')]])"

text \<open>Images never get here: the capability check refuses them (\<open>unreachable!\<close> is \<open>None\<close>).\<close>

definition responses_message :: "json_codec \<Rightarrow> model_message \<Rightarrow> json list option" where
  "responses_message jc m = (case m of
     UserImages _ _ _ \<Rightarrow> None
   | UserText content \<Rightarrow> Some [role_message ''user'' (JString content)]
   | AssistantReply content _ _ \<Rightarrow> Some (concat (map (responses_block jc) content))
   | ToolReply call_id provider_id _ content \<Rightarrow> Some [JObject [
       (''call_id'', JString (case provider_id of None \<Rightarrow> call_id | Some i \<Rightarrow> i)),
       (''output'', JString content), (''type'', JString ''function_call_output'')]])"

fun responses_input :: "json_codec \<Rightarrow> model_message list \<Rightarrow> json list option" where
  "responses_input jc [] = Some []"
| "responses_input jc (m # ms) = Option.bind (responses_message jc m) (\<lambda>xs.
     map_option (\<lambda>ys. xs @ ys) (responses_input jc ms))"

definition response_id_of :: "model_message \<Rightarrow> string option" where
  "response_id_of m = (case m of AssistantReply _ _ (Some native) \<Rightarrow> get_str ''responseId'' native | _ \<Rightarrow> None)"

text \<open>What the provider still has is not sent again: only what follows its last known response.\<close>

fun after_last_response :: "model_message list \<Rightarrow> model_message list \<times> string option" where
  "after_last_response [] = ([], None)"
| "after_last_response (m # ms) = (case after_last_response ms of
     (rest, Some i) \<Rightarrow> (rest, Some i)
   | (_, None) \<Rightarrow> (case response_id_of m of Some i \<Rightarrow> (ms, Some i) | None \<Rightarrow> (m # ms, None)))"

definition responses_input_with_replay :: "json_codec \<Rightarrow> model_message list \<Rightarrow> json list option \<times> string option" where
  "responses_input_with_replay jc ms = (case after_last_response ms of (rest, previous) \<Rightarrow> (responses_input jc rest, previous))"

subsection \<open>Anthropic messages\<close>

definition IMAGE_TYPES :: "string list" where
  "IMAGE_TYPES = [''image/png'', ''image/jpeg'', ''image/gif'', ''image/webp'']"

definition strip_ends :: "string \<Rightarrow> string \<Rightarrow> string \<Rightarrow> string option" where
  "strip_ends prefix suffix s = (if starts_with prefix s
     then let t = drop (length prefix) s; n = length t - length suffix
       in if length suffix \<le> length t \<and> drop n t = suffix then Some (take n t) else None
     else None)"

definition parse_image_data_url :: "string \<Rightarrow> stream_error + json" where
  "parse_image_data_url value =
     try_bind (ok_or (position (\<lambda>c. c = CHR '','') value) (coded_error ErrProtocol ''IMAGE_UNRESOLVED'')) (\<lambda>i.
     try_bind (ok_or (filter_opt (\<lambda>t. t \<in> set IMAGE_TYPES) (strip_ends ''data:'' '';base64'' (take i value)))
       (coded_error ErrProtocol ''IMAGE_UNSUPPORTED_MEDIA_TYPE'')) (\<lambda>media.
     try_bind (ensure (drop (Suc i) value \<noteq> []) (coded_error ErrProtocol ''IMAGE_UNRESOLVED'')) (\<lambda>_.
     Inr (JObject [(''source'', JObject [(''data'', JString (drop (Suc i) value)), (''media_type'', JString media),
       (''type'', JString ''base64'')]), (''type'', JString ''image'')]))))"

definition append_message :: "json list \<Rightarrow> string \<Rightarrow> json list \<Rightarrow> json list" where
  "append_message output role blocks =
     (if output \<noteq> [] \<and> get_str ''role'' (last output) = Some role
      then butlast output @ [put_field ''content'' (JArray (json_items (json_get ''content'' (last output)) @ blocks)) (last output)]
      else output @ [role_message role (JArray blocks)])"

definition redacted_blocks :: "json option \<Rightarrow> string \<Rightarrow> json list" where
  "redacted_blocks meta key = map (\<lambda>d. JObject [(''data'', JString d), (''type'', JString ''redacted_thinking'')])
     (filter_map (get_str ''data'') (json_items (Option.bind meta (json_get key))))"

definition anthropic_block :: "model_block \<Rightarrow> json" where
  "anthropic_block b = (case b of
     ModelText t \<Rightarrow> json_text t
   | ModelReasoning t item \<Rightarrow> (case Option.bind item (\<lambda>v. pointer_str v ''/anthropic/signature'') of
       Some g \<Rightarrow> JObject [(''signature'', JString g), (''thinking'', JString t), (''type'', JString ''thinking'')]
     | None \<Rightarrow> json_text t)
   | ModelToolCall c \<Rightarrow> JObject [(''id'', JString (call_id_of c)), (''input'', mtc_arguments c), (''name'', JString (mtc_name c)),
       (''type'', JString ''tool_use'')])"

definition item_at :: "nat \<Rightarrow> json list \<Rightarrow> json option" where
  "item_at i vs = (if i < length vs then Some (vs ! i) else None)"

definition anthropic_assistant :: "model_block list \<Rightarrow> json option \<Rightarrow> json list" where
  "anthropic_assistant content native =
     (let metas = json_items (Option.bind native (json_get ''blocks''))
      in concat (map (\<lambda>(i, b). redacted_blocks (item_at i metas) ''redactedThinkingBefore'' @ [anthropic_block b]) (enumerate 0 content))
         @ redacted_blocks (Option.bind native (json_get ''response'')) ''redactedThinkingTail'')"

fun image_blocks :: "string list \<Rightarrow> stream_error + json list" where
  "image_blocks [] = Inr []"
| "image_blocks (u # us) = try_bind (parse_image_data_url u) (\<lambda>v. try_bind (image_blocks us) (\<lambda>vs. Inr (v # vs)))"

definition anthropic_message :: "model_message \<Rightarrow> stream_error + string \<times> json list" where
  "anthropic_message m = (case m of
     UserText content \<Rightarrow> Inr (''user'', [json_text content])
   | UserImages content _ urls \<Rightarrow> try_bind (image_blocks urls) (\<lambda>vs.
       Inr (''user'', vs @ (if trim_text content = [] then [] else [json_text content])))
   | ToolReply call_id provider_id _ content \<Rightarrow> Inr (''user'', [JObject [(''content'', JArray [json_text content]),
       (''tool_use_id'', JString (case provider_id of None \<Rightarrow> call_id | Some i \<Rightarrow> i)), (''type'', JString ''tool_result'')]])
   | AssistantReply content _ native \<Rightarrow> Inr (''assistant'', anthropic_assistant content native))"

fun encode_from :: "json list \<Rightarrow> model_message list \<Rightarrow> stream_error + json list" where
  "encode_from output [] = Inr output"
| "encode_from output (m # ms) = try_bind (anthropic_message m) (\<lambda>(role, blocks).
     encode_from (append_message output role blocks) ms)"

definition encode_messages :: "model_message list \<Rightarrow> stream_error + json list" where
  "encode_messages ms = try_bind (encode_from [] ms) (\<lambda>output.
     try_bind (ensure (output \<noteq> [] \<and> get_str ''role'' (last output) = Some ''user'')
       (coded_error ErrProtocol ''HISTORY_INCOMPATIBLE'')) (\<lambda>_. Inr output))"

subsection \<open>The shape of an Anthropic request\<close>

definition role_of :: "json \<Rightarrow> string" where
  "role_of v = text_or_empty (get_str ''role'' v)"

definition blocks_of :: "json \<Rightarrow> json list" where
  "blocks_of v = json_items (json_get ''content'' v)"

fun alternates :: "json list \<Rightarrow> bool" where
  "alternates (a # b # vs) = (role_of a \<noteq> role_of b \<and> alternates (b # vs))"
| "alternates vs = True"

definition shaped :: "json \<Rightarrow> bool" where
  "shaped v \<longleftrightarrow> (\<exists>role blocks. v = role_message role (JArray blocks))"

lemma alternates_append: "alternates (vs @ [w]) \<longleftrightarrow> alternates vs \<and> (vs \<noteq> [] \<longrightarrow> role_of (last vs) \<noteq> role_of w)"
  by (induction vs rule: alternates.induct) auto

lemma role_message_parts [simp]:
  "get_str ''role'' (role_message r c) = Some r" "json_get ''content'' (role_message r c) = Some c"
  "put_field ''content'' v (role_message r c) = role_message r v"
  by (simp_all add: role_message_def get_str_def json_get_def json_as_str_def put_field_def json_fields_def)

lemma append_message_shape:
  assumes "list_all shaped out" "alternates out"
  shows "list_all shaped (append_message out role bs) \<and> alternates (append_message out role bs) \<and> append_message out role bs \<noteq> []
    \<and> concat (map blocks_of (append_message out role bs)) = concat (map blocks_of out) @ bs
    \<and> role_of (last (append_message out role bs)) = role"
proof (cases "out \<noteq> [] \<and> get_str ''role'' (last out) = Some role")
  case True
  define xs where "xs = butlast out"
  with True have out: "out = xs @ [last out]" by simp
  with assms(1) obtain r cs where l: "last out = role_message r (JArray cs)" by (metis True last_in_set list_all_iff shaped_def)
  with True have r: "r = role" by simp
  with l out have xs: "out = xs @ [role_message role (JArray cs)]" by simp
  then have "append_message out role bs = xs @ [role_message role (JArray (cs @ bs))]"
    by (simp add: append_message_def json_items_def)
  with assms xs show ?thesis
    by (auto simp: alternates_append shaped_def role_of_def blocks_of_def json_items_def text_or_empty_def)
next
  case False
  then have a: "append_message out role bs = out @ [role_message role (JArray bs)]" by (auto simp: append_message_def)
  have "role_of (last out) \<noteq> role" if "out \<noteq> []"
  proof -
    from that assms(1) obtain r cs where "last out = role_message r (JArray cs)" by (metis last_in_set list_all_iff shaped_def)
    with False that show ?thesis by (simp add: role_of_def text_or_empty_def)
  qed
  with a assms show ?thesis
    by (auto simp: alternates_append shaped_def role_of_def blocks_of_def json_items_def text_or_empty_def)
qed

text \<open>What the provider reads: a block says one thing, and who says it is the role of its message.\<close>

datatype (plugins only: code size) said =
    SaidText string
  | SaidThinking string string
  | SaidRedacted string
  | SaidCall string string json
  | SaidResult string string
  | SaidImage string

definition read_result :: "json \<Rightarrow> string option" where
  "read_result v = (case json_get ''content'' v of Some (JArray [t]) \<Rightarrow> get_str ''text'' t | _ \<Rightarrow> None)"

definition read_image :: "json \<Rightarrow> string option" where
  "read_image v = Option.bind (json_get ''source'' v) (\<lambda>s. Option.bind (get_str ''media_type'' s) (\<lambda>media.
     Option.bind (get_str ''data'' s) (\<lambda>d.
     if get_str ''type'' s = Some ''base64'' then Some (''data:'' @ media @ '';base64,'' @ d) else None)))"

definition read_block :: "json \<Rightarrow> said option" where
  "read_block v = Option.bind (get_str ''type'' v) (\<lambda>kind.
     if kind = ''text'' then map_option SaidText (get_str ''text'' v)
     else if kind = ''thinking'' then Option.bind (get_str ''thinking'' v) (\<lambda>t. map_option (SaidThinking t) (get_str ''signature'' v))
     else if kind = ''redacted_thinking'' then map_option SaidRedacted (get_str ''data'' v)
     else if kind = ''tool_use'' then Option.bind (get_str ''id'' v) (\<lambda>i. Option.bind (get_str ''name'' v) (\<lambda>n.
       map_option (SaidCall i n) (json_get ''input'' v)))
     else if kind = ''tool_result'' then Option.bind (get_str ''tool_use_id'' v) (\<lambda>i. map_option (SaidResult i) (read_result v))
     else if kind = ''image'' then map_option SaidImage (read_image v)
     else None)"

definition read_message :: "json \<Rightarrow> (string \<times> said option) list" where
  "read_message v = map (\<lambda>b. (role_of v, read_block b)) (blocks_of v)"

text \<open>What the history says, in the same terms.\<close>

definition block_says :: "model_block \<Rightarrow> said" where
  "block_says b = (case b of
     ModelText t \<Rightarrow> SaidText t
   | ModelReasoning t item \<Rightarrow> (case Option.bind item (\<lambda>v. pointer_str v ''/anthropic/signature'') of
       Some g \<Rightarrow> SaidThinking t g | None \<Rightarrow> SaidText t)
   | ModelToolCall c \<Rightarrow> SaidCall (case mtc_provider_call_id c of Some i \<Rightarrow> i | None \<Rightarrow> mtc_call_id c) (mtc_name c) (mtc_arguments c))"

definition redacted_says :: "json option \<Rightarrow> said list" where
  "redacted_says v = (case v of Some (JArray ds) \<Rightarrow> map SaidRedacted (filter_map (get_str ''data'') ds) | _ \<Rightarrow> [])"

fun reply_says :: "json list \<Rightarrow> model_block list \<Rightarrow> said list" where
  "reply_says metas [] = []"
| "reply_says [] (b # bs) = block_says b # reply_says [] bs"
| "reply_says (m # ms) (b # bs) = redacted_says (json_get ''redactedThinkingBefore'' m) @ block_says b # reply_says ms bs"

definition native_says :: "model_block list \<Rightarrow> json option \<Rightarrow> said list" where
  "native_says content native = (case native of
     None \<Rightarrow> map block_says content
   | Some v \<Rightarrow> reply_says (case json_get ''blocks'' v of Some (JArray ms) \<Rightarrow> ms | _ \<Rightarrow> []) content
       @ redacted_says (Option.bind (json_get ''response'' v) (json_get ''redactedThinkingTail'')))"

definition message_says :: "model_message \<Rightarrow> (string \<times> said) list" where
  "message_says m = (case m of
     UserText content \<Rightarrow> [(''user'', SaidText content)]
   | UserImages content _ urls \<Rightarrow> map (\<lambda>u. (''user'', SaidImage u)) urls
       @ (if trim_text content = [] then [] else [(''user'', SaidText content)])
   | ToolReply call_id provider_id _ content \<Rightarrow>
       [(''user'', SaidResult (case provider_id of Some i \<Rightarrow> i | None \<Rightarrow> call_id) content)]
   | AssistantReply content _ native \<Rightarrow> map (Pair ''assistant'') (native_says content native))"

lemmas read_views = read_block_def read_result_def read_image_def get_str_def json_get_def json_as_str_def

lemma json_items_cases: "json_items v = (case v of Some (JArray ds) \<Rightarrow> ds | _ \<Rightarrow> [])"
  by (auto simp: json_items_def split: option.splits json.splits)

lemma redacted_blocks_read:
  "map read_block (redacted_blocks meta key) = map Some (redacted_says (Option.bind meta (json_get key)))"
  by (auto simp: redacted_blocks_def json_items_cases redacted_says_def read_views o_def split: option.splits json.splits)

lemma anthropic_block_read: "read_block (anthropic_block b) = Some (block_says b)"
  by (cases b) (auto simp: anthropic_block_def block_says_def json_text_def call_id_of_def read_views split: option.split)

lemma reply_says_nil: "reply_says [] bs = map block_says bs"
  by (induction bs) simp_all

lemma reply_read:
  "map read_block (concat (map (\<lambda>(i, b). redacted_blocks (item_at i metas) ''redactedThinkingBefore'' @ [anthropic_block b]) (enumerate n content)))
    = map Some (reply_says (drop n metas) content)"
proof (induction content arbitrary: n)
  case (Cons b bs)
  show ?case
  proof (cases "n < length metas")
    case True
    then have "drop n metas = metas ! n # drop (Suc n) metas" by (rule Cons_nth_drop_Suc [symmetric])
    with True Cons show ?thesis by (simp add: redacted_blocks_read anthropic_block_read item_at_def)
  next
    case False
    with Cons [of "Suc n"] show ?thesis by (simp add: redacted_blocks_read anthropic_block_read item_at_def redacted_says_def)
  qed
qed simp

lemma anthropic_assistant_read: "map read_block (anthropic_assistant content native) = map Some (native_says content native)"
proof (cases native)
  case None
  then show ?thesis
    using reply_read [of "[]" 0 content]
    by (simp add: anthropic_assistant_def native_says_def redacted_blocks_read redacted_says_def json_items_cases reply_says_nil)
next
  case (Some v)
  then show ?thesis
    using reply_read [of "json_items (json_get ''blocks'' v)" 0 content]
    by (simp add: anthropic_assistant_def native_says_def redacted_blocks_read json_items_cases)
qed

lemma strip_ends_split:
  assumes "strip_ends a b s = Some t" shows "s = a @ t @ b"
proof -
  define u n where "u = drop (length a) s" and "n = length u - length b"
  with assms have "take (length a) s = a" "t = take n u" "drop n u = b"
    by (auto simp: strip_ends_def starts_with_def Let_def split: if_splits)
  then show ?thesis by (metis append_take_drop_id u_def)
qed

lemma parse_image_read: "parse_image_data_url u = Inr v \<Longrightarrow> read_block v = Some (SaidImage u)"
proof -
  assume "parse_image_data_url u = Inr v"
  then obtain i media where i: "position (\<lambda>c. c = CHR '','') u = Some i" "strip_ends ''data:'' '';base64'' (take i u) = Some media"
    and v: "v = JObject [(''source'', JObject [(''data'', JString (drop (Suc i) u)), (''media_type'', JString media),
       (''type'', JString ''base64'')]), (''type'', JString ''image'')]"
    by (auto simp: parse_image_data_url_def res_simps filter_opt_def bind_eq_Some_conv split: if_splits)
  from position_SomeD [OF i(1)] id_take_nth_drop [of i u] have "u = take i u @ CHR '','' # drop (Suc i) u" by metis
  with strip_ends_split [OF i(2)] have "u = ''data:'' @ media @ '';base64,'' @ drop (Suc i) u" by simp
  with v show ?thesis by (simp add: read_views)
qed

lemma image_blocks_read: "image_blocks us = Inr vs \<Longrightarrow> map read_block vs = map (\<lambda>u. Some (SaidImage u)) us"
  by (induction us arbitrary: vs) (auto simp: res_simps parse_image_read)

lemma json_text_read: "read_block (json_text t) = Some (SaidText t)"
  by (simp add: json_text_def read_views)

lemma anthropic_message_read:
  assumes "anthropic_message m = Inr (role, bs)"
  shows "map (\<lambda>b. (role, read_block b)) bs = map (apsnd Some) (message_says m)"
proof -
  have "map (\<lambda>b. (r, read_block b)) bs = map (apsnd Some) (map (Pair r) xs)" if "map read_block bs = map Some xs" for r bs xs
    using arg_cong [OF that, of "map (Pair r)"] by (simp add: o_def)
  note pairs = this
  show ?thesis
  proof (cases m)
    case (UserImages content imgs urls)
    with assms obtain vs where "image_blocks urls = Inr vs" and bs: "bs = vs @ (if trim_text content = [] then [] else [json_text content])" "role = ''user''"
      by (auto simp: anthropic_message_def res_simps)
    with pairs [OF image_blocks_read [of urls vs, folded map_map [unfolded o_def]]] have "map (\<lambda>b. (role, read_block b)) vs = map (\<lambda>u. (''user'', Some (SaidImage u))) urls"
      using arg_cong [OF image_blocks_read [of urls vs], of "map (Pair ''user'')"] by (simp add: o_def)
    with UserImages bs show ?thesis by (simp add: message_says_def json_text_read)
  next
    case (AssistantReply content replay native)
    with assms pairs [OF anthropic_assistant_read [of content native], of role] show ?thesis
      by (simp add: anthropic_message_def message_says_def)
  qed (use assms in \<open>auto simp: anthropic_message_def message_says_def json_text_read read_views json_text_def split: option.split\<close>)
qed

lemma role_of_message [simp]: "role_of (role_message r c) = r" "blocks_of (role_message r (JArray bs)) = bs"
  by (simp_all add: role_of_def blocks_of_def text_or_empty_def json_items_def)

lemma append_message_read:
  assumes "list_all shaped out"
  shows "concat (map read_message (append_message out role bs)) = concat (map read_message out) @ map (\<lambda>b. (role, read_block b)) bs"
proof (cases "out \<noteq> [] \<and> get_str ''role'' (last out) = Some role")
  case True
  define xs where "xs = butlast out"
  with True have out: "out = xs @ [last out]" by simp
  with assms obtain r cs where l: "last out = role_message r (JArray cs)" by (metis True last_in_set list_all_iff shaped_def)
  with True have "r = role" by simp
  with l out have "out = xs @ [role_message role (JArray cs)]" by simp
  then show ?thesis by (simp add: append_message_def json_items_def read_message_def)
qed (auto simp: append_message_def read_message_def)

lemma encode_from_read:
  "encode_from out ms = Inr out' \<Longrightarrow> list_all shaped out \<Longrightarrow> alternates out \<Longrightarrow>
   alternates out' \<and> concat (map read_message out') = concat (map read_message out) @ map (apsnd Some) (concat (map message_says ms))"
proof (induction out ms rule: encode_from.induct)
  case (2 out m ms)
  from 2(2) obtain role bs where m: "anthropic_message m = Inr (role, bs)" "encode_from (append_message out role bs) ms = Inr out'"
    by (auto simp: res_simps)
  from 2(1) [OF m(2)] append_message_shape [OF 2(3,4), of role bs] append_message_read [OF 2(3), of role bs]
    anthropic_message_read [OF m(1)] show ?case by simp
qed simp

text \<open>
  C17. An Anthropic request has the form the protocol demands and says what the history says: the roles
  alternate, the last message is the user's, and read block by block, each under the role of its message,
  it gives the texts, images, results, thinking with signatures, redacted thinking and calls of the
  history, by the same speaker, in the same order, none lost and none repeated.
\<close>

lemma encoded_history_is_well_formed:
  assumes "encode_messages ms = Inr out"
  shows "alternates out \<and> out \<noteq> [] \<and> role_of (last out) = ''user''
    \<and> concat (map read_message out) = map (apsnd Some) (concat (map message_says ms))"
  using assms encode_from_read [of "[]" ms out]
  by (auto simp: encode_messages_def res_simps role_of_def text_or_empty_def)

lemma encoded_history_is_well_formed_witness:
  "alternates [role_message ''user'' (JArray [json_text ''a'']), role_message ''assistant'' (JArray [json_text ''b'']),
     role_message ''user'' (JArray [json_text ''c'', json_text ''d''])]"
proof -
  have "encode_messages [UserText ''a'', AssistantReply [ModelText ''b''] None None, UserText ''c'', UserText ''d'']
    = Inr [role_message ''user'' (JArray [json_text ''a'']), role_message ''assistant'' (JArray [json_text ''b'']),
        role_message ''user'' (JArray [json_text ''c'', json_text ''d''])]"
    by (simp add: encode_messages_def anthropic_message_def append_message_def json_items_def ensure_def anthropic_assistant_def
      redacted_blocks_def item_at_def anthropic_block_def)
  from encoded_history_is_well_formed [OF this] show ?thesis by blast
qed

end
