(* ===== verification/Model_Call.thy ===== *)
theory Model_Call
  imports Stream_Chat
begin

text \<open>
  What a prepared call makes of the response of its adapter (\<open>PreparedCall::stream\<close> and
  \<open>canonicalize\_tool\_call\_ids\<close> in llm/runtime.rs, \<open>committed\_model\_content\<close> in llm/replay.rs): blank
  blocks are dropped with their metadata, the calls get ids that are new in the history, provider
  items are taken out, and the envelope is bound to the content as the event store will redact it.
  SHA-256 and the regular expressions of the redaction are parameters. The JSON form of a block is
  the one serde derives for it; \<open>Model\_Call\<close> has no wait and no state of its own.
\<close>

record call_codec =
  cc_replay :: replay_digests
  cc_redact :: "string \<Rightarrow> string"
  cc_sha256 :: "string \<Rightarrow> string"

datatype (plugins only: code size) call_error =
    CallReplayFailed replay_error
  | ReplayContentInvalid

record prepared_response =
  prs_content :: "model_block list"
  prs_finish_reason :: finish_reason
  prs_usage :: token_usage
  prs_envelope :: replay_envelope

subsection \<open>Call identities\<close>

definition candidate_id :: "string \<Rightarrow> nat \<Rightarrow> string" where
  "candidate_id d n = ''call-'' @ d @ ''-'' @ decimal n"

text \<open>The inner \<open>loop\<close>: the first ordinal from \<open>n\<close> on whose candidate is not assigned yet.\<close>

partial_function (option) free_ordinal :: "string \<Rightarrow> string set \<Rightarrow> nat \<Rightarrow> nat option" where
  "free_ordinal d assigned n =
     (if candidate_id d n \<in> assigned then free_ordinal d assigned (n + 1) else Some n)"

declare free_ordinal.simps [code]

fun canonical_blocks :: "string \<Rightarrow> string set \<Rightarrow> nat \<Rightarrow> model_block list \<Rightarrow> model_block list option" where
  "canonical_blocks d assigned ordinal [] = Some []"
| "canonical_blocks d assigned ordinal (ModelToolCall call # bs) =
     (if mtc_call_id call \<notin> assigned
      then map_option ((#) (ModelToolCall call))
        (canonical_blocks d (insert (mtc_call_id call) assigned) (ordinal + 1) bs)
      else Option.bind (free_ordinal d assigned (ordinal + 1)) (\<lambda>n.
        map_option ((#) (ModelToolCall (call\<lparr>mtc_call_id := candidate_id d n\<rparr>)))
          (canonical_blocks d (insert (candidate_id d n) assigned) n bs)))"
| "canonical_blocks d assigned ordinal (ModelText t # bs) =
     map_option ((#) (ModelText t)) (canonical_blocks d assigned ordinal bs)"
| "canonical_blocks d assigned ordinal (ModelReasoning t item # bs) =
     map_option ((#) (ModelReasoning t item)) (canonical_blocks d assigned ordinal bs)"

definition canonicalize_tool_call_ids ::
  "(string \<Rightarrow> string) \<Rightarrow> model_block list \<Rightarrow> model_message list \<Rightarrow> string \<Rightarrow> model_block list option" where
  "canonicalize_tool_call_ids sha content history request_id =
     canonical_blocks (sha request_id) (set (history_calls history)) 0 content"

subsection \<open>The content that is committed\<close>

text \<open>serde's form of a block: internally tagged, camel case, absent options left out, keys sorted.\<close>

definition call_json :: "model_tool_call \<Rightarrow> json" where
  "call_json call = JObject ([(''arguments'', mtc_arguments call), (''callId'', JString (mtc_call_id call)),
       (''name'', JString (mtc_name call))]
     @ (case mtc_provider_call_id call of None \<Rightarrow> [] | Some p \<Rightarrow> [(''providerCallId'', JString p)]))"

definition block_json :: "model_block \<Rightarrow> json" where
  "block_json b = (case b of
     ModelText t \<Rightarrow> JObject [(''text'', JString t), (''type'', JString ''text'')]
   | ModelReasoning t item \<Rightarrow> JObject ((case item of None \<Rightarrow> [] | Some v \<Rightarrow> [(''providerItem'', v)])
       @ [(''text'', JString t), (''type'', JString ''reasoning'')])
   | ModelToolCall call \<Rightarrow> JObject [(''call'', call_json call), (''type'', JString ''toolCall'')])"

definition has_only :: "json \<Rightarrow> string list \<Rightarrow> bool" where
  "has_only v keys = (case v of JObject kvs \<Rightarrow> list_all (\<lambda>(k, _). k \<in> set keys) kvs | _ \<Rightarrow> False)"

text \<open>An optional field may be absent or null; \<open>None\<close> is a decoding error.\<close>

definition optional_text :: "string \<Rightarrow> json \<Rightarrow> string option option" where
  "optional_text k v = (case json_get k v of
     None \<Rightarrow> Some None | Some JNull \<Rightarrow> Some None | Some (JString s) \<Rightarrow> Some (Some s) | _ \<Rightarrow> None)"

definition optional_value :: "string \<Rightarrow> json \<Rightarrow> json option" where
  "optional_value k v = (case json_get k v of Some JNull \<Rightarrow> None | x \<Rightarrow> x)"

definition text_field :: "string \<Rightarrow> json \<Rightarrow> string option" where
  "text_field k v = Option.bind (json_get k v) json_as_str"

definition call_of_json :: "json \<Rightarrow> model_tool_call option" where
  "call_of_json v =
     (if \<not> has_only v [''callId'', ''providerCallId'', ''name'', ''arguments''] then None
      else Option.bind (text_field ''callId'' v) (\<lambda>i.
        Option.bind (optional_text ''providerCallId'' v) (\<lambda>p.
        Option.bind (text_field ''name'' v) (\<lambda>n.
        Option.bind (json_get ''arguments'' v) (\<lambda>a.
        Some \<lparr>mtc_call_id = i, mtc_provider_call_id = p, mtc_name = n, mtc_arguments = a\<rparr>)))))"

definition block_of_json :: "json \<Rightarrow> model_block option" where
  "block_of_json v = Option.bind (text_field ''type'' v) (\<lambda>kind.
     if kind = ''text'' then
       if has_only v [''type'', ''text''] then map_option ModelText (text_field ''text'' v) else None
     else if kind = ''reasoning'' then
       if has_only v [''type'', ''text'', ''providerItem'']
       then map_option (\<lambda>t. ModelReasoning t (optional_value ''providerItem'' v)) (text_field ''text'' v) else None
     else if kind = ''toolCall'' then
       if has_only v [''type'', ''call'']
       then map_option ModelToolCall (Option.bind (json_get ''call'' v) call_of_json) else None
     else None)"

definition committed_model_content :: "(string \<Rightarrow> string) \<Rightarrow> model_block list \<Rightarrow> model_block list option" where
  "committed_model_content redact content =
     (case redact_json_value redact (JArray (map block_json content)) of
        JArray vs \<Rightarrow> those (map block_of_json vs) | _ \<Rightarrow> None)"

subsection \<open>The response of a call\<close>

definition without_item :: "model_block \<Rightarrow> model_block" where
  "without_item b = (case b of ModelReasoning t _ \<Rightarrow> ModelReasoning t None | _ \<Rightarrow> b)"

text \<open>
  \<open>PreparedCall::stream\<close> once the adapter has returned. A response always has its capture here.
  \<open>None\<close> would be a loop over candidate ids without an end.
\<close>

definition settle_response ::
  "call_codec \<Rightarrow> replay_codec \<Rightarrow> string \<Rightarrow> request_snapshot \<Rightarrow> model_message list \<Rightarrow> model_response
    \<Rightarrow> (call_error + prepared_response) option" where
  "settle_response cx codec request_id snap history r =
     (let capture = mrs_replay r in
      if length (cap_blocks capture) \<noteq> length (mrs_content r) then Some (Inl (CallReplayFailed BlockMismatch))
      else let kept = filter (\<lambda>(b, _). model_block_has_output b) (zip (mrs_content r) (cap_blocks capture));
               capture = capture\<lparr>cap_blocks := map snd kept\<rparr>
        in map_option (\<lambda>content.
             let content = map without_item content in
             try_bind (ok_or (committed_model_content (cc_redact cx) content) ReplayContentInvalid) (\<lambda>committed.
             case prepare_envelope (cc_replay cx) codec request_id snap committed capture of
               Inl e \<Rightarrow> Inl (CallReplayFailed e)
             | Inr env \<Rightarrow> Inr \<lparr>prs_content = content, prs_finish_reason = mrs_finish_reason r,
                 prs_usage = mrs_usage r, prs_envelope = env\<rparr>))
           (canonicalize_tool_call_ids (cc_sha256 cx) (map fst kept) history request_id))"

subsection \<open>The ids of the calls\<close>

text \<open>Different ordinals give different candidates, so the search for a free one ends.\<close>

definition decimal_value :: "string \<Rightarrow> nat" where
  "decimal_value s = foldl (\<lambda>a c. 10 * a + (byte_of c - 48)) 0 s"

lemma decimal_value_decimal: "decimal_value (decimal n) = n"
proof (induction n rule: decimal.induct)
  case (1 n)
  have digit: "byte_of (digit k) - 48 = k" if "k < 10" for k
    using that by (simp add: digit_def byte_of_def)
  show ?case
  proof (cases "n < 10")
    case True
    then show ?thesis using digit by (simp add: decimal.simps [of n] decimal_value_def)
  next
    case False
    then show ?thesis using 1 digit [of "n mod 10"]
      by (simp add: decimal.simps [of n] decimal_value_def)
  qed
qed

lemma candidate_inj: "candidate_id d m = candidate_id d n \<longleftrightarrow> m = n"
proof
  assume "candidate_id d m = candidate_id d n"
  then have "decimal m = decimal n" by (simp add: candidate_id_def)
  then show "m = n" using decimal_value_decimal by metis
qed simp

lemma free_ordinal_returns:
  assumes "finite assigned"
  shows "\<exists>k\<ge>n. free_ordinal d assigned n = Some k \<and> candidate_id d k \<notin> assigned"
  using assms
proof (induction "card {k. n \<le> k \<and> candidate_id d k \<in> assigned}" arbitrary: n rule: less_induct)
  case less
  show ?case
  proof (cases "candidate_id d n \<in> assigned")
    case False
    then show ?thesis by (subst free_ordinal.simps) auto
  next
    case True
    have "inj (candidate_id d)" by (rule injI) (simp add: candidate_inj)
    from finite_vimageI [OF less.prems this] have "finite {k. n \<le> k \<and> candidate_id d k \<in> assigned}"
      by (rule rev_finite_subset) auto
    moreover have "{k. Suc n \<le> k \<and> candidate_id d k \<in> assigned} \<subset> {k. n \<le> k \<and> candidate_id d k \<in> assigned}"
    proof (rule psubsetI)
      have "n \<in> {k. n \<le> k \<and> candidate_id d k \<in> assigned}" using True by simp
      then show "{k. Suc n \<le> k \<and> candidate_id d k \<in> assigned} \<noteq> {k. n \<le> k \<and> candidate_id d k \<in> assigned}"
        by (metis (no_types, lifting) mem_Collect_eq not_less_eq_eq order_refl)
    qed auto
    ultimately have "card {k. Suc n \<le> k \<and> candidate_id d k \<in> assigned} < card {k. n \<le> k \<and> candidate_id d k \<in> assigned}"
      by (rule psubset_card_mono)
    from less.hyps [OF this less.prems] obtain k where "Suc n \<le> k" "free_ordinal d assigned (Suc n) = Some k"
        "candidate_id d k \<notin> assigned" by blast
    then show ?thesis using True by (intro exI [of _ k]) (subst free_ordinal.simps, simp)
  qed
qed

text \<open>A block but for the id of its call.\<close>

definition without_id :: "model_block \<Rightarrow> model_block" where
  "without_id b = (case b of ModelToolCall call \<Rightarrow> ModelToolCall (call\<lparr>mtc_call_id := []\<rparr>) | _ \<Rightarrow> b)"

lemma without_id_call [simp]: "without_id (ModelToolCall call) = ModelToolCall (call\<lparr>mtc_call_id := []\<rparr>)"
  by (simp add: without_id_def)

lemma canonical_blocks_returns:
  "finite assigned \<Longrightarrow> \<exists>bs'. canonical_blocks d assigned n bs = Some bs'
    \<and> map without_id bs' = map without_id bs
    \<and> distinct (block_calls bs') \<and> set (block_calls bs') \<inter> assigned = {}
    \<and> (\<forall>i call. i < length bs \<longrightarrow> bs ! i = ModelToolCall call \<longrightarrow> mtc_call_id call \<notin> assigned \<longrightarrow>
        mtc_call_id call \<notin> set (block_calls (take i bs')) \<longrightarrow> bs' ! i = bs ! i)"
proof (induction d assigned n bs rule: canonical_blocks.induct)
  case (2 d assigned ordinal call bs)
  show ?case
  proof (cases "mtc_call_id call \<in> assigned")
    case False
    from 2(1) [OF False] 2(3) obtain bs' where bs': "canonical_blocks d (insert (mtc_call_id call) assigned) (ordinal + 1) bs = Some bs'"
        "map without_id bs' = map without_id bs" "distinct (block_calls bs')"
        "set (block_calls bs') \<inter> insert (mtc_call_id call) assigned = {}"
        "\<forall>i c. i < length bs \<longrightarrow> bs ! i = ModelToolCall c \<longrightarrow> mtc_call_id c \<notin> insert (mtc_call_id call) assigned \<longrightarrow>
          mtc_call_id c \<notin> set (block_calls (take i bs')) \<longrightarrow> bs' ! i = bs ! i"
      by auto
    then show ?thesis using False
      by (intro exI [of _ "ModelToolCall call # bs'"]) (auto simp: nth_Cons' less_Suc_eq_0_disj take_Cons')
  next
    case True
    obtain k where k: "free_ordinal d assigned (ordinal + 1) = Some k" "candidate_id d k \<notin> assigned"
      using free_ordinal_returns [OF 2(3)] by blast
    from 2(2) [of k] 2(3) True k(1) obtain bs' where bs': "canonical_blocks d (insert (candidate_id d k) assigned) k bs = Some bs'"
        "map without_id bs' = map without_id bs" "distinct (block_calls bs')"
        "set (block_calls bs') \<inter> insert (candidate_id d k) assigned = {}"
        "\<forall>i c. i < length bs \<longrightarrow> bs ! i = ModelToolCall c \<longrightarrow> mtc_call_id c \<notin> insert (candidate_id d k) assigned \<longrightarrow>
          mtc_call_id c \<notin> set (block_calls (take i bs')) \<longrightarrow> bs' ! i = bs ! i"
      by auto
    let ?c = "ModelToolCall (call\<lparr>mtc_call_id := candidate_id d k\<rparr>)"
    have "canonical_blocks d assigned ordinal (ModelToolCall call # bs) = Some (?c # bs')"
      using True k bs'(1) by simp
    then show ?thesis using True k(2) bs'(2-5)
      by (intro exI [of _ "?c # bs'"]) (auto simp: nth_Cons' less_Suc_eq_0_disj take_Cons')
  qed
qed (auto simp: nth_Cons' less_Suc_eq_0_disj take_Cons')

lemma call_ids_fresh:
  "\<exists>content'. canonicalize_tool_call_ids sha content history request_id = Some content'
    \<and> map without_id content' = map without_id content"
  unfolding canonicalize_tool_call_ids_def using canonical_blocks_returns [of "set (history_calls history)"] by blast

text \<open>
  C31. The ids of a response's calls are new. Whatever ids the adapter gave them and whatever the
  history holds, the search for ids ends; afterwards no two calls of the response have the same id,
  none has the id of a call of the history, nothing else of the response has changed, and a call
  keeps an id that neither the history nor an earlier call of the response has.
\<close>

theorem call_ids_are_fresh:
  "\<exists>content'. canonicalize_tool_call_ids sha content history request_id = Some content'
    \<and> map without_id content' = map without_id content
    \<and> distinct (block_calls content') \<and> set (block_calls content') \<inter> set (history_calls history) = {}
    \<and> (\<forall>i call. i < length content \<longrightarrow> content ! i = ModelToolCall call \<longrightarrow>
        mtc_call_id call \<notin> set (history_calls history) \<longrightarrow>
        mtc_call_id call \<notin> set (block_calls (take i content')) \<longrightarrow> content' ! i = content ! i)"
  unfolding canonicalize_tool_call_ids_def by (rule canonical_blocks_returns) simp

definition sample_calls_of :: "string list \<Rightarrow> model_block list" where
  "sample_calls_of ids = map (\<lambda>i. ModelToolCall (sample_call\<lparr>mtc_call_id := i\<rparr>)) ids"

theorem call_ids_are_fresh_witness:
  "\<exists>content'. canonicalize_tool_call_ids (\<lambda>_. ''d'') (sample_calls_of [''call-1'', ''call-2'', ''call-2''])
      [AssistantReply (sample_calls_of [''call-1'']) None None] ''q'' = Some content'
    \<and> content' ! 1 = sample_calls_of [''call-1'', ''call-2'', ''call-2''] ! 1
    \<and> distinct (block_calls content') \<and> ''call-1'' \<notin> set (block_calls content')"
proof -
  let ?ids = "canonicalize_tool_call_ids (\<lambda>_. ''d'') (sample_calls_of [''call-1'', ''call-2'', ''call-2''])
      [AssistantReply (sample_calls_of [''call-1'']) None None] ''q''"
  have candidates: "candidate_id ''d'' (Suc 0) = ''call-d-1''" "candidate_id ''d'' (Suc (Suc (Suc 0))) = ''call-d-3''"
    by code_simp+
  then have "free_ordinal ''d'' {''call-1''} (Suc 0) = Some (Suc 0)"
      "free_ordinal ''d'' {''call-2'', ''call-d-1'', ''call-1''} (Suc (Suc (Suc 0))) = Some (Suc (Suc (Suc 0)))"
    by (subst free_ordinal.simps; simp)+
  with candidates have ids: "?ids = Some (sample_calls_of [''call-d-1'', ''call-2'', ''call-d-3''])"
    by (simp add: canonicalize_tool_call_ids_def sample_calls_of_def message_calls_def)
  from call_ids_are_fresh [of "\<lambda>_. ''d''" "sample_calls_of [''call-1'', ''call-2'', ''call-2'']"
      "[AssistantReply (sample_calls_of [''call-1'']) None None]" "''q''"] ids
  show ?thesis by (auto simp: sample_calls_of_def message_calls_def)
qed

subsection \<open>What is committed\<close>

text \<open>
  A block as it is stored: every text of it went through the redaction, a provider item is gone.
  The redaction has to leave the tags of the three kinds of block alone.
\<close>

definition redacted_block :: "(string \<Rightarrow> string) \<Rightarrow> model_block \<Rightarrow> model_block" where
  "redacted_block redact b = (case b of
     ModelText t \<Rightarrow> ModelText (redact t)
   | ModelReasoning t _ \<Rightarrow> ModelReasoning (redact t) None
   | ModelToolCall call \<Rightarrow> ModelToolCall \<lparr>mtc_call_id = redact (mtc_call_id call),
       mtc_provider_call_id = map_option redact (mtc_provider_call_id call), mtc_name = redact (mtc_name call),
       mtc_arguments = redact_json_value redact (mtc_arguments call)\<rparr>)"

definition keeps_tags :: "(string \<Rightarrow> string) \<Rightarrow> bool" where
  "keeps_tags redact \<longleftrightarrow> redact ''text'' = ''text'' \<and> redact ''reasoning'' = ''reasoning''
     \<and> redact ''toolCall'' = ''toolCall''"

lemma plain_keys:
  "\<not> is_sensitive_key ''text''" "\<not> is_sensitive_key ''type''" "\<not> is_sensitive_key ''call''"
  "\<not> is_sensitive_key ''arguments''" "\<not> is_sensitive_key ''callId''" "\<not> is_sensitive_key ''name''"
  "\<not> is_sensitive_key ''providerCallId''"
  by (simp_all add: is_sensitive_key_def normalized_key_def to_ascii_lower_def alphanumeric_defs)

lemmas block_codec_defs = block_json_def call_json_def block_of_json_def call_of_json_def text_field_def
  optional_text_def optional_value_def has_only_def json_get_def json_as_str_def redacted_block_def plain_keys

lemma block_committed:
  assumes "keeps_tags redact" "without_item b = b"
  shows "block_of_json (redact_json_value redact (block_json b)) = Some (redacted_block redact b)"
proof (cases b)
  case (ModelReasoning t item)
  then have "item = None" using assms(2) by (simp add: without_item_def)
  with ModelReasoning assms(1) show ?thesis by (simp add: block_codec_defs keeps_tags_def)
next
  case (ModelToolCall call)
  then show ?thesis using assms(1)
    by (cases "mtc_provider_call_id call") (simp_all add: block_codec_defs keeps_tags_def)
qed (use assms(1) in \<open>simp add: block_codec_defs keeps_tags_def\<close>)

lemma content_committed:
  assumes "keeps_tags redact" "\<forall>b\<in>set content. without_item b = b"
  shows "committed_model_content redact content = Some (map (redacted_block redact) content)"
proof -
  have list: "redact_json_list redact vs = map (redact_json_value redact) vs" for vs
    by (induction vs) simp_all
  have "those (map (\<lambda>b. block_of_json (redact_json_value redact (block_json b))) content)
      = Some (map (redacted_block redact) content)"
    using assms(2) by (induction content) (simp_all add: block_committed [OF assms(1)])
  then show ?thesis by (simp add: committed_model_content_def list comp_def)
qed

text \<open>Blocks with output and their metadata, as they are kept.\<close>

definition kept_pairs :: "model_response \<Rightarrow> (model_block \<times> json) list" where
  "kept_pairs r = filter (\<lambda>(b, _). model_block_has_output b) (zip (mrs_content r) (cap_blocks (mrs_replay r)))"

lemma settle_responseD:
  assumes "settle_response cx codec rid snap history r = Some (Inr p)" and "keeps_tags (cc_redact cx)"
  shows "length (cap_blocks (mrs_replay r)) = length (mrs_content r)
    \<and> prepare_envelope (cc_replay cx) codec rid snap (map (redacted_block (cc_redact cx)) (prs_content p))
        ((mrs_replay r)\<lparr>cap_blocks := map snd (kept_pairs r)\<rparr>) = Inr (prs_envelope p)
    \<and> committed_model_content (cc_redact cx) (prs_content p) = Some (map (redacted_block (cc_redact cx)) (prs_content p))
    \<and> map without_id (prs_content p) = map (without_id \<circ> without_item \<circ> fst) (kept_pairs r)"
proof -
  let ?capture = "(mrs_replay r)\<lparr>cap_blocks := map snd (kept_pairs r)\<rparr>"
  from assms(1) obtain content where len: "length (cap_blocks (mrs_replay r)) = length (mrs_content r)"
    and ids: "canonicalize_tool_call_ids (cc_sha256 cx) (map fst (kept_pairs r)) history rid = Some content"
    and rest: "try_bind (ok_or (committed_model_content (cc_redact cx) (map without_item content)) ReplayContentInvalid)
      (\<lambda>committed. case prepare_envelope (cc_replay cx) codec rid snap committed ?capture of
         Inl e \<Rightarrow> Inl (CallReplayFailed e)
       | Inr env \<Rightarrow> Inr \<lparr>prs_content = map without_item content, prs_finish_reason = mrs_finish_reason r,
           prs_usage = mrs_usage r, prs_envelope = env\<rparr>) = Inr p"
    by (auto simp: settle_response_def Let_def kept_pairs_def split: if_splits)
  obtain committed where com: "committed_model_content (cc_redact cx) (map without_item content) = Some committed"
    using rest by (auto simp: res_simps)
  have env: "prs_content p = map without_item content
      \<and> prepare_envelope (cc_replay cx) codec rid snap committed ?capture = Inr (prs_envelope p)"
    using rest com by (cases "prepare_envelope (cc_replay cx) codec rid snap committed ?capture") (auto simp: ok_or_def)
  note c = len ids env [THEN conjunct1] com [folded env [THEN conjunct1]] env [THEN conjunct2]
  have "without_item (without_item b) = without_item b" for b
    by (cases b) (simp_all add: without_item_def)
  then have "committed = map (redacted_block (cc_redact cx)) (prs_content p)"
    using content_committed [OF assms(2), of "prs_content p"] c(3,4) by simp
  moreover have swap: "without_id (without_item b) = without_item (without_id b)" for b
    by (cases b) (simp_all add: without_item_def without_id_def)
  have "map without_id content = map without_id (map fst (kept_pairs r))"
    using call_ids_fresh [of "cc_sha256 cx" "map fst (kept_pairs r)" history rid] c(2) by auto
  then have "map without_item (map without_id content) = map without_item (map without_id (map fst (kept_pairs r)))"
    by (rule arg_cong)
  then have "map without_id (prs_content p) = map (without_id \<circ> without_item \<circ> fst) (kept_pairs r)"
    by (simp add: c(3) swap comp_def)
  ultimately show ?thesis using c by simp
qed

text \<open>The request is never lost in the search for ids.\<close>

lemma settle_response_returns: "settle_response cx codec rid snap history r \<noteq> None"
  using call_ids_fresh by (fastforce simp: settle_response_def Let_def)

end
