(* ===== verification/Anthropic_Properties.thy ===== *)
theory Anthropic_Properties
  imports Stream_Anthropic Stream_Properties Model_Request Model_Call
begin

text \<open>
  The Anthropic messages machine: its blocks are numbered in the order they start, only the last may be
  open, a closed one is complete, and the deltas of a block go out under its place among the blocks
  that are not redacted.
\<close>

subsection \<open>Blocks and their numbers\<close>

definition visible :: "block_state list \<Rightarrow> block_state list" where
  "visible bs = filter (\<lambda>b. \<not> is_redacted b) bs"

definition block_part :: "block_state \<Rightarrow> channel \<Rightarrow> string" where
  "block_part b c = (case b of
     BlockTextState t \<Rightarrow> if c = ChText then t else []
   | BlockThinking t g \<Rightarrow> if c = ChReasoning then t else []
   | BlockRedacted d \<Rightarrow> []
   | BlockToolUse i n a saw \<Rightarrow> (case c of ChId \<Rightarrow> i | ChName \<Rightarrow> n | ChArguments \<Rightarrow> if saw then a else [] | _ \<Rightarrow> []))"

definition numbered :: "block_state list \<Rightarrow> (u32 \<times> block_state) list" where
  "numbered bs = zip (map of_nat [0..<length bs]) bs"

fun outputs :: "u32 \<Rightarrow> u32 \<Rightarrow> block_state list \<Rightarrow> (u32 \<times> u32) list" where
  "outputs n m [] = []"
| "outputs n m (b # bs) = (if is_redacted b then outputs (n + 1) m bs else (n, m) # outputs (n + 1) (m + 1) bs)"

lemma visible_simps [simp]: "visible [] = []" "visible (bs @ [b]) = visible bs @ (if is_redacted b then [] else [b])"
  by (simp_all add: visible_def)

lemma length_visible: "length (visible bs) \<le> length bs"
  by (simp add: visible_def)

lemma numbered_simps [simp]: "numbered [] = []" "numbered (bs @ [b]) = numbered bs @ [(of_nat (length bs), b)]"
  by (simp_all add: numbered_def)

lemma map_snd_numbered [simp]: "map snd (numbered bs) = bs"
  by (simp add: numbered_def)

lemma outputs_snoc: "outputs n m (bs @ [b]) = outputs n m bs
    @ (if is_redacted b then [] else [(n + of_nat (length bs), m + of_nat (length (visible bs)))])"
  by (induction n m bs rule: outputs.induct) (simp_all add: visible_def algebra_simps)

lemma outputs_key: "k \<in> fst ` set (outputs n m bs) \<Longrightarrow> \<exists>i<length bs. k = n + of_nat i"
proof (induction n m bs rule: outputs.induct)
  case (2 n m b bs)
  from 2(3) have "k = n \<or> k \<in> fst ` set (outputs (n + 1) m bs) \<or> k \<in> fst ` set (outputs (n + 1) (m + 1) bs)"
    by (auto split: if_splits)
  moreover have "\<exists>i<length (b # bs). k = n + of_nat i" if "\<exists>i<length bs. k = n + 1 + of_nat i"
  proof -
    from that obtain i where "i < length bs" "k = n + 1 + of_nat i" by blast
    then show ?thesis by (intro exI [of _ "Suc i"]) (simp add: algebra_simps)
  qed
  moreover have "\<exists>i<length (b # bs). k = n + of_nat i" if "k = n" using that by (intro exI [of _ 0]) simp
  ultimately show ?case using 2 by (auto split: if_splits)
qed simp

lemma of_nat_less: "i < n \<Longrightarrow> n < 2 ^ 32 \<Longrightarrow> (of_nat i :: u32) < of_nat n"
  by (simp add: word_less_nat_alt unat_index)

lemma numbered_keys: "length bs < 2 ^ 32 \<Longrightarrow> k \<in> fst ` set (numbered bs) \<Longrightarrow> k < of_nat (length bs)"
  by (auto simp: numbered_def set_zip of_nat_less)

lemma outputs_keys: "length bs < 2 ^ 32 \<Longrightarrow> k \<in> fst ` set (outputs 0 m bs) \<Longrightarrow> k < of_nat (length bs)"
  using outputs_key [of k 0 m bs] by (auto simp: of_nat_less)

lemma ord_insert_end: "(\<And>k'. k' \<in> fst ` set xs \<Longrightarrow> k' < k) \<Longrightarrow> ord_insert k v xs = xs @ [(k, v)]"
  for k :: "'k::linorder"
proof (induction xs)
  case (Cons kv xs)
  then show ?case by (cases kv) (auto simp: less_imp_neq not_less_iff_gr_or_eq)
qed simp

lemma ord_insert_last: "(\<And>k'. k' \<in> fst ` set xs \<Longrightarrow> k' < k) \<Longrightarrow> ord_insert k v (xs @ [(k, u)]) = xs @ [(k, v)]"
  for k :: "'k::linorder"
proof (induction xs)
  case (Cons kv xs)
  then show ?case by (cases kv) (auto simp: less_imp_neq not_less_iff_gr_or_eq)
qed simp

lemma map_of_last: "(\<And>k'. k' \<in> fst ` set xs \<Longrightarrow> k' < k) \<Longrightarrow> map_of (xs @ [(k, u)]) k = Some u"
  for k :: "'k::linorder"
proof -
  assume "\<And>k'. k' \<in> fst ` set xs \<Longrightarrow> k' < k"
  then have "map_of xs k = None" by (metis map_of_eq_None_iff order_less_irrefl)
  then show ?thesis by (simp add: map_add_def)
qed

lemma numbered_full:
  assumes "length bs \<le> 2 ^ 32" "map_of (numbered bs) (of_nat (length bs)) = None"
  shows "length bs < 2 ^ 32"
proof (rule ccontr)
  assume "\<not> length bs < 2 ^ 32"
  with assms(1) have full: "length bs = 2 ^ 32" by simp
  then have "(of_nat (length bs) :: u32) = of_nat 0" by simp
  moreover from full have "(of_nat 0, bs ! 0) \<in> set (numbered bs)"
    unfolding numbered_def set_zip by (force intro!: exI [of _ 0])
  ultimately show False using assms(2) by (force simp: map_of_eq_None_iff)
qed

subsection \<open>The machine\<close>

definition an_want :: "block_state list \<Rightarrow> nat \<Rightarrow> channel \<Rightarrow> string" where
  "an_want bs j c = (if j < length (visible bs) then block_part (visible bs ! j) c else [])"

definition complete :: "json_codec \<Rightarrow> block_state \<Rightarrow> bool" where
  "complete jc b \<longleftrightarrow> check_block jc b = Inr ()"

text \<open>A call that got no fragment of its arguments has those its start gave.\<close>

definition given :: "json_codec \<Rightarrow> block_state \<Rightarrow> bool" where
  "given jc b \<longleftrightarrow> (case b of BlockToolUse _ _ a saw \<Rightarrow> saw \<or> (\<exists>v. a = jc_print jc v) | _ \<Rightarrow> True)"

definition an_place :: "json_codec \<Rightarrow> anthropic_state \<Rightarrow> block_state list \<Rightarrow> bool" where
  "an_place jc s bs \<longleftrightarrow> (case an_open_index s of
     None \<Rightarrow> an_next_index s = of_nat (length bs) \<and> list_all (complete jc) bs
   | Some i \<Rightarrow> bs \<noteq> [] \<and> i = of_nat (length bs - 1) \<and> an_next_index s = i \<and> list_all (complete jc) (butlast bs))"

definition an_flags :: "anthropic_state \<Rightarrow> bool" where
  "an_flags s \<longleftrightarrow> (an_started s \<longrightarrow> an_message_id s \<noteq> None \<and> an_model s \<noteq> None)
     \<and> (an_stopped s \<longrightarrow> an_started s \<and> an_open_index s = None \<and> an_stop_reason s \<noteq> None)"

definition an_holds :: "json_codec \<Rightarrow> anthropic_state \<Rightarrow> block_state list \<Rightarrow> bool" where
  "an_holds jc s bs \<longleftrightarrow> an_blocks s = numbered bs \<and> length bs \<le> 2 ^ 32 \<and> an_output_indices s = outputs 0 0 bs
     \<and> an_next_output_index s = of_nat (length (visible bs)) \<and> tracked (sl_sent s) [0..<length (visible bs)] (an_want bs)
     \<and> an_place jc s bs \<and> an_flags s \<and> list_all (given jc) bs"

definition an_ok :: "json_codec \<Rightarrow> anthropic_state \<Rightarrow> bool" where
  "an_ok jc s \<longleftrightarrow> (\<exists>bs. an_holds jc s bs)"

lemma an_ok_start: "an_ok jc anthropic_start"
  unfolding an_ok_def
  by (intro exI [of _ "[]"]) (simp add: an_holds_def anthropic_start_def an_place_def an_flags_def an_want_def tracked_start)

text \<open>A new block, before anything is said of its text.\<close>

lemma an_want_new:
  assumes "tracked ds [0..<length (visible bs)] (an_want bs)"
  shows "tracked ds [0..<Suc (length (visible bs))] (an_want bs)"
  using tracked_new [OF assms, of "length (visible bs)"] by simp

lemma an_want_snoc:
  assumes "\<not> is_redacted b"
  shows "an_want (bs @ [b]) (length (visible bs)) c = block_part b c"
    "j \<noteq> length (visible bs) \<Longrightarrow> an_want (bs @ [b]) j c = an_want bs j c" "an_want bs (length (visible bs)) c = []"
  using assms by (auto simp: an_want_def nth_append)

lemma tracked_started:
  assumes tr: "tracked ds [0..<length (visible bs)] (an_want bs)" and b: "\<not> is_redacted b"
    and d: "\<And>c. delta_part d (of_nat (length (visible bs))) c = block_part b c"
      "\<And>u c. u \<noteq> of_nat (length (visible bs)) \<Longrightarrow> delta_part d u c = []"
  shows "tracked (ds @ [d]) [0..<length (visible (bs @ [b]))] (an_want (bs @ [b]))"
  using tracked_add [OF an_want_new [OF tr], of "length (visible bs)" d "block_part b" "an_want (bs @ [b])"] d
    an_want_snoc [OF b, where bs = bs] b by (simp del: upt_Suc)

lemma tracked_quiet:
  assumes tr: "tracked ds [0..<length (visible bs)] (an_want bs)" and "is_redacted b \<or> block_part b = (\<lambda>_. [])"
  shows "tracked ds [0..<length (visible (bs @ [b]))] (an_want (bs @ [b]))"
proof (cases "is_redacted b")
  case True
  then have "an_want (bs @ [b]) = an_want bs" by (simp add: an_want_def fun_eq_iff)
  with True tr show ?thesis by simp
next
  case False
  then have "an_want (bs @ [b]) j c = an_want bs j c" for j c
    using assms(2) an_want_snoc [OF False, where bs = bs] by (cases "j = length (visible bs)") simp_all
  then have "an_want (bs @ [b]) = an_want bs" by (simp add: fun_eq_iff)
  with False an_want_new [OF tr] show ?thesis by (simp del: upt_Suc)
qed

lemma tracked_grown:
  assumes tr: "tracked ds [0..<length (visible (bs @ [b]))] (an_want (bs @ [b]))"
    and b: "\<not> is_redacted b" "\<not> is_redacted b'" "\<And>c. block_part b' c = block_part b c @ add c"
    and d: "\<And>c. delta_part d (of_nat (length (visible bs))) c = add c"
      "\<And>u c. u \<noteq> of_nat (length (visible bs)) \<Longrightarrow> delta_part d u c = []"
  shows "tracked (ds @ [d]) [0..<length (visible (bs @ [b']))] (an_want (bs @ [b']))"
  using tracked_add [OF tr, of "length (visible bs)" d add "an_want (bs @ [b'])"] d b
    an_want_snoc [OF b(1), where bs = bs] an_want_snoc [OF b(2), where bs = bs] by (simp del: upt_Suc)

subsection \<open>Its steps\<close>

text \<open>What a step that succeeds leaves.\<close>

definition reaches :: "('s \<Rightarrow> bool) \<Rightarrow> ('s, 'e, 'a) outcome \<Rightarrow> bool" where
  "reaches I r \<longleftrightarrow> (\<forall>a s. r = (Inr a, s) \<longrightarrow> I s)"

lemma reaches_simps [simp]: "reaches I (op_ok a s) = I s" "reaches I (op_err e s)"
  by (simp_all add: reaches_def op_ok_def op_err_def)

lemma reaches_check: "(\<And>a. r = Inr a \<Longrightarrow> I s) \<Longrightarrow> reaches I (op_check r s)"
  by (simp add: reaches_def op_check_def)

lemma reaches_after_check: "(\<And>a. r = Inr a \<Longrightarrow> reaches I (f a s)) \<Longrightarrow> reaches I (op_bind (op_check r s) f)"
  by (cases r) (simp_all)

lemma reaches_bind: "reaches J r \<Longrightarrow> (\<And>a s. r = (Inr a, s) \<Longrightarrow> J s \<Longrightarrow> reaches I (f a s)) \<Longrightarrow> reaches I (op_bind r f)"
  by (cases r; cases "fst r") (auto simp: reaches_def)

lemma emit_Inr: "emit k d s = (Inr (), t) \<Longrightarrow> t = s\<lparr>sl_sent := sl_sent s @ [d]\<rparr>"
  by (auto simp: emit_def Let_def op_ok_def op_err_def split: option.splits)

lemma reaches_emit: "I (s\<lparr>sl_sent := sl_sent s @ [d]\<rparr>) \<Longrightarrow> reaches I (emit k d s)"
  by (auto simp: reaches_def dest: emit_Inr)

lemma message_start_ok: "an_ok jc s \<Longrightarrow> reaches (an_ok jc) (message_start v s)"
  unfolding message_start_def Let_def
  by (intro reaches_after_check) (auto simp: an_ok_def an_holds_def an_place_def an_flags_def ensure_def split: if_splits option.splits)

lemma message_delta_ok: "an_ok jc s \<Longrightarrow> reaches (an_ok jc) (message_delta v s)"
  unfolding message_delta_def
  by (intro reaches_after_check) (auto simp: an_ok_def an_holds_def an_place_def an_flags_def ensure_def
    split: if_splits option.splits intro!: reaches_check)

lemma message_stop_ok: "an_ok jc s \<Longrightarrow> reaches (an_ok jc) (message_stop s)"
  unfolding message_stop_def
  by (intro reaches_after_check) (auto simp: an_ok_def an_holds_def an_place_def an_flags_def ensure_def split: if_splits)

lemma block_of_fresh: "block_of jc v = Inr (BlockToolUse i n a saw) \<Longrightarrow> \<not> saw"
  by (auto simp: block_of_def res_simps split: option.splits if_splits)

lemma block_of_given: "block_of jc v = Inr b \<Longrightarrow> given jc b"
  by (auto simp: block_of_def given_def res_simps split: option.splits if_splits block_state.splits)

lemma announced:
  assumes "announce_block k out b s = (Inr (), t)" "\<And>i n a saw. b = BlockToolUse i n a saw \<Longrightarrow> \<not> saw"
  obtains "t = s" "is_redacted b \<or> block_part b = (\<lambda>_. [])"
  | d where "t = s\<lparr>sl_sent := sl_sent s @ [d]\<rparr>" "\<not> is_redacted b" "\<And>c. delta_part d out c = block_part b c"
    "\<And>u c. u \<noteq> out \<Longrightarrow> delta_part d u c = []"
proof (cases b)
  case (BlockTextState x)
  show thesis
  proof (cases "x = []")
    case True
    with BlockTextState assms(1) show thesis by (intro that(1)) (auto simp: announce_block_def res_simps block_part_def fun_eq_iff)
  next
    case False
    with BlockTextState assms(1) have "t = s\<lparr>sl_sent := sl_sent s @ [DeltaText out x]\<rparr>" by (auto simp: announce_block_def dest: emit_Inr)
    with BlockTextState show thesis by (intro that(2)) (auto simp: is_redacted_def block_part_def)
  qed
next
  case (BlockThinking x g)
  show thesis
  proof (cases "x = []")
    case True
    with BlockThinking assms(1) show thesis by (intro that(1)) (auto simp: announce_block_def res_simps block_part_def fun_eq_iff)
  next
    case False
    with BlockThinking assms(1) have "t = s\<lparr>sl_sent := sl_sent s @ [DeltaReasoning out x]\<rparr>" by (auto simp: announce_block_def dest: emit_Inr)
    with BlockThinking show thesis by (intro that(2)) (auto simp: is_redacted_def block_part_def)
  qed
next
  case (BlockRedacted d)
  with assms(1) show thesis by (intro that(1)) (auto simp: announce_block_def res_simps is_redacted_def)
next
  case (BlockToolUse i n a saw)
  with assms have "t = s\<lparr>sl_sent := sl_sent s @ [DeltaToolCall out (Some i) (Some n) None]\<rparr>" "\<not> saw"
    by (auto simp: announce_block_def dest: emit_Inr)
  with BlockToolUse show thesis
    by (intro that(2)) (auto simp: is_redacted_def block_part_def text_or_empty_def split: channel.split)
qed

definition with_output :: "u32 \<Rightarrow> block_state \<Rightarrow> anthropic_state \<Rightarrow> anthropic_state" where
  "with_output i b s = (if is_redacted b then s else s\<lparr>an_output_indices := ord_insert i (an_next_output_index s) (an_output_indices s),
     an_next_output_index := an_next_output_index s + 1\<rparr>)"

lemma started_block_ok:
  assumes h: "an_holds jc s bs" and i: "i = an_next_index s" and open_none: "an_open_index s = None"
    and small: "length bs < 2 ^ 32" and live: "\<not> an_stopped s" and given: "given jc b"
    and tr: "tracked ds [0..<length (visible (bs @ [b]))] (an_want (bs @ [b]))"
  shows "an_holds jc ((with_output i b s)\<lparr>sl_sent := ds, an_blocks := ord_insert i b (an_blocks s), an_open_index := Some i\<rparr>) (bs @ [b])"
proof -
  from h open_none i have i: "i = of_nat (length bs)" and "an_next_index s = i" "list_all (complete jc) bs" by (simp_all add: an_holds_def an_place_def)
  moreover from h i numbered_keys [OF small] have "ord_insert i b (an_blocks s) = numbered (bs @ [b])"
    using ord_insert_end [of "numbered bs" i b] by (simp add: an_holds_def)
  moreover from h i outputs_keys [OF small, of _ 0] have "ord_insert i (an_next_output_index s) (outputs 0 0 bs)
      = outputs 0 0 bs @ [(i, of_nat (length (visible bs)))]"
    using ord_insert_end [of "outputs 0 0 bs" i] by (simp add: an_holds_def)
  ultimately show ?thesis using h tr small live given
    by (auto simp: an_holds_def with_output_def outputs_snoc an_place_def an_flags_def simp del: upt_Suc)
qed

lemma block_start_ok:
  assumes "an_ok jc s" shows "reaches (an_ok jc) (block_start jc k v s)"
  unfolding reaches_def
proof (intro allI impI)
  fix a t
  assume run: "block_start jc k v s = (Inr a, t)"
  from assms obtain bs where h: "an_holds jc s bs" by (auto simp: an_ok_def)
  from run obtain b i t1 where b: "\<exists>x. block_of jc x = Inr b" and i: "i = an_next_index s" "map_of (an_blocks s) i = None"
    and seq: "\<not> an_stopped s" "an_open_index s = None"
    and said: "announce_block k (an_next_output_index s) b (with_output i b s) = (Inr (), t1)"
    and t: "t = t1\<lparr>an_blocks := ord_insert i b (an_blocks t1), an_open_index := Some i\<rparr>"
    by (auto simp: block_start_def res_simps Let_def with_output_def)
  from h seq i have "length bs \<le> 2 ^ 32" "map_of (numbered bs) (of_nat (length bs)) = None"
    by (simp_all add: an_holds_def an_place_def)
  note small = numbered_full [OF this]
  have out: "an_next_output_index s = of_nat (length (visible bs))"
    and tr: "tracked (sl_sent s) [0..<length (visible bs)] (an_want bs)" using h by (simp_all add: an_holds_def)
  define w where "w = with_output i b s"
  have same: "sl_sent w = sl_sent s" "an_blocks w = an_blocks s" by (simp_all add: w_def with_output_def)
  have held: "an_ok jc (w\<lparr>sl_sent := ds, an_blocks := ord_insert i b (an_blocks s), an_open_index := Some i\<rparr>)"
    if "tracked ds [0..<length (visible (bs @ [b]))] (an_want (bs @ [b]))" for ds
    using started_block_ok [OF h i(1) seq(2) small seq(1) _ that] b block_of_given by (auto simp: an_ok_def w_def)
  from said show "an_ok jc t"
  proof (rule announced)
    show "b = BlockToolUse x n y saw \<Longrightarrow> \<not> saw" for x n y saw using b block_of_fresh by blast
  next
    assume "t1 = with_output i b s" "is_redacted b \<or> block_part b = (\<lambda>_. [])"
    with t same have "t = w\<lparr>sl_sent := sl_sent w, an_blocks := ord_insert i b (an_blocks s), an_open_index := Some i\<rparr>" by (simp flip: w_def)
    with held [OF tracked_quiet [OF tr]] same \<open>is_redacted b \<or> _\<close> show ?thesis by simp
  next
    fix d
    assume "t1 = (with_output i b s)\<lparr>sl_sent := sl_sent (with_output i b s) @ [d]\<rparr>" "\<not> is_redacted b"
      "\<And>c. delta_part d (an_next_output_index s) c = block_part b c" "\<And>u c. u \<noteq> an_next_output_index s \<Longrightarrow> delta_part d u c = []"
    with held [OF tracked_started [OF tr, of b d]] t same out show ?thesis by (simp flip: w_def)
  qed
qed

text \<open>A delta, or the end, of the open block.\<close>

lemma opened:
  assumes "an_holds jc s bs" "an_open_index s = Some i"
  obtains cs b where "bs = cs @ [b]" "i = of_nat (length cs)" "map_of (an_blocks s) i = Some b" "an_next_index s = i"
    "\<not> is_redacted b \<Longrightarrow> map_of (an_output_indices s) i = Some (of_nat (length (visible cs)))"
    "\<And>b'. ord_insert i b' (an_blocks s) = numbered (cs @ [b'])" "list_all (complete jc) cs" "length cs < 2 ^ 32"
proof -
  from assms have bs: "bs \<noteq> []" "i = of_nat (length bs - 1)" "an_next_index s = i" "list_all (complete jc) (butlast bs)"
    by (simp_all add: an_holds_def an_place_def)
  define cs b where "cs = butlast bs" and "b = last bs"
  with bs have c: "bs = cs @ [b]" "i = of_nat (length cs)" by simp_all
  with assms(1) have small: "length cs < 2 ^ 32" by (simp add: an_holds_def)
  have blocks: "an_blocks s = numbered cs @ [(i, b)]" using assms(1) c by (simp add: an_holds_def)
  show thesis
  proof (rule that [of cs b])
    show "map_of (an_blocks s) i = Some b" unfolding blocks using numbered_keys [OF small] c(2) by (intro map_of_last) blast
    show "ord_insert i b' (an_blocks s) = numbered (cs @ [b'])" for b'
      unfolding blocks using numbered_keys [OF small] c(2) ord_insert_last [of "numbered cs" i b' b] by simp
    show "map_of (an_output_indices s) i = Some (of_nat (length (visible cs)))" if "\<not> is_redacted b"
      using that assms(1) outputs_keys [OF small, of _ 0] c map_of_last [of "outputs 0 0 cs" i "of_nat (length (visible cs))"]
      by (simp add: an_holds_def outputs_snoc)
  qed (use c bs cs_def small in simp_all)
qed

lemma replaced_ok:
  assumes h: "an_holds jc s (cs @ [b])" and o: "an_open_index s = Some i" and r: "\<not> is_redacted b" "\<not> is_redacted b'" "given jc b'"
    and tr: "tracked ds [0..<length (visible (cs @ [b']))] (an_want (cs @ [b']))"
  shows "an_ok jc ((put_block i b' s)\<lparr>sl_sent := ds\<rparr>)"
proof -
  from opened [OF h o] have "an_blocks (put_block i b' s) = numbered (cs @ [b'])" by (auto simp: put_block_def)
  with h o r tr have "an_holds jc ((put_block i b' s)\<lparr>sl_sent := ds\<rparr>) (cs @ [b'])"
    by (simp add: an_holds_def put_block_def an_place_def an_flags_def outputs_snoc del: upt_Suc)
  then show ?thesis by (auto simp: an_ok_def)
qed

lemma grown_ok:
  assumes h: "an_holds jc s (cs @ [b])" and o: "an_open_index s = Some i" and r: "\<not> is_redacted b" "\<not> is_redacted b'" "given jc b'"
    and more: "\<And>c. block_part b' c = block_part b c @ add c"
    and d: "\<And>c. delta_part d (of_nat (length (visible cs))) c = add c"
      "\<And>u c. u \<noteq> of_nat (length (visible cs)) \<Longrightarrow> delta_part d u c = []"
  shows "reaches (an_ok jc) (emit k d (put_block i b' s))"
proof -
  have "tracked (sl_sent s) [0..<length (visible (cs @ [b]))] (an_want (cs @ [b]))" using h by (simp add: an_holds_def)
  from replaced_ok [OF h o r tracked_grown [OF this r(1,2) more d]] show ?thesis by (intro reaches_emit) (simp add: put_block_def)
qed

lemma kept_ok:
  assumes h: "an_holds jc s (cs @ [b])" and o: "an_open_index s = Some i" and r: "\<not> is_redacted b" "\<not> is_redacted b'" "given jc b'"
    and same: "block_part b' = block_part b"
  shows "an_ok jc (put_block i b' s)"
proof -
  have "an_want (cs @ [b']) = an_want (cs @ [b])" using r same by (simp add: an_want_def fun_eq_iff nth_append)
  with h r have "tracked (sl_sent s) [0..<length (visible (cs @ [b']))] (an_want (cs @ [b']))" by (simp add: an_holds_def)
  from replaced_ok [OF h o r this] show ?thesis by (simp add: put_block_def)
qed

lemmas block_views = given_def is_redacted_def block_part_def text_or_empty_def

lemma apply_delta_ok:
  assumes h: "an_holds jc s (cs @ [b])" and o: "an_open_index s = Some i" and out: "\<not> is_redacted b \<Longrightarrow> out = of_nat (length (visible cs))"
  shows "reaches (an_ok jc) (apply_delta k i out v b s)"
proof (cases b)
  case (BlockTextState t)
  with h o out have "reaches (an_ok jc) (emit k (DeltaText out f) (put_block i (BlockTextState (t @ f)) s))" for f
    by (intro grown_ok [where cs = cs and b = b and add = "\<lambda>c. if c = ChText then f else []"]) (simp_all add: block_views)
  with BlockTextState show ?thesis by (auto simp: apply_delta_def Let_def intro!: reaches_after_check)
next
  case (BlockThinking t g)
  with h o out have "reaches (an_ok jc) (emit k (DeltaReasoning out f) (put_block i (BlockThinking (t @ f) g) s))" for f
    by (intro grown_ok [where cs = cs and b = b and add = "\<lambda>c. if c = ChReasoning then f else []"]) (simp_all add: block_views)
  moreover from BlockThinking h o have "an_ok jc (put_block i (BlockThinking t (g @ f)) s)" for f
    by (intro kept_ok [where cs = cs and b = b]) (simp_all add: block_views fun_eq_iff)
  ultimately show ?thesis using BlockThinking by (auto simp: apply_delta_def Let_def intro!: reaches_after_check)
next
  case (BlockRedacted d)
  then show ?thesis by (simp add: apply_delta_def)
next
  case (BlockToolUse x n a saw)
  with h o out have "reaches (an_ok jc) (emit k (DeltaToolCall out None None (Some f))
      (put_block i (BlockToolUse x n ((if saw then a else []) @ f) True) s))" for f
    by (intro grown_ok [where cs = cs and b = b and add = "\<lambda>c. if c = ChArguments then f else []"])
      (auto simp: block_views split: channel.split)
  with BlockToolUse show ?thesis
    by (auto simp: apply_delta_def tool_delta_def Let_def intro!: reaches_after_check)
qed

lemma open_block_Inr: "open_block v s = Inr i \<Longrightarrow> an_open_index s = Some i"
  by (auto simp: open_block_def res_simps)

lemma block_delta_ok: "an_ok jc s \<Longrightarrow> reaches (an_ok jc) (block_delta k v s)"
  unfolding block_delta_def
proof (intro reaches_after_check)
  fix i delta
  assume "an_ok jc s" "open_block v s = Inr i"
  then obtain bs where h: "an_holds jc s bs" and o: "an_open_index s = Some i" by (auto simp: an_ok_def dest: open_block_Inr)
  from opened [OF h o] show "reaches (an_ok jc) (apply_delta k i (the (map_of (an_output_indices s) i)) delta (the (map_of (an_blocks s) i)) s)"
    using h o by (metis apply_delta_ok option.sel)
qed

lemma block_stop_ok: "an_ok jc s \<Longrightarrow> reaches (an_ok jc) (block_stop jc v s)"
  unfolding block_stop_def
proof (intro reaches_after_check)
  fix i u
  assume "an_ok jc s" "open_block v s = Inr i" and checked: "check_block jc (the (map_of (an_blocks s) i)) = Inr u"
  then obtain bs where h: "an_holds jc s bs" and o: "an_open_index s = Some i" by (auto simp: an_ok_def dest: open_block_Inr)
  from opened [OF h o] obtain cs b where b: "bs = cs @ [b]" "i = of_nat (length cs)" "map_of (an_blocks s) i = Some b" "an_next_index s = i"
    "list_all (complete jc) cs" by metis
  with checked have "complete jc b" by (simp add: complete_def)
  with h o b have "an_holds jc (s\<lparr>an_open_index := None, an_next_index := an_next_index s + 1\<rparr>) bs"
    by (auto simp: an_holds_def an_place_def an_flags_def)
  then show "reaches (an_ok jc) (op_ok () (s\<lparr>an_open_index := None, an_next_index := an_next_index s + 1\<rparr>))" by (auto simp: an_ok_def)
qed

lemma anthropic_event_ok: "an_ok jc s \<Longrightarrow> reaches (an_ok jc) (anthropic_event jc k v kind s)"
  by (auto simp: anthropic_event_def intro!: message_start_ok block_start_ok block_delta_ok block_stop_ok message_delta_ok message_stop_ok reaches_check)

lemma anthropic_usage_ok: "an_ok jc s \<Longrightarrow> reaches (an_ok jc) (anthropic_usage k v s)"
proof -
  assume "an_ok jc s"
  then obtain bs where "an_holds jc s bs" by (auto simp: an_ok_def)
  then have "an_holds jc (s\<lparr>an_usage := u, sl_sent := sl_sent s @ [DeltaUsage u]\<rparr>) bs" for u
    by (auto simp: an_holds_def an_place_def an_flags_def intro: tracked_silent split: option.splits)
  then have "reaches (an_ok jc) (emit k (DeltaUsage u) (s\<lparr>an_usage := u\<rparr>))" for u by (intro reaches_emit) (auto simp: an_ok_def)
  then show ?thesis using \<open>an_ok jc s\<close> by (auto simp: anthropic_usage_def Let_def split: option.split)
qed

lemma process_anthropic_event_ok: "an_ok jc s \<Longrightarrow> reaches (an_ok jc) (process_anthropic_event jc k f s)"
  unfolding process_anthropic_event_def
  by (auto intro!: reaches_after_check reaches_bind [OF anthropic_event_ok] anthropic_usage_ok)

lemma each_reaches: "(\<And>x s. I s \<Longrightarrow> reaches I (f x s)) \<Longrightarrow> I s \<Longrightarrow> op_each f xs s = (Inr u, t) \<Longrightarrow> I t"
  by (induction xs arbitrary: s) (auto simp: reaches_def op_ok_def res_simps)

subsection \<open>The response\<close>

definition block_output :: "block_state \<Rightarrow> bool" where
  "block_output b \<longleftrightarrow> (case b of BlockTextState t \<Rightarrow> t \<noteq> [] | BlockThinking t _ \<Rightarrow> t \<noteq> [] | BlockRedacted _ \<Rightarrow> False
     | BlockToolUse _ _ _ _ \<Rightarrow> True)"

definition shown_as :: "json_codec \<Rightarrow> block_state \<Rightarrow> model_block \<Rightarrow> bool" where
  "shown_as jc b m \<longleftrightarrow> (case b of
     BlockTextState t \<Rightarrow> m = ModelText t
   | BlockThinking t g \<Rightarrow> m = ModelReasoning t (Some (JObject [(''anthropic'',
       JObject [(''signature'', JString g), (''type'', JString ''thinking'')])]))
   | BlockRedacted _ \<Rightarrow> False
   | BlockToolUse i n a _ \<Rightarrow> (case m of ModelToolCall c \<Rightarrow> mtc_provider_call_id c = Some i \<and> mtc_name c = n
       \<and> jc_parse jc a = Some (mtc_arguments c) | _ \<Rightarrow> False))"

lemma final_blocks_shown:
  "final_blocks jc n p bs = Inr (cs, rest) \<Longrightarrow> list_all2 (shown_as jc) (filter block_output bs) (map fst cs)"
proof (induction jc n p bs arbitrary: cs rest rule: final_blocks.induct)
  case (3 jc n pending t bs)
  then show ?case by (auto simp: res_simps block_output_def shown_as_def split: if_splits)
next
  case (4 jc n pending t g bs)
  then show ?case by (auto simp: res_simps block_output_def shown_as_def split: if_splits)
next
  case (5 jc n pending i name arguments saw bs)
  then show ?case by (auto simp: res_simps block_output_def shown_as_def)
qed (auto simp: block_output_def)

text \<open>The places, among the blocks that are not redacted, of those that say something.\<close>

definition kept :: "block_state list \<Rightarrow> nat list" where
  "kept bs = filter (\<lambda>j. block_output (visible bs ! j)) [0..<length (visible bs)]"

lemma kept_blocks: "filter block_output bs = map (\<lambda>j. visible bs ! j) (kept bs)"
proof -
  have "filter block_output bs = filter block_output (visible bs)"
    unfolding visible_def filter_filter by (rule filter_cong) (auto simp: block_output_def is_redacted_def split: block_state.splits)
  also have "\<dots> = filter block_output (map (\<lambda>j. visible bs ! j) [0..<length (visible bs)])" by (simp add: map_nth)
  finally show ?thesis by (simp add: kept_def filter_map o_def)
qed

lemma kept_less: "j \<in> set (kept bs) \<Longrightarrow> j < length (visible bs)"
  by (simp add: kept_def)

text \<open>
  Only of a call that got no fragment were the arguments not streamed: they are those that its start
  gave, whole.
\<close>

definition renders_streamed :: "json_codec \<Rightarrow> block_state \<Rightarrow> model_block \<Rightarrow> (channel \<Rightarrow> string) \<Rightarrow> bool" where
  "renders_streamed jc b m got \<longleftrightarrow> (case b of
     BlockToolUse i n a False \<Rightarrow> (\<exists>c v. m = ModelToolCall c \<and> got ChId = i \<and> mtc_provider_call_id c = Some i
       \<and> got ChName = n \<and> mtc_name c = n \<and> got ChArguments = [] \<and> a = jc_print jc v \<and> jc_parse jc a = Some (mtc_arguments c))
   | _ \<Rightarrow> renders jc m got)"

lemma shown_renders: "shown_as jc b m \<Longrightarrow> given jc b \<Longrightarrow> got = block_part b \<Longrightarrow> renders_streamed jc b m got"
  by (cases b; cases m) (auto simp: shown_as_def renders_streamed_def renders_def block_part_def text_or_empty_def given_def split: bool.split)

lemma stream_anthropic_cases:
  assumes "stream_anthropic jc k to now as = (Inr r, cn)"
  shows "an_ok jc (cn_parser cn) \<and> an_stopped (cn_parser cn) \<and> finish_anthropic jc (cn_parser cn) = Inr r"
proof -
  from assms obtain rest cn1 final where
    run: "stream_loop to (\<lambda>now. sse_drain (\<lambda>f. feed to now (anthropic_frame jc k f) (sse_data f \<noteq> [])))
      an_stopped as [] (connect to now anthropic_start) = (Inr rest, cn1)"
    and final: "(case final of None \<Rightarrow> op_ok () cn1 | Some f \<Rightarrow> feed to now (process_anthropic_event jc k f) False cn1) = (Inr (), cn)"
    and r: "an_stopped (cn_parser cn)" "finish_anthropic jc (cn_parser cn) = Inr r"
  proof -
    from assms obtain rest cn1 where run: "stream_loop to (\<lambda>now. sse_drain (\<lambda>f. feed to now (anthropic_frame jc k f) (sse_data f \<noteq> [])))
        an_stopped as [] (connect to now anthropic_start) = (Inr rest, cn1)"
      and more: "op_bind (if an_stopped (cn_parser cn1) then op_ok None cn1 else op_check (framed ''SSE_FRAMING'' (take_final_sse_event rest)) cn1)
        (\<lambda>final cn. op_bind (case final of None \<Rightarrow> op_ok () cn | Some f \<Rightarrow> feed to now (process_anthropic_event jc k f) False cn) (\<lambda>_ cn.
         op_bind (op_check (ensure (an_stopped (cn_parser cn)) (closed_error ErrProtocol cn)) cn) (\<lambda>_ cn.
         op_check (finish_anthropic jc (cn_parser cn)) cn))) = (Inr r, cn)"
      by (auto simp: stream_anthropic_def op_bind_Inr_iff)
    from more obtain final where "(case final of None \<Rightarrow> op_ok () cn1 | Some f \<Rightarrow> feed to now (process_anthropic_event jc k f) False cn1) = (Inr (), cn)"
      "an_stopped (cn_parser cn)" "finish_anthropic jc (cn_parser cn) = Inr r"
    proof (cases "an_stopped (cn_parser cn1)")
      case True
      with more that [of None] show thesis by (auto simp: res_simps)
    next
      case False
      with more that show thesis by (auto simp: res_simps)
    qed
    with that run show thesis by blast
  qed
  have frame: "an_ok jc s \<Longrightarrow> reaches (an_ok jc) (anthropic_frame jc k f s)" for f s
    by (simp add: anthropic_frame_def process_anthropic_event_ok)
  from sse_stream.loop_frames [OF take_nothing(1) run] obtain fs where
    "op_each (anthropic_frame jc k) fs anthropic_start = (Inr (), cn_parser cn1)" by (auto simp: connect_def)
  from each_reaches [OF frame an_ok_start this] have ok: "an_ok jc (cn_parser cn1)" .
  have "an_ok jc (cn_parser cn)"
  proof (cases final)
    case None
    with final ok show ?thesis by (simp add: op_ok_def)
  next
    case (Some f)
    with feed_Inr [of to now "process_anthropic_event jc k f" False cn1 cn] final
    have "process_anthropic_event jc k f (cn_parser cn1) = (Inr (), cn_parser cn)" by simp
    with process_anthropic_event_ok [OF ok, of k f] show ?thesis by (auto simp: reaches_def)
  qed
  with r show ?thesis by blast
qed

subsection \<open>A stream with redacted thinking and a text\<close>

text \<open>One response from its bytes to its replay: the run on which the witnesses below stand.\<close>

context drained begin

lemma drain_runs:
  "frames take_frame b fs rest \<Longrightarrow> op_each h fs (cn_parser cn) = (Inr (), p) \<Longrightarrow> list_all eff fs \<Longrightarrow> fs \<noteq> [] \<Longrightarrow>
   drain (\<lambda>f. feed to now (h f) (eff f)) b cn = (Inr rest, cn\<lparr>cn_deadline := now + to_stream_idle to, cn_parser := p\<rparr>)"
proof (induction arbitrary: cn rule: frames.induct)
  case (frames_take b f r fs rest)
  from frames_take(4) obtain q where q: "h f (cn_parser cn) = (Inr (), q)" "op_each h fs q = (Inr (), p)" by (auto simp: res_simps)
  let ?cn = "cn\<lparr>cn_deadline := now + to_stream_idle to, cn_parser := q\<rparr>"
  from q(1) frames_take(5) have "feed to now (h f) (eff f) cn = (Inr (), ?cn)"
    by (simp add: feed_def op_zoom_def op_ok_def observe_effective_frame_def)
  moreover have "drain (\<lambda>f. feed to now (h f) (eff f)) r ?cn = (Inr rest, cn\<lparr>cn_deadline := now + to_stream_idle to, cn_parser := p\<rparr>)"
  proof (cases "fs = []")
    case True
    with frames_take(2) have "take_frame r = Inr None" "rest = r" by (auto elim: frames.cases)
    with True q(2) show ?thesis by (subst unfold_drain) (simp add: op_ok_def)
  next
    case False
    from frames_take(3) [of ?cn] q(2) frames_take(5) False show ?thesis by simp
  qed
  ultimately show ?case by (subst unfold_drain) (simp add: frames_take(1))
qed simp

end

definition letter_frame :: "char \<Rightarrow> string" where
  "letter_frame c = ''data: '' @ [c]"

lemma letter_frames:
  assumes "list_all (\<lambda>c. 97 \<le> byte_of c \<and> byte_of c \<le> 122) cs"
  shows "frames take_sse_event (concat (map (\<lambda>c. letter_frame c @ [LF, LF]) cs)) (map letter_frame cs) []"
  using assms
proof (induction cs)
  case Nil
  show ?case by (simp add: frames_stop take_nothing)
next
  case (Cons c cs)
  then have c: "97 \<le> byte_of c" "byte_of c \<le> 122" by simp_all
  then have "c \<noteq> LF" "c \<noteq> CR" by (auto simp: LF_def CR_def byte_of_def)
  with c have "take_sse_event (letter_frame c @ [LF, LF]) = Inr (Some (letter_frame c, []))"
    by (simp add: letter_frame_def take_sse_event_def sse_separator_def earliest_separator_def LF_def CR_def starts_with_def
      ensure_provider_stream_frame_size_def MAX_PROVIDER_STREAM_EVENT_BYTES_def ensure_def is_utf8_def byte_of_def)
  from sse.stable [OF this, of "concat (map (\<lambda>c. letter_frame c @ [LF, LF]) cs)"] Cons
  show ?case by (auto intro: frames_take)
qed

lemma letter_data:
  assumes "97 \<le> byte_of c" "byte_of c \<le> 122"
  shows "sse_data (letter_frame c) = [c]" "sse_event_name (letter_frame c) = None"
proof -
  from assms have "c \<noteq> LF" by (auto simp: LF_def byte_of_def)
  with assms show "sse_data (letter_frame c) = [c]" "sse_event_name (letter_frame c) = None"
    by (simp_all add: letter_frame_def sse_event_name_def sse_data_def text_lines_def LF_def line_value_def starts_with_def Let_def
      ascii_space_def space2_def space3_def byte_of_def)
qed

definition ev_start :: json where
  "ev_start = JObject [(''message'', JObject [(''content'', JArray []), (''id'', JString ''m''), (''model'', JString ''c''),
     (''role'', JString ''assistant'')]), (''type'', JString ''message_start'')]"

definition ev_block :: "u64 \<Rightarrow> json \<Rightarrow> json" where
  "ev_block i b = JObject [(''content_block'', b), (''index'', JNumber (PosInt i)), (''type'', JString ''content_block_start'')]"

definition ev_close :: "u64 \<Rightarrow> json" where
  "ev_close i = JObject [(''index'', JNumber (PosInt i)), (''type'', JString ''content_block_stop'')]"

definition ev_reason :: json where
  "ev_reason = JObject [(''delta'', JObject [(''stop_reason'', JString ''end_turn'')]), (''type'', JString ''message_delta'')]"

definition ev_stop :: json where
  "ev_stop = JObject [(''type'', JString ''message_stop'')]"

definition an_events :: "(string \<times> json) list" where
  "an_events = [(''a'', ev_start),
     (''b'', ev_block 0 (JObject [(''data'', JString ''x''), (''type'', JString ''redacted_thinking'')])), (''c'', ev_close 0),
     (''d'', ev_block 1 (JObject [(''text'', JString ''ok''), (''type'', JString ''text'')])), (''e'', ev_close 1),
     (''f'', ev_reason), (''g'', ev_stop)]"

definition an_codec :: json_codec where
  "an_codec = \<lparr>jc_parse = map_of an_events, jc_print = (\<lambda>_. [])\<rparr>"

definition an_started_state :: anthropic_state where
  "an_started_state = anthropic_start\<lparr>an_started := True, an_message_id := Some ''m'', an_model := Some ''c''\<rparr>"

lemma letter_event:
  assumes "97 \<le> byte_of c" "byte_of c \<le> 122" "map_of an_events [c] = Some v" "get_str ''type'' v = Some kind" "kind \<noteq> ''error''"
    and "usage_from v = None" "anthropic_event an_codec k v kind s = (Inr (), t)"
  shows "anthropic_frame an_codec k (letter_frame c) s = (Inr (), t)"
  using assms letter_data [OF assms(1,2)]
  by (simp add: anthropic_frame_def process_anthropic_event_def an_codec_def ok_or_def ensure_def anthropic_usage_def op_ok_def)

lemmas an_views = get_str_def json_get_def json_as_str_def usage_from_def or_else_def json_pointer_def pointer_step_def
  block_index_def get_u64_def json_as_u64_def ensure_def ok_or_def filter_opt_def json_as_object_def json_as_array_def op_ok_def
  byte_of_def an_events_def anthropic_event_def ev_start_def ev_block_def ev_close_def ev_reason_def ev_stop_def pointer_str_def

lemma an_step_a: "anthropic_frame an_codec k (letter_frame CHR ''a'') anthropic_start = (Inr (), an_started_state)"
  by (rule letter_event [where kind = "''message_start''" and v = ev_start])
    (simp_all add: an_views message_start_def Let_def safe_provider_id_def MAX_PROVIDER_TOOL_CALL_ID_BYTES_def
      is_ascii_alphanumeric_def is_ascii_alphabetic_def is_ascii_digit_def anthropic_start_def an_started_state_def)

definition an_mid :: "u32 \<Rightarrow> u32 option \<Rightarrow> anthropic_state" where
  "an_mid n i = an_started_state\<lparr>an_blocks := [(0, BlockRedacted ''x'')], an_next_index := n, an_open_index := i\<rparr>"

definition an_late :: "u32 \<Rightarrow> u32 option \<Rightarrow> string option \<Rightarrow> bool \<Rightarrow> anthropic_state" where
  "an_late n i why stopped = an_started_state\<lparr>sl_sent := [DeltaText 0 ''ok''],
     an_blocks := [(0, BlockRedacted ''x''), (1, BlockTextState ''ok'')], an_next_index := n, an_open_index := i,
     an_output_indices := [(0 + 1, 0)], an_next_output_index := 1, an_stop_reason := why, an_stopped := stopped\<rparr>"

lemmas an_states = an_mid_def an_late_def an_started_state_def anthropic_start_def

lemma an_step_b: "anthropic_frame an_codec k (letter_frame CHR ''b'') an_started_state = (Inr (), an_mid 0 (Some 0))"
  by (rule letter_event [where kind = "''content_block_start''" and v = "ev_block 0 (JObject [(''data'', JString ''x''), (''type'', JString ''redacted_thinking'')])"])
    (simp_all add: an_views block_start_def block_of_def is_redacted_def announce_block_def Let_def an_states)

lemma an_step_c: "anthropic_frame an_codec k (letter_frame CHR ''c'') (an_mid 0 (Some 0)) = (Inr (), an_mid 1 None)"
  by (rule letter_event [where kind = "''content_block_stop''" and v = "ev_close 0"])
    (simp_all add: an_views block_stop_def open_block_def check_block_def an_states)

lemma an_step_d: "anthropic_frame an_codec (\<lambda>_. None) (letter_frame CHR ''d'') (an_mid 1 None) = (Inr (), an_late 1 (Some 1) None False)"
  by (rule letter_event [where kind = "''content_block_start''" and v = "ev_block 1 (JObject [(''text'', JString ''ok''), (''type'', JString ''text'')])"])
    (simp_all add: an_views block_start_def block_of_def is_redacted_def announce_block_def Let_def an_states emit_def text_or_empty_def)

lemma an_step_e: "anthropic_frame an_codec k (letter_frame CHR ''e'') (an_late 1 (Some 1) None False) = (Inr (), an_late 2 None None False)"
  by (rule letter_event [where kind = "''content_block_stop''" and v = "ev_close 1"])
    (simp_all add: an_views block_stop_def open_block_def check_block_def an_states)

lemma an_step_f: "anthropic_frame an_codec k (letter_frame CHR ''f'') (an_late 2 None None False) = (Inr (), an_late 2 None (Some ''end_turn'') False)"
  by (rule letter_event [where kind = "''message_delta''" and v = ev_reason])
    (simp_all add: an_views message_delta_def op_check_def an_states)

lemma an_step_g: "anthropic_frame an_codec k (letter_frame CHR ''g'') (an_late 2 None (Some ''end_turn'') False)
    = (Inr (), an_late 2 None (Some ''end_turn'') True)"
  by (rule letter_event [where kind = "''message_stop''" and v = ev_stop])
    (simp_all add: an_views message_stop_def an_states)

definition an_body :: string where
  "an_body = concat (map (\<lambda>c. letter_frame c @ [LF, LF]) ''abcdefg'')"

definition an_arrivals :: "arrival list" where
  "an_arrivals = [ArriveChunk 1 an_body]"

definition an_response :: model_response where
  "an_response = \<lparr>mrs_content = [ModelText ''ok''], mrs_finish_reason = FinishStop, mrs_usage = no_usage,
     mrs_replay = \<lparr>cap_response = JObject [(''messageId'', JString ''m''), (''model'', JString ''c''), (''redactedThinkingTail'', JArray [])],
       cap_blocks = [JObject [(''redactedThinkingBefore'', JArray [JObject [(''data'', JString ''x'')]])]]\<rparr>\<rparr>"

definition an_end :: "anthropic_state connection" where
  "an_end = \<lparr>cn_received = 63, cn_first_byte_seen = True, cn_deadline = 300001, cn_parser = an_late 2 None (Some ''end_turn'') True\<rparr>"

lemma an_finish: "finish_anthropic an_codec (an_late 2 None (Some ''end_turn'') True) = Inr an_response"
  by (simp add: finish_anthropic_def an_states stop_finish_def with_redacted_def ensure_def ensure_nonempty_response_def has_output_def an_response_def)

lemma an_drain:
  "sse_drain (\<lambda>f. feed default_timeouts 1 (anthropic_frame an_codec (\<lambda>_. None) f) (sse_data f \<noteq> []))
     an_body cn = (Inr [], cn\<lparr>cn_deadline := 300001, cn_parser := an_late 2 None (Some ''end_turn'') True\<rparr>)" if "cn_parser cn = anthropic_start"
proof -
  have "op_each (anthropic_frame an_codec (\<lambda>_. None)) (map letter_frame ''abcdefg'') anthropic_start
      = (Inr (), an_late 2 None (Some ''end_turn'') True)"
    by (simp add: an_step_a an_step_b an_step_c an_step_d an_step_e an_step_f an_step_g op_ok_def)
  from sse_stream.drain_runs [OF letter_frames, of "''abcdefg''", where h = "anthropic_frame an_codec (\<lambda>_. None)" and eff = "\<lambda>f. sse_data f \<noteq> []" and cn = cn and to = default_timeouts and now = 1] this that
  show ?thesis by (simp add: an_body_def byte_of_def letter_data wit_timeouts)
qed

lemma an_run: "stream_anthropic an_codec (\<lambda>_. None) default_timeouts 0 an_arrivals = (Inr an_response, an_end)"
proof -
  have "length an_body = 63" "an_body \<noteq> []" by (simp_all add: an_body_def letter_frame_def)
  moreover have "an_stopped (an_late 2 None (Some ''end_turn'') True)" by (simp add: an_late_def)
  ultimately show ?thesis using an_drain an_finish
    by (simp add: stream_anthropic_def an_arrivals_def connect_def observe_bytes_def wit_timeouts framed_def append_provider_stream_chunk_def
      ensure_def MAX_PROVIDER_STREAM_RESPONSE_BYTES_def MAX_PROVIDER_STREAM_EVENT_BYTES_def ensure_provider_stream_frame_size_def
      op_ok_def op_check_def an_end_def)
qed

definition an_snapshot :: request_snapshot where
  "an_snapshot = (case sample_snapshot of RequestSnapshotPrepared a b c d e f g h i j l m n p q r s \<Rightarrow>
     RequestSnapshotPrepared a b ''anthropic-messages'' d e f g h i j l m n p q r s)"

definition an_envelope :: replay_envelope where
  "an_envelope = EnvelopePrepared 1 ''anthropic-messages'' 1
     \<lparr>rsrc_request_id = ''q'', rsrc_request_snapshot_digest = ''s'', rsrc_route_id = ''r'',
       rsrc_route_revision = 1, rsrc_model_id = ''m'', rsrc_replay_domain_id = ''d'',
       rsrc_request_content_hash = ''h'', rsrc_preparation_version = 1,
       rsrc_projection_policy = ''p'', rsrc_image_projection_refs = [],
       rsrc_image_projection_hash = ''i'', rsrc_assistant_content_hash = ''c''\<rparr>
     (cap_response (mrs_replay an_response)) [\<lparr>rblk_index = 0, rblk_kind = BlockText, rblk_content_hash = ''b'',
       rblk_metadata = JObject [(''redactedThinkingBefore'', JArray [JObject [(''data'', JString ''x'')]])]\<rparr>]"

lemma an_prepared:
  "prepare_envelope sample_digests anthropic_codec ''q'' an_snapshot [ModelText ''[REDACTED]''] (mrs_replay an_response) = Inr an_envelope"
  by (simp add: sample_replay_defs an_snapshot_def an_envelope_def an_response_def prepare_envelope_def validate_model_envelope_def
      validate_envelope_common_def anthropic_codec_def anthropic_validate_response_def anthropic_validate_block_def
      object_with_allowed_keys_def optional_bounded_string_def optional_id_def required_string_def safe_provider_id_def validate_redacted_list_def
      validate_metadata_safety_def replay_limits is_sensitive_key_def normalized_key_def to_ascii_lower_def starts_with_def
      model_block_kind_def model_block_fact_def source_matches_def image_projection_hash_def MAX_PROVIDER_TOOL_CALL_ID_BYTES_def
      provider_call_metadata_def json_get_def json_as_str_def ensure_def alphanumeric_defs)

lemma an_projected:
  "project_history anthropic_codec (snapshot_target an_snapshot)
     ([] @ AssistantReply (map clear_private [ModelText ''[REDACTED]'']) (Some an_envelope) None # [])
   = Inr [AssistantReply [ModelText ''[REDACTED]''] None (Some (JObject [(''response'', env_response an_envelope),
       (''blocks'', JArray (map rblk_metadata (env_blocks an_envelope)))]))]"
  by (simp add: sample_replay_defs an_snapshot_def an_envelope_def an_response_def project_history_def history_start_def project_message_def
      restore_reply_def same_domain_def snapshot_target_def clear_private_def anthropic_codec_def anthropic_restore_block_def
      env_blocks_def env_response_def)

subsection \<open>What was streamed and what is kept\<close>

text \<open>
  C16. What an Anthropic stream sent is what its response says: block number i of the response is the
  text, the thinking or the call that was sent under its index while it streamed, where redacted
  thinking takes no index and a block that stayed empty takes an index but is dropped. Only the arguments of a call
  that got no fragment were not sent: they are the input that came whole with its start.
\<close>

lemma streamed_blocks_are_the_response:
  assumes "stream_anthropic jc k to now as = (Inr r, cn)"
  defines "bs \<equiv> map snd (an_blocks (cn_parser cn))"
  shows "length (mrs_content r) = length (kept bs) \<and>
    (\<forall>i<length (kept bs). renders_streamed jc (visible bs ! (kept bs ! i)) (mrs_content r ! i)
      (received (sl_sent (cn_parser cn)) (of_nat (kept bs ! i))))"
proof -
  from stream_anthropic_cases [OF assms(1)] obtain cs where h: "an_holds jc (cn_parser cn) cs"
    and fin: "finish_anthropic jc (cn_parser cn) = Inr r" by (auto simp: an_ok_def)
  then have bs: "bs = cs" by (simp add: bs_def an_holds_def)
  from fin h obtain fin_bs rest where "final_blocks jc 0 [] cs = Inr (fin_bs, rest)" "mrs_content r = map fst fin_bs"
    by (auto simp: finish_anthropic_def res_simps Let_def an_holds_def)
  with final_blocks_shown have shown: "list_all2 (shown_as jc) (map (\<lambda>j. visible cs ! j) (kept cs)) (mrs_content r)"
    by (metis kept_blocks)
  have "received (sl_sent (cn_parser cn)) (of_nat j) = block_part (visible cs ! j)" if "j < length (visible cs)" for j
    using h that length_visible [of cs] by (auto simp: an_holds_def tracked_def an_want_def fun_eq_iff)
  moreover have "kept cs ! i < length (visible cs)" if "i < length (kept cs)" for i
    using that by (intro kept_less nth_mem)
  moreover have "given jc (visible cs ! j)" if "j < length (visible cs)" for j
    using h nth_mem [OF that] by (auto simp: an_holds_def list_all_iff visible_def)
  ultimately show ?thesis using shown bs by (auto simp: list_all2_conv_all_nth intro!: shown_renders)
qed

lemma streamed_blocks_are_the_response_witness:
  "renders_streamed an_codec (BlockTextState ''ok'') (mrs_content an_response ! 0) (received (sl_sent (cn_parser an_end)) 0)"
  using streamed_blocks_are_the_response [OF an_run, THEN conjunct2, rule_format, of 0]
  by (simp add: an_end_def an_states kept_def visible_def is_redacted_def block_output_def)

text \<open>A block as the response must have it.\<close>

definition whole_block :: "json_codec \<Rightarrow> model_block \<Rightarrow> bool" where
  "whole_block jc m \<longleftrightarrow> (case m of
     ModelText t \<Rightarrow> t \<noteq> []
   | ModelReasoning t p \<Rightarrow> t \<noteq> [] \<and> (case p of None \<Rightarrow> False | Some v \<Rightarrow> text_or_empty (pointer_str v ''/anthropic/signature'') \<noteq> [])
   | ModelToolCall c \<Rightarrow> safe_provider_id (text_or_empty (mtc_provider_call_id c)) \<and> trim_text (mtc_name c) \<noteq> []
       \<and> length (mtc_name c) \<le> 256 \<and> json_as_object (mtc_arguments c) \<noteq> None)"

definition redacted_data :: "block_state list \<Rightarrow> json list" where
  "redacted_data bs = concat (map (\<lambda>b. case b of BlockRedacted d \<Rightarrow> [JObject [(''data'', JString d)]] | _ \<Rightarrow> []) bs)"

definition redacted_before :: "json \<Rightarrow> json list" where
  "redacted_before m = json_items (json_get ''redactedThinkingBefore'' m)"

lemma redacted_before_with:
  "redacted_before (with_redacted [] p) = p" "redacted_before (with_redacted [(''signature'', v)] p) = p"
  "redacted_before (with_redacted [(''providerCallId'', v)] p) = p"
  by (simp_all add: redacted_before_def with_redacted_def json_get_def json_items_def)

lemma final_blocks_redacted:
  "final_blocks jc n p bs = Inr (cs, rest) \<Longrightarrow> concat (map (redacted_before \<circ> snd) cs) @ rest = p @ redacted_data bs"
proof (induction jc n p bs arbitrary: cs rest rule: final_blocks.induct)
  case (3 jc n pending t bs)
  then show ?case by (auto simp: res_simps redacted_data_def redacted_before_with split: if_splits)
next
  case (4 jc n pending t g bs)
  then show ?case by (auto simp: res_simps redacted_data_def redacted_before_with split: if_splits)
next
  case (5 jc n pending i name arguments saw bs)
  then show ?case by (auto simp: res_simps redacted_data_def redacted_before_with)
qed (auto simp: redacted_data_def)

lemma complete_whole: "complete jc b \<Longrightarrow> block_output b \<Longrightarrow> shown_as jc b m \<Longrightarrow> whole_block jc m"
  by (cases b; cases m) (auto simp: complete_def check_block_def block_output_def shown_as_def whole_block_def res_simps
    pointer_str_def json_pointer_def pointer_step_def json_as_str_def text_or_empty_def)

text \<open>
  C15. An Anthropic response is whole: it is made only when the message announced why it stopped, every
  block it took was closed and complete (thinking is signed, a call has a usable id, a name and an
  object of arguments), the output limit was not hit, and the redacted thinking, which nobody sees but the
  provider wants back, is all there and in order between the blocks.
\<close>

lemma anthropic_response_is_whole:
  assumes "stream_anthropic jc k to now as = (Inr r, cn)"
  defines "bs \<equiv> map snd (an_blocks (cn_parser cn))"
  shows "list_all (complete jc) bs \<and> list_all (whole_block jc) (mrs_content r)
    \<and> an_stop_reason (cn_parser cn) \<noteq> None \<and> mrs_finish_reason r \<noteq> FinishLength
    \<and> concat (map redacted_before (cap_blocks (mrs_replay r)))
        @ json_items (json_get ''redactedThinkingTail'' (cap_response (mrs_replay r))) = redacted_data bs"
proof -
  from stream_anthropic_cases [OF assms(1)] obtain cs where h: "an_holds jc (cn_parser cn) cs" and stopped: "an_stopped (cn_parser cn)"
    and fin: "finish_anthropic jc (cn_parser cn) = Inr r" by (auto simp: an_ok_def)
  then have bs: "bs = cs" by (simp add: bs_def an_holds_def)
  from h stopped have "an_open_index (cn_parser cn) = None" "an_stop_reason (cn_parser cn) \<noteq> None" by (simp_all add: an_holds_def an_flags_def)
  with h have all: "list_all (complete jc) cs" by (simp add: an_holds_def an_place_def)
  from fin h obtain blocks rest where fb: "final_blocks jc 0 [] cs = Inr (blocks, rest)" and reason: "mrs_finish_reason r \<noteq> FinishLength"
    and content: "mrs_content r = map fst blocks" "cap_blocks (mrs_replay r) = map snd blocks"
      "json_get ''redactedThinkingTail'' (cap_response (mrs_replay r)) = Some (JArray rest)"
    by (auto simp: finish_anthropic_def res_simps Let_def an_holds_def json_get_def)
  have "list_all (whole_block jc) (mrs_content r)"
    unfolding list_all_length
  proof (intro allI impI)
    fix i
    assume i: "i < length (mrs_content r)"
    from final_blocks_shown [OF fb] content(1) i have s: "shown_as jc (filter block_output cs ! i) (mrs_content r ! i)"
      and "i < length (filter block_output cs)" by (auto simp: list_all2_conv_all_nth)
    then have "filter block_output cs ! i \<in> set (filter block_output cs)" by (intro nth_mem)
    with all complete_whole [OF _ _ s] show "whole_block jc (mrs_content r ! i)" by (simp add: list_all_iff)
  qed
  with all reason bs \<open>an_stop_reason (cn_parser cn) \<noteq> None\<close> final_blocks_redacted [OF fb] content(2,3) show ?thesis
    by (simp add: json_items_def comp_def)
qed

lemma anthropic_response_is_whole_witness:
  "list_all (whole_block an_codec) (mrs_content an_response)
     \<and> concat (map redacted_before (cap_blocks (mrs_replay an_response)))
       @ json_items (json_get ''redactedThinkingTail'' (cap_response (mrs_replay an_response))) = [JObject [(''data'', JString ''x'')]]"
  using anthropic_response_is_whole [OF an_run] by (simp add: an_end_def an_states redacted_data_def)

subsection \<open>The way back\<close>

text \<open>A block in the form in which the provider takes it back, redacted as it was stored.\<close>

definition wire :: "(string \<Rightarrow> string) \<Rightarrow> json_codec \<Rightarrow> block_state \<Rightarrow> json list" where
  "wire redact jc b = (case b of
     BlockTextState t \<Rightarrow> [json_text (redact t)]
   | BlockThinking t g \<Rightarrow> [JObject [(''signature'', JString g), (''thinking'', JString (redact t)), (''type'', JString ''thinking'')]]
   | BlockRedacted d \<Rightarrow> [JObject [(''data'', JString d), (''type'', JString ''redacted_thinking'')]]
   | BlockToolUse i n a _ \<Rightarrow> (case jc_parse jc a of None \<Rightarrow> []
       | Some v \<Rightarrow> [JObject [(''id'', JString i), (''input'', redact_json_value redact v), (''name'', JString (redact n)),
           (''type'', JString ''tool_use'')]]))"

text \<open>
  Which of the streamed blocks go back: calls, and text and thinking that are not blank. Redacted
  thinking belongs to the next text, thinking or call that is not empty, and is lost with it when
  that one is blank.
\<close>

definition blank_block :: "block_state \<Rightarrow> bool" where
  "blank_block b = (case b of BlockTextState t \<Rightarrow> is_blank t | BlockThinking t _ \<Rightarrow> is_blank t | _ \<Rightarrow> False)"

definition swallowed :: "block_state list \<Rightarrow> bool" where
  "swallowed rest = (case find block_output rest of None \<Rightarrow> False | Some b \<Rightarrow> blank_block b)"

definition goes_back :: "block_state \<Rightarrow> block_state list \<Rightarrow> bool" where
  "goes_back b rest \<longleftrightarrow> \<not> blank_block b \<and> (is_redacted b \<longrightarrow> \<not> swallowed rest)"

fun returned :: "block_state list \<Rightarrow> block_state list" where
  "returned [] = []"
| "returned (b # bs) = (if goes_back b bs then b # returned bs else returned bs)"

definition redacted_wire :: "json list \<Rightarrow> json list" where
  "redacted_wire ds = map (\<lambda>d. JObject [(''data'', JString d), (''type'', JString ''redacted_thinking'')]) (filter_map (get_str ''data'') ds)"

lemma redacted_wire_simps [simp]: "redacted_wire [] = []" "redacted_wire (xs @ ys) = redacted_wire xs @ redacted_wire ys"
  "redacted_wire [JObject [(''data'', JString d)]] = wire redact jc (BlockRedacted d)"
  by (simp_all add: redacted_wire_def filter_map_append wire_def get_str_def json_get_def json_as_str_def)

lemma redacted_blocks_wire: "redacted_blocks (Some m) key = redacted_wire (json_items (json_get key m))"
  by (simp add: redacted_blocks_def redacted_wire_def)

lemma redacted_blocks_before: "redacted_blocks (Some m) ''redactedThinkingBefore'' = redacted_wire (redacted_before m)"
  by (simp add: redacted_blocks_wire redacted_before_def)

lemma anthropic_block_thinking: "anthropic_block (ModelReasoning t (Some (JObject [(''anthropic'', JObject [(''signature'', JString g), (''type'', ty)])])))
    = JObject [(''signature'', JString g), (''thinking'', JString t), (''type'', JString ''thinking'')]"
  "anthropic_block (ModelReasoning t (Some (JObject [(''anthropic'', JObject [(''type'', ty), (''signature'', JString g)])])))
    = JObject [(''signature'', JString g), (''thinking'', JString t), (''type'', JString ''thinking'')]"
  by (simp_all add: anthropic_block_def pointer_str_def json_pointer_def pointer_step_def json_as_str_def)

text \<open>A block with its provider's data, but with the texts of the stored one.\<close>

definition stored :: "(string \<Rightarrow> string) \<Rightarrow> model_block \<Rightarrow> model_block" where
  "stored redact b = (case b of
     ModelText t \<Rightarrow> ModelText (redact t)
   | ModelReasoning t item \<Rightarrow> ModelReasoning (redact t) item
   | ModelToolCall c \<Rightarrow> ModelToolCall (c\<lparr>mtc_name := redact (mtc_name c),
       mtc_arguments := redact_json_value redact (mtc_arguments c)\<rparr>))"

abbreviation kept_of :: "(model_block \<times> json) list \<Rightarrow> (model_block \<times> json) list" where
  "kept_of cs \<equiv> filter (\<lambda>(b, _). model_block_has_output b) cs"

lemma final_blocks_wire:
  "final_blocks jc n p bs = Inr (cs, rest) \<Longrightarrow>
   concat (map (\<lambda>(b, m). redacted_blocks (Some m) ''redactedThinkingBefore'' @ [anthropic_block (stored redact b)]) (kept_of cs))
       @ redacted_wire rest
     = (if swallowed bs then [] else redacted_wire p) @ concat (map (wire redact jc) (returned bs))"
proof (induction jc n p bs arbitrary: cs rest rule: final_blocks.induct)
  case (2 jc n pending d bs)
  from 2(1) [OF 2(2) [simplified]] show ?case
    by (simp add: redacted_wire_simps(3) [of _ redact jc] swallowed_def block_output_def goes_back_def blank_block_def is_redacted_def)
next
  case (3 jc n pending t bs)
  then show ?case
    by (auto simp: res_simps redacted_blocks_before redacted_before_with wire_def anthropic_block_def stored_def
        model_block_has_output_def swallowed_def block_output_def goes_back_def blank_block_def is_redacted_def split: if_splits)
next
  case (4 jc n pending t g bs)
  then show ?case
    by (auto simp: res_simps redacted_blocks_before redacted_before_with wire_def anthropic_block_thinking stored_def
        model_block_has_output_def swallowed_def block_output_def goes_back_def blank_block_def is_redacted_def split: if_splits)
next
  case (5 jc n pending i name arguments saw bs)
  then show ?case
    by (auto simp: res_simps redacted_blocks_before redacted_before_with wire_def anthropic_block_def call_id_of_def stored_def
        model_block_has_output_def swallowed_def block_output_def goes_back_def blank_block_def is_redacted_def)
qed (simp add: swallowed_def)

text \<open>The envelope carries what a block needs to become itself again.\<close>

definition carried :: "model_block \<Rightarrow> json \<Rightarrow> bool" where
  "carried b m \<longleftrightarrow> (case b of
     ModelText t \<Rightarrow> True
   | ModelReasoning t item \<Rightarrow> (\<exists>g. json_get ''signature'' m = Some (JString g)
       \<and> item = Some (JObject [(''anthropic'', JObject [(''signature'', JString g), (''type'', JString ''thinking'')])]))
   | ModelToolCall c \<Rightarrow> mtc_provider_call_id c \<noteq> None \<and> provider_call_metadata m = mtc_provider_call_id c)"

lemma with_redacted_fields:
  "json_get ''signature'' (with_redacted [(''signature'', v)] p) = Some v"
  "json_get ''providerCallId'' (with_redacted [(''providerCallId'', v)] p) = Some v"
  by (simp_all add: with_redacted_def json_get_def)

lemma final_blocks_carried: "final_blocks jc n p bs = Inr (cs, rest) \<Longrightarrow> list_all (\<lambda>(b, m). carried b m) cs"
proof (induction jc n p bs arbitrary: cs rest rule: final_blocks.induct)
  case (3 jc n pending t bs)
  then show ?case by (auto simp: res_simps carried_def split: if_splits)
next
  case (4 jc n pending t g bs)
  then show ?case by (auto simp: res_simps carried_def with_redacted_fields split: if_splits)
next
  case (5 jc n pending i name arguments saw bs)
  then show ?case by (auto simp: res_simps carried_def with_redacted_fields provider_call_metadata_def json_as_str_def)
qed simp_all

lemma restore_carried:
  assumes "carried b m" "without_id c = without_id (without_item b)"
    and "anthropic_restore_block (clear_private (redacted_block redact c)) m = Inr c'"
  shows "anthropic_block c' = anthropic_block (stored redact b)"
proof (cases b)
  case (ModelText t)
  with assms(2) have "c = ModelText t" by (cases c) (simp_all add: without_id_def without_item_def)
  with ModelText assms(3) show ?thesis
    by (simp add: redacted_block_def clear_private_def anthropic_restore_block_def stored_def)
next
  case (ModelReasoning t item)
  with assms(2) have "c = ModelReasoning t None" by (cases c) (simp_all add: without_id_def without_item_def)
  with ModelReasoning assms(1,3) show ?thesis
    by (auto simp: redacted_block_def clear_private_def anthropic_restore_block_def stored_def carried_def res_simps
        json_as_str_def anthropic_block_thinking)
next
  case (ModelToolCall call)
  with assms(2) obtain d where c: "c = ModelToolCall d" "d\<lparr>mtc_call_id := []\<rparr> = call\<lparr>mtc_call_id := []\<rparr>"
    by (cases c) (simp_all add: without_id_def without_item_def)
  then have "mtc_name d = mtc_name call" "mtc_arguments d = mtc_arguments call"
    by (cases d; cases call; simp)+
  with c(1) ModelToolCall assms(1,3) show ?thesis
    by (auto simp: redacted_block_def clear_private_def anthropic_restore_block_def stored_def carried_def
        anthropic_block_def call_id_of_def)
qed

lemma restore_each_carried:
  "list_all (\<lambda>(b, m). carried b m) cs \<Longrightarrow> map rblk_metadata blocks = map snd cs \<Longrightarrow>
   map without_id content = map (without_id \<circ> without_item \<circ> fst) cs \<Longrightarrow>
   restore_each anthropic_restore_block (map (\<lambda>b. clear_private (redacted_block redact b)) content) blocks = Inr content' \<Longrightarrow>
   map anthropic_block content' = map (anthropic_block \<circ> stored redact \<circ> fst) cs"
proof (induction cs arbitrary: blocks content content')
  case (Cons c cs)
  obtain b bs where bs: "blocks = b # bs" using Cons.prems(2) by (cases blocks) auto
  obtain d ds where ds: "content = d # ds" using Cons.prems(3) by (cases content) auto
  from Cons.prems(4) obtain x xs where x: "anthropic_restore_block (clear_private (redacted_block redact d)) (rblk_metadata b) = Inr x"
      "restore_each anthropic_restore_block (map (\<lambda>b. clear_private (redacted_block redact b)) ds) bs = Inr xs" "content' = x # xs"
    by (auto simp: bs ds res_simps)
  have "anthropic_block x = anthropic_block (stored redact (fst c))"
    using Cons.prems x(1) by (intro restore_carried [of _ "snd c" d redact]) (auto simp: bs ds split: prod.splits)
  moreover have "map anthropic_block xs = map (anthropic_block \<circ> stored redact \<circ> fst) cs"
    using Cons.prems x(2) by (intro Cons.IH [of bs ds]) (simp_all add: bs ds)
  ultimately show ?case by (simp add: x(3))
qed simp

lemma prepare_blocks_metadata:
  "prepare_blocks cx codec i cs ms = Inr bs \<Longrightarrow> length ms = length cs \<Longrightarrow> map rblk_metadata bs = ms"
proof (induction cx codec i cs ms arbitrary: bs rule: prepare_blocks.induct)
  case (1 cx codec i c cs m ms)
  then show ?case by (auto simp: res_simps)
qed auto

lemma prepare_envelope_parts:
  assumes "prepare_envelope cx codec rid snap content capture = Inr env"
  shows "env_response env = cap_response capture \<and> map rblk_metadata (env_blocks env) = cap_blocks capture"
proof (cases snap)
  case (RequestSnapshotPrepared x1 x2 x3 x4 x5 x6 x7 x8 x9 x10 x11 x12 x13 x14 x15 x16 x17)
  with assms show ?thesis
    by (auto simp: prepare_envelope_def res_simps Let_def env_response_def env_blocks_def prepare_blocks_metadata split: if_splits)
qed

lemma assistant_of_pairs:
  assumes "map anthropic_block content = map (anthropic_block \<circ> fst) cs"
  shows "concat (map (\<lambda>(i, b). redacted_blocks (item_at i (map snd cs)) k @ [anthropic_block b]) (enumerate 0 content))
    = concat (map (\<lambda>(b, m). redacted_blocks (Some m) k @ [anthropic_block b]) cs)"
proof -
  from assms have len: "length content = length cs" by (metis length_map)
  have "anthropic_block (content ! i) = anthropic_block (fst (cs ! i))" if "i < length cs" for i
    using assms that len by (metis comp_apply nth_map)
  then have "map (\<lambda>(i, b). redacted_blocks (item_at i (map snd cs)) k @ [anthropic_block b]) (enumerate 0 content)
      = map (\<lambda>(b, m). redacted_blocks (Some m) k @ [anthropic_block b]) cs"
    using len by (intro nth_equalityI) (auto simp: nth_enumerate_eq item_at_def split: prod.split)
  then show ?thesis by simp
qed

text \<open>
  C14. What an Anthropic response said goes back to the provider. When a call has settled the
  response (blank blocks are dropped, ids made new, the content redacted for the event store) and its
  stored content is projected with its envelope into a later request of the same route, model and
  domain, the message encoded from it holds, in the order in which they were streamed: every text
  and thinking that is not blank, redacted as it was stored, the thinking with its signature; every
  call, under the id the provider gave it, its name and input redacted as they were stored; and the
  redacted thinking at its place. Nothing else goes back, so an empty or blank block is gone even if
  it was signed, and redacted thinking is lost when the next block that is not empty is blank. The
  redaction is assumed to leave the tags of the stored blocks alone.
\<close>

lemma response_goes_back_as_it_came:
  assumes "stream_anthropic jc k to now as = (Inr r, cn)"
    and "settle_response cx anthropic_codec rid snap history r = Some (Inr p)"
    and "committed_model_content (cc_redact cx) (prs_content p) = Some committed" and "keeps_tags (cc_redact cx)"
    and "project_history anthropic_codec (snapshot_target snap)
      (pre @ AssistantReply (map clear_private committed) (Some (prs_envelope p)) old # post) = Inr out"
  shows "\<exists>content native. out ! length pre = AssistantReply content None (Some native)
    \<and> anthropic_assistant content (Some native)
      = concat (map (wire (cc_redact cx) jc) (returned (map snd (an_blocks (cn_parser cn)))))"
proof -
  from stream_anthropic_cases [OF assms(1)] obtain bs where h: "an_blocks (cn_parser cn) = numbered bs"
    and fin: "finish_anthropic jc (cn_parser cn) = Inr r" by (auto simp: an_ok_def an_holds_def)
  from fin h obtain cs rest where fb: "final_blocks jc 0 [] bs = Inr (cs, rest)" and content: "mrs_content r = map fst cs"
    "cap_blocks (mrs_replay r) = map snd cs"
    "json_get ''redactedThinkingTail'' (cap_response (mrs_replay r)) = Some (JArray rest)"
    by (auto simp: finish_anthropic_def res_simps Let_def json_get_def)
  have kept: "kept_pairs r = kept_of cs" by (simp add: kept_pairs_def content zip_map_fst_snd)
  note settled = settle_responseD [OF assms(2,4), unfolded kept]
  then have com: "committed = map (redacted_block (cc_redact cx)) (prs_content p)" using assms(3) by simp
  from settled have env: "prepare_envelope (cc_replay cx) anthropic_codec rid snap committed
      ((mrs_replay r)\<lparr>cap_blocks := map snd (kept_of cs)\<rparr>) = Inr (prs_envelope p)" by (simp add: com)
  from assms(5) obtain s s' pre' m' post' where m: "project_messages anthropic_codec (snapshot_target snap) history_start pre = Inr (s, pre')"
      "project_message anthropic_codec (snapshot_target snap) s
        (AssistantReply (map clear_private committed) (Some (prs_envelope p)) old) = Inr (s', m')" "out = pre' @ m' # post'"
    by (auto simp: project_history_def project_messages_append res_simps split: if_splits)
  have idem: "clear_private (clear_private b) = clear_private b" for b by (cases b) (simp_all add: clear_private_def)
  from m(2) prepared_same_domain [OF env] obtain content' where
    r: "restore_each anthropic_restore_block (map (\<lambda>b. clear_private (redacted_block (cc_redact cx) b)) (prs_content p))
      (env_blocks (prs_envelope p)) = Inr content'"
    and m': "m' = AssistantReply content' None (Some (JObject [(''response'', env_response (prs_envelope p)),
      (''blocks'', JArray (map rblk_metadata (env_blocks (prs_envelope p))))]))"
    by (auto simp: project_message_def restore_reply_def anthropic_codec_def com comp_def idem res_simps)
  from prepare_envelope_parts [OF env] have parts: "env_response (prs_envelope p) = cap_response (mrs_replay r)"
    "map rblk_metadata (env_blocks (prs_envelope p)) = map snd (kept_of cs)" by simp_all
  have "list_all (\<lambda>(b, m). carried b m) (kept_of cs)"
    using final_blocks_carried [OF fb] by (auto simp: list_all_iff)
  from restore_each_carried [OF this parts(2) _ r] settled
  have wired: "map anthropic_block content' = map (anthropic_block \<circ> fst) (map (\<lambda>(b, m). (stored (cc_redact cx) b, m)) (kept_of cs))"
    by (simp add: comp_def split_def)
  have snds: "map snd (map (\<lambda>(b, m). (stored (cc_redact cx) b, m)) (kept_of cs)) = map snd (kept_of cs)"
    by (simp add: comp_def split_def)
  have "anthropic_assistant content' (Some (JObject [(''response'', cap_response (mrs_replay r)), (''blocks'', JArray (map snd (kept_of cs)))]))
      = concat (map (wire (cc_redact cx) jc) (returned bs))"
    using final_blocks_wire [OF fb, of "cc_redact cx"] assistant_of_pairs [OF wired, unfolded snds] content(3)
    by (simp add: anthropic_assistant_def json_get_def [of _ "JObject kvs" for kvs] json_items_def [of "Some (JArray vs)" for vs]
        redacted_blocks_wire comp_def split_def)
  with m' parts h have "m' = AssistantReply content' None (Some (JObject [(''response'', cap_response (mrs_replay r)), (''blocks'', JArray (map snd (kept_of cs)))]))"
    "anthropic_assistant content' (Some (JObject [(''response'', cap_response (mrs_replay r)), (''blocks'', JArray (map snd (kept_of cs)))]))
      = concat (map (wire (cc_redact cx) jc) (returned (map snd (an_blocks (cn_parser cn)))))" by simp_all
  moreover have "out ! length pre = m'" using m(3) project_messages_length [OF m(1)] by (metis nth_append_length)
  ultimately show ?thesis by blast
qed

definition an_call_codec :: call_codec where
  "an_call_codec = \<lparr>cc_replay = sample_digests, cc_redact = (\<lambda>s. if s = ''ok'' then ''[REDACTED]'' else s),
     cc_sha256 = (\<lambda>_. ''d'')\<rparr>"

definition an_settled :: prepared_response where
  "an_settled = \<lparr>prs_content = [ModelText ''ok''], prs_finish_reason = FinishStop, prs_usage = no_usage,
     prs_envelope = an_envelope\<rparr>"

lemma an_committed: "committed_model_content (cc_redact an_call_codec) [ModelText ''ok''] = Some [ModelText ''[REDACTED]'']"
  by (simp add: an_call_codec_def committed_model_content_def block_codec_defs)

lemma an_settles: "settle_response an_call_codec anthropic_codec ''q'' an_snapshot [] an_response = Some (Inr an_settled)"
proof -
  have "\<not> is_blank ''ok''" by (rule alphanumeric_not_blank) (simp add: alphanumeric_defs)
  then have kept: "filter (\<lambda>(b, _). model_block_has_output b) (zip (mrs_content an_response) (cap_blocks (mrs_replay an_response)))
      = zip [ModelText ''ok''] (cap_blocks (mrs_replay an_response))"
    by (simp add: an_response_def model_block_has_output_def)
  have "mrs_replay an_response\<lparr>cap_blocks := cap_blocks (mrs_replay an_response)\<rparr> = mrs_replay an_response" by simp
  moreover have "length (cap_blocks (mrs_replay an_response)) = 1" "length (mrs_content an_response) = 1"
    "mrs_finish_reason an_response = FinishStop" "mrs_usage an_response = no_usage"
    by (simp_all add: an_response_def)
  moreover have "map snd (zip [ModelText ''ok''] (cap_blocks (mrs_replay an_response))) = cap_blocks (mrs_replay an_response)"
      "map fst (zip [ModelText ''ok''] (cap_blocks (mrs_replay an_response))) = [ModelText ''ok'']"
    by (simp_all add: an_response_def)
  moreover have "cc_replay an_call_codec = sample_digests" by (simp add: an_call_codec_def)
  ultimately show ?thesis
    unfolding settle_response_def Let_def kept
    by (simp add: canonicalize_tool_call_ids_def without_item_def an_committed an_prepared ok_or_def an_settled_def)
qed

lemma response_goes_back_as_it_came_witness:
  "anthropic_assistant [ModelText ''[REDACTED]''] (Some (JObject [(''response'', env_response an_envelope),
       (''blocks'', JArray (map rblk_metadata (env_blocks an_envelope)))]))
     = [JObject [(''data'', JString ''x''), (''type'', JString ''redacted_thinking'')], json_text ''[REDACTED]'']"
proof -
  have "\<not> is_blank ''ok''" by (rule alphanumeric_not_blank) (simp add: alphanumeric_defs)
  moreover have "committed_model_content (cc_redact an_call_codec) (prs_content an_settled) = Some [ModelText ''[REDACTED]'']"
    using an_committed by (simp add: an_settled_def)
  moreover have "keeps_tags (cc_redact an_call_codec)" by (simp add: an_call_codec_def keeps_tags_def)
  moreover have "prs_envelope an_settled = an_envelope" by (simp add: an_settled_def)
  ultimately show ?thesis
    using response_goes_back_as_it_came [OF an_run an_settles, of "[ModelText ''[REDACTED]'']" "[]" None "[]"] an_projected
    by (simp add: an_end_def an_states wire_def goes_back_def blank_block_def swallowed_def block_output_def is_redacted_def
        an_call_codec_def)
qed

end
