(* ===== verification/Spec2Isabelle.thy ===== *)
theory Spec2Isabelle
  imports Inbox Surface Session_Append Lease_Machine Gate_Properties Stream_Responses Anthropic_Properties
begin

text \<open>
  ShellSpan is a desktop terminal (Tauri) with an Agent that works in it. Its Rust side,
  under src/src-tauri/src, has three large parts. The Agent runtime (agent\_runtime) runs a
  model in a loop and writes everything that happens to an append-only Session log; after a
  restart all of its state is folded from that log. The terminal broker (terminal\_broker.rs)
  stands between the pseudo terminals, the shells, the user and the Agent, and decides whose
  input reaches a terminal and what a command's outcome is. Around them lie the model
  adapters (llm), the native tools (agent\_runtime/native), connections, remote files and the
  frontend. This development models the parts whose decisions must never be wrong: the log
  with everything folded from it, the broker, the gate every native tool call passes, and the
  parsers of streamed model responses.

  How the parts interact. The driver asks the store to append payloads. The store stamps
  them, checks each against the log so far and folds the accepted event into the Session
  record (Session\_Append, Session\_Record); the inbox, the user questions, the life of the
  tool calls, the recovery checkpoint, the offer to retry a child, the messages of the next
  model request and the replay metadata of the providers are functions of the same log. A
  tool call that runs a visible command takes the lease of a terminal, begins a command and
  types it through the broker, which follows the shell by the events of its integration.
  Every native tool call passes the gate twice: once to be assessed, reviewed and granted a
  capability, and once more, with everything checked again, when it is dispatched. The calls
  come from the response of a model, which arrives as a stream of bytes in chunks; what it
  sends on the way is what the user sees, and what it makes at the end is what the log keeps.

  Theories, in the order they build on each other:

  \<^item> Prelude: machine integers at their width, the result type of fallible functions with
    the question-mark operator (\<open>try\_bind\<close>, \<open>ensure\<close>, \<open>ok\_or\<close>), options, ordered maps, and the
    locales \<open>guarded\_machine\<close> and \<open>monotone\_machine\<close>: a fold of accepted steps and the
    invariant every step keeps. Effects: the same for methods on a mutable reference, which
    keep what they wrote before an error, with the locales \<open>effect\_machine\<close> and
    \<open>forward\_machine\<close>. Rust\_Text: UTF-8 text as the list of its bytes, trimming, character
    boundaries, ASCII classes.
  \<^item> Wire\_Types, Events: the data of the log (event.rs, llm/types.rs, images.rs, artifact.rs,
    budget.rs and others), a struct as a record, an enum as a datatype with the source's
    variants and fields in the source's order.
  \<^item> Inbox (inbox.rs): two lanes of messages, claims, pauses, and their replay from the log.
  \<^item> Questions (user\_questions.rs): question cards, canonical answers, the queue.
  \<^item> Tool\_Lifecycle (session.rs): when a tool call may be recorded, approved, dispatched,
    settled.
  \<^item> Recovery, Child\_Recovery (recovery.rs, child\_recovery.rs): what a restart may resume,
    what has an unknown outcome, and when a failed child Session may be tried again.
  \<^item> Skills, Surface (skills.rs, surface.rs): loaded skills as quoted data, and the messages
    of the next model request, compactions included.
  \<^item> Replay (llm/replay.rs, llm/adapters): the private metadata of a model response and the
    four codecs that own it, as interpretations of the locale \<open>replay\_protocol\<close>.
  \<^item> Payload\_Check, Session\_Record, Session\_Append (session.rs, session/stream\_chunks.rs): the
    checks of one event alone, of its envelope, of its transition; its effect on the
    record; reloading a log; appending a batch. The locale \<open>simulation\<close> relates the record to
    the component machines: a log the store accepts is one the inbox and the tool lifecycle
    accept.
  \<^item> Terminal\_Command, Terminal\_Record, Terminal\_Events, Terminal\_Broker, Terminal\_Rollout
    (terminal\_broker.rs, terminal\_jobs.rs, terminal\_screen.rs): one command, one terminal,
    the events of the shell, all terminals, the feature flags.
  \<^item> Broker\_Invariants, Broker\_Machine, Broker\_Properties: what each operation on a terminal
    keeps, the broker as a machine of all its operations (interpreted as \<open>forward\_machine\<close>),
    and what follows for its clients.
  \<^item> Terminal\_Lease, Lease\_Machine (native/terminal\_lease.rs): the client of the broker that
    keeps the turns of the Agents on terminals, the takeover by the user and the leases of
    tool calls; the locale \<open>input\_authority\<close> states what it relies on the broker for.

  \<^item> Host\_Guard (connection.rs), Tool\_Contract (native\_contract): the hosts nothing connects
    to; the arguments of the native tools, their descriptors, and the policy engine.
  \<^item> Command\_Effect, Path\_Policy, Shell\_Guard (native/effect.rs, shell\_policy.rs,
    shell\_guard.rs): what a shell command does by its text and its syntax tree, which paths
    are protected, and the walk through a script that refuses the destruction of them.
  \<^item> Call\_Policy (native/call\_policy.rs, registry.rs, auto\_review.rs): the registry of the
    tools, the effect and the scope of a call, and when it may run without the user.
  \<^item> Capability (native/capability.rs), Mcp (native/mcp.rs): the store of capabilities; the
    configuration of MCP servers, their conversation, and JSON schemas.
  \<^item> Native\_Gate (native/runtime.rs): preparation, grant and admission of a call, up to the
    choice of its executor. Gate\_Ledger: the gate as a machine; the locale
    \<open>one\_shot\_ledger\<close> says what a store of one-use grants promises to a log of issues and
    uses, and the store is its interpretation \<open>capability\_ledger\<close>. Gate\_Properties: what an
    admission means.

  \<^item> Json\_Value: casts, equality and pointers of JSON values. Stream\_Frames
    (llm/transport/limits.rs, sse.rs, ndjson.rs), Provider\_Signals (stream.rs, llm/usage.rs):
    frames in a buffer of bytes, the errors of a provider, the token usage.
  \<^item> Stream\_Connection: the loop that every adapter runs over a streamed response, with its
    deadlines and limits, the arrivals as an explicit list. The locale \<open>framing\<close> says what
    such a loop relies on, \<open>drained\<close> adds the loop that empties the buffer; server-sent events
    and lines of JSON are their interpretations.
  \<^item> Stream\_Chat, Stream\_Responses, Stream\_Anthropic (llm/adapters): the parsers of the four
    protocols, the deltas they send, and the response made at the end. Stream\_Properties:
    chat completions do not depend on the chunks, and what was sent is what the response says.
  \<^item> Model\_Call (llm/runtime.rs, llm/replay.rs): what a prepared call makes of the response of its
    adapter before anyone sees it: blank blocks dropped, new ids for the calls, the redacted
    content the envelope is bound to.
  \<^item> Model\_Request (llm/adapters): the messages of a request in the form of each protocol.
    Anthropic\_Properties: the invariant of the Anthropic machine, and the whole trip of a response
    through the settling of its call, storage, projection and encoding back to the provider.

  What the groups of lemmas show. For each component: its operations keep its invariant
  (identities are used once, numbers have no gap, every call is answered), and its decisions
  are right on every branch (a dispatch needs an approval and is never repeated; a write is
  refused while an outcome is unknown; an answer fits its question; private provider data
  stays in its domain; a settled command stays settled; input needs its lease; a tool runs only under a
  grant for exactly its call). Between
  components: the record refines the component machines, and the fast path for stream
  chunks gives what the full path would.

  Conventions. A Rust function that returns a \<open>Result\<close> returns a sum with an error datatype of
  its component, one constructor per error string (the broker's datatype leaves the
  explanations after the code out). \<open>u64\<close> and other integers are words of their width, with
  checked and saturating arithmetic as the code writes it; lengths and readings of a clock
  are natural numbers. A hash map is a function to options, or an association list where the
  code walks it; the order of such a walk is an argument. Fresh identifiers and readings of
  the clock are arguments. Recursion is structural or has a termination proof, except four
  loops as \<open>partial\_function\<close>: the two that search a command for its program and the one that
  searches a free id for a call, proved to return, and the walk from a job to its terminal (\<open>revalidate\_chain\<close>), where a chain of jobs
  without an end is its own outcome. The depth bound 64 of
  the JSON schema check makes its recursion structural (\<open>validate\_levels\<close> with 65 levels).

  Parameters. Third-party code appears as records of functions: the JSON codec where
  lengths or parses of it matter (\<open>json\_codec\<close> in the streams, the derived codec of a log event,
  \<open>sx\_encode\<close> and \<open>sx\_decode\<close>, around the redaction of its JSON value), the receiver of the
  deltas (\<open>sink\<close>), SHA-256, the redaction of one text by regular expressions, the
  terminal emulator with the filter in front of it (crates vt100 and vte), \<open>shlex::try\_quote\<close>
  and Unicode lower case; for the gate the decoders of argument structs, the parsers of URLs and
  addresses, the syntax tree of a script (tree-sitter), the keyed hash and the digest, the
  answers of the file system (\<open>review\_env\<close>, \<open>mcp\_env\<close>, \<open>gate\_world\<close>), and the preview of a file
  operation. The properties hold for every choice of them unless a hypothesis says otherwise.

  Not modelled. The asynchronous driver of a Turn; of the model adapters the options and the sending
  of requests, the reading of HTTP error bodies and the texts of errors; the executors behind the gate (files, processes, HTTP probes,
  diagnostics, the terminal tools; of MCP the child process and its pipes), sockets (SSH,
  SFTP, forwarding), databases, the keychain, menus, the desktop pets, the Tauri commands and
  the frontend: they perform effects or present state. Of the modelled files, the format of
  the log on disk, the pages and snapshots for the frontend, the metrics and the rollout
  counters are left out. Locks are left out where a method holds one lock for its whole body,
  which makes it one step; a method that blocks on a condition variable is modelled by the
  condition and by the answer it computes from the state it finds afterwards.
\<close>

end
